(* ===== verification/Orch_Prelude.thy ===== *)
theory Orch_Prelude
  imports Complex_Main "HOL-Library.AList"
begin

text \<open>
  Shared vocabulary of the development: the error monad that stands for \<open>throw\<close>, the
  insertion-ordered objects JavaScript uses as records, JavaScript numbers, instants, JSON values
  with their structural equality, and the hint collections the component theories extend.
\<close>

named_theorems guard_defs
  \<open>definitions of the guards (the assert functions) a handler runs before it writes\<close>

named_theorems handler_defs
  \<open>definitions of the event handlers of the reducer\<close>

section \<open>Thrown errors\<close>

text \<open>
  A function that can throw returns \<open>'e + 'a\<close>: \<open>Inl\<close> is the thrown error, \<open>Inr\<close> the result. A throw
  abandons the rest of the function, which \<open>bindE\<close> expresses.
\<close>

definition bindE :: "'e + 'a \<Rightarrow> ('a \<Rightarrow> 'e + 'b) \<Rightarrow> 'e + 'b" where
  "bindE m f = (case m of Inl e \<Rightarrow> Inl e | Inr x \<Rightarrow> f x)"

lemma bindE_simps [simp]:
  "bindE (Inl e) f = Inl e"
  "bindE (Inr x) f = f x"
  by (simp_all add: bindE_def)

lemma bindE_eq_Inr [simp]: "bindE m f = Inr y \<longleftrightarrow> (\<exists>x. m = Inr x \<and> f x = Inr y)"
  by (cases m) auto

lemma bindE_eq_Inl: "bindE m f = Inl e \<longleftrightarrow> m = Inl e \<or> (\<exists>x. m = Inr x \<and> f x = Inl e)"
  by (cases m) auto

lemma bindE_cong [fundef_cong]:
  "m = m' \<Longrightarrow> (\<And>x. m' = Inr x \<Longrightarrow> f x = f' x) \<Longrightarrow> bindE m f = bindE m' f'"
  by (cases m') auto

text \<open>A \<open>for\<close> loop whose body updates a state and may throw.\<close>

fun foldE :: "('s \<Rightarrow> 'a \<Rightarrow> 'e + 's) \<Rightarrow> 's \<Rightarrow> 'a list \<Rightarrow> 'e + 's" where
  "foldE f s [] = Inr s"
| "foldE f s (x # xs) = bindE (f s x) (\<lambda>s'. foldE f s' xs)"

lemma foldE_append: "foldE f s (xs @ ys) = bindE (foldE f s xs) (\<lambda>s'. foldE f s' ys)"
  by (induction xs arbitrary: s) (auto simp: bindE_def split: sum.splits)

lemma foldE_invariant:
  assumes "foldE f s xs = Inr s'" and "P s"
    and "\<And>s x s'. x \<in> set xs \<Longrightarrow> P s \<Longrightarrow> f s x = Inr s' \<Longrightarrow> P s'"
  shows "P s'"
  using assms by (induction xs arbitrary: s) auto

lemma foldE_relation:
  assumes "foldE f s xs = Inr s'"
    and "\<And>s. R s s" and "\<And>a b c. R a b \<Longrightarrow> R b c \<Longrightarrow> R a c"
    and "\<And>s x s'. x \<in> set xs \<Longrightarrow> f s x = Inr s' \<Longrightarrow> R s s'"
  shows "R s s'"
  using assms by (induction xs arbitrary: s) (auto, metis)

text \<open>A \<open>for\<close> loop that only checks.\<close>

fun forE :: "('a \<Rightarrow> 'e + unit) \<Rightarrow> 'a list \<Rightarrow> 'e + unit" where
  "forE f [] = Inr ()"
| "forE f (x # xs) = bindE (f x) (\<lambda>_. forE f xs)"

lemma forE_eq_Inr: "forE f xs = Inr u \<longleftrightarrow> (\<forall>x \<in> set xs. f x = Inr ())"
  by (induction xs) auto

section \<open>JavaScript objects used as records\<close>

text \<open>
  A \<open>Record<string, V>\<close> is an association list in insertion order: assigning to an existing key keeps
  its place, assigning a new key appends, \<open>delete\<close> removes it, and \<open>Object.values\<close> lists the values in
  that order. Only own keys are modelled.
\<close>

type_synonym 'v js_record = "(string \<times> 'v) list"

abbreviation js_set :: "string \<Rightarrow> 'v \<Rightarrow> 'v js_record \<Rightarrow> 'v js_record" where
  "js_set \<equiv> AList.update"

abbreviation js_delete :: "string \<Rightarrow> 'v js_record \<Rightarrow> 'v js_record" where
  "js_delete \<equiv> AList.delete"

abbreviation js_values :: "'v js_record \<Rightarrow> 'v list" where
  "js_values m \<equiv> map snd m"

abbreviation js_keys :: "'v js_record \<Rightarrow> string list" where
  "js_keys m \<equiv> map fst m"

definition own_keys_distinct :: "'v js_record \<Rightarrow> bool" where
  "own_keys_distinct m \<longleftrightarrow> distinct (map fst m)"

lemma js_get_set [simp]:
  "map_of (js_set k v m) k' = (if k' = k then Some v else map_of m k')"
  by (simp add: update_conv')

lemma js_get_delete [simp]:
  "map_of (js_delete k m) k' = (if k' = k then None else map_of m k')"
  by (simp add: delete_conv')

lemma own_keys_distinct_set [simp]: "own_keys_distinct m \<Longrightarrow> own_keys_distinct (js_set k v m)"
  by (simp add: own_keys_distinct_def distinct_update)

lemma own_keys_distinct_delete [simp]: "own_keys_distinct m \<Longrightarrow> own_keys_distinct (js_delete k m)"
  by (simp add: own_keys_distinct_def distinct_delete)

lemma own_keys_distinct_Nil [simp]: "own_keys_distinct []"
  by (simp add: own_keys_distinct_def)

lemma own_entry_iff: "own_keys_distinct m \<Longrightarrow> (k, v) \<in> set m \<longleftrightarrow> map_of m k = Some v"
  by (simp add: own_keys_distinct_def)

lemma own_value_iff:
  "own_keys_distinct m \<Longrightarrow> v \<in> set (js_values m) \<longleftrightarrow> (\<exists>k. map_of m k = Some v)"
  by (force simp: own_keys_distinct_def dest: map_of_SomeD intro: map_of_is_SomeI)

lemma length_js_set:
  "length (js_set k v m) = (if map_of m k = None then Suc (length m) else length m)"
proof (induction m)
  case (Cons kv m)
  then show ?case by (cases kv) auto
qed simp

lemma js_values_set_subset: "set (js_values (js_set k v m)) \<subseteq> insert v (set (js_values m))"
proof (induction m)
  case (Cons kv m)
  then show ?case by (cases kv) auto
qed simp

section \<open>JavaScript numbers\<close>

text \<open>
  A \<open>number\<close> is an exact rational, an infinity or NaN. Rounding of results is not modelled: the code
  adds and subtracts safe integers, where IEEE doubles are exact, and monetary or millisecond amounts.
  Comparisons with NaN are false, as in the language.
\<close>

datatype jsnum = Fin rat | PosInf | NegInf | NaN

definition js_int :: "int \<Rightarrow> jsnum" where
  "js_int i = Fin (of_int i)"

fun js_is_finite :: "jsnum \<Rightarrow> bool" where
  "js_is_finite (Fin q) = True"
| "js_is_finite _ = False"

fun js_lt :: "jsnum \<Rightarrow> jsnum \<Rightarrow> bool" where
  "js_lt (Fin a) (Fin b) = (a < b)"
| "js_lt NegInf (Fin b) = True"
| "js_lt (Fin a) PosInf = True"
| "js_lt NegInf PosInf = True"
| "js_lt _ _ = False"

fun js_strict_equal :: "jsnum \<Rightarrow> jsnum \<Rightarrow> bool" where
  "js_strict_equal NaN b = False"
| "js_strict_equal a b = (a = b)"

definition js_le :: "jsnum \<Rightarrow> jsnum \<Rightarrow> bool" where
  "js_le a b \<longleftrightarrow> js_lt a b \<or> js_strict_equal a b"

fun js_add :: "jsnum \<Rightarrow> jsnum \<Rightarrow> jsnum" where
  "js_add (Fin a) (Fin b) = Fin (a + b)"
| "js_add NaN _ = NaN"
| "js_add _ NaN = NaN"
| "js_add PosInf NegInf = NaN"
| "js_add NegInf PosInf = NaN"
| "js_add PosInf _ = PosInf"
| "js_add _ PosInf = PosInf"
| "js_add NegInf _ = NegInf"
| "js_add _ NegInf = NegInf"

fun js_neg :: "jsnum \<Rightarrow> jsnum" where
  "js_neg (Fin a) = Fin (- a)"
| "js_neg PosInf = NegInf"
| "js_neg NegInf = PosInf"
| "js_neg NaN = NaN"

definition js_sub :: "jsnum \<Rightarrow> jsnum \<Rightarrow> jsnum" where
  "js_sub a b = js_add a (js_neg b)"

definition js_min :: "jsnum \<Rightarrow> jsnum \<Rightarrow> jsnum" where
  "js_min a b = (if a = NaN \<or> b = NaN then NaN else if js_lt b a then b else a)"

definition js_max :: "jsnum \<Rightarrow> jsnum \<Rightarrow> jsnum" where
  "js_max a b = (if a = NaN \<or> b = NaN then NaN else if js_lt a b then b else a)"

definition MAX_SAFE_INTEGER :: int where
  "MAX_SAFE_INTEGER = 9007199254740991"

fun js_is_safe_integer :: "jsnum \<Rightarrow> bool" where
  "js_is_safe_integer (Fin q) =
     (of_int \<lfloor>q\<rfloor> = q \<and> \<bar>\<lfloor>q\<rfloor>\<bar> \<le> MAX_SAFE_INTEGER)"
| "js_is_safe_integer _ = False"

lemma js_num_simps [simp]:
  "js_sub (Fin a) (Fin b) = Fin (a - b)"
  "js_max (Fin a) (Fin b) = Fin (max a b)"
  "js_min (Fin a) (Fin b) = Fin (min a b)"
  "js_le (Fin a) (Fin b) \<longleftrightarrow> a \<le> b"
  by (auto simp: js_sub_def js_max_def js_min_def js_le_def max_def min_def)

lemma js_le_NaN [simp]: "\<not> js_le NaN b" "\<not> js_le a NaN"
  by (cases a; cases b; simp add: js_le_def)+

lemma js_is_finite_iff: "js_is_finite a \<longleftrightarrow> (\<exists>q. a = Fin q)"
  by (cases a) auto

section \<open>Instants\<close>

text \<open>
  A timestamp is a string; the code only ever stores it, compares it for identity and reads it through
  \<open>Date.parse\<close>. It is modelled by what that reading gives: \<open>At ms\<close> is the canonical ISO string of an
  epoch millisecond, \<open>Unparsable s\<close> a string \<open>Date.parse\<close> answers NaN for.
\<close>

datatype timestamp = At int | Unparsable string

fun date_parse :: "timestamp \<Rightarrow> jsnum" where
  "date_parse (At ms) = js_int ms"
| "date_parse (Unparsable s) = NaN"

lemma date_parse_Fin: "date_parse t = Fin q \<longleftrightarrow> (\<exists>ms. t = At ms \<and> q = of_int ms)"
  by (cases t) (auto simp: js_int_def)

lemma date_parse_le [simp]: "js_le (date_parse (At a)) (date_parse (At b)) \<longleftrightarrow> a \<le> b"
  by (simp add: js_int_def)

lemma date_parse_finite [simp]: "js_is_finite (date_parse t) \<longleftrightarrow> (\<exists>ms. t = At ms)"
  by (cases t) (auto simp: js_int_def)

section \<open>JSON values\<close>

datatype json =
    JNull
  | JBool bool
  | JNumber jsnum
  | JString string
  | JArray "json list"
  | JObject "(string \<times> json) list"

text \<open>\<open>isDeepStrictEqual\<close>: arrays by position, objects by key whatever the order of the keys.\<close>

fun deep_equal :: "json \<Rightarrow> json \<Rightarrow> bool"
  and deep_equal_list :: "json list \<Rightarrow> json list \<Rightarrow> bool"
  and deep_equal_fields :: "(string \<times> json) list \<Rightarrow> (string \<times> json) list \<Rightarrow> bool" where
  "deep_equal (JArray xs) (JArray ys) = deep_equal_list xs ys"
| "deep_equal (JObject xs) (JObject ys) = (length xs = length ys \<and> deep_equal_fields xs ys)"
| "deep_equal a b = (a = b)"
| "deep_equal_list [] [] = True"
| "deep_equal_list (x # xs) (y # ys) = (deep_equal x y \<and> deep_equal_list xs ys)"
| "deep_equal_list _ _ = False"
| "deep_equal_fields [] ys = True"
| "deep_equal_fields ((k, x) # xs) ys =
     ((case map_of ys k of None \<Rightarrow> False | Some y \<Rightarrow> deep_equal x y) \<and> deep_equal_fields xs ys)"

definition deep_equal_option :: "json option \<Rightarrow> json option \<Rightarrow> bool" where
  "deep_equal_option a b =
     (case (a, b) of (None, None) \<Rightarrow> True | (Some x, Some y) \<Rightarrow> deep_equal x y | _ \<Rightarrow> False)"

text \<open>Reading a field of an object value; any other value has none.\<close>

fun json_field :: "json option \<Rightarrow> string \<Rightarrow> json option" where
  "json_field (Some (JObject fs)) k = map_of fs k"
| "json_field _ k = None"

section \<open>Truthiness\<close>

text \<open>An optional string used as a condition is false when it is absent or empty.\<close>

definition truthy :: "string option \<Rightarrow> bool" where
  "truthy s \<longleftrightarrow> s \<noteq> None \<and> s \<noteq> Some []"

lemma truthy_simps [simp]: "\<not> truthy None" "truthy (Some s) \<longleftrightarrow> s \<noteq> []"
  by (auto simp: truthy_def)

lemma truthyD: "truthy s \<Longrightarrow> \<exists>x. s = Some x \<and> x \<noteq> []"
  by (cases s) auto

section \<open>Trimming\<close>

text \<open>
  \<open>String.prototype.trim\<close> on the characters the model's strings have (code units below 256): tab to
  carriage return, space and no-break space are white space.
\<close>

definition js_space :: "char \<Rightarrow> bool" where
  "js_space c \<longleftrightarrow> (let n = of_char c in (9 \<le> n \<and> n \<le> (13 :: nat)) \<or> n = 32 \<or> n = 160)"

definition js_trim :: "string \<Rightarrow> string" where
  "js_trim s = rev (dropWhile js_space (rev (dropWhile js_space s)))"

section \<open>Searching lists\<close>

text \<open>\<open>Array.prototype.find\<close> is the library's \<open>List.find\<close>.\<close>

lemma find_SomeD: "List.find P xs = Some x \<Longrightarrow> x \<in> set xs \<and> P x"
  by (auto simp: find_Some_iff)

lemma find_NoneD: "List.find P xs = None \<Longrightarrow> \<forall>x \<in> set xs. \<not> P x"
  by (auto simp: find_None_iff)

end
