(* ===== verification/Orch_Contracts.thy ===== *)
theory Orch_Contracts
  imports Orch_Prelude
begin

text \<open>
  The durable control-plane records of \<open>core/orchestration/contracts.ts\<close> and the bounds declared
  there. Records keep the source's fields under a short prefix; a field declared optional there is an
  \<open>option\<close> here. Values the modelled code only carries (a task brief, knowledge references, a fork
  reference) are JSON values.
\<close>

section \<open>Bounds\<close>

definition ORCHESTRATION_SCHEMA_VERSION :: nat where "ORCHESTRATION_SCHEMA_VERSION = 1"

definition MAX_ORCHESTRATION_IDENTIFIER_LENGTH :: nat where "MAX_ORCHESTRATION_IDENTIFIER_LENGTH = 512"
definition MAX_ORCHESTRATION_COLLECTION_LENGTH :: nat where "MAX_ORCHESTRATION_COLLECTION_LENGTH = 64"
definition MAX_ORCHESTRATION_AGENT_BINDINGS :: nat where "MAX_ORCHESTRATION_AGENT_BINDINGS = 256"
definition MAX_ORCHESTRATION_OBJECTIVES :: nat where "MAX_ORCHESTRATION_OBJECTIVES = 256"
definition MAX_ORCHESTRATION_TASKS :: nat where "MAX_ORCHESTRATION_TASKS = 256"
definition MAX_ORCHESTRATION_ATTEMPTS :: nat where "MAX_ORCHESTRATION_ATTEMPTS = 256"
definition MAX_ORCHESTRATION_CHECKPOINTS :: nat where "MAX_ORCHESTRATION_CHECKPOINTS = 4096"
definition MAX_ORCHESTRATION_APPROVALS :: nat where "MAX_ORCHESTRATION_APPROVALS = 256"
definition MAX_ORCHESTRATION_NOTIFICATIONS :: nat where "MAX_ORCHESTRATION_NOTIFICATIONS = 512"
definition MAX_ORCHESTRATION_ATTEMPT_PARENT_WRITES :: nat where
  "MAX_ORCHESTRATION_ATTEMPT_PARENT_WRITES = 16"
definition MAX_ORCHESTRATION_OBJECTIVE_EVIDENCE :: nat where "MAX_ORCHESTRATION_OBJECTIVE_EVIDENCE = 512"
definition MAX_ORCHESTRATION_EVIDENCE :: nat where "MAX_ORCHESTRATION_EVIDENCE = 4096"
definition MAX_ORCHESTRATION_CHECKPOINT_SUMMARY_LENGTH :: nat where
  "MAX_ORCHESTRATION_CHECKPOINT_SUMMARY_LENGTH = 4 * 1024"
definition MAX_ORCHESTRATION_RETAINED_RECORD_BYTES :: nat where
  "MAX_ORCHESTRATION_RETAINED_RECORD_BYTES = 1024 * 1024"
definition MAX_ORCHESTRATION_PROJECTION_BYTES :: nat where
  "MAX_ORCHESTRATION_PROJECTION_BYTES = 24 * 1024 * 1024"

lemmas orchestration_bounds =
  ORCHESTRATION_SCHEMA_VERSION_def MAX_ORCHESTRATION_IDENTIFIER_LENGTH_def
  MAX_ORCHESTRATION_COLLECTION_LENGTH_def MAX_ORCHESTRATION_AGENT_BINDINGS_def
  MAX_ORCHESTRATION_OBJECTIVES_def MAX_ORCHESTRATION_TASKS_def MAX_ORCHESTRATION_ATTEMPTS_def
  MAX_ORCHESTRATION_CHECKPOINTS_def MAX_ORCHESTRATION_APPROVALS_def
  MAX_ORCHESTRATION_NOTIFICATIONS_def MAX_ORCHESTRATION_ATTEMPT_PARENT_WRITES_def
  MAX_ORCHESTRATION_OBJECTIVE_EVIDENCE_def MAX_ORCHESTRATION_EVIDENCE_def
  MAX_ORCHESTRATION_CHECKPOINT_SUMMARY_LENGTH_def MAX_ORCHESTRATION_RETAINED_RECORD_BYTES_def
  MAX_ORCHESTRATION_PROJECTION_BYTES_def

section \<open>Closed vocabularies\<close>

datatype WorkerRole = Orchestrator | Planner | Explorer | Implementer | Operator | Verifier | Database

datatype OrchestrationThinkingLevel =
  ThinkOff | ThinkMinimal | ThinkLow | ThinkMedium | ThinkHigh | ThinkXhigh | ThinkMax | ThinkUltra

datatype ObjectiveStatus = ObjActive | ObjPaused | ObjCompleted | ObjCancelled

datatype OrchestrationTaskStatus =
  TaskPending | TaskReady | TaskRunning | TaskBlocked | TaskCompleted | TaskFailed | TaskCancelled

datatype AttemptStatus =
  AttQueued | AttLeased | AttRunning | AttSuspended | AttCompleted | AttPartial | AttBlocked
  | AttFailed | AttCancelled | AttExpired

datatype WorkerResultStatus = ResCompleted | ResPartial | ResBlocked | ResFailed | ResCancelled

datatype AgentBindingStatus = AgentRegistered | AgentActive | AgentSuspended | AgentResuming | AgentRetired

datatype ManagedLaneLifetime = LaneRetained | LaneRetired

datatype ApprovalOutcome = Approved | Rejected

datatype CapabilityEnforcementKind = PathScope | ProcessLauncher | ServiceProxy | MemoryBroker | ControlPlane

datatype HarnessCapability =
  FilesystemRead | FilesystemWrite | ProcessExec | NetworkHttp | ServiceMcp | CredentialsUse
  | TestsExecute | WorktreeRead | WorktreeMutate | RepoRead | MemoryQuery | MemoryMutate
  | SemanticJudge | SettingsRead | SettingsWrite | SkillRead | SkillWrite | SourceRead | SourceWrite
  | ResearchExecute | WorkflowPlan | WorkflowDelegate | WorkflowMessage | PolicyModify
  | LearningPropose | PublishExecute

datatype ResourcePointerKind =
  RpRepository | RpWorktree | RpArtifact | RpEvidence | RpMemoryQuery | RpSkill | RpPrompt | RpService

datatype WorkerModelRouteSource = RouteContract | RouteInherited | RouteModelPin | RouteProfile | RouteAuthority

datatype ExecutionKind = InProcess | ManagedProcess

section \<open>Model bindings, budgets, criteria\<close>

record OrchestrationModelBinding =
  mb_provider :: string
  mb_modelId :: string
  mb_thinkingLevel :: OrchestrationThinkingLevel

datatype ModelPolicyMode = FixedModel | OrderedFallback

record OrchestrationModelPolicy =
  mp_mode :: ModelPolicyMode
  mp_candidates :: "OrchestrationModelBinding list"

record OrchestrationExecutionPolicy =
  xp_allowedExecutables :: "string list"
  xp_allowedEnvironmentVariables :: "string list"
  xp_maxOutputBytes :: jsnum

record OrchestrationDelegationLimits =
  dl_maxDepth :: jsnum
  dl_maxChildrenPerAgent :: jsnum
  dl_maxNestedAgentsPerSession :: "jsnum option"

record RiskBudget =
  maxTokens :: "jsnum option"
  maxWallClockMs :: "jsnum option"
  maxCostUsd :: "jsnum option"
  maxAttempts :: "jsnum option"
  maxToolCalls :: "jsnum option"
  requireApprovalAboveCostUsd :: "jsnum option"

record AcceptanceCriterion =
  crit_id :: string
  crit_description :: string
  crit_required :: bool
  crit_evaluator :: "string option"

record ObjectiveContract =
  obj_objectiveId :: string
  obj_schemaVersion :: nat
  obj_title :: string
  obj_description :: string
  obj_status :: ObjectiveStatus
  obj_constraints :: "string list"
  obj_acceptanceCriteria :: "AcceptanceCriterion list"
  obj_riskBudget :: RiskBudget
  obj_createdAt :: timestamp
  obj_updatedAt :: timestamp

record TaskContract =
  task_taskId :: string
  task_schemaVersion :: nat
  task_objectiveId :: string
  task_title :: string
  task_description :: string
  task_role :: WorkerRole
  task_status :: OrchestrationTaskStatus
  task_dependsOn :: "string list"
  task_requiredCapabilities :: "HarnessCapability list"
  task_acceptanceCriterionIds :: "string list"
  task_verificationOfTaskId :: "string option"
  task_verificationOfAttemptId :: "string option"
  task_riskBudget :: RiskBudget
  task_createdAt :: timestamp
  task_updatedAt :: timestamp

section \<open>Agents and resources\<close>

record ResourcePointer =
  rp_id :: string
  rp_kind :: ResourcePointerKind
  rp_uri :: string
  rp_readOnly :: bool
  rp_digest :: "string option"
  rp_metadata :: "json option"

datatype AgentProvider = ProviderPi | ProviderExternal

record AgentResumeContext =
  rc_provider :: AgentProvider
  rc_sessionId :: string
  rc_sessionDir :: "string option"
  rc_sessionFile :: "string option"
  rc_cwd :: string
  rc_worktreeLaneKey :: "string option"
  rc_orchestrationProfileId :: "string option"
  rc_resourceProfileNames :: "string list"
  rc_modelRef :: "string option"
  rc_contextPointers :: "ResourcePointer list"
  rc_latestCheckpointId :: "string option"

record AgentContextOrigin =
  co_parentSessionId :: string
  co_logicalAgentId :: string

record AgentBindingContract =
  agent_agentId :: string
  agent_resumeContext :: AgentResumeContext
  agent_schemaVersion :: nat
  agent_contextOrigin :: "AgentContextOrigin option"
  agent_parentAgentId :: "string option"
  agent_rootAgentId :: string
  agent_depth :: nat
  agent_role :: WorkerRole
  agent_status :: AgentBindingStatus
  agent_activeAttemptId :: "string option"
  agent_createdAt :: timestamp
  agent_updatedAt :: timestamp

section \<open>Execution contracts and dispatches\<close>

record OrchestrationProfile =
  pf_schemaVersion :: nat
  pf_profileId :: string
  pf_description :: string
  pf_role :: WorkerRole
  pf_modelPolicy :: OrchestrationModelPolicy
  pf_capabilityCeiling :: "HarnessCapability list"
  pf_toolNames :: "string list"
  pf_readOnly :: "bool option"
  pf_shellReadOnly :: "bool option"
  pf_workspacePath :: "string option"
  pf_writePaths :: "string list option"
  pf_resourceProfileNames :: "string list"
  pf_dispatchProfileIds :: "string list"
  pf_executionPolicy :: "OrchestrationExecutionPolicy option"
  pf_delegationLimits :: "OrchestrationDelegationLimits option"
  pf_budget :: RiskBudget
  pf_maxConcurrent :: jsnum
  pf_leaseTtlMs :: jsnum
  pf_requireIndependentVerification :: bool
  pf_verificationProfileId :: "string option"
  pf_sourcePath :: "string option"
  pf_createdAt :: timestamp
  pf_updatedAt :: timestamp

record WorkerExecutionAuthorityContract =
  wa_cwd :: "string option"
  wa_capabilities :: "HarnessCapability list"
  wa_toolNames :: "string list"
  wa_readPaths :: "string list"
  wa_writePaths :: "string list"
  wa_deniedPaths :: "string list"
  wa_budget :: RiskBudget

record WorkerProfileExecutionContract =
  wp_schemaVersion :: nat
  wp_profile :: OrchestrationProfile
  wp_modelBinding :: OrchestrationModelBinding
  wp_authority :: WorkerExecutionAuthorityContract
  wp_executionContext :: "json option"
  wp_resourcePointers :: "ResourcePointer list"
  wp_soul :: "string option"

record WorkerExecutionContract =
  wx_schemaVersion :: nat
  wx_worker :: WorkerProfileExecutionContract
  wx_verifier :: "WorkerProfileExecutionContract option"

datatype TurnOriginKind =
  OriginOwnerTyped | OriginExtensionMessage | OriginRoutine | OriginHostEvent | OriginPeerAgent
  | OriginInboundChannel | OriginOwnerChannel | OriginWorkerResult | OriginGoalContinuation
  | OriginProactiveReview | OriginHarness

text \<open>\<open>verified\<close> and \<open>thirdParty\<close> are \<open>true\<close> or absent.\<close>

record TurnOriginRecord =
  to_kind :: TurnOriginKind
  to_channel :: "string option"
  to_verified :: bool
  to_thirdParty :: bool
  to_ref :: "string option"

record WorkerReceiptOrigin =
  ro_sessionId :: string
  ro_sessionFile :: "string option"
  ro_leafId :: string

record OrchestrationDispatchRequest =
  dispatch_taskId :: string
  dispatch_knowledgeReferences :: "json option"
  dispatch_subscriptions :: "json option"
  dispatch_receiptOrigin :: "WorkerReceiptOrigin option"
  dispatch_turnOrigin :: "TurnOriginRecord option"
  dispatch_profileId :: string
  dispatch_instructions :: string
  dispatch_brief :: "json option"
  dispatch_resourcePointerIds :: "string list"
  dispatch_parentAgentId :: "string option"
  dispatch_requirementIds :: "string list"
  dispatch_executionKind :: "ExecutionKind option"
  dispatch_logicalLaneId :: "string option"
  dispatch_dispatchSequence :: "nat option"
  dispatch_controlMessageId :: "string option"
  dispatch_controlForkMode :: "string option"
  dispatch_provider :: "string option"
  dispatch_authorizationId :: "string option"
  dispatch_worktreeLaneKey :: "string option"
  dispatch_worktreeLanePath :: "string option"
  dispatch_birthContextForkReference :: "json option"
  dispatch_executionContract :: "WorkerExecutionContract option"
  dispatch_modelRouteSource :: "WorkerModelRouteSource option"
  dispatch_modelPinSource :: "string option"

section \<open>Grants, leases, retries, usage, checkpoints\<close>

record CapabilityDecision =
  cd_capability :: HarnessCapability
  cd_allow :: bool
  cd_reasonCode :: string
  cd_source :: string

record ExecutionGrant =
  grant_grantId :: string
  grant_schemaVersion :: nat
  grant_objectiveId :: string
  grant_taskId :: string
  grant_attemptId :: string
  grant_subjectId :: string
  grant_role :: WorkerRole
  grant_capabilities :: "HarnessCapability list"
  grant_allowedTools :: "string list"
  grant_resources :: "ResourcePointer list"
  grant_readPaths :: "string list"
  grant_writePaths :: "string list"
  grant_deniedPaths :: "string list"
  grant_budget :: RiskBudget
  grant_policyVersion :: string
  grant_decisionTrace :: "CapabilityDecision list"
  grant_issuedAt :: timestamp
  grant_expiresAt :: "timestamp option"

record AttemptLease =
  lease_leaseId :: string
  lease_attemptId :: string
  lease_ownerId :: string
  lease_fencingToken :: nat
  lease_issuedAt :: timestamp
  lease_expiresAt :: timestamp

record AttemptRetryState =
  retry_retriesUsed :: nat
  retry_notBefore :: timestamp

record AttemptUsageSnapshot =
  toolCalls :: jsnum
  inputTokens :: jsnum
  outputTokens :: jsnum
  cacheReadTokens :: jsnum
  cacheWriteTokens :: jsnum
  totalTokens :: jsnum
  costUsd :: jsnum
  activeWallClockMs :: jsnum

record AttemptCheckpoint =
  ck_checkpointId :: string
  ck_attemptId :: string
  ck_fencingToken :: nat
  ck_summary :: string
  ck_artifactIds :: "string list"
  ck_evidenceIds :: "string list"
  ck_usage :: "AttemptUsageSnapshot option"
  ck_createdAt :: timestamp

section \<open>Evidence and results\<close>

datatype ArtifactKind = ArtDiff | ArtFile | ArtReport | ArtTestResult | ArtLog | ArtStructuredData

record ArtifactContract =
  art_artifactId :: string
  art_kind :: ArtifactKind
  art_uri :: string
  art_digest :: "string option"
  art_sizeBytes :: "jsnum option"
  art_createdAt :: timestamp
  art_metadata :: "json option"

datatype EvidenceKind = EvObservation | EvCommand | EvTest | EvReview | EvExternal

record EvidenceContract =
  ev_evidenceId :: string
  ev_criterionId :: "string option"
  ev_kind :: EvidenceKind
  ev_summary :: string
  ev_artifactIds :: "string list"
  ev_trusted :: bool
  ev_createdAt :: timestamp
  ev_metadata :: "json option"

record WorkerErrorContract =
  we_code :: string
  we_message :: string
  we_retryable :: bool
  we_details :: "json option"

record WorkerUsageContract =
  wu_inputTokens :: "jsnum option"
  wu_outputTokens :: "jsnum option"
  wu_totalTokens :: "jsnum option"
  wu_costUsd :: "jsnum option"
  wu_wallClockMs :: jsnum
  wu_toolCalls :: jsnum

datatype AcceptanceDisposition = DispAccepted | DispParentReview | DispRejected

record WorkerReceiptAcceptance =
  wra_disposition :: AcceptanceDisposition
  wra_verificationRequired :: bool
  wra_reasonCode :: string

datatype UnavailableReason = ReceiptFactsInvalid | ReceiptFactsTooLarge

text \<open>\<open>captured\<close> carries the facts, their digest and the acceptance; \<open>unavailable\<close> a reason code.\<close>

datatype WorkerResultReceipts =
    ReceiptsCaptured json string WorkerReceiptAcceptance
  | ReceiptsUnavailable UnavailableReason

record WorkerResultContract =
  res_resultId :: string
  res_schemaVersion :: nat
  res_objectiveId :: string
  res_taskId :: string
  res_attemptId :: string
  res_leaseId :: string
  res_fencingToken :: nat
  res_status :: WorkerResultStatus
  res_reasonCode :: string
  res_summary :: string
  res_artifacts :: "ArtifactContract list"
  res_evidence :: "EvidenceContract list"
  res_errors :: "WorkerErrorContract list"
  res_nextAction :: "string option"
  res_usage :: WorkerUsageContract
  res_receipts :: "WorkerResultReceipts option"
  res_ownerUpdateNone :: bool
  res_conditionMet :: bool
  res_createdAt :: timestamp

section \<open>Approvals\<close>

record ApprovalRequestContract =
  apr_approvalId :: string
  apr_schemaVersion :: nat
  apr_objectiveId :: string
  apr_taskId :: "string option"
  apr_attemptId :: "string option"
  apr_reasonCode :: string
  apr_summary :: string
  apr_requestedCapabilities :: "HarnessCapability list"
  apr_requestedBudget :: "RiskBudget option"
  apr_reversible :: bool
  apr_createdAt :: timestamp

record ApprovalResolutionContract =
  ars_approvalId :: string
  ars_schemaVersion :: nat
  ars_outcome :: ApprovalOutcome
  ars_reasonCode :: string
  ars_resolvedAt :: timestamp

section \<open>Structural equality of records that carry JSON\<close>

definition resource_deep_equal :: "ResourcePointer \<Rightarrow> ResourcePointer \<Rightarrow> bool" where
  "resource_deep_equal a b \<longleftrightarrow>
     a\<lparr>rp_metadata := None\<rparr> = b\<lparr>rp_metadata := None\<rparr> \<and>
     deep_equal_option (rp_metadata a) (rp_metadata b)"

definition evidence_deep_equal :: "EvidenceContract \<Rightarrow> EvidenceContract \<Rightarrow> bool" where
  "evidence_deep_equal a b \<longleftrightarrow>
     a\<lparr>ev_metadata := None\<rparr> = b\<lparr>ev_metadata := None\<rparr> \<and>
     deep_equal_option (ev_metadata a) (ev_metadata b)"

definition grant_deep_equal :: "ExecutionGrant \<Rightarrow> ExecutionGrant \<Rightarrow> bool" where
  "grant_deep_equal a b \<longleftrightarrow>
     a\<lparr>grant_resources := []\<rparr> = b\<lparr>grant_resources := []\<rparr> \<and>
     list_all2 resource_deep_equal (grant_resources a) (grant_resources b)"

end
