(* ===== verification/Risk_Budget.thy ===== *)
theory Risk_Budget
  imports Orch_Contracts
begin

text \<open>
  Risk budgets (\<open>core/orchestration/risk-budget.ts\<close>): the validation every durable budget passes, the
  comparison of a request with an authority, and the intersection of independent ceilings. Fields of
  an unknown name are excluded by the type, so only the value checks are modelled.
\<close>

datatype RiskBudgetField =
  BfMaxTokens | BfMaxWallClockMs | BfMaxCostUsd | BfMaxAttempts | BfMaxToolCalls
  | BfRequireApprovalAboveCostUsd

datatype budget_error = BudgetNegative RiskBudgetField | BudgetNotSafeInteger RiskBudgetField

definition RISK_BUDGET_LIMIT_FIELDS :: "RiskBudgetField list" where
  "RISK_BUDGET_LIMIT_FIELDS =
     [BfMaxTokens, BfMaxWallClockMs, BfMaxCostUsd, BfMaxAttempts, BfMaxToolCalls]"

definition RISK_BUDGET_FIELDS :: "RiskBudgetField list" where
  "RISK_BUDGET_FIELDS = RISK_BUDGET_LIMIT_FIELDS @ [BfRequireApprovalAboveCostUsd]"

definition DISCRETE_BUDGET_FIELDS :: "RiskBudgetField set" where
  "DISCRETE_BUDGET_FIELDS = {BfMaxTokens, BfMaxWallClockMs, BfMaxAttempts, BfMaxToolCalls}"

fun budget_get :: "RiskBudget \<Rightarrow> RiskBudgetField \<Rightarrow> jsnum option" where
  "budget_get b BfMaxTokens = maxTokens b"
| "budget_get b BfMaxWallClockMs = maxWallClockMs b"
| "budget_get b BfMaxCostUsd = maxCostUsd b"
| "budget_get b BfMaxAttempts = maxAttempts b"
| "budget_get b BfMaxToolCalls = maxToolCalls b"
| "budget_get b BfRequireApprovalAboveCostUsd = requireApprovalAboveCostUsd b"

fun budget_set :: "RiskBudget \<Rightarrow> RiskBudgetField \<Rightarrow> jsnum \<Rightarrow> RiskBudget" where
  "budget_set b BfMaxTokens v = b\<lparr>maxTokens := Some v\<rparr>"
| "budget_set b BfMaxWallClockMs v = b\<lparr>maxWallClockMs := Some v\<rparr>"
| "budget_set b BfMaxCostUsd v = b\<lparr>maxCostUsd := Some v\<rparr>"
| "budget_set b BfMaxAttempts v = b\<lparr>maxAttempts := Some v\<rparr>"
| "budget_set b BfMaxToolCalls v = b\<lparr>maxToolCalls := Some v\<rparr>"
| "budget_set b BfRequireApprovalAboveCostUsd v = b\<lparr>requireApprovalAboveCostUsd := Some v\<rparr>"

definition empty_budget :: RiskBudget where
  "empty_budget = \<lparr>maxTokens = None, maxWallClockMs = None, maxCostUsd = None, maxAttempts = None,
     maxToolCalls = None, requireApprovalAboveCostUsd = None\<rparr>"

definition validate_budget_field :: "RiskBudget \<Rightarrow> RiskBudgetField \<Rightarrow> budget_error + unit" where
  "validate_budget_field b f =
     (case budget_get b f of
        None \<Rightarrow> Inr ()
      | Some v \<Rightarrow>
          if \<not> js_is_finite v \<or> js_lt v (Fin 0) then Inl (BudgetNegative f)
          else if f \<in> DISCRETE_BUDGET_FIELDS \<and> \<not> js_is_safe_integer v then Inl (BudgetNotSafeInteger f)
          else Inr ())"

definition validateRiskBudget :: "RiskBudget \<Rightarrow> budget_error + unit" where
  "validateRiskBudget b = forE (validate_budget_field b) RISK_BUDGET_FIELDS"

definition exceededRiskBudgetFields :: "RiskBudget \<Rightarrow> RiskBudget \<Rightarrow> RiskBudgetField list" where
  "exceededRiskBudgetFields requested authority =
     filter (\<lambda>f. case (budget_get requested f, budget_get authority f) of
                   (Some request, Some authorised) \<Rightarrow> js_lt authorised request
                 | _ \<Rightarrow> False)
       RISK_BUDGET_LIMIT_FIELDS"

text \<open>\<open>Math.min(...values)\<close> starts from \<open>Infinity\<close>.\<close>

definition math_min :: "jsnum list \<Rightarrow> jsnum" where
  "math_min vs = foldl js_min PosInf vs"

definition budget_field_values :: "RiskBudget list \<Rightarrow> RiskBudgetField \<Rightarrow> jsnum list" where
  "budget_field_values budgets f = List.map_filter (\<lambda>b. budget_get b f) budgets"

definition intersect_field :: "RiskBudget list \<Rightarrow> RiskBudget \<Rightarrow> RiskBudgetField \<Rightarrow> RiskBudget" where
  "intersect_field budgets result f =
     (let values = budget_field_values budgets f
      in if values \<noteq> [] then budget_set result f (math_min values) else result)"

definition intersectRiskBudgets :: "RiskBudget list \<Rightarrow> RiskBudget" where
  "intersectRiskBudgets budgets =
     (let result = foldl (intersect_field budgets) empty_budget RISK_BUDGET_FIELDS
      in case requireApprovalAboveCostUsd result of
           None \<Rightarrow> result
         | Some threshold \<Rightarrow>
             result\<lparr>maxCostUsd :=
               Some (js_min (case maxCostUsd result of None \<Rightarrow> threshold | Some c \<Rightarrow> c) threshold)\<rparr>)"

section \<open>Reading an intersection\<close>

lemma budget_get_set [simp]:
  "budget_get (budget_set b f v) g = (if g = f then Some v else budget_get b g)"
  by (cases f; cases g) simp_all

lemma budget_get_empty [simp]: "budget_get empty_budget f = None"
  by (cases f) (simp_all add: empty_budget_def)

lemma budget_get_foldl_intersect:
  "distinct fs \<Longrightarrow>
   budget_get (foldl (intersect_field bs) r fs) f =
     (if f \<in> set fs \<and> budget_field_values bs f \<noteq> []
      then Some (math_min (budget_field_values bs f)) else budget_get r f)"
  by (induction fs arbitrary: r) (auto simp: intersect_field_def Let_def)

lemma distinct_budget_fields: "distinct RISK_BUDGET_FIELDS"
  by (simp add: RISK_BUDGET_FIELDS_def RISK_BUDGET_LIMIT_FIELDS_def)

lemma all_budget_fields [simp]: "f \<in> set RISK_BUDGET_FIELDS"
  by (cases f) (simp_all add: RISK_BUDGET_FIELDS_def RISK_BUDGET_LIMIT_FIELDS_def)

lemma set_budget_field_values:
  "v \<in> set (budget_field_values bs f) \<longleftrightarrow> (\<exists>b \<in> set bs. budget_get b f = Some v)"
  unfolding budget_field_values_def by (induction bs) (auto split: option.splits)

lemma budget_get_intersect:
  "budget_get (intersectRiskBudgets bs) f =
     (let plain = (\<lambda>g. if budget_field_values bs g = [] then None
                        else Some (math_min (budget_field_values bs g)))
      in if f = BfMaxCostUsd
         then (case plain BfRequireApprovalAboveCostUsd of
                 None \<Rightarrow> plain BfMaxCostUsd
               | Some t \<Rightarrow> Some (js_min (case plain BfMaxCostUsd of None \<Rightarrow> t | Some c \<Rightarrow> c) t))
         else plain f)"
proof -
  let ?r = "foldl (intersect_field bs) empty_budget RISK_BUDGET_FIELDS"
  have get: "budget_get ?r g = (if budget_field_values bs g = [] then None
      else Some (math_min (budget_field_values bs g)))" for g
    by (simp add: budget_get_foldl_intersect distinct_budget_fields)
  from get [of BfRequireApprovalAboveCostUsd] get [of BfMaxCostUsd] get [of f] show ?thesis
    by (cases f) (auto simp: intersectRiskBudgets_def Let_def split: option.splits)
qed

section \<open>Validated budgets\<close>

lemma validated_field:
  "validateRiskBudget b = Inr () \<Longrightarrow> budget_get b f = Some v \<Longrightarrow> \<exists>q. v = Fin q \<and> 0 \<le> q"
proof -
  assume "validateRiskBudget b = Inr ()" and get: "budget_get b f = Some v"
  then have "validate_budget_field b f = Inr ()"
    by (simp add: validateRiskBudget_def forE_eq_Inr)
  with get show ?thesis
    by (cases v) (auto simp: validate_budget_field_def split: if_splits)
qed

lemma validated_discrete_field:
  "validateRiskBudget b = Inr () \<Longrightarrow> budget_get b f = Some v \<Longrightarrow> f \<in> DISCRETE_BUDGET_FIELDS \<Longrightarrow>
   js_is_safe_integer v"
proof -
  assume "validateRiskBudget b = Inr ()" and get: "budget_get b f = Some v"
    and disc: "f \<in> DISCRETE_BUDGET_FIELDS"
  then have "validate_budget_field b f = Inr ()"
    by (simp add: validateRiskBudget_def forE_eq_Inr)
  with get disc show ?thesis
    by (auto simp: validate_budget_field_def split: if_splits)
qed

lemma foldl_js_min_Fin:
  "foldl js_min (Fin a) (map Fin qs) = Fin (Min (insert a (set qs)))"
proof (induction qs arbitrary: a)
  case (Cons q qs)
  have "Min (insert (min a q) (set qs)) = Min (insert a (insert q (set qs)))"
    by (cases "set qs = {}") (simp_all add: min.assoc)
  with Cons show ?case by simp
qed simp

lemma math_min_Fin: "qs \<noteq> [] \<Longrightarrow> math_min (map Fin qs) = Fin (Min (set qs))"
proof (cases qs)
  case (Cons q rest)
  have "js_min PosInf (Fin q) = Fin q" by (simp add: js_min_def)
  with Cons show ?thesis by (simp add: math_min_def foldl_js_min_Fin)
qed simp

lemma Fin_list_conv:
  "\<forall>v \<in> set vs. \<exists>q. v = Fin q \<and> P q \<Longrightarrow> \<exists>qs. vs = map Fin qs \<and> (\<forall>q \<in> set qs. P q)"
proof (induction vs)
  case (Cons v vs)
  then obtain q qs where "v = Fin q" "P q" "vs = map Fin qs" "\<forall>q \<in> set qs. P q" by auto
  then show ?case by (intro exI [of _ "q # qs"]) simp
qed simp

lemma validated_values:
  assumes "\<forall>b \<in> set bs. validateRiskBudget b = Inr ()"
  obtains qs where "budget_field_values bs f = map Fin qs" and "\<forall>q \<in> set qs. 0 \<le> q"
proof -
  have "\<forall>v \<in> set (budget_field_values bs f). \<exists>q. v = Fin q \<and> 0 \<le> q"
  proof
    fix v assume "v \<in> set (budget_field_values bs f)"
    then obtain b where "b \<in> set bs" and "budget_get b f = Some v" by (auto simp: set_budget_field_values)
    with assms validated_field show "\<exists>q. v = Fin q \<and> 0 \<le> q" by blast
  qed
  from Fin_list_conv [OF this] that show thesis by blast
qed

lemma math_min_validated:
  assumes "\<forall>b \<in> set bs. validateRiskBudget b = Inr ()" and "budget_field_values bs f \<noteq> []"
  obtains q where "math_min (budget_field_values bs f) = Fin q"
    and "\<exists>b \<in> set bs. budget_get b f = Some (Fin q)"
    and "\<forall>b \<in> set bs. \<forall>p. budget_get b f = Some (Fin p) \<longrightarrow> q \<le> p"
proof -
  obtain qs where qs: "budget_field_values bs f = map Fin qs" by (rule validated_values [OF assms(1)])
  with assms(2) have ne: "qs \<noteq> []" by simp
  have mem: "p \<in> set qs \<longleftrightarrow> (\<exists>b \<in> set bs. budget_get b f = Some (Fin p))" for p
    using set_budget_field_values [of "Fin p" bs f] by (auto simp: qs)
  have "Min (set qs) \<in> set qs" using ne by (simp add: Min_in)
  then have "\<exists>b \<in> set bs. budget_get b f = Some (Fin (Min (set qs)))" by (simp only: mem)
  moreover have "\<forall>b \<in> set bs. \<forall>p. budget_get b f = Some (Fin p) \<longrightarrow> Min (set qs) \<le> p"
    by (metis List.finite_set Min_le mem)
  ultimately show thesis
    using that [of "Min (set qs)"] by (simp add: qs math_min_Fin [OF ne])
qed

text \<open>
  What a request may ask for under an intersection: the intersection refuses no field exactly when no
  single ceiling refuses one and the requested cost stays within every approval threshold.
\<close>

definition within_budget :: "RiskBudget \<Rightarrow> RiskBudget \<Rightarrow> bool" where
  "within_budget requested authority \<longleftrightarrow> exceededRiskBudgetFields requested authority = []"

definition field_allows :: "RiskBudget \<Rightarrow> RiskBudget \<Rightarrow> RiskBudgetField \<Rightarrow> bool" where
  "field_allows requested authority f \<longleftrightarrow>
     (\<forall>r a. budget_get requested f = Some r \<longrightarrow> budget_get authority f = Some a \<longrightarrow> \<not> js_lt a r)"

lemma within_budget_iff:
  "within_budget requested authority \<longleftrightarrow>
     (\<forall>f \<in> set RISK_BUDGET_LIMIT_FIELDS. field_allows requested authority f)"
  by (auto simp: within_budget_def exceededRiskBudgetFields_def filter_empty_conv field_allows_def
      split: option.splits)

lemma field_allows_min_iff:
  assumes valid: "\<forall>b \<in> set bs. validateRiskBudget b = Inr ()"
    and r: "budget_get requested g = Some (Fin r)"
    and ne: "budget_field_values bs f \<noteq> []"
  shows "\<not> js_lt (math_min (budget_field_values bs f)) (Fin r) \<longleftrightarrow>
     (\<forall>b \<in> set bs. \<forall>p. budget_get b f = Some (Fin p) \<longrightarrow> r \<le> p)"
proof -
  obtain q where q: "math_min (budget_field_values bs f) = Fin q"
    and ex: "\<exists>b \<in> set bs. budget_get b f = Some (Fin q)"
    and lb: "\<forall>b \<in> set bs. \<forall>p. budget_get b f = Some (Fin p) \<longrightarrow> q \<le> p"
    by (rule math_min_validated [OF valid ne])
  show ?thesis
  proof
    assume "\<not> js_lt (math_min (budget_field_values bs f)) (Fin r)"
    then have "r \<le> q" by (simp add: q)
    then show "\<forall>b \<in> set bs. \<forall>p. budget_get b f = Some (Fin p) \<longrightarrow> r \<le> p"
      using lb order_trans by blast
  next
    assume "\<forall>b \<in> set bs. \<forall>p. budget_get b f = Some (Fin p) \<longrightarrow> r \<le> p"
    with ex show "\<not> js_lt (math_min (budget_field_values bs f)) (Fin r)" by (auto simp: q)
  qed
qed

definition within_approval_threshold :: "RiskBudget \<Rightarrow> RiskBudget \<Rightarrow> bool" where
  "within_approval_threshold requested authority \<longleftrightarrow>
     (\<forall>r t. maxCostUsd requested = Some r \<longrightarrow> requireApprovalAboveCostUsd authority = Some t \<longrightarrow>
        \<not> js_lt t r)"

lemma field_allows_validated:
  assumes "validateRiskBudget b = Inr ()" and "budget_get requested f = Some (Fin r)"
  shows "field_allows requested b f \<longleftrightarrow> (\<forall>p. budget_get b f = Some (Fin p) \<longrightarrow> r \<le> p)"
proof -
  have "\<exists>p. v = Fin p" if "budget_get b f = Some v" for v
    using validated_field [OF assms(1) that] by blast
  with assms(2) show ?thesis by (fastforce simp: field_allows_def)
qed

lemma plain_field_allows:
  assumes valid: "\<forall>b \<in> set bs. validateRiskBudget b = Inr ()"
    and r: "budget_get requested f = Some (Fin r)" and f: "f \<noteq> BfMaxCostUsd"
  shows "field_allows requested (intersectRiskBudgets bs) f \<longleftrightarrow>
     (\<forall>b \<in> set bs. field_allows requested b f)"
proof (cases "budget_field_values bs f = []")
  case True
  then have "budget_get b f = None" if "b \<in> set bs" for b
    using that set_budget_field_values [of _ bs f] by (cases "budget_get b f") auto
  with True f show ?thesis by (auto simp: field_allows_def budget_get_intersect Let_def)
next
  case False
  have "field_allows requested (intersectRiskBudgets bs) f \<longleftrightarrow>
      \<not> js_lt (math_min (budget_field_values bs f)) (Fin r)"
    using f False r by (simp add: field_allows_def budget_get_intersect Let_def)
  also have "\<dots> \<longleftrightarrow> (\<forall>b \<in> set bs. \<forall>p. budget_get b f = Some (Fin p) \<longrightarrow> r \<le> p)"
    by (rule field_allows_min_iff [OF valid r False])
  finally show ?thesis using valid field_allows_validated [OF _ r] by blast
qed

lemma threshold_values:
  assumes valid: "\<forall>b \<in> set bs. validateRiskBudget b = Inr ()"
    and r: "maxCostUsd requested = Some (Fin r)"
  shows "(\<forall>b \<in> set bs. within_approval_threshold requested b) \<longleftrightarrow>
     (\<forall>b \<in> set bs. \<forall>p. budget_get b BfRequireApprovalAboveCostUsd = Some (Fin p) \<longrightarrow> r \<le> p)"
proof -
  have "\<exists>p. t = Fin p" if "b \<in> set bs" "requireApprovalAboveCostUsd b = Some t" for b t
    using that valid validated_field [of b BfRequireApprovalAboveCostUsd t] by auto
  with r show ?thesis by (fastforce simp: within_approval_threshold_def)
qed

lemma cost_field_allows:
  assumes valid: "\<forall>b \<in> set bs. validateRiskBudget b = Inr ()"
    and r: "budget_get requested BfMaxCostUsd = Some (Fin r)"
  shows "field_allows requested (intersectRiskBudgets bs) BfMaxCostUsd \<longleftrightarrow>
     (\<forall>b \<in> set bs. field_allows requested b BfMaxCostUsd \<and> within_approval_threshold requested b)"
proof -
  let ?cs = "budget_field_values bs BfMaxCostUsd"
  let ?ts = "budget_field_values bs BfRequireApprovalAboveCostUsd"
  have none: "budget_get b g = None" if "budget_field_values bs g = []" "b \<in> set bs" for b g
    using that set_budget_field_values [of _ bs g] by (cases "budget_get b g") auto
  have cs: "(\<forall>b \<in> set bs. field_allows requested b BfMaxCostUsd) \<longleftrightarrow>
      (?cs \<noteq> [] \<longrightarrow> \<not> js_lt (math_min ?cs) (Fin r))"
    using field_allows_min_iff [OF valid r, of BfMaxCostUsd] field_allows_validated [OF _ r] valid
      none [of BfMaxCostUsd] by (cases "?cs = []") auto
  have ts: "(\<forall>b \<in> set bs. within_approval_threshold requested b) \<longleftrightarrow>
      (?ts \<noteq> [] \<longrightarrow> \<not> js_lt (math_min ?ts) (Fin r))"
    using field_allows_min_iff [OF valid r, of BfRequireApprovalAboveCostUsd]
      threshold_values [OF valid, of requested r] r none [of BfRequireApprovalAboveCostUsd]
    by (cases "?ts = []") auto
  have fin: "\<exists>q. math_min (budget_field_values bs g) = Fin q" if "budget_field_values bs g \<noteq> []" for g
    by (rule math_min_validated [OF valid that]) blast
  have "field_allows requested (intersectRiskBudgets bs) BfMaxCostUsd \<longleftrightarrow>
      (?cs \<noteq> [] \<longrightarrow> \<not> js_lt (math_min ?cs) (Fin r)) \<and> (?ts \<noteq> [] \<longrightarrow> \<not> js_lt (math_min ?ts) (Fin r))"
    using fin [of BfMaxCostUsd] fin [of BfRequireApprovalAboveCostUsd] r
      budget_get_intersect [of bs BfMaxCostUsd]
    by (cases "?cs = []"; cases "?ts = []") (auto simp: field_allows_def Let_def)
  with cs ts show ?thesis by blast
qed

text \<open>
  A request is within the intersection of a set of validated ceilings exactly when it is within
  each of them and its cost stays within each approval threshold, so combining a task's, an
  objective's and a profile's budget neither widens an authority nor refuses what all of them allow.
\<close>

theorem intersect_within_iff:
  assumes "\<forall>b \<in> set bs. validateRiskBudget b = Inr ()" and "validateRiskBudget requested = Inr ()"
  shows "within_budget requested (intersectRiskBudgets bs) \<longleftrightarrow>
     (\<forall>b \<in> set bs. within_budget requested b \<and> within_approval_threshold requested b)"
proof -
  have field: "field_allows requested (intersectRiskBudgets bs) f \<longleftrightarrow>
      (\<forall>b \<in> set bs. field_allows requested b f \<and>
         (f = BfMaxCostUsd \<longrightarrow> within_approval_threshold requested b))" for f
  proof (cases "budget_get requested f")
    case None
    then show ?thesis
      by (auto simp: field_allows_def within_approval_threshold_def)
  next
    case (Some v)
    then obtain r where "budget_get requested f = Some (Fin r)" using validated_field assms(2) by blast
    with assms(1) show ?thesis
      using plain_field_allows [of bs requested f r] cost_field_allows [of bs requested r]
      by (cases "f = BfMaxCostUsd") auto
  qed
  have "BfMaxCostUsd \<in> set RISK_BUDGET_LIMIT_FIELDS" by (simp add: RISK_BUDGET_LIMIT_FIELDS_def)
  then show ?thesis by (auto simp: within_budget_iff field)
qed

theorem intersect_within_iff_witness:
  "\<exists>task objective.
     within_budget (empty_budget\<lparr>maxTokens := Some (Fin 50)\<rparr>) (intersectRiskBudgets [task, objective]) \<and>
     within_budget (empty_budget\<lparr>maxTokens := Some (Fin 50)\<rparr>) task"
proof -
  let ?task = "empty_budget\<lparr>maxTokens := Some (Fin 100), requireApprovalAboveCostUsd := Some (Fin 1)\<rparr>"
  let ?objective = "empty_budget\<lparr>maxTokens := Some (Fin 60)\<rparr>"
  let ?request = "empty_budget\<lparr>maxTokens := Some (Fin 50)\<rparr>"
  note eval = validateRiskBudget_def RISK_BUDGET_FIELDS_def RISK_BUDGET_LIMIT_FIELDS_def
    validate_budget_field_def empty_budget_def DISCRETE_BUDGET_FIELDS_def MAX_SAFE_INTEGER_def
  have valid: "\<forall>b \<in> set [?task, ?objective]. validateRiskBudget b = Inr ()" by (simp add: eval)
  have request: "validateRiskBudget ?request = Inr ()" by (simp add: eval)
  have "\<forall>b \<in> set [?task, ?objective]. within_budget ?request b \<and> within_approval_threshold ?request b"
    by (simp add: within_budget_def exceededRiskBudgetFields_def RISK_BUDGET_LIMIT_FIELDS_def
        within_approval_threshold_def empty_budget_def)
  then show ?thesis using intersect_within_iff [OF valid request] by (metis list.set_intros(1))
qed

end
