(* ===== verification/Attempt_Usage.thy ===== *)
theory Attempt_Usage
  imports Orch_Contracts
begin

text \<open>
  Cumulative usage of one execution attempt (\<open>core/orchestration/attempt-usage.ts\<close>): validation of
  usage snapshots and of provider reports, addition, the increase between two cumulative reports, the
  component-wise reconciliation of two views of the same attempt, and the token budget left.
\<close>

datatype UsageField =
  UfToolCalls | UfInputTokens | UfOutputTokens | UfCacheReadTokens | UfCacheWriteTokens
  | UfTotalTokens | UfCostUsd | UfActiveWallClockMs

text \<open>
  The errors of the usage modules. \<open>UsageField\<close> names the field an error message names; the last group
  belongs to the generation accounting of \<open>attempt-usage-generations.ts\<close>.
\<close>

datatype usage_error =
    UsageFieldInvalid UsageField
  | UsageDecreased UsageField
  | ProviderUsageInvalid string
  | GenerationFenceMismatch
  | GenerationsMissing
  | GenerationConflictingBaseline
  | GenerationLateBaseline
  | GenerationMissingBaseline
  | GenerationFenceTaken
  | GenerationNotRegistered
  | PublicationTotalMismatch
  | PublicationIdentityInvalid
  | PublicationProvenanceConflict

definition USAGE_FIELDS :: "UsageField list" where
  "USAGE_FIELDS = [UfToolCalls, UfInputTokens, UfOutputTokens, UfCacheReadTokens, UfCacheWriteTokens,
     UfTotalTokens, UfCostUsd, UfActiveWallClockMs]"

fun usage_get :: "AttemptUsageSnapshot \<Rightarrow> UsageField \<Rightarrow> jsnum" where
  "usage_get u UfToolCalls = toolCalls u"
| "usage_get u UfInputTokens = inputTokens u"
| "usage_get u UfOutputTokens = outputTokens u"
| "usage_get u UfCacheReadTokens = cacheReadTokens u"
| "usage_get u UfCacheWriteTokens = cacheWriteTokens u"
| "usage_get u UfTotalTokens = totalTokens u"
| "usage_get u UfCostUsd = costUsd u"
| "usage_get u UfActiveWallClockMs = activeWallClockMs u"

fun usage_set :: "AttemptUsageSnapshot \<Rightarrow> UsageField \<Rightarrow> jsnum \<Rightarrow> AttemptUsageSnapshot" where
  "usage_set u UfToolCalls v = u\<lparr>toolCalls := v\<rparr>"
| "usage_set u UfInputTokens v = u\<lparr>inputTokens := v\<rparr>"
| "usage_set u UfOutputTokens v = u\<lparr>outputTokens := v\<rparr>"
| "usage_set u UfCacheReadTokens v = u\<lparr>cacheReadTokens := v\<rparr>"
| "usage_set u UfCacheWriteTokens v = u\<lparr>cacheWriteTokens := v\<rparr>"
| "usage_set u UfTotalTokens v = u\<lparr>totalTokens := v\<rparr>"
| "usage_set u UfCostUsd v = u\<lparr>costUsd := v\<rparr>"
| "usage_set u UfActiveWallClockMs v = u\<lparr>activeWallClockMs := v\<rparr>"

definition EMPTY_ATTEMPT_USAGE :: AttemptUsageSnapshot where
  "EMPTY_ATTEMPT_USAGE = \<lparr>toolCalls = Fin 0, inputTokens = Fin 0, outputTokens = Fin 0,
     cacheReadTokens = Fin 0, cacheWriteTokens = Fin 0, totalTokens = Fin 0, costUsd = Fin 0,
     activeWallClockMs = Fin 0\<rparr>"

definition counted_invalid :: "jsnum \<Rightarrow> bool" where
  "counted_invalid n \<longleftrightarrow> \<not> js_is_safe_integer n \<or> js_lt n (Fin 0)"

definition measured_invalid :: "jsnum \<Rightarrow> bool" where
  "measured_invalid n \<longleftrightarrow> \<not> js_is_finite n \<or> js_lt n (Fin 0)"

definition validateAttemptUsageSnapshot :: "AttemptUsageSnapshot \<Rightarrow> usage_error + AttemptUsageSnapshot" where
  "validateAttemptUsageSnapshot usage =
     (if counted_invalid (toolCalls usage) then Inl (UsageFieldInvalid UfToolCalls)
      else if counted_invalid (inputTokens usage) then Inl (UsageFieldInvalid UfInputTokens)
      else if counted_invalid (outputTokens usage) then Inl (UsageFieldInvalid UfOutputTokens)
      else if counted_invalid (cacheReadTokens usage) then Inl (UsageFieldInvalid UfCacheReadTokens)
      else if counted_invalid (cacheWriteTokens usage) then Inl (UsageFieldInvalid UfCacheWriteTokens)
      else if counted_invalid (totalTokens usage) then Inl (UsageFieldInvalid UfTotalTokens)
      else if measured_invalid (costUsd usage) then Inl (UsageFieldInvalid UfCostUsd)
      else if measured_invalid (activeWallClockMs usage) then Inl (UsageFieldInvalid UfActiveWallClockMs)
      else Inr usage)"

text \<open>The gateway reports its wall clock under another name; the projection is validated.\<close>

record GatewayUsage =
  gw_toolCalls :: jsnum
  gw_inputTokens :: jsnum
  gw_outputTokens :: jsnum
  gw_cacheReadTokens :: jsnum
  gw_cacheWriteTokens :: jsnum
  gw_totalTokens :: jsnum
  gw_costUsd :: jsnum
  gw_wallClockMs :: jsnum

definition attemptUsageFromGatewayUsage :: "GatewayUsage \<Rightarrow> usage_error + AttemptUsageSnapshot" where
  "attemptUsageFromGatewayUsage usage = validateAttemptUsageSnapshot
     \<lparr>toolCalls = gw_toolCalls usage, inputTokens = gw_inputTokens usage,
      outputTokens = gw_outputTokens usage, cacheReadTokens = gw_cacheReadTokens usage,
      cacheWriteTokens = gw_cacheWriteTokens usage, totalTokens = gw_totalTokens usage,
      costUsd = gw_costUsd usage, activeWallClockMs = gw_wallClockMs usage\<rparr>"

text \<open>
  The source adds doubles; \<open>js_add\<close> is exact on finite numbers, so sums that are not safe integers (cost, wall clock)
  may differ from the source's by rounding.
\<close>

definition addAttemptUsage ::
  "AttemptUsageSnapshot \<Rightarrow> AttemptUsageSnapshot \<Rightarrow> usage_error + AttemptUsageSnapshot" where
  "addAttemptUsage base delta =
     bindE (validateAttemptUsageSnapshot base) (\<lambda>_.
     bindE (validateAttemptUsageSnapshot delta) (\<lambda>_.
     validateAttemptUsageSnapshot
       \<lparr>toolCalls = js_add (toolCalls base) (toolCalls delta),
        inputTokens = js_add (inputTokens base) (inputTokens delta),
        outputTokens = js_add (outputTokens base) (outputTokens delta),
        cacheReadTokens = js_add (cacheReadTokens base) (cacheReadTokens delta),
        cacheWriteTokens = js_add (cacheWriteTokens base) (cacheWriteTokens delta),
        totalTokens = js_add (totalTokens base) (totalTokens delta),
        costUsd = js_add (costUsd base) (costUsd delta),
        activeWallClockMs = js_add (activeWallClockMs base) (activeWallClockMs delta)\<rparr>))"

definition attemptUsageIncrease ::
  "AttemptUsageSnapshot \<Rightarrow> AttemptUsageSnapshot \<Rightarrow> usage_error + AttemptUsageSnapshot" where
  "attemptUsageIncrease reported previous =
     bindE (validateAttemptUsageSnapshot reported) (\<lambda>_.
     bindE (validateAttemptUsageSnapshot previous) (\<lambda>_.
     bindE (foldE (\<lambda>delta key.
              let d = js_sub (usage_get reported key) (usage_get previous key)
              in if js_lt d (Fin 0) then Inl (UsageDecreased key) else Inr (usage_set delta key d))
            EMPTY_ATTEMPT_USAGE USAGE_FIELDS)
     validateAttemptUsageSnapshot))"

definition reconcileAttemptUsage ::
  "AttemptUsageSnapshot \<Rightarrow> AttemptUsageSnapshot \<Rightarrow> usage_error + AttemptUsageSnapshot" where
  "reconcileAttemptUsage checkpoint transcript =
     bindE (validateAttemptUsageSnapshot checkpoint) (\<lambda>_.
     bindE (validateAttemptUsageSnapshot transcript) (\<lambda>_.
     validateAttemptUsageSnapshot
       \<lparr>toolCalls = js_max (toolCalls checkpoint) (toolCalls transcript),
        inputTokens = js_max (inputTokens checkpoint) (inputTokens transcript),
        outputTokens = js_max (outputTokens checkpoint) (outputTokens transcript),
        cacheReadTokens = js_max (cacheReadTokens checkpoint) (cacheReadTokens transcript),
        cacheWriteTokens = js_max (cacheWriteTokens checkpoint) (cacheWriteTokens transcript),
        totalTokens = js_max (totalTokens checkpoint) (totalTokens transcript),
        costUsd = js_max (costUsd checkpoint) (costUsd transcript),
        activeWallClockMs = js_max (activeWallClockMs checkpoint) (activeWallClockMs transcript)\<rparr>))"

definition remainingTokenBudget :: "jsnum option \<Rightarrow> AttemptUsageSnapshot \<Rightarrow> jsnum option" where
  "remainingTokenBudget max_tokens usage =
     (case max_tokens of
        None \<Rightarrow> None
      | Some limit \<Rightarrow> Some (js_max (Fin 0) (js_sub limit (totalTokens usage))))"

section \<open>Provider reports\<close>

record ProviderCost =
  pc_estimate :: bool \<comment> \<open>\<open>estimate: "base-rates"\<close> present\<close>
  pc_input :: jsnum
  pc_output :: jsnum
  pc_cacheRead :: jsnum
  pc_cacheWrite :: jsnum
  pc_total :: jsnum

record ProviderUsage =
  pu_input :: jsnum
  pu_output :: jsnum
  pu_cacheRead :: jsnum
  pu_cacheWrite :: jsnum
  pu_totalTokens :: jsnum
  pu_cost :: ProviderCost

definition provider_tokens :: "ProviderUsage \<Rightarrow> (string \<times> jsnum) list" where
  "provider_tokens usage =
     [(''input'', pu_input usage), (''output'', pu_output usage), (''cacheRead'', pu_cacheRead usage),
      (''cacheWrite'', pu_cacheWrite usage), (''totalTokens'', pu_totalTokens usage)]"

definition provider_costs :: "ProviderCost \<Rightarrow> (string \<times> jsnum) list" where
  "provider_costs cost =
     [(''input'', pc_input cost), (''output'', pc_output cost), (''cacheRead'', pc_cacheRead cost),
      (''cacheWrite'', pc_cacheWrite cost), (''total'', pc_total cost)]"

text \<open>The value checks of a report whose fields have been read (its shape is the type here).\<close>

definition validateProviderUsage :: "ProviderUsage \<Rightarrow> usage_error + ProviderUsage" where
  "validateProviderUsage usage =
     bindE (forE (\<lambda>(field, value). if counted_invalid value then Inl (ProviderUsageInvalid field) else Inr ())
              (provider_tokens usage)) (\<lambda>_.
     bindE (forE (\<lambda>(field, value). if measured_invalid value then Inl (ProviderUsageInvalid (''cost.'' @ field)) else Inr ())
              (provider_costs (pu_cost usage))) (\<lambda>_.
     Inr usage))"

text \<open>The delta a billed report adds to live accounting; \<open>toolCalls\<close> and the clock are not part of it.\<close>

definition usageDeltaFromProviderUsage ::
  "ProviderUsage \<Rightarrow> usage_error + (jsnum \<times> jsnum \<times> jsnum \<times> jsnum \<times> jsnum \<times> jsnum)" where
  "usageDeltaFromProviderUsage v =
     bindE (validateProviderUsage v) (\<lambda>usage.
     Inr (pu_input usage, pu_output usage, pu_cacheRead usage, pu_cacheWrite usage,
          pu_totalTokens usage, pc_total (pu_cost usage)))"

definition providerUsageFromAttemptUsage :: "AttemptUsageSnapshot \<Rightarrow> usage_error + ProviderUsage" where
  "providerUsageFromAttemptUsage usage =
     bindE (validateAttemptUsageSnapshot usage) (\<lambda>validated.
     Inr \<lparr>pu_input = inputTokens validated, pu_output = outputTokens validated,
          pu_cacheRead = cacheReadTokens validated, pu_cacheWrite = cacheWriteTokens validated,
          pu_totalTokens = totalTokens validated,
          pu_cost = \<lparr>pc_estimate = False, pc_input = Fin 0, pc_output = Fin 0, pc_cacheRead = Fin 0,
            pc_cacheWrite = Fin 0, pc_total = costUsd validated\<rparr>\<rparr>)"

section \<open>Amounts of a validated snapshot\<close>

definition usage_amount :: "AttemptUsageSnapshot \<Rightarrow> UsageField \<Rightarrow> rat" where
  "usage_amount u f = (case usage_get u f of Fin q \<Rightarrow> q | _ \<Rightarrow> 0)"

definition usage_valid :: "AttemptUsageSnapshot \<Rightarrow> bool" where
  "usage_valid u \<longleftrightarrow> validateAttemptUsageSnapshot u = Inr u"

lemma validate_eq_Inr [simp]: "validateAttemptUsageSnapshot u = Inr v \<longleftrightarrow> usage_valid u \<and> v = u"
  by (auto simp: usage_valid_def validateAttemptUsageSnapshot_def split: if_splits)

lemma counted_validD: "\<not> counted_invalid n \<Longrightarrow> \<exists>q. n = Fin q \<and> 0 \<le> q"
  by (cases n) (auto simp: counted_invalid_def)

lemma measured_validD: "\<not> measured_invalid n \<Longrightarrow> \<exists>q. n = Fin q \<and> 0 \<le> q"
  by (cases n) (auto simp: measured_invalid_def)

lemma all_UsageField:
  "(\<forall>f. P f) \<longleftrightarrow> P UfToolCalls \<and> P UfInputTokens \<and> P UfOutputTokens \<and> P UfCacheReadTokens \<and>
     P UfCacheWriteTokens \<and> P UfTotalTokens \<and> P UfCostUsd \<and> P UfActiveWallClockMs"
proof (intro iffI allI)
  fix f
  assume "P UfToolCalls \<and> P UfInputTokens \<and> P UfOutputTokens \<and> P UfCacheReadTokens \<and>
     P UfCacheWriteTokens \<and> P UfTotalTokens \<and> P UfCostUsd \<and> P UfActiveWallClockMs"
  then show "P f" by (cases f) simp_all
qed simp

lemma usage_valid_iff:
  "usage_valid u \<longleftrightarrow>
     (\<forall>f. if f = UfCostUsd \<or> f = UfActiveWallClockMs then \<not> measured_invalid (usage_get u f)
          else \<not> counted_invalid (usage_get u f))"
  unfolding all_UsageField usage_valid_def validateAttemptUsageSnapshot_def by simp

lemma usage_valid_Fin: "usage_valid u \<Longrightarrow> \<exists>q. usage_get u f = Fin q \<and> 0 \<le> q"
  unfolding usage_valid_iff by (drule spec [of _ f]) (auto split: if_splits dest: counted_validD measured_validD)

lemma usage_get_amount: "usage_valid u \<Longrightarrow> usage_get u f = Fin (usage_amount u f)"
  using usage_valid_Fin [of u f] by (auto simp: usage_amount_def)

lemma usage_amount_nonneg: "usage_valid u \<Longrightarrow> 0 \<le> usage_amount u f"
  using usage_valid_Fin [of u f] by (auto simp: usage_amount_def)

lemma usage_eqI:
  assumes "\<And>f. usage_get u f = usage_get v f" shows "u = v"
  using assms [of UfToolCalls] assms [of UfInputTokens] assms [of UfOutputTokens]
    assms [of UfCacheReadTokens] assms [of UfCacheWriteTokens] assms [of UfTotalTokens]
    assms [of UfCostUsd] assms [of UfActiveWallClockMs]
  by (cases u; cases v) simp

lemma usage_eq_amount_iff:
  "usage_valid u \<Longrightarrow> usage_valid v \<Longrightarrow> u = v \<longleftrightarrow> (\<forall>f. usage_amount u f = usage_amount v f)"
  by (metis usage_eqI usage_get_amount)

lemma usage_valid_empty [simp]: "usage_valid EMPTY_ATTEMPT_USAGE"
  by (simp add: usage_valid_def validateAttemptUsageSnapshot_def EMPTY_ATTEMPT_USAGE_def
      counted_invalid_def measured_invalid_def MAX_SAFE_INTEGER_def del: validate_eq_Inr)

lemma usage_amount_empty [simp]: "usage_amount EMPTY_ATTEMPT_USAGE f = 0"
  by (cases f) (simp_all add: EMPTY_ATTEMPT_USAGE_def usage_amount_def)

section \<open>The operations on amounts\<close>

lemma addAttemptUsage_amount:
  assumes "addAttemptUsage a b = Inr c"
  shows "usage_valid a" "usage_valid b" "usage_valid c"
    "usage_amount c f = usage_amount a f + usage_amount b f"
proof -
  from assms show valid: "usage_valid a" "usage_valid b" "usage_valid c"
    by (auto simp: addAttemptUsage_def)
  from assms have "usage_get c f = js_add (usage_get a f) (usage_get b f)"
    by (cases f) (auto simp: addAttemptUsage_def)
  with valid show "usage_amount c f = usage_amount a f + usage_amount b f"
    by (simp add: usage_get_amount)
qed

lemma usage_get_set: "usage_get (usage_set u f v) g = (if g = f then v else usage_get u g)"
  by (cases f; cases g) simp_all

lemma increase_fold:
  assumes "foldE (\<lambda>delta key. let d = js_sub (usage_get r key) (usage_get p key)
      in if js_lt d (Fin 0) then Inl (UsageDecreased key) else Inr (usage_set delta key d)) u fs = Inr c"
  shows "usage_get c f = (if f \<in> set fs then js_sub (usage_get r f) (usage_get p f) else usage_get u f)"
    "\<forall>f \<in> set fs. \<not> js_lt (js_sub (usage_get r f) (usage_get p f)) (Fin 0)"
  using assms by (induction fs arbitrary: u) (auto simp: Let_def usage_get_set split: if_splits)

lemma all_usage_fields [simp]: "f \<in> set USAGE_FIELDS"
  by (cases f) (simp_all add: USAGE_FIELDS_def)

lemma attemptUsageIncrease_amount:
  assumes "attemptUsageIncrease r p = Inr d"
  shows "usage_valid r" "usage_valid p" "usage_valid d"
    "usage_amount d f = usage_amount r f - usage_amount p f" "usage_amount p f \<le> usage_amount r f"
proof -
  from assms show valid: "usage_valid r" "usage_valid p" "usage_valid d"
    by (auto simp: attemptUsageIncrease_def)
  from assms have "usage_get d f = js_sub (usage_get r f) (usage_get p f)"
    and "\<not> js_lt (js_sub (usage_get r f) (usage_get p f)) (Fin 0)"
    by (auto simp: attemptUsageIncrease_def dest: increase_fold)
  with valid show "usage_amount d f = usage_amount r f - usage_amount p f"
    "usage_amount p f \<le> usage_amount r f"
    by (simp_all add: usage_get_amount)
qed

lemma reconcileAttemptUsage_amount:
  assumes "reconcileAttemptUsage a b = Inr c"
  shows "usage_valid a" "usage_valid b" "usage_valid c"
    "usage_amount c f = max (usage_amount a f) (usage_amount b f)"
proof -
  from assms show valid: "usage_valid a" "usage_valid b" "usage_valid c"
    by (auto simp: reconcileAttemptUsage_def)
  from assms have "usage_get c f = js_max (usage_get a f) (usage_get b f)"
    by (cases f) (auto simp: reconcileAttemptUsage_def)
  with valid show "usage_amount c f = max (usage_amount a f) (usage_amount b f)"
    by (simp add: usage_get_amount)
qed

end
