(* ===== verification/Usage_Generations.thy ===== *)
theory Usage_Generations
  imports Attempt_Usage "HOL-Library.Multiset"
begin

text \<open>
  Usage accounting by execution generation (\<open>core/orchestration/attempt-usage-generations.ts\<close>). Every
  lease of an attempt opens a generation with the total known at that moment as its baseline; reports
  raise the generation's counters, and the attempt's total is recomputed from all generations in
  fence order.
\<close>

record AttemptUsageGenerationIdentity =
  gid_leaseId :: string
  gid_fencingToken :: nat

record AttemptUsageGeneration =
  gen_fencingToken :: nat
  gen_baseline :: AttemptUsageSnapshot
  gen_reported :: AttemptUsageSnapshot

record AttemptUsageAccounting =
  acct_total :: AttemptUsageSnapshot
  acct_generations :: "AttemptUsageGeneration js_record"

definition sameUsage :: "AttemptUsageSnapshot \<Rightarrow> AttemptUsageSnapshot \<Rightarrow> bool" where
  "sameUsage left right \<longleftrightarrow>
     list_all (\<lambda>key. js_strict_equal (usage_get left key) (usage_get right key)) USAGE_FIELDS"

definition findUsageGeneration ::
  "AttemptUsageAccounting \<Rightarrow> AttemptUsageGenerationIdentity \<Rightarrow> usage_error + AttemptUsageGeneration option" where
  "findUsageGeneration accounting identity =
     (case map_of (acct_generations accounting) (gid_leaseId identity) of
        None \<Rightarrow> Inr None
      | Some generation \<Rightarrow>
          if gen_fencingToken generation \<noteq> gid_fencingToken identity then Inl GenerationFenceMismatch
          else Inr (Some generation))"

definition totalAttemptGenerationUsage ::
  "AttemptUsageGeneration js_record \<Rightarrow> usage_error + AttemptUsageSnapshot" where
  "totalAttemptGenerationUsage generations =
     (case sort_key gen_fencingToken (js_values generations) of
        [] \<Rightarrow> Inl GenerationsMissing
      | first # rest \<Rightarrow>
          bindE (validateAttemptUsageSnapshot (gen_baseline first)) (\<lambda>total.
          foldE (\<lambda>total generation.
                   bindE (attemptUsageIncrease (gen_reported generation) (gen_baseline generation))
                     (addAttemptUsage total))
            total (first # rest)))"

definition beginAttemptUsageGeneration ::
  "AttemptUsageAccounting option \<Rightarrow> AttemptUsageGenerationIdentity \<Rightarrow> AttemptUsageSnapshot option \<Rightarrow>
     usage_error + AttemptUsageAccounting" where
  "beginAttemptUsageGeneration accounting identity recoveryBaseline =
     bindE (case accounting of None \<Rightarrow> Inr None | Some a \<Rightarrow> findUsageGeneration a identity) (\<lambda>registered.
     case (accounting, registered) of
       (Some a, Some g) \<Rightarrow>
         (case recoveryBaseline of
            None \<Rightarrow> Inr a
          | Some baseline \<Rightarrow>
              bindE (validateAttemptUsageSnapshot baseline) (\<lambda>replayed.
              if \<not> sameUsage replayed (gen_baseline g) then Inl GenerationConflictingBaseline else Inr a))
     | _ \<Rightarrow>
         if accounting \<noteq> None \<and> recoveryBaseline \<noteq> None then Inl GenerationLateBaseline
         else if accounting = None \<and> recoveryBaseline = None then Inl GenerationMissingBaseline
         else if (case accounting of None \<Rightarrow> False
                  | Some a \<Rightarrow> \<exists>epoch \<in> set (js_values (acct_generations a)).
                               gen_fencingToken epoch = gid_fencingToken identity)
         then Inl GenerationFenceTaken
         else
           bindE (validateAttemptUsageSnapshot
                    (case accounting of Some a \<Rightarrow> acct_total a | None \<Rightarrow> the recoveryBaseline)) (\<lambda>baseline.
           Inr \<lparr>acct_total = baseline,
                acct_generations =
                  js_set (gid_leaseId identity)
                    \<lparr>gen_fencingToken = gid_fencingToken identity, gen_baseline = baseline, gen_reported = baseline\<rparr>
                    (case accounting of None \<Rightarrow> [] | Some a \<Rightarrow> acct_generations a)\<rparr>))"

definition recordAttemptGenerationUsage ::
  "AttemptUsageAccounting \<Rightarrow> AttemptUsageGenerationIdentity \<Rightarrow> AttemptUsageSnapshot \<Rightarrow>
     usage_error + AttemptUsageAccounting" where
  "recordAttemptGenerationUsage accounting identity usage =
     bindE (findUsageGeneration accounting identity) (\<lambda>found.
     case found of
       None \<Rightarrow> Inl GenerationNotRegistered
     | Some generation \<Rightarrow>
         bindE (validateAttemptUsageSnapshot usage) (\<lambda>reported.
         bindE (attemptUsageIncrease reported (gen_reported generation)) (\<lambda>delta.
         if list_all (\<lambda>key. js_strict_equal (usage_get delta key) (Fin 0)) USAGE_FIELDS
         then Inr accounting
         else
           let generations = js_set (gid_leaseId identity) (generation\<lparr>gen_reported := reported\<rparr>)
                               (acct_generations accounting)
           in bindE (totalAttemptGenerationUsage generations) (\<lambda>total.
              Inr \<lparr>acct_total = total, acct_generations = generations\<rparr>))))"

definition projectPendingAttemptGenerationUsage ::
  "AttemptUsageAccounting \<Rightarrow> AttemptUsageGenerationIdentity \<Rightarrow> AttemptUsageSnapshot \<Rightarrow>
     usage_error + AttemptUsageAccounting" where
  "projectPendingAttemptGenerationUsage accounting identity local =
     bindE (findUsageGeneration accounting identity) (\<lambda>found.
     case found of
       None \<Rightarrow> Inl GenerationNotRegistered
     | Some generation \<Rightarrow>
         bindE (reconcileAttemptUsage (gen_reported generation) local)
           (recordAttemptGenerationUsage accounting identity))"

text \<open>One registered generation of a publication, merged into the generations collected so far.\<close>

definition merge_generation ::
  "AttemptUsageGeneration js_record \<times> (nat \<times> string) list \<Rightarrow> string \<times> AttemptUsageGeneration \<Rightarrow>
     usage_error + (AttemptUsageGeneration js_record \<times> (nat \<times> string) list)" where
  "merge_generation collected entry =
     (let (generations, leasesByFence) = collected; (leaseId, generation) = entry;
          fence = gen_fencingToken generation in
      if leaseId = [] \<or> fence < 1 \<or> MAX_SAFE_INTEGER < int fence then Inl PublicationIdentityInvalid
      else if (case map_of leasesByFence fence of None \<Rightarrow> False | Some lease \<Rightarrow> lease \<noteq> leaseId)
      then Inl GenerationFenceTaken
      else
        bindE (validateAttemptUsageSnapshot (gen_baseline generation)) (\<lambda>baseline.
        bindE (validateAttemptUsageSnapshot (gen_reported generation)) (\<lambda>reported.
        let existing = map_of generations leaseId in
        if (case existing of None \<Rightarrow> False
            | Some e \<Rightarrow> gen_fencingToken e \<noteq> fence \<or> \<not> sameUsage (gen_baseline e) baseline)
        then Inl PublicationProvenanceConflict
        else
          bindE (case existing of None \<Rightarrow> Inr reported | Some e \<Rightarrow> reconcileAttemptUsage (gen_reported e) reported) (\<lambda>merged.
          Inr (js_set leaseId \<lparr>gen_fencingToken = fence, gen_baseline = baseline, gen_reported = merged\<rparr> generations,
               AList.update fence leaseId leasesByFence)))))"

definition merge_publication ::
  "AttemptUsageGeneration js_record \<times> (nat \<times> string) list \<Rightarrow> AttemptUsageAccounting \<Rightarrow>
     usage_error + (AttemptUsageGeneration js_record \<times> (nat \<times> string) list)" where
  "merge_publication collected accounting =
     bindE (validateAttemptUsageSnapshot (acct_total accounting)) (\<lambda>total.
     bindE (totalAttemptGenerationUsage (acct_generations accounting)) (\<lambda>canonical.
     if \<not> sameUsage total canonical then Inl PublicationTotalMismatch
     else foldE merge_generation collected (acct_generations accounting)))"

definition reconcileAttemptUsageAccounting ::
  "AttemptUsageAccounting option \<Rightarrow> AttemptUsageAccounting \<Rightarrow> usage_error + AttemptUsageAccounting" where
  "reconcileAttemptUsageAccounting previous incoming =
     bindE (foldE merge_publication ([], [])
              (case previous of None \<Rightarrow> [incoming] | Some p \<Rightarrow> [p, incoming])) (\<lambda>(generations, _).
     bindE (totalAttemptGenerationUsage generations) (\<lambda>total.
     Inr \<lparr>acct_total = total, acct_generations = generations\<rparr>))"

section \<open>What a total is\<close>

definition counted_field :: "UsageField \<Rightarrow> bool" where
  "counted_field f \<longleftrightarrow> f \<noteq> UfCostUsd \<and> f \<noteq> UfActiveWallClockMs"

lemma counted_invalid_Fin:
  "\<not> counted_invalid (Fin q) \<longleftrightarrow> q \<in> \<int> \<and> 0 \<le> q \<and> q \<le> of_int MAX_SAFE_INTEGER"
proof
  assume "\<not> counted_invalid (Fin q)"
  then obtain n where "q = of_int n" and "\<bar>n\<bar> \<le> MAX_SAFE_INTEGER" and "0 \<le> q"
    by (auto simp: counted_invalid_def)
  then show "q \<in> \<int> \<and> 0 \<le> q \<and> q \<le> of_int MAX_SAFE_INTEGER" by simp
next
  assume "q \<in> \<int> \<and> 0 \<le> q \<and> q \<le> of_int MAX_SAFE_INTEGER"
  then obtain n where "q = of_int n" and "0 \<le> n" and "n \<le> MAX_SAFE_INTEGER"
    by (auto elim!: Ints_cases)
  then show "\<not> counted_invalid (Fin q)" by (simp add: counted_invalid_def)
qed

lemma usage_valid_of_amounts:
  assumes get: "\<And>f. usage_get u f = Fin (q f)" and nonneg: "\<And>f. 0 \<le> q f"
    and counted: "\<And>f. counted_field f \<Longrightarrow> q f \<in> \<int> \<and> q f \<le> of_int MAX_SAFE_INTEGER"
  shows "usage_valid u"
  unfolding usage_valid_iff
proof
  fix f
  show "if f = UfCostUsd \<or> f = UfActiveWallClockMs then \<not> measured_invalid (usage_get u f)
      else \<not> counted_invalid (usage_get u f)"
    using nonneg [of f] counted [of f]
    by (auto simp: get counted_field_def measured_invalid_def counted_invalid_Fin)
qed

lemma counted_amount:
  assumes "usage_valid u" and "counted_field f"
  shows "usage_amount u f \<in> \<int>" "usage_amount u f \<le> of_int MAX_SAFE_INTEGER"
proof -
  from assms(1) have "if f = UfCostUsd \<or> f = UfActiveWallClockMs then \<not> measured_invalid (usage_get u f)
      else \<not> counted_invalid (usage_get u f)" by (simp add: usage_valid_iff)
  with assms show "usage_amount u f \<in> \<int>" "usage_amount u f \<le> of_int MAX_SAFE_INTEGER"
    by (auto simp: usage_get_amount counted_field_def counted_invalid_Fin)
qed

lemma addAttemptUsage_succeeds:
  assumes "usage_valid a" and "usage_valid b"
    and "\<And>f. counted_field f \<Longrightarrow> usage_amount a f + usage_amount b f \<le> of_int MAX_SAFE_INTEGER"
  shows "\<exists>c. addAttemptUsage a b = Inr c"
proof -
  define c where "c = \<lparr>toolCalls = js_add (toolCalls a) (toolCalls b),
        inputTokens = js_add (inputTokens a) (inputTokens b),
        outputTokens = js_add (outputTokens a) (outputTokens b),
        cacheReadTokens = js_add (cacheReadTokens a) (cacheReadTokens b),
        cacheWriteTokens = js_add (cacheWriteTokens a) (cacheWriteTokens b),
        totalTokens = js_add (totalTokens a) (totalTokens b),
        costUsd = js_add (costUsd a) (costUsd b),
        activeWallClockMs = js_add (activeWallClockMs a) (activeWallClockMs b)\<rparr>"
  have get: "usage_get c f = js_add (usage_get a f) (usage_get b f)" for f
    by (cases f) (simp_all add: c_def)
  have "usage_valid c"
  proof (rule usage_valid_of_amounts)
    show "usage_get c f = Fin (usage_amount a f + usage_amount b f)" for f
      using assms(1,2) by (simp add: get usage_get_amount)
    show "0 \<le> usage_amount a f + usage_amount b f" for f
      using assms(1,2) usage_amount_nonneg by (simp add: add_nonneg_nonneg)
    show "counted_field f \<Longrightarrow> usage_amount a f + usage_amount b f \<in> \<int>
        \<and> usage_amount a f + usage_amount b f \<le> of_int MAX_SAFE_INTEGER" for f
      using assms counted_amount Ints_add by blast
  qed
  with assms(1,2) show ?thesis by (simp add: addAttemptUsage_def c_def)
qed

lemma increase_fold_succeeds:
  assumes "\<And>f. f \<in> set fs \<Longrightarrow> \<not> js_lt (js_sub (usage_get r f) (usage_get p f)) (Fin 0)"
  shows "\<exists>c. foldE (\<lambda>delta key. let d = js_sub (usage_get r key) (usage_get p key)
      in if js_lt d (Fin 0) then Inl (UsageDecreased key) else Inr (usage_set delta key d)) u fs = Inr c"
  using assms by (induction fs arbitrary: u) (auto simp: Let_def)

lemma attemptUsageIncrease_succeeds:
  assumes r: "usage_valid r" and p: "usage_valid p" and le: "\<And>f. usage_amount p f \<le> usage_amount r f"
  shows "\<exists>d. attemptUsageIncrease r p = Inr d"
proof -
  have nneg: "\<not> js_lt (js_sub (usage_get r f) (usage_get p f)) (Fin 0)" for f
    using r p le [of f] by (simp add: usage_get_amount)
  let ?step = "\<lambda>delta key. let d = js_sub (usage_get r key) (usage_get p key)
      in if js_lt d (Fin 0) then Inl (UsageDecreased key) else Inr (usage_set delta key d)"
  obtain d where d: "foldE ?step EMPTY_ATTEMPT_USAGE USAGE_FIELDS = Inr d"
    using increase_fold_succeeds [of USAGE_FIELDS r p EMPTY_ATTEMPT_USAGE] nneg by blast
  have get: "usage_get d f = Fin (usage_amount r f - usage_amount p f)" for f
    using increase_fold(1) [OF d, of f] r p by (simp add: usage_get_amount)
  have "usage_valid d"
  proof (rule usage_valid_of_amounts [OF get])
    show "0 \<le> usage_amount r f - usage_amount p f" for f using le by simp
    show "usage_amount r f - usage_amount p f \<in> \<int>
        \<and> usage_amount r f - usage_amount p f \<le> of_int MAX_SAFE_INTEGER" if "counted_field f" for f
      using counted_amount [OF r that] counted_amount [OF p that] usage_amount_nonneg [OF p, of f]
      by (auto intro: Ints_diff)
  qed
  with r p d show ?thesis by (simp add: attemptUsageIncrease_def)
qed

text \<open>The increases of all generations, field by field; independent of any order.\<close>

definition generation_increase :: "AttemptUsageGeneration \<Rightarrow> UsageField \<Rightarrow> rat" where
  "generation_increase g f = usage_amount (gen_reported g) f - usage_amount (gen_baseline g) f"

definition increase_sum :: "AttemptUsageGeneration list \<Rightarrow> UsageField \<Rightarrow> rat" where
  "increase_sum gs f = (\<Sum>g\<leftarrow>gs. generation_increase g f)"

definition generation_ok :: "AttemptUsageGeneration \<Rightarrow> bool" where
  "generation_ok g \<longleftrightarrow> usage_valid (gen_baseline g) \<and> usage_valid (gen_reported g) \<and>
     (\<forall>f. usage_amount (gen_baseline g) f \<le> usage_amount (gen_reported g) f)"

lemma increase_sum_nonneg: "\<forall>g \<in> set gs. generation_ok g \<Longrightarrow> 0 \<le> increase_sum gs f"
  unfolding increase_sum_def
  by (induction gs) (auto simp: generation_ok_def generation_increase_def intro!: add_nonneg_nonneg)

lemma total_fold_amount:
  assumes "foldE (\<lambda>total g. bindE (attemptUsageIncrease (gen_reported g) (gen_baseline g)) (addAttemptUsage total))
      t gs = Inr t'" and "usage_valid t"
  shows "usage_valid t' \<and> (\<forall>g \<in> set gs. generation_ok g) \<and>
    (\<forall>f. usage_amount t' f = usage_amount t f + increase_sum gs f)"
  using assms
proof (induction gs arbitrary: t)
  case Nil
  then show ?case by (simp add: increase_sum_def)
next
  case (Cons g gs)
  then obtain d t1 where d: "attemptUsageIncrease (gen_reported g) (gen_baseline g) = Inr d"
    and t1: "addAttemptUsage t d = Inr t1"
    and rest: "foldE (\<lambda>total g. bindE (attemptUsageIncrease (gen_reported g) (gen_baseline g))
      (addAttemptUsage total)) t1 gs = Inr t'" by auto
  from attemptUsageIncrease_amount [OF d] have "generation_ok g" by (simp add: generation_ok_def)
  moreover from addAttemptUsage_amount [OF t1] have "usage_valid t1" by simp
  moreover note Cons.IH [OF rest]
  ultimately show ?case
    using attemptUsageIncrease_amount(4) [OF d] addAttemptUsage_amount(4) [OF t1]
    by (simp add: increase_sum_def generation_increase_def)
qed

lemma total_fold_succeeds:
  assumes "usage_valid t" and "\<forall>g \<in> set gs. generation_ok g"
    and "\<And>f. counted_field f \<Longrightarrow> usage_amount t f + increase_sum gs f \<le> of_int MAX_SAFE_INTEGER"
  shows "\<exists>t'. foldE (\<lambda>total g. bindE (attemptUsageIncrease (gen_reported g) (gen_baseline g))
      (addAttemptUsage total)) t gs = Inr t'"
  using assms
proof (induction gs arbitrary: t)
  case (Cons g gs)
  then obtain d where d: "attemptUsageIncrease (gen_reported g) (gen_baseline g) = Inr d"
    using attemptUsageIncrease_succeeds [of "gen_reported g" "gen_baseline g"]
    by (auto simp: generation_ok_def)
  have amt: "usage_amount d f = generation_increase g f" for f
    using attemptUsageIncrease_amount(4) [OF d] by (simp add: generation_increase_def)
  have bound: "usage_amount t f + usage_amount d f + increase_sum gs f \<le> of_int MAX_SAFE_INTEGER"
    if "counted_field f" for f
    using Cons.prems(3) [OF that] by (simp add: amt increase_sum_def add.assoc)
  obtain t1 where t1: "addAttemptUsage t d = Inr t1"
  proof (rule exE [OF addAttemptUsage_succeeds])
    show "usage_valid t" by (rule Cons.prems(1))
    show "usage_valid d" by (rule attemptUsageIncrease_amount(3) [OF d])
    show "usage_amount t f + usage_amount d f \<le> of_int MAX_SAFE_INTEGER" if "counted_field f" for f
      using bound [OF that] increase_sum_nonneg [of gs f] Cons.prems(2) by fastforce
  qed
  have "\<exists>t'. foldE (\<lambda>total g. bindE (attemptUsageIncrease (gen_reported g) (gen_baseline g))
      (addAttemptUsage total)) t1 gs = Inr t'"
    using addAttemptUsage_amount(3,4) [OF t1] Cons.prems(2) bound by (intro Cons.IH) auto
  with d t1 show ?case by simp
qed simp

section \<open>Totals do not depend on the order of generations\<close>

lemma hd_sort_key_least:
  assumes "xs \<noteq> []"
  shows "hd (sort_key k xs) \<in> set xs" "\<forall>x \<in> set xs. (k (hd (sort_key k xs)) :: nat) \<le> k x"
proof -
  from assms have ne: "sort_key k xs \<noteq> []" by (metis length_0_conv length_sort)
  then show "hd (sort_key k xs) \<in> set xs" using hd_in_set set_sort by metis
  have "sorted (map k (sort_key k xs))" by simp
  with ne have "\<forall>y \<in> set (sort_key k xs). k (hd (sort_key k xs)) \<le> k y"
    by (cases "sort_key k xs") auto
  then show "\<forall>x \<in> set xs. k (hd (sort_key k xs)) \<le> k x" by simp
qed

lemma increase_sum_sort: "increase_sum (sort_key k gs) f = increase_sum gs f"
  unfolding increase_sum_def by (metis mset_map mset_sort sum_mset_sum_list)

definition first_generation :: "AttemptUsageGeneration js_record \<Rightarrow> AttemptUsageGeneration" where
  "first_generation m = hd (sort_key gen_fencingToken (js_values m))"

lemma total_amount:
  assumes "totalAttemptGenerationUsage m = Inr t"
  shows "m \<noteq> []" "usage_valid t" "\<forall>g \<in> set (js_values m). generation_ok g"
    "usage_amount t f = usage_amount (gen_baseline (first_generation m)) f + increase_sum (js_values m) f"
proof -
  obtain g gs where sort: "sort_key gen_fencingToken (js_values m) = g # gs"
    and base: "usage_valid (gen_baseline g)"
    and fold: "foldE (\<lambda>total g. bindE (attemptUsageIncrease (gen_reported g) (gen_baseline g))
      (addAttemptUsage total)) (gen_baseline g) (g # gs) = Inr t"
    using assms by (auto simp: totalAttemptGenerationUsage_def split: list.splits)
  show "m \<noteq> []" using sort by auto
  have set: "set (js_values m) = set (g # gs)" by (metis set_sort sort)
  have sum: "increase_sum (js_values m) f = increase_sum (g # gs) f" by (metis increase_sum_sort sort)
  note amount = total_fold_amount [OF fold base]
  from amount show "usage_valid t" by blast
  from amount show "\<forall>g \<in> set (js_values m). generation_ok g" unfolding set by blast
  from amount show "usage_amount t f = usage_amount (gen_baseline (first_generation m)) f + increase_sum (js_values m) f"
    by (simp add: first_generation_def sort sum)
qed

lemma total_succeeds:
  assumes "m \<noteq> []" and ok: "\<forall>g \<in> set (js_values m). generation_ok g"
    and bound: "\<And>f. counted_field f \<Longrightarrow>
      usage_amount (gen_baseline (first_generation m)) f + increase_sum (js_values m) f \<le> of_int MAX_SAFE_INTEGER"
  shows "\<exists>t. totalAttemptGenerationUsage m = Inr t"
proof -
  obtain g gs where sort: "sort_key gen_fencingToken (js_values m) = g # gs"
    using assms(1) by (metis length_0_conv length_map length_sort neq_Nil_conv)
  have set: "set (js_values m) = set (g # gs)" by (metis set_sort sort)
  have sum: "increase_sum (g # gs) f = increase_sum (js_values m) f" for f by (metis increase_sum_sort sort)
  have "\<exists>t. foldE (\<lambda>total g. bindE (attemptUsageIncrease (gen_reported g) (gen_baseline g))
      (addAttemptUsage total)) (gen_baseline g) (g # gs) = Inr t"
  proof (rule total_fold_succeeds)
    show "usage_valid (gen_baseline g)" and "\<forall>g \<in> set (g # gs). generation_ok g"
      using ok unfolding set by (auto simp: generation_ok_def)
    show "counted_field f \<Longrightarrow> usage_amount (gen_baseline g) f + increase_sum (g # gs) f \<le> of_int MAX_SAFE_INTEGER" for f
      using bound [of f] unfolding sum by (simp add: first_generation_def sort)
  qed
  then show ?thesis using ok unfolding set
    by (auto simp: totalAttemptGenerationUsage_def sort generation_ok_def)
qed

lemmas usage_eval =
  totalAttemptGenerationUsage_def attemptUsageIncrease_def addAttemptUsage_def usage_valid_def
  validateAttemptUsageSnapshot_def counted_invalid_def measured_invalid_def EMPTY_ATTEMPT_USAGE_def
  USAGE_FIELDS_def MAX_SAFE_INTEGER_def Let_def

section \<open>The accounting invariant\<close>

text \<open>The stored total is the canonical total of the generations; leases and fences are one to one.\<close>

definition accounting_ok :: "AttemptUsageAccounting \<Rightarrow> bool" where
  "accounting_ok a \<longleftrightarrow>
     own_keys_distinct (acct_generations a) \<and>
     distinct (map gen_fencingToken (js_values (acct_generations a))) \<and>
     totalAttemptGenerationUsage (acct_generations a) = Inr (acct_total a)"

lemma js_values_set_same:
  "map_of m k = Some v \<Longrightarrow> h w = h v \<Longrightarrow> map h (js_values (js_set k w m)) = map h (js_values m)"
proof (induction m)
  case (Cons kv m)
  then show ?case by (cases kv) (auto split: if_splits)
qed simp

lemma sum_list_js_set:
  "map_of m k = Some v \<Longrightarrow>
   (\<Sum>g\<leftarrow>js_values (js_set k w m). h g) = (\<Sum>g\<leftarrow>js_values m. h g) - h v + (h w :: rat)"
proof (induction m)
  case (Cons kv m)
  then show ?case by (cases kv) (auto split: if_splits)
qed simp

lemma increase_sum_set:
  "map_of m k = Some g \<Longrightarrow> increase_sum (js_values (js_set k g' m)) f =
     increase_sum (js_values m) f - generation_increase g f + generation_increase g' f"
  unfolding increase_sum_def by (rule sum_list_js_set)

lemma first_generation_baseline:
  assumes "distinct (map gen_fencingToken (js_values m))" and "m \<noteq> []"
    and "map (\<lambda>g. (gen_fencingToken g, gen_baseline g)) (js_values m') =
         map (\<lambda>g. (gen_fencingToken g, gen_baseline g)) (js_values m)"
  shows "gen_baseline (first_generation m') = gen_baseline (first_generation m)"
proof -
  let ?h = "\<lambda>g. (gen_fencingToken g, gen_baseline g)"
  have ne: "js_values m \<noteq> []" "js_values m' \<noteq> []" using assms(2,3) by auto
  note least = hd_sort_key_least [OF ne(1), of gen_fencingToken] hd_sort_key_least [OF ne(2), of gen_fencingToken]
  have img: "?h ` set (js_values m') = ?h ` set (js_values m)" using assms(3) by (metis set_map)
  obtain g where g: "g \<in> set (js_values m)" and hg: "?h g = ?h (first_generation m')"
    using least(3) img by (metis (no_types, lifting) first_generation_def image_iff)
  obtain g' where g': "g' \<in> set (js_values m')" and hg': "?h g' = ?h (first_generation m)"
    using least(1) img by (metis (no_types, lifting) first_generation_def image_iff)
  have "gen_fencingToken (first_generation m) \<le> gen_fencingToken g"
    using least(2) g unfolding first_generation_def by blast
  moreover have "gen_fencingToken (first_generation m') \<le> gen_fencingToken g'"
    using least(4) g' unfolding first_generation_def by blast
  ultimately have "gen_fencingToken g = gen_fencingToken (first_generation m)"
    using hg hg' by simp
  moreover have "first_generation m \<in> set (js_values m)" using least(1) unfolding first_generation_def by blast
  ultimately have "g = first_generation m" using assms(1) g by (auto simp: distinct_map inj_on_def)
  with hg show ?thesis by simp
qed

text \<open>Raising one generation's counters, whatever its place in the fence order.\<close>

lemma total_set_reported:
  assumes ok: "accounting_ok a" and g: "map_of (acct_generations a) k = Some g"
    and t: "totalAttemptGenerationUsage (js_set k (g\<lparr>gen_reported := u\<rparr>) (acct_generations a)) = Inr t"
  shows "usage_amount t f = usage_amount (acct_total a) f + usage_amount u f - usage_amount (gen_reported g) f"
proof -
  let ?m = "acct_generations a" and ?g = "g\<lparr>gen_reported := u\<rparr>"
  from ok have total: "totalAttemptGenerationUsage ?m = Inr (acct_total a)"
    and fences: "distinct (map gen_fencingToken (js_values ?m))" by (simp_all add: accounting_ok_def)
  have "gen_baseline (first_generation (js_set k ?g ?m)) = gen_baseline (first_generation ?m)"
    by (rule first_generation_baseline [OF fences total_amount(1) [OF total]])
      (rule js_values_set_same [OF g], simp)
  then show ?thesis
    using total_amount(4) [OF t, of f] total_amount(4) [OF total, of f] increase_sum_set [OF g, of ?g f]
    by (simp add: generation_increase_def)
qed

lemma zero_delta_same:
  assumes d: "attemptUsageIncrease u r = Inr d"
    and z: "list_all (\<lambda>key. js_strict_equal (usage_get d key) (Fin 0)) USAGE_FIELDS"
  shows "u = r"
proof -
  note amt = attemptUsageIncrease_amount [OF d]
  have "usage_amount d f = 0" for f
  proof -
    have "js_strict_equal (usage_get d f) (Fin 0)"
      using z all_usage_fields [of f] unfolding list_all_iff by blast
    then show ?thesis using usage_get_amount [OF amt(3), of f] by simp
  qed
  with amt(4) have "\<forall>f. usage_amount u f = usage_amount r f" by simp
  with amt(1,2) show ?thesis by (simp add: usage_eq_amount_iff)
qed

text \<open>The two branches of a report, read as one: the generation found, raised, and totalled.\<close>

lemma recordAttemptGenerationUsage_iff:
  assumes ok: "accounting_ok a"
  shows "recordAttemptGenerationUsage a i u = Inr b \<longleftrightarrow>
    (\<exists>g. map_of (acct_generations a) (gid_leaseId i) = Some g \<and> gen_fencingToken g = gid_fencingToken i \<and>
       (\<exists>d. attemptUsageIncrease u (gen_reported g) = Inr d) \<and>
       acct_generations b = js_set (gid_leaseId i) (g\<lparr>gen_reported := u\<rparr>) (acct_generations a) \<and>
       totalAttemptGenerationUsage (acct_generations b) = Inr (acct_total b))"
  (is "_ \<longleftrightarrow> (\<exists>g. ?found g \<and> ?fence g \<and> (\<exists>d. ?inc g d) \<and> ?gens g \<and> ?total)")
proof
  assume rec: "recordAttemptGenerationUsage a i u = Inr b"
  then obtain g where g: "?found g" "?fence g"
    by (auto simp: recordAttemptGenerationUsage_def findUsageGeneration_def
        split: option.splits if_splits)
  from rec g obtain d where d: "?inc g d"
    by (auto simp: recordAttemptGenerationUsage_def findUsageGeneration_def)
  have out: "if list_all (\<lambda>key. js_strict_equal (usage_get d key) (Fin 0)) USAGE_FIELDS then b = a
      else ?gens g \<and> ?total"
    using rec g d attemptUsageIncrease_amount(1) [OF d]
    by (auto simp: recordAttemptGenerationUsage_def findUsageGeneration_def Let_def split: if_splits)
  show "\<exists>g. ?found g \<and> ?fence g \<and> (\<exists>d. ?inc g d) \<and> ?gens g \<and> ?total"
  proof (cases "list_all (\<lambda>key. js_strict_equal (usage_get d key) (Fin 0)) USAGE_FIELDS")
    case True
    with out have b: "b = a" by simp
    from zero_delta_same [OF d True] have "g\<lparr>gen_reported := u\<rparr> = g" by simp
    with g have "js_set (gid_leaseId i) (g\<lparr>gen_reported := u\<rparr>) (acct_generations a) = acct_generations a"
      by (simp add: update_triv)
    with g d ok b show ?thesis by (auto simp: accounting_ok_def)
  next
    case False
    with out g d show ?thesis by auto
  qed
next
  assume "\<exists>g. ?found g \<and> ?fence g \<and> (\<exists>d. ?inc g d) \<and> ?gens g \<and> ?total"
  then obtain g d where g: "?found g" "?fence g" and d: "?inc g d" and out: "?gens g" "?total" by blast
  show "recordAttemptGenerationUsage a i u = Inr b"
  proof (cases "list_all (\<lambda>key. js_strict_equal (usage_get d key) (Fin 0)) USAGE_FIELDS")
    case True
    from zero_delta_same [OF d True] have "g\<lparr>gen_reported := u\<rparr> = g" by simp
    with g out(1) have "acct_generations b = acct_generations a" by (simp add: update_triv)
    moreover from this out(2) ok have "acct_total b = acct_total a" by (simp add: accounting_ok_def)
    ultimately have "b = a" by simp
    with True g d attemptUsageIncrease_amount(1) [OF d] show ?thesis
      by (simp add: recordAttemptGenerationUsage_def findUsageGeneration_def)
  next
    case False
    with g d out attemptUsageIncrease_amount(1) [OF d] show ?thesis
      by (simp add: recordAttemptGenerationUsage_def findUsageGeneration_def Let_def)
  qed
qed

lemma record_accounting_ok:
  assumes ok: "accounting_ok a" and r: "recordAttemptGenerationUsage a i u = Inr b"
  shows "accounting_ok b"
proof -
  from r obtain g where g: "map_of (acct_generations a) (gid_leaseId i) = Some g"
    and b: "acct_generations b = js_set (gid_leaseId i) (g\<lparr>gen_reported := u\<rparr>) (acct_generations a)"
    and t: "totalAttemptGenerationUsage (acct_generations b) = Inr (acct_total b)"
    by (auto simp: recordAttemptGenerationUsage_iff [OF ok])
  have "map gen_fencingToken (js_values (acct_generations b)) = map gen_fencingToken (js_values (acct_generations a))"
    unfolding b by (rule js_values_set_same [OF g]) simp
  with ok t show ?thesis by (simp add: accounting_ok_def b)
qed

lemma record_total_amount:
  assumes "accounting_ok a" and "recordAttemptGenerationUsage a i u = Inr b"
  shows "accounting_ok b \<and>
    (\<exists>g. map_of (acct_generations a) (gid_leaseId i) = Some g \<and>
       (\<forall>f. usage_amount (acct_total b) f =
          usage_amount (acct_total a) f + (usage_amount u f - usage_amount (gen_reported g) f)) \<and>
       (\<forall>f. usage_amount (acct_total a) f \<le> usage_amount (acct_total b) f))"
proof -
  from assms obtain g d where g: "map_of (acct_generations a) (gid_leaseId i) = Some g"
    and d: "attemptUsageIncrease u (gen_reported g) = Inr d"
    and b: "acct_generations b = js_set (gid_leaseId i) (g\<lparr>gen_reported := u\<rparr>) (acct_generations a)"
    and t: "totalAttemptGenerationUsage (acct_generations b) = Inr (acct_total b)"
    by (auto simp: recordAttemptGenerationUsage_iff [OF assms(1)])
  have "usage_amount (acct_total b) f =
      usage_amount (acct_total a) f + (usage_amount u f - usage_amount (gen_reported g) f)" for f
    using total_set_reported [OF assms(1) g t [unfolded b], of f] by simp
  with g record_accounting_ok [OF assms] attemptUsageIncrease_amount(5) [OF d] show ?thesis by auto
qed

text \<open>
  Recording a report of a registered generation keeps the accounting canonical and raises every field of the attempt's
  total by what the report raised that generation's counters, so no charge is lost and none is counted twice. Sums are
  exact rationals here: for the token counters, which are safe integers, so are the source's doubles; for the cost and
  the active wall clock the source's sums may differ from these by rounding.
\<close>

theorem record_usage_conserves:
  assumes "accounting_ok a" and "recordAttemptGenerationUsage a i u = Inr b"
  shows "accounting_ok b \<and>
    (\<exists>g. map_of (acct_generations a) (gid_leaseId i) = Some g \<and>
       (\<forall>f. usage_amount (acct_total b) f =
          usage_amount (acct_total a) f + (usage_amount u f - usage_amount (gen_reported g) f)) \<and>
       (\<forall>f. usage_amount (acct_total a) f \<le> usage_amount (acct_total b) f))"
  by (rule record_total_amount [OF assms])

theorem record_usage_conserves_witness:
  "\<exists>b g. recordAttemptGenerationUsage
       \<lparr>acct_total = EMPTY_ATTEMPT_USAGE,
        acct_generations = [(''l1'', \<lparr>gen_fencingToken = 1, gen_baseline = EMPTY_ATTEMPT_USAGE,
          gen_reported = EMPTY_ATTEMPT_USAGE\<rparr>)]\<rparr>
       \<lparr>gid_leaseId = ''l1'', gid_fencingToken = 1\<rparr> (EMPTY_ATTEMPT_USAGE\<lparr>inputTokens := Fin 5\<rparr>) = Inr b \<and>
     map_of [(''l1'', \<lparr>gen_fencingToken = 1, gen_baseline = EMPTY_ATTEMPT_USAGE,
          gen_reported = EMPTY_ATTEMPT_USAGE\<rparr>)] ''l1'' = Some g \<and>
     usage_amount (acct_total b) UfInputTokens = 5"
proof -
  let ?g = "\<lparr>gen_fencingToken = 1, gen_baseline = EMPTY_ATTEMPT_USAGE, gen_reported = EMPTY_ATTEMPT_USAGE\<rparr>"
  let ?a = "\<lparr>acct_total = EMPTY_ATTEMPT_USAGE, acct_generations = [(''l1'', ?g)]\<rparr>"
  let ?i = "\<lparr>gid_leaseId = ''l1'', gid_fencingToken = 1\<rparr>"
  let ?u = "EMPTY_ATTEMPT_USAGE\<lparr>inputTokens := Fin 5\<rparr>"
  have ok: "accounting_ok ?a" by (simp add: accounting_ok_def own_keys_distinct_def usage_eval del: validate_eq_Inr bindE_eq_Inr)
  have run: "recordAttemptGenerationUsage ?a ?i ?u = Inr \<lparr>acct_total = ?u,
      acct_generations = [(''l1'', ?g\<lparr>gen_reported := ?u\<rparr>)]\<rparr>"
    by (simp add: recordAttemptGenerationUsage_def findUsageGeneration_def usage_eval
        del: validate_eq_Inr bindE_eq_Inr)
  from record_usage_conserves [OF ok run] have
    "usage_amount ?u UfInputTokens = usage_amount EMPTY_ATTEMPT_USAGE UfInputTokens +
       (usage_amount ?u UfInputTokens - usage_amount EMPTY_ATTEMPT_USAGE UfInputTokens)" by auto
  with run show ?thesis by (simp add: usage_amount_def)
qed

section \<open>Reports of different generations commute\<close>

lemma js_set_swap:
  "k \<noteq> k' \<Longrightarrow> map_of m k \<noteq> None \<Longrightarrow> map_of m k' \<noteq> None \<Longrightarrow>
   js_set k v (js_set k' v' m) = js_set k' v' (js_set k v m)"
proof (induction m)
  case (Cons kv m)
  show ?case
  proof (cases "fst kv = k \<or> fst kv = k'")
    case True
    then show ?thesis using Cons.prems by (cases kv) auto
  next
    case False
    with Cons show ?thesis by (cases kv) auto
  qed
qed simp

lemma accounting_generation_ok:
  "accounting_ok a \<Longrightarrow> map_of (acct_generations a) k = Some g \<Longrightarrow> generation_ok g"
  using total_amount(3) [of "acct_generations a"]
  by (force simp: accounting_ok_def dest: map_of_SomeD)

text \<open>
  Cumulative reports of two different leases of one attempt commute: whichever arrives first, both
  are accepted and the attempt ends with the same accounting, so late reports of an earlier execution
  generation can neither be lost nor counted twice.
\<close>

theorem record_usage_commutes:
  assumes ok: "accounting_ok a" and ij: "gid_leaseId i \<noteq> gid_leaseId j"
    and b: "recordAttemptGenerationUsage a i u = Inr b"
    and c: "recordAttemptGenerationUsage b j v = Inr c"
  shows "\<exists>b'. recordAttemptGenerationUsage a j v = Inr b' \<and> recordAttemptGenerationUsage b' i u = Inr c"
proof -
  let ?m = "acct_generations a" and ?i = "gid_leaseId i" and ?j = "gid_leaseId j"
  have okb: "accounting_ok b" by (rule record_accounting_ok [OF ok b])
  from b obtain g d where g: "map_of ?m ?i = Some g" "gen_fencingToken g = gid_fencingToken i"
    and d: "attemptUsageIncrease u (gen_reported g) = Inr d"
    and mb: "acct_generations b = js_set ?i (g\<lparr>gen_reported := u\<rparr>) ?m"
    by (auto simp: recordAttemptGenerationUsage_iff [OF ok])
  from c ij obtain h e where h: "map_of ?m ?j = Some h" "gen_fencingToken h = gid_fencingToken j"
    and e: "attemptUsageIncrease v (gen_reported h) = Inr e"
    and mc: "acct_generations c = js_set ?j (h\<lparr>gen_reported := v\<rparr>) (acct_generations b)"
    and tc: "totalAttemptGenerationUsage (acct_generations c) = Inr (acct_total c)"
    by (auto simp: recordAttemptGenerationUsage_iff [OF okb] mb)
  let ?m' = "js_set ?j (h\<lparr>gen_reported := v\<rparr>) ?m"
  have swap: "acct_generations c = js_set ?i (g\<lparr>gen_reported := u\<rparr>) ?m'"
    using g(1) h(1) ij by (simp add: mc mb js_set_swap)
  note inc_u = attemptUsageIncrease_amount [OF d] and inc_v = attemptUsageIncrease_amount [OF e]
  from ok have total: "totalAttemptGenerationUsage ?m = Inr (acct_total a)"
    and fences: "distinct (map gen_fencingToken (js_values ?m))" by (simp_all add: accounting_ok_def)
  have base: "gen_baseline (first_generation ?m') = gen_baseline (first_generation ?m)"
    by (rule first_generation_baseline [OF fences total_amount(1) [OF total]])
      (rule js_values_set_same [OF h(1)], simp)
  have base_c: "gen_baseline (first_generation (acct_generations c)) = gen_baseline (first_generation ?m)"
  proof (rule first_generation_baseline [OF fences total_amount(1) [OF total]])
    let ?h = "\<lambda>g. (gen_fencingToken g, gen_baseline g)"
    have "map ?h (js_values (acct_generations c)) = map ?h (js_values ?m')"
      unfolding swap by (rule js_values_set_same [where v = g]) (use g(1) ij in simp_all)
    also have "\<dots> = map ?h (js_values ?m)" by (rule js_values_set_same [OF h(1)]) simp
    finally show "map ?h (js_values (acct_generations c)) = map ?h (js_values ?m)" .
  qed
  have "\<exists>t. totalAttemptGenerationUsage ?m' = Inr t"
  proof (rule total_succeeds)
    show "?m' \<noteq> []" by (cases ?m) auto
    have "generation_ok (h\<lparr>gen_reported := v\<rparr>)"
      using accounting_generation_ok [OF ok h(1)] inc_v(1,5) by (auto simp: generation_ok_def intro: order_trans)
    then show "\<forall>g \<in> set (js_values ?m'). generation_ok g"
      using total_amount(3) [OF total] js_values_set_subset [of ?j "h\<lparr>gen_reported := v\<rparr>" ?m] by blast
    fix f assume f: "counted_field f"
    have inc: "increase_sum (js_values (acct_generations c)) f =
        increase_sum (js_values ?m') f - generation_increase g f + generation_increase (g\<lparr>gen_reported := u\<rparr>) f"
      unfolding swap by (rule increase_sum_set) (use g(1) ij in simp)
    have "usage_amount (acct_total c) f =
        usage_amount (gen_baseline (first_generation ?m)) f + increase_sum (js_values (acct_generations c)) f"
      using total_amount(4) [OF tc, of f] by (simp only: base_c)
    moreover have "generation_increase g f \<le> generation_increase (g\<lparr>gen_reported := u\<rparr>) f"
      using inc_u(5) [of f] by (simp add: generation_increase_def)
    moreover have "usage_amount (acct_total c) f \<le> of_int MAX_SAFE_INTEGER"
      using counted_amount(2) [OF total_amount(2) [OF tc] f] .
    ultimately show "usage_amount (gen_baseline (first_generation ?m')) f + increase_sum (js_values ?m') f \<le> of_int MAX_SAFE_INTEGER"
      unfolding base inc by linarith
  qed
  then obtain t where t: "totalAttemptGenerationUsage ?m' = Inr t" by blast
  let ?b = "\<lparr>acct_total = t, acct_generations = ?m'\<rparr>"
  have b': "recordAttemptGenerationUsage a j v = Inr ?b"
    using h e t by (auto simp: recordAttemptGenerationUsage_iff [OF ok])
  have "recordAttemptGenerationUsage ?b i u = Inr c"
    using g d swap tc ij by (auto simp: recordAttemptGenerationUsage_iff [OF record_accounting_ok [OF ok b']])
  with b' show ?thesis by blast
qed

section \<open>Registering a generation\<close>

lemma js_set_fresh: "map_of m k = None \<Longrightarrow> js_set k v m = m @ [(k, v)]"
  by (induction m) (auto split: if_splits)

lemma first_generation_snoc:
  assumes "m \<noteq> []" and "\<forall>h \<in> set (js_values m). gen_fencingToken h < gen_fencingToken g"
    and "distinct (map gen_fencingToken (js_values m))"
  shows "first_generation (m @ [(k, g)]) = first_generation m"
proof -
  let ?n = "m @ [(k, g)]"
  have ne: "js_values m \<noteq> []" "js_values ?n \<noteq> []" using assms(1) by auto
  note old = hd_sort_key_least [OF ne(1), of gen_fencingToken, folded first_generation_def]
  note new = hd_sort_key_least [OF ne(2), of gen_fencingToken, folded first_generation_def]
  have le: "gen_fencingToken (first_generation ?n) \<le> gen_fencingToken (first_generation m)" using new(2) old(1) by auto
  have "first_generation ?n \<noteq> g" using le assms(2) old(1) by fastforce
  with new(1) have mem: "first_generation ?n \<in> set (js_values m)" by auto
  have "gen_fencingToken (first_generation m) \<le> gen_fencingToken (first_generation ?n)" using old(2) mem by blast
  with le have "gen_fencingToken (first_generation ?n) = gen_fencingToken (first_generation m)" by simp
  moreover have "inj_on gen_fencingToken (set (js_values m))" using assms(3) unfolding distinct_map by simp
  ultimately show ?thesis using mem old(1) by (meson inj_onD)
qed

lemma begin_first_ok:
  assumes "usage_valid b"
  shows "totalAttemptGenerationUsage [(k, \<lparr>gen_fencingToken = f, gen_baseline = b, gen_reported = b\<rparr>)] = Inr b"
proof -
  let ?m = "[(k, \<lparr>gen_fencingToken = f, gen_baseline = b, gen_reported = b\<rparr>)]"
  have "\<exists>t. totalAttemptGenerationUsage ?m = Inr t"
    using assms counted_amount(2) [OF assms]
    by (intro total_succeeds) (simp_all add: generation_ok_def first_generation_def increase_sum_def generation_increase_def)
  then obtain t where t: "totalAttemptGenerationUsage ?m = Inr t" ..
  have "usage_amount t u = usage_amount b u" for u
    using total_amount(4) [OF t, of u] by (simp add: first_generation_def increase_sum_def generation_increase_def)
  then show ?thesis using t assms total_amount(2) [OF t] usage_eq_amount_iff by metis
qed

text \<open>
  A generation whose fence is above every registered one inherits the total: the accounting stays
  canonical and nothing is charged by the registration.
\<close>

lemma begin_accounting_ok:
  assumes "beginAttemptUsageGeneration acc i base = Inr b"
    and "\<And>a. acc = Some a \<Longrightarrow> accounting_ok a \<and>
      (\<forall>g \<in> set (js_values (acct_generations a)). gen_fencingToken g \<le> gid_fencingToken i)"
  shows "accounting_ok b" "\<And>a. acc = Some a \<Longrightarrow> acct_total b = acct_total a"
    "\<forall>g \<in> set (js_values (acct_generations b)). gen_fencingToken g \<le> gid_fencingToken i"
proof -
  let ?g = "\<lambda>x. \<lparr>gen_fencingToken = gid_fencingToken i, gen_baseline = x, gen_reported = x\<rparr>"
  have "accounting_ok b \<and> (\<forall>a. acc = Some a \<longrightarrow> acct_total b = acct_total a) \<and>
    (\<forall>g \<in> set (js_values (acct_generations b)). gen_fencingToken g \<le> gid_fencingToken i)"
  proof (cases acc)
    case None
    with assms(1) obtain x where "usage_valid x" "b = \<lparr>acct_total = x, acct_generations = [(gid_leaseId i, ?g x)]\<rparr>"
      by (auto simp: beginAttemptUsageGeneration_def split: if_splits)
    with None show ?thesis by (simp add: accounting_ok_def own_keys_distinct_def begin_first_ok)
  next
    case (Some a)
    let ?m = "acct_generations a"
    from assms(2) [OF Some] have ok: "accounting_ok a"
      and below: "\<forall>g \<in> set (js_values ?m). gen_fencingToken g \<le> gid_fencingToken i" by auto
    from ok have total: "totalAttemptGenerationUsage ?m = Inr (acct_total a)"
      and fences: "distinct (map gen_fencingToken (js_values ?m))" and keys: "own_keys_distinct ?m"
      by (simp_all add: accounting_ok_def)
    show ?thesis
    proof (cases "map_of ?m (gid_leaseId i)")
      case registered: (Some g)
      with assms(1) have "b = a"
        by (auto simp: Some beginAttemptUsageGeneration_def findUsageGeneration_def split: option.splits if_splits)
      with ok below Some show ?thesis by auto
    next
      case None
      note fresh = js_set_fresh [OF None]
      let ?n = "?m @ [(gid_leaseId i, ?g (acct_total a))]"
      from assms(1) None have b: "b = \<lparr>acct_total = acct_total a, acct_generations = ?n\<rparr>"
        and free: "\<forall>g \<in> set (js_values ?m). gen_fencingToken g \<noteq> gid_fencingToken i"
        by (auto simp: Some beginAttemptUsageGeneration_def findUsageGeneration_def fresh split: if_splits)
      have above: "\<forall>h \<in> set (js_values ?m). gen_fencingToken h < gen_fencingToken (?g (acct_total a))"
        using below free by (simp add: order_less_le)
      note first = first_generation_snoc [OF total_amount(1) [OF total] above fences]
      have amount: "usage_amount (gen_baseline (first_generation ?n)) u + increase_sum (js_values ?n) u = usage_amount (acct_total a) u" for u
        using total_amount(4) [OF total, of u] by (simp add: first increase_sum_def generation_increase_def)
      have "\<exists>t. totalAttemptGenerationUsage ?n = Inr t"
      proof (rule total_succeeds)
        show "\<forall>g \<in> set (js_values ?n). generation_ok g"
          using total_amount(2,3) [OF total] by (auto simp: generation_ok_def)
        show "usage_amount (gen_baseline (first_generation ?n)) u + increase_sum (js_values ?n) u \<le> of_int MAX_SAFE_INTEGER"
          if "counted_field u" for u
          unfolding amount by (rule counted_amount(2) [OF total_amount(2) [OF total] that])
      qed simp
      then obtain t where t: "totalAttemptGenerationUsage ?n = Inr t" ..
      have "usage_amount t u = usage_amount (acct_total a) u" for u
        using total_amount(4) [OF t, of u] amount [of u] by simp
      then have "t = acct_total a" using total_amount(2) [OF t] total_amount(2) [OF total] usage_eq_amount_iff by metis
      moreover have "own_keys_distinct ?n" using own_keys_distinct_set [OF keys] by (metis fresh)
      moreover have "distinct (map gen_fencingToken (js_values ?n))" using fences free by auto
      ultimately show ?thesis using t below by (auto simp: b Some accounting_ok_def)
    qed
  qed
  then show "accounting_ok b" "\<And>a. acc = Some a \<Longrightarrow> acct_total b = acct_total a"
    "\<forall>g \<in> set (js_values (acct_generations b)). gen_fencingToken g \<le> gid_fencingToken i" by auto
qed

end
