(* ===== verification/Sequence_Ranges.thy ===== *)
theory Sequence_Ranges
  imports Orch_Prelude
begin

text \<open>
  The position bookkeeping of one consumer of a host event source (\<open>core/events/host-event-contract.ts\<close>):
  sorted, disjoint runs of positions never accepted, with the operations that add a replay gap, remove
  an accepted snapshot and keep the number of runs bounded.
\<close>

record HostEventSequenceRange =
  rng_from :: nat
  rng_through :: nat

definition MAX_HOST_EVENT_UNACCEPTED_RANGES :: nat where "MAX_HOST_EVENT_UNACCEPTED_RANGES = 256"

definition in_range :: "HostEventSequenceRange \<Rightarrow> nat \<Rightarrow> bool" where
  "in_range r sequence \<longleftrightarrow> rng_from r \<le> sequence \<and> sequence \<le> rng_through r"

definition hostEventSequenceUnaccepted :: "HostEventSequenceRange list \<Rightarrow> nat \<Rightarrow> bool" where
  "hostEventSequenceUnaccepted ranges sequence \<longleftrightarrow> (\<exists>r \<in> set ranges. in_range r sequence)"

definition hostEventSequenceRetired :: "nat \<Rightarrow> HostEventSequenceRange list \<Rightarrow> nat \<Rightarrow> bool" where
  "hostEventSequenceRetired retired_through unaccepted sequence \<longleftrightarrow>
     sequence \<le> retired_through \<and> \<not> hostEventSequenceUnaccepted unaccepted sequence"

text \<open>The callers' bound is positive, so a second range exists whenever the bound is exceeded.\<close>

fun coalesceLowestRanges :: "HostEventSequenceRange list \<Rightarrow> nat \<Rightarrow> HostEventSequenceRange list" where
  "coalesceLowestRanges (first # second # rest) bound =
     (if bound < length (first # second # rest)
      then coalesceLowestRanges (\<lparr>rng_from = rng_from first, rng_through = rng_through second\<rparr> # rest) bound
      else first # second # rest)"
| "coalesceLowestRanges ranges bound = ranges"

definition merge_range ::
  "HostEventSequenceRange list \<Rightarrow> HostEventSequenceRange \<Rightarrow> HostEventSequenceRange list" where
  "merge_range merged rng =
     (if merged \<noteq> [] \<and> rng_from rng \<le> rng_through (last merged) + 1
      then butlast merged @ [\<lparr>rng_from = rng_from (last merged),
             rng_through = max (rng_through (last merged)) (rng_through rng)\<rparr>]
      else merged @ [rng])"

definition mergeSequenceRanges ::
  "HostEventSequenceRange list \<Rightarrow> HostEventSequenceRange \<Rightarrow> nat \<Rightarrow> HostEventSequenceRange list" where
  "mergeSequenceRanges ranges added bound =
     coalesceLowestRanges (foldl merge_range [] (sort_key rng_from (ranges @ [added]))) bound"

definition hostEventUnacceptedWith ::
  "HostEventSequenceRange list \<Rightarrow> HostEventSequenceRange \<Rightarrow> HostEventSequenceRange list" where
  "hostEventUnacceptedWith ranges added = mergeSequenceRanges ranges added MAX_HOST_EVENT_UNACCEPTED_RANGES"

definition split_range :: "nat \<Rightarrow> HostEventSequenceRange \<Rightarrow> HostEventSequenceRange list" where
  "split_range sequence rng =
     (if sequence < rng_from rng \<or> rng_through rng < sequence then [rng]
      else (if rng_from rng < sequence then [\<lparr>rng_from = rng_from rng, rng_through = sequence - 1\<rparr>] else []) @
           (if sequence < rng_through rng then [\<lparr>rng_from = sequence + 1, rng_through = rng_through rng\<rparr>] else []))"

definition hostEventUnacceptedWithout ::
  "HostEventSequenceRange list \<Rightarrow> nat \<Rightarrow> HostEventSequenceRange list" where
  "hostEventUnacceptedWithout ranges sequence =
     coalesceLowestRanges (concat (map (split_range sequence) ranges)) MAX_HOST_EVENT_UNACCEPTED_RANGES"

section \<open>Sorted, disjoint, merged\<close>

text \<open>The shape \<open>parseHostEventSequenceRanges\<close> demands of a stored list.\<close>

definition apart :: "HostEventSequenceRange \<Rightarrow> HostEventSequenceRange \<Rightarrow> bool" where
  "apart a b \<longleftrightarrow> rng_through a + 1 < rng_from b"

definition ranges_ok :: "HostEventSequenceRange list \<Rightarrow> bool" where
  "ranges_ok rs \<longleftrightarrow> (\<forall>r \<in> set rs. rng_from r \<le> rng_through r) \<and> sorted_wrt apart rs"

lemma ranges_ok_simps [simp]:
  "ranges_ok []"
  "ranges_ok (r # rs) \<longleftrightarrow> rng_from r \<le> rng_through r \<and> (\<forall>s \<in> set rs. apart r s) \<and> ranges_ok rs"
  by (auto simp: ranges_ok_def)

lemma ranges_ok_append:
  "ranges_ok (xs @ ys) \<longleftrightarrow> ranges_ok xs \<and> ranges_ok ys \<and> (\<forall>x \<in> set xs. \<forall>y \<in> set ys. apart x y)"
  by (induction xs) auto

lemma unaccepted_simps [simp]:
  "\<not> hostEventSequenceUnaccepted [] t"
  "hostEventSequenceUnaccepted (r # rs) t \<longleftrightarrow> in_range r t \<or> hostEventSequenceUnaccepted rs t"
  "hostEventSequenceUnaccepted (xs @ ys) t \<longleftrightarrow>
     hostEventSequenceUnaccepted xs t \<or> hostEventSequenceUnaccepted ys t"
  by (auto simp: hostEventSequenceUnaccepted_def)

lemma unaccepted_set:
  "set xs = set ys \<Longrightarrow> hostEventSequenceUnaccepted xs t \<longleftrightarrow> hostEventSequenceUnaccepted ys t"
  by (simp add: hostEventSequenceUnaccepted_def)

section \<open>Coalescing\<close>

lemma coalesce_ok: "ranges_ok rs \<Longrightarrow> ranges_ok (coalesceLowestRanges rs bound)"
  by (induction rs bound rule: coalesceLowestRanges.induct) (auto simp: apart_def)

lemma coalesce_short: "length rs \<le> bound \<Longrightarrow> coalesceLowestRanges rs bound = rs"
  by (induction rs bound rule: coalesceLowestRanges.induct) auto

lemma coalesce_length: "0 < bound \<Longrightarrow> length (coalesceLowestRanges rs bound) \<le> bound"
  by (induction rs bound rule: coalesceLowestRanges.induct) auto

lemma unaccepted_bound_positive: "0 < MAX_HOST_EVENT_UNACCEPTED_RANGES"
  by (simp add: MAX_HOST_EVENT_UNACCEPTED_RANGES_def)

lemma coalesce_covers:
  "ranges_ok rs \<Longrightarrow> hostEventSequenceUnaccepted rs t \<Longrightarrow>
   hostEventSequenceUnaccepted (coalesceLowestRanges rs bound) t"
proof (induction rs bound rule: coalesceLowestRanges.induct)
  case (1 first second rest bound)
  then show ?case by (auto simp: in_range_def apart_def)
qed auto

section \<open>Merging\<close>

lemma merge_range_snoc:
  "merge_range (ms @ [l]) r =
     (if rng_from r \<le> rng_through l + 1
      then ms @ [\<lparr>rng_from = rng_from l, rng_through = max (rng_through l) (rng_through r)\<rparr>]
      else ms @ [l, r])"
  by (simp add: merge_range_def)

lemma merge_ranges_fold:
  assumes "ranges_ok merged" and "\<forall>x \<in> set xs. rng_from x \<le> rng_through x"
    and "sorted (map rng_from xs)" and "\<forall>m \<in> set merged. \<forall>x \<in> set xs. rng_from m \<le> rng_from x"
  shows "ranges_ok (foldl merge_range merged xs) \<and>
    (\<forall>t. hostEventSequenceUnaccepted (foldl merge_range merged xs) t \<longleftrightarrow>
       hostEventSequenceUnaccepted merged t \<or> hostEventSequenceUnaccepted xs t) \<and>
    length (foldl merge_range merged xs) \<le> length merged + length xs"
  using assms
proof (induction xs arbitrary: merged)
  case (Cons x xs)
  have step: "ranges_ok (merge_range merged x) \<and>
      (\<forall>t. hostEventSequenceUnaccepted (merge_range merged x) t \<longleftrightarrow>
         hostEventSequenceUnaccepted merged t \<or> in_range x t) \<and>
      (\<forall>m \<in> set (merge_range merged x). \<forall>y \<in> set xs. rng_from m \<le> rng_from y) \<and>
      length (merge_range merged x) \<le> Suc (length merged)"
  proof (cases merged rule: rev_cases)
    case Nil
    then show ?thesis using Cons.prems by (simp add: merge_range_def)
  next
    case (snoc ms l)
    show ?thesis
    proof (cases "rng_from x \<le> rng_through l + 1")
      case True
      then show ?thesis using Cons.prems
        by (auto simp: snoc merge_range_snoc ranges_ok_append apart_def in_range_def)
    next
      case False
      then show ?thesis using Cons.prems
        by (fastforce simp: snoc merge_range_snoc ranges_ok_append apart_def)
    qed
  qed
  with Cons.IH [of "merge_range merged x"] Cons.prems(2,3) show ?case by auto
qed simp

lemma merge_sorted:
  assumes "ranges_ok rs" and "rng_from a \<le> rng_through a"
  defines "m \<equiv> foldl merge_range [] (sort_key rng_from (rs @ [a]))"
  shows "ranges_ok m"
    "hostEventSequenceUnaccepted m t \<longleftrightarrow> hostEventSequenceUnaccepted rs t \<or> in_range a t"
    "length m \<le> Suc (length rs)"
proof -
  let ?s = "sort_key rng_from (rs @ [a])"
  have "hostEventSequenceUnaccepted ?s t \<longleftrightarrow> hostEventSequenceUnaccepted (rs @ [a]) t" for t
    by (rule unaccepted_set) (rule set_sort)
  with merge_ranges_fold [of "[]" ?s] assms(1,2)
  show "ranges_ok m" "hostEventSequenceUnaccepted m t \<longleftrightarrow> hostEventSequenceUnaccepted rs t \<or> in_range a t"
    "length m \<le> Suc (length rs)"
    unfolding m_def by (auto simp: ranges_ok_def)
qed

text \<open>
  Adding a replay gap keeps the stored ranges sorted, disjoint, merged and at most 256, and never
  forgets a position: every position that was unaccepted or lies in the gap is unaccepted afterwards,
  and while fewer than 256 ranges are stored no other position becomes unaccepted.
\<close>

theorem unaccepted_with_gap:
  assumes "ranges_ok rs" and "rng_from gap \<le> rng_through gap"
  shows "ranges_ok (hostEventUnacceptedWith rs gap) \<and>
    length (hostEventUnacceptedWith rs gap) \<le> MAX_HOST_EVENT_UNACCEPTED_RANGES \<and>
    (\<forall>t. hostEventSequenceUnaccepted rs t \<or> in_range gap t \<longrightarrow>
       hostEventSequenceUnaccepted (hostEventUnacceptedWith rs gap) t) \<and>
    (length rs < MAX_HOST_EVENT_UNACCEPTED_RANGES \<longrightarrow>
       (\<forall>t. hostEventSequenceUnaccepted (hostEventUnacceptedWith rs gap) t \<longrightarrow>
          hostEventSequenceUnaccepted rs t \<or> in_range gap t))"
proof -
  let ?m = "foldl merge_range [] (sort_key rng_from (rs @ [gap]))"
  note sorted = merge_sorted [OF assms]
  show ?thesis
    using coalesce_ok [OF sorted(1)] coalesce_covers [OF sorted(1)] sorted(2,3)
      coalesce_short [of ?m MAX_HOST_EVENT_UNACCEPTED_RANGES] coalesce_length [OF unaccepted_bound_positive]
    by (auto simp only: hostEventUnacceptedWith_def mergeSequenceRanges_def)
qed

theorem unaccepted_with_gap_witness:
  "ranges_ok (hostEventUnacceptedWith [\<lparr>rng_from = 1, rng_through = 3\<rparr>] \<lparr>rng_from = 4, rng_through = 6\<rparr>) \<and>
   hostEventSequenceUnaccepted
     (hostEventUnacceptedWith [\<lparr>rng_from = 1, rng_through = 3\<rparr>] \<lparr>rng_from = 4, rng_through = 6\<rparr>) 5"
  using unaccepted_with_gap [of "[\<lparr>rng_from = 1, rng_through = 3\<rparr>]" "\<lparr>rng_from = 4, rng_through = 6\<rparr>"]
  by (simp add: in_range_def)

section \<open>Removing one position\<close>

lemma split_range_props:
  assumes "rng_from r \<le> rng_through r"
  shows "ranges_ok (split_range s r)"
    "hostEventSequenceUnaccepted (split_range s r) t \<longleftrightarrow> in_range r t \<and> t \<noteq> s"
    "x \<in> set (split_range s r) \<Longrightarrow> rng_from r \<le> rng_from x \<and> rng_through x \<le> rng_through r"
  using assms by (auto simp: split_range_def in_range_def apart_def split: if_splits)

lemma split_ranges:
  assumes "ranges_ok rs"
  shows "ranges_ok (concat (map (split_range s) rs)) \<and>
    (hostEventSequenceUnaccepted (concat (map (split_range s) rs)) t \<longleftrightarrow>
       hostEventSequenceUnaccepted rs t \<and> t \<noteq> s)"
  using assms
proof (induction rs)
  case (Cons r rs)
  have "apart x y" if "x \<in> set (split_range s r)" "y \<in> set (concat (map (split_range s) rs))" for x y
  proof -
    from that(2) obtain q where q: "q \<in> set rs" "y \<in> set (split_range s q)" by auto
    from Cons.prems q(1) have "apart r q" "rng_from q \<le> rng_through q" by (auto simp: ranges_ok_def)
    from Cons.prems that(1) have "rng_through x \<le> rng_through r"
      using split_range_props(3) [where r = r and x = x and s = s] by simp
    moreover from \<open>rng_from q \<le> rng_through q\<close> q(2) have "rng_from q \<le> rng_from y"
      using split_range_props(3) [where r = q and x = y and s = s] by simp
    ultimately show ?thesis using \<open>apart r q\<close> by (simp add: apart_def)
  qed
  with Cons split_range_props(1,2) [where r = r and s = s] show ?case by (auto simp: ranges_ok_append)
qed simp

text \<open>
  Accepting the snapshot at one position keeps the ranges sorted, disjoint, merged and at most
  256, and every other position that was unaccepted stays so; when the split fits the bound, exactly
  the accepted position leaves.
\<close>

theorem unaccepted_without_position:
  assumes "ranges_ok rs"
  shows "ranges_ok (hostEventUnacceptedWithout rs s) \<and>
    length (hostEventUnacceptedWithout rs s) \<le> MAX_HOST_EVENT_UNACCEPTED_RANGES \<and>
    (\<forall>t. hostEventSequenceUnaccepted rs t \<and> t \<noteq> s \<longrightarrow>
       hostEventSequenceUnaccepted (hostEventUnacceptedWithout rs s) t) \<and>
    (length (concat (map (split_range s) rs)) \<le> MAX_HOST_EVENT_UNACCEPTED_RANGES \<longrightarrow>
       (\<forall>t. hostEventSequenceUnaccepted (hostEventUnacceptedWithout rs s) t \<longrightarrow>
          hostEventSequenceUnaccepted rs t \<and> t \<noteq> s))"
proof -
  let ?m = "concat (map (split_range s) rs)"
  have ok: "ranges_ok ?m" using split_ranges [OF assms, of s] by blast
  have cov: "hostEventSequenceUnaccepted ?m t \<longleftrightarrow> hostEventSequenceUnaccepted rs t \<and> t \<noteq> s" for t
    using split_ranges [OF assms, of s] by blast
  show ?thesis
    using coalesce_ok [OF ok] coalesce_covers [OF ok] coalesce_short [of ?m MAX_HOST_EVENT_UNACCEPTED_RANGES]
      coalesce_length [OF unaccepted_bound_positive]
    by (auto simp only: hostEventUnacceptedWithout_def cov)
qed

theorem unaccepted_without_position_witness:
  "ranges_ok (hostEventUnacceptedWithout [\<lparr>rng_from = 1, rng_through = 9\<rparr>] 4) \<and>
   hostEventSequenceUnaccepted (hostEventUnacceptedWithout [\<lparr>rng_from = 1, rng_through = 9\<rparr>] 4) 7"
  using unaccepted_without_position [of "[\<lparr>rng_from = 1, rng_through = 9\<rparr>]" 4]
  by (simp add: in_range_def)

text \<open>
  C26: the unaccepted positions of a host event source. Adding a replay gap and accepting a snapshot at one position
  both keep the stored ranges sorted, disjoint, merged and at most 256, and neither ever forgets a position that
  is still unaccepted; while the bound is not met a gap adds exactly its positions and an acceptance takes exactly
  its own.
\<close>

theorem unaccepted_positions_exact:
  assumes "ranges_ok rs" and "rng_from gap \<le> rng_through gap"
  shows "ranges_ok (hostEventUnacceptedWith rs gap) \<and> ranges_ok (hostEventUnacceptedWithout rs s) \<and>
    length (hostEventUnacceptedWith rs gap) \<le> MAX_HOST_EVENT_UNACCEPTED_RANGES \<and>
    length (hostEventUnacceptedWithout rs s) \<le> MAX_HOST_EVENT_UNACCEPTED_RANGES \<and>
    (\<forall>t. hostEventSequenceUnaccepted rs t \<or> in_range gap t \<longrightarrow>
       hostEventSequenceUnaccepted (hostEventUnacceptedWith rs gap) t) \<and>
    (\<forall>t. hostEventSequenceUnaccepted rs t \<and> t \<noteq> s \<longrightarrow>
       hostEventSequenceUnaccepted (hostEventUnacceptedWithout rs s) t) \<and>
    (length rs < MAX_HOST_EVENT_UNACCEPTED_RANGES \<longrightarrow>
       (\<forall>t. hostEventSequenceUnaccepted (hostEventUnacceptedWith rs gap) t \<longrightarrow>
          hostEventSequenceUnaccepted rs t \<or> in_range gap t)) \<and>
    (length (concat (map (split_range s) rs)) \<le> MAX_HOST_EVENT_UNACCEPTED_RANGES \<longrightarrow>
       (\<forall>t. hostEventSequenceUnaccepted (hostEventUnacceptedWithout rs s) t \<longrightarrow>
          hostEventSequenceUnaccepted rs t \<and> t \<noteq> s))"
  using unaccepted_with_gap [OF assms] unaccepted_without_position [OF assms(1), of s] by blast

lemma unaccepted_positions_exact_witness:
  "let rs = [\<lparr>rng_from = 1, rng_through = 3\<rparr>] in
     hostEventSequenceUnaccepted (hostEventUnacceptedWith rs \<lparr>rng_from = 4, rng_through = 6\<rparr>) 5 \<and>
     hostEventSequenceUnaccepted (hostEventUnacceptedWithout rs 2) 3"
  using unaccepted_positions_exact [of "[\<lparr>rng_from = 1, rng_through = 3\<rparr>]" "\<lparr>rng_from = 4, rng_through = 6\<rparr>" 2]
  by (simp add: in_range_def)

section \<open>The ranges stay below a frontier\<close>

definition ranges_below :: "nat \<Rightarrow> HostEventSequenceRange list \<Rightarrow> bool" where
  "ranges_below n rs \<longleftrightarrow> (\<forall>r \<in> set rs. rng_through r \<le> n)"

lemma ranges_below_simps [simp]:
  "ranges_below n []" "ranges_below n (r # rs) \<longleftrightarrow> rng_through r \<le> n \<and> ranges_below n rs"
  "ranges_below n (rs @ ss) \<longleftrightarrow> ranges_below n rs \<and> ranges_below n ss"
  by (auto simp: ranges_below_def)

lemma ranges_below_mono: "ranges_below n rs \<Longrightarrow> n \<le> m \<Longrightarrow> ranges_below m rs"
  by (auto simp: ranges_below_def)

lemma coalesce_below: "ranges_below n rs \<Longrightarrow> ranges_below n (coalesceLowestRanges rs bound)"
  by (induction rs bound rule: coalesceLowestRanges.induct) auto

lemma merge_ranges_below:
  "ranges_below n merged \<Longrightarrow> ranges_below n xs \<Longrightarrow> ranges_below n (foldl merge_range merged xs)"
proof (induction xs arbitrary: merged)
  case (Cons x xs)
  then have "ranges_below n (merge_range merged x)"
    by (cases merged rule: rev_cases) (auto simp: merge_range_snoc, simp add: merge_range_def)
  with Cons show ?case by simp
qed simp

lemma unaccepted_with_below:
  "ranges_below n rs \<Longrightarrow> rng_through gap \<le> n \<Longrightarrow> ranges_below n (hostEventUnacceptedWith rs gap)"
  unfolding hostEventUnacceptedWith_def mergeSequenceRanges_def
  by (intro coalesce_below merge_ranges_below) (auto simp: ranges_below_def)

lemma unaccepted_without_below:
  assumes "ranges_ok rs" and "ranges_below n rs"
  shows "ranges_below n (hostEventUnacceptedWithout rs s)"
proof -
  have "rng_through x \<le> n" if "x \<in> set (split_range s r)" "r \<in> set rs" for x r
    using that assms split_range_props(3) [of r x s] by (force simp: ranges_ok_def ranges_below_def)
  then show ?thesis
    unfolding hostEventUnacceptedWithout_def by (intro coalesce_below) (auto simp: ranges_below_def)
qed

lemma unaccepted_with_ok:
  "ranges_ok rs \<Longrightarrow> rng_from gap \<le> rng_through gap \<Longrightarrow> ranges_ok (hostEventUnacceptedWith rs gap)"
  unfolding hostEventUnacceptedWith_def mergeSequenceRanges_def by (intro coalesce_ok merge_sorted(1))

lemma unaccepted_without_ok: "ranges_ok rs \<Longrightarrow> ranges_ok (hostEventUnacceptedWithout rs s)"
  unfolding hostEventUnacceptedWithout_def using split_ranges [of rs s] by (blast intro: coalesce_ok)

end
