(* ===== verification/Host_Event_State.thy ===== *)
theory Host_Event_State
  imports Orch_Contracts Sequence_Ranges
begin

text \<open>
  The durable host events of \<open>core/events/host-event-contract.ts\<close>, \<open>host-event-kinds.ts\<close> and
  \<open>host-event-state.ts\<close>: CI attempts and GitHub thread occurrences, source registrations with their
  seals and replay gaps, task subscriptions, accepted events and their deliveries, and the identities
  the code derives from them. Identities are SHA-256 digests of a domain and a JSON value; the digest
  function is a parameter of the definitions that use it.
\<close>

type_synonym digest = "string \<Rightarrow> json \<Rightarrow> string"

section \<open>Bounds\<close>

definition MAX_HOST_EVENT_SOURCES :: nat where "MAX_HOST_EVENT_SOURCES = 32"
definition MAX_HOST_EVENTS :: nat where "MAX_HOST_EVENTS = 256"
definition MAX_HOST_EVENT_SUBSCRIPTIONS :: nat where "MAX_HOST_EVENT_SUBSCRIPTIONS = 512"
definition MAX_HOST_EVENT_DELIVERIES :: nat where "MAX_HOST_EVENT_DELIVERIES = 2048"
definition MAX_HOST_EVENT_SUBJECTS :: nat where "MAX_HOST_EVENT_SUBJECTS = 64"
definition MAX_HOST_EVENT_SUBSCRIPTIONS_PER_TASK :: nat where "MAX_HOST_EVENT_SUBSCRIPTIONS_PER_TASK = 8"
definition MAX_HOST_EVENT_TARGETS :: nat where "MAX_HOST_EVENT_TARGETS = 64"
definition MAX_HOST_EVENT_DOMAIN_BYTES :: nat where "MAX_HOST_EVENT_DOMAIN_BYTES = 8 * 1024 * 1024"
definition HOST_EVENT_RECALL_MS :: int where "HOST_EVENT_RECALL_MS = 7 * 24 * 60 * 60 * 1000"
definition GITHUB_RECALL_MS :: int where "GITHUB_RECALL_MS = 24 * 60 * 60 * 1000"

section \<open>Occurrences\<close>

datatype CiTerminalConclusion =
  CiSuccess | CiFailure | CiCancelled | CiSkipped | CiNeutral | CiTimedOut | CiActionRequired
  | CiStale | CiStartupFailure

record CiSubject =
  cs_host :: string
  cs_repositoryId :: nat
  cs_workflowId :: nat
  cs_headSha :: string

record HostEventWorkerScope =
  ws_agentId :: string
  ws_attemptId :: string
  ws_leaseId :: string
  ws_fencingToken :: nat

record CiAttemptIdentity =
  ci_host :: string
  ci_repositoryId :: nat
  ci_workflowId :: nat
  ci_runId :: nat
  ci_runAttempt :: nat
  ci_runNumber :: nat

record CiAttemptTerminalEvent =
  ct_eventId :: string
  ct_identity :: CiAttemptIdentity
  ct_headSha :: string
  ct_conclusion :: CiTerminalConclusion
  ct_workflowPath :: string
  ct_observedAt :: timestamp
  ct_runUrl :: string
  ct_payloadDigest :: string

datatype GithubThreadEventKind =
  PullRequestComment | ReviewComment | ReviewSubmitted | ReviewRequested | IssueAssigned
  | PullRequestMerged | PullRequestClosed

datatype GithubReviewState = ReviewApproved | ReviewChangesRequested | ReviewCommented | ReviewDismissed

record GithubEventBody =
  gb_text :: string
  gb_truncated :: bool
  gb_bytes :: nat

record GithubThread =
  gt_number :: nat
  gt_pullRequest :: bool
  gt_branch :: "string option"
  gt_ownedByViewer :: bool

record GithubThreadEvent =
  gh_kind :: GithubThreadEventKind
  gh_eventId :: string
  gh_githubId :: nat
  gh_host :: string
  gh_repositoryId :: nat
  gh_thread :: GithubThread
  gh_author :: string
  gh_occurredAt :: timestamp
  gh_url :: string
  gh_body :: "GithubEventBody option"
  gh_state :: "GithubReviewState option"
  gh_payloadDigest :: string

datatype HostEventPayload = CiEvent CiAttemptTerminalEvent | GithubEvent GithubThreadEvent

fun payload_eventId :: "HostEventPayload \<Rightarrow> string" where
  "payload_eventId (CiEvent e) = ct_eventId e"
| "payload_eventId (GithubEvent e) = gh_eventId e"

fun payload_digest :: "HostEventPayload \<Rightarrow> string" where
  "payload_digest (CiEvent e) = ct_payloadDigest e"
| "payload_digest (GithubEvent e) = gh_payloadDigest e"

text \<open>An envelope; \<open>CiHostEventEnvelope\<close> is the arm seals and deliveries carry.\<close>

record 'e envelope =
  env_sourceId :: string
  env_sourceEpoch :: string
  env_sourceSequence :: nat
  env_event :: 'e

type_synonym HostEventEnvelope = "HostEventPayload envelope"
type_synonym CiHostEventEnvelope = "CiAttemptTerminalEvent envelope"

fun ci_of :: "HostEventPayload \<Rightarrow> CiAttemptTerminalEvent option" where
  "ci_of (CiEvent e) = Some e"
| "ci_of (GithubEvent e) = None"

definition isCiEnvelope :: "HostEventEnvelope \<Rightarrow> bool" where
  "isCiEnvelope e \<longleftrightarrow> ci_of (env_event e) \<noteq> None"

definition ci_envelope :: "CiHostEventEnvelope \<Rightarrow> HostEventEnvelope" where
  "ci_envelope e = \<lparr>env_sourceId = env_sourceId e, env_sourceEpoch = env_sourceEpoch e,
     env_sourceSequence = env_sourceSequence e, env_event = CiEvent (env_event e)\<rparr>"

definition env_eventId :: "HostEventEnvelope \<Rightarrow> string" where
  "env_eventId e = payload_eventId (env_event e)"

text \<open>The recall window of a kind (the \<open>recallMs\<close> column of \<open>HOST_EVENT_KINDS\<close>).\<close>

fun recallMs :: "HostEventPayload \<Rightarrow> int" where
  "recallMs (CiEvent e) = HOST_EVENT_RECALL_MS"
| "recallMs (GithubEvent e) = GITHUB_RECALL_MS"

section \<open>Sources\<close>

record HostEventSourceRegistration =
  reg_sourceId :: string
  reg_sourceEpoch :: string
  reg_scopeVersion :: nat
  reg_subjects :: "CiSubject list"
  reg_rootSubjects :: "CiSubject list"
  reg_startingSequence :: nat
  reg_storeIdentity :: "string option"

record HostEventCatchUp =
  cu_sourceId :: string
  cu_sourceEpoch :: string
  cu_scopeVersion :: nat
  cu_generation :: nat

datatype ObservationStatus = ObsQueued | ObsInProgress | ObsCompleted

record HostEventSealObservation =
  so_subject :: CiSubject
  so_runId :: nat
  so_runNumber :: nat
  so_runAttempt :: nat
  so_status :: ObservationStatus
  so_conclusion :: "CiTerminalConclusion option"
  so_eventId :: "string option"
  so_sourceSequence :: "nat option"

record HostEventSealedFrontier =
  seal_sourceId :: string
  seal_sourceEpoch :: string
  seal_scopeVersion :: nat
  seal_generation :: nat
  seal_throughSequence :: nat
  seal_observations :: "HostEventSealObservation list"

record HostEventCatchUpSeal = HostEventSealedFrontier +
  seal_snapshots :: "CiHostEventEnvelope list option"

definition hostEventSealedFrontier :: "HostEventCatchUpSeal \<Rightarrow> HostEventSealedFrontier" where
  "hostEventSealedFrontier seal = HostEventSealedFrontier.truncate seal"

record HostEventReplayHorizon =
  hz_sourceId :: string
  hz_sourceEpoch :: string
  hz_throughSequence :: nat

datatype HostEventSourceEndReason = JournalReplaced

record HostEventSourceEnd =
  end_sourceId :: string
  end_sourceEpoch :: string
  end_reason :: HostEventSourceEndReason

datatype HostEventReplayGapReason = ConsumerInactive | ConsumerExpired | ConsumerEvicted

record HostEventReplayGap = HostEventCatchUp +
  gap_afterSequence :: nat
  gap_throughSequence :: nat
  gap_reason :: HostEventReplayGapReason

record HostEventReceipt =
  hr_consumerId :: string
  hr_sourceId :: string
  hr_sourceEpoch :: string
  hr_sourceSequence :: nat
  hr_eventId :: string
  hr_payloadDigest :: string
  hr_canonicalReceiptId :: string

record HostEventSourceState =
  src_registration :: HostEventSourceRegistration
  src_acceptedThrough :: nat
  src_retiredThrough :: nat
  src_catchUpGeneration :: nat
  src_replayFloor :: nat
  src_lastReplayGap :: "HostEventReplayGap option"
  src_seal :: "HostEventSealedFrontier option"
  src_unaccepted :: "HostEventSequenceRange list"
  src_ended :: "(HostEventSourceEndReason \<times> timestamp) option"
  src_replaced :: bool

section \<open>Subscriptions, accepted events, deliveries\<close>

datatype WakePolicy = WakeNever | WakeResumeSameTask

record HostEventSubscriptionInput =
  si_threadKey :: string
  si_subject :: CiSubject
  si_wake :: WakePolicy

record HostEventSubscription = HostEventSubscriptionInput +
  sub_subscriptionId :: string
  sub_taskId :: string
  sub_revision :: nat
  sub_createdOrdinal :: nat
  sub_revokedOrdinal :: "nat option"

record AcceptedHostEvent =
  ae_envelope :: HostEventEnvelope
  ae_receipt :: HostEventReceipt
  ae_origin :: WorkerReceiptOrigin
  ae_acceptedOrdinal :: nat
  ae_recallUntil :: timestamp
  ae_deliveryIds :: "string list"

record HostEventExecutionIdentity =
  hx_taskId :: string
  hx_attemptId :: string
  hx_agentId :: string
  hx_leaseId :: string
  hx_fencingToken :: nat
  hx_sessionId :: string
  hx_sessionFile :: string
  hx_contextClaim :: "json option"

record HostEventDeliveryBinding =
  hb_deliveryId :: string
  hb_eventId :: string
  hb_payloadDigest :: string
  hb_subscriptionId :: string
  hb_subscriptionRevision :: nat
  hb_generation :: nat
  hb_sourceGeneration :: nat
  hb_scopeVersion :: nat
  hb_sourceSealDigest :: string
  hb_messageId :: string
  hb_contentDigest :: string
  hb_bindingDigest :: string
  hb_execution :: HostEventExecutionIdentity

record HostEventTranscriptReceipt =
  tr_sessionId :: string
  tr_sessionFile :: string
  tr_entryId :: string
  tr_taskId :: string
  tr_attemptId :: string
  tr_messageId :: string
  tr_contentDigest :: string
  tr_bindingDigest :: string

datatype HostEventDeliveryTarget = TargetTask string string nat | TargetRoot nat

fun is_root_target :: "HostEventDeliveryTarget \<Rightarrow> bool" where
  "is_root_target (TargetRoot v) = True"
| "is_root_target (TargetTask t s r) = False"

fun target_task :: "HostEventDeliveryTarget \<Rightarrow> string option" where
  "target_task (TargetTask t s r) = Some t"
| "target_task (TargetRoot v) = None"

datatype DeliveryStatus = DelReserved | DelPending | DelConsumed | DelSettled

datatype DeliveryPurpose = PurposeFailure | PurposeUpdate | PurposeHandback

record HostEventDelivery =
  del_deliveryId :: string
  del_eventId :: string
  del_target :: HostEventDeliveryTarget
  del_status :: DeliveryStatus
  del_purpose :: DeliveryPurpose
  del_generation :: nat
  del_binding :: "HostEventDeliveryBinding option"
  del_bindingRetired :: bool
  del_mailboxAccepted :: bool
  del_mailboxSettled :: bool
  del_transcriptReceipt :: "HostEventTranscriptReceipt option"
  del_parentReceiptId :: "string option"
  del_reason :: "string option"
  del_settledAt :: "timestamp option"

record HostEventProjection =
  eventSources :: "HostEventSourceState js_record"
  hostEvents :: "AcceptedHostEvent js_record"
  threadSubscriptions :: "HostEventSubscription js_record"
  eventDeliveries :: "HostEventDelivery js_record"

section \<open>Structural equality of bindings\<close>

definition execution_deep_equal :: "HostEventExecutionIdentity \<Rightarrow> HostEventExecutionIdentity \<Rightarrow> bool" where
  "execution_deep_equal a b \<longleftrightarrow>
     a\<lparr>hx_contextClaim := None\<rparr> = b\<lparr>hx_contextClaim := None\<rparr> \<and>
     deep_equal_option (hx_contextClaim a) (hx_contextClaim b)"

definition binding_deep_equal :: "HostEventDeliveryBinding \<Rightarrow> HostEventDeliveryBinding \<Rightarrow> bool" where
  "binding_deep_equal a b \<longleftrightarrow>
     a\<lparr>hb_execution := hb_execution b\<rparr> = b \<and> execution_deep_equal (hb_execution a) (hb_execution b)"

definition is_bound_to :: "HostEventDelivery \<Rightarrow> HostEventDeliveryBinding \<Rightarrow> bool" where
  "is_bound_to delivery binding \<longleftrightarrow>
     (case del_binding delivery of None \<Rightarrow> False | Some b \<Rightarrow> binding_deep_equal b binding)"

section \<open>Derived identities\<close>

definition json_nat :: "nat \<Rightarrow> json" where
  "json_nat n = JNumber (js_int (int n))"

definition ciSubjectKey :: "digest \<Rightarrow> CiSubject \<Rightarrow> string" where
  "ciSubjectKey hash subject = hash ''pi-ci-subject-v1''
     (JArray [JString (cs_host subject), json_nat (cs_repositoryId subject),
              json_nat (cs_workflowId subject), JString (cs_headSha subject)])"

definition ciThreadKey :: "digest \<Rightarrow> CiSubject \<Rightarrow> string" where
  "ciThreadKey hash subject = ''ci-thread-'' @ hash ''pi-ci-thread-v1''
     (JArray [JString (cs_host subject), json_nat (cs_repositoryId subject), json_nat (cs_workflowId subject)])"

definition ciEventSubject :: "CiAttemptTerminalEvent \<Rightarrow> CiSubject" where
  "ciEventSubject event = \<lparr>cs_host = ci_host (ct_identity event),
     cs_repositoryId = ci_repositoryId (ct_identity event),
     cs_workflowId = ci_workflowId (ct_identity event), cs_headSha = ct_headSha event\<rparr>"

definition hostEventSubscriptionId :: "digest \<Rightarrow> string \<Rightarrow> string \<Rightarrow> string" where
  "hostEventSubscriptionId hash taskId threadKey =
     ''hes-'' @ hash ''pi-host-event-subscription-v1'' (JArray [JString taskId, JString threadKey])"

text \<open>\<open>JSON.stringify([host, repositoryId])\<close> is injective, so the pairs are compared instead.\<close>

definition hostEventSourceReplaces ::
  "HostEventSourceRegistration \<Rightarrow> HostEventSourceRegistration \<Rightarrow> bool" where
  "hostEventSourceReplaces next prior \<longleftrightarrow>
     \<not> (reg_storeIdentity next = None \<or> reg_sourceId prior = reg_sourceId next) \<and>
     (if reg_storeIdentity prior \<noteq> None then reg_storeIdentity prior = reg_storeIdentity next
      else \<exists>s \<in> set (reg_subjects prior).
             (cs_host s, cs_repositoryId s) \<in>
               set (map (\<lambda>n. (cs_host n, cs_repositoryId n)) (reg_subjects next)))"

datatype host_event_error =
    HostCapacity | HostInvalid | HostIdentityConflict | HostSourceConflict | HostSourceEnded
  | HostTaskClosed | HostStaleSubscription | HostStaleExecution | HostStaleDelivery
  | HostBindingUnreconciled | HostAuthority | HostRetained | HostInvalidDate | HostMissingRecord

definition assertHostEventReceiptMatchesBinding ::
  "HostEventTranscriptReceipt \<Rightarrow> HostEventDeliveryBinding \<Rightarrow> host_event_error + unit" where
  "assertHostEventReceiptMatchesBinding receipt binding =
     (if tr_bindingDigest receipt \<noteq> hb_bindingDigest binding \<or>
         tr_contentDigest receipt \<noteq> hb_contentDigest binding \<or>
         tr_messageId receipt \<noteq> hb_messageId binding \<or>
         tr_taskId receipt \<noteq> hx_taskId (hb_execution binding) \<or>
         tr_attemptId receipt \<noteq> hx_attemptId (hb_execution binding) \<or>
         tr_sessionId receipt \<noteq> hx_sessionId (hb_execution binding) \<or>
         tr_sessionFile receipt \<noteq> hx_sessionFile (hb_execution binding)
      then Inl HostIdentityConflict else Inr ())"

end
