(* ===== verification/Runtime_State.thy ===== *)
theory Runtime_State
  imports Usage_Generations Host_Event_State
begin

text \<open>
  The durable projection of the task runtime (\<open>core/orchestration/task-runtime-state.ts\<close>): objectives,
  tasks, attempts, agents, checkpoints, approvals and notifications, on top of the host event records;
  the errors the reducer throws; and the environment that stands for JSON serialization sizes and
  digests.
\<close>

section \<open>Runtime records\<close>

record ObjectiveRuntimeState =
  os_objective :: ObjectiveContract
  os_taskIds :: "string list"
  os_evidence :: "EvidenceContract list"

datatype VerificationVerdict = VerdictAccepted | VerdictRejected | VerdictInconclusive

record VerificationRecord =
  vr_verifierTaskId :: string
  vr_verifierAttemptId :: string
  vr_verdict :: VerificationVerdict
  vr_reasonCode :: string
  vr_completedAt :: timestamp

record AttemptVerification = VerificationRecord +
  av_subjectAttemptId :: string

record TaskRuntimeState =
  ts_task :: TaskContract
  ts_attemptIds :: "string list"
  ts_verification :: "VerificationRecord option"

datatype UsageReceiptKind = ReceiptBaseline | ReceiptIncrease

record AttemptUsageReceipt =
  ur_receiptId :: string
  ur_leaseId :: string
  ur_fencingToken :: nat
  ur_kind :: UsageReceiptKind
  ur_usage :: AttemptUsageSnapshot
  ur_recordedAt :: timestamp

datatype AttemptParentWriteBody =
    WorkerClaim json "json option" "string option"
  | WriteNotice string string
  | TerminalReport json

record AttemptParentWrite =
  pw_writeId :: string
  pw_sequence :: nat
  pw_body :: AttemptParentWriteBody
  pw_recordedAt :: timestamp

record WorkerReceiptAcknowledgement =
  ack_receiptId :: string
  ack_resultId :: string
  ack_factsDigest :: string
  ack_parentEntryId :: string
  ack_parentReviewEntryId :: "string option"
  ack_verifierAttemptId :: "string option"

record AttemptRuntimeState =
  att_attemptId :: string
  att_taskId :: string
  att_dispatch :: OrchestrationDispatchRequest
  att_status :: AttemptStatus
  att_reasonCode :: "string option"
  att_reasonDetail :: "string option"
  att_grantId :: "string option"
  att_grant :: "ExecutionGrant option"
  att_agentId :: "string option"
  att_lease :: "AttemptLease option"
  att_retry :: "AttemptRetryState option"
  att_runningModel :: "OrchestrationModelBinding option"
  att_admittedTurnOrigin :: "TurnOriginRecord option"
  att_checkpointIds :: "string list"
  att_usageAccounting :: "AttemptUsageAccounting option"
  att_usageReceipts :: "AttemptUsageReceipt js_record option"
  att_result :: "WorkerResultContract option"
  att_receiptAcknowledgement :: "WorkerReceiptAcknowledgement option"
  att_parentWrites :: "AttemptParentWrite js_record option"
  att_verification :: "AttemptVerification option"
  att_managedLifetime :: "ManagedLaneLifetime option"
  att_executionStartedAt :: "timestamp option"
  att_createdAt :: timestamp
  att_updatedAt :: timestamp

datatype NotificationStatus = NotePending | NoteDelivered

record NotificationRuntimeState =
  note_notificationId :: string
  note_objectiveId :: string
  note_attemptId :: "string option"
  note_status :: NotificationStatus
  note_message :: string
  note_createdAt :: timestamp
  note_deliveredAt :: "timestamp option"

datatype ApprovalStatus = ApprovalPending | ApprovalResolved ApprovalOutcome

record ApprovalRuntimeState =
  as_request :: ApprovalRequestContract
  as_status :: ApprovalStatus
  as_resolution :: "ApprovalResolutionContract option"

record TaskRuntimeProjection = HostEventProjection +
  lastOrdinal :: nat
  agents :: "AgentBindingContract js_record"
  objectives :: "ObjectiveRuntimeState js_record"
  tasks :: "TaskRuntimeState js_record"
  attempts :: "AttemptRuntimeState js_record"
  checkpoints :: "AttemptCheckpoint js_record"
  approvals :: "ApprovalRuntimeState js_record"
  notifications :: "NotificationRuntimeState js_record"

definition emptyProjection :: TaskRuntimeProjection where
  "emptyProjection = \<lparr>eventSources = [], hostEvents = [], threadSubscriptions = [], eventDeliveries = [],
     lastOrdinal = 0, agents = [], objectives = [], tasks = [], attempts = [], checkpoints = [],
     approvals = [], notifications = []\<rparr>"

datatype ProjectionRecordField =
  FieldEventSources | FieldHostEvents | FieldThreadSubscriptions | FieldEventDeliveries | FieldAgents
  | FieldObjectives | FieldTasks | FieldAttempts | FieldCheckpoints | FieldApprovals | FieldNotifications

section \<open>Errors\<close>

datatype limit_error =
    RetainedRecordTooLarge ProjectionRecordField string
  | RetainedKeyOutOfBounds ProjectionRecordField string
  | ProjectionTooLarge
  | RecordLimitExceeded ProjectionRecordField
  | RecordLimitReached ProjectionRecordField
  | IdentifierListFull
  | IdentifierListInvalid
  | ObjectiveEvidenceLimit
  | EvidenceLimit
  | CheckpointSummaryInvalid string
  | SettlementBytesMissing

datatype objective_error =
    UnknownObjective string
  | ObjectiveIdMismatch string
  | ObjectiveImmutableFieldsChanged string
  | ReferencedCriteriaRemoved "string list"
  | EvidenceCriterionUnknown string
  | ObjectiveIncompleteTasks "string list"
  | ObjectiveUnprovenCriteria "string list"
  | ObjectiveTransitionInvalid ObjectiveStatus ObjectiveStatus
  | CompletionPolicyRequired
  | CreatedObjectiveNotActive string
  | ObjectiveCreatedTwice string
  | EvidenceConflict string
  | ObjectiveNotActive string

datatype task_error =
    UnknownTask string
  | TaskObjectiveUnknown string
  | TaskStatusMismatch string
  | TaskSelfDependency string
  | TaskDependencyForeign string
  | TaskDependencyCycle string
  | TaskUnknownCriteria "string list"
  | TaskBindingWithoutSubject string
  | TaskVerificationBindingInvalid string
  | TaskVerificationSubjectForeign string
  | TaskVerificationRelationInvalid string
  | TaskCreatedTwice string
  | TaskNotPending string
  | TaskDependenciesIncomplete string
  | TaskCannotFail string
  | TaskOwnsActiveAttempt string string
  | TaskBudgetExhausted string
  | TaskNotDispatchable string
  | PreparedTaskMismatch string
  | IdentifierInvalid

datatype verification_error =
    VerificationSubjectUnknown
  | VerificationRecordInvalid string
  | VerificationSubjectMismatch string
  | VerificationEvidenceMissing string
  | VerificationConflict string

datatype agent_error =
    UnknownAgent string
  | AgentRetireFrom string
  | AgentOwnsAttempt string string
  | AgentLineageCycle string
  | AgentHasLiveDescendant string string
  | AgentIsRetired string
  | AgentNotIdleAtRegistration string
  | AgentRegisteredTwice string
  | ParentAgentUnknown string
  | ParentAgentRetired string
  | AgentLineageConflict string
  | StandaloneSuspension
  | StandaloneResume
  | AgentCannotResume string string
  | AgentNotSuspended string
  | AgentNotIdle string
  | AgentRoleMismatch string
  | AgentManagedBinding
  | AgentNotResuming string string

datatype attempt_error =
    UnknownAttempt string
  | AttemptNotWaiting string
  | AttemptTaskNotReady string
  | AttemptDependenciesIncomplete string "string list"
  | AttemptDependenciesFailed string "string list"
  | AttemptObjectiveInactive string
  | AttemptQueuedTwice string
  | AttemptDispatchMismatch string
  | AttemptContractMismatch string
  | AttemptAggregateMismatch string
  | AttemptStatusInvalid string AttemptStatus
  | AttemptLeaseStale string
  | AttemptLeaseExpired string
  | AttemptLeaseDatesInvalid string
  | AttemptFenceNotMonotonic string
  | AttemptRequiresGrant string
  | AttemptGrantMismatch string
  | AttemptGrantConflict string
  | AttemptAwaitsApproval string string
  | AttemptApprovalRejected string string
  | AttemptRenewalTooShort string
  | AttemptRetryPending string
  | AttemptRetryNotMonotonic string
  | AttemptRetryDeadline
  | AttemptUnbound string
  | EventTimeInvalid
  | ResultContractInvalid
  | ResultTaskMismatch
  | ResultObjectiveMismatch
  | ResultCriteriaMissing "string list"
  | CheckpointRecordedTwice string
  | UsageNotRegistered
  | UsageReceiptReused
  | UsageReceiptUnknown
  | ReceiptAcknowledgementInvalid
  | ReceiptAcknowledgementConflict
  | ParentWriteRecordedTwice string
  | ParentWritesFull string
  | ParentWriteUnknown
  | ManagedAttemptRequired string
  | ManagedLaneMismatch string
  | ManagedSequenceMismatch string
  | ManagedLaneRetired string

datatype approval_error =
    ApprovalTargetMismatch
  | ApprovalTaskForeign string
  | ApprovalAttemptForeign string
  | ApprovalAttemptNotAwaiting string
  | ApprovalTaskRequired
  | ApprovalAlreadyPending string
  | ApprovalRequestedTwice string
  | UnknownApproval string
  | ApprovalAlreadyResolved string
  | NotificationExists string
  | UnknownNotification string
  | NotificationAttemptForeign string

datatype orch_error =
    LimitError limit_error
  | HostError host_event_error
  | UsageError usage_error
  | ObjectiveError objective_error
  | TaskError task_error
  | VerificationError verification_error
  | AgentError agent_error
  | AttemptError attempt_error
  | ApprovalError approval_error
  | AggregateMismatch string
  | OrdinalGap nat nat

definition mapE :: "('e \<Rightarrow> 'f) \<Rightarrow> 'e + 'a \<Rightarrow> 'f + 'a" where
  "mapE f m = (case m of Inl e \<Rightarrow> Inl (f e) | Inr x \<Rightarrow> Inr x)"

lemma mapE_simps [simp]:
  "mapE f (Inl e) = Inl (f e)"
  "mapE f (Inr x) = Inr x"
  "mapE f m = Inr x \<longleftrightarrow> m = Inr x"
  by (auto simp: mapE_def split: sum.splits)

text \<open>A guard: throw unless the condition holds.\<close>

definition require :: "bool \<Rightarrow> 'e \<Rightarrow> 'e + unit" where
  "require c e = (if c then Inr () else Inl e)"

lemma require_eq_Inr [simp]: "require c e = Inr u \<longleftrightarrow> c"
  by (simp add: require_def)

section \<open>Serialization environment\<close>

text \<open>
  The UTF-8 length of \<open>JSON.stringify\<close> of each kind of retained record, and the digest of a domain and
  a JSON value (SHA-256 over the prefix and the serialized value).
\<close>

record json_env =
  je_source :: "HostEventSourceState \<Rightarrow> nat"
  je_event :: "AcceptedHostEvent \<Rightarrow> nat"
  je_subscription :: "HostEventSubscription \<Rightarrow> nat"
  je_delivery :: "HostEventDelivery \<Rightarrow> nat"
  je_agent :: "AgentBindingContract \<Rightarrow> nat"
  je_objective :: "ObjectiveRuntimeState \<Rightarrow> nat"
  je_task :: "TaskRuntimeState \<Rightarrow> nat"
  je_attempt :: "AttemptRuntimeState \<Rightarrow> nat"
  je_checkpoint :: "AttemptCheckpoint \<Rightarrow> nat"
  je_approval :: "ApprovalRuntimeState \<Rightarrow> nat"
  je_notification :: "NotificationRuntimeState \<Rightarrow> nat"
  je_seal :: "HostEventSealedFrontier \<Rightarrow> nat"
  je_gap :: "HostEventReplayGap \<Rightarrow> nat"
  je_transcript_receipt :: "HostEventTranscriptReceipt \<Rightarrow> nat"
  je_hash :: digest

section \<open>Pure helpers\<close>

definition terminalAttemptStatus :: "AttemptStatus \<Rightarrow> bool" where
  "terminalAttemptStatus status \<longleftrightarrow>
     status \<in> {AttCompleted, AttPartial, AttBlocked, AttFailed, AttCancelled, AttExpired}"

text \<open>Criterion ids proven by a piece of evidence: trusted, with a nonempty id.\<close>

definition proven_criteria :: "EvidenceContract list \<Rightarrow> string list" where
  "proven_criteria evidence = concat (map (\<lambda>e. case ev_criterionId e of
       Some c \<Rightarrow> if ev_trusted e \<and> c \<noteq> [] then [c] else [] | None \<Rightarrow> []) evidence)"

definition missingTrustedCriteria :: "WorkerResultContract \<Rightarrow> string list \<Rightarrow> string list" where
  "missingTrustedCriteria result criterionIds =
     (let proven = set (proven_criteria (res_evidence result))
      in filter (\<lambda>c. c \<notin> proven) criterionIds)"

definition attemptTurnOrigin :: "AttemptRuntimeState \<Rightarrow> TurnOriginRecord option" where
  "attemptTurnOrigin attempt =
     (case att_admittedTurnOrigin attempt of
        Some origin \<Rightarrow> Some origin
      | None \<Rightarrow> dispatch_turnOrigin (att_dispatch attempt))"

lemma terminal_simps [simp]:
  "\<not> terminalAttemptStatus AttQueued" "\<not> terminalAttemptStatus AttLeased"
  "\<not> terminalAttemptStatus AttRunning" "\<not> terminalAttemptStatus AttSuspended"
  "terminalAttemptStatus AttCompleted" "terminalAttemptStatus AttPartial"
  "terminalAttemptStatus AttBlocked" "terminalAttemptStatus AttFailed"
  "terminalAttemptStatus AttCancelled" "terminalAttemptStatus AttExpired"
  by (simp_all add: terminalAttemptStatus_def)

lemma proven_criteria_iff:
  "c \<in> set (proven_criteria es) \<longleftrightarrow> c \<noteq> [] \<and> (\<exists>e \<in> set es. ev_trusted e \<and> ev_criterionId e = Some c)"
  by (induction es) (auto simp: proven_criteria_def split: option.splits)

end
