(* ===== verification/Attempt_Identity.thy ===== *)
theory Attempt_Identity
  imports Runtime_State
begin

text \<open>
  Which agent an attempt belongs to (\<open>attempt-agent-identity.ts\<close>), which attempt is the current
  generation of a task or of an agent (\<open>attempt-ordering.ts\<close>), and which attempt an independent
  verifier reviews (\<open>verification-identity.ts\<close>), all under \<open>core/orchestration/\<close>.
\<close>

section \<open>Native agents\<close>

definition nativeAgentId :: "string option \<Rightarrow> OrchestrationDispatchRequest \<Rightarrow> string option" where
  "nativeAgentId agentId dispatch =
     (if dispatch_executionKind dispatch = Some ManagedProcess then None
      else case agentId of Some a \<Rightarrow> Some a | None \<Rightarrow> dispatch_logicalLaneId dispatch)"

definition nativeAgentIdForAttempt :: "AttemptRuntimeState \<Rightarrow> string option" where
  "nativeAgentIdForAttempt attempt = nativeAgentId (att_agentId attempt) (att_dispatch attempt)"

definition assertAttemptAgentBinding ::
  "string option \<Rightarrow> OrchestrationDispatchRequest \<Rightarrow> orch_error + unit" where
  "assertAttemptAgentBinding agentId dispatch =
     require (agentId = None \<or> nativeAgentId agentId dispatch = agentId) (AgentError AgentManagedBinding)"

definition third_party :: "TurnOriginRecord option \<Rightarrow> bool" where
  "third_party origin \<longleftrightarrow> (case origin of Some r \<Rightarrow> to_thirdParty r | None \<Rightarrow> False)"

definition conversationTurnOrigin ::
  "AttemptRuntimeState js_record \<Rightarrow> AttemptRuntimeState \<Rightarrow> TurnOriginRecord option" where
  "conversationTurnOrigin attempt_map attempt =
     (let own = attemptTurnOrigin attempt; agentId = nativeAgentIdForAttempt attempt in
      if third_party own \<or> agentId = None then own
      else case List.find (\<lambda>candidate. att_admittedTurnOrigin candidate \<noteq> None \<and>
                             nativeAgentIdForAttempt candidate = agentId) (js_values attempt_map) of
             Some candidate \<Rightarrow> att_admittedTurnOrigin candidate
           | None \<Rightarrow> own)"

section \<open>Durable order\<close>

definition live_status :: "AttemptStatus \<Rightarrow> bool" where
  "live_status s \<longleftrightarrow> s \<in> {AttQueued, AttLeased, AttRunning, AttSuspended}"

fun select_attempt ::
  "AttemptRuntimeState js_record \<Rightarrow> AttemptRuntimeState option \<Rightarrow> string list \<Rightarrow> AttemptRuntimeState option" where
  "select_attempt m latest [] = latest"
| "select_attempt m latest (attemptId # ids) =
     (case map_of m attemptId of
        None \<Rightarrow> select_attempt m latest ids
      | Some attempt \<Rightarrow>
          if live_status (att_status attempt) then Some attempt
          else select_attempt m (case latest of None \<Rightarrow> Some attempt | Some l \<Rightarrow> Some l) ids)"

definition task_attempt_ids :: "'a TaskRuntimeProjection_scheme \<Rightarrow> string \<Rightarrow> string list" where
  "task_attempt_ids state taskId =
     (case map_of (tasks state) taskId of Some task \<Rightarrow> ts_attemptIds task | None \<Rightarrow> [])"

definition selectedTaskAttempt ::
  "'a TaskRuntimeProjection_scheme \<Rightarrow> string \<Rightarrow> AttemptRuntimeState option" where
  "selectedTaskAttempt state taskId = select_attempt (attempts state) None (rev (task_attempt_ids state taskId))"

definition is_selected :: "'a TaskRuntimeProjection_scheme \<Rightarrow> string \<Rightarrow> string \<Rightarrow> bool" where
  "is_selected state taskId attemptId \<longleftrightarrow>
     (case selectedTaskAttempt state taskId of Some a \<Rightarrow> att_attemptId a = attemptId | None \<Rightarrow> False)"

definition note_agent_attempt ::
  "'a TaskRuntimeProjection_scheme \<Rightarrow> AttemptRuntimeState js_record \<Rightarrow> AttemptRuntimeState \<Rightarrow> AttemptRuntimeState js_record" where
  "note_agent_attempt state latest attempt =
     (case nativeAgentIdForAttempt attempt of
        Some agentId \<Rightarrow>
          if agentId \<noteq> [] \<and> map_of (agents state) agentId \<noteq> None then js_set agentId attempt latest else latest
      | None \<Rightarrow> latest)"

definition prefer_active_attempt ::
  "'a TaskRuntimeProjection_scheme \<Rightarrow> AttemptRuntimeState js_record \<Rightarrow> AgentBindingContract \<Rightarrow> AttemptRuntimeState js_record" where
  "prefer_active_attempt state latest agent =
     (case agent_activeAttemptId agent of
        Some attemptId \<Rightarrow>
          if attemptId = [] then latest
          else (case map_of (attempts state) attemptId of
                  Some activeAttempt \<Rightarrow>
                    if nativeAgentIdForAttempt activeAttempt = Some (agent_agentId agent)
                    then js_set (agent_agentId agent) activeAttempt latest else latest
                | None \<Rightarrow> latest)
      | None \<Rightarrow> latest)"

definition latestAgentAttemptsByDurableOrder ::
  "'a TaskRuntimeProjection_scheme \<Rightarrow> AttemptRuntimeState js_record" where
  "latestAgentAttemptsByDurableOrder state =
     foldl (prefer_active_attempt state) (foldl (note_agent_attempt state) [] (js_values (attempts state)))
       (js_values (agents state))"

definition latestAgentAttemptByDurableOrder ::
  "'a TaskRuntimeProjection_scheme \<Rightarrow> string \<Rightarrow> AttemptRuntimeState option" where
  "latestAgentAttemptByDurableOrder state agentId = map_of (latestAgentAttemptsByDurableOrder state) agentId"

section \<open>Independent verification\<close>

definition verification_required :: "AttemptRuntimeState \<Rightarrow> bool" where
  "verification_required attempt \<longleftrightarrow>
     (case att_result attempt of
        Some result \<Rightarrow> res_nextAction result = Some ''independent_verification_required''
      | None \<Rightarrow> False)"

definition verified_by :: "AttemptRuntimeState \<Rightarrow> string \<Rightarrow> bool" where
  "verified_by attempt verifierTaskId \<longleftrightarrow>
     (case att_verification attempt of Some v \<Rightarrow> vr_verifierTaskId v = verifierTaskId | None \<Rightarrow> False)"

definition present_attempts :: "'a TaskRuntimeProjection_scheme \<Rightarrow> string list \<Rightarrow> AttemptRuntimeState list" where
  "present_attempts state ids = List.map_filter (\<lambda>i. map_of (attempts state) i) ids"

text \<open>The unique element of a list, when there is exactly one.\<close>

fun the_only :: "'a list \<Rightarrow> 'a option" where
  "the_only [x] = Some x"
| "the_only _ = None"

definition verificationSubjectAttempt ::
  "'a TaskRuntimeProjection_scheme \<Rightarrow> TaskContract \<Rightarrow> AttemptRuntimeState option" where
  "verificationSubjectAttempt state verifier =
     (case task_verificationOfTaskId verifier of
        None \<Rightarrow> None
      | Some taskId \<Rightarrow>
          if taskId = [] then None
          else (case map_of (tasks state) taskId of
            None \<Rightarrow> None
          | Some subject \<Rightarrow>
              let settled = filter (\<lambda>a. verified_by a (task_taskId verifier))
                              (present_attempts state (ts_attemptIds subject))
              in if \<not> truthy (task_verificationOfAttemptId verifier) \<and> settled \<noteq> [] then the_only settled
                 else the_only (filter (\<lambda>a. att_taskId a = taskId \<and> verification_required a)
                        (present_attempts state
                          (filter (\<lambda>i. \<not> truthy (task_verificationOfAttemptId verifier) \<or>
                                        task_verificationOfAttemptId verifier = Some i)
                             (ts_attemptIds subject))))))"

definition attemptVerification ::
  "'a TaskRuntimeProjection_scheme \<Rightarrow> AttemptRuntimeState \<Rightarrow> AttemptVerification option" where
  "attemptVerification state attempt =
     (if \<not> verification_required attempt then None
      else case att_verification attempt of
        Some v \<Rightarrow> Some v
      | None \<Rightarrow>
          (case map_of (tasks state) (att_taskId attempt) of
             None \<Rightarrow> None
           | Some task \<Rightarrow>
               (case ts_verification task of
                  None \<Rightarrow> None
                | Some historical \<Rightarrow>
                    (case map_of (tasks state) (vr_verifierTaskId historical) of
                       None \<Rightarrow> None
                     | Some verifier \<Rightarrow>
                         (case verificationSubjectAttempt state (ts_task verifier) of
                            None \<Rightarrow> None
                          | Some subject \<Rightarrow>
                              if att_attemptId subject = att_attemptId attempt
                              then Some (VerificationRecord.extend historical
                                     \<lparr>av_subjectAttemptId = att_attemptId attempt\<rparr>)
                              else None)))))"

definition taskAwaitsVerification :: "'a TaskRuntimeProjection_scheme \<Rightarrow> string \<Rightarrow> bool" where
  "taskAwaitsVerification state taskId \<longleftrightarrow>
     (case selectedTaskAttempt state taskId of
        None \<Rightarrow> False
      | Some attempt \<Rightarrow> verification_required attempt \<and> attemptVerification state attempt = None)"

definition taskStatusWithVerification ::
  "OrchestrationTaskStatus \<Rightarrow> VerificationVerdict option \<Rightarrow> OrchestrationTaskStatus" where
  "taskStatusWithVerification status verdict =
     (if status \<noteq> TaskBlocked \<and> status \<noteq> TaskCompleted then status
      else if verdict = Some VerdictAccepted then TaskCompleted else TaskBlocked)"

definition currentTaskTerminalOverride ::
  "'a TaskRuntimeProjection_scheme \<Rightarrow> AttemptRuntimeState \<Rightarrow> OrchestrationTaskStatus option" where
  "currentTaskTerminalOverride state attempt =
     (if \<not> verification_required attempt then None
      else if \<not> is_selected state (att_taskId attempt) (att_attemptId attempt) then None
      else case map_of (tasks state) (att_taskId attempt) of
        None \<Rightarrow> None
      | Some t \<Rightarrow> if task_status (ts_task t) \<in> {TaskFailed, TaskCancelled}
                  then Some (task_status (ts_task t)) else None)"

definition isCurrentVerificationSubject ::
  "'a TaskRuntimeProjection_scheme \<Rightarrow> string option \<Rightarrow> string option \<Rightarrow> bool" where
  "isCurrentVerificationSubject state taskId attemptId \<longleftrightarrow>
     (case (taskId, attemptId) of (Some t, Some a) \<Rightarrow> is_selected state t a | _ \<Rightarrow> False)"

definition assertVerificationDependenciesReady ::
  "'a TaskRuntimeProjection_scheme \<Rightarrow> AttemptRuntimeState \<Rightarrow> orch_error + unit" where
  "assertVerificationDependenciesReady state attempt =
     (case map_of (tasks state) (att_taskId attempt) of
        None \<Rightarrow> Inr ()
      | Some task \<Rightarrow>
          forE (\<lambda>taskId. require (\<not> taskAwaitsVerification state taskId)
                          (TaskError (TaskDependenciesIncomplete taskId)))
            (task_dependsOn (ts_task task)))"

fun verdict_name :: "VerificationVerdict \<Rightarrow> string" where
  "verdict_name VerdictAccepted = ''accepted''"
| "verdict_name VerdictRejected = ''rejected''"
| "verdict_name VerdictInconclusive = ''inconclusive''"

definition review_evidence ::
  "TaskContract \<Rightarrow> string \<Rightarrow> VerificationVerdict \<Rightarrow> EvidenceContract \<Rightarrow> bool" where
  "review_evidence verifier taskId verdict e \<longleftrightarrow>
     ev_trusted e \<and> ev_kind e = EvReview \<and>
     json_field (ev_metadata e) ''subjectTaskId'' = Some (JString taskId) \<and>
     json_field (ev_metadata e) ''verdict'' = Some (JString (verdict_name verdict)) \<and>
     (\<not> truthy (task_verificationOfAttemptId verifier) \<or>
      json_field (ev_metadata e) ''subjectAttemptId'' =
        map_option JString (task_verificationOfAttemptId verifier))"

definition assertVerificationRecord ::
  "'a TaskRuntimeProjection_scheme \<Rightarrow> string \<Rightarrow> 'b VerificationRecord_scheme \<Rightarrow> string option \<Rightarrow> orch_error + unit" where
  "assertVerificationRecord state taskId verification subjectAttemptId =
     (case (map_of (tasks state) (vr_verifierTaskId verification),
            map_of (attempts state) (vr_verifierAttemptId verification)) of
        (Some verifierState, Some reviewer) \<Rightarrow>
          let verifier = ts_task verifierState in
          bindE (require (task_verificationOfTaskId verifier = Some taskId \<and>
                          att_taskId reviewer = task_taskId verifier \<and>
                          terminalAttemptStatus (att_status reviewer) \<and>
                          \<not> (vr_verdict verification = VerdictAccepted \<and> att_status reviewer \<noteq> AttCompleted))
                   (VerificationError (VerificationRecordInvalid taskId))) (\<lambda>_.
          bindE (case subjectAttemptId of
                   Some s \<Rightarrow> require (s = [] \<or>
                       (case verificationSubjectAttempt state verifier of
                          Some a \<Rightarrow> att_attemptId a = s | None \<Rightarrow> False))
                     (VerificationError (VerificationSubjectMismatch s))
                 | None \<Rightarrow> Inr ()) (\<lambda>_.
          if vr_verdict verification = VerdictInconclusive then Inr ()
          else require (case att_result reviewer of
                   None \<Rightarrow> False
                 | Some result \<Rightarrow>
                     \<exists>e \<in> set (res_evidence result). review_evidence verifier taskId (vr_verdict verification) e)
                 (VerificationError (VerificationEvidenceMissing taskId))))
      | _ \<Rightarrow> Inl (VerificationError (VerificationRecordInvalid taskId)))"

section \<open>The selected attempt\<close>

lemma present_attempts_simps [simp]:
  "present_attempts state [] = []"
  "present_attempts state (i # is) =
     (case map_of (attempts state) i of Some a \<Rightarrow> a # present_attempts state is | None \<Rightarrow> present_attempts state is)"
  by (simp_all add: present_attempts_def split: option.splits)

lemma present_attempts_append:
  "present_attempts state (xs @ ys) = present_attempts state xs @ present_attempts state ys"
  by (induction xs) (auto split: option.splits)

lemma present_attempts_rev: "present_attempts state (rev xs) = rev (present_attempts state xs)"
  by (induction xs) (auto simp: present_attempts_append split: option.splits)

lemma present_attempts_iff:
  "a \<in> set (present_attempts state ids) \<longleftrightarrow> (\<exists>i \<in> set ids. map_of (attempts state) i = Some a)"
  by (induction ids) (auto split: option.splits)

lemma select_attempt_find:
  "select_attempt (attempts state) latest ids =
     (case List.find (\<lambda>a. live_status (att_status a)) (present_attempts state ids) of
        Some a \<Rightarrow> Some a
      | None \<Rightarrow> (case latest of Some l \<Rightarrow> Some l
               | None \<Rightarrow> (case present_attempts state ids of [] \<Rightarrow> None | a # _ \<Rightarrow> Some a)))"
  by (induction "attempts state" latest ids rule: select_attempt.induct) (auto split: option.splits)

lemma find_rev: "List.find P (rev xs) = (if filter P xs = [] then None else Some (last (filter P xs)))"
  by (induction xs rule: rev_induct) auto

lemma selected_attempt_lookup:
  "selectedTaskAttempt state taskId =
     (let present = present_attempts state (task_attempt_ids state taskId);
          live = filter (\<lambda>a. live_status (att_status a)) present
      in if live \<noteq> [] then Some (last live) else if present \<noteq> [] then Some (last present) else None)"
  by (cases "present_attempts state (task_attempt_ids state taskId)" rule: rev_cases)
    (simp_all add: selectedTaskAttempt_def select_attempt_find present_attempts_rev find_rev Let_def)

text \<open>
  The current generation of a task is its last live attempt, and when none is live its last
  retained attempt; identifiers of attempts the projection no longer holds are skipped.
\<close>

theorem selected_attempt_spec:
  "selectedTaskAttempt state taskId =
     (let present = present_attempts state (task_attempt_ids state taskId);
          live = filter (\<lambda>a. live_status (att_status a)) present
      in if live \<noteq> [] then Some (last live) else if present \<noteq> [] then Some (last present) else None)"
  by (rule selected_attempt_lookup)

lemma live_status_iff: "live_status s \<longleftrightarrow> \<not> terminalAttemptStatus s"
  by (cases s) (simp_all add: live_status_def)

end
