(* ===== verification/Host_Event_Capacity.thy ===== *)
theory Host_Event_Capacity
  imports Runtime_State
begin

text \<open>
  Serialized sizes and the capacity of the host event domain (\<open>core/events/host-event-capacity.ts\<close>).
  The length of a serialized key is computed, the length of a serialized record comes from the
  environment, and the length of a serialized map follows from both by the grammar of JSON.
\<close>

section \<open>Serialized lengths\<close>

text \<open>
  \<open>JSON.stringify\<close> of a string escapes the quote, the backslash and the control characters; UTF-8
  takes two bytes for a code unit above 127.
\<close>

definition json_char_bytes :: "char \<Rightarrow> nat" where
  "json_char_bytes c = (let n = of_char c :: nat in
     if n = 34 \<or> n = 92 \<or> n \<in> {8, 9, 10, 12, 13} then 2 else if n < 32 then 6 else if n < 128 then 1 else 2)"

definition json_string_bytes :: "string \<Rightarrow> nat" where
  "json_string_bytes s = 2 + sum_list (map json_char_bytes s)"

fun decimal_digits :: "nat \<Rightarrow> nat" where
  "decimal_digits n = (if n < 10 then 1 else Suc (decimal_digits (n div 10)))"

declare decimal_digits.simps [simp del]

definition entries_bytes :: "('v \<Rightarrow> nat) \<Rightarrow> 'v js_record \<Rightarrow> nat" where
  "entries_bytes sz m = sum_list (map (\<lambda>(k, v). json_string_bytes k + 1 + sz v) m) + (length m - 1)"

definition json_record_bytes :: "('v \<Rightarrow> nat) \<Rightarrow> 'v js_record \<Rightarrow> nat" where
  "json_record_bytes sz m = 2 + entries_bytes sz m"

section \<open>Settlement reservations\<close>

definition ESCAPED_IDENTIFIER_BYTES :: nat where
  "ESCAPED_IDENTIFIER_BYTES = 6 * MAX_ORCHESTRATION_IDENTIFIER_LENGTH"
definition SETTLEMENT_BYTES :: nat where "SETTLEMENT_BYTES = 6 * 128 + 256"
definition ROOT_SETTLEMENT_BYTES :: nat where
  "ROOT_SETTLEMENT_BYTES = ESCAPED_IDENTIFIER_BYTES + SETTLEMENT_BYTES"
definition SOURCE_END_BYTES :: nat where "SOURCE_END_BYTES = 128"
definition TRANSPORT_FLAG_BYTES :: nat where "TRANSPORT_FLAG_BYTES = 96"

definition transcriptReceiptBytes :: "json_env \<Rightarrow> HostEventDeliveryBinding \<Rightarrow> nat" where
  "transcriptReceiptBytes J binding =
     je_transcript_receipt J \<lparr>tr_sessionId = hx_sessionId (hb_execution binding),
       tr_sessionFile = hx_sessionFile (hb_execution binding), tr_entryId = [],
       tr_taskId = hx_taskId (hb_execution binding), tr_attemptId = hx_attemptId (hb_execution binding),
       tr_messageId = hb_messageId binding, tr_contentDigest = hb_contentDigest binding,
       tr_bindingDigest = hb_bindingDigest binding\<rparr> + ESCAPED_IDENTIFIER_BYTES"

definition open_status :: "DeliveryStatus \<Rightarrow> bool" where
  "open_status s \<longleftrightarrow> s = DelPending \<or> s = DelReserved"

definition deliverySettlementReserve :: "json_env \<Rightarrow> HostEventDelivery \<Rightarrow> nat" where
  "deliverySettlementReserve J delivery =
     (if is_root_target (del_target delivery)
      then (if open_status (del_status delivery) then ROOT_SETTLEMENT_BYTES else 0)
      else let physical = (if del_binding delivery \<noteq> None \<and> \<not> del_mailboxSettled delivery
                           then TRANSPORT_FLAG_BYTES else 0)
           in if \<not> open_status (del_status delivery) then physical
              else SETTLEMENT_BYTES + physical +
                (case del_binding delivery of
                   Some binding \<Rightarrow>
                     if \<not> del_bindingRetired delivery \<and> del_transcriptReceipt delivery = None
                     then transcriptReceiptBytes J binding else 0
                 | None \<Rightarrow> 0))"

text \<open>\<open>Math.max(0, ceiling - bytes)\<close> is truncated subtraction.\<close>

definition source_reserve :: "json_env \<Rightarrow> HostEventSourceState \<Rightarrow> nat" where
  "source_reserve J source =
     ((2048 * length (reg_subjects (src_registration source)) + 12 * MAX_ORCHESTRATION_IDENTIFIER_LENGTH + 1024)
        - (case src_seal source of Some seal \<Rightarrow> je_seal J seal | None \<Rightarrow> 0)) +
     (if src_ended source = None then SOURCE_END_BYTES else 0) +
     ((12 * MAX_ORCHESTRATION_IDENTIFIER_LENGTH + 1024)
        - (case src_lastReplayGap source of Some gap \<Rightarrow> je_gap J gap | None \<Rightarrow> 0))"

definition host_field_bytes :: "('v \<Rightarrow> nat) \<Rightarrow> nat \<Rightarrow> string \<Rightarrow> 'v js_record \<Rightarrow> orch_error + nat" where
  "host_field_bytes sz limit name m =
     (if limit < length m then Inl (HostError HostCapacity)
      else Inr (json_record_bytes sz m + length name + 4))"

definition hostEventCapacity :: "json_env \<Rightarrow> 'a HostEventProjection_scheme \<Rightarrow> orch_error + (nat \<times> nat)" where
  "hostEventCapacity J p =
     bindE (host_field_bytes (je_source J) MAX_HOST_EVENT_SOURCES ''eventSources'' (eventSources p)) (\<lambda>b1.
     bindE (host_field_bytes (je_event J) MAX_HOST_EVENTS ''hostEvents'' (hostEvents p)) (\<lambda>b2.
     bindE (host_field_bytes (je_subscription J) MAX_HOST_EVENT_SUBSCRIPTIONS ''threadSubscriptions'' (threadSubscriptions p)) (\<lambda>b3.
     bindE (host_field_bytes (je_delivery J) MAX_HOST_EVENT_DELIVERIES ''eventDeliveries'' (eventDeliveries p)) (\<lambda>b4.
     let bytes = b1 + b2 + b3 + b4;
         reservedBytes = sum_list (map (deliverySettlementReserve J) (js_values (eventDeliveries p))) +
                         sum_list (map (source_reserve J) (js_values (eventSources p)))
     in if MAX_HOST_EVENT_DOMAIN_BYTES < bytes + reservedBytes then Inl (HostError HostCapacity)
        else Inr (bytes, reservedBytes)))))"

text \<open>What an accepted capacity check says of the four host event maps.\<close>

definition host_record_limits :: "'a HostEventProjection_scheme \<Rightarrow> bool" where
  "host_record_limits p \<longleftrightarrow>
     length (eventSources p) \<le> MAX_HOST_EVENT_SOURCES \<and> length (hostEvents p) \<le> MAX_HOST_EVENTS \<and>
     length (threadSubscriptions p) \<le> MAX_HOST_EVENT_SUBSCRIPTIONS \<and>
     length (eventDeliveries p) \<le> MAX_HOST_EVENT_DELIVERIES"

lemma hostEventCapacity_limits:
  assumes "hostEventCapacity J p = Inr (b, r)"
  shows "host_record_limits p" "b + r \<le> MAX_HOST_EVENT_DOMAIN_BYTES"
    "r = sum_list (map (deliverySettlementReserve J) (js_values (eventDeliveries p))) +
         sum_list (map (source_reserve J) (js_values (eventSources p)))"
  using assms
  by (auto simp: hostEventCapacity_def host_field_bytes_def host_record_limits_def Let_def split: if_splits)

end
