(* ===== verification/Projection_Bytes.thy ===== *)
theory Projection_Bytes
  imports Host_Event_Capacity
begin

text \<open>
  Bounds and byte accounting of the projection (\<open>core/orchestration/task-runtime-projection.ts\<close>): the
  serialized size of a projection, the byte tracker that maintains it through every write of a
  reduction, the collection limits, and the capacity report.
\<close>

section \<open>Serialized size\<close>

definition PROJECTION_RECORD_FIELDS :: "ProjectionRecordField list" where
  "PROJECTION_RECORD_FIELDS = [FieldEventSources, FieldHostEvents, FieldThreadSubscriptions,
     FieldEventDeliveries, FieldAgents, FieldObjectives, FieldTasks, FieldAttempts, FieldCheckpoints,
     FieldApprovals, FieldNotifications]"

fun field_name :: "ProjectionRecordField \<Rightarrow> string" where
  "field_name FieldEventSources = ''eventSources''"
| "field_name FieldHostEvents = ''hostEvents''"
| "field_name FieldThreadSubscriptions = ''threadSubscriptions''"
| "field_name FieldEventDeliveries = ''eventDeliveries''"
| "field_name FieldAgents = ''agents''"
| "field_name FieldObjectives = ''objectives''"
| "field_name FieldTasks = ''tasks''"
| "field_name FieldAttempts = ''attempts''"
| "field_name FieldCheckpoints = ''checkpoints''"
| "field_name FieldApprovals = ''approvals''"
| "field_name FieldNotifications = ''notifications''"

definition retainedRecordSerializedBytes ::
  "('v \<Rightarrow> nat) \<Rightarrow> ProjectionRecordField \<Rightarrow> string \<Rightarrow> 'v \<Rightarrow> orch_error + int" where
  "retainedRecordSerializedBytes sz field key v =
     (if MAX_ORCHESTRATION_RETAINED_RECORD_BYTES < sz v then Inl (LimitError (RetainedRecordTooLarge field key))
      else Inr (int (sz v)))"

definition retainedRecordKeyBytes :: "ProjectionRecordField \<Rightarrow> string \<Rightarrow> orch_error + int" where
  "retainedRecordKeyBytes field key =
     (if key = [] \<or> MAX_ORCHESTRATION_IDENTIFIER_LENGTH < length key
      then Inl (LimitError (RetainedKeyOutOfBounds field key))
      else Inr (int (json_string_bytes key)))"

text \<open>Eleven empty maps, the ordinal, and the eleven separators between the twelve members.\<close>

definition emptyProjectionSerializedBytes :: "nat \<Rightarrow> int" where
  "emptyProjectionSerializedBytes ordinal =
     int (2 + sum_list (map (\<lambda>f. json_string_bytes (field_name f) + 3) PROJECTION_RECORD_FIELDS) +
          (json_string_bytes ''lastOrdinal'' + 1 + decimal_digits ordinal) + length PROJECTION_RECORD_FIELDS)"

definition add_record_bytes ::
  "('v \<Rightarrow> nat) \<Rightarrow> ProjectionRecordField \<Rightarrow> 'v js_record \<Rightarrow> int \<Rightarrow> orch_error + int" where
  "add_record_bytes sz field m start =
     bindE (foldE (\<lambda>(bytes, entryCount) (key, v).
              bindE (retainedRecordKeyBytes field key) (\<lambda>k.
              bindE (retainedRecordSerializedBytes sz field key v) (\<lambda>r.
              let next = bytes + (if 0 < entryCount then 1 else 0) + k + 1 + r
              in if int MAX_ORCHESTRATION_PROJECTION_BYTES < next then Inl (LimitError ProjectionTooLarge)
                 else Inr (next, Suc entryCount))))
            (start, 0 :: nat) m)
       (\<lambda>(bytes, entryCount). Inr bytes)"

definition projectionSerializedBytes :: "json_env \<Rightarrow> 'a TaskRuntimeProjection_scheme \<Rightarrow> orch_error + int" where
  "projectionSerializedBytes J p =
     bindE (add_record_bytes (je_source J) FieldEventSources (eventSources p)
              (emptyProjectionSerializedBytes (lastOrdinal p))) (\<lambda>b.
     bindE (add_record_bytes (je_event J) FieldHostEvents (hostEvents p) b) (\<lambda>b.
     bindE (add_record_bytes (je_subscription J) FieldThreadSubscriptions (threadSubscriptions p) b) (\<lambda>b.
     bindE (add_record_bytes (je_delivery J) FieldEventDeliveries (eventDeliveries p) b) (\<lambda>b.
     bindE (add_record_bytes (je_agent J) FieldAgents (agents p) b) (\<lambda>b.
     bindE (add_record_bytes (je_objective J) FieldObjectives (objectives p) b) (\<lambda>b.
     bindE (add_record_bytes (je_task J) FieldTasks (tasks p) b) (\<lambda>b.
     bindE (add_record_bytes (je_attempt J) FieldAttempts (attempts p) b) (\<lambda>b.
     bindE (add_record_bytes (je_checkpoint J) FieldCheckpoints (checkpoints p) b) (\<lambda>b.
     bindE (add_record_bytes (je_approval J) FieldApprovals (approvals p) b) (\<lambda>b.
     add_record_bytes (je_notification J) FieldNotifications (notifications p) b))))))))))"

text \<open>The size cached with a projection object, when there is one, is returned without recomputing.\<close>

definition cachedProjectionBytes ::
  "json_env \<Rightarrow> int option \<Rightarrow> 'a TaskRuntimeProjection_scheme \<Rightarrow> orch_error + int" where
  "cachedProjectionBytes J cached p =
     (case cached of Some bytes \<Rightarrow> Inr bytes | None \<Rightarrow> projectionSerializedBytes J p)"

definition assertProjectionRecordReplacementWithinLimits ::
  "json_env \<Rightarrow> int option \<Rightarrow> 'a TaskRuntimeProjection_scheme \<Rightarrow> ('v \<Rightarrow> nat) \<Rightarrow> ProjectionRecordField \<Rightarrow>
   'v js_record \<Rightarrow> string \<Rightarrow> 'v \<Rightarrow> orch_error + unit" where
  "assertProjectionRecordReplacementWithinLimits J cached p sz field m key v =
     bindE (retainedRecordSerializedBytes sz field key v) (\<lambda>nextRecordBytes.
     bindE (case map_of m key of Some current \<Rightarrow> retainedRecordSerializedBytes sz field key current
            | None \<Rightarrow> Inr 0) (\<lambda>currentRecordBytes.
     bindE (case map_of m key of Some current \<Rightarrow> Inr 0
            | None \<Rightarrow> bindE (retainedRecordKeyBytes field key) (\<lambda>k. Inr (k + 1 + (if 0 < length m then 1 else 0))))
       (\<lambda>insertionBytes.
     bindE (cachedProjectionBytes J cached p) (\<lambda>bytes.
     if int MAX_ORCHESTRATION_PROJECTION_BYTES < bytes + insertionBytes + nextRecordBytes - currentRecordBytes
     then Inl (LimitError ProjectionTooLarge) else Inr ()))))"

section \<open>The byte tracker\<close>

text \<open>
  The state a reduction writes: the projection's fields with the tracker's running size and entry
  counts. Each map is written only through \<open>tracked_put\<close> and \<open>tracked_delete\<close>, the traps of the
  proxies \<open>ProjectionByteTracker.track\<close> installs.
\<close>

record ReducerDraft = TaskRuntimeProjection +
  trk_bytes :: int
  trk_counts :: "ProjectionRecordField \<Rightarrow> nat"

definition tracked_put ::
  "ProjectionRecordField \<Rightarrow> ('v \<Rightarrow> nat) \<Rightarrow> (ReducerDraft \<Rightarrow> 'v js_record) \<Rightarrow>
   ('v js_record \<Rightarrow> ReducerDraft \<Rightarrow> ReducerDraft) \<Rightarrow> string \<Rightarrow> 'v \<Rightarrow> ReducerDraft \<Rightarrow> orch_error + ReducerDraft" where
  "tracked_put field sz get upd key v d =
     (let m = get d; previous = map_of m key; count = trk_counts d field in
     bindE (retainedRecordSerializedBytes sz field key v) (\<lambda>nextRecordBytes.
     bindE (case previous of Some p \<Rightarrow> retainedRecordSerializedBytes sz field key p | None \<Rightarrow> Inr 0)
       (\<lambda>previousRecordBytes.
     bindE (case previous of Some p \<Rightarrow> Inr 0
            | None \<Rightarrow> bindE (retainedRecordKeyBytes field key) (\<lambda>k. Inr (k + 1 + (if 0 < count then 1 else 0))))
       (\<lambda>keyAndSeparatorBytes.
     let nextBytes = trk_bytes d + keyAndSeparatorBytes + nextRecordBytes - previousRecordBytes
     in if int MAX_ORCHESTRATION_PROJECTION_BYTES < nextBytes then Inl (LimitError ProjectionTooLarge)
        else Inr ((upd (js_set key v m) d)
               \<lparr>trk_bytes := nextBytes,
                trk_counts := (trk_counts d)(field := (if previous = None then count + 1 else count))\<rparr>)))))"

definition tracked_delete ::
  "ProjectionRecordField \<Rightarrow> ('v \<Rightarrow> nat) \<Rightarrow> (ReducerDraft \<Rightarrow> 'v js_record) \<Rightarrow>
   ('v js_record \<Rightarrow> ReducerDraft \<Rightarrow> ReducerDraft) \<Rightarrow> string \<Rightarrow> ReducerDraft \<Rightarrow> orch_error + ReducerDraft" where
  "tracked_delete field sz get upd key d =
     (let m = get d; count = trk_counts d field in
     case map_of m key of
       None \<Rightarrow> Inr d
     | Some v \<Rightarrow>
         bindE (retainedRecordKeyBytes field key) (\<lambda>k.
         bindE (retainedRecordSerializedBytes sz field key v) (\<lambda>r.
         Inr ((upd (js_delete key m) d)
           \<lparr>trk_bytes := trk_bytes d - (k + 1 + r + (if 1 < count then 1 else 0)),
            trk_counts := (trk_counts d)(field := count - 1)\<rparr>))))"

definition "put_source J = tracked_put FieldEventSources (je_source J) eventSources (\<lambda>m d. d\<lparr>eventSources := m\<rparr>)"
definition "put_event J = tracked_put FieldHostEvents (je_event J) hostEvents (\<lambda>m d. d\<lparr>hostEvents := m\<rparr>)"
definition "put_subscription J =
  tracked_put FieldThreadSubscriptions (je_subscription J) threadSubscriptions (\<lambda>m d. d\<lparr>threadSubscriptions := m\<rparr>)"
definition "put_delivery J =
  tracked_put FieldEventDeliveries (je_delivery J) eventDeliveries (\<lambda>m d. d\<lparr>eventDeliveries := m\<rparr>)"
definition "put_agent J = tracked_put FieldAgents (je_agent J) agents (\<lambda>m d. d\<lparr>agents := m\<rparr>)"
definition "put_objective J = tracked_put FieldObjectives (je_objective J) objectives (\<lambda>m d. d\<lparr>objectives := m\<rparr>)"
definition "put_task J = tracked_put FieldTasks (je_task J) tasks (\<lambda>m d. d\<lparr>tasks := m\<rparr>)"
definition "put_attempt J = tracked_put FieldAttempts (je_attempt J) attempts (\<lambda>m d. d\<lparr>attempts := m\<rparr>)"
definition "put_checkpoint J =
  tracked_put FieldCheckpoints (je_checkpoint J) checkpoints (\<lambda>m d. d\<lparr>checkpoints := m\<rparr>)"
definition "put_approval J = tracked_put FieldApprovals (je_approval J) approvals (\<lambda>m d. d\<lparr>approvals := m\<rparr>)"
definition "put_notification J =
  tracked_put FieldNotifications (je_notification J) notifications (\<lambda>m d. d\<lparr>notifications := m\<rparr>)"

definition "delete_source J =
  tracked_delete FieldEventSources (je_source J) eventSources (\<lambda>m d. d\<lparr>eventSources := m\<rparr>)"
definition "delete_event J = tracked_delete FieldHostEvents (je_event J) hostEvents (\<lambda>m d. d\<lparr>hostEvents := m\<rparr>)"
definition "delete_delivery J =
  tracked_delete FieldEventDeliveries (je_delivery J) eventDeliveries (\<lambda>m d. d\<lparr>eventDeliveries := m\<rparr>)"

lemmas draft_write_defs =
  put_source_def put_event_def put_subscription_def put_delivery_def put_agent_def put_objective_def
  put_task_def put_attempt_def put_checkpoint_def put_approval_def put_notification_def
  delete_source_def delete_event_def delete_delivery_def

fun field_count :: "'a TaskRuntimeProjection_scheme \<Rightarrow> ProjectionRecordField \<Rightarrow> nat" where
  "field_count p FieldEventSources = length (eventSources p)"
| "field_count p FieldHostEvents = length (hostEvents p)"
| "field_count p FieldThreadSubscriptions = length (threadSubscriptions p)"
| "field_count p FieldEventDeliveries = length (eventDeliveries p)"
| "field_count p FieldAgents = length (agents p)"
| "field_count p FieldObjectives = length (objectives p)"
| "field_count p FieldTasks = length (tasks p)"
| "field_count p FieldAttempts = length (attempts p)"
| "field_count p FieldCheckpoints = length (checkpoints p)"
| "field_count p FieldApprovals = length (approvals p)"
| "field_count p FieldNotifications = length (notifications p)"

definition start_tracking ::
  "json_env \<Rightarrow> int option \<Rightarrow> TaskRuntimeProjection \<Rightarrow> orch_error + ReducerDraft" where
  "start_tracking J cached p =
     bindE (cachedProjectionBytes J cached p) (\<lambda>bytes.
     Inr (TaskRuntimeProjection.extend p \<lparr>trk_bytes = bytes, trk_counts = field_count p\<rparr>))"

definition finish_tracking :: "nat \<Rightarrow> nat \<Rightarrow> ReducerDraft \<Rightarrow> orch_error + int" where
  "finish_tracking nextOrdinal sourceOrdinal d =
     (let bytes = trk_bytes d + (int (decimal_digits nextOrdinal) - int (decimal_digits sourceOrdinal))
      in if int MAX_ORCHESTRATION_PROJECTION_BYTES < bytes then Inl (LimitError ProjectionTooLarge) else Inr bytes)"

section \<open>Collection limits\<close>

definition assertRecordWithinLimit ::
  "ProjectionRecordField \<Rightarrow> 'v js_record \<Rightarrow> nat \<Rightarrow> orch_error + unit" where
  "assertRecordWithinLimit field m limit =
     (if limit < length m then Inl (LimitError (RecordLimitExceeded field)) else Inr ())"

definition assertRecordHasCapacity ::
  "ProjectionRecordField \<Rightarrow> 'v js_record \<Rightarrow> nat \<Rightarrow> orch_error + unit" where
  "assertRecordHasCapacity field m limit =
     (if m \<noteq> [] \<and> limit \<le> length m then Inl (LimitError (RecordLimitReached field)) else Inr ())"

definition assertIdentifierListHasCapacity :: "string list \<Rightarrow> nat \<Rightarrow> orch_error + unit" where
  "assertIdentifierListHasCapacity values limit =
     (if limit \<le> length values then Inl (LimitError IdentifierListFull) else Inr ())"

definition evidence_total :: "ObjectiveRuntimeState js_record \<Rightarrow> nat" where
  "evidence_total m = sum_list (map (\<lambda>o'. length (os_evidence o')) (js_values m))"

text \<open>The loop throws as soon as the running count reaches the limit, which an empty map never does.\<close>

definition assertObjectiveEvidenceHasCapacity ::
  "ObjectiveRuntimeState js_record \<Rightarrow> ObjectiveRuntimeState \<Rightarrow> orch_error + unit" where
  "assertObjectiveEvidenceHasCapacity m objective =
     (if MAX_ORCHESTRATION_OBJECTIVE_EVIDENCE \<le> length (os_evidence objective)
      then Inl (LimitError ObjectiveEvidenceLimit)
      else if m \<noteq> [] \<and> MAX_ORCHESTRATION_EVIDENCE \<le> evidence_total m then Inl (LimitError EvidenceLimit)
      else Inr ())"

definition identifiers_bounded :: "string list \<Rightarrow> nat \<Rightarrow> bool" where
  "identifiers_bounded values limit \<longleftrightarrow>
     length values \<le> limit \<and> distinct values \<and>
     (\<forall>v \<in> set values. v \<noteq> [] \<and> length v \<le> MAX_ORCHESTRATION_IDENTIFIER_LENGTH)"

definition assertBoundedIdentifierList :: "string list \<Rightarrow> nat \<Rightarrow> orch_error + unit" where
  "assertBoundedIdentifierList values limit =
     (if identifiers_bounded values limit then Inr () else Inl (LimitError IdentifierListInvalid))"

definition check_objective_collections :: "nat \<Rightarrow> string \<times> ObjectiveRuntimeState \<Rightarrow> orch_error + nat" where
  "check_objective_collections evidenceCount entry =
     (let objective = snd entry in
      bindE (assertBoundedIdentifierList (os_taskIds objective) MAX_ORCHESTRATION_TASKS) (\<lambda>_.
      if MAX_ORCHESTRATION_OBJECTIVE_EVIDENCE < length (os_evidence objective)
      then Inl (LimitError ObjectiveEvidenceLimit)
      else let count = evidenceCount + length (os_evidence objective)
           in if MAX_ORCHESTRATION_EVIDENCE < count then Inl (LimitError EvidenceLimit) else Inr count))"

definition check_checkpoint_collections :: "string \<times> AttemptCheckpoint \<Rightarrow> orch_error + unit" where
  "check_checkpoint_collections entry =
     (let (checkpointId, checkpoint) = entry in
      if ck_summary checkpoint = [] \<or> MAX_ORCHESTRATION_CHECKPOINT_SUMMARY_LENGTH < length (ck_summary checkpoint)
      then Inl (LimitError (CheckpointSummaryInvalid checkpointId))
      else bindE (assertBoundedIdentifierList (ck_artifactIds checkpoint) MAX_ORCHESTRATION_COLLECTION_LENGTH) (\<lambda>_.
           assertBoundedIdentifierList (ck_evidenceIds checkpoint) MAX_ORCHESTRATION_COLLECTION_LENGTH))"

definition assertRetainedProjectionNestedCollections ::
  "'a TaskRuntimeProjection_scheme \<Rightarrow> orch_error + nat" where
  "assertRetainedProjectionNestedCollections p =
     bindE (foldE check_objective_collections 0 (objectives p)) (\<lambda>evidenceCount.
     bindE (forE (\<lambda>(taskId, task). assertBoundedIdentifierList (ts_attemptIds task) MAX_ORCHESTRATION_ATTEMPTS)
              (tasks p)) (\<lambda>_.
     bindE (forE (\<lambda>(attemptId, attempt).
                assertBoundedIdentifierList (att_checkpointIds attempt) MAX_ORCHESTRATION_CHECKPOINTS)
              (attempts p)) (\<lambda>_.
     bindE (forE check_checkpoint_collections (checkpoints p)) (\<lambda>_.
     Inr evidenceCount))))"

definition assertProjectionWithinLimits ::
  "json_env \<Rightarrow> int option \<Rightarrow> 'a TaskRuntimeProjection_scheme \<Rightarrow> orch_error + unit" where
  "assertProjectionWithinLimits J cached p =
     bindE (hostEventCapacity J p) (\<lambda>(hostBytes, reservedBytes).
     bindE (assertRecordWithinLimit FieldAgents (agents p) MAX_ORCHESTRATION_AGENT_BINDINGS) (\<lambda>_.
     bindE (assertRecordWithinLimit FieldObjectives (objectives p) MAX_ORCHESTRATION_OBJECTIVES) (\<lambda>_.
     bindE (assertRecordWithinLimit FieldTasks (tasks p) MAX_ORCHESTRATION_TASKS) (\<lambda>_.
     bindE (assertRecordWithinLimit FieldAttempts (attempts p) MAX_ORCHESTRATION_ATTEMPTS) (\<lambda>_.
     bindE (assertRecordWithinLimit FieldCheckpoints (checkpoints p) MAX_ORCHESTRATION_CHECKPOINTS) (\<lambda>_.
     bindE (assertRecordWithinLimit FieldApprovals (approvals p) MAX_ORCHESTRATION_APPROVALS) (\<lambda>_.
     bindE (assertRecordWithinLimit FieldNotifications (notifications p) MAX_ORCHESTRATION_NOTIFICATIONS) (\<lambda>_.
     bindE (assertRetainedProjectionNestedCollections p) (\<lambda>evidence.
     bindE (cachedProjectionBytes J cached p) (\<lambda>bytes.
     if int MAX_ORCHESTRATION_PROJECTION_BYTES < bytes + int reservedBytes
     then Inl (LimitError SettlementBytesMissing) else Inr ()))))))))))"

record OrchestrationProjectionSlotCounts =
  sl_fields :: "ProjectionRecordField \<Rightarrow> nat"
  sl_evidence :: nat

fun field_limit :: "ProjectionRecordField \<Rightarrow> nat" where
  "field_limit FieldEventSources = MAX_HOST_EVENT_SOURCES"
| "field_limit FieldHostEvents = MAX_HOST_EVENTS"
| "field_limit FieldThreadSubscriptions = MAX_HOST_EVENT_SUBSCRIPTIONS"
| "field_limit FieldEventDeliveries = MAX_HOST_EVENT_DELIVERIES"
| "field_limit FieldAgents = MAX_ORCHESTRATION_AGENT_BINDINGS"
| "field_limit FieldObjectives = MAX_ORCHESTRATION_OBJECTIVES"
| "field_limit FieldTasks = MAX_ORCHESTRATION_TASKS"
| "field_limit FieldAttempts = MAX_ORCHESTRATION_ATTEMPTS"
| "field_limit FieldCheckpoints = MAX_ORCHESTRATION_CHECKPOINTS"
| "field_limit FieldApprovals = MAX_ORCHESTRATION_APPROVALS"
| "field_limit FieldNotifications = MAX_ORCHESTRATION_NOTIFICATIONS"

text \<open>Counts, limits and headroom; the headroom of a field over its limit is negative.\<close>

definition projectionCapacity ::
  "'a TaskRuntimeProjection_scheme \<Rightarrow>
   orch_error + (OrchestrationProjectionSlotCounts \<times> OrchestrationProjectionSlotCounts \<times>
                 (ProjectionRecordField \<Rightarrow> int) \<times> int)" where
  "projectionCapacity p =
     bindE (assertRetainedProjectionNestedCollections p) (\<lambda>evidence.
     Inr (\<lparr>sl_fields = field_count p, sl_evidence = evidence\<rparr>,
          \<lparr>sl_fields = field_limit, sl_evidence = MAX_ORCHESTRATION_EVIDENCE\<rparr>,
          \<lambda>f. int (field_limit f) - int (field_count p f),
          int MAX_ORCHESTRATION_EVIDENCE - int evidence))"

text \<open>What an accepted limit check establishes.\<close>

definition within_limits :: "'a TaskRuntimeProjection_scheme \<Rightarrow> bool" where
  "within_limits p \<longleftrightarrow>
     (\<forall>f. field_count p f \<le> field_limit f) \<and>
     evidence_total (objectives p) \<le> MAX_ORCHESTRATION_EVIDENCE \<and>
     (\<forall>ob \<in> set (js_values (objectives p)).
        identifiers_bounded (os_taskIds ob) MAX_ORCHESTRATION_TASKS \<and>
        length (os_evidence ob) \<le> MAX_ORCHESTRATION_OBJECTIVE_EVIDENCE) \<and>
     (\<forall>t \<in> set (js_values (tasks p)). identifiers_bounded (ts_attemptIds t) MAX_ORCHESTRATION_ATTEMPTS) \<and>
     (\<forall>a \<in> set (js_values (attempts p)). identifiers_bounded (att_checkpointIds a) MAX_ORCHESTRATION_CHECKPOINTS)"

lemma all_fields:
  "(\<forall>f. P f) \<longleftrightarrow> P FieldEventSources \<and> P FieldHostEvents \<and> P FieldThreadSubscriptions \<and>
     P FieldEventDeliveries \<and> P FieldAgents \<and> P FieldObjectives \<and> P FieldTasks \<and> P FieldAttempts \<and>
     P FieldCheckpoints \<and> P FieldApprovals \<and> P FieldNotifications"
proof (intro iffI allI)
  fix f
  assume "P FieldEventSources \<and> P FieldHostEvents \<and> P FieldThreadSubscriptions \<and>
     P FieldEventDeliveries \<and> P FieldAgents \<and> P FieldObjectives \<and> P FieldTasks \<and> P FieldAttempts \<and>
     P FieldCheckpoints \<and> P FieldApprovals \<and> P FieldNotifications"
  then show "P f" by (cases f) simp_all
qed simp

lemma bounded_list_iff [simp]:
  "assertBoundedIdentifierList vs n = Inr u \<longleftrightarrow> identifiers_bounded vs n"
  by (simp add: assertBoundedIdentifierList_def)

lemma objective_collections_fold:
  "foldE check_objective_collections n m = Inr c \<Longrightarrow>
   c = n + evidence_total m \<and>
   (\<forall>ob \<in> set (js_values m). identifiers_bounded (os_taskIds ob) MAX_ORCHESTRATION_TASKS \<and>
        length (os_evidence ob) \<le> MAX_ORCHESTRATION_OBJECTIVE_EVIDENCE) \<and>
   (n \<le> MAX_ORCHESTRATION_EVIDENCE \<longrightarrow> c \<le> MAX_ORCHESTRATION_EVIDENCE)"
proof (induction m arbitrary: n)
  case Nil
  then show ?case by (simp add: evidence_total_def)
next
  case (Cons kv m)
  from Cons.prems obtain k where k: "check_objective_collections n kv = Inr k"
    and rest: "foldE check_objective_collections k m = Inr c" by auto
  from k have "k = n + length (os_evidence (snd kv))" "k \<le> MAX_ORCHESTRATION_EVIDENCE"
    "identifiers_bounded (os_taskIds (snd kv)) MAX_ORCHESTRATION_TASKS"
    "length (os_evidence (snd kv)) \<le> MAX_ORCHESTRATION_OBJECTIVE_EVIDENCE"
    by (auto simp: check_objective_collections_def Let_def split: if_splits)
  with Cons.IH [OF rest] show ?case by (auto simp: evidence_total_def)
qed

lemma nested_collections_ok:
  assumes "assertRetainedProjectionNestedCollections p = Inr n"
  shows "n = evidence_total (objectives p)" "n \<le> MAX_ORCHESTRATION_EVIDENCE"
    "\<forall>ob \<in> set (js_values (objectives p)). identifiers_bounded (os_taskIds ob) MAX_ORCHESTRATION_TASKS \<and>
        length (os_evidence ob) \<le> MAX_ORCHESTRATION_OBJECTIVE_EVIDENCE"
    "\<forall>t \<in> set (js_values (tasks p)). identifiers_bounded (ts_attemptIds t) MAX_ORCHESTRATION_ATTEMPTS"
    "\<forall>a \<in> set (js_values (attempts p)). identifiers_bounded (att_checkpointIds a) MAX_ORCHESTRATION_CHECKPOINTS"
proof -
  from assms have fold: "foldE check_objective_collections 0 (objectives p) = Inr n"
    by (auto simp: assertRetainedProjectionNestedCollections_def)
  note c = objective_collections_fold [OF fold]
  from c show "n = evidence_total (objectives p)" "n \<le> MAX_ORCHESTRATION_EVIDENCE" by auto
  from c show "\<forall>ob \<in> set (js_values (objectives p)). identifiers_bounded (os_taskIds ob) MAX_ORCHESTRATION_TASKS \<and>
        length (os_evidence ob) \<le> MAX_ORCHESTRATION_OBJECTIVE_EVIDENCE" by blast
  from assms show "\<forall>t \<in> set (js_values (tasks p)). identifiers_bounded (ts_attemptIds t) MAX_ORCHESTRATION_ATTEMPTS"
    "\<forall>a \<in> set (js_values (attempts p)). identifiers_bounded (att_checkpointIds a) MAX_ORCHESTRATION_CHECKPOINTS"
    by (auto simp: assertRetainedProjectionNestedCollections_def forE_eq_Inr)
qed

lemma within_limit_iff [simp]: "assertRecordWithinLimit f m n = Inr u \<longleftrightarrow> length m \<le> n"
  by (auto simp: assertRecordWithinLimit_def)

lemma limits_checked:
  assumes "assertProjectionWithinLimits J c p = Inr ()"
  shows "within_limits p"
proof -
  from assms obtain hb rb n where cap: "hostEventCapacity J p = Inr (hb, rb)"
    and nested: "assertRetainedProjectionNestedCollections p = Inr n"
    and counts: "length (agents p) \<le> MAX_ORCHESTRATION_AGENT_BINDINGS"
      "length (objectives p) \<le> MAX_ORCHESTRATION_OBJECTIVES" "length (tasks p) \<le> MAX_ORCHESTRATION_TASKS"
      "length (attempts p) \<le> MAX_ORCHESTRATION_ATTEMPTS" "length (checkpoints p) \<le> MAX_ORCHESTRATION_CHECKPOINTS"
      "length (approvals p) \<le> MAX_ORCHESTRATION_APPROVALS"
      "length (notifications p) \<le> MAX_ORCHESTRATION_NOTIFICATIONS"
    by (auto simp: assertProjectionWithinLimits_def)
  from hostEventCapacity_limits(1) [OF cap] counts have "\<forall>f. field_count p f \<le> field_limit f"
    by (simp add: all_fields host_record_limits_def)
  with nested_collections_ok [OF nested] show ?thesis by (simp add: within_limits_def)
qed

end
