(* ===== verification/Byte_Tracking.thy ===== *)
theory Byte_Tracking
  imports Projection_Bytes
begin

text \<open>
  The byte tracker against the size it stands for. Every tracked write is one step of \<open>draft_step\<close>; the
  contract of a tracked map is the locale \<open>tracked_field\<close>, proved once there and interpreted on the
  eleven maps of the draft, so any sequence of writes keeps the running size equal to the serialized
  size of the draft.
\<close>

section \<open>The size as a sum\<close>

definition entries_stored :: "('v \<Rightarrow> nat) \<Rightarrow> 'v js_record \<Rightarrow> bool" where
  "entries_stored sz m \<longleftrightarrow> own_keys_distinct m \<and>
     (\<forall>(k, v) \<in> set m. k \<noteq> [] \<and> length k \<le> MAX_ORCHESTRATION_IDENTIFIER_LENGTH \<and>
        sz v \<le> MAX_ORCHESTRATION_RETAINED_RECORD_BYTES)"

definition maps_bytes :: "json_env \<Rightarrow> 'a TaskRuntimeProjection_scheme \<Rightarrow> int" where
  "maps_bytes J p = int (entries_bytes (je_source J) (eventSources p)) + int (entries_bytes (je_event J) (hostEvents p)) +
     int (entries_bytes (je_subscription J) (threadSubscriptions p)) + int (entries_bytes (je_delivery J) (eventDeliveries p)) +
     int (entries_bytes (je_agent J) (agents p)) + int (entries_bytes (je_objective J) (objectives p)) +
     int (entries_bytes (je_task J) (tasks p)) + int (entries_bytes (je_attempt J) (attempts p)) +
     int (entries_bytes (je_checkpoint J) (checkpoints p)) + int (entries_bytes (je_approval J) (approvals p)) +
     int (entries_bytes (je_notification J) (notifications p))"

definition maps_stored :: "json_env \<Rightarrow> 'a TaskRuntimeProjection_scheme \<Rightarrow> bool" where
  "maps_stored J p \<longleftrightarrow>
     entries_stored (je_source J) (eventSources p) \<and> entries_stored (je_event J) (hostEvents p) \<and>
     entries_stored (je_subscription J) (threadSubscriptions p) \<and> entries_stored (je_delivery J) (eventDeliveries p) \<and>
     entries_stored (je_agent J) (agents p) \<and> entries_stored (je_objective J) (objectives p) \<and>
     entries_stored (je_task J) (tasks p) \<and> entries_stored (je_attempt J) (attempts p) \<and>
     entries_stored (je_checkpoint J) (checkpoints p) \<and> entries_stored (je_approval J) (approvals p) \<and>
     entries_stored (je_notification J) (notifications p)"

definition projection_bytes :: "json_env \<Rightarrow> 'a TaskRuntimeProjection_scheme \<Rightarrow> int" where
  "projection_bytes J p = emptyProjectionSerializedBytes (lastOrdinal p) + maps_bytes J p"

lemma entries_bytes_snoc:
  "entries_bytes sz (m @ [(k, v)]) =
     entries_bytes sz m + json_string_bytes k + 1 + sz v + (if m = [] then 0 else 1)"
  by (cases m) (simp_all add: entries_bytes_def)

lemma key_bytes_iff [simp]:
  "retainedRecordKeyBytes f k = Inr n \<longleftrightarrow>
     k \<noteq> [] \<and> length k \<le> MAX_ORCHESTRATION_IDENTIFIER_LENGTH \<and> n = int (json_string_bytes k)"
  by (auto simp: retainedRecordKeyBytes_def)

lemma record_bytes_iff [simp]:
  "retainedRecordSerializedBytes sz f k v = Inr n \<longleftrightarrow>
     sz v \<le> MAX_ORCHESTRATION_RETAINED_RECORD_BYTES \<and> n = int (sz v)"
  by (auto simp: retainedRecordSerializedBytes_def)

abbreviation entry_step ::
  "('v \<Rightarrow> nat) \<Rightarrow> ProjectionRecordField \<Rightarrow> int \<times> nat \<Rightarrow> string \<times> 'v \<Rightarrow> orch_error + int \<times> nat" where
  "entry_step sz field \<equiv> (\<lambda>(bytes, entryCount) (key, v).
              bindE (retainedRecordKeyBytes field key) (\<lambda>k.
              bindE (retainedRecordSerializedBytes sz field key v) (\<lambda>r.
              let next = bytes + (if 0 < entryCount then 1 else 0) + k + 1 + r
              in if int MAX_ORCHESTRATION_PROJECTION_BYTES < next then Inl (LimitError ProjectionTooLarge)
                 else Inr (next, Suc entryCount))))"

lemma add_record_bytes_prefix:
  "foldE (entry_step sz f) (b, 0) m = Inr r \<longleftrightarrow>
   (\<forall>(k, v) \<in> set m. k \<noteq> [] \<and> length k \<le> MAX_ORCHESTRATION_IDENTIFIER_LENGTH \<and>
        sz v \<le> MAX_ORCHESTRATION_RETAINED_RECORD_BYTES) \<and>
   r = (b + int (entries_bytes sz m), length m) \<and>
   (m \<noteq> [] \<longrightarrow> b + int (entries_bytes sz m) \<le> int MAX_ORCHESTRATION_PROJECTION_BYTES)"
proof (induction m arbitrary: r rule: rev_induct)
  case Nil
  then show ?case by (auto simp: entries_bytes_def)
next
  case (snoc kv m)
  obtain k v where kv: "kv = (k, v)" by force
  have le: "int (entries_bytes sz m) \<le> int (entries_bytes sz (m @ [(k, v)]))"
    by (simp add: entries_bytes_snoc)
  show ?case
    using snoc.IH le by (auto simp: foldE_append kv Let_def entries_bytes_snoc split: if_splits)
qed

lemma add_record_bytes_iff:
  "own_keys_distinct m \<Longrightarrow> add_record_bytes sz f m b = Inr b' \<longleftrightarrow>
   entries_stored sz m \<and> b' = b + int (entries_bytes sz m) \<and>
   (m \<noteq> [] \<longrightarrow> b' \<le> int MAX_ORCHESTRATION_PROJECTION_BYTES)"
  by (auto simp: add_record_bytes_def add_record_bytes_prefix entries_stored_def)

definition maps_distinct :: "'a TaskRuntimeProjection_scheme \<Rightarrow> bool" where
  "maps_distinct p \<longleftrightarrow>
     own_keys_distinct (eventSources p) \<and> own_keys_distinct (hostEvents p) \<and>
     own_keys_distinct (threadSubscriptions p) \<and> own_keys_distinct (eventDeliveries p) \<and>
     own_keys_distinct (agents p) \<and> own_keys_distinct (objectives p) \<and> own_keys_distinct (tasks p) \<and>
     own_keys_distinct (attempts p) \<and> own_keys_distinct (checkpoints p) \<and>
     own_keys_distinct (approvals p) \<and> own_keys_distinct (notifications p)"

lemma maps_stored_distinct: "maps_stored J p \<Longrightarrow> maps_distinct p"
  by (simp add: maps_stored_def maps_distinct_def entries_stored_def)

lemma projectionSerializedBytes_Inr:
  assumes "maps_distinct p" and "projectionSerializedBytes J p = Inr b"
  shows "b = projection_bytes J p" "maps_stored J p"
  using assms
  by (auto simp: projectionSerializedBytes_def add_record_bytes_iff maps_distinct_def projection_bytes_def
      maps_bytes_def maps_stored_def)

lemma projectionSerializedBytes_total:
  assumes "maps_stored J p" and "projection_bytes J p \<le> int MAX_ORCHESTRATION_PROJECTION_BYTES"
  shows "projectionSerializedBytes J p = Inr (projection_bytes J p)"
  using assms maps_stored_distinct [OF assms(1)]
  by (auto simp: projectionSerializedBytes_def add_record_bytes_iff maps_distinct_def projection_bytes_def
      maps_bytes_def maps_stored_def)

section \<open>One tracked write\<close>

definition coherent :: "json_env \<Rightarrow> ReducerDraft \<Rightarrow> bool" where
  "coherent J d \<longleftrightarrow> trk_bytes d = projection_bytes J d \<and> trk_counts d = field_count d \<and> maps_stored J d"

lemma entries_bytes_set:
  "int (entries_bytes sz (js_set k v m)) = int (entries_bytes sz m) +
     (case map_of m k of Some p \<Rightarrow> int (sz v) - int (sz p)
      | None \<Rightarrow> int (json_string_bytes k) + 1 + int (sz v) + (if m = [] then 0 else 1))"
proof -
  have "int (sum_list (map (\<lambda>(k, v). json_string_bytes k + 1 + sz v) (js_set k v m))) =
      int (sum_list (map (\<lambda>(k, v). json_string_bytes k + 1 + sz v) m)) +
     (case map_of m k of Some p \<Rightarrow> int (sz v) - int (sz p)
      | None \<Rightarrow> int (json_string_bytes k) + 1 + int (sz v))"
    by (induction m) (auto split: option.splits)
  moreover have "m \<noteq> []" if "map_of m k \<noteq> None" using that by auto
  ultimately show ?thesis
    by (cases m) (auto simp: entries_bytes_def length_js_set split: option.splits)
qed

lemma entries_bytes_delete:
  assumes "own_keys_distinct m" and "map_of m k = Some v"
  shows "int (entries_bytes sz (js_delete k m)) = int (entries_bytes sz m) -
     (int (json_string_bytes k) + 1 + int (sz v) + (if 1 < length m then 1 else 0))"
    "length (js_delete k m) = length m - 1"
proof -
  have "int (sum_list (map (\<lambda>(k, v). json_string_bytes k + 1 + sz v) (js_delete k m))) =
      int (sum_list (map (\<lambda>(k, v). json_string_bytes k + 1 + sz v) m)) -
      (int (json_string_bytes k) + 1 + int (sz v)) \<and> length (js_delete k m) = length m - 1"
    using assms
  proof (induction m)
    case (Cons kv m)
    obtain k' v' where kv: "kv = (k', v')" by force
    show ?case
    proof (cases "k' = k")
      case True
      with Cons.prems have "k \<notin> fst ` set m" by (auto simp: own_keys_distinct_def kv)
      then show ?thesis using Cons.prems True by (simp add: kv delete_id)
    next
      case False
      with Cons.prems have "m \<noteq> []" by (auto simp: kv)
      with Cons False show ?thesis by (auto simp: kv own_keys_distinct_def)
    qed
  qed simp
  note sums = this
  then show "length (js_delete k m) = length m - 1" by blast
  have "0 < length m" using assms(2) by auto
  then have "int (length m - 1 - 1) = int (length m - 1) - (if 1 < length m then 1 else 0)" by auto
  with sums show "int (entries_bytes sz (js_delete k m)) = int (entries_bytes sz m) -
     (int (json_string_bytes k) + 1 + int (sz v) + (if 1 < length m then 1 else 0))"
    unfolding entries_bytes_def of_nat_add by linarith
qed

lemma entries_stored_set:
  assumes "entries_stored sz m" and "k \<noteq> []" and "length k \<le> MAX_ORCHESTRATION_IDENTIFIER_LENGTH"
    and "sz v \<le> MAX_ORCHESTRATION_RETAINED_RECORD_BYTES"
  shows "entries_stored sz (js_set k v m)"
proof -
  from assms(1) have m: "own_keys_distinct m" by (simp add: entries_stored_def)
  have "k' = k \<and> v' = v \<or> (k', v') \<in> set m" if "(k', v') \<in> set (js_set k v m)" for k' v'
    using that m own_entry_iff [OF own_keys_distinct_set [OF m]] own_entry_iff [OF m]
    by (auto split: if_splits)
  then have "k' \<noteq> [] \<and> length k' \<le> MAX_ORCHESTRATION_IDENTIFIER_LENGTH \<and>
      sz v' \<le> MAX_ORCHESTRATION_RETAINED_RECORD_BYTES" if "(k', v') \<in> set (js_set k v m)" for k' v'
    using that assms unfolding entries_stored_def by fast
  with m show ?thesis unfolding entries_stored_def by (auto simp del: js_get_set)
qed

lemma js_delete_subset: "set (js_delete k m) \<subseteq> set m"
  by (auto simp: AList.delete_eq)

lemma entries_stored_delete: "entries_stored sz m \<Longrightarrow> entries_stored sz (js_delete k m)"
  unfolding entries_stored_def using own_keys_distinct_delete [of m k] js_delete_subset [of k m] by blast

lemma tracker_irrelevant [simp]:
  "projection_bytes J (d\<lparr>trk_bytes := b, trk_counts := c\<rparr>) = projection_bytes J d"
  "maps_stored J (d\<lparr>trk_bytes := b, trk_counts := c\<rparr>) = maps_stored J d"
  "field_count (d\<lparr>trk_bytes := b, trk_counts := c\<rparr>) = field_count d"
proof -
  show "field_count (d\<lparr>trk_bytes := b, trk_counts := c\<rparr>) = field_count d"
  proof
    show "field_count (d\<lparr>trk_bytes := b, trk_counts := c\<rparr>) f = field_count d f" for f
      by (cases f) simp_all
  qed
qed (simp_all add: projection_bytes_def maps_bytes_def maps_stored_def)

locale tracked_field =
  fixes J :: json_env
    and field :: ProjectionRecordField
    and sz :: "'v \<Rightarrow> nat"
    and get :: "ReducerDraft \<Rightarrow> 'v js_record"
    and upd :: "'v js_record \<Rightarrow> ReducerDraft \<Rightarrow> ReducerDraft"
  assumes get_stored: "maps_stored J d \<Longrightarrow> entries_stored sz (get d)"
    and upd_stored: "maps_stored J d \<Longrightarrow> entries_stored sz m \<Longrightarrow> maps_stored J (upd m d)"
    and upd_bytes: "projection_bytes J (upd m d) =
      projection_bytes J d - int (entries_bytes sz (get d)) + int (entries_bytes sz m)"
    and upd_count: "field_count (upd m d) g = (if g = field then length m else field_count d g)"
    and get_count: "field_count d field = length (get d)"
begin

lemma put_coherent:
  assumes "coherent J d" and "tracked_put field sz get upd k v d = Inr d'"
  shows "coherent J d'"
proof -
  let ?m = "get d"
  have stored: "entries_stored sz ?m" and count: "trk_counts d field = length ?m"
    using assms(1) get_stored get_count by (auto simp: coherent_def)
  have key: "map_of ?m k \<noteq> None \<Longrightarrow> k \<noteq> [] \<and> length k \<le> MAX_ORCHESTRATION_IDENTIFIER_LENGTH"
    using stored by (auto simp: entries_stored_def dest: map_of_SomeD)
  from assms(2) have ok: "sz v \<le> MAX_ORCHESTRATION_RETAINED_RECORD_BYTES"
    "k \<noteq> [] \<and> length k \<le> MAX_ORCHESTRATION_IDENTIFIER_LENGTH"
    using key by (auto simp: tracked_put_def Let_def split: option.splits if_splits)
  have d': "d' = (upd (js_set k v ?m) d)
      \<lparr>trk_bytes := trk_bytes d + (case map_of ?m k of Some p \<Rightarrow> int (sz v) - int (sz p)
         | None \<Rightarrow> int (json_string_bytes k) + 1 + int (sz v) + (if ?m = [] then 0 else 1)),
       trk_counts := (trk_counts d)(field := length (js_set k v ?m))\<rparr>"
    using assms(2) by (auto simp: tracked_put_def Let_def count length_js_set split: option.splits if_splits)
  have "maps_stored J (upd (js_set k v ?m) d)"
    using assms(1) stored ok by (intro upd_stored entries_stored_set) (auto simp: coherent_def)
  moreover have "(trk_counts d)(field := length (js_set k v ?m)) = field_count (upd (js_set k v ?m) d)"
    using assms(1) by (auto simp: coherent_def upd_count)
  ultimately show ?thesis
    using assms(1) by (simp add: coherent_def d' upd_bytes entries_bytes_set)
qed

lemma delete_coherent:
  assumes "coherent J d" and "tracked_delete field sz get upd k d = Inr d'"
  shows "coherent J d'"
proof (cases "map_of (get d) k")
  case None
  with assms show ?thesis by (simp add: tracked_delete_def Let_def)
next
  case (Some v)
  let ?m = "get d"
  have stored: "entries_stored sz ?m" and count: "trk_counts d field = length ?m"
    using assms(1) get_stored get_count by (auto simp: coherent_def)
  have m: "own_keys_distinct ?m" using stored by (simp add: entries_stored_def)
  have d': "d' = (upd (js_delete k ?m) d)
      \<lparr>trk_bytes := trk_bytes d - (int (json_string_bytes k) + 1 + int (sz v) + (if 1 < length ?m then 1 else 0)),
       trk_counts := (trk_counts d)(field := length (js_delete k ?m))\<rparr>"
    using assms(2) Some by (auto simp: tracked_delete_def Let_def count entries_bytes_delete(2) [OF m Some])
  have "maps_stored J (upd (js_delete k ?m) d)"
    using assms(1) stored by (intro upd_stored entries_stored_delete) (auto simp: coherent_def)
  moreover have "(trk_counts d)(field := length (js_delete k ?m)) = field_count (upd (js_delete k ?m) d)"
    using assms(1) by (auto simp: coherent_def upd_count)
  ultimately show ?thesis
    using assms(1) by (simp add: coherent_def d' upd_bytes entries_bytes_delete(1) [OF m Some])
qed

end

section \<open>The eleven maps of the draft\<close>

lemma field_count_cases:
  "field_count p f = (case f of FieldEventSources \<Rightarrow> length (eventSources p)
     | FieldHostEvents \<Rightarrow> length (hostEvents p) | FieldThreadSubscriptions \<Rightarrow> length (threadSubscriptions p)
     | FieldEventDeliveries \<Rightarrow> length (eventDeliveries p) | FieldAgents \<Rightarrow> length (agents p)
     | FieldObjectives \<Rightarrow> length (objectives p) | FieldTasks \<Rightarrow> length (tasks p)
     | FieldAttempts \<Rightarrow> length (attempts p) | FieldCheckpoints \<Rightarrow> length (checkpoints p)
     | FieldApprovals \<Rightarrow> length (approvals p) | FieldNotifications \<Rightarrow> length (notifications p))"
  by (cases f) simp_all

lemmas tracked_map_defs = maps_stored_def projection_bytes_def maps_bytes_def

interpretation tracked_sources: tracked_field J FieldEventSources "je_source J" eventSources "\<lambda>m d. d\<lparr>eventSources := m\<rparr>" for J
  by unfold_locales (simp_all add: tracked_map_defs field_count_cases split: ProjectionRecordField.split)

interpretation tracked_subscriptions: tracked_field J FieldThreadSubscriptions "je_subscription J" threadSubscriptions "\<lambda>m d. d\<lparr>threadSubscriptions := m\<rparr>" for J
  by unfold_locales (simp_all add: tracked_map_defs field_count_cases split: ProjectionRecordField.split)

interpretation tracked_deliveries: tracked_field J FieldEventDeliveries "je_delivery J" eventDeliveries "\<lambda>m d. d\<lparr>eventDeliveries := m\<rparr>" for J
  by unfold_locales (simp_all add: tracked_map_defs field_count_cases split: ProjectionRecordField.split)

interpretation tracked_events: tracked_field J FieldHostEvents "je_event J" hostEvents "\<lambda>m d. d\<lparr>hostEvents := m\<rparr>" for J
  by unfold_locales (simp_all add: tracked_map_defs field_count_cases split: ProjectionRecordField.split)

interpretation tracked_agents: tracked_field J FieldAgents "je_agent J" agents "\<lambda>m d. d\<lparr>agents := m\<rparr>" for J
  by unfold_locales (simp_all add: tracked_map_defs field_count_cases split: ProjectionRecordField.split)

interpretation tracked_objectives: tracked_field J FieldObjectives "je_objective J" objectives "\<lambda>m d. d\<lparr>objectives := m\<rparr>" for J
  by unfold_locales (simp_all add: tracked_map_defs field_count_cases split: ProjectionRecordField.split)

interpretation tracked_tasks: tracked_field J FieldTasks "je_task J" tasks "\<lambda>m d. d\<lparr>tasks := m\<rparr>" for J
  by unfold_locales (simp_all add: tracked_map_defs field_count_cases split: ProjectionRecordField.split)

interpretation tracked_attempts: tracked_field J FieldAttempts "je_attempt J" attempts "\<lambda>m d. d\<lparr>attempts := m\<rparr>" for J
  by unfold_locales (simp_all add: tracked_map_defs field_count_cases split: ProjectionRecordField.split)

interpretation tracked_checkpoints: tracked_field J FieldCheckpoints "je_checkpoint J" checkpoints "\<lambda>m d. d\<lparr>checkpoints := m\<rparr>" for J
  by unfold_locales (simp_all add: tracked_map_defs field_count_cases split: ProjectionRecordField.split)

interpretation tracked_approvals: tracked_field J FieldApprovals "je_approval J" approvals "\<lambda>m d. d\<lparr>approvals := m\<rparr>" for J
  by unfold_locales (simp_all add: tracked_map_defs field_count_cases split: ProjectionRecordField.split)

interpretation tracked_notifications: tracked_field J FieldNotifications "je_notification J" notifications "\<lambda>m d. d\<lparr>notifications := m\<rparr>" for J
  by unfold_locales (simp_all add: tracked_map_defs field_count_cases split: ProjectionRecordField.split)

section \<open>Sequences of writes\<close>

text \<open>
  One write of a reduction: an assignment to or a deletion from one of the tracked maps that did not
  throw. A handler's effect on the draft is a sequence of them.
\<close>

inductive draft_step :: "json_env \<Rightarrow> ReducerDraft \<Rightarrow> ReducerDraft \<Rightarrow> bool" for J where
  step_source: "put_source J k v1 d = Inr d' \<Longrightarrow> draft_step J d d'"
| step_event: "put_event J k v2 d = Inr d' \<Longrightarrow> draft_step J d d'"
| step_subscription: "put_subscription J k v3 d = Inr d' \<Longrightarrow> draft_step J d d'"
| step_delivery: "put_delivery J k v4 d = Inr d' \<Longrightarrow> draft_step J d d'"
| step_agent: "put_agent J k v5 d = Inr d' \<Longrightarrow> draft_step J d d'"
| step_objective: "put_objective J k v6 d = Inr d' \<Longrightarrow> draft_step J d d'"
| step_task: "put_task J k v7 d = Inr d' \<Longrightarrow> draft_step J d d'"
| step_attempt: "put_attempt J k v8 d = Inr d' \<Longrightarrow> draft_step J d d'"
| step_checkpoint: "put_checkpoint J k v9 d = Inr d' \<Longrightarrow> draft_step J d d'"
| step_approval: "put_approval J k v10 d = Inr d' \<Longrightarrow> draft_step J d d'"
| step_notification: "put_notification J k v11 d = Inr d' \<Longrightarrow> draft_step J d d'"
| step_delete_source: "delete_source J k d = Inr d' \<Longrightarrow> draft_step J d d'"
| step_delete_event: "delete_event J k d = Inr d' \<Longrightarrow> draft_step J d d'"
| step_delete_delivery: "delete_delivery J k d = Inr d' \<Longrightarrow> draft_step J d d'"

inductive_cases draft_step_elim: "draft_step J d d'"

inductive draft_writes :: "json_env \<Rightarrow> ReducerDraft \<Rightarrow> ReducerDraft \<Rightarrow> bool" for J where
  writes_none: "draft_writes J d d"
| writes_more: "draft_writes J d d1 \<Longrightarrow> draft_step J d1 d2 \<Longrightarrow> draft_writes J d d2"

lemma draft_step_writes: "draft_step J d d' \<Longrightarrow> draft_writes J d d'"
  by (rule writes_more [OF writes_none])

lemma draft_writes_trans: "draft_writes J d1 d2 \<Longrightarrow> draft_writes J d0 d1 \<Longrightarrow> draft_writes J d0 d2"
  by (induction rule: draft_writes.induct) (auto intro: draft_writes.intros)

lemma foldE_writes:
  "foldE f d xs = Inr d' \<Longrightarrow> (\<And>d x d'. x \<in> set xs \<Longrightarrow> f d x = Inr d' \<Longrightarrow> draft_writes J d d') \<Longrightarrow> draft_writes J d d'"
  by (rule foldE_relation [where R = "draft_writes J"])
    (assumption | rule writes_none | erule (1) draft_writes_trans [rotated] | blast)+

lemmas tracked_coherent =
  tracked_sources.put_coherent tracked_events.put_coherent tracked_subscriptions.put_coherent
  tracked_deliveries.put_coherent tracked_agents.put_coherent tracked_objectives.put_coherent
  tracked_tasks.put_coherent tracked_attempts.put_coherent tracked_checkpoints.put_coherent
  tracked_approvals.put_coherent tracked_notifications.put_coherent
  tracked_sources.delete_coherent tracked_events.delete_coherent tracked_deliveries.delete_coherent

lemma step_coherent: "draft_step J d d' \<Longrightarrow> coherent J d \<Longrightarrow> coherent J d'"
  by (erule draft_step.cases; unfold draft_write_defs; hypsubst?; erule (1) tracked_coherent [rotated])

lemma writes_coherent: "draft_writes J d d' \<Longrightarrow> coherent J d \<Longrightarrow> coherent J d'"
  by (induction rule: draft_writes.induct) (auto intro: step_coherent)

text \<open>The effect of each write on the maps: its own map is updated, every other one is untouched.\<close>

lemma tracked_put_state:
  "tracked_put f sz get upd k v d = Inr d' \<Longrightarrow> \<exists>b c. d' = (upd (js_set k v (get d)) d)\<lparr>trk_bytes := b, trk_counts := c\<rparr>"
  by (auto simp: tracked_put_def Let_def split: if_splits)

lemma tracked_delete_state:
  "tracked_delete f sz get upd k d = Inr d' \<Longrightarrow>
   d' = d \<and> map_of (get d) k = None \<or>
   (\<exists>b c. d' = (upd (js_delete k (get d)) d)\<lparr>trk_bytes := b, trk_counts := c\<rparr>)"
  by (auto simp: tracked_delete_def Let_def split: option.splits)

lemma delete_absent: "map_of m k = None \<Longrightarrow> js_delete k m = m"
  by (simp add: map_of_eq_None_iff)

lemma put_source_fields: "put_source J k v d = Inr d' \<Longrightarrow>
   eventSources d' = js_set k v (eventSources d) \<and> hostEvents d' = hostEvents d \<and>
   threadSubscriptions d' = threadSubscriptions d \<and>
   eventDeliveries d' = eventDeliveries d \<and> lastOrdinal d' = lastOrdinal d \<and>
   agents d' = agents d \<and> objectives d' = objectives d \<and> tasks d' = tasks d \<and>
   attempts d' = attempts d \<and> checkpoints d' = checkpoints d \<and>
   approvals d' = approvals d \<and> notifications d' = notifications d"
  by (auto simp: put_source_def dest!: tracked_put_state)

lemma put_event_fields: "put_event J k v d = Inr d' \<Longrightarrow>
   eventSources d' = eventSources d \<and> hostEvents d' = js_set k v (hostEvents d) \<and>
   threadSubscriptions d' = threadSubscriptions d \<and>
   eventDeliveries d' = eventDeliveries d \<and> lastOrdinal d' = lastOrdinal d \<and>
   agents d' = agents d \<and> objectives d' = objectives d \<and> tasks d' = tasks d \<and>
   attempts d' = attempts d \<and> checkpoints d' = checkpoints d \<and>
   approvals d' = approvals d \<and> notifications d' = notifications d"
  by (auto simp: put_event_def dest!: tracked_put_state)

lemma put_subscription_fields: "put_subscription J k v d = Inr d' \<Longrightarrow>
   eventSources d' = eventSources d \<and> hostEvents d' = hostEvents d \<and>
   threadSubscriptions d' = js_set k v (threadSubscriptions d) \<and>
   eventDeliveries d' = eventDeliveries d \<and> lastOrdinal d' = lastOrdinal d \<and>
   agents d' = agents d \<and> objectives d' = objectives d \<and> tasks d' = tasks d \<and>
   attempts d' = attempts d \<and> checkpoints d' = checkpoints d \<and>
   approvals d' = approvals d \<and> notifications d' = notifications d"
  by (auto simp: put_subscription_def dest!: tracked_put_state)

lemma put_delivery_fields: "put_delivery J k v d = Inr d' \<Longrightarrow>
   eventSources d' = eventSources d \<and> hostEvents d' = hostEvents d \<and>
   threadSubscriptions d' = threadSubscriptions d \<and>
   eventDeliveries d' = js_set k v (eventDeliveries d) \<and>
   lastOrdinal d' = lastOrdinal d \<and> agents d' = agents d \<and>
   objectives d' = objectives d \<and> tasks d' = tasks d \<and> attempts d' = attempts d \<and>
   checkpoints d' = checkpoints d \<and> approvals d' = approvals d \<and>
   notifications d' = notifications d"
  by (auto simp: put_delivery_def dest!: tracked_put_state)

lemma put_agent_fields: "put_agent J k v d = Inr d' \<Longrightarrow>
   eventSources d' = eventSources d \<and> hostEvents d' = hostEvents d \<and>
   threadSubscriptions d' = threadSubscriptions d \<and>
   eventDeliveries d' = eventDeliveries d \<and> lastOrdinal d' = lastOrdinal d \<and>
   agents d' = js_set k v (agents d) \<and> objectives d' = objectives d \<and>
   tasks d' = tasks d \<and> attempts d' = attempts d \<and>
   checkpoints d' = checkpoints d \<and> approvals d' = approvals d \<and>
   notifications d' = notifications d"
  by (auto simp: put_agent_def dest!: tracked_put_state)

lemma put_objective_fields: "put_objective J k v d = Inr d' \<Longrightarrow>
   eventSources d' = eventSources d \<and> hostEvents d' = hostEvents d \<and>
   threadSubscriptions d' = threadSubscriptions d \<and>
   eventDeliveries d' = eventDeliveries d \<and> lastOrdinal d' = lastOrdinal d \<and>
   agents d' = agents d \<and> objectives d' = js_set k v (objectives d) \<and>
   tasks d' = tasks d \<and> attempts d' = attempts d \<and>
   checkpoints d' = checkpoints d \<and> approvals d' = approvals d \<and>
   notifications d' = notifications d"
  by (auto simp: put_objective_def dest!: tracked_put_state)

lemma put_task_fields: "put_task J k v d = Inr d' \<Longrightarrow>
   eventSources d' = eventSources d \<and> hostEvents d' = hostEvents d \<and>
   threadSubscriptions d' = threadSubscriptions d \<and>
   eventDeliveries d' = eventDeliveries d \<and> lastOrdinal d' = lastOrdinal d \<and>
   agents d' = agents d \<and> objectives d' = objectives d \<and>
   tasks d' = js_set k v (tasks d) \<and> attempts d' = attempts d \<and>
   checkpoints d' = checkpoints d \<and> approvals d' = approvals d \<and>
   notifications d' = notifications d"
  by (auto simp: put_task_def dest!: tracked_put_state)

lemma put_attempt_fields: "put_attempt J k v d = Inr d' \<Longrightarrow>
   eventSources d' = eventSources d \<and> hostEvents d' = hostEvents d \<and>
   threadSubscriptions d' = threadSubscriptions d \<and>
   eventDeliveries d' = eventDeliveries d \<and> lastOrdinal d' = lastOrdinal d \<and>
   agents d' = agents d \<and> objectives d' = objectives d \<and> tasks d' = tasks d \<and>
   attempts d' = js_set k v (attempts d) \<and> checkpoints d' = checkpoints d \<and>
   approvals d' = approvals d \<and> notifications d' = notifications d"
  by (auto simp: put_attempt_def dest!: tracked_put_state)

lemma put_checkpoint_fields: "put_checkpoint J k v d = Inr d' \<Longrightarrow>
   eventSources d' = eventSources d \<and> hostEvents d' = hostEvents d \<and>
   threadSubscriptions d' = threadSubscriptions d \<and>
   eventDeliveries d' = eventDeliveries d \<and> lastOrdinal d' = lastOrdinal d \<and>
   agents d' = agents d \<and> objectives d' = objectives d \<and> tasks d' = tasks d \<and>
   attempts d' = attempts d \<and> checkpoints d' = js_set k v (checkpoints d) \<and>
   approvals d' = approvals d \<and> notifications d' = notifications d"
  by (auto simp: put_checkpoint_def dest!: tracked_put_state)

lemma put_approval_fields: "put_approval J k v d = Inr d' \<Longrightarrow>
   eventSources d' = eventSources d \<and> hostEvents d' = hostEvents d \<and>
   threadSubscriptions d' = threadSubscriptions d \<and>
   eventDeliveries d' = eventDeliveries d \<and> lastOrdinal d' = lastOrdinal d \<and>
   agents d' = agents d \<and> objectives d' = objectives d \<and> tasks d' = tasks d \<and>
   attempts d' = attempts d \<and> checkpoints d' = checkpoints d \<and>
   approvals d' = js_set k v (approvals d) \<and> notifications d' = notifications d"
  by (auto simp: put_approval_def dest!: tracked_put_state)

lemma put_notification_fields: "put_notification J k v d = Inr d' \<Longrightarrow>
   eventSources d' = eventSources d \<and> hostEvents d' = hostEvents d \<and>
   threadSubscriptions d' = threadSubscriptions d \<and>
   eventDeliveries d' = eventDeliveries d \<and> lastOrdinal d' = lastOrdinal d \<and>
   agents d' = agents d \<and> objectives d' = objectives d \<and> tasks d' = tasks d \<and>
   attempts d' = attempts d \<and> checkpoints d' = checkpoints d \<and>
   approvals d' = approvals d \<and> notifications d' = js_set k v (notifications d)"
  by (auto simp: put_notification_def dest!: tracked_put_state)

lemma delete_source_fields: "delete_source J k d = Inr d' \<Longrightarrow>
   eventSources d' = js_delete k (eventSources d) \<and> hostEvents d' = hostEvents d \<and>
   threadSubscriptions d' = threadSubscriptions d \<and>
   eventDeliveries d' = eventDeliveries d \<and> lastOrdinal d' = lastOrdinal d \<and>
   agents d' = agents d \<and> objectives d' = objectives d \<and> tasks d' = tasks d \<and>
   attempts d' = attempts d \<and> checkpoints d' = checkpoints d \<and>
   approvals d' = approvals d \<and> notifications d' = notifications d"
  by (auto simp: delete_source_def delete_absent dest!: tracked_delete_state)

lemma delete_event_fields: "delete_event J k d = Inr d' \<Longrightarrow>
   eventSources d' = eventSources d \<and> hostEvents d' = js_delete k (hostEvents d) \<and>
   threadSubscriptions d' = threadSubscriptions d \<and>
   eventDeliveries d' = eventDeliveries d \<and> lastOrdinal d' = lastOrdinal d \<and>
   agents d' = agents d \<and> objectives d' = objectives d \<and> tasks d' = tasks d \<and>
   attempts d' = attempts d \<and> checkpoints d' = checkpoints d \<and>
   approvals d' = approvals d \<and> notifications d' = notifications d"
  by (auto simp: delete_event_def delete_absent dest!: tracked_delete_state)

lemma delete_delivery_fields: "delete_delivery J k d = Inr d' \<Longrightarrow>
   eventSources d' = eventSources d \<and> hostEvents d' = hostEvents d \<and>
   threadSubscriptions d' = threadSubscriptions d \<and>
   eventDeliveries d' = js_delete k (eventDeliveries d) \<and>
   lastOrdinal d' = lastOrdinal d \<and> agents d' = agents d \<and>
   objectives d' = objectives d \<and> tasks d' = tasks d \<and> attempts d' = attempts d \<and>
   checkpoints d' = checkpoints d \<and> approvals d' = approvals d \<and>
   notifications d' = notifications d"
  by (auto simp: delete_delivery_def delete_absent dest!: tracked_delete_state)

lemmas write_fields =
  put_source_fields put_event_fields put_subscription_fields put_delivery_fields
  put_agent_fields put_objective_fields put_task_fields put_attempt_fields
  put_checkpoint_fields put_approval_fields put_notification_fields
  delete_source_fields delete_event_fields delete_delivery_fields

lemmas write_steps = draft_step.intros [THEN draft_step_writes]

end
