(* ===== verification/Task_Graph.thy ===== *)
theory Task_Graph
  imports Attempt_Identity Byte_Tracking
begin

text \<open>
  The dependency graph of tasks: the reachability test and the validation of a new task
  (\<open>taskDependencyReaches\<close>, \<open>validateTaskContractForState\<close> in \<open>task-runtime-codecs.ts\<close>), the readiness of
  tasks and attempts, the attempt budget and the promotion of pending tasks
  (\<open>task-runtime-reducer.ts\<close>).
\<close>

section \<open>Reachability\<close>

definition task_deps :: "TaskRuntimeState js_record \<Rightarrow> string \<Rightarrow> string list" where
  "task_deps m taskId = (case map_of m taskId of Some t \<Rightarrow> task_dependsOn (ts_task t) | None \<Rightarrow> [])"

text \<open>
  The recursive search with its pending siblings as an explicit stack: the shared visited set and the
  short circuit of \<open>some\<close> make the recursion exactly this traversal.
\<close>

function dependency_search ::
  "TaskRuntimeState js_record \<Rightarrow> string \<Rightarrow> string list \<Rightarrow> string list \<Rightarrow> bool" where
  "dependency_search m target visited [] = False"
| "dependency_search m target visited (start # stack) =
     (if start = target then True
      else if start \<in> set visited then dependency_search m target visited stack
      else dependency_search m target (start # visited) (task_deps m start @ stack))"
  by pat_completeness auto

lemma task_deps_unknown: "s \<notin> set (js_keys m) \<Longrightarrow> task_deps m s = []"
  by (force simp: task_deps_def split: option.splits dest: map_of_SomeD)

termination dependency_search
proof (relation "measures [\<lambda>(m, target, visited, stack). card (set (js_keys m) - set visited),
    \<lambda>(m, target, visited, stack). length stack]", goal_cases)
  case (3 m target visited start stack)
  show ?case
  proof (cases "start \<in> set (js_keys m)")
    case True
    with 3 have "set (js_keys m) - set (start # visited) \<subset> set (js_keys m) - set visited" by auto
    then have "card (set (js_keys m) - set (start # visited)) < card (set (js_keys m) - set visited)"
      by (intro psubset_card_mono) auto
    then show ?thesis by simp
  next
    case False
    then have "set (js_keys m) - set (start # visited) = set (js_keys m) - set visited" by auto
    with False show ?thesis by (simp add: task_deps_unknown)
  qed
qed auto

definition taskDependencyReaches :: "TaskRuntimeState js_record \<Rightarrow> string \<Rightarrow> string \<Rightarrow> bool" where
  "taskDependencyReaches m startTaskId targetTaskId = dependency_search m targetTaskId [] [startTaskId]"

definition depends_rel :: "TaskRuntimeState js_record \<Rightarrow> (string \<times> string) set" where
  "depends_rel m = {(a, b). b \<in> set (task_deps m a)}"

lemma dependency_search_sound:
  "dependency_search m target visited stack \<Longrightarrow> \<exists>s \<in> set stack. (s, target) \<in> (depends_rel m)\<^sup>*"
proof (induction m target visited stack rule: dependency_search.induct)
  case (2 m target visited start stack)
  consider "start = target" | "start \<noteq> target" "start \<in> set visited" | "start \<noteq> target" "start \<notin> set visited"
    by blast
  then show ?case
  proof cases
    case 3
    with 2 obtain s where s: "s \<in> set (task_deps m start @ stack)" "(s, target) \<in> (depends_rel m)\<^sup>*" by auto
    show ?thesis
    proof (cases "s \<in> set stack")
      case False
      with s(1) have "(start, s) \<in> depends_rel m" by (simp add: depends_rel_def)
      with s(2) show ?thesis by (meson converse_rtrancl_into_rtrancl list.set_intros(1))
    qed (use s in auto)
  qed (use 2 in auto)
qed simp

lemma dependency_search_complete:
  "\<exists>s \<in> set visited \<union> set stack. (s, target) \<in> (depends_rel m)\<^sup>* \<Longrightarrow> target \<notin> set visited \<Longrightarrow>
   \<forall>v \<in> set visited. set (task_deps m v) \<subseteq> set visited \<union> set stack \<Longrightarrow>
   dependency_search m target visited stack"
proof (induction m target visited stack rule: dependency_search.induct)
  case (1 m target visited)
  have "x \<in> set visited" if "(s, x) \<in> (depends_rel m)\<^sup>*" "s \<in> set visited" for s x
    using that by induction (use 1(3) in \<open>auto simp: depends_rel_def\<close>)
  with 1 show ?case by auto
next
  case (2 m target visited start stack)
  then show ?case by (cases "start = target"; cases "start \<in> set visited") auto
qed

text \<open>
  The search answers whether the target can be reached along dependencies, whatever cycles the
  graph has, so the cycle check it serves is exact.
\<close>

theorem dependency_reaches_iff:
  "taskDependencyReaches m a b \<longleftrightarrow> (a, b) \<in> (depends_rel m)\<^sup>*"
  using dependency_search_sound [of m b "[]" "[a]"] dependency_search_complete [of "[]" "[a]" b m]
  by (auto simp: taskDependencyReaches_def)

section \<open>Acceptance criteria\<close>

definition assertAcceptanceCriteria :: "AcceptanceCriterion list \<Rightarrow> bool" where
  "assertAcceptanceCriteria criteria \<longleftrightarrow>
     \<not> ((\<exists>c \<in> set criteria. js_trim (crit_id c) = []) \<or> \<not> distinct (map crit_id criteria) \<or>
        (\<exists>c \<in> set criteria. js_trim (crit_description c) = []))"

definition assertReferencedAcceptanceCriteriaRetained ::
  "TaskRuntimeState js_record \<Rightarrow> ObjectiveRuntimeState \<Rightarrow> AcceptanceCriterion list \<Rightarrow> orch_error + unit" where
  "assertReferencedAcceptanceCriteriaRetained m current acceptanceCriteria =
     (let retained = set (map crit_id acceptanceCriteria);
          removed = concat (map (\<lambda>taskId. case map_of m taskId of
              Some t \<Rightarrow> filter (\<lambda>c. c \<notin> retained) (task_acceptanceCriterionIds (ts_task t))
            | None \<Rightarrow> []) (os_taskIds current))
      in require (removed = []) (ObjectiveError (ReferencedCriteriaRemoved (remdups removed))))"

section \<open>Validation of a new task\<close>

definition validate_dependency ::
  "'a TaskRuntimeProjection_scheme \<Rightarrow> TaskContract \<Rightarrow> string \<Rightarrow> orch_error + unit" where
  "validate_dependency state task dependencyId =
     bindE (require (dependencyId \<noteq> task_taskId task) (TaskError (TaskSelfDependency (task_taskId task)))) (\<lambda>_.
     bindE (require (case map_of (tasks state) dependencyId of
                       Some d \<Rightarrow> task_objectiveId (ts_task d) = task_objectiveId task | None \<Rightarrow> False)
              (TaskError (TaskDependencyForeign dependencyId))) (\<lambda>_.
     require (\<not> taskDependencyReaches (tasks state) dependencyId (task_taskId task))
       (TaskError (TaskDependencyCycle (task_taskId task)))))"

definition validate_verification ::
  "'a TaskRuntimeProjection_scheme \<Rightarrow> TaskContract \<Rightarrow> orch_error + unit" where
  "validate_verification state task =
     bindE (require (\<not> (truthy (task_verificationOfAttemptId task) \<and> \<not> truthy (task_verificationOfTaskId task)))
              (TaskError (TaskBindingWithoutSubject (task_taskId task)))) (\<lambda>_.
     case task_verificationOfTaskId task of
       None \<Rightarrow> Inr ()
     | Some subjectId \<Rightarrow>
         if subjectId = [] then Inr ()
         else
           bindE (require (\<not> (truthy (task_verificationOfAttemptId task) \<and>
                               verificationSubjectAttempt state task = None))
                    (TaskError (TaskVerificationBindingInvalid (task_taskId task)))) (\<lambda>_.
           case map_of (tasks state) subjectId of
             None \<Rightarrow> Inl (TaskError (TaskVerificationSubjectForeign (task_taskId task)))
           | Some subject \<Rightarrow>
               bindE (require (task_objectiveId (ts_task subject) = task_objectiveId task)
                        (TaskError (TaskVerificationSubjectForeign (task_taskId task)))) (\<lambda>_.
               require (task_role task = Verifier \<and> task_role (ts_task subject) \<noteq> Verifier)
                 (TaskError (TaskVerificationRelationInvalid (task_taskId task))))))"

definition validateTaskContractForState ::
  "'a TaskRuntimeProjection_scheme \<Rightarrow> TaskContract \<Rightarrow> orch_error + unit" where
  "validateTaskContractForState state task =
     (case map_of (objectives state) (task_objectiveId task) of
        None \<Rightarrow> Inl (TaskError (TaskObjectiveUnknown (task_objectiveId task)))
      | Some os \<Rightarrow>
          bindE (require (task_status task = (if task_dependsOn task = [] then TaskReady else TaskPending))
                   (TaskError (TaskStatusMismatch (task_taskId task)))) (\<lambda>_.
          bindE (forE (validate_dependency state task) (task_dependsOn task)) (\<lambda>_.
          let criterionIds = set (map crit_id (obj_acceptanceCriteria (os_objective os)));
              unknown = filter (\<lambda>c. c \<notin> criterionIds) (task_acceptanceCriterionIds task)
          in bindE (require (unknown = []) (TaskError (TaskUnknownCriteria unknown))) (\<lambda>_.
             validate_verification state task))))"

section \<open>Readiness\<close>

datatype DependencyReadiness =
    DependenciesReady
  | DependenciesWaiting "string list"
  | DependenciesBlocked "string list" "string list" "string list"

definition readiness_step ::
  "'a TaskRuntimeProjection_scheme \<Rightarrow> TaskContract \<Rightarrow> bool \<Rightarrow> string list \<times> string list \<times> string list \<Rightarrow>
   string \<Rightarrow> orch_error + (string list \<times> string list \<times> string list)" where
  "readiness_step state task checkVerification found dependencyId =
     (case map_of (tasks state) dependencyId of
        None \<Rightarrow> Inl (TaskError (TaskDependencyForeign dependencyId))
      | Some dependency \<Rightarrow>
          if task_objectiveId (ts_task dependency) \<noteq> task_objectiveId task
          then Inl (TaskError (TaskDependencyForeign dependencyId))
          else
            let status = task_status (ts_task dependency); (waiting, failed, cancelled) = found
            in if \<not> (checkVerification \<and> taskAwaitsVerification state dependencyId) \<and>
                  (status = TaskCompleted \<or> status = TaskBlocked) then Inr found
               else Inr (waiting @ [dependencyId],
                         (if status = TaskFailed then failed @ [dependencyId] else failed),
                         (if status = TaskCancelled then cancelled @ [dependencyId] else cancelled)))"

definition taskDependencyReadiness ::
  "'a TaskRuntimeProjection_scheme \<Rightarrow> TaskContract \<Rightarrow> bool \<Rightarrow> orch_error + DependencyReadiness" where
  "taskDependencyReadiness state task checkVerification =
     bindE (foldE (readiness_step state task checkVerification) ([], [], []) (task_dependsOn task))
       (\<lambda>(waiting, failed, cancelled).
        Inr (if failed \<noteq> [] \<or> cancelled \<noteq> [] then DependenciesBlocked waiting failed cancelled
             else if waiting \<noteq> [] then DependenciesWaiting waiting else DependenciesReady))"

datatype AttemptDispatchReadiness =
    AttemptReady string string
  | AttemptWaitingDependencies string string "string list"
  | AttemptWaitingPaused string string
  | AttemptBlockedDependencies string string "string list" "string list" "string list"
  | AttemptBlockedObjective string string ObjectiveStatus

definition objectiveForAttemptInProjection ::
  "'a TaskRuntimeProjection_scheme \<Rightarrow> AttemptRuntimeState \<Rightarrow> orch_error + ObjectiveContract" where
  "objectiveForAttemptInProjection state attempt =
     (case map_of (tasks state) (att_taskId attempt) of
        None \<Rightarrow> Inl (TaskError (UnknownTask (att_taskId attempt)))
      | Some task \<Rightarrow>
          (case map_of (objectives state) (task_objectiveId (ts_task task)) of
             None \<Rightarrow> Inl (ObjectiveError (UnknownObjective (task_objectiveId (ts_task task))))
           | Some os \<Rightarrow> Inr (os_objective os)))"

definition attemptDispatchReadiness ::
  "'a TaskRuntimeProjection_scheme \<Rightarrow> AttemptRuntimeState \<Rightarrow> bool \<Rightarrow> orch_error + AttemptDispatchReadiness" where
  "attemptDispatchReadiness state attempt checkVerification =
     (if att_status attempt \<noteq> AttQueued \<and> att_status attempt \<noteq> AttSuspended
      then Inl (AttemptError (AttemptNotWaiting (att_attemptId attempt)))
      else case map_of (tasks state) (att_taskId attempt) of
        None \<Rightarrow> Inl (TaskError (UnknownTask (att_taskId attempt)))
      | Some task \<Rightarrow>
          (case map_of (objectives state) (task_objectiveId (ts_task task)) of
             None \<Rightarrow> Inl (ObjectiveError (UnknownObjective (task_objectiveId (ts_task task))))
           | Some os \<Rightarrow>
               let status = obj_status (os_objective os); a = att_attemptId attempt; t = att_taskId attempt in
               if status = ObjPaused then Inr (AttemptWaitingPaused a t)
               else if status \<noteq> ObjActive then Inr (AttemptBlockedObjective a t status)
               else bindE (taskDependencyReadiness state (ts_task task) checkVerification) (\<lambda>readiness.
                 Inr (case readiness of
                        DependenciesBlocked ids failed cancelled \<Rightarrow> AttemptBlockedDependencies a t ids failed cancelled
                      | DependenciesWaiting ids \<Rightarrow> AttemptWaitingDependencies a t ids
                      | DependenciesReady \<Rightarrow> AttemptReady a t))))"

definition assertAttemptDispatchReady ::
  "'a TaskRuntimeProjection_scheme \<Rightarrow> AttemptRuntimeState \<Rightarrow> orch_error + unit" where
  "assertAttemptDispatchReady state attempt =
     bindE (attemptDispatchReadiness state attempt False) (\<lambda>readiness.
     case readiness of
       AttemptReady a t \<Rightarrow>
         require (map_option (\<lambda>ts. task_status (ts_task ts)) (map_of (tasks state) (att_taskId attempt)) = Some TaskReady)
           (AttemptError (AttemptTaskNotReady (att_taskId attempt)))
     | AttemptWaitingDependencies a t ids \<Rightarrow> Inl (AttemptError (AttemptDependenciesIncomplete a ids))
     | AttemptBlockedDependencies a t ids failed cancelled \<Rightarrow> Inl (AttemptError (AttemptDependenciesFailed a ids))
     | AttemptWaitingPaused a t \<Rightarrow> Inl (AttemptError (AttemptObjectiveInactive a))
     | AttemptBlockedObjective a t status \<Rightarrow> Inl (AttemptError (AttemptObjectiveInactive a)))"

definition activeTaskAttempt ::
  "'a TaskRuntimeProjection_scheme \<Rightarrow> TaskRuntimeState \<Rightarrow> AttemptRuntimeState option" where
  "activeTaskAttempt state task =
     List.find (\<lambda>a. \<not> terminalAttemptStatus (att_status a)) (present_attempts state (ts_attemptIds task))"

definition assertTaskAttemptBudgetForState ::
  "TaskRuntimeState \<Rightarrow> ObjectiveContract \<Rightarrow> orch_error + unit" where
  "assertTaskAttemptBudgetForState task objective =
     (let ceilings = List.map_filter (\<lambda>b. maxAttempts b) [task_riskBudget (ts_task task), obj_riskBudget objective]
      in if ceilings = [] then Inr ()
         else require (\<not> js_le (foldl js_min PosInf ceilings) (js_int (int (length (ts_attemptIds task)))))
                (TaskError (TaskBudgetExhausted (task_taskId (ts_task task)))))"

definition requireActiveObjectiveForAttemptInProjection ::
  "'a TaskRuntimeProjection_scheme \<Rightarrow> AttemptRuntimeState \<Rightarrow> orch_error + ObjectiveContract" where
  "requireActiveObjectiveForAttemptInProjection state attempt =
     bindE (objectiveForAttemptInProjection state attempt) (\<lambda>objective.
     if obj_status objective \<noteq> ObjActive then Inl (ObjectiveError (ObjectiveNotActive (obj_objectiveId objective)))
     else Inr objective)"

definition requireRenewableObjectiveForAttemptInProjection ::
  "'a TaskRuntimeProjection_scheme \<Rightarrow> AttemptRuntimeState \<Rightarrow> orch_error + ObjectiveContract" where
  "requireRenewableObjectiveForAttemptInProjection state attempt =
     bindE (objectiveForAttemptInProjection state attempt) (\<lambda>objective.
     if obj_status objective = ObjPaused \<and> att_status attempt = AttRunning then Inr objective
     else requireActiveObjectiveForAttemptInProjection state attempt)"

section \<open>Promotion of pending tasks\<close>

definition with_task_status :: "OrchestrationTaskStatus \<Rightarrow> timestamp \<Rightarrow> TaskRuntimeState \<Rightarrow> TaskRuntimeState" where
  "with_task_status status now ts =
     ts\<lparr>ts_task := (ts_task ts)\<lparr>task_status := status, task_updatedAt := now\<rparr>\<rparr>"

definition refresh_task :: "json_env \<Rightarrow> timestamp \<Rightarrow> ReducerDraft \<Rightarrow> string \<Rightarrow> orch_error + ReducerDraft" where
  "refresh_task J now d taskId =
     (case map_of (tasks d) taskId of
        None \<Rightarrow> Inr d
      | Some current \<Rightarrow>
          if task_status (ts_task current) \<noteq> TaskPending then Inr d
          else bindE (taskDependencyReadiness d (ts_task current) False) (\<lambda>readiness.
            if readiness = DependenciesReady then put_task J taskId (with_task_status TaskReady now current) d
            else Inr d))"

definition refreshReadyTasks ::
  "json_env \<Rightarrow> string \<Rightarrow> timestamp \<Rightarrow> ReducerDraft \<Rightarrow> orch_error + ReducerDraft" where
  "refreshReadyTasks J objectiveId now d =
     (case map_of (objectives d) objectiveId of
        None \<Rightarrow> Inr d
      | Some os \<Rightarrow>
          if obj_status (os_objective os) \<noteq> ObjActive then Inr d
          else foldE (refresh_task J now) d (os_taskIds os))"

end
