(* ===== verification/Transitions.thy ===== *)
theory Transitions
  imports Task_Graph
begin

text \<open>
  The guards of the reducer (the \<open>assert\<close> functions of \<open>core/orchestration/task-runtime-reducer.ts\<close>):
  which objective, agent, lease, approval and verification transitions the projection admits. They are
  shared by command admission and by replay; each returns what the code returns or the error it throws.
\<close>

text \<open>Looking up a record the transition needs.\<close>

definition lookupE :: "'v js_record \<Rightarrow> string \<Rightarrow> 'e \<Rightarrow> 'e + 'v" where
  "lookupE m k e = (case map_of m k of Some v \<Rightarrow> Inr v | None \<Rightarrow> Inl e)"

lemma lookupE_eq_Inr [simp]: "lookupE m k e = Inr v \<longleftrightarrow> map_of m k = Some v"
  by (simp add: lookupE_def split: option.splits)

definition lookup_attempt :: "'a TaskRuntimeProjection_scheme \<Rightarrow> string \<Rightarrow> orch_error + AttemptRuntimeState" where
  "lookup_attempt state k = lookupE (attempts state) k (AttemptError (UnknownAttempt k))"

definition lookup_task :: "'a TaskRuntimeProjection_scheme \<Rightarrow> string \<Rightarrow> orch_error + TaskRuntimeState" where
  "lookup_task state k = lookupE (tasks state) k (TaskError (UnknownTask k))"

definition lookup_objective :: "'a TaskRuntimeProjection_scheme \<Rightarrow> string \<Rightarrow> orch_error + ObjectiveRuntimeState" where
  "lookup_objective state k = lookupE (objectives state) k (ObjectiveError (UnknownObjective k))"

definition lookup_agent :: "'a TaskRuntimeProjection_scheme \<Rightarrow> string \<Rightarrow> orch_error + AgentBindingContract" where
  "lookup_agent state k = lookupE (agents state) k (AgentError (UnknownAgent k))"

lemmas lookup_defs = lookup_attempt_def lookup_task_def lookup_objective_def lookup_agent_def

definition same_aggregate :: "string \<Rightarrow> string \<Rightarrow> orch_error + unit" where
  "same_aggregate aggregateId expectedId = require (aggregateId = expectedId) (AggregateMismatch expectedId)"

lemma same_aggregate_iff [simp]: "same_aggregate a b = Inr u \<longleftrightarrow> a = b"
  by (simp add: same_aggregate_def)

section \<open>Objectives\<close>

definition assertObjectiveUpdateTransition ::
  "'a TaskRuntimeProjection_scheme \<Rightarrow> string \<Rightarrow> ObjectiveContract \<Rightarrow> orch_error + ObjectiveRuntimeState" where
  "assertObjectiveUpdateTransition state aggregateId objective =
     bindE (lookup_objective state aggregateId) (\<lambda>current.
     bindE (require (obj_objectiveId objective = aggregateId)
              (ObjectiveError (ObjectiveIdMismatch (obj_objectiveId objective)))) (\<lambda>_.
     bindE (require (obj_schemaVersion objective = obj_schemaVersion (os_objective current) \<and>
                     obj_status objective = obj_status (os_objective current) \<and>
                     obj_createdAt objective = obj_createdAt (os_objective current))
              (ObjectiveError (ObjectiveImmutableFieldsChanged aggregateId))) (\<lambda>_.
     bindE (assertReferencedAcceptanceCriteriaRetained (tasks state) current (obj_acceptanceCriteria objective)) (\<lambda>_.
     Inr current))))"

definition assertObjectiveEvidenceTransition ::
  "'a TaskRuntimeProjection_scheme \<Rightarrow> string \<Rightarrow> EvidenceContract \<Rightarrow> orch_error + ObjectiveRuntimeState" where
  "assertObjectiveEvidenceTransition state objectiveId evidence =
     bindE (lookup_objective state objectiveId) (\<lambda>objective.
     bindE (case ev_criterionId evidence of
              Some c \<Rightarrow> require (c = [] \<or> c \<in> set (map crit_id (obj_acceptanceCriteria (os_objective objective))))
                          (ObjectiveError (EvidenceCriterionUnknown c))
            | None \<Rightarrow> Inr ()) (\<lambda>_.
     Inr objective))"

datatype ObjectiveCompletionPolicy = PolicyTaskEvidence | PolicyOwnerEvidence | PolicyOwnerOverride

definition attempt_evidence :: "'a TaskRuntimeProjection_scheme \<Rightarrow> string \<Rightarrow> EvidenceContract list" where
  "attempt_evidence state attemptId =
     (case map_of (attempts state) attemptId of
        Some a \<Rightarrow> (case att_result a of Some r \<Rightarrow> res_evidence r | None \<Rightarrow> []) | None \<Rightarrow> [])"

definition task_is_completed :: "'a TaskRuntimeProjection_scheme \<Rightarrow> string \<Rightarrow> bool" where
  "task_is_completed state taskId \<longleftrightarrow>
     (case map_of (tasks state) taskId of Some t \<Rightarrow> task_status (ts_task t) = TaskCompleted | None \<Rightarrow> False)"

definition assertObjectiveCompletion ::
  "'a TaskRuntimeProjection_scheme \<Rightarrow> string \<Rightarrow> ObjectiveCompletionPolicy \<Rightarrow> orch_error + unit" where
  "assertObjectiveCompletion state objectiveId policy =
     bindE (lookup_objective state objectiveId) (\<lambda>objective.
     if policy = PolicyOwnerOverride then Inr ()
     else
       let incomplete = filter (\<lambda>t. \<not> task_is_completed state t) (os_taskIds objective) in
       bindE (require (policy = PolicyTaskEvidence \<longrightarrow> incomplete = [])
                (ObjectiveError (ObjectiveIncompleteTasks incomplete))) (\<lambda>_.
       let evidence = (if policy = PolicyOwnerEvidence then os_evidence objective
             else os_evidence objective @
               concat (map (\<lambda>t. concat (map (attempt_evidence state) (task_attempt_ids state t))) (os_taskIds objective)));
           proven = set (proven_criteria evidence);
           unproven = map crit_id (filter (\<lambda>c. crit_required c \<and> crit_id c \<notin> proven)
                        (obj_acceptanceCriteria (os_objective objective)))
       in require (unproven = []) (ObjectiveError (ObjectiveUnprovenCriteria unproven))))"

definition objective_transition_valid :: "ObjectiveStatus \<Rightarrow> ObjectiveStatus \<Rightarrow> bool" where
  "objective_transition_valid current target \<longleftrightarrow>
     (target = ObjPaused \<and> current = ObjActive) \<or> (target = ObjActive \<and> current = ObjPaused) \<or>
     ((target = ObjCompleted \<or> target = ObjCancelled) \<and> (current = ObjActive \<or> current = ObjPaused))"

definition assertObjectiveStatusTransition ::
  "'a TaskRuntimeProjection_scheme \<Rightarrow> string \<Rightarrow> ObjectiveStatus \<Rightarrow> ObjectiveCompletionPolicy option \<Rightarrow> orch_error + unit" where
  "assertObjectiveStatusTransition state objectiveId target completionPolicy =
     bindE (lookup_objective state objectiveId) (\<lambda>os.
     bindE (require (objective_transition_valid (obj_status (os_objective os)) target)
              (ObjectiveError (ObjectiveTransitionInvalid (obj_status (os_objective os)) target))) (\<lambda>_.
     if target = ObjCompleted
     then (case completionPolicy of
             None \<Rightarrow> Inl (ObjectiveError CompletionPolicyRequired)
           | Some policy \<Rightarrow> assertObjectiveCompletion state objectiveId policy)
     else Inr ()))"

section \<open>Agents\<close>

definition agent_parent :: "AgentBindingContract js_record \<Rightarrow> string \<Rightarrow> string option" where
  "agent_parent m agentId = (case map_of m agentId of Some a \<Rightarrow> agent_parentAgentId a | None \<Rightarrow> None)"

function agent_descends ::
  "AgentBindingContract js_record \<Rightarrow> string \<Rightarrow> string \<Rightarrow> string list \<Rightarrow> string option \<Rightarrow> orch_error + bool" where
  "agent_descends m candidateId ancestorId visited None = Inr False"
| "agent_descends m candidateId ancestorId visited (Some parent) =
     (if parent = [] then Inr False
      else if parent = ancestorId then Inr True
      else if parent \<in> set visited then Inl (AgentError (AgentLineageCycle candidateId))
      else agent_descends m candidateId ancestorId (parent # visited) (agent_parent m parent))"
  by pat_completeness auto

termination agent_descends
proof (relation "measures [\<lambda>(m, c, a, visited, parent). card (set (js_keys m) - set visited),
    \<lambda>(m, c, a, visited, parent). if parent = None then 0 else 1 :: nat]", goal_cases)
  case (2 m candidateId ancestorId visited parent)
  show ?case
  proof (cases "parent \<in> set (js_keys m)")
    case True
    with 2 have "set (js_keys m) - set (parent # visited) \<subset> set (js_keys m) - set visited" by auto
    then have "card (set (js_keys m) - set (parent # visited)) < card (set (js_keys m) - set visited)"
      by (intro psubset_card_mono) auto
    then show ?thesis by simp
  next
    case False
    then have "set (js_keys m) - set (parent # visited) = set (js_keys m) - set visited" by auto
    moreover from False have "agent_parent m parent = None"
      by (force simp: agent_parent_def split: option.splits dest: map_of_SomeD)
    ultimately show ?thesis by simp
  qed
qed auto

definition isAgentDescendant ::
  "AgentBindingContract js_record \<Rightarrow> AgentBindingContract \<Rightarrow> string \<Rightarrow> orch_error + bool" where
  "isAgentDescendant m candidate ancestorAgentId =
     agent_descends m (agent_agentId candidate) ancestorAgentId [] (agent_parentAgentId candidate)"

fun find_live_descendant ::
  "AgentBindingContract js_record \<Rightarrow> string \<Rightarrow> AgentBindingContract list \<Rightarrow> orch_error + AgentBindingContract option" where
  "find_live_descendant m agentId [] = Inr None"
| "find_live_descendant m agentId (candidate # rest) =
     (if agent_status candidate \<noteq> AgentRetired \<and> agent_agentId candidate \<noteq> agentId
      then bindE (isAgentDescendant m candidate agentId) (\<lambda>descends.
           if descends then Inr (Some candidate) else find_live_descendant m agentId rest)
      else find_live_descendant m agentId rest)"

definition assertAgentRetirementEligible ::
  "'a TaskRuntimeProjection_scheme \<Rightarrow> string \<Rightarrow> orch_error + AgentBindingContract" where
  "assertAgentRetirementEligible state agentId =
     bindE (lookup_agent state agentId) (\<lambda>agent.
     if agent_status agent = AgentRetired then Inr agent
     else if agent_status agent \<noteq> AgentRegistered then Inl (AgentError (AgentRetireFrom agentId))
     else if truthy (agent_activeAttemptId agent)
       then Inl (AgentError (AgentOwnsAttempt agentId (the (agent_activeAttemptId agent))))
     else case List.find (\<lambda>a. nativeAgentIdForAttempt a = Some agentId \<and> live_status (att_status a))
                 (js_values (attempts state)) of
       Some blocking \<Rightarrow> Inl (AgentError (AgentOwnsAttempt agentId (att_attemptId blocking)))
     | None \<Rightarrow>
         bindE (find_live_descendant (agents state) agentId (js_values (agents state))) (\<lambda>descendant.
         case descendant of
           Some d \<Rightarrow> Inl (AgentError (AgentHasLiveDescendant agentId (agent_agentId d)))
         | None \<Rightarrow> Inr agent))"

definition assertAgentNotRetired :: "AgentBindingContract \<Rightarrow> orch_error + unit" where
  "assertAgentNotRetired agent =
     require (agent_status agent \<noteq> AgentRetired) (AgentError (AgentIsRetired (agent_agentId agent)))"

section \<open>Leases and time\<close>

definition assertRetryBackoffElapsedAt :: "AttemptRuntimeState \<Rightarrow> jsnum \<Rightarrow> orch_error + unit" where
  "assertRetryBackoffElapsedAt attempt atMs =
     (case att_retry attempt of
        None \<Rightarrow> Inr ()
      | Some retry \<Rightarrow>
          require (\<not> js_lt (Fin 0) (js_sub (date_parse (retry_notBefore retry)) atMs))
            (AttemptError (AttemptRetryPending (att_attemptId attempt))))"

definition assertLeaseLiveAt :: "AttemptLease \<Rightarrow> timestamp \<Rightarrow> orch_error + unit" where
  "assertLeaseLiveAt lease occurredAt =
     require (\<not> (\<not> js_is_finite (date_parse occurredAt) \<or>
                 js_le (date_parse (lease_expiresAt lease)) (date_parse occurredAt)))
       (AttemptError (AttemptLeaseExpired (lease_attemptId lease)))"

definition lease_matches :: "AttemptRuntimeState \<Rightarrow> string \<Rightarrow> nat \<Rightarrow> bool" where
  "lease_matches attempt leaseId fencingToken \<longleftrightarrow>
     (case att_lease attempt of
        Some lease \<Rightarrow> lease_leaseId lease = leaseId \<and> lease_fencingToken lease = fencingToken
      | None \<Rightarrow> False)"

definition assertAttemptLeaseMatches ::
  "AttemptRuntimeState \<Rightarrow> string \<Rightarrow> nat \<Rightarrow> timestamp \<Rightarrow> orch_error + unit" where
  "assertAttemptLeaseMatches attempt leaseId fencingToken occurredAt =
     bindE (require (lease_matches attempt leaseId fencingToken)
              (AttemptError (AttemptLeaseStale (att_attemptId attempt)))) (\<lambda>_.
     assertLeaseLiveAt (the (att_lease attempt)) occurredAt)"

definition lease_fence :: "AttemptRuntimeState \<Rightarrow> nat" where
  "lease_fence attempt = (case att_lease attempt of Some l \<Rightarrow> lease_fencingToken l | None \<Rightarrow> 0)"

definition lease_dates_valid :: "AttemptLease \<Rightarrow> timestamp \<Rightarrow> bool" where
  "lease_dates_valid lease occurredAt \<longleftrightarrow>
     js_is_finite (date_parse occurredAt) \<and> js_is_finite (date_parse (lease_issuedAt lease)) \<and>
     js_is_finite (date_parse (lease_expiresAt lease)) \<and>
     \<not> js_lt (date_parse occurredAt) (date_parse (lease_issuedAt lease)) \<and>
     \<not> js_le (date_parse (lease_expiresAt lease)) (date_parse occurredAt)"

definition assertManagedLifetimeTransition ::
  "'a TaskRuntimeProjection_scheme \<Rightarrow> string \<Rightarrow> string \<Rightarrow> nat \<Rightarrow> ManagedLaneLifetime \<Rightarrow> orch_error + AttemptRuntimeState" where
  "assertManagedLifetimeTransition state attemptId logicalLaneId dispatchSequence lifetime =
     bindE (lookup_attempt state attemptId) (\<lambda>attempt.
     bindE (require (dispatch_executionKind (att_dispatch attempt) = Some ManagedProcess)
              (AttemptError (ManagedAttemptRequired attemptId))) (\<lambda>_.
     bindE (require (dispatch_logicalLaneId (att_dispatch attempt) = Some logicalLaneId)
              (AttemptError (ManagedLaneMismatch attemptId))) (\<lambda>_.
     bindE (require ((case dispatch_dispatchSequence (att_dispatch attempt) of Some s \<Rightarrow> s | None \<Rightarrow> 1) = dispatchSequence)
              (AttemptError (ManagedSequenceMismatch attemptId))) (\<lambda>_.
     bindE (require (\<not> (att_managedLifetime attempt = Some LaneRetired \<and> lifetime \<noteq> LaneRetired))
              (AttemptError (ManagedLaneRetired attemptId))) (\<lambda>_.
     Inr attempt)))))"

definition result_contract_valid :: "WorkerResultContract \<Rightarrow> bool" where
  "result_contract_valid result \<longleftrightarrow>
     res_schemaVersion result = ORCHESTRATION_SCHEMA_VERSION \<and> js_trim (res_resultId result) \<noteq> [] \<and>
     js_trim (res_attemptId result) \<noteq> [] \<and> js_trim (res_taskId result) \<noteq> [] \<and>
     js_trim (res_objectiveId result) \<noteq> [] \<and> js_trim (res_leaseId result) \<noteq> []"

definition assertAttemptFinishTransition ::
  "'a TaskRuntimeProjection_scheme \<Rightarrow> string \<Rightarrow> WorkerResultContract \<Rightarrow> timestamp \<Rightarrow>
   orch_error + (AttemptRuntimeState \<times> TaskRuntimeState)" where
  "assertAttemptFinishTransition state aggregateId result occurredAt =
     bindE (require (result_contract_valid result) (AttemptError ResultContractInvalid)) (\<lambda>_.
     bindE (same_aggregate aggregateId (res_attemptId result)) (\<lambda>_.
     bindE (lookup_attempt state (res_attemptId result)) (\<lambda>attempt.
     bindE (require (att_status attempt = AttRunning \<or> att_status attempt = AttLeased)
              (AttemptError (AttemptStatusInvalid (res_attemptId result) (att_status attempt)))) (\<lambda>_.
     bindE (assertAttemptLeaseMatches attempt (res_leaseId result) (res_fencingToken result) occurredAt) (\<lambda>_.
     bindE (require (att_taskId attempt = res_taskId result) (AttemptError ResultTaskMismatch)) (\<lambda>_.
     bindE (lookupE (tasks state) (att_taskId attempt) (AttemptError ResultObjectiveMismatch)) (\<lambda>task.
     bindE (require (task_objectiveId (ts_task task) = res_objectiveId result)
              (AttemptError ResultObjectiveMismatch)) (\<lambda>_.
     bindE (if res_status result = ResCompleted
            then let missing = missingTrustedCriteria result (task_acceptanceCriterionIds (ts_task task))
                 in require (missing = []) (AttemptError (ResultCriteriaMissing missing))
            else Inr ()) (\<lambda>_.
     Inr (attempt, task))))))))))"

section \<open>Grants, leases, checkpoints\<close>

definition approvalForAttemptInProjection ::
  "'a TaskRuntimeProjection_scheme \<Rightarrow> string \<Rightarrow> ApprovalRuntimeState option" where
  "approvalForAttemptInProjection state attemptId =
     List.find (\<lambda>a. apr_attemptId (as_request a) = Some attemptId) (js_values (approvals state))"

definition assertApprovalDoesNotBlock ::
  "'a TaskRuntimeProjection_scheme \<Rightarrow> string \<Rightarrow> orch_error + unit" where
  "assertApprovalDoesNotBlock state attemptId =
     (case approvalForAttemptInProjection state attemptId of
        None \<Rightarrow> Inr ()
      | Some approval \<Rightarrow>
          let approvalId = apr_approvalId (as_request approval) in
          if as_status approval = ApprovalPending then Inl (AttemptError (AttemptAwaitsApproval attemptId approvalId))
          else if as_status approval = ApprovalResolved Rejected
          then Inl (AttemptError (AttemptApprovalRejected attemptId approvalId))
          else Inr ())"

definition grant_targets_attempt ::
  "'a TaskRuntimeProjection_scheme \<Rightarrow> string \<Rightarrow> AttemptRuntimeState \<Rightarrow> ExecutionGrant \<Rightarrow> bool" where
  "grant_targets_attempt state attemptId attempt grant \<longleftrightarrow>
     (case map_of (tasks state) (att_taskId attempt) of
        None \<Rightarrow> False
      | Some task \<Rightarrow>
          grant_schemaVersion grant = ORCHESTRATION_SCHEMA_VERSION \<and> js_trim (grant_grantId grant) \<noteq> [] \<and>
          grant_attemptId grant = attemptId \<and> grant_taskId grant = att_taskId attempt \<and>
          grant_objectiveId grant = task_objectiveId (ts_task task) \<and> grant_role grant = task_role (ts_task task))"

definition assertAttemptGrantTransition ::
  "'a TaskRuntimeProjection_scheme \<Rightarrow> string \<Rightarrow> string \<Rightarrow> ExecutionGrant \<Rightarrow> orch_error + AttemptRuntimeState" where
  "assertAttemptGrantTransition state aggregateId attemptId grant =
     bindE (same_aggregate aggregateId attemptId) (\<lambda>_.
     bindE (lookup_attempt state attemptId) (\<lambda>attempt.
     bindE (require (att_status attempt \<in> {AttQueued, AttLeased, AttRunning})
              (AttemptError (AttemptStatusInvalid attemptId (att_status attempt)))) (\<lambda>_.
     bindE (require (grant_targets_attempt state attemptId attempt grant)
              (AttemptError (AttemptGrantMismatch attemptId))) (\<lambda>_.
     bindE (assertApprovalDoesNotBlock state attemptId) (\<lambda>_.
     bindE (require (\<not> (att_grantId attempt = Some (grant_grantId grant) \<and>
                         (case att_grant attempt of Some g \<Rightarrow> \<not> grant_deep_equal g grant | None \<Rightarrow> False)))
              (AttemptError (AttemptGrantConflict attemptId))) (\<lambda>_.
     bindE (require (\<not> (truthy (att_grantId attempt) \<and> att_grantId attempt \<noteq> Some (grant_grantId grant)))
              (AttemptError (AttemptGrantConflict attemptId))) (\<lambda>_.
     Inr attempt)))))))"

definition assertLeaseAgent ::
  "'a TaskRuntimeProjection_scheme \<Rightarrow> AttemptRuntimeState \<Rightarrow> string option \<Rightarrow> orch_error + unit" where
  "assertLeaseAgent state attempt agentId =
     (if \<not> truthy agentId then Inr ()
      else
        bindE (lookup_agent state (the agentId)) (\<lambda>agent.
        bindE (assertAgentNotRetired agent) (\<lambda>_.
        bindE (require (agent_status agent = AgentRegistered) (AgentError (AgentNotIdle (the agentId)))) (\<lambda>_.
        require (case map_of (tasks state) (att_taskId attempt) of
                   Some task \<Rightarrow> task_role (ts_task task) = agent_role agent | None \<Rightarrow> False)
          (AgentError (AgentRoleMismatch (the agentId)))))))"

definition assertAttemptLeaseTransition ::
  "'a TaskRuntimeProjection_scheme \<Rightarrow> string \<Rightarrow> AttemptLease \<Rightarrow> string option \<Rightarrow> timestamp \<Rightarrow> orch_error + AttemptRuntimeState" where
  "assertAttemptLeaseTransition state aggregateId lease agentId occurredAt =
     bindE (same_aggregate aggregateId (lease_attemptId lease)) (\<lambda>_.
     bindE (lookup_attempt state (lease_attemptId lease)) (\<lambda>attempt.
     bindE (require (att_status attempt = AttQueued)
              (AttemptError (AttemptStatusInvalid (lease_attemptId lease) (att_status attempt)))) (\<lambda>_.
     bindE (assertAttemptDispatchReady state attempt) (\<lambda>_.
     bindE (assertApprovalDoesNotBlock state (lease_attemptId lease)) (\<lambda>_.
     bindE (require (truthy (att_grantId attempt)) (AttemptError (AttemptRequiresGrant (lease_attemptId lease)))) (\<lambda>_.
     bindE (require (lease_fencingToken lease = lease_fence attempt + 1)
              (AttemptError (AttemptFenceNotMonotonic (lease_attemptId lease)))) (\<lambda>_.
     bindE (require (lease_dates_valid lease occurredAt)
              (AttemptError (AttemptLeaseDatesInvalid (lease_attemptId lease)))) (\<lambda>_.
     bindE (assertAttemptAgentBinding agentId (att_dispatch attempt)) (\<lambda>_.
     bindE (assertLeaseAgent state attempt agentId) (\<lambda>_.
     Inr attempt))))))))))"

definition assertAttemptStartTransition ::
  "'a TaskRuntimeProjection_scheme \<Rightarrow> string \<Rightarrow> string \<Rightarrow> string \<Rightarrow> nat \<Rightarrow> timestamp \<Rightarrow> orch_error + AttemptRuntimeState" where
  "assertAttemptStartTransition state aggregateId attemptId leaseId fencingToken occurredAt =
     bindE (same_aggregate aggregateId attemptId) (\<lambda>_.
     bindE (lookup_attempt state attemptId) (\<lambda>attempt.
     bindE (require (att_status attempt = AttLeased)
              (AttemptError (AttemptStatusInvalid attemptId (att_status attempt)))) (\<lambda>_.
     bindE (assertAttemptLeaseMatches attempt leaseId fencingToken occurredAt) (\<lambda>_.
     bindE (requireActiveObjectiveForAttemptInProjection state attempt) (\<lambda>_.
     Inr attempt)))))"

definition assertAttemptLeaseRenewalTransition ::
  "'a TaskRuntimeProjection_scheme \<Rightarrow> string \<Rightarrow> string \<Rightarrow> string \<Rightarrow> nat \<Rightarrow> timestamp \<Rightarrow> timestamp \<Rightarrow>
   orch_error + AttemptRuntimeState" where
  "assertAttemptLeaseRenewalTransition state aggregateId attemptId leaseId fencingToken expiresAt occurredAt =
     bindE (same_aggregate aggregateId attemptId) (\<lambda>_.
     bindE (lookup_attempt state attemptId) (\<lambda>attempt.
     bindE (require (att_status attempt = AttLeased \<or> att_status attempt = AttRunning)
              (AttemptError (AttemptStatusInvalid attemptId (att_status attempt)))) (\<lambda>_.
     bindE (assertAttemptLeaseMatches attempt leaseId fencingToken occurredAt) (\<lambda>_.
     bindE (require (js_is_finite (date_parse expiresAt) \<and>
                     \<not> js_le (date_parse expiresAt) (date_parse (lease_expiresAt (the (att_lease attempt)))))
              (AttemptError (AttemptRenewalTooShort attemptId))) (\<lambda>_.
     bindE (requireRenewableObjectiveForAttemptInProjection state attempt) (\<lambda>_.
     Inr attempt))))))"

definition assertRunningAttemptLease ::
  "'a TaskRuntimeProjection_scheme \<Rightarrow> string \<Rightarrow> string \<Rightarrow> nat \<Rightarrow> timestamp \<Rightarrow> orch_error + AttemptRuntimeState" where
  "assertRunningAttemptLease state attemptId leaseId fencingToken occurredAt =
     bindE (lookup_attempt state attemptId) (\<lambda>attempt.
     bindE (require (att_status attempt = AttRunning)
              (AttemptError (AttemptStatusInvalid attemptId (att_status attempt)))) (\<lambda>_.
     bindE (assertAttemptLeaseMatches attempt leaseId fencingToken occurredAt) (\<lambda>_.
     Inr attempt)))"

definition assertAttemptCheckpointTransition ::
  "'a TaskRuntimeProjection_scheme \<Rightarrow> string \<Rightarrow> AttemptCheckpoint \<Rightarrow> string \<Rightarrow> timestamp \<Rightarrow> orch_error + AttemptRuntimeState" where
  "assertAttemptCheckpointTransition state aggregateId checkpoint leaseId occurredAt =
     bindE (same_aggregate aggregateId (ck_attemptId checkpoint)) (\<lambda>_.
     assertRunningAttemptLease state (ck_attemptId checkpoint) leaseId (ck_fencingToken checkpoint) occurredAt)"

section \<open>Approvals and notifications\<close>

definition approval_target :: "ApprovalRequestContract \<Rightarrow> string" where
  "approval_target approval =
     (case apr_attemptId approval of Some a \<Rightarrow> a
      | None \<Rightarrow> (case apr_taskId approval of Some t \<Rightarrow> t | None \<Rightarrow> apr_objectiveId approval))"

definition assertApprovalTask ::
  "'a TaskRuntimeProjection_scheme \<Rightarrow> ApprovalRequestContract \<Rightarrow> orch_error + unit" where
  "assertApprovalTask state approval =
     (if \<not> truthy (apr_taskId approval) then Inr ()
      else require (case map_of (tasks state) (the (apr_taskId approval)) of
                      Some task \<Rightarrow> task_objectiveId (ts_task task) = apr_objectiveId approval | None \<Rightarrow> False)
             (ApprovalError (ApprovalTaskForeign (the (apr_taskId approval)))))"

definition assertApprovalAttempt ::
  "'a TaskRuntimeProjection_scheme \<Rightarrow> ApprovalRequestContract \<Rightarrow> orch_error + unit" where
  "assertApprovalAttempt state approval =
     (if \<not> truthy (apr_attemptId approval) then Inr ()
      else
        let attemptId = the (apr_attemptId approval) in
        bindE (lookupE (attempts state) attemptId (ApprovalError (ApprovalAttemptForeign attemptId))) (\<lambda>attempt.
        bindE (require (Some (att_taskId attempt) = apr_taskId approval)
                 (ApprovalError (ApprovalAttemptForeign attemptId))) (\<lambda>_.
        require (att_status attempt = AttQueued \<and> \<not> truthy (att_grantId attempt))
          (ApprovalError (ApprovalAttemptNotAwaiting attemptId)))))"

definition assertApprovalRequestTransition ::
  "'a TaskRuntimeProjection_scheme \<Rightarrow> string \<Rightarrow> ApprovalRequestContract \<Rightarrow> orch_error + unit" where
  "assertApprovalRequestTransition state aggregateId approval =
     bindE (require (aggregateId = approval_target approval) (ApprovalError ApprovalTargetMismatch)) (\<lambda>_.
     bindE (lookup_objective state (apr_objectiveId approval)) (\<lambda>os.
     bindE (require (obj_status (os_objective os) = ObjActive)
              (ObjectiveError (ObjectiveNotActive (apr_objectiveId approval)))) (\<lambda>_.
     bindE (require (\<not> (truthy (apr_attemptId approval) \<and> \<not> truthy (apr_taskId approval)))
              (ApprovalError ApprovalTaskRequired)) (\<lambda>_.
     bindE (assertApprovalTask state approval) (\<lambda>_.
     bindE (assertApprovalAttempt state approval) (\<lambda>_.
     case List.find (\<lambda>c. as_status c = ApprovalPending \<and>
                         apr_objectiveId (as_request c) = apr_objectiveId approval \<and>
                         apr_taskId (as_request c) = apr_taskId approval \<and>
                         apr_attemptId (as_request c) = apr_attemptId approval) (js_values (approvals state)) of
       Some pending \<Rightarrow> Inl (ApprovalError (ApprovalAlreadyPending (apr_approvalId (as_request pending))))
     | None \<Rightarrow> Inr ()))))))"

definition assertApprovalResolutionTransition ::
  "'a TaskRuntimeProjection_scheme \<Rightarrow> string \<Rightarrow> ApprovalResolutionContract \<Rightarrow> orch_error + ApprovalRuntimeState" where
  "assertApprovalResolutionTransition state aggregateId resolution =
     bindE (lookupE (approvals state) (ars_approvalId resolution)
              (ApprovalError (UnknownApproval (ars_approvalId resolution)))) (\<lambda>approval.
     bindE (require (aggregateId = approval_target (as_request approval)) (ApprovalError ApprovalTargetMismatch)) (\<lambda>_.
     bindE (require (as_status approval = ApprovalPending)
              (ApprovalError (ApprovalAlreadyResolved (ars_approvalId resolution)))) (\<lambda>_.
     Inr approval)))"

definition assertNotificationTarget ::
  "'a TaskRuntimeProjection_scheme \<Rightarrow> string \<Rightarrow> string option \<Rightarrow> orch_error + unit" where
  "assertNotificationTarget state objectiveId attemptId =
     bindE (lookup_objective state objectiveId) (\<lambda>_.
     if \<not> truthy attemptId then Inr ()
     else require (case map_of (attempts state) (the attemptId) of
                     Some attempt \<Rightarrow>
                       (case map_of (tasks state) (att_taskId attempt) of
                          Some task \<Rightarrow> task_objectiveId (ts_task task) = objectiveId | None \<Rightarrow> False)
                   | None \<Rightarrow> False)
            (ApprovalError (NotificationAttemptForeign (the attemptId))))"

section \<open>Failures and verification\<close>

definition dispatchIdentifier :: "string \<Rightarrow> orch_error + string" where
  "dispatchIdentifier value =
     (if value = [] \<or> MAX_ORCHESTRATION_IDENTIFIER_LENGTH < length value then Inl (TaskError IdentifierInvalid)
      else Inr value)"

definition assertTaskFailureTransition ::
  "'a TaskRuntimeProjection_scheme \<Rightarrow> string \<Rightarrow> string \<Rightarrow> string \<Rightarrow> orch_error + TaskRuntimeState" where
  "assertTaskFailureTransition state aggregateId taskId reasonCode =
     bindE (same_aggregate aggregateId taskId) (\<lambda>_.
     bindE (lookup_task state taskId) (\<lambda>task.
     bindE (require (task_status (ts_task task) \<in> {TaskPending, TaskReady, TaskBlocked})
              (TaskError (TaskCannotFail taskId))) (\<lambda>_.
     bindE (case activeTaskAttempt state task of
              Some active \<Rightarrow> Inl (TaskError (TaskOwnsActiveAttempt taskId (att_attemptId active)))
            | None \<Rightarrow> Inr ()) (\<lambda>_.
     bindE (dispatchIdentifier (js_trim reasonCode)) (\<lambda>_.
     Inr task)))))"

record VerificationTransitionInput =
  vt_taskId :: string
  vt_subjectAttemptId :: string
  vt_verifierTaskId :: string
  vt_verifierAttemptId :: string
  vt_verdict :: VerificationVerdict
  vt_reasonCode :: string

definition assertVerificationTransition ::
  "'a TaskRuntimeProjection_scheme \<Rightarrow> string \<Rightarrow> VerificationTransitionInput \<Rightarrow>
   orch_error + (TaskRuntimeState \<times> AttemptRuntimeState)" where
  "assertVerificationTransition state aggregateId args =
     bindE (same_aggregate aggregateId (vt_taskId args)) (\<lambda>_.
     bindE (lookupE (tasks state) (vt_taskId args) (VerificationError VerificationSubjectUnknown)) (\<lambda>subject.
     bindE (lookupE (attempts state) (vt_subjectAttemptId args) (VerificationError VerificationSubjectUnknown)) (\<lambda>subjectAttempt.
     bindE (require (att_taskId subjectAttempt = vt_taskId args \<and> verification_required subjectAttempt)
              (VerificationError VerificationSubjectUnknown)) (\<lambda>_.
     bindE (dispatchIdentifier (js_trim (vt_reasonCode args))) (\<lambda>_.
     bindE (assertVerificationRecord state (vt_taskId args)
              \<lparr>vr_verifierTaskId = vt_verifierTaskId args, vr_verifierAttemptId = vt_verifierAttemptId args,
               vr_verdict = vt_verdict args, vr_reasonCode = vt_reasonCode args,
               vr_completedAt = att_updatedAt subjectAttempt\<rparr> (Some (vt_subjectAttemptId args))) (\<lambda>_.
     bindE (case attemptVerification state subjectAttempt of
              None \<Rightarrow> Inr ()
            | Some existing \<Rightarrow>
                require (vr_verifierTaskId existing = vt_verifierTaskId args \<and>
                         vr_verifierAttemptId existing = vt_verifierAttemptId args \<and>
                         vr_verdict existing = vt_verdict args \<and> vr_reasonCode existing = vt_reasonCode args)
                  (VerificationError (VerificationConflict (vt_subjectAttemptId args)))) (\<lambda>_.
     Inr (subject, subjectAttempt))))))))"

end
