(* ===== verification/Host_Event_Authority.thy ===== *)
theory Host_Event_Authority
  imports Transitions
begin

text \<open>
  What the host event reducer reads off the projection
  (\<open>core/events/host-event-reducer.ts\<close>): the disposition of a task, whether an event is current,
  superseded or history, whether a delivery may reach its target, and the live-execution authority of
  a worker.
\<close>

abbreviation host_require :: "bool \<Rightarrow> host_event_error \<Rightarrow> orch_error + unit" where
  "host_require c e \<equiv> require c (HostError e)"

text \<open>Reading a property of a record that is not there is a \<open>TypeError\<close>.\<close>

abbreviation host_lookup :: "'v js_record \<Rightarrow> string \<Rightarrow> orch_error + 'v" where
  "host_lookup m k \<equiv> lookupE m k (HostError HostMissingRecord)"

datatype TaskDisposition = DispositionClosed | DispositionDormant | DispositionLive

definition hostEventTaskDisposition :: "'a TaskRuntimeProjection_scheme \<Rightarrow> string \<Rightarrow> TaskDisposition" where
  "hostEventTaskDisposition state taskId =
     (case map_of (tasks state) taskId of
        None \<Rightarrow> DispositionClosed
      | Some task \<Rightarrow>
          (case map_of (objectives state) (task_objectiveId (ts_task task)) of
             None \<Rightarrow> DispositionClosed
           | Some os \<Rightarrow>
               let objective = obj_status (os_objective os); status = task_status (ts_task task) in
               if objective = ObjCompleted \<or> objective = ObjCancelled \<or> status = TaskCancelled \<or>
                  (status = TaskCompleted \<and> \<not> taskAwaitsVerification state taskId) then DispositionClosed
               else if objective = ObjActive \<and> status = TaskRunning \<and>
                       (case selectedTaskAttempt state taskId of
                          Some a \<Rightarrow> att_status a = AttRunning | None \<Rightarrow> False) then DispositionLive
               else DispositionDormant))"

text \<open>\<open>hostEventSealDigest\<close> is a nonempty digest exactly when the retained seal is the current one.\<close>

definition hostEventSealed :: "HostEventSourceState \<Rightarrow> bool" where
  "hostEventSealed source \<longleftrightarrow>
     (case src_seal source of
        None \<Rightarrow> False
      | Some seal \<Rightarrow>
          seal_generation seal = src_catchUpGeneration source \<and>
          seal_scopeVersion seal = reg_scopeVersion (src_registration source) \<and>
          seal_throughSequence seal = src_acceptedThrough source)"

definition seal_observation ::
  "json_env \<Rightarrow> HostEventSourceState \<Rightarrow> CiSubject \<Rightarrow> HostEventSealObservation option" where
  "seal_observation J source subject =
     (case src_seal source of
        None \<Rightarrow> None
      | Some seal \<Rightarrow>
          List.find (\<lambda>c. ciSubjectKey (je_hash J) (so_subject c) = ciSubjectKey (je_hash J) subject)
            (seal_observations seal))"

definition hostEventIsCurrent :: "json_env \<Rightarrow> 'a TaskRuntimeProjection_scheme \<Rightarrow> AcceptedHostEvent \<Rightarrow> bool" where
  "hostEventIsCurrent J state event =
     (let envelope = ae_envelope event in
      case map_of (eventSources state) (env_sourceId envelope) of
        None \<Rightarrow> False
      | Some source \<Rightarrow>
          hostEventSealed source \<and>
          (case ci_of (env_event envelope) of
             None \<Rightarrow> env_sourceSequence envelope \<le>
                       (case src_seal source of Some seal \<Rightarrow> seal_throughSequence seal | None \<Rightarrow> 0)
           | Some item \<Rightarrow>
               (case seal_observation J source (ciEventSubject item) of
                  None \<Rightarrow> False
                | Some observation \<Rightarrow>
                    so_status observation = ObsCompleted \<and> so_eventId observation = Some (ct_eventId item))))"

definition hostEventSuperseded :: "json_env \<Rightarrow> 'a TaskRuntimeProjection_scheme \<Rightarrow> AcceptedHostEvent \<Rightarrow> bool" where
  "hostEventSuperseded J state event =
     (let envelope = ae_envelope event in
      case (map_of (eventSources state) (env_sourceId envelope), ci_of (env_event envelope)) of
        (Some source, Some item) \<Rightarrow>
          hostEventSealed source \<and>
          (case seal_observation J source (ciEventSubject item) of
             None \<Rightarrow> False
           | Some observation \<Rightarrow>
               ci_runId (ct_identity item) < so_runId observation \<or>
               (so_runId observation = ci_runId (ct_identity item) \<and>
                ci_runAttempt (ct_identity item) < so_runAttempt observation))
      | _ \<Rightarrow> False)"

definition position_held ::
  "AcceptedHostEvent js_record \<Rightarrow> string \<Rightarrow> string \<Rightarrow> nat \<Rightarrow> bool" where
  "position_held events sourceId epoch sequence \<longleftrightarrow>
     (\<exists>accepted \<in> set (js_values events).
        env_sourceId (ae_envelope accepted) = sourceId \<and> env_sourceEpoch (ae_envelope accepted) = epoch \<and>
        env_sourceSequence (ae_envelope accepted) = sequence)"

definition hostEventObservationIsHistory ::
  "'a TaskRuntimeProjection_scheme \<Rightarrow> HostEventSourceState \<Rightarrow> HostEventSealObservation \<Rightarrow> bool" where
  "hostEventObservationIsHistory state source observation \<longleftrightarrow>
     so_status observation = ObsCompleted \<and>
     (case so_sourceSequence observation of
        None \<Rightarrow> False
      | Some sequence \<Rightarrow>
          (case so_eventId observation of None \<Rightarrow> True | Some e \<Rightarrow> map_of (hostEvents state) e = None) \<and>
          hostEventSequenceRetired (src_retiredThrough source) (src_unaccepted source) sequence \<and>
          \<not> position_held (hostEvents state) (reg_sourceId (src_registration source))
              (reg_sourceEpoch (src_registration source)) sequence)"

definition subject_listed :: "json_env \<Rightarrow> CiSubject list \<Rightarrow> string \<Rightarrow> bool" where
  "subject_listed J subjects key \<longleftrightarrow> (\<exists>s \<in> set subjects. ciSubjectKey (je_hash J) s = key)"

definition hostEventDeliveryEligible ::
  "json_env \<Rightarrow> 'a TaskRuntimeProjection_scheme \<Rightarrow> HostEventDelivery \<Rightarrow> bool" where
  "hostEventDeliveryEligible J state delivery =
     (case map_of (hostEvents state) (del_eventId delivery) of
        None \<Rightarrow> False
      | Some event \<Rightarrow>
          (case ci_of (env_event (ae_envelope event)) of
             None \<Rightarrow> False
           | Some item \<Rightarrow>
               del_status delivery = DelPending \<and>
               (del_purpose delivery = PurposeHandback \<or> hostEventIsCurrent J state event) \<and>
               (case del_target delivery of
                  TargetRoot scopeVersion \<Rightarrow>
                    if del_purpose delivery \<noteq> PurposeFailure then True
                    else (case map_of (eventSources state) (env_sourceId (ae_envelope event)) of
                            None \<Rightarrow> False
                          | Some source \<Rightarrow>
                              reg_scopeVersion (src_registration source) = scopeVersion \<and>
                              subject_listed J (reg_rootSubjects (src_registration source))
                                (ciSubjectKey (je_hash J) (ciEventSubject item)))
                | TargetTask taskId subscriptionId subscriptionRevision \<Rightarrow>
                    (case map_of (threadSubscriptions state) subscriptionId of
                       None \<Rightarrow> False
                     | Some subscription \<Rightarrow>
                         sub_revision subscription = subscriptionRevision \<and>
                         sub_revokedOrdinal subscription = None \<and>
                         hostEventTaskDisposition state (sub_taskId subscription) \<noteq> DispositionClosed))))"

definition scope_is_live ::
  "'a TaskRuntimeProjection_scheme \<Rightarrow> HostEventWorkerScope \<Rightarrow> jsnum \<Rightarrow> AttemptRuntimeState \<Rightarrow> bool" where
  "scope_is_live state scope now attempt \<longleftrightarrow>
     hostEventTaskDisposition state (att_taskId attempt) = DispositionLive \<and>
     is_selected state (att_taskId attempt) (ws_attemptId scope) \<and>
     att_agentId attempt = Some (ws_agentId scope) \<and>
     (case map_of (agents state) (ws_agentId scope) of
        None \<Rightarrow> False
      | Some agent \<Rightarrow> agent_activeAttemptId agent = Some (ws_attemptId scope) \<and> agent_status agent = AgentActive) \<and>
     lease_matches attempt (ws_leaseId scope) (ws_fencingToken scope) \<and>
     \<not> js_le (date_parse (lease_expiresAt (the (att_lease attempt)))) now"

definition assertHostEventWorkerScope ::
  "'a TaskRuntimeProjection_scheme \<Rightarrow> HostEventWorkerScope \<Rightarrow> jsnum \<Rightarrow> orch_error + AttemptRuntimeState" where
  "assertHostEventWorkerScope state scope now =
     bindE (lookupE (attempts state) (ws_attemptId scope) (HostError HostStaleExecution)) (\<lambda>attempt.
     bindE (host_require (scope_is_live state scope now attempt) HostStaleExecution) (\<lambda>_.
     Inr attempt))"

definition execution_scope :: "HostEventExecutionIdentity \<Rightarrow> HostEventWorkerScope" where
  "execution_scope x = \<lparr>ws_agentId = hx_agentId x, ws_attemptId = hx_attemptId x,
     ws_leaseId = hx_leaseId x, ws_fencingToken = hx_fencingToken x\<rparr>"

definition hostEventExecutionSuperseded ::
  "'a TaskRuntimeProjection_scheme \<Rightarrow> HostEventExecutionIdentity \<Rightarrow> bool" where
  "hostEventExecutionSuperseded state execution =
     (case (map_of (attempts state) (hx_attemptId execution), map_of (agents state) (hx_agentId execution)) of
        (Some attempt, Some agent) \<Rightarrow>
          att_taskId attempt \<noteq> hx_taskId execution \<or> att_status attempt \<noteq> AttRunning \<or>
          att_agentId attempt \<noteq> Some (hx_agentId execution) \<or>
          \<not> lease_matches attempt (hx_leaseId execution) (hx_fencingToken execution) \<or>
          \<not> is_selected state (att_taskId attempt) (hx_attemptId execution) \<or>
          agent_activeAttemptId agent \<noteq> Some (hx_attemptId execution) \<or>
          rc_sessionId (agent_resumeContext agent) \<noteq> hx_sessionId execution \<or>
          rc_sessionFile (agent_resumeContext agent) \<noteq> Some (hx_sessionFile execution) \<or>
          hostEventTaskDisposition state (att_taskId attempt) = DispositionClosed
      | _ \<Rightarrow> True)"

definition assertHostEventExecution ::
  "json_env \<Rightarrow> 'a TaskRuntimeProjection_scheme \<Rightarrow> HostEventDeliveryBinding \<Rightarrow> jsnum \<Rightarrow> orch_error + HostEventDelivery" where
  "assertHostEventExecution J state binding now =
     bindE (lookupE (eventDeliveries state) (hb_deliveryId binding) (HostError HostStaleDelivery)) (\<lambda>delivery.
     bindE (host_require (\<not> del_bindingRetired delivery \<and> is_bound_to delivery binding \<and>
                          hostEventDeliveryEligible J state delivery) HostStaleDelivery) (\<lambda>_.
     let execution = hb_execution binding in
     bindE (assertHostEventWorkerScope state (execution_scope execution) now) (\<lambda>attempt.
     bindE (host_lookup (agents state) (hx_agentId execution)) (\<lambda>agent.
     bindE (host_require (att_taskId attempt = hx_taskId execution \<and>
                          rc_sessionId (agent_resumeContext agent) = hx_sessionId execution \<and>
                          rc_sessionFile (agent_resumeContext agent) = Some (hx_sessionFile execution))
              HostStaleExecution) (\<lambda>_.
     Inr delivery)))))"

text \<open>Retained state near a bound, and the obligations that pin an event.\<close>

definition hostEventRetentionPressure :: "json_env \<Rightarrow> 'a TaskRuntimeProjection_scheme \<Rightarrow> orch_error + bool" where
  "hostEventRetentionPressure J state =
     (if MAX_HOST_EVENTS * 3 < 4 * length (hostEvents state) then Inr True
      else if MAX_HOST_EVENT_DELIVERIES * 3 < 4 * length (eventDeliveries state) then Inr True
      else bindE (hostEventCapacity J state) (\<lambda>(bytes, reservedBytes).
        Inr (MAX_HOST_EVENT_DOMAIN_BYTES * 3 < 4 * (bytes + reservedBytes))))"

definition delivery_released :: "'a TaskRuntimeProjection_scheme \<Rightarrow> HostEventDelivery \<Rightarrow> bool" where
  "delivery_released state delivery \<longleftrightarrow>
     (del_status delivery = DelConsumed \<or> del_status delivery = DelSettled) \<and>
     (del_binding delivery = None \<or> del_mailboxSettled delivery) \<and>
     (case del_target delivery of
        TargetRoot v \<Rightarrow> True
      | TargetTask taskId s r \<Rightarrow> hostEventTaskDisposition state taskId = DispositionClosed)"

text \<open>\<open>every\<close> over the deliveries of an event, in order, until one fails.\<close>

fun every_delivery ::
  "(HostEventDelivery \<Rightarrow> bool) \<Rightarrow> HostEventDelivery js_record \<Rightarrow> string list \<Rightarrow> orch_error + bool" where
  "every_delivery P m [] = Inr True"
| "every_delivery P m (i # ids) =
     bindE (host_lookup m i) (\<lambda>delivery. if P delivery then every_delivery P m ids else Inr False)"

fun some_delivery ::
  "(HostEventDelivery \<Rightarrow> bool) \<Rightarrow> HostEventDelivery js_record \<Rightarrow> string list \<Rightarrow> orch_error + bool" where
  "some_delivery P m [] = Inr False"
| "some_delivery P m (i # ids) =
     bindE (host_lookup m i) (\<lambda>delivery. if P delivery then Inr True else some_delivery P m ids)"

fun find_delivery ::
  "(HostEventDelivery \<Rightarrow> bool) \<Rightarrow> HostEventDelivery js_record \<Rightarrow> string list \<Rightarrow> orch_error + HostEventDelivery option" where
  "find_delivery P m [] = Inr None"
| "find_delivery P m (i # ids) =
     bindE (host_lookup m i) (\<lambda>delivery. if P delivery then Inr (Some delivery) else find_delivery P m ids)"

definition hostEventCanPrune ::
  "'a TaskRuntimeProjection_scheme \<Rightarrow> AcceptedHostEvent \<Rightarrow> jsnum \<Rightarrow> bool \<Rightarrow> orch_error + bool" where
  "hostEventCanPrune state event now pressure =
     bindE (host_lookup (eventSources state) (env_sourceId (ae_envelope event))) (\<lambda>source.
     if env_sourceSequence (ae_envelope event) \<le> src_retiredThrough source \<and>
        (pressure \<or> js_le (date_parse (ae_recallUntil event)) now) \<and>
        \<not> (case src_seal source of
             None \<Rightarrow> False
           | Some seal \<Rightarrow> \<exists>o' \<in> set (seal_observations seal). so_eventId o' = Some (env_eventId (ae_envelope event)))
     then every_delivery (delivery_released state) (eventDeliveries state) (ae_deliveryIds event)
     else Inr False)"

section \<open>A live fence is never judged retired\<close>

definition attempts_keyed :: "'a TaskRuntimeProjection_scheme \<Rightarrow> bool" where
  "attempts_keyed state \<longleftrightarrow> (\<forall>k a. map_of (attempts state) k = Some a \<longrightarrow> att_attemptId a = k)"

lemma selected_present:
  assumes "selectedTaskAttempt state taskId = Some a"
  shows "\<exists>k \<in> set (task_attempt_ids state taskId). map_of (attempts state) k = Some a"
proof -
  let ?present = "present_attempts state (task_attempt_ids state taskId)"
  let ?live = "filter (\<lambda>a. live_status (att_status a)) ?present"
  have "selectedTaskAttempt state taskId =
      (if ?live \<noteq> [] then Some (last ?live) else if ?present \<noteq> [] then Some (last ?present) else None)"
    by (simp add: selected_attempt_lookup Let_def)
  with assms have "a \<in> set ?present"
    by (auto split: if_splits dest: last_in_set)
  then show ?thesis by (simp add: present_attempts_iff)
qed

lemma selected_keyed:
  "attempts_keyed state \<Longrightarrow> selectedTaskAttempt state taskId = Some a \<Longrightarrow>
   map_of (attempts state) (att_attemptId a) = Some a"
  using selected_present [of state taskId a] by (auto simp: attempts_keyed_def)

lemma live_scope_running:
  assumes "attempts_keyed state" and "assertHostEventWorkerScope state scope now = Inr attempt"
  shows "att_status attempt = AttRunning" "att_attemptId attempt = ws_attemptId scope"
proof -
  from assms(2) have att: "map_of (attempts state) (ws_attemptId scope) = Some attempt"
    and live: "scope_is_live state scope now attempt"
    by (auto simp: assertHostEventWorkerScope_def)
  from att assms(1) show id: "att_attemptId attempt = ws_attemptId scope" by (simp add: attempts_keyed_def)
  from live obtain sel where sel: "selectedTaskAttempt state (att_taskId attempt) = Some sel"
    and run: "att_status sel = AttRunning"
    by (auto simp: scope_is_live_def hostEventTaskDisposition_def Let_def split: option.splits if_splits)
  from live sel have "att_attemptId sel = ws_attemptId scope" by (simp add: scope_is_live_def is_selected_def)
  with selected_keyed [OF assms(1) sel] att have "sel = attempt" by simp
  with run show "att_status attempt = AttRunning" by simp
qed

lemma live_execution_not_superseded:
  assumes keyed: "attempts_keyed state"
    and "assertHostEventExecution J state binding now = Inr delivery"
  shows "\<not> hostEventExecutionSuperseded state (hb_execution binding)"
proof -
  let ?x = "hb_execution binding"
  from assms(2) obtain attempt agent where
    scope: "assertHostEventWorkerScope state (execution_scope ?x) now = Inr attempt"
    and agent: "map_of (agents state) (hx_agentId ?x) = Some agent"
    and session: "att_taskId attempt = hx_taskId ?x"
      "rc_sessionId (agent_resumeContext agent) = hx_sessionId ?x"
      "rc_sessionFile (agent_resumeContext agent) = Some (hx_sessionFile ?x)"
    by (auto simp: assertHostEventExecution_def Let_def)
  note run = live_scope_running(1) [OF keyed scope]
  from scope have att: "map_of (attempts state) (hx_attemptId ?x) = Some attempt"
    and live: "scope_is_live state (execution_scope ?x) now attempt"
    by (auto simp: assertHostEventWorkerScope_def execution_scope_def)
  from live have parts: "att_agentId attempt = Some (hx_agentId ?x)"
    "lease_matches attempt (hx_leaseId ?x) (hx_fencingToken ?x)"
    "is_selected state (att_taskId attempt) (hx_attemptId ?x)"
    "hostEventTaskDisposition state (att_taskId attempt) = DispositionLive"
    "agent_activeAttemptId agent = Some (hx_attemptId ?x)"
    using agent by (simp_all add: scope_is_live_def execution_scope_def)
  show ?thesis
    using parts run att agent session by (simp add: hostEventExecutionSuperseded_def)
qed

end
