(* ===== verification/Host_Event_Reducer.thy ===== *)
theory Host_Event_Reducer
  imports Host_Event_Authority
begin

text \<open>
  The host event handlers (\<open>core/events/host-event-reducer.ts\<close>): task subscriptions, acceptance of
  occurrences with their deliveries, the source protocol (registration, catch-up, replay gap, seal,
  end, retirement), and the delivery protocol (binding, mailbox, consumption, settlement, pruning).
  Every write goes through the tracked maps of the draft.
\<close>

datatype OrchestrationActorKind =
  ActorHuman | ActorKernel | ActorRuntime | ActorPolicy | ActorRouter | ActorWorker

text \<open>An event without its payload.\<close>

record EventHeader =
  eh_ordinal :: nat
  eh_eventId :: string
  eh_aggregateId :: string
  eh_actor :: OrchestrationActorKind
  eh_occurredAt :: timestamp

section \<open>Subscriptions\<close>

definition subscription_member :: "HostEventSubscription \<Rightarrow> HostEventSubscriptionInput \<Rightarrow> bool" where
  "subscription_member prior input \<longleftrightarrow> sub_revokedOrdinal prior = None \<and> si_subject prior = si_subject input"

definition task_subscriptions :: "'a TaskRuntimeProjection_scheme \<Rightarrow> string \<Rightarrow> HostEventSubscription list" where
  "task_subscriptions state taskId = filter (\<lambda>s. sub_taskId s = taskId) (js_values (threadSubscriptions state))"

definition fanout_has_room ::
  "json_env \<Rightarrow> 'a TaskRuntimeProjection_scheme \<Rightarrow> string \<Rightarrow> HostEventSubscriptionInput list \<Rightarrow>
   HostEventSubscriptionInput \<Rightarrow> bool" where
  "fanout_has_room J state taskId inputs input \<longleftrightarrow>
     (let key = ciSubjectKey (je_hash J) (si_subject input);
          others = length (filter (\<lambda>s. sub_taskId s \<noteq> taskId \<and> sub_revokedOrdinal s = None \<and>
                       ciSubjectKey (je_hash J) (si_subject s) = key \<and>
                       hostEventTaskDisposition state (sub_taskId s) \<noteq> DispositionClosed)
                     (js_values (threadSubscriptions state)));
          own = length (filter (\<lambda>c. ciSubjectKey (je_hash J) (si_subject c) = key) inputs)
      in \<not> MAX_HOST_EVENT_TARGETS \<le> others + own)"

definition revoke_subscription ::
  "json_env \<Rightarrow> string list \<Rightarrow> nat \<Rightarrow> nat \<Rightarrow> ReducerDraft \<Rightarrow> HostEventSubscription \<Rightarrow> orch_error + ReducerDraft" where
  "revoke_subscription J declared next_revision ordinal d subscription =
     (if sub_revokedOrdinal subscription = None \<and> sub_subscriptionId subscription \<notin> set declared
      then put_subscription J (sub_subscriptionId subscription)
             (subscription\<lparr>sub_revision := next_revision, sub_revokedOrdinal := Some ordinal\<rparr>) d
      else Inr d)"

definition retarget_delivery ::
  "json_env \<Rightarrow> string \<Rightarrow> nat \<Rightarrow> nat \<Rightarrow> ReducerDraft \<Rightarrow> HostEventDelivery \<Rightarrow> orch_error + ReducerDraft" where
  "retarget_delivery J subscriptionId prior_revision next_revision d delivery =
     (case del_target delivery of
        TargetRoot v \<Rightarrow> Inr d
      | TargetTask t s r \<Rightarrow>
          if s = subscriptionId \<and> r = prior_revision \<and> open_status (del_status delivery)
          then put_delivery J (del_deliveryId delivery) (delivery\<lparr>del_target := TargetTask t s next_revision\<rparr>) d
          else Inr d)"

definition declare_subscription ::
  "json_env \<Rightarrow> string \<Rightarrow> nat \<Rightarrow> nat \<Rightarrow> ReducerDraft \<Rightarrow> HostEventSubscriptionInput \<Rightarrow> orch_error + ReducerDraft" where
  "declare_subscription J taskId next_revision ordinal d input =
     (let subscriptionId = hostEventSubscriptionId (je_hash J) taskId (si_threadKey input) in
      case map_of (threadSubscriptions d) subscriptionId of
        Some prior \<Rightarrow>
          if \<not> subscription_member prior input
          then put_subscription J subscriptionId
                 (HostEventSubscriptionInput.extend input
                    \<lparr>sub_subscriptionId = subscriptionId, sub_taskId = taskId, sub_revision = next_revision,
                     sub_createdOrdinal = ordinal, sub_revokedOrdinal = None\<rparr>) d
          else if si_wake prior = si_wake input then Inr d
          else bindE (put_subscription J subscriptionId
                       (prior\<lparr>si_wake := si_wake input, sub_revision := next_revision\<rparr>) d) (\<lambda>d1.
               foldE (retarget_delivery J subscriptionId (sub_revision prior) next_revision) d1
                 (js_values (eventDeliveries d1)))
      | None \<Rightarrow>
          put_subscription J subscriptionId
            (HostEventSubscriptionInput.extend input
               \<lparr>sub_subscriptionId = subscriptionId, sub_taskId = taskId, sub_revision = next_revision,
                sub_createdOrdinal = ordinal, sub_revokedOrdinal = None\<rparr>) d)"

text \<open>The collection bound and the thread key check every declared subscription passes.\<close>

definition parse_subscription_inputs :: "json_env \<Rightarrow> HostEventSubscriptionInput list \<Rightarrow> orch_error + unit" where
  "parse_subscription_inputs J inputs =
     host_require (length inputs \<le> MAX_HOST_EVENT_SUBSCRIPTIONS_PER_TASK \<and>
                   (\<forall>i \<in> set inputs. si_threadKey i = ciThreadKey (je_hash J) (si_subject i))) HostInvalid"

definition replaceHostEventSubscriptions ::
  "json_env \<Rightarrow> string \<Rightarrow> HostEventSubscriptionInput list \<Rightarrow> nat \<Rightarrow> nat \<Rightarrow> ReducerDraft \<Rightarrow> orch_error + ReducerDraft" where
  "replaceHostEventSubscriptions J taskId inputs expectedRevision ordinal d =
     bindE (host_require (map_of (tasks d) taskId \<noteq> None \<and>
                          hostEventTaskDisposition d taskId \<noteq> DispositionClosed) HostTaskClosed) (\<lambda>_.
     bindE (parse_subscription_inputs J inputs) (\<lambda>_.
     bindE (host_require (distinct (map si_threadKey inputs)) HostInvalid) (\<lambda>_.
     let existing = task_subscriptions d taskId;
         revision = foldl (\<lambda>m s. max m (sub_revision s)) 0 existing in
     bindE (host_require (revision = expectedRevision) HostStaleSubscription) (\<lambda>_.
     bindE (host_require (\<forall>i \<in> set inputs. fanout_has_room J d taskId inputs i) HostCapacity) (\<lambda>_.
     let next_revision = revision + 1;
         declared = map (\<lambda>i. hostEventSubscriptionId (je_hash J) taskId (si_threadKey i)) inputs in
     bindE (foldE (revoke_subscription J declared next_revision ordinal) d existing) (\<lambda>d1.
     foldE (declare_subscription J taskId next_revision ordinal) d1 inputs))))))"

section \<open>Settling the unused root copy\<close>

definition settle_delivery :: "string \<Rightarrow> timestamp \<Rightarrow> HostEventDelivery \<Rightarrow> HostEventDelivery" where
  "settle_delivery reason now delivery =
     delivery\<lparr>del_status := DelSettled, del_reason := Some reason, del_settledAt := Some now\<rparr>"

definition settleUnusedRoot :: "json_env \<Rightarrow> AcceptedHostEvent \<Rightarrow> timestamp \<Rightarrow> ReducerDraft \<Rightarrow> orch_error + ReducerDraft" where
  "settleUnusedRoot J event now d =
     bindE (some_delivery (\<lambda>t. \<not> is_root_target (del_target t) \<and> del_status t = DelPending)
              (eventDeliveries d) (ae_deliveryIds event)) (\<lambda>pendingTask.
     if pendingTask then Inr d
     else bindE (find_delivery (\<lambda>t. is_root_target (del_target t)) (eventDeliveries d) (ae_deliveryIds event)) (\<lambda>found.
       case found of
         None \<Rightarrow> Inr d
       | Some rootCopy \<Rightarrow>
           if del_status rootCopy = DelReserved
           then put_delivery J (del_deliveryId rootCopy) (settle_delivery ''task_delivery_settled'' now rootCopy) d
           else Inr d))"

section \<open>Accepting an occurrence\<close>

definition delivery_id :: "json_env \<Rightarrow> string \<Rightarrow> json \<Rightarrow> string" where
  "delivery_id J domain v = ''hed-'' @ je_hash J domain v"

definition task_delivery :: "json_env \<Rightarrow> CiAttemptTerminalEvent \<Rightarrow> HostEventSubscription \<Rightarrow> HostEventDelivery" where
  "task_delivery J item subscription =
     \<lparr>del_deliveryId = delivery_id J ''pi-host-event-target-v1''
        (JArray [JString (ct_eventId item), JString (sub_subscriptionId subscription), json_nat (sub_revision subscription)]),
      del_eventId = ct_eventId item,
      del_target = TargetTask (sub_taskId subscription) (sub_subscriptionId subscription) (sub_revision subscription),
      del_status = (if ct_conclusion item = CiFailure then DelPending else DelReserved),
      del_purpose = (if ct_conclusion item = CiFailure then PurposeFailure else PurposeUpdate),
      del_generation = 0, del_binding = None, del_bindingRetired = False, del_mailboxAccepted = False,
      del_mailboxSettled = False, del_transcriptReceipt = None, del_parentReceiptId = None,
      del_reason = None, del_settledAt = None\<rparr>"

definition root_delivery :: "json_env \<Rightarrow> HostEventSourceState \<Rightarrow> CiAttemptTerminalEvent \<Rightarrow> bool \<Rightarrow> HostEventDelivery" where
  "root_delivery J source item pending =
     \<lparr>del_deliveryId = delivery_id J ''pi-host-event-root-v1'' (JString (ct_eventId item)),
      del_eventId = ct_eventId item, del_target = TargetRoot (reg_scopeVersion (src_registration source)),
      del_status = (if pending then DelPending else DelReserved),
      del_purpose = (if ct_conclusion item = CiFailure then PurposeFailure else PurposeUpdate),
      del_generation = 0, del_binding = None, del_bindingRetired = False, del_mailboxAccepted = False,
      del_mailboxSettled = False, del_transcriptReceipt = None, del_parentReceiptId = None,
      del_reason = None, del_settledAt = None\<rparr>"

definition put_new_delivery :: "json_env \<Rightarrow> ReducerDraft \<Rightarrow> HostEventDelivery \<Rightarrow> orch_error + ReducerDraft" where
  "put_new_delivery J d delivery = put_delivery J (del_deliveryId delivery) delivery d"

definition ciEventDeliveries ::
  "json_env \<Rightarrow> HostEventSourceState \<Rightarrow> CiAttemptTerminalEvent \<Rightarrow> ReducerDraft \<Rightarrow> orch_error + (string list \<times> ReducerDraft)" where
  "ciEventDeliveries J source item d =
     (let key = ciSubjectKey (je_hash J) (ciEventSubject item) in
      bindE (host_require (subject_listed J (reg_subjects (src_registration source)) key) HostSourceConflict) (\<lambda>_.
      let subscriptions = filter (\<lambda>s. sub_revokedOrdinal s = None \<and>
               ciSubjectKey (je_hash J) (si_subject s) = key \<and>
               hostEventTaskDisposition d (sub_taskId s) \<noteq> DispositionClosed) (js_values (threadSubscriptions d)) in
      bindE (host_require (\<not> MAX_HOST_EVENT_TARGETS \<le> length subscriptions) HostCapacity) (\<lambda>_.
      let copies = map (task_delivery J item) subscriptions;
          rootApplicable = subject_listed J (reg_rootSubjects (src_registration source)) key;
          rootCopy = root_delivery J source item
                   (ct_conclusion item = CiFailure \<and> subscriptions = [] \<and> rootApplicable) in
      bindE (foldE (put_new_delivery J) d copies) (\<lambda>d1.
      bindE (put_new_delivery J d1 rootCopy) (\<lambda>d2.
      Inr (map del_deliveryId copies @ [del_deliveryId rootCopy], d2))))))"

definition MAX_TIME_VALUE :: int where "MAX_TIME_VALUE = 8640000000000000"

text \<open>\<open>new Date(ms).toISOString()\<close> throws outside the time value range, and for NaN.\<close>

definition recall_until :: "timestamp \<Rightarrow> int \<Rightarrow> orch_error + timestamp" where
  "recall_until occurredAt recall =
     (case occurredAt of
        Unparsable s \<Rightarrow> Inl (HostError HostInvalidDate)
      | At ms \<Rightarrow> if MAX_TIME_VALUE < \<bar>ms + recall\<bar> then Inl (HostError HostInvalidDate) else Inr (At (ms + recall)))"

definition acceptCanonicalHostEvent ::
  "json_env \<Rightarrow> EventHeader \<Rightarrow> HostEventEnvelope \<Rightarrow> string \<Rightarrow> WorkerReceiptOrigin \<Rightarrow> ReducerDraft \<Rightarrow> orch_error + ReducerDraft" where
  "acceptCanonicalHostEvent J event envelope consumerId origin d =
     bindE (host_lookup (eventSources d) (env_sourceId envelope)) (\<lambda>source.
     bindE (host_require (\<not> position_held (hostEvents d) (env_sourceId envelope) (env_sourceEpoch envelope)
                            (env_sourceSequence envelope)) HostIdentityConflict) (\<lambda>_.
     bindE (host_require (\<not> (env_sourceSequence envelope \<le> src_acceptedThrough source \<and>
                              \<not> hostEventSequenceUnaccepted (src_unaccepted source) (env_sourceSequence envelope)))
              HostIdentityConflict) (\<lambda>_.
     bindE (case env_event envelope of
              CiEvent item \<Rightarrow> ciEventDeliveries J source item d
            | GithubEvent item \<Rightarrow>
                bindE (host_require (\<exists>s \<in> set (reg_subjects (src_registration source)).
                                       cs_host s = gh_host item \<and> cs_repositoryId s = gh_repositoryId item)
                         HostSourceConflict) (\<lambda>_. Inr ([], d))) (\<lambda>(deliveryIds, d1).
     bindE (recall_until (eh_occurredAt event) (recallMs (env_event envelope))) (\<lambda>recallUntil.
     put_event J (env_eventId envelope)
       \<lparr>ae_envelope = envelope,
        ae_receipt = \<lparr>hr_consumerId = consumerId, hr_sourceId = env_sourceId envelope,
          hr_sourceEpoch = env_sourceEpoch envelope, hr_sourceSequence = env_sourceSequence envelope,
          hr_eventId = env_eventId envelope, hr_payloadDigest = payload_digest (env_event envelope),
          hr_canonicalReceiptId = ''her-'' @ je_hash J ''pi-host-event-receipt-v1''
            (JArray [JString (eh_eventId event), JString (env_eventId envelope)])\<rparr>,
        ae_origin = origin, ae_acceptedOrdinal = eh_ordinal event, ae_recallUntil = recallUntil,
        ae_deliveryIds = deliveryIds\<rparr> d1)))))"

section \<open>Decoded source records\<close>

text \<open>
  The checks of the record parsers (\<open>core/events/host-event-contract.ts\<close>) that relate fields of an already
  typed value: bounds, uniqueness under the subject key, and the fields a terminal observation carries.
\<close>

definition subject_keys :: "json_env \<Rightarrow> CiSubject list \<Rightarrow> string list" where
  "subject_keys J subjects = map (ciSubjectKey (je_hash J)) subjects"

definition parseHostEventSourceRegistration ::
  "json_env \<Rightarrow> HostEventSourceRegistration \<Rightarrow> orch_error + unit" where
  "parseHostEventSourceRegistration J entry =
     host_require (length (reg_subjects entry) \<le> MAX_HOST_EVENT_SUBJECTS \<and> reg_subjects entry \<noteq> [] \<and>
                   distinct (subject_keys J (reg_subjects entry)) \<and>
                   length (reg_rootSubjects entry) \<le> MAX_HOST_EVENT_SUBJECTS \<and>
                   distinct (subject_keys J (reg_rootSubjects entry)) \<and>
                   set (subject_keys J (reg_rootSubjects entry)) \<subseteq> set (subject_keys J (reg_subjects entry)) \<and>
                   1 \<le> reg_scopeVersion entry \<and> 1 \<le> reg_startingSequence entry) HostInvalid"

definition parseHostEventReplayGap :: "HostEventReplayGap \<Rightarrow> orch_error + unit" where
  "parseHostEventReplayGap gap =
     host_require (\<not> (gap_throughSequence gap \<le> gap_afterSequence gap \<or>
                      int (gap_throughSequence gap) = MAX_SAFE_INTEGER) \<and>
                   1 \<le> cu_scopeVersion gap \<and> 1 \<le> cu_generation gap) HostInvalid"

definition parseHostEventSealObservation :: "HostEventSealObservation \<Rightarrow> bool" where
  "parseHostEventSealObservation entry \<longleftrightarrow>
     ((so_status entry = ObsCompleted) = (so_conclusion entry \<noteq> None \<and> so_eventId entry \<noteq> None)) \<and>
     \<not> (so_status entry \<noteq> ObsCompleted \<and> (so_conclusion entry \<noteq> None \<or> so_eventId entry \<noteq> None)) \<and>
     ((so_status entry = ObsCompleted) = (so_sourceSequence entry \<noteq> None)) \<and>
     1 \<le> so_runId entry \<and> 1 \<le> so_runNumber entry \<and> 1 \<le> so_runAttempt entry \<and>
     (case so_sourceSequence entry of Some n \<Rightarrow> 1 \<le> n | None \<Rightarrow> True)"

definition parseHostEventCatchUpSeal :: "json_env \<Rightarrow> HostEventCatchUpSeal \<Rightarrow> orch_error + unit" where
  "parseHostEventCatchUpSeal J seal =
     host_require (1 \<le> seal_scopeVersion seal \<and> 1 \<le> seal_generation seal \<and>
                   length (seal_observations seal) \<le> MAX_HOST_EVENT_SUBJECTS \<and>
                   (\<forall>o' \<in> set (seal_observations seal). parseHostEventSealObservation o') \<and>
                   distinct (subject_keys J (map so_subject (seal_observations seal))) \<and>
                   (case seal_snapshots seal of None \<Rightarrow> True
                    | Some snapshots \<Rightarrow> length snapshots \<le> MAX_HOST_EVENT_SUBJECTS \<and>
                        distinct (map (\<lambda>s. ct_eventId (env_event s)) snapshots))) HostInvalid"

section \<open>Source protocol\<close>

datatype HostSourceEvent =
    SourceRegistered HostEventSourceRegistration
  | CatchUpStarted HostEventCatchUp
  | ReplayGapRecorded HostEventReplayGap
  | SourceSealed HostEventCatchUpSeal string WorkerReceiptOrigin
  | SourceEnded HostEventSourceEnd
  | SourceRetired HostEventReplayHorizon

definition source_with_epoch ::
  "'a TaskRuntimeProjection_scheme \<Rightarrow> string \<Rightarrow> string \<Rightarrow> string \<Rightarrow> orch_error + HostEventSourceState" where
  "source_with_epoch state aggregateId sourceId epoch =
     bindE (lookupE (eventSources state) sourceId (HostError HostSourceConflict)) (\<lambda>source.
     bindE (host_require (src_ended source = None \<and> aggregateId = sourceId \<and>
                          epoch = reg_sourceEpoch (src_registration source)) HostSourceConflict) (\<lambda>_.
     Inr source))"

text \<open>A scope revision moves or settles the open failure root copies of the source's events.\<close>

definition rescope_delivery ::
  "json_env \<Rightarrow> timestamp \<Rightarrow> HostEventSourceRegistration \<Rightarrow> bool \<Rightarrow> ReducerDraft \<Rightarrow> string \<Rightarrow> orch_error + ReducerDraft" where
  "rescope_delivery J now registration kept d deliveryId =
     bindE (host_lookup (eventDeliveries d) deliveryId) (\<lambda>delivery.
     if \<not> is_root_target (del_target delivery) \<or> del_purpose delivery \<noteq> PurposeFailure \<or>
        \<not> open_status (del_status delivery) then Inr d
     else if kept
       then put_delivery J deliveryId (delivery\<lparr>del_target := TargetRoot (reg_scopeVersion registration)\<rparr>) d
     else if del_status delivery = DelPending
       then put_delivery J deliveryId (settle_delivery ''root_scope_changed'' now delivery) d
     else Inr d)"

definition rescope_event ::
  "json_env \<Rightarrow> timestamp \<Rightarrow> HostEventSourceRegistration \<Rightarrow> HostEventSourceRegistration \<Rightarrow> ReducerDraft \<Rightarrow>
   AcceptedHostEvent \<Rightarrow> orch_error + ReducerDraft" where
  "rescope_event J now prior registration d accepted =
     (if env_sourceId (ae_envelope accepted) \<noteq> reg_sourceId registration then Inr d
      else case ci_of (env_event (ae_envelope accepted)) of
        None \<Rightarrow> Inr d
      | Some item \<Rightarrow>
          let key = ciSubjectKey (je_hash J) (ciEventSubject item);
              kept = (subject_listed J (reg_rootSubjects prior) key \<and>
                      subject_listed J (reg_rootSubjects registration) key)
          in foldE (rescope_delivery J now registration kept) d (ae_deliveryIds accepted))"

definition new_source_state ::
  "HostEventSourceState list \<Rightarrow> HostEventSourceRegistration \<Rightarrow> HostEventSourceState" where
  "new_source_state others registration =
     \<lparr>src_registration = registration, src_acceptedThrough = reg_startingSequence registration - 1,
      src_retiredThrough = reg_startingSequence registration - 1, src_catchUpGeneration = 0,
      src_replayFloor = reg_startingSequence registration, src_lastReplayGap = None, src_seal = None,
      src_unaccepted = (if 1 < reg_startingSequence registration
        then [\<lparr>rng_from = 1, rng_through = reg_startingSequence registration - 1\<rparr>] else []),
      src_ended = None,
      src_replaced = (\<exists>s \<in> set others. src_ended s \<noteq> None \<and>
                        hostEventSourceReplaces registration (src_registration s))\<rparr>"

definition apply_source_registered ::
  "json_env \<Rightarrow> EventHeader \<Rightarrow> HostEventSourceRegistration \<Rightarrow> ReducerDraft \<Rightarrow> orch_error + ReducerDraft" where
  "apply_source_registered J event registration d =
     (let sourceId = reg_sourceId registration in
      bindE (parseHostEventSourceRegistration J registration) (\<lambda>_.
      bindE (host_require (eh_aggregateId event = sourceId) HostInvalid) (\<lambda>_.
      case map_of (eventSources d) sourceId of
        None \<Rightarrow> put_source J sourceId (new_source_state (js_values (eventSources d)) registration) d
      | Some prior \<Rightarrow>
          bindE (host_require (src_ended prior = None) HostSourceEnded) (\<lambda>_.
          if src_registration prior = registration then Inr d
          else if reg_storeIdentity (src_registration prior) = None \<and> reg_storeIdentity registration \<noteq> None \<and>
                  src_registration prior = registration\<lparr>reg_storeIdentity := None\<rparr>
            then put_source J sourceId (prior\<lparr>src_registration := registration\<rparr>) d
          else
            bindE (host_require (reg_storeIdentity (src_registration prior) = reg_storeIdentity registration \<and>
                                 reg_sourceEpoch (src_registration prior) = reg_sourceEpoch registration \<and>
                                 reg_startingSequence (src_registration prior) = reg_startingSequence registration \<and>
                                 reg_scopeVersion registration = reg_scopeVersion (src_registration prior) + 1)
                     HostSourceConflict) (\<lambda>_.
            bindE (foldE (rescope_event J (eh_occurredAt event) (src_registration prior) registration) d
                     (js_values (hostEvents d))) (\<lambda>d1.
            put_source J sourceId (prior\<lparr>src_registration := registration\<rparr>) d1))))))"

definition apply_catchup_started ::
  "json_env \<Rightarrow> EventHeader \<Rightarrow> HostEventCatchUp \<Rightarrow> ReducerDraft \<Rightarrow> orch_error + ReducerDraft" where
  "apply_catchup_started J event catchUp d =
     bindE (source_with_epoch d (eh_aggregateId event) (cu_sourceId catchUp) (cu_sourceEpoch catchUp)) (\<lambda>source.
     bindE (host_require (cu_scopeVersion catchUp = reg_scopeVersion (src_registration source) \<and>
                          cu_generation catchUp = src_catchUpGeneration source + 1) HostSourceConflict) (\<lambda>_.
     put_source J (cu_sourceId catchUp) (source\<lparr>src_catchUpGeneration := cu_generation catchUp\<rparr>) d))"

definition apply_replay_gap ::
  "json_env \<Rightarrow> EventHeader \<Rightarrow> HostEventReplayGap \<Rightarrow> ReducerDraft \<Rightarrow> orch_error + ReducerDraft" where
  "apply_replay_gap J event gap d =
     bindE (parseHostEventReplayGap gap) (\<lambda>_.
     bindE (source_with_epoch d (eh_aggregateId event) (cu_sourceId gap) (cu_sourceEpoch gap)) (\<lambda>source.
     bindE (host_require (cu_scopeVersion gap = reg_scopeVersion (src_registration source) \<and>
                          cu_generation gap = src_catchUpGeneration source \<and>
                          gap_afterSequence gap = src_acceptedThrough source \<and>
                          \<not> hostEventSealed source) HostSourceConflict) (\<lambda>_.
     put_source J (cu_sourceId gap)
       (source\<lparr>src_acceptedThrough := gap_throughSequence gap, src_retiredThrough := gap_throughSequence gap,
               src_replayFloor := gap_throughSequence gap + 1, src_lastReplayGap := Some gap,
               src_unaccepted := hostEventUnacceptedWith (src_unaccepted source)
                 \<lparr>rng_from = gap_afterSequence gap + 1, rng_through = gap_throughSequence gap\<rparr>\<rparr>) d)))"

definition admit_snapshot ::
  "json_env \<Rightarrow> EventHeader \<Rightarrow> HostEventCatchUpSeal \<Rightarrow> nat \<Rightarrow> string \<Rightarrow> WorkerReceiptOrigin \<Rightarrow>
   ReducerDraft \<Rightarrow> CiHostEventEnvelope \<Rightarrow> orch_error + ReducerDraft" where
  "admit_snapshot J event seal replayFloor consumerId origin d snapshot =
     (let snapshotId = ct_eventId (env_event snapshot) in
      bindE (case List.find (\<lambda>c. so_eventId c = Some snapshotId) (seal_observations seal) of
               Some observation \<Rightarrow> Inr observation | None \<Rightarrow> Inl (HostError HostSourceConflict)) (\<lambda>observation.
      bindE (host_require (so_status observation = ObsCompleted \<and>
                           so_sourceSequence observation = Some (env_sourceSequence snapshot) \<and>
                           env_sourceId snapshot = seal_sourceId seal \<and>
                           env_sourceEpoch snapshot = seal_sourceEpoch seal \<and>
                           \<not> replayFloor \<le> env_sourceSequence snapshot) HostSourceConflict) (\<lambda>_.
      bindE (host_lookup (eventSources d) (seal_sourceId seal)) (\<lambda>custody.
      case map_of (hostEvents d) snapshotId of
        Some retained \<Rightarrow>
          bindE (host_require (ae_envelope retained = ci_envelope snapshot) HostIdentityConflict) (\<lambda>_. Inr d)
      | None \<Rightarrow>
          if hostEventSequenceUnaccepted (src_unaccepted custody) (env_sourceSequence snapshot)
          then bindE (acceptCanonicalHostEvent J event (ci_envelope snapshot) consumerId origin d) (\<lambda>d1.
               put_source J (seal_sourceId seal)
                 (custody\<lparr>src_unaccepted :=
                    hostEventUnacceptedWithout (src_unaccepted custody) (env_sourceSequence snapshot)\<rparr>) d1)
          else bindE (host_require (hostEventObservationIsHistory d custody observation) HostIdentityConflict) (\<lambda>_. Inr d)))))"

definition observation_follows :: "HostEventSealObservation \<Rightarrow> HostEventSealObservation \<Rightarrow> bool" where
  "observation_follows observation previous \<longleftrightarrow>
     \<not> (so_runNumber observation < so_runNumber previous \<or>
        (so_runNumber observation = so_runNumber previous \<and> so_runAttempt observation < so_runAttempt previous)) \<and>
     \<not> (so_runNumber observation = so_runNumber previous \<and> so_runId observation \<noteq> so_runId previous) \<and>
     \<not> (so_status previous = ObsCompleted \<and> so_runNumber observation = so_runNumber previous \<and>
        so_runAttempt observation = so_runAttempt previous \<and> observation \<noteq> previous)"

definition terminal_matches ::
  "json_env \<Rightarrow> HostEventCatchUpSeal \<Rightarrow> HostEventSealObservation \<Rightarrow> AcceptedHostEvent \<Rightarrow> bool" where
  "terminal_matches J seal observation terminal \<longleftrightarrow>
     env_sourceId (ae_envelope terminal) = seal_sourceId seal \<and>
     Some (env_sourceSequence (ae_envelope terminal)) = so_sourceSequence observation \<and>
     (case ci_of (env_event (ae_envelope terminal)) of
        None \<Rightarrow> False
      | Some item \<Rightarrow>
          ciSubjectKey (je_hash J) (ciEventSubject item) = ciSubjectKey (je_hash J) (so_subject observation) \<and>
          ci_runId (ct_identity item) = so_runId observation \<and>
          ci_runNumber (ct_identity item) = so_runNumber observation \<and>
          ci_runAttempt (ct_identity item) = so_runAttempt observation \<and>
          Some (ct_conclusion item) = so_conclusion observation)"

definition check_observation ::
  "json_env \<Rightarrow> HostEventCatchUpSeal \<Rightarrow> HostEventSourceState \<Rightarrow> ReducerDraft \<Rightarrow> HostEventSealObservation \<Rightarrow> orch_error + unit" where
  "check_observation J seal source d observation =
     (let key = ciSubjectKey (je_hash J) (so_subject observation) in
      bindE (host_require (subject_listed J (reg_subjects (src_registration source)) key) HostSourceConflict) (\<lambda>_.
      bindE (host_require (case seal_observation J source (so_subject observation) of
                             None \<Rightarrow> True | Some previous \<Rightarrow> observation_follows observation previous)
               HostSourceConflict) (\<lambda>_.
      if so_status observation \<noteq> ObsCompleted then Inr ()
      else
        bindE (host_lookup (eventSources d) (seal_sourceId seal)) (\<lambda>custody.
        case (case so_eventId observation of None \<Rightarrow> None
              | Some e \<Rightarrow> if e = [] then None else map_of (hostEvents d) e) of
          Some terminal \<Rightarrow> host_require (terminal_matches J seal observation terminal) HostSourceConflict
        | None \<Rightarrow> host_require (hostEventObservationIsHistory d custody observation) HostSourceConflict))))"

definition consumed_prior ::
  "json_env \<Rightarrow> 'a TaskRuntimeProjection_scheme \<Rightarrow> CiAttemptTerminalEvent \<Rightarrow> HostEventDelivery \<Rightarrow> bool" where
  "consumed_prior J state item delivery \<longleftrightarrow>
     del_status delivery = DelConsumed \<and> del_eventId delivery \<noteq> ct_eventId item \<and>
     (case map_of (hostEvents state) (del_eventId delivery) of
        None \<Rightarrow> False
      | Some prior \<Rightarrow>
          (case ci_of (env_event (ae_envelope prior)) of
             None \<Rightarrow> False
           | Some earlier \<Rightarrow>
               ct_conclusion earlier = CiFailure \<and>
               ciSubjectKey (je_hash J) (ciEventSubject earlier) = ciSubjectKey (je_hash J) (ciEventSubject item)))"

definition update_relevant :: "HostEventDelivery list \<Rightarrow> HostEventDelivery \<Rightarrow> bool" where
  "update_relevant consumed delivery \<longleftrightarrow>
     (\<exists>prior \<in> set consumed. is_root_target (del_target delivery) \<or>
        (target_task (del_target prior) \<noteq> None \<and> target_task (del_target prior) = target_task (del_target delivery)))"

definition seal_delivery ::
  "json_env \<Rightarrow> timestamp \<Rightarrow> AcceptedHostEvent \<Rightarrow> bool \<Rightarrow> HostEventDelivery list \<Rightarrow> ReducerDraft \<Rightarrow> string \<Rightarrow>
   orch_error + ReducerDraft" where
  "seal_delivery J now accepted current consumed d deliveryId =
     bindE (host_lookup (eventDeliveries d) deliveryId) (\<lambda>delivery.
     if \<not> open_status (del_status delivery) then Inr d
     else if \<not> current then put_delivery J deliveryId (settle_delivery ''source_superseded'' now delivery) d
     else if del_purpose delivery = PurposeUpdate
       then put_delivery J deliveryId
              (if update_relevant consumed delivery then delivery\<lparr>del_status := DelPending\<rparr>
               else settle_delivery ''no_superseded_consumption'' now delivery) d
     else if is_root_target (del_target delivery)
       then bindE (some_delivery (\<lambda>t. \<not> is_root_target (del_target t)) (eventDeliveries d) (ae_deliveryIds accepted))
              (\<lambda>hasTask.
               if \<not> hasTask \<and> \<not> hostEventDeliveryEligible J d delivery
               then put_delivery J deliveryId (settle_delivery ''non_actionable'' now delivery) d
               else Inr d)
     else Inr d)"

definition seal_event ::
  "json_env \<Rightarrow> timestamp \<Rightarrow> ReducerDraft \<Rightarrow> AcceptedHostEvent \<Rightarrow> orch_error + ReducerDraft" where
  "seal_event J now d accepted =
     (case ci_of (env_event (ae_envelope accepted)) of
        None \<Rightarrow> Inr d
      | Some item \<Rightarrow>
          let current = hostEventIsCurrent J d accepted;
              consumed = filter (consumed_prior J d item) (js_values (eventDeliveries d))
          in foldE (seal_delivery J now accepted current consumed) d (ae_deliveryIds accepted))"

definition apply_source_sealed ::
  "json_env \<Rightarrow> EventHeader \<Rightarrow> HostEventCatchUpSeal \<Rightarrow> string \<Rightarrow> WorkerReceiptOrigin \<Rightarrow> ReducerDraft \<Rightarrow> orch_error + ReducerDraft" where
  "apply_source_sealed J event seal consumerId origin d =
     (let frontier = hostEventSealedFrontier seal; sourceId = seal_sourceId seal in
      bindE (parseHostEventCatchUpSeal J seal) (\<lambda>_.
      bindE (source_with_epoch d (eh_aggregateId event) sourceId (seal_sourceEpoch seal)) (\<lambda>source.
      bindE (host_require (seal_scopeVersion seal = reg_scopeVersion (src_registration source) \<and>
                           seal_generation seal = src_catchUpGeneration source \<and>
                           seal_throughSequence seal = src_acceptedThrough source) HostSourceConflict) (\<lambda>_.
      bindE (host_require (case src_seal source of None \<Rightarrow> True
                           | Some previous \<Rightarrow> \<not> (seal_generation previous = seal_generation seal \<and> previous \<noteq> frontier))
               HostSourceConflict) (\<lambda>_.
      bindE (foldE (admit_snapshot J event seal (src_replayFloor source) consumerId origin) d
               (case seal_snapshots seal of None \<Rightarrow> [] | Some ss \<Rightarrow> ss)) (\<lambda>d1.
      bindE (forE (check_observation J seal source d1) (seal_observations seal)) (\<lambda>_.
      bindE (host_lookup (eventSources d1) sourceId) (\<lambda>custody.
      bindE (put_source J sourceId (custody\<lparr>src_seal := Some frontier\<rparr>) d1) (\<lambda>d2.
      foldE (seal_event J (eh_occurredAt event)) d2
        (filter (\<lambda>a. env_sourceId (ae_envelope a) = sourceId) (js_values (hostEvents d2))))))))))))"

definition end_delivery :: "json_env \<Rightarrow> timestamp \<Rightarrow> ReducerDraft \<Rightarrow> string \<Rightarrow> orch_error + ReducerDraft" where
  "end_delivery J now d deliveryId =
     bindE (host_lookup (eventDeliveries d) deliveryId) (\<lambda>delivery.
     if open_status (del_status delivery) \<and> (del_binding delivery = None \<or> del_mailboxSettled delivery)
     then put_delivery J deliveryId (settle_delivery ''source_ended'' now delivery) d
     else Inr d)"

definition end_event :: "json_env \<Rightarrow> timestamp \<Rightarrow> string \<Rightarrow> ReducerDraft \<Rightarrow> AcceptedHostEvent \<Rightarrow> orch_error + ReducerDraft" where
  "end_event J now sourceId d accepted =
     (if env_sourceId (ae_envelope accepted) \<noteq> sourceId then Inr d
      else foldE (end_delivery J now) d (ae_deliveryIds accepted))"

definition apply_source_ended ::
  "json_env \<Rightarrow> EventHeader \<Rightarrow> HostEventSourceEnd \<Rightarrow> ReducerDraft \<Rightarrow> orch_error + ReducerDraft" where
  "apply_source_ended J event ended d =
     bindE (source_with_epoch d (eh_aggregateId event) (end_sourceId ended) (end_sourceEpoch ended)) (\<lambda>source.
     bindE (foldE (end_event J (eh_occurredAt event) (end_sourceId ended)) d (js_values (hostEvents d))) (\<lambda>d1.
     put_source J (end_sourceId ended)
       (source\<lparr>src_seal := None, src_retiredThrough := src_acceptedThrough source,
               src_ended := Some (end_reason ended, eh_occurredAt event)\<rparr>) d1))"

definition apply_source_retired ::
  "json_env \<Rightarrow> EventHeader \<Rightarrow> HostEventReplayHorizon \<Rightarrow> ReducerDraft \<Rightarrow> orch_error + ReducerDraft" where
  "apply_source_retired J event horizon d =
     bindE (source_with_epoch d (eh_aggregateId event) (hz_sourceId horizon) (hz_sourceEpoch horizon)) (\<lambda>source.
     bindE (host_require (\<not> hz_throughSequence horizon < src_retiredThrough source \<and>
                          \<not> src_acceptedThrough source < hz_throughSequence horizon) HostSourceConflict) (\<lambda>_.
     put_source J (hz_sourceId horizon) (source\<lparr>src_retiredThrough := hz_throughSequence horizon\<rparr>) d))"

fun applyHostSourceEvent ::
  "json_env \<Rightarrow> EventHeader \<Rightarrow> HostSourceEvent \<Rightarrow> ReducerDraft \<Rightarrow> orch_error + ReducerDraft" where
  "applyHostSourceEvent J event (SourceRegistered registration) d = apply_source_registered J event registration d"
| "applyHostSourceEvent J event (CatchUpStarted catchUp) d = apply_catchup_started J event catchUp d"
| "applyHostSourceEvent J event (ReplayGapRecorded gap) d = apply_replay_gap J event gap d"
| "applyHostSourceEvent J event (SourceSealed seal consumerId origin) d =
     apply_source_sealed J event seal consumerId origin d"
| "applyHostSourceEvent J event (SourceEnded ended) d = apply_source_ended J event ended d"
| "applyHostSourceEvent J event (SourceRetired horizon) d = apply_source_retired J event horizon d"

end
