(* ===== verification/Host_Event_Deliveries.thy ===== *)
theory Host_Event_Deliveries
  imports Host_Event_Reducer
begin

text \<open>
  The rest of \<open>applyHostEvent\<close> (\<open>core/events/host-event-reducer.ts\<close>): replaced subscriptions, accepted
  stream events, the delivery protocol and pruning.
\<close>

datatype HostDeliveryEvent =
    SubscriptionsReplaced string "HostEventSubscriptionInput list" nat "HostEventWorkerScope option"
  | HostEventAccepted HostEventEnvelope string WorkerReceiptOrigin
  | DeliveryBound HostEventDeliveryBinding
  | BindingRetired HostEventDeliveryBinding
  | MailboxAccepted HostEventDeliveryBinding
  | MailboxSettled HostEventDeliveryBinding
  | EventConsumed HostEventDeliveryBinding HostEventTranscriptReceipt
  | RootConsumed string string bool
  | DeliverySettled string string
  | EventsPruned "string list" bool

definition narrows :: "HostEventSubscription list \<Rightarrow> HostEventSubscriptionInput \<Rightarrow> bool" where
  "narrows current replacement \<longleftrightarrow>
     (\<exists>prior \<in> set current. si_threadKey prior = si_threadKey replacement \<and>
        si_subject prior = si_subject replacement \<and>
        (si_wake prior = si_wake replacement \<or>
         (si_wake prior = WakeResumeSameTask \<and> si_wake replacement = WakeNever)))"

definition apply_subscriptions_replaced ::
  "json_env \<Rightarrow> EventHeader \<Rightarrow> string \<Rightarrow> HostEventSubscriptionInput list \<Rightarrow> nat \<Rightarrow> HostEventWorkerScope option \<Rightarrow>
   ReducerDraft \<Rightarrow> orch_error + ReducerDraft" where
  "apply_subscriptions_replaced J event taskId inputs expectedRevision workerScope d =
     bindE (host_require (eh_aggregateId event = taskId \<and>
                          (eh_actor event = ActorHuman \<or> eh_actor event = ActorWorker)) HostAuthority) (\<lambda>_.
     bindE (parse_subscription_inputs J inputs) (\<lambda>_.
     bindE (if eh_actor event = ActorWorker
            then (case workerScope of
                    None \<Rightarrow> Inl (HostError HostInvalid)
                  | Some scope \<Rightarrow>
                      bindE (assertHostEventWorkerScope d scope (date_parse (eh_occurredAt event))) (\<lambda>attempt.
                      bindE (host_require (att_taskId attempt = taskId) HostStaleExecution) (\<lambda>_.
                      host_require (\<forall>r \<in> set inputs.
                          narrows (filter (\<lambda>s. sub_revokedOrdinal s = None) (task_subscriptions d taskId)) r)
                        HostAuthority)))
            else host_require (workerScope = None) HostAuthority) (\<lambda>_.
     replaceHostEventSubscriptions J taskId inputs expectedRevision (eh_ordinal event) d)))"

definition apply_host_event_accepted ::
  "json_env \<Rightarrow> EventHeader \<Rightarrow> HostEventEnvelope \<Rightarrow> string \<Rightarrow> WorkerReceiptOrigin \<Rightarrow> ReducerDraft \<Rightarrow> orch_error + ReducerDraft" where
  "apply_host_event_accepted J event envelope consumerId origin d =
     (let eventId = env_eventId envelope in
      bindE (lookupE (eventSources d) (env_sourceId envelope) (HostError HostSourceConflict)) (\<lambda>source.
      bindE (host_require (src_ended source = None \<and> eh_aggregateId event = eventId \<and>
                           env_sourceEpoch envelope = reg_sourceEpoch (src_registration source) \<and>
                           src_catchUpGeneration source \<noteq> 0 \<and> \<not> hostEventSealed source \<and>
                           env_sourceSequence envelope = src_acceptedThrough source + 1 \<and>
                           map_of (hostEvents d) eventId = None) HostSourceConflict) (\<lambda>_.
      bindE (acceptCanonicalHostEvent J event envelope consumerId origin d) (\<lambda>d1.
      put_source J (env_sourceId envelope) (source\<lparr>src_acceptedThrough := env_sourceSequence envelope\<rparr>) d1))))"

definition apply_delivery_bound ::
  "json_env \<Rightarrow> EventHeader \<Rightarrow> HostEventDeliveryBinding \<Rightarrow> ReducerDraft \<Rightarrow> orch_error + ReducerDraft" where
  "apply_delivery_bound J event binding d =
     (let deliveryId = hb_deliveryId binding; found = map_of (eventDeliveries d) deliveryId in
      bindE (host_require (case found of None \<Rightarrow> True
                           | Some delivery \<Rightarrow> \<not> (del_binding delivery \<noteq> None \<and>
                               (\<not> del_bindingRetired delivery \<or> \<not> del_mailboxSettled delivery)))
               HostBindingUnreconciled) (\<lambda>_.
      bindE (lookupE (eventDeliveries d) deliveryId (HostError HostStaleDelivery)) (\<lambda>delivery.
      bindE (host_require (eh_aggregateId event = deliveryId \<and>
               del_target delivery =
                 TargetTask (hx_taskId (hb_execution binding)) (hb_subscriptionId binding) (hb_subscriptionRevision binding) \<and>
               hostEventDeliveryEligible J d delivery \<and> hb_generation binding = del_generation delivery + 1 \<and>
               hb_eventId binding = del_eventId delivery \<and>
               (case map_of (hostEvents d) (del_eventId delivery) of
                  None \<Rightarrow> False
                | Some accepted \<Rightarrow> hb_payloadDigest binding = payload_digest (env_event (ae_envelope accepted))) \<and>
               hb_messageId binding = ''host-event-'' @ je_hash J ''pi-host-event-message-v1''
                 (JArray [JString deliveryId, json_nat (hb_generation binding)])) HostStaleDelivery) (\<lambda>_.
      bindE (put_delivery J deliveryId
               (delivery\<lparr>del_generation := hb_generation binding, del_binding := Some binding,
                  del_mailboxAccepted := False, del_mailboxSettled := False, del_bindingRetired := False\<rparr>) d) (\<lambda>d1.
      bindE (assertHostEventExecution J d1 binding (date_parse (eh_occurredAt event))) (\<lambda>_.
      Inr d1))))))"

definition bound_delivery ::
  "ReducerDraft \<Rightarrow> EventHeader \<Rightarrow> HostEventDeliveryBinding \<Rightarrow> orch_error + HostEventDelivery" where
  "bound_delivery d event binding =
     bindE (lookupE (eventDeliveries d) (hb_deliveryId binding) (HostError HostStaleDelivery)) (\<lambda>delivery.
     bindE (host_require (eh_aggregateId event = hb_deliveryId binding \<and> is_bound_to delivery binding)
              HostStaleDelivery) (\<lambda>_.
     Inr delivery))"

definition apply_binding_retired ::
  "json_env \<Rightarrow> EventHeader \<Rightarrow> HostEventDeliveryBinding \<Rightarrow> ReducerDraft \<Rightarrow> orch_error + ReducerDraft" where
  "apply_binding_retired J event binding d =
     bindE (bound_delivery d event binding) (\<lambda>delivery.
     bindE (host_require (del_transcriptReceipt delivery = None) HostStaleDelivery) (\<lambda>_.
     put_delivery J (hb_deliveryId binding) (delivery\<lparr>del_bindingRetired := True\<rparr>) d))"

definition apply_mailbox_accepted ::
  "json_env \<Rightarrow> EventHeader \<Rightarrow> HostEventDeliveryBinding \<Rightarrow> ReducerDraft \<Rightarrow> orch_error + ReducerDraft" where
  "apply_mailbox_accepted J event binding d =
     bindE (bound_delivery d event binding) (\<lambda>delivery.
     bindE (assertHostEventExecution J d binding (date_parse (eh_occurredAt event))) (\<lambda>_.
     put_delivery J (hb_deliveryId binding) (delivery\<lparr>del_mailboxAccepted := True\<rparr>) d))"

definition apply_mailbox_settled ::
  "json_env \<Rightarrow> EventHeader \<Rightarrow> HostEventDeliveryBinding \<Rightarrow> ReducerDraft \<Rightarrow> orch_error + ReducerDraft" where
  "apply_mailbox_settled J event binding d =
     bindE (bound_delivery d event binding) (\<lambda>delivery.
     bindE (host_require (del_transcriptReceipt delivery \<noteq> None \<or> del_bindingRetired delivery)
              HostBindingUnreconciled) (\<lambda>_.
     put_delivery J (hb_deliveryId binding) (delivery\<lparr>del_mailboxSettled := True\<rparr>) d))"

definition apply_event_consumed ::
  "json_env \<Rightarrow> EventHeader \<Rightarrow> HostEventDeliveryBinding \<Rightarrow> HostEventTranscriptReceipt \<Rightarrow> ReducerDraft \<Rightarrow> orch_error + ReducerDraft" where
  "apply_event_consumed J event binding receipt d =
     bindE (bound_delivery d event binding) (\<lambda>delivery.
     bindE (mapE HostError (assertHostEventReceiptMatchesBinding receipt binding)) (\<lambda>_.
     bindE (host_require (del_transcriptReceipt delivery = None \<or> del_transcriptReceipt delivery = Some receipt)
              HostIdentityConflict) (\<lambda>_.
     bindE (put_delivery J (hb_deliveryId binding)
              (delivery\<lparr>del_status := DelConsumed, del_transcriptReceipt := Some receipt,
                        del_settledAt := Some (eh_occurredAt event)\<rparr>) d) (\<lambda>d1.
     bindE (host_lookup (hostEvents d1) (del_eventId delivery)) (\<lambda>accepted.
     settleUnusedRoot J accepted (eh_occurredAt event) d1)))))"

definition apply_root_consumed ::
  "json_env \<Rightarrow> EventHeader \<Rightarrow> string \<Rightarrow> string \<Rightarrow> bool \<Rightarrow> ReducerDraft \<Rightarrow> orch_error + ReducerDraft" where
  "apply_root_consumed J event deliveryId parentReceiptId historical d =
     bindE (lookupE (eventDeliveries d) deliveryId (HostError HostStaleDelivery)) (\<lambda>delivery.
     bindE (host_require (eh_aggregateId event = deliveryId \<and> is_root_target (del_target delivery) \<and>
                          (historical \<or> hostEventDeliveryEligible J d delivery)) HostStaleDelivery) (\<lambda>_.
     put_delivery J deliveryId
       (delivery\<lparr>del_status := DelConsumed, del_parentReceiptId := Some parentReceiptId,
                 del_settledAt := Some (eh_occurredAt event)\<rparr>) d))"

definition SETTLEMENT_REASONS :: "string list" where
  "SETTLEMENT_REASONS = [''task_closed'', ''unsubscribed'', ''source_superseded'', ''root_scope_changed'',
     ''handed_back'', ''non_actionable'', ''source_ended'']"

definition hand_back_root :: "json_env \<Rightarrow> AcceptedHostEvent \<Rightarrow> ReducerDraft \<Rightarrow> orch_error + ReducerDraft" where
  "hand_back_root J accepted d =
     bindE (find_delivery (\<lambda>t. is_root_target (del_target t)) (eventDeliveries d) (ae_deliveryIds accepted)) (\<lambda>found.
     case found of
       None \<Rightarrow> Inr d
     | Some rootCopy \<Rightarrow>
         if del_status rootCopy = DelReserved
         then put_delivery J (del_deliveryId rootCopy)
                (rootCopy\<lparr>del_status := DelPending, del_purpose := PurposeHandback\<rparr>) d
         else Inr d)"

definition apply_delivery_settled ::
  "json_env \<Rightarrow> EventHeader \<Rightarrow> string \<Rightarrow> string \<Rightarrow> ReducerDraft \<Rightarrow> orch_error + ReducerDraft" where
  "apply_delivery_settled J event deliveryId reason d =
     bindE (lookupE (eventDeliveries d) deliveryId (HostError HostStaleDelivery)) (\<lambda>delivery.
     bindE (host_require (eh_aggregateId event = deliveryId \<and> del_status delivery \<noteq> DelConsumed)
              HostStaleDelivery) (\<lambda>_.
     bindE (host_require (del_binding delivery = None \<or> del_mailboxSettled delivery) HostBindingUnreconciled) (\<lambda>_.
     bindE (host_require (reason \<in> set SETTLEMENT_REASONS) HostInvalid) (\<lambda>_.
     bindE (put_delivery J deliveryId (settle_delivery reason (eh_occurredAt event) delivery) d) (\<lambda>d1.
     bindE (host_lookup (hostEvents d1) (del_eventId delivery)) (\<lambda>accepted.
     bindE (if \<not> is_root_target (del_target delivery) \<and>
               reason \<in> {''task_closed'', ''unsubscribed'', ''handed_back''}
            then hand_back_root J accepted d1 else Inr d1) (\<lambda>d2.
     settleUnusedRoot J accepted (eh_occurredAt event) d2)))))))"

definition prune_event ::
  "json_env \<Rightarrow> EventHeader \<Rightarrow> bool \<Rightarrow> ReducerDraft \<Rightarrow> string \<Rightarrow> orch_error + ReducerDraft" where
  "prune_event J event pressure d eventId =
     (case map_of (hostEvents d) eventId of
        None \<Rightarrow> Inr d
      | Some accepted \<Rightarrow>
          bindE (hostEventCanPrune d accepted (date_parse (eh_occurredAt event)) pressure) (\<lambda>prunable.
          bindE (host_require prunable HostRetained) (\<lambda>_.
          bindE (foldE (\<lambda>d deliveryId. delete_delivery J deliveryId d) d (ae_deliveryIds accepted)) (\<lambda>d1.
          delete_event J eventId d1))))"

definition prune_source :: "json_env \<Rightarrow> ReducerDraft \<Rightarrow> HostEventSourceState \<Rightarrow> orch_error + ReducerDraft" where
  "prune_source J d source =
     (let sourceId = reg_sourceId (src_registration source) in
      if src_ended source \<noteq> None \<and>
         \<not> (\<exists>a \<in> set (js_values (hostEvents d)). env_sourceId (ae_envelope a) = sourceId)
      then delete_source J sourceId d else Inr d)"

definition apply_events_pruned ::
  "json_env \<Rightarrow> EventHeader \<Rightarrow> string list \<Rightarrow> bool \<Rightarrow> ReducerDraft \<Rightarrow> orch_error + ReducerDraft" where
  "apply_events_pruned J event eventIds pressure d =
     bindE (host_require (length eventIds \<le> MAX_HOST_EVENT_TARGETS) HostInvalid) (\<lambda>_.
     bindE (if pressure then hostEventRetentionPressure J d else Inr True) (\<lambda>waivable.
     bindE (host_require waivable HostRetained) (\<lambda>_.
     bindE (foldE (prune_event J event pressure) d eventIds) (\<lambda>d1.
     foldE (prune_source J) d1 (js_values (eventSources d1))))))"

fun applyHostDeliveryEvent ::
  "json_env \<Rightarrow> EventHeader \<Rightarrow> HostDeliveryEvent \<Rightarrow> ReducerDraft \<Rightarrow> orch_error + ReducerDraft" where
  "applyHostDeliveryEvent J event (SubscriptionsReplaced taskId inputs revision scope) d =
     apply_subscriptions_replaced J event taskId inputs revision scope d"
| "applyHostDeliveryEvent J event (HostEventAccepted envelope consumerId origin) d =
     apply_host_event_accepted J event envelope consumerId origin d"
| "applyHostDeliveryEvent J event (DeliveryBound binding) d = apply_delivery_bound J event binding d"
| "applyHostDeliveryEvent J event (BindingRetired binding) d = apply_binding_retired J event binding d"
| "applyHostDeliveryEvent J event (MailboxAccepted binding) d = apply_mailbox_accepted J event binding d"
| "applyHostDeliveryEvent J event (MailboxSettled binding) d = apply_mailbox_settled J event binding d"
| "applyHostDeliveryEvent J event (EventConsumed binding receipt) d = apply_event_consumed J event binding receipt d"
| "applyHostDeliveryEvent J event (RootConsumed deliveryId parentReceiptId historical) d =
     apply_root_consumed J event deliveryId parentReceiptId historical d"
| "applyHostDeliveryEvent J event (DeliverySettled deliveryId reason) d =
     apply_delivery_settled J event deliveryId reason d"
| "applyHostDeliveryEvent J event (EventsPruned eventIds pressure) d =
     apply_events_pruned J event eventIds pressure d"

end
