(* ===== verification/Receipt_Publication.thy ===== *)
theory Receipt_Publication
  imports Attempt_Identity
begin

text \<open>
  Which finished work may be published to the parent
  (\<open>core/orchestration/worker-receipt-publication.ts\<close>): the immutable requirements on an attempt and
  its result, the verification that may still be outstanding, and the acknowledgement that must match
  the published receipt.
\<close>

record WorkerReceiptPublication =
  pub_receiptId :: string
  pub_attemptId :: string
  pub_taskId :: string
  pub_resultId :: string
  pub_origin :: WorkerReceiptOrigin
  pub_factsDigest :: string
  pub_receipts :: json
  pub_parentReviewEntryId :: "string option"
  pub_verifierAttemptId :: "string option"

record WorkerReceiptCandidate =
  cand_publication :: WorkerReceiptPublication
  cand_parentReviewRequired :: bool

definition json_option :: "string option \<Rightarrow> json" where
  "json_option s = (case s of Some x \<Rightarrow> JString x | None \<Rightarrow> JNull)"

definition receiptId :: "digest \<Rightarrow> WorkerReceiptOrigin \<Rightarrow> string \<Rightarrow> string \<Rightarrow> string" where
  "receiptId hash origin attemptId resultId =
     hash '''' (JArray [JString (ro_sessionId origin), json_option (ro_sessionFile origin),
       JString (ro_leafId origin), JString attemptId, JString resultId])"

fun result_attempt_status :: "WorkerResultStatus \<Rightarrow> AttemptStatus" where
  "result_attempt_status ResCompleted = AttCompleted"
| "result_attempt_status ResPartial = AttPartial"
| "result_attempt_status ResBlocked = AttBlocked"
| "result_attempt_status ResFailed = AttFailed"
| "result_attempt_status ResCancelled = AttCancelled"

definition unverifiedWorkerReceiptCandidate ::
  "digest \<Rightarrow> AttemptRuntimeState \<Rightarrow> WorkerReceiptCandidate option" where
  "unverifiedWorkerReceiptCandidate hash attempt =
     (case (att_result attempt, dispatch_receiptOrigin (att_dispatch attempt)) of
        (Some result, Some origin) \<Rightarrow>
          (case res_receipts result of
             Some (ReceiptsCaptured facts factsDigest acceptance) \<Rightarrow>
               let required = wra_verificationRequired acceptance;
                   reviewRequired = (wra_disposition acceptance = DispParentReview)
               in if wra_disposition acceptance = DispRejected then None
                  else if att_status attempt \<noteq> AttCompleted \<and> att_status attempt \<noteq> AttPartial then None
                  else if result_attempt_status (res_status result) \<noteq> att_status attempt \<or>
                          res_attemptId result \<noteq> att_attemptId attempt \<or>
                          res_taskId result \<noteq> att_taskId attempt then None
                  else if required \<noteq> (res_nextAction result = Some ''independent_verification_required'') then None
                  else if res_status result \<noteq> (if required \<or> reviewRequired then ResPartial else ResCompleted)
                  then None
                  else Some \<lparr>cand_publication =
                         \<lparr>pub_receiptId = receiptId hash origin (att_attemptId attempt) (res_resultId result),
                          pub_attemptId = att_attemptId attempt, pub_taskId = att_taskId attempt,
                          pub_resultId = res_resultId result, pub_origin = origin,
                          pub_factsDigest = factsDigest, pub_receipts = facts,
                          pub_parentReviewEntryId = None, pub_verifierAttemptId = None\<rparr>,
                         cand_parentReviewRequired = reviewRequired\<rparr>
           | _ \<Rightarrow> None)
      | _ \<Rightarrow> None)"

definition workerReceiptCandidate ::
  "digest \<Rightarrow> 'a TaskRuntimeProjection_scheme \<Rightarrow> AttemptRuntimeState \<Rightarrow> WorkerReceiptCandidate option" where
  "workerReceiptCandidate hash state attempt =
     (case unverifiedWorkerReceiptCandidate hash attempt of
        None \<Rightarrow> None
      | Some candidate \<Rightarrow>
          if \<not> verification_required attempt then Some candidate
          else (case attemptVerification state attempt of
                  None \<Rightarrow> None
                | Some v \<Rightarrow>
                    if vr_verdict v \<noteq> VerdictAccepted then None
                    else Some (candidate\<lparr>cand_publication :=
                           (cand_publication candidate)\<lparr>pub_verifierAttemptId := Some (vr_verifierAttemptId v)\<rparr>\<rparr>)))"

definition workerReceiptPublicationPending ::
  "digest \<Rightarrow> 'a TaskRuntimeProjection_scheme \<Rightarrow> AttemptRuntimeState \<Rightarrow> bool" where
  "workerReceiptPublicationPending hash state attempt \<longleftrightarrow>
     \<not> (att_receiptAcknowledgement attempt \<noteq> None \<or> unverifiedWorkerReceiptCandidate hash attempt = None) \<and>
     (case attemptVerification state attempt of None \<Rightarrow> True | Some v \<Rightarrow> vr_verdict v = VerdictAccepted)"

definition workerReceiptPublicationAllowed :: "'a TaskRuntimeProjection_scheme \<Rightarrow> AttemptRuntimeState \<Rightarrow> bool" where
  "workerReceiptPublicationAllowed state attempt \<longleftrightarrow>
     (let current = is_selected state (att_taskId attempt) (att_attemptId attempt);
          status = map_option (\<lambda>t. task_status (ts_task t)) (map_of (tasks state) (att_taskId attempt))
      in \<not> current \<or> (status \<noteq> Some TaskCancelled \<and> status \<noteq> Some TaskFailed))"

definition assertWorkerReceiptAcknowledgement ::
  "digest \<Rightarrow> 'a TaskRuntimeProjection_scheme \<Rightarrow> AttemptRuntimeState \<Rightarrow> WorkerReceiptAcknowledgement \<Rightarrow> orch_error + unit" where
  "assertWorkerReceiptAcknowledgement hash state attempt ack =
     (case workerReceiptCandidate hash state attempt of
        None \<Rightarrow> Inl (AttemptError ReceiptAcknowledgementInvalid)
      | Some candidate \<Rightarrow>
          let publication = cand_publication candidate in
          bindE (require (ack_receiptId ack = pub_receiptId publication \<and>
                          ack_resultId ack = pub_resultId publication \<and>
                          ack_factsDigest ack = pub_factsDigest publication \<and>
                          ack_verifierAttemptId ack = pub_verifierAttemptId publication \<and>
                          (if cand_parentReviewRequired candidate then ack_parentReviewEntryId ack \<noteq> None
                           else ack_parentReviewEntryId ack = None))
                   (AttemptError ReceiptAcknowledgementInvalid)) (\<lambda>_.
          require (att_receiptAcknowledgement attempt = None \<or> att_receiptAcknowledgement attempt = Some ack)
            (AttemptError ReceiptAcknowledgementConflict)))"

text \<open>
  C24: an accepted acknowledgement names a completed or partial attempt whose own result was captured
  and not rejected, repeats that result's identity and digest, and, whenever the result demanded an
  independent review, the verifier whose verdict accepted this very attempt.
\<close>

theorem acknowledged_work_is_accepted:
  assumes "assertWorkerReceiptAcknowledgement hash state attempt ack = Inr ()"
  shows "\<exists>result. att_result attempt = Some result \<and> att_status attempt \<in> {AttCompleted, AttPartial} \<and>
    res_attemptId result = att_attemptId attempt \<and> ack_resultId ack = res_resultId result \<and>
    (\<exists>facts acceptance. res_receipts result = Some (ReceiptsCaptured facts (ack_factsDigest ack) acceptance) \<and>
       wra_disposition acceptance \<noteq> DispRejected \<and>
       (ack_parentReviewEntryId ack \<noteq> None \<longleftrightarrow> wra_disposition acceptance = DispParentReview)) \<and>
    (if verification_required attempt
     then \<exists>v. attemptVerification state attempt = Some v \<and> vr_verdict v = VerdictAccepted \<and>
            ack_verifierAttemptId ack = Some (vr_verifierAttemptId v)
     else ack_verifierAttemptId ack = None)"
proof -
  from assms obtain c where c: "workerReceiptCandidate hash state attempt = Some c"
    and ack: "ack_resultId ack = pub_resultId (cand_publication c)"
      "ack_factsDigest ack = pub_factsDigest (cand_publication c)"
      "ack_verifierAttemptId ack = pub_verifierAttemptId (cand_publication c)"
      "ack_parentReviewEntryId ack \<noteq> None \<longleftrightarrow> cand_parentReviewRequired c"
    by (auto simp: assertWorkerReceiptAcknowledgement_def Let_def split: option.splits if_splits)
  from c obtain u where u: "unverifiedWorkerReceiptCandidate hash attempt = Some u"
    and cu: "pub_resultId (cand_publication c) = pub_resultId (cand_publication u)"
      "pub_factsDigest (cand_publication c) = pub_factsDigest (cand_publication u)"
      "cand_parentReviewRequired c = cand_parentReviewRequired u"
    and ver: "if verification_required attempt
      then \<exists>v. attemptVerification state attempt = Some v \<and> vr_verdict v = VerdictAccepted \<and>
             pub_verifierAttemptId (cand_publication c) = Some (vr_verifierAttemptId v)
      else c = u"
    by (auto simp: workerReceiptCandidate_def split: option.splits if_splits)
  from u ack cu ver show ?thesis
    by (auto simp: unverifiedWorkerReceiptCandidate_def Let_def
        split: option.splits WorkerResultReceipts.splits if_splits)
qed

end
