(* ===== verification/Task_Events.thy ===== *)
theory Task_Events
  imports Host_Event_Deliveries Receipt_Publication
begin

text \<open>
  The objective and task handlers of \<open>reduceOrchestrationEvent\<close>
  (\<open>core/orchestration/task-runtime-reducer.ts\<close>), one
  definition per event type. A payload is the value its codec decodes.
\<close>

section \<open>Shared steps\<close>

definition withoutAttemptRetry :: "AttemptRuntimeState \<Rightarrow> AttemptRuntimeState" where
  "withoutAttemptRetry attempt = attempt\<lparr>att_retry := None\<rparr>"

definition updateObjectiveStatus ::
  "json_env \<Rightarrow> string \<Rightarrow> ObjectiveStatus \<Rightarrow> timestamp \<Rightarrow> ReducerDraft \<Rightarrow> orch_error + ReducerDraft" where
  "updateObjectiveStatus J objectiveId status now d =
     bindE (lookup_objective d objectiveId) (\<lambda>current.
     put_objective J objectiveId
       (current\<lparr>os_objective := (os_objective current)\<lparr>obj_status := status, obj_updatedAt := now\<rparr>\<rparr>) d)"

definition releaseAttemptAgent ::
  "json_env \<Rightarrow> AttemptRuntimeState \<Rightarrow> timestamp \<Rightarrow> ReducerDraft \<Rightarrow> orch_error + ReducerDraft" where
  "releaseAttemptAgent J attempt now d =
     (case att_agentId attempt of
        None \<Rightarrow> Inr d
      | Some agentId \<Rightarrow>
          if agentId = [] then Inr d
          else (case map_of (agents d) agentId of
                  None \<Rightarrow> Inr d
                | Some agent \<Rightarrow>
                    bindE (assertAgentNotRetired agent) (\<lambda>_.
                    put_agent J agentId
                      (agent\<lparr>agent_status := AgentRegistered, agent_activeAttemptId := None,
                             agent_updatedAt := now\<rparr>) d)))"

definition cancel_open_attempt ::
  "json_env \<Rightarrow> timestamp \<Rightarrow> string \<Rightarrow> ReducerDraft \<Rightarrow> string \<Rightarrow> orch_error + ReducerDraft" where
  "cancel_open_attempt J now reasonCode d attemptId =
     (case map_of (attempts d) attemptId of
        None \<Rightarrow> Inr d
      | Some attempt \<Rightarrow>
          if terminalAttemptStatus (att_status attempt) then Inr d
          else
            bindE (put_attempt J attemptId
                     (withoutAttemptRetry (attempt\<lparr>att_status := AttCancelled, att_reasonCode := Some reasonCode,
                        att_updatedAt := now\<rparr>)) d) (\<lambda>d1.
            releaseAttemptAgent J attempt now d1))"

definition cancel_open_task ::
  "json_env \<Rightarrow> timestamp \<Rightarrow> string \<Rightarrow> ReducerDraft \<Rightarrow> string \<Rightarrow> orch_error + ReducerDraft" where
  "cancel_open_task J now reasonCode d taskId =
     (case map_of (tasks d) taskId of
        None \<Rightarrow> Inr d
      | Some taskState \<Rightarrow>
          bindE (if task_status (ts_task taskState) \<in> {TaskCompleted, TaskFailed, TaskCancelled} then Inr d
                 else put_task J taskId (with_task_status TaskCancelled now taskState) d) (\<lambda>d1.
          foldE (cancel_open_attempt J now reasonCode) d1 (ts_attemptIds taskState)))"

definition cancelOpenObjectiveWork ::
  "json_env \<Rightarrow> string \<Rightarrow> timestamp \<Rightarrow> string \<Rightarrow> ReducerDraft \<Rightarrow> orch_error + ReducerDraft" where
  "cancelOpenObjectiveWork J objectiveId now reasonCode d =
     (case map_of (objectives d) objectiveId of
        None \<Rightarrow> Inr d
      | Some os \<Rightarrow> foldE (cancel_open_task J now reasonCode) d (os_taskIds os))"

fun taskStatusForResult :: "WorkerResultStatus \<Rightarrow> OrchestrationTaskStatus" where
  "taskStatusForResult ResCompleted = TaskCompleted"
| "taskStatusForResult ResFailed = TaskFailed"
| "taskStatusForResult ResCancelled = TaskCancelled"
| "taskStatusForResult ResPartial = TaskBlocked"
| "taskStatusForResult ResBlocked = TaskBlocked"

section \<open>Objective events\<close>

datatype ObjectiveEvent =
    ObjectiveCreated ObjectiveContract
  | ObjectiveUpdated ObjectiveContract
  | ObjectiveEvidenceRecorded EvidenceContract
  | ObjectivePausedEvent
  | ObjectiveResumedEvent
  | ObjectiveCompletedEvent ObjectiveCompletionPolicy
  | ObjectiveCancelledEvent

definition apply_objective_created ::
  "json_env \<Rightarrow> EventHeader \<Rightarrow> ObjectiveContract \<Rightarrow> ReducerDraft \<Rightarrow> orch_error + ReducerDraft" where
  "apply_objective_created J event objective d =
     (let objectiveId = obj_objectiveId objective in
      bindE (same_aggregate (eh_aggregateId event) objectiveId) (\<lambda>_.
      bindE (require (obj_status objective = ObjActive) (ObjectiveError (CreatedObjectiveNotActive objectiveId))) (\<lambda>_.
      bindE (require (map_of (objectives d) objectiveId = None) (ObjectiveError (ObjectiveCreatedTwice objectiveId))) (\<lambda>_.
      bindE (assertRecordHasCapacity FieldObjectives (objectives d) MAX_ORCHESTRATION_OBJECTIVES) (\<lambda>_.
      put_objective J objectiveId \<lparr>os_objective = objective, os_taskIds = [], os_evidence = []\<rparr> d)))))"

definition apply_objective_updated ::
  "json_env \<Rightarrow> EventHeader \<Rightarrow> ObjectiveContract \<Rightarrow> ReducerDraft \<Rightarrow> orch_error + ReducerDraft" where
  "apply_objective_updated J event objective d =
     bindE (assertObjectiveUpdateTransition d (eh_aggregateId event) objective) (\<lambda>current.
     put_objective J (eh_aggregateId event) (current\<lparr>os_objective := objective\<rparr>) d)"

definition apply_objective_evidence_recorded ::
  "json_env \<Rightarrow> EventHeader \<Rightarrow> EvidenceContract \<Rightarrow> ReducerDraft \<Rightarrow> orch_error + ReducerDraft" where
  "apply_objective_evidence_recorded J event evidence d =
     bindE (assertObjectiveEvidenceTransition d (eh_aggregateId event) evidence) (\<lambda>current.
     case List.find (\<lambda>c. ev_evidenceId c = ev_evidenceId evidence) (os_evidence current) of
       Some existing \<Rightarrow>
         bindE (require (evidence_deep_equal existing evidence)
                  (ObjectiveError (EvidenceConflict (ev_evidenceId evidence)))) (\<lambda>_. Inr d)
     | None \<Rightarrow>
         bindE (assertObjectiveEvidenceHasCapacity (objectives d) current) (\<lambda>_.
         put_objective J (eh_aggregateId event) (current\<lparr>os_evidence := os_evidence current @ [evidence]\<rparr>) d))"

definition apply_objective_paused :: "json_env \<Rightarrow> EventHeader \<Rightarrow> ReducerDraft \<Rightarrow> orch_error + ReducerDraft" where
  "apply_objective_paused J event d =
     bindE (assertObjectiveStatusTransition d (eh_aggregateId event) ObjPaused None) (\<lambda>_.
     updateObjectiveStatus J (eh_aggregateId event) ObjPaused (eh_occurredAt event) d)"

definition apply_objective_resumed :: "json_env \<Rightarrow> EventHeader \<Rightarrow> ReducerDraft \<Rightarrow> orch_error + ReducerDraft" where
  "apply_objective_resumed J event d =
     bindE (assertObjectiveStatusTransition d (eh_aggregateId event) ObjActive None) (\<lambda>_.
     bindE (updateObjectiveStatus J (eh_aggregateId event) ObjActive (eh_occurredAt event) d) (\<lambda>d1.
     refreshReadyTasks J (eh_aggregateId event) (eh_occurredAt event) d1))"

definition apply_objective_completed ::
  "json_env \<Rightarrow> EventHeader \<Rightarrow> ObjectiveCompletionPolicy \<Rightarrow> ReducerDraft \<Rightarrow> orch_error + ReducerDraft" where
  "apply_objective_completed J event policy d =
     bindE (assertObjectiveStatusTransition d (eh_aggregateId event) ObjCompleted (Some policy)) (\<lambda>_.
     bindE (updateObjectiveStatus J (eh_aggregateId event) ObjCompleted (eh_occurredAt event) d) (\<lambda>d1.
     cancelOpenObjectiveWork J (eh_aggregateId event) (eh_occurredAt event) ''objective_completed'' d1))"

definition apply_objective_cancelled :: "json_env \<Rightarrow> EventHeader \<Rightarrow> ReducerDraft \<Rightarrow> orch_error + ReducerDraft" where
  "apply_objective_cancelled J event d =
     bindE (assertObjectiveStatusTransition d (eh_aggregateId event) ObjCancelled None) (\<lambda>_.
     bindE (updateObjectiveStatus J (eh_aggregateId event) ObjCancelled (eh_occurredAt event) d) (\<lambda>d1.
     cancelOpenObjectiveWork J (eh_aggregateId event) (eh_occurredAt event) ''objective_cancelled'' d1))"

fun applyObjectiveEvent ::
  "json_env \<Rightarrow> EventHeader \<Rightarrow> ObjectiveEvent \<Rightarrow> ReducerDraft \<Rightarrow> orch_error + ReducerDraft" where
  "applyObjectiveEvent J event (ObjectiveCreated objective) d = apply_objective_created J event objective d"
| "applyObjectiveEvent J event (ObjectiveUpdated objective) d = apply_objective_updated J event objective d"
| "applyObjectiveEvent J event (ObjectiveEvidenceRecorded evidence) d =
     apply_objective_evidence_recorded J event evidence d"
| "applyObjectiveEvent J event ObjectivePausedEvent d = apply_objective_paused J event d"
| "applyObjectiveEvent J event ObjectiveResumedEvent d = apply_objective_resumed J event d"
| "applyObjectiveEvent J event (ObjectiveCompletedEvent policy) d = apply_objective_completed J event policy d"
| "applyObjectiveEvent J event ObjectiveCancelledEvent d = apply_objective_cancelled J event d"

section \<open>Task events\<close>

record QueuedAttempt =
  qa_attemptId :: string
  qa_taskId :: string
  qa_dispatch :: OrchestrationDispatchRequest
  qa_grantId :: "string option"

record VerificationFinished =
  vf_taskId :: string
  vf_verifierTaskId :: string
  vf_verifierAttemptId :: string
  vf_verdict :: VerificationVerdict
  vf_reasonCode :: string
  vf_subjectAttemptId :: "string option"

datatype TaskEvent =
    TaskCreated TaskContract "HostEventSubscriptionInput list option"
  | TaskAttemptPrepared TaskContract "HostEventSubscriptionInput list option" QueuedAttempt
  | TaskReadied string
  | TaskFailedEvent string string
  | TaskVerificationFinished VerificationFinished

definition applyTaskCreated ::
  "json_env \<Rightarrow> EventHeader \<Rightarrow> TaskContract \<Rightarrow> HostEventSubscriptionInput list option \<Rightarrow> ReducerDraft \<Rightarrow> orch_error + ReducerDraft" where
  "applyTaskCreated J event task subscriptions d =
     bindE (lookupE (objectives d) (task_objectiveId task) (TaskError (TaskObjectiveUnknown (task_objectiveId task)))) (\<lambda>objective.
     bindE (validateTaskContractForState d task) (\<lambda>_.
     bindE (require (map_of (tasks d) (task_taskId task) = None) (TaskError (TaskCreatedTwice (task_taskId task)))) (\<lambda>_.
     bindE (assertRecordHasCapacity FieldTasks (tasks d) MAX_ORCHESTRATION_TASKS) (\<lambda>_.
     bindE (assertIdentifierListHasCapacity (os_taskIds objective) MAX_ORCHESTRATION_TASKS) (\<lambda>_.
     bindE (put_task J (task_taskId task) \<lparr>ts_task = task, ts_attemptIds = [], ts_verification = None\<rparr> d) (\<lambda>d1.
     bindE (put_objective J (task_objectiveId task)
              (objective\<lparr>os_taskIds := os_taskIds objective @ [task_taskId task]\<rparr>) d1) (\<lambda>d2.
     bindE (refreshReadyTasks J (task_objectiveId task) (eh_occurredAt event) d2) (\<lambda>d3.
     case subscriptions of
       None \<Rightarrow> Inr d3
     | Some inputs \<Rightarrow>
         bindE (parse_subscription_inputs J inputs) (\<lambda>_.
         replaceHostEventSubscriptions J (task_taskId task) inputs 0 (eh_ordinal event) d3)))))))))"

definition dispatch_contract_fits :: "OrchestrationDispatchRequest \<Rightarrow> WorkerRole \<Rightarrow> bool" where
  "dispatch_contract_fits dispatch role \<longleftrightarrow>
     (case dispatch_executionContract dispatch of
        None \<Rightarrow> True
      | Some contract \<Rightarrow>
          pf_profileId (wp_profile (wx_worker contract)) = dispatch_profileId dispatch \<and>
          pf_role (wp_profile (wx_worker contract)) = role)"

definition queued_attempt_state :: "QueuedAttempt \<Rightarrow> timestamp \<Rightarrow> AttemptRuntimeState" where
  "queued_attempt_state q now =
     \<lparr>att_attemptId = qa_attemptId q, att_taskId = qa_taskId q, att_dispatch = qa_dispatch q,
      att_status = AttQueued, att_reasonCode = None, att_reasonDetail = None, att_grantId = qa_grantId q,
      att_grant = None, att_agentId = None, att_lease = None, att_retry = None, att_runningModel = None,
      att_admittedTurnOrigin = None, att_checkpointIds = [], att_usageAccounting = None,
      att_usageReceipts = None, att_result = None, att_receiptAcknowledgement = None,
      att_parentWrites = None, att_verification = None, att_managedLifetime = None,
      att_executionStartedAt = None, att_createdAt = now, att_updatedAt = now\<rparr>"

text \<open>A retry pins the witnessed verdict of the generation it supersedes.\<close>

definition pin_preceding_verification :: "json_env \<Rightarrow> string \<Rightarrow> ReducerDraft \<Rightarrow> orch_error + ReducerDraft" where
  "pin_preceding_verification J taskId d =
     (case selectedTaskAttempt d taskId of
        None \<Rightarrow> Inr d
      | Some preceding \<Rightarrow>
          (case attemptVerification d preceding of
             None \<Rightarrow> Inr d
           | Some verification \<Rightarrow>
               if att_verification preceding = None
               then put_attempt J (att_attemptId preceding) (preceding\<lparr>att_verification := Some verification\<rparr>) d
               else Inr d))"

definition applyAttemptQueued ::
  "json_env \<Rightarrow> QueuedAttempt \<Rightarrow> timestamp \<Rightarrow> ReducerDraft \<Rightarrow> orch_error + ReducerDraft" where
  "applyAttemptQueued J q now d =
     (let attemptId = qa_attemptId q; taskId = qa_taskId q; dispatch = qa_dispatch q in
      bindE (lookup_task d taskId) (\<lambda>task.
      bindE (require (map_of (attempts d) attemptId = None) (AttemptError (AttemptQueuedTwice attemptId))) (\<lambda>_.
      bindE (assertRecordHasCapacity FieldAttempts (attempts d) MAX_ORCHESTRATION_ATTEMPTS) (\<lambda>_.
      bindE (assertIdentifierListHasCapacity (ts_attemptIds task) MAX_ORCHESTRATION_ATTEMPTS) (\<lambda>_.
      bindE (case activeTaskAttempt d task of
               Some active \<Rightarrow> Inl (TaskError (TaskOwnsActiveAttempt taskId (att_attemptId active)))
             | None \<Rightarrow> Inr ()) (\<lambda>_.
      bindE (lookupE (objectives d) (task_objectiveId (ts_task task))
               (ObjectiveError (ObjectiveNotActive (task_objectiveId (ts_task task))))) (\<lambda>os.
      bindE (require (obj_status (os_objective os) = ObjActive)
               (ObjectiveError (ObjectiveNotActive (task_objectiveId (ts_task task))))) (\<lambda>_.
      bindE (assertTaskAttemptBudgetForState task (os_objective os)) (\<lambda>_.
      bindE (require (task_status (ts_task task) \<in> {TaskPending, TaskReady, TaskBlocked, TaskFailed})
               (TaskError (TaskNotDispatchable taskId))) (\<lambda>_.
      bindE (require (dispatch_taskId dispatch = taskId) (AttemptError (AttemptDispatchMismatch attemptId))) (\<lambda>_.
      bindE (require (dispatch_contract_fits dispatch (task_role (ts_task task)))
               (AttemptError (AttemptContractMismatch attemptId))) (\<lambda>_.
      bindE (pin_preceding_verification J taskId d) (\<lambda>d1.
      bindE (put_attempt J attemptId (queued_attempt_state q now) d1) (\<lambda>d2.
      bindE (taskDependencyReadiness d2 (ts_task task) False) (\<lambda>readiness.
      put_task J taskId
        ((with_task_status (if readiness = DependenciesReady then TaskReady else TaskPending) now task)
           \<lparr>ts_attemptIds := ts_attemptIds task @ [attemptId]\<rparr>) d2)))))))))))))))"

definition apply_task_created ::
  "json_env \<Rightarrow> EventHeader \<Rightarrow> TaskContract \<Rightarrow> HostEventSubscriptionInput list option \<Rightarrow> ReducerDraft \<Rightarrow> orch_error + ReducerDraft" where
  "apply_task_created J event task subscriptions d =
     bindE (same_aggregate (eh_aggregateId event) (task_objectiveId task)) (\<lambda>_.
     applyTaskCreated J event task subscriptions d)"

definition apply_task_attempt_prepared ::
  "json_env \<Rightarrow> EventHeader \<Rightarrow> TaskContract \<Rightarrow> HostEventSubscriptionInput list option \<Rightarrow> QueuedAttempt \<Rightarrow>
   ReducerDraft \<Rightarrow> orch_error + ReducerDraft" where
  "apply_task_attempt_prepared J event task subscriptions q d =
     bindE (require (eh_aggregateId event = task_taskId task) (TaskError (PreparedTaskMismatch (task_taskId task)))) (\<lambda>_.
     bindE (applyTaskCreated J event task subscriptions d) (\<lambda>d1.
     applyAttemptQueued J q (eh_occurredAt event) d1))"

definition apply_task_ready :: "json_env \<Rightarrow> EventHeader \<Rightarrow> string \<Rightarrow> ReducerDraft \<Rightarrow> orch_error + ReducerDraft" where
  "apply_task_ready J event taskId d =
     bindE (same_aggregate (eh_aggregateId event) taskId) (\<lambda>_.
     bindE (lookup_task d taskId) (\<lambda>current.
     bindE (require (task_status (ts_task current) = TaskPending) (TaskError (TaskNotPending taskId))) (\<lambda>_.
     bindE (taskDependencyReadiness d (ts_task current) False) (\<lambda>readiness.
     bindE (require (readiness = DependenciesReady) (TaskError (TaskDependenciesIncomplete taskId))) (\<lambda>_.
     put_task J taskId (with_task_status TaskReady (eh_occurredAt event) current) d)))))"

definition apply_task_failed :: "json_env \<Rightarrow> EventHeader \<Rightarrow> string \<Rightarrow> string \<Rightarrow> ReducerDraft \<Rightarrow> orch_error + ReducerDraft" where
  "apply_task_failed J event taskId reasonCode d =
     bindE (assertTaskFailureTransition d (eh_aggregateId event) taskId reasonCode) (\<lambda>current.
     put_task J taskId (with_task_status TaskFailed (eh_occurredAt event) current) d)"

definition verification_subject_id ::
  "'a TaskRuntimeProjection_scheme \<Rightarrow> VerificationFinished \<Rightarrow> string option" where
  "verification_subject_id state v =
     (case vf_subjectAttemptId v of
        Some s \<Rightarrow> Some s
      | None \<Rightarrow>
          (case map_of (tasks state) (vf_verifierTaskId v) of
             None \<Rightarrow> None
           | Some verifier \<Rightarrow> map_option att_attemptId (verificationSubjectAttempt state (ts_task verifier))))"

definition verification_record :: "VerificationFinished \<Rightarrow> timestamp \<Rightarrow> VerificationRecord" where
  "verification_record v now =
     \<lparr>vr_verifierTaskId = vf_verifierTaskId v, vr_verifierAttemptId = vf_verifierAttemptId v,
      vr_verdict = vf_verdict v, vr_reasonCode = vf_reasonCode v, vr_completedAt = now\<rparr>"

definition apply_legacy_verification ::
  "json_env \<Rightarrow> EventHeader \<Rightarrow> VerificationFinished \<Rightarrow> ReducerDraft \<Rightarrow> orch_error + ReducerDraft" where
  "apply_legacy_verification J event v d =
     bindE (require (eh_aggregateId event = vf_taskId v) (VerificationError VerificationSubjectUnknown)) (\<lambda>_.
     bindE (lookupE (tasks d) (vf_taskId v) (VerificationError VerificationSubjectUnknown)) (\<lambda>current.
     bindE (assertVerificationRecord d (vf_taskId v) (verification_record v (eh_occurredAt event)) None) (\<lambda>_.
     put_task J (vf_taskId v)
       ((with_task_status (if vf_verdict v = VerdictAccepted then TaskCompleted else TaskBlocked)
           (eh_occurredAt event) current)
          \<lparr>ts_verification := Some (verification_record v (eh_occurredAt event))\<rparr>) d)))"

definition apply_attempt_verification ::
  "json_env \<Rightarrow> EventHeader \<Rightarrow> VerificationFinished \<Rightarrow> string \<Rightarrow> ReducerDraft \<Rightarrow> orch_error + ReducerDraft" where
  "apply_attempt_verification J event v subjectAttemptId d =
     bindE (assertVerificationTransition d (eh_aggregateId event)
              \<lparr>vt_taskId = vf_taskId v, vt_subjectAttemptId = subjectAttemptId,
               vt_verifierTaskId = vf_verifierTaskId v, vt_verifierAttemptId = vf_verifierAttemptId v,
               vt_verdict = vf_verdict v, vt_reasonCode = vf_reasonCode v\<rparr>) (\<lambda>(subject, subjectAttempt).
     bindE (put_attempt J subjectAttemptId
              (subjectAttempt\<lparr>att_verification :=
                 Some (VerificationRecord.extend (verification_record v (eh_occurredAt event))
                         \<lparr>av_subjectAttemptId = subjectAttemptId\<rparr>)\<rparr>) d) (\<lambda>d1.
     let status = taskStatusWithVerification (task_status (ts_task subject)) (Some (vf_verdict v)) in
     if is_selected d1 (vf_taskId v) subjectAttemptId \<and> status \<noteq> task_status (ts_task subject)
     then put_task J (vf_taskId v) (with_task_status status (eh_occurredAt event) subject) d1
     else Inr d1))"

definition apply_verification_finished ::
  "json_env \<Rightarrow> EventHeader \<Rightarrow> VerificationFinished \<Rightarrow> ReducerDraft \<Rightarrow> orch_error + ReducerDraft" where
  "apply_verification_finished J event v d =
     bindE (case verification_subject_id d v of
              Some s \<Rightarrow> if s = [] then apply_legacy_verification J event v d
                         else apply_attempt_verification J event v s d
            | None \<Rightarrow> apply_legacy_verification J event v d) (\<lambda>d1.
     bindE (lookup_task d1 (vf_taskId v)) (\<lambda>task.
     refreshReadyTasks J (task_objectiveId (ts_task task)) (eh_occurredAt event) d1))"

fun applyTaskEvent :: "json_env \<Rightarrow> EventHeader \<Rightarrow> TaskEvent \<Rightarrow> ReducerDraft \<Rightarrow> orch_error + ReducerDraft" where
  "applyTaskEvent J event (TaskCreated task subscriptions) d = apply_task_created J event task subscriptions d"
| "applyTaskEvent J event (TaskAttemptPrepared task subscriptions q) d =
     apply_task_attempt_prepared J event task subscriptions q d"
| "applyTaskEvent J event (TaskReadied taskId) d = apply_task_ready J event taskId d"
| "applyTaskEvent J event (TaskFailedEvent taskId reasonCode) d = apply_task_failed J event taskId reasonCode d"
| "applyTaskEvent J event (TaskVerificationFinished v) d = apply_verification_finished J event v d"

end
