(* ===== verification/Attempt_Events.thy ===== *)
theory Attempt_Events
  imports Task_Events
begin

text \<open>
  The agent and attempt handlers of \<open>reduceOrchestrationEvent\<close>
  (\<open>core/orchestration/task-runtime-reducer.ts\<close>): registration, retirement and resumption of agents, and
  the life of an attempt from its grant over leases, checkpoints, usage and outboxes to its end.
\<close>

section \<open>Agent events\<close>

datatype AgentEvent =
    AgentRegisteredEvent AgentBindingContract
  | AgentRetiredEvent string
  | AgentSuspendedEvent string
  | AgentResumeRequested string string
  | AgentResumedEvent string

definition assertAgentLineage :: "'a TaskRuntimeProjection_scheme \<Rightarrow> AgentBindingContract \<Rightarrow> orch_error + unit" where
  "assertAgentLineage state agent =
     (case agent_parentAgentId agent of
        Some parentId \<Rightarrow>
          if parentId = []
          then require (agent_rootAgentId agent = agent_agentId agent \<and> agent_depth agent = 0)
                 (AgentError (AgentLineageConflict (agent_agentId agent)))
          else
            bindE (lookupE (agents state) parentId (AgentError (ParentAgentUnknown parentId))) (\<lambda>parent.
            bindE (require (agent_status parent \<noteq> AgentRetired) (AgentError (ParentAgentRetired parentId))) (\<lambda>_.
            require (agent_rootAgentId agent = agent_rootAgentId parent \<and> agent_depth agent = agent_depth parent + 1)
              (AgentError (AgentLineageConflict (agent_agentId agent)))))
      | None \<Rightarrow> require (agent_rootAgentId agent = agent_agentId agent \<and> agent_depth agent = 0)
                 (AgentError (AgentLineageConflict (agent_agentId agent))))"

definition apply_agent_registered ::
  "json_env \<Rightarrow> EventHeader \<Rightarrow> AgentBindingContract \<Rightarrow> ReducerDraft \<Rightarrow> orch_error + ReducerDraft" where
  "apply_agent_registered J event agent d =
     (let agentId = agent_agentId agent in
      bindE (same_aggregate (eh_aggregateId event) agentId) (\<lambda>_.
      bindE (require (agent_status agent = AgentRegistered \<and> \<not> truthy (agent_activeAttemptId agent))
               (AgentError (AgentNotIdleAtRegistration agentId))) (\<lambda>_.
      bindE (require (map_of (agents d) agentId = None) (AgentError (AgentRegisteredTwice agentId))) (\<lambda>_.
      bindE (assertRecordHasCapacity FieldAgents (agents d) MAX_ORCHESTRATION_AGENT_BINDINGS) (\<lambda>_.
      bindE (assertAgentLineage d agent) (\<lambda>_.
      put_agent J agentId agent d))))))"

definition apply_agent_retired :: "json_env \<Rightarrow> EventHeader \<Rightarrow> string \<Rightarrow> ReducerDraft \<Rightarrow> orch_error + ReducerDraft" where
  "apply_agent_retired J event agentId d =
     bindE (same_aggregate (eh_aggregateId event) agentId) (\<lambda>_.
     bindE (assertAgentRetirementEligible d agentId) (\<lambda>agent.
     if agent_status agent = AgentRetired then Inr d
     else put_agent J agentId (agent\<lparr>agent_status := AgentRetired, agent_updatedAt := eh_occurredAt event\<rparr>) d))"

text \<open>Standalone suspension and resumption are always refused; only the error depends on the agent.\<close>

definition refuse_standalone ::
  "agent_error \<Rightarrow> EventHeader \<Rightarrow> string \<Rightarrow> ReducerDraft \<Rightarrow> orch_error + ReducerDraft" where
  "refuse_standalone refusal event agentId d =
     bindE (same_aggregate (eh_aggregateId event) agentId) (\<lambda>_.
     bindE (lookup_agent d agentId) (\<lambda>agent.
     bindE (assertAgentNotRetired agent) (\<lambda>_.
     Inl (AgentError refusal))))"

definition apply_agent_resume_requested ::
  "json_env \<Rightarrow> EventHeader \<Rightarrow> string \<Rightarrow> string \<Rightarrow> ReducerDraft \<Rightarrow> orch_error + ReducerDraft" where
  "apply_agent_resume_requested J event agentId attemptId d =
     bindE (same_aggregate (eh_aggregateId event) agentId) (\<lambda>_.
     bindE (lookup_agent d agentId) (\<lambda>agent.
     bindE (assertAgentNotRetired agent) (\<lambda>_.
     bindE (lookupE (attempts d) attemptId (AgentError (AgentCannotResume agentId attemptId))) (\<lambda>attempt.
     bindE (require (att_status attempt = AttSuspended \<and> att_agentId attempt = Some agentId \<and>
                     agent_activeAttemptId agent = Some attemptId)
              (AgentError (AgentCannotResume agentId attemptId))) (\<lambda>_.
     if agent_status agent = AgentResuming then Inr d
     else
       bindE (require (agent_status agent = AgentSuspended) (AgentError (AgentNotSuspended agentId))) (\<lambda>_.
       bindE (require (js_is_finite (date_parse (eh_occurredAt event))) (AttemptError EventTimeInvalid)) (\<lambda>_.
       bindE (assertRetryBackoffElapsedAt attempt (date_parse (eh_occurredAt event))) (\<lambda>_.
       bindE (requireActiveObjectiveForAttemptInProjection d attempt) (\<lambda>_.
       put_agent J agentId (agent\<lparr>agent_status := AgentResuming, agent_updatedAt := eh_occurredAt event\<rparr>) d)))))))))"

fun applyAgentEvent :: "json_env \<Rightarrow> EventHeader \<Rightarrow> AgentEvent \<Rightarrow> ReducerDraft \<Rightarrow> orch_error + ReducerDraft" where
  "applyAgentEvent J event (AgentRegisteredEvent agent) d = apply_agent_registered J event agent d"
| "applyAgentEvent J event (AgentRetiredEvent agentId) d = apply_agent_retired J event agentId d"
| "applyAgentEvent J event (AgentSuspendedEvent agentId) d = refuse_standalone StandaloneSuspension event agentId d"
| "applyAgentEvent J event (AgentResumeRequested agentId attemptId) d =
     apply_agent_resume_requested J event agentId attemptId d"
| "applyAgentEvent J event (AgentResumedEvent agentId) d = refuse_standalone StandaloneResume event agentId d"

section \<open>Attempt events: execution\<close>

definition apply_attempt_queued ::
  "json_env \<Rightarrow> EventHeader \<Rightarrow> QueuedAttempt \<Rightarrow> ReducerDraft \<Rightarrow> orch_error + ReducerDraft" where
  "apply_attempt_queued J event q d =
     bindE (same_aggregate (eh_aggregateId event) (qa_taskId q)) (\<lambda>_.
     applyAttemptQueued J q (eh_occurredAt event) d)"

definition apply_grant_bound ::
  "json_env \<Rightarrow> EventHeader \<Rightarrow> string \<Rightarrow> ExecutionGrant \<Rightarrow> ReducerDraft \<Rightarrow> orch_error + ReducerDraft" where
  "apply_grant_bound J event attemptId grant d =
     bindE (assertAttemptGrantTransition d (eh_aggregateId event) attemptId grant) (\<lambda>attempt.
     put_attempt J attemptId
       (attempt\<lparr>att_grantId := Some (grant_grantId grant), att_grant := Some grant,
                att_updatedAt := eh_occurredAt event\<rparr>) d)"

definition apply_attempt_leased ::
  "json_env \<Rightarrow> EventHeader \<Rightarrow> AttemptLease \<Rightarrow> string option \<Rightarrow> ReducerDraft \<Rightarrow> orch_error + ReducerDraft" where
  "apply_attempt_leased J event lease agentId d =
     (let now = eh_occurredAt event; attemptId = lease_attemptId lease in
      bindE (assertAttemptLeaseTransition d (eh_aggregateId event) lease agentId now) (\<lambda>attempt.
      bindE (if truthy agentId
             then bindE (lookup_agent d (the agentId)) (\<lambda>agent.
                  put_agent J (the agentId)
                    (agent\<lparr>agent_status := AgentActive, agent_activeAttemptId := Some attemptId,
                           agent_updatedAt := now\<rparr>) d)
             else Inr d) (\<lambda>d1.
      bindE (put_attempt J attemptId
               (attempt\<lparr>att_status := AttLeased, att_lease := Some lease,
                  att_agentId := (if truthy agentId then agentId else att_agentId attempt),
                  att_executionStartedAt := (case att_executionStartedAt attempt of Some t \<Rightarrow> Some t | None \<Rightarrow> Some now),
                  att_updatedAt := now\<rparr>) d1) (\<lambda>d2.
      bindE (lookup_task d2 (att_taskId attempt)) (\<lambda>task.
      put_task J (att_taskId attempt) (with_task_status TaskRunning now task) d2)))))"

definition apply_attempt_started ::
  "json_env \<Rightarrow> EventHeader \<Rightarrow> string \<Rightarrow> string \<Rightarrow> nat \<Rightarrow> ReducerDraft \<Rightarrow> orch_error + ReducerDraft" where
  "apply_attempt_started J event attemptId leaseId fencingToken d =
     bindE (assertAttemptStartTransition d (eh_aggregateId event) attemptId leaseId fencingToken (eh_occurredAt event)) (\<lambda>attempt.
     put_attempt J attemptId (attempt\<lparr>att_status := AttRunning, att_updatedAt := eh_occurredAt event\<rparr>) d)"

definition apply_lease_renewed ::
  "json_env \<Rightarrow> EventHeader \<Rightarrow> string \<Rightarrow> string \<Rightarrow> nat \<Rightarrow> timestamp \<Rightarrow> ReducerDraft \<Rightarrow> orch_error + ReducerDraft" where
  "apply_lease_renewed J event attemptId leaseId fencingToken expiresAt d =
     bindE (assertAttemptLeaseRenewalTransition d (eh_aggregateId event) attemptId leaseId fencingToken expiresAt
              (eh_occurredAt event)) (\<lambda>attempt.
     put_attempt J attemptId
       (attempt\<lparr>att_lease := Some ((the (att_lease attempt))\<lparr>lease_expiresAt := expiresAt\<rparr>),
                att_updatedAt := eh_occurredAt event\<rparr>) d)"

definition fenced_attempt ::
  "'a TaskRuntimeProjection_scheme \<Rightarrow> EventHeader \<Rightarrow> string \<Rightarrow> string \<Rightarrow> nat \<Rightarrow> orch_error + AttemptRuntimeState" where
  "fenced_attempt state event attemptId leaseId fencingToken =
     bindE (same_aggregate (eh_aggregateId event) attemptId) (\<lambda>_.
     bindE (lookup_attempt state attemptId) (\<lambda>attempt.
     bindE (require (lease_matches attempt leaseId fencingToken) (AttemptError (AttemptLeaseStale attemptId))) (\<lambda>_.
     Inr attempt)))"

definition apply_model_moved ::
  "json_env \<Rightarrow> EventHeader \<Rightarrow> string \<Rightarrow> string \<Rightarrow> nat \<Rightarrow> OrchestrationModelBinding \<Rightarrow> ReducerDraft \<Rightarrow> orch_error + ReducerDraft" where
  "apply_model_moved J event attemptId leaseId fencingToken model d =
     bindE (fenced_attempt d event attemptId leaseId fencingToken) (\<lambda>attempt.
     put_attempt J attemptId (attempt\<lparr>att_runningModel := Some model, att_updatedAt := eh_occurredAt event\<rparr>) d)"

definition apply_third_party_admitted ::
  "json_env \<Rightarrow> EventHeader \<Rightarrow> string \<Rightarrow> string \<Rightarrow> nat \<Rightarrow> TurnOriginRecord \<Rightarrow> ReducerDraft \<Rightarrow> orch_error + ReducerDraft" where
  "apply_third_party_admitted J event attemptId leaseId fencingToken turnOrigin d =
     bindE (fenced_attempt d event attemptId leaseId fencingToken) (\<lambda>attempt.
     if att_admittedTurnOrigin attempt \<noteq> None \<or> third_party (dispatch_turnOrigin (att_dispatch attempt)) then Inr d
     else put_attempt J attemptId
            (attempt\<lparr>att_admittedTurnOrigin := Some turnOrigin, att_updatedAt := eh_occurredAt event\<rparr>) d)"

definition apply_attempt_checkpointed ::
  "json_env \<Rightarrow> EventHeader \<Rightarrow> AttemptCheckpoint \<Rightarrow> string \<Rightarrow> ReducerDraft \<Rightarrow> orch_error + ReducerDraft" where
  "apply_attempt_checkpointed J event checkpoint leaseId d =
     (let now = eh_occurredAt event; checkpointId = ck_checkpointId checkpoint in
      bindE (assertAttemptCheckpointTransition d (eh_aggregateId event) checkpoint leaseId now) (\<lambda>attempt.
      bindE (require (map_of (checkpoints d) checkpointId = None) (AttemptError (CheckpointRecordedTwice checkpointId))) (\<lambda>_.
      bindE (assertIdentifierListHasCapacity (att_checkpointIds attempt) MAX_ORCHESTRATION_CHECKPOINTS) (\<lambda>_.
      bindE (assertRecordHasCapacity FieldCheckpoints (checkpoints d) MAX_ORCHESTRATION_CHECKPOINTS) (\<lambda>_.
      bindE (put_checkpoint J checkpointId checkpoint d) (\<lambda>d1.
      bindE (put_attempt J (ck_attemptId checkpoint)
               (attempt\<lparr>att_checkpointIds := att_checkpointIds attempt @ [checkpointId], att_updatedAt := now\<rparr>) d1) (\<lambda>d2.
      if \<not> truthy (att_agentId attempt) then Inr d2
      else case map_of (agents d2) (the (att_agentId attempt)) of
        None \<Rightarrow> Inr d2
      | Some agent \<Rightarrow>
          bindE (assertAgentNotRetired agent) (\<lambda>_.
          put_agent J (the (att_agentId attempt))
            (agent\<lparr>agent_resumeContext := (agent_resumeContext agent)\<lparr>rc_latestCheckpointId := Some checkpointId\<rparr>,
                   agent_updatedAt := now\<rparr>) d2))))))))"

section \<open>Attempt events: usage and outboxes\<close>

definition lift_usage :: "usage_error + 'a \<Rightarrow> orch_error + 'a" where
  "lift_usage m = mapE UsageError m"

definition usage_billable :: "AttemptUsageSnapshot \<Rightarrow> bool" where
  "usage_billable increase \<longleftrightarrow>
     js_lt (Fin 0) (inputTokens increase) \<or> js_lt (Fin 0) (outputTokens increase) \<or>
     js_lt (Fin 0) (cacheReadTokens increase) \<or> js_lt (Fin 0) (cacheWriteTokens increase) \<or>
     js_lt (Fin 0) (totalTokens increase) \<or> js_lt (Fin 0) (costUsd increase)"

definition opt_record :: "'v js_record option \<Rightarrow> 'v js_record" where
  "opt_record m = (case m of Some r \<Rightarrow> r | None \<Rightarrow> [])"

text \<open>The common end of \<open>attempt.usage_registered\<close> and \<open>attempt.usage_recorded\<close>.\<close>

definition store_usage ::
  "json_env \<Rightarrow> EventHeader \<Rightarrow> AttemptRuntimeState \<Rightarrow> string \<Rightarrow> AttemptUsageGenerationIdentity \<Rightarrow>
   AttemptUsageAccounting \<Rightarrow> ReducerDraft \<Rightarrow> orch_error + ReducerDraft" where
  "store_usage J event attempt attemptId identity accounting d =
     (let previous = (case att_usageAccounting attempt of Some a \<Rightarrow> acct_total a | None \<Rightarrow> EMPTY_ATTEMPT_USAGE) in
      bindE (lift_usage (attemptUsageIncrease (acct_total accounting) previous)) (\<lambda>increase.
      let billable = usage_billable increase in
      bindE (dispatchIdentifier (eh_eventId event)) (\<lambda>receiptKey.
      bindE (require (\<not> (billable \<and> map_of (opt_record (att_usageReceipts attempt)) receiptKey \<noteq> None))
               (AttemptError UsageReceiptReused)) (\<lambda>_.
      put_attempt J attemptId
        (attempt\<lparr>att_usageAccounting := Some accounting,
           att_usageReceipts := (if billable
             then Some (js_set receiptKey
                    \<lparr>ur_receiptId = receiptKey, ur_leaseId = gid_leaseId identity,
                     ur_fencingToken = gid_fencingToken identity,
                     ur_kind = (if att_usageAccounting attempt = None then ReceiptBaseline else ReceiptIncrease),
                     ur_usage = increase, ur_recordedAt = eh_occurredAt event\<rparr>
                    (opt_record (att_usageReceipts attempt)))
             else att_usageReceipts attempt)\<rparr>) d))))"

definition apply_usage_registered ::
  "json_env \<Rightarrow> EventHeader \<Rightarrow> string \<Rightarrow> AttemptUsageGenerationIdentity \<Rightarrow> AttemptUsageSnapshot option \<Rightarrow>
   ReducerDraft \<Rightarrow> orch_error + ReducerDraft" where
  "apply_usage_registered J event attemptId identity baseline d =
     bindE (same_aggregate (eh_aggregateId event) attemptId) (\<lambda>_.
     bindE (lookup_attempt d attemptId) (\<lambda>attempt.
     bindE (assertRunningAttemptLease d attemptId (gid_leaseId identity) (gid_fencingToken identity) (eh_occurredAt event)) (\<lambda>_.
     bindE (lift_usage (beginAttemptUsageGeneration (att_usageAccounting attempt) identity baseline)) (\<lambda>accounting.
     store_usage J event attempt attemptId identity accounting d))))"

definition apply_usage_recorded ::
  "json_env \<Rightarrow> EventHeader \<Rightarrow> string \<Rightarrow> AttemptUsageGenerationIdentity \<Rightarrow> AttemptUsageSnapshot \<Rightarrow>
   ReducerDraft \<Rightarrow> orch_error + ReducerDraft" where
  "apply_usage_recorded J event attemptId identity usage d =
     bindE (same_aggregate (eh_aggregateId event) attemptId) (\<lambda>_.
     bindE (lookup_attempt d attemptId) (\<lambda>attempt.
     case att_usageAccounting attempt of
       None \<Rightarrow> Inl (AttemptError UsageNotRegistered)
     | Some current \<Rightarrow>
         bindE (lift_usage (recordAttemptGenerationUsage current identity usage)) (\<lambda>accounting.
         store_usage J event attempt attemptId identity accounting d)))"

definition apply_receipts_delivered ::
  "json_env \<Rightarrow> EventHeader \<Rightarrow> string \<Rightarrow> WorkerReceiptAcknowledgement \<Rightarrow> ReducerDraft \<Rightarrow> orch_error + ReducerDraft" where
  "apply_receipts_delivered J event attemptId acknowledgement d =
     bindE (same_aggregate (eh_aggregateId event) attemptId) (\<lambda>_.
     bindE (lookupE (attempts d) attemptId (AttemptError ReceiptAcknowledgementInvalid)) (\<lambda>attempt.
     bindE (assertWorkerReceiptAcknowledgement (je_hash J) d attempt acknowledgement) (\<lambda>_.
     put_attempt J attemptId (attempt\<lparr>att_receiptAcknowledgement := Some acknowledgement\<rparr>) d)))"

definition apply_parent_write_recorded ::
  "json_env \<Rightarrow> EventHeader \<Rightarrow> string \<Rightarrow> string \<Rightarrow> AttemptParentWriteBody \<Rightarrow> ReducerDraft \<Rightarrow> orch_error + ReducerDraft" where
  "apply_parent_write_recorded J event attemptId writeId body d =
     bindE (same_aggregate (eh_aggregateId event) attemptId) (\<lambda>_.
     bindE (lookup_attempt d attemptId) (\<lambda>attempt.
     let writes = opt_record (att_parentWrites attempt) in
     bindE (require (map_of writes writeId = None) (AttemptError (ParentWriteRecordedTwice writeId))) (\<lambda>_.
     bindE (require (\<not> MAX_ORCHESTRATION_ATTEMPT_PARENT_WRITES \<le> length writes)
              (AttemptError (ParentWritesFull attemptId))) (\<lambda>_.
     put_attempt J attemptId
       (attempt\<lparr>att_parentWrites := Some (js_set writeId
          \<lparr>pw_writeId = writeId, pw_sequence = eh_ordinal event, pw_body = body,
           pw_recordedAt = eh_occurredAt event\<rparr> writes)\<rparr>) d))))"

definition apply_parent_write_imported ::
  "json_env \<Rightarrow> EventHeader \<Rightarrow> string \<Rightarrow> string \<Rightarrow> ReducerDraft \<Rightarrow> orch_error + ReducerDraft" where
  "apply_parent_write_imported J event attemptId writeId d =
     bindE (same_aggregate (eh_aggregateId event) attemptId) (\<lambda>_.
     bindE (lookupE (attempts d) attemptId (AttemptError ParentWriteUnknown)) (\<lambda>attempt.
     bindE (require (map_of (opt_record (att_parentWrites attempt)) writeId \<noteq> None) (AttemptError ParentWriteUnknown)) (\<lambda>_.
     let remaining = js_delete writeId (opt_record (att_parentWrites attempt)) in
     put_attempt J attemptId
       (attempt\<lparr>att_parentWrites := (if remaining \<noteq> [] then Some remaining else None)\<rparr>) d)))"

definition apply_usage_delivered ::
  "json_env \<Rightarrow> EventHeader \<Rightarrow> string \<Rightarrow> string \<Rightarrow> ReducerDraft \<Rightarrow> orch_error + ReducerDraft" where
  "apply_usage_delivered J event attemptId receiptKey d =
     bindE (same_aggregate (eh_aggregateId event) attemptId) (\<lambda>_.
     bindE (lookupE (attempts d) attemptId (AttemptError UsageReceiptUnknown)) (\<lambda>attempt.
     bindE (require (map_of (opt_record (att_usageReceipts attempt)) receiptKey \<noteq> None) (AttemptError UsageReceiptUnknown)) (\<lambda>_.
     put_attempt J attemptId
       (attempt\<lparr>att_usageReceipts := Some (js_delete receiptKey (opt_record (att_usageReceipts attempt)))\<rparr>) d)))"

section \<open>Attempt events: suspension and end\<close>

definition apply_attempt_suspended ::
  "json_env \<Rightarrow> EventHeader \<Rightarrow> string \<Rightarrow> string \<Rightarrow> nat \<Rightarrow> string option \<Rightarrow> AttemptRetryState option \<Rightarrow>
   ReducerDraft \<Rightarrow> orch_error + ReducerDraft" where
  "apply_attempt_suspended J event attemptId leaseId fencingToken reasonCode retry d =
     (let now = eh_occurredAt event in
      bindE (fenced_attempt d event attemptId leaseId fencingToken) (\<lambda>attempt.
      bindE (require (att_status attempt = AttLeased \<or> att_status attempt = AttRunning)
               (AttemptError (AttemptStatusInvalid attemptId (att_status attempt)))) (\<lambda>_.
      bindE (require (truthy (att_agentId attempt)) (AttemptError (AttemptUnbound attemptId))) (\<lambda>_.
      bindE (case retry of
               None \<Rightarrow> Inr ()
             | Some r \<Rightarrow>
                 bindE (require (retry_retriesUsed r =
                           (case att_retry attempt of Some p \<Rightarrow> retry_retriesUsed p | None \<Rightarrow> 0) + 1)
                          (AttemptError (AttemptRetryNotMonotonic attemptId))) (\<lambda>_.
                 require (\<not> js_le (date_parse (retry_notBefore r)) (date_parse now))
                   (AttemptError AttemptRetryDeadline))) (\<lambda>_.
      bindE (put_attempt J attemptId
               (attempt\<lparr>att_status := AttSuspended,
                  att_reasonCode := (case reasonCode of Some c \<Rightarrow> Some c | None \<Rightarrow> att_reasonCode attempt),
                  att_retry := (case retry of Some r \<Rightarrow> Some r | None \<Rightarrow> att_retry attempt),
                  att_updatedAt := now\<rparr>) d) (\<lambda>d1.
      case map_of (agents d1) (the (att_agentId attempt)) of
        None \<Rightarrow> Inr d1
      | Some agent \<Rightarrow>
          bindE (assertAgentNotRetired agent) (\<lambda>_.
          put_agent J (the (att_agentId attempt))
            (agent\<lparr>agent_status := AgentSuspended, agent_updatedAt := now\<rparr>) d1)))))))"

definition applyAttemptResumed ::
  "json_env \<Rightarrow> EventHeader \<Rightarrow> AttemptLease \<Rightarrow> string \<Rightarrow> ReducerDraft \<Rightarrow> orch_error + ReducerDraft" where
  "applyAttemptResumed J event lease agentId d =
     (let now = eh_occurredAt event; attemptId = lease_attemptId lease in
      bindE (same_aggregate (eh_aggregateId event) attemptId) (\<lambda>_.
      bindE (lookupE (attempts d) attemptId (AgentError (AgentNotResuming agentId attemptId))) (\<lambda>attempt.
      bindE (require (att_status attempt = AttSuspended \<and> att_agentId attempt = Some agentId)
               (AgentError (AgentNotResuming agentId attemptId))) (\<lambda>_.
      bindE (lookupE (agents d) agentId (AgentError (AgentNotResuming agentId attemptId))) (\<lambda>agent.
      bindE (require (agent_status agent = AgentResuming \<and> agent_activeAttemptId agent = Some attemptId)
               (AgentError (AgentNotResuming agentId attemptId))) (\<lambda>_.
      bindE (assertAgentNotRetired agent) (\<lambda>_.
      bindE (require (lease_fencingToken lease = lease_fence attempt + 1)
               (AttemptError (AttemptFenceNotMonotonic attemptId))) (\<lambda>_.
      bindE (require (js_is_finite (date_parse now)) (AttemptError EventTimeInvalid)) (\<lambda>_.
      bindE (assertRetryBackoffElapsedAt attempt (date_parse now)) (\<lambda>_.
      bindE (require (lease_dates_valid lease now) (AttemptError (AttemptLeaseDatesInvalid attemptId))) (\<lambda>_.
      bindE (requireActiveObjectiveForAttemptInProjection d attempt) (\<lambda>_.
      bindE (put_attempt J attemptId
               (attempt\<lparr>att_status := AttLeased, att_agentId := Some agentId, att_lease := Some lease,
                        att_updatedAt := now\<rparr>) d) (\<lambda>d1.
      put_agent J agentId
        (agent\<lparr>agent_status := AgentActive, agent_activeAttemptId := Some attemptId, agent_updatedAt := now\<rparr>) d1)))))))))))))"

definition apply_attempt_cancelled ::
  "json_env \<Rightarrow> EventHeader \<Rightarrow> string \<Rightarrow> string \<Rightarrow> string option \<Rightarrow> ReducerDraft \<Rightarrow> orch_error + ReducerDraft" where
  "apply_attempt_cancelled J event attemptId reasonCode reasonDetail d =
     (let now = eh_occurredAt event in
      bindE (same_aggregate (eh_aggregateId event) attemptId) (\<lambda>_.
      bindE (lookup_attempt d attemptId) (\<lambda>attempt.
      bindE (require (\<not> terminalAttemptStatus (att_status attempt))
               (AttemptError (AttemptStatusInvalid attemptId (att_status attempt)))) (\<lambda>_.
      bindE (put_attempt J attemptId
               (withoutAttemptRetry (attempt\<lparr>att_status := AttCancelled, att_reasonCode := Some reasonCode,
                  att_reasonDetail := (case reasonDetail of Some r \<Rightarrow> Some r | None \<Rightarrow> att_reasonDetail attempt),
                  att_updatedAt := now\<rparr>)) d) (\<lambda>d1.
      bindE (case map_of (tasks d1) (att_taskId attempt) of
               None \<Rightarrow> Inr d1
             | Some task \<Rightarrow> put_task J (att_taskId attempt) (with_task_status TaskCancelled now task) d1) (\<lambda>d2.
      releaseAttemptAgent J attempt now d2))))))"

definition apply_managed_lifecycle ::
  "json_env \<Rightarrow> EventHeader \<Rightarrow> string \<Rightarrow> ManagedLaneLifetime \<Rightarrow> nat \<Rightarrow> string \<Rightarrow> ReducerDraft \<Rightarrow> orch_error + ReducerDraft" where
  "apply_managed_lifecycle J event attemptId lifetime dispatchSequence logicalLaneId d =
     bindE (same_aggregate (eh_aggregateId event) attemptId) (\<lambda>_.
     bindE (assertManagedLifetimeTransition d attemptId logicalLaneId dispatchSequence lifetime) (\<lambda>attempt.
     if att_managedLifetime attempt = Some lifetime then Inr d
     else put_attempt J attemptId
            (attempt\<lparr>att_managedLifetime := Some lifetime, att_updatedAt := eh_occurredAt event\<rparr>) d))"

definition apply_attempt_finished ::
  "json_env \<Rightarrow> EventHeader \<Rightarrow> WorkerResultContract \<Rightarrow> ReducerDraft \<Rightarrow> orch_error + ReducerDraft" where
  "apply_attempt_finished J event result d =
     (let now = eh_occurredAt event in
      bindE (assertAttemptFinishTransition d (eh_aggregateId event) result now) (\<lambda>(attempt, task).
      bindE (put_attempt J (res_attemptId result)
               (withoutAttemptRetry (attempt\<lparr>att_status := result_attempt_status (res_status result),
                  att_result := Some result, att_updatedAt := now\<rparr>)) d) (\<lambda>d1.
      bindE (put_task J (res_taskId result) (with_task_status (taskStatusForResult (res_status result)) now task) d1) (\<lambda>d2.
      bindE (releaseAttemptAgent J attempt now d2) (\<lambda>d3.
      refreshReadyTasks J (task_objectiveId (ts_task task)) now d3)))))"

definition apply_lease_expired ::
  "json_env \<Rightarrow> EventHeader \<Rightarrow> string \<Rightarrow> string \<Rightarrow> nat \<Rightarrow> string option \<Rightarrow> ReducerDraft \<Rightarrow> orch_error + ReducerDraft" where
  "apply_lease_expired J event attemptId leaseId fencingToken reasonCode d =
     (let now = eh_occurredAt event in
      bindE (same_aggregate (eh_aggregateId event) attemptId) (\<lambda>_.
      bindE (lookup_attempt d attemptId) (\<lambda>attempt.
      bindE (require (\<not> ((att_status attempt \<noteq> AttLeased \<and> att_status attempt \<noteq> AttRunning) \<or>
                          att_lease attempt = None \<or> truthy (att_agentId attempt)))
               (AttemptError (AttemptStatusInvalid attemptId (att_status attempt)))) (\<lambda>_.
      bindE (require (lease_matches attempt leaseId fencingToken) (AttemptError (AttemptLeaseStale attemptId))) (\<lambda>_.
      bindE (put_attempt J attemptId
               (withoutAttemptRetry (attempt\<lparr>att_status := AttExpired,
                  att_reasonCode := (case reasonCode of Some c \<Rightarrow> Some c | None \<Rightarrow> att_reasonCode attempt),
                  att_updatedAt := now\<rparr>)) d) (\<lambda>d1.
      case map_of (tasks d1) (att_taskId attempt) of
        None \<Rightarrow> Inr d1
      | Some task \<Rightarrow> put_task J (att_taskId attempt) (with_task_status TaskReady now task) d1))))))"

datatype AttemptEvent =
    AttemptQueuedEvent QueuedAttempt
  | GrantBound string ExecutionGrant
  | AttemptLeasedEvent AttemptLease "string option"
  | AttemptStarted string string nat
  | LeaseRenewed string string nat timestamp
  | ModelMoved string string nat OrchestrationModelBinding
  | ThirdPartyAdmitted string string nat TurnOriginRecord
  | AttemptCheckpointed AttemptCheckpoint string
  | UsageRegistered string AttemptUsageGenerationIdentity "AttemptUsageSnapshot option"
  | UsageRecorded string AttemptUsageGenerationIdentity AttemptUsageSnapshot
  | ReceiptsDelivered string WorkerReceiptAcknowledgement
  | ParentWriteRecorded string string AttemptParentWriteBody
  | ParentWriteImported string string
  | UsageDelivered string string
  | AttemptSuspendedEvent string string nat "string option" "AttemptRetryState option"
  | AttemptResumedEvent AttemptLease string
  | AttemptCancelledEvent string string "string option"
  | ManagedLifecycle string ManagedLaneLifetime nat string
  | AttemptFinished WorkerResultContract
  | LeaseExpired string string nat "string option"

fun applyAttemptEvent :: "json_env \<Rightarrow> EventHeader \<Rightarrow> AttemptEvent \<Rightarrow> ReducerDraft \<Rightarrow> orch_error + ReducerDraft" where
  "applyAttemptEvent J event (AttemptQueuedEvent q) d = apply_attempt_queued J event q d"
| "applyAttemptEvent J event (GrantBound a grant) d = apply_grant_bound J event a grant d"
| "applyAttemptEvent J event (AttemptLeasedEvent lease agentId) d = apply_attempt_leased J event lease agentId d"
| "applyAttemptEvent J event (AttemptStarted a l f) d = apply_attempt_started J event a l f d"
| "applyAttemptEvent J event (LeaseRenewed a l f expiresAt) d = apply_lease_renewed J event a l f expiresAt d"
| "applyAttemptEvent J event (ModelMoved a l f model) d = apply_model_moved J event a l f model d"
| "applyAttemptEvent J event (ThirdPartyAdmitted a l f origin) d = apply_third_party_admitted J event a l f origin d"
| "applyAttemptEvent J event (AttemptCheckpointed checkpoint l) d = apply_attempt_checkpointed J event checkpoint l d"
| "applyAttemptEvent J event (UsageRegistered a identity baseline) d =
     apply_usage_registered J event a identity baseline d"
| "applyAttemptEvent J event (UsageRecorded a identity usage) d = apply_usage_recorded J event a identity usage d"
| "applyAttemptEvent J event (ReceiptsDelivered a acknowledgement) d =
     apply_receipts_delivered J event a acknowledgement d"
| "applyAttemptEvent J event (ParentWriteRecorded a w body) d = apply_parent_write_recorded J event a w body d"
| "applyAttemptEvent J event (ParentWriteImported a w) d = apply_parent_write_imported J event a w d"
| "applyAttemptEvent J event (UsageDelivered a r) d = apply_usage_delivered J event a r d"
| "applyAttemptEvent J event (AttemptSuspendedEvent a l f reason retry) d =
     apply_attempt_suspended J event a l f reason retry d"
| "applyAttemptEvent J event (AttemptResumedEvent lease agentId) d = applyAttemptResumed J event lease agentId d"
| "applyAttemptEvent J event (AttemptCancelledEvent a reason detail) d = apply_attempt_cancelled J event a reason detail d"
| "applyAttemptEvent J event (ManagedLifecycle a lifetime sequence lane) d =
     apply_managed_lifecycle J event a lifetime sequence lane d"
| "applyAttemptEvent J event (AttemptFinished result) d = apply_attempt_finished J event result d"
| "applyAttemptEvent J event (LeaseExpired a l f reason) d = apply_lease_expired J event a l f reason d"

end
