(* ===== verification/Orchestration_Reducer.thy ===== *)
theory Orchestration_Reducer
  imports Attempt_Events
begin

text \<open>
  Approval and notification handlers, the dispatch on the event type, the reduction of one event and
  the replay of a ledger (\<open>reduceOrchestrationEvent\<close>, \<open>projectOrchestrationEvents\<close> in
  \<open>core/orchestration/task-runtime-reducer.ts\<close>).
\<close>

section \<open>Approvals\<close>

datatype ApprovalEvent =
    ApprovalRequested ApprovalRequestContract
  | ApprovalResolvedEvent ApprovalResolutionContract

definition approval_notification_id :: "string \<Rightarrow> string" where
  "approval_notification_id approvalId = ''approval-requested:'' @ approvalId"

definition apply_approval_requested ::
  "json_env \<Rightarrow> EventHeader \<Rightarrow> ApprovalRequestContract \<Rightarrow> ReducerDraft \<Rightarrow> orch_error + ReducerDraft" where
  "apply_approval_requested J event approval d =
     (let approvalId = apr_approvalId approval; notificationId = approval_notification_id approvalId in
      bindE (assertApprovalRequestTransition d (eh_aggregateId event) approval) (\<lambda>_.
      bindE (require (map_of (approvals d) approvalId = None) (ApprovalError (ApprovalRequestedTwice approvalId))) (\<lambda>_.
      bindE (require (map_of (notifications d) notificationId = None) (ApprovalError (NotificationExists notificationId))) (\<lambda>_.
      bindE (assertRecordHasCapacity FieldApprovals (approvals d) MAX_ORCHESTRATION_APPROVALS) (\<lambda>_.
      bindE (assertRecordHasCapacity FieldNotifications (notifications d) MAX_ORCHESTRATION_NOTIFICATIONS) (\<lambda>_.
      bindE (put_approval J approvalId
               \<lparr>as_request = approval, as_status = ApprovalPending, as_resolution = None\<rparr> d) (\<lambda>d1.
      put_notification J notificationId
        \<lparr>note_notificationId = notificationId, note_objectiveId = apr_objectiveId approval,
         note_attemptId = (if truthy (apr_attemptId approval) then apr_attemptId approval else None),
         note_status = NotePending, note_message = apr_summary approval,
         note_createdAt = eh_occurredAt event, note_deliveredAt = None\<rparr> d1)))))))"

text \<open>A rejection blocks the attempt it names, when that attempt is still open, and its task.\<close>

definition block_rejected_attempt ::
  "json_env \<Rightarrow> timestamp \<Rightarrow> string option \<Rightarrow> ReducerDraft \<Rightarrow> orch_error + ReducerDraft" where
  "block_rejected_attempt J now attemptId d =
     (if \<not> truthy attemptId then Inr d
      else case map_of (attempts d) (the attemptId) of
        None \<Rightarrow> Inr d
      | Some attempt \<Rightarrow>
          if terminalAttemptStatus (att_status attempt) then Inr d
          else
            bindE (put_attempt J (att_attemptId attempt)
                     (withoutAttemptRetry (attempt\<lparr>att_status := AttBlocked,
                        att_reasonCode := Some ''approval_rejected'', att_updatedAt := now\<rparr>)) d) (\<lambda>d1.
            case map_of (tasks d1) (att_taskId attempt) of
              None \<Rightarrow> Inr d1
            | Some task \<Rightarrow> put_task J (att_taskId attempt) (with_task_status TaskBlocked now task) d1))"

definition apply_approval_resolved ::
  "json_env \<Rightarrow> EventHeader \<Rightarrow> ApprovalResolutionContract \<Rightarrow> ReducerDraft \<Rightarrow> orch_error + ReducerDraft" where
  "apply_approval_resolved J event resolution d =
     (let now = eh_occurredAt event; approvalId = ars_approvalId resolution in
      bindE (assertApprovalResolutionTransition d (eh_aggregateId event) resolution) (\<lambda>approval.
      bindE (put_approval J approvalId
               (approval\<lparr>as_status := ApprovalResolved (ars_outcome resolution), as_resolution := Some resolution\<rparr>) d) (\<lambda>d1.
      bindE (case map_of (notifications d1) (approval_notification_id approvalId) of
               None \<Rightarrow> Inr d1
             | Some note \<Rightarrow>
                 if note_status note = NotePending
                 then put_notification J (note_notificationId note)
                        (note\<lparr>note_status := NoteDelivered, note_deliveredAt := Some now\<rparr>) d1
                 else Inr d1) (\<lambda>d2.
      if ars_outcome resolution = Rejected
      then block_rejected_attempt J now (apr_attemptId (as_request approval)) d2
      else Inr d2))))"

fun applyApprovalEvent :: "json_env \<Rightarrow> EventHeader \<Rightarrow> ApprovalEvent \<Rightarrow> ReducerDraft \<Rightarrow> orch_error + ReducerDraft" where
  "applyApprovalEvent J event (ApprovalRequested approval) d = apply_approval_requested J event approval d"
| "applyApprovalEvent J event (ApprovalResolvedEvent resolution) d = apply_approval_resolved J event resolution d"

section \<open>Notifications\<close>

datatype NotificationEvent =
    NotificationEnqueued string string "string option" string
  | NotificationDelivered string

definition apply_notification_enqueued ::
  "json_env \<Rightarrow> EventHeader \<Rightarrow> string \<Rightarrow> string \<Rightarrow> string option \<Rightarrow> string \<Rightarrow> ReducerDraft \<Rightarrow> orch_error + ReducerDraft" where
  "apply_notification_enqueued J event notificationId objectiveId attemptId message d =
     bindE (same_aggregate (eh_aggregateId event) objectiveId) (\<lambda>_.
     bindE (assertNotificationTarget d objectiveId attemptId) (\<lambda>_.
     bindE (require (map_of (notifications d) notificationId = None) (ApprovalError (NotificationExists notificationId))) (\<lambda>_.
     bindE (assertRecordHasCapacity FieldNotifications (notifications d) MAX_ORCHESTRATION_NOTIFICATIONS) (\<lambda>_.
     put_notification J notificationId
       \<lparr>note_notificationId = notificationId, note_objectiveId = objectiveId,
        note_attemptId = (if truthy attemptId then attemptId else None), note_status = NotePending,
        note_message = message, note_createdAt = eh_occurredAt event, note_deliveredAt = None\<rparr> d))))"

definition apply_notification_delivered ::
  "json_env \<Rightarrow> EventHeader \<Rightarrow> string \<Rightarrow> ReducerDraft \<Rightarrow> orch_error + ReducerDraft" where
  "apply_notification_delivered J event notificationId d =
     bindE (lookupE (notifications d) notificationId (ApprovalError (UnknownNotification notificationId))) (\<lambda>note.
     bindE (same_aggregate (eh_aggregateId event) (note_objectiveId note)) (\<lambda>_.
     put_notification J notificationId
       (note\<lparr>note_status := NoteDelivered, note_deliveredAt := Some (eh_occurredAt event)\<rparr>) d))"

fun applyNotificationEvent ::
  "json_env \<Rightarrow> EventHeader \<Rightarrow> NotificationEvent \<Rightarrow> ReducerDraft \<Rightarrow> orch_error + ReducerDraft" where
  "applyNotificationEvent J event (NotificationEnqueued n objectiveId attemptId message) d =
     apply_notification_enqueued J event n objectiveId attemptId message d"
| "applyNotificationEvent J event (NotificationDelivered n) d = apply_notification_delivered J event n d"

section \<open>One event\<close>

datatype OrchestrationPayload =
    ObjectivePayload ObjectiveEvent
  | TaskPayload TaskEvent
  | AgentPayload AgentEvent
  | AttemptPayload AttemptEvent
  | ApprovalPayload ApprovalEvent
  | NotificationPayload NotificationEvent
  | HostSourcePayload HostSourceEvent
  | HostDeliveryPayload HostDeliveryEvent
  | OtherPayload

record OrchestrationEvent = EventHeader +
  ev_payload :: OrchestrationPayload

text \<open>An event of any other type reaches \<open>applyHostEvent\<close>, which changes nothing.\<close>

fun applyOrchestrationPayload ::
  "json_env \<Rightarrow> EventHeader \<Rightarrow> OrchestrationPayload \<Rightarrow> ReducerDraft \<Rightarrow> orch_error + ReducerDraft" where
  "applyOrchestrationPayload J event (ObjectivePayload e) d = applyObjectiveEvent J event e d"
| "applyOrchestrationPayload J event (TaskPayload e) d = applyTaskEvent J event e d"
| "applyOrchestrationPayload J event (AgentPayload e) d = applyAgentEvent J event e d"
| "applyOrchestrationPayload J event (AttemptPayload e) d = applyAttemptEvent J event e d"
| "applyOrchestrationPayload J event (ApprovalPayload e) d = applyApprovalEvent J event e d"
| "applyOrchestrationPayload J event (NotificationPayload e) d = applyNotificationEvent J event e d"
| "applyOrchestrationPayload J event (HostSourcePayload e) d = applyHostSourceEvent J event e d"
| "applyOrchestrationPayload J event (HostDeliveryPayload e) d = applyHostDeliveryEvent J event e d"
| "applyOrchestrationPayload J event OtherPayload d = Inr d"

text \<open>A projection with the serialized size cached for it.\<close>

type_synonym ledger_state = "TaskRuntimeProjection \<times> int option"

definition reduceOrchestrationEvent ::
  "json_env \<Rightarrow> ledger_state \<Rightarrow> OrchestrationEvent \<Rightarrow> orch_error + ledger_state" where
  "reduceOrchestrationEvent J current event =
     (let (projection, cached) = current in
      bindE (assertProjectionWithinLimits J cached projection) (\<lambda>_.
      bindE (cachedProjectionBytes J cached projection) (\<lambda>bytes.
      if eh_ordinal event \<le> lastOrdinal projection then Inr (projection, Some bytes)
      else if eh_ordinal event \<noteq> lastOrdinal projection + 1
        then Inl (OrdinalGap (eh_ordinal event) (lastOrdinal projection))
      else
        bindE (start_tracking J (Some bytes) projection) (\<lambda>draft.
        bindE (applyOrchestrationPayload J (EventHeader.truncate event) (ev_payload event) draft) (\<lambda>state.
        bindE (finish_tracking (eh_ordinal event) (lastOrdinal projection) state) (\<lambda>serializedBytes.
        let result = (TaskRuntimeProjection.truncate state)\<lparr>lastOrdinal := eh_ordinal event\<rparr> in
        bindE (assertProjectionWithinLimits J (Some serializedBytes) result) (\<lambda>_.
        Inr (result, Some serializedBytes)))))))) "

definition projectOrchestrationEvents ::
  "json_env \<Rightarrow> OrchestrationEvent list \<Rightarrow> orch_error + ledger_state" where
  "projectOrchestrationEvents J events = foldE (reduceOrchestrationEvent J) (emptyProjection, None) events"

end
