(* ===== verification/Record_Laws.thy ===== *)
theory Record_Laws
  imports Orchestration_Reducer
begin

text \<open>
  What a reduction may do to a retained record. For every map of the projection a relation says which
  record may be created under a key and which value may replace a stored one; \<open>record_step\<close> is one
  tracked write that obeys them, \<open>structural_step\<close> additionally creates objectives, tasks, attempts
  and agents, extends the lists that link them, closes objectives and retires agents. A write that is not
  \<open>loose\<close> neither gives an attempt an agent to execute it nor changes which attempt an agent holds. The
  handler theories show that every handler's effect is a sequence of such writes.
\<close>

section \<open>Attempts\<close>

fun attempt_status_moves :: "AttemptStatus \<Rightarrow> AttemptStatus \<Rightarrow> bool" where
  "attempt_status_moves AttQueued s = (s \<in> {AttQueued, AttLeased, AttBlocked, AttCancelled})"
| "attempt_status_moves AttLeased s = (s \<in> {AttLeased, AttRunning, AttSuspended} \<or> terminalAttemptStatus s)"
| "attempt_status_moves AttRunning s = (s \<in> {AttRunning, AttSuspended} \<or> terminalAttemptStatus s)"
| "attempt_status_moves AttSuspended s = (s \<in> {AttSuspended, AttLeased, AttBlocked, AttCancelled})"
| "attempt_status_moves t s = (s = t)"

definition lease_moves :: "AttemptRuntimeState \<Rightarrow> AttemptRuntimeState \<Rightarrow> bool" where
  "lease_moves a b \<longleftrightarrow>
     att_lease b = att_lease a \<and> (att_status b = AttLeased \<longrightarrow> att_status a = AttLeased) \<or>
     (\<exists>l. att_lease a = Some l \<and> att_status a \<in> {AttLeased, AttRunning} \<and> att_status b = att_status a \<and>
        (\<exists>t. att_lease b = Some (l\<lparr>lease_expiresAt := t\<rparr>) \<and>
           \<not> js_le (date_parse t) (date_parse (lease_expiresAt l)))) \<or>
     (\<exists>l. att_status a \<in> {AttQueued, AttSuspended} \<and> att_status b = AttLeased \<and> att_lease b = Some l \<and>
        lease_fencingToken l = lease_fence a + 1)"

text \<open>A generation is registered by the lease that holds the attempt.\<close>

definition usage_moves :: "AttemptRuntimeState \<Rightarrow> AttemptUsageAccounting option \<Rightarrow> bool" where
  "usage_moves a b \<longleftrightarrow>
     b = att_usageAccounting a \<or>
     (\<exists>i baseline accounting. lease_matches a (gid_leaseId i) (gid_fencingToken i) \<and>
        beginAttemptUsageGeneration (att_usageAccounting a) i baseline = Inr accounting \<and> b = Some accounting) \<or>
     (\<exists>current i usage accounting. att_usageAccounting a = Some current \<and>
        recordAttemptGenerationUsage current i usage = Inr accounting \<and> b = Some accounting)"

definition same_verdict :: "AttemptVerification \<Rightarrow> AttemptVerification \<Rightarrow> bool" where
  "same_verdict v w \<longleftrightarrow> vr_verifierTaskId w = vr_verifierTaskId v \<and>
     vr_verifierAttemptId w = vr_verifierAttemptId v \<and> vr_verdict w = vr_verdict v \<and>
     vr_reasonCode w = vr_reasonCode v"

text \<open>A field that is written at most once.\<close>

definition once :: "'x option \<Rightarrow> 'x option \<Rightarrow> bool" where
  "once a b \<longleftrightarrow> a = None \<or> b = a"

definition attempt_identity :: "AttemptRuntimeState \<Rightarrow> string \<times> string \<times> OrchestrationDispatchRequest \<times> timestamp" where
  "attempt_identity a = (att_attemptId a, att_taskId a, att_dispatch a, att_createdAt a)"

definition attempt_moves :: "AttemptRuntimeState \<Rightarrow> AttemptRuntimeState \<Rightarrow> bool" where
  "attempt_moves a b \<longleftrightarrow>
     attempt_identity b = attempt_identity a \<and>
     attempt_status_moves (att_status a) (att_status b) \<and> lease_moves a b \<and>
     usage_moves a (att_usageAccounting b) \<and>
     (att_result b = att_result a \<or>
      (\<exists>r. att_result b = Some r \<and> att_status a \<in> {AttLeased, AttRunning} \<and>
         att_status b = result_attempt_status (res_status r) \<and>
         lease_matches a (res_leaseId r) (res_fencingToken r))) \<and>
     (\<exists>new. att_checkpointIds b = att_checkpointIds a @ new \<and> (new = [] \<or> att_status a = AttRunning)) \<and>
     (att_grantId b = att_grantId a \<or> \<not> truthy (att_grantId a)) \<and>
     (att_agentId b = att_agentId a \<or> att_status a = AttQueued) \<and>
     once (att_executionStartedAt a) (att_executionStartedAt b) \<and>
     once (att_admittedTurnOrigin a) (att_admittedTurnOrigin b) \<and>
     once (att_receiptAcknowledgement a) (att_receiptAcknowledgement b) \<and>
     (att_managedLifetime a = Some LaneRetired \<longrightarrow> att_managedLifetime b = Some LaneRetired) \<and>
     (\<forall>v. att_verification a = Some v \<longrightarrow> verification_required a \<longrightarrow>
        (\<exists>w. att_verification b = Some w \<and> same_verdict v w))"

definition attempt_born :: "string \<Rightarrow> AttemptRuntimeState \<Rightarrow> bool" where
  "attempt_born k a \<longleftrightarrow> (\<exists>q now. a = queued_attempt_state q now \<and> qa_attemptId q = k)"

lemma attempt_status_moves_refl [simp]: "attempt_status_moves s s"
  by (cases s) simp_all

lemma attempt_status_moves_terminal:
  "terminalAttemptStatus s \<Longrightarrow> attempt_status_moves s t \<longleftrightarrow> t = s"
  by (cases s) simp_all

lemma usage_moves_refl [simp]: "usage_moves a (att_usageAccounting a)"
  by (simp add: usage_moves_def)

lemma once_refl [simp]: "once a a"
  by (simp add: once_def)

lemma same_verdict_refl [simp]: "same_verdict v v"
  by (simp add: same_verdict_def)

lemma lease_moves_keep: "att_lease b = att_lease a \<Longrightarrow> att_status b \<noteq> AttLeased \<or> att_status a = AttLeased \<Longrightarrow> lease_moves a b"
  by (auto simp: lease_moves_def)

text \<open>
  The agent that executes an attempt, and the writes that leave every such binding alone or dissolve it.
\<close>

definition bound_agent :: "AttemptRuntimeState \<Rightarrow> string option" where
  "bound_agent a = (if att_status a \<in> {AttLeased, AttRunning, AttSuspended} \<and> truthy (att_agentId a)
     then att_agentId a else None)"

definition binding_kept :: "AttemptRuntimeState \<Rightarrow> AttemptRuntimeState \<Rightarrow> bool" where
  "binding_kept a b \<longleftrightarrow> (bound_agent b = None \<or> bound_agent b = bound_agent a) \<and>
     (att_status b = AttQueued \<longrightarrow> att_agentId b = att_agentId a)"

lemma binding_kept_same [simp]:
  "att_status b = att_status a \<Longrightarrow> att_agentId b = att_agentId a \<Longrightarrow> binding_kept a b"
  by (simp add: binding_kept_def bound_agent_def)

lemma binding_kept_terminal [simp]: "terminalAttemptStatus (att_status b) \<Longrightarrow> binding_kept a b"
  by (cases "att_status b") (simp_all add: binding_kept_def bound_agent_def)

lemma binding_kept_held [simp]:
  "att_status a \<in> {AttLeased, AttRunning, AttSuspended} \<Longrightarrow> att_agentId b = att_agentId a \<Longrightarrow> binding_kept a b"
  by (auto simp: binding_kept_def bound_agent_def)

section \<open>Agents, tasks, objectives\<close>

text \<open>A retired agent's record is never written again.\<close>

definition agent_identity :: "AgentBindingContract \<Rightarrow> AgentBindingContract" where
  "agent_identity g = g\<lparr>agent_status := AgentRegistered, agent_activeAttemptId := None, agent_updatedAt := At 0,
     agent_resumeContext := (agent_resumeContext g)\<lparr>rc_latestCheckpointId := None\<rparr>\<rparr>"

definition agent_moves :: "AgentBindingContract \<Rightarrow> AgentBindingContract \<Rightarrow> bool" where
  "agent_moves g h \<longleftrightarrow> agent_status g \<noteq> AgentRetired \<and> agent_status h \<noteq> AgentRetired \<and>
     agent_identity h = agent_identity g"

definition agent_retires :: "AgentBindingContract \<Rightarrow> AgentBindingContract \<Rightarrow> bool" where
  "agent_retires g h \<longleftrightarrow> agent_status g = AgentRegistered \<and> agent_status h = AgentRetired \<and>
     agent_identity h = agent_identity g"

text \<open>A write that leaves the attempt an agent holds alone, and does not idle the agent.\<close>

definition occupancy_kept :: "AgentBindingContract \<Rightarrow> AgentBindingContract \<Rightarrow> bool" where
  "occupancy_kept g h \<longleftrightarrow> agent_activeAttemptId h = agent_activeAttemptId g \<and>
     (agent_status h = AgentRegistered \<longrightarrow> agent_status g = AgentRegistered)"

lemma occupancy_kept_intro [simp]:
  "agent_activeAttemptId h = agent_activeAttemptId g \<Longrightarrow>
   agent_status h = agent_status g \<or> agent_status h \<noteq> AgentRegistered \<Longrightarrow> occupancy_kept g h"
  by (auto simp: occupancy_kept_def)

definition agent_born :: "string \<Rightarrow> AgentBindingContract \<Rightarrow> bool" where
  "agent_born k g \<longleftrightarrow> agent_agentId g = k \<and> agent_status g = AgentRegistered \<and> \<not> truthy (agent_activeAttemptId g)"

definition task_identity :: "TaskContract \<Rightarrow> TaskContract" where
  "task_identity t = t\<lparr>task_status := TaskPending, task_updatedAt := At 0\<rparr>"

definition task_moves :: "TaskRuntimeState \<Rightarrow> TaskRuntimeState \<Rightarrow> bool" where
  "task_moves t u \<longleftrightarrow> task_identity (ts_task u) = task_identity (ts_task t)"

definition task_born :: "string \<Rightarrow> TaskRuntimeState \<Rightarrow> bool" where
  "task_born k t \<longleftrightarrow> task_taskId (ts_task t) = k \<and> ts_attemptIds t = [] \<and> ts_verification t = None"

definition objective_moves :: "string \<Rightarrow> ObjectiveRuntimeState \<Rightarrow> ObjectiveRuntimeState \<Rightarrow> bool" where
  "objective_moves k o1 o2 \<longleftrightarrow>
     (obj_objectiveId (os_objective o1) = k \<longrightarrow> obj_objectiveId (os_objective o2) = k) \<and>
     obj_schemaVersion (os_objective o2) = obj_schemaVersion (os_objective o1) \<and>
     obj_createdAt (os_objective o2) = obj_createdAt (os_objective o1) \<and>
     (obj_status (os_objective o2) = obj_status (os_objective o1) \<or>
      objective_transition_valid (obj_status (os_objective o1)) (obj_status (os_objective o2))) \<and>
     (\<exists>new. os_evidence o2 = os_evidence o1 @ new)"

definition objective_closed :: "ObjectiveRuntimeState \<Rightarrow> bool" where
  "objective_closed o1 \<longleftrightarrow> obj_status (os_objective o1) \<in> {ObjCompleted, ObjCancelled}"

definition objective_born :: "string \<Rightarrow> ObjectiveRuntimeState \<Rightarrow> bool" where
  "objective_born k o1 \<longleftrightarrow> obj_objectiveId (os_objective o1) = k \<and> obj_status (os_objective o1) = ObjActive \<and>
     os_taskIds o1 = [] \<and> os_evidence o1 = []"

section \<open>Approvals and notifications\<close>

definition approval_moves :: "ApprovalRuntimeState \<Rightarrow> ApprovalRuntimeState \<Rightarrow> bool" where
  "approval_moves a b \<longleftrightarrow> as_status a = ApprovalPending \<and>
     (\<exists>r. b = a\<lparr>as_status := ApprovalResolved (ars_outcome r), as_resolution := Some r\<rparr>)"

definition notification_moves :: "NotificationRuntimeState \<Rightarrow> NotificationRuntimeState \<Rightarrow> bool" where
  "notification_moves a b \<longleftrightarrow> (\<exists>t. b = a\<lparr>note_status := NoteDelivered, note_deliveredAt := Some t\<rparr>)"

section \<open>Host event records\<close>

text \<open>
  A source's consumer frontier: the retired prefix is part of the accepted one, the positions passed
  without acceptance lie in it, and their ranges are in normal form.
\<close>

definition source_ok :: "HostEventSourceState \<Rightarrow> bool" where
  "source_ok s \<longleftrightarrow> src_retiredThrough s \<le> src_acceptedThrough s \<and> ranges_ok (src_unaccepted s) \<and>
     ranges_below (src_acceptedThrough s) (src_unaccepted s)"

definition source_moves :: "HostEventSourceState \<Rightarrow> HostEventSourceState \<Rightarrow> bool" where
  "source_moves s t \<longleftrightarrow> src_ended s = None \<and>
     reg_sourceId (src_registration t) = reg_sourceId (src_registration s) \<and>
     reg_sourceEpoch (src_registration t) = reg_sourceEpoch (src_registration s) \<and>
     reg_startingSequence (src_registration t) = reg_startingSequence (src_registration s) \<and>
     reg_scopeVersion (src_registration s) \<le> reg_scopeVersion (src_registration t) \<and>
     src_acceptedThrough s \<le> src_acceptedThrough t \<and>
     src_catchUpGeneration s \<le> src_catchUpGeneration t \<and>
     (source_ok s \<longrightarrow> src_retiredThrough s \<le> src_retiredThrough t \<and> source_ok t)"

definition source_born :: "string \<Rightarrow> HostEventSourceState \<Rightarrow> bool" where
  "source_born k s \<longleftrightarrow> reg_sourceId (src_registration s) = k \<and> src_ended s = None \<and> source_ok s"

section \<open>Lawful writes\<close>

inductive record_step :: "json_env \<Rightarrow> bool \<Rightarrow> ReducerDraft \<Rightarrow> ReducerDraft \<Rightarrow> bool" for J loose where
  rec_attempt: "map_of (attempts d) k = Some a \<Longrightarrow> attempt_moves a b \<Longrightarrow> loose \<or> binding_kept a b \<Longrightarrow>
    put_attempt J k b d = Inr d' \<Longrightarrow>
    record_step J loose d d'"
| rec_agent: "map_of (agents d) k = Some g \<Longrightarrow> agent_moves g h \<Longrightarrow>
    loose \<or> occupancy_kept g h \<Longrightarrow> put_agent J k h d = Inr d' \<Longrightarrow>
    record_step J loose d d'"
| rec_task: "map_of (tasks d) k = Some t \<Longrightarrow> task_moves t u \<Longrightarrow> ts_attemptIds u = ts_attemptIds t \<Longrightarrow>
    put_task J k u d = Inr d' \<Longrightarrow> record_step J loose d d'"
| rec_objective: "map_of (objectives d) k = Some o1 \<Longrightarrow> objective_moves k o1 o2 \<Longrightarrow>
    os_taskIds o2 = os_taskIds o1 \<Longrightarrow> (objective_closed o2 \<Longrightarrow> objective_closed o1) \<Longrightarrow>
    put_objective J k o2 d = Inr d' \<Longrightarrow> record_step J loose d d'"
| rec_approval: "map_of (approvals d) k = Some p \<Longrightarrow> approval_moves p q \<Longrightarrow> put_approval J k q d = Inr d' \<Longrightarrow>
    record_step J loose d d'"
| rec_approval_new: "map_of (approvals d) k = None \<Longrightarrow> apr_approvalId (as_request q) = k \<Longrightarrow>
    as_status q = ApprovalPending \<Longrightarrow> put_approval J k q d = Inr d' \<Longrightarrow> record_step J loose d d'"
| rec_notification: "map_of (notifications d) k = Some n \<Longrightarrow> notification_moves n m \<Longrightarrow>
    put_notification J k m d = Inr d' \<Longrightarrow> record_step J loose d d'"
| rec_notification_new: "map_of (notifications d) k = None \<Longrightarrow> note_notificationId m = k \<Longrightarrow>
    put_notification J k m d = Inr d' \<Longrightarrow> record_step J loose d d'"
| rec_checkpoint: "map_of (checkpoints d) k = None \<Longrightarrow> ck_checkpointId c = k \<Longrightarrow>
    put_checkpoint J k c d = Inr d' \<Longrightarrow> record_step J loose d d'"
| rec_source: "map_of (eventSources d) k = Some s1 \<Longrightarrow> source_moves s1 s2 \<Longrightarrow> put_source J k s2 d = Inr d' \<Longrightarrow>
    record_step J loose d d'"
| rec_source_new: "map_of (eventSources d) k = None \<Longrightarrow> source_born k s1 \<Longrightarrow> put_source J k s1 d = Inr d' \<Longrightarrow>
    record_step J loose d d'"
| rec_source_gone: "(\<And>s1. map_of (eventSources d) k = Some s1 \<Longrightarrow> src_ended s1 \<noteq> None) \<Longrightarrow>
    delete_source J k d = Inr d' \<Longrightarrow> record_step J loose d d'"
| rec_event: "map_of (hostEvents d) k = None \<Longrightarrow> env_eventId (ae_envelope e) = k \<Longrightarrow>
    \<not> position_held (hostEvents d) (env_sourceId (ae_envelope e)) (env_sourceEpoch (ae_envelope e))
      (env_sourceSequence (ae_envelope e)) \<Longrightarrow> put_event J k e d = Inr d' \<Longrightarrow>
    record_step J loose d d'"
| rec_event_gone: "delete_event J k d = Inr d' \<Longrightarrow> record_step J loose d d'"
| rec_subscription: "sub_subscriptionId x = k \<Longrightarrow> put_subscription J k x d = Inr d' \<Longrightarrow> record_step J loose d d'"
| rec_delivery: "del_deliveryId y = k \<Longrightarrow> put_delivery J k y d = Inr d' \<Longrightarrow> record_step J loose d d'"
| rec_delivery_gone: "delete_delivery J k d = Inr d' \<Longrightarrow> record_step J loose d d'"

inductive structural_step :: "json_env \<Rightarrow> bool \<Rightarrow> ReducerDraft \<Rightarrow> ReducerDraft \<Rightarrow> bool" for J loose where
  str_record: "record_step J loose d d' \<Longrightarrow> structural_step J loose d d'"
| str_attempt: "map_of (attempts d) k = None \<Longrightarrow> attempt_born k a \<Longrightarrow> put_attempt J k a d = Inr d' \<Longrightarrow>
    structural_step J loose d d'"
| str_agent: "map_of (agents d) k = None \<Longrightarrow> agent_born k g \<Longrightarrow> put_agent J k g d = Inr d' \<Longrightarrow>
    structural_step J loose d d'"
| str_agent_retire: "map_of (agents d) k = Some g \<Longrightarrow> agent_retires g h \<Longrightarrow> put_agent J k h d = Inr d' \<Longrightarrow>
    structural_step J loose d d'"
| str_task: "map_of (tasks d) k = None \<Longrightarrow> task_born k t \<Longrightarrow> put_task J k t d = Inr d' \<Longrightarrow>
    structural_step J loose d d'"
| str_task_attempt: "map_of (tasks d) k = Some t \<Longrightarrow> task_moves t u \<Longrightarrow>
    ts_attemptIds u = ts_attemptIds t @ [a] \<Longrightarrow> put_task J k u d = Inr d' \<Longrightarrow> structural_step J loose d d'"
| str_objective: "map_of (objectives d) k = None \<Longrightarrow> objective_born k o1 \<Longrightarrow> put_objective J k o1 d = Inr d' \<Longrightarrow>
    structural_step J loose d d'"
| str_objective_task: "map_of (objectives d) k = Some o1 \<Longrightarrow>
    put_objective J k (o1\<lparr>os_taskIds := os_taskIds o1 @ [t]\<rparr>) d = Inr d' \<Longrightarrow> structural_step J loose d d'"
| str_objective_close: "map_of (objectives d) k = Some o1 \<Longrightarrow> objective_moves k o1 o2 \<Longrightarrow>
    os_taskIds o2 = os_taskIds o1 \<Longrightarrow> put_objective J k o2 d = Inr d' \<Longrightarrow> structural_step J loose d d'"

inductive_cases record_step_elim: "record_step J loose d d'"
inductive_cases structural_step_elim: "structural_step J loose d d'"

inductive record_writes :: "json_env \<Rightarrow> bool \<Rightarrow> ReducerDraft \<Rightarrow> ReducerDraft \<Rightarrow> bool" for J loose where
  rw_none: "record_writes J loose d d"
| rw_more: "record_writes J loose d d1 \<Longrightarrow> record_step J loose d1 d2 \<Longrightarrow> record_writes J loose d d2"

inductive structural_writes :: "json_env \<Rightarrow> bool \<Rightarrow> ReducerDraft \<Rightarrow> ReducerDraft \<Rightarrow> bool" for J loose where
  sw_none: "structural_writes J loose d d"
| sw_more: "structural_writes J loose d d1 \<Longrightarrow> structural_step J loose d1 d2 \<Longrightarrow> structural_writes J loose d d2"

end
