(* ===== verification/Record_Writes.thy ===== *)
theory Record_Writes
  imports Record_Laws
begin

text \<open>
  Consequences of lawful writes, proved once on \<open>record_step\<close> and \<open>structural_step\<close>: records stay under
  their own identifiers, the structure of the projection is untouched by record writes, and every lawful
  write is a tracked write, so it keeps the byte accounting exact.
\<close>

section \<open>Sequences\<close>

lemma record_one: "record_step J loose d d' \<Longrightarrow> record_writes J loose d d'"
  by (rule rw_more [OF rw_none])

lemma record_trans: "record_writes J loose d1 d2 \<Longrightarrow> record_writes J loose d0 d1 \<Longrightarrow> record_writes J loose d0 d2"
  by (induction rule: record_writes.induct) (auto intro: record_writes.intros)

lemma record_then: "record_step J loose d d1 \<Longrightarrow> record_writes J loose d1 d2 \<Longrightarrow> record_writes J loose d d2"
  by (rule record_trans [OF _ record_one])

lemma structural_one: "structural_step J loose d d' \<Longrightarrow> structural_writes J loose d d'"
  by (rule sw_more [OF sw_none])

lemma structural_trans: "structural_writes J loose d1 d2 \<Longrightarrow> structural_writes J loose d0 d1 \<Longrightarrow> structural_writes J loose d0 d2"
  by (induction rule: structural_writes.induct) (auto intro: structural_writes.intros)

lemma record_structural: "record_writes J loose d d' \<Longrightarrow> structural_writes J loose d d'"
  by (induction rule: record_writes.induct) (auto intro: structural_writes.intros str_record)

lemma record_step_mono: "record_step J loose d d' \<Longrightarrow> record_step J True d d'"
proof (induction rule: record_step.induct)
  case (rec_source_gone d k d')
  show ?case by (rule record_step.rec_source_gone [OF rec_source_gone])
qed (auto intro: record_step.intros)

lemma structural_step_mono: "structural_step J loose d d' \<Longrightarrow> structural_step J True d d'"
  by (erule structural_step.cases) (auto intro: structural_step.intros record_step_mono)

lemma structural_writes_mono: "structural_writes J loose d d' \<Longrightarrow> structural_writes J True d d'"
  by (induction rule: structural_writes.induct) (auto intro: structural_writes.intros structural_step_mono)

lemmas write_steps_intro =
  rec_attempt [rotated 3] rec_agent [rotated 3] rec_task [rotated 3] rec_objective [rotated 4]
  rec_approval [rotated 2] rec_approval_new [rotated 3] rec_notification [rotated 2]
  rec_notification_new [rotated 2] rec_checkpoint [rotated 2] rec_source [rotated 2]
  rec_source_new [rotated 2] rec_source_gone [rotated 1] rec_event [rotated 3] rec_event_gone
  rec_subscription [rotated 1] rec_delivery [rotated 1] rec_delivery_gone

lemmas write_one = write_steps_intro [THEN record_one]

lemmas write_then = write_steps_intro [THEN record_then]

lemmas write_structural =
  str_attempt [rotated 2, THEN structural_one] str_agent [rotated 2, THEN structural_one]
  str_task [rotated 2, THEN structural_one] str_task_attempt [rotated 3, THEN structural_one]
  str_objective [rotated 2, THEN structural_one] str_objective_task [rotated 1, THEN structural_one]
  str_objective_close [rotated 3, THEN structural_one] str_agent_retire [rotated 2, THEN structural_one]

section \<open>Lawful writes are tracked writes\<close>

lemma record_step_draft: "record_step J loose d d' \<Longrightarrow> draft_step J d d'"
  by (erule record_step.cases) (auto intro: draft_step.intros)

lemma structural_step_draft: "structural_step J loose d d' \<Longrightarrow> draft_step J d d'"
  by (erule structural_step.cases) (auto intro: draft_step.intros record_step_draft)

lemma structural_writes_draft: "structural_writes J loose d d' \<Longrightarrow> draft_writes J d d'"
  by (induction rule: structural_writes.induct) (auto intro: draft_writes.intros structural_step_draft)

section \<open>Records under their own identifiers\<close>

definition keyed_map :: "('v \<Rightarrow> string) \<Rightarrow> 'v js_record \<Rightarrow> bool" where
  "keyed_map key m \<longleftrightarrow> own_keys_distinct m \<and> (\<forall>k v. map_of m k = Some v \<longrightarrow> key v = k)"

definition well_keyed :: "'a TaskRuntimeProjection_scheme \<Rightarrow> bool" where
  "well_keyed p \<longleftrightarrow>
     keyed_map (\<lambda>s. reg_sourceId (src_registration s)) (eventSources p) \<and>
     keyed_map (\<lambda>e. env_eventId (ae_envelope e)) (hostEvents p) \<and>
     keyed_map sub_subscriptionId (threadSubscriptions p) \<and>
     keyed_map del_deliveryId (eventDeliveries p) \<and>
     keyed_map agent_agentId (agents p) \<and>
     keyed_map (\<lambda>o1. obj_objectiveId (os_objective o1)) (objectives p) \<and>
     keyed_map (\<lambda>t. task_taskId (ts_task t)) (tasks p) \<and>
     keyed_map att_attemptId (attempts p) \<and>
     keyed_map ck_checkpointId (checkpoints p) \<and>
     keyed_map (\<lambda>a. apr_approvalId (as_request a)) (approvals p) \<and>
     keyed_map note_notificationId (notifications p)"

lemma keyed_map_set: "keyed_map key m \<Longrightarrow> key v = k \<Longrightarrow> keyed_map key (js_set k v m)"
  by (simp add: keyed_map_def)

lemma keyed_map_delete: "keyed_map key m \<Longrightarrow> keyed_map key (js_delete k m)"
  by (simp add: keyed_map_def)

lemma keyed_map_Nil [simp]: "keyed_map key []"
  by (simp add: keyed_map_def)

lemma keyed_mapD: "keyed_map key m \<Longrightarrow> map_of m k = Some v \<Longrightarrow> key v = k"
  by (simp add: keyed_map_def)

lemma keyed_value: "keyed_map key m \<Longrightarrow> v \<in> set (js_values m) \<longleftrightarrow> map_of m (key v) = Some v"
  by (metis keyed_map_def own_value_iff)

lemma agent_identity_id: "agent_identity h = agent_identity g \<Longrightarrow> agent_agentId h = agent_agentId g"
  by (drule arg_cong [where f = agent_agentId]) (simp add: agent_identity_def)

lemma task_identity_id: "task_identity u = task_identity t \<Longrightarrow> task_taskId u = task_taskId t"
  by (drule arg_cong [where f = task_taskId]) (simp add: task_identity_def)

lemma queued_attempt_id: "attempt_born k a \<Longrightarrow> att_attemptId a = k"
  by (auto simp: attempt_born_def queued_attempt_state_def)

lemma keyed_put_source: "put_source J k v d = Inr d' \<Longrightarrow> reg_sourceId (src_registration v) = k \<Longrightarrow> well_keyed d \<Longrightarrow> well_keyed d'"
  by (drule put_source_fields) (simp add: well_keyed_def keyed_map_set)

lemma keyed_put_event: "put_event J k v d = Inr d' \<Longrightarrow> env_eventId (ae_envelope v) = k \<Longrightarrow> well_keyed d \<Longrightarrow> well_keyed d'"
  by (drule put_event_fields) (simp add: well_keyed_def keyed_map_set)

lemma keyed_put_subscription: "put_subscription J k v d = Inr d' \<Longrightarrow> sub_subscriptionId v = k \<Longrightarrow> well_keyed d \<Longrightarrow> well_keyed d'"
  by (drule put_subscription_fields) (simp add: well_keyed_def keyed_map_set)

lemma keyed_put_delivery: "put_delivery J k v d = Inr d' \<Longrightarrow> del_deliveryId v = k \<Longrightarrow> well_keyed d \<Longrightarrow> well_keyed d'"
  by (drule put_delivery_fields) (simp add: well_keyed_def keyed_map_set)

lemma keyed_put_agent: "put_agent J k v d = Inr d' \<Longrightarrow> agent_agentId v = k \<Longrightarrow> well_keyed d \<Longrightarrow> well_keyed d'"
  by (drule put_agent_fields) (simp add: well_keyed_def keyed_map_set)

lemma keyed_put_objective: "put_objective J k v d = Inr d' \<Longrightarrow> obj_objectiveId (os_objective v) = k \<Longrightarrow> well_keyed d \<Longrightarrow> well_keyed d'"
  by (drule put_objective_fields) (simp add: well_keyed_def keyed_map_set)

lemma keyed_put_task: "put_task J k v d = Inr d' \<Longrightarrow> task_taskId (ts_task v) = k \<Longrightarrow> well_keyed d \<Longrightarrow> well_keyed d'"
  by (drule put_task_fields) (simp add: well_keyed_def keyed_map_set)

lemma keyed_put_attempt: "put_attempt J k v d = Inr d' \<Longrightarrow> att_attemptId v = k \<Longrightarrow> well_keyed d \<Longrightarrow> well_keyed d'"
  by (drule put_attempt_fields) (simp add: well_keyed_def keyed_map_set)

lemma keyed_put_checkpoint: "put_checkpoint J k v d = Inr d' \<Longrightarrow> ck_checkpointId v = k \<Longrightarrow> well_keyed d \<Longrightarrow> well_keyed d'"
  by (drule put_checkpoint_fields) (simp add: well_keyed_def keyed_map_set)

lemma keyed_put_approval: "put_approval J k v d = Inr d' \<Longrightarrow> apr_approvalId (as_request v) = k \<Longrightarrow> well_keyed d \<Longrightarrow> well_keyed d'"
  by (drule put_approval_fields) (simp add: well_keyed_def keyed_map_set)

lemma keyed_put_notification: "put_notification J k v d = Inr d' \<Longrightarrow> note_notificationId v = k \<Longrightarrow> well_keyed d \<Longrightarrow> well_keyed d'"
  by (drule put_notification_fields) (simp add: well_keyed_def keyed_map_set)

lemma keyed_delete_source: "delete_source J k d = Inr d' \<Longrightarrow> well_keyed d \<Longrightarrow> well_keyed d'"
  by (drule delete_source_fields) (simp add: well_keyed_def keyed_map_delete)

lemma keyed_delete_event: "delete_event J k d = Inr d' \<Longrightarrow> well_keyed d \<Longrightarrow> well_keyed d'"
  by (drule delete_event_fields) (simp add: well_keyed_def keyed_map_delete)

lemma keyed_delete_delivery: "delete_delivery J k d = Inr d' \<Longrightarrow> well_keyed d \<Longrightarrow> well_keyed d'"
  by (drule delete_delivery_fields) (simp add: well_keyed_def keyed_map_delete)

lemmas keyed_put =
  keyed_put_source keyed_put_event keyed_put_subscription keyed_put_delivery
  keyed_put_agent keyed_put_objective keyed_put_task keyed_put_attempt
  keyed_put_checkpoint keyed_put_approval keyed_put_notification
  keyed_delete_source keyed_delete_event keyed_delete_delivery

lemma keyed_at:
  assumes "well_keyed d"
  shows "map_of (eventSources d) k0 = Some v0 \<Longrightarrow> reg_sourceId (src_registration v0) = k0"
    "map_of (hostEvents d) k1 = Some v1 \<Longrightarrow> env_eventId (ae_envelope v1) = k1"
    "map_of (threadSubscriptions d) k2 = Some v2 \<Longrightarrow> sub_subscriptionId v2 = k2"
    "map_of (eventDeliveries d) k3 = Some v3 \<Longrightarrow> del_deliveryId v3 = k3"
    "map_of (agents d) k4 = Some v4 \<Longrightarrow> agent_agentId v4 = k4"
    "map_of (objectives d) k5 = Some v5 \<Longrightarrow> obj_objectiveId (os_objective v5) = k5"
    "map_of (tasks d) k6 = Some v6 \<Longrightarrow> task_taskId (ts_task v6) = k6"
    "map_of (attempts d) k7 = Some v7 \<Longrightarrow> att_attemptId v7 = k7"
    "map_of (checkpoints d) k8 = Some v8 \<Longrightarrow> ck_checkpointId v8 = k8"
    "map_of (approvals d) k9 = Some v9 \<Longrightarrow> apr_approvalId (as_request v9) = k9"
    "map_of (notifications d) k10 = Some v10 \<Longrightarrow> note_notificationId v10 = k10"
  using assms unfolding well_keyed_def by (blast dest: keyed_mapD)+

lemma record_step_keyed:
  assumes "record_step J loose d d'" and "well_keyed d"
  shows "well_keyed d'"
  using assms
  by cases
    (auto elim!: keyed_put simp: attempt_moves_def attempt_identity_def agent_moves_def task_moves_def
      objective_moves_def approval_moves_def notification_moves_def source_moves_def source_born_def
      dest: agent_identity_id task_identity_id dest!: keyed_at [OF assms(2)])

lemma structural_step_keyed:
  assumes "structural_step J loose d d'" and "well_keyed d"
  shows "well_keyed d'"
  using assms
  by cases
    (auto elim!: keyed_put elim: record_step_keyed simp: task_moves_def agent_born_def task_born_def objective_born_def objective_moves_def
      agent_retires_def
      dest: queued_attempt_id task_identity_id agent_identity_id dest!: keyed_at [OF assms(2)])

lemma structural_writes_keyed: "structural_writes J loose d d' \<Longrightarrow> well_keyed d \<Longrightarrow> well_keyed d'"
  by (induction rule: structural_writes.induct) (auto intro: structural_step_keyed)

lemma record_writes_keyed: "record_writes J loose d d' \<Longrightarrow> well_keyed d \<Longrightarrow> well_keyed d'"
  by (blast intro: structural_writes_keyed record_structural)

section \<open>Structure\<close>

text \<open>
  The part of a projection record writes leave alone: which attempts, tasks, objectives and agents there
  are, and how they point at each other.
\<close>

definition same_structure :: "'a TaskRuntimeProjection_scheme \<Rightarrow> 'b TaskRuntimeProjection_scheme \<Rightarrow> bool" where
  "same_structure p q \<longleftrightarrow>
     (\<forall>k. map_option attempt_identity (map_of (attempts q) k) = map_option attempt_identity (map_of (attempts p) k)) \<and>
     (\<forall>k. map_option (\<lambda>t. (task_identity (ts_task t), ts_attemptIds t)) (map_of (tasks q) k) =
          map_option (\<lambda>t. (task_identity (ts_task t), ts_attemptIds t)) (map_of (tasks p) k)) \<and>
     (\<forall>k. map_option os_taskIds (map_of (objectives q) k) = map_option os_taskIds (map_of (objectives p) k)) \<and>
     (\<forall>k. map_option agent_identity (map_of (agents q) k) = map_option agent_identity (map_of (agents p) k))"

lemma same_structure_refl [simp]: "same_structure p p"
  by (simp add: same_structure_def)

lemma same_structure_trans: "same_structure p q \<Longrightarrow> same_structure q r \<Longrightarrow> same_structure p r"
  by (simp add: same_structure_def)

lemma record_step_structure: "record_step J loose d d' \<Longrightarrow> same_structure d d'"
  by (drule record_step_mono, erule record_step.cases)
    (auto simp: same_structure_def attempt_moves_def agent_moves_def task_moves_def dest!: write_fields)

lemma record_writes_structure: "record_writes J loose d d' \<Longrightarrow> same_structure d d'"
  by (induction rule: record_writes.induct) (auto dest: record_step_structure intro: same_structure_trans)

end
