(* ===== verification/Task_Writes.thy ===== *)
theory Task_Writes
  imports Record_Writes
begin

text \<open>
  The objective and task handlers write lawfully: each lemma states that a handler's effect is a sequence
  of record writes, or of structural writes for the handlers that create objectives, tasks and attempts.
\<close>

section \<open>Shared steps\<close>

lemma not_terminal_moves:
  "\<not> terminalAttemptStatus s \<Longrightarrow> attempt_status_moves s AttCancelled"
  "\<not> terminalAttemptStatus s \<Longrightarrow> attempt_status_moves s AttBlocked"
  by (cases s; simp)+

lemma not_retired_iff [simp]: "assertAgentNotRetired g = Inr u \<longleftrightarrow> agent_status g \<noteq> AgentRetired"
  by (simp add: assertAgentNotRetired_def)

lemma task_moves_status [simp]: "task_moves t (with_task_status s now t)"
  "ts_attemptIds (with_task_status s now t) = ts_attemptIds t"
  by (simp_all add: task_moves_def with_task_status_def task_identity_def)

lemma agent_moves_occupancy:
  "agent_status g \<noteq> AgentRetired \<Longrightarrow> s \<noteq> AgentRetired \<Longrightarrow>
   agent_moves g (g\<lparr>agent_status := s, agent_activeAttemptId := a, agent_updatedAt := t\<rparr>)"
  by (simp add: agent_moves_def agent_identity_def)

lemma releaseAttemptAgent_writes:
  "releaseAttemptAgent J a now d = Inr d' \<Longrightarrow> record_writes J True d d'"
  by (auto simp: releaseAttemptAgent_def agent_moves_occupancy
      intro: rw_none write_one split: option.splits if_splits)

lemma updateObjectiveStatus_writes:
  assumes "updateObjectiveStatus J k s now d = Inr d'"
    and "\<And>o1. map_of (objectives d) k = Some o1 \<Longrightarrow> objective_transition_valid (obj_status (os_objective o1)) s"
  shows "structural_writes J loose d d'" "s \<notin> {ObjCompleted, ObjCancelled} \<Longrightarrow> record_writes J loose d d'"
proof -
  from assms(1) obtain o1 where o1: "map_of (objectives d) k = Some o1"
    and p: "put_objective J k (o1\<lparr>os_objective := (os_objective o1)\<lparr>obj_status := s, obj_updatedAt := now\<rparr>\<rparr>) d = Inr d'"
    by (auto simp: updateObjectiveStatus_def lookup_objective_def)
  show "structural_writes J loose d d'"
    by (rule write_structural(7) [OF p o1]) (use assms(2) [OF o1] in \<open>simp_all add: objective_moves_def\<close>)
  show "record_writes J loose d d'" if "s \<notin> {ObjCompleted, ObjCancelled}"
    by (rule record_one, rule rec_objective [OF o1 _ _ _ p])
      (use assms(2) [OF o1] that in \<open>simp_all add: objective_moves_def objective_closed_def\<close>)
qed

lemma refresh_task_writes: "refresh_task J now d k = Inr d' \<Longrightarrow> record_writes J loose d d'"
  by (auto simp: refresh_task_def intro: rw_none write_one split: option.splits if_splits)

lemma foldE_record:
  "foldE f d xs = Inr d' \<Longrightarrow> (\<And>d x d'. x \<in> set xs \<Longrightarrow> f d x = Inr d' \<Longrightarrow> record_writes J loose d d') \<Longrightarrow> record_writes J loose d d'"
  by (rule foldE_relation [where R = "record_writes J loose"])
    (assumption | rule rw_none | erule (1) record_trans [rotated] | blast)+

lemma foldE_record_keyed:
  "foldE f d xs = Inr d' \<Longrightarrow> well_keyed d \<Longrightarrow>
   (\<And>d x d'. x \<in> set xs \<Longrightarrow> well_keyed d \<Longrightarrow> f d x = Inr d' \<Longrightarrow> record_writes J loose d d') \<Longrightarrow> record_writes J loose d d'"
proof (induction xs arbitrary: d)
  case (Cons x xs)
  from Cons.prems(1) obtain d1 where one: "f d x = Inr d1" and rest: "foldE f d1 xs = Inr d'" by auto
  have w: "record_writes J loose d d1" by (rule Cons.prems(3) [OF _ Cons.prems(2) one]) simp
  have "record_writes J loose d1 d'"
    using Cons.prems(2,3) by (intro Cons.IH [OF rest record_writes_keyed [OF w]]) auto
  then show ?case by (rule record_trans [OF _ w])
qed (simp add: rw_none)

lemma refreshReadyTasks_writes: "refreshReadyTasks J k now d = Inr d' \<Longrightarrow> record_writes J loose d d'"
  by (auto simp: refreshReadyTasks_def intro: rw_none foldE_record refresh_task_writes split: option.splits if_splits)

lemma attempt_moves_closed:
  assumes "\<not> terminalAttemptStatus (att_status a)" and "s \<in> {AttCancelled, AttBlocked}"
  shows "attempt_moves a (withoutAttemptRetry (a\<lparr>att_status := s, att_reasonCode := c,
     att_reasonDetail := r, att_updatedAt := now\<rparr>))"
    "attempt_moves a (withoutAttemptRetry (a\<lparr>att_status := s, att_reasonCode := c, att_updatedAt := now\<rparr>))"
  using assms
  by (auto simp: attempt_moves_def attempt_identity_def withoutAttemptRetry_def not_terminal_moves
      intro!: lease_moves_keep)

lemma cancel_open_attempt_writes:
  assumes "cancel_open_attempt J now c d k = Inr d'"
  shows "record_writes J True d d'"
  using assms
  by (auto simp: cancel_open_attempt_def attempt_moves_closed intro: rw_none write_then
      releaseAttemptAgent_writes split: option.splits if_splits)

lemma cancel_open_attempts_writes: "foldE (cancel_open_attempt J now c) d ks = Inr d' \<Longrightarrow> record_writes J True d d'"
  by (blast intro: foldE_record cancel_open_attempt_writes)

lemma cancel_open_task_writes:
  assumes "cancel_open_task J now c d k = Inr d'"
  shows "record_writes J True d d'"
  using assms
  by (auto simp: cancel_open_task_def intro: rw_none write_then
      cancel_open_attempts_writes split: option.splits if_splits)

lemma cancelOpenObjectiveWork_writes: "cancelOpenObjectiveWork J k now c d = Inr d' \<Longrightarrow> record_writes J True d d'"
  by (auto simp: cancelOpenObjectiveWork_def intro: rw_none foldE_record cancel_open_task_writes split: option.splits)

section \<open>Objective handlers\<close>

lemma status_transition_valid:
  "assertObjectiveStatusTransition d k target policy = Inr u \<Longrightarrow>
   \<exists>o1. map_of (objectives d) k = Some o1 \<and> objective_transition_valid (obj_status (os_objective o1)) target"
  by (auto simp: assertObjectiveStatusTransition_def lookup_objective_def)

lemma objective_status_writes:
  assumes "assertObjectiveStatusTransition d k s policy = Inr u" and "updateObjectiveStatus J k s now d = Inr d'"
  shows "structural_writes J loose d d'" "s \<notin> {ObjCompleted, ObjCancelled} \<Longrightarrow> record_writes J loose d d'"
  using updateObjectiveStatus_writes [OF assms(2)] status_transition_valid [OF assms(1)] by auto

lemma objective_created_writes:
  "apply_objective_created J event ob d = Inr d' \<Longrightarrow> structural_writes J loose d d'"
  by (auto simp: apply_objective_created_def Let_def objective_born_def intro: write_structural)

lemma objective_updated_writes:
  assumes "apply_objective_updated J event ob d = Inr d'"
  shows "record_writes J loose d d'"
proof -
  let ?k = "eh_aggregateId event"
  from assms obtain o1 where o1: "map_of (objectives d) ?k = Some o1" and id: "obj_objectiveId ob = ?k"
    and same: "obj_schemaVersion ob = obj_schemaVersion (os_objective o1)"
      "obj_status ob = obj_status (os_objective o1)" "obj_createdAt ob = obj_createdAt (os_objective o1)"
    and p: "put_objective J ?k (o1\<lparr>os_objective := ob\<rparr>) d = Inr d'"
    by (auto simp: apply_objective_updated_def assertObjectiveUpdateTransition_def lookup_objective_def)
  show ?thesis
    by (rule record_one, rule rec_objective [OF o1 _ _ _ p])
      (use id same in \<open>simp_all add: objective_moves_def objective_closed_def\<close>)
qed

lemma objective_evidence_writes:
  assumes "apply_objective_evidence_recorded J event ev d = Inr d'"
  shows "record_writes J loose d d'"
proof -
  let ?k = "eh_aggregateId event"
  from assms obtain o1 where o1: "map_of (objectives d) ?k = Some o1"
    and p: "d' = d \<or> put_objective J ?k (o1\<lparr>os_evidence := os_evidence o1 @ [ev]\<rparr>) d = Inr d'"
    by (auto simp: apply_objective_evidence_recorded_def assertObjectiveEvidenceTransition_def lookup_objective_def
        split: option.splits)
  from p show ?thesis
  proof
    assume p: "put_objective J ?k (o1\<lparr>os_evidence := os_evidence o1 @ [ev]\<rparr>) d = Inr d'"
    show ?thesis by (rule record_one, rule rec_objective [OF o1 _ _ _ p]) (simp_all add: objective_moves_def objective_closed_def)
  qed (simp add: rw_none)
qed

lemma applyObjectiveEvent_writes:
  assumes "applyObjectiveEvent J event e d = Inr d'"
  shows "structural_writes J True d d'"
proof (cases e)
  case (ObjectiveCreated ob)
  with assms show ?thesis by (simp add: objective_created_writes)
next
  case (ObjectiveUpdated ob)
  with assms show ?thesis by (simp add: objective_updated_writes record_structural)
next
  case (ObjectiveEvidenceRecorded ev)
  with assms show ?thesis by (simp add: objective_evidence_writes record_structural)
next
  case ObjectivePausedEvent
  with assms show ?thesis
    by (auto simp: apply_objective_paused_def intro: objective_status_writes(1))
next
  case ObjectiveResumedEvent
  with assms show ?thesis
    by (auto simp: apply_objective_resumed_def
        intro: structural_trans [OF record_structural] objective_status_writes(1) refreshReadyTasks_writes)
next
  case (ObjectiveCompletedEvent policy)
  with assms show ?thesis
    by (auto simp: apply_objective_completed_def
        intro: structural_trans [OF record_structural] objective_status_writes(1) cancelOpenObjectiveWork_writes)
next
  case ObjectiveCancelledEvent
  with assms show ?thesis
    by (auto simp: apply_objective_cancelled_def
        intro: structural_trans [OF record_structural] objective_status_writes(1) cancelOpenObjectiveWork_writes)
qed

end
