(* ===== verification/Host_Writes.thy ===== *)
theory Host_Writes
  imports Task_Writes
begin

text \<open>
  The host event handlers write lawfully, and touch no map outside the host event records; the source
  protocol keeps every consumer frontier in order.
\<close>

section \<open>Frame\<close>

text \<open>The maps the host event reducer does not write.\<close>

definition runtime_same :: "ReducerDraft \<Rightarrow> ReducerDraft \<Rightarrow> bool" where
  "runtime_same d d' \<longleftrightarrow> agents d' = agents d \<and> objectives d' = objectives d \<and> tasks d' = tasks d \<and>
     attempts d' = attempts d \<and> checkpoints d' = checkpoints d \<and> approvals d' = approvals d \<and>
     notifications d' = notifications d"

lemma put_delivery_sources:
  "put_delivery J k v d = Inr d' \<Longrightarrow> eventSources d' = eventSources d"
  "put_event J k w d = Inr d' \<Longrightarrow> eventSources d' = eventSources d"
  by (auto dest!: write_fields)

lemma foldE_sources:
  "foldE f d xs = Inr d' \<Longrightarrow> (\<And>d x d'. f d x = Inr d' \<Longrightarrow> eventSources d' = eventSources d) \<Longrightarrow>
   eventSources d' = eventSources d"
  by (erule foldE_relation [where R = "\<lambda>a b. eventSources b = eventSources a"]) auto

section \<open>Subscriptions\<close>

lemma revoke_subscription_writes: "revoke_subscription J ds r n d x = Inr d' \<Longrightarrow> record_writes J loose d d'"
  by (auto simp: revoke_subscription_def intro: rw_none write_one split: if_splits)

lemma retarget_delivery_writes: "retarget_delivery J s p n d x = Inr d' \<Longrightarrow> record_writes J loose d d'"
  by (auto simp: retarget_delivery_def intro: rw_none write_one split: if_splits HostEventDeliveryTarget.splits)

lemma retarget_deliveries_writes: "foldE (retarget_delivery J s p n) d xs = Inr d' \<Longrightarrow> record_writes J loose d d'"
  by (blast intro: foldE_record retarget_delivery_writes)

lemma declare_subscription_writes:
  assumes "declare_subscription J t r n d i = Inr d'" and "well_keyed d"
  shows "record_writes J loose d d'"
proof -
  let ?k = "hostEventSubscriptionId (je_hash J) t (si_threadKey i)"
  let ?new = "HostEventSubscriptionInput.extend i \<lparr>sub_subscriptionId = ?k, sub_taskId = t, sub_revision = r,
     sub_createdOrdinal = n, sub_revokedOrdinal = None\<rparr>"
  have new: "put_subscription J ?k ?new d = Inr d' \<Longrightarrow> record_writes J loose d d'"
    by (erule write_one(15)) (simp add: HostEventSubscriptionInput.defs)
  show ?thesis
  proof (cases "map_of (threadSubscriptions d) ?k")
    case None
    with assms(1) new show ?thesis by (simp add: declare_subscription_def Let_def)
  next
    case (Some prior)
    then have k: "sub_subscriptionId prior = ?k" by (rule keyed_at(3) [OF assms(2)])
    show ?thesis
    proof (cases "subscription_member prior i \<and> si_wake prior \<noteq> si_wake i")
      case True
      with assms(1) Some obtain d1 where
        a: "put_subscription J ?k (prior\<lparr>si_wake := si_wake i, sub_revision := r\<rparr>) d = Inr d1"
        and b: "foldE (retarget_delivery J ?k (sub_revision prior) r) d1 (js_values (eventDeliveries d1)) = Inr d'"
        unfolding declare_subscription_def Let_def by (simp only: option.case) auto
      have "record_writes J loose d d1" by (rule write_one(15) [OF a]) (simp add: k)
      with retarget_deliveries_writes [OF b] show ?thesis by (rule record_trans)
    next
      case False
      with assms(1) Some have "d' = d \<or> put_subscription J ?k ?new d = Inr d'"
        unfolding declare_subscription_def Let_def by (simp only: option.case) (metis Inr_inject)
      with new show ?thesis by (metis rw_none)
    qed
  qed
qed

lemma replaceHostEventSubscriptions_writes:
  assumes "replaceHostEventSubscriptions J t inputs r n d = Inr d'" and "well_keyed d"
  shows "record_writes J loose d d'"
proof -
  from assms(1) obtain ds q d1 where a: "foldE (revoke_subscription J ds q n) d (task_subscriptions d t) = Inr d1"
    and b: "foldE (declare_subscription J t q n) d1 inputs = Inr d'"
    by (auto simp: replaceHostEventSubscriptions_def Let_def)
  have one: "record_writes J loose d d1" by (rule foldE_record [OF a]) (rule revoke_subscription_writes)
  have "record_writes J loose d1 d'"
    by (rule foldE_record_keyed [OF b record_writes_keyed [OF one assms(2)]]) (rule declare_subscription_writes)
  then show ?thesis by (rule record_trans [OF _ one])
qed

section \<open>Acceptance\<close>

lemma find_delivery_Some:
  "find_delivery P m ids = Inr (Some x) \<Longrightarrow> P x \<and> (\<exists>k. map_of m k = Some x)"
  by (induction P m ids rule: find_delivery.induct) (auto split: if_splits)

lemma settle_delivery_id [simp]: "del_deliveryId (settle_delivery r t x) = del_deliveryId x"
  by (simp add: settle_delivery_def)

lemma settleUnusedRoot_writes:
  assumes "settleUnusedRoot J e now d = Inr d'"
  shows "record_writes J loose d d'"
proof -
  from assms have "d' = d \<or> (\<exists>v. put_delivery J (del_deliveryId v) (settle_delivery ''task_delivery_settled'' now v) d = Inr d')"
    unfolding settleUnusedRoot_def bindE_eq_Inr by (elim exE conjE) (simp split: if_split_asm option.split_asm, blast)
  then show ?thesis by (auto intro: rw_none write_one(16))
qed

lemma put_new_deliveries_writes: "foldE (put_new_delivery J) d xs = Inr d' \<Longrightarrow> record_writes J loose d d'"
  by (rule foldE_record) (auto simp: put_new_delivery_def intro: write_one)

lemma ciEventDeliveries_writes:
  assumes "ciEventDeliveries J s item d = Inr (ids, d')"
  shows "record_writes J loose d d'" "eventSources d' = eventSources d" "hostEvents d' = hostEvents d"
proof -
  from assms obtain copies copy d1 where a: "foldE (put_new_delivery J) d copies = Inr d1"
    and b: "put_new_delivery J d1 copy = Inr d'"
    by (auto simp: ciEventDeliveries_def Let_def)
  show "record_writes J loose d d'"
    using put_new_deliveries_writes [OF a] b
    by (auto simp: put_new_delivery_def intro: record_trans [rotated] write_one)
  have "eventSources d1 = eventSources d \<and> hostEvents d1 = hostEvents d"
    by (rule foldE_relation [where R = "\<lambda>a b. eventSources b = eventSources a \<and> hostEvents b = hostEvents a", OF a])
      (auto simp: put_new_delivery_def dest!: write_fields)
  with b show "eventSources d' = eventSources d" "hostEvents d' = hostEvents d"
    by (auto simp: put_new_delivery_def dest!: write_fields)
qed

lemma acceptCanonicalHostEvent_writes:
  assumes "acceptCanonicalHostEvent J event e c origin d = Inr d'" and "map_of (hostEvents d) (env_eventId e) = None"
  shows "record_writes J loose d d'" "eventSources d' = eventSources d"
proof -
  from assms(1) obtain s ids d1 v where
    d1: "(case env_event e of CiEvent item \<Rightarrow> ciEventDeliveries J s item d
          | GithubEvent item \<Rightarrow>
              bindE (host_require (\<exists>s' \<in> set (reg_subjects (src_registration s)).
                 cs_host s' = gh_host item \<and> cs_repositoryId s' = gh_repositoryId item) HostSourceConflict)
               (\<lambda>_. Inr ([], d))) = Inr (ids, d1)"
    and p: "put_event J (env_eventId e) v d1 = Inr d'" and v: "ae_envelope v = e"
    and free: "\<not> position_held (hostEvents d) (env_sourceId e) (env_sourceEpoch e) (env_sourceSequence e)"
    by (auto simp: acceptCanonicalHostEvent_def)
  have w: "record_writes J loose d d1" "eventSources d1 = eventSources d" "hostEvents d1 = hostEvents d"
    using d1 by (auto split: HostEventPayload.splits intro: rw_none dest: ciEventDeliveries_writes)
  show "record_writes J loose d d'"
    using w assms(2) v free by (intro record_trans [OF write_one(13) [OF p] w(1)]) simp_all
  show "eventSources d' = eventSources d" using w p by (auto dest!: write_fields)
qed

section \<open>Source protocol\<close>

lemma source_with_epoch_at:
  "source_with_epoch d g k epoch = Inr s \<Longrightarrow>
   map_of (eventSources d) k = Some s \<and> src_ended s = None \<and> g = k \<and> epoch = reg_sourceEpoch (src_registration s)"
  by (auto simp: source_with_epoch_def)

lemma rescope_delivery_writes:
  assumes "rescope_delivery J now r kept d k = Inr d'" and "well_keyed d"
  shows "record_writes J loose d d'"
  using assms
  by (auto simp: rescope_delivery_def keyed_at(4) intro: rw_none write_one(16) split: if_split_asm)

lemma rescope_event_writes:
  assumes "rescope_event J now p r d a = Inr d'" and "well_keyed d"
  shows "record_writes J loose d d'" "eventSources d' = eventSources d"
proof -
  from assms(1) obtain kept where "d' = d \<or> foldE (rescope_delivery J now r kept) d (ae_deliveryIds a) = Inr d'"
    by (auto simp: rescope_event_def Let_def split: if_split_asm option.split_asm)
  then show "record_writes J loose d d'" "eventSources d' = eventSources d"
    by (auto intro: rw_none foldE_record_keyed rescope_delivery_writes assms(2),
        auto elim!: foldE_sources simp: rescope_delivery_def dest: put_delivery_sources split: if_split_asm)
qed

text \<open>A fold of steps that leave the sources alone.\<close>

lemma foldE_record_sources:
  assumes "foldE f d xs = Inr d'" and "well_keyed d"
    and "\<And>d x d'. x \<in> set xs \<Longrightarrow> well_keyed d \<Longrightarrow> f d x = Inr d' \<Longrightarrow>
      record_writes J loose d d' \<and> eventSources d' = eventSources d"
  shows "record_writes J loose d d' \<and> eventSources d' = eventSources d"
  using assms
proof (induction xs arbitrary: d)
  case (Cons x xs)
  from Cons.prems(1) obtain d1 where one: "f d x = Inr d1" and rest: "foldE f d1 xs = Inr d'" by auto
  have w: "record_writes J loose d d1" "eventSources d1 = eventSources d"
    using Cons.prems(3) [OF _ Cons.prems(2) one] by auto
  have "record_writes J loose d1 d' \<and> eventSources d' = eventSources d1"
    using Cons.prems(2,3) by (intro Cons.IH [OF rest record_writes_keyed [OF w(1)]]) auto
  with w show ?case by (auto intro: record_trans)
qed (simp add: rw_none)

lemma source_born_new: "reg_startingSequence r \<ge> 1 \<Longrightarrow> source_born (reg_sourceId r) (new_source_state xs r)"
  by (auto simp: source_born_def new_source_state_def source_ok_def)

lemma source_registered_writes:
  assumes "apply_source_registered J event r d = Inr d'" and "well_keyed d"
  shows "record_writes J loose d d'"
proof -
  let ?k = "reg_sourceId r"
  from assms(1) have start: "1 \<le> reg_startingSequence r"
    by (auto simp: apply_source_registered_def Let_def parseHostEventSourceRegistration_def)
  show ?thesis
  proof (cases "map_of (eventSources d) ?k")
    case None
    with assms(1) have "put_source J ?k (new_source_state (js_values (eventSources d)) r) d = Inr d'"
      by (auto simp: apply_source_registered_def Let_def)
    then show ?thesis by (rule write_one(11)) (use None start in \<open>auto intro: source_born_new\<close>)
  next
    case (Some s)
    then have id: "reg_sourceId (src_registration s) = ?k" by (rule keyed_at(1) [OF assms(2)])
    let ?t = "s\<lparr>src_registration := r\<rparr>"
    from assms(1) Some have open_source: "src_ended s = None" by (simp add: apply_source_registered_def Let_def)
    let ?adopts = "reg_storeIdentity (src_registration s) = None \<and> reg_storeIdentity r \<noteq> None \<and>
      src_registration s = r\<lparr>reg_storeIdentity := None\<rparr>"
    note body = assms(1) [unfolded apply_source_registered_def Let_def Some option.case]
    show ?thesis
    proof (cases "src_registration s = r")
      case True
      with body have "d' = d" by simp
      then show ?thesis by (simp add: rw_none)
    next
      case differs: False
      show ?thesis
      proof (cases ?adopts)
        case True
        with body differs have p: "put_source J ?k ?t d = Inr d'" by auto
        have "source_moves s ?t" using open_source True by (simp add: source_moves_def source_ok_def)
        then show ?thesis by (rule write_one(10) [OF p Some])
      next
        case False
        with body differs obtain d1 where
          r: "reg_sourceEpoch (src_registration s) = reg_sourceEpoch r"
            "reg_startingSequence (src_registration s) = reg_startingSequence r"
            "reg_scopeVersion r = reg_scopeVersion (src_registration s) + 1"
          and f: "foldE (rescope_event J (eh_occurredAt event) (src_registration s) r) d (js_values (hostEvents d)) = Inr d1"
          and p: "put_source J ?k ?t d1 = Inr d'"
          by auto
        have w: "record_writes J loose d d1 \<and> eventSources d1 = eventSources d"
          by (rule foldE_record_sources [OF f assms(2)]) (blast dest: rescope_event_writes)
        have "source_moves s ?t" using r open_source id by (simp add: source_moves_def source_ok_def)
        then show ?thesis using w Some by (intro record_trans [OF write_one(10) [OF p]]) auto
      qed
    qed
  qed
qed

lemma catchup_started_writes:
  assumes "apply_catchup_started J event c d = Inr d'"
  shows "record_writes J loose d d'"
  using assms
  by (auto simp: apply_catchup_started_def source_moves_def source_ok_def dest!: source_with_epoch_at intro!: write_one(10))

lemma replay_gap_writes:
  assumes "apply_replay_gap J event gap d = Inr d'"
  shows "record_writes J loose d d'"
proof -
  from assms obtain s where s: "map_of (eventSources d) (cu_sourceId gap) = Some s" "src_ended s = None"
    and after: "gap_afterSequence gap = src_acceptedThrough s" and order: "gap_afterSequence gap < gap_throughSequence gap"
    and p: "put_source J (cu_sourceId gap)
       (s\<lparr>src_acceptedThrough := gap_throughSequence gap, src_retiredThrough := gap_throughSequence gap,
               src_replayFloor := gap_throughSequence gap + 1, src_lastReplayGap := Some gap,
               src_unaccepted := hostEventUnacceptedWith (src_unaccepted s)
                 \<lparr>rng_from = gap_afterSequence gap + 1, rng_through = gap_throughSequence gap\<rparr>\<rparr>) d = Inr d'"
    by (auto simp: apply_replay_gap_def parseHostEventReplayGap_def dest!: source_with_epoch_at)
  show ?thesis
    by (rule write_one(10) [OF p s(1)])
      (use after order s(2) in \<open>auto simp: source_moves_def source_ok_def
        intro!: unaccepted_with_ok unaccepted_with_below intro: ranges_below_mono\<close>)
qed

lemma source_retired_writes:
  assumes "apply_source_retired J event h d = Inr d'"
  shows "record_writes J loose d d'"
  using assms
  by (auto simp: apply_source_retired_def source_moves_def source_ok_def dest!: source_with_epoch_at intro!: write_one(10))

text \<open>While snapshots are admitted the sealed source changes only in its unaccepted ranges.\<close>

lemma admit_snapshot_writes:
  assumes "admit_snapshot J event seal f c origin d x = Inr d'"
    and at: "map_of (eventSources d) (seal_sourceId seal) = Some (s\<lparr>src_unaccepted := u\<rparr>)"
    and "src_ended s = None"
  shows "record_writes J loose d d'"
    "\<exists>u'. map_of (eventSources d') (seal_sourceId seal) = Some (s\<lparr>src_unaccepted := u'\<rparr>)"
proof -
  let ?k = "seal_sourceId seal" and ?id = "ct_eventId (env_event x)"
  let ?c = "s\<lparr>src_unaccepted := u\<rparr>" and ?u = "hostEventUnacceptedWithout u (env_sourceSequence x)"
  have cases: "d' = d \<or> map_of (hostEvents d) ?id = None \<and>
      (\<exists>d1. acceptCanonicalHostEvent J event (ci_envelope x) c origin d = Inr d1 \<and>
         put_source J ?k (?c\<lparr>src_unaccepted := ?u\<rparr>) d1 = Inr d')"
    using assms(1) at unfolding admit_snapshot_def Let_def bindE_eq_Inr
    by (elim exE conjE) (auto split: option.split_asm if_split_asm)
  have id: "env_eventId (ci_envelope x) = ?id" by (simp add: env_eventId_def ci_envelope_def)
  have moves: "source_moves ?c (?c\<lparr>src_unaccepted := ?u\<rparr>)"
    using assms(3) by (simp add: source_moves_def source_ok_def unaccepted_without_ok unaccepted_without_below)
  from cases consider "d' = d" | d1 where "record_writes J loose d d1" "eventSources d1 = eventSources d"
      "put_source J ?k (?c\<lparr>src_unaccepted := ?u\<rparr>) d1 = Inr d'"
    using acceptCanonicalHostEvent_writes [where e = "ci_envelope x", unfolded id] by blast
  then have "record_writes J loose d d' \<and> (\<exists>u'. map_of (eventSources d') ?k = Some (s\<lparr>src_unaccepted := u'\<rparr>))"
  proof cases
    case 2
    from at 2(2) have at1: "map_of (eventSources d1) ?k = Some ?c" by simp
    from put_source_fields [OF 2(3)] have "map_of (eventSources d') ?k = Some (s\<lparr>src_unaccepted := ?u\<rparr>)" by simp
    with record_trans [OF write_one(10) [OF 2(3) at1 moves] 2(1)] show ?thesis by blast
  qed (use at in \<open>blast intro: rw_none\<close>)
  then show "record_writes J loose d d'" "\<exists>u'. map_of (eventSources d') ?k = Some (s\<lparr>src_unaccepted := u'\<rparr>)" by blast+
qed

lemma admit_snapshots_writes:
  assumes "foldE (admit_snapshot J event seal f c origin) d xs = Inr d'"
    and "map_of (eventSources d) (seal_sourceId seal) = Some (s\<lparr>src_unaccepted := u\<rparr>)" and "src_ended s = None"
  shows "record_writes J loose d d' \<and>
    (\<exists>u'. map_of (eventSources d') (seal_sourceId seal) = Some (s\<lparr>src_unaccepted := u'\<rparr>))"
  using assms
proof (induction xs arbitrary: d u)
  case (Cons x xs)
  from Cons.prems(1) obtain d1 where one: "admit_snapshot J event seal f c origin d x = Inr d1"
    and rest: "foldE (admit_snapshot J event seal f c origin) d1 xs = Inr d'" by auto
  note w = admit_snapshot_writes [OF one Cons.prems(2,3)]
  from w(2) obtain u' where "map_of (eventSources d1) (seal_sourceId seal) = Some (s\<lparr>src_unaccepted := u'\<rparr>)" ..
  from Cons.IH [OF rest this Cons.prems(3)] w(1) show ?case by (auto intro: record_trans)
qed (auto intro: rw_none)

lemma seal_delivery_writes:
  assumes "seal_delivery J now a cur consumed d k = Inr d'" and "well_keyed d"
  shows "record_writes J loose d d'"
  using assms
  by (auto simp: seal_delivery_def keyed_at(4) intro: rw_none write_one(16) split: if_split_asm)

lemma seal_events_writes:
  assumes "foldE (seal_event J now) d as = Inr d'" and "well_keyed d"
  shows "record_writes J loose d d'"
  using assms
proof (rule foldE_record_keyed)
  fix d a d'
  assume "well_keyed d" and "seal_event J now d a = Inr d'"
  then show "record_writes J loose d d'"
    by (auto simp: seal_event_def Let_def intro: rw_none foldE_record_keyed seal_delivery_writes split: option.split_asm)
qed

lemma source_sealed_writes:
  assumes "apply_source_sealed J event seal c origin d = Inr d'" and "well_keyed d"
  shows "record_writes J loose d d'"
proof -
  let ?k = "seal_sourceId seal"
  from assms(1) obtain s d1 c1 d2 where
    s: "map_of (eventSources d) ?k = Some s" "src_ended s = None"
    and a: "foldE (admit_snapshot J event seal (src_replayFloor s) c origin) d
       (case seal_snapshots seal of None \<Rightarrow> [] | Some ss \<Rightarrow> ss) = Inr d1"
    and c1: "map_of (eventSources d1) ?k = Some c1"
    and p: "put_source J ?k (c1\<lparr>src_seal := Some (hostEventSealedFrontier seal)\<rparr>) d1 = Inr d2"
    and e: "foldE (seal_event J (eh_occurredAt event)) d2
        (filter (\<lambda>a. env_sourceId (ae_envelope a) = ?k) (js_values (hostEvents d2))) = Inr d'"
    by (auto simp: apply_source_sealed_def Let_def dest!: source_with_epoch_at)
  have w1: "record_writes J loose d d1" and c1': "src_ended c1 = None"
    using admit_snapshots_writes [OF a, where s = s and u = "src_unaccepted s" and loose = loose] s c1 by auto
  have "source_moves c1 (c1\<lparr>src_seal := Some (hostEventSealedFrontier seal)\<rparr>)"
    using c1' by (simp add: source_moves_def source_ok_def)
  with w1 have w2: "record_writes J loose d d2" by (blast intro: record_trans write_one(10) [OF p c1])
  show ?thesis
    by (rule record_trans [OF seal_events_writes [OF e record_writes_keyed [OF w2 assms(2)]] w2])
qed

lemma end_delivery_writes:
  assumes "end_delivery J now d k = Inr d'" and "well_keyed d"
  shows "record_writes J loose d d' \<and> eventSources d' = eventSources d"
  using assms
  by (auto simp: end_delivery_def keyed_at(4) intro: rw_none write_one(16) dest: put_delivery_sources split: if_split_asm)

lemma end_event_writes:
  assumes "end_event J now sid d a = Inr d'" and "well_keyed d"
  shows "record_writes J loose d d' \<and> eventSources d' = eventSources d"
proof (cases "env_sourceId (ae_envelope a) = sid")
  case True
  with assms(1) have f: "foldE (end_delivery J now) d (ae_deliveryIds a) = Inr d'" by (simp add: end_event_def)
  show ?thesis by (rule foldE_record_sources [OF f assms(2)]) (rule end_delivery_writes)
qed (use assms in \<open>auto simp: end_event_def rw_none\<close>)

lemma source_ended_writes:
  assumes "apply_source_ended J event x d = Inr d'" and "well_keyed d"
  shows "record_writes J loose d d'"
proof -
  let ?k = "end_sourceId x"
  from assms(1) obtain s d1 where s: "map_of (eventSources d) ?k = Some s" "src_ended s = None"
    and f: "foldE (end_event J (eh_occurredAt event) ?k) d (js_values (hostEvents d)) = Inr d1"
    and p: "put_source J ?k (s\<lparr>src_seal := None, src_retiredThrough := src_acceptedThrough s,
               src_ended := Some (end_reason x, eh_occurredAt event)\<rparr>) d1 = Inr d'"
    by (auto simp: apply_source_ended_def dest!: source_with_epoch_at)
  have w: "record_writes J loose d d1 \<and> eventSources d1 = eventSources d"
    by (rule foldE_record_sources [OF f assms(2)]) (rule end_event_writes)
  show ?thesis
    by (rule record_trans [OF write_one(10) [OF p]]) (use w s in \<open>auto simp: source_moves_def source_ok_def\<close>)
qed

lemma applyHostSourceEvent_writes:
  assumes "applyHostSourceEvent J event e d = Inr d'" and "well_keyed d"
  shows "record_writes J loose d d'"
  using assms
  by (cases e) (auto intro: source_registered_writes catchup_started_writes replay_gap_writes source_sealed_writes
      source_ended_writes source_retired_writes)

section \<open>Delivery protocol\<close>

lemma bound_delivery_at:
  "bound_delivery d event b = Inr y \<Longrightarrow> map_of (eventDeliveries d) (hb_deliveryId b) = Some y"
  by (auto simp: bound_delivery_def)

lemma host_event_accepted_writes:
  assumes "apply_host_event_accepted J event e c origin d = Inr d'"
  shows "record_writes J loose d d'"
proof -
  from assms obtain s d1 where s: "map_of (eventSources d) (env_sourceId e) = Some s" "src_ended s = None"
    and follows: "env_sourceSequence e = src_acceptedThrough s + 1" and new: "map_of (hostEvents d) (env_eventId e) = None"
    and a: "acceptCanonicalHostEvent J event e c origin d = Inr d1"
    and p: "put_source J (env_sourceId e) (s\<lparr>src_acceptedThrough := env_sourceSequence e\<rparr>) d1 = Inr d'"
    by (auto simp: apply_host_event_accepted_def Let_def)
  note w = acceptCanonicalHostEvent_writes [OF a new]
  show ?thesis
    by (rule record_trans [OF write_one(10) [OF p] w(1)])
      (use w(2) s follows in \<open>auto simp: source_moves_def source_ok_def intro: ranges_below_mono\<close>)
qed

lemma delivery_bound_writes:
  assumes "apply_delivery_bound J event b d = Inr d'" and "well_keyed d"
  shows "record_writes J loose d d'"
  using assms by (auto simp: apply_delivery_bound_def Let_def keyed_at(4) intro!: write_one(16))

lemma event_consumed_writes:
  assumes "apply_event_consumed J event b r d = Inr d'" and "well_keyed d"
  shows "record_writes J loose d d'"
  using assms
  by (auto simp: apply_event_consumed_def keyed_at(4) dest!: bound_delivery_at
      intro: write_then(16) settleUnusedRoot_writes)

lemma hand_back_root_writes: "hand_back_root J e d = Inr d' \<Longrightarrow> record_writes J loose d d'"
  unfolding hand_back_root_def bindE_eq_Inr
  by (elim exE conjE) (auto intro: rw_none write_one(16) split: option.split_asm if_split_asm)

lemma delivery_settled_writes:
  assumes "apply_delivery_settled J event k r d = Inr d'" and "well_keyed d"
  shows "record_writes J loose d d'"
proof -
  from assms(1) obtain y d1 a d2 where y: "map_of (eventDeliveries d) k = Some y"
    and p: "put_delivery J k (settle_delivery r (eh_occurredAt event) y) d = Inr d1"
    and h: "d2 = d1 \<or> hand_back_root J a d1 = Inr d2"
    and u: "settleUnusedRoot J a (eh_occurredAt event) d2 = Inr d'"
    by (auto simp: apply_delivery_settled_def split: if_split_asm)
  have "record_writes J loose d d1" by (rule write_one(16) [OF p]) (simp add: keyed_at(4) [OF assms(2) y])
  moreover have "record_writes J loose d1 d2" using h by (auto intro: rw_none hand_back_root_writes)
  ultimately show ?thesis using settleUnusedRoot_writes [OF u] by (blast intro: record_trans)
qed

lemma prune_event_writes:
  assumes "prune_event J event pressure d k = Inr d'"
  shows "record_writes J loose d d' \<and> eventSources d' = eventSources d"
proof -
  have del: "record_writes J loose d0 d1 \<and> eventSources d1 = eventSources d0"
    if "foldE (\<lambda>d i. delete_delivery J i d) d0 ids = Inr d1" for d0 d1 ids
    using foldE_record [OF that, of J] foldE_sources [OF that] write_one(17) delete_delivery_fields by blast
  show ?thesis
  proof (cases "map_of (hostEvents d) k")
    case None
    with assms show ?thesis by (simp add: prune_event_def rw_none)
  next
    case (Some a)
    with assms obtain d1 where f: "foldE (\<lambda>d i. delete_delivery J i d) d (ae_deliveryIds a) = Inr d1"
      and g: "delete_event J k d1 = Inr d'"
      by (auto simp: prune_event_def)
    from del [OF f] record_trans [OF write_one(14) [OF g]] delete_event_fields [OF g] show ?thesis by auto
  qed
qed

lemma prune_sources_writes:
  assumes "foldE (prune_source J) d xs = Inr d'"
    and "\<forall>s \<in> set xs. map_of (eventSources d) (reg_sourceId (src_registration s)) \<in> {None, Some s}"
  shows "record_writes J loose d d'"
  using assms
proof (induction xs arbitrary: d)
  case (Cons s xs)
  let ?k = "reg_sourceId (src_registration s)"
  from Cons.prems(1) obtain d1 where one: "prune_source J d s = Inr d1" and rest: "foldE (prune_source J) d1 xs = Inr d'"
    by auto
  from one consider "d1 = d" | "src_ended s \<noteq> None" "delete_source J ?k d = Inr d1"
    by (auto simp: prune_source_def Let_def split: if_split_asm)
  then show ?case
  proof cases
    case 1
    with Cons.IH [OF rest] Cons.prems(2) show ?thesis by simp
  next
    case 2
    have "record_writes J loose d d1" by (rule write_one(12) [OF 2(2)]) (use 2(1) Cons.prems(2) in auto)
    moreover have "record_writes J loose d1 d'"
      by (rule Cons.IH [OF rest]) (use delete_source_fields [OF 2(2)] Cons.prems(2) in \<open>simp del: insert_iff add: ball_simps, simp\<close>)
    ultimately show ?thesis by (blast intro: record_trans)
  qed
qed (simp add: rw_none)

lemma events_pruned_writes:
  assumes "apply_events_pruned J event ids pressure d = Inr d'" and "well_keyed d"
  shows "record_writes J loose d d'"
proof -
  from assms(1) obtain d1 where a: "foldE (prune_event J event pressure) d ids = Inr d1"
    and b: "foldE (prune_source J) d1 (js_values (eventSources d1)) = Inr d'"
    by (auto simp: apply_events_pruned_def)
  have w: "record_writes J loose d d1" by (rule foldE_record [OF a]) (blast dest: prune_event_writes)
  have "keyed_map (\<lambda>s. reg_sourceId (src_registration s)) (eventSources d1)"
    using record_writes_keyed [OF w assms(2)] by (simp add: well_keyed_def)
  then have "record_writes J loose d1 d'"
    by (intro prune_sources_writes [OF b]) (simp only: keyed_value insert_iff Ball_def, simp)
  then show ?thesis by (rule record_trans [OF _ w])
qed

lemma applyHostDeliveryEvent_writes:
  assumes "applyHostDeliveryEvent J event e d = Inr d'" and "well_keyed d"
  shows "record_writes J loose d d'"
proof (cases e)
  case (SubscriptionsReplaced t xs r sc)
  with assms show ?thesis
    by (auto simp: apply_subscriptions_replaced_def intro: replaceHostEventSubscriptions_writes)
next
  case (BindingRetired b)
  with assms show ?thesis
    by (auto simp: apply_binding_retired_def keyed_at(4) dest!: bound_delivery_at intro!: write_one(16))
next
  case (MailboxAccepted b)
  with assms show ?thesis
    by (auto simp: apply_mailbox_accepted_def keyed_at(4) dest!: bound_delivery_at intro!: write_one(16))
next
  case (MailboxSettled b)
  with assms show ?thesis
    by (auto simp: apply_mailbox_settled_def keyed_at(4) dest!: bound_delivery_at intro!: write_one(16))
next
  case (RootConsumed k p h)
  with assms show ?thesis by (auto simp: apply_root_consumed_def keyed_at(4) intro!: write_one(16))
qed (use assms in \<open>auto intro: host_event_accepted_writes delivery_bound_writes event_consumed_writes
    delivery_settled_writes events_pruned_writes\<close>)

end
