(* ===== verification/Attempt_Writes.thy ===== *)
theory Attempt_Writes
  imports Host_Writes
begin

text \<open>
  The task, agent, attempt, approval and notification handlers write lawfully.
\<close>

section \<open>Task handlers\<close>

lemma keyed_attempts: "well_keyed d \<Longrightarrow> attempts_keyed d"
  by (auto simp: attempts_keyed_def dest: keyed_at(8))

lemma applyTaskCreated_writes:
  assumes "applyTaskCreated J event task subs d = Inr d'" and "well_keyed d"
  shows "structural_writes J loose d d'"
proof -
  let ?t = "\<lparr>ts_task = task, ts_attemptIds = [], ts_verification = None\<rparr>"
  from assms(1) obtain o1 d1 d2 d3 where
    o1: "map_of (objectives d) (task_objectiveId task) = Some o1" and new: "map_of (tasks d) (task_taskId task) = None"
    and p1: "put_task J (task_taskId task) ?t d = Inr d1"
    and p2: "put_objective J (task_objectiveId task) (o1\<lparr>os_taskIds := os_taskIds o1 @ [task_taskId task]\<rparr>) d1 = Inr d2"
    and r: "refreshReadyTasks J (task_objectiveId task) (eh_occurredAt event) d2 = Inr d3"
    and run: "(case subs of None \<Rightarrow> Inr d3 | Some inputs \<Rightarrow>
         bindE (parse_subscription_inputs J inputs) (\<lambda>_.
         replaceHostEventSubscriptions J (task_taskId task) inputs 0 (eh_ordinal event) d3)) = Inr d'"
    unfolding applyTaskCreated_def bindE_eq_Inr lookupE_eq_Inr require_eq_Inr by blast
  have s: "d' = d3 \<or> (\<exists>inputs. replaceHostEventSubscriptions J (task_taskId task) inputs 0 (eh_ordinal event) d3 = Inr d')"
    using run by (auto split: option.split_asm)
  have w1: "structural_writes J loose d d1" by (rule write_structural(3) [OF p1 new]) (simp add: task_born_def)
  have "structural_writes J loose d1 d2"
    by (rule write_structural(6) [OF p2]) (use o1 put_task_fields [OF p1] in simp)
  with w1 record_structural [OF refreshReadyTasks_writes [OF r]] have w3: "structural_writes J loose d d3"
    by (blast intro: structural_trans)
  from s show ?thesis
  proof
    assume "\<exists>inputs. replaceHostEventSubscriptions J (task_taskId task) inputs 0 (eh_ordinal event) d3 = Inr d'"
    then have "record_writes J loose d3 d'"
      using structural_writes_keyed [OF w3 assms(2)] by (blast intro: replaceHostEventSubscriptions_writes)
    with w3 show ?thesis by (blast intro: structural_trans record_structural)
  qed (use w3 in simp)
qed

lemma pin_preceding_writes:
  assumes "pin_preceding_verification J t d = Inr d'" and "well_keyed d"
  shows "record_writes J loose d d'" "tasks d' = tasks d" "objectives d' = objectives d" "agents d' = agents d"
proof -
  have "d' = d \<or> (\<exists>a v. selectedTaskAttempt d t = Some a \<and> att_verification a = None \<and>
      put_attempt J (att_attemptId a) (a\<lparr>att_verification := Some v\<rparr>) d = Inr d')"
    using assms(1) unfolding pin_preceding_verification_def by (auto split: option.split_asm if_split_asm)
  then consider "d' = d" | a v where "selectedTaskAttempt d t = Some a" "att_verification a = None"
    "put_attempt J (att_attemptId a) (a\<lparr>att_verification := Some v\<rparr>) d = Inr d'" by blast
  then have "record_writes J loose d d' \<and> tasks d' = tasks d \<and> objectives d' = objectives d \<and> agents d' = agents d"
  proof cases
    case 2
    note at = selected_keyed [OF keyed_attempts [OF assms(2)] 2(1)]
    have "attempt_moves a (a\<lparr>att_verification := Some v\<rparr>)"
      using 2(2) by (simp add: attempt_moves_def attempt_identity_def lease_moves_keep)
    then have "record_writes J loose d d'" by (rule write_one(1) [OF 2(3) at]) simp
    with put_attempt_fields [OF 2(3)] show ?thesis by blast
  qed (simp add: rw_none)
  then show "record_writes J loose d d'" "tasks d' = tasks d" "objectives d' = objectives d" "agents d' = agents d" by auto
qed

lemma applyAttemptQueued_steps:
  assumes "applyAttemptQueued J q now d = Inr d'"
  shows "\<exists>t o1 d1 d2 s. map_of (tasks d) (qa_taskId q) = Some t \<and> map_of (attempts d) (qa_attemptId q) = None \<and>
    activeTaskAttempt d t = None \<and> map_of (objectives d) (task_objectiveId (ts_task t)) = Some o1 \<and>
    obj_status (os_objective o1) = ObjActive \<and> assertTaskAttemptBudgetForState t (os_objective o1) = Inr () \<and>
    dispatch_taskId (qa_dispatch q) = qa_taskId q \<and>
    pin_preceding_verification J (qa_taskId q) d = Inr d1 \<and>
    put_attempt J (qa_attemptId q) (queued_attempt_state q now) d1 = Inr d2 \<and>
    put_task J (qa_taskId q) ((with_task_status s now t)\<lparr>ts_attemptIds := ts_attemptIds t @ [qa_attemptId q]\<rparr>) d2 = Inr d'"
  using assms unfolding applyAttemptQueued_def Let_def lookup_task_def bindE_eq_Inr
  by (elim exE conjE) (simp split: option.split_asm, blast)

lemma same_structure_absent: "same_structure p q \<Longrightarrow> map_of (attempts q) k = None \<longleftrightarrow> map_of (attempts p) k = None"
  unfolding same_structure_def by (drule conjunct1, drule spec [of _ k]) (cases "map_of (attempts p) k"; cases "map_of (attempts q) k"; simp)

lemma applyAttemptQueued_writes:
  assumes "applyAttemptQueued J q now d = Inr d'" and "well_keyed d"
  shows "structural_writes J loose d d'"
proof -
  from applyAttemptQueued_steps [OF assms(1)] obtain t o1 d1 d2 s where
    t: "map_of (tasks d) (qa_taskId q) = Some t" and new: "map_of (attempts d) (qa_attemptId q) = None"
    and pin: "pin_preceding_verification J (qa_taskId q) d = Inr d1"
    and p1: "put_attempt J (qa_attemptId q) (queued_attempt_state q now) d1 = Inr d2"
    and p2: "put_task J (qa_taskId q) ((with_task_status s now t)\<lparr>ts_attemptIds := ts_attemptIds t @ [qa_attemptId q]\<rparr>) d2 = Inr d'"
    by blast
  note w1 = pin_preceding_writes [OF pin assms(2)]
  have "map_of (attempts d1) (qa_attemptId q) = None"
    using same_structure_absent [OF record_writes_structure [OF w1(1)]] new by simp
  then have w2: "structural_writes J loose d1 d2"
    by (intro write_structural(1) [OF p1]) (auto simp: attempt_born_def)
  have "structural_writes J loose d2 d'"
    by (rule write_structural(4) [OF p2])
      (use t put_attempt_fields [OF p1] w1(2) in \<open>auto simp: task_moves_def with_task_status_def task_identity_def\<close>)
  with w2 record_structural [OF w1(1)] show ?thesis by (blast intro: structural_trans)
qed

lemma legacy_verification_writes: "apply_legacy_verification J event v d = Inr d' \<Longrightarrow> record_writes J loose d d'"
  by (auto simp: apply_legacy_verification_def task_moves_def task_identity_def with_task_status_def intro!: write_one(3))

lemma verification_transition_at:
  assumes "assertVerificationTransition d g args = Inr (t, a)"
  shows "map_of (tasks d) (vt_taskId args) = Some t" "map_of (attempts d) (vt_subjectAttemptId args) = Some a"
    "verification_required a" "att_taskId a = vt_taskId args"
    "attemptVerification d a = Some w \<Longrightarrow> vr_verifierTaskId w = vt_verifierTaskId args \<and>
       vr_verifierAttemptId w = vt_verifierAttemptId args \<and> vr_verdict w = vt_verdict args \<and>
       vr_reasonCode w = vt_reasonCode args"
  using assms unfolding assertVerificationTransition_def
  by (auto split: option.split_asm)

lemma attempt_verification_writes:
  assumes "apply_attempt_verification J event v k d = Inr d'"
  shows "record_writes J loose d d'"
proof -
  let ?args = "\<lparr>vt_taskId = vf_taskId v, vt_subjectAttemptId = k,
     vt_verifierTaskId = vf_verifierTaskId v, vt_verifierAttemptId = vf_verifierAttemptId v,
     vt_verdict = vf_verdict v, vt_reasonCode = vf_reasonCode v\<rparr>"
  let ?r = "VerificationRecord.extend (verification_record v (eh_occurredAt event)) \<lparr>av_subjectAttemptId = k\<rparr>"
  let ?s = "\<lambda>t. taskStatusWithVerification (task_status (ts_task t)) (Some (vf_verdict v))"
  from assms obtain t a d1 where at: "assertVerificationTransition d (eh_aggregateId event) ?args = Inr (t, a)"
    and p1: "put_attempt J k (a\<lparr>att_verification := Some ?r\<rparr>) d = Inr d1"
    and run: "(if is_selected d1 (vf_taskId v) k \<and> ?s t \<noteq> task_status (ts_task t)
      then put_task J (vf_taskId v) (with_task_status (?s t) (eh_occurredAt event) t) d1 else Inr d1) = Inr d'"
    unfolding apply_attempt_verification_def Let_def bindE_eq_Inr split_paired_Ex prod.case
    by (elim exE conjE) (erule that, assumption, assumption)
  note at = verification_transition_at [OF at, simplified]
  have "same_verdict w ?r" if "attemptVerification d a = Some w" for w
    using at(5) [OF that] by (simp add: same_verdict_def verification_record_def VerificationRecord.defs)
  then have "attempt_moves a (a\<lparr>att_verification := Some ?r\<rparr>)"
    by (auto simp: attempt_moves_def attempt_identity_def lease_moves_keep attemptVerification_def)
  then have w: "record_writes J loose d d1" by (rule write_one(1) [OF p1 at(2)]) simp
  have "d' = d1 \<or> record_writes J loose d1 d'"
    using run at(1) put_attempt_fields [OF p1] by (auto intro!: write_one(3) split: if_split_asm)
  with w show ?thesis by (auto intro: record_trans)
qed

lemma verification_finished_writes:
  assumes "apply_verification_finished J event v d = Inr d'"
  shows "record_writes J loose d d'"
proof -
  from assms obtain d1 and t :: TaskRuntimeState where
    run: "(case verification_subject_id d v of
              Some s \<Rightarrow> if s = [] then apply_legacy_verification J event v d
                         else apply_attempt_verification J event v s d
            | None \<Rightarrow> apply_legacy_verification J event v d) = Inr d1"
    and two: "refreshReadyTasks J (task_objectiveId (ts_task t)) (eh_occurredAt event) d1 = Inr d'"
    unfolding apply_verification_finished_def bindE_eq_Inr by (elim exE conjE) (erule that, assumption)
  have "apply_legacy_verification J event v d = Inr d1 \<or> (\<exists>k. apply_attempt_verification J event v k d = Inr d1)"
    using run by (auto split: option.split_asm if_split_asm)
  then have "record_writes J loose d d1" by (auto intro: legacy_verification_writes attempt_verification_writes)
  with refreshReadyTasks_writes [OF two] show ?thesis by (rule record_trans)
qed

lemma applyTaskEvent_writes:
  assumes "applyTaskEvent J event e d = Inr d'" and "well_keyed d"
  shows "structural_writes J loose d d'"
proof (cases e)
  case (TaskCreated t subs)
  with assms show ?thesis by (auto simp: apply_task_created_def intro: applyTaskCreated_writes)
next
  case (TaskAttemptPrepared t subs q)
  with assms obtain d1 where one: "applyTaskCreated J event t subs d = Inr d1"
    and two: "applyAttemptQueued J q (eh_occurredAt event) d1 = Inr d'"
    by (auto simp: apply_task_attempt_prepared_def)
  note w = applyTaskCreated_writes [OF one assms(2)]
  from applyAttemptQueued_writes [OF two structural_writes_keyed [OF w assms(2)]] w
  show ?thesis by (rule structural_trans)
next
  case (TaskReadied t)
  with assms show ?thesis
    by (auto simp: apply_task_ready_def lookup_task_def intro!: record_structural write_one(3))
next
  case (TaskFailedEvent t r)
  with assms show ?thesis
    by (auto simp: apply_task_failed_def assertTaskFailureTransition_def lookup_task_def
        intro!: record_structural write_one(3))
next
  case (TaskVerificationFinished v)
  with assms show ?thesis by (auto intro: record_structural verification_finished_writes)
qed

section \<open>Agent handlers\<close>

lemma retirement_eligible_at:
  "assertAgentRetirementEligible d k = Inr g \<Longrightarrow> map_of (agents d) k = Some g"
  unfolding assertAgentRetirementEligible_def lookup_agent_def bindE_eq_Inr
  by (elim exE conjE) (auto split: if_split_asm option.split_asm)

lemma retirement_eligible_status:
  "assertAgentRetirementEligible d k = Inr g \<Longrightarrow> agent_status g = AgentRetired \<or> agent_status g = AgentRegistered"
  unfolding assertAgentRetirementEligible_def lookup_agent_def bindE_eq_Inr
  by (elim exE conjE) (auto split: if_split_asm option.split_asm)

lemma applyAgentEvent_writes:
  assumes "applyAgentEvent J event e d = Inr d'"
  shows "structural_writes J loose d d'"
proof (cases e)
  case (AgentRegisteredEvent g)
  with assms show ?thesis
    by (auto simp: apply_agent_registered_def Let_def agent_born_def intro!: write_structural(2))
next
  case (AgentRetiredEvent k)
  with assms obtain g where e: "assertAgentRetirementEligible d k = Inr g"
    and run: "(if agent_status g = AgentRetired then Inr d
      else put_agent J k (g\<lparr>agent_status := AgentRetired, agent_updatedAt := eh_occurredAt event\<rparr>) d) = Inr d'"
    by (auto simp: apply_agent_retired_def)
  have "map_of (agents d) k = Some g" by (rule retirement_eligible_at [OF e])
  with run retirement_eligible_status [OF e] show ?thesis
    by (cases "agent_status g = AgentRetired")
      (auto simp: agent_retires_def agent_identity_def sw_none intro: write_structural(8))
next
  case (AgentResumeRequested k a)
  with assms obtain g where g: "map_of (agents d) k = Some g" "agent_status g \<noteq> AgentRetired"
    and run: "d' = d \<or> put_agent J k (g\<lparr>agent_status := AgentResuming, agent_updatedAt := eh_occurredAt event\<rparr>) d = Inr d'"
    by (auto simp: apply_agent_resume_requested_def lookup_agent_def split: if_split_asm)
  have "agent_moves g (g\<lparr>agent_status := AgentResuming, agent_updatedAt := eh_occurredAt event\<rparr>)"
    using g(2) by (simp add: agent_moves_def agent_identity_def)
  then have "record_writes J loose d d'"
    if "put_agent J k (g\<lparr>agent_status := AgentResuming, agent_updatedAt := eh_occurredAt event\<rparr>) d = Inr d'"
    by (rule write_one(2) [OF that g(1)]) simp
  with run show ?thesis by (blast intro: sw_none record_structural)
qed (use assms in \<open>auto simp: refuse_standalone_def\<close>)

section \<open>Attempt handlers\<close>

lemma attempt_moves_quiet:
  "attempt_identity b = attempt_identity a \<Longrightarrow> att_status b = att_status a \<Longrightarrow> att_lease b = att_lease a \<Longrightarrow>
   att_result b = att_result a \<Longrightarrow> att_checkpointIds b = att_checkpointIds a \<Longrightarrow> att_agentId b = att_agentId a \<Longrightarrow>
   att_executionStartedAt b = att_executionStartedAt a \<Longrightarrow> att_verification b = att_verification a \<Longrightarrow>
   att_grantId b = att_grantId a \<or> \<not> truthy (att_grantId a) \<Longrightarrow>
   usage_moves a (att_usageAccounting b) \<Longrightarrow>
   once (att_admittedTurnOrigin a) (att_admittedTurnOrigin b) \<Longrightarrow>
   once (att_receiptAcknowledgement a) (att_receiptAcknowledgement b) \<Longrightarrow>
   (att_managedLifetime a = Some LaneRetired \<longrightarrow> att_managedLifetime b = Some LaneRetired) \<Longrightarrow>
   attempt_moves a b"
  by (simp add: attempt_moves_def lease_moves_keep)

lemma grant_transition_at:
  "assertAttemptGrantTransition d g k grant = Inr a \<Longrightarrow>
   map_of (attempts d) k = Some a \<and> (\<not> truthy (att_grantId a) \<or> att_grantId a = Some (grant_grantId grant))"
  unfolding assertAttemptGrantTransition_def lookup_attempt_def by auto

lemma grant_bound_writes:
  assumes "apply_grant_bound J event k grant d = Inr d'"
  shows "record_writes J loose d d'"
  using assms
  by (auto simp: apply_grant_bound_def attempt_identity_def dest!: grant_transition_at
      intro!: write_one(1) attempt_moves_quiet)

lemma lease_transition_at:
  assumes "assertAttemptLeaseTransition d g lease agentId now = Inr a"
  shows "map_of (attempts d) (lease_attemptId lease) = Some a" "att_status a = AttQueued"
    "lease_fencingToken lease = lease_fence a + 1" "truthy (att_grantId a)" "lease_dates_valid lease now"
    "assertAttemptDispatchReady d a = Inr ()" "assertApprovalDoesNotBlock d (lease_attemptId lease) = Inr ()"
    "assertAttemptAgentBinding agentId (att_dispatch a) = Inr ()"
    "assertLeaseAgent d a agentId = Inr ()"
  using assms unfolding assertAttemptLeaseTransition_def lookup_attempt_def by auto

lemma lease_agent_at:
  "assertLeaseAgent d a (Some k) = Inr () \<Longrightarrow> k \<noteq> [] \<Longrightarrow>
   \<exists>g. map_of (agents d) k = Some g \<and> agent_status g = AgentRegistered"
  by (auto simp: assertLeaseAgent_def lookup_agent_def)

text \<open>The writes of a lease: the agent it occupies, the attempt, and its task.\<close>

lemma attempt_leased_steps:
  assumes "apply_attempt_leased J event lease agentId d = Inr d'"
  shows "\<exists>a t d1 d2. assertAttemptLeaseTransition d (eh_aggregateId event) lease agentId (eh_occurredAt event) = Inr a \<and>
    (if truthy agentId
     then \<exists>g. map_of (agents d) (the agentId) = Some g \<and> agent_status g = AgentRegistered \<and>
       put_agent J (the agentId) (g\<lparr>agent_status := AgentActive,
         agent_activeAttemptId := Some (lease_attemptId lease), agent_updatedAt := eh_occurredAt event\<rparr>) d = Inr d1
     else d1 = d) \<and>
    put_attempt J (lease_attemptId lease)
      (a\<lparr>att_status := AttLeased, att_lease := Some lease,
         att_agentId := (if truthy agentId then agentId else att_agentId a),
         att_executionStartedAt := (case att_executionStartedAt a of Some t \<Rightarrow> Some t | None \<Rightarrow> Some (eh_occurredAt event)),
         att_updatedAt := eh_occurredAt event\<rparr>) d1 = Inr d2 \<and>
    map_of (tasks d) (att_taskId a) = Some t \<and>
    put_task J (att_taskId a) (with_task_status TaskRunning (eh_occurredAt event) t) d2 = Inr d'"
proof -
  from assms obtain a d1 d2 and t :: TaskRuntimeState where
    at: "assertAttemptLeaseTransition d (eh_aggregateId event) lease agentId (eh_occurredAt event) = Inr a"
    and run: "(if truthy agentId
      then bindE (lookup_agent d (the agentId)) (\<lambda>agent. put_agent J (the agentId)
             (agent\<lparr>agent_status := AgentActive, agent_activeAttemptId := Some (lease_attemptId lease),
                agent_updatedAt := eh_occurredAt event\<rparr>) d)
      else Inr d) = Inr d1"
    and p: "put_attempt J (lease_attemptId lease)
      (a\<lparr>att_status := AttLeased, att_lease := Some lease,
         att_agentId := (if truthy agentId then agentId else att_agentId a),
         att_executionStartedAt := (case att_executionStartedAt a of Some t \<Rightarrow> Some t | None \<Rightarrow> Some (eh_occurredAt event)),
         att_updatedAt := eh_occurredAt event\<rparr>) d1 = Inr d2"
    and t: "map_of (tasks d2) (att_taskId a) = Some t"
    and q: "put_task J (att_taskId a) (with_task_status TaskRunning (eh_occurredAt event) t) d2 = Inr d'"
    unfolding apply_attempt_leased_def Let_def bindE_eq_Inr lookup_task_def lookupE_eq_Inr
    by (elim exE conjE) (erule that, assumption+)
  have agent: "if truthy agentId
     then \<exists>g. map_of (agents d) (the agentId) = Some g \<and> agent_status g = AgentRegistered \<and>
       put_agent J (the agentId) (g\<lparr>agent_status := AgentActive,
         agent_activeAttemptId := Some (lease_attemptId lease), agent_updatedAt := eh_occurredAt event\<rparr>) d = Inr d1
     else d1 = d"
    using run lease_transition_at(9) [OF at]
    by (cases agentId) (auto simp: lookup_agent_def dest: lease_agent_at split: if_split_asm)
  then have "tasks d1 = tasks d" by (auto dest!: put_agent_fields split: if_split_asm)
  with put_attempt_fields [OF p] t have "map_of (tasks d) (att_taskId a) = Some t" by simp
  with at agent p q show ?thesis by blast
qed

lemma attempt_leased_writes:
  assumes "apply_attempt_leased J event lease agentId d = Inr d'"
  shows "record_writes J True d d'"
proof -
  let ?k = "lease_attemptId lease" and ?now = "eh_occurredAt event"
  let ?b = "\<lambda>a. a\<lparr>att_status := AttLeased, att_lease := Some lease,
         att_agentId := (if truthy agentId then agentId else att_agentId a),
         att_executionStartedAt := (case att_executionStartedAt a of Some t \<Rightarrow> Some t | None \<Rightarrow> Some ?now),
         att_updatedAt := ?now\<rparr>"
  from attempt_leased_steps [OF assms] obtain a t d1 d2 where
    at: "assertAttemptLeaseTransition d (eh_aggregateId event) lease agentId ?now = Inr a"
    and g: "if truthy agentId
     then \<exists>g. map_of (agents d) (the agentId) = Some g \<and> agent_status g = AgentRegistered \<and>
       put_agent J (the agentId) (g\<lparr>agent_status := AgentActive,
         agent_activeAttemptId := Some ?k, agent_updatedAt := ?now\<rparr>) d = Inr d1
     else d1 = d"
    and p: "put_attempt J ?k (?b a) d1 = Inr d2"
    and t: "map_of (tasks d) (att_taskId a) = Some t"
    and q: "put_task J (att_taskId a) (with_task_status TaskRunning ?now t) d2 = Inr d'"
    by blast
  note at = lease_transition_at [OF at]
  have w1: "record_writes J True d d1" and s1: "attempts d1 = attempts d \<and> tasks d1 = tasks d"
    using g by (auto simp: agent_moves_occupancy intro: rw_none write_one(2) dest: put_agent_fields split: if_split_asm)
  have "attempt_moves a (?b a)"
    using at(2,3) by (auto simp: attempt_moves_def attempt_identity_def lease_moves_def once_def split: option.split)
  then have w2: "record_writes J True d1 d2" using at(1) s1 by (intro write_one(1) [OF p]) simp_all
  have "record_writes J True d2 d'" using t s1 put_attempt_fields [OF p] by (intro write_one(3) [OF q]) simp_all
  with w1 w2 show ?thesis by (blast intro: record_trans)
qed

lemma lease_matches_at:
  "assertAttemptLeaseMatches a l f now = Inr u \<Longrightarrow> lease_matches a l f \<and> assertLeaseLiveAt (the (att_lease a)) now = Inr ()"
  by (auto simp: assertAttemptLeaseMatches_def)

lemma lease_matches_Some: "lease_matches a l f \<Longrightarrow> \<exists>lease. att_lease a = Some lease \<and> lease_leaseId lease = l \<and> lease_fencingToken lease = f"
  by (simp add: lease_matches_def split: option.split_asm)

lemma attempt_started_writes:
  assumes "apply_attempt_started J event k l f d = Inr d'"
  shows "record_writes J loose d d'"
  using assms
  by (auto simp: apply_attempt_started_def assertAttemptStartTransition_def lookup_attempt_def attempt_moves_def
      attempt_identity_def lease_moves_keep intro!: write_one(1))

lemma lease_renewed_writes:
  assumes "apply_lease_renewed J event k l f t d = Inr d'"
  shows "record_writes J loose d d'"
proof -
  from assms obtain a where a: "map_of (attempts d) k = Some a" and st: "att_status a \<in> {AttLeased, AttRunning}"
    and m: "lease_matches a l f" and later: "\<not> js_le (date_parse t) (date_parse (lease_expiresAt (the (att_lease a))))"
    and p: "put_attempt J k (a\<lparr>att_lease := Some ((the (att_lease a))\<lparr>lease_expiresAt := t\<rparr>),
                att_updatedAt := eh_occurredAt event\<rparr>) d = Inr d'"
    by (auto simp: apply_lease_renewed_def assertAttemptLeaseRenewalTransition_def lookup_attempt_def dest!: lease_matches_at)
  from lease_matches_Some [OF m] later st
  have "attempt_moves a (a\<lparr>att_lease := Some ((the (att_lease a))\<lparr>lease_expiresAt := t\<rparr>), att_updatedAt := eh_occurredAt event\<rparr>)"
    by (auto simp: attempt_moves_def attempt_identity_def lease_moves_def)
  then show ?thesis by (rule write_one(1) [OF p a]) simp
qed

lemma fenced_attempt_at: "fenced_attempt d event k l f = Inr a \<Longrightarrow> map_of (attempts d) k = Some a \<and> lease_matches a l f"
  by (auto simp: fenced_attempt_def lookup_attempt_def)

lemma model_moved_writes: "apply_model_moved J event k l f m d = Inr d' \<Longrightarrow> record_writes J loose d d'"
  by (auto simp: apply_model_moved_def attempt_identity_def dest!: fenced_attempt_at intro!: write_one(1) attempt_moves_quiet)

lemma third_party_writes:
  assumes "apply_third_party_admitted J event k l f x d = Inr d'"
  shows "record_writes J loose d d'"
proof -
  from assms obtain a where a: "map_of (attempts d) k = Some a"
    and run: "d' = d \<or> att_admittedTurnOrigin a = None \<and>
      put_attempt J k (a\<lparr>att_admittedTurnOrigin := Some x, att_updatedAt := eh_occurredAt event\<rparr>) d = Inr d'"
    by (auto simp: apply_third_party_admitted_def dest!: fenced_attempt_at split: if_split_asm)
  from run show ?thesis
    by (elim disjE conjE) (simp add: rw_none, rule write_one(1) [OF _ a],
      auto simp: attempt_identity_def once_def intro!: attempt_moves_quiet)
qed

lemma running_lease_at:
  "assertRunningAttemptLease d k l f now = Inr a \<Longrightarrow>
   map_of (attempts d) k = Some a \<and> att_status a = AttRunning \<and> lease_matches a l f"
  by (auto simp: assertRunningAttemptLease_def lookup_attempt_def dest!: lease_matches_at)

text \<open>An agent write that may be skipped because the agent is gone.\<close>

lemma optional_agent_writes:
  assumes "(case map_of (agents d) k of None \<Rightarrow> Inr d
      | Some g \<Rightarrow> bindE (assertAgentNotRetired g) (\<lambda>_. put_agent J k (f g) d)) = Inr d'"
    and "\<And>g. agent_status g \<noteq> AgentRetired \<Longrightarrow> agent_moves g (f g)"
    and "\<And>g. occupancy_kept g (f g)"
  shows "record_writes J loose d d'"
proof (cases "map_of (agents d) k")
  case None
  with assms(1) show ?thesis by (simp add: rw_none)
next
  case (Some g)
  with assms(1) have g: "agent_status g \<noteq> AgentRetired" and p: "put_agent J k (f g) d = Inr d'" by auto
  show ?thesis by (rule write_one(2) [OF p Some assms(2) [OF g]]) (simp add: assms(3))
qed

lemma attempt_checkpointed_writes:
  assumes "apply_attempt_checkpointed J event c l d = Inr d'"
  shows "record_writes J loose d d'"
proof -
  let ?id = "ck_checkpointId c" and ?k = "ck_attemptId c"
  let ?b = "\<lambda>a. a\<lparr>att_checkpointIds := att_checkpointIds a @ [?id], att_updatedAt := eh_occurredAt event\<rparr>"
  let ?h = "\<lambda>g. g\<lparr>agent_resumeContext := (agent_resumeContext g)\<lparr>rc_latestCheckpointId := Some ?id\<rparr>,
                   agent_updatedAt := eh_occurredAt event\<rparr>"
  from assms obtain a d1 d2 where
    at: "assertAttemptCheckpointTransition d (eh_aggregateId event) c l (eh_occurredAt event) = Inr a"
    and new: "map_of (checkpoints d) ?id = None"
    and p1: "put_checkpoint J ?id c d = Inr d1" and p2: "put_attempt J ?k (?b a) d1 = Inr d2"
    and run: "(if \<not> truthy (att_agentId a) then Inr d2
      else case map_of (agents d2) (the (att_agentId a)) of
        None \<Rightarrow> Inr d2
      | Some agent \<Rightarrow> bindE (assertAgentNotRetired agent) (\<lambda>_. put_agent J (the (att_agentId a)) (?h agent) d2)) = Inr d'"
    unfolding apply_attempt_checkpointed_def Let_def bindE_eq_Inr require_eq_Inr
    by (elim exE conjE) (erule that, assumption+)
  have a: "map_of (attempts d) ?k = Some a" "att_status a = AttRunning"
    using at by (auto simp: assertAttemptCheckpointTransition_def dest!: running_lease_at)
  have w1: "record_writes J loose d d1" by (rule write_one(9) [OF p1 new]) simp
  have "attempt_moves a (?b a)" using a(2) by (simp add: attempt_moves_def attempt_identity_def lease_moves_keep)
  then have w2: "record_writes J loose d1 d2"
    using a(1) put_checkpoint_fields [OF p1] by (intro write_one(1) [OF p2, where a = a]) simp_all
  have "record_writes J loose d2 d'"
  proof (cases "truthy (att_agentId a)")
    case True
    with run show ?thesis
      by (intro optional_agent_writes [where f = ?h and d = d2]) (simp_all add: agent_moves_def agent_identity_def)
  qed (use run in \<open>simp add: rw_none\<close>)
  with w1 w2 show ?thesis by (blast intro: record_trans)
qed

section \<open>Usage and outboxes\<close>

lemma store_usage_writes:
  assumes "store_usage J event a k i acc d = Inr d'" and "map_of (attempts d) k = Some a"
    and "usage_moves a (Some acc)"
  shows "record_writes J loose d d'"
  using assms
  by (auto simp: store_usage_def Let_def attempt_identity_def intro!: write_one(1) attempt_moves_quiet)

lemma usage_registered_writes:
  assumes "apply_usage_registered J event k i base d = Inr d'"
  shows "record_writes J loose d d'"
proof -
  from assms obtain a acc where a: "map_of (attempts d) k = Some a"
    and u: "beginAttemptUsageGeneration (att_usageAccounting a) i base = Inr acc"
    and p: "store_usage J event a k i acc d = Inr d'"
    and l: "lease_matches a (gid_leaseId i) (gid_fencingToken i)"
    by (auto simp: apply_usage_registered_def lift_usage_def lookup_attempt_def dest!: running_lease_at)
  show ?thesis by (rule store_usage_writes [OF p a]) (use u l in \<open>auto simp: usage_moves_def\<close>)
qed

lemma usage_recorded_writes:
  assumes "apply_usage_recorded J event k i u d = Inr d'"
  shows "record_writes J loose d d'"
proof -
  from assms obtain a current acc where a: "map_of (attempts d) k = Some a"
    and c: "att_usageAccounting a = Some current" and u: "recordAttemptGenerationUsage current i u = Inr acc"
    and p: "store_usage J event a k i acc d = Inr d'"
    by (auto simp: apply_usage_recorded_def lift_usage_def lookup_attempt_def split: option.split_asm)
  show ?thesis by (rule store_usage_writes [OF p a]) (use c u in \<open>auto simp: usage_moves_def\<close>)
qed

lemma acknowledgement_once:
  "assertWorkerReceiptAcknowledgement h d a ack = Inr u \<Longrightarrow> once (att_receiptAcknowledgement a) (Some ack)"
  by (auto simp: assertWorkerReceiptAcknowledgement_def Let_def once_def split: option.split_asm)

lemma receipts_delivered_writes: "apply_receipts_delivered J event k ack d = Inr d' \<Longrightarrow> record_writes J loose d d'"
  by (auto simp: apply_receipts_delivered_def attempt_identity_def dest!: acknowledgement_once
      intro!: write_one(1) attempt_moves_quiet)

lemma parent_write_recorded_writes: "apply_parent_write_recorded J event k w b d = Inr d' \<Longrightarrow> record_writes J loose d d'"
  by (auto simp: apply_parent_write_recorded_def Let_def lookup_attempt_def attempt_identity_def
      intro!: write_one(1) attempt_moves_quiet)

lemma parent_write_imported_writes: "apply_parent_write_imported J event k w d = Inr d' \<Longrightarrow> record_writes J loose d d'"
  unfolding apply_parent_write_imported_def Let_def bindE_eq_Inr lookupE_eq_Inr
  by (elim exE conjE, erule write_one(1), assumption) (auto simp: attempt_identity_def intro!: attempt_moves_quiet)

lemma usage_delivered_writes: "apply_usage_delivered J event k r d = Inr d' \<Longrightarrow> record_writes J loose d d'"
  by (auto simp: apply_usage_delivered_def attempt_identity_def intro!: write_one(1) attempt_moves_quiet)

section \<open>Suspension and end\<close>

lemma suspended_at:
  assumes "apply_attempt_suspended J event k l f c r d = Inr d'"
  shows "\<exists>a d1. map_of (attempts d) k = Some a \<and> lease_matches a l f \<and> att_status a \<in> {AttLeased, AttRunning} \<and>
    put_attempt J k (a\<lparr>att_status := AttSuspended,
                  att_reasonCode := (case c of Some c \<Rightarrow> Some c | None \<Rightarrow> att_reasonCode a),
                  att_retry := (case r of Some r \<Rightarrow> Some r | None \<Rightarrow> att_retry a),
                  att_updatedAt := eh_occurredAt event\<rparr>) d = Inr d1 \<and>
    (case map_of (agents d1) (the (att_agentId a)) of
        None \<Rightarrow> Inr d1
      | Some agent \<Rightarrow>
          bindE (assertAgentNotRetired agent) (\<lambda>_.
          put_agent J (the (att_agentId a))
            (agent\<lparr>agent_status := AgentSuspended, agent_updatedAt := eh_occurredAt event\<rparr>) d1)) = Inr d'"
  using assms unfolding apply_attempt_suspended_def Let_def bindE_eq_Inr require_eq_Inr
  by (elim exE conjE) (drule fenced_attempt_at, blast)

lemma attempt_suspended_writes:
  assumes "apply_attempt_suspended J event k l f c r d = Inr d'"
  shows "record_writes J loose d d'"
proof -
  let ?b = "\<lambda>a. a\<lparr>att_status := AttSuspended,
                  att_reasonCode := (case c of Some c \<Rightarrow> Some c | None \<Rightarrow> att_reasonCode a),
                  att_retry := (case r of Some r \<Rightarrow> Some r | None \<Rightarrow> att_retry a),
                  att_updatedAt := eh_occurredAt event\<rparr>"
  from suspended_at [OF assms] obtain a d1 where a: "map_of (attempts d) k = Some a" "att_status a \<in> {AttLeased, AttRunning}"
    and p: "put_attempt J k (?b a) d = Inr d1"
    and run: "(case map_of (agents d1) (the (att_agentId a)) of
        None \<Rightarrow> Inr d1
      | Some agent \<Rightarrow> bindE (assertAgentNotRetired agent) (\<lambda>_. put_agent J (the (att_agentId a))
            (agent\<lparr>agent_status := AgentSuspended, agent_updatedAt := eh_occurredAt event\<rparr>) d1)) = Inr d'"
    by blast
  have "attempt_moves a (?b a)" using a(2) by (auto simp: attempt_moves_def attempt_identity_def lease_moves_keep)
  then have w: "record_writes J loose d d1" by (rule write_one(1) [OF p a(1)]) (use a in auto)
  have "record_writes J loose d1 d'"
    by (rule optional_agent_writes [OF run]) (simp_all add: agent_moves_def agent_identity_def)
  then show ?thesis by (rule record_trans [OF _ w])
qed

lemma resumed_at:
  assumes "applyAttemptResumed J event lease g d = Inr d'"
  shows "\<exists>a h d1. map_of (attempts d) (lease_attemptId lease) = Some a \<and> att_status a = AttSuspended \<and>
    att_agentId a = Some g \<and> map_of (agents d) g = Some h \<and> agent_status h = AgentResuming \<and>
    agent_activeAttemptId h = Some (lease_attemptId lease) \<and>
    lease_fencingToken lease = lease_fence a + 1 \<and> lease_dates_valid lease (eh_occurredAt event) \<and>
    put_attempt J (lease_attemptId lease)
      (a\<lparr>att_status := AttLeased, att_agentId := Some g, att_lease := Some lease, att_updatedAt := eh_occurredAt event\<rparr>) d = Inr d1 \<and>
    put_agent J g (h\<lparr>agent_status := AgentActive, agent_activeAttemptId := Some (lease_attemptId lease),
      agent_updatedAt := eh_occurredAt event\<rparr>) d1 = Inr d'"
  using assms unfolding applyAttemptResumed_def Let_def bindE_eq_Inr require_eq_Inr lookupE_eq_Inr by blast

lemma attempt_resumed_writes:
  assumes "applyAttemptResumed J event lease g d = Inr d'"
  shows "record_writes J loose d d'"
proof -
  let ?k = "lease_attemptId lease"
  let ?b = "\<lambda>a. a\<lparr>att_status := AttLeased, att_agentId := Some g, att_lease := Some lease, att_updatedAt := eh_occurredAt event\<rparr>"
  from resumed_at [OF assms] obtain a h d1 where a: "map_of (attempts d) ?k = Some a" "att_status a = AttSuspended"
      "att_agentId a = Some g" "lease_fencingToken lease = lease_fence a + 1"
    and h: "map_of (agents d) g = Some h" "agent_status h = AgentResuming" "agent_activeAttemptId h = Some ?k"
    and p: "put_attempt J ?k (?b a) d = Inr d1"
    and q: "put_agent J g (h\<lparr>agent_status := AgentActive, agent_activeAttemptId := Some ?k,
      agent_updatedAt := eh_occurredAt event\<rparr>) d1 = Inr d'"
    by blast
  have "attempt_moves a (?b a)" using a(2-4) by (auto simp: attempt_moves_def attempt_identity_def lease_moves_def)
  then have w: "record_writes J loose d d1" by (rule write_one(1) [OF p a(1)]) (use a in auto)
  have "record_writes J loose d1 d'"
    by (rule write_one(2) [OF q, where g = h])
      (use h put_attempt_fields [OF p] in \<open>simp_all add: agent_moves_def agent_identity_def\<close>)
  then show ?thesis by (rule record_trans [OF _ w])
qed

text \<open>A task write that may be skipped because the task is gone.\<close>

lemma optional_task_writes:
  assumes "(case map_of (tasks d) k of None \<Rightarrow> Inr d | Some t \<Rightarrow> put_task J k (with_task_status s now t) d) = Inr d'"
  shows "record_writes J loose d d'"
  using assms by (auto intro: rw_none write_one(3) split: option.split_asm)

lemma attempt_cancelled_writes:
  assumes "apply_attempt_cancelled J event k c r d = Inr d'"
  shows "record_writes J True d d'"
proof -
  let ?b = "\<lambda>a. withoutAttemptRetry (a\<lparr>att_status := AttCancelled, att_reasonCode := Some c,
                  att_reasonDetail := (case r of Some r \<Rightarrow> Some r | None \<Rightarrow> att_reasonDetail a),
                  att_updatedAt := eh_occurredAt event\<rparr>)"
  from assms obtain a d1 d2 where a: "map_of (attempts d) k = Some a" "\<not> terminalAttemptStatus (att_status a)"
    and p: "put_attempt J k (?b a) d = Inr d1"
    and t: "(case map_of (tasks d1) (att_taskId a) of None \<Rightarrow> Inr d1
             | Some task \<Rightarrow> put_task J (att_taskId a) (with_task_status TaskCancelled (eh_occurredAt event) task) d1) = Inr d2"
    and q: "releaseAttemptAgent J a (eh_occurredAt event) d2 = Inr d'"
    unfolding apply_attempt_cancelled_def Let_def bindE_eq_Inr require_eq_Inr lookup_attempt_def lookupE_eq_Inr
    by (elim exE conjE) (erule that, assumption+)
  have "record_writes J True d d1" by (rule write_one(1) [OF p a(1)]) (rule attempt_moves_closed(1) [OF a(2)], simp_all)
  with optional_task_writes [OF t] releaseAttemptAgent_writes [OF q] show ?thesis by (blast intro: record_trans)
qed

lemma managed_lifecycle_writes:
  assumes "apply_managed_lifecycle J event k life n lane d = Inr d'"
  shows "record_writes J loose d d'"
proof -
  from assms obtain a where a: "map_of (attempts d) k = Some a"
    and keep: "\<not> (att_managedLifetime a = Some LaneRetired \<and> life \<noteq> LaneRetired)"
    and run: "(if att_managedLifetime a = Some life then Inr d
      else put_attempt J k (a\<lparr>att_managedLifetime := Some life, att_updatedAt := eh_occurredAt event\<rparr>) d) = Inr d'"
    by (auto simp: apply_managed_lifecycle_def assertManagedLifetimeTransition_def lookup_attempt_def)
  have "attempt_moves a (a\<lparr>att_managedLifetime := Some life, att_updatedAt := eh_occurredAt event\<rparr>)"
    using keep by (auto simp: attempt_identity_def intro!: attempt_moves_quiet)
  with run a show ?thesis by (auto intro: rw_none write_one(1) split: if_split_asm)
qed

lemma finish_transition_at:
  assumes "assertAttemptFinishTransition d g r now = Inr (a, t)"
  shows "map_of (attempts d) (res_attemptId r) = Some a" "map_of (tasks d) (att_taskId a) = Some t"
    "att_status a \<in> {AttLeased, AttRunning}" "lease_matches a (res_leaseId r) (res_fencingToken r)"
    "att_taskId a = res_taskId r" "task_objectiveId (ts_task t) = res_objectiveId r"
    "assertLeaseLiveAt (the (att_lease a)) now = Inr ()"
    "res_status r = ResCompleted \<Longrightarrow> missingTrustedCriteria r (task_acceptanceCriterionIds (ts_task t)) = []"
  using assms unfolding assertAttemptFinishTransition_def lookup_attempt_def
  by (auto simp: Let_def dest!: lease_matches_at)

lemma result_status_terminal: "terminalAttemptStatus (result_attempt_status s)"
  by (cases s) simp_all

lemma finished_steps:
  assumes "apply_attempt_finished J event r d = Inr d'"
  shows "\<exists>a t d1 d2 d3. assertAttemptFinishTransition d (eh_aggregateId event) r (eh_occurredAt event) = Inr (a, t) \<and>
    put_attempt J (res_attemptId r) (withoutAttemptRetry (a\<lparr>att_status := result_attempt_status (res_status r),
       att_result := Some r, att_updatedAt := eh_occurredAt event\<rparr>)) d = Inr d1 \<and>
    put_task J (res_taskId r) (with_task_status (taskStatusForResult (res_status r)) (eh_occurredAt event) t) d1 = Inr d2 \<and>
    releaseAttemptAgent J a (eh_occurredAt event) d2 = Inr d3 \<and>
    refreshReadyTasks J (task_objectiveId (ts_task t)) (eh_occurredAt event) d3 = Inr d'"
  using assms unfolding apply_attempt_finished_def Let_def bindE_eq_Inr split_paired_Ex prod.case by blast

lemma attempt_finished_writes:
  assumes "apply_attempt_finished J event r d = Inr d'"
  shows "record_writes J True d d'"
proof -
  let ?b = "\<lambda>a. withoutAttemptRetry (a\<lparr>att_status := result_attempt_status (res_status r),
       att_result := Some r, att_updatedAt := eh_occurredAt event\<rparr>)"
  from finished_steps [OF assms] obtain a t d1 d2 d3 where
    at: "assertAttemptFinishTransition d (eh_aggregateId event) r (eh_occurredAt event) = Inr (a, t)"
    and p: "put_attempt J (res_attemptId r) (?b a) d = Inr d1"
    and q: "put_task J (res_taskId r) (with_task_status (taskStatusForResult (res_status r)) (eh_occurredAt event) t) d1 = Inr d2"
    and e: "releaseAttemptAgent J a (eh_occurredAt event) d2 = Inr d3"
    and f: "refreshReadyTasks J (task_objectiveId (ts_task t)) (eh_occurredAt event) d3 = Inr d'"
    by blast
  note at = finish_transition_at [OF at]
  have "attempt_moves a (?b a)"
    using at(3,4) result_status_terminal [of "res_status r"]
    by (auto simp: attempt_moves_def attempt_identity_def withoutAttemptRetry_def intro!: lease_moves_keep)
  then have w1: "record_writes J True d d1" by (rule write_one(1) [OF p at(1)]) simp
  have "record_writes J True d1 d2" using at(2,5) put_attempt_fields [OF p] by (intro write_one(3) [OF q]) simp_all
  with w1 releaseAttemptAgent_writes [OF e] refreshReadyTasks_writes [OF f] show ?thesis by (blast intro: record_trans)
qed

lemma lease_expired_writes:
  assumes "apply_lease_expired J event k l f c d = Inr d'"
  shows "record_writes J loose d d'"
proof -
  let ?b = "\<lambda>a. withoutAttemptRetry (a\<lparr>att_status := AttExpired,
                  att_reasonCode := (case c of Some c \<Rightarrow> Some c | None \<Rightarrow> att_reasonCode a),
                  att_updatedAt := eh_occurredAt event\<rparr>)"
  from assms obtain a d1 where a: "map_of (attempts d) k = Some a"
    and st: "\<not> ((att_status a \<noteq> AttLeased \<and> att_status a \<noteq> AttRunning) \<or> att_lease a = None \<or> truthy (att_agentId a))"
    and p: "put_attempt J k (?b a) d = Inr d1"
    and t: "(case map_of (tasks d1) (att_taskId a) of None \<Rightarrow> Inr d1
             | Some task \<Rightarrow> put_task J (att_taskId a) (with_task_status TaskReady (eh_occurredAt event) task) d1) = Inr d'"
    unfolding apply_lease_expired_def Let_def bindE_eq_Inr require_eq_Inr lookup_attempt_def lookupE_eq_Inr
    by (elim exE conjE) (erule that, assumption+)
  have "attempt_moves a (?b a)"
    using st by (auto simp: attempt_moves_def attempt_identity_def withoutAttemptRetry_def intro!: lease_moves_keep)
  then have "record_writes J loose d d1" by (rule write_one(1) [OF p a]) (simp add: withoutAttemptRetry_def)
  with optional_task_writes [OF t] show ?thesis by (rule record_trans)
qed

lemma applyAttemptEvent_writes:
  assumes "applyAttemptEvent J event e d = Inr d'" and "well_keyed d"
  shows "structural_writes J True d d'"
proof (cases e)
  case (AttemptQueuedEvent q)
  with assms show ?thesis by (auto simp: apply_attempt_queued_def intro: applyAttemptQueued_writes)
qed (use assms in \<open>auto intro!: record_structural intro: grant_bound_writes attempt_leased_writes attempt_started_writes
    lease_renewed_writes model_moved_writes third_party_writes attempt_checkpointed_writes usage_registered_writes
    usage_recorded_writes receipts_delivered_writes parent_write_recorded_writes parent_write_imported_writes
    usage_delivered_writes attempt_suspended_writes attempt_resumed_writes attempt_cancelled_writes
    managed_lifecycle_writes attempt_finished_writes lease_expired_writes\<close>)

section \<open>Approval and notification handlers\<close>

lemma approval_requested_writes:
  assumes "apply_approval_requested J event p d = Inr d'"
  shows "record_writes J loose d d'"
proof -
  let ?k = "apr_approvalId p"
  from assms obtain d1 n where new: "map_of (approvals d) ?k = None" "map_of (notifications d) (approval_notification_id ?k) = None"
    and a: "put_approval J ?k \<lparr>as_request = p, as_status = ApprovalPending, as_resolution = None\<rparr> d = Inr d1"
    and b: "put_notification J (approval_notification_id ?k) n d1 = Inr d'" "note_notificationId n = approval_notification_id ?k"
    by (auto simp: apply_approval_requested_def Let_def)
  have "record_writes J loose d d1" by (rule write_one(6) [OF a new(1)]) simp_all
  moreover have "record_writes J loose d1 d'"
    by (rule write_one(8) [OF b(1)]) (use new(2) b(2) put_approval_fields [OF a] in simp_all)
  ultimately show ?thesis by (blast intro: record_trans)
qed

lemma block_rejected_writes:
  assumes "block_rejected_attempt J now k d = Inr d'" and "well_keyed d"
  shows "record_writes J loose d d'"
proof (cases "\<exists>a. truthy k \<and> map_of (attempts d) (the k) = Some a \<and> \<not> terminalAttemptStatus (att_status a)")
  case True
  then obtain a where a: "truthy k" "map_of (attempts d) (the k) = Some a" "\<not> terminalAttemptStatus (att_status a)"
    by blast
  with assms(1) obtain d1 where p: "put_attempt J (att_attemptId a)
        (withoutAttemptRetry (a\<lparr>att_status := AttBlocked, att_reasonCode := Some ''approval_rejected'', att_updatedAt := now\<rparr>)) d = Inr d1"
    and t: "(case map_of (tasks d1) (att_taskId a) of None \<Rightarrow> Inr d1
        | Some task \<Rightarrow> put_task J (att_taskId a) (with_task_status TaskBlocked now task) d1) = Inr d'"
    by (auto simp: block_rejected_attempt_def)
  have "map_of (attempts d) (att_attemptId a) = Some a" using a(2) keyed_at(8) [OF assms(2) a(2)] by simp
  then have "record_writes J loose d d1" by (rule write_one(1) [OF p]) (rule attempt_moves_closed(2) [OF a(3)], simp_all add: withoutAttemptRetry_def)
  with optional_task_writes [OF t] show ?thesis by (rule record_trans)
next
  case False
  with assms(1) have "d' = d" by (auto simp: block_rejected_attempt_def split: option.split_asm if_split_asm)
  then show ?thesis by (simp add: rw_none)
qed

lemma approval_resolution_at:
  "assertApprovalResolutionTransition d g r = Inr p \<Longrightarrow>
   map_of (approvals d) (ars_approvalId r) = Some p \<and> as_status p = ApprovalPending"
  by (auto simp: assertApprovalResolutionTransition_def)

lemma approval_resolved_writes:
  assumes "apply_approval_resolved J event r d = Inr d'" and "well_keyed d"
  shows "record_writes J loose d d'"
proof -
  let ?n = "approval_notification_id (ars_approvalId r)"
  from assms(1) obtain p d1 d2 where at: "assertApprovalResolutionTransition d (eh_aggregateId event) r = Inr p"
    and a: "put_approval J (ars_approvalId r) (p\<lparr>as_status := ApprovalResolved (ars_outcome r), as_resolution := Some r\<rparr>) d = Inr d1"
    and b: "(case map_of (notifications d1) ?n of None \<Rightarrow> Inr d1
             | Some note \<Rightarrow>
                 if note_status note = NotePending
                 then put_notification J (note_notificationId note)
                        (note\<lparr>note_status := NoteDelivered, note_deliveredAt := Some (eh_occurredAt event)\<rparr>) d1
                 else Inr d1) = Inr d2"
    and c: "(if ars_outcome r = Rejected
      then block_rejected_attempt J (eh_occurredAt event) (apr_attemptId (as_request p)) d2 else Inr d2) = Inr d'"
    unfolding apply_approval_resolved_def Let_def bindE_eq_Inr
    by (elim exE conjE) (erule that, assumption+)
  note at = approval_resolution_at [OF at]
  have w1: "record_writes J loose d d1"
    by (rule write_one(5) [OF a]) (use at in \<open>auto simp: approval_moves_def\<close>)
  note k1 = record_writes_keyed [OF w1 assms(2)]
  have w2: "record_writes J loose d1 d2"
  proof (cases "\<exists>n. map_of (notifications d1) ?n = Some n \<and> note_status n = NotePending")
    case True
    then obtain n where n: "map_of (notifications d1) ?n = Some n" "note_status n = NotePending" by blast
    with b have q: "put_notification J ?n (n\<lparr>note_status := NoteDelivered, note_deliveredAt := Some (eh_occurredAt event)\<rparr>) d1 = Inr d2"
      using keyed_at(11) [OF k1 n(1)] by simp
    show ?thesis by (rule write_one(7) [OF q n(1)]) (auto simp: notification_moves_def)
  next
    case False
    with b show ?thesis by (auto intro: rw_none split: option.split_asm if_split_asm)
  qed
  have "record_writes J loose d2 d'"
    using c block_rejected_writes [OF _ record_writes_keyed [OF w2 k1]] by (auto intro: rw_none split: if_split_asm)
  with w1 w2 show ?thesis by (blast intro: record_trans)
qed

lemma notification_enqueued_writes: "apply_notification_enqueued J event n ob a m d = Inr d' \<Longrightarrow> record_writes J loose d d'"
  by (auto simp: apply_notification_enqueued_def intro!: write_one(8))

lemma notification_delivered_writes: "apply_notification_delivered J event n d = Inr d' \<Longrightarrow> record_writes J loose d d'"
  by (auto simp: apply_notification_delivered_def notification_moves_def intro!: write_one(7))

section \<open>Every event\<close>

theorem applyOrchestrationPayload_writes:
  assumes "applyOrchestrationPayload J event e d = Inr d'" and "well_keyed d"
  shows "structural_writes J True d d'"
proof (cases e)
  case (ApprovalPayload x)
  with assms show ?thesis
    by (cases x) (auto intro: record_structural approval_requested_writes approval_resolved_writes)
next
  case (NotificationPayload x)
  with assms show ?thesis
    by (cases x) (auto intro: record_structural notification_enqueued_writes notification_delivered_writes)
qed (use assms in \<open>auto intro: sw_none applyObjectiveEvent_writes applyTaskEvent_writes applyAgentEvent_writes
    applyAttemptEvent_writes record_structural applyHostSourceEvent_writes applyHostDeliveryEvent_writes\<close>)

end
