(* ===== verification/Ledger.thy ===== *)
theory Ledger
  imports Attempt_Writes
begin

text \<open>
  The ledger: one reduction as guards, a sequence of lawful writes and the new ordinal; the byte cache it
  leaves; and the replay of a log. The contract a replayed log needs (old events are skipped, gaps are
  refused, every accepted event advances the position by one) is the locale \<open>replayed_log\<close>, proved for
  \<open>reduceOrchestrationEvent\<close>.
\<close>

section \<open>One reduction\<close>

definition draft_of :: "TaskRuntimeProjection \<Rightarrow> int \<Rightarrow> ReducerDraft" where
  "draft_of p bytes = TaskRuntimeProjection.extend p \<lparr>trk_bytes = bytes, trk_counts = field_count p\<rparr>"

lemma draft_of_fields [simp]:
  "eventSources (draft_of p b) = eventSources p" "hostEvents (draft_of p b) = hostEvents p"
  "threadSubscriptions (draft_of p b) = threadSubscriptions p" "eventDeliveries (draft_of p b) = eventDeliveries p"
  "lastOrdinal (draft_of p b) = lastOrdinal p" "agents (draft_of p b) = agents p"
  "objectives (draft_of p b) = objectives p" "tasks (draft_of p b) = tasks p" "attempts (draft_of p b) = attempts p"
  "checkpoints (draft_of p b) = checkpoints p" "approvals (draft_of p b) = approvals p"
  "notifications (draft_of p b) = notifications p" "trk_bytes (draft_of p b) = b"
  "trk_counts (draft_of p b) = field_count p"
  by (simp_all add: draft_of_def TaskRuntimeProjection.defs)

definition reduced :: "ReducerDraft \<Rightarrow> nat \<Rightarrow> TaskRuntimeProjection" where
  "reduced d n = (TaskRuntimeProjection.truncate d)\<lparr>lastOrdinal := n\<rparr>"

lemma reduced_fields [simp]:
  "eventSources (reduced d n) = eventSources d" "hostEvents (reduced d n) = hostEvents d"
  "threadSubscriptions (reduced d n) = threadSubscriptions d" "eventDeliveries (reduced d n) = eventDeliveries d"
  "lastOrdinal (reduced d n) = n" "agents (reduced d n) = agents d"
  "objectives (reduced d n) = objectives d" "tasks (reduced d n) = tasks d" "attempts (reduced d n) = attempts d"
  "checkpoints (reduced d n) = checkpoints d" "approvals (reduced d n) = approvals d"
  "notifications (reduced d n) = notifications d"
  by (simp_all add: reduced_def TaskRuntimeProjection.defs)

lemma well_keyed_views [simp]:
  "well_keyed (draft_of p b) = well_keyed p" "well_keyed (reduced d n) = well_keyed d"
  by (simp_all add: well_keyed_def)

lemma field_count_views [simp]:
  "field_count (draft_of p b) = field_count p" "field_count (reduced d n) = field_count d"
  by (rule ext, case_tac x; simp)+

lemma maps_views [simp]:
  "maps_stored J (draft_of p b) = maps_stored J p" "maps_stored J (reduced d n) = maps_stored J d"
  "maps_bytes J (draft_of p b) = maps_bytes J p" "maps_bytes J (reduced d n) = maps_bytes J d"
  by (simp_all add: maps_stored_def maps_bytes_def)

text \<open>The two ways a reduction returns: an old event changes nothing, the next event is applied.\<close>

lemma reduce_cases:
  assumes "reduceOrchestrationEvent J (p, c) event = Inr (q, c')"
  obtains (old) bytes where "eh_ordinal event \<le> lastOrdinal p" "q = p" "c' = Some bytes"
      "cachedProjectionBytes J c p = Inr bytes" "assertProjectionWithinLimits J c p = Inr ()"
  | (new) bytes d b where "eh_ordinal event = lastOrdinal p + 1" "cachedProjectionBytes J c p = Inr bytes"
      "assertProjectionWithinLimits J c p = Inr ()"
      "applyOrchestrationPayload J (EventHeader.truncate event) (ev_payload event) (draft_of p bytes) = Inr d"
      "finish_tracking (eh_ordinal event) (lastOrdinal p) d = Inr b" "q = reduced d (eh_ordinal event)"
      "c' = Some b" "assertProjectionWithinLimits J (Some b) q = Inr ()"
proof -
  from assms obtain bytes where lim: "assertProjectionWithinLimits J c p = Inr ()"
    and bytes: "cachedProjectionBytes J c p = Inr bytes"
    and run: "(if eh_ordinal event \<le> lastOrdinal p then Inr (p, Some bytes)
      else if eh_ordinal event \<noteq> lastOrdinal p + 1
        then Inl (OrdinalGap (eh_ordinal event) (lastOrdinal p))
      else
        bindE (start_tracking J (Some bytes) p) (\<lambda>draft.
        bindE (applyOrchestrationPayload J (EventHeader.truncate event) (ev_payload event) draft) (\<lambda>state.
        bindE (finish_tracking (eh_ordinal event) (lastOrdinal p) state) (\<lambda>serializedBytes.
        let result = (TaskRuntimeProjection.truncate state)\<lparr>lastOrdinal := eh_ordinal event\<rparr> in
        bindE (assertProjectionWithinLimits J (Some serializedBytes) result) (\<lambda>_.
        Inr (result, Some serializedBytes)))))) = Inr (q, c')"
    unfolding reduceOrchestrationEvent_def by auto
  show ?thesis
  proof (cases "eh_ordinal event \<le> lastOrdinal p")
    case True
    with run lim bytes show ?thesis by (intro old [of bytes]) auto
  next
    case False
    with run have "eh_ordinal event = lastOrdinal p + 1" by (auto split: if_split_asm)
    with False run lim bytes new show ?thesis
      by (auto simp: start_tracking_def cachedProjectionBytes_def Let_def draft_of_def [symmetric] reduced_def [symmetric])
  qed
qed

lemma draft_step_ordinal: "draft_step J d d' \<Longrightarrow> lastOrdinal d' = lastOrdinal d"
  by (erule draft_step.cases) (auto dest: write_fields)

lemma draft_writes_ordinal: "draft_writes J d d' \<Longrightarrow> lastOrdinal d' = lastOrdinal d"
  by (induction rule: draft_writes.induct) (auto dest: draft_step_ordinal)

text \<open>The writes of an applied event.\<close>

lemma reduce_writes:
  assumes "reduceOrchestrationEvent J (p, c) event = Inr (q, c')" and "well_keyed p"
  shows "q = p \<or> (\<exists>bytes d. structural_writes J True (draft_of p bytes) d \<and> q = reduced d (lastOrdinal p + 1))"
  using assms(1)
proof (cases rule: reduce_cases)
  case (new bytes d b)
  then have "structural_writes J True (draft_of p bytes) d"
    using assms(2) by (intro applyOrchestrationPayload_writes) auto
  with new show ?thesis by auto
qed simp

lemma reduce_keyed:
  assumes "reduceOrchestrationEvent J (p, c) event = Inr (q, c')" and "well_keyed p"
  shows "well_keyed q"
  using reduce_writes [OF assms] assms(2) structural_writes_keyed by force

section \<open>The byte cache\<close>

text \<open>
  A cached size is the size the serializer would recompute. The invariant also says that the maps have
  distinct keys and identify their records.
\<close>

definition cache_exact :: "json_env \<Rightarrow> ledger_state \<Rightarrow> bool" where
  "cache_exact J s \<longleftrightarrow> well_keyed (fst s) \<and>
     (\<forall>b. snd s = Some b \<longrightarrow> projectionSerializedBytes J (fst s) = Inr b)"

lemma well_keyed_distinct: "well_keyed p \<Longrightarrow> maps_distinct p"
  by (simp add: well_keyed_def maps_distinct_def keyed_map_def)

lemma cache_exact_bytes:
  assumes "cache_exact J (p, c)" and "cachedProjectionBytes J c p = Inr b"
  shows "projectionSerializedBytes J p = Inr b" "b = projection_bytes J p" "maps_stored J p"
proof -
  from assms show run: "projectionSerializedBytes J p = Inr b"
    by (auto simp: cache_exact_def cachedProjectionBytes_def split: option.split_asm)
  from assms(1) have "maps_distinct p" by (simp add: cache_exact_def well_keyed_distinct)
  from projectionSerializedBytes_Inr [OF this run] show "b = projection_bytes J p" "maps_stored J p" by auto
qed

lemma reduce_cache_exact:
  assumes "cache_exact J s" and "reduceOrchestrationEvent J s event = Inr s'"
  shows "cache_exact J s' \<and> (\<exists>b. snd s' = Some b \<and> projectionSerializedBytes J (fst s') = Inr b)"
proof -
  obtain p c where s: "s = (p, c)" by force
  obtain q c' where s': "s' = (q, c')" by force
  have keyed: "well_keyed p" using assms(1) by (simp add: s cache_exact_def)
  note red = assms(2) [unfolded s s']
  have kq: "well_keyed q" by (rule reduce_keyed [OF red keyed])
  from red have "\<exists>b. c' = Some b \<and> projectionSerializedBytes J q = Inr b"
  proof (cases rule: reduce_cases)
    case (old bytes)
    with cache_exact_bytes [OF assms(1) [unfolded s]] show ?thesis by blast
  next
    case (new bytes d b)
    note exact = cache_exact_bytes [OF assms(1) [unfolded s] new(2)]
    have "coherent J (draft_of p bytes)"
      using exact by (simp add: coherent_def projection_bytes_def)
    moreover have w: "draft_writes J (draft_of p bytes) d"
      using new(4) keyed by (intro structural_writes_draft [where loose = True] applyOrchestrationPayload_writes) auto
    ultimately have coh: "coherent J d" by (rule writes_coherent [rotated])
    have ord: "lastOrdinal d = lastOrdinal p" using draft_writes_ordinal [OF w] by simp
    from new(5) have b: "b = trk_bytes d + (int (decimal_digits (eh_ordinal event)) - int (decimal_digits (lastOrdinal p)))"
      and small: "b \<le> int MAX_ORCHESTRATION_PROJECTION_BYTES"
      by (auto simp: finish_tracking_def Let_def split: if_split_asm)
    have "b = projection_bytes J q"
      using coh b ord by (simp add: new(6) coherent_def projection_bytes_def emptyProjectionSerializedBytes_def)
    moreover have "maps_stored J q" using coh by (simp add: new(6) coherent_def)
    ultimately show ?thesis using small new(7) projectionSerializedBytes_total by blast
  qed
  with kq show ?thesis by (auto simp: s' cache_exact_def)
qed

section \<open>Replay\<close>

text \<open>
  A log of numbered events applied to a state with a position. \<open>settled\<close> states are those a step has
  returned; on them an old event is skipped without effect.
\<close>

locale replayed_log =
  fixes step :: "'s \<Rightarrow> 'e \<Rightarrow> 'err + 's"
    and position :: "'s \<Rightarrow> nat"
    and ordinal :: "'e \<Rightarrow> nat"
    and settled :: "'s \<Rightarrow> bool"
  assumes settles: "step s e = Inr s' \<Longrightarrow> settled s'"
    and skips: "settled s \<Longrightarrow> ordinal e \<le> position s \<Longrightarrow> step s e = Inr s"
    and advances: "step s e = Inr s' \<Longrightarrow> ordinal e \<le> position s + 1 \<and> position s' = max (position s) (ordinal e)"
begin

lemma replay_settled: "foldE step s es = Inr s' \<Longrightarrow> settled s \<Longrightarrow> settled s'"
  by (rule foldE_invariant) (auto dest: settles)

lemma replay_nonempty_settled: "foldE step s es = Inr s' \<Longrightarrow> es \<noteq> [] \<Longrightarrow> settled s'"
  by (cases es) (auto intro: replay_settled dest: settles)

lemma replay_position:
  "foldE step s es = Inr s' \<Longrightarrow> position s \<le> position s' \<and> (\<forall>e \<in> set es. ordinal e \<le> position s')"
proof (induction es arbitrary: s)
  case (Cons e es)
  from Cons.prems obtain s1 where one: "step s e = Inr s1" and rest: "foldE step s1 es = Inr s'" by auto
  from advances [OF one] Cons.IH [OF rest] show ?case by auto
qed simp

lemma replay_reaches:
  "foldE step s es = Inr s' \<Longrightarrow> position s' = position s \<or> (\<exists>e \<in> set es. ordinal e = position s')"
proof (induction es arbitrary: s)
  case (Cons e es)
  from Cons.prems obtain s1 where one: "step s e = Inr s1" and rest: "foldE step s1 es = Inr s'" by auto
  from advances [OF one] Cons.IH [OF rest] show ?case by (auto simp: max_def split: if_split_asm)
qed simp

lemma replay_old:
  "settled s \<Longrightarrow> \<forall>e \<in> set es. ordinal e \<le> position s \<Longrightarrow> foldE step s es = Inr s"
  by (induction es) (simp_all add: skips)

lemma replay_again:
  assumes "foldE step s es = Inr s'" and "es \<noteq> []" and "set xs \<subseteq> set es"
  shows "foldE step s' xs = Inr s'"
  using replay_position [OF assms(1)] replay_nonempty_settled [OF assms(1,2)] assms(3)
  by (intro replay_old) auto

lemma replay_from_snapshot:
  assumes "foldE step s (es @ fs) = Inr s'" and "foldE step s es = Inr t" and "es \<noteq> []"
  shows "foldE step t (es @ fs) = Inr s'"
  using assms replay_again [OF assms(2,3), of es] by (simp add: foldE_append)

lemma replay_contiguous:
  assumes "foldE step s es = Inr s'" and "e \<in> set es" and "position s < ordinal e"
    and "position s < n" and "n \<le> ordinal e"
  shows "\<exists>x \<in> set es. ordinal x = n"
  using assms
proof (induction es arbitrary: s)
  case (Cons x es)
  from Cons.prems(1) obtain s1 where one: "step s x = Inr s1" and rest: "foldE step s1 es = Inr s'" by auto
  note adv = advances [OF one]
  show ?case
  proof (cases "ordinal x = n")
    case False
    then have "position s1 < n" using adv Cons.prems(4) by auto
    with False Cons.prems have "e \<in> set es \<and> position s1 < ordinal e" using adv by auto
    with Cons.IH [OF rest] \<open>position s1 < n\<close> Cons.prems(5) show ?thesis by auto
  qed simp
qed simp

end

text \<open>What a reduction has returned: its size is known and its limits hold.\<close>

definition ledger_settled :: "json_env \<Rightarrow> ledger_state \<Rightarrow> bool" where
  "ledger_settled J s \<longleftrightarrow> snd s \<noteq> None \<and> assertProjectionWithinLimits J (snd s) (fst s) = Inr ()"

lemma limits_cached:
  assumes "assertProjectionWithinLimits J c p = Inr ()" and "cachedProjectionBytes J c p = Inr b"
  shows "assertProjectionWithinLimits J (Some b) p = Inr ()"
  using assms by (auto simp: assertProjectionWithinLimits_def cachedProjectionBytes_def)

interpretation ledger: replayed_log "reduceOrchestrationEvent J" "\<lambda>s. lastOrdinal (fst s)" eh_ordinal "ledger_settled J" for J
proof
  fix s s' :: ledger_state and e :: OrchestrationEvent
  obtain p c q c' where [simp]: "s = (p, c)" "s' = (q, c')" by force
  assume red: "reduceOrchestrationEvent J s e = Inr s'"
  then have red: "reduceOrchestrationEvent J (p, c) e = Inr (q, c')" by simp
  from red show "ledger_settled J s'"
    by (cases rule: reduce_cases) (auto simp: ledger_settled_def intro: limits_cached)
  from red show "eh_ordinal e \<le> lastOrdinal (fst s) + 1 \<and>
      lastOrdinal (fst s') = max (lastOrdinal (fst s)) (eh_ordinal e)"
    by (cases rule: reduce_cases) auto
next
  fix s :: ledger_state and e :: OrchestrationEvent
  assume "ledger_settled J s" and "eh_ordinal e \<le> lastOrdinal (fst s)"
  then show "reduceOrchestrationEvent J s e = Inr s"
    by (cases s) (auto simp: ledger_settled_def reduceOrchestrationEvent_def cachedProjectionBytes_def)
qed

end
