(* ===== verification/History.thy ===== *)
theory History
  imports Ledger
begin

text \<open>
  What later events may do to a retained record. The locale \<open>retained_map\<close> is the contract of a map whose
  records are kept and only move along a relation; it is interpreted on the seven maps that never lose a
  record, and lifts the relation from one write to reductions and replays.
\<close>

section \<open>Maps that keep their records\<close>

locale retained_map =
  fixes get :: "ReducerDraft \<Rightarrow> 'v js_record"
    and view :: "TaskRuntimeProjection \<Rightarrow> 'v js_record"
    and moves :: "string \<Rightarrow> 'v \<Rightarrow> 'v \<Rightarrow> bool"
  assumes view_draft: "get (draft_of p b) = view p"
    and view_reduced: "view (reduced d n) = get d"
    and step_keeps: "structural_step J loose d d' \<Longrightarrow> map_of (get d) k = Some v \<Longrightarrow>
      \<exists>w. map_of (get d') k = Some w \<and> (moves k)\<^sup>=\<^sup>= v w"
begin

lemma writes_keep:
  "structural_writes J loose d d' \<Longrightarrow> map_of (get d) k = Some v \<Longrightarrow>
   \<exists>w. map_of (get d') k = Some w \<and> (moves k)\<^sup>*\<^sup>* v w"
proof (induction rule: structural_writes.induct)
  case (sw_more d d1 d2)
  then obtain w where w: "map_of (get d1) k = Some w" "(moves k)\<^sup>*\<^sup>* v w" by blast
  from step_keeps [OF sw_more.hyps(2) w(1)] obtain x where "map_of (get d2) k = Some x" "(moves k)\<^sup>=\<^sup>= w x" by blast
  with w(2) show ?case by (auto intro: rtranclp.rtrancl_into_rtrancl)
qed auto

lemma reduce_keeps:
  assumes "reduceOrchestrationEvent J s event = Inr s'" and "well_keyed (fst s)"
    and "map_of (view (fst s)) k = Some v"
  shows "\<exists>w. map_of (view (fst s')) k = Some w \<and> (moves k)\<^sup>*\<^sup>* v w"
proof -
  obtain p c q c' where [simp]: "s = (p, c)" "s' = (q, c')" by force
  from reduce_writes [of J p c event q c'] assms consider "q = p"
    | bytes d where "structural_writes J True (draft_of p bytes) d" "q = reduced d (lastOrdinal p + 1)" by auto
  then show ?thesis
  proof cases
    case 2
    with writes_keep [OF 2(1), of k v] assms(3) show ?thesis by (simp add: view_draft view_reduced)
  qed (use assms(3) in auto)
qed

lemma replay_keeps:
  assumes "foldE (reduceOrchestrationEvent J) s es = Inr s'" and "well_keyed (fst s)"
    and "map_of (view (fst s)) k = Some v"
  shows "\<exists>w. map_of (view (fst s')) k = Some w \<and> (moves k)\<^sup>*\<^sup>* v w"
  using assms
proof (induction es arbitrary: s v)
  case (Cons e es)
  from Cons.prems(1) obtain t where one: "reduceOrchestrationEvent J s e = Inr t"
    and rest: "foldE (reduceOrchestrationEvent J) t es = Inr s'" by auto
  have keyed: "well_keyed (fst t)"
    using reduce_keyed [of J "fst s" "snd s" e "fst t" "snd t"] one Cons.prems(2) by simp
  from reduce_keeps [OF one Cons.prems(2,3)] obtain w where w: "map_of (view (fst t)) k = Some w" "(moves k)\<^sup>*\<^sup>* v w"
    by blast
  from Cons.IH [OF rest keyed w(1)] w(2) show ?case by (auto intro: rtranclp_trans)
qed auto

end

text \<open>A retired agent's record is final.\<close>

definition agent_history :: "AgentBindingContract \<Rightarrow> AgentBindingContract \<Rightarrow> bool" where
  "agent_history g h \<longleftrightarrow> agent_status g \<noteq> AgentRetired \<and> agent_identity h = agent_identity g"

definition task_history :: "string \<Rightarrow> TaskRuntimeState \<Rightarrow> TaskRuntimeState \<Rightarrow> bool" where
  "task_history k t u \<longleftrightarrow> task_moves t u \<and> (\<exists>new. ts_attemptIds u = ts_attemptIds t @ new)"

definition objective_history :: "string \<Rightarrow> ObjectiveRuntimeState \<Rightarrow> ObjectiveRuntimeState \<Rightarrow> bool" where
  "objective_history k o1 o2 \<longleftrightarrow> objective_moves k o1 o2 \<and> (\<exists>new. os_taskIds o2 = os_taskIds o1 @ new)"

lemma record_step_attempts:
  "record_step J loose d d' \<Longrightarrow> map_of (attempts d) k = Some v \<Longrightarrow>
   \<exists>w. map_of (attempts d') k = Some w \<and> attempt_moves\<^sup>=\<^sup>= v w"
  by (erule record_step_elim) (auto dest!: write_fields)

lemma structural_step_attempts:
  "structural_step J loose d d' \<Longrightarrow> map_of (attempts d) k = Some v \<Longrightarrow>
   \<exists>w. map_of (attempts d') k = Some w \<and> attempt_moves\<^sup>=\<^sup>= v w"
  by (erule structural_step_elim, erule (1) record_step_attempts) (auto dest!: write_fields)

lemma record_step_agents:
  "record_step J loose d d' \<Longrightarrow> map_of (agents d) k = Some v \<Longrightarrow>
   \<exists>w. map_of (agents d') k = Some w \<and> agent_history\<^sup>=\<^sup>= v w"
  by (erule record_step_elim) (auto simp: agent_history_def agent_moves_def agent_retires_def dest!: write_fields)

lemma structural_step_agents:
  "structural_step J loose d d' \<Longrightarrow> map_of (agents d) k = Some v \<Longrightarrow>
   \<exists>w. map_of (agents d') k = Some w \<and> agent_history\<^sup>=\<^sup>= v w"
  by (erule structural_step_elim, erule (1) record_step_agents) (auto simp: agent_history_def agent_moves_def agent_retires_def dest!: write_fields)

lemma record_step_tasks:
  "record_step J loose d d' \<Longrightarrow> map_of (tasks d) k = Some v \<Longrightarrow>
   \<exists>w. map_of (tasks d') k = Some w \<and> (task_history k)\<^sup>=\<^sup>= v w"
  by (erule record_step_elim) (auto simp: task_history_def dest!: write_fields)

lemma structural_step_tasks:
  "structural_step J loose d d' \<Longrightarrow> map_of (tasks d) k = Some v \<Longrightarrow>
   \<exists>w. map_of (tasks d') k = Some w \<and> (task_history k)\<^sup>=\<^sup>= v w"
  by (erule structural_step_elim, erule (1) record_step_tasks) (auto simp: task_history_def dest!: write_fields)

lemma record_step_objectives:
  "record_step J loose d d' \<Longrightarrow> map_of (objectives d) k = Some v \<Longrightarrow>
   \<exists>w. map_of (objectives d') k = Some w \<and> (objective_history k)\<^sup>=\<^sup>= v w"
  by (erule record_step_elim) (auto simp: objective_history_def objective_moves_def dest!: write_fields)

lemma structural_step_objectives:
  "structural_step J loose d d' \<Longrightarrow> map_of (objectives d) k = Some v \<Longrightarrow>
   \<exists>w. map_of (objectives d') k = Some w \<and> (objective_history k)\<^sup>=\<^sup>= v w"
  by (erule structural_step_elim, erule (1) record_step_objectives) (auto simp: objective_history_def objective_moves_def dest!: write_fields)

lemma record_step_checkpoints:
  "record_step J loose d d' \<Longrightarrow> map_of (checkpoints d) k = Some v \<Longrightarrow>
   \<exists>w. map_of (checkpoints d') k = Some w \<and> (\<lambda>a b. False)\<^sup>=\<^sup>= v w"
  by (erule record_step_elim) (auto dest!: write_fields)

lemma structural_step_checkpoints:
  "structural_step J loose d d' \<Longrightarrow> map_of (checkpoints d) k = Some v \<Longrightarrow>
   \<exists>w. map_of (checkpoints d') k = Some w \<and> (\<lambda>a b. False)\<^sup>=\<^sup>= v w"
  by (erule structural_step_elim, erule (1) record_step_checkpoints) (auto dest!: write_fields)

lemma record_step_approvals:
  "record_step J loose d d' \<Longrightarrow> map_of (approvals d) k = Some v \<Longrightarrow>
   \<exists>w. map_of (approvals d') k = Some w \<and> approval_moves\<^sup>=\<^sup>= v w"
  by (erule record_step_elim) (auto dest!: write_fields)

lemma structural_step_approvals:
  "structural_step J loose d d' \<Longrightarrow> map_of (approvals d) k = Some v \<Longrightarrow>
   \<exists>w. map_of (approvals d') k = Some w \<and> approval_moves\<^sup>=\<^sup>= v w"
  by (erule structural_step_elim, erule (1) record_step_approvals) (auto dest!: write_fields)

lemma record_step_notifications:
  "record_step J loose d d' \<Longrightarrow> map_of (notifications d) k = Some v \<Longrightarrow>
   \<exists>w. map_of (notifications d') k = Some w \<and> notification_moves\<^sup>=\<^sup>= v w"
  by (erule record_step_elim) (auto dest!: write_fields)

lemma structural_step_notifications:
  "structural_step J loose d d' \<Longrightarrow> map_of (notifications d) k = Some v \<Longrightarrow>
   \<exists>w. map_of (notifications d') k = Some w \<and> notification_moves\<^sup>=\<^sup>= v w"
  by (erule structural_step_elim, erule (1) record_step_notifications) (auto dest!: write_fields)

interpretation attempts_kept: retained_map attempts attempts "\<lambda>k. attempt_moves"
proof unfold_locales
qed (simp, simp, erule (1) structural_step_attempts)

interpretation agents_kept: retained_map agents agents "\<lambda>k. agent_history"
proof unfold_locales
qed (simp, simp, erule (1) structural_step_agents)

interpretation tasks_kept: retained_map tasks tasks task_history
proof unfold_locales
qed (simp, simp, erule (1) structural_step_tasks)

interpretation objectives_kept: retained_map objectives objectives objective_history
proof unfold_locales
qed (simp, simp, erule (1) structural_step_objectives)

interpretation checkpoints_kept: retained_map checkpoints checkpoints "\<lambda>k a b. False"
proof unfold_locales
qed (simp, simp, erule (1) structural_step_checkpoints)

interpretation approvals_kept: retained_map approvals approvals "\<lambda>k. approval_moves"
proof unfold_locales
qed (simp, simp, erule (1) structural_step_approvals)

interpretation notifications_kept: retained_map notifications notifications "\<lambda>k. notification_moves"
proof unfold_locales
qed (simp, simp, erule (1) structural_step_notifications)

section \<open>Maps whose new records are constrained\<close>

text \<open>
  The contract of a retained map that also says what a new record looks like. An invariant that holds of
  every new record and follows every move holds of all records.
\<close>

locale born_map = retained_map +
  fixes born :: "string \<Rightarrow> 'a \<Rightarrow> bool"
  assumes step_born: "structural_step J loose d d' \<Longrightarrow> map_of (get d) k = None \<Longrightarrow> map_of (get d') k = Some w \<Longrightarrow> born k w"
begin

lemma step_all:
  assumes "structural_step J loose d d'" and "\<forall>k v. map_of (get d) k = Some v \<longrightarrow> P k v"
    and new: "\<And>k v. born k v \<Longrightarrow> P k v" and move: "\<And>k v w. P k v \<Longrightarrow> moves k v w \<Longrightarrow> P k w"
  shows "\<forall>k v. map_of (get d') k = Some v \<longrightarrow> P k v"
proof (intro allI impI)
  fix k w assume w: "map_of (get d') k = Some w"
  show "P k w"
  proof (cases "map_of (get d) k")
    case None
    from step_born [OF assms(1) None w] show ?thesis by (rule new)
  next
    case (Some v)
    with step_keeps [OF assms(1) Some] w have "moves k v w \<or> w = v" by auto
    with assms(2) Some move [of k v w] show ?thesis by auto
  qed
qed

lemma reduce_all:
  assumes "reduceOrchestrationEvent J (p, c) event = Inr (q, c')" and "well_keyed p"
    and "\<forall>k v. map_of (view p) k = Some v \<longrightarrow> P k v"
    and new: "\<And>k v. born k v \<Longrightarrow> P k v" and move: "\<And>k v w. P k v \<Longrightarrow> moves k v w \<Longrightarrow> P k w"
  shows "\<forall>k v. map_of (view q) k = Some v \<longrightarrow> P k v"
  using reduce_writes [OF assms(1,2)]
proof (elim disjE exE conjE)
  fix bytes d
  assume q: "q = reduced d (lastOrdinal p + 1)" and "structural_writes J True (draft_of p bytes) d"
  from this(2) have "(\<forall>k v. map_of (get (draft_of p bytes)) k = Some v \<longrightarrow> P k v) \<longrightarrow>
      (\<forall>k v. map_of (get d) k = Some v \<longrightarrow> P k v)"
  proof (induction rule: structural_writes.induct)
    case (sw_more d d1 d2)
    show ?case
    proof
      assume "\<forall>k v. map_of (get d) k = Some v \<longrightarrow> P k v"
      with sw_more.IH have "\<forall>k v. map_of (get d1) k = Some v \<longrightarrow> P k v" by blast
      with sw_more.hyps(2) show "\<forall>k v. map_of (get d2) k = Some v \<longrightarrow> P k v"
        by (rule step_all) (fact new, fact move)
    qed
  qed simp
  with assms(3) show ?thesis by (simp add: q view_draft view_reduced)
qed (use assms(3) in simp)

end

lemma record_step_new:
  assumes "record_step J loose d d'"
  shows "map_of (attempts d) k = None \<Longrightarrow> map_of (attempts d') k = None"
    "map_of (agents d) k = None \<Longrightarrow> map_of (agents d') k = None"
    "map_of (tasks d) k = None \<Longrightarrow> map_of (tasks d') k = None"
    "map_of (objectives d) k = None \<Longrightarrow> map_of (objectives d') k = None"
  using assms by (auto elim!: record_step_elim dest!: write_fields)

lemma structural_step_born:
  assumes "structural_step J loose d d'"
  shows "map_of (attempts d) k = None \<Longrightarrow> map_of (attempts d') k = Some v \<Longrightarrow> attempt_born k v"
    "map_of (agents d) k = None \<Longrightarrow> map_of (agents d') k = Some g \<Longrightarrow> agent_born k g"
    "map_of (tasks d) k = None \<Longrightarrow> map_of (tasks d') k = Some t \<Longrightarrow> task_born k t"
    "map_of (objectives d) k = None \<Longrightarrow> map_of (objectives d') k = Some x \<Longrightarrow> objective_born k x"
  using assms record_step_new [of J loose d d' k] by (auto elim!: structural_step_elim dest!: write_fields split: if_split_asm)

interpretation attempts_born: born_map attempts attempts "\<lambda>k. attempt_moves" attempt_born
  by unfold_locales (rule structural_step_born(1))

interpretation agents_born: born_map agents agents "\<lambda>k. agent_history" agent_born
  by unfold_locales (rule structural_step_born(2))

interpretation tasks_born: born_map tasks tasks task_history task_born
  by unfold_locales (rule structural_step_born(3))

interpretation objectives_born: born_map objectives objectives objective_history objective_born
  by unfold_locales (rule structural_step_born(4))

end
