(* ===== verification/Sample_Log.thy ===== *)
theory Sample_Log
  imports Orchestration_Reducer "HOL-Library.Code_Target_Nat"
begin

text \<open>
  A concrete ledger on which the properties of the other theories are exercised: one objective with one
  criterion, an agent, a task whose attempt runs, checkpoints, is suspended, resumes under a second
  lease, and finishes with the evidence that lets the objective complete. The environment gives every
  record the same serialized size and digests a value to its domain.
\<close>

section \<open>Environment and contracts\<close>

definition sample_env :: json_env where
  "sample_env = \<lparr>je_source = (\<lambda>_. 100), je_event = (\<lambda>_. 100), je_subscription = (\<lambda>_. 100),
     je_delivery = (\<lambda>_. 100), je_agent = (\<lambda>_. 100), je_objective = (\<lambda>_. 100), je_task = (\<lambda>_. 100),
     je_attempt = (\<lambda>_. 100), je_checkpoint = (\<lambda>_. 100), je_approval = (\<lambda>_. 100),
     je_notification = (\<lambda>_. 100), je_seal = (\<lambda>_. 100), je_gap = (\<lambda>_. 100),
     je_transcript_receipt = (\<lambda>_. 100), je_hash = (\<lambda>domain _. domain)\<rparr>"

definition no_budget :: RiskBudget where
  "no_budget = \<lparr>maxTokens = None, maxWallClockMs = None, maxCostUsd = None, maxAttempts = None,
     maxToolCalls = None, requireApprovalAboveCostUsd = None\<rparr>"

definition sample_objective :: ObjectiveContract where
  "sample_objective = \<lparr>obj_objectiveId = ''o'', obj_schemaVersion = 1, obj_title = ''O'',
     obj_description = ''O'', obj_status = ObjActive, obj_constraints = [],
     obj_acceptanceCriteria = [\<lparr>crit_id = ''c'', crit_description = ''C'', crit_required = True,
       crit_evaluator = None\<rparr>],
     obj_riskBudget = no_budget, obj_createdAt = At 0, obj_updatedAt = At 0\<rparr>"

definition sample_agent :: AgentBindingContract where
  "sample_agent = \<lparr>agent_agentId = ''g'',
     agent_resumeContext = \<lparr>rc_provider = ProviderPi, rc_sessionId = ''s'', rc_sessionDir = None,
       rc_sessionFile = None, rc_cwd = ''/'', rc_worktreeLaneKey = None, rc_orchestrationProfileId = None,
       rc_resourceProfileNames = [], rc_modelRef = None, rc_contextPointers = [],
       rc_latestCheckpointId = None\<rparr>,
     agent_schemaVersion = 1, agent_contextOrigin = None, agent_parentAgentId = None,
     agent_rootAgentId = ''g'', agent_depth = 0, agent_role = Implementer, agent_status = AgentRegistered,
     agent_activeAttemptId = None, agent_createdAt = At 0, agent_updatedAt = At 0\<rparr>"

definition sample_task :: TaskContract where
  "sample_task = \<lparr>task_taskId = ''t'', task_schemaVersion = 1, task_objectiveId = ''o'', task_title = ''T'',
     task_description = ''T'', task_role = Implementer, task_status = TaskReady, task_dependsOn = [],
     task_requiredCapabilities = [], task_acceptanceCriterionIds = [''c''],
     task_verificationOfTaskId = None, task_verificationOfAttemptId = None, task_riskBudget = no_budget,
     task_createdAt = At 0, task_updatedAt = At 0\<rparr>"

definition sample_dispatch :: OrchestrationDispatchRequest where
  "sample_dispatch = \<lparr>dispatch_taskId = ''t'', dispatch_knowledgeReferences = None,
     dispatch_subscriptions = None, dispatch_receiptOrigin = None, dispatch_turnOrigin = None,
     dispatch_profileId = ''p'', dispatch_instructions = ''i'', dispatch_brief = None,
     dispatch_resourcePointerIds = [], dispatch_parentAgentId = None, dispatch_requirementIds = [],
     dispatch_executionKind = None, dispatch_logicalLaneId = None, dispatch_dispatchSequence = None,
     dispatch_controlMessageId = None, dispatch_controlForkMode = None, dispatch_provider = None,
     dispatch_authorizationId = None, dispatch_worktreeLaneKey = None, dispatch_worktreeLanePath = None,
     dispatch_birthContextForkReference = None, dispatch_executionContract = None,
     dispatch_modelRouteSource = None, dispatch_modelPinSource = None\<rparr>"

definition sample_grant :: ExecutionGrant where
  "sample_grant = \<lparr>grant_grantId = ''gr'', grant_schemaVersion = 1, grant_objectiveId = ''o'',
     grant_taskId = ''t'', grant_attemptId = ''a'', grant_subjectId = ''g'', grant_role = Implementer,
     grant_capabilities = [], grant_allowedTools = [], grant_resources = [], grant_readPaths = [],
     grant_writePaths = [], grant_deniedPaths = [], grant_budget = no_budget, grant_policyVersion = ''1'',
     grant_decisionTrace = [], grant_issuedAt = At 0, grant_expiresAt = None\<rparr>"

definition sample_lease :: "string \<Rightarrow> nat \<Rightarrow> int \<Rightarrow> AttemptLease" where
  "sample_lease l f now = \<lparr>lease_leaseId = l, lease_attemptId = ''a'', lease_ownerId = ''w'',
     lease_fencingToken = f, lease_issuedAt = At now, lease_expiresAt = At 1000\<rparr>"

definition sample_checkpoint :: AttemptCheckpoint where
  "sample_checkpoint = \<lparr>ck_checkpointId = ''k'', ck_attemptId = ''a'', ck_fencingToken = 1, ck_summary = ''s'',
     ck_artifactIds = [], ck_evidenceIds = [], ck_usage = None, ck_createdAt = At 10\<rparr>"

definition sample_evidence :: EvidenceContract where
  "sample_evidence = \<lparr>ev_evidenceId = ''e'', ev_criterionId = Some ''c'', ev_kind = EvTest, ev_summary = ''s'',
     ev_artifactIds = [], ev_trusted = True, ev_createdAt = At 15, ev_metadata = None\<rparr>"

definition sample_result :: WorkerResultContract where
  "sample_result = \<lparr>res_resultId = ''r'', res_schemaVersion = 1, res_objectiveId = ''o'', res_taskId = ''t'',
     res_attemptId = ''a'', res_leaseId = ''l2'', res_fencingToken = 2, res_status = ResCompleted,
     res_reasonCode = ''done'', res_summary = ''s'', res_artifacts = [], res_evidence = [sample_evidence],
     res_errors = [], res_nextAction = None,
     res_usage = \<lparr>wu_inputTokens = None, wu_outputTokens = None, wu_totalTokens = None, wu_costUsd = None,
       wu_wallClockMs = Fin 0, wu_toolCalls = Fin 0\<rparr>,
     res_receipts = Some (ReceiptsCaptured JNull ''d'' \<lparr>wra_disposition = DispAccepted,
       wra_verificationRequired = False, wra_reasonCode = ''ok''\<rparr>),
     res_ownerUpdateNone = False, res_conditionMet = False, res_createdAt = At 15\<rparr>"

definition sample_usage :: "int \<Rightarrow> AttemptUsageSnapshot" where
  "sample_usage n = EMPTY_ATTEMPT_USAGE\<lparr>inputTokens := js_int n, totalTokens := js_int n\<rparr>"

section \<open>The ledger\<close>

definition sample_event :: "nat \<Rightarrow> string \<Rightarrow> OrchestrationPayload \<Rightarrow> OrchestrationEvent" where
  "sample_event n aggregate payload = EventHeader.extend
     \<lparr>eh_ordinal = n, eh_eventId = ''e'', eh_aggregateId = aggregate, eh_actor = ActorKernel, eh_occurredAt = At (int n)\<rparr>
     \<lparr>ev_payload = payload\<rparr>"

definition sample_generation :: "string \<Rightarrow> nat \<Rightarrow> AttemptUsageGenerationIdentity" where
  "sample_generation l f = \<lparr>gid_leaseId = l, gid_fencingToken = f\<rparr>"

definition sample_queued :: "string \<Rightarrow> QueuedAttempt" where
  "sample_queued a = \<lparr>qa_attemptId = a, qa_taskId = ''t'', qa_dispatch = sample_dispatch, qa_grantId = None\<rparr>"

definition sample_log :: "OrchestrationEvent list" where
  "sample_log =
     [sample_event 1 ''o'' (ObjectivePayload (ObjectiveCreated sample_objective)),
      sample_event 2 ''g'' (AgentPayload (AgentRegisteredEvent sample_agent)),
      sample_event 3 ''o'' (TaskPayload (TaskCreated sample_task None)),
      sample_event 4 ''t'' (AttemptPayload (AttemptQueuedEvent (sample_queued ''a''))),
      sample_event 5 ''a'' (AttemptPayload (GrantBound ''a'' sample_grant)),
      sample_event 6 ''a'' (AttemptPayload (AttemptLeasedEvent (sample_lease ''l1'' 1 6) (Some ''g''))),
      sample_event 7 ''a'' (AttemptPayload (AttemptStarted ''a'' ''l1'' 1)),
      sample_event 8 ''a'' (AttemptPayload (UsageRegistered ''a'' (sample_generation ''l1'' 1) (Some EMPTY_ATTEMPT_USAGE))),
      sample_event 9 ''a'' (AttemptPayload (UsageRecorded ''a'' (sample_generation ''l1'' 1) (sample_usage 7))),
      sample_event 10 ''a'' (AttemptPayload (AttemptCheckpointed sample_checkpoint ''l1'')),
      sample_event 11 ''a'' (AttemptPayload (AttemptSuspendedEvent ''a'' ''l1'' 1 None None)),
      sample_event 12 ''g'' (AgentPayload (AgentResumeRequested ''g'' ''a'')),
      sample_event 13 ''a'' (AttemptPayload (AttemptResumedEvent (sample_lease ''l2'' 2 13) ''g'')),
      sample_event 14 ''a'' (AttemptPayload (AttemptStarted ''a'' ''l2'' 2)),
      sample_event 15 ''a'' (AttemptPayload (UsageRegistered ''a'' (sample_generation ''l2'' 2) None)),
      sample_event 16 ''a'' (AttemptPayload (AttemptFinished sample_result)),
      sample_event 17 ''o'' (ObjectivePayload (ObjectiveCompletedEvent PolicyTaskEvidence))]"

lemma sample_log_length: "length sample_log = 17"
  by (simp add: sample_log_def)

lemma sample_log_last: "sample_log = take 16 sample_log @ [sample_log ! 16]"
  by (simp add: sample_log_def)

text \<open>A check of the state after some events, and the states it speaks of.\<close>

definition after :: "OrchestrationEvent list \<Rightarrow> (ledger_state \<Rightarrow> bool) \<Rightarrow> bool" where
  "after es P = (case projectOrchestrationEvents sample_env es of Inr s \<Rightarrow> P s | Inl _ \<Rightarrow> False)"

lemma afterE:
  assumes "after es P"
  obtains p c where "projectOrchestrationEvents sample_env es = Inr (p, c)" and "P (p, c)"
  using assms by (auto simp: after_def split: sum.splits)

lemma after_step:
  assumes "after (es @ [e]) P"
  obtains p c q c' where "projectOrchestrationEvents sample_env es = Inr (p, c)"
    and "reduceOrchestrationEvent sample_env (p, c) e = Inr (q, c')"
    and "projectOrchestrationEvents sample_env (es @ [e]) = Inr (q, c')" and "P (q, c')"
  using assms
  by (auto simp: after_def projectOrchestrationEvents_def foldE_append bindE_def split: sum.splits)

lemma after_later:
  assumes "after (take n es) P" and "after es Q"
  obtains p c q c' where "projectOrchestrationEvents sample_env (take n es) = Inr (p, c)"
    and "foldE (reduceOrchestrationEvent sample_env) (p, c) (drop n es) = Inr (q, c')" and "P (p, c)" and "Q (q, c')"
proof -
  have "projectOrchestrationEvents sample_env es =
      bindE (projectOrchestrationEvents sample_env (take n es)) (\<lambda>s. foldE (reduceOrchestrationEvent sample_env) s (drop n es))"
    by (simp add: projectOrchestrationEvents_def flip: foldE_append)
  with assms that show ?thesis by (auto simp: after_def bindE_def split: sum.splits)
qed

section \<open>Evaluation\<close>

lemma sample_running: "after (take 10 sample_log) (\<lambda>s. case map_of (attempts (fst s)) ''a'' of
     Some a \<Rightarrow> att_status a = AttRunning \<and> lease_fence a = 1 \<and> att_checkpointIds a = [''k''] \<and> att_agentId a = Some ''g'' \<and>
       map_option (\<lambda>u. inputTokens (acct_total u)) (att_usageAccounting a) = Some (js_int 7) | None \<Rightarrow> False)"
  by code_simp

lemma sample_finished: "after sample_log (\<lambda>s. lastOrdinal (fst s) = 17 \<and>
   (case map_of (attempts (fst s)) ''a'' of Some a \<Rightarrow> att_status a = AttCompleted \<and> lease_fence a = 2 \<and>
      att_taskId a = ''t'' | None \<Rightarrow> False) \<and>
   (case map_of (tasks (fst s)) ''t'' of Some t \<Rightarrow> task_objectiveId (ts_task t) = ''o'' \<and>
      task_status (ts_task t) = TaskCompleted | None \<Rightarrow> False) \<and>
   (case map_of (agents (fst s)) ''g'' of Some g \<Rightarrow> agent_status g = AgentRegistered \<and>
      agent_parentAgentId g = None | None \<Rightarrow> False) \<and>
   (case map_of (objectives (fst s)) ''o'' of Some x \<Rightarrow> obj_status (os_objective x) = ObjCompleted | None \<Rightarrow> False))"
  by code_simp

text \<open>The records of the two states, for the proofs that apply a property to them.\<close>

lemma case_present_iff: "(case x of Some a \<Rightarrow> P a | None \<Rightarrow> False) \<longleftrightarrow> (\<exists>a. x = Some a \<and> P a)"
  by (cases x) auto

lemma sample_runningE:
  obtains p c a where "projectOrchestrationEvents sample_env (take 10 sample_log) = Inr (p, c)"
    and "map_of (attempts p) ''a'' = Some a" and "att_status a = AttRunning" and "lease_fence a = 1"
    and "att_checkpointIds a = [''k'']" and "att_agentId a = Some ''g''"
    and "map_option (\<lambda>u. inputTokens (acct_total u)) (att_usageAccounting a) = Some (js_int 7)"
  by (rule afterE [OF sample_running], unfold case_present_iff fst_conv, elim exE conjE) (rule that)

lemma sample_finishedE:
  obtains p c a t g x where "projectOrchestrationEvents sample_env sample_log = Inr (p, c)" and "lastOrdinal p = 17"
    and "map_of (attempts p) ''a'' = Some a" and "att_status a = AttCompleted" and "lease_fence a = 2"
    and "att_taskId a = ''t''"
    and "map_of (tasks p) ''t'' = Some t" and "task_objectiveId (ts_task t) = ''o''"
    and "task_status (ts_task t) = TaskCompleted"
    and "map_of (agents p) ''g'' = Some g" and "agent_status g = AgentRegistered" and "agent_parentAgentId g = None"
    and "map_of (objectives p) ''o'' = Some x" and "obj_status (os_objective x) = ObjCompleted"
  by (rule afterE [OF sample_finished], unfold case_present_iff fst_conv, elim exE conjE) (rule that)

text \<open>A second ledger: an agent and its child are registered, then retired, the child first.\<close>

definition sample_child :: AgentBindingContract where
  "sample_child = sample_agent\<lparr>agent_agentId := ''h'', agent_parentAgentId := Some ''g'', agent_depth := 1\<rparr>"

definition family_log :: "OrchestrationEvent list" where
  "family_log =
     [sample_event 1 ''g'' (AgentPayload (AgentRegisteredEvent sample_agent)),
      sample_event 2 ''h'' (AgentPayload (AgentRegisteredEvent sample_child)),
      sample_event 3 ''h'' (AgentPayload (AgentRetiredEvent ''h'')),
      sample_event 4 ''g'' (AgentPayload (AgentRetiredEvent ''g''))]"

lemma family_retired: "after family_log (\<lambda>s.
   (case map_of (agents (fst s)) ''g'' of Some g \<Rightarrow> agent_status g = AgentRetired | None \<Rightarrow> False) \<and>
   (case map_of (agents (fst s)) ''h'' of Some h \<Rightarrow> agent_parentAgentId h = Some ''g'' | None \<Rightarrow> False))"
  by code_simp

lemma family_retiredE:
  obtains p c g h where "projectOrchestrationEvents sample_env family_log = Inr (p, c)"
    and "map_of (agents p) ''g'' = Some g" and "agent_status g = AgentRetired"
    and "map_of (agents p) ''h'' = Some h" and "agent_parentAgentId h = Some ''g''"
  by (rule afterE [OF family_retired], unfold case_present_iff fst_conv, elim exE conjE) (rule that)

end
