(* ===== verification/Ledger_Properties.thy ===== *)
theory Ledger_Properties
  imports History Sample_Log
begin

text \<open>
  Properties of the ledger as a whole: the states a log can reach, their byte accounting and limits,
  recovery from a snapshot, and the numbering of the accepted events.
\<close>

section \<open>Reached states\<close>

text \<open>
  A state is reached by reducing events from the empty projection; at any time the projection may be
  taken out of the process as a snapshot, which drops the cached size.
\<close>

inductive reached :: "json_env \<Rightarrow> ledger_state \<Rightarrow> bool" for J where
  reached_start: "reached J (emptyProjection, None)"
| reached_event: "reached J s \<Longrightarrow> reduceOrchestrationEvent J s e = Inr s' \<Longrightarrow> reached J s'"
| reached_snapshot: "reached J (p, c) \<Longrightarrow> reached J (p, None)"

lemma reached_replay: "reached J s \<Longrightarrow> foldE (reduceOrchestrationEvent J) s es = Inr s' \<Longrightarrow> reached J s'"
  by (rule foldE_invariant) (auto intro: reached_event)

lemma reached_project: "projectOrchestrationEvents J es = Inr s \<Longrightarrow> reached J s"
  unfolding projectOrchestrationEvents_def by (rule reached_replay [OF reached_start])

lemma empty_exact: "cache_exact J (emptyProjection, None)"
  by (simp add: cache_exact_def well_keyed_def emptyProjection_def)

lemma reached_exact: "reached J s \<Longrightarrow> cache_exact J s"
proof (induction rule: reached.induct)
  case (reached_event s e s')
  then show ?case using reduce_cache_exact by blast
next
  case (reached_snapshot p c)
  then show ?case by (simp add: cache_exact_def)
qed (rule empty_exact)

lemma reached_keyed: "reached J s \<Longrightarrow> well_keyed (fst s)"
  using reached_exact by (auto simp: cache_exact_def)

text \<open>Invariants of the reached states: true of the empty projection and kept by every reduction.\<close>

lemma reached_invariant:
  assumes "reached J s" and "P emptyProjection"
    and step: "\<And>p c e q c'. reached J (p, c) \<Longrightarrow> P p \<Longrightarrow> reduceOrchestrationEvent J (p, c) e = Inr (q, c') \<Longrightarrow> P q"
  shows "P (fst s)"
  using assms(1)
proof (induction rule: reached.induct)
  case (reached_event s e s')
  then show ?case using step [of "fst s" "snd s" e "fst s'" "snd s'"] by simp
qed (simp_all add: assms(2))

lemma sample_finished_step:
  obtains p c q c' where "projectOrchestrationEvents sample_env (take 16 sample_log) = Inr (p, c)"
    and "reduceOrchestrationEvent sample_env (p, c) (sample_log ! 16) = Inr (q, c')"
    and "projectOrchestrationEvents sample_env sample_log = Inr (q, c')" and "lastOrdinal q = 17"
proof -
  have "after (take 16 sample_log @ [sample_log ! 16]) (\<lambda>s. lastOrdinal (fst s) = 17)"
    unfolding sample_log_last [symmetric] using sample_finished by (auto simp: after_def split: sum.splits)
  then show thesis by (rule after_step) (use that in \<open>simp flip: sample_log_last\<close>)
qed

section \<open>Byte accounting and limits\<close>

text \<open>
  C13: whatever was replayed before, a reduction leaves as its cached size exactly what the serializer
  would measure on the new projection, so the incremental tracker never drifts, and that size is within
  the projection limit.
\<close>

theorem reduction_bytes_exact:
  assumes "reached J s" and "reduceOrchestrationEvent J s event = Inr (q, c)"
  shows "\<exists>b. c = Some b \<and> projectionSerializedBytes J q = Inr b \<and> b \<le> int MAX_ORCHESTRATION_PROJECTION_BYTES"
proof -
  from reduce_cache_exact [OF reached_exact [OF assms(1)] assms(2)]
  obtain b where b: "c = Some b" "projectionSerializedBytes J q = Inr b" by auto
  obtain p c0 where [simp]: "s = (p, c0)" by force
  from ledger.settles [OF assms(2)] b have "assertProjectionWithinLimits J (Some b) q = Inr ()"
    by (simp add: ledger_settled_def)
  then have "b \<le> int MAX_ORCHESTRATION_PROJECTION_BYTES"
    by (auto simp: assertProjectionWithinLimits_def cachedProjectionBytes_def split: if_splits)
  with b show ?thesis by blast
qed

theorem reduction_bytes_exact_witness:
  "\<exists>q b. projectOrchestrationEvents sample_env sample_log = Inr (q, Some b) \<and>
     projectionSerializedBytes sample_env q = Inr b \<and> b \<le> int MAX_ORCHESTRATION_PROJECTION_BYTES"
proof -
  obtain p c0 q c where run: "projectOrchestrationEvents sample_env (take 16 sample_log) = Inr (p, c0)"
    "reduceOrchestrationEvent sample_env (p, c0) (sample_log ! 16) = Inr (q, c)"
    "projectOrchestrationEvents sample_env sample_log = Inr (q, c)"
    by (rule sample_finished_step)
  from reduction_bytes_exact [OF reached_project [OF run(1)] run(2)] run(3) show ?thesis by blast
qed

lemma empty_within_limits: "within_limits emptyProjection"
  by (simp add: within_limits_def emptyProjection_def all_fields evidence_total_def)

text \<open>
  C20: every reached projection is within the limits of its eleven maps, its evidence and its links: the number of records of
  each kind, the evidence retained in total and per objective, and the lists of an objective's tasks, a task's attempts
  and an attempt's checkpoints, which stay duplicate free and made of bounded nonempty identifiers. The lists inside a
  checkpoint, the parent writes of an attempt, the subscriptions of one task and the unaccepted ranges of a source have
  limits of their own that are not part of this statement.
\<close>

theorem reached_within_limits:
  assumes "reached J s"
  shows "within_limits (fst s)"
  using assms
proof (rule reached_invariant [where P = within_limits, OF _ empty_within_limits])
  fix p c e q c'
  assume "within_limits p" and "reduceOrchestrationEvent J (p, c) e = Inr (q, c')"
  from this(2) show "within_limits q" by (cases rule: reduce_cases) (auto intro: limits_checked)
qed

theorem reached_within_limits_witness:
  "\<exists>s. projectOrchestrationEvents sample_env sample_log = Inr s \<and> within_limits (fst s) \<and> lastOrdinal (fst s) = 17"
proof -
  from sample_finished obtain p c where "projectOrchestrationEvents sample_env sample_log = Inr (p, c)"
    "lastOrdinal p = 17" by (auto elim: afterE)
  with reached_within_limits [OF reached_project [OF this(1)]] show ?thesis by auto
qed

text \<open>
  C25: in every reached projection each of the eleven maps has distinct keys and files every record under
  the identifier the record itself carries.
\<close>

theorem reached_records_keyed:
  assumes "reached J s"
  shows "well_keyed (fst s)"
  using assms by (rule reached_keyed)

theorem reached_records_keyed_witness:
  "\<exists>s. projectOrchestrationEvents sample_env sample_log = Inr s \<and> well_keyed (fst s) \<and> lastOrdinal (fst s) = 17"
proof -
  from sample_finished obtain p c where "projectOrchestrationEvents sample_env sample_log = Inr (p, c)"
    "lastOrdinal p = 17" by (auto elim: afterE)
  with reached_records_keyed [OF reached_project [OF this(1)]] show ?thesis by auto
qed

section \<open>Recovery\<close>

text \<open>Dropping an exact cached size changes no reduction, neither its result nor its error.\<close>

lemma reduce_uncached:
  assumes "cache_exact J (p, c)"
  shows "reduceOrchestrationEvent J (p, None) e = reduceOrchestrationEvent J (p, c) e"
proof (cases c)
  case (Some b)
  with assms have "projectionSerializedBytes J p = Inr b" by (simp add: cache_exact_def)
  then show ?thesis
    by (simp add: Some reduceOrchestrationEvent_def assertProjectionWithinLimits_def cachedProjectionBytes_def)
qed simp

lemma replay_uncached:
  "cache_exact J (p, c) \<Longrightarrow> es \<noteq> [] \<Longrightarrow>
   foldE (reduceOrchestrationEvent J) (p, None) es = foldE (reduceOrchestrationEvent J) (p, c) es"
  by (cases es) (simp_all add: reduce_uncached)

text \<open>
  C14: recovery: taking any prefix of a log out as a snapshot without its cache and replaying onto it the
  rest of the log, preceded by any events the snapshot already contains, gives the same outcome as
  replaying the whole log: the same projection and size, or the same error.
\<close>

theorem snapshot_recovery:
  assumes prefix: "projectOrchestrationEvents J es = Inr (p, c)"
    and overlap: "set old \<subseteq> set es" and rest: "fs \<noteq> []"
  shows "foldE (reduceOrchestrationEvent J) (p, None) (old @ fs) = projectOrchestrationEvents J (es @ fs)"
proof -
  have exact: "cache_exact J (p, c)" using prefix by (intro reached_exact reached_project)
  have "foldE (reduceOrchestrationEvent J) (p, c) old = Inr (p, c)"
  proof (cases "es = []")
    case False
    from ledger.replay_again [OF prefix [unfolded projectOrchestrationEvents_def] False overlap] show ?thesis .
  qed (use overlap in simp)
  then have "foldE (reduceOrchestrationEvent J) (p, c) (old @ fs) = projectOrchestrationEvents J (es @ fs)"
    using prefix by (simp add: foldE_append projectOrchestrationEvents_def)
  with replay_uncached [OF exact, of "old @ fs"] rest show ?thesis by simp
qed

theorem snapshot_recovery_witness:
  "\<exists>p c s. projectOrchestrationEvents sample_env (take 10 sample_log) = Inr (p, c) \<and>
     foldE (reduceOrchestrationEvent sample_env) (p, None) (take 3 sample_log @ drop 10 sample_log) = Inr s \<and>
     lastOrdinal (fst s) = 17"
proof -
  from sample_running obtain p c where pre: "projectOrchestrationEvents sample_env (take 10 sample_log) = Inr (p, c)"
    by (auto elim: afterE)
  from sample_finished obtain q d where all: "projectOrchestrationEvents sample_env sample_log = Inr (q, d)"
    "lastOrdinal q = 17" by (auto elim: afterE)
  have "foldE (reduceOrchestrationEvent sample_env) (p, None) (take 3 sample_log @ drop 10 sample_log) = Inr (q, d)"
    using snapshot_recovery [OF pre, of "take 3 sample_log" "drop 10 sample_log"] all(1)
    by (simp add: set_take_subset_set_take sample_log_length)
  with pre all(2) show ?thesis by auto
qed

section \<open>Numbering\<close>

text \<open>
  An accepted log is gapless: every ordinal from one up to the projection's last ordinal was carried
  by some event of the log, and no event of it lies beyond.
\<close>

theorem accepted_log_contiguous:
  assumes "projectOrchestrationEvents J es = Inr (p, c)"
  shows "{1..lastOrdinal p} \<subseteq> eh_ordinal ` set es \<and> eh_ordinal ` set es \<subseteq> {0..lastOrdinal p}"
proof -
  note run = assms [unfolded projectOrchestrationEvents_def]
  have zero: "lastOrdinal emptyProjection = 0" by (simp add: emptyProjection_def)
  have "\<exists>x \<in> set es. eh_ordinal x = n" if "1 \<le> n" "n \<le> lastOrdinal p" for n
  proof -
    from ledger.replay_reaches [OF run] zero that
    obtain e where e: "e \<in> set es" "eh_ordinal e = lastOrdinal p" by auto
    then show ?thesis using ledger.replay_contiguous [OF run e(1), of n] zero that by simp
  qed
  with ledger.replay_position [OF run] show ?thesis by force
qed

theorem accepted_log_contiguous_witness:
  "\<exists>p c. projectOrchestrationEvents sample_env sample_log = Inr (p, c) \<and> lastOrdinal p = 17 \<and>
     {1..lastOrdinal p} \<subseteq> eh_ordinal ` set sample_log \<and> eh_ordinal ` set sample_log \<subseteq> {0..lastOrdinal p}"
proof -
  from sample_finished obtain p c where "projectOrchestrationEvents sample_env sample_log = Inr (p, c)"
    "lastOrdinal p = 17" by (auto elim: afterE)
  with accepted_log_contiguous [OF this(1)] show ?thesis by blast
qed

text \<open>
  An event that would leave a gap is refused with the ordinal gap error, whatever its payload, on
  every state a reduction has returned.
\<close>

theorem ordinal_gap_refused:
  assumes "reduceOrchestrationEvent J s0 e0 = Inr (p, c)" and "lastOrdinal p + 1 < eh_ordinal e"
  shows "reduceOrchestrationEvent J (p, c) e = Inl (OrdinalGap (eh_ordinal e) (lastOrdinal p))"
proof -
  from ledger.settles [OF assms(1)] obtain b where "c = Some b" "assertProjectionWithinLimits J c p = Inr ()"
    by (auto simp: ledger_settled_def)
  with assms(2) show ?thesis by (simp add: reduceOrchestrationEvent_def cachedProjectionBytes_def)
qed

theorem ordinal_gap_refused_witness:
  "\<exists>p c. projectOrchestrationEvents sample_env sample_log = Inr (p, c) \<and>
     reduceOrchestrationEvent sample_env (p, c) (sample_event 19 ''o'' OtherPayload) = Inl (OrdinalGap 19 17)"
proof -
  obtain p c0 q c where run: "projectOrchestrationEvents sample_env (take 16 sample_log) = Inr (p, c0)"
    "reduceOrchestrationEvent sample_env (p, c0) (sample_log ! 16) = Inr (q, c)"
    "projectOrchestrationEvents sample_env sample_log = Inr (q, c)" "lastOrdinal q = 17"
    by (rule sample_finished_step) auto
  have "eh_ordinal (sample_event 19 ''o'' OtherPayload) = 19"
    by (simp add: sample_event_def EventHeader.defs OrchestrationEvent.defs)
  with ordinal_gap_refused [OF run(2), of "sample_event 19 ''o'' OtherPayload"] run(3,4) show ?thesis by auto
qed

end
