(* ===== verification/Attempt_Properties.thy ===== *)
theory Attempt_Properties
  imports Ledger_Properties
begin

text \<open>
  The life of an attempt as every later event leaves it: what never changes, how leases fence off
  earlier executors, and how usage accumulates.
\<close>

section \<open>Many moves\<close>

lemma lease_moves_fence:
  assumes "lease_moves a b"
  shows "lease_fence a \<le> lease_fence b"
    and "lease_fence b = lease_fence a \<Longrightarrow>
      map_option (lease_expiresAt_update (\<lambda>_. At 0)) (att_lease b) = map_option (lease_expiresAt_update (\<lambda>_. At 0)) (att_lease a)"
    and "terminalAttemptStatus (att_status a) \<Longrightarrow> attempt_status_moves (att_status a) (att_status b) \<Longrightarrow> att_lease b = att_lease a"
  using assms by (auto simp: lease_moves_def lease_fence_def attempt_status_moves_terminal split: option.split)

text \<open>What one move, and therefore any number of them, keeps of an attempt.\<close>

definition attempt_keeps :: "AttemptRuntimeState \<Rightarrow> AttemptRuntimeState \<Rightarrow> bool" where
  "attempt_keeps a b \<longleftrightarrow>
     attempt_identity b = attempt_identity a \<and>
     (att_status b = AttQueued \<longrightarrow> att_status a = AttQueued) \<and>
     (terminalAttemptStatus (att_status a) \<longrightarrow>
        att_status b = att_status a \<and> att_result b = att_result a \<and> att_lease b = att_lease a \<and>
        att_checkpointIds b = att_checkpointIds a) \<and>
     (\<exists>new. att_checkpointIds b = att_checkpointIds a @ new) \<and>
     (truthy (att_grantId a) \<longrightarrow> att_grantId b = att_grantId a) \<and>
     (att_status a \<noteq> AttQueued \<longrightarrow> att_agentId b = att_agentId a) \<and>
     once (att_executionStartedAt a) (att_executionStartedAt b) \<and>
     once (att_admittedTurnOrigin a) (att_admittedTurnOrigin b) \<and>
     once (att_receiptAcknowledgement a) (att_receiptAcknowledgement b)"

lemma attempt_keeps_refl: "attempt_keeps a a"
  by (simp add: attempt_keeps_def)

lemma once_trans: "once a b \<Longrightarrow> once b c \<Longrightarrow> once a c"
  by (auto simp: once_def)

lemma attempt_keepsD:
  assumes "attempt_keeps a b"
  shows "attempt_identity b = attempt_identity a"
    "att_status b = AttQueued \<Longrightarrow> att_status a = AttQueued"
    "terminalAttemptStatus (att_status a) \<Longrightarrow> att_status b = att_status a \<and> att_result b = att_result a \<and>
       att_lease b = att_lease a \<and> att_checkpointIds b = att_checkpointIds a"
    "\<exists>new. att_checkpointIds b = att_checkpointIds a @ new"
    "truthy (att_grantId a) \<Longrightarrow> att_grantId b = att_grantId a"
    "att_status a \<noteq> AttQueued \<Longrightarrow> att_agentId b = att_agentId a"
    "once (att_executionStartedAt a) (att_executionStartedAt b)"
    "once (att_admittedTurnOrigin a) (att_admittedTurnOrigin b)"
    "once (att_receiptAcknowledgement a) (att_receiptAcknowledgement b)"
  using assms unfolding attempt_keeps_def by blast+

lemma attempt_keeps_trans:
  assumes ab: "attempt_keeps a b" and bc: "attempt_keeps b c"
  shows "attempt_keeps a c"
proof -
  note ab = attempt_keepsD [OF ab] and bc = attempt_keepsD [OF bc]
  have "\<exists>new. att_checkpointIds c = att_checkpointIds a @ new" using ab(4) bc(4) by fastforce
  moreover have "att_status c = att_status a \<and> att_result c = att_result a \<and> att_lease c = att_lease a \<and>
      att_checkpointIds c = att_checkpointIds a" if "terminalAttemptStatus (att_status a)"
    using ab(3) [OF that] bc(3) that by simp
  moreover have "att_grantId c = att_grantId a" if "truthy (att_grantId a)" using ab(5) [OF that] bc(5) that by simp
  moreover have "att_agentId c = att_agentId a" if "att_status a \<noteq> AttQueued" using ab(2,6) bc(6) that by metis
  ultimately show ?thesis
    unfolding attempt_keeps_def using ab(1,2) bc(1,2) once_trans [OF ab(7) bc(7)] once_trans [OF ab(8) bc(8)]
      once_trans [OF ab(9) bc(9)] by presburger
qed

lemma queued_only_from_queued: "attempt_status_moves s AttQueued \<Longrightarrow> s = AttQueued"
  by (cases s) simp_all

lemma attempt_moves_keeps: "attempt_moves a b \<Longrightarrow> attempt_keeps a b"
  unfolding attempt_moves_def attempt_keeps_def
  using lease_moves_fence(3) [of a b] attempt_status_moves_terminal [of "att_status a" "att_status b"]
  by (auto dest: queued_only_from_queued)

lemma attempt_star_keeps: "attempt_moves\<^sup>*\<^sup>* a b \<Longrightarrow> attempt_keeps a b"
  by (induction rule: rtranclp.induct) (auto intro: attempt_keeps_refl attempt_keeps_trans attempt_moves_keeps)

lemma attempt_star_fence:
  assumes "attempt_moves\<^sup>*\<^sup>* a b"
  shows "lease_fence a \<le> lease_fence b \<and>
    (lease_fence b = lease_fence a \<longrightarrow>
      map_option (lease_expiresAt_update (\<lambda>_. At 0)) (att_lease b) = map_option (lease_expiresAt_update (\<lambda>_. At 0)) (att_lease a))"
  using assms
proof (induction rule: rtranclp.induct)
  case (rtrancl_into_rtrancl a b c)
  then have "lease_moves b c" by (simp add: attempt_moves_def)
  note lease_moves_fence(1,2) [OF this]
  with rtrancl_into_rtrancl.IH show ?case by auto
qed simp

text \<open>An attempt of a reached state, followed through later events.\<close>

lemma attempt_later:
  assumes "reached J s" and "foldE (reduceOrchestrationEvent J) s es = Inr s'"
    and "map_of (attempts (fst s)) k = Some a"
  obtains b where "map_of (attempts (fst s')) k = Some b" and "attempt_moves\<^sup>*\<^sup>* a b"
  using attempts_kept.replay_keeps [OF assms(2) reached_keyed [OF assms(1)] assms(3)] by blast

section \<open>History\<close>

text \<open>
  C17: an attempt once queued is never lost, and whatever events follow, its identity (id, task, dispatch,
  creation time) is fixed; a terminal attempt keeps its status, result, lease and checkpoints for ever; its
  list of checkpoints only grows at the end; a grant, a first execution time, an admitted origin and a
  receipt acknowledgement are never replaced; and its agent is fixed once it has left the queue.
\<close>

theorem attempt_history:
  assumes "reached J s" and "foldE (reduceOrchestrationEvent J) s es = Inr s'"
    and "map_of (attempts (fst s)) k = Some a"
  shows "\<exists>b. map_of (attempts (fst s')) k = Some b \<and> attempt_keeps a b"
  using assms by (auto elim: attempt_later dest: attempt_star_keeps)

theorem attempt_history_witness:
  "\<exists>s s' a b. projectOrchestrationEvents sample_env (take 10 sample_log) = Inr s \<and>
     foldE (reduceOrchestrationEvent sample_env) s (drop 10 sample_log) = Inr s' \<and>
     map_of (attempts (fst s)) ''a'' = Some a \<and> map_of (attempts (fst s')) ''a'' = Some b \<and>
     att_status a = AttRunning \<and> att_status b = AttCompleted \<and> attempt_keeps a b"
proof -
  obtain p c q c' a where run: "projectOrchestrationEvents sample_env (take 10 sample_log) = Inr (p, c)"
    "foldE (reduceOrchestrationEvent sample_env) (p, c) (drop 10 sample_log) = Inr (q, c')"
    and a: "map_of (attempts p) ''a'' = Some a" "att_status a = AttRunning"
    and b: "\<forall>b. map_of (attempts q) ''a'' = Some b \<longrightarrow> att_status b = AttCompleted"
    by (rule after_later [OF sample_running sample_finished]) (auto split: option.split_asm)
  from attempt_history [OF reached_project [OF run(1)] run(2)] a(1)
  obtain b where "map_of (attempts q) ''a'' = Some b" "attempt_keeps a b" by auto
  with run a b show ?thesis by fastforce
qed

section \<open>Fencing\<close>

text \<open>
  The attempt and fencing token an event presents as the holder of the lease. A report of usage (\<open>UsageRecorded\<close>) names a
  lease too, but as the generation it reports for: the reducer accepts it after the lease has moved on, so that late
  charges are not lost, and it presents nothing here.
\<close>

fun presented_fence :: "OrchestrationPayload \<Rightarrow> (string \<times> nat) option" where
  "presented_fence (AttemptPayload (AttemptStarted a l f)) = Some (a, f)"
| "presented_fence (AttemptPayload (LeaseRenewed a l f t)) = Some (a, f)"
| "presented_fence (AttemptPayload (ModelMoved a l f m)) = Some (a, f)"
| "presented_fence (AttemptPayload (ThirdPartyAdmitted a l f origin)) = Some (a, f)"
| "presented_fence (AttemptPayload (AttemptCheckpointed c l)) = Some (ck_attemptId c, ck_fencingToken c)"
| "presented_fence (AttemptPayload (UsageRegistered a i b)) = Some (a, gid_fencingToken i)"
| "presented_fence (AttemptPayload (AttemptSuspendedEvent a l f r t)) = Some (a, f)"
| "presented_fence (AttemptPayload (AttemptFinished r)) = Some (res_attemptId r, res_fencingToken r)"
| "presented_fence (AttemptPayload (LeaseExpired a l f r)) = Some (a, f)"
| "presented_fence _ = None"

lemma lease_matches_fence: "lease_matches a l f \<Longrightarrow> lease_fence a = f"
  by (auto simp: lease_matches_def lease_fence_def split: option.split_asm)

lemma start_lease_at:
  "assertAttemptStartTransition d g k l f now = Inr a \<Longrightarrow> map_of (attempts d) k = Some a \<and> lease_matches a l f"
  by (auto simp: assertAttemptStartTransition_def lookup_attempt_def dest!: lease_matches_at)

lemma renewal_lease_at:
  "assertAttemptLeaseRenewalTransition d g k l f t now = Inr a \<Longrightarrow> map_of (attempts d) k = Some a \<and> lease_matches a l f"
  by (auto simp: assertAttemptLeaseRenewalTransition_def lookup_attempt_def dest!: lease_matches_at)

lemma checkpoint_lease_at:
  "assertAttemptCheckpointTransition d g c l now = Inr a \<Longrightarrow>
   map_of (attempts d) (ck_attemptId c) = Some a \<and> lease_matches a l (ck_fencingToken c)"
  by (auto simp: assertAttemptCheckpointTransition_def dest!: running_lease_at)

lemma finish_lease_at:
  "assertAttemptFinishTransition d g r now = Inr (a, t) \<Longrightarrow>
   map_of (attempts d) (res_attemptId r) = Some a \<and> lease_matches a (res_leaseId r) (res_fencingToken r)"
  by (simp add: finish_transition_at)

lemma presented_fence_checked:
  assumes "applyOrchestrationPayload J event payload d = Inr d'" and "presented_fence payload = Some (k, f)"
  shows "\<exists>a. map_of (attempts d) k = Some a \<and> lease_fence a = f"
  using assms
  by (cases payload rule: presented_fence.cases;
      simp add: apply_attempt_started_def apply_lease_renewed_def apply_model_moved_def apply_third_party_admitted_def
        apply_attempt_checkpointed_def apply_usage_registered_def apply_attempt_finished_def apply_lease_expired_def
        Let_def lookup_attempt_def)
    (auto dest!: start_lease_at renewal_lease_at fenced_attempt_at checkpoint_lease_at running_lease_at suspended_at
      finish_lease_at dest: lease_matches_fence)

text \<open>
  C11: fencing: once an attempt's lease carries a higher token than some executor holds, every lease-guarded event that
  executor publishes under its token (start, renewal, model change, admission of third-party words, checkpoint, usage
  registration, suspension, result, expiry) is refused as the next event of the ledger, for ever. A late report of the
  usage of an earlier lease's generation is not guarded by the lease and is accepted by design.
\<close>

theorem stale_executor_refused:
  assumes "reached J s" and "map_of (attempts (fst s)) k = Some a" and stale: "f < lease_fence a"
    and run: "foldE (reduceOrchestrationEvent J) s es = Inr s'"
    and presents: "presented_fence (ev_payload e) = Some (k, f)"
    and new: "eh_ordinal e = lastOrdinal (fst s') + 1"
  shows "\<exists>refusal. reduceOrchestrationEvent J s' e = Inl refusal"
proof (cases "reduceOrchestrationEvent J s' e")
  case (Inr s'')
  obtain p c where s': "s' = (p, c)" by force
  obtain q d where s'': "s'' = (q, d)" by force
  obtain b where b: "map_of (attempts p) k = Some b" "attempt_moves\<^sup>*\<^sup>* a b"
    using assms(1) run assms(2) by (rule attempt_later) (simp add: s')
  from Inr [unfolded s' s''] have "\<exists>x. map_of (attempts p) k = Some x \<and> lease_fence x = f"
  proof (cases rule: reduce_cases)
    case (new bytes d b)
    from presented_fence_checked [OF new(4) presents] show ?thesis by simp
  qed (use new s' in simp)
  with b attempt_star_fence [OF b(2)] stale show ?thesis by auto
qed simp

theorem stale_executor_refused_witness:
  "\<exists>s refusal. projectOrchestrationEvents sample_env sample_log = Inr s \<and>
     reduceOrchestrationEvent sample_env s
       (sample_event 18 ''a'' (AttemptPayload (AttemptCheckpointed sample_checkpoint ''l1''))) = Inl refusal"
proof -
  from sample_finished obtain p c a where run: "projectOrchestrationEvents sample_env sample_log = Inr (p, c)"
    and a: "map_of (attempts p) ''a'' = Some a" "lease_fence a = 2" and n: "lastOrdinal p = 17"
    by (auto elim!: afterE split: option.split_asm)
  let ?e = "sample_event 18 ''a'' (AttemptPayload (AttemptCheckpointed sample_checkpoint ''l1''))"
  have e: "presented_fence (ev_payload ?e) = Some (''a'', 1)" "eh_ordinal ?e = 18"
    by (simp_all add: sample_event_def sample_checkpoint_def EventHeader.defs OrchestrationEvent.defs)
  from stale_executor_refused [OF reached_project [OF run], of "''a''" a 1 "[]" "(p, c)" ?e] run a n e
  show ?thesis by auto
qed

text \<open>
  C10: a fencing token has one holder: if later the lease of an attempt still carries the same token, it is
  the same lease, renewals of its expiry apart.
\<close>

theorem fence_has_one_holder:
  assumes "reached J s" and "foldE (reduceOrchestrationEvent J) s es = Inr s'"
    and "map_of (attempts (fst s)) k = Some a" and "map_of (attempts (fst s')) k = Some b"
  shows "lease_fence a \<le> lease_fence b \<and>
    (lease_fence b = lease_fence a \<longrightarrow>
       map_option (lease_expiresAt_update (\<lambda>_. At 0)) (att_lease b) =
       map_option (lease_expiresAt_update (\<lambda>_. At 0)) (att_lease a))"
  using attempt_later [OF assms(1-3)] attempt_star_fence assms(4) by (metis option.inject)

theorem fence_has_one_holder_witness:
  "\<exists>s s' a b. projectOrchestrationEvents sample_env (take 10 sample_log) = Inr s \<and>
     foldE (reduceOrchestrationEvent sample_env) s (drop 10 sample_log) = Inr s' \<and>
     map_of (attempts (fst s)) ''a'' = Some a \<and> map_of (attempts (fst s')) ''a'' = Some b \<and>
     lease_fence a = 1 \<and> lease_fence b = 2 \<and> lease_fence a \<le> lease_fence b"
proof -
  obtain p c q c' a b where run: "projectOrchestrationEvents sample_env (take 10 sample_log) = Inr (p, c)"
    "foldE (reduceOrchestrationEvent sample_env) (p, c) (drop 10 sample_log) = Inr (q, c')"
    and a: "map_of (attempts p) ''a'' = Some a" "lease_fence a = 1"
    and b: "map_of (attempts q) ''a'' = Some b" "lease_fence b = 2"
    by (rule after_later [OF sample_running sample_finished]) (auto split: option.split_asm)
  from fence_has_one_holder [OF reached_project [OF run(1)] run(2), of "''a''" a b] run a b show ?thesis by auto
qed

section \<open>Usage\<close>

text \<open>
  The accounting of an attempt is canonical, and no generation is ahead of the attempt's lease, so a new
  lease always opens a later generation.
\<close>

definition usage_sound :: "AttemptRuntimeState \<Rightarrow> bool" where
  "usage_sound a \<longleftrightarrow> (\<forall>acc. att_usageAccounting a = Some acc \<longrightarrow> accounting_ok acc \<and>
     (\<forall>g \<in> set (js_values (acct_generations acc)). gen_fencingToken g \<le> lease_fence a))"

definition usage_total :: "AttemptRuntimeState \<Rightarrow> UsageField \<Rightarrow> rat" where
  "usage_total a f = (case att_usageAccounting a of Some acc \<Rightarrow> usage_amount (acct_total acc) f | None \<Rightarrow> 0)"

lemma record_usage_step:
  assumes ok: "accounting_ok a" and r: "recordAttemptGenerationUsage a i u = Inr b"
  shows "accounting_ok b" "usage_amount (acct_total a) f \<le> usage_amount (acct_total b) f"
    "gen_fencingToken ` set (js_values (acct_generations b)) \<subseteq> gen_fencingToken ` set (js_values (acct_generations a))"
proof -
  show "accounting_ok b" by (rule record_accounting_ok [OF ok r])
  from r obtain g d where g: "map_of (acct_generations a) (gid_leaseId i) = Some g"
    and d: "attemptUsageIncrease u (gen_reported g) = Inr d"
    and b: "acct_generations b = js_set (gid_leaseId i) (g\<lparr>gen_reported := u\<rparr>) (acct_generations a)"
    and t: "totalAttemptGenerationUsage (acct_generations b) = Inr (acct_total b)"
    by (auto simp: recordAttemptGenerationUsage_iff [OF ok])
  from total_set_reported [OF ok g t [unfolded b], of f] attemptUsageIncrease_amount(5) [OF d, of f]
  show "usage_amount (acct_total a) f \<le> usage_amount (acct_total b) f" by simp
  from g have "g \<in> set (js_values (acct_generations a))" by (force dest: map_of_SomeD)
  with js_values_set_subset [of "gid_leaseId i" "g\<lparr>gen_reported := u\<rparr>" "acct_generations a"]
  show "gen_fencingToken ` set (js_values (acct_generations b)) \<subseteq> gen_fencingToken ` set (js_values (acct_generations a))"
    unfolding b by force
qed

lemma attempt_moves_usage:
  assumes "attempt_moves a b" and sound: "usage_sound a"
  shows "usage_sound b" "usage_total a f \<le> usage_total b f"
proof -
  from assms(1) have u: "usage_moves a (att_usageAccounting b)" and fence: "lease_fence a \<le> lease_fence b"
    by (auto simp: attempt_moves_def intro: lease_moves_fence)
  from u consider (same) "att_usageAccounting b = att_usageAccounting a"
    | (begun) i base acc where "lease_fence a = gid_fencingToken i"
        "beginAttemptUsageGeneration (att_usageAccounting a) i base = Inr acc" "att_usageAccounting b = Some acc"
    | (recorded) cur i u acc where "att_usageAccounting a = Some cur"
        "recordAttemptGenerationUsage cur i u = Inr acc" "att_usageAccounting b = Some acc"
    unfolding usage_moves_def using lease_matches_fence by blast
  then have "usage_sound b \<and> usage_total a f \<le> usage_total b f"
  proof cases
    case same
    with sound fence show ?thesis by (auto simp: usage_sound_def usage_total_def intro: order_trans)
  next
    case begun
    have prior: "accounting_ok x \<and> (\<forall>g \<in> set (js_values (acct_generations x)). gen_fencingToken g \<le> gid_fencingToken i)"
      if "att_usageAccounting a = Some x" for x using sound that begun(1) by (simp add: usage_sound_def)
    note new = begin_accounting_ok [OF begun(2) prior]
    have "usage_total a f \<le> usage_total b f"
    proof (cases "att_usageAccounting a")
      case None
      have "usage_valid (acct_total acc)"
        using new(1) by (auto simp: accounting_ok_def intro: total_amount(2))
      then have "0 \<le> usage_amount (acct_total acc) f" by (rule usage_amount_nonneg)
      then show ?thesis using None begun(3) by (simp add: usage_total_def)
    qed (use new(2) begun(3) in \<open>simp add: usage_total_def\<close>)
    with new(1,3) begun(1,3) fence show ?thesis by (auto simp: usage_sound_def intro: order_trans)
  next
    case recorded
    with sound have "accounting_ok cur"
      and below: "\<forall>g \<in> set (js_values (acct_generations cur)). gen_fencingToken g \<le> lease_fence a"
      by (auto simp: usage_sound_def)
    note new = record_usage_step [OF this(1) recorded(2)]
    have "gen_fencingToken g \<le> lease_fence b" if "g \<in> set (js_values (acct_generations acc))" for g
    proof -
      from new(3) that obtain h where "h \<in> set (js_values (acct_generations cur))" "gen_fencingToken h = gen_fencingToken g"
        by fastforce
      with below fence show ?thesis by fastforce
    qed
    with new(1,2) recorded show ?thesis by (simp add: usage_sound_def usage_total_def)
  qed
  then show "usage_sound b" "usage_total a f \<le> usage_total b f" by auto
qed

lemma born_usage_sound: "attempt_born k a \<Longrightarrow> usage_sound a"
  by (auto simp: attempt_born_def queued_attempt_state_def usage_sound_def)

lemma reached_usage_sound:
  assumes "reached J s"
  shows "\<forall>k a. map_of (attempts (fst s)) k = Some a \<longrightarrow> usage_sound a"
  using assms
proof (rule reached_invariant [where P = "\<lambda>p. \<forall>k a. map_of (attempts p) k = Some a \<longrightarrow> usage_sound a"])
  fix p c e q c'
  assume "reached J (p, c)" and "\<forall>k a. map_of (attempts p) k = Some a \<longrightarrow> usage_sound a"
    and "reduceOrchestrationEvent J (p, c) e = Inr (q, c')"
  then show "\<forall>k a. map_of (attempts q) k = Some a \<longrightarrow> usage_sound a"
    using attempts_born.reduce_all [of J p c e q c' "\<lambda>k. usage_sound"] reached_keyed [of J "(p, c)"]
      born_usage_sound attempt_moves_usage(1) by auto
qed (simp add: emptyProjection_def)

lemma attempt_star_usage: "attempt_moves\<^sup>*\<^sup>* a b \<Longrightarrow> usage_sound a \<Longrightarrow> usage_sound b \<and> usage_total a f \<le> usage_total b f"
  by (induction rule: rtranclp.induct) (auto dest: attempt_moves_usage intro: order_trans)

text \<open>
  C12: in every reached state the usage an attempt was charged is the canonical total of its execution
  generations (the first generation's baseline and the increases of all), no generation is ahead of the
  attempt's lease, and no later event, late report or new generation ever lowers a counter of the total.
\<close>

theorem usage_canonical_and_monotone:
  assumes "reached J s" and "foldE (reduceOrchestrationEvent J) s es = Inr s'"
    and "map_of (attempts (fst s)) k = Some a"
  shows "usage_sound a \<and> (\<exists>b. map_of (attempts (fst s')) k = Some b \<and> usage_sound b \<and>
     (\<forall>f. usage_total a f \<le> usage_total b f))"
proof -
  have "usage_sound a" using reached_usage_sound [OF assms(1)] assms(3) by blast
  with attempt_later [OF assms] attempt_star_usage show ?thesis by metis
qed

theorem usage_canonical_and_monotone_witness:
  "\<exists>s s' a b. projectOrchestrationEvents sample_env (take 10 sample_log) = Inr s \<and>
     foldE (reduceOrchestrationEvent sample_env) s (drop 10 sample_log) = Inr s' \<and>
     map_of (attempts (fst s)) ''a'' = Some a \<and> map_of (attempts (fst s')) ''a'' = Some b \<and>
     usage_total a UfInputTokens = 7 \<and> 7 \<le> usage_total b UfInputTokens"
proof -
  obtain p c q c' a acc where run: "projectOrchestrationEvents sample_env (take 10 sample_log) = Inr (p, c)"
    "foldE (reduceOrchestrationEvent sample_env) (p, c) (drop 10 sample_log) = Inr (q, c')"
    and a: "map_of (attempts p) ''a'' = Some a" "att_usageAccounting a = Some acc"
      "inputTokens (acct_total acc) = js_int 7"
    by (rule after_later [OF sample_running sample_finished]) (auto split: option.split_asm)
  then have seven: "usage_total a UfInputTokens = 7" by (simp add: usage_total_def usage_amount_def js_int_def)
  from usage_canonical_and_monotone [OF reached_project [OF run(1)] run(2), of "''a''" a] a(1)
  obtain b where "map_of (attempts q) ''a'' = Some b" "usage_total a UfInputTokens \<le> usage_total b UfInputTokens" by auto
  with run a(1) seven show ?thesis by fastforce
qed

section \<open>Concrete receipts and reports\<close>

text \<open>Instances on which the properties of acknowledgements and of late reports are exercised.\<close>

definition published_attempt :: AttemptRuntimeState where
  "published_attempt = (queued_attempt_state (sample_queued ''a'') (At 0))
     \<lparr>att_status := AttCompleted, att_result := Some sample_result,
      att_dispatch := sample_dispatch\<lparr>dispatch_receiptOrigin :=
        Some \<lparr>ro_sessionId = ''s'', ro_sessionFile = None, ro_leafId = ''f''\<rparr>\<rparr>\<rparr>"

definition sample_acknowledgement :: WorkerReceiptAcknowledgement where
  "sample_acknowledgement = \<lparr>ack_receiptId = '''', ack_resultId = ''r'', ack_factsDigest = ''d'',
    ack_parentEntryId = ''x'', ack_parentReviewEntryId = None, ack_verifierAttemptId = None\<rparr>"

lemma sample_acknowledged:
  "assertWorkerReceiptAcknowledgement (je_hash sample_env) emptyProjection published_attempt sample_acknowledgement = Inr ()"
  by code_simp

theorem acknowledged_work_is_accepted_witness:
  "assertWorkerReceiptAcknowledgement (je_hash sample_env) emptyProjection published_attempt sample_acknowledgement = Inr () \<and>
   (\<exists>result. att_result published_attempt = Some result \<and> res_resultId result = ''r'')"
  using acknowledged_work_is_accepted [OF sample_acknowledged] sample_acknowledged
  by (auto simp: sample_acknowledgement_def)

definition two_generations :: AttemptUsageAccounting where
  "two_generations = \<lparr>acct_total = EMPTY_ATTEMPT_USAGE, acct_generations =
     [(''l1'', \<lparr>gen_fencingToken = 1, gen_baseline = EMPTY_ATTEMPT_USAGE, gen_reported = EMPTY_ATTEMPT_USAGE\<rparr>),
      (''l2'', \<lparr>gen_fencingToken = 2, gen_baseline = EMPTY_ATTEMPT_USAGE, gen_reported = EMPTY_ATTEMPT_USAGE\<rparr>)]\<rparr>"

lemma two_generations_ok: "accounting_ok two_generations"
  by code_simp

lemma two_reports:
  "case recordAttemptGenerationUsage two_generations (sample_generation ''l1'' 1) (sample_usage 7) of Inl _ \<Rightarrow> False | Inr b \<Rightarrow>
     (case recordAttemptGenerationUsage b (sample_generation ''l2'' 2) (sample_usage 5) of Inl _ \<Rightarrow> False
      | Inr c \<Rightarrow> inputTokens (acct_total c) = js_int 12)"
  by code_simp

theorem record_usage_commutes_witness:
  "\<exists>b c b'. recordAttemptGenerationUsage two_generations (sample_generation ''l1'' 1) (sample_usage 7) = Inr b \<and>
     recordAttemptGenerationUsage b (sample_generation ''l2'' 2) (sample_usage 5) = Inr c \<and>
     inputTokens (acct_total c) = js_int 12 \<and>
     recordAttemptGenerationUsage two_generations (sample_generation ''l2'' 2) (sample_usage 5) = Inr b' \<and>
     recordAttemptGenerationUsage b' (sample_generation ''l1'' 1) (sample_usage 7) = Inr c"
proof -
  from two_reports obtain b c where run:
    "recordAttemptGenerationUsage two_generations (sample_generation ''l1'' 1) (sample_usage 7) = Inr b"
    "recordAttemptGenerationUsage b (sample_generation ''l2'' 2) (sample_usage 5) = Inr c"
    "inputTokens (acct_total c) = js_int 12"
    by (auto split: sum.split_asm simp del: bindE_eq_Inr)
  have "gid_leaseId (sample_generation ''l1'' 1) \<noteq> gid_leaseId (sample_generation ''l2'' 2)"
    by (simp add: sample_generation_def)
  from record_usage_commutes [OF two_generations_ok this run(1,2)] run show ?thesis by blast
qed

end
