(* ===== verification/Work_Structure.thy ===== *)
theory Work_Structure
  imports Ledger_Properties
begin

text \<open>
  What the ledger promises about the shape of the work: an abstract machine over objectives, tasks,
  attempts and agents that keeps only how they are linked, which objectives are closed, which attempts
  are open and which agents are retired. Every accepted event of the reducer is a run of that machine, so
  its invariants hold of every reached projection.
\<close>

section \<open>The abstract machine\<close>

record work_objective =
  wo_tasks :: "string list"
  wo_closed :: bool

record work_task =
  wt_objective :: string
  wt_depends :: "string list"
  wt_attempts :: "string list"

record work_attempt =
  at_task :: string
  at_open :: bool

record work_agent =
  ag_parent :: "string option"
  ag_root :: string
  ag_depth :: nat
  ag_retired :: bool

record work =
  wk_objectives :: "string \<rightharpoonup> work_objective"
  wk_tasks :: "string \<rightharpoonup> work_task"
  wk_attempts :: "string \<rightharpoonup> work_attempt"
  wk_agents :: "string \<rightharpoonup> work_agent"

text \<open>Attempts may close, never reopen, and keep their task; none appears or disappears.\<close>

definition settles :: "(string \<rightharpoonup> work_attempt) \<Rightarrow> (string \<rightharpoonup> work_attempt) \<Rightarrow> bool" where
  "settles m n \<longleftrightarrow> (\<forall>k. rel_option (\<lambda>a b. at_task b = at_task a \<and> (at_open b \<longrightarrow> at_open a)) (m k) (n k))"

definition attempts_closed :: "(string \<rightharpoonup> work_attempt) \<Rightarrow> string list \<Rightarrow> bool" where
  "attempts_closed m ids \<longleftrightarrow> (\<forall>i \<in> set ids. \<forall>a. m i = Some a \<longrightarrow> \<not> at_open a)"

definition rightful_lineage :: "work \<Rightarrow> string \<Rightarrow> work_agent \<Rightarrow> bool" where
  "rightful_lineage w k g \<longleftrightarrow>
     (if truthy (ag_parent g)
      then \<exists>h. wk_agents w (the (ag_parent g)) = Some h \<and> \<not> ag_retired h \<and> ag_root g = ag_root h \<and>
             ag_depth g = ag_depth h + 1
      else ag_root g = k \<and> ag_depth g = 0)"

inductive work_step :: "work \<Rightarrow> work \<Rightarrow> bool" where
  work_settle: "settles (wk_attempts w) m \<Longrightarrow> work_step w (w\<lparr>wk_attempts := m\<rparr>)"
| work_objective: "wk_objectives w k = None \<Longrightarrow>
    work_step w (w\<lparr>wk_objectives := (wk_objectives w)(k \<mapsto> \<lparr>wo_tasks = [], wo_closed = False\<rparr>)\<rparr>)"
| work_close: "wk_objectives w k = Some x \<Longrightarrow> settles (wk_attempts w) m \<Longrightarrow>
    (\<And>t y. t \<in> set (wo_tasks x) \<Longrightarrow> wk_tasks w t = Some y \<Longrightarrow> attempts_closed m (wt_attempts y)) \<Longrightarrow>
    work_step w (w\<lparr>wk_objectives := (wk_objectives w)(k \<mapsto> x\<lparr>wo_closed := True\<rparr>), wk_attempts := m\<rparr>)"
| work_task: "wk_objectives w ob = Some x \<Longrightarrow> wk_tasks w k = None \<Longrightarrow>
    (\<And>d. d \<in> set deps \<Longrightarrow> d \<noteq> k \<and> (\<exists>y. wk_tasks w d = Some y \<and> wt_objective y = ob)) \<Longrightarrow>
    work_step w (w\<lparr>wk_tasks := (wk_tasks w)(k \<mapsto> \<lparr>wt_objective = ob, wt_depends = deps, wt_attempts = []\<rparr>),
      wk_objectives := (wk_objectives w)(ob \<mapsto> x\<lparr>wo_tasks := wo_tasks x @ [k]\<rparr>)\<rparr>)"
| work_attempt: "wk_tasks w t = Some y \<Longrightarrow> wk_attempts w k = None \<Longrightarrow>
    attempts_closed (wk_attempts w) (wt_attempts y) \<Longrightarrow>
    wk_objectives w (wt_objective y) = Some x \<Longrightarrow> \<not> wo_closed x \<Longrightarrow>
    work_step w (w\<lparr>wk_tasks := (wk_tasks w)(t \<mapsto> y\<lparr>wt_attempts := wt_attempts y @ [k]\<rparr>),
      wk_attempts := (wk_attempts w)(k \<mapsto> \<lparr>at_task = t, at_open = True\<rparr>)\<rparr>)"
| work_agent: "wk_agents w k = None \<Longrightarrow> rightful_lineage w k g \<Longrightarrow> \<not> ag_retired g \<Longrightarrow>
    work_step w (w\<lparr>wk_agents := (wk_agents w)(k \<mapsto> g)\<rparr>)"
| work_retire: "wk_agents w k = Some g \<Longrightarrow>
    (\<And>j h. wk_agents w j = Some h \<Longrightarrow> j \<noteq> k \<Longrightarrow> truthy (ag_parent h) \<Longrightarrow> the (ag_parent h) = k \<Longrightarrow>
      ag_retired h) \<Longrightarrow>
    work_step w (w\<lparr>wk_agents := (wk_agents w)(k \<mapsto> g\<lparr>ag_retired := True\<rparr>)\<rparr>)"

section \<open>Its invariant\<close>

definition tasks_linked :: "work \<Rightarrow> bool" where
  "tasks_linked w \<longleftrightarrow>
     (\<forall>k y. wk_tasks w k = Some y \<longrightarrow> (\<exists>x. wk_objectives w (wt_objective y) = Some x \<and> k \<in> set (wo_tasks x))) \<and>
     (\<forall>ob x. wk_objectives w ob = Some x \<longrightarrow> distinct (wo_tasks x) \<and>
        (\<forall>k \<in> set (wo_tasks x). \<exists>y. wk_tasks w k = Some y \<and> wt_objective y = ob))"

definition attempts_linked :: "work \<Rightarrow> bool" where
  "attempts_linked w \<longleftrightarrow>
     (\<forall>k a. wk_attempts w k = Some a \<longrightarrow> (\<exists>y. wk_tasks w (at_task a) = Some y \<and> k \<in> set (wt_attempts y))) \<and>
     (\<forall>t y. wk_tasks w t = Some y \<longrightarrow> distinct (wt_attempts y) \<and>
        (\<forall>k \<in> set (wt_attempts y). \<exists>a. wk_attempts w k = Some a \<and> at_task a = t))"

text \<open>At most one attempt of a task is open, and none of a closed objective.\<close>

definition open_work_exclusive :: "work \<Rightarrow> bool" where
  "open_work_exclusive w \<longleftrightarrow>
     (\<forall>i j a b. wk_attempts w i = Some a \<and> wk_attempts w j = Some b \<and> at_open a \<and> at_open b \<and>
        at_task a = at_task b \<longrightarrow> i = j) \<and>
     (\<forall>i a y x. wk_attempts w i = Some a \<and> wk_tasks w (at_task a) = Some y \<and>
        wk_objectives w (wt_objective y) = Some x \<and> wo_closed x \<longrightarrow> \<not> at_open a)"

definition depends_on :: "work \<Rightarrow> (string \<times> string) set" where
  "depends_on w = {(k, d). \<exists>y. wk_tasks w k = Some y \<and> d \<in> set (wt_depends y)}"

definition dependencies_sound :: "work \<Rightarrow> bool" where
  "dependencies_sound w \<longleftrightarrow> acyclic (depends_on w) \<and>
     (\<forall>k y d. wk_tasks w k = Some y \<and> d \<in> set (wt_depends y) \<longrightarrow>
        (\<exists>z. wk_tasks w d = Some z \<and> wt_objective z = wt_objective y))"

text \<open>Lineage: a parent is registered, one level up, under the same root, and retires after its children.\<close>

definition lineage_sound :: "work \<Rightarrow> bool" where
  "lineage_sound w \<longleftrightarrow>
     (\<forall>k g. wk_agents w k = Some g \<longrightarrow>
        (if truthy (ag_parent g)
         then \<exists>h. wk_agents w (the (ag_parent g)) = Some h \<and> ag_root g = ag_root h \<and>
                ag_depth g = ag_depth h + 1 \<and> (ag_retired h \<longrightarrow> ag_retired g)
         else ag_root g = k \<and> ag_depth g = 0))"

definition work_sound :: "work \<Rightarrow> bool" where
  "work_sound w \<longleftrightarrow> tasks_linked w \<and> attempts_linked w \<and> open_work_exclusive w \<and> dependencies_sound w \<and> lineage_sound w"

lemma settlesD:
  "settles m n \<Longrightarrow> n k = Some b \<Longrightarrow> \<exists>a. m k = Some a \<and> at_task a = at_task b \<and> (at_open b \<longrightarrow> at_open a)"
  "settles m n \<Longrightarrow> m k = Some a \<Longrightarrow> \<exists>b. n k = Some b \<and> at_task b = at_task a \<and> (at_open b \<longrightarrow> at_open a)"
  by (auto simp: settles_def elim!: allE [of _ k] split: option.splits elim: option.rel_cases)

lemma settles_refl: "settles m m"
  by (auto simp: settles_def intro: option.rel_refl_strong)

lemma tasks_linkedD:
  assumes "tasks_linked w"
  shows "wk_tasks w k = Some y \<Longrightarrow> \<exists>x. wk_objectives w (wt_objective y) = Some x \<and> k \<in> set (wo_tasks x)"
    "wk_objectives w ob = Some x \<Longrightarrow> distinct (wo_tasks x)"
    "wk_objectives w ob = Some x \<Longrightarrow> k \<in> set (wo_tasks x) \<Longrightarrow> \<exists>y. wk_tasks w k = Some y \<and> wt_objective y = ob"
  using assms unfolding tasks_linked_def by blast+

lemma attempts_linkedD:
  assumes "attempts_linked w"
  shows "wk_attempts w k = Some a \<Longrightarrow> \<exists>y. wk_tasks w (at_task a) = Some y \<and> k \<in> set (wt_attempts y)"
    "wk_tasks w t = Some y \<Longrightarrow> distinct (wt_attempts y)"
    "wk_tasks w t = Some y \<Longrightarrow> k \<in> set (wt_attempts y) \<Longrightarrow> \<exists>a. wk_attempts w k = Some a \<and> at_task a = t"
  using assms unfolding attempts_linked_def by blast+

lemma tasks_linked_iff:
  "tasks_linked w \<longleftrightarrow>
     (\<forall>k y. wk_tasks w k = Some y \<longrightarrow>
        (\<exists>ids. map_option wo_tasks (wk_objectives w (wt_objective y)) = Some ids \<and> k \<in> set ids)) \<and>
     (\<forall>ob ids. map_option wo_tasks (wk_objectives w ob) = Some ids \<longrightarrow> distinct ids \<and>
        (\<forall>k \<in> set ids. \<exists>y. wk_tasks w k = Some y \<and> wt_objective y = ob))"
  unfolding tasks_linked_def by fastforce

lemma tasks_linked_step:
  assumes "work_step w w'" and linked: "tasks_linked w"
  shows "tasks_linked w'"
  using assms(1)
proof cases
  case (work_objective k)
  have "wt_objective y \<noteq> k" if "wk_tasks w t = Some y" for t y
    using tasks_linkedD(1) [OF linked that] work_objective(2) by auto
  with linked show ?thesis unfolding tasks_linked_def work_objective(1) by auto
next
  case (work_close k x m)
  have "map_option wo_tasks (wk_objectives w' i) = map_option wo_tasks (wk_objectives w i)" for i
    by (simp add: work_close(1,2))
  moreover have "wk_tasks w' = wk_tasks w" by (simp add: work_close(1))
  ultimately show ?thesis using linked by (simp only: tasks_linked_iff)
next
  case (work_task ob x k deps)
  note old = tasks_linkedD [OF linked]
  have "k \<notin> set (wo_tasks z)" if "wk_objectives w i = Some z" for i z
    using old(3) [OF that, of k] work_task(3) by auto
  note absent = this
  have "\<exists>z. wk_objectives w' (wt_objective y) = Some z \<and> i \<in> set (wo_tasks z)" if "wk_tasks w' i = Some y" for i y
  proof (cases "i = k")
    case False
    with that have "wk_tasks w i = Some y" by (simp add: work_task(1))
    with old(1) [OF this] work_task(2) show ?thesis by (cases "wt_objective y = ob") (auto simp: work_task(1))
  qed (use that in \<open>auto simp: work_task(1)\<close>)
  moreover have "distinct (wo_tasks z) \<and> (\<forall>i \<in> set (wo_tasks z). \<exists>y. wk_tasks w' i = Some y \<and> wt_objective y = u)"
    if u: "wk_objectives w' u = Some z" for u z
  proof -
    obtain v where v: "wk_objectives w u = Some v" "wo_tasks z = wo_tasks v @ (if u = ob then [k] else [])"
      using u work_task(2) by (cases "u = ob") (auto simp: work_task(1))
    from old(2,3) [OF v(1)] absent [OF v(1)] v(2) show ?thesis by (auto simp: work_task(1))
  qed
  ultimately show ?thesis unfolding tasks_linked_def by blast
next
  case (work_attempt t y k x)
  note old = tasks_linkedD [OF linked]
  have same: "map_option wt_objective (wk_tasks w' i) = map_option wt_objective (wk_tasks w i)" for i
    by (simp add: work_attempt(1,2))
  have origin: "\<exists>v. wk_tasks w i = Some v \<and> wt_objective v = wt_objective z" if "wk_tasks w' i = Some z" for i z
    using same [of i] that by (cases "wk_tasks w i") auto
  have descent: "\<exists>z. wk_tasks w' i = Some z \<and> wt_objective z = wt_objective v" if "wk_tasks w i = Some v" for i v
    using same [of i] that by (cases "wk_tasks w' i") auto
  have "wk_objectives w' = wk_objectives w" by (simp add: work_attempt(1))
  then show ?thesis unfolding tasks_linked_def using old origin descent by metis
qed (use linked in \<open>simp_all add: tasks_linked_def\<close>)

lemma attempts_linked_settle:
  assumes "settles (wk_attempts w) m" and linked: "attempts_linked w"
  shows "attempts_linked (w\<lparr>wk_attempts := m\<rparr>)"
proof -
  note old = attempts_linkedD [OF linked] and moved = settlesD [OF assms(1)]
  have "\<exists>y. wk_tasks w (at_task b) = Some y \<and> k \<in> set (wt_attempts y)" if "m k = Some b" for k b
    using moved(1) [OF that] old(1) by metis
  moreover have "\<exists>b. m k = Some b \<and> at_task b = t" if "wk_tasks w t = Some y" "k \<in> set (wt_attempts y)" for k t y
    using moved(2) old(3) [OF that] by metis
  ultimately show ?thesis unfolding attempts_linked_def using old(2) by simp
qed

lemma attempts_linked_step:
  assumes "work_step w w'" and linked: "attempts_linked w"
  shows "attempts_linked w'"
  using assms(1)
proof cases
  case (work_settle m)
  with attempts_linked_settle [OF work_settle(2) linked] show ?thesis by simp
next
  case (work_close k x m)
  with attempts_linked_settle [OF work_close(3) linked] show ?thesis by (simp add: attempts_linked_def)
next
  case (work_task ob x k deps)
  note old = attempts_linkedD [OF linked]
  have "at_task a \<noteq> k" if "wk_attempts w i = Some a" for i a using old(1) [OF that] work_task(3) by auto
  with linked show ?thesis unfolding attempts_linked_def work_task(1) by auto
next
  case (work_attempt t y k x)
  note old = attempts_linkedD [OF linked]
  have "k \<notin> set (wt_attempts z)" if "wk_tasks w i = Some z" for i z
    using old(3) [OF that, of k] work_attempt(3) by auto
  note absent = this
  have "\<exists>z. wk_tasks w' (at_task a) = Some z \<and> i \<in> set (wt_attempts z)" if "wk_attempts w' i = Some a" for i a
  proof (cases "i = k")
    case False
    with that have "wk_attempts w i = Some a" by (simp add: work_attempt(1))
    with old(1) [OF this] work_attempt(2) show ?thesis by (cases "at_task a = t") (auto simp: work_attempt(1))
  qed (use that in \<open>auto simp: work_attempt(1)\<close>)
  moreover have "distinct (wt_attempts z) \<and> (\<forall>i \<in> set (wt_attempts z). \<exists>a. wk_attempts w' i = Some a \<and> at_task a = u)"
    if u: "wk_tasks w' u = Some z" for u z
  proof -
    obtain v where v: "wk_tasks w u = Some v" "wt_attempts z = wt_attempts v @ (if u = t then [k] else [])"
      using u work_attempt(2) by (cases "u = t") (auto simp: work_attempt(1))
    from old(2,3) [OF v(1)] absent [OF v(1)] v(2) show ?thesis by (auto simp: work_attempt(1))
  qed
  ultimately show ?thesis unfolding attempts_linked_def by blast
qed (use linked in \<open>simp_all add: attempts_linked_def\<close>)

lemma dependencies_sound_tasks: "wk_tasks w' = wk_tasks w \<Longrightarrow> dependencies_sound w' = dependencies_sound w"
  by (simp only: dependencies_sound_def depends_on_def)

lemma dependencies_sound_step:
  assumes "work_step w w'" and sound: "dependencies_sound w"
  shows "dependencies_sound w'"
  using assms(1)
proof cases
  case (work_task ob x k deps)
  from sound have acyc: "acyclic (depends_on w)"
    and known: "\<And>i y d. wk_tasks w i = Some y \<Longrightarrow> d \<in> set (wt_depends y) \<Longrightarrow> \<exists>z. wk_tasks w d = Some z \<and> wt_objective z = wt_objective y"
    by (auto simp: dependencies_sound_def)
  have rel: "depends_on w' = depends_on w \<union> {k} \<times> set deps"
    using work_task(3) by (auto simp: depends_on_def work_task(1) split: if_split_asm)
  have unused: "k \<notin> Range (depends_on w)"
    using known work_task(3) by (fastforce simp: depends_on_def)
  have "acyclic (depends_on w')"
  proof (rule acyclicI)
    show "\<forall>i. (i, i) \<notin> (depends_on w')\<^sup>+"
    proof (intro allI notI)
      fix i assume cyc: "(i, i) \<in> (depends_on w')\<^sup>+"
      have out: "k \<notin> Range (depends_on w')" using unused work_task(4) by (auto simp: rel)
      have keep: "(a, b) \<in> (depends_on w)\<^sup>+" if "(a, b) \<in> (depends_on w')\<^sup>+" "a \<noteq> k" for a b
        using that
      proof (induction rule: trancl_induct)
        case (base b)
        then show ?case by (auto simp: rel)
      next
        case (step b c)
        from step.hyps(1) have "b \<in> Range (depends_on w')" by (auto dest: tranclD2)
        with out have "b \<noteq> k" by blast
        with step show ?case by (auto simp: rel intro: trancl_into_trancl)
      qed
      from cyc have "i \<in> Range (depends_on w')" by (auto dest: tranclD2)
      with out have "i \<noteq> k" by blast
      with keep [OF cyc] acyc show False by (simp add: acyclic_def)
    qed
  qed
  moreover have "\<exists>z. wk_tasks w' d = Some z \<and> wt_objective z = wt_objective y"
    if y: "wk_tasks w' i = Some y" and d: "d \<in> set (wt_depends y)" for i y d
  proof (cases "i = k")
    case True
    with y d work_task(4) [of d] show ?thesis by (auto simp: work_task(1))
  next
    case False
    with y have "wk_tasks w i = Some y" by (simp add: work_task(1))
    from known [OF this d] work_task(3) show ?thesis by (auto simp: work_task(1))
  qed
  ultimately show ?thesis unfolding dependencies_sound_def by blast
next
  case (work_attempt t y k x)
  have same: "map_option (\<lambda>v. (wt_objective v, wt_depends v)) (wk_tasks w' i) =
      map_option (\<lambda>v. (wt_objective v, wt_depends v)) (wk_tasks w i)" for i
    by (simp add: work_attempt(1,2))
  have origin: "\<exists>v. wk_tasks w i = Some v \<and> wt_objective v = wt_objective z \<and> wt_depends v = wt_depends z"
    if "wk_tasks w' i = Some z" for i z
    using same [of i] that by (cases "wk_tasks w i") auto
  have descent: "\<exists>z. wk_tasks w' i = Some z \<and> wt_objective z = wt_objective v \<and> wt_depends z = wt_depends v"
    if "wk_tasks w i = Some v" for i v
    using same [of i] that by (cases "wk_tasks w' i") auto
  have "depends_on w' = depends_on w" unfolding depends_on_def using origin descent by fastforce
  with sound origin descent show ?thesis unfolding dependencies_sound_def by metis
qed (rule dependencies_sound_tasks [THEN iffD2, OF _ sound], simp)+

lemma lineage_soundD:
  assumes "lineage_sound w" and "wk_agents w j = Some h"
  shows "if truthy (ag_parent h)
     then \<exists>p. wk_agents w (the (ag_parent h)) = Some p \<and> ag_root h = ag_root p \<and>
            ag_depth h = ag_depth p + 1 \<and> (ag_retired p \<longrightarrow> ag_retired h)
     else ag_root h = j \<and> ag_depth h = 0"
  using assms unfolding lineage_sound_def by blast

lemma lineage_sound_agents: "wk_agents w' = wk_agents w \<Longrightarrow> lineage_sound w \<Longrightarrow> lineage_sound w'"
  by (simp only: lineage_sound_def)

lemma lineage_sound_step:
  assumes "work_step w w'" and sound: "lineage_sound w"
  shows "lineage_sound w'"
  using assms(1)
proof cases
  case (work_agent k g)
  have other: "the (ag_parent h) \<noteq> k" if "wk_agents w j = Some h" "truthy (ag_parent h)" for j h
    using lineage_soundD [OF sound that(1)] that(2) work_agent(2) by auto
  show ?thesis
    unfolding lineage_sound_def work_agent(1)
  proof (intro allI impI)
    fix j h assume h: "wk_agents (w\<lparr>wk_agents := (wk_agents w)(k \<mapsto> g)\<rparr>) j = Some h"
    show "if truthy (ag_parent h)
       then \<exists>p. wk_agents (w\<lparr>wk_agents := (wk_agents w)(k \<mapsto> g)\<rparr>) (the (ag_parent h)) = Some p \<and>
              ag_root h = ag_root p \<and> ag_depth h = ag_depth p + 1 \<and> (ag_retired p \<longrightarrow> ag_retired h)
       else ag_root h = j \<and> ag_depth h = 0"
    proof (cases "j = k")
      case True
      with h work_agent(2,3) show ?thesis by (auto simp: rightful_lineage_def split: if_split_asm)
    next
      case False
      with h have "wk_agents w j = Some h" by simp
      from lineage_soundD [OF sound this] other [OF this] show ?thesis by (auto split: if_split_asm)
    qed
  qed
next
  case (work_retire k g)
  note known = lineage_soundD [OF sound]
  show ?thesis
    unfolding lineage_sound_def work_retire(1)
  proof (intro allI impI)
    fix j h assume h: "wk_agents (w\<lparr>wk_agents := (wk_agents w)(k \<mapsto> g\<lparr>ag_retired := True\<rparr>)\<rparr>) j = Some h"
    then obtain h0 where h0: "wk_agents w j = Some h0" "ag_parent h = ag_parent h0" "ag_root h = ag_root h0"
      "ag_depth h = ag_depth h0" "ag_retired h = (ag_retired h0 \<or> j = k)"
      using work_retire(2) by (auto split: if_split_asm)
    from known [OF h0(1)] h0 work_retire(2) work_retire(3) [OF h0(1)]
    show "if truthy (ag_parent h)
       then \<exists>p. wk_agents (w\<lparr>wk_agents := (wk_agents w)(k \<mapsto> g\<lparr>ag_retired := True\<rparr>)\<rparr>) (the (ag_parent h)) = Some p \<and>
              ag_root h = ag_root p \<and> ag_depth h = ag_depth p + 1 \<and> (ag_retired p \<longrightarrow> ag_retired h)
       else ag_root h = j \<and> ag_depth h = 0"
      by (cases "ag_parent h0") (auto split: if_split_asm)
  qed
qed (rule lineage_sound_agents [OF _ sound], simp)+

lemma open_work_exclusiveD:
  assumes "open_work_exclusive w"
  shows "wk_attempts w i = Some a \<Longrightarrow> wk_attempts w j = Some b \<Longrightarrow> at_open a \<Longrightarrow> at_open b \<Longrightarrow>
      at_task a = at_task b \<Longrightarrow> i = j"
    "wk_attempts w i = Some a \<Longrightarrow> wk_tasks w (at_task a) = Some y \<Longrightarrow> wk_objectives w (wt_objective y) = Some x \<Longrightarrow>
      wo_closed x \<Longrightarrow> \<not> at_open a"
  using assms unfolding open_work_exclusive_def by blast+

lemma open_work_exclusiveI:
  assumes "\<And>i j a b. wk_attempts w i = Some a \<Longrightarrow> wk_attempts w j = Some b \<Longrightarrow> at_open a \<Longrightarrow> at_open b \<Longrightarrow>
      at_task a = at_task b \<Longrightarrow> i = j"
    and "\<And>i a y x. wk_attempts w i = Some a \<Longrightarrow> wk_tasks w (at_task a) = Some y \<Longrightarrow>
      wk_objectives w (wt_objective y) = Some x \<Longrightarrow> wo_closed x \<Longrightarrow> \<not> at_open a"
  shows "open_work_exclusive w"
  using assms unfolding open_work_exclusive_def by blast

lemma open_work_agents:
  "wk_attempts w' = wk_attempts w \<Longrightarrow> wk_tasks w' = wk_tasks w \<Longrightarrow> wk_objectives w' = wk_objectives w \<Longrightarrow>
   open_work_exclusive w \<Longrightarrow> open_work_exclusive w'"
  by (simp only: open_work_exclusive_def)

lemma open_work_settle:
  assumes "settles (wk_attempts w) m" and excl: "open_work_exclusive w"
  shows "open_work_exclusive (w\<lparr>wk_attempts := m\<rparr>)"
proof -
  note old = open_work_exclusiveD [OF excl] and moved = settlesD(1) [OF assms(1)]
  have "i = j" if "m i = Some a" "m j = Some b" "at_open a" "at_open b" "at_task a = at_task b" for i j a b
    using moved [OF that(1)] moved [OF that(2)] that(3-5) old(1) [of i _ j] by auto
  moreover have "\<not> at_open a" if "m i = Some a" "wk_tasks w (at_task a) = Some y"
    "wk_objectives w (wt_objective y) = Some x" "wo_closed x" for i a y x
    using moved [OF that(1)] old(2) that(2-4) by metis
  ultimately show ?thesis by (intro open_work_exclusiveI; simp)
qed

lemma open_work_exclusive_step:
  assumes "work_step w w'" and excl: "open_work_exclusive w"
    and tasks: "tasks_linked w" and atts: "attempts_linked w"
  shows "open_work_exclusive w'"
  using assms(1)
proof cases
  case (work_settle m)
  with open_work_settle [OF work_settle(2) excl] show ?thesis by simp
next
  case (work_close k x m)
  note settled = open_work_settle [OF work_close(3) excl]
  note kept = open_work_exclusiveD [OF settled, simplified]
  have "\<not> at_open a" if a: "m i = Some a" and y: "wk_tasks w (at_task a) = Some y"
    and z: "(if wt_objective y = k then Some (x\<lparr>wo_closed := True\<rparr>) else wk_objectives w (wt_objective y)) = Some z"
    and closed: "wo_closed z" for i a y z
  proof (cases "wt_objective y = k")
    case True
    from settlesD(1) [OF work_close(3) a] obtain a0 where a0: "wk_attempts w i = Some a0" "at_task a0 = at_task a" by blast
    from attempts_linkedD(1) [OF atts a0(1)] a0(2) y have "i \<in> set (wt_attempts y)" by auto
    moreover have "at_task a \<in> set (wo_tasks x)" using tasks_linkedD(1) [OF tasks y] True work_close(2) by auto
    ultimately show ?thesis using work_close(4) [OF _ y] a unfolding attempts_closed_def by blast
  next
    case False
    with kept(2) a y z closed show ?thesis by auto
  qed
  with kept(1) show ?thesis unfolding work_close(1) by (intro open_work_exclusiveI; simp)
next
  case (work_objective k)
  note old = open_work_exclusiveD [OF excl]
  show ?thesis
  proof (rule open_work_exclusiveI)
    fix i a y x
    assume "wk_attempts w' i = Some a" "wk_tasks w' (at_task a) = Some y" "wk_objectives w' (wt_objective y) = Some x" "wo_closed x"
    then show "\<not> at_open a" using old(2) by (auto simp: work_objective(1) split: if_split_asm)
  qed (use old(1) in \<open>simp add: work_objective(1)\<close>)
next
  case (work_task ob x k deps)
  have fresh: "at_task a \<noteq> k" if "wk_attempts w i = Some a" for i a
    using attempts_linkedD(1) [OF atts that] work_task(3) by auto
  have "\<not> at_open a" if a: "wk_attempts w i = Some a" and y: "wk_tasks w' (at_task a) = Some y"
    and z: "wk_objectives w' (wt_objective y) = Some z" and "wo_closed z" for i a y z
  proof -
    from y fresh [OF a] have y: "wk_tasks w (at_task a) = Some y" by (simp add: work_task(1))
    from z obtain z0 where "wk_objectives w (wt_objective y) = Some z0" "wo_closed z0 = wo_closed z"
      using work_task(2) by (auto simp: work_task(1) split: if_split_asm)
    with open_work_exclusiveD(2) [OF excl a y] \<open>wo_closed z\<close> show ?thesis by auto
  qed
  moreover have "wk_attempts w' = wk_attempts w" by (simp add: work_task(1))
  ultimately show ?thesis using open_work_exclusiveD(1) [OF excl] unfolding open_work_exclusive_def by metis
next
  case (work_attempt t y k x)
  have settled: "\<not> at_open a" if "wk_attempts w i = Some a" "at_task a = t" for i a
    using attempts_linkedD(1) [OF atts that(1)] that work_attempt(2,4) by (auto simp: attempts_closed_def)
  have "i = j" if "wk_attempts w' i = Some a" "wk_attempts w' j = Some b" "at_open a" "at_open b" "at_task a = at_task b" for i j a b
    using that settled open_work_exclusiveD(1) [OF excl, of i a j b]
    by (auto simp: work_attempt(1) split: if_split_asm)
  moreover have "\<not> at_open a" if a: "wk_attempts w' i = Some a" and v: "wk_tasks w' (at_task a) = Some v"
    and z: "wk_objectives w' (wt_objective v) = Some z" and closed: "wo_closed z" for i a v z
  proof -
    from v obtain v0 where v0: "wk_tasks w (at_task a) = Some v0" "wt_objective v0 = wt_objective v"
      using work_attempt(2) by (auto simp: work_attempt(1) split: if_split_asm)
    from z have z: "wk_objectives w (wt_objective v0) = Some z" by (simp add: work_attempt(1) v0(2))
    show ?thesis
    proof (cases "i = k")
      case True
      with a v0(1) work_attempt(2,5,6) z closed show ?thesis by (auto simp: work_attempt(1))
    next
      case False
      with a open_work_exclusiveD(2) [OF excl _ v0(1) z closed] show ?thesis by (simp add: work_attempt(1))
    qed
  qed
  ultimately show ?thesis unfolding open_work_exclusive_def by blast
qed (rule open_work_agents [OF _ _ _ excl], simp, simp, simp)+

lemma work_sound_step: "work_step w w' \<Longrightarrow> work_sound w \<Longrightarrow> work_sound w'"
  unfolding work_sound_def
  by (blast intro: tasks_linked_step attempts_linked_step open_work_exclusive_step dependencies_sound_step lineage_sound_step)

lemma work_sound_steps: "work_step\<^sup>*\<^sup>* w w' \<Longrightarrow> work_sound w \<Longrightarrow> work_sound w'"
  by (induction rule: rtranclp.induct) (auto intro: work_sound_step)

section \<open>The abstraction\<close>

definition objective_work :: "ObjectiveRuntimeState \<Rightarrow> work_objective" where
  "objective_work x = \<lparr>wo_tasks = os_taskIds x, wo_closed = objective_closed x\<rparr>"

definition task_work :: "TaskRuntimeState \<Rightarrow> work_task" where
  "task_work t = \<lparr>wt_objective = task_objectiveId (ts_task t), wt_depends = task_dependsOn (ts_task t),
     wt_attempts = ts_attemptIds t\<rparr>"

definition attempt_work :: "AttemptRuntimeState \<Rightarrow> work_attempt" where
  "attempt_work a = \<lparr>at_task = att_taskId a, at_open = (\<not> terminalAttemptStatus (att_status a))\<rparr>"

definition agent_work :: "AgentBindingContract \<Rightarrow> work_agent" where
  "agent_work g = \<lparr>ag_parent = agent_parentAgentId g, ag_root = agent_rootAgentId g, ag_depth = agent_depth g,
     ag_retired = (agent_status g = AgentRetired)\<rparr>"

definition work_of :: "'a TaskRuntimeProjection_scheme \<Rightarrow> work" where
  "work_of p = \<lparr>wk_objectives = map_option objective_work \<circ> map_of (objectives p),
     wk_tasks = map_option task_work \<circ> map_of (tasks p),
     wk_attempts = map_option attempt_work \<circ> map_of (attempts p),
     wk_agents = map_option agent_work \<circ> map_of (agents p)\<rparr>"

lemma work_of_simps [simp]:
  "wk_objectives (work_of p) k = map_option objective_work (map_of (objectives p) k)"
  "wk_tasks (work_of p) k = map_option task_work (map_of (tasks p) k)"
  "wk_attempts (work_of p) k = map_option attempt_work (map_of (attempts p) k)"
  "wk_agents (work_of p) k = map_option agent_work (map_of (agents p) k)"
  by (simp_all add: work_of_def)

lemma work_eqI:
  fixes v w :: work
  assumes "\<And>k. wk_objectives v k = wk_objectives w k" "\<And>k. wk_tasks v k = wk_tasks w k"
    "\<And>k. wk_attempts v k = wk_attempts w k" "\<And>k. wk_agents v k = wk_agents w k"
  shows "v = w"
  using assms by (intro work.equality ext) auto

lemma work_of_views [simp]: "work_of (draft_of p b) = work_of p" "work_of (reduced d n) = work_of d"
  by (simp_all add: work_of_def)

section \<open>Record writes settle\<close>

lemma task_identity_work:
  "task_identity u = task_identity t \<Longrightarrow> task_objectiveId u = task_objectiveId t"
  "task_identity u = task_identity t \<Longrightarrow> task_dependsOn u = task_dependsOn t"
  by (drule arg_cong [where f = task_objectiveId], simp add: task_identity_def)
    (drule arg_cong [where f = task_dependsOn], simp add: task_identity_def)

lemma agent_identity_work:
  "agent_identity h = agent_identity g \<Longrightarrow> agent_parentAgentId h = agent_parentAgentId g"
  "agent_identity h = agent_identity g \<Longrightarrow> agent_rootAgentId h = agent_rootAgentId g"
  "agent_identity h = agent_identity g \<Longrightarrow> agent_depth h = agent_depth g"
  by (drule arg_cong [where f = agent_parentAgentId], simp add: agent_identity_def)
    ((drule arg_cong [where f = agent_rootAgentId], simp add: agent_identity_def),
     (drule arg_cong [where f = agent_depth], simp add: agent_identity_def))

lemma moved_work:
  "task_moves t u \<Longrightarrow> ts_attemptIds u = ts_attemptIds t \<Longrightarrow> task_work u = task_work t"
  "agent_moves g h \<Longrightarrow> agent_work h = agent_work g"
  "agent_retires g h \<Longrightarrow> agent_work h = (agent_work g)\<lparr>ag_retired := True\<rparr>"
  "attempt_moves a b \<Longrightarrow> at_task (attempt_work b) = at_task (attempt_work a) \<and>
     (at_open (attempt_work b) \<longrightarrow> at_open (attempt_work a))"
  by (auto simp: task_moves_def task_work_def agent_moves_def agent_retires_def agent_work_def attempt_work_def
      attempt_moves_def attempt_identity_def attempt_status_moves_terminal
      dest: task_identity_work agent_identity_work)

lemma objective_move_work:
  assumes "objective_moves k x y" and "os_taskIds y = os_taskIds x" and "objective_closed y \<Longrightarrow> objective_closed x"
  shows "objective_work y = objective_work x"
proof -
  from assms(1) have "objective_closed x \<longrightarrow> objective_closed y"
    by (auto simp: objective_moves_def objective_closed_def objective_transition_valid_def)
  with assms(2,3) show ?thesis by (auto simp: objective_work_def)
qed

lemma record_step_work:
  assumes "record_step J loose d d'"
  shows "settles (wk_attempts (work_of d)) (wk_attempts (work_of d')) \<and>
    wk_objectives (work_of d') = wk_objectives (work_of d) \<and> wk_tasks (work_of d') = wk_tasks (work_of d) \<and>
    wk_agents (work_of d') = wk_agents (work_of d)"
  using assms
proof cases
  case (rec_attempt k a b)
  from put_attempt_fields [OF rec_attempt(4)] rec_attempt(1) moved_work(4) [OF rec_attempt(2)]
  show ?thesis by (auto simp: settles_def fun_eq_iff intro: option.rel_refl_strong)
next
  case (rec_objective k o1 o2)
  have "objective_work o2 = objective_work o1" by (rule objective_move_work [OF rec_objective(2,3,4)])
  with put_objective_fields [OF rec_objective(5)] rec_objective(1) show ?thesis
    by (auto simp: fun_eq_iff settles_def intro: option.rel_refl_strong)
qed (auto dest!: write_fields simp: fun_eq_iff moved_work(1,2) settles_def intro!: option.rel_refl_strong)

lemma settles_trans:
  assumes "settles m n" and "settles n r"
  shows "settles m r"
  unfolding settles_def
proof
  fix k
  from assms show "rel_option (\<lambda>a b. at_task b = at_task a \<and> (at_open b \<longrightarrow> at_open a)) (m k) (r k)"
    by (cases "m k"; cases "n k"; cases "r k"; force simp: settles_def dest: spec [of _ k])
qed

lemma record_writes_work:
  assumes "record_writes J loose d d'"
  shows "settles (wk_attempts (work_of d)) (wk_attempts (work_of d')) \<and>
    wk_objectives (work_of d') = wk_objectives (work_of d) \<and> wk_tasks (work_of d') = wk_tasks (work_of d) \<and>
    wk_agents (work_of d') = wk_agents (work_of d)"
  using assms
proof (induction rule: record_writes.induct)
  case (rw_more d d1 d2)
  with record_step_work [OF rw_more.hyps(2)] show ?case by (metis settles_trans)
qed (simp add: settles_refl)

lemma record_writes_step:
  assumes "record_writes J loose d d'"
  shows "work_step (work_of d) (work_of d')"
proof -
  note w = record_writes_work [OF assms]
  then have "work_of d' = (work_of d)\<lparr>wk_attempts := wk_attempts (work_of d')\<rparr>" by (intro work.equality) auto
  with work_settle [of "work_of d" "wk_attempts (work_of d')"] w show ?thesis by simp
qed

end
