(* ===== verification/Work_Refinement.thy ===== *)
theory Work_Refinement
  imports Work_Structure
begin

text \<open>
  Every handler of the reducer refines the abstract machine of \<open>Work_Structure\<close>, and with it the
  invariants of that machine hold of every projection the ledger reaches.
\<close>

section \<open>Closing an objective\<close>

definition attempt_settled :: "'a TaskRuntimeProjection_scheme \<Rightarrow> string \<Rightarrow> bool" where
  "attempt_settled d i \<longleftrightarrow> (\<forall>a. map_of (attempts d) i = Some a \<longrightarrow> terminalAttemptStatus (att_status a))"

lemma foldE_each:
  assumes "foldE f d xs = Inr d'"
    and "\<And>x d d'. f d x = Inr d' \<Longrightarrow> Q x d'" and "\<And>x y d d'. f d x = Inr d' \<Longrightarrow> Q y d \<Longrightarrow> Q y d'"
  shows "\<forall>x \<in> set xs. Q x d'"
  using assms(1)
proof (induction xs arbitrary: d)
  case (Cons x xs)
  then obtain d1 where one: "f d x = Inr d1" and rest: "foldE f d1 xs = Inr d'" by auto
  have "Q x d'" by (rule foldE_invariant [OF rest, where P = "Q x"]) (use assms(2) [OF one] assms(3) in auto)
  with Cons.IH [OF rest] show ?case by simp
qed simp

lemma settles_attempt_settled:
  assumes "record_writes J loose d d'" and "attempt_settled d i"
  shows "attempt_settled d' i"
proof -
  note m = settlesD(1) [OF conjunct1 [OF record_writes_work [OF assms(1)]], of i]
  show ?thesis using m assms(2) by (fastforce simp: attempt_settled_def attempt_work_def)
qed

lemma cancel_open_attempt_settles:
  assumes "cancel_open_attempt J now c d i = Inr d'"
  shows "attempt_settled d' i"
proof (cases "map_of (attempts d) i")
  case None
  with assms show ?thesis by (simp add: cancel_open_attempt_def attempt_settled_def)
next
  case (Some a)
  show ?thesis
  proof (cases "terminalAttemptStatus (att_status a)")
    case True
    with Some assms show ?thesis by (simp add: cancel_open_attempt_def attempt_settled_def)
  next
    case False
    with Some assms obtain d1 where p: "put_attempt J i (withoutAttemptRetry (a\<lparr>att_status := AttCancelled,
        att_reasonCode := Some c, att_updatedAt := now\<rparr>)) d = Inr d1" and r: "releaseAttemptAgent J a now d1 = Inr d'"
      by (auto simp: cancel_open_attempt_def)
    have "attempt_settled d1 i" using put_attempt_fields [OF p] by (simp add: attempt_settled_def withoutAttemptRetry_def)
    with releaseAttemptAgent_writes [OF r] show ?thesis by (rule settles_attempt_settled)
  qed
qed

text \<open>The listed attempts of a task are settled.\<close>

definition task_settled :: "string \<Rightarrow> 'a TaskRuntimeProjection_scheme \<Rightarrow> bool" where
  "task_settled k d \<longleftrightarrow> (\<forall>t. map_of (tasks d) k = Some t \<longrightarrow> (\<forall>i \<in> set (ts_attemptIds t). attempt_settled d i))"

lemma record_writes_attempt_ids:
  assumes "record_writes J loose d d'" and "map_of (tasks d') k = Some t"
  shows "\<exists>u. map_of (tasks d) k = Some u \<and> ts_attemptIds u = ts_attemptIds t"
proof -
  have "wk_tasks (work_of d') k = wk_tasks (work_of d) k" using record_writes_work [OF assms(1)] by simp
  with assms(2) show ?thesis by (cases "map_of (tasks d) k") (auto simp: task_work_def)
qed

lemma task_settled_kept: "record_writes J loose d d' \<Longrightarrow> task_settled k d \<Longrightarrow> task_settled k d'"
  unfolding task_settled_def by (fastforce dest: record_writes_attempt_ids intro: settles_attempt_settled)

lemma cancel_open_task_settles:
  assumes "cancel_open_task J now c d k = Inr d'"
  shows "task_settled k d'"
proof (cases "map_of (tasks d) k")
  case None
  have "record_writes J True d d'" by (rule cancel_open_task_writes [OF assms])
  from record_writes_attempt_ids [OF this] None show ?thesis by (fastforce simp: task_settled_def)
next
  case (Some t)
  with assms obtain d1 where fold: "foldE (cancel_open_attempt J now c) d1 (ts_attemptIds t) = Inr d'"
    by (auto simp: cancel_open_task_def)
  have "record_writes J True d d'" by (rule cancel_open_task_writes [OF assms])
  from record_writes_attempt_ids [OF this, of k] Some
  have ids: "ts_attemptIds u = ts_attemptIds t" if "map_of (tasks d') k = Some u" for u using that by auto
  have "\<forall>i \<in> set (ts_attemptIds t). attempt_settled d' i"
    by (rule foldE_each [OF fold, where Q = "\<lambda>i d. attempt_settled d i"])
      (blast intro: cancel_open_attempt_settles settles_attempt_settled cancel_open_attempt_writes)+
  then show ?thesis by (auto simp: task_settled_def dest: ids)
qed

lemma cancel_work_settles:
  assumes "cancelOpenObjectiveWork J k now c d = Inr d'" and "map_of (objectives d) k = Some x" and "t \<in> set (os_taskIds x)"
  shows "task_settled t d'"
proof -
  from assms(1,2) have fold: "foldE (cancel_open_task J now c) d (os_taskIds x) = Inr d'"
    by (simp add: cancelOpenObjectiveWork_def)
  have "\<forall>t \<in> set (os_taskIds x). task_settled t d'"
    by (rule foldE_each [OF fold])
      (blast intro: cancel_open_task_settles task_settled_kept cancel_open_task_writes)+
  with assms(3) show ?thesis by blast
qed

lemma objective_closes:
  assumes "updateObjectiveStatus J k s now d = Inr d1" and s: "s \<in> {ObjCompleted, ObjCancelled}"
    and cancel: "cancelOpenObjectiveWork J k now c d1 = Inr d'"
  shows "work_step (work_of d) (work_of d')"
proof -
  from assms(1) obtain x where x: "map_of (objectives d) k = Some x"
    and p: "put_objective J k (x\<lparr>os_objective := (os_objective x)\<lparr>obj_status := s, obj_updatedAt := now\<rparr>\<rparr>) d = Inr d1"
    by (auto simp: updateObjectiveStatus_def lookup_objective_def)
  let ?y = "x\<lparr>os_objective := (os_objective x)\<lparr>obj_status := s, obj_updatedAt := now\<rparr>\<rparr>"
  note f = put_objective_fields [OF p]
  have y: "objective_work ?y = (objective_work x)\<lparr>wo_closed := True\<rparr>"
    using s by (simp add: objective_work_def objective_closed_def)
  note w = record_writes_work [OF cancelOpenObjectiveWork_writes [OF cancel]]
  have d1: "wk_objectives (work_of d1) = (wk_objectives (work_of d))(k \<mapsto> (objective_work x)\<lparr>wo_closed := True\<rparr>)"
    "wk_tasks (work_of d1) = wk_tasks (work_of d)" "wk_agents (work_of d1) = wk_agents (work_of d)"
    "wk_attempts (work_of d1) = wk_attempts (work_of d)"
    using f y by (auto simp: fun_eq_iff)
  have "work_of d' = (work_of d)\<lparr>wk_objectives := (wk_objectives (work_of d))(k \<mapsto> (objective_work x)\<lparr>wo_closed := True\<rparr>),
      wk_attempts := wk_attempts (work_of d')\<rparr>"
    using w d1 by (intro work.equality) auto
  moreover have "attempts_closed (wk_attempts (work_of d')) (wt_attempts v)"
    if "t \<in> set (wo_tasks (objective_work x))" "wk_tasks (work_of d) t = Some v" for t v
  proof -
    have "task_settled t d'"
      by (rule cancel_work_settles [OF cancel, of ?y]) (use f that(1) in \<open>auto simp: objective_work_def\<close>)
    moreover have "wk_tasks (work_of d') t = Some v" using w d1(2) that(2) by simp
    ultimately show ?thesis by (auto simp: attempts_closed_def task_settled_def attempt_settled_def task_work_def attempt_work_def)
  qed
  ultimately show ?thesis
    using work_close [of "work_of d" k "objective_work x" "wk_attempts (work_of d')"] x w d1(4) by simp
qed

section \<open>Creating work\<close>

lemma task_created_steps:
  assumes "applyTaskCreated J event task subs d = Inr d'"
  obtains x d1 d2 d3 where "map_of (objectives d) (task_objectiveId task) = Some x"
    and "validateTaskContractForState d task = Inr ()" and "map_of (tasks d) (task_taskId task) = None"
    and "put_task J (task_taskId task) \<lparr>ts_task = task, ts_attemptIds = [], ts_verification = None\<rparr> d = Inr d1"
    and "put_objective J (task_objectiveId task) (x\<lparr>os_taskIds := os_taskIds x @ [task_taskId task]\<rparr>) d1 = Inr d2"
    and "refreshReadyTasks J (task_objectiveId task) (eh_occurredAt event) d2 = Inr d3"
    and "d' = d3 \<or> (\<exists>inputs. replaceHostEventSubscriptions J (task_taskId task) inputs 0 (eh_ordinal event) d3 = Inr d')"
  using assms unfolding applyTaskCreated_def bindE_eq_Inr lookupE_eq_Inr require_eq_Inr
  by (elim exE conjE) (rule that, assumption, simp, assumption+, auto split: option.split_asm)

lemma validated_dependencies:
  assumes "validateTaskContractForState d task = Inr ()" and "k \<in> set (task_dependsOn task)"
  shows "k \<noteq> task_taskId task \<and> (\<exists>t. map_of (tasks d) k = Some t \<and> task_objectiveId (ts_task t) = task_objectiveId task)"
  using assms
  by (auto simp: validateTaskContractForState_def validate_dependency_def forE_eq_Inr split: option.split_asm)

lemma task_created_refines:
  assumes "applyTaskCreated J event task subs d = Inr d'" and keyed: "well_keyed d"
  shows "work_step\<^sup>*\<^sup>* (work_of d) (work_of d')" "well_keyed d'"
proof -
  obtain x d1 d2 d3 where x: "map_of (objectives d) (task_objectiveId task) = Some x"
    and valid: "validateTaskContractForState d task = Inr ()" and new: "map_of (tasks d) (task_taskId task) = None"
    and p1: "put_task J (task_taskId task) \<lparr>ts_task = task, ts_attemptIds = [], ts_verification = None\<rparr> d = Inr d1"
    and p2: "put_objective J (task_objectiveId task) (x\<lparr>os_taskIds := os_taskIds x @ [task_taskId task]\<rparr>) d1 = Inr d2"
    and r: "refreshReadyTasks J (task_objectiveId task) (eh_occurredAt event) d2 = Inr d3"
    and subs: "d' = d3 \<or> (\<exists>inputs. replaceHostEventSubscriptions J (task_taskId task) inputs 0 (eh_ordinal event) d3 = Inr d')"
    by (rule task_created_steps [OF assms(1)])
  let ?w = "work_of d" and ?y = "objective_work x"
  note f = put_task_fields [OF p1] put_objective_fields [OF p2]
  have "work_of d2 = ?w\<lparr>wk_tasks := (wk_tasks ?w)(task_taskId task \<mapsto>
        \<lparr>wt_objective = task_objectiveId task, wt_depends = task_dependsOn task, wt_attempts = []\<rparr>),
      wk_objectives := (wk_objectives ?w)(task_objectiveId task \<mapsto> ?y\<lparr>wo_tasks := wo_tasks ?y @ [task_taskId task]\<rparr>)\<rparr>"
    using f by (intro work_eqI) (simp_all add: task_work_def objective_work_def objective_closed_def)
  moreover have "k \<noteq> task_taskId task \<and> (\<exists>y. wk_tasks ?w k = Some y \<and> wt_objective y = task_objectiveId task)"
    if "k \<in> set (task_dependsOn task)" for k
    using validated_dependencies [OF valid that] by (auto simp: task_work_def)
  ultimately have one: "work_step ?w (work_of d2)"
    using work_task [of ?w "task_objectiveId task" ?y "task_taskId task" "task_dependsOn task"] x new by simp
  have k2: "well_keyed d2"
    using keyed_put_objective [OF p2 _ keyed_put_task [OF p1 _ keyed]] keyed_at(6) [OF keyed x] by simp
  note w3 = refreshReadyTasks_writes [OF r]
  have k3: "well_keyed d3" by (rule record_writes_keyed [OF w3 k2])
  from subs have w4: "record_writes J True d3 d'"
    using k3 by (auto intro: rw_none replaceHostEventSubscriptions_writes)
  from one record_writes_step [OF w3] record_writes_step [OF w4]
  show "work_step\<^sup>*\<^sup>* (work_of d) (work_of d')" by (meson r_into_rtranclp rtranclp.rtrancl_into_rtrancl)
  show "well_keyed d'" by (rule record_writes_keyed [OF w4 k3])
qed

lemma no_active_attempt:
  assumes "activeTaskAttempt d t = None" and "map_of (tasks d) k = Some t"
  shows "attempts_closed (wk_attempts (work_of d)) (ts_attemptIds t)"
  using assms(1)
  by (auto simp: activeTaskAttempt_def attempts_closed_def present_attempts_def find_None_iff attempt_work_def
      List.map_filter_def)

lemma attempts_closed_settles: "settles m n \<Longrightarrow> attempts_closed m ids \<Longrightarrow> attempts_closed n ids"
  unfolding attempts_closed_def by (metis settlesD(1))

lemma attempt_queued_refines:
  assumes "applyAttemptQueued J q now d = Inr d'" and keyed: "well_keyed d"
  shows "work_step\<^sup>*\<^sup>* (work_of d) (work_of d')"
proof -
  from applyAttemptQueued_steps [OF assms(1)] obtain t x d1 d2 s where
    t: "map_of (tasks d) (qa_taskId q) = Some t" and new: "map_of (attempts d) (qa_attemptId q) = None"
    and idle: "activeTaskAttempt d t = None" and x: "map_of (objectives d) (task_objectiveId (ts_task t)) = Some x"
    and active: "obj_status (os_objective x) = ObjActive"
    and pin: "pin_preceding_verification J (qa_taskId q) d = Inr d1"
    and p1: "put_attempt J (qa_attemptId q) (queued_attempt_state q now) d1 = Inr d2"
    and p2: "put_task J (qa_taskId q) ((with_task_status s now t)\<lparr>ts_attemptIds := ts_attemptIds t @ [qa_attemptId q]\<rparr>) d2 = Inr d'"
    by blast
  let ?w = "work_of d1" and ?y = "task_work t"
  note w = pin_preceding_writes [OF pin keyed]
  note f = put_attempt_fields [OF p1] put_task_fields [OF p2]
  have "work_of d' = ?w\<lparr>wk_tasks := (wk_tasks ?w)(qa_taskId q \<mapsto> ?y\<lparr>wt_attempts := wt_attempts ?y @ [qa_attemptId q]\<rparr>),
      wk_attempts := (wk_attempts ?w)(qa_attemptId q \<mapsto> \<lparr>at_task = qa_taskId q, at_open = True\<rparr>)\<rparr>"
    using f by (intro work_eqI) (simp_all add: task_work_def attempt_work_def queued_attempt_state_def with_task_status_def)
  moreover have "attempts_closed (wk_attempts ?w) (wt_attempts ?y)"
    using attempts_closed_settles [OF conjunct1 [OF record_writes_work [OF w(1)]] no_active_attempt [OF idle t]]
    by (simp add: task_work_def)
  moreover have "map_of (attempts d1) (qa_attemptId q) = None"
    using same_structure_absent [OF record_writes_structure [OF w(1)]] new by simp
  ultimately have "work_step ?w (work_of d')"
    using work_attempt [of ?w "qa_taskId q" ?y "qa_attemptId q" "objective_work x"] t x active w(2,3)
    by (simp add: task_work_def objective_work_def objective_closed_def)
  with record_writes_step [OF w(1)] show ?thesis by (meson r_into_rtranclp rtranclp.rtrancl_into_rtrancl)
qed

section \<open>Agents\<close>

lemma no_live_descendant:
  assumes "find_live_descendant m k gs = Inr None" and "g \<in> set gs" and "agent_agentId g \<noteq> k"
    and "agent_parentAgentId g = Some k" and "k \<noteq> []"
  shows "agent_status g = AgentRetired"
  using assms by (induction gs) (auto simp: isAgentDescendant_def split: if_split_asm)

lemma agent_registered_refines:
  assumes "apply_agent_registered J event g d = Inr d'"
  shows "work_step (work_of d) (work_of d')"
proof -
  let ?k = "agent_agentId g"
  from assms have new: "map_of (agents d) ?k = None" and born: "agent_status g = AgentRegistered"
    and lineage: "assertAgentLineage d g = Inr ()" and p: "put_agent J ?k g d = Inr d'"
    by (auto simp: apply_agent_registered_def Let_def)
  have "work_of d' = (work_of d)\<lparr>wk_agents := (wk_agents (work_of d))(?k \<mapsto> agent_work g)\<rparr>"
    using put_agent_fields [OF p] by (intro work_eqI) simp_all
  moreover have "rightful_lineage (work_of d) ?k (agent_work g)"
    using lineage by (cases "agent_parentAgentId g")
      (auto simp: rightful_lineage_def agent_work_def assertAgentLineage_def split: if_split_asm)
  ultimately show ?thesis using work_agent [of "work_of d" ?k "agent_work g"] new born by (simp add: agent_work_def)
qed

lemma agent_retired_refines:
  assumes "apply_agent_retired J event k d = Inr d'" and keyed: "well_keyed d"
  shows "work_step\<^sup>*\<^sup>* (work_of d) (work_of d')"
proof -
  from assms(1) obtain g where e: "assertAgentRetirementEligible d k = Inr g"
    and run: "(if agent_status g = AgentRetired then Inr d
      else put_agent J k (g\<lparr>agent_status := AgentRetired, agent_updatedAt := eh_occurredAt event\<rparr>) d) = Inr d'"
    by (auto simp: apply_agent_retired_def)
  show ?thesis
  proof (cases "agent_status g = AgentRetired")
    case False
    let ?h = "g\<lparr>agent_status := AgentRetired, agent_updatedAt := eh_occurredAt event\<rparr>"
    from run False have p: "put_agent J k ?h d = Inr d'" by simp
    note g = retirement_eligible_at [OF e]
    from e False have none: "find_live_descendant (agents d) k (js_values (agents d)) = Inr None"
      unfolding assertAgentRetirementEligible_def lookup_agent_def by (auto split: if_split_asm option.split_asm)
    have "work_of d' = (work_of d)\<lparr>wk_agents := (wk_agents (work_of d))(k \<mapsto> (agent_work g)\<lparr>ag_retired := True\<rparr>)\<rparr>"
      using put_agent_fields [OF p] by (intro work_eqI) (simp_all add: agent_work_def)
    moreover have "ag_retired v" if "wk_agents (work_of d) j = Some v" "j \<noteq> k" "truthy (ag_parent v)" "the (ag_parent v) = k" for j v
    proof -
      from that obtain u where u: "map_of (agents d) j = Some u" "v = agent_work u" by auto
      have "u \<in> set (js_values (agents d))" using u(1) by (force dest: map_of_SomeD)
      moreover have "agent_agentId u = j" by (rule keyed_at(5) [OF keyed u(1)])
      ultimately show ?thesis using no_live_descendant [OF none, of u] that u(2) by (cases "agent_parentAgentId u") (auto simp: agent_work_def)
    qed
    ultimately have "work_step (work_of d) (work_of d')"
      using work_retire [of "work_of d" k "agent_work g"] g by simp
    then show ?thesis by blast
  qed (use run in simp)
qed

section \<open>Every event\<close>

lemma record_writes_steps: "record_writes J loose d d' \<Longrightarrow> work_step\<^sup>*\<^sup>* (work_of d) (work_of d')"
  by (blast intro: record_writes_step)

lemma objective_event_refines:
  assumes "applyObjectiveEvent J event e d = Inr d'"
  shows "work_step\<^sup>*\<^sup>* (work_of d) (work_of d')"
proof (cases e)
  case (ObjectiveCreated ob)
  with assms have new: "map_of (objectives d) (obj_objectiveId ob) = None" and active: "obj_status ob = ObjActive"
    and p: "put_objective J (obj_objectiveId ob) \<lparr>os_objective = ob, os_taskIds = [], os_evidence = []\<rparr> d = Inr d'"
    by (auto simp: apply_objective_created_def Let_def)
  have "work_of d' = (work_of d)\<lparr>wk_objectives := (wk_objectives (work_of d))(obj_objectiveId ob \<mapsto>
      \<lparr>wo_tasks = [], wo_closed = False\<rparr>)\<rparr>"
    using put_objective_fields [OF p] active
    by (intro work_eqI) (simp_all add: objective_work_def objective_closed_def)
  with work_objective [of "work_of d" "obj_objectiveId ob"] new show ?thesis by auto
next
  case (ObjectiveUpdated ob)
  with assms show ?thesis by (auto intro: record_writes_steps objective_updated_writes)
next
  case (ObjectiveEvidenceRecorded ev)
  with assms show ?thesis by (auto intro: record_writes_steps objective_evidence_writes)
next
  case ObjectivePausedEvent
  with assms show ?thesis
    by (auto simp: apply_objective_paused_def intro: record_writes_steps objective_status_writes(2))
next
  case ObjectiveResumedEvent
  with assms obtain d1 where "assertObjectiveStatusTransition d (eh_aggregateId event) ObjActive None = Inr ()"
    "updateObjectiveStatus J (eh_aggregateId event) ObjActive (eh_occurredAt event) d = Inr d1"
    and r: "refreshReadyTasks J (eh_aggregateId event) (eh_occurredAt event) d1 = Inr d'"
    by (auto simp: apply_objective_resumed_def)
  from objective_status_writes(2) [OF this(1,2)] refreshReadyTasks_writes [OF r] show ?thesis
    by (auto intro: record_writes_steps record_trans)
next
  case (ObjectiveCompletedEvent policy)
  with assms show ?thesis by (auto simp: apply_objective_completed_def intro: objective_closes)
next
  case ObjectiveCancelledEvent
  with assms show ?thesis by (auto simp: apply_objective_cancelled_def intro: objective_closes)
qed

lemma task_event_refines:
  assumes "applyTaskEvent J event e d = Inr d'" and keyed: "well_keyed d"
  shows "work_step\<^sup>*\<^sup>* (work_of d) (work_of d')"
proof (cases e)
  case (TaskCreated t subs)
  with assms show ?thesis by (auto simp: apply_task_created_def intro: task_created_refines(1))
next
  case (TaskAttemptPrepared t subs q)
  with assms obtain d1 where one: "applyTaskCreated J event t subs d = Inr d1"
    and two: "applyAttemptQueued J q (eh_occurredAt event) d1 = Inr d'"
    by (auto simp: apply_task_attempt_prepared_def)
  from task_created_refines [OF one keyed] attempt_queued_refines [OF two] show ?thesis by (auto intro: rtranclp_trans)
next
  case (TaskReadied t)
  with assms have "record_writes J loose d d'"
    by (auto simp: apply_task_ready_def lookup_task_def intro!: write_one(3))
  then show ?thesis by (rule record_writes_steps)
next
  case (TaskFailedEvent t r)
  with assms have "record_writes J loose d d'"
    by (auto simp: apply_task_failed_def assertTaskFailureTransition_def lookup_task_def intro!: write_one(3))
  then show ?thesis by (rule record_writes_steps)
next
  case (TaskVerificationFinished v)
  with assms show ?thesis by (auto intro: record_writes_steps verification_finished_writes)
qed

lemma agent_event_refines:
  assumes "applyAgentEvent J event e d = Inr d'" and keyed: "well_keyed d"
  shows "work_step\<^sup>*\<^sup>* (work_of d) (work_of d')"
proof (cases e)
  case (AgentRegisteredEvent g)
  with assms agent_registered_refines show ?thesis by auto
next
  case (AgentRetiredEvent k)
  with assms agent_retired_refines show ?thesis by auto
next
  case (AgentResumeRequested k a)
  with assms obtain g where g: "map_of (agents d) k = Some g" "agent_status g \<noteq> AgentRetired"
    and run: "d' = d \<or> put_agent J k (g\<lparr>agent_status := AgentResuming, agent_updatedAt := eh_occurredAt event\<rparr>) d = Inr d'"
    by (auto simp: apply_agent_resume_requested_def lookup_agent_def split: if_split_asm)
  have "agent_moves g (g\<lparr>agent_status := AgentResuming, agent_updatedAt := eh_occurredAt event\<rparr>)"
    using g(2) by (simp add: agent_moves_def agent_identity_def)
  then have "record_writes J True d d'"
    if "put_agent J k (g\<lparr>agent_status := AgentResuming, agent_updatedAt := eh_occurredAt event\<rparr>) d = Inr d'"
    by (rule write_one(2) [OF that g(1)]) simp
  with run show ?thesis by (blast intro: record_writes_steps)
qed (use assms in \<open>auto simp: refuse_standalone_def\<close>)

lemma attempt_event_refines:
  assumes "applyAttemptEvent J event e d = Inr d'" and keyed: "well_keyed d"
  shows "work_step\<^sup>*\<^sup>* (work_of d) (work_of d')"
proof (cases e)
  case (AttemptQueuedEvent q)
  with assms show ?thesis by (auto simp: apply_attempt_queued_def intro: attempt_queued_refines)
qed (use assms in \<open>auto intro!: record_writes_steps intro: grant_bound_writes attempt_leased_writes attempt_started_writes
    lease_renewed_writes model_moved_writes third_party_writes attempt_checkpointed_writes usage_registered_writes
    usage_recorded_writes receipts_delivered_writes parent_write_recorded_writes parent_write_imported_writes
    usage_delivered_writes attempt_suspended_writes attempt_resumed_writes attempt_cancelled_writes
    managed_lifecycle_writes attempt_finished_writes lease_expired_writes\<close>)

lemma payload_refines:
  assumes "applyOrchestrationPayload J event e d = Inr d'" and keyed: "well_keyed d"
  shows "work_step\<^sup>*\<^sup>* (work_of d) (work_of d')"
proof (cases e)
  case (ApprovalPayload x)
  with assms show ?thesis
    by (cases x) (auto intro: record_writes_steps approval_requested_writes approval_resolved_writes)
next
  case (NotificationPayload x)
  with assms show ?thesis
    by (cases x) (auto intro: record_writes_steps notification_enqueued_writes notification_delivered_writes)
qed (use assms in \<open>auto intro: objective_event_refines task_event_refines agent_event_refines attempt_event_refines
    record_writes_steps applyHostSourceEvent_writes applyHostDeliveryEvent_writes\<close>)

lemma reduction_steps:
  assumes "reduceOrchestrationEvent J (p, c) event = Inr (q, c')" and "well_keyed p"
  shows "work_step\<^sup>*\<^sup>* (work_of p) (work_of q)"
  using assms(1)
proof (cases rule: reduce_cases)
  case (new bytes d b)
  from payload_refines [OF new(4)] assms(2) show ?thesis by (simp add: new(6))
qed simp

lemma empty_work_sound: "work_sound (work_of emptyProjection)"
  by (simp add: work_sound_def tasks_linked_def attempts_linked_def open_work_exclusive_def dependencies_sound_def
      lineage_sound_def depends_on_def emptyProjection_def acyclic_def)

lemma reached_sound:
  assumes "reached J s"
  shows "work_sound (work_of (fst s))"
  using assms
proof (rule reached_invariant [where P = "\<lambda>p. work_sound (work_of p)", OF _ empty_work_sound])
  fix p c e q c'
  assume "reached J (p, c)" "work_sound (work_of p)" "reduceOrchestrationEvent J (p, c) e = Inr (q, c')"
  then show "work_sound (work_of q)" using reached_keyed [of J "(p, c)"] by (auto intro: work_sound_steps reduction_steps)
qed

section \<open>Properties\<close>

text \<open>
  C1: refinement: every accepted event of the ledger, whichever of the reducer's handlers it runs, is a run
  of the abstract work machine between the abstractions of the projections before and after it.
\<close>

theorem reduction_refines_work:
  assumes "reached J (p, c)" and "reduceOrchestrationEvent J (p, c) event = Inr (q, c')"
  shows "work_step\<^sup>*\<^sup>* (work_of p) (work_of q)"
  using reduction_steps [OF assms(2)] reached_keyed [OF assms(1)] by simp

theorem reduction_refines_work_witness:
  "\<exists>p c q c'. projectOrchestrationEvents sample_env (take 16 sample_log) = Inr (p, c) \<and>
     reduceOrchestrationEvent sample_env (p, c) (sample_log ! 16) = Inr (q, c') \<and>
     work_step\<^sup>*\<^sup>* (work_of p) (work_of q)"
proof -
  obtain p c q c' where run: "projectOrchestrationEvents sample_env (take 16 sample_log) = Inr (p, c)"
    "reduceOrchestrationEvent sample_env (p, c) (sample_log ! 16) = Inr (q, c')"
    by (rule sample_finished_step)
  from run reduction_refines_work [OF reached_project [OF run(1)] run(2)] show ?thesis by blast
qed

text \<open>
  C18: in every reached projection a task lists exactly its own attempts and an objective exactly its own
  tasks, each once; every task belongs to an objective and every attempt to a task that are present.
\<close>

theorem reached_work_linked:
  assumes "reached J s"
  shows "tasks_linked (work_of (fst s)) \<and> attempts_linked (work_of (fst s))"
  using reached_sound [OF assms] by (simp add: work_sound_def)

theorem reached_work_linked_witness:
  "\<exists>s. projectOrchestrationEvents sample_env sample_log = Inr s \<and> lastOrdinal (fst s) = 17 \<and>
     tasks_linked (work_of (fst s)) \<and> attempts_linked (work_of (fst s))"
proof -
  obtain p c where run: "projectOrchestrationEvents sample_env sample_log = Inr (p, c)" "lastOrdinal p = 17"
    by (rule sample_finishedE) (rule that)
  with reached_work_linked [OF reached_project [OF run(1)]] show ?thesis by (intro exI [of _ "(p, c)"]) simp
qed

text \<open>
  C8: two attempts of one task are never open at the same time: at most one generation of a task is queued,
  leased, running or suspended in any reached projection.
\<close>

theorem single_open_attempt:
  assumes "reached J s" and "map_of (attempts (fst s)) i = Some a" and "map_of (attempts (fst s)) j = Some b"
    and "att_taskId a = att_taskId b"
    and "\<not> terminalAttemptStatus (att_status a)" and "\<not> terminalAttemptStatus (att_status b)"
  shows "i = j"
proof -
  have "open_work_exclusive (work_of (fst s))" using reached_sound [OF assms(1)] by (simp add: work_sound_def)
  from open_work_exclusiveD(1) [OF this, of i "attempt_work a" j "attempt_work b"] assms(2-)
  show ?thesis by (simp add: attempt_work_def)
qed

theorem single_open_attempt_witness:
  "\<exists>s a. projectOrchestrationEvents sample_env (take 10 sample_log) = Inr s \<and>
     map_of (attempts (fst s)) ''a'' = Some a \<and> \<not> terminalAttemptStatus (att_status a) \<and>
     {j. \<exists>b. map_of (attempts (fst s)) j = Some b \<and> att_taskId b = att_taskId a \<and>
        \<not> terminalAttemptStatus (att_status b)} = {''a''}"
proof -
  obtain p c a where run: "projectOrchestrationEvents sample_env (take 10 sample_log) = Inr (p, c)"
    and a: "map_of (attempts p) ''a'' = Some a" "att_status a = AttRunning"
    by (rule sample_runningE) (rule that)
  have only: "j = ''a''" if "map_of (attempts p) j = Some b" "att_taskId b = att_taskId a" "\<not> terminalAttemptStatus (att_status b)" for j b
    using single_open_attempt [OF reached_project [OF run], of j b "''a''" a] that a by simp
  have "{j. \<exists>b. map_of (attempts p) j = Some b \<and> att_taskId b = att_taskId a \<and>
        \<not> terminalAttemptStatus (att_status b)} = {''a''}"
  proof (intro set_eqI iffI)
    fix j assume "j \<in> {''a''}"
    then show "j \<in> {j. \<exists>b. map_of (attempts p) j = Some b \<and> att_taskId b = att_taskId a \<and>
        \<not> terminalAttemptStatus (att_status b)}" using a by simp
  qed (use only in blast)
  with run a show ?thesis by (intro exI [of _ "(p, c)"] exI [of _ a]) simp
qed

text \<open>
  C7: once an objective is completed or cancelled no attempt of any of its tasks is open, in that projection
  and in every later one: its open work was cancelled with it and none can be queued again.
\<close>

theorem closed_objective_has_no_open_attempt:
  assumes "reached J s" and "map_of (attempts (fst s)) i = Some a"
    and "map_of (tasks (fst s)) (att_taskId a) = Some t"
    and "map_of (objectives (fst s)) (task_objectiveId (ts_task t)) = Some x"
    and "obj_status (os_objective x) \<in> {ObjCompleted, ObjCancelled}"
  shows "terminalAttemptStatus (att_status a)"
proof -
  have "open_work_exclusive (work_of (fst s))" using reached_sound [OF assms(1)] by (simp add: work_sound_def)
  from open_work_exclusiveD(2) [OF this, of i "attempt_work a" "task_work t" "objective_work x"] assms(2-)
  show ?thesis by (simp add: attempt_work_def task_work_def objective_work_def objective_closed_def)
qed

theorem closed_objective_has_no_open_attempt_witness:
  "\<exists>s a t x. projectOrchestrationEvents sample_env sample_log = Inr s \<and> map_of (attempts (fst s)) ''a'' = Some a \<and>
     map_of (tasks (fst s)) ''t'' = Some t \<and> map_of (objectives (fst s)) ''o'' = Some x \<and>
     obj_status (os_objective x) = ObjCompleted \<and> terminalAttemptStatus (att_status a)"
proof -
  obtain p c a t x where run: "projectOrchestrationEvents sample_env sample_log = Inr (p, c)"
    and a: "map_of (attempts p) ''a'' = Some a" "att_taskId a = ''t''"
    and t: "map_of (tasks p) ''t'' = Some t" "task_objectiveId (ts_task t) = ''o''"
    and x: "map_of (objectives p) ''o'' = Some x" "obj_status (os_objective x) = ObjCompleted"
    by (rule sample_finishedE) (rule that)
  have "terminalAttemptStatus (att_status a)"
    by (rule closed_objective_has_no_open_attempt [OF reached_project [OF run], of "''a''" a t x])
      (use a t x in simp_all)
  with run a(1) t(1) x show ?thesis
    by (intro exI [of _ "(p, c)"] exI [of _ a] exI [of _ t] exI [of _ x]) simp
qed

lemma depends_on_rel: "depends_on (work_of p) = depends_rel (tasks p)"
proof (intro set_eqI)
  fix e :: "string \<times> string"
  show "e \<in> depends_on (work_of p) \<longleftrightarrow> e \<in> depends_rel (tasks p)"
    by (cases e; cases "map_of (tasks p) (fst e)")
      (auto simp: depends_on_def depends_rel_def task_deps_def task_work_def)
qed

text \<open>
  C19: the dependency graph of every reached projection is acyclic, and every dependency of a task is a task
  that is present and of the same objective, so readiness can always be computed.
\<close>

theorem dependency_graph_acyclic:
  assumes "reached J s"
  shows "acyclic (depends_rel (tasks (fst s))) \<and>
    (\<forall>k t d. map_of (tasks (fst s)) k = Some t \<and> d \<in> set (task_dependsOn (ts_task t)) \<longrightarrow>
       (\<exists>u. map_of (tasks (fst s)) d = Some u \<and> task_objectiveId (ts_task u) = task_objectiveId (ts_task t)))"
proof -
  have "dependencies_sound (work_of (fst s))" using reached_sound [OF assms] by (simp add: work_sound_def)
  then have acyc: "acyclic (depends_on (work_of (fst s)))"
    and known: "\<And>k y d. wk_tasks (work_of (fst s)) k = Some y \<Longrightarrow> d \<in> set (wt_depends y) \<Longrightarrow>
      \<exists>z. wk_tasks (work_of (fst s)) d = Some z \<and> wt_objective z = wt_objective y"
    unfolding dependencies_sound_def by blast+
  have "\<exists>u. map_of (tasks (fst s)) d = Some u \<and> task_objectiveId (ts_task u) = task_objectiveId (ts_task t)"
    if "map_of (tasks (fst s)) k = Some t" "d \<in> set (task_dependsOn (ts_task t))" for k t d
    using known [of k "task_work t" d] that by (auto simp: task_work_def)
  with acyc show ?thesis unfolding depends_on_rel by blast
qed

theorem dependency_graph_acyclic_witness:
  "\<exists>s. projectOrchestrationEvents sample_env sample_log = Inr s \<and> map_of (tasks (fst s)) ''t'' \<noteq> None \<and>
     acyclic (depends_rel (tasks (fst s)))"
proof -
  obtain p c t where run: "projectOrchestrationEvents sample_env sample_log = Inr (p, c)"
    "map_of (tasks p) ''t'' = Some t" by (rule sample_finishedE) (rule that)
  with dependency_graph_acyclic [OF reached_project [OF run(1)]] show ?thesis by (intro exI [of _ "(p, c)"]) simp
qed

section \<open>Lineage\<close>

definition parent_rel :: "AgentBindingContract js_record \<Rightarrow> (string \<times> string) set" where
  "parent_rel m = {(k, p). agent_parent m k = Some p \<and> p \<noteq> []}"

lemma agent_descends_exact:
  assumes sound: "lineage_sound (work_of p)"
    and "map_of (agents p) x = Some g" and "agent_depth g = n"
    and "\<And>v. v \<in> set visited \<Longrightarrow> \<exists>h. map_of (agents p) v = Some h \<and> n \<le> agent_depth h"
  shows "agent_descends (agents p) c a visited (agent_parent (agents p) x) = Inr ((x, a) \<in> (parent_rel (agents p))\<^sup>+)"
  using assms(2-)
proof (induction n arbitrary: x g visited rule: less_induct)
  case (less n)
  note g = less.prems(1)
  have par: "agent_parent (agents p) x = agent_parentAgentId g" using g by (simp add: agent_parent_def)
  have one: "(x, a) \<in> (parent_rel (agents p))\<^sup>+ \<longleftrightarrow>
      (\<exists>y. agent_parentAgentId g = Some y \<and> y \<noteq> [] \<and> (y = a \<or> (y, a) \<in> (parent_rel (agents p))\<^sup>+))"
    by (subst trancl_unfold_left) (auto simp: parent_rel_def par relcomp_unfold rtrancl_eq_or_trancl)
  show ?case
  proof (cases "truthy (agent_parentAgentId g)")
    case False
    then show ?thesis using one par by (cases "agent_parentAgentId g") (auto simp: truthy_def)
  next
    case True
    then obtain y where y: "agent_parentAgentId g = Some y" "y \<noteq> []" by (auto dest: truthyD)
    with lineage_soundD [OF sound, of x "agent_work g"] g
    obtain h where h: "map_of (agents p) y = Some h" "agent_depth g = agent_depth h + 1"
      by (auto simp: agent_work_def split: if_split_asm)
    have "y \<notin> set visited" using less.prems(2,3) h by fastforce
    moreover have "agent_descends (agents p) c a (y # visited) (agent_parent (agents p) y) =
        Inr ((y, a) \<in> (parent_rel (agents p))\<^sup>+)"
    proof (rule less.IH [of "agent_depth h"])
      show "\<exists>h'. map_of (agents p) v = Some h' \<and> agent_depth h \<le> agent_depth h'" if "v \<in> set (y # visited)" for v
        using that less.prems(2,3) h by fastforce
    qed (use h less.prems(2) in auto)
    ultimately show ?thesis using y one par by auto
  qed
qed

text \<open>
  C22: in every reached projection the lineage walk that guards retirement terminates without ever meeting a
  cycle, and answers exactly whether the agent descends from the other along parent links.
\<close>

theorem lineage_walk_exact:
  assumes "reached J s" and "map_of (agents (fst s)) k = Some g"
  shows "isAgentDescendant (agents (fst s)) g a = Inr ((k, a) \<in> (parent_rel (agents (fst s)))\<^sup>+)"
proof -
  have "lineage_sound (work_of (fst s))" using reached_sound [OF assms(1)] by (simp add: work_sound_def)
  from agent_descends_exact [OF this assms(2) refl, of "[]" "agent_agentId g" a] assms(2)
  show ?thesis by (simp add: isAgentDescendant_def agent_parent_def)
qed

theorem lineage_walk_exact_witness:
  "\<exists>s g. projectOrchestrationEvents sample_env sample_log = Inr s \<and> map_of (agents (fst s)) ''g'' = Some g \<and>
     isAgentDescendant (agents (fst s)) g ''h'' = Inr ((''g'', ''h'') \<in> (parent_rel (agents (fst s)))\<^sup>+)"
proof -
  obtain p c g where run: "projectOrchestrationEvents sample_env sample_log = Inr (p, c)"
    and g: "map_of (agents p) ''g'' = Some g" by (rule sample_finishedE) (rule that)
  from lineage_walk_exact [OF reached_project [OF run], of "''g''" g "''h''"] run g
  show ?thesis by (intro exI [of _ "(p, c)"] exI [of _ g]) simp
qed

text \<open>
  C21: retirement is closed under descent: in every reached projection every descendant of a retired agent
  is retired as well.
\<close>

theorem retired_agents_have_no_live_descendants:
  assumes "reached J s" and "(j, k) \<in> (parent_rel (agents (fst s)))\<^sup>+"
    and "map_of (agents (fst s)) k = Some g" and "agent_status g = AgentRetired"
    and "map_of (agents (fst s)) j = Some h"
  shows "agent_status h = AgentRetired"
proof -
  have sound: "lineage_sound (work_of (fst s))" using reached_sound [OF assms(1)] by (simp add: work_sound_def)
  have up: "\<exists>u. map_of (agents (fst s)) y = Some u \<and> (agent_status u = AgentRetired \<longrightarrow> agent_status v = AgentRetired)"
    if "(x, y) \<in> parent_rel (agents (fst s))" "map_of (agents (fst s)) x = Some v" for x y v
    using lineage_soundD [OF sound, of x "agent_work v"] that
    by (auto simp: parent_rel_def agent_parent_def agent_work_def split: if_split_asm)
  from assms(2,5) have "\<exists>u. map_of (agents (fst s)) k = Some u \<and> (agent_status u = AgentRetired \<longrightarrow> agent_status h = AgentRetired)"
  proof (induction rule: trancl_induct)
    case (base y)
    then show ?case using up by blast
  next
    case (step y z)
    then obtain u where "map_of (agents (fst s)) y = Some u" "agent_status u = AgentRetired \<longrightarrow> agent_status h = AgentRetired" by blast
    with up [OF step.hyps(2)] show ?case by blast
  qed
  with assms(3,4) show ?thesis by auto
qed

theorem retired_agents_have_no_live_descendants_witness:
  "\<exists>s g h. projectOrchestrationEvents sample_env family_log = Inr s \<and> map_of (agents (fst s)) ''g'' = Some g \<and>
     map_of (agents (fst s)) ''h'' = Some h \<and> (''h'', ''g'') \<in> (parent_rel (agents (fst s)))\<^sup>+ \<and>
     agent_status g = AgentRetired \<and> agent_status h = AgentRetired"
proof -
  obtain p c g h where run: "projectOrchestrationEvents sample_env family_log = Inr (p, c)"
    and g: "map_of (agents p) ''g'' = Some g" "agent_status g = AgentRetired"
    and h: "map_of (agents p) ''h'' = Some h" "agent_parentAgentId h = Some ''g''"
    by (rule family_retiredE) (rule that)
  have path: "(''h'', ''g'') \<in> (parent_rel (agents p))\<^sup>+"
    by (rule r_into_trancl) (simp add: parent_rel_def agent_parent_def h)
  have "agent_status h = AgentRetired"
    by (rule retired_agents_have_no_live_descendants [OF reached_project [OF run], of "''h''" "''g''" g h])
      (use path g h in simp_all)
  with run g h(1) path show ?thesis by (intro exI [of _ "(p, c)"] exI [of _ g] exI [of _ h]) simp
qed

end
