(* ===== verification/Agent_Binding.thy ===== *)
theory Agent_Binding
  imports Ledger_Properties
begin

text \<open>
  An agent executes at most one attempt. While an attempt is leased, running or suspended under an agent,
  that agent's record names it as its active attempt; the writes that are not \<open>loose\<close> can only dissolve
  such a binding, and the five handlers that bind or release an agent are shown to respect it.
\<close>

section \<open>The invariant\<close>

definition bindings_ok :: "'a TaskRuntimeProjection_scheme \<Rightarrow> bool" where
  "bindings_ok p \<longleftrightarrow> (\<forall>k a. map_of (attempts p) k = Some a \<longrightarrow>
     (att_status a = AttQueued \<longrightarrow> \<not> truthy (att_agentId a)) \<and>
     (\<forall>g. bound_agent a = Some g \<longrightarrow>
        (\<exists>h. map_of (agents p) g = Some h \<and> agent_activeAttemptId h = Some k \<and>
           agent_status h \<noteq> AgentRegistered \<and> agent_status h \<noteq> AgentRetired)))"

lemma bindings_okD:
  assumes "bindings_ok p" and "map_of (attempts p) k = Some a"
  shows "att_status a = AttQueued \<Longrightarrow> \<not> truthy (att_agentId a)"
    "bound_agent a = Some g \<Longrightarrow> \<exists>h. map_of (agents p) g = Some h \<and> agent_activeAttemptId h = Some k \<and>
       agent_status h \<noteq> AgentRegistered \<and> agent_status h \<noteq> AgentRetired"
  using assms unfolding bindings_ok_def by blast+

lemma bindings_okI:
  assumes "\<And>k a. map_of (attempts p) k = Some a \<Longrightarrow> att_status a = AttQueued \<Longrightarrow> \<not> truthy (att_agentId a)"
    and "\<And>k a g. map_of (attempts p) k = Some a \<Longrightarrow> bound_agent a = Some g \<Longrightarrow>
      \<exists>h. map_of (agents p) g = Some h \<and> agent_activeAttemptId h = Some k \<and>
        agent_status h \<noteq> AgentRegistered \<and> agent_status h \<noteq> AgentRetired"
  shows "bindings_ok p"
  using assms unfolding bindings_ok_def by blast

lemma bound_exclusive:
  assumes "bindings_ok p" and "map_of (attempts p) i = Some a" and "map_of (attempts p) j = Some b"
    and "bound_agent a = Some g" and "bound_agent b = Some g"
  shows "i = j"
  using bindings_okD(2) [OF assms(1,2,4)] bindings_okD(2) [OF assms(1,3,5)] by auto

text \<open>What a sequence of neutral writes may change of the bindings.\<close>

definition binds_less :: "'a TaskRuntimeProjection_scheme \<Rightarrow> 'b TaskRuntimeProjection_scheme \<Rightarrow> bool" where
  "binds_less p q \<longleftrightarrow>
     (\<forall>k b. map_of (attempts q) k = Some b \<longrightarrow>
        (att_status b = AttQueued \<longrightarrow> \<not> truthy (att_agentId b) \<or>
           (\<exists>a. map_of (attempts p) k = Some a \<and> att_status a = AttQueued \<and> att_agentId a = att_agentId b)) \<and>
        (\<forall>g. bound_agent b = Some g \<longrightarrow> (\<exists>a. map_of (attempts p) k = Some a \<and> bound_agent a = Some g))) \<and>
     (\<forall>g h. map_of (agents p) g = Some h \<longrightarrow> agent_status h \<noteq> AgentRegistered \<longrightarrow> agent_status h \<noteq> AgentRetired \<longrightarrow>
        (\<exists>h'. map_of (agents q) g = Some h' \<and> agent_activeAttemptId h' = agent_activeAttemptId h \<and>
           agent_status h' \<noteq> AgentRegistered \<and> agent_status h' \<noteq> AgentRetired))"

lemma binds_lessD:
  assumes "binds_less p q" and "map_of (attempts q) k = Some b" and "bound_agent b = Some g"
  shows "\<exists>a. map_of (attempts p) k = Some a \<and> bound_agent a = Some g"
  using assms unfolding binds_less_def by blast

lemma binds_less_queuedD:
  assumes "binds_less p q" and "map_of (attempts q) k = Some b" and "att_status b = AttQueued" and "truthy (att_agentId b)"
  shows "\<exists>a. map_of (attempts p) k = Some a \<and> att_status a = AttQueued \<and> att_agentId a = att_agentId b"
  using assms unfolding binds_less_def by blast

lemma binds_less_agentD:
  assumes "binds_less p q" and "map_of (agents p) g = Some h"
    and "agent_status h \<noteq> AgentRegistered" and "agent_status h \<noteq> AgentRetired"
  shows "\<exists>h'. map_of (agents q) g = Some h' \<and> agent_activeAttemptId h' = agent_activeAttemptId h \<and>
     agent_status h' \<noteq> AgentRegistered \<and> agent_status h' \<noteq> AgentRetired"
  using assms unfolding binds_less_def by blast

lemma binds_less_trans:
  assumes pq: "binds_less p q" and qr: "binds_less q r"
  shows "binds_less p r"
  unfolding binds_less_def
proof (intro conjI allI impI)
  fix k b assume b: "map_of (attempts r) k = Some b"
  show "\<not> truthy (att_agentId b) \<or>
      (\<exists>a. map_of (attempts p) k = Some a \<and> att_status a = AttQueued \<and> att_agentId a = att_agentId b)"
    if "att_status b = AttQueued"
  proof (cases "truthy (att_agentId b)")
    case True
    from binds_less_queuedD [OF qr b that True] obtain c where c: "map_of (attempts q) k = Some c"
      "att_status c = AttQueued" "att_agentId c = att_agentId b" by blast
    with True binds_less_queuedD [OF pq c(1,2)] show ?thesis by simp
  qed simp
  fix g assume "bound_agent b = Some g"
  from binds_lessD [OF qr b this] obtain c where "map_of (attempts q) k = Some c" "bound_agent c = Some g" by blast
  then show "\<exists>a. map_of (attempts p) k = Some a \<and> bound_agent a = Some g" by (rule binds_lessD [OF pq])
next
  fix g h assume h: "map_of (agents p) g = Some h" "agent_status h \<noteq> AgentRegistered" "agent_status h \<noteq> AgentRetired"
  from binds_less_agentD [OF pq h] obtain i where i: "map_of (agents q) g = Some i" "agent_status i \<noteq> AgentRegistered"
    "agent_status i \<noteq> AgentRetired" and eq: "agent_activeAttemptId i = agent_activeAttemptId h" by blast
  from binds_less_agentD [OF qr i] eq show "\<exists>h'. map_of (agents r) g = Some h' \<and>
      agent_activeAttemptId h' = agent_activeAttemptId h \<and>
      agent_status h' \<noteq> AgentRegistered \<and> agent_status h' \<noteq> AgentRetired" by simp
qed

lemma binds_less_refl: "binds_less p p"
  by (auto simp: binds_less_def)

lemma binds_less_ok:
  assumes "binds_less p q" and "bindings_ok p"
  shows "bindings_ok q"
proof (rule bindings_okI)
  fix k b assume b: "map_of (attempts q) k = Some b"
  show "\<not> truthy (att_agentId b)" if "att_status b = AttQueued"
    using assms b that bindings_okD(1) [OF assms(2), of k] unfolding binds_less_def by metis
  fix g assume "bound_agent b = Some g"
  with assms(1) b obtain a where "map_of (attempts p) k = Some a" "bound_agent a = Some g"
    unfolding binds_less_def by blast
  from bindings_okD(2) [OF assms(2) this] assms(1) show "\<exists>h. map_of (agents q) g = Some h \<and>
      agent_activeAttemptId h = Some k \<and> agent_status h \<noteq> AgentRegistered \<and> agent_status h \<noteq> AgentRetired"
    unfolding binds_less_def by fastforce
qed

lemma record_step_binds:
  assumes "record_step J False d d'"
  shows "binds_less d d'"
  using assms
proof cases
  case (rec_attempt k a b)
  have "att_status b = AttQueued \<Longrightarrow> att_status a = AttQueued"
    using rec_attempt(2) by (cases "att_status a") (auto simp: attempt_moves_def)
  with rec_attempt(1,3) put_attempt_fields [OF rec_attempt(4)] show ?thesis
    by (auto simp: binds_less_def binding_kept_def split: if_split_asm)
next
  case (rec_agent k g h)
  with put_agent_fields [OF rec_agent(4)] show ?thesis
    by (auto simp: binds_less_def occupancy_kept_def agent_moves_def)
qed (auto simp: binds_less_def dest!: write_fields)

lemma structural_step_binds:
  assumes "structural_step J False d d'"
  shows "binds_less d d'"
  using assms
proof cases
  case str_record
  then show ?thesis by (rule record_step_binds)
next
  case (str_attempt k a)
  with put_attempt_fields [OF str_attempt(3)] show ?thesis
    by (auto simp: binds_less_def attempt_born_def queued_attempt_state_def bound_agent_def)
next
  case (str_agent k g)
  with put_agent_fields [OF str_agent(3)] show ?thesis by (auto simp: binds_less_def)
next
  case (str_agent_retire k g h)
  with put_agent_fields [OF str_agent_retire(3)] show ?thesis by (auto simp: binds_less_def agent_retires_def)
qed (auto simp: binds_less_def dest!: write_fields)

lemma structural_writes_ok:
  assumes "structural_writes J False d d'" and "bindings_ok d"
  shows "bindings_ok d'"
  using assms
  by (induction rule: structural_writes.induct) (auto dest: structural_step_binds binds_less_ok)

lemma record_writes_ok: "record_writes J False d d' \<Longrightarrow> bindings_ok d \<Longrightarrow> bindings_ok d'"
  by (rule structural_writes_ok [OF record_structural])

section \<open>Releasing an agent\<close>

text \<open>An attempt that has just ended releases its agent; no other attempt was bound to it.\<close>

lemma release_ok:
  assumes run: "releaseAttemptAgent J a now d = Inr d'" and ok: "bindings_ok d"
    and free: "\<And>k b. map_of (attempts d) k = Some b \<Longrightarrow> truthy (att_agentId a) \<Longrightarrow> bound_agent b \<noteq> att_agentId a"
  shows "bindings_ok d'"
proof (cases "truthy (att_agentId a) \<and> map_of (agents d) (the (att_agentId a)) \<noteq> None")
  case False
  with run have "d' = d" by (cases "att_agentId a") (auto simp: releaseAttemptAgent_def truthy_def split: if_split_asm)
  with ok show ?thesis by simp
next
  case True
  then obtain g h where g: "att_agentId a = Some g" "g \<noteq> []" and h: "map_of (agents d) g = Some h"
    by (cases "att_agentId a") (auto simp: truthy_def)
  with run obtain h' where "put_agent J g h' d = Inr d'" by (auto simp: releaseAttemptAgent_def)
  note f = put_agent_fields [OF this]
  show ?thesis
  proof (rule bindings_okI)
    fix k b assume b: "map_of (attempts d') k = Some b"
    then have b': "map_of (attempts d) k = Some b" using f by simp
    show "\<not> truthy (att_agentId b)" if "att_status b = AttQueued" by (rule bindings_okD(1) [OF ok b' that])
    fix x assume x: "bound_agent b = Some x"
    with free [OF b'] True g have "x \<noteq> g" by auto
    with bindings_okD(2) [OF ok b' x] f show "\<exists>h. map_of (agents d') x = Some h \<and>
        agent_activeAttemptId h = Some k \<and> agent_status h \<noteq> AgentRegistered \<and> agent_status h \<noteq> AgentRetired" by auto
  qed
qed

lemma put_ended_binds:
  assumes "put_attempt J k b d = Inr d1" and "bound_agent b = None" "att_status b \<noteq> AttQueued"
  shows "binds_less d d1"
  using put_attempt_fields [OF assms(1)] assms(2,3) by (simp add: binds_less_def)

text \<open>Ending an open attempt: it takes a terminal status, and after neutral writes its agent is released.\<close>

lemma end_and_release_ok:
  assumes ok: "bindings_ok d" and a: "map_of (attempts d) k = Some a" "\<not> terminalAttemptStatus (att_status a)"
    and p: "put_attempt J k b d = Inr d1" and b: "terminalAttemptStatus (att_status b)"
    and w: "record_writes J False d1 d2" and r: "releaseAttemptAgent J a now d2 = Inr d'"
  shows "bindings_ok d'"
proof -
  have ended: "bound_agent b = None" "att_status b \<noteq> AttQueued"
    using b by (cases "att_status b"; simp add: bound_agent_def)+
  note f = put_attempt_fields [OF p]
  have less: "binds_less d d1"
    by (rule put_ended_binds [OF p ended])
  have ok1: "bindings_ok d1" by (rule binds_less_ok [OF less ok])
  have ok2: "bindings_ok d2" by (rule record_writes_ok [OF w ok1])
  have keep: "binds_less d1 d2"
    using w
  proof (induction rule: record_writes.induct)
    case (rw_more d1 d2 d3)
    have "binds_less d2 d3" by (rule record_step_binds [OF rw_more.hyps(2)])
    with rw_more.IH show ?case by (rule binds_less_trans)
  qed (rule binds_less_refl)
  show ?thesis
  proof (rule release_ok [OF r ok2])
    fix i c assume c: "map_of (attempts d2) i = Some c" and t: "truthy (att_agentId a)"
    show "bound_agent c \<noteq> att_agentId a"
    proof
      assume same: "bound_agent c = att_agentId a"
      from t obtain g where g: "att_agentId a = Some g" by (cases "att_agentId a") (auto simp: truthy_def)
      have "bound_agent c = Some g" using same g by simp
      from binds_lessD [OF keep c this] obtain c1 where c1: "map_of (attempts d1) i = Some c1" "bound_agent c1 = Some g"
        by blast
      have ik: "i \<noteq> k"
      proof
        assume "i = k"
        with c1(1) f have "c1 = b" by simp
        with c1(2) ended show False by simp
      qed
      with c1 f have "map_of (attempts d) i = Some c1" by simp
      moreover have "bound_agent a = Some g"
        using bindings_okD(1) [OF ok a(1)] a(2) t g by (cases "att_status a") (auto simp: bound_agent_def)
      ultimately show False using bound_exclusive [OF ok _ a(1) c1(2)] ik by blast
    qed
  qed
qed

section \<open>Handlers that bind or release\<close>

lemma attempt_leased_ok:
  assumes "apply_attempt_leased J event lease agentId d = Inr d'" and ok: "bindings_ok d"
  shows "bindings_ok d'"
proof -
  let ?k = "lease_attemptId lease" and ?now = "eh_occurredAt event"
  let ?b = "\<lambda>a. a\<lparr>att_status := AttLeased, att_lease := Some lease,
         att_agentId := (if truthy agentId then agentId else att_agentId a),
         att_executionStartedAt := (case att_executionStartedAt a of Some t \<Rightarrow> Some t | None \<Rightarrow> Some ?now),
         att_updatedAt := ?now\<rparr>"
  from attempt_leased_steps [OF assms(1)] obtain a t d1 d2 where
    at: "assertAttemptLeaseTransition d (eh_aggregateId event) lease agentId ?now = Inr a"
    and g: "if truthy agentId
     then \<exists>g. map_of (agents d) (the agentId) = Some g \<and> agent_status g = AgentRegistered \<and>
       put_agent J (the agentId) (g\<lparr>agent_status := AgentActive,
         agent_activeAttemptId := Some ?k, agent_updatedAt := ?now\<rparr>) d = Inr d1
     else d1 = d"
    and p: "put_attempt J ?k (?b a) d1 = Inr d2"
    and q: "put_task J (att_taskId a) (with_task_status TaskRunning ?now t) d2 = Inr d'"
    by blast
  note a = lease_transition_at(1,2) [OF at]
  have unbound: "bound_agent c \<noteq> agentId" if "truthy agentId" "map_of (attempts d) i = Some c" for i c
    using g that bindings_okD(2) [OF ok that(2)] by (cases agentId) (auto simp: truthy_def)
  have free: "\<not> truthy (att_agentId a)" by (rule bindings_okD(1) [OF ok a])
  note f2 = put_attempt_fields [OF p] and f3 = put_task_fields [OF q]
  have attempts: "attempts d1 = attempts d" using g by (auto dest!: put_agent_fields split: if_split_asm)
  show ?thesis
  proof (rule bindings_okI)
    fix i c assume c: "map_of (attempts d') i = Some c"
    show "\<not> truthy (att_agentId c)" if "att_status c = AttQueued"
      using c that f2 f3 attempts bindings_okD(1) [OF ok, of i c] by (auto split: if_split_asm)
    fix x assume x: "bound_agent c = Some x"
    show "\<exists>h. map_of (agents d') x = Some h \<and> agent_activeAttemptId h = Some i \<and>
        agent_status h \<noteq> AgentRegistered \<and> agent_status h \<noteq> AgentRetired"
    proof (cases "i = ?k")
      case True
      with c f2 f3 have "c = ?b a" by simp
      with x free have "truthy agentId" "x = the agentId" by (auto simp: bound_agent_def split: if_split_asm)
      with g True f2 f3 show ?thesis by (auto dest!: put_agent_fields)
    next
      case False
      with c f2 f3 attempts have old: "map_of (attempts d) i = Some c" by simp
      from bindings_okD(2) [OF ok old x] unbound [OF _ old] x g f2 f3 show ?thesis
        by (cases agentId) (auto dest!: put_agent_fields split: if_split_asm)
    qed
  qed
qed

lemma attempt_cancelled_ok:
  assumes "apply_attempt_cancelled J event k c r d = Inr d'" and "bindings_ok d"
  shows "bindings_ok d'"
proof -
  let ?b = "\<lambda>a. withoutAttemptRetry (a\<lparr>att_status := AttCancelled, att_reasonCode := Some c,
                  att_reasonDetail := (case r of Some r \<Rightarrow> Some r | None \<Rightarrow> att_reasonDetail a),
                  att_updatedAt := eh_occurredAt event\<rparr>)"
  from assms(1) obtain a d1 d2 where a: "map_of (attempts d) k = Some a" "\<not> terminalAttemptStatus (att_status a)"
    and p: "put_attempt J k (?b a) d = Inr d1"
    and t: "(case map_of (tasks d1) (att_taskId a) of None \<Rightarrow> Inr d1
             | Some task \<Rightarrow> put_task J (att_taskId a) (with_task_status TaskCancelled (eh_occurredAt event) task) d1) = Inr d2"
    and q: "releaseAttemptAgent J a (eh_occurredAt event) d2 = Inr d'"
    unfolding apply_attempt_cancelled_def Let_def bindE_eq_Inr require_eq_Inr lookup_attempt_def lookupE_eq_Inr
    by (elim exE conjE) (erule that, assumption+)
  show ?thesis
    by (rule end_and_release_ok [OF assms(2) a p _ optional_task_writes [OF t] q]) (simp add: withoutAttemptRetry_def)
qed

lemma attempt_finished_ok:
  assumes "apply_attempt_finished J event r d = Inr d'" and "bindings_ok d"
  shows "bindings_ok d'"
proof -
  let ?b = "\<lambda>a. withoutAttemptRetry (a\<lparr>att_status := result_attempt_status (res_status r),
       att_result := Some r, att_updatedAt := eh_occurredAt event\<rparr>)"
  from finished_steps [OF assms(1)] obtain a t d1 d2 d3 where
    at: "assertAttemptFinishTransition d (eh_aggregateId event) r (eh_occurredAt event) = Inr (a, t)"
    and p: "put_attempt J (res_attemptId r) (?b a) d = Inr d1"
    and q: "put_task J (res_taskId r) (with_task_status (taskStatusForResult (res_status r)) (eh_occurredAt event) t) d1 = Inr d2"
    and e: "releaseAttemptAgent J a (eh_occurredAt event) d2 = Inr d3"
    and f: "refreshReadyTasks J (task_objectiveId (ts_task t)) (eh_occurredAt event) d3 = Inr d'"
    by blast
  note at = finish_transition_at [OF at]
  have w: "record_writes J False d1 d2"
    using at(2,5) put_attempt_fields [OF p] by (intro write_one(3) [OF q]) simp_all
  have "bindings_ok d3"
    by (rule end_and_release_ok [OF assms(2) at(1) _ p _ w e])
      (use at(3) result_status_terminal in \<open>auto simp: withoutAttemptRetry_def\<close>)
  then show ?thesis by (rule record_writes_ok [OF refreshReadyTasks_writes [OF f]])
qed

lemma cancel_open_attempt_ok:
  assumes "cancel_open_attempt J now c d k = Inr d'" and ok: "bindings_ok d"
  shows "bindings_ok d'"
proof (cases "\<exists>a. map_of (attempts d) k = Some a \<and> \<not> terminalAttemptStatus (att_status a)")
  case True
  then obtain a where a: "map_of (attempts d) k = Some a" "\<not> terminalAttemptStatus (att_status a)" by blast
  with assms(1) obtain d1 where p: "put_attempt J k (withoutAttemptRetry (a\<lparr>att_status := AttCancelled,
      att_reasonCode := Some c, att_updatedAt := now\<rparr>)) d = Inr d1" and r: "releaseAttemptAgent J a now d1 = Inr d'"
    by (auto simp: cancel_open_attempt_def)
  show ?thesis by (rule end_and_release_ok [OF ok a p _ rw_none r]) (simp add: withoutAttemptRetry_def)
next
  case False
  with assms(1) have "d' = d" by (auto simp: cancel_open_attempt_def split: option.split_asm)
  with ok show ?thesis by simp
qed

lemma cancel_open_task_ok:
  assumes "cancel_open_task J now c d k = Inr d'" and ok: "bindings_ok d"
  shows "bindings_ok d'"
proof (cases "map_of (tasks d) k")
  case (Some t)
  with assms(1) obtain d1 where one: "d1 = d \<or> put_task J k (with_task_status TaskCancelled now t) d = Inr d1"
    and fold: "foldE (cancel_open_attempt J now c) d1 (ts_attemptIds t) = Inr d'"
    by (auto simp: cancel_open_task_def split: if_split_asm)
  from one Some have "record_writes J False d d1" by (auto intro: rw_none write_one(3))
  from record_writes_ok [OF this ok] show ?thesis
    by (rule foldE_invariant [OF fold, where P = bindings_ok]) (rule cancel_open_attempt_ok)
qed (use assms in \<open>simp add: cancel_open_task_def\<close>)

lemma cancel_work_ok:
  assumes "cancelOpenObjectiveWork J k now c d = Inr d'" and "bindings_ok d"
  shows "bindings_ok d'"
proof (cases "map_of (objectives d) k")
  case (Some x)
  with assms(1) have "foldE (cancel_open_task J now c) d (os_taskIds x) = Inr d'"
    by (simp add: cancelOpenObjectiveWork_def)
  then show ?thesis using assms(2)
    by (rule foldE_invariant [where P = bindings_ok]) (rule cancel_open_task_ok)
qed (use assms in \<open>simp add: cancelOpenObjectiveWork_def\<close>)

section \<open>Every event\<close>

lemma objective_close_ok:
  assumes "assertObjectiveStatusTransition d k s policy = Inr u" and "updateObjectiveStatus J k s now d = Inr d1"
    and "cancelOpenObjectiveWork J k now c d1 = Inr d'" and "bindings_ok d"
  shows "bindings_ok d'"
  by (rule cancel_work_ok [OF assms(3) structural_writes_ok [OF objective_status_writes(1) [OF assms(1,2)] assms(4)]])

lemma objective_event_ok:
  assumes run: "applyObjectiveEvent J event e d = Inr d'" and ok: "bindings_ok d"
  shows "bindings_ok d'"
proof (cases e)
  case (ObjectiveCreated x)
  with run have "structural_writes J False d d'" by (simp add: objective_created_writes)
  then show ?thesis by (rule structural_writes_ok) (rule ok)
next
  case (ObjectiveUpdated x)
  with run have "record_writes J False d d'" by (simp add: objective_updated_writes)
  then show ?thesis by (rule record_writes_ok) (rule ok)
next
  case (ObjectiveEvidenceRecorded x)
  with run have "record_writes J False d d'" by (simp add: objective_evidence_writes)
  then show ?thesis by (rule record_writes_ok) (rule ok)
next
  case ObjectivePausedEvent
  with run have "structural_writes J False d d'"
    by (auto simp: apply_objective_paused_def intro: objective_status_writes(1))
  then show ?thesis by (rule structural_writes_ok) (rule ok)
next
  case ObjectiveResumedEvent
  with run have "structural_writes J False d d'"
    by (auto simp: apply_objective_resumed_def
        intro: structural_trans [OF record_structural] objective_status_writes(1) refreshReadyTasks_writes)
  then show ?thesis by (rule structural_writes_ok) (rule ok)
next
  case (ObjectiveCompletedEvent policy)
  with run show ?thesis by (auto simp: apply_objective_completed_def intro: objective_close_ok [OF _ _ _ ok])
next
  case ObjectiveCancelledEvent
  with run show ?thesis by (auto simp: apply_objective_cancelled_def intro: objective_close_ok [OF _ _ _ ok])
qed

lemma attempt_event_ok:
  assumes run: "applyAttemptEvent J event e d = Inr d'" and keyed: "well_keyed d" and ok: "bindings_ok d"
  shows "bindings_ok d'"
proof (cases e)
  case (AttemptQueuedEvent q)
  with run keyed have "structural_writes J False d d'"
    by (auto simp: apply_attempt_queued_def intro: applyAttemptQueued_writes)
  then show ?thesis by (rule structural_writes_ok) (rule ok)
next
  case AttemptLeasedEvent
  with run ok show ?thesis by (auto intro: attempt_leased_ok)
next
  case AttemptCancelledEvent
  with run ok show ?thesis by (auto intro: attempt_cancelled_ok)
next
  case AttemptFinished
  with run ok show ?thesis by (auto intro: attempt_finished_ok)
qed (use run ok in \<open>auto intro!: record_writes_ok [OF _ ok] intro: grant_bound_writes attempt_started_writes
    lease_renewed_writes model_moved_writes third_party_writes attempt_checkpointed_writes usage_registered_writes
    usage_recorded_writes receipts_delivered_writes parent_write_recorded_writes parent_write_imported_writes
    usage_delivered_writes attempt_suspended_writes attempt_resumed_writes
    managed_lifecycle_writes lease_expired_writes\<close>)

lemma payload_ok:
  assumes run: "applyOrchestrationPayload J event e d = Inr d'" and keyed: "well_keyed d" and ok: "bindings_ok d"
  shows "bindings_ok d'"
proof (cases e)
  case (ApprovalPayload x)
  with run keyed have "record_writes J False d d'"
    by (cases x) (auto intro: approval_requested_writes approval_resolved_writes)
  then show ?thesis by (rule record_writes_ok) (rule ok)
next
  case (NotificationPayload x)
  with run have "record_writes J False d d'"
    by (cases x) (auto intro: notification_enqueued_writes notification_delivered_writes)
  then show ?thesis by (rule record_writes_ok) (rule ok)
next
  case (TaskPayload x)
  with run keyed have "structural_writes J False d d'" by (auto intro: applyTaskEvent_writes)
  then show ?thesis by (rule structural_writes_ok) (rule ok)
next
  case (AgentPayload x)
  with run keyed have "structural_writes J False d d'" by (auto intro: applyAgentEvent_writes)
  then show ?thesis by (rule structural_writes_ok) (rule ok)
next
  case (HostSourcePayload x)
  with run keyed have "structural_writes J False d d'"
    by (auto intro: record_structural applyHostSourceEvent_writes)
  then show ?thesis by (rule structural_writes_ok) (rule ok)
next
  case (HostDeliveryPayload x)
  with run keyed have "structural_writes J False d d'"
    by (auto intro: record_structural applyHostDeliveryEvent_writes)
  then show ?thesis by (rule structural_writes_ok) (rule ok)
next
  case (ObjectivePayload x)
  with run ok show ?thesis by (auto intro: objective_event_ok)
next
  case (AttemptPayload x)
  with run keyed ok show ?thesis by (auto intro: attempt_event_ok)
next
  case OtherPayload
  with run ok show ?thesis by simp
qed

lemma reached_bindings: "reached J s \<Longrightarrow> bindings_ok (fst s)"
proof (erule reached_invariant)
  show "bindings_ok emptyProjection" by (simp add: bindings_ok_def emptyProjection_def)
next
  fix p c e q c'
  assume at: "reached J (p, c)" and ok: "bindings_ok p" and step: "reduceOrchestrationEvent J (p, c) e = Inr (q, c')"
  from step show "bindings_ok q"
  proof (cases rule: reduce_cases)
    case (new bytes d b)
    have "bindings_ok d"
      using new(4) reached_keyed [OF at] ok by (intro payload_ok [OF new(4)]) (simp_all add: bindings_ok_def)
    then show ?thesis by (simp add: new(6) bindings_ok_def)
  qed (use ok in simp)
qed

text \<open>
  C9: one executor per agent and one agent per executor. In every reached projection, two attempts that
  are leased, running or suspended under the same agent are the same attempt, and that agent's record
  exists, is neither idle nor retired, and names the attempt as its active one. So no dispatch path,
  resume, expiry or cancellation leaves an agent driving two attempts or a live attempt without its agent.
\<close>

theorem agent_executes_one_attempt:
  assumes "reached J (p, c)" and "map_of (attempts p) k = Some a"
    and "att_status a \<in> {AttLeased, AttRunning, AttSuspended}" and "att_agentId a = Some g" and "g \<noteq> []"
  shows "(\<exists>h. map_of (agents p) g = Some h \<and> agent_activeAttemptId h = Some k \<and>
            agent_status h \<noteq> AgentRegistered \<and> agent_status h \<noteq> AgentRetired) \<and>
     (\<forall>i b. map_of (attempts p) i = Some b \<longrightarrow> att_status b \<in> {AttLeased, AttRunning, AttSuspended} \<longrightarrow>
        att_agentId b = Some g \<longrightarrow> i = k)"
proof -
  have ok: "bindings_ok p" using reached_bindings [OF assms(1)] by simp
  have bound: "att_status b \<in> {AttLeased, AttRunning, AttSuspended} \<Longrightarrow> att_agentId b = Some g \<Longrightarrow> bound_agent b = Some g" for b
    using assms(5) by (auto simp: bound_agent_def truthy_def)
  from bindings_okD(2) [OF ok assms(2) bound [OF assms(3,4)]] bound_exclusive [OF ok _ assms(2) bound bound [OF assms(3,4)]]
  show ?thesis by blast
qed

lemma agent_executes_one_attempt_witness:
  "\<exists>s h. projectOrchestrationEvents sample_env (take 10 sample_log) = Inr s \<and>
     map_of (agents (fst s)) ''g'' = Some h \<and> agent_activeAttemptId h = Some ''a''"
proof -
  obtain p c a where p: "projectOrchestrationEvents sample_env (take 10 sample_log) = Inr (p, c)"
    and a: "map_of (attempts p) ''a'' = Some a" "att_status a = AttRunning" "att_agentId a = Some ''g''"
    by (rule sample_runningE)
  from agent_executes_one_attempt [OF reached_project [OF p] a(1) _ a(3)] a(2) obtain h
    where "map_of (agents p) ''g'' = Some h" "agent_activeAttemptId h = Some ''a''" by auto
  with p show ?thesis by (intro exI [of _ "(p, c)"] exI [of _ h]) simp
qed

end
