(* ===== verification/Js_Strings.thy ===== *)
theory Js_Strings
  imports Orch_Prelude "HOL-Library.Sublist"
begin

text \<open>
  The string operations the capability and path modules use: lower casing, splitting at a separator,
  joining, prefixes and the last position of a character, with the laws the path proofs share.
\<close>

text \<open>
  \<open>String.prototype.toLowerCase\<close> on the characters of the model (code units below 256): the ASCII and
  the Latin-1 capitals, of which the multiplication sign is not one.
\<close>

definition js_lower_char :: "char \<Rightarrow> char" where
  "js_lower_char c = (let n = of_char c :: nat in
     if (65 \<le> n \<and> n \<le> 90) \<or> (192 \<le> n \<and> n \<le> 222 \<and> n \<noteq> 215) then char_of (n + 32) else c)"

definition js_lower :: "string \<Rightarrow> string" where
  "js_lower s = map js_lower_char s"

text \<open>\<open>s.split(c)\<close> for a separator of one character: one more part than there are separators.\<close>

fun js_split :: "char \<Rightarrow> string \<Rightarrow> string list" where
  "js_split c [] = [[]]"
| "js_split c (x # xs) =
     (if x = c then [] # js_split c xs
      else case js_split c xs of [] \<Rightarrow> [[x]] | p # ps \<Rightarrow> (x # p) # ps)"

text \<open>\<open>parts.join(sep)\<close>.\<close>

fun js_join :: "string \<Rightarrow> string list \<Rightarrow> string" where
  "js_join sep [] = []"
| "js_join sep [p] = p"
| "js_join sep (p # ps) = p @ sep @ js_join sep ps"

lemma js_split_nonempty [simp]: "js_split c s \<noteq> []"
  by (induction s) (auto split: list.splits)

lemma js_join_split: "js_join [c] (js_split c s) = s"
proof (induction s)
  case (Cons x xs)
  show ?case
  proof (cases "js_split c xs")
    case (Cons p ps)
    with Cons.IH show ?thesis by (cases ps) auto
  qed simp
qed simp

lemma js_split_no_sep: "p \<in> set (js_split c s) \<Longrightarrow> c \<notin> set p"
  by (induction s arbitrary: p) (auto split: list.split_asm if_split_asm)

lemma js_split_plain: "c \<notin> set s \<Longrightarrow> js_split c s = [s]"
  by (induction s) auto

lemma js_split_sep: "c \<notin> set p \<Longrightarrow> js_split c (p @ c # s) = p # js_split c s"
  by (induction p) auto

lemma js_split_join:
  assumes "ps \<noteq> []" and "\<forall>p \<in> set ps. c \<notin> set p"
  shows "js_split c (js_join [c] ps) = ps"
  using assms
proof (induction ps)
  case (Cons p ps)
  show ?case
  proof (cases ps)
    case Nil
    with Cons.prems show ?thesis by (simp add: js_split_plain)
  next
    case (Cons q qs)
    with Cons.prems Cons.IH show ?thesis by (simp add: js_split_sep)
  qed
qed simp

lemma js_join_inject:
  assumes "js_join [c] ps = js_join [c] qs" and "ps \<noteq> []" "qs \<noteq> []"
    and "\<forall>p \<in> set ps. c \<notin> set p" "\<forall>q \<in> set qs. c \<notin> set q"
  shows "ps = qs"
proof -
  have "ps = js_split c (js_join [c] qs)" using js_split_join [OF assms(2,4)] unfolding assms(1) by (rule sym)
  with js_split_join [OF assms(3,5)] show ?thesis by simp
qed

end
