(* ===== verification/Tool_Capability.thy ===== *)
theory Tool_Capability
  imports Orch_Contracts Js_Strings
begin

text \<open>
  What authority a tool call needs (\<open>core/tool-capability-policy.ts\<close>): the catalogue of tool policies, the
  clauses one invocation must satisfy, the capabilities selected for it, its path access, and what
  survives a read-only grant. The extension tools granted to this process are the argument \<open>granted\<close>
  (the keys of the module's second map). Tool arguments are JSON values, \<open>None\<close> when they are undefined.
\<close>

section \<open>The vocabulary\<close>

definition HARNESS_CAPABILITIES :: "HarnessCapability list" where
  "HARNESS_CAPABILITIES =
     [FilesystemRead, FilesystemWrite, ProcessExec, NetworkHttp, ServiceMcp, CredentialsUse, TestsExecute,
      WorktreeRead, WorktreeMutate, RepoRead, MemoryQuery, MemoryMutate, SemanticJudge, SettingsRead,
      SettingsWrite, SkillRead, SkillWrite, SourceRead, SourceWrite, ResearchExecute, WorkflowPlan,
      WorkflowDelegate, WorkflowMessage, PolicyModify, LearningPropose, PublishExecute]"

fun capability_name :: "HarnessCapability \<Rightarrow> string" where
  "capability_name FilesystemRead = ''filesystem.read''"
| "capability_name FilesystemWrite = ''filesystem.write''"
| "capability_name ProcessExec = ''process.exec''"
| "capability_name NetworkHttp = ''network.http''"
| "capability_name ServiceMcp = ''service.mcp''"
| "capability_name CredentialsUse = ''credentials.use''"
| "capability_name TestsExecute = ''tests.execute''"
| "capability_name WorktreeRead = ''worktree.read''"
| "capability_name WorktreeMutate = ''worktree.mutate''"
| "capability_name RepoRead = ''repo.read''"
| "capability_name MemoryQuery = ''memory.query''"
| "capability_name MemoryMutate = ''memory.mutate''"
| "capability_name SemanticJudge = ''semantic.judge''"
| "capability_name SettingsRead = ''settings.read''"
| "capability_name SettingsWrite = ''settings.write''"
| "capability_name SkillRead = ''skill.read''"
| "capability_name SkillWrite = ''skill.write''"
| "capability_name SourceRead = ''source.read''"
| "capability_name SourceWrite = ''source.write''"
| "capability_name ResearchExecute = ''research.execute''"
| "capability_name WorkflowPlan = ''workflow.plan''"
| "capability_name WorkflowDelegate = ''workflow.delegate''"
| "capability_name WorkflowMessage = ''workflow.message''"
| "capability_name PolicyModify = ''policy.modify''"
| "capability_name LearningPropose = ''learning.propose''"
| "capability_name PublishExecute = ''publish.execute''"

lemma HARNESS_CAPABILITIES_all: "c \<in> set HARNESS_CAPABILITIES"
  by (cases c) (simp_all add: HARNESS_CAPABILITIES_def)

text \<open>
  A policy: every clause must hold, any alternative of a clause satisfies it. Policies are shared frozen
  objects and one test compares them by identity, so a policy also carries the object it is.
\<close>

datatype policy_object =
    ReadPolicy | WritePolicy | ProcessPolicy | NetworkPolicy | DelegatePolicy | ToolSchemaSearchPolicy
  | GrantedExtensionPolicy | OwnPolicy string

record ToolCapabilityPolicy =
  pol_object :: policy_object
  pol_capabilityClauses :: "HarnessCapability list list"
  pol_enforcements :: "CapabilityEnforcementKind list"

datatype ToolPathAccess = NoPathAccess | ReadAccess | WriteAccess

definition READ_PATH_CAPABILITIES :: "HarnessCapability list" where
  "READ_PATH_CAPABILITIES = [FilesystemRead, WorktreeRead, RepoRead, SkillRead, SourceRead]"

definition WRITE_PATH_CAPABILITIES :: "HarnessCapability list" where
  "WRITE_PATH_CAPABILITIES = [FilesystemWrite, WorktreeMutate, SkillWrite, SourceWrite]"

definition policy ::
  "policy_object \<Rightarrow> HarnessCapability list list \<Rightarrow> CapabilityEnforcementKind list \<Rightarrow> ToolCapabilityPolicy" where
  "policy object clauses enforcements =
     \<lparr>pol_object = object, pol_capabilityClauses = clauses, pol_enforcements = enforcements\<rparr>"

section \<open>The catalogue\<close>

definition READ_POLICY :: ToolCapabilityPolicy where
  "READ_POLICY = policy ReadPolicy [[FilesystemRead, WorktreeRead]] [PathScope]"

definition WRITE_POLICY :: ToolCapabilityPolicy where
  "WRITE_POLICY = policy WritePolicy [[FilesystemWrite, WorktreeMutate]] [PathScope]"

definition PROCESS_POLICY :: ToolCapabilityPolicy where
  "PROCESS_POLICY = policy ProcessPolicy [[ProcessExec, TestsExecute]] [ProcessLauncher]"

definition NETWORK_POLICY :: ToolCapabilityPolicy where
  "NETWORK_POLICY = policy NetworkPolicy [[NetworkHttp, ServiceMcp]] [ServiceProxy]"

definition DELEGATE_POLICY :: ToolCapabilityPolicy where
  "DELEGATE_POLICY = policy DelegatePolicy [[WorkflowDelegate]] [ControlPlane]"

definition TOOL_SCHEMA_SEARCH_POLICY :: ToolCapabilityPolicy where
  "TOOL_SCHEMA_SEARCH_POLICY = policy ToolSchemaSearchPolicy [] [ControlPlane]"

definition own_policy ::
  "string \<Rightarrow> HarnessCapability list list \<Rightarrow> CapabilityEnforcementKind list \<Rightarrow> string \<times> ToolCapabilityPolicy" where
  "own_policy toolName clauses enforcements = (toolName, policy (OwnPolicy toolName) clauses enforcements)"

definition TOOL_CAPABILITY_POLICIES :: "ToolCapabilityPolicy js_record" where
  "TOOL_CAPABILITY_POLICIES =
     map (\<lambda>t. (t, READ_POLICY)) [''read'', ''ls'', ''grep'', ''find''] @
     [own_policy ''repo_read'' [[RepoRead]] [PathScope]] @
     map (\<lambda>t. (t, WRITE_POLICY)) [''write'', ''edit'', ''edit-diff''] @
     map (\<lambda>t. (t, PROCESS_POLICY)) [''bash'', ''python'', ''powershell'', ''shell'', ''run_toolkit_script'', ''run_process''] @
     map (\<lambda>t. (t, NETWORK_POLICY)) [''fetch'', ''web_search''] @
     [own_policy ''webfetch'' [[NetworkHttp]] [ServiceProxy],
      own_policy ''systemone'' [[SemanticJudge]] [ServiceProxy],
      own_policy ''peer'' [[WorkflowDelegate]] [ServiceProxy, ControlPlane],
      (''tool_search'', TOOL_SCHEMA_SEARCH_POLICY),
      own_policy ''image_generate'' [[NetworkHttp], [CredentialsUse], [FilesystemRead]] [ServiceProxy, PathScope],
      own_policy ''skill'' [[SkillRead]] [PathScope],
      own_policy ''skill_audit'' [[SkillRead]] [PathScope],
      own_policy ''skillify'' [[SkillRead]] [PathScope],
      own_policy ''extensionify'' [[SourceWrite]] [PathScope],
      own_policy ''runtime_update'' [[SourceWrite], [ProcessExec]] [ControlPlane],
      own_policy ''goal'' [[MemoryMutate, MemoryQuery]] [MemoryBroker],
      own_policy ''create_goal'' [[MemoryMutate]] [MemoryBroker],
      own_policy ''get_goal'' [[MemoryQuery]] [MemoryBroker],
      own_policy ''update_goal'' [[MemoryMutate]] [MemoryBroker],
      own_policy ''memory'' [[MemoryMutate, MemoryQuery]] [MemoryBroker],
      own_policy ''knowledge'' [[MemoryQuery, MemoryMutate]] [MemoryBroker],
      own_policy ''memory_read'' [[MemoryQuery]] [MemoryBroker],
      own_policy ''zoom'' [[MemoryQuery]] [MemoryBroker],
      own_policy ''date'' [[MemoryQuery]] [MemoryBroker],
      own_policy ''secret_store'' [[CredentialsUse]] [ServiceProxy, PathScope],
      (''delegate'', DELEGATE_POLICY),
      own_policy ''task_events'' [] [ControlPlane],
      own_policy ''model_fitness'' [[ResearchExecute]] [ControlPlane],
      own_policy ''task_steps'' [[WorkflowPlan, MemoryMutate]] [ControlPlane],
      own_policy ''task_directory'' [[WorkflowPlan, MemoryMutate]] [ControlPlane],
      own_policy ''pipeline'' [[WorkflowPlan], [FilesystemWrite, WorktreeMutate]] [ControlPlane, PathScope],
      own_policy ''tool_task'' [[ProcessExec, WorkflowDelegate]] [ControlPlane],
      own_policy ''worktree_sync'' [[WorktreeMutate, FilesystemWrite]] [PathScope],
      own_policy ''ask_question'' [[WorkflowPlan, MemoryQuery]] [ControlPlane],
      own_policy ''self_compact'' [[WorkflowPlan]] [ControlPlane],
      own_policy ''proactivity'' [[SettingsRead, SettingsWrite]] [ControlPlane],
      own_policy ''routine'' [[WorkflowPlan]] [ControlPlane],
      own_policy ''channel_reply'' [[WorkflowMessage]] [ControlPlane],
      own_policy ''artifact_retrieve'' [[FilesystemRead]] [PathScope],
      own_policy ''decision_ledger_read'' [[MemoryQuery]] [MemoryBroker],
      own_policy ''context_scout'' [[FilesystemRead]] [PathScope],
      own_policy ''pi_collaboration'' [[ProcessExec], [WorkflowDelegate]] [ProcessLauncher],
      own_policy ''list_peers'' [[WorkflowDelegate]] [ControlPlane],
      own_policy ''agent_send'' [[WorkflowDelegate]] [ControlPlane],
      own_policy ''bot_message'' [[WorkflowMessage]] [ControlPlane],
      own_policy ''improvement_loop'' [[ProcessExec, TestsExecute]] [ProcessLauncher],
      own_policy ''task_automation'' [[ProcessExec, TestsExecute]] [ProcessLauncher]]"

definition NON_CANONICAL_POLICY_TOOL_NAMES :: "string list" where
  "NON_CANONICAL_POLICY_TOOL_NAMES = [''edit-diff'', ''powershell'', ''shell'']"

definition POLICY_OWNED_RUNTIME_TOOL_NAMES :: "string list" where
  "POLICY_OWNED_RUNTIME_TOOL_NAMES =
     filter (\<lambda>t. t \<notin> set NON_CANONICAL_POLICY_TOOL_NAMES) (js_keys TOOL_CAPABILITY_POLICIES)"

definition GRANTED_EXTENSION_TOOL_POLICY :: ToolCapabilityPolicy where
  "GRANTED_EXTENSION_TOOL_POLICY = policy GrantedExtensionPolicy [[FilesystemWrite, FilesystemRead]] [PathScope]"

text \<open>The keys of the literal are distinct, so the first entry of a name is the one the map holds.\<close>

lemma catalogue_distinct: "own_keys_distinct TOOL_CAPABILITY_POLICIES"
  by code_simp

text \<open>
  Registering granted extension tools: a catalogued name throws, and the names before it stay registered.
\<close>

fun registerGrantedExtensionToolPolicies :: "string list \<Rightarrow> string list \<Rightarrow> (string + unit) \<times> string list" where
  "registerGrantedExtensionToolPolicies granted [] = (Inr (), granted)"
| "registerGrantedExtensionToolPolicies granted (toolName # rest) =
     (let name = js_lower toolName in
      if map_of TOOL_CAPABILITY_POLICIES name \<noteq> None then (Inl toolName, granted)
      else registerGrantedExtensionToolPolicies (if name \<in> set granted then granted else granted @ [name]) rest)"

definition isGrantedExtensionToolName :: "string list \<Rightarrow> string \<Rightarrow> bool" where
  "isGrantedExtensionToolName granted toolName \<longleftrightarrow> js_lower toolName \<in> set granted"

definition hasCataloguedToolCapabilityPolicy :: "string \<Rightarrow> bool" where
  "hasCataloguedToolCapabilityPolicy toolName \<longleftrightarrow> map_of TOOL_CAPABILITY_POLICIES (js_lower toolName) \<noteq> None"

definition getToolCapabilityPolicy :: "string list \<Rightarrow> string \<Rightarrow> ToolCapabilityPolicy option" where
  "getToolCapabilityPolicy granted toolName =
     (let name = js_lower toolName in
      case map_of TOOL_CAPABILITY_POLICIES name of
        Some p \<Rightarrow> Some p
      | None \<Rightarrow> if name \<in> set granted then Some GRANTED_EXTENSION_TOOL_POLICY else None)"

definition hasToolCapabilityPolicy :: "string list \<Rightarrow> string \<Rightarrow> bool" where
  "hasToolCapabilityPolicy granted toolName \<longleftrightarrow> getToolCapabilityPolicy granted toolName \<noteq> None"

section \<open>Path access of capabilities\<close>

definition resolveCapabilityPathAccess :: "HarnessCapability list \<Rightarrow> ToolPathAccess option" where
  "resolveCapabilityPathAccess capabilities =
     (if list_ex (\<lambda>c. c \<in> set WRITE_PATH_CAPABILITIES) capabilities then Some WriteAccess
      else if list_ex (\<lambda>c. c \<in> set READ_PATH_CAPABILITIES) capabilities then Some ReadAccess
      else None)"

definition capabilitySurvivesReadOnly :: "HarnessCapability \<Rightarrow> bool" where
  "capabilitySurvivesReadOnly capability \<longleftrightarrow>
     resolveCapabilityPathAccess [capability] = Some ReadAccess \<or> capability = ProcessExec \<or>
     capability = MemoryQuery \<or> capability = SemanticJudge \<or> capability = WorkflowMessage \<or>
     capability = SettingsRead"

definition READ_ONLY_SHELL_TOOL_NAMES :: "string list" where
  "READ_ONLY_SHELL_TOOL_NAMES = [''bash'', ''powershell'', ''shell'']"

definition toolSurvivesReadOnly :: "string list \<Rightarrow> string \<Rightarrow> bool" where
  "toolSurvivesReadOnly granted toolName =
     (case getToolCapabilityPolicy granted toolName of
        None \<Rightarrow> False
      | Some p \<Rightarrow>
          if isGrantedExtensionToolName granted toolName then False
          else if pol_object p = ProcessPolicy \<and> js_lower toolName \<notin> set READ_ONLY_SHELL_TOOL_NAMES then False
          else list_all (list_ex capabilitySurvivesReadOnly) (pol_capabilityClauses p))"

definition partitionToolsForReadOnly :: "string list \<Rightarrow> string list \<Rightarrow> string list \<times> string list" where
  "partitionToolsForReadOnly granted toolNames = partition (toolSurvivesReadOnly granted) toolNames"

definition toolUsesPathScope :: "string list \<Rightarrow> string \<Rightarrow> bool" where
  "toolUsesPathScope granted toolName =
     (case getToolCapabilityPolicy granted toolName of
        Some p \<Rightarrow> PathScope \<in> set (pol_enforcements p) | None \<Rightarrow> False)"

section \<open>The clauses of one call\<close>

text \<open>
  The \<open>action\<close> of an argument object. Absent, null and scalar arguments have none, and an array has no
  such key.
\<close>

definition args_action :: "json option \<Rightarrow> string option" where
  "args_action args = (case json_field args ''action'' of Some (JString s) \<Rightarrow> Some s | _ \<Rightarrow> None)"

definition action_in :: "json option \<Rightarrow> string list \<Rightarrow> bool" where
  "action_in args names \<longleftrightarrow> (case args_action args of Some a \<Rightarrow> a \<in> set names | None \<Rightarrow> False)"

definition ROOT_MEMORY_READ_ACTIONS :: "string list" where
  "ROOT_MEMORY_READ_ACTIONS = [''list'', ''history_search'', ''history_source'', ''history_expand'']"

definition peer_needs_judge :: "json option \<Rightarrow> bool" where
  "peer_needs_judge args \<longleftrightarrow>
     action_in args [''resolve''] \<or>
     (action_in args [''review''] \<and>
      json_field (json_field args ''review'') ''selection'' = Some (JString ''stronger''))"

definition memory_call_reads :: "json option \<Rightarrow> bool" where
  "memory_call_reads args \<longleftrightarrow>
     (case args of
        Some (JObject record) \<Rightarrow>
          (case map_of record ''query'' of Some (JString s) \<Rightarrow> True | _ \<Rightarrow> False) \<and> list_all (\<lambda>k. k = ''query'') (js_keys record)
      | _ \<Rightarrow> False) \<or>
     action_in args ROOT_MEMORY_READ_ACTIONS"

definition toolCapabilityRequirementClauses :: "string list \<Rightarrow> string \<Rightarrow> json option \<Rightarrow> HarnessCapability list list" where
  "toolCapabilityRequirementClauses granted toolName args =
     (let name = js_lower toolName in
      if name = ''routine'' \<and> args \<noteq> None then
        (if action_in args [''list'', ''get'', ''pause'', ''delete''] then [[WorkflowPlan]]
         else [[WorkflowPlan], [WorkflowDelegate]])
      else if name = ''proactivity'' \<and> args \<noteq> None then
        (if action_in args [''view''] then [[SettingsRead]] else [[SettingsWrite]])
      else if name = ''knowledge'' \<and> args \<noteq> None then
        (if action_in args [''search'', ''read'', ''history'', ''evidence''] then [[MemoryQuery]] else [[MemoryMutate]])
      else if name = ''peer'' \<and> peer_needs_judge args then [[WorkflowDelegate], [SemanticJudge]]
      else if name = ''memory'' \<and> args \<noteq> None then
        (if memory_call_reads args then [[MemoryQuery]] else [[MemoryMutate]])
      else if name = ''goal'' \<and> args \<noteq> None then
        (if action_in args [''get''] then [[MemoryQuery]] else [[MemoryMutate]])
      else if name = ''skill'' \<and> args \<noteq> None then
        (if action_in args [''repair''] then [[SkillWrite]] else [[SkillRead]])
      else if name = ''systemone'' \<and> action_in args [''locate''] then
        [[SemanticJudge], [FilesystemRead, WorktreeRead]]
      else if name = ''pipeline'' then
        (if action_in args [''list'', ''status''] then [[WorkflowPlan, FilesystemRead]]
         else [[WorkflowPlan], [FilesystemWrite, WorktreeMutate]])
      else case getToolCapabilityPolicy granted name of
             None \<Rightarrow> []
           | Some itemPolicy \<Rightarrow> pol_capabilityClauses itemPolicy)"

definition clause_head :: "HarnessCapability list \<Rightarrow> HarnessCapability option" where
  "clause_head clause = (case clause of [] \<Rightarrow> None | c # _ \<Rightarrow> Some c)"

definition requiredEnvelopeCapabilities :: "string list \<Rightarrow> string \<Rightarrow> json option \<Rightarrow> HarnessCapability list" where
  "requiredEnvelopeCapabilities granted toolName args =
     List.map_filter clause_head (toolCapabilityRequirementClauses granted toolName args)"

definition format_clause :: "HarnessCapability list \<Rightarrow> string" where
  "format_clause clause =
     (case clause of
        [c] \<Rightarrow> capability_name c
      | _ \<Rightarrow> ''('' @ js_join '' or '' (map capability_name clause) @ '')'')"

definition formatToolCapabilityRequirement :: "string list \<Rightarrow> string \<Rightarrow> json option \<Rightarrow> string" where
  "formatToolCapabilityRequirement granted toolName args =
     js_join '' and '' (map format_clause (toolCapabilityRequirementClauses granted toolName args))"

section \<open>The capabilities of one call\<close>

text \<open>The loop that picks, from every clause, its first alternative that is held.\<close>

fun resolve_clauses :: "HarnessCapability list \<Rightarrow> HarnessCapability list list \<Rightarrow> HarnessCapability list option" where
  "resolve_clauses capabilities [] = Some []"
| "resolve_clauses capabilities (clause # rest) =
     (case List.find (\<lambda>c. c \<in> set capabilities) clause of
        None \<Rightarrow> None
      | Some match \<Rightarrow> map_option ((#) match) (resolve_clauses capabilities rest))"

definition resolveToolCallCapabilities ::
  "string list \<Rightarrow> HarnessCapability list \<Rightarrow> string \<Rightarrow> json option \<Rightarrow> HarnessCapability list option" where
  "resolveToolCallCapabilities granted capabilities toolName args =
     (if getToolCapabilityPolicy granted toolName = None then None
      else resolve_clauses capabilities (toolCapabilityRequirementClauses granted toolName args))"

definition envelopeHasToolCapability ::
  "string list \<Rightarrow> HarnessCapability list \<Rightarrow> string \<Rightarrow> json option \<Rightarrow> bool" where
  "envelopeHasToolCapability granted capabilities toolName args \<longleftrightarrow>
     resolveToolCallCapabilities granted capabilities toolName args \<noteq> None"

definition resolveToolCallPathAccess ::
  "string list \<Rightarrow> HarnessCapability list \<Rightarrow> string \<Rightarrow> json option \<Rightarrow> ToolPathAccess" where
  "resolveToolCallPathAccess granted capabilities toolName args =
     (if \<not> toolUsesPathScope granted toolName then NoPathAccess
      else case resolveToolCallCapabilities granted capabilities toolName args of
        None \<Rightarrow> NoPathAccess
      | Some selected \<Rightarrow>
          let name = js_lower toolName in
          if name = ''artifact_retrieve'' \<or> name = ''context_scout'' then NoPathAccess
          else if name = ''pipeline'' \<and> WorkflowPlan \<in> set selected \<and> length selected = 1 then NoPathAccess
          else if name = ''secret_store'' then
            (if action_in args [''migrate'', ''discover''] then ReadAccess else NoPathAccess)
          else case resolveCapabilityPathAccess selected of None \<Rightarrow> NoPathAccess | Some access \<Rightarrow> access)"

definition resolveProfileToolCapabilities ::
  "string list \<Rightarrow> HarnessCapability list \<Rightarrow> string \<Rightarrow> HarnessCapability list option" where
  "resolveProfileToolCapabilities granted capabilityCeiling toolName =
     (if getToolCapabilityPolicy granted toolName = None then None
      else resolve_clauses capabilityCeiling (toolCapabilityRequirementClauses granted toolName None))"

definition describeToolCapabilityAuthority :: "string list \<Rightarrow> string \<Rightarrow> string" where
  "describeToolCapabilityAuthority granted toolName =
     (case getToolCapabilityPolicy granted toolName of
        Some p \<Rightarrow> (case pol_capabilityClauses p of
            clause # _ \<Rightarrow> (case clause_head clause of
                Some c \<Rightarrow>
                  (if c \<in> {FilesystemRead, WorktreeRead, RepoRead} then ''read''
                   else if c \<in> {FilesystemWrite, WorktreeMutate} then ''write''
                   else if c \<in> {ProcessExec, TestsExecute} then ''process''
                   else if c \<in> {NetworkHttp, ServiceMcp} then ''network''
                   else if c \<in> {MemoryQuery, MemoryMutate} then ''memory''
                   else if c = SemanticJudge then ''judgment''
                   else if c = WorkflowDelegate then ''delegation''
                   else if c = WorkflowMessage then ''messaging''
                   else if c \<in> {SkillRead, SkillWrite} then ''skill''
                   else if c \<in> {SourceRead, SourceWrite} then ''source''
                   else if c = ResearchExecute then ''research''
                   else if c \<in> {SettingsRead, SettingsWrite} then ''settings''
                   else if c = PublishExecute then ''publish''
                   else if c = CredentialsUse then ''authentication''
                   else ''capability'')
              | None \<Rightarrow> ''capability'')
          | [] \<Rightarrow> ''capability'')
      | None \<Rightarrow> ''capability'')"

section \<open>What the selection loop decides\<close>

lemma resolve_clauses_Some:
  "resolve_clauses caps clauses = Some sel \<Longrightarrow>
     list_all2 (\<lambda>c clause. c \<in> set clause \<and> c \<in> set caps) sel clauses"
  by (induction clauses arbitrary: sel) (auto dest: find_SomeD split: option.splits)

lemma resolve_clauses_None:
  "resolve_clauses caps clauses = None \<longleftrightarrow> (\<exists>clause \<in> set clauses. set clause \<inter> set caps = {})"
proof (induction clauses)
  case (Cons clause rest)
  show ?case
  proof (cases "List.find (\<lambda>c. c \<in> set caps) clause")
    case None
    then have "set clause \<inter> set caps = {}" by (auto dest: find_NoneD)
    with None show ?thesis by simp
  next
    case (Some c)
    from find_SomeD [OF this] have "set clause \<inter> set caps \<noteq> {}" by blast
    with Some Cons.IH show ?thesis by simp
  qed
qed simp

lemma resolve_clauses_held: "resolve_clauses caps clauses = Some sel \<Longrightarrow> set sel \<subseteq> set caps"
  by (induction clauses arbitrary: sel) (auto dest: find_SomeD split: option.splits)

lemma call_capabilities_held:
  "resolveToolCallCapabilities granted caps toolName args = Some sel \<Longrightarrow> set sel \<subseteq> set caps"
  by (auto simp: resolveToolCallCapabilities_def dest: resolve_clauses_held split: if_splits)

lemma profile_capabilities_held:
  "resolveProfileToolCapabilities granted caps toolName = Some sel \<Longrightarrow> set sel \<subseteq> set caps"
  by (auto simp: resolveProfileToolCapabilities_def dest: resolve_clauses_held split: if_splits)

text \<open>
  C31: a call is admitted exactly when its tool is classified and every clause of this very invocation has an
  alternative the caller holds; then one held alternative of each clause is selected, in the order of the
  clauses, and further capabilities never make an admitted call inadmissible.
\<close>

theorem call_capabilities_exact:
  assumes "set caps \<subseteq> set wider"
  shows "(resolveToolCallCapabilities granted caps toolName args = None \<longleftrightarrow>
      getToolCapabilityPolicy granted toolName = None \<or>
      (\<exists>clause \<in> set (toolCapabilityRequirementClauses granted toolName args). set clause \<inter> set caps = {})) \<and>
    (\<forall>sel. resolveToolCallCapabilities granted caps toolName args = Some sel \<longrightarrow>
      list_all2 (\<lambda>c clause. c \<in> set clause \<and> c \<in> set caps) sel (toolCapabilityRequirementClauses granted toolName args) \<and>
      envelopeHasToolCapability granted wider toolName args)"
proof (intro conjI allI impI)
  show "resolveToolCallCapabilities granted caps toolName args = None \<longleftrightarrow>
      getToolCapabilityPolicy granted toolName = None \<or>
      (\<exists>clause \<in> set (toolCapabilityRequirementClauses granted toolName args). set clause \<inter> set caps = {})"
    by (cases "getToolCapabilityPolicy granted toolName") (simp_all add: resolveToolCallCapabilities_def resolve_clauses_None)
next
  fix sel assume sel: "resolveToolCallCapabilities granted caps toolName args = Some sel"
  then have run: "getToolCapabilityPolicy granted toolName \<noteq> None"
    "resolve_clauses caps (toolCapabilityRequirementClauses granted toolName args) = Some sel"
    by (simp_all add: resolveToolCallCapabilities_def split: if_split_asm)
  show "list_all2 (\<lambda>c clause. c \<in> set clause \<and> c \<in> set caps) sel (toolCapabilityRequirementClauses granted toolName args)"
    by (rule resolve_clauses_Some [OF run(2)])
  have "resolve_clauses caps (toolCapabilityRequirementClauses granted toolName args) \<noteq> None" using run(2) by simp
  then have "resolve_clauses wider (toolCapabilityRequirementClauses granted toolName args) \<noteq> None"
    using assms unfolding resolve_clauses_None by blast
  with run(1) show "envelopeHasToolCapability granted wider toolName args"
    by (simp add: envelopeHasToolCapability_def resolveToolCallCapabilities_def)
qed

lemma call_capabilities_exact_witness:
  "envelopeHasToolCapability [] HARNESS_CAPABILITIES ''peer'' (Some (JObject [(''action'', JString ''resolve'')])) \<and>
   resolveToolCallCapabilities [] [WorkflowDelegate, SemanticJudge] ''peer''
     (Some (JObject [(''action'', JString ''resolve'')])) = Some [WorkflowDelegate, SemanticJudge]"
proof -
  have "resolveToolCallCapabilities [] [WorkflowDelegate, SemanticJudge] ''peer''
     (Some (JObject [(''action'', JString ''resolve'')])) = Some [WorkflowDelegate, SemanticJudge]" by code_simp
  with call_capabilities_exact [of "[WorkflowDelegate, SemanticJudge]" HARNESS_CAPABILITIES "[]" "''peer''"
      "Some (JObject [(''action'', JString ''resolve'')])"] HARNESS_CAPABILITIES_all
  show ?thesis by auto
qed

section \<open>Read-only grants\<close>

lemma survivor_not_write: "capabilitySurvivesReadOnly c \<Longrightarrow> c \<notin> set WRITE_PATH_CAPABILITIES"
  by (auto simp: capabilitySurvivesReadOnly_def resolveCapabilityPathAccess_def WRITE_PATH_CAPABILITIES_def)

lemma survivors_access:
  assumes "\<forall>c \<in> set caps. capabilitySurvivesReadOnly c"
  shows "resolveCapabilityPathAccess caps \<noteq> Some WriteAccess"
  using assms survivor_not_write by (auto simp: resolveCapabilityPathAccess_def list_ex_iff)

lemma js_lower_char_idem: "js_lower_char (js_lower_char c) = js_lower_char c"
proof -
  show ?thesis
  proof (cases "(65 \<le> (of_char c :: nat) \<and> (of_char c :: nat) \<le> 90) \<or>
      (192 \<le> (of_char c :: nat) \<and> (of_char c :: nat) \<le> 222 \<and> (of_char c :: nat) \<noteq> 215)")
    case True
    then have "(of_char (char_of ((of_char c :: nat) + 32) :: char) :: nat) = of_char c + 32" by auto
    with True show ?thesis unfolding js_lower_char_def Let_def by auto
  next
    case False
    then have "js_lower_char c = c" by (simp only: js_lower_char_def Let_def if_False)
    then show ?thesis by simp
  qed
qed

lemma js_lower_idem [simp]: "js_lower (js_lower s) = js_lower s"
  by (simp add: js_lower_def js_lower_char_idem)

lemma getToolCapabilityPolicy_lower [simp]:
  "getToolCapabilityPolicy granted (js_lower toolName) = getToolCapabilityPolicy granted toolName"
  by (simp add: getToolCapabilityPolicy_def)

lemma pipeline_catalogued:
  "map_of TOOL_CAPABILITY_POLICIES ''pipeline'' =
     Some (policy (OwnPolicy ''pipeline'') [[WorkflowPlan], [FilesystemWrite, WorktreeMutate]] [ControlPlane, PathScope])"
  by code_simp

lemma default_clauses:
  assumes "getToolCapabilityPolicy granted toolName = Some p"
  shows "toolCapabilityRequirementClauses granted toolName None = pol_capabilityClauses p"
  using assms pipeline_catalogued
  by (auto simp: toolCapabilityRequirementClauses_def Let_def peer_needs_judge_def action_in_def args_action_def
      getToolCapabilityPolicy_def policy_def)

lemma survives_policy:
  assumes "toolSurvivesReadOnly granted toolName"
  obtains p where "getToolCapabilityPolicy granted toolName = Some p"
    and "list_all (list_ex capabilitySurvivesReadOnly) (pol_capabilityClauses p)"
  using assms that by (auto simp: toolSurvivesReadOnly_def split: option.splits if_splits)

text \<open>
  C30: a lane that holds only capabilities surviving a read-only grant is never given write access to a
  path, by any tool, for any arguments, with any extension tools granted; and every tool the read-only
  partition keeps is one such a lane can call, with capabilities that all survive.
\<close>

theorem read_only_grant_never_writes:
  assumes "\<forall>c \<in> set caps. capabilitySurvivesReadOnly c"
    and "toolName \<in> set (fst (partitionToolsForReadOnly granted toolNames))"
  shows "resolveToolCallPathAccess granted caps anyTool args \<noteq> WriteAccess \<and>
    (\<exists>sel. resolveProfileToolCapabilities granted (filter capabilitySurvivesReadOnly HARNESS_CAPABILITIES) toolName = Some sel \<and>
       (\<forall>c \<in> set sel. capabilitySurvivesReadOnly c \<and> c \<notin> set WRITE_PATH_CAPABILITIES))"
proof
  have "resolveCapabilityPathAccess sel \<noteq> Some WriteAccess"
    if "resolveToolCallCapabilities granted caps anyTool args = Some sel" for sel
    by (rule survivors_access) (use call_capabilities_held [OF that] assms(1) in blast)
  then show "resolveToolCallPathAccess granted caps anyTool args \<noteq> WriteAccess"
    by (auto simp: resolveToolCallPathAccess_def Let_def split: option.split)
next
  let ?kept = "filter capabilitySurvivesReadOnly HARNESS_CAPABILITIES"
  have "toolSurvivesReadOnly granted toolName" using assms(2) by (simp add: partitionToolsForReadOnly_def)
  then obtain p where p: "getToolCapabilityPolicy granted toolName = Some p"
    and all: "list_all (list_ex capabilitySurvivesReadOnly) (pol_capabilityClauses p)" by (rule survives_policy)
  have "set clause \<inter> set ?kept \<noteq> {}" if clause: "clause \<in> set (pol_capabilityClauses p)" for clause
  proof -
    from all clause obtain c where "c \<in> set clause" "capabilitySurvivesReadOnly c"
      by (auto simp: list_all_iff list_ex_iff)
    with HARNESS_CAPABILITIES_all [of c] show ?thesis by auto
  qed
  then have "resolve_clauses ?kept (pol_capabilityClauses p) \<noteq> None"
    unfolding resolve_clauses_None by blast
  then obtain sel where sel: "resolveProfileToolCapabilities granted ?kept toolName = Some sel"
    using p by (auto simp: resolveProfileToolCapabilities_def default_clauses)
  from profile_capabilities_held [OF this] have "\<forall>c \<in> set sel. capabilitySurvivesReadOnly c" by auto
  with sel survivor_not_write show "\<exists>sel. resolveProfileToolCapabilities granted ?kept toolName = Some sel \<and>
       (\<forall>c \<in> set sel. capabilitySurvivesReadOnly c \<and> c \<notin> set WRITE_PATH_CAPABILITIES)" by blast
qed

lemma read_only_grant_never_writes_witness:
  "resolveToolCallPathAccess [''x''] [FilesystemRead, ProcessExec] ''x'' None \<noteq> WriteAccess \<and>
   (\<exists>sel. resolveProfileToolCapabilities [''x''] (filter capabilitySurvivesReadOnly HARNESS_CAPABILITIES) ''bash'' = Some sel)"
proof -
  have "\<forall>c \<in> set [FilesystemRead, ProcessExec]. capabilitySurvivesReadOnly c" by code_simp
  moreover have "''bash'' \<in> set (fst (partitionToolsForReadOnly [''x''] [''python'', ''bash'', ''write'']))" by code_simp
  ultimately show ?thesis using read_only_grant_never_writes by blast
qed

text \<open>
  The process tools a read-only lane keeps. Besides the three shells whose commands can be judged, the
  catalogue keeps \<open>tool_task\<close>, \<open>improvement_loop\<close> and \<open>task_automation\<close>: their policies list process
  execution but are not the shared process policy object the filter compares with.
\<close>

theorem read_only_process_tools:
  "filter (toolSurvivesReadOnly [])
     (map fst (filter (\<lambda>(t, p). list_ex (\<lambda>clause. ProcessExec \<in> set clause) (pol_capabilityClauses p))
        TOOL_CAPABILITY_POLICIES)) =
   READ_ONLY_SHELL_TOOL_NAMES @ [''tool_task'', ''improvement_loop'', ''task_automation'']"
  by code_simp

end
