(* ===== verification/Policy_Compiler.thy ===== *)
theory Policy_Compiler
  imports Risk_Budget Tool_Capability
begin

text \<open>
  The compilation of an execution grant (\<open>core/orchestration/policy-compiler.ts\<close>) and the manifests of a
  lane it is compiled from (\<open>lane-tool-manifests.ts\<close>, \<open>core/default-tool-surface.ts\<close>). The clock and the
  identifier source are read once per compilation and are arguments.
\<close>

section \<open>Tool surfaces and manifests\<close>

text \<open>\<open>[...new Set(values)]\<close>: the first occurrence of each value, in order.\<close>

definition js_unique :: "'a list \<Rightarrow> 'a list" where
  "js_unique values = rev (remdups (rev values))"

lemma set_js_unique [simp]: "set (js_unique xs) = set xs"
  by (simp add: js_unique_def)

lemma distinct_js_unique [simp]: "distinct (js_unique xs)"
  by (simp add: js_unique_def)

record ToolCapabilityManifest =
  man_toolName :: string
  man_moduleSpecifier :: string
  man_capabilities :: "HarnessCapability list"
  man_roles :: "WorkerRole list"
  man_enforcements :: "CapabilityEnforcementKind list"
  man_sourcePath :: "string option"

definition STABLE_SHELL_TOOL_NAME :: string where
  "STABLE_SHELL_TOOL_NAME = ''bash''"

definition stable_tool_name :: "string \<Rightarrow> string" where
  "stable_tool_name name =
     (let lower = js_trim (js_lower name) in
      if lower = ''powershell'' then STABLE_SHELL_TOOL_NAME
      else if lower \<in> set [''python_tool'', ''python3'', ''python_interpreter'', ''py''] then ''python''
      else if lower \<in> set [''bash_tool'', ''shell'', ''sh'', ''terminal'', ''cmd''] then STABLE_SHELL_TOOL_NAME
      else name)"

definition mapToolNamesForPlatform :: "string list \<Rightarrow> string list" where
  "mapToolNamesForPlatform names =
     foldl (\<lambda>mapped name. if stable_tool_name name \<in> set mapped then mapped else mapped @ [stable_tool_name name]) [] names"

definition BASH_BACKED_CATALOG_TOOL_NAMES :: "string list" where
  "BASH_BACKED_CATALOG_TOOL_NAMES = [''grep'', ''find'', ''ls'', ''repo_read'']"

definition lendableToolSurface :: "string list \<Rightarrow> string list" where
  "lendableToolSurface surface =
     (let lendable = mapToolNamesForPlatform surface in
      if STABLE_SHELL_TOOL_NAME \<in> set lendable
      then foldl (\<lambda>l name. if name \<in> set l then l else l @ [name]) lendable BASH_BACKED_CATALOG_TOOL_NAMES
      else lendable)"

definition CLASSIFIED_LANE_TOOL_NAMES :: "string list" where
  "CLASSIFIED_LANE_TOOL_NAMES =
     [''bot_message'', ''read'', ''tool_search'', ''grep'', ''find'', ''ls'', ''repo_read'', ''write'', ''edit'',
      ''memory_read'', ''zoom'', ''date'', ''python'', ''run_process'', ''bash'', ''artifact_retrieve'',
      ''run_toolkit_script'', ''skill'', ''skill_audit'', ''systemone'']"

definition ORCHESTRATION_PROFILE_TOOL_NAMES :: "string list" where
  "ORCHESTRATION_PROFILE_TOOL_NAMES = CLASSIFIED_LANE_TOOL_NAMES @ [''delegate'', ''task_directory'']"

definition lane_manifest :: "string list \<Rightarrow> OrchestrationProfile \<Rightarrow> string \<Rightarrow> ToolCapabilityManifest option" where
  "lane_manifest granted profile toolName =
     (case (getToolCapabilityPolicy granted toolName,
            resolveProfileToolCapabilities granted (pf_capabilityCeiling profile) toolName) of
        (Some p, Some capabilities) \<Rightarrow>
          Some \<lparr>man_toolName = toolName, man_moduleSpecifier = ''../tools/'' @ toolName @ ''.ts'',
                man_capabilities = capabilities, man_roles = [pf_role profile],
                man_enforcements = pol_enforcements p, man_sourcePath = None\<rparr>
      | _ \<Rightarrow> None)"

definition buildLaneToolManifests ::
  "string list \<Rightarrow> OrchestrationProfile \<Rightarrow> string list \<Rightarrow> ToolCapabilityManifest list" where
  "buildLaneToolManifests granted profile enabledToolNames =
     List.map_filter (lane_manifest granted profile)
       (filter (\<lambda>t. t \<in> set enabledToolNames) (js_unique (mapToolNamesForPlatform (pf_toolNames profile))))"

section \<open>The compiler\<close>

type_synonym role_ceilings = "WorkerRole \<Rightarrow> HarnessCapability list"

definition DEFAULT_ROLE_CAPABILITY_CEILINGS :: role_ceilings where
  "DEFAULT_ROLE_CAPABILITY_CEILINGS role = HARNESS_CAPABILITIES"

record CompileExecutionGrantInput =
  ci_objectiveId :: string
  ci_taskId :: string
  ci_attemptId :: string
  ci_subjectId :: string
  ci_role :: WorkerRole
  ci_requiredCapabilities :: "HarnessCapability list"
  ci_requestedCapabilities :: "HarnessCapability list option"
  ci_authorityCapabilities :: "HarnessCapability list"
  ci_requestedTools :: "string list"
  ci_toolManifests :: "ToolCapabilityManifest list"
  ci_resources :: "ResourcePointer list option"
  ci_readPaths :: "string list option"
  ci_writePaths :: "string list option"
  ci_deniedPaths :: "string list option"
  ci_requestedBudget :: "RiskBudget option"
  ci_authorityBudget :: "RiskBudget option"
  ci_policyVersion :: string
  ci_expiresAt :: "timestamp option"

datatype PolicyCompilationResult =
    CompiledAllow ExecutionGrant "ToolCapabilityManifest list"
  | CompiledApproval ApprovalRequestContract "CapabilityDecision list" "string list"
  | CompiledDeny "CapabilityDecision list" "string list"

definition CAPABILITY_ENFORCEMENT :: "(HarnessCapability \<times> CapabilityEnforcementKind) list" where
  "CAPABILITY_ENFORCEMENT =
     [(FilesystemRead, PathScope), (FilesystemWrite, PathScope), (WorktreeRead, PathScope),
      (WorktreeMutate, PathScope), (RepoRead, PathScope), (ProcessExec, ProcessLauncher),
      (TestsExecute, ProcessLauncher), (NetworkHttp, ServiceProxy), (ServiceMcp, ServiceProxy),
      (CredentialsUse, ServiceProxy), (MemoryQuery, MemoryBroker), (MemoryMutate, MemoryBroker),
      (SemanticJudge, ServiceProxy), (SettingsRead, ControlPlane), (SettingsWrite, ControlPlane),
      (SkillRead, PathScope), (SkillWrite, PathScope), (SourceRead, PathScope), (SourceWrite, PathScope),
      (ResearchExecute, ControlPlane), (WorkflowPlan, ControlPlane), (WorkflowDelegate, ControlPlane),
      (WorkflowMessage, ControlPlane), (PolicyModify, ControlPlane), (LearningPropose, ControlPlane),
      (PublishExecute, ControlPlane)]"

fun role_name :: "WorkerRole \<Rightarrow> string" where
  "role_name Orchestrator = ''orchestrator''"
| "role_name Planner = ''planner''"
| "role_name Explorer = ''explorer''"
| "role_name Implementer = ''implementer''"
| "role_name Operator = ''operator''"
| "role_name Verifier = ''verifier''"
| "role_name Database = ''database''"

fun budget_field_name :: "RiskBudgetField \<Rightarrow> string" where
  "budget_field_name BfMaxTokens = ''maxTokens''"
| "budget_field_name BfMaxWallClockMs = ''maxWallClockMs''"
| "budget_field_name BfMaxCostUsd = ''maxCostUsd''"
| "budget_field_name BfMaxAttempts = ''maxAttempts''"
| "budget_field_name BfMaxToolCalls = ''maxToolCalls''"
| "budget_field_name BfRequireApprovalAboveCostUsd = ''requireApprovalAboveCostUsd''"

text \<open>One requested capability: beyond the role's ceiling, in need of the owner's authority, or granted.\<close>

definition decide_capability ::
  "HarnessCapability list \<Rightarrow> HarnessCapability list \<Rightarrow> WorkerRole \<Rightarrow> HarnessCapability \<Rightarrow> CapabilityDecision" where
  "decide_capability roleCeiling authority role c =
     (if c \<notin> set roleCeiling then
        \<lparr>cd_capability = c, cd_allow = False, cd_reasonCode = ''role_ceiling_denied'', cd_source = role_name role\<rparr>
      else if c \<notin> set authority then
        \<lparr>cd_capability = c, cd_allow = False, cd_reasonCode = ''owner_authority_required'', cd_source = ''authority''\<rparr>
      else
        \<lparr>cd_capability = c, cd_allow = True, cd_reasonCode = ''role_and_authority_allowed'', cd_source = role_name role\<rparr>)"

definition manifest_enforced :: "ToolCapabilityManifest \<Rightarrow> bool" where
  "manifest_enforced manifest \<longleftrightarrow>
     list_all (\<lambda>c. case map_of CAPABILITY_ENFORCEMENT c of Some e \<Rightarrow> e \<in> set (man_enforcements manifest) | None \<Rightarrow> False)
       (man_capabilities manifest)"

text \<open>Why a requested tool cannot be compiled, or its manifest; of two manifests of a name the last is used.\<close>

definition compile_tool ::
  "string list \<Rightarrow> CompileExecutionGrantInput \<Rightarrow> HarnessCapability list \<Rightarrow> string \<Rightarrow> string + ToolCapabilityManifest" where
  "compile_tool granted input capabilities toolName =
     (case map_of (rev (map (\<lambda>m. (man_toolName m, m)) (ci_toolManifests input))) toolName of
        None \<Rightarrow> Inl (''unknown_tool:'' @ toolName)
      | Some manifest \<Rightarrow>
          if ci_role input \<notin> set (man_roles manifest) then Inl (''tool_role_denied:'' @ toolName)
          else if \<not> list_all (\<lambda>c. c \<in> set capabilities) (man_capabilities manifest)
          then Inl (''tool_capability_denied:'' @ toolName)
          else if (case getToolCapabilityPolicy granted toolName of
                     Some p \<Rightarrow> \<not> list_all (\<lambda>e. e \<in> set (man_enforcements manifest)) (pol_enforcements p)
                   | None \<Rightarrow> False)
          then Inl (''tool_enforcement_missing:'' @ toolName)
          else if \<not> manifest_enforced manifest then Inl (''tool_enforcement_missing:'' @ toolName)
          else Inr manifest)"

definition left_of :: "'a + 'b \<Rightarrow> 'a option" where
  "left_of x = (case x of Inl a \<Rightarrow> Some a | Inr _ \<Rightarrow> None)"

definition right_of :: "'a + 'b \<Rightarrow> 'b option" where
  "right_of x = (case x of Inr b \<Rightarrow> Some b | Inl _ \<Rightarrow> None)"

definition or_empty :: "'a list option \<Rightarrow> 'a list" where
  "or_empty xs = (case xs of Some ys \<Rightarrow> ys | None \<Rightarrow> [])"

text \<open>The owner's approval of what the authority lacks, capabilities or budget.\<close>

definition approval_request ::
  "timestamp \<Rightarrow> string \<Rightarrow> CompileExecutionGrantInput \<Rightarrow> HarnessCapability list \<Rightarrow> RiskBudget \<Rightarrow>
     RiskBudgetField list \<Rightarrow> ApprovalRequestContract" where
  "approval_request now newId input approvalCapabilities requestedBudget exceeded =
     \<lparr>apr_approvalId = ''approval-'' @ newId, apr_schemaVersion = ORCHESTRATION_SCHEMA_VERSION,
      apr_objectiveId = ci_objectiveId input, apr_taskId = Some (ci_taskId input),
      apr_attemptId = Some (ci_attemptId input),
      apr_reasonCode = (if exceeded \<noteq> [] then ''requested_budget_exceeds_authority''
                        else ''required_capability_needs_authority''),
      apr_summary =
        (if exceeded \<noteq> []
         then ''Requested budget exceeds authority for: '' @ js_join '', '' (map budget_field_name exceeded) @ ''.''
         else ''Required capabilities need owner authority: '' @
              js_join '', '' (map capability_name approvalCapabilities) @ ''.''),
      apr_requestedCapabilities = approvalCapabilities,
      apr_requestedBudget = (if requestedBudget = empty_budget then None else Some requestedBudget),
      apr_reversible = True, apr_createdAt = now\<rparr>"

text \<open>The rest of a compilation, once nothing needs approval: the tools, the path scopes, the grant.\<close>

definition compile_grant ::
  "string list \<Rightarrow> timestamp \<Rightarrow> string \<Rightarrow> CompileExecutionGrantInput \<Rightarrow> HarnessCapability list \<Rightarrow>
     CapabilityDecision list \<Rightarrow> RiskBudget \<Rightarrow> PolicyCompilationResult" where
  "compile_grant granted now newId input capabilities decisions budget =
     (let tools = map (compile_tool granted input capabilities) (js_unique (ci_requestedTools input));
          toolReasonCodes = List.map_filter left_of tools;
          allowedManifests = List.map_filter right_of tools;
          readPaths = js_unique (or_empty (ci_readPaths input));
          writePaths = js_unique (or_empty (ci_writePaths input));
          deniedPaths = js_unique (or_empty (ci_deniedPaths input)) in
      if toolReasonCodes \<noteq> [] then CompiledDeny decisions toolReasonCodes
      else if (FilesystemRead \<in> set capabilities \<or> WorktreeRead \<in> set capabilities) \<and> readPaths = []
      then CompiledDeny decisions [''read_capability_missing_positive_path_scope'']
      else if (FilesystemWrite \<in> set capabilities \<or> WorktreeMutate \<in> set capabilities) \<and> writePaths = []
      then CompiledDeny decisions [''write_capability_missing_positive_path_scope'']
      else CompiledAllow
        \<lparr>grant_grantId = ''grant-'' @ newId, grant_schemaVersion = ORCHESTRATION_SCHEMA_VERSION,
         grant_objectiveId = ci_objectiveId input, grant_taskId = ci_taskId input,
         grant_attemptId = ci_attemptId input, grant_subjectId = ci_subjectId input,
         grant_role = ci_role input, grant_capabilities = capabilities,
         grant_allowedTools = map man_toolName allowedManifests,
         grant_resources = or_empty (ci_resources input), grant_readPaths = readPaths,
         grant_writePaths = writePaths, grant_deniedPaths = deniedPaths, grant_budget = budget,
         grant_policyVersion = ci_policyVersion input, grant_decisionTrace = decisions, grant_issuedAt = now,
         grant_expiresAt = (case ci_expiresAt input of Some (Unparsable []) \<Rightarrow> None | x \<Rightarrow> x)\<rparr>
        allowedManifests)"

definition requested_capabilities :: "CompileExecutionGrantInput \<Rightarrow> HarnessCapability list" where
  "requested_capabilities input =
     (let required = js_unique (ci_requiredCapabilities input)
      in js_unique ((case ci_requestedCapabilities input of Some cs \<Rightarrow> cs | None \<Rightarrow> required) @ required))"

definition given_budget :: "RiskBudget option \<Rightarrow> RiskBudget" where
  "given_budget b = (case b of Some b \<Rightarrow> b | None \<Rightarrow> empty_budget)"

definition compile ::
  "string list \<Rightarrow> role_ceilings \<Rightarrow> timestamp \<Rightarrow> string \<Rightarrow> CompileExecutionGrantInput \<Rightarrow>
     budget_error + PolicyCompilationResult" where
  "compile granted ceilings now newId input =
     (let required = js_unique (ci_requiredCapabilities input);
          requested = requested_capabilities input;
          authority = ci_authorityCapabilities input;
          roleCeiling = ceilings (ci_role input);
          decisions = map (decide_capability roleCeiling authority (ci_role input)) requested;
          roleDenied = filter (\<lambda>c. c \<notin> set roleCeiling) requested;
          approvalCapabilities = filter (\<lambda>c. c \<in> set roleCeiling \<and> c \<notin> set authority) requested;
          capabilities = filter (\<lambda>c. c \<in> set roleCeiling \<and> c \<in> set authority) requested;
          requestedBudget = given_budget (ci_requestedBudget input);
          authorityBudget = given_budget (ci_authorityBudget input);
          exceeded = exceededRiskBudgetFields requestedBudget authorityBudget in
      if list_ex (\<lambda>c. c \<in> set required) roleDenied
      then Inr (CompiledDeny decisions [''required_capability_exceeds_role_ceiling''])
      else
        bindE (validateRiskBudget requestedBudget) (\<lambda>_.
        bindE (validateRiskBudget authorityBudget) (\<lambda>_.
        if list_ex (\<lambda>c. c \<in> set required) approvalCapabilities \<or> exceeded \<noteq> [] then
          let approval = approval_request now newId input approvalCapabilities requestedBudget exceeded
          in Inr (CompiledApproval approval decisions [apr_reasonCode approval])
        else Inr (compile_grant granted now newId input capabilities decisions
                    (intersectRiskBudgets [requestedBudget, authorityBudget])))))"

section \<open>What a compilation decides\<close>

lemma list_all2_member: "list_all2 P xs ys \<Longrightarrow> x \<in> set xs \<Longrightarrow> \<exists>y \<in> set ys. P x y"
  by (induction xs ys rule: list_all2_induct) auto

lemma set_requested:
  "set (requested_capabilities input) =
     set (or_empty (ci_requestedCapabilities input)) \<union> set (ci_requiredCapabilities input)"
  by (cases "ci_requestedCapabilities input") (auto simp: requested_capabilities_def or_empty_def Let_def)

lemma left_of_None: "List.map_filter left_of xs = [] \<longleftrightarrow> (\<forall>x \<in> set xs. \<exists>b. x = Inr b)"
  by (induction xs) (auto simp: left_of_def split: sum.splits)

lemma right_of_all: "\<forall>x \<in> set xs. \<exists>b. f x = Inr b \<Longrightarrow>
   list_all2 (\<lambda>m x. f x = Inr m) (List.map_filter right_of (map f xs)) xs"
  by (induction xs) (auto simp: right_of_def)

lemma compile_tool_Inr:
  assumes "compile_tool granted input caps toolName = Inr manifest"
  shows "manifest \<in> set (ci_toolManifests input)" "man_toolName manifest = toolName"
    "ci_role input \<in> set (man_roles manifest)" "set (man_capabilities manifest) \<subseteq> set caps"
    "\<And>p. getToolCapabilityPolicy granted toolName = Some p \<Longrightarrow> set (pol_enforcements p) \<subseteq> set (man_enforcements manifest)"
    "manifest_enforced manifest"
proof -
  from assms have m: "map_of (rev (map (\<lambda>m. (man_toolName m, m)) (ci_toolManifests input))) toolName = Some manifest"
    and rest: "ci_role input \<in> set (man_roles manifest)" "list_all (\<lambda>c. c \<in> set caps) (man_capabilities manifest)"
      "\<And>p. getToolCapabilityPolicy granted toolName = Some p \<Longrightarrow>
         list_all (\<lambda>e. e \<in> set (man_enforcements manifest)) (pol_enforcements p)"
      "manifest_enforced manifest"
    by (auto simp: compile_tool_def split: option.split_asm if_split_asm)
  from map_of_SomeD [OF m] show "manifest \<in> set (ci_toolManifests input)" "man_toolName manifest = toolName" by auto
  from rest show "ci_role input \<in> set (man_roles manifest)" "set (man_capabilities manifest) \<subseteq> set caps"
    "\<And>p. getToolCapabilityPolicy granted toolName = Some p \<Longrightarrow> set (pol_enforcements p) \<subseteq> set (man_enforcements manifest)"
    "manifest_enforced manifest"
    by (auto simp: list_all_iff)
qed

text \<open>The compiled budget caps every field either side caps, and never above it.\<close>

lemma intersect_capped:
  assumes valid: "\<forall>b \<in> set bs. validateRiskBudget b = Inr ()" and b: "b \<in> set bs" "budget_get b f = Some (Fin a)"
  shows "\<exists>g. budget_get (intersectRiskBudgets bs) f = Some (Fin g) \<and> g \<le> a"
proof -
  have least: "\<exists>q. math_min (budget_field_values bs h) = Fin q \<and> (\<forall>b \<in> set bs. \<forall>p. budget_get b h = Some (Fin p) \<longrightarrow> q \<le> p)"
    if "budget_field_values bs h \<noteq> []" for h
    by (rule math_min_validated [OF valid that]) blast
  have ne: "budget_field_values bs f \<noteq> []" using b set_budget_field_values [of "Fin a" bs f] by auto
  with least b obtain q where q: "math_min (budget_field_values bs f) = Fin q" "q \<le> a" by blast
  show ?thesis
  proof (cases "f = BfMaxCostUsd \<and> budget_field_values bs BfRequireApprovalAboveCostUsd \<noteq> []")
    case True
    with least obtain t where "math_min (budget_field_values bs BfRequireApprovalAboveCostUsd) = Fin t" by blast
    with True ne q have "budget_get (intersectRiskBudgets bs) f = Some (js_min (Fin q) (Fin t))"
      by (simp only: budget_get_intersect Let_def) simp
    with q show ?thesis by auto
  next
    case False
    with ne q show ?thesis by (auto simp: budget_get_intersect Let_def)
  qed
qed

definition granted_capabilities :: "role_ceilings \<Rightarrow> CompileExecutionGrantInput \<Rightarrow> HarnessCapability list" where
  "granted_capabilities ceilings input =
     filter (\<lambda>c. c \<in> set (ceilings (ci_role input)) \<and> c \<in> set (ci_authorityCapabilities input)) (requested_capabilities input)"

lemma required_requested: "set (ci_requiredCapabilities input) \<subseteq> set (requested_capabilities input)"
  by (simp add: set_requested)

text \<open>The three ways a compilation of valid budgets ends.\<close>

lemma compile_cases:
  assumes "validateRiskBudget (given_budget (ci_requestedBudget input)) = Inr ()"
    and "validateRiskBudget (given_budget (ci_authorityBudget input)) = Inr ()"
  shows "compile granted ceilings now newId input =
    (let decisions = map (decide_capability (ceilings (ci_role input)) (ci_authorityCapabilities input) (ci_role input))
                       (requested_capabilities input);
         exceeded = exceededRiskBudgetFields (given_budget (ci_requestedBudget input)) (given_budget (ci_authorityBudget input)) in
     if \<not> set (ci_requiredCapabilities input) \<subseteq> set (ceilings (ci_role input))
     then Inr (CompiledDeny decisions [''required_capability_exceeds_role_ceiling''])
     else if \<not> set (ci_requiredCapabilities input) \<subseteq> set (ci_authorityCapabilities input) \<or> exceeded \<noteq> []
     then let approval = approval_request now newId input
                (filter (\<lambda>c. c \<in> set (ceilings (ci_role input)) \<and> c \<notin> set (ci_authorityCapabilities input))
                   (requested_capabilities input)) (given_budget (ci_requestedBudget input)) exceeded
          in Inr (CompiledApproval approval decisions [apr_reasonCode approval])
     else Inr (compile_grant granted now newId input (granted_capabilities ceilings input) decisions
            (intersectRiskBudgets [given_budget (ci_requestedBudget input), given_budget (ci_authorityBudget input)])))"
proof -
  have denied: "list_ex (\<lambda>c. c \<in> set (js_unique (ci_requiredCapabilities input)))
      (filter (\<lambda>c. c \<notin> set (ceilings (ci_role input))) (requested_capabilities input)) \<longleftrightarrow>
    \<not> set (ci_requiredCapabilities input) \<subseteq> set (ceilings (ci_role input))"
    using required_requested [of input] by (auto simp: list_ex_iff)
  have lacking: "list_ex (\<lambda>c. c \<in> set (js_unique (ci_requiredCapabilities input)))
      (filter (\<lambda>c. c \<in> set (ceilings (ci_role input)) \<and> c \<notin> set (ci_authorityCapabilities input)) (requested_capabilities input)) \<longleftrightarrow>
    \<not> set (ci_requiredCapabilities input) \<subseteq> set (ci_authorityCapabilities input)"
    if "set (ci_requiredCapabilities input) \<subseteq> set (ceilings (ci_role input))"
    using required_requested [of input] that by (auto simp: list_ex_iff)
  show ?thesis
    unfolding compile_def Let_def denied granted_capabilities_def [symmetric]
    using assms lacking by simp
qed

lemma compile_valid:
  assumes "compile granted ceilings now newId input = Inr (CompiledAllow g ms)"
  shows "validateRiskBudget (given_budget (ci_requestedBudget input)) = Inr ()"
    "validateRiskBudget (given_budget (ci_authorityBudget input)) = Inr ()"
  using assms by (simp_all add: compile_def Let_def split: if_split_asm)

lemma compile_allow:
  assumes "compile granted ceilings now newId input = Inr (CompiledAllow g ms)"
  shows "set (ci_requiredCapabilities input) \<subseteq> set (ceilings (ci_role input))"
    "set (ci_requiredCapabilities input) \<subseteq> set (ci_authorityCapabilities input)"
    "exceededRiskBudgetFields (given_budget (ci_requestedBudget input)) (given_budget (ci_authorityBudget input)) = []"
    "\<exists>decisions. compile_grant granted now newId input (granted_capabilities ceilings input) decisions
       (intersectRiskBudgets [given_budget (ci_requestedBudget input), given_budget (ci_authorityBudget input)]) = CompiledAllow g ms"
  using assms unfolding compile_cases [OF compile_valid [OF assms]] Let_def
  by (auto split: if_split_asm)

lemma grant_allow:
  assumes "compile_grant granted now newId input capabilities decisions budget = CompiledAllow g ms"
  shows "list_all2 (\<lambda>m t. compile_tool granted input capabilities t = Inr m) ms (js_unique (ci_requestedTools input))"
    and "grant_capabilities g = capabilities" "grant_allowedTools g = map man_toolName ms" "grant_budget g = budget"
      "grant_readPaths g = js_unique (or_empty (ci_readPaths input))"
      "grant_writePaths g = js_unique (or_empty (ci_writePaths input))"
      "grant_deniedPaths g = js_unique (or_empty (ci_deniedPaths input))"
    and "{FilesystemRead, WorktreeRead} \<inter> set capabilities \<noteq> {} \<Longrightarrow> grant_readPaths g \<noteq> []"
      "{FilesystemWrite, WorktreeMutate} \<inter> set capabilities \<noteq> {} \<Longrightarrow> grant_writePaths g \<noteq> []"
    and "grant_objectiveId g = ci_objectiveId input" "grant_taskId g = ci_taskId input"
      "grant_attemptId g = ci_attemptId input" "grant_role g = ci_role input"
      "grant_grantId g = ''grant-'' @ newId" "grant_schemaVersion g = ORCHESTRATION_SCHEMA_VERSION"
proof -
  let ?tools = "map (compile_tool granted input capabilities) (js_unique (ci_requestedTools input))"
  have none: "List.map_filter left_of ?tools = []" and ms: "ms = List.map_filter right_of ?tools"
    using assms by (auto simp: compile_grant_def Let_def split: if_split_asm)
  show "list_all2 (\<lambda>m t. compile_tool granted input capabilities t = Inr m) ms (js_unique (ci_requestedTools input))"
    using none unfolding ms by (intro right_of_all) (auto simp: left_of_None)
qed (use assms in \<open>auto simp: compile_grant_def Let_def split: if_split_asm\<close>)

text \<open>
  C32: a compiled grant never exceeds the authority it was compiled from. Its capabilities lie within the
  owner's authority and the role's ceiling and contain every required one; each of its tools was requested and
  has a manifest for the role whose capabilities are all granted and enforced; every limit of the authority's
  and of the requested budget caps the grant's; and the four capabilities to read or write the file system or a worktree
  come with a positive path of that kind (those for the repository, skills and sources come without).
\<close>

theorem compiled_grant_bounded:
  assumes "compile granted ceilings now newId input = Inr (CompiledAllow g ms)"
  shows "set (ci_requiredCapabilities input) \<subseteq> set (grant_capabilities g) \<and>
    set (grant_capabilities g) \<subseteq> set (ci_authorityCapabilities input) \<inter> set (ceilings (ci_role input)) \<and>
    (\<forall>t \<in> set (grant_allowedTools g). t \<in> set (ci_requestedTools input) \<and>
       (\<exists>m \<in> set (ci_toolManifests input). man_toolName m = t \<and> ci_role input \<in> set (man_roles m) \<and>
          set (man_capabilities m) \<subseteq> set (grant_capabilities g) \<and> manifest_enforced m)) \<and>
    (\<forall>b \<in> {given_budget (ci_requestedBudget input), given_budget (ci_authorityBudget input)}. \<forall>f a.
       budget_get b f = Some a \<longrightarrow> (\<exists>q p. a = Fin p \<and> budget_get (grant_budget g) f = Some (Fin q) \<and> q \<le> p)) \<and>
    ({FilesystemRead, WorktreeRead} \<inter> set (grant_capabilities g) \<noteq> {} \<longrightarrow> grant_readPaths g \<noteq> []) \<and>
    ({FilesystemWrite, WorktreeMutate} \<inter> set (grant_capabilities g) \<noteq> {} \<longrightarrow> grant_writePaths g \<noteq> [])"
proof (intro conjI ballI allI impI)
  obtain decisions where run: "compile_grant granted now newId input (granted_capabilities ceilings input) decisions
       (intersectRiskBudgets [given_budget (ci_requestedBudget input), given_budget (ci_authorityBudget input)]) = CompiledAllow g ms"
    using compile_allow(4) [OF assms] by blast
  note facts = grant_allow [OF run]
  show "set (ci_requiredCapabilities input) \<subseteq> set (grant_capabilities g)"
    using compile_allow(1,2) [OF assms] required_requested [of input] by (auto simp: facts(2) granted_capabilities_def)
  show "set (grant_capabilities g) \<subseteq> set (ci_authorityCapabilities input) \<inter> set (ceilings (ci_role input))"
    by (auto simp: facts(2) granted_capabilities_def)
  show "grant_readPaths g \<noteq> []" if "{FilesystemRead, WorktreeRead} \<inter> set (grant_capabilities g) \<noteq> {}"
    using that facts(8) by (simp add: facts(2))
  show "grant_writePaths g \<noteq> []" if "{FilesystemWrite, WorktreeMutate} \<inter> set (grant_capabilities g) \<noteq> {}"
    using that facts(9) by (simp add: facts(2))
  fix t assume "t \<in> set (grant_allowedTools g)"
  then obtain m where m: "m \<in> set ms" "man_toolName m = t" using facts(3) by auto
  from list_all2_member [OF facts(1) m(1)] obtain u where
    u: "u \<in> set (ci_requestedTools input)" "compile_tool granted input (grant_capabilities g) u = Inr m"
    using facts(2) by auto
  note tool = compile_tool_Inr [OF u(2)]
  with m u show "t \<in> set (ci_requestedTools input)" by simp
  from tool m show "\<exists>m \<in> set (ci_toolManifests input). man_toolName m = t \<and> ci_role input \<in> set (man_roles m) \<and>
      set (man_capabilities m) \<subseteq> set (grant_capabilities g) \<and> manifest_enforced m" by blast
next
  obtain decisions where run: "compile_grant granted now newId input (granted_capabilities ceilings input) decisions
       (intersectRiskBudgets [given_budget (ci_requestedBudget input), given_budget (ci_authorityBudget input)]) = CompiledAllow g ms"
    using compile_allow(4) [OF assms] by blast
  fix b f a assume b: "b \<in> {given_budget (ci_requestedBudget input), given_budget (ci_authorityBudget input)}"
    and get: "budget_get b f = Some a"
  from b compile_valid [OF assms] have "validateRiskBudget b = Inr ()" by auto
  from validated_field [OF this get] obtain p where "a = Fin p" by blast
  with intersect_capped [of "[given_budget (ci_requestedBudget input), given_budget (ci_authorityBudget input)]" b f p]
    b get compile_valid [OF assms] grant_allow(4) [OF run]
  show "\<exists>q p. a = Fin p \<and> budget_get (grant_budget g) f = Some (Fin q) \<and> q \<le> p" by auto
qed

definition sample_manifest :: ToolCapabilityManifest where
  "sample_manifest = \<lparr>man_toolName = ''read'', man_moduleSpecifier = [], man_capabilities = [FilesystemRead],
     man_roles = [Implementer], man_enforcements = [PathScope], man_sourcePath = None\<rparr>"

definition sample_input :: CompileExecutionGrantInput where
  "sample_input = \<lparr>ci_objectiveId = ''o'', ci_taskId = ''t'', ci_attemptId = ''a'', ci_subjectId = ''g'',
     ci_role = Implementer, ci_requiredCapabilities = [FilesystemRead],
     ci_requestedCapabilities = Some [FilesystemRead, NetworkHttp], ci_authorityCapabilities = [FilesystemRead, ProcessExec],
     ci_requestedTools = [''read''], ci_toolManifests = [sample_manifest], ci_resources = None,
     ci_readPaths = Some [''/w''], ci_writePaths = None, ci_deniedPaths = None,
     ci_requestedBudget = None, ci_authorityBudget = Some (empty_budget\<lparr>maxToolCalls := Some (Fin 5)\<rparr>),
     ci_policyVersion = ''1'', ci_expiresAt = None\<rparr>"

lemma sample_compiled:
  "case compile [] DEFAULT_ROLE_CAPABILITY_CEILINGS (At 0) ''i'' sample_input of
     Inr (CompiledAllow g ms) \<Rightarrow> grant_capabilities g = [FilesystemRead] | _ \<Rightarrow> False"
  by code_simp

lemma sample_compiledE:
  obtains g ms where "compile [] DEFAULT_ROLE_CAPABILITY_CEILINGS (At 0) ''i'' sample_input = Inr (CompiledAllow g ms)"
    and "grant_capabilities g = [FilesystemRead]"
  using sample_compiled that by (auto split: sum.splits PolicyCompilationResult.splits)

lemma compiled_grant_bounded_witness:
  "\<exists>g ms. compile [] DEFAULT_ROLE_CAPABILITY_CEILINGS (At 0) ''i'' sample_input = Inr (CompiledAllow g ms) \<and>
     FilesystemRead \<in> set (grant_capabilities g) \<and> grant_readPaths g \<noteq> []"
proof -
  obtain g ms where run: "compile [] DEFAULT_ROLE_CAPABILITY_CEILINGS (At 0) ''i'' sample_input = Inr (CompiledAllow g ms)"
    and caps: "grant_capabilities g = [FilesystemRead]" by (rule sample_compiledE)
  from compiled_grant_bounded [OF run]
  have "{FilesystemRead, WorktreeRead} \<inter> set (grant_capabilities g) \<noteq> {} \<longrightarrow> grant_readPaths g \<noteq> []" by blast
  with run caps show ?thesis by simp
qed

text \<open>
  Which compilations ask the owner. With valid budgets a compilation asks for approval exactly when every
  required capability is within the role's ceiling and either one of them, or a limit of the requested budget,
  is beyond the authority; a capability that is requested but not required never causes a request, and the
  request lists exactly the requested capabilities within the ceiling that the authority lacks.
\<close>

theorem approval_exact:
  assumes "validateRiskBudget (given_budget (ci_requestedBudget input)) = Inr ()"
    and "validateRiskBudget (given_budget (ci_authorityBudget input)) = Inr ()"
  shows "((\<exists>approval decisions codes. compile granted ceilings now newId input = Inr (CompiledApproval approval decisions codes)) \<longleftrightarrow>
      set (ci_requiredCapabilities input) \<subseteq> set (ceilings (ci_role input)) \<and>
      (\<not> set (ci_requiredCapabilities input) \<subseteq> set (ci_authorityCapabilities input) \<or>
       exceededRiskBudgetFields (given_budget (ci_requestedBudget input)) (given_budget (ci_authorityBudget input)) \<noteq> [])) \<and>
    (\<forall>approval decisions codes. compile granted ceilings now newId input = Inr (CompiledApproval approval decisions codes) \<longrightarrow>
      set (apr_requestedCapabilities approval) =
        (set (or_empty (ci_requestedCapabilities input)) \<union> set (ci_requiredCapabilities input)) \<inter>
        set (ceilings (ci_role input)) - set (ci_authorityCapabilities input))"
proof -
  have not: "compile_grant granted now newId input caps ds b \<noteq> CompiledApproval approval decisions codes"
    for caps ds b approval decisions codes by (simp add: compile_grant_def Let_def)
  have listed: "set (apr_requestedCapabilities (approval_request now newId input caps b exceeded)) = set caps"
    for caps b exceeded by (simp add: approval_request_def)
  show ?thesis
    unfolding compile_cases [OF assms] Let_def using not listed by (auto simp: set_requested)
qed

lemma approval_exact_witness:
  "\<exists>approval decisions codes. compile [] DEFAULT_ROLE_CAPABILITY_CEILINGS (At 0) ''i''
     (sample_input\<lparr>ci_requiredCapabilities := [NetworkHttp]\<rparr>) = Inr (CompiledApproval approval decisions codes)"
proof -
  let ?input = "sample_input\<lparr>ci_requiredCapabilities := [NetworkHttp]\<rparr>"
  have "validateRiskBudget (given_budget (ci_requestedBudget ?input)) = Inr ()"
    "validateRiskBudget (given_budget (ci_authorityBudget ?input)) = Inr ()"
    "set (ci_requiredCapabilities ?input) \<subseteq> set (DEFAULT_ROLE_CAPABILITY_CEILINGS (ci_role ?input))"
    "\<not> set (ci_requiredCapabilities ?input) \<subseteq> set (ci_authorityCapabilities ?input)"
    by code_simp+
  with approval_exact [of ?input "[]" DEFAULT_ROLE_CAPABILITY_CEILINGS "At 0" "''i''"] show ?thesis by blast
qed

section \<open>Lane manifests\<close>

text \<open>The tools with an alternative whose capability their own enforcements do not cover.\<close>

definition UNCOVERED_TOOL_NAMES :: "string list" where
  "UNCOVERED_TOOL_NAMES = [''runtime_update'', ''task_steps'', ''task_directory'', ''tool_task'', ''ask_question'', ''pi_collaboration'']"

definition policy_covered :: "ToolCapabilityPolicy \<Rightarrow> bool" where
  "policy_covered p \<longleftrightarrow> list_all (list_all (\<lambda>c. case map_of CAPABILITY_ENFORCEMENT c of
     Some e \<Rightarrow> e \<in> set (pol_enforcements p) | None \<Rightarrow> False)) (pol_capabilityClauses p)"

lemma uncovered_tools: "map fst (filter (\<lambda>(t, p). \<not> policy_covered p) TOOL_CAPABILITY_POLICIES) = UNCOVERED_TOOL_NAMES"
  by code_simp

lemma covered_policy:
  assumes "getToolCapabilityPolicy granted toolName = Some p" and "js_lower toolName \<notin> set UNCOVERED_TOOL_NAMES"
  shows "policy_covered p"
proof (cases "map_of TOOL_CAPABILITY_POLICIES (js_lower toolName)")
  case (Some q)
  with assms(1) have "(js_lower toolName, p) \<in> set TOOL_CAPABILITY_POLICIES"
    by (auto simp: getToolCapabilityPolicy_def Let_def dest: map_of_SomeD)
  with assms(2) show ?thesis by (force simp flip: uncovered_tools)
next
  case None
  with assms(1) have "p = GRANTED_EXTENSION_TOOL_POLICY"
    by (auto simp: getToolCapabilityPolicy_def Let_def split: if_split_asm)
  moreover have "policy_covered GRANTED_EXTENSION_TOOL_POLICY" by code_simp
  ultimately show ?thesis by simp
qed

lemma lane_manifest_Some:
  assumes "lane_manifest granted profile toolName = Some m"
  obtains p sel where "getToolCapabilityPolicy granted toolName = Some p"
    and "resolve_clauses (pf_capabilityCeiling profile) (pol_capabilityClauses p) = Some sel"
    and "man_toolName m = toolName" "man_capabilities m = sel" "man_roles m = [pf_role profile]"
      "man_enforcements m = pol_enforcements p"
  using assms that
  by (auto simp: lane_manifest_def resolveProfileToolCapabilities_def default_clauses split: option.splits if_splits)

lemma lane_manifest_of:
  "m \<in> set (buildLaneToolManifests granted profile enabled) \<Longrightarrow> lane_manifest granted profile (man_toolName m) = Some m"
proof -
  assume "m \<in> set (buildLaneToolManifests granted profile enabled)"
  then obtain t where t: "lane_manifest granted profile t = Some m"
    by (auto simp: buildLaneToolManifests_def List.map_filter_def)
  then have "man_toolName m = t" by (rule lane_manifest_Some)
  with t show ?thesis by simp
qed

lemma map_of_named:
  "m \<in> set ms \<Longrightarrow> \<forall>x \<in> set ms. \<forall>y \<in> set ms. f x = f y \<longrightarrow> x = y \<Longrightarrow> map_of (map (\<lambda>m. (f m, m)) ms) (f m) = Some m"
  by (induction ms) auto

text \<open>
  C33: the lane catalogue and the compiler agree. A manifest the lane builds for an enabled tool of a profile is
  accepted by the compiler whenever the profile's capability ceiling is granted, for every tool, granted
  extension tools included, except six catalogued ones whose own policy offers a capability its enforcements do
  not cover.
\<close>

theorem lane_manifests_compile:
  assumes "m \<in> set (buildLaneToolManifests granted profile enabled)"
    and "js_lower (man_toolName m) \<notin> set UNCOVERED_TOOL_NAMES"
    and "ci_toolManifests input = buildLaneToolManifests granted profile enabled"
    and "ci_role input = pf_role profile" and "set (pf_capabilityCeiling profile) \<subseteq> set capabilities"
  shows "compile_tool granted input capabilities (man_toolName m) = Inr m"
proof -
  from lane_manifest_of [OF assms(1)] obtain p sel where p: "getToolCapabilityPolicy granted (man_toolName m) = Some p"
    and sel: "resolve_clauses (pf_capabilityCeiling profile) (pol_capabilityClauses p) = Some sel"
    and m: "man_capabilities m = sel" "man_roles m = [pf_role profile]" "man_enforcements m = pol_enforcements p"
    by (rule lane_manifest_Some) blast
  have "x = y" if "x \<in> set (ci_toolManifests input)" "y \<in> set (ci_toolManifests input)" "man_toolName x = man_toolName y" for x y
    using that lane_manifest_of unfolding assms(3) by (metis option.inject)
  then have found: "map_of (rev (map (\<lambda>m. (man_toolName m, m)) (ci_toolManifests input))) (man_toolName m) = Some m"
    using assms(1,3) unfolding rev_map by (intro map_of_named) auto
  have held: "set sel \<subseteq> set capabilities" using resolve_clauses_held [OF sel] assms(5) by blast
  have "manifest_enforced m"
    unfolding manifest_enforced_def m(1,3) list_all_iff
  proof
    fix c assume "c \<in> set sel"
    with resolve_clauses_Some [OF sel] obtain clause where "clause \<in> set (pol_capabilityClauses p)" "c \<in> set clause"
      by (auto dest: list_all2_member)
    with covered_policy [OF p assms(2)] show "case map_of CAPABILITY_ENFORCEMENT c of
        Some e \<Rightarrow> e \<in> set (pol_enforcements p) | None \<Rightarrow> False"
      unfolding policy_covered_def list_all_iff by blast
  qed
  with found p m held assms(4) show ?thesis by (auto simp: compile_tool_def list_all_iff)
qed

definition sample_profile :: OrchestrationProfile where
  "sample_profile = \<lparr>pf_schemaVersion = 1, pf_profileId = ''p'', pf_description = [], pf_role = Implementer,
     pf_modelPolicy = \<lparr>mp_mode = FixedModel, mp_candidates = []\<rparr>,
     pf_capabilityCeiling = [FilesystemRead, ProcessExec], pf_toolNames = [''read'', ''sh'', ''write''],
     pf_readOnly = None, pf_shellReadOnly = None, pf_workspacePath = None, pf_writePaths = None,
     pf_resourceProfileNames = [], pf_dispatchProfileIds = [], pf_executionPolicy = None,
     pf_delegationLimits = None, pf_budget = empty_budget, pf_maxConcurrent = Fin 1, pf_leaseTtlMs = Fin 1000,
     pf_requireIndependentVerification = False, pf_verificationProfileId = None, pf_sourcePath = None,
     pf_createdAt = At 0, pf_updatedAt = At 0\<rparr>"

lemma lane_manifests_compile_witness:
  "\<exists>m. man_toolName m = ''bash'' \<and>
     compile_tool [] (sample_input\<lparr>ci_toolManifests := buildLaneToolManifests [] sample_profile [''read'', ''bash'']\<rparr>)
       [FilesystemRead, ProcessExec, NetworkHttp] ''bash'' = Inr m"
proof -
  let ?ms = "buildLaneToolManifests [] sample_profile [''read'', ''bash'']"
  have "map man_toolName ?ms = [''read'', ''bash'']" by code_simp
  then have "''bash'' \<in> man_toolName ` set ?ms" by (simp flip: set_map)
  then obtain m where m: "m \<in> set ?ms" "man_toolName m = ''bash''" by auto
  moreover have "js_lower ''bash'' \<notin> set UNCOVERED_TOOL_NAMES" by code_simp
  ultimately show ?thesis
    using lane_manifests_compile [of m "[]" sample_profile "[''read'', ''bash'']"
        "sample_input\<lparr>ci_toolManifests := ?ms\<rparr>" "[FilesystemRead, ProcessExec, NetworkHttp]"]
    by (auto simp: sample_input_def sample_profile_def)
qed

text \<open>
  The exception is met: an orchestration profile may list \<open>task_directory\<close>; with \<open>memory.mutate\<close> in its
  ceiling and not \<open>workflow.plan\<close> the lane builds a manifest the compiler refuses.
\<close>

lemma task_directory_refused:
  "''task_directory'' \<in> set ORCHESTRATION_PROFILE_TOOL_NAMES \<and>
   (let profile = sample_profile\<lparr>pf_capabilityCeiling := [MemoryMutate], pf_toolNames := [''task_directory'']\<rparr>;
        ms = buildLaneToolManifests [] profile [''task_directory''] in
    map man_toolName ms = [''task_directory''] \<and>
    compile_tool [] (sample_input\<lparr>ci_toolManifests := ms\<rparr>) [MemoryMutate] ''task_directory''
      = Inl ''tool_enforcement_missing:task_directory'')"
  by code_simp

end
