(* ===== verification/Path_Scope.thy ===== *)
theory Path_Scope
  imports Js_Strings
begin

text \<open>
  Containment of paths (\<open>core/autonomy/path-scope.ts\<close>): the lexical test, the resolution of symbolic links
  that precedes it, and the decision on a path scope. The POSIX half of \<open>node:path\<close> is modelled as the
  documentation and the algorithms of Node give it; its Windows half and the file system are parameters.
  The host is a POSIX host, so \<open>path\<close> is \<open>path.posix\<close>.
\<close>

section \<open>The POSIX path functions of Node\<close>

definition posix_isAbsolute :: "string \<Rightarrow> bool" where
  "posix_isAbsolute p \<longleftrightarrow> (case p of c # _ \<Rightarrow> c = CHR ''/'' | [] \<Rightarrow> False)"

text \<open>
  The segments of a path with the empty and \<open>.\<close> ones dropped and every \<open>..\<close> taken back, the result held in
  reverse. At the top a \<open>..\<close> is dropped, or kept when \<open>climb\<close> allows it.
\<close>

fun norm_segments :: "bool \<Rightarrow> string list \<Rightarrow> string list \<Rightarrow> string list" where
  "norm_segments climb acc [] = rev acc"
| "norm_segments climb acc (s # ss) =
     (if s = [] \<or> s = ''.'' then norm_segments climb acc ss
      else if s = ''..'' then
        (case acc of
           t # ts \<Rightarrow> if t = ''..'' then norm_segments climb (if climb then ''..'' # acc else acc) ss
                     else norm_segments climb ts ss
         | [] \<Rightarrow> norm_segments climb (if climb then [''..''] else []) ss)
      else norm_segments climb (s # acc) ss)"

definition abs_path :: "string list \<Rightarrow> string" where
  "abs_path segs = CHR ''/'' # js_join ''/'' segs"

text \<open>
  \<open>resolve(...args)\<close> prepends the arguments from the right, the working directory last, until the text is
  absolute.
\<close>

fun resolve_text :: "string list \<Rightarrow> string \<Rightarrow> bool \<times> string" where
  "resolve_text [] text = (False, text)"
| "resolve_text (p # ps) text =
     (if p = [] then resolve_text ps text
      else if posix_isAbsolute p then (True, p @ ''/'' @ text)
      else resolve_text ps (p @ ''/'' @ text))"

definition posix_resolve :: "string \<Rightarrow> string list \<Rightarrow> string" where
  "posix_resolve cwd args =
     (let (isAbs, text) = resolve_text (rev args @ [cwd]) [] in
      if isAbs then abs_path (norm_segments False [] (js_split (CHR ''/'') text))
      else let relative = js_join ''/'' (norm_segments True [] (js_split (CHR ''/'') text))
           in if relative = [] then ''.'' else relative)"

definition posix_normalize :: "string \<Rightarrow> string" where
  "posix_normalize p =
     (if p = [] then ''.''
      else
        let isAbs = posix_isAbsolute p; trailing = last p = CHR ''/'';
            body = js_join ''/'' (norm_segments (\<not> isAbs) [] (js_split (CHR ''/'') p)) in
        if body = [] then (if isAbs then ''/'' else if trailing then ''./'' else ''.'')
        else (if isAbs then ''/'' else []) @ body @ (if trailing then ''/'' else []))"

definition posix_join :: "string list \<Rightarrow> string" where
  "posix_join parts =
     (let nonempty = filter (\<lambda>p. p \<noteq> []) parts in
      if nonempty = [] then ''.'' else posix_normalize (js_join ''/'' nonempty))"

definition strip_slashes :: "string \<Rightarrow> string" where
  "strip_slashes p = rev (dropWhile (\<lambda>c. c = CHR ''/'') (rev p))"

text \<open>The scan for the last separator never looks at the first character.\<close>

definition posix_dirname :: "string \<Rightarrow> string" where
  "posix_dirname p =
     (case p of
        [] \<Rightarrow> ''.''
      | c # body \<Rightarrow>
          (case dropWhile (\<lambda>x. x \<noteq> CHR ''/'') (rev (strip_slashes body)) of
             [] \<Rightarrow> if c = CHR ''/'' then ''/'' else ''.''
           | _ # front \<Rightarrow> if c = CHR ''/'' \<and> front = [] then ''//'' else c # rev front))"

definition posix_basename :: "string \<Rightarrow> string" where
  "posix_basename p = rev (takeWhile (\<lambda>c. c \<noteq> CHR ''/'') (rev (strip_slashes p)))"

definition path_segments :: "string \<Rightarrow> string list" where
  "path_segments p = filter (\<lambda>s. s \<noteq> []) (js_split (CHR ''/'') p)"

fun relative_segments :: "string list \<Rightarrow> string list \<Rightarrow> string list" where
  "relative_segments (f # fs) (t # ts) =
     (if f = t then relative_segments fs ts else replicate (length (f # fs)) ''..'' @ t # ts)"
| "relative_segments fs ts = replicate (length fs) ''..'' @ ts"

definition posix_relative :: "string \<Rightarrow> string \<Rightarrow> string \<Rightarrow> string" where
  "posix_relative cwd source target =
     (if source = target then []
      else
        let f = posix_resolve cwd [source]; t = posix_resolve cwd [target] in
        if f = t then [] else js_join ''/'' (relative_segments (path_segments f) (path_segments t)))"

section \<open>The environment\<close>

text \<open>A path dialect; the record for Windows is a parameter.\<close>

record path_api =
  pa_resolve :: "string \<Rightarrow> string"
  pa_relative :: "string \<Rightarrow> string \<Rightarrow> string"
  pa_isAbsolute :: "string \<Rightarrow> bool"
  pa_rootOf :: "string \<Rightarrow> string"
  pa_sep :: char

definition posix_api :: "string \<Rightarrow> path_api" where
  "posix_api cwd =
     \<lparr>pa_resolve = (\<lambda>p. posix_resolve cwd [p]), pa_relative = posix_relative cwd,
      pa_isAbsolute = posix_isAbsolute, pa_rootOf = (\<lambda>p. if posix_isAbsolute p then ''/'' else []),
      pa_sep = CHR ''/''\<rparr>"

text \<open>
  What the synchronous file system calls answer at the time of a decision; \<open>None\<close> stands for a throw.
  \<open>fs_lstat\<close> tells whether the entry is a symbolic link.
\<close>

record fs_env =
  fs_exists :: "string \<Rightarrow> bool"
  fs_realpath :: "string \<Rightarrow> string option"
  fs_lstat :: "string \<Rightarrow> bool option"
  fs_readlink :: "string \<Rightarrow> string option"

record path_env =
  pe_cwd :: string
  pe_win32 :: path_api
  pe_fs :: fs_env

datatype path_error = TooManySymlinkHops string | RealpathThrew string | ReadlinkThrew string

section \<open>Real paths\<close>

definition MAX_SYMLINK_HOPS :: nat where
  "MAX_SYMLINK_HOPS = 32"

function resolveSafely :: "fs_env \<Rightarrow> string \<Rightarrow> string \<Rightarrow> nat \<Rightarrow> path_error + string" where
  "resolveSafely F cwd absolutePath hops =
     (if MAX_SYMLINK_HOPS < hops then Inl (TooManySymlinkHops absolutePath)
      else if fs_exists F absolutePath then
        (case fs_realpath F absolutePath of None \<Rightarrow> Inl (RealpathThrew absolutePath) | Some p \<Rightarrow> Inr p)
      else if fs_lstat F absolutePath = Some True then
        (case fs_readlink F absolutePath of
           None \<Rightarrow> Inl (ReadlinkThrew absolutePath)
         | Some linkTarget \<Rightarrow>
             bindE (resolveSafely F cwd (posix_dirname absolutePath) (hops + 1)) (\<lambda>resolvedParent.
             resolveSafely F cwd
               (if posix_isAbsolute linkTarget then posix_resolve cwd [linkTarget]
                else posix_resolve cwd [resolvedParent, linkTarget])
               (hops + 1)))
      else
        let parent = posix_dirname absolutePath in
        if parent = absolutePath then Inr absolutePath
        else bindE (resolveSafely F cwd parent (hops + 1)) (\<lambda>resolvedParent.
             Inr (posix_join [resolvedParent, posix_basename absolutePath])))"
  by pat_completeness auto
termination
  by (relation "measure (\<lambda>(F, cwd, p, hops). Suc MAX_SYMLINK_HOPS - hops)") (auto simp: MAX_SYMLINK_HOPS_def)

declare resolveSafely.simps [simp del]

definition safeRealpathSync :: "path_env \<Rightarrow> string \<Rightarrow> path_error + string" where
  "safeRealpathSync E targetPath = resolveSafely (pe_fs E) (pe_cwd E) (posix_resolve (pe_cwd E) [targetPath]) 0"

text \<open>One component at a time; a \<open>..\<close> leaves the directory physically reached.\<close>

definition physical_step :: "path_env \<Rightarrow> string \<Rightarrow> string \<Rightarrow> path_error + string" where
  "physical_step E current component =
     (if component = [] \<or> component = ''.'' then Inr current
      else if component = ''..'' then Inr (posix_dirname current)
      else safeRealpathSync E (posix_join [current, component]))"

definition physicalPathSync :: "path_env \<Rightarrow> string \<Rightarrow> string \<Rightarrow> path_error + string" where
  "physicalPathSync E base word =
     (let absolute = posix_isAbsolute word in
      bindE (safeRealpathSync E (if absolute then ''/'' else base)) (\<lambda>start.
      foldE (physical_step E) start (js_split (CHR ''/'') (if absolute then drop 1 word else word))))"

section \<open>Lexical containment\<close>

definition drive_letter :: "char \<Rightarrow> bool" where
  "drive_letter c = (let n = of_char c :: nat in (65 \<le> n \<and> n \<le> 90) \<or> (97 \<le> n \<and> n \<le> 122))"

definition usesWindowsPath :: "string \<Rightarrow> bool" where
  "usesWindowsPath value \<longleftrightarrow>
     (case value of
        d # c # rest \<Rightarrow> drive_letter d \<and> c = CHR '':'' \<and>
          (case rest of [] \<Rightarrow> True | s # _ \<Rightarrow> s = char_of (92 :: nat) \<or> s = CHR ''/'')
      | _ \<Rightarrow> False) \<or>
     take 2 value = [char_of (92 :: nat), char_of (92 :: nat)] \<or> take 2 value = ''//''"

definition win32_selected :: "string list \<Rightarrow> bool" where
  "win32_selected paths \<longleftrightarrow> list_ex usesWindowsPath paths"

definition lexicalPathApi :: "path_env \<Rightarrow> string list \<Rightarrow> path_api" where
  "lexicalPathApi E paths = (if win32_selected paths then pe_win32 E else posix_api (pe_cwd E))"

definition canonicalPathScopeIdentityWithApi :: "path_env \<Rightarrow> string \<Rightarrow> bool \<Rightarrow> string" where
  "canonicalPathScopeIdentityWithApi E value win =
     (if win then js_lower (pa_resolve (pe_win32 E) value) else pa_resolve (posix_api (pe_cwd E)) value)"

definition canonicalPathScopeIdentity :: "path_env \<Rightarrow> string \<Rightarrow> string" where
  "canonicalPathScopeIdentity E value = canonicalPathScopeIdentityWithApi E value (win32_selected [value])"

definition isRelativeContained :: "string \<Rightarrow> char \<Rightarrow> (string \<Rightarrow> bool) \<Rightarrow> bool" where
  "isRelativeContained relativePath sep isAbsolute \<longleftrightarrow>
     relativePath = [] \<or>
     (take 3 relativePath \<noteq> ''..'' @ [sep] \<and> relativePath \<noteq> ''..'' \<and> \<not> isAbsolute relativePath)"

definition isPathWithinScope :: "path_env \<Rightarrow> string \<Rightarrow> string \<Rightarrow> bool" where
  "isPathWithinScope E targetPath scopeRoot =
     (let paths = [targetPath, scopeRoot]; win = win32_selected paths; api = lexicalPathApi E paths;
          target = canonicalPathScopeIdentityWithApi E targetPath win;
          scope = canonicalPathScopeIdentityWithApi E scopeRoot win in
      isRelativeContained (pa_relative api scope target) (pa_sep api) (pa_isAbsolute api))"

datatype ExecutionPathFlavor = PosixFlavor | Win32Flavor

definition executionPathApi :: "path_env \<Rightarrow> ExecutionPathFlavor \<Rightarrow> path_api" where
  "executionPathApi E flavor = (case flavor of PosixFlavor \<Rightarrow> posix_api (pe_cwd E) | Win32Flavor \<Rightarrow> pe_win32 E)"

definition tail_segments :: "path_api \<Rightarrow> string \<Rightarrow> string list" where
  "tail_segments api p =
     (let tail = drop (length (pa_rootOf api p)) p in if tail = [] then [] else js_split (pa_sep api) tail)"

definition isPathWithinScopeWithDialect ::
  "path_env \<Rightarrow> string \<Rightarrow> string \<Rightarrow> ExecutionPathFlavor \<Rightarrow> bool \<Rightarrow> bool" where
  "isPathWithinScopeWithDialect E targetPath scopeRoot flavor caseSensitive =
     (let api = executionPathApi E flavor;
          ident = (\<lambda>p. if caseSensitive then pa_resolve api p else js_lower (pa_resolve api p));
          target = ident targetPath; scope = ident scopeRoot in
      isRelativeContained (pa_relative api scope target) (pa_sep api) (pa_isAbsolute api) \<and>
      (caseSensitive \<and> flavor = Win32Flavor \<longrightarrow>
         js_lower (pa_rootOf api scope) = js_lower (pa_rootOf api target) \<and>
         prefix (tail_segments api scope) (tail_segments api target)))"

definition pathScopesOverlap :: "path_env \<Rightarrow> string \<Rightarrow> string \<Rightarrow> bool" where
  "pathScopesOverlap E firstScope secondScope \<longleftrightarrow>
     isPathWithinScope E firstScope secondScope \<or> isPathWithinScope E secondScope firstScope"

section \<open>The decision on a path scope\<close>

record PathScope =
  ps_root :: string
  ps_allowedPaths :: "string list option"
  ps_deniedPaths :: "string list option"

datatype PathScopeDecisionKind = InsideScope | OutsideScope | DeniedScope | MissingPath

record PathScopeDecision =
  psd_kind :: PathScopeDecisionKind
  psd_path :: string
  psd_resolvedPath :: "string option"
  psd_matchedRule :: "string option"
  psd_reasonCode :: string

definition scope_decision ::
  "PathScopeDecisionKind \<Rightarrow> string \<Rightarrow> string option \<Rightarrow> string option \<Rightarrow> string \<Rightarrow> PathScopeDecision" where
  "scope_decision kind p resolved rule reason =
     \<lparr>psd_kind = kind, psd_path = p, psd_resolvedPath = resolved, psd_matchedRule = rule, psd_reasonCode = reason\<rparr>"

text \<open>The first rule whose real path contains the target; a rule that cannot be resolved is skipped.\<close>

definition rule_matches :: "path_env \<Rightarrow> string \<Rightarrow> string \<Rightarrow> bool" where
  "rule_matches E resolvedTarget rule =
     (case safeRealpathSync E rule of Inr p \<Rightarrow> isPathWithinScope E resolvedTarget p | Inl _ \<Rightarrow> False)"

definition checkPathScope :: "path_env \<Rightarrow> PathScope \<Rightarrow> string \<Rightarrow> PathScopeDecision" where
  "checkPathScope E scope targetPath =
     (if targetPath = [] then scope_decision MissingPath targetPath None None ''empty_path''
      else case safeRealpathSync E (ps_root scope) of
        Inl _ \<Rightarrow> scope_decision OutsideScope targetPath None None ''unresolvable_root''
      | Inr resolvedRoot \<Rightarrow>
          (case safeRealpathSync E targetPath of
             Inl _ \<Rightarrow> scope_decision OutsideScope targetPath None None ''unresolvable_target''
           | Inr resolvedTarget \<Rightarrow>
               if \<not> isPathWithinScope E resolvedTarget resolvedRoot
               then scope_decision OutsideScope targetPath (Some resolvedTarget) None ''outside_root''
               else case List.find (rule_matches E resolvedTarget) (case ps_deniedPaths scope of Some ds \<Rightarrow> ds | None \<Rightarrow> []) of
                 Some denied \<Rightarrow> scope_decision DeniedScope targetPath (Some resolvedTarget) (Some denied) ''matches_denied_path''
               | None \<Rightarrow>
                   (case ps_allowedPaths scope of
                      Some (a # as) \<Rightarrow>
                        (case List.find (rule_matches E resolvedTarget) (a # as) of
                           None \<Rightarrow> scope_decision OutsideScope targetPath (Some resolvedTarget) None ''outside_allowed_paths''
                         | Some allowed \<Rightarrow>
                             scope_decision InsideScope targetPath (Some resolvedTarget) (Some allowed) ''inside_allowed_paths'')
                    | _ \<Rightarrow> scope_decision InsideScope targetPath (Some resolvedTarget) (Some (ps_root scope)) ''inside_root'')))"

end
