(* ===== verification/Path_Arguments.thy ===== *)
theory Path_Arguments
  imports Path_Scope Tool_Capability
begin

text \<open>
  The paths a tool call names (\<open>core/autonomy/envelope-enforcement.ts\<close>): the path arguments of the catalogued
  tools, and for a granted extension tool every string whose key or spelling says it is a path. The home
  directory is an argument.
\<close>

definition PATH_ARGUMENT_KEYS :: "string list" where
  "PATH_ARGUMENT_KEYS = [''path'', ''file_path'', ''filePath'', ''cwd'', ''directory'', ''dir'', ''target'']"

definition PATH_LIST_ARGUMENT_KEYS :: "string list" where
  "PATH_LIST_ARGUMENT_KEYS = [''paths'', ''files'', ''referenced_image_paths'']"

definition path_string :: "json \<Rightarrow> string option" where
  "path_string v = (case v of JString s \<Rightarrow> if s \<noteq> [] then Some s else None | _ \<Rightarrow> None)"

definition extractPathArguments :: "json option \<Rightarrow> string list" where
  "extractPathArguments params =
     (case params of
        Some (JObject record) \<Rightarrow>
          List.map_filter (\<lambda>key. Option.bind (map_of record key) path_string) PATH_ARGUMENT_KEYS @
          concat (map (\<lambda>key. case map_of record key of
              Some (JArray entries) \<Rightarrow> List.map_filter path_string entries
            | _ \<Rightarrow> []) PATH_LIST_ARGUMENT_KEYS)
      | _ \<Rightarrow> [])"

section \<open>Granted extension tools\<close>

definition GRANTED_TOOL_PATH_KEY_WORDS :: "string list" where
  "GRANTED_TOOL_PATH_KEY_WORDS =
     [''path'', ''paths'', ''file'', ''files'', ''filename'', ''dir'', ''dirs'', ''directory'', ''directories'',
      ''folder'', ''folders'', ''root'', ''cwd'', ''dest'', ''destination'', ''target'', ''targets'', ''workdir'']"

definition MAX_GRANTED_TOOL_PATH_ARGUMENTS :: nat where
  "MAX_GRANTED_TOOL_PATH_ARGUMENTS = 64"

definition MAX_GRANTED_TOOL_ARGUMENT_DEPTH :: nat where
  "MAX_GRANTED_TOOL_ARGUMENT_DEPTH = 4"

definition char_code :: "char \<Rightarrow> nat" where
  "char_code c = of_char c"

definition lower_or_digit :: "char \<Rightarrow> bool" where
  "lower_or_digit c = (let n = char_code c in (97 \<le> n \<and> n \<le> 122) \<or> (48 \<le> n \<and> n \<le> 57))"

definition upper_letter :: "char \<Rightarrow> bool" where
  "upper_letter c = (let n = char_code c in 65 \<le> n \<and> n \<le> 90)"

text \<open>The last word of a key split at underscores, hyphens and where a capital follows a small letter or digit.\<close>

fun last_word :: "string \<Rightarrow> char option \<Rightarrow> string \<Rightarrow> string" where
  "last_word word previous [] = word"
| "last_word word previous (c # cs) =
     (if c = CHR ''_'' \<or> c = CHR ''-'' then last_word [] (Some c) cs
      else if (case previous of Some p \<Rightarrow> lower_or_digit p | None \<Rightarrow> False) \<and> upper_letter c
      then last_word [c] (Some c) cs
      else last_word (word @ [c]) (Some c) cs)"

definition isPathNamedKey :: "string \<Rightarrow> bool" where
  "isPathNamedKey key \<longleftrightarrow>
     js_lower key \<in> set GRANTED_TOOL_PATH_KEY_WORDS \<or>
     js_lower (last_word [] None key) \<in> set GRANTED_TOOL_PATH_KEY_WORDS"

definition posixRootEntryExists :: "path_env \<Rightarrow> string \<Rightarrow> bool" where
  "posixRootEntryExists E value =
     (case js_split (CHR ''/'') value of
        _ # first # _ \<Rightarrow> first = [] \<or> fs_exists (pe_fs E) (''/'' @ first)
      | _ \<Rightarrow> True)"

definition path_separator :: "char \<Rightarrow> bool" where
  "path_separator c \<longleftrightarrow> c = CHR ''/'' \<or> c = char_of (92 :: nat)"

fun path_prefixed :: "string \<Rightarrow> bool" where
  "path_prefixed [] = False"
| "path_prefixed (c # cs) =
     (path_separator c \<or>
      (case cs of
         [] \<Rightarrow> False
       | d # ds \<Rightarrow>
           (c = CHR ''~'' \<and> path_separator d) \<or>
           (c = CHR ''.'' \<and> path_separator d) \<or>
           (c = CHR ''.'' \<and> d = CHR ''.'' \<and> (case ds of e # _ \<Rightarrow> path_separator e | [] \<Rightarrow> False)) \<or>
           (drive_letter c \<and> d = CHR '':'' \<and> (case ds of e # _ \<Rightarrow> path_separator e | [] \<Rightarrow> False))))"

definition isPathSpelledValue :: "path_env \<Rightarrow> string \<Rightarrow> bool" where
  "isPathSpelledValue E value =
     (if value = [] \<or> 4096 < length value \<or> list_ex (\<lambda>c. char_code c \<in> {0, 10, 13}) value then False
      else if \<not> (value = ''~'' \<or> value = ''.'' \<or> value = ''..'' \<or> path_prefixed value) then False
      else if take 1 value = ''/'' \<and> take 2 value \<noteq> ''//'' then posixRootEntryExists E value
      else True)"

definition expand_home :: "string \<Rightarrow> string \<Rightarrow> string" where
  "expand_home home value =
     (case value of
        [] \<Rightarrow> value
      | c # cs \<Rightarrow>
          if c = CHR ''~'' \<and> (case cs of [] \<Rightarrow> True | d # _ \<Rightarrow> path_separator d) then home @ cs else value)"

text \<open>The walk over the arguments, with the paths found so far.\<close>

fun visit_argument :: "path_env \<Rightarrow> string \<Rightarrow> json \<Rightarrow> bool \<Rightarrow> nat \<Rightarrow> string list \<Rightarrow> string list"
  and visit_entries :: "path_env \<Rightarrow> string \<Rightarrow> json list \<Rightarrow> bool \<Rightarrow> nat \<Rightarrow> string list \<Rightarrow> string list"
  and visit_fields :: "path_env \<Rightarrow> string \<Rightarrow> (string \<times> json) list \<Rightarrow> nat \<Rightarrow> string list \<Rightarrow> string list" where
  "visit_argument E home value pathNamed depth found =
     (if MAX_GRANTED_TOOL_PATH_ARGUMENTS \<le> length found then found
      else case value of
        JString s \<Rightarrow>
          if s \<noteq> [] \<and> (pathNamed \<or> isPathSpelledValue E s) then found @ [expand_home home s] else found
      | JArray entries \<Rightarrow>
          if MAX_GRANTED_TOOL_ARGUMENT_DEPTH \<le> depth then found
          else visit_entries E home entries pathNamed (depth + 1) found
      | JObject members \<Rightarrow>
          if MAX_GRANTED_TOOL_ARGUMENT_DEPTH \<le> depth then found
          else visit_fields E home members (depth + 1) found
      | _ \<Rightarrow> found)"
| "visit_entries E home [] pathNamed depth found = found"
| "visit_entries E home (entry # entries) pathNamed depth found =
     visit_entries E home entries pathNamed depth (visit_argument E home entry pathNamed depth found)"
| "visit_fields E home [] depth found = found"
| "visit_fields E home ((key, entry) # members) depth found =
     visit_fields E home members depth (visit_argument E home entry (isPathNamedKey key) depth found)"

definition extractGrantedToolPathArguments :: "path_env \<Rightarrow> string \<Rightarrow> json option \<Rightarrow> string list" where
  "extractGrantedToolPathArguments E home params =
     (case params of None \<Rightarrow> [] | Some value \<Rightarrow> visit_argument E home value False 0 [])"

section \<open>The paths of one call\<close>

definition secret_source_path :: "json \<Rightarrow> string option" where
  "secret_source_path source = Option.bind (json_field (Some source) ''path'') path_string"

definition secret_store_paths :: "json option \<Rightarrow> string list \<Rightarrow> string list" where
  "secret_store_paths params paths =
     (let paths = paths @ (if args_action params = Some ''migrate''
            then (case json_field params ''sources'' of
                Some (JArray sources) \<Rightarrow> List.map_filter secret_source_path sources
              | _ \<Rightarrow> [])
            else [])
      in if args_action params = Some ''discover'' \<and> paths = [] then [''.''] else paths)"

definition extractToolPathArguments :: "path_env \<Rightarrow> string \<Rightarrow> string list \<Rightarrow> string \<Rightarrow> json option \<Rightarrow> string list" where
  "extractToolPathArguments E home granted toolName params =
     (let name = js_lower toolName;
          paths = extractPathArguments params;
          paths = (if isGrantedExtensionToolName granted name
                   then foldl (\<lambda>found p. if p \<in> set found then found else found @ [p]) paths
                          (extractGrantedToolPathArguments E home params)
                   else paths);
          paths = (if name = ''secret_store'' then secret_store_paths params paths else paths) in
      if paths = [] \<and> name \<in> set [''find'', ''grep'', ''ls'', ''repo_read'', ''pipeline''] then [''.''] else paths)"

lemma visit_bounded:
  "length found \<le> MAX_GRANTED_TOOL_PATH_ARGUMENTS \<Longrightarrow>
     length (visit_argument E home v pathNamed depth found) \<le> MAX_GRANTED_TOOL_PATH_ARGUMENTS"
  "length found \<le> MAX_GRANTED_TOOL_PATH_ARGUMENTS \<Longrightarrow>
     length (visit_entries E home entries pathNamed depth found) \<le> MAX_GRANTED_TOOL_PATH_ARGUMENTS"
  "length found \<le> MAX_GRANTED_TOOL_PATH_ARGUMENTS \<Longrightarrow>
     length (visit_fields E home members depth found) \<le> MAX_GRANTED_TOOL_PATH_ARGUMENTS"
proof (induction E home v pathNamed depth found and E home entries pathNamed depth found and E home members depth found
    rule: visit_argument_visit_entries_visit_fields.induct)
  case (1 E home v pathNamed depth found)
  then show ?case by (cases v) auto
qed simp_all

end
