(* ===== verification/Gateway_Usage.thy ===== *)
theory Gateway_Usage
  imports Attempt_Usage "HOL-Library.Log_Nat"
begin

text \<open>
  What the capability gateway charges (\<open>core/orchestration/capability-gateway.ts\<close>): its decision codes, the
  validation of a usage delta and the tokens a budget counts. Prompt-cache reads count for a tenth, computed in
  doubles; the rounding of that product is modelled, because it decides the ceiling that follows.
\<close>

datatype GatewayDecisionCode =
  Allowed | GrantExpired | ToolNotGranted | ManifestNameMismatch | CapabilityNotGranted | PathArgumentRequired
  | PathOutsideScope | ScopeDenied | ToolCallBudgetExhausted | TokenBudgetExhausted | CostBudgetExhausted
  | WallClockBudgetExhausted

definition BUDGET_EXHAUSTION_DECISION_CODES :: "GatewayDecisionCode list" where
  "BUDGET_EXHAUSTION_DECISION_CODES =
     [ToolCallBudgetExhausted, TokenBudgetExhausted, CostBudgetExhausted, WallClockBudgetExhausted]"

datatype BoundedCompletionFailureStatus = CompletionCanceled | CompletionTimeout | CompletionFailed | CompletionBudgetExhausted

text \<open>The completion status a denial is reported with.\<close>

definition denial_status :: "GatewayDecisionCode \<Rightarrow> BoundedCompletionFailureStatus" where
  "denial_status code = (if code \<in> set BUDGET_EXHAUSTION_DECISION_CODES then CompletionBudgetExhausted else CompletionFailed)"

section \<open>Usage deltas\<close>

record GatewayUsageDelta =
  gd_inputTokens :: "jsnum option"
  gd_outputTokens :: "jsnum option"
  gd_cacheReadTokens :: "jsnum option"
  gd_cacheWriteTokens :: "jsnum option"
  gd_totalTokens :: "jsnum option"
  gd_costUsd :: "jsnum option"

record ValidatedUsageDelta =
  vd_inputTokens :: jsnum
  vd_outputTokens :: jsnum
  vd_cacheReadTokens :: jsnum
  vd_cacheWriteTokens :: jsnum
  vd_totalTokens :: jsnum
  vd_costUsd :: jsnum

definition or_zero :: "jsnum option \<Rightarrow> jsnum" where
  "or_zero x = (case x of Some v \<Rightarrow> v | None \<Rightarrow> Fin 0)"

text \<open>\<open>None\<close> is the error the function throws.\<close>

definition validatedUsageDelta :: "GatewayUsageDelta \<Rightarrow> ValidatedUsageDelta option" where
  "validatedUsageDelta delta =
     (let inp = or_zero (gd_inputTokens delta);
          out = or_zero (gd_outputTokens delta);
          reads = or_zero (gd_cacheReadTokens delta);
          writes = or_zero (gd_cacheWriteTokens delta);
          tot = (case gd_totalTokens delta of
              Some t \<Rightarrow> t
            | None \<Rightarrow> js_add (js_add (js_add inp out) reads) writes);
          cost = or_zero (gd_costUsd delta) in
      if counted_invalid inp \<or> counted_invalid out \<or> counted_invalid reads \<or>
         counted_invalid writes \<or> counted_invalid tot \<or> measured_invalid cost
      then None
      else Some \<lparr>vd_inputTokens = inp, vd_outputTokens = out, vd_cacheReadTokens = reads,
                 vd_cacheWriteTokens = writes, vd_totalTokens = tot, vd_costUsd = cost\<rparr>)"

section \<open>Charged tokens\<close>

text \<open>
  \<open>0.1\<close> is the double \<open>3602879701896397 / 2 ^ 55\<close>; its product with a count below \<open>2 ^ 53\<close> is normal, so it is
  the exact product rounded to 53 significant bits, half to even.
\<close>

definition CACHE_READ_BUDGET_WEIGHT :: rat where
  "CACHE_READ_BUDGET_WEIGHT = 3602879701896397 / 36028797018963968"

definition round_significand :: "int \<Rightarrow> int" where
  "round_significand n =
     (let excess = nat (bitlen n - 53) in
      if excess = 0 then n
      else let q = n div 2 ^ excess; r = n mod 2 ^ excess; half = 2 ^ (excess - 1) in
           (if half < r \<or> (r = half \<and> odd q) then q + 1 else q) * 2 ^ excess)"

definition discounted_cache_reads :: "jsnum \<Rightarrow> jsnum" where
  "discounted_cache_reads n =
     (case n of Fin q \<Rightarrow> js_int \<lceil>of_int (round_significand (\<lfloor>q\<rfloor> * 3602879701896397)) / (36028797018963968 :: rat)\<rceil>
      | _ \<Rightarrow> n)"

definition budgetedTokens :: "jsnum \<Rightarrow> jsnum \<Rightarrow> jsnum \<Rightarrow> jsnum \<Rightarrow> jsnum \<Rightarrow> jsnum" where
  "budgetedTokens inp out reads writes tot =
     (let detailed = js_add (js_add inp out) writes;
          unattributed = js_max (Fin 0) (js_sub (js_sub tot detailed) reads)
      in js_add (js_add detailed unattributed) (discounted_cache_reads reads))"

definition budgeted_usage :: "AttemptUsageSnapshot \<Rightarrow> jsnum" where
  "budgeted_usage u = budgetedTokens (inputTokens u) (outputTokens u) (cacheReadTokens u) (cacheWriteTokens u) (totalTokens u)"

definition budgeted_gateway_usage :: "GatewayUsage \<Rightarrow> jsnum" where
  "budgeted_gateway_usage u = budgetedTokens (gw_inputTokens u) (gw_outputTokens u) (gw_cacheReadTokens u)
     (gw_cacheWriteTokens u) (gw_totalTokens u)"

section \<open>The weight of a cache read is one tenth, rounded up\<close>

text \<open>Rounding keeps what lies between two multiples of the last place between them, and moves less than half of it.\<close>

lemma round_significand_down:
  assumes "excess = nat (bitlen n - 53)" and "0 \<le> r" "r < 2 ^ (excess - 1)" "0 < excess" and "n = m * 2 ^ excess + r"
  shows "round_significand n = m * 2 ^ excess"
proof -
  have "r < 2 ^ excess" using assms(3,4) by (smt (verit) diff_le_self power_increasing)
  then have "n div 2 ^ excess = m" "n mod 2 ^ excess = r" using assms(2,5) by (simp_all add: div_mult_self3)
  with assms(1-4) show ?thesis by (simp add: round_significand_def Let_def)
qed

lemma round_significand_between:
  assumes "excess = nat (bitlen n - 53)" and "a * 2 ^ excess \<le> n" "n < b * 2 ^ excess"
  shows "a * 2 ^ excess \<le> round_significand n" "round_significand n \<le> b * 2 ^ excess"
    "2 ^ excess \<le> 2 * (n - a * 2 ^ excess) - 1 \<Longrightarrow> a * 2 ^ excess < round_significand n"
proof -
  let ?p = "2 ^ excess :: int"
  have floor: "n div ?p * ?p \<le> n" by (simp add: minus_mod_eq_div_mult [symmetric])
  have "a * ?p div ?p \<le> n div ?p" using assms(2) by (intro zdiv_mono1) auto
  moreover have "n div ?p * ?p < b * ?p" using floor assms(3) by linarith
  ultimately have q: "a \<le> n div ?p" "n div ?p < b" by simp_all
  have cases: "round_significand n = n \<or> round_significand n = n div ?p * ?p \<and> n mod ?p \<le> 2 ^ (excess - 1) \<and> excess \<noteq> 0 \<or>
      round_significand n = (n div ?p + 1) * ?p"
    using assms(1) by (auto simp: round_significand_def Let_def)
  have up: "(n div ?p + 1) * ?p \<le> b * ?p" "a * ?p \<le> n div ?p * ?p" "n div ?p * ?p \<le> b * ?p" "a * ?p \<le> (n div ?p + 1) * ?p"
    using q by (intro mult_right_mono; simp)+
  from cases up assms(2,3) show "a * ?p \<le> round_significand n" "round_significand n \<le> b * ?p" by auto
  assume big: "?p \<le> 2 * (n - a * ?p) - 1"
  show "a * ?p < round_significand n"
  proof (cases "a = n div ?p")
    case True
    then have rest: "n mod ?p = n - a * ?p" by (simp add: minus_div_mult_eq_mod)
    have half: "?p = 2 * 2 ^ (excess - 1)" if "excess \<noteq> 0" using that by (cases excess) auto
    have following: "(n div ?p + 1) * ?p = a * ?p + ?p" using True by (simp add: algebra_simps)
    have pos: "0 < ?p" by simp
    from cases consider "round_significand n = n" | "round_significand n = n div ?p * ?p" "n mod ?p \<le> 2 ^ (excess - 1)" "excess \<noteq> 0"
      | "round_significand n = (n div ?p + 1) * ?p" by blast
    then show ?thesis
    proof cases
      case 1
      moreover have "c < m" if "d \<le> 2 * (m - c) - 1" "0 < d" for c d m :: int using that by simp
      ultimately show ?thesis using big pos by metis
    next
      case 2
      then show ?thesis using big rest half by simp
    next
      case 3
      then show ?thesis using following pos by simp
    qed
  next
    case False
    then have below: "a * ?p < n div ?p * ?p" using q by simp
    moreover have "n div ?p * ?p < (n div ?p + 1) * ?p" by (simp add: distrib_right)
    ultimately show ?thesis using cases floor by (metis order.strict_trans order.strict_trans2)
  qed
qed

lemma bitlen_le: "n < 2 ^ k \<Longrightarrow> bitlen n \<le> int k"
  by (simp add: bitlen_le_iff_power)

text \<open>A multiple of ten loses the excess of the double over one tenth; any other count stays between its neighbours.\<close>

theorem discounted_is_ceiling:
  assumes "0 \<le> x" "x \<le> MAX_SAFE_INTEGER"
  shows "discounted_cache_reads (js_int x) = js_int ((x + 9) div 10)"
proof -
  let ?C = "3602879701896397 :: int" and ?D = "36028797018963968 :: int" and ?Q = "36028797018963968 :: rat"
  define k where "k = x div 10"
  define r where "r = x mod 10"
  have x: "x = 10 * k + r" and r: "0 \<le> r" "r < 10" by (simp_all add: k_def r_def)
  from assms x r have k: "0 \<le> k" "k < 2 ^ 50" by (simp_all add: MAX_SAFE_INTEGER_def)
  define n where "n = x * ?C"
  have n: "n = k * ?D + (2 * k + r * ?C)" by (simp add: n_def x algebra_simps)
  define e where "e = nat (bitlen n - 53)"
  have "n < 2 ^ 105" using k r by (simp add: n)
  then have e: "e \<le> 52" using bitlen_le [of n 105] by (simp add: e_def)
  have D: "?D = 2 ^ (55 - e) * 2 ^ e" using e by (simp flip: power_add)
  have ceiling: "\<lceil>of_int (round_significand n) / ?Q\<rceil> = (x + 9) div 10"
  proof (cases "r = 0")
    case True
    have "round_significand n = k * ?D"
    proof (cases "k = 0")
      case True
      with \<open>r = 0\<close> show ?thesis by (simp add: n round_significand_def)
    next
      case False
      with k have "0 < k" by simp
      have "bitlen (k * 2 ^ 55) \<le> bitlen n" unfolding bitlen_def of_nat_le_iff
        by (intro floorlog_mono nat_mono) (use True k in \<open>simp add: n\<close>)
      then have "bitlen k + 55 \<le> bitlen n" unfolding bitlen_pow2 [OF \<open>0 < k\<close>] by simp
      then have "bitlen k + 2 \<le> int e" using bitlen_nonneg [of k] by (simp add: e_def)
      moreover have "k < 2 ^ nat (bitlen k)" "0 \<le> bitlen k" using bitlen_bounds [OF \<open>0 < k\<close>] by (simp_all add: bitlen_nonneg)
      moreover have "(2::int) ^ (nat (bitlen k) + 1) \<le> 2 ^ (e - 1)" using calculation by (intro power_increasing) auto
      ultimately have "2 * k < 2 ^ (e - 1)" "0 < e" by auto
      then have "round_significand n = (k * 2 ^ (55 - e)) * 2 ^ e"
        by (intro round_significand_down [OF e_def]) (use k True in \<open>auto simp: n D\<close>)
      then show ?thesis by (simp add: D)
    qed
    then show ?thesis using True by (simp add: x)
  next
    case False
    have "k * 2 ^ (55 - e) * 2 ^ e \<le> n" "n < (k + 1) * 2 ^ (55 - e) * 2 ^ e"
      unfolding mult.assoc D [symmetric] using k r by (simp_all add: n algebra_simps)
    note between = round_significand_between [OF e_def this]
    have "(2::int) ^ e \<le> 2 ^ 52" using e by (intro power_increasing) auto
    then have "2 ^ e \<le> 2 * (n - k * 2 ^ (55 - e) * 2 ^ e) - 1"
      unfolding mult.assoc D [symmetric] using k r False by (simp add: n)
    from between(3) [OF this] between(2) have "k * ?D < round_significand n" "round_significand n \<le> (k + 1) * ?D"
      unfolding mult.assoc D [symmetric] by simp_all
    then have "\<lceil>of_int (round_significand n) / ?Q\<rceil> = k + 1"
      by (simp add: ceiling_eq_iff divide_le_eq less_divide_eq flip: of_int_less_iff [where 'a = rat] of_int_le_iff [where 'a = rat])
    then show ?thesis using r False by (simp add: x)
  qed
  then show ?thesis by (simp add: discounted_cache_reads_def js_int_def n_def)
qed

end
