(* ===== verification/Cost_Guard.thy ===== *)
theory Cost_Guard
  imports Orch_Prelude
begin

text \<open>
  The cost of a provider request (\<open>core/cost-guard.ts\<close>): the upper bound on one turn, the largest output
  allowance that fits a remaining budget, the projected-cost guard and the ladder of reasoning levels it steps
  down. Prices and amounts are rationals; the rounding of a double in these products is not modelled.
\<close>

section \<open>Products of numbers\<close>

fun js_mul :: "jsnum \<Rightarrow> jsnum \<Rightarrow> jsnum" where
  "js_mul (Fin a) (Fin b) = Fin (a * b)"
| "js_mul NaN _ = NaN"
| "js_mul _ NaN = NaN"
| "js_mul (Fin a) PosInf = (if a = 0 then NaN else if a < 0 then NegInf else PosInf)"
| "js_mul (Fin a) NegInf = (if a = 0 then NaN else if a < 0 then PosInf else NegInf)"
| "js_mul PosInf (Fin b) = (if b = 0 then NaN else if b < 0 then NegInf else PosInf)"
| "js_mul NegInf (Fin b) = (if b = 0 then NaN else if b < 0 then PosInf else NegInf)"
| "js_mul PosInf PosInf = PosInf"
| "js_mul PosInf NegInf = NegInf"
| "js_mul NegInf PosInf = NegInf"
| "js_mul NegInf NegInf = PosInf"

section \<open>The cost of one turn\<close>

record ModelTokenCost =
  mc_input :: jsnum
  mc_output :: jsnum
  mc_cacheRead :: "jsnum option"
  mc_cacheWrite :: "jsnum option"

record LongContextPricing =
  lc_thresholdTokens :: jsnum
  lc_inputMultiplier :: jsnum
  lc_outputMultiplier :: jsnum

record TurnCostArgs =
  tc_inputTokens :: jsnum
  tc_maxOutputTokens :: jsnum
  tc_cost :: ModelTokenCost
  tc_cachedInputTokens :: "jsnum option"
  tc_longContextPricing :: "LongContextPricing option"

definition number_or :: "jsnum option \<Rightarrow> jsnum \<Rightarrow> jsnum" where
  "number_or x d = (case x of Some v \<Rightarrow> v | None \<Rightarrow> d)"

text \<open>The input and the output multiplier of a long context.\<close>

definition turn_multipliers :: "LongContextPricing option \<Rightarrow> jsnum \<Rightarrow> jsnum \<times> jsnum" where
  "turn_multipliers pricing inputTokens =
     (case pricing of
        Some p \<Rightarrow> if js_lt (lc_thresholdTokens p) inputTokens
                  then (lc_inputMultiplier p, lc_outputMultiplier p) else (Fin 1, Fin 1)
      | None \<Rightarrow> (Fin 1, Fin 1))"

definition estimateTurnCostUsd :: "TurnCostArgs \<Rightarrow> jsnum" where
  "estimateTurnCostUsd args =
     (let cost = tc_cost args;
          cached = js_max (Fin 0) (js_min (number_or (tc_cachedInputTokens args) (Fin 0)) (tc_inputTokens args));
          freshInput = js_sub (tc_inputTokens args) cached;
          cacheReadRate = number_or (mc_cacheRead cost) (mc_input cost);
          freshInputRate = js_max (mc_input cost) (number_or (mc_cacheWrite cost) (mc_input cost));
          multipliers = turn_multipliers (tc_longContextPricing args) (tc_inputTokens args);
          inputUsd = js_mul (js_mul (js_add (js_mul freshInput freshInputRate) (js_mul cached cacheReadRate))
                       (fst multipliers)) (Fin (1 / 1000000));
          outputUsd = js_mul (js_mul (js_mul (js_max (Fin 0) (tc_maxOutputTokens args)) (mc_output cost))
                        (snd multipliers)) (Fin (1 / 1000000))
      in js_add inputUsd outputUsd)"

text \<open>The search for the largest allowance keeps an affordable \<open>low\<close> and gives up everything beyond \<open>high\<close>.\<close>

function affordable_search :: "(int \<Rightarrow> bool) \<Rightarrow> int \<Rightarrow> int \<Rightarrow> int" where
  "affordable_search fits low high =
     (if low < high then
        (let middle = low + (high - low + 1) div 2
         in if fits middle then affordable_search fits middle high else affordable_search fits low (middle - 1))
      else low)"
  by pat_completeness auto
termination
  by (relation "measure (\<lambda>(fits, low, high). nat (high - low))") auto

declare affordable_search.simps [simp del]

definition rate_invalid :: "jsnum \<Rightarrow> bool" where
  "rate_invalid rate \<longleftrightarrow> \<not> js_is_finite rate \<or> js_lt rate (Fin 0)"

definition cost_rates :: "ModelTokenCost \<Rightarrow> jsnum list" where
  "cost_rates cost =
     mc_input cost # mc_output cost #
     (case mc_cacheRead cost of Some r \<Rightarrow> [r] | None \<Rightarrow> []) @ (case mc_cacheWrite cost of Some r \<Rightarrow> [r] | None \<Rightarrow> [])"

definition int_of :: "jsnum \<Rightarrow> int" where
  "int_of n = (case n of Fin q \<Rightarrow> \<lfloor>q\<rfloor> | _ \<Rightarrow> 0)"

definition request_fits :: "TurnCostArgs \<Rightarrow> jsnum \<Rightarrow> int \<Rightarrow> bool" where
  "request_fits args remainingUsd m =
     (let cost = estimateTurnCostUsd (args\<lparr>tc_maxOutputTokens := js_int m\<rparr>)
      in js_is_finite cost \<and> js_le cost remainingUsd)"

definition affordable_args_invalid :: "TurnCostArgs \<Rightarrow> jsnum \<Rightarrow> bool" where
  "affordable_args_invalid args remainingUsd \<longleftrightarrow>
     \<not> js_is_safe_integer (tc_inputTokens args) \<or> js_lt (tc_inputTokens args) (Fin 0) \<or>
     \<not> js_is_safe_integer (tc_maxOutputTokens args) \<or> js_lt (tc_maxOutputTokens args) (Fin 1) \<or>
     \<not> js_is_finite remainingUsd \<or> js_lt remainingUsd (Fin 0) \<or>
     list_ex rate_invalid (cost_rates (tc_cost args)) \<or>
     (case tc_longContextPricing args of
        None \<Rightarrow> False
      | Some p \<Rightarrow> list_ex rate_invalid [lc_thresholdTokens p, lc_inputMultiplier p, lc_outputMultiplier p])"

definition affordableOutputTokenLimit :: "TurnCostArgs \<Rightarrow> jsnum \<Rightarrow> jsnum" where
  "affordableOutputTokenLimit args remainingUsd =
     (if affordable_args_invalid args remainingUsd then Fin 0
      else js_int (affordable_search (request_fits args remainingUsd) 0 (int_of (tc_maxOutputTokens args))))"

section \<open>The guard\<close>

datatype CostGuardAction = GuardWarn | GuardDowngrade

record CostGuardSettings =
  cg_enabled :: bool
  cg_maxTurnUsd :: jsnum
  cg_action :: CostGuardAction

definition DEFAULT_COST_GUARD_SETTINGS :: CostGuardSettings where
  "DEFAULT_COST_GUARD_SETTINGS = \<lparr>cg_enabled = False, cg_maxTurnUsd = Fin 0, cg_action = GuardWarn\<rparr>"

definition DEFAULT_ENABLED_COST_GUARD_MAX_TURN_USD :: jsnum where
  "DEFAULT_ENABLED_COST_GUARD_MAX_TURN_USD = Fin (1 / 2)"

record CostGuardDecision =
  gd_over :: bool
  gd_estUsd :: jsnum
  gd_backgroundUsd :: jsnum
  gd_totalUsd :: jsnum
  gd_thresholdUsd :: jsnum
  gd_action :: CostGuardAction

definition evaluateCostGuard :: "jsnum \<Rightarrow> CostGuardSettings \<Rightarrow> jsnum \<Rightarrow> CostGuardDecision" where
  "evaluateCostGuard estUsd settings cumulativeBackgroundUsd =
     (let enabled = (cg_enabled settings \<and> js_lt (Fin 0) (cg_maxTurnUsd settings));
          backgroundUsd = js_max (Fin 0) cumulativeBackgroundUsd;
          totalUsd = js_add estUsd backgroundUsd
      in \<lparr>gd_over = (enabled \<and> js_lt (cg_maxTurnUsd settings) totalUsd), gd_estUsd = estUsd,
          gd_backgroundUsd = backgroundUsd, gd_totalUsd = totalUsd, gd_thresholdUsd = cg_maxTurnUsd settings,
          gd_action = cg_action settings\<rparr>)"

section \<open>Stepping down the reasoning ladder\<close>

definition REASONING_LADDER :: "string list" where
  "REASONING_LADDER = [''ultra'', ''max'', ''xhigh'', ''high'', ''medium'', ''low'', ''minimal'', ''off'']"

text \<open>An entry of the effort map is absent, \<open>null\<close> (\<open>Some None\<close>) or a provider's word.\<close>

type_synonym effort_map = "string \<Rightarrow> string option option"

definition effectiveReasoningEffort :: "string \<Rightarrow> effort_map \<Rightarrow> string option" where
  "effectiveReasoningEffort level effortMap = (case effortMap level of None \<Rightarrow> Some level | Some mapped \<Rightarrow> mapped)"

fun index_of :: "'a \<Rightarrow> 'a list \<Rightarrow> nat option" where
  "index_of x [] = None"
| "index_of x (y # ys) = (if y = x then Some 0 else map_option Suc (index_of x ys))"

definition downgradeReasoning :: "string \<Rightarrow> string list option \<Rightarrow> effort_map \<Rightarrow> string" where
  "downgradeReasoning current supportedLevels effortMap =
     (case index_of current REASONING_LADDER of
        None \<Rightarrow> current
      | Some i \<Rightarrow>
          (case supportedLevels of
             None \<Rightarrow> REASONING_LADDER ! min (i + 1) (length REASONING_LADDER - 1)
           | Some supported \<Rightarrow>
               (case List.find (\<lambda>candidate. candidate \<in> set supported \<and>
                        effectiveReasoningEffort candidate effortMap \<noteq> effectiveReasoningEffort current effortMap)
                      (drop (i + 1) REASONING_LADDER) of
                  Some candidate \<Rightarrow> candidate
                | None \<Rightarrow> current)))"

section \<open>The largest affordable allowance\<close>

text \<open>
  For a test that holds up to a bound and nowhere beyond, the search returns the last value it holds at.
\<close>

lemma affordable_search_bounds:
  "low \<le> high \<Longrightarrow> low \<le> affordable_search fits low high \<and> affordable_search fits low high \<le> high"
proof (induction fits low high rule: affordable_search.induct)
  case (1 fits low high)
  let ?m = "low + (high - low + 1) div 2"
  show ?case
  proof (cases "low < high")
    case True
    then have m: "low < ?m" "?m \<le> high" by auto
    with 1 True show ?thesis
      by (subst (1 2) affordable_search.simps) (fastforce simp: Let_def)
  qed (use 1 in \<open>subst (1 2) affordable_search.simps, simp\<close>)
qed

lemma affordable_search_exact:
  assumes "low \<le> high" and down: "\<And>a b. low < a \<Longrightarrow> a \<le> b \<Longrightarrow> b \<le> high \<Longrightarrow> fits b \<Longrightarrow> fits a"
    and "low < m" "m \<le> high"
  shows "fits m \<longleftrightarrow> m \<le> affordable_search fits low high"
  using assms
proof (induction fits low high rule: affordable_search.induct)
  case (1 fits low high)
  let ?m = "low + (high - low + 1) div 2"
  from 1(5,6) have lt: "low < high" by simp
  then have mid: "low < ?m" "?m \<le> high" by auto
  show ?case
  proof (cases "fits ?m")
    case True
    have unfold: "affordable_search fits low high = affordable_search fits ?m high"
      by (subst affordable_search.simps) (use lt True in \<open>simp add: Let_def\<close>)
    show ?thesis
    proof (cases "m \<le> ?m")
      case below: True
      then have "fits m" using 1(4) [of m ?m] 1(5) mid True by simp
      moreover have "m \<le> affordable_search fits ?m high"
        using affordable_search_bounds [of ?m high fits] below mid by simp
      ultimately show ?thesis by (simp add: unfold)
    next
      case False
      have "fits m \<longleftrightarrow> m \<le> affordable_search fits ?m high"
        by (rule 1(1) [OF lt refl True mid(2)]) (use 1(4,6) False mid in auto)
      then show ?thesis by (simp add: unfold)
    qed
  next
    case False
    have unfold: "affordable_search fits low high = affordable_search fits low (?m - 1)"
      by (subst affordable_search.simps) (use lt False in \<open>simp add: Let_def\<close>)
    show ?thesis
    proof (cases "m \<le> ?m - 1")
      case below: True
      have "fits m \<longleftrightarrow> m \<le> affordable_search fits low (?m - 1)"
        by (rule 1(2) [OF lt refl False]) (use 1(4,5) below mid in auto)
      then show ?thesis by (simp add: unfold)
    next
      case above: False
      then have "\<not> fits m" using 1(4) [of ?m m] 1(6) mid False by auto
      moreover have "affordable_search fits low (?m - 1) < m"
        using affordable_search_bounds [of low "?m - 1" fits] above mid by simp
      ultimately show ?thesis by (simp add: unfold)
    qed
  qed
qed


text \<open>The estimate grows with the output allowance: it is not a number, or linear in it.\<close>

lemma rate_valid: "\<not> rate_invalid r \<Longrightarrow> \<exists>q. r = Fin q \<and> 0 \<le> q"
  by (cases r) (auto simp: rate_invalid_def)

lemma js_max_Fin_zero: "js_max (Fin 0) (js_int m) = Fin (of_int (max 0 m))"
  by (simp add: js_max_def js_int_def)

lemma cached_cases:
  "(\<exists>q. js_max (Fin 0) (js_min c (Fin a)) = Fin q \<and> 0 \<le> q) \<or> js_max (Fin 0) (js_min c (Fin a)) = NaN"
  by (cases c) (auto simp: js_max_def js_min_def)

lemma estimate_linear:
  assumes "\<not> affordable_args_invalid args remainingUsd"
  shows "(\<exists>a b. 0 \<le> b \<and> (\<forall>m \<ge> 0. estimateTurnCostUsd (args\<lparr>tc_maxOutputTokens := js_int m\<rparr>) = Fin (a + of_int m * b))) \<or>
    (\<forall>m. estimateTurnCostUsd (args\<lparr>tc_maxOutputTokens := js_int m\<rparr>) = NaN)"
proof -
  obtain i where i: "tc_inputTokens args = Fin i"
    using assms by (cases "tc_inputTokens args") (auto simp: affordable_args_invalid_def)
  have rates: "\<not> rate_invalid r" if "r \<in> set (cost_rates (tc_cost args))" for r
    using assms that by (auto simp: affordable_args_invalid_def list_ex_iff)
  obtain ri where ri: "mc_input (tc_cost args) = Fin ri"
    using rate_valid [OF rates, of "mc_input (tc_cost args)"] by (auto simp: cost_rates_def)
  obtain ro where ro: "mc_output (tc_cost args) = Fin ro" "0 \<le> ro"
    using rate_valid [OF rates, of "mc_output (tc_cost args)"] by (auto simp: cost_rates_def)
  obtain rr where rr: "number_or (mc_cacheRead (tc_cost args)) (mc_input (tc_cost args)) = Fin rr"
    using rate_valid [OF rates, of "the (mc_cacheRead (tc_cost args))"] ri
    by (cases "mc_cacheRead (tc_cost args)") (auto simp: cost_rates_def number_or_def)
  obtain rw where rw: "number_or (mc_cacheWrite (tc_cost args)) (mc_input (tc_cost args)) = Fin rw"
    using rate_valid [OF rates, of "the (mc_cacheWrite (tc_cost args))"] ri
    by (cases "mc_cacheWrite (tc_cost args)") (auto simp: cost_rates_def number_or_def)
  obtain mi mo where mult: "turn_multipliers (tc_longContextPricing args) (Fin i) = (Fin mi, Fin mo)" and mo: "0 \<le> mo"
  proof (cases "\<exists>p. tc_longContextPricing args = Some p \<and> js_lt (lc_thresholdTokens p) (Fin i)")
    case True
    then obtain p where p: "tc_longContextPricing args = Some p" "js_lt (lc_thresholdTokens p) (Fin i)" by blast
    then have "\<not> rate_invalid (lc_inputMultiplier p)" "\<not> rate_invalid (lc_outputMultiplier p)"
      using assms by (auto simp: affordable_args_invalid_def)
    then obtain mi mo where "lc_inputMultiplier p = Fin mi" "lc_outputMultiplier p = Fin mo" "0 \<le> mo"
      using rate_valid by blast
    with p show thesis by (intro that [of mi mo]) (simp_all add: turn_multipliers_def)
  next
    case False
    then show thesis by (intro that [of 1 1]) (auto simp: turn_multipliers_def split: option.splits)
  qed
  let ?cached = "js_max (Fin 0) (js_min (number_or (tc_cachedInputTokens args) (Fin 0)) (Fin i))"
  from cached_cases [of "number_or (tc_cachedInputTokens args) (Fin 0)" i] show ?thesis
  proof
    assume "\<exists>q. ?cached = Fin q \<and> 0 \<le> q"
    then obtain q where q: "?cached = Fin q" by blast
    have "\<exists>a b. 0 \<le> b \<and> (\<forall>m \<ge> 0. estimateTurnCostUsd (args\<lparr>tc_maxOutputTokens := js_int m\<rparr>) = Fin (a + of_int m * b))"
      by (rule exI [of _ "((i - q) * max ri rw + q * rr) * mi / 1000000"], rule exI [of _ "ro * mo / 1000000"])
        (use i ri ro rr rw mult mo q in \<open>auto simp: estimateTurnCostUsd_def Let_def js_max_Fin_zero js_max_def [of "Fin ri"]\<close>)
    then show ?thesis by blast
  next
    assume "?cached = NaN"
    then have "\<forall>m. estimateTurnCostUsd (args\<lparr>tc_maxOutputTokens := js_int m\<rparr>) = NaN"
      by (simp add: estimateTurnCostUsd_def Let_def i js_sub_def)
    then show ?thesis by blast
  qed
qed

lemma request_fits_down:
  assumes "\<not> affordable_args_invalid args remainingUsd" and "0 \<le> a" "a \<le> b" and "request_fits args remainingUsd b"
  shows "request_fits args remainingUsd a"
  using estimate_linear [OF assms(1)]
proof
  assume "\<exists>x y. 0 \<le> y \<and> (\<forall>m \<ge> 0. estimateTurnCostUsd (args\<lparr>tc_maxOutputTokens := js_int m\<rparr>) = Fin (x + of_int m * y))"
  then obtain x y where "0 \<le> y" and est: "\<And>m. 0 \<le> m \<Longrightarrow>
      estimateTurnCostUsd (args\<lparr>tc_maxOutputTokens := js_int m\<rparr>) = Fin (x + of_int m * y)" by blast
  then have "x + of_int a * y \<le> x + of_int b * y" using assms(3) by (simp add: mult_right_mono)
  moreover obtain r where "remainingUsd = Fin r"
    using assms(1) by (cases remainingUsd) (auto simp: affordable_args_invalid_def)
  ultimately show ?thesis using assms(2-4) est [of a] est [of b]
    by (auto simp: request_fits_def Let_def)
qed (use assms(4) in \<open>simp add: request_fits_def Let_def\<close>)

lemma affordable_limit_exact:
  assumes "\<not> affordable_args_invalid args remainingUsd"
  obtains limit where "affordableOutputTokenLimit args remainingUsd = js_int limit" "0 \<le> limit"
    "js_le (js_int limit) (tc_maxOutputTokens args)"
    "\<And>m. 1 \<le> m \<Longrightarrow> js_le (js_int m) (tc_maxOutputTokens args) \<Longrightarrow> request_fits args remainingUsd m \<longleftrightarrow> m \<le> limit"
proof -
  obtain n where n: "tc_maxOutputTokens args = js_int n" "1 \<le> n"
    using assms by (cases "tc_maxOutputTokens args") (auto simp: affordable_args_invalid_def js_int_def)
  then have "int_of (tc_maxOutputTokens args) = n" by (simp add: int_of_def js_int_def)
  with assms have lim: "affordableOutputTokenLimit args remainingUsd =
      js_int (affordable_search (request_fits args remainingUsd) 0 n)"
    by (simp add: affordableOutputTokenLimit_def)
  have bounds: "0 \<le> affordable_search (request_fits args remainingUsd) 0 n \<and>
      affordable_search (request_fits args remainingUsd) 0 n \<le> n"
    by (rule affordable_search_bounds) (use n in simp)
  show thesis
  proof (rule that [OF lim])
    show "request_fits args remainingUsd m \<longleftrightarrow> m \<le> affordable_search (request_fits args remainingUsd) 0 n"
      if "1 \<le> m" "js_le (js_int m) (tc_maxOutputTokens args)" for m
      by (rule affordable_search_exact)
        (use that n request_fits_down [OF assms] in \<open>auto simp: js_int_def\<close>)
  qed (use bounds n in \<open>simp_all add: js_int_def\<close>)
qed

end
