(* ===== verification/Tree_Budget.thy ===== *)
theory Tree_Budget
  imports Cost_Guard Gateway_Usage Usage_Generations Risk_Budget Attempt_Identity
begin

text \<open>
  The shared budget of a tree of workers (\<open>core/delegation/worker-tree-budget-coordinator.ts\<close>): the usage every
  attempt of the tree has published, the reservations of requests under way and the queue of requests that wait
  for one. A promise is a ticket: settling it appends its outcome to the list of outcomes, for a reservation the
  attempt its \<open>release\<close> acts for and the granted tokens. Amounts are added exactly.
\<close>

section \<open>State\<close>

datatype WorkerTreeBudgetField = TreeMaxTokens | TreeMaxCostUsd | TreeMaxToolCalls | TreeMaxWallClockMs | TreeMaxAttempts

fun WORKER_TREE_BUDGET_REASON_CODES :: "WorkerTreeBudgetField \<Rightarrow> string" where
  "WORKER_TREE_BUDGET_REASON_CODES TreeMaxTokens = ''worker_tree_token_budget_exhausted''"
| "WORKER_TREE_BUDGET_REASON_CODES TreeMaxCostUsd = ''worker_tree_cost_budget_exhausted''"
| "WORKER_TREE_BUDGET_REASON_CODES TreeMaxToolCalls = ''worker_tree_tool_call_budget_exhausted''"
| "WORKER_TREE_BUDGET_REASON_CODES TreeMaxWallClockMs = ''worker_tree_wall_clock_budget_exhausted''"
| "WORKER_TREE_BUDGET_REASON_CODES TreeMaxAttempts = ''worker_tree_attempt_budget_exhausted''"

datatype tree_error =
    WorkerTreeBudgetExceeded WorkerTreeBudgetField string
  | RunCostUnpriced
  | RunCostExhausted
  | ReservationNotPositive
  | ReservationAborted
  | TreeUsageError usage_error

text \<open>The request a reservation is for: the estimate of its input, its output limit and the model's price.\<close>

record ProviderRequest =
  rq_costDefaulted :: bool
  rq_inputTokens :: jsnum
  rq_maxTokens :: "jsnum option"
  rq_modelMaxTokens :: jsnum
  rq_cost :: ModelTokenCost

record ProviderBudgetWaiter =
  wt_ticket :: nat
  wt_attemptId :: string
  wt_requestedMaxTokens :: jsnum
  wt_subject :: string
  wt_request :: "ProviderRequest option"

record TreeReservation =
  rs_ticket :: nat
  rs_maxTokens :: jsnum

record TreeBudgetState =
  tb_budget :: RiskBudget
  tb_pricesRequests :: bool
  tb_attempts :: "AttemptUsageSnapshot js_record"
  tb_generationUsage :: "AttemptUsageAccounting js_record"
  tb_reservations :: "TreeReservation js_record"
  tb_waiters :: "ProviderBudgetWaiter list"
  tb_outcomes :: "(nat \<times> (tree_error + string \<times> jsnum)) list"
  tb_released :: "nat list"
  tb_tickets :: nat

definition fresh_tree :: "RiskBudget \<Rightarrow> bool \<Rightarrow> TreeBudgetState" where
  "fresh_tree budget pricesRequests =
     \<lparr>tb_budget = budget, tb_pricesRequests = pricesRequests, tb_attempts = [], tb_generationUsage = [],
      tb_reservations = [], tb_waiters = [], tb_outcomes = [], tb_released = [], tb_tickets = 0\<rparr>"

section \<open>Availability\<close>

definition js_sum :: "jsnum list \<Rightarrow> jsnum" where
  "js_sum = foldl js_add (Fin 0)"

definition tree_budgetedTokens :: "TreeBudgetState \<Rightarrow> jsnum" where
  "tree_budgetedTokens s = js_sum (map budgeted_usage (js_values (tb_attempts s)))"

definition reservedTokens :: "TreeBudgetState \<Rightarrow> jsnum" where
  "reservedTokens s = js_sum (map rs_maxTokens (js_values (tb_reservations s)))"

text \<open>\<open>maximum !== undefined && amount >= maximum\<close>.\<close>

definition reached :: "jsnum option \<Rightarrow> jsnum \<Rightarrow> bool" where
  "reached maximum amount = (case maximum of Some m \<Rightarrow> js_le m amount | None \<Rightarrow> False)"

definition assertAvailable :: "TreeBudgetState \<Rightarrow> string \<Rightarrow> tree_error + unit" where
  "assertAvailable s subject =
     (let budget = tb_budget s; usages = js_values (tb_attempts s) in
      if (case maxAttempts budget of Some m \<Rightarrow> js_lt m (js_int (int (length usages))) | None \<Rightarrow> False)
      then Inl (WorkerTreeBudgetExceeded TreeMaxAttempts subject)
      else if reached (maxTokens budget) (tree_budgetedTokens s)
      then Inl (WorkerTreeBudgetExceeded TreeMaxTokens subject)
      else if reached (maxCostUsd budget) (js_sum (map costUsd usages))
      then Inl (WorkerTreeBudgetExceeded TreeMaxCostUsd subject)
      else if reached (maxToolCalls budget) (js_sum (map toolCalls usages))
      then Inl (WorkerTreeBudgetExceeded TreeMaxToolCalls subject)
      else if reached (maxWallClockMs budget) (js_sum (map activeWallClockMs usages))
      then Inl (WorkerTreeBudgetExceeded TreeMaxWallClockMs subject)
      else Inr ())"

definition tree_remainingTokens :: "TreeBudgetState \<Rightarrow> jsnum option" where
  "tree_remainingTokens s =
     map_option (\<lambda>maximum. js_max (Fin 0) (js_sub (js_sub maximum (tree_budgetedTokens s)) (reservedTokens s)))
       (maxTokens (tb_budget s))"

definition request_cost_args :: "ProviderRequest \<Rightarrow> TurnCostArgs" where
  "request_cost_args request =
     \<lparr>tc_inputTokens = rq_inputTokens request,
      tc_maxOutputTokens = js_min (number_or (rq_maxTokens request) (rq_modelMaxTokens request)) (rq_modelMaxTokens request),
      tc_cost = rq_cost request, tc_cachedInputTokens = None, tc_longContextPricing = None\<rparr>"

definition remaining_usd :: "TreeBudgetState \<Rightarrow> jsnum \<Rightarrow> jsnum" where
  "remaining_usd s maxCost = js_max (Fin 0) (js_sub maxCost (js_sum (map costUsd (js_values (tb_attempts s)))))"

definition affordableOutputTokens :: "TreeBudgetState \<Rightarrow> jsnum \<Rightarrow> ProviderBudgetWaiter \<Rightarrow> tree_error + jsnum" where
  "affordableOutputTokens s maxCost waiter =
     (case wt_request waiter of
        None \<Rightarrow> Inl RunCostExhausted
      | Some request \<Rightarrow>
          if rq_costDefaulted request then Inl RunCostUnpriced
          else
            let affordable = affordableOutputTokenLimit (request_cost_args request) (remaining_usd s maxCost)
            in if js_lt affordable (Fin 1) then Inl RunCostExhausted else Inr affordable)"

section \<open>The queue\<close>

definition settle :: "nat \<Rightarrow> tree_error + string \<times> jsnum \<Rightarrow> TreeBudgetState \<Rightarrow> TreeBudgetState" where
  "settle ticket outcome s = s\<lparr>tb_outcomes := tb_outcomes s @ [(ticket, outcome)]\<rparr>"

text \<open>Why the request at the head of the queue has to wait, when the tree has budget left at all.\<close>

definition waiter_availableTokens :: "TreeBudgetState \<Rightarrow> ProviderBudgetWaiter \<Rightarrow> jsnum" where
  "waiter_availableTokens s waiter =
     (case tree_remainingTokens s of None \<Rightarrow> wt_requestedMaxTokens waiter | Some n \<Rightarrow> n)"

definition must_wait :: "TreeBudgetState \<Rightarrow> ProviderBudgetWaiter \<Rightarrow> bool" where
  "must_wait s waiter \<longleftrightarrow>
     map_of (tb_reservations s) (wt_attemptId waiter) \<noteq> None \<or>
     (maxCostUsd (tb_budget s) \<noteq> None \<or> maxWallClockMs (tb_budget s) \<noteq> None) \<and> tb_reservations s \<noteq> [] \<or>
     js_le (waiter_availableTokens s waiter) (Fin 0)"

definition granted_tokens :: "TreeBudgetState \<Rightarrow> ProviderBudgetWaiter \<Rightarrow> tree_error + jsnum" where
  "granted_tokens s waiter =
     (let limit = js_min (wt_requestedMaxTokens waiter) (waiter_availableTokens s waiter) in
      case maxCostUsd (tb_budget s) of
        Some maxCost \<Rightarrow>
          if tb_pricesRequests s
          then bindE (affordableOutputTokens s maxCost waiter) (\<lambda>affordable. Inr (js_min limit affordable))
          else Inr limit
      | None \<Rightarrow> Inr limit)"

definition grant_reservation :: "ProviderBudgetWaiter \<Rightarrow> jsnum \<Rightarrow> TreeBudgetState \<Rightarrow> TreeBudgetState" where
  "grant_reservation waiter tokens s =
     settle (wt_ticket waiter) (Inr (wt_attemptId waiter, tokens))
       (s\<lparr>tb_reservations := js_set (wt_attemptId waiter) \<lparr>rs_ticket = wt_ticket waiter, rs_maxTokens = tokens\<rparr>
            (tb_reservations s)\<rparr>)"

text \<open>The loop over the queue: refuse the head, stop at it, or grant it and go on.\<close>

fun drain_queue :: "ProviderBudgetWaiter list \<Rightarrow> TreeBudgetState \<Rightarrow> TreeBudgetState" where
  "drain_queue [] s = s\<lparr>tb_waiters := []\<rparr>"
| "drain_queue (waiter # waiters) s =
     (case assertAvailable s (wt_subject waiter) of
        Inl error \<Rightarrow> drain_queue waiters (settle (wt_ticket waiter) (Inl error) s)
      | Inr _ \<Rightarrow>
          if must_wait s waiter then s\<lparr>tb_waiters := waiter # waiters\<rparr>
          else case granted_tokens s waiter of
                 Inl error \<Rightarrow> drain_queue waiters (settle (wt_ticket waiter) (Inl error) s)
               | Inr tokens \<Rightarrow> drain_queue waiters (grant_reservation waiter tokens s))"

definition drainWaiters :: "TreeBudgetState \<Rightarrow> TreeBudgetState" where
  "drainWaiters s = drain_queue (tb_waiters s) s"

section \<open>Operations\<close>

definition tree_reserveProviderBudget ::
  "string \<Rightarrow> jsnum \<Rightarrow> string \<Rightarrow> bool \<Rightarrow> ProviderRequest option \<Rightarrow> TreeBudgetState \<Rightarrow> TreeBudgetState" where
  "tree_reserveProviderBudget attemptId requested subject aborted request s =
     (let ticket = tb_tickets s; s = s\<lparr>tb_tickets := ticket + 1\<rparr> in
      if \<not> js_is_safe_integer requested \<or> js_le requested (Fin 0) then settle ticket (Inl ReservationNotPositive) s
      else if aborted then settle ticket (Inl ReservationAborted) s
      else drainWaiters (s\<lparr>tb_waiters := tb_waiters s @
             [\<lparr>wt_ticket = ticket, wt_attemptId = attemptId, wt_requestedMaxTokens = requested,
               wt_subject = subject, wt_request = request\<rparr>]\<rparr>))"

text \<open>The abort listener of a queued request; it does nothing once the request has left the queue.\<close>

definition abort_waiter :: "nat \<Rightarrow> TreeBudgetState \<Rightarrow> TreeBudgetState" where
  "abort_waiter ticket s =
     (if ticket \<notin> wt_ticket ` set (tb_waiters s) then s
      else drainWaiters (settle ticket (Inl ReservationAborted)
             (s\<lparr>tb_waiters := filter (\<lambda>w. wt_ticket w \<noteq> ticket) (tb_waiters s)\<rparr>)))"

text \<open>The \<open>release\<close> function of a granted reservation; it acts once.\<close>

definition release_reservation :: "string \<Rightarrow> nat \<Rightarrow> TreeBudgetState \<Rightarrow> TreeBudgetState" where
  "release_reservation attemptId ticket s =
     (if ticket \<in> set (tb_released s) then s
      else
        let s = s\<lparr>tb_released := ticket # tb_released s\<rparr>;
            s = (if map_option rs_ticket (map_of (tb_reservations s) attemptId) = Some ticket
                 then s\<lparr>tb_reservations := js_delete attemptId (tb_reservations s)\<rparr> else s)
        in drainWaiters s)"

definition known_usage :: "TreeBudgetState \<Rightarrow> string \<Rightarrow> AttemptUsageSnapshot" where
  "known_usage s attemptId =
     (case map_of (tb_attempts s) attemptId of Some u \<Rightarrow> u | None \<Rightarrow> EMPTY_ATTEMPT_USAGE)"

definition shrink_reservation ::
  "string \<Rightarrow> AttemptUsageSnapshot option \<Rightarrow> AttemptUsageSnapshot \<Rightarrow> TreeReservation js_record \<Rightarrow> TreeReservation js_record" where
  "shrink_reservation attemptId previous merged reservations =
     (case (map_of reservations attemptId, previous) of
        (Some r, Some p) \<Rightarrow>
          js_set attemptId
            (r\<lparr>rs_maxTokens := js_max (Fin 0) (js_sub (rs_maxTokens r)
                 (js_max (Fin 0) (js_sub (budgeted_usage merged) (budgeted_usage p))))\<rparr>) reservations
      | _ \<Rightarrow> reservations)"

definition tree_recordAttemptUsage ::
  "string \<Rightarrow> GatewayUsage \<Rightarrow> AttemptUsageAccounting option \<Rightarrow> TreeBudgetState \<Rightarrow> usage_error + TreeBudgetState" where
  "tree_recordAttemptUsage attemptId usage accounting s =
     bindE (attemptUsageFromGatewayUsage usage) (\<lambda>publication.
     bindE (case accounting of
              None \<Rightarrow> Inr None
            | Some a \<Rightarrow> bindE (reconcileAttemptUsageAccounting (map_of (tb_generationUsage s) attemptId) a)
                         (\<lambda>x. Inr (Some x))) (\<lambda>attributed.
     bindE (case attributed of
              None \<Rightarrow> Inr publication
            | Some a \<Rightarrow> reconcileAttemptUsage publication (acct_total a)) (\<lambda>reported.
     bindE (reconcileAttemptUsage (known_usage s attemptId) reported) (\<lambda>merged.
     Inr (drainWaiters
       (s\<lparr>tb_generationUsage := (case attributed of None \<Rightarrow> tb_generationUsage s
                                 | Some a \<Rightarrow> js_set attemptId a (tb_generationUsage s)),
          tb_attempts := js_set attemptId merged (tb_attempts s),
          tb_reservations := shrink_reservation attemptId (map_of (tb_attempts s) attemptId) merged
                               (tb_reservations s)\<rparr>))))))"

section \<open>Trees and ports\<close>

record WorkerTreeBudgetSeed =
  seed_attemptId :: string
  seed_usage :: AttemptUsageSnapshot

text \<open>Usage merged into a tree; the entries before one that is refused stay merged.\<close>

fun seed_attempts :: "WorkerTreeBudgetSeed list \<Rightarrow> TreeBudgetState \<Rightarrow> TreeBudgetState \<times> (usage_error + unit)" where
  "seed_attempts [] s = (s, Inr ())"
| "seed_attempts (seed # seeds) s =
     (case reconcileAttemptUsage (known_usage s (seed_attemptId seed)) (seed_usage seed) of
        Inl e \<Rightarrow> (s, Inl e)
      | Inr u \<Rightarrow> seed_attempts seeds (s\<lparr>tb_attempts := js_set (seed_attemptId seed) u (tb_attempts s)\<rparr>))"

record TreePortArgs =
  pa_rootAgentId :: string
  pa_attemptId :: string
  pa_budget :: RiskBudget
  pa_seeds :: "WorkerTreeBudgetSeed list"
  pa_initialUsage :: AttemptUsageSnapshot
  pa_pricesRequests :: bool

definition createPort ::
  "TreePortArgs \<Rightarrow> TreeBudgetState js_record \<Rightarrow> TreeBudgetState js_record \<times> (usage_error + unit)" where
  "createPort args trees =
     (let state = (case map_of trees (pa_rootAgentId args) of
            None \<Rightarrow> fresh_tree (pa_budget args) (pa_pricesRequests args)
          | Some s \<Rightarrow> s\<lparr>tb_budget := intersectRiskBudgets [tb_budget s, pa_budget args]\<rparr>);
          (state', result) = seed_attempts
            (pa_seeds args @ [\<lparr>seed_attemptId = pa_attemptId args, seed_usage = pa_initialUsage args\<rparr>]) state
      in (js_set (pa_rootAgentId args) state' trees, result))"

definition workerTreeCanAdmitAttempt :: "nat \<Rightarrow> jsnum option \<Rightarrow> bool" where
  "workerTreeCanAdmitAttempt existingAttemptCount limit =
     (case limit of None \<Rightarrow> True | Some m \<Rightarrow> js_lt (js_int (int existingAttemptCount)) m)"

definition projectAttemptUsage :: "AttemptRuntimeState \<Rightarrow> AttemptCheckpoint js_record \<Rightarrow> AttemptUsageSnapshot option" where
  "projectAttemptUsage attempt stored =
     (case att_usageAccounting attempt of
        Some a \<Rightarrow> Some (acct_total a)
      | None \<Rightarrow>
          (case List.map_filter (\<lambda>k. case map_of stored k of None \<Rightarrow> None | Some c \<Rightarrow> ck_usage c) (rev (att_checkpointIds attempt)) of
             [] \<Rightarrow> None
           | u # _ \<Rightarrow> Some u))"

definition collectWorkerTreeBudgetSeeds :: "TaskRuntimeProjection \<Rightarrow> string \<Rightarrow> WorkerTreeBudgetSeed list" where
  "collectWorkerTreeBudgetSeeds snapshot rootAgentId =
     map (\<lambda>attempt. \<lparr>seed_attemptId = att_attemptId attempt,
            seed_usage = (case projectAttemptUsage attempt (checkpoints snapshot) of
               Some u \<Rightarrow> u | None \<Rightarrow> EMPTY_ATTEMPT_USAGE)\<rparr>)
       (filter (\<lambda>attempt. case nativeAgentIdForAttempt attempt of
            None \<Rightarrow> False
          | Some agentId \<Rightarrow> (agentId \<noteq> [] \<and> map_option agent_rootAgentId (map_of (agents snapshot) agentId) = Some rootAgentId))
         (js_values (attempts snapshot)))"

end
