(* ===== verification/Capability_Gateway.thy ===== *)
theory Capability_Gateway
  imports Path_Arguments Policy_Compiler Gateway_Usage Usage_Generations Tree_Budget
begin

text \<open>
  The capability gateway of a running worker (\<open>core/orchestration/capability-gateway.ts\<close>): every tool call is
  checked against the compiled grant and the budgets immediately before it runs. An operation may throw after it
  has changed the gateway, so it answers with a result and the gateway after it. What the gateway talks to is
  a record of functions over a state of its own: the accounting port of its attempt over the durable ledger, the
  shared budget of its tree over the tree. The clock is a sequence of readings.
\<close>

section \<open>Steps that may throw\<close>

definition returnS :: "'a \<Rightarrow> 's \<Rightarrow> ('e + 'a) \<times> 's" where
  "returnS x s = (Inr x, s)"

definition throwS :: "'e \<Rightarrow> 's \<Rightarrow> ('e + 'a) \<times> 's" where
  "throwS e s = (Inl e, s)"

definition thenS :: "('s \<Rightarrow> ('e + 'a) \<times> 's) \<Rightarrow> ('a \<Rightarrow> 's \<Rightarrow> ('e + 'b) \<times> 's) \<Rightarrow> 's \<Rightarrow> ('e + 'b) \<times> 's" where
  "thenS m f s = (case m s of (Inl e, s') \<Rightarrow> (Inl e, s') | (Inr x, s') \<Rightarrow> f x s')"

definition resultS :: "'e + 'a \<Rightarrow> 's \<Rightarrow> ('e + 'a) \<times> 's" where
  "resultS r s = (r, s)"

definition assertS :: "bool \<Rightarrow> 'e \<Rightarrow> 's \<Rightarrow> ('e + unit) \<times> 's" where
  "assertS b e s = (if b then Inr () else Inl e, s)"

lemma thenS_Inr: "thenS m f s = (Inr y, s') \<longleftrightarrow> (\<exists>x s1. m s = (Inr x, s1) \<and> f x s1 = (Inr y, s'))"
  by (cases "m s"; cases "fst (m s)") (auto simp: thenS_def)

lemma thenS_Inl: "thenS m f s = (Inl e, s') \<longleftrightarrow> m s = (Inl e, s') \<or> (\<exists>x s1. m s = (Inr x, s1) \<and> f x s1 = (Inl e, s'))"
  by (cases "m s"; cases "fst (m s)") (auto simp: thenS_def)

lemma returnS_eq [simp]: "returnS x s = (r, s') \<longleftrightarrow> r = Inr x \<and> s' = s" by (auto simp: returnS_def)
lemma throwS_eq [simp]: "throwS e s = (r, s') \<longleftrightarrow> r = Inl e \<and> s' = s" by (auto simp: throwS_def)
lemma resultS_eq [simp]: "resultS q s = (r, s') \<longleftrightarrow> r = q \<and> s' = s" by (auto simp: resultS_def)
lemma assertS_eq [simp]: "assertS b e s = (r, s') \<longleftrightarrow> r = (if b then Inr () else Inl e) \<and> s' = s" by (auto simp: assertS_def)

section \<open>The gateway and what it talks to\<close>

datatype gateway_error =
    GatewayDenied GatewayDecisionCode
  | GatewayClockInvalid
  | GatewayElapsedInvalid
  | GatewayWallClockInvalid
  | GatewayDateInvalid
  | GatewayInitialUsageInvalid
  | GatewayDeltaInvalid
  | GatewayDeltaUnsafe
  | GatewayToolCallsUnsafe
  | GatewayAlreadyBound
  | GatewayBindTooLate
  | GatewayReservationNotPositive
  | GatewayAborted
  | GatewayUsageInvalid usage_error
  | GatewayTreeRefused tree_error
  | GatewayPortFailed string
  | GatewayBothFailed gateway_error gateway_error

record GatewayAuditRecord =
  ar_grantId :: string
  ar_attemptId :: string
  ar_toolName :: string
  ar_allow :: bool
  ar_reasonCode :: GatewayDecisionCode
  ar_at :: timestamp

record 'd GatewayUsageAccountingPort =
  ap_identity :: AttemptUsageGenerationIdentity
  ap_baseline :: AttemptUsageSnapshot
  ap_read :: "'d \<Rightarrow> string + AttemptUsageAccounting"
  ap_record :: "AttemptUsageSnapshot \<Rightarrow> 'd \<Rightarrow> (string + unit) \<times> 'd"

record 'w SharedCapabilityBudget =
  sb_assertBudgetAvailable :: "string \<Rightarrow> 'w \<Rightarrow> tree_error + unit"
  sb_getAttemptUsage :: "'w \<Rightarrow> AttemptUsageSnapshot"
  sb_recordAttemptUsage :: "GatewayUsage \<Rightarrow> AttemptUsageAccounting option \<Rightarrow> 'w \<Rightarrow> (tree_error + unit) \<times> 'w"
  sb_remainingTokens :: "'w \<Rightarrow> jsnum option"
  sb_reserveProviderBudget :: "jsnum \<Rightarrow> string \<Rightarrow> bool \<Rightarrow> ProviderRequest option \<Rightarrow> 'w \<Rightarrow> 'w"

text \<open>What is fixed for a gateway: the grant, the directory, the shared budget and the environment.\<close>

record 'w GatewaySetup =
  su_grant :: ExecutionGrant
  su_cwd :: string
  su_now :: "nat \<Rightarrow> jsnum"
  su_audited :: bool
  su_sharedBudget :: "'w SharedCapabilityBudget option"
  su_paths :: path_env
  su_home :: string
  su_extensionTools :: "string list"

record ('d, 'w) Gateway =
  ga_startedAt :: jsnum
  ga_initialWallClockMs :: jsnum
  ga_stoppedAt :: "jsnum option"
  ga_lastWallClockMs :: jsnum
  ga_usageAccounting :: "'d GatewayUsageAccountingPort option"
  ga_usageStarted :: bool
  ga_toolCalls :: jsnum
  ga_inputTokens :: jsnum
  ga_outputTokens :: jsnum
  ga_cacheReadTokens :: jsnum
  ga_cacheWriteTokens :: jsnum
  ga_totalTokens :: jsnum
  ga_costUsd :: jsnum
  ga_readings :: nat
  ga_audit :: "GatewayAuditRecord list"
  ga_ledger :: 'd
  ga_shared :: 'w

type_synonym ('d, 'w, 'a) gateway_op = "('d, 'w) Gateway \<Rightarrow> (gateway_error + 'a) \<times> ('d, 'w) Gateway"

section \<open>Clock\<close>

definition currentTime :: "'w GatewaySetup \<Rightarrow> ('d, 'w, jsnum) gateway_op" where
  "currentTime S g =
     (let now = su_now S (ga_readings g) in
      (if js_is_finite now then Inr now else Inl GatewayClockInvalid, g\<lparr>ga_readings := ga_readings g + 1\<rparr>))"

definition wallClockMsAt :: "jsnum \<Rightarrow> ('d, 'w, jsnum) gateway_op" where
  "wallClockMsAt now g =
     (let elapsed = js_sub (case ga_stoppedAt g of Some t \<Rightarrow> t | None \<Rightarrow> now) (ga_startedAt g);
          wallClock = js_add (ga_initialWallClockMs g) (js_max (Fin 0) elapsed);
          latest = js_max (ga_lastWallClockMs g) wallClock in
      if \<not> js_is_finite elapsed then (Inl GatewayElapsedInvalid, g)
      else if \<not> js_is_finite wallClock \<or> js_lt wallClock (Fin 0) then (Inl GatewayWallClockInvalid, g)
      else (Inr latest, g\<lparr>ga_lastWallClockMs := latest\<rparr>))"

text \<open>\<open>new Date(ms).toISOString()\<close>: fractions are dropped, a date out of range throws.\<close>

definition iso_string :: "jsnum \<Rightarrow> gateway_error + timestamp" where
  "iso_string ms =
     (case ms of
        Fin q \<Rightarrow> if \<bar>q\<bar> \<le> 8640000000000000 then Inr (At (if q < 0 then \<lceil>q\<rceil> else \<lfloor>q\<rfloor>)) else Inl GatewayDateInvalid
      | _ \<Rightarrow> Inl GatewayDateInvalid)"

definition stopUsageClock :: "'w GatewaySetup \<Rightarrow> ('d, 'w, unit) gateway_op" where
  "stopUsageClock S g =
     (if ga_stoppedAt g \<noteq> None then (Inr (), g)
      else thenS (currentTime S) (\<lambda>now g. (Inr (), g\<lparr>ga_stoppedAt := Some now\<rparr>)) g)"

section \<open>Audit and denial\<close>

definition audit_record :: "'w GatewaySetup \<Rightarrow> string \<Rightarrow> bool \<Rightarrow> GatewayDecisionCode \<Rightarrow> timestamp \<Rightarrow> GatewayAuditRecord" where
  "audit_record S toolName allow reasonCode when =
     \<lparr>ar_grantId = grant_grantId (su_grant S), ar_attemptId = grant_attemptId (su_grant S), ar_toolName = toolName,
      ar_allow = allow, ar_reasonCode = reasonCode, ar_at = when\<rparr>"

definition audit :: "'w GatewaySetup \<Rightarrow> string \<Rightarrow> bool \<Rightarrow> GatewayDecisionCode \<Rightarrow> ('d, 'w, unit) gateway_op" where
  "audit S toolName allow reasonCode =
     (if \<not> su_audited S then returnS ()
      else
        thenS (currentTime S) (\<lambda>now.
        thenS (resultS (iso_string now)) (\<lambda>when g.
        (Inr (), g\<lparr>ga_audit := ga_audit g @ [audit_record S toolName allow reasonCode when]\<rparr>))))"

definition deny :: "'w GatewaySetup \<Rightarrow> string \<Rightarrow> GatewayDecisionCode \<Rightarrow> ('d, 'w, 'a) gateway_op" where
  "deny S toolName reasonCode =
     thenS (audit S toolName False reasonCode) (\<lambda>_. throwS (GatewayDenied reasonCode))"

definition deny_if :: "'w GatewaySetup \<Rightarrow> string \<Rightarrow> bool \<Rightarrow> GatewayDecisionCode \<Rightarrow> ('d, 'w, unit) gateway_op" where
  "deny_if S toolName refused reasonCode = (if refused then deny S toolName reasonCode else returnS ())"

section \<open>Usage\<close>

definition on_ledger :: "('d \<Rightarrow> (string + 'a) \<times> 'd) \<Rightarrow> ('d, 'w, 'a) gateway_op" where
  "on_ledger f g = (let (r, d) = f (ga_ledger g) in (mapE GatewayPortFailed r, g\<lparr>ga_ledger := d\<rparr>))"

definition on_shared :: "('w \<Rightarrow> (tree_error + 'a) \<times> 'w) \<Rightarrow> ('d, 'w, 'a) gateway_op" where
  "on_shared f g = (let (r, w) = f (ga_shared g) in (mapE GatewayTreeRefused r, g\<lparr>ga_shared := w\<rparr>))"

definition usage_result :: "usage_error + 'a \<Rightarrow> ('d, 'w, 'a) gateway_op" where
  "usage_result r = resultS (mapE GatewayUsageInvalid r)"

definition getLocalUsage :: "'w GatewaySetup \<Rightarrow> ('d, 'w, GatewayUsage) gateway_op" where
  "getLocalUsage S =
     thenS (currentTime S) (\<lambda>now.
     thenS (wallClockMsAt now) (\<lambda>wallClock g.
     (Inr \<lparr>gw_toolCalls = ga_toolCalls g, gw_inputTokens = ga_inputTokens g, gw_outputTokens = ga_outputTokens g,
           gw_cacheReadTokens = ga_cacheReadTokens g, gw_cacheWriteTokens = ga_cacheWriteTokens g,
           gw_totalTokens = ga_totalTokens g, gw_costUsd = ga_costUsd g, gw_wallClockMs = wallClock\<rparr>, g)))"

definition getProjectedAccounting :: "'w GatewaySetup \<Rightarrow> ('d, 'w, AttemptUsageAccounting option) gateway_op" where
  "getProjectedAccounting S g =
     (case ga_usageAccounting g of
        None \<Rightarrow> (Inr None, g)
      | Some port \<Rightarrow>
          thenS (on_ledger (\<lambda>d. (ap_read port d, d))) (\<lambda>accounting.
          thenS (getLocalUsage S) (\<lambda>local.
          thenS (usage_result (attemptUsageFromGatewayUsage local)) (\<lambda>local.
          thenS (usage_result (projectPendingAttemptGenerationUsage accounting (ap_identity port) local)) (\<lambda>projected.
          returnS (Some projected))))) g)"

definition gateway_usage :: "AttemptUsageSnapshot \<Rightarrow> GatewayUsage" where
  "gateway_usage u =
     \<lparr>gw_toolCalls = toolCalls u, gw_inputTokens = inputTokens u, gw_outputTokens = outputTokens u,
      gw_cacheReadTokens = cacheReadTokens u, gw_cacheWriteTokens = cacheWriteTokens u,
      gw_totalTokens = totalTokens u, gw_costUsd = costUsd u, gw_wallClockMs = activeWallClockMs u\<rparr>"

definition publishUsage :: "'w GatewaySetup \<Rightarrow> ('d, 'w, unit) gateway_op" where
  "publishUsage S =
     (case su_sharedBudget S of
        None \<Rightarrow> returnS ()
      | Some shared \<Rightarrow>
          thenS (getProjectedAccounting S) (\<lambda>accounting.
          case accounting of
            None \<Rightarrow> thenS (getLocalUsage S) (\<lambda>local. on_shared (sb_recordAttemptUsage shared local None))
          | Some a \<Rightarrow> on_shared (sb_recordAttemptUsage shared (gateway_usage (acct_total a)) (Some a))))"

text \<open>The receipt is written first and published even when the write failed; both failures are reported together.\<close>

definition record_receipt :: "'w GatewaySetup \<Rightarrow> ('d, 'w, unit) gateway_op" where
  "record_receipt S g =
     (case ga_usageAccounting g of
        None \<Rightarrow> (Inr (), g)
      | Some port \<Rightarrow>
          thenS (getLocalUsage S) (\<lambda>local.
          thenS (usage_result (attemptUsageFromGatewayUsage local)) (\<lambda>usage.
          on_ledger (ap_record port usage))) g)"

definition flushUsage :: "'w GatewaySetup \<Rightarrow> ('d, 'w, unit) gateway_op" where
  "flushUsage S g =
     (case record_receipt S g of
        (recorded, g1) \<Rightarrow>
          (case publishUsage S g1 of
             (Inl e, g2) \<Rightarrow> (case recorded of Inl failure \<Rightarrow> (Inl (GatewayBothFailed failure e), g2) | Inr _ \<Rightarrow> (Inl e, g2))
           | (Inr _, g2) \<Rightarrow> (recorded, g2)))"

definition getUsage :: "'w GatewaySetup \<Rightarrow> ('d, 'w, GatewayUsage) gateway_op" where
  "getUsage S =
     thenS (getProjectedAccounting S) (\<lambda>accounting.
     thenS (case accounting of
              Some a \<Rightarrow> returnS (acct_total a)
            | None \<Rightarrow> thenS (getLocalUsage S) (\<lambda>local. usage_result (attemptUsageFromGatewayUsage local))) (\<lambda>local.
     case su_sharedBudget S of
       None \<Rightarrow> returnS (gateway_usage local)
     | Some shared \<Rightarrow>
         thenS (\<lambda>g. usage_result (reconcileAttemptUsage local (sb_getAttemptUsage shared (ga_shared g))) g) (\<lambda>usage.
         returnS (gateway_usage usage))))"

section \<open>Budgets\<close>

definition enforceBudget :: "'w GatewaySetup \<Rightarrow> string \<Rightarrow> ('d, 'w, unit) gateway_op" where
  "enforceBudget S toolName =
     (let budget = grant_budget (su_grant S) in
      thenS (getUsage S) (\<lambda>usage.
      thenS (deny_if S toolName (reached (maxToolCalls budget) (gw_toolCalls usage)) ToolCallBudgetExhausted) (\<lambda>_.
      thenS (deny_if S toolName (reached (maxTokens budget) (budgeted_gateway_usage usage)) TokenBudgetExhausted) (\<lambda>_.
      thenS (deny_if S toolName (reached (maxCostUsd budget) (gw_costUsd usage)) CostBudgetExhausted) (\<lambda>_.
      deny_if S toolName (reached (maxWallClockMs budget) (gw_wallClockMs usage)) WallClockBudgetExhausted)))))"

definition assertBudgetAvailable :: "'w GatewaySetup \<Rightarrow> string \<Rightarrow> ('d, 'w, unit) gateway_op" where
  "assertBudgetAvailable S subject =
     thenS (flushUsage S) (\<lambda>_.
     thenS (enforceBudget S subject) (\<lambda>_.
     case su_sharedBudget S of
       None \<Rightarrow> returnS ()
     | Some shared \<Rightarrow> on_shared (\<lambda>w. (sb_assertBudgetAvailable shared subject w, w))))"

definition remainingAttemptTokenBudget :: "'w GatewaySetup \<Rightarrow> ('d, 'w, jsnum option) gateway_op" where
  "remainingAttemptTokenBudget S =
     (case maxTokens (grant_budget (su_grant S)) of
        None \<Rightarrow> returnS None
      | Some maximum \<Rightarrow> thenS (getUsage S) (\<lambda>usage.
          returnS (Some (js_max (Fin 0) (js_sub maximum (budgeted_gateway_usage usage))))))"

definition gateway_remainingTokenBudget :: "'w GatewaySetup \<Rightarrow> ('d, 'w, jsnum option) gateway_op" where
  "gateway_remainingTokenBudget S =
     thenS (remainingAttemptTokenBudget S) (\<lambda>local g.
     let shared = (case su_sharedBudget S of None \<Rightarrow> None | Some b \<Rightarrow> sb_remainingTokens b (ga_shared g)) in
     (Inr (case (local, shared) of
        (None, _) \<Rightarrow> shared
      | (Some l, None) \<Rightarrow> Some l
      | (Some l, Some r) \<Rightarrow> Some (js_min l r)), g))"

datatype ProviderReservation = LocalReservation jsnum | SharedReservation jsnum

definition reserveProviderBudget ::
  "'w GatewaySetup \<Rightarrow> jsnum \<Rightarrow> string \<Rightarrow> bool \<Rightarrow> ProviderRequest option \<Rightarrow> ('d, 'w, ProviderReservation) gateway_op" where
  "reserveProviderBudget S requested subject aborted request =
     (if \<not> js_is_safe_integer requested \<or> js_le requested (Fin 0) then throwS GatewayReservationNotPositive
      else
        thenS (assertBudgetAvailable S subject) (\<lambda>_.
        thenS (remainingAttemptTokenBudget S) (\<lambda>remaining.
        let tokens = js_min requested (case remaining of Some r \<Rightarrow> r | None \<Rightarrow> requested) in
        thenS (deny_if S subject (js_le tokens (Fin 0)) TokenBudgetExhausted) (\<lambda>_ g.
        case su_sharedBudget S of
          Some shared \<Rightarrow>
            (Inr (SharedReservation tokens), g\<lparr>ga_shared := sb_reserveProviderBudget shared tokens subject aborted request (ga_shared g)\<rparr>)
        | None \<Rightarrow> if aborted then (Inl GatewayAborted, g) else (Inr (LocalReservation tokens), g)))))"

section \<open>Opening and binding\<close>

text \<open>A gateway before anything has been read or published.\<close>

definition fresh_gateway :: "AttemptUsageSnapshot \<Rightarrow> 'd \<Rightarrow> 'w \<Rightarrow> ('d, 'w) Gateway" where
  "fresh_gateway initialUsage d w =
     \<lparr>ga_startedAt = Fin 0, ga_initialWallClockMs = activeWallClockMs initialUsage, ga_stoppedAt = None,
      ga_lastWallClockMs = Fin 0, ga_usageAccounting = None, ga_usageStarted = False,
      ga_toolCalls = toolCalls initialUsage, ga_inputTokens = inputTokens initialUsage,
      ga_outputTokens = outputTokens initialUsage, ga_cacheReadTokens = cacheReadTokens initialUsage,
      ga_cacheWriteTokens = cacheWriteTokens initialUsage, ga_totalTokens = totalTokens initialUsage,
      ga_costUsd = costUsd initialUsage, ga_readings = 0, ga_audit = [], ga_ledger = d, ga_shared = w\<rparr>"

definition openGateway ::
  "'w GatewaySetup \<Rightarrow> AttemptUsageSnapshot option \<Rightarrow> 'd \<Rightarrow> 'w \<Rightarrow> (gateway_error + unit) \<times> ('d, 'w) Gateway" where
  "openGateway S initial d w =
     (let initialUsage = (case initial of Some u \<Rightarrow> u | None \<Rightarrow> EMPTY_ATTEMPT_USAGE) in
      thenS (resultS (case validateAttemptUsageSnapshot initialUsage of
                        Inl _ \<Rightarrow> Inl GatewayInitialUsageInvalid | Inr u \<Rightarrow> Inr u)) (\<lambda>_.
      thenS (currentTime S) (\<lambda>now g. publishUsage S (g\<lparr>ga_startedAt := now\<rparr>)))
        (fresh_gateway initialUsage d w))"

definition bindUsageAccounting :: "'w GatewaySetup \<Rightarrow> 'd GatewayUsageAccountingPort \<Rightarrow> ('d, 'w, unit) gateway_op" where
  "bindUsageAccounting S port g =
     (if ga_usageAccounting g \<noteq> None then (Inl GatewayAlreadyBound, g)
      else if ga_usageStarted g then (Inl GatewayBindTooLate, g)
      else
        thenS (usage_result (validateAttemptUsageSnapshot (ap_baseline port))) (\<lambda>baseline.
        thenS (currentTime S) (\<lambda>now g. publishUsage S
          (g\<lparr>ga_toolCalls := toolCalls baseline, ga_inputTokens := inputTokens baseline,
             ga_outputTokens := outputTokens baseline, ga_cacheReadTokens := cacheReadTokens baseline,
             ga_cacheWriteTokens := cacheWriteTokens baseline, ga_totalTokens := totalTokens baseline,
             ga_costUsd := costUsd baseline, ga_initialWallClockMs := activeWallClockMs baseline,
             ga_lastWallClockMs := activeWallClockMs baseline, ga_startedAt := now,
             ga_usageAccounting := Some port\<rparr>))) g)"

section \<open>Paths\<close>

definition PATH_CAPABILITIES :: "HarnessCapability list" where
  "PATH_CAPABILITIES = [FilesystemRead, FilesystemWrite, WorktreeRead, WorktreeMutate]"

definition WRITE_CAPABILITIES :: "HarnessCapability list" where
  "WRITE_CAPABILITIES = [FilesystemWrite, WorktreeMutate]"

text \<open>\<open>resolve(this.cwd, value)\<close>, the process directory under it.\<close>

definition lexical_path :: "'w GatewaySetup \<Rightarrow> string \<Rightarrow> string" where
  "lexical_path S value = posix_resolve (pe_cwd (su_paths S)) [su_cwd S, value]"

text \<open>A real path that is the empty text counts as none.\<close>

definition resolveRealPath :: "'w GatewaySetup \<Rightarrow> string \<Rightarrow> string option" where
  "resolveRealPath S value =
     (case safeRealpathSync (su_paths S) (lexical_path S value) of Inl _ \<Rightarrow> None | Inr [] \<Rightarrow> None | Inr p \<Rightarrow> Some p)"

definition allowed_roots :: "'w GatewaySetup \<Rightarrow> string list \<Rightarrow> string list" where
  "allowed_roots S allowedPaths =
     concat (map (\<lambda>allowed.
       (case resolveRealPath S allowed of
          Some r \<Rightarrow> [lexical_path S allowed, r]
        | None \<Rightarrow> [lexical_path S allowed])) allowedPaths)"

definition within_some :: "'w GatewaySetup \<Rightarrow> string list \<Rightarrow> string \<Rightarrow> bool" where
  "within_some S scopes target = list_ex (isPathWithinScope (su_paths S) target) scopes"

definition real_roots :: "'w GatewaySetup \<Rightarrow> string list \<Rightarrow> string list" where
  "real_roots S paths = List.map_filter (resolveRealPath S) paths"

definition pathAllowed :: "'w GatewaySetup \<Rightarrow> string \<Rightarrow> string list \<Rightarrow> bool" where
  "pathAllowed S rawPath allowedPaths =
     (if allowedPaths = [] then False
      else
        let allowedRoots = allowed_roots S allowedPaths in
        if \<not> within_some S allowedRoots (lexical_path S rawPath) then False
        else case resolveRealPath S rawPath of
          None \<Rightarrow> False
        | Some target \<Rightarrow>
            if within_some S (real_roots S (grant_deniedPaths (su_grant S))) target then False
            else within_some S allowedRoots target)"

section \<open>Eligibility\<close>

definition grant_expired :: "ExecutionGrant \<Rightarrow> jsnum \<Rightarrow> bool" where
  "grant_expired grant now = (case grant_expiresAt grant of Some t \<Rightarrow> js_le (date_parse t) now | None \<Rightarrow> False)"

text \<open>What this very call needs, and how it reaches paths.\<close>

definition call_capabilities :: "'w GatewaySetup \<Rightarrow> ToolCapabilityManifest \<Rightarrow> string \<Rightarrow> json option \<Rightarrow> HarnessCapability list option" where
  "call_capabilities S manifest toolName params =
     (if getToolCapabilityPolicy (su_extensionTools S) toolName \<noteq> None
      then resolveToolCallCapabilities (su_extensionTools S) (man_capabilities manifest) toolName params
      else Some (man_capabilities manifest))"

definition call_path_access ::
  "'w GatewaySetup \<Rightarrow> ToolCapabilityManifest \<Rightarrow> string \<Rightarrow> json option \<Rightarrow> HarnessCapability list \<Rightarrow> ToolPathAccess" where
  "call_path_access S manifest toolName params callCapabilities =
     (if getToolCapabilityPolicy (su_extensionTools S) toolName \<noteq> None
      then resolveToolCallPathAccess (su_extensionTools S) (man_capabilities manifest) toolName params
      else if PathScope \<in> set (man_enforcements manifest)
      then (case resolveCapabilityPathAccess callCapabilities of Some a \<Rightarrow> a | None \<Rightarrow> NoPathAccess)
      else NoPathAccess)"

definition call_writes :: "ToolPathAccess \<Rightarrow> HarnessCapability list \<Rightarrow> bool" where
  "call_writes pathAccess callCapabilities \<longleftrightarrow>
     pathAccess = WriteAccess \<or> list_ex (\<lambda>c. c \<in> set WRITE_CAPABILITIES) callCapabilities"

definition call_paths :: "'w GatewaySetup \<Rightarrow> string \<Rightarrow> json option \<Rightarrow> ToolPathAccess \<Rightarrow> string list" where
  "call_paths S toolName params pathAccess =
     (if pathAccess = NoPathAccess then []
      else extractToolPathArguments (su_paths S) (su_home S) (su_extensionTools S) toolName params)"

definition granted_paths :: "'w GatewaySetup \<Rightarrow> bool \<Rightarrow> string list" where
  "granted_paths S isWrite = (if isWrite then grant_writePaths (su_grant S) else grant_readPaths (su_grant S))"

definition check_paths ::
  "'w GatewaySetup \<Rightarrow> string \<Rightarrow> json option \<Rightarrow> ToolPathAccess \<Rightarrow> HarnessCapability list \<Rightarrow> ('d, 'w, unit) gateway_op" where
  "check_paths S toolName params pathAccess callCapabilities =
     (let paths = call_paths S toolName params pathAccess in
      if pathAccess \<noteq> NoPathAccess \<and> (list_ex (\<lambda>c. c \<in> set PATH_CAPABILITIES) callCapabilities \<or> paths \<noteq> []) then
        let isWrite = call_writes pathAccess callCapabilities in
        thenS (deny_if S toolName (paths = []) PathArgumentRequired) (\<lambda>_.
        deny_if S toolName (\<not> list_all (\<lambda>p. pathAllowed S p (granted_paths S isWrite)) paths)
          (if isWrite then ScopeDenied else PathOutsideScope))
      else returnS ())"

definition checkToolCallEligibility ::
  "'w GatewaySetup \<Rightarrow> ToolCapabilityManifest \<Rightarrow> string \<Rightarrow> json option \<Rightarrow> ('d, 'w, unit) gateway_op" where
  "checkToolCallEligibility S manifest toolName params =
     thenS (currentTime S) (\<lambda>now.
     thenS (deny_if S toolName (grant_expired (su_grant S) now) GrantExpired) (\<lambda>_.
     thenS (deny_if S toolName (toolName \<notin> set (grant_allowedTools (su_grant S))) ToolNotGranted) (\<lambda>_.
     thenS (deny_if S toolName (man_toolName manifest \<noteq> toolName) ManifestNameMismatch) (\<lambda>_.
     thenS (deny_if S toolName (\<not> set (man_capabilities manifest) \<subseteq> set (grant_capabilities (su_grant S)))
              CapabilityNotGranted) (\<lambda>_.
     case call_capabilities S manifest toolName params of
       None \<Rightarrow> deny S toolName CapabilityNotGranted
     | Some callCapabilities \<Rightarrow>
         check_paths S toolName params
           (call_path_access S manifest toolName params callCapabilities) callCapabilities)))))"

section \<open>Calls and usage\<close>

definition authorizeToolCall ::
  "'w GatewaySetup \<Rightarrow> ToolCapabilityManifest \<Rightarrow> string \<Rightarrow> json option \<Rightarrow> ('d, 'w, unit) gateway_op" where
  "authorizeToolCall S manifest toolName params =
     thenS (checkToolCallEligibility S manifest toolName params) (\<lambda>_.
     thenS (assertBudgetAvailable S toolName) (\<lambda>_ g.
     let calls = js_add (ga_toolCalls g) (Fin 1) in
     if \<not> js_is_safe_integer calls then (Inl GatewayToolCallsUnsafe, g)
     else
       thenS (flushUsage S) (\<lambda>_. audit S toolName True Allowed)
         (g\<lparr>ga_toolCalls := calls, ga_usageStarted := True\<rparr>)))"

text \<open>The tool itself is a step over the gateway's world.\<close>

definition execute_call ::
  "'w GatewaySetup \<Rightarrow> ToolCapabilityManifest \<Rightarrow> string \<Rightarrow> json option \<Rightarrow> ('d, 'w, 'a) gateway_op \<Rightarrow> ('d, 'w, 'a) gateway_op" where
  "execute_call S manifest toolName params invoke =
     thenS (authorizeToolCall S manifest toolName params) (\<lambda>_. invoke)"

definition gateway_recordUsage :: "'w GatewaySetup \<Rightarrow> GatewayUsageDelta \<Rightarrow> ('d, 'w, unit) gateway_op" where
  "gateway_recordUsage S delta g =
     (case validatedUsageDelta delta of
        None \<Rightarrow> (Inl GatewayDeltaInvalid, g)
      | Some d \<Rightarrow>
          let inp = js_add (ga_inputTokens g) (vd_inputTokens d);
              out = js_add (ga_outputTokens g) (vd_outputTokens d);
              reads = js_add (ga_cacheReadTokens g) (vd_cacheReadTokens d);
              writes = js_add (ga_cacheWriteTokens g) (vd_cacheWriteTokens d);
              tot = js_add (ga_totalTokens g) (vd_totalTokens d);
              cost = js_add (ga_costUsd g) (vd_costUsd d) in
          if \<not> js_is_safe_integer inp \<or> \<not> js_is_safe_integer out \<or> \<not> js_is_safe_integer reads \<or>
             \<not> js_is_safe_integer writes \<or> \<not> js_is_safe_integer tot \<or> \<not> js_is_finite cost
          then (Inl GatewayDeltaUnsafe, g)
          else
            let g' = g\<lparr>ga_inputTokens := inp, ga_outputTokens := out, ga_cacheReadTokens := reads,
                       ga_cacheWriteTokens := writes, ga_totalTokens := tot, ga_costUsd := cost,
                       ga_usageStarted := True\<rparr> in
            if ga_usageAccounting g' = None then publishUsage S g' else (Inr (), g'))"

end
