(* ===== verification/Tree_Reservations.thy ===== *)
theory Tree_Reservations
  imports Tree_Budget
begin

text \<open>
  What holds of every tree budget that the operations of \<open>Tree_Budget\<close> reach: its queue is served in order, a
  waiting request is never left behind, and no reservation is granted beyond the budget.
\<close>

section \<open>What every reached tree keeps\<close>

fun amount :: "jsnum \<Rightarrow> rat" where
  "amount (Fin q) = q"
| "amount _ = 0"

definition is_Fin :: "jsnum \<Rightarrow> bool" where
  "is_Fin n \<longleftrightarrow> (\<exists>q. n = Fin q)"

lemma is_Fin_simps [simp]: "is_Fin (Fin q)" "\<not> is_Fin NaN" "\<not> is_Fin PosInf" "\<not> is_Fin NegInf" "is_Fin (js_int i)"
  by (simp_all add: is_Fin_def js_int_def)

lemma js_sum_Fin: "\<forall>x \<in> set xs. is_Fin x \<Longrightarrow> js_sum xs = Fin (sum_list (map amount xs))"
proof -
  have "\<forall>x \<in> set xs. is_Fin x \<Longrightarrow> foldl js_add (Fin a) xs = Fin (a + sum_list (map amount xs))" for a
    by (induction xs arbitrary: a) (auto simp: is_Fin_def algebra_simps)
  then show "\<forall>x \<in> set xs. is_Fin x \<Longrightarrow> js_sum xs = Fin (sum_list (map amount xs))" by (simp add: js_sum_def)
qed

lemma budgeted_usage_Fin: "usage_valid u \<Longrightarrow> is_Fin (budgeted_usage u)"
proof -
  assume valid: "usage_valid u"
  obtain a b c d e where "inputTokens u = Fin a" "outputTokens u = Fin b" "cacheReadTokens u = Fin c"
    "cacheWriteTokens u = Fin d" "totalTokens u = Fin e"
    using usage_valid_Fin [OF valid, of UfInputTokens] usage_valid_Fin [OF valid, of UfOutputTokens]
      usage_valid_Fin [OF valid, of UfCacheReadTokens] usage_valid_Fin [OF valid, of UfCacheWriteTokens]
      usage_valid_Fin [OF valid, of UfTotalTokens] by auto
  then show ?thesis
    by (simp add: budgeted_usage_def budgetedTokens_def discounted_cache_reads_def js_int_def Let_def)
qed

text \<open>The queue is passed beside the state, as the loop over it has taken it out.\<close>

definition queue_ok :: "ProviderBudgetWaiter list \<Rightarrow> TreeBudgetState \<Rightarrow> bool" where
  "queue_ok ws s \<longleftrightarrow>
     own_keys_distinct (tb_reservations s) \<and>
     (\<forall>u \<in> set (js_values (tb_attempts s)). usage_valid u) \<and>
     (\<forall>r \<in> set (js_values (tb_reservations s)). is_Fin (rs_maxTokens r)) \<and>
     (\<forall>f v. budget_get (tb_budget s) f = Some v \<longrightarrow> is_Fin v) \<and>
     (\<forall>w \<in> set ws. \<exists>q. wt_requestedMaxTokens w = Fin q \<and> 0 < q) \<and>
     distinct (map fst (tb_outcomes s) @ map wt_ticket ws) \<and>
     fst ` set (tb_outcomes s) \<union> wt_ticket ` set ws = {..<tb_tickets s} \<and>
     set (tb_released s) \<subseteq> fst ` set (tb_outcomes s) \<and>
     (\<forall>(a, r) \<in> set (tb_reservations s). rs_ticket r \<notin> set (tb_released s) \<and>
        (\<exists>m. (rs_ticket r, Inr (a, m)) \<in> set (tb_outcomes s)))"

lemma queue_okI:
  assumes "own_keys_distinct (tb_reservations s)"
    and "\<forall>u \<in> set (js_values (tb_attempts s)). usage_valid u"
    and "\<forall>r \<in> set (js_values (tb_reservations s)). is_Fin (rs_maxTokens r)"
    and "\<forall>f v. budget_get (tb_budget s) f = Some v \<longrightarrow> is_Fin v"
    and "\<forall>w \<in> set ws. \<exists>q. wt_requestedMaxTokens w = Fin q \<and> 0 < q"
    and "distinct (map fst (tb_outcomes s) @ map wt_ticket ws)"
    and "fst ` set (tb_outcomes s) \<union> wt_ticket ` set ws = {..<tb_tickets s}"
    and "set (tb_released s) \<subseteq> fst ` set (tb_outcomes s)"
    and "\<And>a r. (a, r) \<in> set (tb_reservations s) \<Longrightarrow> rs_ticket r \<notin> set (tb_released s) \<and>
        (\<exists>m. (rs_ticket r, Inr (a, m)) \<in> set (tb_outcomes s))"
  shows "queue_ok ws s"
  unfolding queue_ok_def by (intro conjI; (rule assms(1-8))?) (use assms(9) in auto)

lemma queue_okD:
  assumes "queue_ok ws s"
  shows "own_keys_distinct (tb_reservations s)"
    and "\<forall>u \<in> set (js_values (tb_attempts s)). usage_valid u"
    and "\<forall>r \<in> set (js_values (tb_reservations s)). is_Fin (rs_maxTokens r)"
    and "\<forall>f v. budget_get (tb_budget s) f = Some v \<longrightarrow> is_Fin v"
    and "\<forall>w \<in> set ws. \<exists>q. wt_requestedMaxTokens w = Fin q \<and> 0 < q"
    and "distinct (map fst (tb_outcomes s) @ map wt_ticket ws)"
    and "fst ` set (tb_outcomes s) \<union> wt_ticket ` set ws = {..<tb_tickets s}"
    and "set (tb_released s) \<subseteq> fst ` set (tb_outcomes s)"
    and "\<And>a r. (a, r) \<in> set (tb_reservations s) \<Longrightarrow> rs_ticket r \<notin> set (tb_released s) \<and>
        (\<exists>m. (rs_ticket r, Inr (a, m)) \<in> set (tb_outcomes s))"
  using assms unfolding queue_ok_def by (elim conjE; fastforce)+

definition tree_ok :: "TreeBudgetState \<Rightarrow> bool" where
  "tree_ok s \<longleftrightarrow> queue_ok (tb_waiters s) s \<and> (tb_waiters s \<noteq> [] \<longrightarrow> tb_reservations s \<noteq> [])"

lemma charged_Fin: "queue_ok ws s \<Longrightarrow> is_Fin (tree_budgetedTokens s)"
  by (simp add: queue_ok_def tree_budgetedTokens_def js_sum_Fin budgeted_usage_Fin)

lemma reserved_Fin: "queue_ok ws s \<Longrightarrow> is_Fin (reservedTokens s)"
  by (simp add: queue_ok_def reservedTokens_def js_sum_Fin)

lemma remaining_Fin: "queue_ok ws s \<Longrightarrow> maxTokens (tb_budget s) = Some m \<Longrightarrow>
   \<exists>q. m = Fin q \<and> tree_remainingTokens s = Some (Fin (max 0 (q - amount (tree_budgetedTokens s) - amount (reservedTokens s))))"
proof -
  assume ok: "queue_ok ws s" and m: "maxTokens (tb_budget s) = Some m"
  then have "budget_get (tb_budget s) BfMaxTokens = Some m" by simp
  with ok have "is_Fin m" unfolding queue_ok_def by blast
  with charged_Fin [OF ok] reserved_Fin [OF ok] m show ?thesis
    by (auto simp: is_Fin_def tree_remainingTokens_def)
qed

text \<open>A request never waits in a tree that has budget left and holds no reservation.\<close>

lemma waits_for_reservation:
  assumes ok: "queue_ok ws s" and w: "w \<in> set ws"
    and "assertAvailable s subject = Inr ()" and "must_wait s w"
  shows "tb_reservations s \<noteq> []"
proof
  assume none: "tb_reservations s = []"
  with assms(4) have le: "js_le (waiter_availableTokens s w) (Fin 0)" by (simp add: must_wait_def)
  show False
  proof (cases "maxTokens (tb_budget s)")
    case None
    with le ok w show False by (fastforce simp: waiter_availableTokens_def tree_remainingTokens_def queue_ok_def)
  next
    case (Some m)
    from remaining_Fin [OF ok Some] obtain q where q: "m = Fin q"
      "tree_remainingTokens s = Some (Fin (max 0 (q - amount (tree_budgetedTokens s) - amount (reservedTokens s))))" by blast
    have "reservedTokens s = Fin 0" by (simp add: reservedTokens_def none js_sum_def)
    with le q have "q \<le> amount (tree_budgetedTokens s)" by (simp add: waiter_availableTokens_def)
    with assms(3) Some q charged_Fin [OF ok] show False
      by (auto simp: assertAvailable_def Let_def reached_def is_Fin_def split: if_splits)
  qed
qed

section \<open>Draining the queue\<close>

text \<open>
  A granted allowance is positive and at most what was requested; under a cost bound that prices requests it is at
  most an output whose whole cost, with the input, fits what is left.
\<close>

definition allowance_ok :: "TreeBudgetState \<Rightarrow> ProviderBudgetWaiter \<Rightarrow> jsnum \<Rightarrow> bool" where
  "allowance_ok s w tokens \<longleftrightarrow>
     (\<exists>q. tokens = Fin q \<and> 0 < q \<and> js_le tokens (wt_requestedMaxTokens w) \<and>
       (\<forall>maxCost. tb_pricesRequests s \<and> maxCostUsd (tb_budget s) = Some maxCost \<longrightarrow>
          (\<exists>request limit. wt_request w = Some request \<and> \<not> rq_costDefaulted request \<and> q \<le> of_int limit \<and>
             request_fits (request_cost_args request) (remaining_usd s maxCost) limit)))"

text \<open>There is room for every reservation beside what is charged, and a cost or time bound admits one at a time.\<close>

definition room_left :: "TreeBudgetState \<Rightarrow> bool" where
  "room_left s \<longleftrightarrow>
     (\<forall>m. maxTokens (tb_budget s) = Some m \<longrightarrow> js_le (js_add (tree_budgetedTokens s) (reservedTokens s)) m) \<and>
     (maxCostUsd (tb_budget s) \<noteq> None \<or> maxWallClockMs (tb_budget s) \<noteq> None \<longrightarrow> length (tb_reservations s) = 1)"

lemma affordable_fits:
  assumes "affordableOutputTokens s maxCost w = Inr affordable"
  obtains request limit where "wt_request w = Some request" "\<not> rq_costDefaulted request" "affordable = js_int limit" "1 \<le> limit"
    "request_fits (request_cost_args request) (remaining_usd s maxCost) limit"
proof -
  from assms obtain request where request: "wt_request w = Some request" "\<not> rq_costDefaulted request"
    and a: "affordable = affordableOutputTokenLimit (request_cost_args request) (remaining_usd s maxCost)"
      "\<not> js_lt affordable (Fin 1)"
    by (auto simp: affordableOutputTokens_def Let_def split: option.splits if_splits)
  then have valid: "\<not> affordable_args_invalid (request_cost_args request) (remaining_usd s maxCost)"
    by (auto simp: affordableOutputTokenLimit_def)
  from affordable_limit_exact [OF this] obtain limit where limit: "affordable = js_int limit"
    "js_le (js_int limit) (tc_maxOutputTokens (request_cost_args request))"
    "\<And>m. 1 \<le> m \<Longrightarrow> js_le (js_int m) (tc_maxOutputTokens (request_cost_args request)) \<Longrightarrow>
       request_fits (request_cost_args request) (remaining_usd s maxCost) m \<longleftrightarrow> m \<le> limit"
    unfolding a(1) by metis
  with a(2) have "1 \<le> limit" by (simp add: js_int_def)
  with limit request that show thesis by blast
qed

lemma granted_allowance:
  assumes ok: "queue_ok ws s" and w: "w \<in> set ws" and "\<not> must_wait s w" and "granted_tokens s w = Inr tokens"
  shows "allowance_ok s w tokens" and "js_le tokens (waiter_availableTokens s w)"
proof -
  obtain r where r: "wt_requestedMaxTokens w = Fin r" "0 < r" using ok w by (auto simp: queue_ok_def)
  have "is_Fin (waiter_availableTokens s w)"
    using remaining_Fin [OF ok] r
    by (cases "maxTokens (tb_budget s)") (auto simp: waiter_availableTokens_def tree_remainingTokens_def)
  then obtain a where a: "waiter_availableTokens s w = Fin a" by (auto simp: is_Fin_def)
  with assms(3) have "0 < a" by (simp add: must_wait_def)
  have cost: "(tb_pricesRequests s \<longrightarrow> maxCostUsd (tb_budget s) = None) \<and> tokens = Fin (min r a) \<or>
    (\<exists>maxCost affordable. tb_pricesRequests s \<and> maxCostUsd (tb_budget s) = Some maxCost \<and>
       affordableOutputTokens s maxCost w = Inr affordable \<and> tokens = js_min (Fin (min r a)) affordable)"
    using assms(4) by (auto simp: granted_tokens_def Let_def r a split: option.splits if_splits)
  then show "allowance_ok s w tokens"
  proof
    assume "\<exists>maxCost affordable. tb_pricesRequests s \<and> maxCostUsd (tb_budget s) = Some maxCost \<and>
       affordableOutputTokens s maxCost w = Inr affordable \<and> tokens = js_min (Fin (min r a)) affordable"
    then obtain maxCost affordable where bound: "maxCostUsd (tb_budget s) = Some maxCost"
      and afford: "affordableOutputTokens s maxCost w = Inr affordable" and t: "tokens = js_min (Fin (min r a)) affordable" by blast
    from affordable_fits [OF afford] obtain request limit where "wt_request w = Some request" "\<not> rq_costDefaulted request"
      "affordable = js_int limit" "1 \<le> limit" "request_fits (request_cost_args request) (remaining_usd s maxCost) limit" .
    with t bound r(2) \<open>0 < a\<close> show ?thesis
      by (auto simp: allowance_ok_def js_int_def r min_less_iff_conj intro!: exI [of _ limit])
  qed (use r \<open>0 < a\<close> in \<open>auto simp: allowance_ok_def\<close>)
  from cost show "js_le tokens (waiter_availableTokens s w)"
    by (auto simp: a elim!: affordable_fits) (simp add: js_int_def)
qed

lemma settle_simps [simp]:
  "tb_budget (settle t r s) = tb_budget s" "tb_pricesRequests (settle t r s) = tb_pricesRequests s"
  "tb_attempts (settle t r s) = tb_attempts s" "tb_reservations (settle t r s) = tb_reservations s"
  "tb_waiters (settle t r s) = tb_waiters s" "tb_released (settle t r s) = tb_released s"
  "tb_tickets (settle t r s) = tb_tickets s" "tb_generationUsage (settle t r s) = tb_generationUsage s"
  "tb_outcomes (settle t r s) = tb_outcomes s @ [(t, r)]"
  by (simp_all add: settle_def)

lemma settle_refused_ok: "queue_ok (w # ws) s \<Longrightarrow> queue_ok ws (settle (wt_ticket w) (Inl e) s)"
  unfolding queue_ok_def by auto

lemma grant_simps:
  assumes "map_of (tb_reservations s) (wt_attemptId w) = None"
  shows "tb_reservations (grant_reservation w tokens s) =
     tb_reservations s @ [(wt_attemptId w, \<lparr>rs_ticket = wt_ticket w, rs_maxTokens = tokens\<rparr>)]"
    "tb_outcomes (grant_reservation w tokens s) = tb_outcomes s @ [(wt_ticket w, Inr (wt_attemptId w, tokens))]"
    "tb_budget (grant_reservation w tokens s) = tb_budget s" "tb_attempts (grant_reservation w tokens s) = tb_attempts s"
    "tb_pricesRequests (grant_reservation w tokens s) = tb_pricesRequests s"
    "tb_released (grant_reservation w tokens s) = tb_released s" "tb_tickets (grant_reservation w tokens s) = tb_tickets s"
    "tb_generationUsage (grant_reservation w tokens s) = tb_generationUsage s"
  using assms by (simp_all add: grant_reservation_def js_set_fresh)

lemma grant_ok:
  assumes ok: "queue_ok (w # ws) s" and free: "map_of (tb_reservations s) (wt_attemptId w) = None" and "is_Fin tokens"
  shows "queue_ok ws (grant_reservation w tokens s)"
proof -
  have "own_keys_distinct (tb_reservations s @ [(wt_attemptId w, \<lparr>rs_ticket = wt_ticket w, rs_maxTokens = tokens\<rparr>)])"
    using ok own_keys_distinct_set [of "tb_reservations s" "wt_attemptId w"] js_set_fresh [OF free] by (metis queue_ok_def)
  with ok assms(3) show ?thesis unfolding queue_ok_def grant_simps [OF free] by (auto 0 4)
qed

lemma grant_room:
  assumes ok: "queue_ok (w # ws) s" and "\<not> must_wait s w" and "granted_tokens s w = Inr tokens"
  shows "room_left (grant_reservation w tokens s)"
proof -
  have free: "map_of (tb_reservations s) (wt_attemptId w) = None" using assms(2) by (simp add: must_wait_def)
  from granted_allowance [OF ok _ assms(2,3)] obtain q where q: "tokens = Fin q" "0 < q" "js_le tokens (waiter_availableTokens s w)"
    by (auto simp: allowance_ok_def)
  have "js_le (js_add (tree_budgetedTokens s) (js_add (reservedTokens s) tokens)) m" if m: "maxTokens (tb_budget s) = Some m" for m
    using remaining_Fin [OF ok m] charged_Fin [OF ok] reserved_Fin [OF ok] q
    by (auto simp: is_Fin_def waiter_availableTokens_def)
  then show ?thesis
    using assms(2) by (auto simp: room_left_def grant_simps [OF free] tree_budgetedTokens_def reservedTokens_def js_sum_def must_wait_def)
qed

lemma room_left_cong:
  "tb_budget s' = tb_budget s \<Longrightarrow> tb_attempts s' = tb_attempts s \<Longrightarrow> tb_reservations s' = tb_reservations s \<Longrightarrow>
     room_left s' = room_left s"
  by (simp add: room_left_def tree_budgetedTokens_def reservedTokens_def)

lemma allowance_ok_cong:
  "tb_budget s' = tb_budget s \<Longrightarrow> tb_attempts s' = tb_attempts s \<Longrightarrow> tb_pricesRequests s' = tb_pricesRequests s \<Longrightarrow>
     allowance_ok s' w t = allowance_ok s w t"
  by (simp add: allowance_ok_def remaining_usd_def)

text \<open>What the loop does: it serves a prefix of the queue in order, one reservation at most for each.\<close>

definition same_books :: "TreeBudgetState \<Rightarrow> TreeBudgetState \<Rightarrow> bool" where
  "same_books s s' \<longleftrightarrow> tb_budget s' = tb_budget s \<and> tb_pricesRequests s' = tb_pricesRequests s \<and>
     tb_attempts s' = tb_attempts s \<and> tb_generationUsage s' = tb_generationUsage s \<and>
     tb_released s' = tb_released s \<and> tb_tickets s' = tb_tickets s"

definition served_grant :: "TreeBudgetState \<Rightarrow> ProviderBudgetWaiter list \<Rightarrow> string \<times> TreeReservation \<Rightarrow> bool" where
  "served_grant s served entry \<longleftrightarrow> (case entry of (a, r) \<Rightarrow>
     \<exists>w \<in> set served. a = wt_attemptId w \<and> rs_ticket r = wt_ticket w \<and> allowance_ok s w (rs_maxTokens r))"

definition drained :: "ProviderBudgetWaiter list \<Rightarrow> TreeBudgetState \<Rightarrow> TreeBudgetState \<Rightarrow> bool" where
  "drained ws s s' \<longleftrightarrow> same_books s s' \<and> (\<exists>served news outs.
     ws = served @ tb_waiters s' \<and> map fst outs = map wt_ticket served \<and> length news \<le> length served \<and>
     tb_reservations s' = tb_reservations s @ news \<and> tb_outcomes s' = tb_outcomes s @ outs \<and>
     list_all (served_grant s served) news \<and> (news \<noteq> [] \<longrightarrow> room_left s'))"

lemma drained_served:
  assumes "drained ws s1 s'" and books: "same_books s s1" and res: "tb_reservations s1 = tb_reservations s @ grants"
    and outs1: "tb_outcomes s1 = tb_outcomes s @ [(wt_ticket w, r)]"
    and grants: "length grants \<le> 1" "list_all (served_grant s [w]) grants" "grants \<noteq> [] \<longrightarrow> room_left s1"
  shows "drained (w # ws) s s'"
proof -
  from assms(1) obtain served news outs where d: "same_books s1 s'" "ws = served @ tb_waiters s'"
    "map fst outs = map wt_ticket served" "length news \<le> length served"
    "tb_reservations s' = tb_reservations s1 @ news" "tb_outcomes s' = tb_outcomes s1 @ outs"
    "list_all (served_grant s1 served) news" "news \<noteq> [] \<longrightarrow> room_left s'"
    unfolding drained_def by blast
  have "allowance_ok s1 v t = allowance_ok s v t" for v t
    by (rule allowance_ok_cong) (use books in \<open>simp_all add: same_books_def\<close>)
  then have "list_all (served_grant s (w # served)) (grants @ news)"
    using d(7) grants(2) by (auto simp: list_all_iff served_grant_def)
  moreover have "room_left s'" if "grants @ news \<noteq> []"
  proof (cases "news = []")
    case True
    with that grants(3) have "room_left s1" by simp
    with True d show ?thesis by (subst room_left_cong [of _ s1]) (simp_all add: same_books_def)
  qed (use d(8) in blast)
  ultimately show ?thesis
    unfolding drained_def using d books grants(1) res outs1
    by (intro conjI exI [of _ "w # served"] exI [of _ "grants @ news"] exI [of _ "(wt_ticket w, r) # outs"])
      (simp_all add: same_books_def)
qed

lemma drain_queue_spec:
  "queue_ok ws s \<Longrightarrow> drained ws s (drain_queue ws s) \<and> tree_ok (drain_queue ws s)"
proof (induction ws s rule: drain_queue.induct)
  case (1 s)
  then show ?case by (auto simp: drained_def tree_ok_def queue_ok_def same_books_def)
next
  case (2 w ws s)
  show ?case
  proof (cases "assertAvailable s (wt_subject w)")
    case (Inl e)
    from "2.IH"(1) [OF Inl settle_refused_ok [OF "2.prems"]] Inl show ?thesis
      by (auto intro!: drained_served [where grants = "[]"] simp: same_books_def)
  next
    case avail: (Inr u)
    show ?thesis
    proof (cases "must_wait s w")
      case True
      with avail waits_for_reservation [OF "2.prems", of w] "2.prems" show ?thesis
        by (auto simp: drained_def tree_ok_def queue_ok_def same_books_def)
    next
      case False
      then have free: "map_of (tb_reservations s) (wt_attemptId w) = None" by (simp add: must_wait_def)
      show ?thesis
      proof (cases "granted_tokens s w")
        case (Inl e)
        from "2.IH"(2) [OF avail False Inl settle_refused_ok [OF "2.prems"]] avail False Inl show ?thesis
          by (auto intro!: drained_served [where grants = "[]"] simp: same_books_def)
      next
        case (Inr tokens)
        note allowance = granted_allowance(1) [OF "2.prems" _ False Inr]
        then have "is_Fin tokens" by (auto simp: allowance_ok_def)
        from "2.IH"(3) [OF avail False Inr grant_ok [OF "2.prems" free this]] avail False Inr allowance
          grant_room [OF "2.prems" False Inr] show ?thesis
          by (auto intro!: drained_served simp: grant_simps [OF free] same_books_def served_grant_def)
      qed
    qed
  qed
qed

section \<open>The operations\<close>

lemma drain_ok: "queue_ok (tb_waiters s) s \<Longrightarrow> tree_ok (drainWaiters s)"
  by (simp add: drainWaiters_def drain_queue_spec)

lemma intersect_Fin:
  assumes "\<forall>b \<in> set bs. \<forall>f v. budget_get b f = Some v \<longrightarrow> is_Fin v" and "budget_get (intersectRiskBudgets bs) f = Some v"
  shows "is_Fin v"
proof -
  have least: "is_Fin (math_min (budget_field_values bs g))" if "budget_field_values bs g \<noteq> []" for g
  proof -
    have "\<forall>v \<in> set (budget_field_values bs g). \<exists>q. v = Fin q \<and> True"
      using assms(1) by (auto simp: set_budget_field_values is_Fin_def)
    from Fin_list_conv [OF this] obtain qs where "budget_field_values bs g = map Fin qs" by blast
    with that math_min_Fin [of qs] show ?thesis by auto
  qed
  have "is_Fin (js_min a b)" if "is_Fin a" "is_Fin b" for a b using that by (auto simp: is_Fin_def)
  with least assms(2) show ?thesis
    by (auto simp: budget_get_intersect Let_def split: if_splits option.splits)
qed

lemma reconciled_valid: "reconcileAttemptUsage a b = Inr u \<Longrightarrow> usage_valid u"
  by (auto simp: reconcileAttemptUsage_def)

lemma attempts_set_valid:
  "\<forall>u \<in> set (js_values m). usage_valid u \<Longrightarrow> usage_valid v \<Longrightarrow> \<forall>u \<in> set (js_values (js_set k v m)). usage_valid u"
  using js_values_set_subset [of k v m] by blast

lemma seed_attempts_ok:
  "queue_ok ws s \<Longrightarrow> seed_attempts seeds s = (s', r) \<Longrightarrow>
     queue_ok ws s' \<and> tb_waiters s' = tb_waiters s \<and> tb_reservations s' = tb_reservations s \<and> tb_outcomes s' = tb_outcomes s"
proof (induction seeds s rule: seed_attempts.induct)
  case (2 seed seeds s)
  show ?case
  proof (cases "reconcileAttemptUsage (known_usage s (seed_attemptId seed)) (seed_usage seed)")
    case (Inr u)
    have "\<forall>v \<in> set (js_values (js_set (seed_attemptId seed) u (tb_attempts s))). usage_valid v"
      by (rule attempts_set_valid [OF _ reconciled_valid [OF Inr]]) (use "2.prems"(1) in \<open>simp add: queue_ok_def\<close>)
    with "2.prems"(1) have "queue_ok ws (s\<lparr>tb_attempts := js_set (seed_attemptId seed) u (tb_attempts s)\<rparr>)"
      unfolding queue_ok_def by simp
    with "2.IH" [OF Inr this] "2.prems"(2) Inr show ?thesis by simp
  qed (use "2.prems" in simp)
qed simp

lemma join_ok:
  assumes "queue_ok ws s" and "validateRiskBudget b = Inr ()"
  shows "queue_ok ws (s\<lparr>tb_budget := intersectRiskBudgets [tb_budget s, b]\<rparr>)"
proof -
  have "\<forall>c \<in> set [tb_budget s, b]. \<forall>f v. budget_get c f = Some v \<longrightarrow> is_Fin v"
    using assms validated_field [OF assms(2)] by (fastforce simp: queue_ok_def is_Fin_def)
  from intersect_Fin [OF this] assms(1) show ?thesis by (auto simp: queue_ok_def)
qed

lemma fresh_ok: "validateRiskBudget b = Inr () \<Longrightarrow> queue_ok [] (fresh_tree b p)"
  using validated_field [of b] by (fastforce simp: fresh_tree_def queue_ok_def is_Fin_def)

definition enqueued :: "string \<Rightarrow> jsnum \<Rightarrow> string \<Rightarrow> ProviderRequest option \<Rightarrow> TreeBudgetState \<Rightarrow> TreeBudgetState" where
  "enqueued a n subject request s = s\<lparr>tb_tickets := tb_tickets s + 1, tb_waiters := tb_waiters s @
     [\<lparr>wt_ticket = tb_tickets s, wt_attemptId = a, wt_requestedMaxTokens = n, wt_subject = subject, wt_request = request\<rparr>]\<rparr>"

lemma reserve_cases:
  "tree_reserveProviderBudget a n subject aborted request s =
     (if \<not> js_is_safe_integer n \<or> js_le n (Fin 0) then settle (tb_tickets s) (Inl ReservationNotPositive) (s\<lparr>tb_tickets := tb_tickets s + 1\<rparr>)
      else if aborted then settle (tb_tickets s) (Inl ReservationAborted) (s\<lparr>tb_tickets := tb_tickets s + 1\<rparr>)
      else drainWaiters (enqueued a n subject request s))"
  by (simp add: tree_reserveProviderBudget_def Let_def enqueued_def)

lemma tickets_Suc: "{..<Suc n} = insert n {..<n}" by auto

lemma refused_ok: "queue_ok ws s \<Longrightarrow> queue_ok ws (settle (tb_tickets s) (Inl e) (s\<lparr>tb_tickets := tb_tickets s + 1\<rparr>))"
  unfolding queue_ok_def by (auto simp: tickets_Suc)

lemma enqueued_ok:
  assumes "queue_ok (tb_waiters s) s" and "js_is_safe_integer n" and "\<not> js_le n (Fin 0)"
  shows "queue_ok (tb_waiters (enqueued a n subject request s)) (enqueued a n subject request s)"
proof -
  obtain q where "n = Fin q" "0 < q" using assms(2,3) by (cases n) auto
  with assms(1) show ?thesis unfolding queue_ok_def enqueued_def by (auto simp: tickets_Suc)
qed

lemma abort_queue_ok:
  assumes "queue_ok (tb_waiters s) s" and "t \<in> wt_ticket ` set (tb_waiters s)"
  shows "queue_ok (filter (\<lambda>w. wt_ticket w \<noteq> t) (tb_waiters s))
     (settle t (Inl ReservationAborted) (s\<lparr>tb_waiters := filter (\<lambda>w. wt_ticket w \<noteq> t) (tb_waiters s)\<rparr>))"
  using assms unfolding queue_ok_def by (auto simp: distinct_map_filter)

lemma reservation_owner:
  assumes ok: "queue_ok ws s" and "(t, Inr (a, m)) \<in> set (tb_outcomes s)" and "(b, r) \<in> set (tb_reservations s)" "rs_ticket r = t"
  shows "b = a"
proof -
  from ok assms(3,4) obtain m' where "(t, Inr (b, m')) \<in> set (tb_outcomes s)" by (fastforce simp: queue_ok_def)
  moreover have "distinct (map fst (tb_outcomes s))" using ok by (simp add: queue_ok_def)
  ultimately show ?thesis using assms(2) by (metis eq_key_imp_eq_value prod.inject sum.inject(2))
qed

lemma set_entries: "set (js_set k v m) \<subseteq> insert (k, v) (set m)"
  by (induction m) auto

definition freed :: "string \<Rightarrow> nat \<Rightarrow> TreeBudgetState \<Rightarrow> TreeBudgetState" where
  "freed a t s = s\<lparr>tb_released := t # tb_released s,
     tb_reservations := (if map_option rs_ticket (map_of (tb_reservations s) a) = Some t
        then js_delete a (tb_reservations s) else tb_reservations s)\<rparr>"

lemma release_cases:
  "release_reservation a t s = (if t \<in> set (tb_released s) then s else drainWaiters (freed a t s))"
  by (cases "map_of (tb_reservations s) a") (simp_all add: release_reservation_def Let_def freed_def)

lemma delete_entries: "set (js_delete k m) \<subseteq> set m" "k \<notin> fst ` set (js_delete k m)"
  by (auto simp: AList.delete_eq)

lemma freed_ok:
  assumes ok: "queue_ok ws s" and granted: "(t, Inr (a, m)) \<in> set (tb_outcomes s)"
  shows "queue_ok ws (freed a t s)"
proof -
  have other: "rs_ticket r \<noteq> t" if "(b, r) \<in> set (tb_reservations (freed a t s))" for b r
  proof
    assume t: "rs_ticket r = t"
    from that delete_entries(1) [of a "tb_reservations s"] have mem: "(b, r) \<in> set (tb_reservations s)"
      by (auto simp: freed_def split: if_splits)
    from reservation_owner [OF ok granted this t] have "b = a" .
    have "own_keys_distinct (tb_reservations s)" using ok by (simp add: queue_ok_def)
    with \<open>b = a\<close> have "map_of (tb_reservations s) a = Some r" using mem own_entry_iff by metis
    with t have "tb_reservations (freed a t s) = js_delete a (tb_reservations s)" by (simp add: freed_def)
    then show False using that \<open>b = a\<close> delete_entries(2) [of a "tb_reservations s"] by force
  qed
  have same: "tb_attempts (freed a t s) = tb_attempts s" "tb_budget (freed a t s) = tb_budget s"
    "tb_outcomes (freed a t s) = tb_outcomes s" "tb_tickets (freed a t s) = tb_tickets s"
    "tb_released (freed a t s) = t # tb_released s" by (simp_all add: freed_def)
  have sub: "set (tb_reservations (freed a t s)) \<subseteq> set (tb_reservations s)"
    using delete_entries(1) [of a "tb_reservations s"] by (simp add: freed_def)
  have keys: "own_keys_distinct (tb_reservations (freed a t s))"
    using ok own_keys_distinct_delete [of "tb_reservations s" a] by (simp add: freed_def queue_ok_def)
  have amounts: "\<forall>r \<in> set (js_values (tb_reservations (freed a t s))). is_Fin (rs_maxTokens r)"
    using ok sub by (auto simp: queue_ok_def)
  have released: "set (t # tb_released s) \<subseteq> fst ` set (tb_outcomes s)"
    using queue_okD(8) [OF ok] image_eqI [OF _ granted, of t fst] by simp
  note parts = queue_okD [OF ok]
  show ?thesis
  proof (rule queue_okI; (unfold same)?)
    fix b r assume mem: "(b, r) \<in> set (tb_reservations (freed a t s))"
    with sub have "(b, r) \<in> set (tb_reservations s)" by blast
    from parts(9) [OF this] other [OF mem]
    show "rs_ticket r \<notin> set (t # tb_released s) \<and> (\<exists>m. (rs_ticket r, Inr (b, m)) \<in> set (tb_outcomes s))" by simp
  qed (rule keys amounts released parts(2,4-7))+
qed

lemma shrink_ok:
  fixes a g
  assumes ok: "queue_ok ws s" and "usage_valid u"
  defines "s' \<equiv> s\<lparr>tb_generationUsage := g, tb_attempts := js_set a u (tb_attempts s),
     tb_reservations := shrink_reservation a (map_of (tb_attempts s) a) u (tb_reservations s)\<rparr>"
  shows "queue_ok ws s' \<and> length (tb_reservations s') = length (tb_reservations s)"
proof -
  have valids: "\<forall>v \<in> set (js_values (js_set a u (tb_attempts s))). usage_valid v"
    by (rule attempts_set_valid) (use assms in \<open>auto simp: queue_ok_def\<close>)
  show ?thesis
  proof (cases "(\<exists>r. map_of (tb_reservations s) a = Some r) \<and> (\<exists>p. map_of (tb_attempts s) a = Some p)")
    case True
    then obtain r p where r: "map_of (tb_reservations s) a = Some r" and p: "map_of (tb_attempts s) a = Some p" by blast
    from map_of_SomeD [OF r] map_of_SomeD [OF p] ok have "is_Fin (rs_maxTokens r)" "usage_valid p"
      by (auto simp: queue_ok_def)
    with budgeted_usage_Fin [OF assms(2)] budgeted_usage_Fin [of p] obtain n where
      n: "shrink_reservation a (Some p) u (tb_reservations s) = js_set a (r\<lparr>rs_maxTokens := Fin n\<rparr>) (tb_reservations s)"
      using r by (auto simp: shrink_reservation_def is_Fin_def)
    have entries: "set (js_set a (r\<lparr>rs_maxTokens := Fin n\<rparr>) (tb_reservations s)) \<subseteq>
        insert (a, r\<lparr>rs_maxTokens := Fin n\<rparr>) (set (tb_reservations s))" by (rule set_entries)
    note parts = queue_okD [OF ok]
    have same: "tb_reservations s' = js_set a (r\<lparr>rs_maxTokens := Fin n\<rparr>) (tb_reservations s)"
      "tb_attempts s' = js_set a u (tb_attempts s)" "tb_budget s' = tb_budget s" "tb_outcomes s' = tb_outcomes s"
      "tb_tickets s' = tb_tickets s" "tb_released s' = tb_released s" by (simp_all add: s'_def p n)
    have "queue_ok ws s'"
    proof (rule queue_okI; (unfold same)?)
      show "own_keys_distinct (js_set a (r\<lparr>rs_maxTokens := Fin n\<rparr>) (tb_reservations s))" using parts(1) by simp
      show "\<forall>v \<in> set (js_values (js_set a (r\<lparr>rs_maxTokens := Fin n\<rparr>) (tb_reservations s))). is_Fin (rs_maxTokens v)"
        using entries parts(3) by fastforce
      fix b v assume "(b, v) \<in> set (js_set a (r\<lparr>rs_maxTokens := Fin n\<rparr>) (tb_reservations s))"
      with entries consider "b = a" "rs_ticket v = rs_ticket r" | "(b, v) \<in> set (tb_reservations s)" by auto
      then show "rs_ticket v \<notin> set (tb_released s) \<and> (\<exists>m. (rs_ticket v, Inr (b, m)) \<in> set (tb_outcomes s))"
        using parts(9) map_of_SomeD [OF r] by cases auto
    qed (rule valids parts(4-8))+
    then show ?thesis
      using length_js_set [of a "r\<lparr>rs_maxTokens := Fin n\<rparr>" "tb_reservations s"] r by (simp add: s'_def p n)
  next
    case False
    then have "shrink_reservation a (map_of (tb_attempts s) a) u (tb_reservations s) = tb_reservations s"
      by (auto simp: shrink_reservation_def split: option.splits)
    with ok valids show ?thesis unfolding queue_ok_def s'_def by simp
  qed
qed

section \<open>Runs\<close>

text \<open>
  What a tree goes through: a port joins it, a request is queued or aborted, usage is published, a reservation's
  \<open>release\<close> is called. The opening of a tree and the runs from it are the trees the coordinator can hold.
\<close>

inductive tree_call :: "TreeBudgetState \<Rightarrow> TreeBudgetState \<Rightarrow> bool" where
  call_join: "validateRiskBudget b = Inr () \<Longrightarrow>
    seed_attempts seeds (s\<lparr>tb_budget := intersectRiskBudgets [tb_budget s, b]\<rparr>) = (s', r) \<Longrightarrow> tree_call s s'"
| call_reserve: "tree_call s (tree_reserveProviderBudget a n subject aborted request s)"
| call_abort: "tree_call s (abort_waiter t s)"
| call_record: "tree_recordAttemptUsage a usage accounting s = Inr s' \<Longrightarrow> tree_call s s'"
| call_release: "(t, Inr (a, m)) \<in> set (tb_outcomes s) \<Longrightarrow> tree_call s (release_reservation a t s)"

definition tree_opened :: "TreeBudgetState \<Rightarrow> bool" where
  "tree_opened s \<longleftrightarrow> (\<exists>b p seeds r. validateRiskBudget b = Inr () \<and> seed_attempts seeds (fresh_tree b p) = (s, r))"

inductive tree_reached :: "TreeBudgetState \<Rightarrow> bool" where
  reached_opened: "tree_opened s \<Longrightarrow> tree_reached s"
| reached_call: "tree_reached s \<Longrightarrow> tree_call s s' \<Longrightarrow> tree_reached s'"

text \<open>The coordinator's own entry point opens a tree or joins one.\<close>

lemma createPort_reached:
  assumes "createPort args trees = (trees', r)" and "validateRiskBudget (pa_budget args) = Inr ()"
    and "\<forall>k s. map_of trees k = Some s \<longrightarrow> tree_reached s" and "map_of trees' k = Some s"
  shows "tree_reached s"
proof (cases "k = pa_rootAgentId args")
  case True
  show ?thesis
  proof (cases "map_of trees k")
    case None
    with assms(1,2,4) True have "tree_opened s"
      unfolding tree_opened_def by (fastforce simp: createPort_def Let_def split: prod.splits)
    then show ?thesis by (rule reached_opened)
  next
    case (Some t)
    with assms(1,2,4) True have "tree_call t s"
      by (intro call_join [of "pa_budget args"]) (auto simp: createPort_def Let_def split: prod.splits)
    with Some assms(3) show ?thesis using reached_call by blast
  qed
next
  case False
  with assms(1,3,4) show ?thesis by (auto simp: createPort_def Let_def split: prod.splits)
qed

abbreviation settled :: "TreeBudgetState \<Rightarrow> nat set" where
  "settled s \<equiv> fst ` set (tb_outcomes s)"

text \<open>A queued request is settled or has come no further from the head, counting the reservations in its way.\<close>

definition advanced :: "nat \<Rightarrow> TreeBudgetState \<Rightarrow> TreeBudgetState \<Rightarrow> bool" where
  "advanced n s s' \<longleftrightarrow> settled s \<subseteq> settled s' \<and>
     (\<forall>pre w post. tb_waiters s = pre @ w # post \<longrightarrow> wt_ticket w \<in> settled s' \<or>
        (\<exists>pre' post'. tb_waiters s' = pre' @ w # post' \<and>
           length (tb_reservations s') + length pre' + n \<le> length (tb_reservations s) + length pre))"

lemma advanced_same:
  "tb_waiters s' = tb_waiters s \<Longrightarrow> tb_reservations s' = tb_reservations s \<Longrightarrow> settled s \<subseteq> settled s' \<Longrightarrow> advanced 0 s s'"
  by (auto simp: advanced_def)

lemma drained_advanced:
  assumes d: "drained (tb_waiters s1) s1 s'" and "settled s \<subseteq> settled s1"
    and moved: "\<And>pre w post. tb_waiters s = pre @ w # post \<Longrightarrow> wt_ticket w \<in> settled s1 \<or>
       (\<exists>pre' post'. tb_waiters s1 = pre' @ w # post' \<and> length pre' \<le> length pre)"
    and fewer: "length (tb_reservations s1) + n \<le> length (tb_reservations s)"
  shows "advanced n s s'"
proof -
  from d obtain served news outs where served: "tb_waiters s1 = served @ tb_waiters s'" "map fst outs = map wt_ticket served"
    "length news \<le> length served" "tb_reservations s' = tb_reservations s1 @ news" "tb_outcomes s' = tb_outcomes s1 @ outs"
    unfolding drained_def by blast
  from served(2) have outs: "fst ` set outs = wt_ticket ` set served" by (metis list.set_map)
  have grow: "settled s1 \<subseteq> settled s'" by (simp add: served(5) image_Un)
  have "wt_ticket w \<in> settled s' \<or> (\<exists>pre' post'. tb_waiters s' = pre' @ w # post' \<and>
      length (tb_reservations s') + length pre' + n \<le> length (tb_reservations s) + length pre)"
    if "tb_waiters s = pre @ w # post" for pre w post
  proof (cases "wt_ticket w \<in> settled s1")
    case False
    with moved [OF that] obtain pre1 post1 where w: "served @ tb_waiters s' = pre1 @ w # post1" "length pre1 \<le> length pre"
      unfolding served(1) by blast
    show ?thesis
    proof (cases "w \<in> set served")
      case True
      then have "wt_ticket w \<in> fst ` set outs" unfolding outs by blast
      then show ?thesis by (simp add: served(5) image_Un)
    next
      case False
      obtain us where us: "pre1 = served @ us" "tb_waiters s' = us @ w # post1"
      proof -
        from w(1) obtain vs where "served = pre1 @ vs \<and> vs @ tb_waiters s' = w # post1 \<or>
            served @ vs = pre1 \<and> tb_waiters s' = vs @ w # post1"
          unfolding append_eq_append_conv2 by blast
        then show thesis
        proof
          assume a: "served = pre1 @ vs \<and> vs @ tb_waiters s' = w # post1"
          with False have "vs = []" by (cases vs) auto
          with a that [of "[]"] show thesis by simp
        qed (use that [of vs] in simp)
      qed
      with w(2) served(3,4) fewer show ?thesis by auto
    qed
  qed (use grow in blast)
  with assms(2) grow show ?thesis unfolding advanced_def by blast
qed

lemma drain_advanced:
  assumes "queue_ok (tb_waiters s1) s1" and "tb_waiters s1 = tb_waiters s" and "settled s \<subseteq> settled s1"
    and "length (tb_reservations s1) + n \<le> length (tb_reservations s)"
  shows "tree_ok (drainWaiters s1) \<and> advanced n s (drainWaiters s1)"
proof -
  have "advanced n s (drain_queue (tb_waiters s1) s1)"
    by (rule drained_advanced) (use assms drain_queue_spec [OF assms(1)] in auto)
  with drain_ok [OF assms(1)] show ?thesis by (simp add: drainWaiters_def)
qed

lemma freed_fewer:
  "queue_ok ws s \<Longrightarrow> (a, r) \<in> set (tb_reservations s) \<Longrightarrow> rs_ticket r = t \<Longrightarrow>
     length (tb_reservations (freed a t s)) + 1 \<le> length (tb_reservations s)"
proof -
  assume ok: "queue_ok ws s" and mem: "(a, r) \<in> set (tb_reservations s)" and t: "rs_ticket r = t"
  then have "map_of (tb_reservations s) a = Some r" using own_entry_iff [OF queue_okD(1) [OF ok]] by blast
  with t have "tb_reservations (freed a t s) = js_delete a (tb_reservations s)" by (simp add: freed_def)
  moreover have "length (js_delete a m) < length m" if "(a, r) \<in> set m" for m :: "TreeReservation js_record"
    using that by (auto simp: AList.delete_eq intro!: length_filter_less)
  ultimately show ?thesis using mem by force
qed

lemma freed_length: "length (tb_reservations (freed a t s)) \<le> length (tb_reservations s)"
  by (simp add: freed_def AList.delete_eq)

lemma record_cases:
  assumes "tree_recordAttemptUsage a usage accounting s = Inr s'"
  obtains u g where "usage_valid u" and "s' = drainWaiters (s\<lparr>tb_generationUsage := g,
      tb_attempts := js_set a u (tb_attempts s),
      tb_reservations := shrink_reservation a (map_of (tb_attempts s) a) u (tb_reservations s)\<rparr>)"
proof -
  from assms obtain publication attributed reported merged where
    "reconcileAttemptUsage (known_usage s a) reported = Inr merged"
    and "s' = drainWaiters (s\<lparr>tb_generationUsage := (case attributed of None \<Rightarrow> tb_generationUsage s
                                 | Some x \<Rightarrow> js_set a x (tb_generationUsage s)),
          tb_attempts := js_set a merged (tb_attempts s),
          tb_reservations := shrink_reservation a (map_of (tb_attempts s) a) merged (tb_reservations s)\<rparr>)"
    unfolding tree_recordAttemptUsage_def bindE_eq_Inr by (elim exE conjE) (rule that, assumption, erule sum.inject(2) [THEN iffD1, THEN sym])
  then show thesis by (intro that [OF reconciled_valid])
qed

text \<open>
  Every call leaves the queue and the reservations alone, or ends by draining a state in which no reservation is
  new and no waiting request has been overtaken.
\<close>

definition requested_now :: "TreeBudgetState \<Rightarrow> TreeBudgetState \<Rightarrow> ProviderBudgetWaiter \<Rightarrow> bool" where
  "requested_now s s' w \<longleftrightarrow> wt_ticket w = tb_tickets s \<and> (\<exists>aborted. s' = tree_reserveProviderBudget
     (wt_attemptId w) (wt_requestedMaxTokens w) (wt_subject w) aborted (wt_request w) s)"

definition drains_from :: "TreeBudgetState \<Rightarrow> TreeBudgetState \<Rightarrow> TreeBudgetState \<Rightarrow> bool" where
  "drains_from s s1 s' \<longleftrightarrow> s' = drainWaiters s1 \<and> queue_ok (tb_waiters s1) s1 \<and> settled s \<subseteq> settled s1 \<and>
     length (tb_reservations s1) \<le> length (tb_reservations s) \<and>
     rs_ticket ` set (js_values (tb_reservations s1)) \<subseteq> settled s \<and>
     (\<forall>w \<in> set (tb_waiters s1). w \<in> set (tb_waiters s) \<or> requested_now s s' w) \<and>
     (\<forall>pre w post. tb_waiters s = pre @ w # post \<longrightarrow> wt_ticket w \<in> settled s1 \<or>
        (\<exists>pre' post'. tb_waiters s1 = pre' @ w # post' \<and> length pre' \<le> length pre))"

lemma drains_fromI:
  assumes "s' = drainWaiters s1" "queue_ok (tb_waiters s1) s1" "tb_outcomes s1 = tb_outcomes s" "tb_waiters s1 = tb_waiters s"
    "length (tb_reservations s1) \<le> length (tb_reservations s)"
  shows "drains_from s s1 s'"
  unfolding drains_from_def using assms queue_okD(9) [OF assms(2)] by (auto simp: assms(3,4)) force

lemma call_drains:
  assumes ok: "tree_ok s" and call: "tree_call s s'"
  shows "tree_ok s' \<and> tb_waiters s' = tb_waiters s \<and> tb_reservations s' = tb_reservations s \<and> settled s \<subseteq> settled s' \<or>
    (\<exists>s1. drains_from s s1 s')"
proof -
  from ok have q: "queue_ok (tb_waiters s) s" by (simp add: tree_ok_def)
  have held: "rs_ticket ` set (js_values (tb_reservations s)) \<subseteq> settled s"
    using queue_okD(9) [OF q] by force
  from call show ?thesis
  proof cases
    case (call_join b seeds r)
    from seed_attempts_ok [OF join_ok [OF q call_join(1)] call_join(2)] ok show ?thesis by (auto simp: tree_ok_def)
  next
    case (call_reserve a n subject aborted request)
    show ?thesis
    proof (cases "\<not> js_is_safe_integer n \<or> js_le n (Fin 0) \<or> aborted")
      case True
      then obtain e where "s' = settle (tb_tickets s) (Inl e) (s\<lparr>tb_tickets := tb_tickets s + 1\<rparr>)"
        unfolding call_reserve reserve_cases by metis
      with refused_ok [OF q, of e] ok show ?thesis by (auto simp: tree_ok_def)
    next
      case False
      let ?s = "enqueued a n subject request s"
      from False have "s' = drainWaiters ?s" unfolding call_reserve reserve_cases by simp
      moreover from False have "queue_ok (tb_waiters ?s) ?s" by (intro enqueued_ok [OF q]) auto
      moreover have "requested_now s s' \<lparr>wt_ticket = tb_tickets s, wt_attemptId = a, wt_requestedMaxTokens = n,
          wt_subject = subject, wt_request = request\<rparr>"
        using call_reserve by (auto simp: requested_now_def)
      moreover have "tb_waiters ?s = tb_waiters s @ [\<lparr>wt_ticket = tb_tickets s, wt_attemptId = a, wt_requestedMaxTokens = n,
          wt_subject = subject, wt_request = request\<rparr>]" "tb_reservations ?s = tb_reservations s" "tb_outcomes ?s = tb_outcomes s"
        by (simp_all add: enqueued_def)
      ultimately have "drains_from s ?s s'"
        unfolding drains_from_def using held by auto
      then show ?thesis by blast
    qed
  next
    case (call_abort t)
    show ?thesis
    proof (cases "t \<in> wt_ticket ` set (tb_waiters s)")
      case True
      let ?s = "settle t (Inl ReservationAborted) (s\<lparr>tb_waiters := filter (\<lambda>w. wt_ticket w \<noteq> t) (tb_waiters s)\<rparr>)"
      have "wt_ticket w \<in> settled ?s \<or> (\<exists>pre' post'. tb_waiters ?s = pre' @ w # post' \<and> length pre' \<le> length pre)"
        if split: "tb_waiters s = pre @ w # post" for pre w post
      proof (cases "wt_ticket w = t")
        case False
        then have "tb_waiters ?s = filter (\<lambda>w. wt_ticket w \<noteq> t) pre @ w # filter (\<lambda>w. wt_ticket w \<noteq> t) post"
          by (simp add: split)
        moreover have "length (filter (\<lambda>w. wt_ticket w \<noteq> t) pre) \<le> length pre" by (rule length_filter_le)
        ultimately show ?thesis by blast
      qed simp
      moreover have "s' = drainWaiters ?s" using True by (simp add: call_abort abort_waiter_def)
      moreover have "queue_ok (tb_waiters ?s) ?s" using abort_queue_ok [OF q True] by simp
      ultimately have "drains_from s ?s s'" unfolding drains_from_def using held by auto
      then show ?thesis by blast
    qed (use ok in \<open>simp add: call_abort abort_waiter_def\<close>)
  next
    case (call_record a usage accounting)
    from record_cases [OF call_record] obtain u g where u: "usage_valid u"
      and s': "s' = drainWaiters (s\<lparr>tb_generationUsage := g, tb_attempts := js_set a u (tb_attempts s),
        tb_reservations := shrink_reservation a (map_of (tb_attempts s) a) u (tb_reservations s)\<rparr>)" .
    from shrink_ok [OF q u, where g = g and a = a] drains_fromI [OF s'] show ?thesis by auto
  next
    case (call_release t a m)
    have same: "tb_waiters (freed a t s) = tb_waiters s" "tb_outcomes (freed a t s) = tb_outcomes s" by (simp_all add: freed_def)
    from freed_ok [OF q call_release(2)] freed_length [of a t s] same
    have "drains_from s (freed a t s) (drainWaiters (freed a t s))" by (intro drains_fromI) simp_all
    with ok show ?thesis by (auto simp: call_release(1) release_cases)
  qed
qed

lemma call_advances:
  assumes ok: "tree_ok s" and call: "tree_call s s'"
  shows "tree_ok s' \<and> advanced 0 s s'"
  using call_drains [OF assms]
proof
  assume "\<exists>s1. drains_from s s1 s'"
  then obtain s1 where d: "drains_from s s1 s'" ..
  then have q: "queue_ok (tb_waiters s1) s1" and s': "s' = drainWaiters s1" unfolding drains_from_def by blast+
  have "advanced 0 s s'"
    unfolding s' drainWaiters_def
    by (rule drained_advanced [OF conjunct1 [OF drain_queue_spec [OF q]]]) (use d in \<open>auto simp: drains_from_def\<close>)
  with drain_ok [OF q] show ?thesis by (simp add: s')
qed (auto intro: advanced_same)

lemma opened_ok: "tree_opened s \<Longrightarrow> tree_ok s"
  unfolding tree_opened_def using seed_attempts_ok [OF fresh_ok] by (fastforce simp: tree_ok_def fresh_tree_def)

lemma reached_ok: "tree_reached s \<Longrightarrow> tree_ok s"
  by (induction rule: tree_reached.induct) (auto simp: opened_ok dest: call_advances)

section \<open>Waiting requests are served\<close>

text \<open>The owner of a reservation under way calls its \<open>release\<close>.\<close>

definition release_held :: "TreeBudgetState \<Rightarrow> TreeBudgetState \<Rightarrow> bool" where
  "release_held s s' \<longleftrightarrow> (\<exists>a r. (a, r) \<in> set (tb_reservations s) \<and> s' = release_reservation a (rs_ticket r) s)"

lemma release_advances:
  assumes ok: "tree_ok s" and "release_held s s'"
  shows "tree_ok s' \<and> advanced 1 s s' \<and> tree_call s s'"
proof -
  from assms(2) obtain a r where held: "(a, r) \<in> set (tb_reservations s)"
    and s': "s' = release_reservation a (rs_ticket r) s" unfolding release_held_def by blast
  from ok have q: "queue_ok (tb_waiters s) s" by (simp add: tree_ok_def)
  from queue_okD(9) [OF q held] obtain m where fresh: "rs_ticket r \<notin> set (tb_released s)"
    and granted: "(rs_ticket r, Inr (a, m)) \<in> set (tb_outcomes s)" by blast
  have "tree_ok (drainWaiters (freed a (rs_ticket r) s)) \<and> advanced 1 s (drainWaiters (freed a (rs_ticket r) s))"
    by (rule drain_advanced) (use freed_ok [OF q granted] freed_fewer [OF q held] in \<open>auto simp: freed_def\<close>)
  with fresh call_release [OF granted] show ?thesis by (simp add: s' release_cases)
qed

text \<open>A run of the tree, counting the reservations released in it.\<close>

inductive tree_run :: "nat \<Rightarrow> TreeBudgetState \<Rightarrow> TreeBudgetState \<Rightarrow> bool" where
  run_start: "tree_run 0 s s"
| run_call: "tree_run n s s1 \<Longrightarrow> tree_call s1 s2 \<Longrightarrow> tree_run n s s2"
| run_release: "tree_run n s s1 \<Longrightarrow> release_held s1 s2 \<Longrightarrow> tree_run (Suc n) s s2"

lemma advanced_trans:
  assumes first: "advanced m s s1" and second: "advanced n s1 s2"
  shows "advanced (m + n) s s2"
proof -
  have grow: "settled s \<subseteq> settled s1" "settled s1 \<subseteq> settled s2" using first second unfolding advanced_def by blast+
  have "wt_ticket w \<in> settled s2 \<or> (\<exists>pre' post'. tb_waiters s2 = pre' @ w # post' \<and>
      length (tb_reservations s2) + length pre' + (m + n) \<le> length (tb_reservations s) + length pre)"
    if w: "tb_waiters s = pre @ w # post" for pre w post
  proof (cases "wt_ticket w \<in> settled s1")
    case False
    with first w obtain pre1 post1 where w1: "tb_waiters s1 = pre1 @ w # post1"
      "length (tb_reservations s1) + length pre1 + m \<le> length (tb_reservations s) + length pre" unfolding advanced_def by blast
    show ?thesis
    proof (cases "wt_ticket w \<in> settled s2")
      case False
      with second w1(1) obtain pre2 post2 where "tb_waiters s2 = pre2 @ w # post2"
        "length (tb_reservations s2) + length pre2 + n \<le> length (tb_reservations s1) + length pre1" unfolding advanced_def by blast
      with w1(2) show ?thesis by auto
    qed simp
  qed (use grow in blast)
  with grow show ?thesis unfolding advanced_def by blast
qed

lemma run_advances: "tree_run n s s' \<Longrightarrow> tree_ok s \<Longrightarrow> tree_ok s' \<and> advanced n s s'"
proof (induction rule: tree_run.induct)
  case (run_start s)
  then show ?case by (simp add: advanced_same)
next
  case (run_call n s s1 s2)
  then show ?case using call_advances [of s1 s2] advanced_trans [of n s s1 0 s2] by simp
next
  case (run_release n s s1 s2)
  then show ?case using release_advances [of s1 s2] advanced_trans [of n s s1 1 s2] by simp
qed

text \<open>
  C34: no request for provider budget starves. While requests wait some reservation is under way, whose release
  moves the queue; and in whatever way ports join, requests arrive and abort and usage is published meanwhile, a
  request is settled once as many reservations have been released as were under way or queued before it. Every
  request issued is either waiting or settled, and settled once.
\<close>

theorem waiting_requests_are_served:
  assumes "tree_reached s"
  shows "(tb_waiters s \<noteq> [] \<longrightarrow> (\<exists>s'. release_held s s')) \<and>
    (\<forall>n s' i. tree_run n s s' \<and> i < length (tb_waiters s) \<and> length (tb_reservations s) + i \<le> n \<longrightarrow>
       wt_ticket (tb_waiters s ! i) \<in> fst ` set (tb_outcomes s')) \<and>
    distinct (map fst (tb_outcomes s) @ map wt_ticket (tb_waiters s)) \<and>
    fst ` set (tb_outcomes s) \<union> wt_ticket ` set (tb_waiters s) = {..<tb_tickets s}"
proof (intro conjI allI impI)
  from reached_ok [OF assms] have ok: "tree_ok s" .
  then have q: "queue_ok (tb_waiters s) s" by (simp add: tree_ok_def)
  from queue_okD(6,7) [OF q]
  show "distinct (map fst (tb_outcomes s) @ map wt_ticket (tb_waiters s))"
    "fst ` set (tb_outcomes s) \<union> wt_ticket ` set (tb_waiters s) = {..<tb_tickets s}" by auto
  show "\<exists>s'. release_held s s'" if "tb_waiters s \<noteq> []"
    using ok that by (cases "tb_reservations s") (auto simp: tree_ok_def release_held_def)
  fix n s' i assume run: "tree_run n s s' \<and> i < length (tb_waiters s) \<and> length (tb_reservations s) + i \<le> n"
  then have split: "tb_waiters s = take i (tb_waiters s) @ tb_waiters s ! i # drop (Suc i) (tb_waiters s)"
    by (simp add: id_take_nth_drop)
  from run run_advances [OF _ ok] have ok': "tree_ok s'" and adv: "advanced n s s'" by auto
  have "wt_ticket (tb_waiters s ! i) \<in> settled s'"
  proof (rule ccontr)
    assume pending: "wt_ticket (tb_waiters s ! i) \<notin> settled s'"
    with adv split obtain pre post where "tb_waiters s' = pre @ tb_waiters s ! i # post"
      "length (tb_reservations s') + length pre + n \<le> length (tb_reservations s) + length (take i (tb_waiters s))"
      unfolding advanced_def by blast
    moreover have "length (take i (tb_waiters s)) = i" "length (tb_reservations s) + i \<le> n" using run by simp_all
    ultimately have "length (tb_reservations s') \<le> 0" by linarith
    moreover note \<open>tb_waiters s' = pre @ tb_waiters s ! i # post\<close>
    ultimately have "tb_waiters s' \<noteq> []" "tb_reservations s' = []" by simp_all
    with ok' show False by (simp add: tree_ok_def)
  qed
  then show "wt_ticket (tb_waiters s ! i) \<in> fst ` set (tb_outcomes s')" .
qed

section \<open>Grants stay within the budget\<close>

lemma drained_grants:
  assumes d: "drained ws s1 s'" and "(a, r) \<in> set (tb_reservations s')"
    and "rs_ticket r \<notin> rs_ticket ` set (js_values (tb_reservations s1))"
  shows "room_left s' \<and> (\<exists>w \<in> set ws. a = wt_attemptId w \<and> rs_ticket r = wt_ticket w \<and> allowance_ok s' w (rs_maxTokens r))"
proof -
  from d obtain served news where books: "same_books s1 s'" and ws: "ws = served @ tb_waiters s'"
    and res: "tb_reservations s' = tb_reservations s1 @ news" and grants: "list_all (served_grant s1 served) news"
    and room: "news \<noteq> [] \<longrightarrow> room_left s'"
    unfolding drained_def by blast
  from assms(2,3) res have "(a, r) \<in> set news" by force
  with grants obtain w where "w \<in> set served" "a = wt_attemptId w" "rs_ticket r = wt_ticket w" "allowance_ok s1 w (rs_maxTokens r)"
    by (auto simp: list_all_iff served_grant_def)
  moreover have "allowance_ok s' w t = allowance_ok s1 w t" for w t
    by (rule allowance_ok_cong) (use books in \<open>simp_all add: same_books_def\<close>)
  ultimately show ?thesis using room \<open>(a, r) \<in> set news\<close> ws by auto
qed

text \<open>
  C35: what a reservation grants. Whatever call grants it, it is granted to a request that was waiting or is made
  by that very call, for a positive number of tokens, at most what was requested; under a cost bound that prices
  requests for at most an output whose whole cost, with the input, fits what is left of the bound. The tokens
  charged and reserved then stay within the tree's token limit together, and under a cost or time limit the
  reservation is the only one.
\<close>

theorem grants_within_budget:
  assumes "tree_reached s" and "tree_call s s'"
    and "(a, r) \<in> set (tb_reservations s')" and "rs_ticket r \<notin> fst ` set (tb_outcomes s)"
  shows "(\<exists>w. wt_attemptId w = a \<and> wt_ticket w = rs_ticket r \<and> (w \<in> set (tb_waiters s) \<or> requested_now s s' w) \<and>
      (\<exists>q. rs_maxTokens r = Fin q \<and> 0 < q \<and> js_le (rs_maxTokens r) (wt_requestedMaxTokens w) \<and>
        (\<forall>maxCost. tb_pricesRequests s' \<and> maxCostUsd (tb_budget s') = Some maxCost \<longrightarrow>
          (\<exists>request limit. wt_request w = Some request \<and> \<not> rq_costDefaulted request \<and> q \<le> of_int limit \<and>
             request_fits (request_cost_args request) (remaining_usd s' maxCost) limit)))) \<and>
    (\<forall>m. maxTokens (tb_budget s') = Some m \<longrightarrow> js_le (js_add (tree_budgetedTokens s') (reservedTokens s')) m) \<and>
    (maxCostUsd (tb_budget s') \<noteq> None \<or> maxWallClockMs (tb_budget s') \<noteq> None \<longrightarrow> tb_reservations s' = [(a, r)])"
proof -
  from reached_ok [OF assms(1)] have ok: "tree_ok s" .
  have held: "rs_ticket r \<in> settled s" if "(a, r) \<in> set (tb_reservations s)"
    using queue_okD(9) [of "tb_waiters s" s a r] ok that by (force simp: tree_ok_def)
  from call_drains [OF ok assms(2)] held assms(3,4) obtain s1 where d: "drains_from s s1 s'" by auto
  then have q: "queue_ok (tb_waiters s1) s1" and s': "s' = drain_queue (tb_waiters s1) s1"
    unfolding drains_from_def drainWaiters_def by blast+
  have "drained (tb_waiters s1) s1 s'" using drain_queue_spec [OF q] by (simp add: s')
  from drained_grants [OF this assms(3)] d assms(4) have room: "room_left s'"
    and "\<exists>w \<in> set (tb_waiters s1). a = wt_attemptId w \<and> rs_ticket r = wt_ticket w \<and> allowance_ok s' w (rs_maxTokens r)"
    unfolding drains_from_def by blast+
  then obtain w where w: "w \<in> set (tb_waiters s1)" "wt_attemptId w = a" "wt_ticket w = rs_ticket r"
    "allowance_ok s' w (rs_maxTokens r)" by auto
  moreover have "w \<in> set (tb_waiters s) \<or> requested_now s s' w" using d w(1) unfolding drains_from_def by blast
  moreover have "tb_reservations s' = [(a, r)]" if "length (tb_reservations s') = 1"
    using that assms(3) by (auto simp: length_Suc_conv)
  ultimately show ?thesis using room unfolding room_left_def allowance_ok_def by blast
qed

text \<open>Two attempts of a tree bounded in cost: the second request waits for the first one's release.\<close>

definition sample_budget :: RiskBudget where
  "sample_budget = empty_budget\<lparr>maxTokens := Some (Fin 100), maxCostUsd := Some (Fin 1)\<rparr>"

definition sample_tree_state :: TreeBudgetState where
  "sample_tree_state =
     tree_reserveProviderBudget ''b'' (Fin 30) ''provider'' False None
       (tree_reserveProviderBudget ''a'' (Fin 60) ''provider'' False None (fresh_tree sample_budget False))"

lemma sample_tree_reached: "tree_reached sample_tree_state"
proof -
  have "validateRiskBudget sample_budget = Inr ()" by code_simp
  then have "tree_opened (fresh_tree sample_budget False)"
    unfolding tree_opened_def by (intro exI [of _ sample_budget] exI [of _ False] exI [of _ "[]"] exI [of _ "Inr ()"]) simp
  then show ?thesis unfolding sample_tree_state_def by (intro reached_call [OF _ call_reserve] reached_opened)
qed

lemma waiting_requests_are_served_witness:
  "map wt_ticket (tb_waiters sample_tree_state) = [1] \<and> (\<exists>s'. release_held sample_tree_state s') \<and>
   1 \<in> fst ` set (tb_outcomes (release_reservation ''a'' 0 sample_tree_state))"
proof -
  have waits: "map wt_ticket (tb_waiters sample_tree_state) = [1]" "tb_waiters sample_tree_state \<noteq> []"
    and one: "length (tb_reservations sample_tree_state) = 1"
    and held: "(''a'', \<lparr>rs_ticket = 0, rs_maxTokens = Fin 60\<rparr>) \<in> set (tb_reservations sample_tree_state)"
    by code_simp+
  from held have "release_held sample_tree_state (release_reservation ''a'' 0 sample_tree_state)"
    unfolding release_held_def by (metis TreeReservation.select_convs(1))
  from run_release [OF run_start this] have "tree_run 1 sample_tree_state (release_reservation ''a'' 0 sample_tree_state)" by simp
  moreover obtain w where w: "tb_waiters sample_tree_state = [w]" "wt_ticket w = 1" using waits(1) by auto
  note served = waiting_requests_are_served [OF sample_tree_reached]
  from served w have "\<exists>s'. release_held sample_tree_state s'" by simp
  moreover from conjunct1 [OF conjunct2 [OF served], rule_format, of 1 "release_reservation ''a'' 0 sample_tree_state" 0]
  have "wt_ticket w \<in> fst ` set (tb_outcomes (release_reservation ''a'' 0 sample_tree_state))"
    using calculation(1) w(1) one by simp
  ultimately show ?thesis using waits(1) w(2) by simp
qed

lemma grants_within_budget_witness:
  "rs_maxTokens (the (map_of (tb_reservations (release_reservation ''a'' 0 sample_tree_state)) ''b'')) = Fin 30 \<and>
   tb_reservations (release_reservation ''a'' 0 sample_tree_state) = [(''b'', \<lparr>rs_ticket = 1, rs_maxTokens = Fin 30\<rparr>)]"
proof -
  let ?s = "release_reservation ''a'' 0 sample_tree_state" and ?r = "\<lparr>rs_ticket = 1, rs_maxTokens = Fin 30\<rparr>"
  have "(0, Inr (''a'', Fin 60)) \<in> set (tb_outcomes sample_tree_state)" by code_simp
  then have call: "tree_call sample_tree_state ?s" by (rule call_release)
  have facts: "(''b'', ?r) \<in> set (tb_reservations ?s)" "rs_ticket ?r \<notin> fst ` set (tb_outcomes sample_tree_state)"
    "maxCostUsd (tb_budget ?s) \<noteq> None" by code_simp+
  from grants_within_budget [OF sample_tree_reached call facts(1,2)] facts(3) show ?thesis by simp
qed

end
