(* ===== verification/Shared_Budget.thy ===== *)
theory Shared_Budget
  imports Capability_Gateway Tree_Reservations
begin

text \<open>
  The contract between a capability gateway and the budget it shares with its siblings, stated as an interface and
  discharged by the ports of a worker tree and by \<open>boundedByRunBudget\<close>, the tree's port bounded by the port of a
  run. What a gateway publishes through any such port is counted there.
\<close>

section \<open>Steps that keep a part of the gateway\<close>

definition keeps :: "('s \<Rightarrow> 'k) \<Rightarrow> ('s \<Rightarrow> ('e + 'a) \<times> 's) \<Rightarrow> bool" where
  "keeps f m \<longleftrightarrow> (\<forall>s. f (snd (m s)) = f s)"

named_theorems keeping

lemma keepsD: "keeps f m \<Longrightarrow> m s = (r, s') \<Longrightarrow> f s' = f s"
  unfolding keeps_def by (metis snd_conv)

lemma keeps_thenS [keeping]: "keeps f m \<Longrightarrow> (\<And>x. keeps f (k x)) \<Longrightarrow> keeps f (thenS m k)"
  by (auto simp: keeps_def thenS_def split: prod.split sum.split) (metis snd_conv)+

lemma keeps_simps [keeping]: "keeps f (returnS x)" "keeps f (throwS e)" "keeps f (resultS r)" "keeps f (assertS b e)"
  by (simp_all add: keeps_def returnS_def throwS_def resultS_def assertS_def)

lemma keeps_if [keeping]: "(b \<Longrightarrow> keeps f m) \<Longrightarrow> (\<not> b \<Longrightarrow> keeps f k) \<Longrightarrow> keeps f (if b then m else k)"
  by simp

lemma keeps_option [keeping]:
  "(x = None \<Longrightarrow> keeps f m) \<Longrightarrow> (\<And>y. x = Some y \<Longrightarrow> keeps f (k y)) \<Longrightarrow> keeps f (case x of None \<Rightarrow> m | Some y \<Rightarrow> k y)"
  by (cases x) auto

text \<open>The counters and the accounting port: what no step but a charge changes.\<close>

definition charged :: "('d, 'w) Gateway \<Rightarrow>
    (jsnum \<times> jsnum \<times> jsnum \<times> jsnum \<times> jsnum \<times> jsnum \<times> jsnum) \<times> bool \<times> 'd GatewayUsageAccountingPort option" where
  "charged g = ((ga_toolCalls g, ga_inputTokens g, ga_outputTokens g, ga_cacheReadTokens g, ga_cacheWriteTokens g,
     ga_totalTokens g, ga_costUsd g), ga_usageStarted g, ga_usageAccounting g)"

lemma charged_simps [simp]:
  "charged (g\<lparr>ga_readings := n\<rparr>) = charged g" "charged (g\<lparr>ga_lastWallClockMs := t\<rparr>) = charged g"
  "charged (g\<lparr>ga_stoppedAt := st\<rparr>) = charged g" "charged (g\<lparr>ga_audit := rs\<rparr>) = charged g"
  "charged (g\<lparr>ga_ledger := d\<rparr>) = charged g" "charged (g\<lparr>ga_shared := w\<rparr>) = charged g"
  by (simp_all add: charged_def)

definition clockless :: "(('d, 'w) Gateway \<Rightarrow> 'k) \<Rightarrow> bool" where
  "clockless f \<longleftrightarrow> (\<forall>g n t. f (g\<lparr>ga_readings := n\<rparr>) = f g \<and> f (g\<lparr>ga_lastWallClockMs := t\<rparr>) = f g)"

lemma clockless [simp]: "clockless charged" "clockless ga_audit" "clockless ga_ledger" "clockless ga_shared"
  by (simp_all add: clockless_def)

lemma keeps_clock [keeping]:
  "clockless f \<Longrightarrow> keeps f (currentTime S)" "clockless f \<Longrightarrow> keeps f (wallClockMsAt now)"
  by (simp_all add: keeps_def clockless_def currentTime_def wallClockMsAt_def Let_def)

lemma keeps_ports [keeping]:
  "keeps charged (on_ledger m)" "keeps ga_audit (on_ledger m)" "keeps ga_shared (on_ledger m)"
  "keeps charged (on_shared n)" "keeps ga_audit (on_shared n)" "keeps ga_ledger (on_shared n)"
  "keeps ga_ledger (on_ledger (\<lambda>d. (r d, d)))" "keeps ga_shared (on_shared (\<lambda>w. (q w, w)))"
  by (simp_all add: keeps_def on_ledger_def on_shared_def split: prod.split)

lemma keeps_usage_result [keeping]: "keeps f (usage_result r)"
  by (simp add: usage_result_def keeping)

lemma keeps_local [keeping]: "clockless f \<Longrightarrow> keeps f (getLocalUsage S)"
  unfolding getLocalUsage_def
  by (intro keeping, simp_all) (simp add: keeps_def)

lemma keeps_projected [keeping]:
  assumes "clockless f" and "\<And>(r :: 'd \<Rightarrow> string + AttemptUsageAccounting). keeps f (on_ledger (\<lambda>d. (r d, d)))"
  shows "keeps f (getProjectedAccounting S :: ('d, 'w, AttemptUsageAccounting option) gateway_op)"
proof -
  have "keeps f (thenS (on_ledger (\<lambda>d. (ap_read port d, d))) (\<lambda>accounting.
          thenS (getLocalUsage S) (\<lambda>local.
          thenS (usage_result (attemptUsageFromGatewayUsage local)) (\<lambda>local.
          thenS (usage_result (projectPendingAttemptGenerationUsage accounting (ap_identity port) local)) (\<lambda>projected.
          returnS (Some projected))))))" for port :: "'d GatewayUsageAccountingPort"
    by (intro keeping assms)
  then show ?thesis by (auto simp: keeps_def getProjectedAccounting_def split: option.split)
qed

lemma keeps_getUsage [keeping]:
  assumes "clockless f" and "\<And>(r :: 'd \<Rightarrow> string + AttemptUsageAccounting). keeps f (on_ledger (\<lambda>d. (r d, d)))"
  shows "keeps f (getUsage S :: ('d, 'w, GatewayUsage) gateway_op)"
proof -
  have "keeps f (\<lambda>g. usage_result (reconcileAttemptUsage u (q g)) g)"
    for u and q :: "('d, 'w) Gateway \<Rightarrow> AttemptUsageSnapshot"
    by (simp add: keeps_def usage_result_def resultS_def)
  then show ?thesis unfolding getUsage_def by (intro keeping assms)
qed

lemma keeps_publish [keeping]:
  "keeps charged (publishUsage S)" "keeps ga_audit (publishUsage S)" "keeps ga_ledger (publishUsage S)"
  unfolding publishUsage_def by (intro keeping; simp)+

lemma keeps_receipt_part:
  assumes "clockless f" and "\<And>m :: 'd \<Rightarrow> (string + unit) \<times> 'd. keeps f (on_ledger m)"
  shows "keeps f (record_receipt S :: ('d, 'w, unit) gateway_op)"
proof -
  have "keeps f (thenS (getLocalUsage S) (\<lambda>local.
        thenS (usage_result (attemptUsageFromGatewayUsage local)) (\<lambda>usage.
        on_ledger (ap_record port usage))))" for port :: "'d GatewayUsageAccountingPort"
    by (intro keeping assms)
  then show ?thesis by (auto simp: keeps_def record_receipt_def split: option.split)
qed

lemma keeps_receipt [keeping]:
  "keeps charged (record_receipt S)" "keeps ga_audit (record_receipt S)" "keeps ga_shared (record_receipt S)"
  by (rule keeps_receipt_part; simp add: keeping)+

lemma flush_steps:
  assumes "flushUsage S g = (r, g')"
  obtains q g1 p where "record_receipt S g = (q, g1)" and "publishUsage S g1 = (p, g')"
    and "r = Inr () \<Longrightarrow> q = Inr () \<and> p = Inr ()"
    and "\<And>e. r = Inl e \<Longrightarrow> q = Inl e \<or> p = Inl e \<or> (\<exists>e1 e2. e = GatewayBothFailed e1 e2)"
  using assms unfolding flushUsage_def by (auto split: prod.splits sum.splits)

lemma keeps_flush [keeping]:
  "keeps charged (flushUsage S :: ('d, 'w, unit) gateway_op)" "keeps ga_audit (flushUsage S :: ('d, 'w, unit) gateway_op)"
proof -
  have "charged (snd (flushUsage S g)) = charged g \<and> ga_audit (snd (flushUsage S g)) = ga_audit g"
    for g :: "('d, 'w) Gateway"
  proof -
    obtain r g' where run: "flushUsage S g = (r, g')" by fastforce
    then obtain q g1 p where steps: "record_receipt S g = (q, g1)" "publishUsage S g1 = (p, g')" by (rule flush_steps)
    from keeps_receipt(1,2) [THEN keepsD, OF steps(1)] keeps_publish(1,2) [THEN keepsD, OF steps(2)]
    show ?thesis by (simp add: run)
  qed
  then show "keeps charged (flushUsage S :: ('d, 'w, unit) gateway_op)" "keeps ga_audit (flushUsage S :: ('d, 'w, unit) gateway_op)"
    by (simp_all add: keeps_def)
qed

section \<open>What has been received for an attempt\<close>

text \<open>
  Of every counter but the wall clock: the gateway's own counters, or, once a port of the durable accounting is
  bound, the durable total and what its generation has not reported yet.
\<close>

definition counter_snapshot :: "('d, 'w) Gateway \<Rightarrow> jsnum \<Rightarrow> AttemptUsageSnapshot" where
  "counter_snapshot g wall =
     \<lparr>toolCalls = ga_toolCalls g, inputTokens = ga_inputTokens g, outputTokens = ga_outputTokens g,
      cacheReadTokens = ga_cacheReadTokens g, cacheWriteTokens = ga_cacheWriteTokens g,
      totalTokens = ga_totalTokens g, costUsd = ga_costUsd g, activeWallClockMs = wall\<rparr>"

definition received_amount :: "('d, 'w) Gateway \<Rightarrow> UsageField \<Rightarrow> rat option" where
  "received_amount g f =
     (let counted = usage_amount (counter_snapshot g (Fin 0)) f in
      case ga_usageAccounting g of
        None \<Rightarrow> Some counted
      | Some port \<Rightarrow>
          (case ap_read port (ga_ledger g) of
             Inl _ \<Rightarrow> None
           | Inr a \<Rightarrow> map_option (\<lambda>gen. usage_amount (acct_total a) f + max 0 (counted - usage_amount (gen_reported gen) f))
               (map_of (acct_generations a) (gid_leaseId (ap_identity port)))))"

definition ledger_ok :: "('d, 'w) Gateway \<Rightarrow> bool" where
  "ledger_ok g \<longleftrightarrow> (\<forall>port d a. ga_usageAccounting g = Some port \<longrightarrow> ap_read port d = Inr a \<longrightarrow> accounting_ok a)"

text \<open>A snapshot accounts for everything received.\<close>

definition accounts_for :: "AttemptUsageSnapshot \<Rightarrow> ('d, 'w) Gateway \<Rightarrow> bool" where
  "accounts_for u g \<longleftrightarrow> (\<forall>f. f \<noteq> UfActiveWallClockMs \<longrightarrow> (\<exists>q. received_amount g f = Some q \<and> q \<le> usage_amount u f))"

lemma counted_amount_wall: "f \<noteq> UfActiveWallClockMs \<Longrightarrow>
    usage_amount (counter_snapshot g wall) f = usage_amount (counter_snapshot g (Fin 0)) f"
  by (cases f) (simp_all add: usage_amount_def counter_snapshot_def)

lemma counter_snapshot_cong: "charged g' = charged g \<Longrightarrow> counter_snapshot g' wall = counter_snapshot g wall"
  by (simp add: charged_def counter_snapshot_def)

lemma received_cong:
  assumes "charged g' = charged g"
  shows "ga_usageAccounting g = None \<or> ga_ledger g' = ga_ledger g \<Longrightarrow> received_amount g' f = received_amount g f"
    and "ledger_ok g' = ledger_ok g"
  using assms counter_snapshot_cong [OF assms]
  by (auto simp: received_amount_def ledger_ok_def charged_def Let_def split: option.split)

lemma accounts_for_cong:
  assumes "charged g' = charged g" and "ga_ledger g' = ga_ledger g"
  shows "accounts_for u g' = accounts_for u g"
  using received_cong(1) [OF assms(1)] assms(2) by (simp add: accounts_for_def)

lemma accounts_for_mono: "accounts_for u g \<Longrightarrow> (\<And>f. usage_amount u f \<le> usage_amount v f) \<Longrightarrow> accounts_for v g"
  unfolding accounts_for_def by (meson order_trans)

lemma project_amount:
  assumes "accounting_ok a" and "projectPendingAttemptGenerationUsage a i u = Inr b"
  obtains gen where "map_of (acct_generations a) (gid_leaseId i) = Some gen" and "accounting_ok b"
    and "\<And>f. usage_amount (acct_total b) f =
      usage_amount (acct_total a) f + max 0 (usage_amount u f - usage_amount (gen_reported gen) f)"
proof -
  from assms(2) obtain gen r where gen: "map_of (acct_generations a) (gid_leaseId i) = Some gen"
    and r: "reconcileAttemptUsage (gen_reported gen) u = Inr r" and b: "recordAttemptGenerationUsage a i r = Inr b"
    by (auto simp: projectPendingAttemptGenerationUsage_def findUsageGeneration_def split: option.splits if_splits)
  from record_total_amount [OF assms(1) b] gen reconcileAttemptUsage_amount(4) [OF r] that show thesis by force
qed

section \<open>What is published and read accounts for it\<close>

lemma usage_result_Inr [simp]: "usage_result r g = (Inr x, g') \<longleftrightarrow> r = Inr x \<and> g' = g"
  by (cases r) (auto simp: usage_result_def)

lemma getLocalUsage_Inr:
  fixes g :: "('d, 'w) Gateway"
  assumes "getLocalUsage S g = (Inr u, g')"
  shows "\<exists>wall. attemptUsageFromGatewayUsage u = validateAttemptUsageSnapshot (counter_snapshot g wall)"
proof -
  from assms have "\<exists>wall (h :: ('d, 'w) Gateway). charged h = charged g \<and> u = \<lparr>gw_toolCalls = ga_toolCalls h, gw_inputTokens = ga_inputTokens h,
     gw_outputTokens = ga_outputTokens h, gw_cacheReadTokens = ga_cacheReadTokens h,
     gw_cacheWriteTokens = ga_cacheWriteTokens h, gw_totalTokens = ga_totalTokens h, gw_costUsd = ga_costUsd h,
     gw_wallClockMs = wall\<rparr>"
    unfolding getLocalUsage_def thenS_Inr
    by (auto dest!: keeps_clock(1) [OF clockless(1), THEN keepsD] keeps_clock(2) [OF clockless(1), THEN keepsD])
  then show ?thesis by (auto simp: charged_def attemptUsageFromGatewayUsage_def counter_snapshot_def)
qed

lemma local_accounts:
  assumes "getLocalUsage S g = (Inr u, g')" and "attemptUsageFromGatewayUsage u = Inr v"
  shows "usage_valid v" and "f \<noteq> UfActiveWallClockMs \<Longrightarrow> usage_amount v f = usage_amount (counter_snapshot g (Fin 0)) f"
proof -
  from getLocalUsage_Inr [OF assms(1)] assms(2) obtain wall where
    "validateAttemptUsageSnapshot (counter_snapshot g wall) = Inr v" by metis
  then show "usage_valid v" and "f \<noteq> UfActiveWallClockMs \<Longrightarrow> usage_amount v f = usage_amount (counter_snapshot g (Fin 0)) f"
    using counted_amount_wall by simp_all
qed

lemma projected_accounts:
  assumes "getProjectedAccounting S g = (Inr x, g')" and "ledger_ok g"
  shows "case x of None \<Rightarrow> ga_usageAccounting g = None | Some b \<Rightarrow> accounting_ok b \<and> accounts_for (acct_total b) g"
proof (cases "ga_usageAccounting g")
  case None
  with assms show ?thesis by (simp add: getProjectedAccounting_def)
next
  case (Some port)
  with assms(1) obtain a g1 u g2 v b where a: "ap_read port (ga_ledger g) = Inr a" and g1: "g1 = g\<lparr>ga_ledger := ga_ledger g\<rparr>"
    and u: "getLocalUsage S g1 = (Inr u, g2)" and v: "attemptUsageFromGatewayUsage u = Inr v"
    and b: "projectPendingAttemptGenerationUsage a (ap_identity port) v = Inr b" "x = Some b"
    by (auto simp: getProjectedAccounting_def thenS_Inr on_ledger_def)
  from assms(2) Some a have "accounting_ok a" by (auto simp: ledger_ok_def)
  from project_amount [OF this b(1)] obtain gen where
    gen: "map_of (acct_generations a) (gid_leaseId (ap_identity port)) = Some gen" "accounting_ok b"
      "\<And>f. usage_amount (acct_total b) f =
        usage_amount (acct_total a) f + max 0 (usage_amount v f - usage_amount (gen_reported gen) f)" by blast
  have "counter_snapshot g1 (Fin 0) = counter_snapshot g (Fin 0)" by (simp add: g1 counter_snapshot_def)
  with local_accounts(2) [OF u v] gen b(2) Some a show ?thesis
    by (simp add: accounts_for_def received_amount_def)
qed

lemma unbound_accounts:
  assumes "ga_usageAccounting g = None" and "getLocalUsage S g1 = (Inr u, g2)" and "charged g1 = charged g"
    and "attemptUsageFromGatewayUsage u = Inr v"
  shows "accounts_for v g"
  using local_accounts(2) [OF assms(2,4)] counter_snapshot_cong [OF assms(3), of "Fin 0"] assms(1)
  by (simp add: accounts_for_def received_amount_def)

lemma usage_read_accounts:
  assumes "getUsage S g = (Inr u, g')" and "ledger_ok g"
  obtains v where "u = gateway_usage v" and "usage_valid v" and "accounts_for v g"
proof -
  from assms(1) obtain x g1 l g2 where x: "getProjectedAccounting S g = (Inr x, g1)"
    and l: "(case x of Some a \<Rightarrow> returnS (acct_total a)
       | None \<Rightarrow> thenS (getLocalUsage S) (\<lambda>local. usage_result (attemptUsageFromGatewayUsage local))) g1 = (Inr l, g2)"
    and u: "(case su_sharedBudget S of
       None \<Rightarrow> returnS (gateway_usage l)
     | Some shared \<Rightarrow>
         thenS (\<lambda>g. usage_result (reconcileAttemptUsage l (sb_getAttemptUsage shared (ga_shared g))) g) (\<lambda>usage.
         returnS (gateway_usage usage))) g2 = (Inr u, g')"
    unfolding getUsage_def thenS_Inr by blast
  note same = keepsD [OF keeps_projected [OF clockless(1) keeps_ports(1)] x]
  have l_ok: "usage_valid l \<and> accounts_for l g"
  proof (cases x)
    case None
    with projected_accounts [OF x assms(2)] l unbound_accounts [OF _ _ same] local_accounts(1) show ?thesis
      by (auto simp: thenS_Inr)
  next
    case (Some a)
    with projected_accounts [OF x assms(2)] l total_amount(2) show ?thesis
      by (auto simp: accounting_ok_def)
  qed
  show thesis
  proof (cases "su_sharedBudget S")
    case None
    with u l_ok that show thesis by simp
  next
    case (Some shared)
    with u obtain v where v: "reconcileAttemptUsage l (sb_getAttemptUsage shared (ga_shared g2)) = Inr v" "u = gateway_usage v"
      by (auto simp: thenS_Inr)
    with reconcileAttemptUsage_amount [OF v(1)] l_ok accounts_for_mono [of l g v] that show thesis by force
  qed
qed

section \<open>The contract of a shared budget\<close>

definition usage_covers :: "AttemptUsageSnapshot \<Rightarrow> AttemptUsageSnapshot \<Rightarrow> bool" where
  "usage_covers u v \<longleftrightarrow> (\<forall>f. usage_amount v f \<le> usage_amount u f)"

locale shared_budget =
  fixes port :: "'w SharedCapabilityBudget"
  assumes record_counts: "sb_recordAttemptUsage port u accounting w = (Inr (), w') \<Longrightarrow>
      \<exists>v. attemptUsageFromGatewayUsage u = Inr v \<and> usage_covers (sb_getAttemptUsage port w') v"
    and record_keeps: "usage_covers (sb_getAttemptUsage port (snd (sb_recordAttemptUsage port u accounting w)))
      (sb_getAttemptUsage port w)"
    and reserve_keeps: "usage_covers (sb_getAttemptUsage port (sb_reserveProviderBudget port n subject aborted request w))
      (sb_getAttemptUsage port w)"
begin

lemma on_shared_counts:
  assumes "on_shared (sb_recordAttemptUsage port u accounting) g = (Inr (), g')"
  shows "\<exists>v. attemptUsageFromGatewayUsage u = Inr v \<and> usage_covers (sb_getAttemptUsage port (ga_shared g')) v"
proof -
  from assms have "sb_recordAttemptUsage port u accounting (ga_shared g) = (Inr (), ga_shared g')"
    by (auto simp: on_shared_def split: prod.splits)
  then show ?thesis by (rule record_counts)
qed

lemma published_is_counted:
  assumes run: "publishUsage S g = (Inr (), g')" and "su_sharedBudget S = Some port" and "ledger_ok g"
  shows "accounts_for (sb_getAttemptUsage port (ga_shared g')) g'"
proof -
  from run assms(2) obtain x g1 where x: "getProjectedAccounting S g = (Inr x, g1)"
    and rest: "(case x of
            None \<Rightarrow> thenS (getLocalUsage S) (\<lambda>local. on_shared (sb_recordAttemptUsage port local None))
          | Some a \<Rightarrow> on_shared (sb_recordAttemptUsage port (gateway_usage (acct_total a)) (Some a))) g1 = (Inr (), g')"
    by (auto simp: publishUsage_def thenS_Inr)
  note same = keepsD [OF keeps_projected [OF clockless(1) keeps_ports(1)] x]
  note keep = keepsD [OF keeps_publish(1) run] keepsD [OF keeps_publish(3) run]
  have "accounts_for (sb_getAttemptUsage port (ga_shared g')) g"
  proof (cases x)
    case None
    with rest obtain u g2 where u: "getLocalUsage S g1 = (Inr u, g2)"
      and put: "on_shared (sb_recordAttemptUsage port u None) g2 = (Inr (), g')" by (auto simp: thenS_Inr)
    from on_shared_counts [OF put] obtain v where v: "attemptUsageFromGatewayUsage u = Inr v"
      "usage_covers (sb_getAttemptUsage port (ga_shared g')) v" by blast
    from projected_accounts [OF x assms(3)] None have "ga_usageAccounting g = None" by simp
    from unbound_accounts [OF this u same v(1)] v(2) show ?thesis
      by (auto simp: usage_covers_def intro: accounts_for_mono)
  next
    case (Some a)
    with rest on_shared_counts obtain v where v: "attemptUsageFromGatewayUsage (gateway_usage (acct_total a)) = Inr v"
      "usage_covers (sb_getAttemptUsage port (ga_shared g')) v" by fastforce
    then have "v = acct_total a" by (simp add: attemptUsageFromGatewayUsage_def gateway_usage_def)
    with projected_accounts [OF x assms(3)] Some v(2) show ?thesis
      by (auto simp: usage_covers_def intro: accounts_for_mono)
  qed
  then show ?thesis using accounts_for_cong [OF keep] by simp
qed

lemma flushed_is_counted:
  assumes "flushUsage S g = (Inr (), g')" and "su_sharedBudget S = Some port" and "ledger_ok g"
  shows "accounts_for (sb_getAttemptUsage port (ga_shared g')) g'"
  using assms(1)
proof (rule flush_steps)
  fix q g1 p assume "record_receipt S g = (q, g1)" "publishUsage S g1 = (p, g')"
    "Inr () = Inr () \<Longrightarrow> q = Inr () \<and> p = Inr ()"
  with published_is_counted [of S g1 g'] assms(2,3) keepsD [OF keeps_receipt(1)] received_cong(2) show ?thesis by blast
qed

end

section \<open>The ports\<close>

text \<open>The port \<open>createPort\<close> answers for an attempt, over the state of its tree.\<close>

definition tree_port :: "string \<Rightarrow> TreeBudgetState SharedCapabilityBudget" where
  "tree_port attemptId =
     \<lparr>sb_assertBudgetAvailable = (\<lambda>subject s. assertAvailable s subject),
      sb_getAttemptUsage = (\<lambda>s. known_usage s attemptId),
      sb_recordAttemptUsage = (\<lambda>usage accounting s.
        case tree_recordAttemptUsage attemptId usage accounting s of
          Inl e \<Rightarrow> (Inl (TreeUsageError e), s)
        | Inr s' \<Rightarrow> (Inr (), s')),
      sb_remainingTokens = tree_remainingTokens,
      sb_reserveProviderBudget = tree_reserveProviderBudget attemptId\<rparr>"

text \<open>
  A tree's port bounded by a run's. A reservation starts at the tree; what follows once that promise settles is
  outside the call.
\<close>

definition boundedByRunBudget ::
  "'v SharedCapabilityBudget \<Rightarrow> 'w SharedCapabilityBudget \<Rightarrow> ('v \<times> 'w) SharedCapabilityBudget" where
  "boundedByRunBudget tree run =
     \<lparr>sb_assertBudgetAvailable = (\<lambda>subject (v, w).
        bindE (sb_assertBudgetAvailable tree subject v) (\<lambda>_. sb_assertBudgetAvailable run subject w)),
      sb_getAttemptUsage = (\<lambda>(v, w). sb_getAttemptUsage tree v),
      sb_recordAttemptUsage = (\<lambda>usage accounting (v, w).
        case sb_recordAttemptUsage tree usage accounting v of
          (Inl e, v') \<Rightarrow> (Inl e, (v', w))
        | (Inr _, v') \<Rightarrow> (case sb_recordAttemptUsage run usage accounting w of (r, w') \<Rightarrow> (r, (v', w')))),
      sb_remainingTokens = (\<lambda>(v, w). sb_remainingTokens tree v),
      sb_reserveProviderBudget = (\<lambda>requested subject aborted request (v, w).
        (sb_reserveProviderBudget tree requested subject aborted request v, w))\<rparr>"

lemma usage_covers_refl [simp]: "usage_covers u u"
  by (simp add: usage_covers_def)

lemma drain_queue_attempts: "tb_attempts (drain_queue ws s) = tb_attempts s"
  by (induction ws s rule: drain_queue.induct) (auto simp: settle_def grant_reservation_def split: sum.split)

lemma known_drained: "known_usage (drainWaiters s) a = known_usage s a"
  by (simp add: known_usage_def drainWaiters_def drain_queue_attempts)

lemma tree_record_covers:
  assumes "tree_recordAttemptUsage a u accounting s = Inr s'"
  shows "\<exists>v. attemptUsageFromGatewayUsage u = Inr v \<and> usage_covers (known_usage s' a) v"
    and "usage_covers (known_usage s' a) (known_usage s a)"
proof -
  from assms obtain v attributed w where v: "attemptUsageFromGatewayUsage u = Inr v"
    and w: "(case attributed of None \<Rightarrow> Inr v | Some x \<Rightarrow> reconcileAttemptUsage v (acct_total x)) = Inr w"
    and rest: "bindE (reconcileAttemptUsage (known_usage s a) w) (\<lambda>merged. Inr (drainWaiters
       (s\<lparr>tb_generationUsage := (case attributed of None \<Rightarrow> tb_generationUsage s
                                 | Some x \<Rightarrow> js_set a x (tb_generationUsage s)),
          tb_attempts := js_set a merged (tb_attempts s),
          tb_reservations := shrink_reservation a (map_of (tb_attempts s) a) merged (tb_reservations s)\<rparr>))) = Inr s'"
    unfolding tree_recordAttemptUsage_def bindE_eq_Inr by blast
  from rest obtain merged where merged: "reconcileAttemptUsage (known_usage s a) w = Inr merged"
    and s': "known_usage s' a = merged"
    by (auto simp: known_drained) (simp add: known_usage_def)
  have "usage_covers w v"
    using w reconcileAttemptUsage_amount(4) by (auto simp: usage_covers_def split: option.splits)
  with merged s' v show "\<exists>v. attemptUsageFromGatewayUsage u = Inr v \<and> usage_covers (known_usage s' a) v"
    and "usage_covers (known_usage s' a) (known_usage s a)"
    using reconcileAttemptUsage_amount(4) [OF merged] by (auto simp: usage_covers_def le_max_iff_disj)
qed

lemma tree_reserve_known: "known_usage (tree_reserveProviderBudget a n subject aborted request s) b = known_usage s b"
  by (simp add: tree_reserveProviderBudget_def Let_def known_drained) (simp add: known_usage_def settle_def)

interpretation tree_budget: shared_budget "tree_port attemptId"
  by unfold_locales
    (auto simp: tree_port_def tree_reserve_known dest: tree_record_covers split: sum.splits)

context shared_budget
begin

lemma bounded_by_run: "shared_budget (boundedByRunBudget port (run :: 'x SharedCapabilityBudget))"
proof
  fix u :: GatewayUsage and accounting and w w' :: "'w \<times> 'x"
  show "\<exists>v. attemptUsageFromGatewayUsage u = Inr v \<and> usage_covers (sb_getAttemptUsage (boundedByRunBudget port run) w') v"
    if "sb_recordAttemptUsage (boundedByRunBudget port run) u accounting w = (Inr (), w')"
    using that record_counts [of u accounting "fst w" "fst w'"]
    by (cases w) (auto simp: boundedByRunBudget_def split: prod.splits sum.splits)
  show "usage_covers (sb_getAttemptUsage (boundedByRunBudget port run)
      (snd (sb_recordAttemptUsage (boundedByRunBudget port run) u accounting w)))
      (sb_getAttemptUsage (boundedByRunBudget port run) w)"
    using record_keeps [of u accounting "fst w"]
    by (cases w) (auto simp: boundedByRunBudget_def split: prod.splits sum.splits)
  fix n subject aborted request
  show "usage_covers (sb_getAttemptUsage (boundedByRunBudget port run)
      (sb_reserveProviderBudget (boundedByRunBudget port run) n subject aborted request w))
      (sb_getAttemptUsage (boundedByRunBudget port run) w)"
    using reserve_keeps [of n subject aborted request "fst w"] by (cases w) (auto simp: boundedByRunBudget_def)
qed

end

interpretation run_bounded_budget: shared_budget "boundedByRunBudget (tree_port attemptId) run"
  by (rule tree_budget.bounded_by_run)

end
