(* ===== verification/Path_Containment.thy ===== *)
theory Path_Containment
  imports Path_Scope
begin

text \<open>
  The path functions read through segments: an absolute path denotes the list of its segments, resolution
  yields canonical segments, and the containment test decides the prefix relation on them.
\<close>

section \<open>Segments\<close>

definition plain_segments :: "string list \<Rightarrow> bool" where
  "plain_segments segs \<longleftrightarrow> (\<forall>s \<in> set segs. s \<noteq> [] \<and> CHR ''/'' \<notin> set s)"

definition canonical_segments :: "string list \<Rightarrow> bool" where
  "canonical_segments segs \<longleftrightarrow> (\<forall>s \<in> set segs. s \<noteq> [] \<and> CHR ''/'' \<notin> set s \<and> s \<noteq> ''.'' \<and> s \<noteq> ''..'')"

lemma canonical_plain: "canonical_segments segs \<Longrightarrow> plain_segments segs"
  by (auto simp: canonical_segments_def plain_segments_def)

lemma canonical_simps [simp]:
  "canonical_segments []"
  "canonical_segments (s # ss) \<longleftrightarrow> s \<noteq> [] \<and> CHR ''/'' \<notin> set s \<and> s \<noteq> ''.'' \<and> s \<noteq> ''..'' \<and> canonical_segments ss"
  "canonical_segments (xs @ ys) \<longleftrightarrow> canonical_segments xs \<and> canonical_segments ys"
  "canonical_segments (rev xs) \<longleftrightarrow> canonical_segments xs"
  by (auto simp: canonical_segments_def)

lemma split_append_sep: "js_split c (p @ c # q) = js_split c p @ js_split c q"
proof (induction p)
  case (Cons x p)
  then show ?case by (auto split: list.split simp: Cons_eq_append_conv)
qed simp

lemma path_segments_plain: "plain_segments (path_segments p)"
  by (auto simp: plain_segments_def path_segments_def dest: js_split_no_sep)

lemma path_segments_simps [simp]:
  "path_segments [] = []"
  "path_segments (CHR ''/'' # p) = path_segments p"
  "path_segments (p @ CHR ''/'' # q) = path_segments p @ path_segments q"
  by (simp_all add: path_segments_def split_append_sep)

lemma path_segments_join:
  assumes "plain_segments segs"
  shows "path_segments (js_join ''/'' segs) = segs"
proof (cases "segs = []")
  case False
  have "js_split (CHR ''/'') (js_join ''/'' segs) = segs"
    using js_split_join [OF False] assms by (auto simp: plain_segments_def)
  then show ?thesis using assms by (auto simp: path_segments_def plain_segments_def intro: filter_True)
qed simp

lemma path_segments_abs [simp]: "plain_segments segs \<Longrightarrow> path_segments (abs_path segs) = segs"
  by (simp add: abs_path_def path_segments_join)

lemma abs_path_inject:
  "canonical_segments xs \<Longrightarrow> canonical_segments ys \<Longrightarrow> abs_path xs = abs_path ys \<longleftrightarrow> xs = ys"
  by (metis canonical_plain path_segments_abs)

lemma abs_path_absolute [simp]: "posix_isAbsolute (abs_path segs)"
  by (simp add: posix_isAbsolute_def abs_path_def)

section \<open>Normalisation\<close>

lemma norm_filter: "norm_segments climb acc (filter (\<lambda>s. s \<noteq> []) segs) = norm_segments climb acc segs"
  by (induction climb acc segs rule: norm_segments.induct) (auto split: list.split)

lemma norm_canonical:
  "canonical_segments acc \<Longrightarrow> \<forall>s \<in> set segs. CHR ''/'' \<notin> set s \<Longrightarrow>
   canonical_segments (norm_segments False acc segs)"
proof (induction segs arbitrary: acc)
  case (Cons s segs)
  then show ?case by (cases acc) auto
qed simp

lemma norm_fixed: "canonical_segments segs \<Longrightarrow> norm_segments climb acc segs = rev acc @ segs"
  by (induction segs arbitrary: acc) auto

text \<open>The segments a path denotes, relative ones from the working directory.\<close>

definition resolved_segments :: "string \<Rightarrow> string \<Rightarrow> string list" where
  "resolved_segments cwd p =
     norm_segments False [] (if posix_isAbsolute p then path_segments p else path_segments cwd @ path_segments p)"

lemma resolved_canonical [simp]: "canonical_segments (resolved_segments cwd p)"
  unfolding resolved_segments_def
  using path_segments_plain by (intro norm_canonical) (auto simp: plain_segments_def)

lemma norm_path_segments: "norm_segments climb acc (js_split (CHR ''/'') p) = norm_segments climb acc (path_segments p)"
  by (simp add: path_segments_def norm_filter)

lemma posix_resolve_segments:
  assumes "posix_isAbsolute cwd"
  shows "posix_resolve cwd [p] = abs_path (resolved_segments cwd p)"
proof -
  have "cwd \<noteq> []" using assms by (auto simp: posix_isAbsolute_def)
  with assms show ?thesis
    by (auto simp: posix_resolve_def resolved_segments_def norm_path_segments posix_isAbsolute_def split: list.splits)
qed

lemma resolve_canonical:
  assumes "canonical_segments segs"
  shows "posix_resolve cwd [abs_path segs] = abs_path segs"
  using assms canonical_plain [OF assms]
  by (simp add: posix_resolve_def norm_path_segments norm_fixed) (simp add: abs_path_def posix_isAbsolute_def)

section \<open>Containment is the prefix relation\<close>

lemma relative_prefix: "prefix fs ts \<Longrightarrow> relative_segments fs ts = drop (length fs) ts"
  by (induction fs ts rule: relative_segments.induct) auto

lemma relative_climbs:
  "\<not> prefix fs ts \<Longrightarrow> \<exists>us. relative_segments fs ts = ''..'' # us"
  by (induction fs ts rule: relative_segments.induct) (auto simp: neq_Nil_conv)

lemma join_contained:
  assumes "canonical_segments segs"
  shows "isRelativeContained (js_join ''/'' segs) (CHR ''/'') posix_isAbsolute"
proof (cases segs)
  case (Cons s ss)
  with assms have s: "s \<noteq> []" "CHR ''/'' \<notin> set s" "s \<noteq> ''..''" by auto
  obtain rest where j: "js_join ''/'' segs = s @ rest" and rest: "rest = [] \<or> hd rest = CHR ''/''"
    using Cons by (cases ss) auto
  have "take 3 (s @ rest) \<noteq> ''../''"
  proof
    assume t: "take 3 (s @ rest) = ''../''"
    show False
    proof (cases s)
      case (Cons a s1)
      show False
      proof (cases s1)
        case Nil
        with Cons t rest show False by (cases rest) auto
      next
        case (Cons b s2)
        with \<open>s = a # s1\<close> t s show False by (cases s2) auto
      qed
    qed (use s in simp)
  qed
  moreover have "s @ rest \<noteq> ''..''"
  proof
    assume e: "s @ rest = ''..''"
    with rest s show False by (cases s; cases "tl s") auto
  qed
  moreover have "\<not> posix_isAbsolute (s @ rest)" using s by (cases s) (auto simp: posix_isAbsolute_def)
  ultimately show ?thesis by (simp add: isRelativeContained_def j)
qed (simp add: isRelativeContained_def)

lemma join_climbs: "\<not> isRelativeContained (js_join ''/'' (''..'' # segs)) (CHR ''/'') posix_isAbsolute"
  by (cases segs) (simp_all add: isRelativeContained_def)

lemma relative_contained:
  assumes "canonical_segments fs" "canonical_segments ts"
  shows "isRelativeContained (posix_relative cwd (abs_path fs) (abs_path ts)) (CHR ''/'') posix_isAbsolute \<longleftrightarrow> prefix fs ts"
proof (cases "fs = ts")
  case True
  then show ?thesis by (simp add: posix_relative_def isRelativeContained_def)
next
  case False
  with assms have rel: "posix_relative cwd (abs_path fs) (abs_path ts) = js_join ''/'' (relative_segments fs ts)"
    by (simp add: posix_relative_def Let_def resolve_canonical abs_path_inject canonical_plain)
  show ?thesis
  proof (cases "prefix fs ts")
    case True
    then have "canonical_segments (drop (length fs) ts)"
      using assms(2) by (auto simp: canonical_segments_def dest: in_set_dropD)
    with True show ?thesis by (simp add: rel relative_prefix join_contained)
  next
    case False
    from relative_climbs [OF this] False join_climbs show ?thesis by (auto simp: rel)
  qed
qed

text \<open>
  On POSIX paths the containment test is exact. A target is within a scope precisely when the segments of
  the resolved scope root are a prefix of the segments of the resolved target: a sibling that merely shares a
  name prefix, a climb through \<open>..\<close>, trailing or doubled separators and names that begin with two dots are all
  decided by whole segments.
\<close>

theorem containment_is_prefix:
  assumes "posix_isAbsolute (pe_cwd E)" and "\<not> usesWindowsPath target" "\<not> usesWindowsPath scope"
  shows "isPathWithinScope E target scope \<longleftrightarrow>
    prefix (resolved_segments (pe_cwd E) scope) (resolved_segments (pe_cwd E) target)"
  using assms(2,3) relative_contained [OF resolved_canonical resolved_canonical, of "pe_cwd E" "pe_cwd E" scope "pe_cwd E" target]
  by (simp add: isPathWithinScope_def Let_def win32_selected_def lexicalPathApi_def
      canonicalPathScopeIdentityWithApi_def posix_api_def posix_resolve_segments [OF assms(1)])

end
