(* ===== verification/Symlink_Resolution.thy ===== *)
theory Symlink_Resolution
  imports Path_Containment
begin

text \<open>
  Real paths against the path walk of the kernel. \<open>resolves\<close> is that walk on a tree of directories, files
  and symbolic links; \<open>fs_models\<close> names what the file system calls answer for the tree.
\<close>

section \<open>The path walk\<close>

datatype fs_node = DirNode | FileNode | LinkNode string

fun is_link_node :: "fs_node \<Rightarrow> bool" where
  "is_link_node (LinkNode t) = True"
| "is_link_node _ = False"

lemma is_link_node_iff: "is_link_node n \<longleftrightarrow> (\<exists>t. n = LinkNode t)"
  by (cases n) auto

type_synonym fs_tree = "string list \<Rightarrow> fs_node option"

text \<open>
  Resolving the remaining components from a directory physically reached: a link's target is walked from
  the directory that holds the link, a missing component is appended as written.
\<close>

inductive resolves :: "fs_tree \<Rightarrow> string list \<Rightarrow> string list \<Rightarrow> string list \<Rightarrow> bool" for N where
  walk_end: "resolves N cur [] cur"
| walk_skip: "s = [] \<or> s = ''.'' \<Longrightarrow> resolves N cur rest q \<Longrightarrow> resolves N cur (s # rest) q"
| walk_up: "resolves N (butlast cur) rest q \<Longrightarrow> resolves N cur (''..'' # rest) q"
| walk_name: "s \<noteq> [] \<Longrightarrow> s \<noteq> ''.'' \<Longrightarrow> s \<noteq> ''..'' \<Longrightarrow> \<nexists>t. N (cur @ [s]) = Some (LinkNode t) \<Longrightarrow>
    resolves N (cur @ [s]) rest q \<Longrightarrow> resolves N cur (s # rest) q"
| walk_link: "s \<noteq> [] \<Longrightarrow> s \<noteq> ''.'' \<Longrightarrow> s \<noteq> ''..'' \<Longrightarrow> N (cur @ [s]) = Some (LinkNode t) \<Longrightarrow>
    resolves N (if posix_isAbsolute t then [] else cur) (js_split (CHR ''/'') t @ rest) q \<Longrightarrow>
    resolves N cur (s # rest) q"

inductive_cases resolves_NilE: "resolves N cur [] q"
inductive_cases resolves_ConsE: "resolves N cur (s # rest) q"

definition link_free :: "fs_tree \<Rightarrow> string list \<Rightarrow> bool" where
  "link_free N q \<longleftrightarrow> (\<forall>k < length q. \<nexists>t. N (take (Suc k) q) = Some (LinkNode t))"

lemma link_free_simps [simp]:
  "link_free N []"
  "link_free N (q @ [s]) \<longleftrightarrow> link_free N q \<and> (\<nexists>t. N (q @ [s]) = Some (LinkNode t))"
proof -
  show "link_free N (q @ [s]) \<longleftrightarrow> link_free N q \<and> (\<nexists>t. N (q @ [s]) = Some (LinkNode t))"
    by (auto simp: link_free_def less_Suc_eq)
qed (simp add: link_free_def)

lemma link_free_butlast: "link_free N q \<Longrightarrow> link_free N (butlast q)"
  by (cases q rule: rev_cases) simp_all

lemma link_free_append: "link_free N (p @ q) \<Longrightarrow> link_free N p"
  by (induction q rule: rev_induct) (auto simp flip: append_assoc)

text \<open>The walk ends in a physical place, and composes.\<close>

lemma resolves_link_free: "resolves N cur rest q \<Longrightarrow> link_free N cur \<Longrightarrow> link_free N q"
  by (induction rule: resolves.induct) (auto intro: link_free_butlast)

lemma canonical_butlast: "canonical_segments q \<Longrightarrow> canonical_segments (butlast q)"
  by (auto simp: canonical_segments_def dest: in_set_butlastD)

lemma resolves_canonical:
  "resolves N cur rest q \<Longrightarrow> canonical_segments cur \<Longrightarrow> \<forall>s \<in> set rest. CHR ''/'' \<notin> set s \<Longrightarrow> canonical_segments q"
proof (induction rule: resolves.induct)
  case (walk_link s cur t rest q)
  have "\<forall>s \<in> set (js_split (CHR ''/'') t @ rest). CHR ''/'' \<notin> set s"
    using walk_link.prems(2) by (auto dest: js_split_no_sep)
  with walk_link.IH walk_link.prems(1) show ?case by simp
qed (auto intro: canonical_butlast)

lemma resolves_append: "resolves N cur xs d \<Longrightarrow> resolves N d ys q \<Longrightarrow> resolves N cur (xs @ ys) q"
  by (induction rule: resolves.induct) (auto intro: resolves.intros)

lemma resolves_split: "resolves N cur zs q \<Longrightarrow> zs = xs @ ys \<Longrightarrow> \<exists>d. resolves N cur xs d \<and> resolves N d ys q"
proof (induction arbitrary: xs ys rule: resolves.induct)
  case (walk_end cur)
  then show ?case by (auto intro: resolves.intros)
next
  case (walk_skip s cur rest q)
  then show ?case by (cases xs) (use walk_skip.IH in \<open>auto, (metis resolves.intros)+\<close>)
next
  case (walk_up cur rest q)
  then show ?case by (cases xs) (use walk_up.IH in \<open>auto, (metis resolves.intros)+\<close>)
next
  case (walk_name s cur rest q)
  show ?case
  proof (cases xs)
    case Nil
    with walk_name have "resolves N cur ys q" by (metis append_Nil resolves.walk_name)
    with Nil show ?thesis by (auto intro: resolves.walk_end)
  next
    case (Cons x xs')
    with walk_name.prems have x: "s = x" "rest = xs' @ ys" by auto
    from walk_name.IH [OF x(2)] obtain d where "resolves N (cur @ [s]) xs' d" "resolves N d ys q" by auto
    with walk_name.hyps x(1) Cons show ?thesis by (metis resolves.walk_name)
  qed
next
  case (walk_link s cur t rest q)
  show ?case
  proof (cases xs)
    case Nil
    with walk_link have "resolves N cur ys q" by (metis append_Nil resolves.walk_link)
    with Nil show ?thesis by (auto intro: resolves.walk_end)
  next
    case (Cons x xs')
    with walk_link.prems have x: "s = x" "rest = xs' @ ys" by auto
    with walk_link.IH [of "js_split (CHR ''/'') t @ xs'" ys] obtain d where
      "resolves N (if posix_isAbsolute t then [] else cur) (js_split (CHR ''/'') t @ xs') d" "resolves N d ys q"
      by auto
    with walk_link.hyps x(1) Cons show ?thesis by (metis resolves.walk_link)
  qed
qed

lemma resolves_dropped:
  "resolves N cur (filter (\<lambda>s. s \<noteq> [] \<and> s \<noteq> ''.'') xs) q \<Longrightarrow> resolves N cur xs q"
proof (induction xs arbitrary: cur)
  case (Cons x xs)
  show ?case
  proof (cases "x = [] \<or> x = ''.''")
    case True
    with Cons show ?thesis by (auto intro: walk_skip)
  next
    case False
    with Cons.prems resolves_split [of N cur "[x] @ filter (\<lambda>s. s \<noteq> [] \<and> s \<noteq> ''.'') xs" q "[x]"]
    obtain d where "resolves N cur [x] d" "resolves N d (filter (\<lambda>s. s \<noteq> [] \<and> s \<noteq> ''.'') xs) q" by auto
    with Cons.IH resolves_append [of N cur "[x]" d xs q] show ?thesis by simp
  qed
qed simp

text \<open>A physical place is walked to itself.\<close>

lemma resolves_physical:
  assumes "resolves N cur (d @ ts) q" and "link_free N (cur @ d)" and "canonical_segments d"
  shows "resolves N (cur @ d) ts q"
  using assms
proof (induction d arbitrary: cur)
  case (Cons s d)
  have "link_free N (cur @ [s])" using link_free_append [of N "cur @ [s]" d] Cons.prems(2) by simp
  with Cons.prems(1,3) have "resolves N (cur @ [s]) (d @ ts) q" by (auto elim!: resolves_ConsE)
  with Cons.IH [of "cur @ [s]"] Cons.prems(2,3) show ?case by simp
qed simp

section \<open>The path functions on absolute paths\<close>

lemma js_join_snoc: "xs \<noteq> [] \<Longrightarrow> js_join sep (xs @ [x]) = js_join sep xs @ sep @ x"
proof (induction xs)
  case (Cons y ys)
  then show ?case by (cases ys) auto
qed simp

lemma strip_slashes_word: "s \<noteq> [] \<Longrightarrow> CHR ''/'' \<notin> set s \<Longrightarrow> strip_slashes (p @ s) = p @ s"
  by (cases s rule: rev_cases) (auto simp: strip_slashes_def)

lemma word_scans:
  assumes "CHR ''/'' \<notin> set s"
  shows "dropWhile (\<lambda>x. x \<noteq> CHR ''/'') (rev s) = []" "takeWhile (\<lambda>c. c \<noteq> CHR ''/'') (rev s) = rev s"
    "takeWhile (\<lambda>c. c \<noteq> CHR ''/'') (rev s @ CHR ''/'' # p) = rev s"
  using assms by (auto simp: takeWhile_eq_all_conv takeWhile_append2 takeWhile_tail)

lemma rev_dropWhile_word: "CHR ''/'' \<notin> set s \<Longrightarrow> dropWhile (\<lambda>x. x \<noteq> CHR ''/'') (rev s @ p) = dropWhile (\<lambda>x. x \<noteq> CHR ''/'') p"
  by (rule dropWhile_append2) auto

lemma join_nonempty: "canonical_segments ds \<Longrightarrow> ds \<noteq> [] \<Longrightarrow> js_join ''/'' ds \<noteq> []"
  by (cases ds; cases "tl ds") auto

lemma dirname_abs:
  assumes "canonical_segments (ds @ [s])"
  shows "posix_dirname (abs_path (ds @ [s])) = abs_path ds"
proof (cases "ds = []")
  case True
  with assms word_scans(1) [of s] strip_slashes_word [of s "[]"] show ?thesis
    by (simp add: abs_path_def posix_dirname_def del: dropWhile_eq_Nil_conv)
next
  case False
  with assms rev_dropWhile_word [of s "CHR ''/'' # rev (js_join ''/'' ds)"]
    strip_slashes_word [of s "js_join ''/'' ds @ ''/''"] join_nonempty [of ds]
  show ?thesis by (simp add: abs_path_def posix_dirname_def js_join_snoc)
qed

lemma dirname_top [simp]: "posix_dirname (abs_path []) = abs_path []"
  by (simp add: abs_path_def posix_dirname_def strip_slashes_def)

lemma basename_abs:
  assumes "canonical_segments (ds @ [s])"
  shows "posix_basename (abs_path (ds @ [s])) = s"
proof -
  obtain p where p: "abs_path (ds @ [s]) = p @ CHR ''/'' # s"
    by (cases "ds = []") (auto simp: abs_path_def js_join_snoc)
  have "strip_slashes (p @ CHR ''/'' # s) = p @ CHR ''/'' # s"
    using strip_slashes_word [of s "p @ ''/''"] assms by simp
  then show ?thesis using assms word_scans(3) [of s "rev p"] by (simp add: posix_basename_def p)
qed

lemma join_abs:
  assumes "canonical_segments (ds @ [s])"
  shows "posix_join [abs_path ds, s] = abs_path (ds @ [s])"
proof -
  have s: "s \<noteq> []" "CHR ''/'' \<notin> set s" using assms by auto
  have "last s \<noteq> CHR ''/''" using s last_in_set [of s] by metis
  moreover have "path_segments s = [s]" using s by (simp add: path_segments_def js_split_plain)
  ultimately show ?thesis using assms s join_nonempty [OF assms]
    by (simp add: posix_join_def posix_normalize_def Let_def norm_path_segments canonical_plain norm_fixed
        posix_isAbsolute_def split: list.split) (simp add: abs_path_def canonical_plain norm_path_segments)
qed

lemma norm_without_climbs:
  "''..'' \<notin> set segs \<Longrightarrow> norm_segments climb acc segs = rev acc @ filter (\<lambda>s. s \<noteq> [] \<and> s \<noteq> ''.'') segs"
  by (induction segs arbitrary: acc) auto

lemma resolve_from:
  assumes "canonical_segments d" and "\<not> posix_isAbsolute t"
  shows "posix_resolve cwd [abs_path d, t] = abs_path (norm_segments False [] (d @ path_segments t))"
  using assms canonical_plain [OF assms(1)] abs_path_absolute [of d]
  by (cases "t = []") (auto simp: posix_resolve_def norm_path_segments abs_path_def path_segments_join)

section \<open>What the file system calls answer\<close>

text \<open>
  The documented behaviour the resolution relies on, for absolute normalised paths: \<open>realpath\<close> answers the
  place the walk of an existing path reaches, \<open>lstat\<close> and \<open>readlink\<close> follow every component but the last. The
  limits of the kernel on the number of links of one walk are taken not to be hit.
\<close>

definition fs_models :: "fs_tree \<Rightarrow> fs_env \<Rightarrow> bool" where
  "fs_models N F \<longleftrightarrow>
     (\<forall>segs r. canonical_segments segs \<longrightarrow> fs_exists F (abs_path segs) \<longrightarrow> fs_realpath F (abs_path segs) = Some r \<longrightarrow>
        (\<exists>q. resolves N [] segs q \<and> r = abs_path q)) \<and>
     (\<forall>ds s d. canonical_segments (ds @ [s]) \<longrightarrow> \<not> fs_exists F (abs_path (ds @ [s])) \<longrightarrow> resolves N [] ds d \<longrightarrow>
        fs_lstat F (abs_path (ds @ [s])) = Some True \<longleftrightarrow> (\<exists>t. N (d @ [s]) = Some (LinkNode t))) \<and>
     (\<forall>ds s d t. canonical_segments (ds @ [s]) \<longrightarrow> fs_readlink F (abs_path (ds @ [s])) = Some t \<longrightarrow>
        resolves N [] ds d \<longrightarrow> N (d @ [s]) = Some (LinkNode t)) \<and>
     fs_lstat F (abs_path []) \<noteq> Some True"

lemma fs_modelsD:
  assumes "fs_models N F"
  shows "canonical_segments segs \<Longrightarrow> fs_exists F (abs_path segs) \<Longrightarrow> fs_realpath F (abs_path segs) = Some r \<Longrightarrow>
      \<exists>q. resolves N [] segs q \<and> r = abs_path q"
    "canonical_segments (ds @ [s]) \<Longrightarrow> \<not> fs_exists F (abs_path (ds @ [s])) \<Longrightarrow> resolves N [] ds d \<Longrightarrow>
      fs_lstat F (abs_path (ds @ [s])) = Some True \<longleftrightarrow> (\<exists>t. N (d @ [s]) = Some (LinkNode t))"
    "canonical_segments (ds @ [s]) \<Longrightarrow> fs_readlink F (abs_path (ds @ [s])) = Some t \<Longrightarrow>
      resolves N [] ds d \<Longrightarrow> N (d @ [s]) = Some (LinkNode t)"
    "fs_lstat F (abs_path []) \<noteq> Some True"
  using assms unfolding fs_models_def by blast+

text \<open>No link climbs: a target's \<open>..\<close> is where lexical and physical resolution part.\<close>

definition plain_links :: "fs_tree \<Rightarrow> bool" where
  "plain_links N \<longleftrightarrow> (\<forall>p t. N p = Some (LinkNode t) \<longrightarrow> ''..'' \<notin> set (js_split (CHR ''/'') t))"

lemma resolveSafely_Inr:
  assumes "resolveSafely F cwd p hops = Inr r"
  shows "hops \<le> MAX_SYMLINK_HOPS"
    and "(fs_exists F p \<and> fs_realpath F p = Some r) \<or>
      (\<not> fs_exists F p \<and> fs_lstat F p = Some True \<and>
        (\<exists>t rp. fs_readlink F p = Some t \<and> resolveSafely F cwd (posix_dirname p) (hops + 1) = Inr rp \<and>
           resolveSafely F cwd (if posix_isAbsolute t then posix_resolve cwd [t] else posix_resolve cwd [rp, t]) (hops + 1) = Inr r)) \<or>
      (\<not> fs_exists F p \<and> fs_lstat F p \<noteq> Some True \<and>
        (posix_dirname p = p \<and> r = p \<or>
         posix_dirname p \<noteq> p \<and> (\<exists>rp. resolveSafely F cwd (posix_dirname p) (hops + 1) = Inr rp \<and>
           r = posix_join [rp, posix_basename p])))"
proof -
  note run = assms [unfolded resolveSafely.simps [of F cwd p hops]]
  show "hops \<le> MAX_SYMLINK_HOPS" using run by (auto split: if_split_asm)
  show "(fs_exists F p \<and> fs_realpath F p = Some r) \<or>
      (\<not> fs_exists F p \<and> fs_lstat F p = Some True \<and>
        (\<exists>t rp. fs_readlink F p = Some t \<and> resolveSafely F cwd (posix_dirname p) (hops + 1) = Inr rp \<and>
           resolveSafely F cwd (if posix_isAbsolute t then posix_resolve cwd [t] else posix_resolve cwd [rp, t]) (hops + 1) = Inr r)) \<or>
      (\<not> fs_exists F p \<and> fs_lstat F p \<noteq> Some True \<and>
        (posix_dirname p = p \<and> r = p \<or>
         posix_dirname p \<noteq> p \<and> (\<exists>rp. resolveSafely F cwd (posix_dirname p) (hops + 1) = Inr rp \<and>
           r = posix_join [rp, posix_basename p])))"
    using run by (auto simp: Let_def split: if_split_asm option.split_asm)
qed

lemma link_target_walk:
  assumes "''..'' \<notin> set (js_split (CHR ''/'') t)" and "canonical_segments d" and "link_free N d"
    and "resolves N [] (norm_segments False [] (if posix_isAbsolute t then path_segments t else d @ path_segments t)) q"
  shows "resolves N (if posix_isAbsolute t then [] else d) (js_split (CHR ''/'') t) q"
proof -
  have no: "''..'' \<notin> set (path_segments t)" using assms(1) by (simp add: path_segments_def)
  have keep: "filter (\<lambda>s. s \<noteq> [] \<and> s \<noteq> ''.'') (path_segments t) = filter (\<lambda>s. s \<noteq> [] \<and> s \<noteq> ''.'') (js_split (CHR ''/'') t)"
    by (simp add: path_segments_def)
  show ?thesis
  proof (cases "posix_isAbsolute t")
    case True
    with assms(4) no keep show ?thesis by (simp add: norm_without_climbs resolves_dropped)
  next
    case False
    have "norm_segments False [] (d @ path_segments t) = d @ filter (\<lambda>s. s \<noteq> [] \<and> s \<noteq> ''.'') (path_segments t)"
      using no assms(2) by (subst norm_without_climbs) (auto simp: canonical_segments_def intro!: filter_True)
    with False assms(4) keep have "resolves N [] (d @ filter (\<lambda>s. s \<noteq> [] \<and> s \<noteq> ''.'') (js_split (CHR ''/'') t)) q"
      by simp
    from resolves_physical [OF this] assms(2,3) False show ?thesis by (simp add: resolves_dropped)
  qed
qed

lemma resolveSafely_physical:
  assumes "fs_models N F" and "plain_links N" and cwd: "posix_isAbsolute cwd"
  shows "canonical_segments segs \<Longrightarrow> resolveSafely F cwd (abs_path segs) hops = Inr r \<Longrightarrow>
    \<exists>q. resolves N [] segs q \<and> r = abs_path q \<and> canonical_segments q \<and> link_free N q"
proof (induction "Suc MAX_SYMLINK_HOPS - hops" arbitrary: segs hops r rule: less_induct)
  case less
  note laws = fs_modelsD [OF assms(1)]
  have reach: "canonical_segments q \<and> link_free N q" if "resolves N [] ss q" "canonical_segments ss" for ss q
    using resolves_canonical [OF that(1)] resolves_link_free [OF that(1)] that(2) by (auto simp: canonical_segments_def)
  from resolveSafely_Inr(1) [OF less.prems(2)] have smaller: "Suc MAX_SYMLINK_HOPS - (hops + 1) < Suc MAX_SYMLINK_HOPS - hops"
    by simp
  note IH = less.hyps [OF this]
  from resolveSafely_Inr(2) [OF less.prems(2)] show ?case
  proof (elim disjE conjE)
    assume "fs_exists F (abs_path segs)" "fs_realpath F (abs_path segs) = Some r"
    with laws(1) [OF less.prems(1)] obtain q where "resolves N [] segs q" "r = abs_path q" by blast
    with reach [OF _ less.prems(1)] show ?thesis by blast
  next
    assume no: "\<not> fs_exists F (abs_path segs)" and link: "fs_lstat F (abs_path segs) = Some True"
      and "\<exists>t rp. fs_readlink F (abs_path segs) = Some t \<and>
        resolveSafely F cwd (posix_dirname (abs_path segs)) (hops + 1) = Inr rp \<and>
        resolveSafely F cwd (if posix_isAbsolute t then posix_resolve cwd [t] else posix_resolve cwd [rp, t]) (hops + 1) = Inr r"
    then obtain t rp where t: "fs_readlink F (abs_path segs) = Some t"
      and rp: "resolveSafely F cwd (posix_dirname (abs_path segs)) (hops + 1) = Inr rp"
      and r: "resolveSafely F cwd (if posix_isAbsolute t then posix_resolve cwd [t] else posix_resolve cwd [rp, t]) (hops + 1) = Inr r"
      by blast
    from link laws(4) obtain ds s where segs: "segs = ds @ [s]" by (cases segs rule: rev_cases) auto
    with less.prems(1) have can: "canonical_segments (ds @ [s])" by simp
    from IH [of ds rp] rp segs can dirname_abs [OF can] obtain d where
      d: "resolves N [] ds d" "rp = abs_path d" "canonical_segments d" "link_free N d" by auto
    from laws(3) [OF can _ d(1)] t segs have node: "N (d @ [s]) = Some (LinkNode t)" by simp
    with assms(2) have plain: "''..'' \<notin> set (js_split (CHR ''/'') t)" by (auto simp: plain_links_def)
    let ?target = "norm_segments False [] (if posix_isAbsolute t then path_segments t else d @ path_segments t)"
    have "resolveSafely F cwd (abs_path ?target) (hops + 1) = Inr r"
      using r d(2,3) by (simp add: resolve_from posix_resolve_segments [OF cwd] resolved_segments_def split: if_split_asm)
    moreover have "canonical_segments ?target"
      using d(3) path_segments_plain [of t]
      by (intro norm_canonical) (auto simp: plain_segments_def canonical_segments_def)
    ultimately obtain q where q: "resolves N [] ?target q" "r = abs_path q" using IH by blast
    from link_target_walk [OF plain d(3,4) q(1)]
    have "resolves N d [s] q"
      using node can by (intro walk_link [where t = t]) auto
    from resolves_append [OF d(1) this] segs have "resolves N [] segs q" by simp
    with reach [OF this less.prems(1)] q(2) show ?thesis by blast
  next
    assume no: "\<not> fs_exists F (abs_path segs)" and top: "posix_dirname (abs_path segs) = abs_path segs" "r = abs_path segs"
    have "segs = []"
    proof (cases segs rule: rev_cases)
      case (snoc ds s)
      with top less.prems(1) dirname_abs [of ds s] have "ds = ds @ [s]" by (simp add: abs_path_inject)
      then show ?thesis by simp
    qed
    with top show ?thesis by (auto intro: walk_end)
  next
    assume no: "\<not> fs_exists F (abs_path segs)" and nolink: "fs_lstat F (abs_path segs) \<noteq> Some True"
      and up: "posix_dirname (abs_path segs) \<noteq> abs_path segs"
      and "\<exists>rp. resolveSafely F cwd (posix_dirname (abs_path segs)) (hops + 1) = Inr rp \<and>
        r = posix_join [rp, posix_basename (abs_path segs)]"
    then obtain rp where rp: "resolveSafely F cwd (posix_dirname (abs_path segs)) (hops + 1) = Inr rp"
      and r: "r = posix_join [rp, posix_basename (abs_path segs)]" by blast
    from up obtain ds s where segs: "segs = ds @ [s]" by (cases segs rule: rev_cases) auto
    with less.prems(1) have can: "canonical_segments (ds @ [s])" by simp
    from IH [of ds rp] rp segs can dirname_abs [OF can] obtain d where
      d: "resolves N [] ds d" "rp = abs_path d" "canonical_segments d" "link_free N d" by auto
    from laws(2) [OF can _ d(1)] no nolink segs have node: "\<nexists>t. N (d @ [s]) = Some (LinkNode t)" by simp
    have "resolves N d [s] (d @ [s])" using can node by (intro walk_name walk_end) auto
    from resolves_append [OF d(1) this] segs have walk: "resolves N [] segs (d @ [s])" by simp
    have "r = abs_path (d @ [s])"
      using r d(2,3) can segs by (simp add: basename_abs join_abs)
    with walk reach [OF walk less.prems(1)] show ?thesis by blast
  qed
qed

lemma safe_physical:
  assumes "fs_models N (pe_fs E)" and "plain_links N" and "posix_isAbsolute (pe_cwd E)"
    and "safeRealpathSync E p = Inr r"
  shows "\<exists>q. resolves N [] (resolved_segments (pe_cwd E) p) q \<and> r = abs_path q \<and> canonical_segments q \<and> link_free N q"
  using resolveSafely_physical [OF assms(1-3) resolved_canonical] assms(4)
  unfolding safeRealpathSync_def posix_resolve_segments [OF assms(3)] by blast

text \<open>The components of a path as the kernel is handed it, from the root: those of the working directory first when it is relative.\<close>

definition given_segments :: "string \<Rightarrow> string \<Rightarrow> string list" where
  "given_segments cwd p =
     (if posix_isAbsolute p then [] else js_split (CHR ''/'') cwd) @ js_split (CHR ''/'') p"

lemma resolved_without_climbs:
  "''..'' \<notin> set (given_segments cwd p) \<Longrightarrow>
   resolved_segments cwd p = filter (\<lambda>s. s \<noteq> [] \<and> s \<noteq> ''.'') (given_segments cwd p)"
  by (auto simp: resolved_segments_def given_segments_def path_segments_def norm_without_climbs filter_filter
      intro!: arg_cong2 [where f = "(@)"] filter_cong)

lemma given_walk:
  "resolves N [] (resolved_segments cwd p) q \<Longrightarrow> ''..'' \<notin> set (given_segments cwd p) \<Longrightarrow>
   resolves N [] (given_segments cwd p) q"
  by (simp add: resolved_without_climbs resolves_dropped)

section \<open>An executable kernel\<close>

text \<open>The walk with a bound on the links it follows, and the file system calls answered by it.\<close>

fun walk_fuel :: "nat \<Rightarrow> fs_tree \<Rightarrow> string list \<Rightarrow> string list \<Rightarrow> string list option" where
  "walk_fuel n N cur [] = Some cur"
| "walk_fuel n N cur (s # rest) =
     (if s = [] \<or> s = ''.'' then walk_fuel n N cur rest
      else if s = ''..'' then walk_fuel n N (butlast cur) rest
      else case N (cur @ [s]) of
        Some (LinkNode t) \<Rightarrow>
          (case n of 0 \<Rightarrow> None
           | Suc m \<Rightarrow> walk_fuel m N (if posix_isAbsolute t then [] else cur) (js_split (CHR ''/'') t @ rest))
      | _ \<Rightarrow> walk_fuel n N (cur @ [s]) rest)"

definition kernel_walk :: "fs_tree \<Rightarrow> string list \<Rightarrow> string list option" where
  "kernel_walk N segs = walk_fuel (3 * length segs) N [] segs"

definition entry_of :: "fs_tree \<Rightarrow> string \<Rightarrow> fs_node option" where
  "entry_of N p =
     (if path_segments p = [] then Some DirNode
      else case kernel_walk N (butlast (path_segments p)) of
        Some d \<Rightarrow> N (d @ [last (path_segments p)]) | None \<Rightarrow> None)"

definition place_exists :: "fs_tree \<Rightarrow> string list \<Rightarrow> bool" where
  "place_exists N q \<longleftrightarrow> q = [] \<or> N q \<noteq> None"

definition kernel_env :: "fs_tree \<Rightarrow> fs_env" where
  "kernel_env N =
     \<lparr>fs_exists = (\<lambda>p. case kernel_walk N (path_segments p) of Some q \<Rightarrow> place_exists N q | None \<Rightarrow> False),
      fs_realpath = (\<lambda>p. map_option abs_path (kernel_walk N (path_segments p))),
      fs_lstat = (\<lambda>p. map_option is_link_node (entry_of N p)),
      fs_readlink = (\<lambda>p. case entry_of N p of Some (LinkNode t) \<Rightarrow> Some t | _ \<Rightarrow> None)\<rparr>"

lemma walk_fuel_resolves: "walk_fuel n N cur rest = Some q \<Longrightarrow> resolves N cur rest q"
proof (induction n N cur rest rule: walk_fuel.induct)
  case (2 n N cur s rest)
  show ?case
  proof (cases "s = [] \<or> s = ''.'' \<or> s = ''..''")
    case True
    with 2 show ?thesis by (auto intro: resolves.intros)
  next
    case False
    show ?thesis
    proof (cases "\<exists>t. N (cur @ [s]) = Some (LinkNode t)")
      case True
      then obtain t where t: "N (cur @ [s]) = Some (LinkNode t)" by blast
      with False "2.prems" obtain m where "n = Suc m" by (cases n) auto
      with t False "2.IH" "2.prems" show ?thesis by (auto intro: walk_link [where t = t])
    next
      case no: False
      with False "2.IH" "2.prems" show ?thesis
        by (cases "N (cur @ [s])") (auto intro!: walk_name split: fs_node.splits)
    qed
  qed
qed (auto intro: walk_end)

lemma resolves_unique: "resolves N cur rest q \<Longrightarrow> resolves N cur rest q' \<Longrightarrow> q' = q"
proof (induction arbitrary: q' rule: resolves.induct)
  case (walk_end cur)
  then show ?case by (auto elim: resolves_NilE)
next
  case (walk_skip s cur rest q)
  have "resolves N cur rest q'" using walk_skip.prems walk_skip.hyps(1) by (auto elim: resolves_ConsE)
  then show ?case by (rule walk_skip.IH)
next
  case (walk_up cur rest q)
  have "resolves N (butlast cur) rest q'" using walk_up.prems by (auto elim: resolves_ConsE)
  then show ?case by (rule walk_up.IH)
next
  case (walk_name s cur rest q)
  have "resolves N (cur @ [s]) rest q'" using walk_name.prems walk_name.hyps by (auto elim: resolves_ConsE)
  then show ?case by (rule walk_name.IH)
next
  case (walk_link s cur t rest q)
  have "resolves N (if posix_isAbsolute t then [] else cur) (js_split (CHR ''/'') t @ rest) q'"
    using walk_link.prems walk_link.hyps(1-4) by (auto elim: resolves_ConsE)
  then show ?case by (rule walk_link.IH)
qed

definition meets_link :: "fs_tree \<Rightarrow> string list \<Rightarrow> string \<Rightarrow> string \<Rightarrow> bool" where
  "meets_link N cur s t \<longleftrightarrow> s \<noteq> [] \<and> s \<noteq> ''.'' \<and> s \<noteq> ''..'' \<and> N (cur @ [s]) = Some (LinkNode t)"

lemma walk_fuel_link:
  "meets_link N cur s t \<Longrightarrow> walk_fuel n N cur (s # rest) =
     (case n of 0 \<Rightarrow> None | Suc m \<Rightarrow> walk_fuel m N (if posix_isAbsolute t then [] else cur) (js_split (CHR ''/'') t @ rest))"
  by (simp add: meets_link_def)

lemma walk_fuel_plain:
  assumes "\<nexists>t. meets_link N cur s t"
  obtains cur' where "\<And>n rest. walk_fuel n N cur (s # rest) = walk_fuel n N cur' rest"
proof -
  consider "s = [] \<or> s = ''.''" | "s = ''..''" | "\<not> (s = [] \<or> s = ''.'')" "s \<noteq> ''..''" "\<nexists>t. N (cur @ [s]) = Some (LinkNode t)"
    using assms by (auto simp: meets_link_def)
  then show thesis
  proof cases
    case 1
    show thesis by (rule that [of cur]) (simp add: 1)
  next
    case 2
    show thesis by (rule that [of "butlast cur"]) (simp add: 2)
  next
    case 3
    show thesis by (rule that [of "cur @ [s]"]) (use 3 in \<open>auto split: option.split fs_node.split\<close>)
  qed
qed

lemma walk_fuel_more: "walk_fuel n N cur xs = Some q \<Longrightarrow> n \<le> m \<Longrightarrow> walk_fuel m N cur xs = Some q"
proof (induction n arbitrary: cur xs m rule: less_induct)
  case (less n)
  from less.prems show ?case
  proof (induction xs arbitrary: cur)
    case (Cons s rest)
    show ?case
    proof (cases "\<exists>t. meets_link N cur s t")
      case True
      then obtain t where t: "meets_link N cur s t" by blast
      with Cons.prems obtain k l where k: "n = Suc k" "m = Suc l" "k \<le> l"
        by (cases n; cases m) (auto simp: walk_fuel_link simp del: walk_fuel.simps)
      with less.IH [of k _ _ l] t Cons.prems(1) show ?thesis by (simp add: walk_fuel_link del: walk_fuel.simps)
    next
      case False
      from walk_fuel_plain [OF False] obtain cur' where "\<And>n rest. walk_fuel n N cur (s # rest) = walk_fuel n N cur' rest" by blast
      with Cons show ?thesis by metis
    qed
  qed simp
qed

text \<open>A tree in which the walk of a link's target meets at most two links: three links per component are enough.\<close>

definition shallow_links :: "fs_tree \<Rightarrow> bool" where
  "shallow_links N \<longleftrightarrow> (\<forall>p t. N p = Some (LinkNode t) \<longrightarrow>
     (\<exists>q. walk_fuel 2 N (if posix_isAbsolute t then [] else butlast p) (js_split (CHR ''/'') t) = Some q))"

lemma walk_fuel_append:
  "walk_fuel n N cur xs = Some d \<Longrightarrow> walk_fuel m N d ys = Some q \<Longrightarrow> walk_fuel (n + m) N cur (xs @ ys) = Some q"
proof (induction n arbitrary: cur xs rule: less_induct)
  case (less n)
  from less.prems(1) show ?case
  proof (induction xs arbitrary: cur)
    case Nil
    with less.prems(2) show ?case by (auto intro: walk_fuel_more)
  next
    case (Cons s rest)
    show ?case
    proof (cases "\<exists>t. meets_link N cur s t")
      case True
      then obtain t where t: "meets_link N cur s t" by blast
      with Cons.prems obtain k where k: "n = Suc k" by (cases n) (auto simp: walk_fuel_link simp del: walk_fuel.simps)
      with less.IH [of k _ "js_split (CHR ''/'') t @ rest"] less.prems(2) t Cons.prems show ?thesis
        by (simp add: walk_fuel_link del: walk_fuel.simps)
    next
      case False
      from walk_fuel_plain [OF False] obtain cur' where "\<And>n rest. walk_fuel n N cur (s # rest) = walk_fuel n N cur' rest" by blast
      with Cons show ?thesis by simp
    qed
  qed
qed

lemma walk_fuel_shallow: "shallow_links N \<Longrightarrow> \<exists>q. walk_fuel (3 * length rest) N cur rest = Some q"
proof (induction rest arbitrary: cur)
  case (Cons s rest)
  have more: "\<exists>q. walk_fuel (3 * length (s # rest)) N c rest = Some q" for c
    using Cons.IH [OF Cons.prems, of c] walk_fuel_more [of "3 * length rest" N c rest _ "3 * length (s # rest)"] by auto
  show ?case
  proof (cases "\<exists>t. N (cur @ [s]) = Some (LinkNode t)")
    case True
    then obtain t where t: "N (cur @ [s]) = Some (LinkNode t)" by blast
    with Cons.prems obtain d where "walk_fuel 2 N (if posix_isAbsolute t then [] else cur) (js_split (CHR ''/'') t) = Some d"
      unfolding shallow_links_def by (metis butlast_snoc)
    moreover from Cons obtain q where "walk_fuel (3 * length rest) N d rest = Some q" by blast
    ultimately have "walk_fuel (2 + 3 * length rest) N (if posix_isAbsolute t then [] else cur) (js_split (CHR ''/'') t @ rest) = Some q"
      by (rule walk_fuel_append)
    with t more show ?thesis by (auto split: nat.split)
  next
    case False
    with more show ?thesis by (auto split: option.split fs_node.split)
  qed
qed simp

lemma kernel_walk_shallow:
  assumes "shallow_links N"
  shows "kernel_walk N segs = Some q \<longleftrightarrow> resolves N [] segs q"
  using walk_fuel_shallow [OF assms, of segs "[]"] walk_fuel_resolves resolves_unique
  unfolding kernel_walk_def by metis

lemma kernel_env_models:
  assumes "shallow_links N"
  shows "fs_models N (kernel_env N)"
proof -
  have parts: "path_segments (abs_path segs) = segs" if "canonical_segments segs" for segs
    using canonical_plain [OF that] by simp
  show ?thesis
    unfolding fs_models_def
  proof (intro conjI allI impI)
    fix segs r assume "canonical_segments segs" "fs_realpath (kernel_env N) (abs_path segs) = Some r"
    then show "\<exists>q. resolves N [] segs q \<and> r = abs_path q"
      by (auto simp: kernel_env_def parts kernel_walk_shallow [OF assms])
  next
    fix ds s d assume "canonical_segments (ds @ [s])" "resolves N [] ds d"
    then show "fs_lstat (kernel_env N) (abs_path (ds @ [s])) = Some True \<longleftrightarrow> (\<exists>t. N (d @ [s]) = Some (LinkNode t))"
      by (auto simp: kernel_env_def entry_of_def parts is_link_node_iff simp flip: kernel_walk_shallow [OF assms])
  next
    fix ds s d t assume "canonical_segments (ds @ [s])" "fs_readlink (kernel_env N) (abs_path (ds @ [s])) = Some t"
      "resolves N [] ds d"
    then show "N (d @ [s]) = Some (LinkNode t)"
      by (auto simp: kernel_env_def entry_of_def parts simp flip: kernel_walk_shallow [OF assms] split: option.splits fs_node.splits)
  qed (simp add: kernel_env_def entry_of_def parts)
qed

section \<open>The decisions\<close>

text \<open>A workspace \<open>/w\<close> with a link out of it, and one whose dangling link climbs through that link.\<close>

definition sample_tree :: fs_tree where
  "sample_tree = map_of [([''w''], DirNode), ([''w'', ''a''], FileNode), ([''w'', ''d''], LinkNode ''/etc''),
     ([''etc''], DirNode)]"

definition smuggling_tree :: fs_tree where
  "smuggling_tree = map_of [([''w''], DirNode), ([''w'', ''d''], LinkNode ''/etc/sub''),
     ([''w'', ''l''], LinkNode ''d/../new''), ([''etc''], DirNode), ([''etc'', ''sub''], DirNode)]"

definition sample_paths :: "fs_tree \<Rightarrow> path_env" where
  "sample_paths N = \<lparr>pe_cwd = ''/w'', pe_win32 = posix_api ''/w'', pe_fs = kernel_env N\<rparr>"

lemma shallow_samples: "shallow_links sample_tree" "shallow_links smuggling_tree"
proof -
  have "walk_fuel 2 sample_tree [] (js_split (CHR ''/'') ''/etc'') \<noteq> None"
    "walk_fuel 2 smuggling_tree [] (js_split (CHR ''/'') ''/etc/sub'') \<noteq> None"
    "walk_fuel 2 smuggling_tree [''w''] (js_split (CHR ''/'') ''d/../new'') \<noteq> None" by code_simp+
  then show "shallow_links sample_tree" "shallow_links smuggling_tree"
    by (auto simp: shallow_links_def sample_tree_def smuggling_tree_def posix_isAbsolute_def split: if_split_asm)
qed

lemma sample_plain: "plain_links sample_tree"
  by (auto simp: plain_links_def sample_tree_def split: if_split_asm)

text \<open>
  C27: real paths are physical. When no symbolic link in the tree has a \<open>..\<close> in its target and the file system
  calls answer for the tree as documented, what \<open>safeRealpathSync\<close> answers for a path is the place the kernel's
  own walk reaches, whatever mix of existing, missing and dangling components it has, and no component of the
  answer is a symbolic link. The walk is that of the path after \<open>path.resolve\<close>, which takes every \<open>..\<close> of the given
  path away with the name before it, before any link is looked at; for a path without \<open>..\<close> it is the walk of the
  path as given.
\<close>

theorem safe_realpath_is_physical:
  assumes "fs_models N (pe_fs E)" and "plain_links N" and "posix_isAbsolute (pe_cwd E)"
    and "safeRealpathSync E p = Inr r"
  shows "\<exists>q. resolves N [] (resolved_segments (pe_cwd E) p) q \<and>
     (''..'' \<notin> set (given_segments (pe_cwd E) p) \<longrightarrow> resolves N [] (given_segments (pe_cwd E) p) q) \<and>
     r = abs_path q \<and> link_free N q"
  using safe_physical [OF assms] given_walk by blast

lemma safe_realpath_is_physical_witness:
  "safeRealpathSync (sample_paths sample_tree) ''d/new'' = Inr ''/etc/new'' \<and>
   (\<exists>q. resolves sample_tree [] [[], ''w'', ''d'', ''new''] q \<and> ''/etc/new'' = abs_path q \<and> link_free sample_tree q)"
proof -
  have run: "safeRealpathSync (sample_paths sample_tree) ''d/new'' = Inr ''/etc/new''" by code_simp
  have "given_segments ''/w'' ''d/new'' = [[], ''w'', ''d'', ''new'']" by code_simp
  with safe_realpath_is_physical [of sample_tree "sample_paths sample_tree" "''d/new''" "''/etc/new''"]
    kernel_env_models [OF shallow_samples(1)] sample_plain run
  show ?thesis by (auto simp: sample_paths_def posix_isAbsolute_def)
qed

section \<open>Scope decisions\<close>

lemma abs_path_native: "canonical_segments q \<Longrightarrow> \<not> usesWindowsPath (abs_path q)"
  by (cases q; cases "hd q"; cases "tl q") (auto simp: abs_path_def usesWindowsPath_def drive_letter_def)

lemma resolved_abs: "canonical_segments q \<Longrightarrow> resolved_segments cwd (abs_path q) = q"
  by (simp add: resolved_segments_def canonical_plain norm_fixed)

lemma within_abs:
  assumes "posix_isAbsolute (pe_cwd E)" and "canonical_segments q" "canonical_segments d"
  shows "isPathWithinScope E (abs_path q) (abs_path d) \<longleftrightarrow> prefix d q"
  using relative_contained [of d q "pe_cwd E"] assms
  by (simp add: isPathWithinScope_def Let_def win32_selected_def lexicalPathApi_def abs_path_native
      canonicalPathScopeIdentityWithApi_def posix_api_def resolve_canonical)

text \<open>
  C28: an inside verdict is about physical places, in a tree none of whose links has a \<open>..\<close> in its target and under
  file system calls that answer for it as documented. When \<open>checkPathScope\<close> answers inside, the kernel's walk of the
  target ends under the place the scope root's walk ends in, under none of the denied places that could
  be resolved, and, when there are allowed paths, under one of theirs; links in any of the paths are accounted for.
  The walks are those of the paths after \<open>path.resolve\<close>; for a target without \<open>..\<close> it is also that of the target as given.
\<close>

theorem scope_decision_sound:
  assumes "fs_models N (pe_fs E)" and "plain_links N" and "posix_isAbsolute (pe_cwd E)"
    and "psd_kind (checkPathScope E scope p) = InsideScope"
  shows "\<exists>q d. resolves N [] (resolved_segments (pe_cwd E) p) q \<and>
     (''..'' \<notin> set (given_segments (pe_cwd E) p) \<longrightarrow> resolves N [] (given_segments (pe_cwd E) p) q) \<and>
     resolves N [] (resolved_segments (pe_cwd E) (ps_root scope)) d \<and> prefix d q \<and>
     (\<forall>denied e r. denied \<in> set (case ps_deniedPaths scope of Some ds \<Rightarrow> ds | None \<Rightarrow> []) \<longrightarrow>
        safeRealpathSync E denied = Inr r \<longrightarrow>
        resolves N [] (resolved_segments (pe_cwd E) denied) e \<longrightarrow> \<not> prefix e q) \<and>
     (\<forall>a as. ps_allowedPaths scope = Some (a # as) \<longrightarrow>
        (\<exists>allowed \<in> set (a # as). \<exists>e. resolves N [] (resolved_segments (pe_cwd E) allowed) e \<and> prefix e q))"
proof -
  note safe = safe_physical [OF assms(1-3)] and within = within_abs [OF assms(3)]
  let ?denials = "case ps_deniedPaths scope of Some ds \<Rightarrow> ds | None \<Rightarrow> []"
  from assms(4) obtain top target where top: "safeRealpathSync E (ps_root scope) = Inr top"
    and target: "safeRealpathSync E p = Inr target" and inside: "isPathWithinScope E target top"
    and none: "List.find (rule_matches E target) ?denials = None"
    and allowed: "\<And>a as. ps_allowedPaths scope = Some (a # as) \<Longrightarrow> List.find (rule_matches E target) (a # as) \<noteq> None"
    by (auto simp: checkPathScope_def scope_decision_def split: if_split_asm sum.split_asm option.split_asm list.split_asm)
  from safe [OF top] obtain d where d: "resolves N [] (resolved_segments (pe_cwd E) (ps_root scope)) d"
    "top = abs_path d" "canonical_segments d" by blast
  from safe [OF target] obtain q where q: "resolves N [] (resolved_segments (pe_cwd E) p) q"
    "target = abs_path q" "canonical_segments q" by blast
  have rule: "rule_matches E target x \<longleftrightarrow> prefix e q"
    if "safeRealpathSync E x = Inr r" "resolves N [] (resolved_segments (pe_cwd E) x) e" for x r e
  proof -
    from safe [OF that(1)] obtain f where f: "resolves N [] (resolved_segments (pe_cwd E) x) f" "r = abs_path f"
      "canonical_segments f" by blast
    with resolves_unique [OF that(2) f(1)] that(1) q(2,3) within [of q e] show ?thesis by (simp add: rule_matches_def)
  qed
  have "\<exists>x \<in> set (a # as). \<exists>e. resolves N [] (resolved_segments (pe_cwd E) x) e \<and> prefix e q"
    if "ps_allowedPaths scope = Some (a # as)" for a as
  proof -
    from allowed [OF that] obtain x where x: "x \<in> set (a # as)" "rule_matches E target x"
      using find_SomeD by (metis not_None_eq)
    then obtain r where r: "safeRealpathSync E x = Inr r" by (auto simp: rule_matches_def split: sum.split_asm)
    from safe [OF r] rule [OF r] x show ?thesis by blast
  qed
  with d q inside within find_NoneD [OF none] rule given_walk show ?thesis by blast
qed

lemma scope_decision_sound_witness:
  "psd_kind (checkPathScope (sample_paths sample_tree)
     \<lparr>ps_root = ''/'', ps_allowedPaths = Some [''/w/d''], ps_deniedPaths = Some [''/w'']\<rparr> ''/etc/x'') = InsideScope \<and>
   (\<exists>q e. resolves sample_tree [] [''w'', ''d''] e \<and> resolves sample_tree [] [''etc'', ''x''] q \<and> prefix e q)"
proof -
  let ?s = "\<lparr>ps_root = ''/'', ps_allowedPaths = Some [''/w/d''], ps_deniedPaths = Some [''/w'']\<rparr>"
  have run: "psd_kind (checkPathScope (sample_paths sample_tree) ?s ''/etc/x'') = InsideScope" by code_simp
  have segs: "resolved_segments ''/w'' ''/etc/x'' = [''etc'', ''x'']" "resolved_segments ''/w'' ''/w/d'' = [''w'', ''d'']"
    by code_simp+
  from scope_decision_sound [of sample_tree "sample_paths sample_tree" ?s "''/etc/x''"]
    kernel_env_models [OF shallow_samples(1)] sample_plain run segs
  show ?thesis by (auto simp: sample_paths_def posix_isAbsolute_def)
qed

lemma containment_is_prefix_witness:
  "\<not> isPathWithinScope (sample_paths sample_tree) ''../work/x'' ''/w'' \<and>
   isPathWithinScope (sample_paths sample_tree) ''..a/x'' ''/w/..a''"
proof -
  have "resolved_segments ''/w'' ''../work/x'' = [''work'', ''x'']" "resolved_segments ''/w'' ''/w'' = [''w'']"
    "resolved_segments ''/w'' ''..a/x'' = [''w'', ''..a'', ''x'']" "resolved_segments ''/w'' ''/w/..a'' = [''w'', ''..a'']"
    by code_simp+
  moreover have "\<not> list_ex usesWindowsPath [''../work/x'', ''/w'', ''..a/x'', ''/w/..a'']" by code_simp
  ultimately show ?thesis
    using containment_is_prefix [of "sample_paths sample_tree" "''../work/x''" "''/w''"]
      containment_is_prefix [of "sample_paths sample_tree" "''..a/x''" "''/w/..a''"]
    by (simp add: sample_paths_def posix_isAbsolute_def)
qed

section \<open>Missing ancestors count as hops\<close>

text \<open>
  A path none of whose last components exists is refused when more than thirty-two of them are missing,
  with the error that speaks of symbolic links, although the walk meets no link at all.
\<close>

lemma deep_missing_path_refused:
  assumes "\<And>p. \<not> fs_exists F p" and "\<And>p. fs_lstat F p \<noteq> Some True"
    and "canonical_segments segs" and "MAX_SYMLINK_HOPS < length segs + hops"
  shows "\<exists>p. resolveSafely F cwd (abs_path segs) hops = Inl (TooManySymlinkHops p)"
  using assms(3,4)
proof (induction segs arbitrary: hops rule: rev_induct)
  case Nil
  then show ?case by (subst resolveSafely.simps) simp
next
  case (snoc s ds)
  show ?case
  proof (cases "MAX_SYMLINK_HOPS < hops")
    case True
    then show ?thesis by (subst resolveSafely.simps) simp
  next
    case False
    from snoc.IH [of "hops + 1"] snoc.prems obtain p where
      "resolveSafely F cwd (abs_path ds) (hops + 1) = Inl (TooManySymlinkHops p)" by auto
    moreover have "abs_path ds \<noteq> abs_path (ds @ [s])" using snoc.prems(1) by (simp add: abs_path_inject)
    ultimately show ?thesis using False assms(1,2) dirname_abs [OF snoc.prems(1)]
      by (subst resolveSafely.simps) (simp add: Let_def)
  qed
qed

definition empty_fs :: fs_env where
  "empty_fs = \<lparr>fs_exists = (\<lambda>p. False), fs_realpath = (\<lambda>p. None), fs_lstat = (\<lambda>p. None), fs_readlink = (\<lambda>p. None)\<rparr>"

lemma deep_missing_path_refused_sample:
  "\<exists>p. resolveSafely empty_fs ''/'' (abs_path (replicate 33 ''x'')) 0 = Inl (TooManySymlinkHops p)"
  by (rule deep_missing_path_refused)
    (auto simp: empty_fs_def MAX_SYMLINK_HOPS_def canonical_segments_def)

section \<open>Links that climb\<close>

lemma norm_after: "canonical_segments w \<Longrightarrow> norm_segments climb acc (w @ r) = norm_segments climb (rev w @ acc) r"
  by (induction w arbitrary: acc) auto

lemma climbing_target:
  assumes "canonical_segments (w @ [d])" and "canonical_segments (w @ [x])"
  shows "norm_segments False [] (w @ path_segments (d @ ''/../'' @ x)) = w @ [x]"
    and "js_split (CHR ''/'') (d @ ''/../'' @ x) = [d, ''..'', x]" and "\<not> posix_isAbsolute (d @ ''/../'' @ x)"
proof -
  have plain: "CHR ''/'' \<notin> set d" "CHR ''/'' \<notin> set x" "d \<noteq> []" "x \<noteq> []"
    using assms by auto
  show split: "js_split (CHR ''/'') (d @ ''/../'' @ x) = [d, ''..'', x]"
    using js_split_join [of "[d, ''..'', x]" "CHR ''/''"] plain by simp
  show "\<not> posix_isAbsolute (d @ ''/../'' @ x)" using plain by (cases d) (auto simp: posix_isAbsolute_def)
  have "norm_segments False [] (w @ [d, ''..'', x]) = w @ [x]"
    using assms by (simp add: norm_after)
  then show "norm_segments False [] (w @ path_segments (d @ ''/../'' @ x)) = w @ [x]"
    using plain by (simp add: path_segments_def split [simplified])
qed

lemma canonical_names: "canonical_segments q \<Longrightarrow> filter (\<lambda>s. s \<noteq> [] \<and> s \<noteq> ''.'') q = q"
  by (auto simp: canonical_segments_def intro: filter_True)

lemma abs_names:
  assumes "canonical_segments q"
  shows "filter (\<lambda>s. s \<noteq> [] \<and> s \<noteq> ''.'') (js_split (CHR ''/'') (abs_path q)) = q"
proof -
  have "filter (\<lambda>s. s \<noteq> []) (js_split (CHR ''/'') (abs_path q)) = q"
    using path_segments_abs [OF canonical_plain [OF assms]] by (simp add: path_segments_def)
  then have "filter (\<lambda>s. s \<noteq> ''.'') (filter (\<lambda>s. s \<noteq> []) (js_split (CHR ''/'') (abs_path q))) = filter (\<lambda>s. s \<noteq> ''.'') q"
    by (rule arg_cong)
  moreover have "filter (\<lambda>s. s \<noteq> ''.'') q = q" using assms by (auto simp: canonical_segments_def intro: filter_True)
  ultimately show ?thesis by (simp add: conj_commute)
qed

lemma resolves_self: "link_free N q \<Longrightarrow> canonical_segments q \<Longrightarrow> resolves N [] q q"
proof (induction q rule: rev_induct)
  case (snoc s q)
  then have "resolves N q [s] (q @ [s])" by (intro walk_name walk_end) auto
  with snoc show ?case by (auto intro: resolves_append)
qed (auto intro: walk_end)

lemma climbing_walk:
  assumes "canonical_segments (w @ [l])" "canonical_segments (w @ [d])" "canonical_segments (w @ [x])" "canonical_segments (e @ [s])"
    and "link_free N w" "link_free N (e @ [s])" "link_free N (e @ [x])"
    and "N (w @ [l]) = Some (LinkNode (d @ ''/../'' @ x))" and "N (w @ [d]) = Some (LinkNode (abs_path (e @ [s])))"
  shows "resolves N [] (w @ [l]) (e @ [x])"
proof -
  have last: "resolves N e [x] (e @ [x])" using assms(3,7) by (intro walk_name walk_end) auto
  have "resolves N (e @ [s]) [''..'', x] (e @ [x])" by (rule walk_up) (use last in simp)
  with resolves_append [OF resolves_self [OF assms(6,4)]] have "resolves N [] ((e @ [s]) @ [''..'', x]) (e @ [x])" by blast
  then have "resolves N [] (filter (\<lambda>s. s \<noteq> [] \<and> s \<noteq> ''.'') (js_split (CHR ''/'') (abs_path (e @ [s])) @ [''..'', x])) (e @ [x])"
    using abs_names [OF assms(4)] assms(3,4) by (simp add: canonical_names)
  then have target: "resolves N [] (js_split (CHR ''/'') (abs_path (e @ [s])) @ [''..'', x]) (e @ [x])" by (rule resolves_dropped)
  have "resolves N w [d, ''..'', x] (e @ [x])"
    using assms(2,9) target by (intro walk_link [where t = "abs_path (e @ [s])"]) auto
  then have "resolves N w [l] (e @ [x])"
    using assms(1,8) climbing_target(2,3) [OF assms(2,3)] by (intro walk_link [where t = "d @ ''/../'' @ x"]) auto
  with resolves_append [OF resolves_self [OF assms(5)]] assms(1) show ?thesis by simp
qed

text \<open>What \<open>resolveSafely\<close> makes of such a link: the target is collapsed before the inner link is looked at.\<close>

lemma climbing_answer:
  assumes "fs_models N F"
    and "canonical_segments (w @ [l])" "canonical_segments (w @ [d])" "canonical_segments (w @ [x])"
    and "link_free N (w @ [x])" and "N (w @ [l]) = Some (LinkNode (d @ ''/../'' @ x))"
    and "fs_exists F (abs_path w)" and "fs_realpath F (abs_path w) = Some (abs_path w)"
    and "\<not> fs_exists F (abs_path (w @ [l]))" and "\<not> fs_exists F (abs_path (w @ [x]))"
    and "fs_readlink F (abs_path (w @ [l])) = Some (d @ ''/../'' @ x)"
  shows "resolveSafely F cwd (abs_path (w @ [l])) 0 = Inr (abs_path (w @ [x]))"
proof -
  note laws = fs_modelsD [OF assms(1)] and target = climbing_target [OF assms(3,4)]
  have w: "canonical_segments w" "link_free N w" "resolves N [] w w" using assms(4,5) resolves_self by auto
  have top: "resolveSafely F cwd (abs_path w) n = Inr (abs_path w)" if "n \<le> MAX_SYMLINK_HOPS" for n
    using that assms(7,8) by (subst resolveSafely.simps) simp
  have hops: "2 \<le> MAX_SYMLINK_HOPS" by (simp add: MAX_SYMLINK_HOPS_def)
  have "fs_lstat F (abs_path (w @ [x])) \<noteq> Some True" using laws(2) [OF assms(4,10) w(3)] assms(5) by simp
  then have "resolveSafely F cwd (abs_path (w @ [x])) 1 = Inr (abs_path (w @ [x]))"
    using assms(4,10) top [of "Suc (Suc 0)"] hops
    by (subst resolveSafely.simps) (simp add: Let_def dirname_abs basename_abs join_abs abs_path_inject)
  moreover have "fs_lstat F (abs_path (w @ [l])) = Some True" using laws(2) [OF assms(2,9) w(3)] assms(6) by blast
  ultimately show ?thesis
    using assms(2,9,11) top [of "Suc 0"] hops target(1,3) resolve_from [OF w(1) target(3)]
    by (subst resolveSafely.simps) (simp add: Let_def dirname_abs)
qed



end
