(* ===== verification/Gateway_Calls.thy ===== *)
theory Gateway_Calls
  imports Shared_Budget Symlink_Resolution
begin

text \<open>
  What an admitted tool call has been checked against and what it is charged with, and what a denied one leaves
  behind.
\<close>

section \<open>Denials\<close>

definition undenied :: "('s \<Rightarrow> (gateway_error + 'a) \<times> 's) \<Rightarrow> bool" where
  "undenied m \<longleftrightarrow> (\<forall>s code. fst (m s) \<noteq> Inl (GatewayDenied code))"

lemma undeniedD: "undenied m \<Longrightarrow> m s \<noteq> (Inl (GatewayDenied code), s')"
  unfolding undenied_def by (metis fst_conv)

named_theorems undenying

lemma undenied_thenS [undenying]: "undenied m \<Longrightarrow> (\<And>x. undenied (k x)) \<Longrightarrow> undenied (thenS m k)"
  by (auto simp: undenied_def thenS_def split: prod.split sum.split) (metis fst_conv)+

lemma undenied_simps [undenying]:
  "undenied (returnS x)" "undenied (usage_result r)" "undenied (on_ledger m)" "undenied (on_shared n)"
  "undenied (currentTime S)" "undenied (wallClockMsAt now)" "undenied (resultS (iso_string now))"
  by (auto simp: undenied_def returnS_def usage_result_def resultS_def on_ledger_def on_shared_def currentTime_def
      wallClockMsAt_def iso_string_def mapE_def Let_def split: sum.splits prod.splits jsnum.splits)

lemma undenied_if [undenying]: "undenied m \<Longrightarrow> undenied k \<Longrightarrow> undenied (if b then m else k)"
  by simp

lemma undenied_option [undenying]:
  "(x = None \<Longrightarrow> undenied m) \<Longrightarrow> (\<And>y. x = Some y \<Longrightarrow> undenied (k y)) \<Longrightarrow>
     undenied (case x of None \<Rightarrow> m | Some y \<Rightarrow> k y)"
  by (cases x) auto

lemma undenied_local [undenying]: "undenied (getLocalUsage S)"
  unfolding getLocalUsage_def by (intro undenying) (simp add: undenied_def)

lemma undenied_projected [undenying]: "undenied (getProjectedAccounting S)"
proof -
  have "undenied (thenS (on_ledger (\<lambda>d. (ap_read port d, d))) (\<lambda>accounting.
          thenS (getLocalUsage S) (\<lambda>local.
          thenS (usage_result (attemptUsageFromGatewayUsage local)) (\<lambda>local.
          thenS (usage_result (projectPendingAttemptGenerationUsage accounting (ap_identity port) local)) (\<lambda>projected.
          returnS (Some projected))))))" for port
    by (intro undenying)
  then show ?thesis by (auto simp: undenied_def getProjectedAccounting_def split: option.split)
qed

lemma undenied_getUsage [undenying]: "undenied (getUsage S)"
proof -
  have "undenied (\<lambda>g. usage_result (reconcileAttemptUsage u (q g)) g)" for u q
    using undenied_simps(2) by (auto simp: undenied_def)
  then show ?thesis unfolding getUsage_def by (intro undenying)
qed

lemma undenied_publish [undenying]: "undenied (publishUsage S)"
  unfolding publishUsage_def by (intro undenying)

lemma undenied_receipt [undenying]: "undenied (record_receipt S)"
proof -
  have "undenied (thenS (getLocalUsage S) (\<lambda>local.
        thenS (usage_result (attemptUsageFromGatewayUsage local)) (\<lambda>usage.
        on_ledger (ap_record port usage))))" for port
    by (intro undenying)
  then show ?thesis by (auto simp: undenied_def record_receipt_def split: option.split)
qed

lemma undenied_flush [undenying]: "undenied (flushUsage S :: ('d, 'w, unit) gateway_op)"
proof -
  have "fst (flushUsage S g) \<noteq> Inl (GatewayDenied code)" for g :: "('d, 'w) Gateway" and code
  proof (cases "flushUsage S g")
    case (Pair r g')
    then show ?thesis
    proof (rule flush_steps)
      fix q g1 p assume "record_receipt S g = (q, g1)" "publishUsage S g1 = (p, g')"
        and e: "\<And>e. r = Inl e \<Longrightarrow> q = Inl e \<or> p = Inl e \<or> (\<exists>e1 e2. e = GatewayBothFailed e1 e2)"
      then have "q \<noteq> Inl (GatewayDenied code)" "p \<noteq> Inl (GatewayDenied code)"
        using undenied_receipt [of S] undenied_publish [of S] unfolding undenied_def by (metis fst_conv)+
      with e [of "GatewayDenied code"] Pair show ?thesis by auto
    qed
  qed
  then show ?thesis by (simp add: undenied_def)
qed

text \<open>What a step appends to the audit trail, for the code it ends with.\<close>

definition audited_as ::
  "'w GatewaySetup \<Rightarrow> string \<Rightarrow> bool \<Rightarrow> GatewayDecisionCode \<Rightarrow> GatewayAuditRecord list \<Rightarrow> GatewayAuditRecord list \<Rightarrow> bool" where
  "audited_as S toolName allow code before after \<longleftrightarrow>
     (if su_audited S then \<exists>when. after = before @ [audit_record S toolName allow code when] else after = before)"

definition denial_code :: "gateway_error \<Rightarrow> GatewayDecisionCode option" where
  "denial_code e = (case e of GatewayDenied code \<Rightarrow> Some code | _ \<Rightarrow> None)"

definition denial :: "gateway_error + 'a \<Rightarrow> GatewayDecisionCode option" where
  "denial r = (case r of Inl e \<Rightarrow> denial_code e | Inr _ \<Rightarrow> None)"

definition audits_denials :: "'w GatewaySetup \<Rightarrow> string \<Rightarrow> ('d, 'w, 'a) gateway_op \<Rightarrow> bool" where
  "audits_denials S toolName m \<longleftrightarrow>
     (\<forall>g. case denial (fst (m g)) of
        Some code \<Rightarrow> code \<noteq> Allowed \<and> audited_as S toolName False code (ga_audit g) (ga_audit (snd (m g)))
      | None \<Rightarrow> ga_audit (snd (m g)) = ga_audit g)"

lemma denial_simps [simp]:
  "denial (Inr x) = None" "denial (Inl e) = denial_code e" "denial_code (GatewayDenied code) = Some code"
  by (simp_all add: denial_def denial_code_def)

named_theorems auditing

lemma audits_undenied: "undenied m \<Longrightarrow> keeps ga_audit m \<Longrightarrow> audits_denials S toolName m"
  unfolding audits_denials_def undenied_def keeps_def denial_def denial_code_def
  by (auto split: option.splits sum.splits gateway_error.splits)

lemma audits_thenS [auditing]:
  assumes "audits_denials S t m" and "\<And>x. audits_denials S t (k x)"
  shows "audits_denials S t (thenS m k)"
  unfolding audits_denials_def
proof
  fix g
  obtain r g1 where m: "m g = (r, g1)" by fastforce
  show "case denial (fst (thenS m k g)) of
        Some code \<Rightarrow> code \<noteq> Allowed \<and> audited_as S t False code (ga_audit g) (ga_audit (snd (thenS m k g)))
      | None \<Rightarrow> ga_audit (snd (thenS m k g)) = ga_audit g"
  proof (cases r)
    case (Inl e)
    with m assms(1) [unfolded audits_denials_def, rule_format, of g] show ?thesis
      by (simp add: thenS_def split: option.splits)
  next
    case (Inr x)
    with m assms(1) [unfolded audits_denials_def, rule_format, of g]
      assms(2) [of x, unfolded audits_denials_def, rule_format, of g1] show ?thesis
      by (simp add: thenS_def split: option.splits)
  qed
qed

lemma audits_deny_if [auditing]:
  "code \<noteq> Allowed \<Longrightarrow> audits_denials S t (deny_if S t refused code)"
proof -
  assume "code \<noteq> Allowed"
  then have "audits_denials S t (deny S t code)"
    unfolding audits_denials_def deny_def audit_def
    by (auto simp: thenS_def currentTime_def Let_def audited_as_def resultS_def throwS_def returnS_def iso_string_def denial_code_def
        split: jsnum.splits if_splits)
  then show ?thesis
    unfolding deny_if_def by (auto simp: audits_undenied undenying keeping)
qed

lemma audits_option [auditing]:
  "(x = None \<Longrightarrow> audits_denials S t m) \<Longrightarrow> (\<And>y. x = Some y \<Longrightarrow> audits_denials S t (k y)) \<Longrightarrow>
     audits_denials S t (case x of None \<Rightarrow> m | Some y \<Rightarrow> k y)"
  by (cases x) auto

lemma audits_clock [auditing]: "audits_denials S t (currentTime S)"
  by (intro audits_undenied undenying keeping) simp

section \<open>Checks\<close>

lemma keeps_deny_if [keeping]: "keeps charged (deny_if S t refused code)"
proof -
  have "keeps charged (audit S t False code)"
    unfolding audit_def by (intro keeping) (simp_all add: keeps_def)
  then show ?thesis unfolding deny_if_def deny_def by (intro keeping)
qed

lemma deny_if_Inr [simp]: "deny_if S t refused code g = (Inr x, g') \<longleftrightarrow> \<not> refused \<and> g' = g"
  by (auto simp: deny_if_def deny_def thenS_Inr)

lemma check_paths_steps:
  shows "keeps charged (check_paths S t params access cc)" "audits_denials S t (check_paths S t params access cc)"
  unfolding check_paths_def Let_def by (auto intro!: keeping auditing simp: audits_undenied undenying keeping)

lemma check_steps:
  shows "keeps charged (checkToolCallEligibility S manifest t params)"
    "audits_denials S t (checkToolCallEligibility S manifest t params)"
proof -
  have deny: "deny S t CapabilityNotGranted = deny_if S t True CapabilityNotGranted" by (simp add: deny_if_def)
  show "keeps charged (checkToolCallEligibility S manifest t params)"
    unfolding checkToolCallEligibility_def deny by (intro keeping check_paths_steps) simp
  show "audits_denials S t (checkToolCallEligibility S manifest t params)"
    unfolding checkToolCallEligibility_def deny
    by (intro auditing check_paths_steps; simp)
qed

lemma enforce_steps:
  shows "keeps charged (enforceBudget S t)" "audits_denials S t (enforceBudget S t)"
  unfolding enforceBudget_def Let_def
  by (intro keeping; simp) (intro auditing audits_undenied undenying keeping; simp)

lemma available_steps:
  shows "keeps charged (assertBudgetAvailable S t)" "audits_denials S t (assertBudgetAvailable S t)"
proof -
  have last: "keeps charged (case su_sharedBudget S of None \<Rightarrow> returnS ()
      | Some shared \<Rightarrow> on_shared (\<lambda>w. (sb_assertBudgetAvailable shared t w, w)))"
    "audits_denials S t (case su_sharedBudget S of None \<Rightarrow> returnS ()
      | Some shared \<Rightarrow> on_shared (\<lambda>w. (sb_assertBudgetAvailable shared t w, w)))"
    by (intro keeping) (intro audits_undenied undenying keeping)
  show "keeps charged (assertBudgetAvailable S t)"
    unfolding assertBudgetAvailable_def by (intro keeping enforce_steps last)
  show "audits_denials S t (assertBudgetAvailable S t)"
    unfolding assertBudgetAvailable_def
    by (intro auditing enforce_steps last audits_undenied undenied_flush keeps_flush)
qed

definition within_limits :: "RiskBudget \<Rightarrow> GatewayUsage \<Rightarrow> bool" where
  "within_limits budget usage \<longleftrightarrow>
     \<not> reached (maxToolCalls budget) (gw_toolCalls usage) \<and>
     \<not> reached (maxTokens budget) (budgeted_gateway_usage usage) \<and>
     \<not> reached (maxCostUsd budget) (gw_costUsd usage) \<and>
     \<not> reached (maxWallClockMs budget) (gw_wallClockMs usage)"

lemma enforceBudget_Inr:
  "enforceBudget S t g = (Inr (), g') \<longleftrightarrow>
     (\<exists>u. getUsage S g = (Inr u, g') \<and> within_limits (grant_budget (su_grant S)) u)"
  by (auto simp: enforceBudget_def Let_def thenS_Inr within_limits_def)

text \<open>A call that is admitted, step by step.\<close>

lemma admitted_steps:
  assumes "authorizeToolCall S manifest t params g = (Inr (), g')"
  obtains g1 g2 g3 where "checkToolCallEligibility S manifest t params g = (Inr (), g1)"
    and "assertBudgetAvailable S t g1 = (Inr (), g2)"
    and "js_is_safe_integer (js_add (ga_toolCalls g2) (Fin 1))"
    and "flushUsage S (g2\<lparr>ga_toolCalls := js_add (ga_toolCalls g2) (Fin 1), ga_usageStarted := True\<rparr>) = (Inr (), g3)"
    and "audit S t True Allowed g3 = (Inr (), g')"
  using assms unfolding authorizeToolCall_def Let_def
  by (auto simp: thenS_Inr split: if_split_asm)

lemma audit_Inr:
  assumes "audit S t allow code g = (Inr (), g')"
  shows "charged g' = charged g" "ga_ledger g' = ga_ledger g" "ga_shared g' = ga_shared g"
    "audited_as S t allow code (ga_audit g) (ga_audit g')"
  using assms unfolding audit_def
  by (auto simp: thenS_Inr currentTime_def Let_def audited_as_def split: if_split_asm)

lemma denied_call:
  assumes "authorizeToolCall S manifest t params g = (Inl (GatewayDenied code), g')"
  shows "charged g' = charged g \<and> code \<noteq> Allowed \<and> audited_as S t False code (ga_audit g) (ga_audit g')"
proof -
  have audit: "undenied (audit S t True Allowed)"
    unfolding audit_def by (intro undenying) (auto simp: undenied_def)
  let ?check = "checkToolCallEligibility S manifest t params"
  from assms consider "?check g = (Inl (GatewayDenied code), g')"
    | g1 where "?check g = (Inr (), g1)" "assertBudgetAvailable S t g1 = (Inl (GatewayDenied code), g')"
    unfolding authorizeToolCall_def thenS_Inl Let_def
    by (auto split: if_split_asm simp: thenS_Inl undeniedD [OF undenied_flush] undeniedD [OF audit])
  then show ?thesis
  proof cases
    case 1
    from keepsD [OF check_steps(1) this] check_steps(2) [unfolded audits_denials_def, rule_format, of S manifest t params g] 1
    show ?thesis by simp
  next
    case 2
    from keepsD [OF check_steps(1) 2(1)] keepsD [OF available_steps(1) 2(2)]
      check_steps(2) [unfolded audits_denials_def, rule_format, of S manifest t params g] 2(1)
      available_steps(2) [unfolded audits_denials_def, rule_format, of S t g1] 2(2)
    show ?thesis by simp
  qed
qed

context shared_budget
begin

lemma assert_available:
  assumes "assertBudgetAvailable S t g = (Inr (), g')" and "su_sharedBudget S = Some port" and "ledger_ok g"
  obtains g1 g2 v where "charged g1 = charged g" and "accounts_for (sb_getAttemptUsage port (ga_shared g1)) g1"
    and "getUsage S g1 = (Inr (gateway_usage v), g2)" and "accounts_for v g1"
    and "within_limits (grant_budget (su_grant S)) (gateway_usage v)"
    and "sb_assertBudgetAvailable port t (ga_shared g2) = Inr ()"
proof -
  from assms(1,2) obtain g1 g2 u where flush: "flushUsage S g = (Inr (), g1)" and u: "getUsage S g1 = (Inr u, g2)"
    "within_limits (grant_budget (su_grant S)) u" and shared: "sb_assertBudgetAvailable port t (ga_shared g2) = Inr ()"
    unfolding assertBudgetAvailable_def thenS_Inr by (auto simp: on_shared_def enforceBudget_Inr)
  note same = keepsD [OF keeps_flush(1) flush]
  from assms(3) received_cong(2) [OF same] have "ledger_ok g1" by simp
  from usage_read_accounts [OF u(1) this] obtain v where "u = gateway_usage v" "accounts_for v g1" by metis
  with that same flushed_is_counted [OF flush assms(2,3)] u shared show thesis by blast
qed

lemma admitted_call:
  assumes "authorizeToolCall S manifest t params g = (Inr (), g')" and "su_sharedBudget S = Some port" and "ledger_ok g"
  shows "charged g' = charged (g\<lparr>ga_toolCalls := js_add (ga_toolCalls g) (Fin 1), ga_usageStarted := True\<rparr>)"
    and "js_is_safe_integer (ga_toolCalls g')" and "audited_as S t True Allowed (ga_audit g) (ga_audit g')"
    and "accounts_for (sb_getAttemptUsage port (ga_shared g')) g'"
    and "\<exists>g1 g2 v. charged g1 = charged g \<and> accounts_for (sb_getAttemptUsage port (ga_shared g1)) g1 \<and>
      getUsage S g1 = (Inr (gateway_usage v), g2) \<and> accounts_for v g1 \<and>
      within_limits (grant_budget (su_grant S)) (gateway_usage v) \<and>
      sb_assertBudgetAvailable port t (ga_shared g2) = Inr ()"
proof -
  from admitted_steps [OF assms(1)] obtain g1 g2 g3 where check: "checkToolCallEligibility S manifest t params g = (Inr (), g1)"
    and avail: "assertBudgetAvailable S t g1 = (Inr (), g2)" and safe: "js_is_safe_integer (js_add (ga_toolCalls g2) (Fin 1))"
    and flush: "flushUsage S (g2\<lparr>ga_toolCalls := js_add (ga_toolCalls g2) (Fin 1), ga_usageStarted := True\<rparr>) = (Inr (), g3)"
    (is "flushUsage S ?c = _") and audit: "audit S t True Allowed g3 = (Inr (), g')" by blast
  note c1 = keepsD [OF check_steps(1) check] and c2 = keepsD [OF available_steps(1) avail]
    and c3 = keepsD [OF keeps_flush(1) flush] and c4 = audit_Inr [OF audit]
  from c1 have ok1: "ledger_ok g1" using assms(3) received_cong(2) by blast
  have "ga_audit g1 = ga_audit g" "ga_audit g2 = ga_audit g1"
    using check_steps(2) [unfolded audits_denials_def, rule_format, of S manifest t params g] check
      available_steps(2) [unfolded audits_denials_def, rule_format, of S t g1] avail by simp_all
  with keepsD [OF keeps_flush(2) flush] c4(4) show "audited_as S t True Allowed (ga_audit g) (ga_audit g')" by simp
  show charge: "charged g' = charged (g\<lparr>ga_toolCalls := js_add (ga_toolCalls g) (Fin 1), ga_usageStarted := True\<rparr>)"
    using c1 c2 c3 c4(1) by (simp add: charged_def)
  show "js_is_safe_integer (ga_toolCalls g')" using safe c3 c4(1) by (simp add: charged_def)
  have "ledger_ok ?c" using ok1 c2 by (simp add: ledger_ok_def charged_def)
  from flushed_is_counted [OF flush assms(2) this] accounts_for_cong [OF c4(1,2)] c4(3)
  show "accounts_for (sb_getAttemptUsage port (ga_shared g')) g'" by simp
  from assert_available [OF avail assms(2) ok1] c1 show "\<exists>g1 g2 v. charged g1 = charged g \<and>
      accounts_for (sb_getAttemptUsage port (ga_shared g1)) g1 \<and>
      getUsage S g1 = (Inr (gateway_usage v), g2) \<and> accounts_for v g1 \<and>
      within_limits (grant_budget (su_grant S)) (gateway_usage v) \<and>
      sb_assertBudgetAvailable port t (ga_shared g2) = Inr ()" by metis
qed

end

section \<open>The charge\<close>

text \<open>
  C37: admitted calls are charged, denied ones are not. When the gateway of a worker admits a call, the usage it
  read just before accounts for every counter received for the attempt (the wall clock is read, not received) and lies
  below every limit of the grant, the tree had budget left, the tool-call counter rises by exactly one and no other
  counter moves, an allowing audit record is written when there is a sink, and the tree knows of the call before the tool runs: the usage it holds for the attempt
  accounts for the gateway's counters and for what the durable accounting holds. A denial leaves every counter as
  it was and writes one audit record with its reason when there is a sink.
\<close>

theorem admitted_call_is_charged:
  assumes "authorizeToolCall S manifest toolName params g = (r, g')"
    and "su_sharedBudget S = Some (tree_port attemptId)" and "ledger_ok g"
  shows "(r = Inr () \<longrightarrow>
      charged g' = charged (g\<lparr>ga_toolCalls := js_add (ga_toolCalls g) (Fin 1), ga_usageStarted := True\<rparr>) \<and>
      js_is_safe_integer (ga_toolCalls g') \<and> audited_as S toolName True Allowed (ga_audit g) (ga_audit g') \<and>
      accounts_for (known_usage (ga_shared g') attemptId) g' \<and>
      (\<exists>g1 g2 v. charged g1 = charged g \<and> accounts_for (known_usage (ga_shared g1) attemptId) g1 \<and>
         getUsage S g1 = (Inr (gateway_usage v), g2) \<and> accounts_for v g1 \<and>
         within_limits (grant_budget (su_grant S)) (gateway_usage v) \<and> assertAvailable (ga_shared g2) toolName = Inr ())) \<and>
    (\<forall>code. r = Inl (GatewayDenied code) \<longrightarrow>
      charged g' = charged g \<and> code \<noteq> Allowed \<and> audited_as S toolName False code (ga_audit g) (ga_audit g'))"
  using tree_budget.admitted_call [of S manifest toolName params g g' attemptId] denied_call [of S manifest toolName params g _ g']
    assms by (auto simp: tree_port_def)

section \<open>The places a call may name\<close>

text \<open>The components of a path of the grant or of a call, resolved against the gateway's directory.\<close>

definition path_place :: "'w GatewaySetup \<Rightarrow> string \<Rightarrow> string list" where
  "path_place S value = resolved_segments (pe_cwd (su_paths S)) (lexical_path S value)"

lemma resolve_text_absolute: "posix_isAbsolute cwd \<Longrightarrow> fst (resolve_text (ps @ [cwd]) word)"
  by (induction ps arbitrary: word) (auto simp: posix_isAbsolute_def)

lemma resolve_abs:
  assumes "posix_isAbsolute cwd"
  shows "\<exists>segs. canonical_segments segs \<and> posix_resolve cwd args = abs_path segs"
proof -
  obtain b word where run: "resolve_text (rev args @ [cwd]) [] = (b, word)" by fastforce
  with resolve_text_absolute [OF assms, of "rev args" "[]"] have "b" by simp
  have "canonical_segments (norm_segments False [] (js_split (CHR ''/'') word))"
    by (rule norm_canonical) (auto dest: js_split_no_sep)
  with run \<open>b\<close> show ?thesis by (auto simp: posix_resolve_def)
qed

lemma lexical_place:
  assumes "posix_isAbsolute (pe_cwd (su_paths S))"
  shows "lexical_path S value = abs_path (path_place S value)"
  using resolve_abs [OF assms, of "[su_cwd S, value]"] resolved_abs by (auto simp: path_place_def lexical_path_def)

lemma walk_in_place: "link_free N (cur @ d) \<Longrightarrow> canonical_segments d \<Longrightarrow> resolves N cur d (cur @ d)"
proof (induction d arbitrary: cur)
  case (Cons s d)
  have "link_free N (cur @ [s])" using link_free_append [of N "cur @ [s]" d] Cons.prems(1) by simp
  with Cons.prems Cons.IH [of "cur @ [s]"] show ?case by (auto intro!: walk_name)
qed (auto intro: walk_end)

lemma link_free_prefix: "link_free N q \<Longrightarrow> prefix d q \<Longrightarrow> link_free N d"
  by (auto simp: prefix_def intro: link_free_append)

definition physical_paths :: "'w GatewaySetup \<Rightarrow> fs_tree \<Rightarrow> bool" where
  "physical_paths S N \<longleftrightarrow> fs_models N (pe_fs (su_paths S)) \<and> plain_links N \<and> posix_isAbsolute (pe_cwd (su_paths S))"

lemma real_place:
  assumes "physical_paths S N" and "resolveRealPath S value = Some r"
  obtains q where "resolves N [] (path_place S value) q" and "r = abs_path q" and "canonical_segments q" and "link_free N q"
proof -
  from assms(2) have "safeRealpathSync (su_paths S) (lexical_path S value) = Inr r"
    by (auto simp: resolveRealPath_def split: sum.splits list.splits)
  from safe_physical [OF _ _ _ this, of N] assms(1) that show thesis by (auto simp: physical_paths_def path_place_def)
qed

definition under_some :: "fs_tree \<Rightarrow> 'w GatewaySetup \<Rightarrow> string list \<Rightarrow> string list \<Rightarrow> bool" where
  "under_some N S paths q \<longleftrightarrow> (\<exists>p \<in> set paths. \<exists>e. resolves N [] (path_place S p) e \<and> prefix e q)"

lemma allowed_places:
  assumes "physical_paths S N" and "canonical_segments q" and "link_free N q"
    and "within_some S (allowed_roots S allowed) (abs_path q)"
  shows "under_some N S allowed q"
proof -
  from assms(1) have cwd: "posix_isAbsolute (pe_cwd (su_paths S))" by (simp add: physical_paths_def)
  from assms(4) obtain a p where a: "a \<in> set allowed" and p: "isPathWithinScope (su_paths S) (abs_path q) p"
    and "p = lexical_path S a \<or> resolveRealPath S a = Some p"
    by (auto simp: within_some_def allowed_roots_def list_ex_iff split: option.splits)
  then consider "p = lexical_path S a" | "resolveRealPath S a = Some p" by blast
  then have "\<exists>e. resolves N [] (path_place S a) e \<and> prefix e q"
  proof cases
    case 1
    have canon: "canonical_segments (path_place S a)" by (simp add: path_place_def)
    from p 1 lexical_place [OF cwd] within_abs [OF cwd assms(2) canon] have "prefix (path_place S a) q" by simp
    with walk_in_place [of N "[]", OF _ canon] link_free_prefix [OF assms(3) this] show ?thesis by auto
  next
    case 2
    from real_place [OF assms(1) 2] obtain e where "resolves N [] (path_place S a) e" "p = abs_path e" "canonical_segments e"
      by blast
    with p within_abs [OF cwd assms(2)] show ?thesis by auto
  qed
  with a show ?thesis by (auto simp: under_some_def)
qed

lemma allowed_path_physical:
  assumes "physical_paths S N" and "pathAllowed S p allowed"
  shows "\<exists>q. resolves N [] (path_place S p) q \<and> under_some N S allowed q \<and>
    (\<forall>denied \<in> set (grant_deniedPaths (su_grant S)). \<forall>e. resolveRealPath S denied \<noteq> None \<longrightarrow>
       resolves N [] (path_place S denied) e \<longrightarrow> \<not> prefix e q)"
proof -
  from assms(1) have cwd: "posix_isAbsolute (pe_cwd (su_paths S))" by (simp add: physical_paths_def)
  from assms(2) obtain r where r: "resolveRealPath S p = Some r"
    and none: "\<not> within_some S (real_roots S (grant_deniedPaths (su_grant S))) r"
    and some: "within_some S (allowed_roots S allowed) r"
    by (auto simp: pathAllowed_def Let_def split: if_split_asm option.split_asm)
  from real_place [OF assms(1) r] obtain q where q: "resolves N [] (path_place S p) q" "r = abs_path q"
    "canonical_segments q" "link_free N q" by blast
  have "\<not> prefix e q" if d: "denied \<in> set (grant_deniedPaths (su_grant S))" and real: "resolveRealPath S denied \<noteq> None"
    and e: "resolves N [] (path_place S denied) e" for denied e
  proof -
    from real obtain t where t: "resolveRealPath S denied = Some t" by blast
    from real_place [OF assms(1) t] obtain f where f: "resolves N [] (path_place S denied) f" "t = abs_path f"
      "canonical_segments f" by blast
    have "t \<in> set (real_roots S (grant_deniedPaths (su_grant S)))"
      using d t by (auto simp: real_roots_def map_filter_def image_iff intro!: bexI [of _ denied])
    with none have "\<not> isPathWithinScope (su_paths S) r t" by (auto simp: within_some_def list_ex_iff)
    with within_abs [OF cwd q(3) f(3)] q(2) f(2) resolves_unique [OF f(1) e] show ?thesis by simp
  qed
  with q allowed_places [OF assms(1) q(3,4)] some show ?thesis by auto
qed

section \<open>The authority of a call\<close>

lemma check_paths_Inr:
  "check_paths S t params access cc g = (Inr (), g') \<longleftrightarrow> g' = g \<and>
     (access \<noteq> NoPathAccess \<and> (\<exists>c \<in> set cc. c \<in> set PATH_CAPABILITIES) \<longrightarrow> call_paths S t params access \<noteq> []) \<and>
     (\<forall>p \<in> set (call_paths S t params access). pathAllowed S p (granted_paths S (call_writes access cc)))"
  by (auto simp: check_paths_def Let_def thenS_Inr list_ex_iff list_all_iff call_paths_def)

lemma currentTime_Inr: "currentTime S g = (Inr now, g') \<Longrightarrow> now = su_now S (ga_readings g)"
  by (auto simp: currentTime_def Let_def split: if_split_asm)

lemma eligible:
  assumes "checkToolCallEligibility S manifest t params g = (Inr (), g')"
  shows "t \<in> set (grant_allowedTools (su_grant S))" and "man_toolName manifest = t"
    and "set (man_capabilities manifest) \<subseteq> set (grant_capabilities (su_grant S))"
    and "\<not> grant_expired (su_grant S) (su_now S (ga_readings g))"
    and "\<exists>cc g1. call_capabilities S manifest t params = Some cc \<and>
      check_paths S t params (call_path_access S manifest t params cc) cc g1 = (Inr (), g')"
proof -
  have no: "deny S t CapabilityNotGranted h \<noteq> (Inr x, h')" for h h' and x :: unit
    by (auto simp: deny_def thenS_Inr)
  show "t \<in> set (grant_allowedTools (su_grant S))" and "man_toolName manifest = t"
    and "set (man_capabilities manifest) \<subseteq> set (grant_capabilities (su_grant S))"
    and "\<not> grant_expired (su_grant S) (su_now S (ga_readings g))"
    and "\<exists>cc g1. call_capabilities S manifest t params = Some cc \<and>
      check_paths S t params (call_path_access S manifest t params cc) cc g1 = (Inr (), g')"
    using assms unfolding checkToolCallEligibility_def
    by (auto simp: thenS_Inr no dest: currentTime_Inr split: option.splits)
qed

lemma call_capabilities_within: "call_capabilities S manifest t params = Some cc \<Longrightarrow> set cc \<subseteq> set (man_capabilities manifest)"
  using call_capabilities_held [of "su_extensionTools S" "man_capabilities manifest" t params cc]
  by (auto simp: call_capabilities_def split: if_split_asm)

text \<open>
  C36: an admitted call stays within its grant. The tool is granted, its manifest is the tool's and asks for nothing
  beyond the grant, the grant has not expired at the reading of the clock the check made, the capabilities
  selected for this very call are granted, a call that needs a path names one, and every path the extraction finds in
  its parameters (\<open>call_paths\<close>: at most 64, at most four levels deep, none for a tool without path access) leads the
  kernel's own walk to a place under a granted read or write path and under no denied path that can be resolved. The
  places are those of the paths after \<open>path.resolve\<close>, in a tree none of whose links has a \<open>..\<close> in its target and under file
  system calls that answer for it as documented.
\<close>

theorem admitted_call_within_grant:
  assumes "authorizeToolCall S manifest toolName params g = (Inr (), g')" and "physical_paths S N"
  shows "toolName \<in> set (grant_allowedTools (su_grant S)) \<and> man_toolName manifest = toolName \<and>
    set (man_capabilities manifest) \<subseteq> set (grant_capabilities (su_grant S)) \<and>
    \<not> grant_expired (su_grant S) (su_now S (ga_readings g)) \<and>
    (\<exists>cc. call_capabilities S manifest toolName params = Some cc \<and> set cc \<subseteq> set (grant_capabilities (su_grant S)) \<and>
      (let access = call_path_access S manifest toolName params cc; paths = call_paths S toolName params access in
        (access \<noteq> NoPathAccess \<and> (\<exists>c \<in> set cc. c \<in> set PATH_CAPABILITIES) \<longrightarrow> paths \<noteq> []) \<and>
        (\<forall>p \<in> set paths. \<exists>q. resolves N [] (path_place S p) q \<and>
           under_some N S (granted_paths S (call_writes access cc)) q \<and>
           (\<forall>denied \<in> set (grant_deniedPaths (su_grant S)). \<forall>e. resolveRealPath S denied \<noteq> None \<longrightarrow>
              resolves N [] (path_place S denied) e \<longrightarrow> \<not> prefix e q))))"
proof -
  from admitted_steps [OF assms(1)] obtain g1 where "checkToolCallEligibility S manifest toolName params g = (Inr (), g1)"
    by metis
  note checks = eligible [OF this]
  from checks(5) obtain cc where cc: "call_capabilities S manifest toolName params = Some cc"
    and paths: "call_path_access S manifest toolName params cc \<noteq> NoPathAccess \<and> (\<exists>c \<in> set cc. c \<in> set PATH_CAPABILITIES) \<longrightarrow>
        call_paths S toolName params (call_path_access S manifest toolName params cc) \<noteq> []"
      "\<forall>p \<in> set (call_paths S toolName params (call_path_access S manifest toolName params cc)).
        pathAllowed S p (granted_paths S (call_writes (call_path_access S manifest toolName params cc) cc))"
    unfolding check_paths_Inr by blast
  with checks(1-4) call_capabilities_within [OF cc] allowed_path_physical [OF assms(2)]
  show ?thesis unfolding Let_def by (intro conjI exI [of _ cc]) blast+
qed

end
