(* ===== verification/Gateway_Sample.thy ===== *)
theory Gateway_Sample
  imports Gateway_Calls
begin

text \<open>
  A sample worker with a bound accounting, whose tree port and accounting port are the modelled ones: its calls are
  evaluated in the kernel and witness the properties of \<open>Gateway_Calls\<close>.
\<close>

definition sample_call_grant :: ExecutionGrant where
  "sample_call_grant =
     \<lparr>grant_grantId = ''g'', grant_schemaVersion = 1, grant_objectiveId = ''o'', grant_taskId = ''t'',
      grant_attemptId = ''a'', grant_subjectId = ''s'', grant_role = Implementer, grant_capabilities = [FilesystemRead],
      grant_allowedTools = [''read''], grant_resources = [], grant_readPaths = [''.''], grant_writePaths = [],
      grant_deniedPaths = [''/etc''], grant_budget = empty_budget\<lparr>maxToolCalls := Some (Fin 1)\<rparr>,
      grant_policyVersion = ''1'', grant_decisionTrace = [], grant_issuedAt = At 0, grant_expiresAt = Some (At 1000)\<rparr>"

definition sample_setup :: "TreeBudgetState GatewaySetup" where
  "sample_setup =
     \<lparr>su_grant = sample_call_grant, su_cwd = ''/w'', su_now = (\<lambda>n. Fin (of_nat n)), su_audited = True,
      su_sharedBudget = Some (tree_port ''a''), su_paths = sample_paths sample_tree, su_home = ''/h'',
      su_extensionTools = []\<rparr>"

text \<open>An accounting port over a ledger that is an accounting itself.\<close>

definition sample_port :: "AttemptUsageAccounting GatewayUsageAccountingPort" where
  "sample_port =
     \<lparr>ap_identity = \<lparr>gid_leaseId = ''l'', gid_fencingToken = 1\<rparr>, ap_baseline = EMPTY_ATTEMPT_USAGE,
      ap_read = (\<lambda>d. if accounting_ok d then Inr d else Inl ''corrupt''),
      ap_record = (\<lambda>u d. case recordAttemptGenerationUsage d \<lparr>gid_leaseId = ''l'', gid_fencingToken = 1\<rparr> u of
          Inl _ \<Rightarrow> (Inl ''refused'', d) | Inr d' \<Rightarrow> (Inr (), d'))\<rparr>"

definition sample_accounting :: AttemptUsageAccounting where
  "sample_accounting = \<lparr>acct_total = EMPTY_ATTEMPT_USAGE,
     acct_generations = [(''l'', \<lparr>gen_fencingToken = 1, gen_baseline = EMPTY_ATTEMPT_USAGE, gen_reported = EMPTY_ATTEMPT_USAGE\<rparr>)]\<rparr>"

definition sample_gateway :: "(AttemptUsageAccounting, TreeBudgetState) Gateway" where
  "sample_gateway = snd (bindUsageAccounting sample_setup sample_port
     (snd (openGateway sample_setup None sample_accounting (fresh_tree (empty_budget\<lparr>maxToolCalls := Some (Fin 5)\<rparr>) False))))"

definition sample_read_manifest :: ToolCapabilityManifest where
  "sample_read_manifest = \<lparr>man_toolName = ''read'', man_moduleSpecifier = [], man_capabilities = [FilesystemRead],
     man_roles = [], man_enforcements = [PathScope], man_sourcePath = None\<rparr>"

definition sample_call :: "string \<Rightarrow> (AttemptUsageAccounting, TreeBudgetState, unit) gateway_op" where
  "sample_call p = authorizeToolCall sample_setup sample_read_manifest ''read'' (Some (JObject [(''path'', JString p)]))"

lemma bound_port:
  assumes "bindUsageAccounting S port g = (Inr (), g')"
  shows "ga_usageAccounting g' = Some port"
proof -
  from assms obtain h where "publishUsage S h = (Inr (), g')" and "ga_usageAccounting h = Some port"
    by (auto simp: bindUsageAccounting_def thenS_Inr split: if_split_asm)
  from keepsD [OF keeps_publish(1) this(1)] this(2) show ?thesis by (simp add: charged_def)
qed

lemma sample_admitted:
  "case sample_call ''a'' sample_gateway of
     (r, g) \<Rightarrow> r = Inr () \<and> ga_toolCalls g = Fin 1 \<and> toolCalls (known_usage (ga_shared g) ''a'') = Fin 1"
  by code_simp

lemma sample_outside: "fst (sample_call ''d/x'' sample_gateway) = Inl (GatewayDenied PathOutsideScope)"
  by code_simp

lemma sample_bound: "ga_usageAccounting sample_gateway = Some sample_port"
proof -
  have "fst (bindUsageAccounting sample_setup sample_port
     (snd (openGateway sample_setup None sample_accounting (fresh_tree (empty_budget\<lparr>maxToolCalls := Some (Fin 5)\<rparr>) False)))) = Inr ()"
    by code_simp
  then show ?thesis unfolding sample_gateway_def by (metis bound_port prod.collapse)
qed

lemma sample_ledger_ok: "ledger_ok sample_gateway"
  by (auto simp: ledger_ok_def sample_bound charged_def sample_port_def split: if_split_asm)

lemma sample_physical: "physical_paths sample_setup sample_tree"
  using kernel_env_models [OF shallow_samples(1)] sample_plain
  by (simp add: physical_paths_def sample_setup_def sample_paths_def posix_isAbsolute_def)

lemma admitted_call_within_grant_witness:
  "(\<exists>g'. sample_call ''a'' sample_gateway = (Inr (), g')) \<and>
   (\<exists>q. resolves sample_tree [] [''w'', ''a''] q \<and> under_some sample_tree sample_setup [''.''] q)"
proof -
  let ?params = "Some (JObject [(''path'', JString ''a'')])"
  have parts: "call_capabilities sample_setup sample_read_manifest ''read'' ?params = Some [FilesystemRead]"
    "call_path_access sample_setup sample_read_manifest ''read'' ?params [FilesystemRead] = ReadAccess"
    "call_paths sample_setup ''read'' ?params ReadAccess = [''a'']" "path_place sample_setup ''a'' = [''w'', ''a'']"
    "granted_paths sample_setup (call_writes ReadAccess [FilesystemRead]) = [''.'']"
    by code_simp+
  from sample_admitted obtain g' where "authorizeToolCall sample_setup sample_read_manifest ''read'' ?params sample_gateway = (Inr (), g')"
    unfolding sample_call_def by (auto split: prod.splits)
  from admitted_call_within_grant [OF this sample_physical] parts sample_admitted show ?thesis by (auto simp: Let_def)
qed

lemma admitted_call_is_charged_witness:
  "(\<exists>g1. sample_call ''a'' sample_gateway = (Inr (), g1) \<and> ga_toolCalls g1 = Fin 1 \<and>
      toolCalls (known_usage (ga_shared g1) ''a'') = Fin 1 \<and> accounts_for (known_usage (ga_shared g1) ''a'') g1) \<and>
   (\<exists>g2. sample_call ''d/x'' sample_gateway = (Inl (GatewayDenied PathOutsideScope), g2) \<and> charged g2 = charged sample_gateway)"
proof -
  obtain g1 where run1: "sample_call ''a'' sample_gateway = (Inr (), g1)" and "ga_toolCalls g1 = Fin 1"
    and "toolCalls (known_usage (ga_shared g1) ''a'') = Fin 1"
    using sample_admitted by (auto split: prod.splits)
  moreover obtain g2 where run2: "sample_call ''d/x'' sample_gateway = (Inl (GatewayDenied PathOutsideScope), g2)"
    using sample_outside by (metis prod.collapse)
  moreover have "su_sharedBudget sample_setup = Some (tree_port ''a'')" by (simp add: sample_setup_def)
  note charge = admitted_call_is_charged [OF _ this sample_ledger_ok]
  from charge [OF run1 [unfolded sample_call_def]] charge [OF run2 [unfolded sample_call_def]]
  have "accounts_for (known_usage (ga_shared g1) ''a'') g1" "charged g2 = charged sample_gateway" by simp_all
  ultimately show ?thesis by simp
qed

end
