(* ===== verification/Write_Reservation.thy ===== *)
theory Write_Reservation
  imports Path_Scope "HOL-Library.List_Lexorder"
begin

text \<open>
  The durable reservations that keep concurrent workers from writing the same files
  (\<open>core/delegation/worker-write-reservation.ts\<close>, the owner identities of \<open>worker-process-owner.ts\<close>): one store file
  per repository root, read, checked and written back under a file lock, so each operation is one step over the
  files. Files hold decoded stores; whether the lock, a read or a write succeeds is an argument of the step, and the
  name of a repository's file and the size of a serialized store are parameters.
\<close>

section \<open>Types and bounds\<close>

definition RESERVATION_SCHEMA_VERSION :: nat where "RESERVATION_SCHEMA_VERSION = 1"
definition MAX_IDENTIFIER_CHARS :: nat where "MAX_IDENTIFIER_CHARS = 256"
definition MAX_PATH_CHARS :: nat where "MAX_PATH_CHARS = 4096"
definition MAX_SCOPES :: nat where "MAX_SCOPES = 32"
definition MAX_RESERVATIONS :: nat where "MAX_RESERVATIONS = 64"
definition MAX_FILE_BYTES :: int where "MAX_FILE_BYTES = 131072"

datatype reservation_error =
    TextOutOfBounds
  | OwnerInvalid
  | FenceInvalid
  | ScopeCountInvalid
  | ScopesOutsideExecutionRoot
  | IsolatedPrimaryRoot
  | IsolationIdentityMissing
  | PathUnresolved path_error
  | StoreTooLarge
  | StoreSchemaUnsupported
  | StoreRootConflict
  | StoreEntriesInvalid
  | StoreDuplicateIds
  | LockUnavailable
  | ReadFailed
  | WriteFailed
  | ForeignLease
  | EvidenceRepeated

record WorkerWriteReservationWorkspace =
  wsp_repositoryRoot :: string
  wsp_executionRoot :: string
  wsp_isolatedWorktreeId :: "string option"

datatype ReservationAccess = ReadReservation | WriteReservation

record WorkerWriteReservationRequest =
  wrq_parentSessionId :: string
  wrq_ownerId :: string
  wrq_taskId :: string
  wrq_attemptId :: string
  wrq_fencingToken :: jsnum
  wrq_access :: ReservationAccess
  wrq_workspace :: WorkerWriteReservationWorkspace
  wrq_writeScopes :: "string list"

record PersistedReservation =
  rv_reservationId :: string
  rv_parentSessionId :: string
  rv_ownerId :: string
  rv_taskId :: string
  rv_attemptId :: string
  rv_fencingToken :: jsnum
  rv_repositoryRoot :: string
  rv_executionRoot :: string
  rv_executionIdentity :: string
  rv_isolatedWorktreeId :: "string option"
  rv_writeScopes :: "string list"
  rv_createdAt :: string

text \<open>A lease is the record with the file that holds it, its creation time left out.\<close>

record WorkerWriteReservationLease =
  ls_filePath :: string
  ls_reservationId :: string
  ls_parentSessionId :: string
  ls_ownerId :: string
  ls_taskId :: string
  ls_attemptId :: string
  ls_fencingToken :: jsnum
  ls_repositoryRoot :: string
  ls_executionRoot :: string
  ls_executionIdentity :: string
  ls_isolatedWorktreeId :: "string option"
  ls_writeScopes :: "string list"

record WorkerWriteReservationConflict =
  rc_lease :: WorkerWriteReservationLease
  rc_createdAt :: string

datatype BlockReason = OverlappingWriteScope | AttemptReservationConflict | ReservationCapacityReached

datatype WorkerWriteReservationAcquireResult =
    ReservationGranted "WorkerWriteReservationLease option"
  | ReservationBlocked BlockReason "string list" "WorkerWriteReservationConflict list"

datatype WorkerWriteReservationReleaseResult = ReservationReleased | ReservationStaleFence | ReservationNotFound

record PersistedReservationStore =
  st_schemaVersion :: nat
  st_repositoryRoot :: string
  st_reservations :: "PersistedReservation list"

record CanonicalWorkspace =
  cw_repositoryRoot :: string
  cw_executionRoot :: string
  cw_executionIdentity :: string
  cw_isolatedWorktreeId :: "string option"

text \<open>What a store instance is opened with, and what the file system answers to one operation.\<close>

record reservation_env =
  re_paths :: path_env
  re_file :: "string \<Rightarrow> string"
  re_bytes :: "PersistedReservationStore \<Rightarrow> int"
  re_locks :: bool
  re_reads :: bool
  re_writes :: bool

text \<open>The files of the agent, the listeners of this process by file, and the wake-ups queued for them.\<close>

record ReservationWorld =
  rw_files :: "PersistedReservationStore js_record"
  rw_listeners :: "nat list js_record"
  rw_wakeups :: "nat list"

section \<open>Fields\<close>

definition requireBoundedTrimmedText :: "string \<Rightarrow> nat \<Rightarrow> reservation_error + string" where
  "requireBoundedTrimmedText value maximum =
     (let trimmed = js_trim value in
      if trimmed = [] \<or> maximum < length trimmed then Inl TextOutOfBounds else Inr trimmed)"

definition positiveFencingToken :: "jsnum \<Rightarrow> reservation_error + jsnum" where
  "positiveFencingToken n = (if \<not> js_is_safe_integer n \<or> js_lt n (Fin 1) then Inl FenceInvalid else Inr n)"

definition decimal_digit :: "char \<Rightarrow> bool" where
  "decimal_digit c \<longleftrightarrow> (let n = of_char c :: nat in 48 \<le> n \<and> n \<le> 57)"

definition hex_digit :: "char \<Rightarrow> bool" where
  "hex_digit c \<longleftrightarrow> decimal_digit c \<or> (let n = of_char c :: nat in 97 \<le> n \<and> n \<le> 102)"

definition decimal_value :: "string \<Rightarrow> nat" where
  "decimal_value ds = foldl (\<lambda>n c. n * 10 + (of_char c - 48)) 0 ds"

definition lower_uuid :: "string \<Rightarrow> bool" where
  "lower_uuid s \<longleftrightarrow>
     (case js_split (CHR ''-'') s of
        [a, b, c, d, e] \<Rightarrow>
          map length [a, b, c, d, e] = [8, 4, 4, 4, 12] \<and> list_all (list_all hex_digit) [a, b, c, d, e] \<and>
          hd c \<in> set ''12345'' \<and> hd d \<in> set ''89ab''
      | _ \<Rightarrow> False)"

text \<open>The pattern ignores case; the answer is the process and the instance in lower case.\<close>

definition parseLocalWorkerProcessOwnerId :: "string \<Rightarrow> (nat \<times> string) option" where
  "parseLocalWorkerProcessOwnerId ownerId =
     (if ownerId = [] \<or> MAX_IDENTIFIER_CHARS < length ownerId \<or> js_trim ownerId \<noteq> ownerId then None
      else case js_split (CHR '':'') ownerId of
        [scheme, pid, instance_id] \<Rightarrow>
          if js_lower scheme = ''pi-worker'' \<and> pid \<noteq> [] \<and> hd pid \<noteq> CHR ''0'' \<and> list_all decimal_digit pid \<and>
             lower_uuid (js_lower instance_id)
          then if int (decimal_value pid) \<le> MAX_SAFE_INTEGER then Some (decimal_value pid, js_lower instance_id) else None
          else None
      | _ \<Rightarrow> None)"

datatype OwnerLiveness = OwnerLive | OwnerDead | OwnerUnknown

text \<open>The probe answers a boolean or throws.\<close>

definition localWorkerProcessOwnerLiveness :: "string \<Rightarrow> (nat \<Rightarrow> bool option) \<Rightarrow> OwnerLiveness" where
  "localWorkerProcessOwnerLiveness ownerId isProcessAlive =
     (case parseLocalWorkerProcessOwnerId ownerId of
        None \<Rightarrow> OwnerUnknown
      | Some (pid, _) \<Rightarrow>
          (case isProcessAlive pid of None \<Rightarrow> OwnerUnknown | Some True \<Rightarrow> OwnerLive | Some False \<Rightarrow> OwnerDead))"

definition localOwnerId :: "string \<Rightarrow> reservation_error + string" where
  "localOwnerId value =
     bindE (requireBoundedTrimmedText value MAX_IDENTIFIER_CHARS) (\<lambda>ownerId.
     if parseLocalWorkerProcessOwnerId ownerId = None then Inl OwnerInvalid else Inr ownerId)"

section \<open>Canonical paths\<close>

definition canonicalRealOrLexicalPath :: "path_env \<Rightarrow> string \<Rightarrow> reservation_error + string" where
  "canonicalRealOrLexicalPath E value =
     bindE (requireBoundedTrimmedText value MAX_PATH_CHARS) (\<lambda>trimmed.
     let lexical = canonicalPathScopeIdentity E trimmed in
     case safeRealpathSync E lexical of
       Inl e \<Rightarrow> Inl (PathUnresolved e)
     | Inr resolved \<Rightarrow>
         Inr (if pathScopesOverlap E lexical resolved then canonicalPathScopeIdentity E resolved else lexical))"

definition isolation_identity :: "string option \<Rightarrow> reservation_error + string option" where
  "isolation_identity isolated =
     (case isolated of
        Some s \<Rightarrow> if s = [] then Inr None
                  else bindE (requireBoundedTrimmedText s MAX_IDENTIFIER_CHARS) (\<lambda>trimmed. Inr (Some trimmed))
      | None \<Rightarrow> Inr None)"

definition canonicalWorkspace :: "path_env \<Rightarrow> WorkerWriteReservationWorkspace \<Rightarrow> reservation_error + CanonicalWorkspace" where
  "canonicalWorkspace E workspace =
     bindE (canonicalRealOrLexicalPath E (wsp_repositoryRoot workspace)) (\<lambda>repositoryRoot.
     bindE (canonicalRealOrLexicalPath E (wsp_executionRoot workspace)) (\<lambda>executionRoot.
     bindE (isolation_identity (wsp_isolatedWorktreeId workspace)) (\<lambda>isolated.
     let primary = isPathWithinScope E executionRoot repositoryRoot \<and> isPathWithinScope E repositoryRoot executionRoot in
     if primary \<and> isolated \<noteq> None then Inl IsolatedPrimaryRoot
     else if \<not> primary \<and> isolated = None then Inl IsolationIdentityMissing
     else Inr \<lparr>cw_repositoryRoot = repositoryRoot, cw_executionRoot = executionRoot,
               cw_executionIdentity = (if isolated \<noteq> None then ''isolated:'' @ executionRoot else ''shared:'' @ repositoryRoot),
               cw_isolatedWorktreeId = isolated\<rparr>)))"

section \<open>The store file\<close>

definition leaseFromRecord :: "string \<Rightarrow> PersistedReservation \<Rightarrow> WorkerWriteReservationLease" where
  "leaseFromRecord filePath record =
     \<lparr>ls_filePath = filePath, ls_reservationId = rv_reservationId record, ls_parentSessionId = rv_parentSessionId record,
      ls_ownerId = rv_ownerId record, ls_taskId = rv_taskId record, ls_attemptId = rv_attemptId record,
      ls_fencingToken = rv_fencingToken record, ls_repositoryRoot = rv_repositoryRoot record,
      ls_executionRoot = rv_executionRoot record, ls_executionIdentity = rv_executionIdentity record,
      ls_isolatedWorktreeId = rv_isolatedWorktreeId record, ls_writeScopes = rv_writeScopes record\<rparr>"

text \<open>\<open>xs.map(f)\<close> for a function that may throw.\<close>

fun map_each :: "('a \<Rightarrow> 'e + 'b) \<Rightarrow> 'a list \<Rightarrow> 'e + 'b list" where
  "map_each f [] = Inr []"
| "map_each f (x # xs) = bindE (f x) (\<lambda>y. bindE (map_each f xs) (\<lambda>ys. Inr (y # ys)))"

definition parse_isolation :: "string option \<Rightarrow> reservation_error + string option" where
  "parse_isolation isolated =
     (case isolated of
        Some s \<Rightarrow> bindE (requireBoundedTrimmedText s MAX_IDENTIFIER_CHARS) (\<lambda>trimmed. Inr (Some trimmed))
      | None \<Rightarrow> Inr None)"

definition parseReservation :: "string \<Rightarrow> PersistedReservation \<Rightarrow> reservation_error + PersistedReservation" where
  "parseReservation repositoryRoot entry =
     bindE (requireBoundedTrimmedText (rv_repositoryRoot entry) MAX_PATH_CHARS) (\<lambda>root.
     if root \<noteq> repositoryRoot then Inl StoreRootConflict
     else if rv_writeScopes entry = [] \<or> MAX_SCOPES < length (rv_writeScopes entry) then Inl ScopeCountInvalid
     else
       bindE (map_each (\<lambda>s. requireBoundedTrimmedText s MAX_PATH_CHARS) (rv_writeScopes entry)) (\<lambda>writeScopes.
       bindE (parse_isolation (rv_isolatedWorktreeId entry)) (\<lambda>isolated.
       bindE (requireBoundedTrimmedText (rv_reservationId entry) MAX_IDENTIFIER_CHARS) (\<lambda>reservationId.
       bindE (requireBoundedTrimmedText (rv_parentSessionId entry) MAX_IDENTIFIER_CHARS) (\<lambda>parentSessionId.
       bindE (localOwnerId (rv_ownerId entry)) (\<lambda>ownerId.
       bindE (requireBoundedTrimmedText (rv_taskId entry) MAX_IDENTIFIER_CHARS) (\<lambda>taskId.
       bindE (requireBoundedTrimmedText (rv_attemptId entry) MAX_IDENTIFIER_CHARS) (\<lambda>attemptId.
       bindE (positiveFencingToken (rv_fencingToken entry)) (\<lambda>fencingToken.
       bindE (requireBoundedTrimmedText (rv_executionRoot entry) MAX_PATH_CHARS) (\<lambda>executionRoot.
       bindE (requireBoundedTrimmedText (rv_executionIdentity entry) MAX_PATH_CHARS) (\<lambda>executionIdentity.
       bindE (requireBoundedTrimmedText (rv_createdAt entry) MAX_IDENTIFIER_CHARS) (\<lambda>createdAt.
       Inr \<lparr>rv_reservationId = reservationId, rv_parentSessionId = parentSessionId, rv_ownerId = ownerId,
            rv_taskId = taskId, rv_attemptId = attemptId, rv_fencingToken = fencingToken, rv_repositoryRoot = root,
            rv_executionRoot = executionRoot, rv_executionIdentity = executionIdentity,
            rv_isolatedWorktreeId = isolated, rv_writeScopes = writeScopes, rv_createdAt = createdAt\<rparr>))))))))))))"

definition parseStore ::
  "(PersistedReservationStore \<Rightarrow> int) \<Rightarrow> string \<Rightarrow> PersistedReservationStore \<Rightarrow> reservation_error + PersistedReservationStore" where
  "parseStore byte_size repositoryRoot raw =
     (if MAX_FILE_BYTES < byte_size raw then Inl StoreTooLarge
      else if st_schemaVersion raw \<noteq> RESERVATION_SCHEMA_VERSION then Inl StoreSchemaUnsupported
      else
        bindE (requireBoundedTrimmedText (st_repositoryRoot raw) MAX_PATH_CHARS) (\<lambda>root.
        if root \<noteq> repositoryRoot then Inl StoreRootConflict
        else if MAX_RESERVATIONS < length (st_reservations raw) then Inl StoreEntriesInvalid
        else
          bindE (map_each (parseReservation repositoryRoot) (st_reservations raw)) (\<lambda>reservations.
          if \<not> distinct (map rv_reservationId reservations) then Inl StoreDuplicateIds
          else Inr \<lparr>st_schemaVersion = RESERVATION_SCHEMA_VERSION, st_repositoryRoot = repositoryRoot,
                    st_reservations = reservations\<rparr>)))"

definition readLocked :: "reservation_env \<Rightarrow> ReservationWorld \<Rightarrow> string \<Rightarrow> string \<Rightarrow> reservation_error + PersistedReservationStore" where
  "readLocked R w filePath repositoryRoot =
     (case map_of (rw_files w) filePath of
        None \<Rightarrow> Inr \<lparr>st_schemaVersion = RESERVATION_SCHEMA_VERSION, st_repositoryRoot = repositoryRoot, st_reservations = []\<rparr>
      | Some raw \<Rightarrow> if \<not> re_reads R then Inl ReadFailed else parseStore (re_bytes R) repositoryRoot raw)"

definition writeStore ::
  "reservation_env \<Rightarrow> string \<Rightarrow> PersistedReservationStore \<Rightarrow> ReservationWorld \<Rightarrow> reservation_error + ReservationWorld" where
  "writeStore R filePath store w =
     (if MAX_FILE_BYTES < re_bytes R store then Inl StoreTooLarge
      else if \<not> re_writes R then Inl WriteFailed
      else Inr (w\<lparr>rw_files := js_set filePath store (rw_files w)\<rparr>))"

section \<open>Acquiring\<close>

definition reservation_overlaps :: "path_env \<Rightarrow> string \<Rightarrow> string list \<Rightarrow> PersistedReservation \<Rightarrow> bool" where
  "reservation_overlaps E executionIdentity writeScopes reservation \<longleftrightarrow>
     rv_executionIdentity reservation = executionIdentity \<and>
     list_ex (\<lambda>reserved. list_ex (pathScopesOverlap E reserved) writeScopes) (rv_writeScopes reservation)"

definition overlappingReservationIds :: "path_env \<Rightarrow> PersistedReservation list \<Rightarrow> string \<Rightarrow> string list \<Rightarrow> string list" where
  "overlappingReservationIds E reservations executionIdentity writeScopes =
     map rv_reservationId (filter (reservation_overlaps E executionIdentity writeScopes) reservations)"

definition sorted_scopes :: "string list \<Rightarrow> string list" where
  "sorted_scopes scopes = sort_key (map (of_char :: char \<Rightarrow> nat)) (remdups scopes)"

text \<open>The record a request asks for; its identifier and creation time are drawn when it is stored.\<close>

definition requested_record ::
  "path_env \<Rightarrow> WorkerWriteReservationRequest \<Rightarrow> string \<Rightarrow> string \<Rightarrow> reservation_error + PersistedReservation" where
  "requested_record E request freshId createdAt =
     (if wrq_writeScopes request = [] \<or> MAX_SCOPES < length (wrq_writeScopes request) then Inl ScopeCountInvalid
      else
        bindE (canonicalWorkspace E (wrq_workspace request)) (\<lambda>workspace.
        bindE (map_each (canonicalRealOrLexicalPath E) (wrq_writeScopes request)) (\<lambda>scopes.
        let writeScopes = sorted_scopes scopes in
        if \<not> list_all (\<lambda>scope. isPathWithinScope E scope (cw_executionRoot workspace)) writeScopes
        then Inl ScopesOutsideExecutionRoot
        else
          bindE (requireBoundedTrimmedText (wrq_parentSessionId request) MAX_IDENTIFIER_CHARS) (\<lambda>parentSessionId.
          bindE (localOwnerId (wrq_ownerId request)) (\<lambda>ownerId.
          bindE (requireBoundedTrimmedText (wrq_taskId request) MAX_IDENTIFIER_CHARS) (\<lambda>taskId.
          bindE (requireBoundedTrimmedText (wrq_attemptId request) MAX_IDENTIFIER_CHARS) (\<lambda>attemptId.
          bindE (positiveFencingToken (wrq_fencingToken request)) (\<lambda>fencingToken.
          Inr \<lparr>rv_reservationId = freshId, rv_parentSessionId = parentSessionId, rv_ownerId = ownerId,
               rv_taskId = taskId, rv_attemptId = attemptId, rv_fencingToken = fencingToken,
               rv_repositoryRoot = cw_repositoryRoot workspace, rv_executionRoot = cw_executionRoot workspace,
               rv_executionIdentity = cw_executionIdentity workspace,
               rv_isolatedWorktreeId = cw_isolatedWorktreeId workspace, rv_writeScopes = writeScopes,
               rv_createdAt = createdAt\<rparr>)))))))) "

definition same_attempt :: "PersistedReservation \<Rightarrow> PersistedReservation \<Rightarrow> bool" where
  "same_attempt r s \<longleftrightarrow>
     rv_parentSessionId r = rv_parentSessionId s \<and> rv_ownerId r = rv_ownerId s \<and> rv_taskId r = rv_taskId s \<and>
     rv_attemptId r = rv_attemptId s \<and> js_strict_equal (rv_fencingToken r) (rv_fencingToken s)"

definition acquire_locked ::
  "reservation_env \<Rightarrow> string \<Rightarrow> PersistedReservation \<Rightarrow> ReservationWorld \<Rightarrow>
     (reservation_error + WorkerWriteReservationAcquireResult) \<times> ReservationWorld" where
  "acquire_locked R filePath record w =
     (case readLocked R w filePath (rv_repositoryRoot record) of
        Inl e \<Rightarrow> (Inl e, w)
      | Inr store \<Rightarrow>
          (case List.find (\<lambda>r. same_attempt r record) (st_reservations store) of
             Some r \<Rightarrow>
               if rv_executionIdentity r \<noteq> rv_executionIdentity record \<or>
                  rv_isolatedWorktreeId r \<noteq> rv_isolatedWorktreeId record \<or> rv_writeScopes r \<noteq> rv_writeScopes record
               then (Inr (ReservationBlocked AttemptReservationConflict [] []), w)
               else (Inr (ReservationGranted (Some (leaseFromRecord filePath r))), w)
           | None \<Rightarrow>
               let conflicts = overlappingReservationIds (re_paths R) (st_reservations store)
                     (rv_executionIdentity record) (rv_writeScopes record) in
               if conflicts \<noteq> [] then
                 (Inr (ReservationBlocked OverlappingWriteScope conflicts
                    (map (\<lambda>r. \<lparr>rc_lease = leaseFromRecord filePath r, rc_createdAt = rv_createdAt r\<rparr>)
                       (filter (\<lambda>r. rv_reservationId r \<in> set conflicts) (st_reservations store)))), w)
               else if MAX_RESERVATIONS \<le> length (st_reservations store)
               then (Inr (ReservationBlocked ReservationCapacityReached [] []), w)
               else case writeStore R filePath (store\<lparr>st_reservations := st_reservations store @ [record]\<rparr>) w of
                 Inl e \<Rightarrow> (Inl e, w)
               | Inr w' \<Rightarrow> (Inr (ReservationGranted (Some (leaseFromRecord filePath record))), w')))"

definition with_lock ::
  "reservation_env \<Rightarrow> (ReservationWorld \<Rightarrow> (reservation_error + 'a) \<times> ReservationWorld) \<Rightarrow> ReservationWorld \<Rightarrow>
     (reservation_error + 'a) \<times> ReservationWorld" where
  "with_lock R body w = (if re_locks R then body w else (Inl LockUnavailable, w))"

definition acquire ::
  "reservation_env \<Rightarrow> WorkerWriteReservationRequest \<Rightarrow> string \<Rightarrow> string \<Rightarrow> ReservationWorld \<Rightarrow>
     (reservation_error + WorkerWriteReservationAcquireResult) \<times> ReservationWorld" where
  "acquire R request freshId createdAt w =
     (if wrq_access request = ReadReservation then (Inr (ReservationGranted None), w)
      else case requested_record (re_paths R) request freshId createdAt of
        Inl e \<Rightarrow> (Inl e, w)
      | Inr record \<Rightarrow>
          let filePath = re_file R (rv_repositoryRoot record) in with_lock R (acquire_locked R filePath record) w)"

section \<open>Releasing\<close>

definition notifyAvailability :: "string \<Rightarrow> ReservationWorld \<Rightarrow> ReservationWorld" where
  "notifyAvailability filePath w =
     w\<lparr>rw_wakeups := rw_wakeups w @ (case map_of (rw_listeners w) filePath of Some ls \<Rightarrow> ls | None \<Rightarrow> [])\<rparr>"

definition holds_lease :: "string \<Rightarrow> WorkerWriteReservationLease \<Rightarrow> PersistedReservation \<Rightarrow> bool" where
  "holds_lease ownerId lease record \<longleftrightarrow>
     rv_parentSessionId record = ls_parentSessionId lease \<and> rv_ownerId record = ownerId \<and>
     rv_taskId record = ls_taskId lease \<and> rv_attemptId record = ls_attemptId lease \<and>
     js_strict_equal (rv_fencingToken record) (ls_fencingToken lease) \<and>
     rv_executionIdentity record = ls_executionIdentity lease \<and>
     rv_isolatedWorktreeId record = ls_isolatedWorktreeId lease"

definition superseded_by :: "string \<Rightarrow> WorkerWriteReservationLease \<Rightarrow> PersistedReservation \<Rightarrow> bool" where
  "superseded_by ownerId lease record \<longleftrightarrow>
     rv_parentSessionId record = ls_parentSessionId lease \<and> rv_ownerId record = ownerId \<and>
     rv_taskId record = ls_taskId lease \<and> js_lt (ls_fencingToken lease) (rv_fencingToken record)"

text \<open>The first record with the lease's identifier, and the list without it.\<close>

fun take_reservation :: "string \<Rightarrow> PersistedReservation list \<Rightarrow> (PersistedReservation \<times> PersistedReservation list) option" where
  "take_reservation reservationId [] = None"
| "take_reservation reservationId (r # rs) =
     (if rv_reservationId r = reservationId then Some (r, rs)
      else map_option (\<lambda>(x, rest). (x, r # rest)) (take_reservation reservationId rs))"

definition releaseLocked ::
  "reservation_env \<Rightarrow> string \<Rightarrow> string \<Rightarrow> string \<Rightarrow> WorkerWriteReservationLease \<Rightarrow> ReservationWorld \<Rightarrow>
     (reservation_error + WorkerWriteReservationReleaseResult) \<times> ReservationWorld" where
  "releaseLocked R filePath repositoryRoot ownerId lease w =
     (case readLocked R w filePath repositoryRoot of
        Inl e \<Rightarrow> (Inl e, w)
      | Inr store \<Rightarrow>
          (case take_reservation (ls_reservationId lease) (st_reservations store) of
             None \<Rightarrow>
               (Inr (if list_ex (superseded_by ownerId lease) (st_reservations store)
                     then ReservationStaleFence else ReservationNotFound), w)
           | Some (record, rest) \<Rightarrow>
               if \<not> holds_lease ownerId lease record then (Inr ReservationStaleFence, w)
               else case (if rest = [] then if re_writes R then Inr (w\<lparr>rw_files := js_delete filePath (rw_files w)\<rparr>) else Inl WriteFailed
                          else writeStore R filePath (store\<lparr>st_reservations := rest\<rparr>) w) of
                 Inl e \<Rightarrow> (Inl e, w)
               | Inr w' \<Rightarrow> (Inr ReservationReleased, notifyAvailability filePath w')))"

definition release ::
  "reservation_env \<Rightarrow> WorkerWriteReservationLease \<Rightarrow> ReservationWorld \<Rightarrow>
     (reservation_error + WorkerWriteReservationReleaseResult) \<times> ReservationWorld" where
  "release R lease w =
     (case bindE (requireBoundedTrimmedText (ls_repositoryRoot lease) MAX_PATH_CHARS) (\<lambda>repositoryRoot.
           bindE (localOwnerId (ls_ownerId lease)) (\<lambda>ownerId.
           if ls_filePath lease \<noteq> re_file R repositoryRoot then Inl ForeignLease else Inr (repositoryRoot, ownerId))) of
        Inl e \<Rightarrow> (Inl e, w)
      | Inr (repositoryRoot, ownerId) \<Rightarrow>
          with_lock R (releaseLocked R (re_file R repositoryRoot) repositoryRoot ownerId lease) w)"

section \<open>Availability\<close>

definition watchAvailability ::
  "reservation_env \<Rightarrow> WorkerWriteReservationWorkspace \<Rightarrow> nat \<Rightarrow> ReservationWorld \<Rightarrow> (reservation_error + string) \<times> ReservationWorld" where
  "watchAvailability R workspace listener w =
     (case canonicalWorkspace (re_paths R) workspace of
        Inl e \<Rightarrow> (Inl e, w)
      | Inr canonical \<Rightarrow>
          let filePath = re_file R (cw_repositoryRoot canonical);
              ls = (case map_of (rw_listeners w) filePath of Some ls \<Rightarrow> ls | None \<Rightarrow> []) in
          (Inr filePath, w\<lparr>rw_listeners := js_set filePath (if listener \<in> set ls then ls else ls @ [listener]) (rw_listeners w)\<rparr>))"

text \<open>The function it answers, which the caller runs to stop watching.\<close>

definition stop_watching :: "string \<Rightarrow> nat \<Rightarrow> ReservationWorld \<Rightarrow> ReservationWorld" where
  "stop_watching filePath listener w =
     (case map_of (rw_listeners w) filePath of
        None \<Rightarrow> w
      | Some ls \<Rightarrow>
          let rest = filter (\<lambda>l. l \<noteq> listener) ls in
          w\<lparr>rw_listeners := (if rest = [] then js_delete filePath (rw_listeners w) else js_set filePath rest (rw_listeners w))\<rparr>)"

section \<open>Recovery\<close>

datatype EvidenceState = EvidenceLive | EvidenceNotLive | EvidenceUnknown
datatype RecoveryKind = RecoveryActive | RecoveryStale | RecoveryInspection

record RecoveryOutcome =
  ro_kind :: RecoveryKind
  ro_reservationId :: string
  ro_lease :: WorkerWriteReservationLease

definition recovery_kind :: "EvidenceState option \<Rightarrow> RecoveryKind" where
  "recovery_kind state =
     (case state of Some EvidenceLive \<Rightarrow> RecoveryActive | Some EvidenceNotLive \<Rightarrow> RecoveryStale | _ \<Rightarrow> RecoveryInspection)"

definition collect_evidence ::
  "EvidenceState js_record \<Rightarrow> string \<times> EvidenceState \<Rightarrow> reservation_error + EvidenceState js_record" where
  "collect_evidence evidence observation =
     bindE (requireBoundedTrimmedText (fst observation) MAX_IDENTIFIER_CHARS) (\<lambda>reservationId.
     if map_of evidence reservationId \<noteq> None then Inl EvidenceRepeated
     else Inr (js_set reservationId (snd observation) evidence))"

definition recover ::
  "reservation_env \<Rightarrow> WorkerWriteReservationWorkspace \<Rightarrow> (string \<times> EvidenceState) list \<Rightarrow> ReservationWorld \<Rightarrow>
     reservation_error + RecoveryOutcome list" where
  "recover R workspace observations w =
     bindE (canonicalWorkspace (re_paths R) workspace) (\<lambda>canonical.
     let filePath = re_file R (cw_repositoryRoot canonical) in
     bindE (foldE collect_evidence [] observations) (\<lambda>evidence.
     if \<not> re_locks R then Inl LockUnavailable
     else
       bindE (readLocked R w filePath (cw_repositoryRoot canonical)) (\<lambda>store.
       Inr (map (\<lambda>r. \<lparr>ro_kind = recovery_kind (map_of evidence (rv_reservationId r)),
                    ro_reservationId = rv_reservationId r, ro_lease = leaseFromRecord filePath r\<rparr>)
              (filter (\<lambda>r. rv_executionIdentity r = cw_executionIdentity canonical) (st_reservations store))))))"

text \<open>Every workspace with a readable store file; a file that does not parse is skipped.\<close>

definition workspace_of :: "PersistedReservationStore \<Rightarrow> PersistedReservation \<Rightarrow> WorkerWriteReservationWorkspace" where
  "workspace_of store r =
     (case rv_isolatedWorktreeId r of
        Some isolated \<Rightarrow> \<lparr>wsp_repositoryRoot = st_repositoryRoot store, wsp_executionRoot = rv_executionRoot r,
                          wsp_isolatedWorktreeId = Some isolated\<rparr>
      | None \<Rightarrow> \<lparr>wsp_repositoryRoot = st_repositoryRoot store, wsp_executionRoot = st_repositoryRoot store,
                 wsp_isolatedWorktreeId = None\<rparr>)"

definition listWorkspaces :: "reservation_env \<Rightarrow> ReservationWorld \<Rightarrow> WorkerWriteReservationWorkspace list" where
  "listWorkspaces R w =
     js_values (foldl (\<lambda>found raw.
       case if re_reads R then parseStore (re_bytes R) (st_repositoryRoot raw) raw else Inl ReadFailed of
         Inl _ \<Rightarrow> found
       | Inr store \<Rightarrow> foldl (\<lambda>found r. js_set (rv_executionIdentity r) (workspace_of store r) found) found (st_reservations store))
       [] (js_values (rw_files w)))"

end
