(* ===== verification/Reservation_Exclusion.thy ===== *)
theory Reservation_Exclusion
  imports Write_Reservation Symlink_Resolution
begin

text \<open>
  Write reservations exclude each other: in every store that any sequence of operations of any processes can leave,
  no path lies within the write scopes of two reservations of one checkout, as long as no stored scope begins or ends in
  white space. And where the exclusion ends: a scope stored with such an end is read back as another path, and a scope
  that is a symbolic link is reserved under its own name.
\<close>

section \<open>Reading a store back\<close>

text \<open>What the parser leaves as it is: POSIX paths in their resolved form, without outer white space.\<close>

definition tidy_scope :: "string \<Rightarrow> bool" where
  "tidy_scope s \<longleftrightarrow> canonical_segments (path_segments s) \<and> s = abs_path (path_segments s) \<and> js_trim s = s"

definition tidy_record :: "PersistedReservation \<Rightarrow> bool" where
  "tidy_record r \<longleftrightarrow> (\<forall>s \<in> set (rv_writeScopes r). tidy_scope s) \<and> js_trim (rv_executionIdentity r) = rv_executionIdentity r"

lemma bounded_text_Inr: "requireBoundedTrimmedText v n = Inr t \<Longrightarrow> t = js_trim v"
  by (auto simp: requireBoundedTrimmedText_def Let_def split: if_splits)

lemma map_each_Inr: "map_each f xs = Inr ys \<longleftrightarrow> list_all2 (\<lambda>x y. f x = Inr y) xs ys"
  by (induction xs arbitrary: ys) (auto simp: list_all2_Cons1)

lemma map_each_back: "map_each f xs = Inr ys \<Longrightarrow> y \<in> set ys \<Longrightarrow> \<exists>x \<in> set xs. f x = Inr y"
  unfolding map_each_Inr by (induction rule: list_all2_induct) auto

definition same_scopes :: "PersistedReservation \<Rightarrow> PersistedReservation \<Rightarrow> bool" where
  "same_scopes r s \<longleftrightarrow> rv_writeScopes s = rv_writeScopes r \<and> rv_executionIdentity s = rv_executionIdentity r"

lemma parse_tidy:
  assumes "parseReservation base raw = Inr r" and "tidy_record raw"
  shows "same_scopes raw r"
proof -
  from assms(1) have scopes: "map_each (\<lambda>s. requireBoundedTrimmedText s MAX_PATH_CHARS) (rv_writeScopes raw) = Inr (rv_writeScopes r)"
    and identity: "requireBoundedTrimmedText (rv_executionIdentity raw) MAX_PATH_CHARS = Inr (rv_executionIdentity r)"
    by (auto simp: parseReservation_def split: if_split_asm)
  from scopes have "list_all2 (\<lambda>s t. t = js_trim s) (rv_writeScopes raw) (rv_writeScopes r)"
    unfolding map_each_Inr by (rule list_all2_mono) (rule bounded_text_Inr)
  then have "rv_writeScopes r = map js_trim (rv_writeScopes raw)"
    by (simp add: list_all2_conv_all_nth list_eq_iff_nth_eq)
  moreover have "map js_trim (rv_writeScopes raw) = rv_writeScopes raw"
    using assms(2) by (simp add: tidy_record_def tidy_scope_def map_idI)
  ultimately show ?thesis using bounded_text_Inr [OF identity] assms(2) by (simp add: same_scopes_def tidy_record_def)
qed

lemma same_scopes_tidy: "same_scopes r s \<Longrightarrow> tidy_record s \<longleftrightarrow> tidy_record r"
  by (simp add: same_scopes_def tidy_record_def)

section \<open>Exclusion\<close>

definition exclusive :: "PersistedReservation \<Rightarrow> PersistedReservation \<Rightarrow> bool" where
  "exclusive r s \<longleftrightarrow> (rv_executionIdentity r = rv_executionIdentity s \<longrightarrow>
     (\<forall>a \<in> set (rv_writeScopes r). \<forall>b \<in> set (rv_writeScopes s).
        \<not> prefix (path_segments a) (path_segments b) \<and> \<not> prefix (path_segments b) (path_segments a)))"

definition reservations_exclusive :: "PersistedReservation list \<Rightarrow> bool" where
  "reservations_exclusive rs \<longleftrightarrow> (\<forall>r \<in> set rs. tidy_record r) \<and> sorted_wrt exclusive rs"

definition files_exclusive :: "ReservationWorld \<Rightarrow> bool" where
  "files_exclusive w \<longleftrightarrow> (\<forall>f s. map_of (rw_files w) f = Some s \<longrightarrow> reservations_exclusive (st_reservations s))"

lemma same_scopes_exclusive:
  "same_scopes r r' \<Longrightarrow> same_scopes s s' \<Longrightarrow> exclusive r' s' \<longleftrightarrow> exclusive r s"
  by (simp add: same_scopes_def exclusive_def)

lemma reservations_parsed:
  assumes "list_all2 same_scopes raws rs" and "reservations_exclusive raws"
  shows "reservations_exclusive rs"
  using assms
proof (induction raws rs rule: list_all2_induct)
  case (Cons r raws s rs)
  have "exclusive s t" if "t \<in> set rs" for t
  proof -
    from that Cons.hyps(2) obtain u where "u \<in> set raws" "same_scopes u t"
      by (metis in_set_conv_nth list_all2_conv_all_nth)
    with Cons.prems Cons.hyps(1) same_scopes_exclusive show ?thesis by (fastforce simp: reservations_exclusive_def)
  qed
  with Cons same_scopes_tidy [OF Cons.hyps(1)] show ?case by (auto simp: reservations_exclusive_def)
qed (simp add: reservations_exclusive_def)

lemma read_exclusive:
  assumes "readLocked R w f base = Inr store" and "files_exclusive w"
  shows "reservations_exclusive (st_reservations store)"
proof (cases "map_of (rw_files w) f")
  case None
  with assms(1) show ?thesis by (auto simp: readLocked_def reservations_exclusive_def)
next
  case (Some raw)
  with assms(2) have raw: "reservations_exclusive (st_reservations raw)" by (auto simp: files_exclusive_def)
  from Some assms(1) have "map_each (parseReservation base) (st_reservations raw) = Inr (st_reservations store)"
    by (auto simp: readLocked_def parseStore_def split: if_split_asm)
  then have "list_all2 (\<lambda>x y. parseReservation base x = Inr y) (st_reservations raw) (st_reservations store)"
    by (simp add: map_each_Inr)
  then have "list_all2 same_scopes (st_reservations raw) (st_reservations store)"
    using raw by (auto simp: list_all2_conv_all_nth reservations_exclusive_def intro!: parse_tidy)
  with raw show ?thesis by (rule reservations_parsed [rotated])
qed

lemma write_files:
  assumes "writeStore R f store w = Inr w'" and "files_exclusive w" and "reservations_exclusive (st_reservations store)"
  shows "files_exclusive w'"
  using assms by (auto simp: writeStore_def files_exclusive_def split: if_split_asm)

lemma overlap_tidy:
  assumes "posix_isAbsolute (pe_cwd E)" and "tidy_scope a" "tidy_scope b"
  shows "pathScopesOverlap E a b \<longleftrightarrow> prefix (path_segments a) (path_segments b) \<or> prefix (path_segments b) (path_segments a)"
proof -
  from assms(2,3) obtain p q where "canonical_segments p" "a = abs_path p" "canonical_segments q" "b = abs_path q"
    by (metis tidy_scope_def)
  with within_abs [OF assms(1)] canonical_plain show ?thesis by (auto simp: pathScopesOverlap_def)
qed

lemma acquired_exclusive:
  assumes "acquire_locked R f entry w = (r, w')" and "files_exclusive w" and "tidy_record entry"
    and cwd: "posix_isAbsolute (pe_cwd (re_paths R))"
  shows "files_exclusive w'"
proof (cases "w' = w")
  case False
  with assms(1) obtain store where store: "readLocked R w f (rv_repositoryRoot entry) = Inr store"
    and none: "overlappingReservationIds (re_paths R) (st_reservations store) (rv_executionIdentity entry) (rv_writeScopes entry) = []"
    and wrote: "writeStore R f (store\<lparr>st_reservations := st_reservations store @ [entry]\<rparr>) w = Inr w'"
    by (auto simp: acquire_locked_def Let_def split: sum.split_asm option.split_asm if_split_asm)
  note old = read_exclusive [OF store assms(2)]
  have "exclusive s entry" if "s \<in> set (st_reservations store)" for s
  proof -
    from none that have "\<not> reservation_overlaps (re_paths R) (rv_executionIdentity entry) (rv_writeScopes entry) s"
      by (auto simp: overlappingReservationIds_def filter_empty_conv)
    with overlap_tidy [OF cwd] old that assms(3) show ?thesis
      by (auto simp: reservation_overlaps_def list_ex_iff exclusive_def reservations_exclusive_def tidy_record_def)
  qed
  with old assms(3) have "reservations_exclusive (st_reservations store @ [entry])"
    by (auto simp: reservations_exclusive_def sorted_wrt_append)
  with write_files [OF wrote assms(2)] show ?thesis by simp
qed (use assms(2) in simp)

lemma take_reservation_split:
  "take_reservation i rs = Some (r, rest) \<Longrightarrow> \<exists>xs ys. rs = xs @ r # ys \<and> rest = xs @ ys \<and> rv_reservationId r = i"
proof (induction rs arbitrary: rest)
  case (Cons x rs)
  show ?case
  proof (cases "rv_reservationId x = i")
    case True
    with Cons.prems show ?thesis by (auto intro: exI [of _ "[]"])
  next
    case False
    with Cons.prems obtain rest' where "take_reservation i rs = Some (r, rest')" "rest = x # rest'" by auto
    with Cons.IH obtain xs ys where "rs = xs @ r # ys" "rest' = xs @ ys" "rv_reservationId r = i" by blast
    with \<open>rest = x # rest'\<close> show ?thesis by (auto intro: exI [of _ "x # xs"])
  qed
qed simp

text \<open>A release changes the files only for a lease that matches the stored entry in every field of its fence.\<close>

lemma release_steps:
  assumes "releaseLocked R f base ownerId lease w = (r, w')" and "rw_files w' \<noteq> rw_files w"
  obtains store xs entry ys where "readLocked R w f base = Inr store" and "st_reservations store = xs @ entry # ys"
    and "rv_reservationId entry = ls_reservationId lease" and "holds_lease ownerId lease entry"
    and "r = Inr ReservationReleased"
    and "rw_files w' = js_delete f (rw_files w) \<or>
      (\<exists>v. writeStore R f (store\<lparr>st_reservations := xs @ ys\<rparr>) w = Inr v \<and> rw_files w' = rw_files v)"
proof -
  from assms obtain store entry rest where store: "readLocked R w f base = Inr store"
    and take: "take_reservation (ls_reservationId lease) (st_reservations store) = Some (entry, rest)"
    and holds: "holds_lease ownerId lease entry" and r: "r = Inr ReservationReleased"
    and files: "rw_files w' = js_delete f (rw_files w) \<or>
      (\<exists>v. writeStore R f (store\<lparr>st_reservations := rest\<rparr>) w = Inr v \<and> rw_files w' = rw_files v)"
    by (auto simp: releaseLocked_def notifyAvailability_def split: sum.split_asm option.split_asm if_split_asm)
  from take_reservation_split [OF take] that store holds r files show thesis by blast
qed

lemma delete_exclusive: "files_exclusive w \<Longrightarrow> rw_files w' = js_delete f (rw_files w) \<Longrightarrow> files_exclusive w'"
  by (auto simp: files_exclusive_def)

lemma released_exclusive:
  assumes "releaseLocked R f base ownerId lease w = (r, w')" and "files_exclusive w"
  shows "files_exclusive w'"
proof (cases "rw_files w' = rw_files w")
  case False
  from release_steps [OF assms(1) False] obtain store xs entry ys where store: "readLocked R w f base = Inr store"
    and split: "st_reservations store = xs @ entry # ys"
    and files: "rw_files w' = js_delete f (rw_files w) \<or>
      (\<exists>v. writeStore R f (store\<lparr>st_reservations := xs @ ys\<rparr>) w = Inr v \<and> rw_files w' = rw_files v)" by metis
  from read_exclusive [OF store assms(2)] split have "reservations_exclusive (xs @ ys)"
    by (auto simp: reservations_exclusive_def sorted_wrt_append)
  with files write_files [of R f "store\<lparr>st_reservations := xs @ ys\<rparr>" w] assms(2) delete_exclusive show ?thesis
    by (force simp: files_exclusive_def)
qed (use assms(2) in \<open>simp add: files_exclusive_def\<close>)

section \<open>The stored form of a scope\<close>

text \<open>A POSIX host: an absolute working directory, and \<open>realpath\<close> answers absolute paths without \<open>.\<close>, \<open>..\<close> or empty names.\<close>

definition posix_host :: "path_env \<Rightarrow> bool" where
  "posix_host E \<longleftrightarrow> posix_isAbsolute (pe_cwd E) \<and>
     (\<forall>p r. fs_realpath (pe_fs E) p = Some r \<longrightarrow> (\<exists>q. canonical_segments q \<and> r = abs_path q))"

lemma resolveSafely_stays_posix:
  assumes "posix_host E"
  shows "canonical_segments segs \<Longrightarrow> resolveSafely (pe_fs E) (pe_cwd E) (abs_path segs) hops = Inr r \<Longrightarrow>
    \<exists>q. canonical_segments q \<and> r = abs_path q"
proof (induction "Suc MAX_SYMLINK_HOPS - hops" arbitrary: segs hops r rule: less_induct)
  case less
  from assms have cwd: "posix_isAbsolute (pe_cwd E)" and host: "\<And>p r. fs_realpath (pe_fs E) p = Some r \<Longrightarrow>
      \<exists>q. canonical_segments q \<and> r = abs_path q" by (auto simp: posix_host_def)
  have "Suc MAX_SYMLINK_HOPS - (hops + 1) < Suc MAX_SYMLINK_HOPS - hops" using resolveSafely_Inr(1) [OF less.prems(2)] by simp
  note IH = less.hyps [OF this]
  have up: "\<exists>q. canonical_segments q \<and> r = abs_path q"
    if "resolveSafely (pe_fs E) (pe_cwd E) (posix_dirname (abs_path segs)) (hops + 1) = Inr r" for r
  proof (cases segs rule: rev_cases)
    case Nil
    with that IH [of "[]" r] show ?thesis by simp
  next
    case (snoc ds s)
    with that IH [of ds r] less.prems(1) dirname_abs [of ds s] show ?thesis by simp
  qed
  from resolveSafely_Inr(2) [OF less.prems(2)] show ?case
  proof (elim disjE conjE exE)
    fix t rp assume rp: "resolveSafely (pe_fs E) (pe_cwd E) (posix_dirname (abs_path segs)) (hops + 1) = Inr rp"
      and r: "resolveSafely (pe_fs E) (pe_cwd E)
        (if posix_isAbsolute t then posix_resolve (pe_cwd E) [t] else posix_resolve (pe_cwd E) [rp, t]) (hops + 1) = Inr r"
    from up [OF rp] obtain d where d: "canonical_segments d" "rp = abs_path d" by blast
    have "canonical_segments (norm_segments False [] (d @ path_segments t))"
      using d(1) path_segments_plain [of t] by (intro norm_canonical) (auto simp: plain_segments_def canonical_segments_def)
    with r d IH [of "norm_segments False [] (d @ path_segments t)" r] IH [of "resolved_segments (pe_cwd E) t" r] show ?thesis
      by (simp add: resolve_from posix_resolve_segments [OF cwd] split: if_split_asm)
  next
    fix rp assume top: "posix_dirname (abs_path segs) \<noteq> abs_path segs" and
      rp: "resolveSafely (pe_fs E) (pe_cwd E) (posix_dirname (abs_path segs)) (hops + 1) = Inr rp"
      and r: "r = posix_join [rp, posix_basename (abs_path segs)]"
    from top obtain ds s where segs: "segs = ds @ [s]" by (cases segs rule: rev_cases) auto
    from up [OF rp] obtain d where "canonical_segments d" "rp = abs_path d" by blast
    with r segs less.prems(1) join_abs [of d s] show ?thesis by (intro exI [of _ "d @ [s]"]) (simp add: basename_abs)
  qed (use host less.prems(1) in blast)+
qed

lemma safe_stays_posix: "posix_host E \<Longrightarrow> safeRealpathSync E p = Inr r \<Longrightarrow> \<exists>q. canonical_segments q \<and> r = abs_path q"
  using resolveSafely_stays_posix [OF _ resolved_canonical]
  by (auto simp: posix_host_def safeRealpathSync_def posix_resolve_segments)

lemma identity_posix:
  "posix_isAbsolute (pe_cwd E) \<Longrightarrow> \<not> usesWindowsPath p \<Longrightarrow> canonicalPathScopeIdentity E p = abs_path (resolved_segments (pe_cwd E) p)"
  by (simp add: canonicalPathScopeIdentity_def canonicalPathScopeIdentityWithApi_def win32_selected_def posix_api_def posix_resolve_segments)

lemma canonical_pathE:
  assumes "canonicalRealOrLexicalPath E v = Inr s"
  obtains r where "safeRealpathSync E (canonicalPathScopeIdentity E (js_trim v)) = Inr r"
    and "s = (if pathScopesOverlap E (canonicalPathScopeIdentity E (js_trim v)) r then canonicalPathScopeIdentity E r
      else canonicalPathScopeIdentity E (js_trim v))"
proof -
  from assms obtain t where t: "requireBoundedTrimmedText v MAX_PATH_CHARS = Inr t"
    and "(case safeRealpathSync E (canonicalPathScopeIdentity E t) of Inl e \<Rightarrow> Inl (PathUnresolved e)
      | Inr r \<Rightarrow> Inr (if pathScopesOverlap E (canonicalPathScopeIdentity E t) r then canonicalPathScopeIdentity E r
          else canonicalPathScopeIdentity E t)) = Inr s"
    by (auto simp: canonicalRealOrLexicalPath_def Let_def bindE_eq_Inr)
  with that bounded_text_Inr [OF t] show thesis by (auto split: sum.split_asm)
qed

lemma canonical_scope:
  assumes "canonicalRealOrLexicalPath E v = Inr s" and "posix_host E" and "\<not> usesWindowsPath (js_trim v)"
  shows "\<exists>q. canonical_segments q \<and> s = abs_path q"
proof -
  have cwd: "posix_isAbsolute (pe_cwd E)" using assms(2) by (simp add: posix_host_def)
  from assms(1) obtain r where r: "safeRealpathSync E (canonicalPathScopeIdentity E (js_trim v)) = Inr r"
    and s: "s = canonicalPathScopeIdentity E r \<or> s = canonicalPathScopeIdentity E (js_trim v)"
    by (rule canonical_pathE) (simp split: if_split_asm)
  from safe_stays_posix [OF assms(2) r] obtain q where "canonical_segments q" "r = abs_path q" by blast
  with s identity_posix [OF cwd assms(3)] identity_posix [OF cwd abs_path_native] show ?thesis
    by (auto simp: resolved_abs intro: resolved_canonical)
qed

text \<open>
  What is left to ask of a record: that trimming changes none of its texts. The code does not see to it: a scope is
  trimmed before it is resolved and not after.
\<close>

definition trims_to_itself :: "PersistedReservation \<Rightarrow> bool" where
  "trims_to_itself r \<longleftrightarrow> (\<forall>s \<in> set (rv_writeScopes r). js_trim s = s) \<and> js_trim (rv_executionIdentity r) = rv_executionIdentity r"

definition posix_request :: "WorkerWriteReservationRequest \<Rightarrow> bool" where
  "posix_request request \<longleftrightarrow> (\<forall>s \<in> set (wrq_writeScopes request). \<not> usesWindowsPath (js_trim s))"

lemma requested_tidy:
  assumes "requested_record E request freshId createdAt = Inr entry" and "posix_host E" and "posix_request request"
    and "trims_to_itself entry"
  shows "tidy_record entry"
proof -
  from assms(1) obtain scopes where scopes: "map_each (canonicalRealOrLexicalPath E) (wrq_writeScopes request) = Inr scopes"
    and entry: "set (rv_writeScopes entry) = set scopes"
    by (auto simp: requested_record_def Let_def sorted_scopes_def split: if_split_asm)
  have "\<exists>q. canonical_segments q \<and> s = abs_path q" if "s \<in> set (rv_writeScopes entry)" for s
  proof -
    from that entry scopes obtain v where "v \<in> set (wrq_writeScopes request)" "canonicalRealOrLexicalPath E v = Inr s"
      using map_each_back by metis
    with canonical_scope [of E v s] assms(2,3) show ?thesis by (auto simp: posix_request_def)
  qed
  then have "canonical_segments (path_segments s) \<and> s = abs_path (path_segments s)" if "s \<in> set (rv_writeScopes entry)" for s
    using that canonical_plain by fastforce
  with assms(4) show ?thesis by (simp add: tidy_record_def tidy_scope_def trims_to_itself_def)
qed

section \<open>Reachable stores\<close>

text \<open>
  Any process, with any environment of its own on a POSIX host, may take any step; what it asks to have stored is left
  as it is by trimming.
\<close>

inductive reservation_step :: "ReservationWorld \<Rightarrow> ReservationWorld \<Rightarrow> bool" where
  step_acquire: "acquire R request freshId createdAt w = (r, w') \<Longrightarrow> posix_host (re_paths R) \<Longrightarrow> posix_request request \<Longrightarrow>
    \<forall>entry. requested_record (re_paths R) request freshId createdAt = Inr entry \<longrightarrow> trims_to_itself entry \<Longrightarrow>
    reservation_step w w'"
| step_release: "release R lease w = (r, w') \<Longrightarrow> reservation_step w w'"
| step_watch: "watchAvailability R workspace listener w = (r, w') \<Longrightarrow> reservation_step w w'"
| step_stop: "reservation_step w (stop_watching f listener w)"

inductive reservation_reached :: "ReservationWorld \<Rightarrow> bool" where
  reached_empty: "rw_files w = [] \<Longrightarrow> reservation_reached w"
| reached_step: "reservation_reached w \<Longrightarrow> reservation_step w w' \<Longrightarrow> reservation_reached w'"

lemma same_files: "rw_files w' = rw_files w \<Longrightarrow> files_exclusive w' = files_exclusive w"
  by (simp add: files_exclusive_def)

lemma step_exclusive: "reservation_step w w' \<Longrightarrow> files_exclusive w \<Longrightarrow> files_exclusive w'"
proof (induction rule: reservation_step.induct)
  case (step_acquire R request freshId createdAt w r w')
  show ?case
  proof (cases "w' = w")
    case False
    with step_acquire.hyps(1) obtain entry where "requested_record (re_paths R) request freshId createdAt = Inr entry"
      and locked: "acquire_locked R (re_file R (rv_repositoryRoot entry)) entry w = (r, w')"
      by (auto simp: acquire_def with_lock_def Let_def split: if_split_asm sum.split_asm)
    with step_acquire.hyps(4) requested_tidy [OF _ step_acquire.hyps(2,3)] have "tidy_record entry" by blast
    with acquired_exclusive [OF locked step_acquire.prems] step_acquire.hyps(2) show ?thesis by (simp add: posix_host_def)
  qed (use step_acquire.prems in simp)
next
  case (step_release R lease w r w')
  show ?case
  proof (cases "w' = w")
    case False
    with step_release.hyps obtain f base ownerId where "releaseLocked R f base ownerId lease w = (r, w')"
      by (auto simp: release_def with_lock_def split: if_split_asm sum.split_asm)
    with step_release.prems show ?thesis by (rule released_exclusive [rotated])
  qed (use step_release.prems in simp)
next
  case (step_watch R workspace listener w r w')
  from step_watch.hyps have "rw_files w' = rw_files w"
    by (auto simp: watchAvailability_def Let_def split: sum.split_asm)
  from same_files [OF this] step_watch.prems show ?case by simp
next
  case (step_stop w f listener)
  have "rw_files (stop_watching f listener w) = rw_files w" by (simp add: stop_watching_def Let_def split: option.split)
  from same_files [OF this] step_stop show ?case by simp
qed

lemma reached_exclusive: "reservation_reached w \<Longrightarrow> files_exclusive w"
proof (induction rule: reservation_reached.induct)
  case (reached_step w w')
  from step_exclusive [OF reached_step.hyps(2) reached_step.IH] show ?case .
qed (simp add: files_exclusive_def)

text \<open>
  C38: concurrent writers are kept apart, as long as every scope that is stored begins and ends without white space. In
  every store that acquisitions and releases of any processes, each with its own environment on a POSIX host, can leave
  under that condition, which the code does not enforce, no path lies within the write scopes of two reservations of the
  same checkout; and a release changes the files only when its lease names a stored reservation and matches it in session, owner, task,
  attempt, fencing token, checkout and isolation.
\<close>

theorem write_reservations_exclusive:
  assumes "reservation_reached w" and "map_of (rw_files w) f = Some store"
    and "i < j" and "j < length (st_reservations store)"
    and "rv_executionIdentity (st_reservations store ! i) = rv_executionIdentity (st_reservations store ! j)"
    and "a \<in> set (rv_writeScopes (st_reservations store ! i))" and "b \<in> set (rv_writeScopes (st_reservations store ! j))"
    and "posix_isAbsolute (pe_cwd E)" and "\<not> usesWindowsPath target"
  shows "\<not> (isPathWithinScope E target a \<and> isPathWithinScope E target b) \<and>
    (\<forall>R lease r w'. release R lease w = (r, w') \<and> rw_files w' \<noteq> rw_files w \<longrightarrow>
       r = Inr ReservationReleased \<and>
       (\<exists>s entry. readLocked R w (ls_filePath lease) (js_trim (ls_repositoryRoot lease)) = Inr s \<and>
          entry \<in> set (st_reservations s) \<and> rv_reservationId entry = ls_reservationId lease \<and>
          holds_lease (js_trim (ls_ownerId lease)) lease entry))"
proof -
  let ?r = "st_reservations store ! i" and ?s = "st_reservations store ! j"
  from reached_exclusive [OF assms(1)] assms(2) have ok: "reservations_exclusive (st_reservations store)"
    by (auto simp: files_exclusive_def)
  with assms(3,4) have "tidy_record ?r" "tidy_record ?s" "exclusive ?r ?s"
    by (auto simp: reservations_exclusive_def sorted_wrt_iff_nth_less)
  with assms(5-7) obtain p q where p: "canonical_segments p" "a = abs_path p" and q: "canonical_segments q" "b = abs_path q"
    and apart: "\<not> prefix p q" "\<not> prefix q p"
    by (fastforce simp: tidy_record_def tidy_scope_def exclusive_def)
  have "\<not> (prefix p t \<and> prefix q t)" for t using apart prefix_same_cases by blast
  then have outside: "\<not> (isPathWithinScope E target a \<and> isPathWithinScope E target b)"
    using containment_is_prefix [OF assms(8,9)] p q by (simp add: abs_path_native resolved_abs)
  have fenced: "r = Inr ReservationReleased \<and>
       (\<exists>s entry. readLocked R w (ls_filePath lease) (js_trim (ls_repositoryRoot lease)) = Inr s \<and>
          entry \<in> set (st_reservations s) \<and> rv_reservationId entry = ls_reservationId lease \<and>
          holds_lease (js_trim (ls_ownerId lease)) lease entry)"
    if run: "release R lease w = (r, w')" and changed: "rw_files w' \<noteq> rw_files w" for R lease r w'
  proof -
    from run changed obtain base ownerId where
      base: "requireBoundedTrimmedText (ls_repositoryRoot lease) MAX_PATH_CHARS = Inr base"
      and owner: "localOwnerId (ls_ownerId lease) = Inr ownerId" and path: "ls_filePath lease = re_file R base"
      and locked: "releaseLocked R (re_file R base) base ownerId lease w = (r, w')"
      by (auto simp: release_def with_lock_def split: if_split_asm sum.split_asm)
    from owner have "ownerId = js_trim (ls_ownerId lease)"
      by (auto simp: localOwnerId_def split: if_split_asm dest: bounded_text_Inr)
    with release_steps [OF locked changed] bounded_text_Inr [OF base] path show ?thesis by (metis in_set_conv_decomp)
  qed
  from outside fenced show ?thesis by blast
qed

section \<open>Two workers of a sample checkout\<close>

text \<open>A checkout without symbolic links, all of whose paths exist.\<close>

definition plain_paths :: path_env where
  "plain_paths = \<lparr>pe_cwd = ''/w'', pe_win32 = posix_api ''/w'',
     pe_fs = \<lparr>fs_exists = (\<lambda>_. True), fs_realpath = (\<lambda>p. Some (abs_path (norm_segments False [] (path_segments p)))),
       fs_lstat = (\<lambda>_. None), fs_readlink = (\<lambda>_. None)\<rparr>\<rparr>"

lemma plain_host: "posix_host plain_paths"
  using path_segments_plain
  by (auto simp: posix_host_def plain_paths_def posix_isAbsolute_def plain_segments_def intro!: exI norm_canonical)

definition sample_reservation_env :: "path_env \<Rightarrow> reservation_env" where
  "sample_reservation_env E = \<lparr>re_paths = E, re_file = (\<lambda>p. ''/s'' @ p), re_bytes = (\<lambda>_. 100),
     re_locks = True, re_reads = True, re_writes = True\<rparr>"

definition sample_request :: "string \<Rightarrow> string \<Rightarrow> WorkerWriteReservationRequest" where
  "sample_request taskId scope =
     \<lparr>wrq_parentSessionId = ''s'', wrq_ownerId = ''pi-worker:7:01234567-0123-4123-8123-0123456789ab'', wrq_taskId = taskId,
      wrq_attemptId = ''a'', wrq_fencingToken = Fin 1, wrq_access = WriteReservation,
      wrq_workspace = \<lparr>wsp_repositoryRoot = ''/w'', wsp_executionRoot = ''/w'', wsp_isolatedWorktreeId = None\<rparr>,
      wrq_writeScopes = [scope]\<rparr>"

definition no_reservations :: ReservationWorld where
  "no_reservations = \<lparr>rw_files = [], rw_listeners = [], rw_wakeups = []\<rparr>"

definition sample_acquire :: "path_env \<Rightarrow> string \<Rightarrow> string \<Rightarrow> ReservationWorld \<Rightarrow>
    (reservation_error + WorkerWriteReservationAcquireResult) \<times> ReservationWorld" where
  "sample_acquire E taskId scope = acquire (sample_reservation_env E) (sample_request taskId scope) taskId ''now''"

definition acquired :: "reservation_error + WorkerWriteReservationAcquireResult \<Rightarrow> string list option" where
  "acquired r = (case r of Inr (ReservationGranted (Some lease)) \<Rightarrow> Some (ls_writeScopes lease) | _ \<Rightarrow> None)"

definition sample_world :: ReservationWorld where
  "sample_world = snd (sample_acquire plain_paths ''t2'' ''b'' (snd (sample_acquire plain_paths ''t1'' ''a'' no_reservations)))"

lemma sample_stored:
  "case map_of (rw_files sample_world) ''/s/w'' of None \<Rightarrow> False | Some s \<Rightarrow>
     map rv_writeScopes (st_reservations s) = [[''/w/a''], [''/w/b'']] \<and>
     map rv_executionIdentity (st_reservations s) = [''shared:/w'', ''shared:/w'']"
  by code_simp

definition sample_is_tidy :: "string \<Rightarrow> string \<Rightarrow> bool" where
  "sample_is_tidy t p = (case requested_record plain_paths (sample_request t p) t ''now'' of
     Inr entry \<Rightarrow> trims_to_itself entry | Inl _ \<Rightarrow> True)"

lemma sample_tidy: "sample_is_tidy ''t1'' ''a''" "sample_is_tidy ''t2'' ''b''" "\<not> usesWindowsPath (js_trim ''a'')" "\<not> usesWindowsPath (js_trim ''b'')"
  by code_simp+

lemma sample_step:
  assumes "sample_is_tidy t p" and "\<not> usesWindowsPath (js_trim p)"
  shows "reservation_step w (snd (sample_acquire plain_paths t p w))"
proof (rule step_acquire)
  show "acquire (sample_reservation_env plain_paths) (sample_request t p) t ''now'' w =
      (fst (sample_acquire plain_paths t p w), snd (sample_acquire plain_paths t p w))"
    by (simp add: sample_acquire_def)
  show "posix_host (re_paths (sample_reservation_env plain_paths))"
    using plain_host by (simp add: sample_reservation_env_def)
  show "posix_request (sample_request t p)" using assms(2) by (simp add: posix_request_def sample_request_def)
  show "\<forall>entry. requested_record (re_paths (sample_reservation_env plain_paths)) (sample_request t p) t ''now'' = Inr entry \<longrightarrow>
      trims_to_itself entry" using assms(1) by (simp add: sample_is_tidy_def sample_reservation_env_def split: sum.split_asm)
qed

lemma sample_reached: "reservation_reached sample_world"
  unfolding sample_world_def
  by (intro reached_step [OF _ sample_step] reached_empty sample_tidy) (simp add: no_reservations_def)

lemma write_reservations_exclusive_witness:
  "\<exists>store. map_of (rw_files sample_world) ''/s/w'' = Some store \<and> length (st_reservations store) = 2 \<and>
     isPathWithinScope plain_paths ''/w/a/c'' ''/w/a'' \<and>
     \<not> isPathWithinScope plain_paths ''/w/a/c'' ''/w/b''"
proof -
  obtain store where store: "map_of (rw_files sample_world) ''/s/w'' = Some store"
    and scopes: "map rv_writeScopes (st_reservations store) = [[''/w/a''], [''/w/b'']]"
    and identity: "map rv_executionIdentity (st_reservations store) = [''shared:/w'', ''shared:/w'']"
    using sample_stored by (auto split: option.splits)
  from scopes have two: "length (st_reservations store) = 2" by (metis length_map length_Cons list.size(3) Suc_1 One_nat_def)
  with scopes identity have "rv_writeScopes (st_reservations store ! 0) = [''/w/a'']" "rv_writeScopes (st_reservations store ! 1) = [''/w/b'']"
    "rv_executionIdentity (st_reservations store ! 0) = rv_executionIdentity (st_reservations store ! 1)"
    by (auto simp: numeral_2_eq_2 length_Suc_conv)
  moreover have "isPathWithinScope plain_paths ''/w/a/c'' ''/w/a''" "\<not> usesWindowsPath ''/w/a/c''" by code_simp+
  ultimately show ?thesis
    using write_reservations_exclusive [OF sample_reached store, of 0 1 "''/w/a''" "''/w/b''" plain_paths "''/w/a/c''"]
      store two by (simp add: plain_paths_def posix_isAbsolute_def)
qed

text \<open>
  Without that condition the exclusion fails. The scope \<open>a /.\<close> is stored as \<open>/w/a \<close> beside \<open>/w/a\<close>; the next acquisition reads
  it trimmed, and writes the file back with \<open>/w/a\<close> reserved by two tasks.
\<close>

definition spaced_record :: "string \<Rightarrow> string \<Rightarrow> PersistedReservation" where
  "spaced_record t p = \<lparr>rv_reservationId = t, rv_parentSessionId = ''s'', rv_ownerId = ''pi-worker:7:01234567-0123-4123-8123-0123456789ab'',
     rv_taskId = t, rv_attemptId = ''a'', rv_fencingToken = Fin 1, rv_repositoryRoot = ''/w'', rv_executionRoot = ''/w'',
     rv_executionIdentity = ''shared:/w'', rv_isolatedWorktreeId = None, rv_writeScopes = [p], rv_createdAt = ''now''\<rparr>"

definition spaced_world :: "PersistedReservation list \<Rightarrow> ReservationWorld" where
  "spaced_world rs = \<lparr>rw_files = [(''/s/w'', \<lparr>st_schemaVersion = 1, st_repositoryRoot = ''/w'', st_reservations = rs\<rparr>)],
     rw_listeners = [], rw_wakeups = []\<rparr>"

lemma spaced_steps:
  "snd (sample_acquire plain_paths ''t1'' ''a'' no_reservations) = spaced_world [spaced_record ''t1'' ''/w/a'']"
  "snd (sample_acquire plain_paths ''t2'' ''a /.'' (spaced_world [spaced_record ''t1'' ''/w/a''])) =
     spaced_world [spaced_record ''t1'' ''/w/a'', spaced_record ''t2'' ''/w/a '']"
  "snd (sample_acquire plain_paths ''t3'' ''c'' (spaced_world [spaced_record ''t1'' ''/w/a'', spaced_record ''t2'' ''/w/a ''])) =
     spaced_world [spaced_record ''t1'' ''/w/a'', spaced_record ''t2'' ''/w/a'', spaced_record ''t3'' ''/w/c'']"
  by code_simp+

lemma trailing_space_reserved_twice:
  "snd (sample_acquire plain_paths ''t3'' ''c'' (snd (sample_acquire plain_paths ''t2'' ''a /.''
     (snd (sample_acquire plain_paths ''t1'' ''a'' no_reservations))))) =
   spaced_world [spaced_record ''t1'' ''/w/a'', spaced_record ''t2'' ''/w/a'', spaced_record ''t3'' ''/w/c'']"
  by (simp only: spaced_steps)

section \<open>A scope under another name\<close>

definition alias_tree :: fs_tree where
  "alias_tree = map_of [([''w''], DirNode), ([''w'', ''a''], DirNode), ([''w'', ''d''], LinkNode ''/w/a'')]"

lemma resolves_onwards: "link_free N (d @ rest) \<Longrightarrow> canonical_segments rest \<Longrightarrow> resolves N d rest (d @ rest)"
proof (induction rest arbitrary: d)
  case (Cons s rest)
  have "link_free N (d @ [s])" using link_free_append [of N "d @ [s]" rest] Cons.prems(1) by simp
  with Cons.IH [of "d @ [s]"] Cons.prems show ?case by (intro walk_name) auto
qed (simp add: walk_end)

text \<open>
  The stored form of a scope whose real place does not overlap its own path, and the answer to its request when no
  stored scope overlaps that path.
\<close>

lemma overlap_abs:
  "posix_isAbsolute (pe_cwd E) \<Longrightarrow> canonical_segments p \<Longrightarrow> canonical_segments q \<Longrightarrow>
   pathScopesOverlap E (abs_path p) (abs_path q) \<longleftrightarrow> prefix p q \<or> prefix q p"
  using within_abs [of E p q] within_abs [of E q p] by (auto simp: pathScopesOverlap_def)

lemma aliased_scope_kept:
  assumes "canonicalRealOrLexicalPath E scope = Inr s" and "fs_models N (pe_fs E)" "plain_links N" "posix_isAbsolute (pe_cwd E)"
    and "\<not> usesWindowsPath (js_trim scope)" and "resolves N [] (resolved_segments (pe_cwd E) (js_trim scope)) d"
    and "\<not> prefix (resolved_segments (pe_cwd E) (js_trim scope)) d" "\<not> prefix d (resolved_segments (pe_cwd E) (js_trim scope))"
  shows "s = abs_path (resolved_segments (pe_cwd E) (js_trim scope))"
proof -
  let ?named = "resolved_segments (pe_cwd E) (js_trim scope)"
  from assms(1) obtain r where r: "safeRealpathSync E (abs_path ?named) = Inr r"
    and s: "s = (if pathScopesOverlap E (abs_path ?named) r then canonicalPathScopeIdentity E r else abs_path ?named)"
    by (rule canonical_pathE) (simp add: identity_posix [OF assms(4,5)])
  from safe_physical [OF assms(2-4) r] obtain q where "resolves N [] ?named q" "r = abs_path q" "canonical_segments q"
    by (auto simp: resolved_abs)
  with resolves_unique [OF this(1) assms(6)] s overlap_abs [OF assms(4), of ?named q] assms(7,8) show ?thesis by simp
qed

lemma acquire_locked_free:
  assumes "readLocked R w f (rv_repositoryRoot entry) = Inr store"
    and "\<forall>r \<in> set (st_reservations store). \<not> same_attempt r entry \<and>
      \<not> reservation_overlaps (re_paths R) (rv_executionIdentity entry) (rv_writeScopes entry) r"
    and "length (st_reservations store) < MAX_RESERVATIONS" and "re_writes R" and "\<forall>s. re_bytes R s \<le> MAX_FILE_BYTES"
  shows "\<exists>w'. acquire_locked R f entry w = (Inr (ReservationGranted (Some (leaseFromRecord f entry))), w')"
proof -
  have "List.find (\<lambda>r. same_attempt r entry) (st_reservations store) = None"
    "overlappingReservationIds (re_paths R) (st_reservations store) (rv_executionIdentity entry) (rv_writeScopes entry) = []"
    using assms(2) by (auto simp: find_None_iff overlappingReservationIds_def filter_empty_conv)
  with assms show ?thesis by (simp add: acquire_locked_def writeStore_def not_less)
qed


text \<open>The witness: \<open>/w/d\<close> is a link to the reserved \<open>/w/a\<close>, and \<open>/w/a/f\<close> is in the reach of both.\<close>

lemma alias_shallow: "shallow_links alias_tree" "plain_links alias_tree"
proof -
  have "walk_fuel 2 alias_tree [] (js_split (CHR ''/'') ''/w/a'') \<noteq> None" "''..'' \<notin> set (js_split (CHR ''/'') ''/w/a'')" by code_simp+
  then show "shallow_links alias_tree" "plain_links alias_tree"
    by (auto simp: shallow_links_def plain_links_def alias_tree_def posix_isAbsolute_def split: if_split_asm)
qed


end
