(* ===== verification/Event_Store.thy ===== *)
theory Event_Store
  imports Orchestration_Reducer
begin

text \<open>
  The durable event store (\<open>core/orchestration/event-store.ts\<close>): a directory of event files, one per event, a
  snapshot that may replace their prefix, a small file that names the current snapshot, and a cursor file that only
  witnesses how far the log once reached. An operation lists the file operations it performs, in order: one that
  fails, or the end of the process, leaves the files after a prefix of the list (\<open>cut_at\<close>). File names are the
  ordinals they spell, whose order is the order of the zero-padded names. A file of decoded content is \<open>Readable\<close>;
  text that is no JSON or has not the shape of its record is \<open>Unreadable\<close>. Serialized sizes, the digest of a
  snapshot and the comparison of encoded payloads are parameters (\<open>store_env\<close>); the identifiers and instants an
  operation draws, and whether its locks are granted, are arguments. The caches that spare a read when a file's
  status has not changed are not modelled: a read sees the file.
\<close>

section \<open>Records\<close>

record StoredEvent = OrchestrationEvent +
  sv_correlationId :: "string option"
  sv_causationId :: "string option"
  sv_idempotencyKey :: "string option"

record AppendOrchestrationEventInput =
  in_aggregateId :: string
  in_actor :: OrchestrationActorKind
  in_correlationId :: "string option"
  in_causationId :: "string option"
  in_idempotencyKey :: "string option"
  in_payload :: OrchestrationPayload

datatype 'a stored = Readable 'a | Unreadable

record EventCursor =
  cur_lastOrdinal :: nat
  cur_tailBytes :: "nat option"

record 'p ProjectionSnapshotContent =
  sn_throughOrdinal :: nat
  sn_createdAt :: timestamp
  sn_projection :: 'p
  sn_idempotencyEvents :: "StoredEvent list"

record 'p ProjectionSnapshot = "'p ProjectionSnapshotContent" +
  sn_digest :: string

record SnapshotBaseline =
  base_throughOrdinal :: nat
  base_digest :: string
  base_snapshotFile :: nat

record SynchronizedIndexes =
  ix_baselineOrdinal :: nat
  ix_baselineDigest :: "string option"
  ix_lastOrdinal :: nat
  ix_tailBytes :: nat
  ix_idempotencyEvents :: "StoredEvent js_record"

text \<open>The files of one store.\<close>

record 'p StoreFiles =
  sf_events :: "(nat \<times> StoredEvent stored) list"
  sf_cursor :: "EventCursor stored option"
  sf_baseline :: "SnapshotBaseline stored option"
  sf_snapshots :: "(nat \<times> 'p ProjectionSnapshot stored) list"
  sf_idempotency :: "string list"

definition empty_store :: "'p StoreFiles" where
  "empty_store = \<lparr>sf_events = [], sf_cursor = None, sf_baseline = None, sf_snapshots = [], sf_idempotency = []\<rparr>"

text \<open>\<open>'e\<close> is the error of an admission check the caller supplies.\<close>

datatype 'e store_error =
    InvalidInput
  | NotCanonical
  | IdempotencyConflict string
  | CursorChanged nat nat
  | SnapshotRequired nat
  | MissingOrdinal nat nat
  | CursorAhead nat nat
  | NonMonotonic nat
  | OrdinalMismatch nat
  | BadEventFile nat
  | BadBaseline
  | BadSnapshot
  | DigestMismatch
  | EventTooLarge
  | CursorTooLarge
  | BaselineTooLarge
  | SnapshotTooLarge
  | DirectoryTooLarge
  | NotPositive
  | AboveMaximum
  | LockUnavailable
  | TransactionExpired
  | IoFailed
  | NotAdmitted 'e

record 'p store_env =
  st_eventBytes :: "StoredEvent \<Rightarrow> nat"
  st_compactEventBytes :: "StoredEvent \<Rightarrow> nat"
  st_cursorBytes :: "EventCursor \<Rightarrow> nat"
  st_baselineBytes :: "SnapshotBaseline \<Rightarrow> nat"
  st_snapshotBytes :: "'p ProjectionSnapshot \<Rightarrow> nat"
  st_digest :: "'p ProjectionSnapshotContent \<Rightarrow> string"
  st_samePayload :: "OrchestrationPayload \<Rightarrow> OrchestrationPayload \<Rightarrow> bool"
  st_maxTailEvents :: nat
  st_maxTailBytes :: nat
  st_maxIdempotencyEvents :: nat

definition DEFAULT_MAX_TAIL_EVENTS :: nat where "DEFAULT_MAX_TAIL_EVENTS = 256"
definition DEFAULT_MAX_TAIL_BYTES :: nat where "DEFAULT_MAX_TAIL_BYTES = 4 * 1024 * 1024"
definition DEFAULT_MAX_IDEMPOTENCY_EVENTS :: nat where "DEFAULT_MAX_IDEMPOTENCY_EVENTS = 512"
definition MAX_CONFIGURED_TAIL_EVENTS :: nat where "MAX_CONFIGURED_TAIL_EVENTS = 1024"
definition MAX_CONFIGURED_TAIL_BYTES :: nat where "MAX_CONFIGURED_TAIL_BYTES = 16 * 1024 * 1024"
definition MAX_CONFIGURED_IDEMPOTENCY_EVENTS :: nat where "MAX_CONFIGURED_IDEMPOTENCY_EVENTS = 1024"
definition MAX_EVENT_DIRECTORY_ENTRIES :: nat where "MAX_EVENT_DIRECTORY_ENTRIES = 2048"
definition MAX_IDEMPOTENCY_DIRECTORY_ENTRIES :: nat where "MAX_IDEMPOTENCY_DIRECTORY_ENTRIES = 2048"
definition MAX_SNAPSHOT_DIRECTORY_ENTRIES :: nat where "MAX_SNAPSHOT_DIRECTORY_ENTRIES = 8"
definition MAX_CURSOR_BYTES :: nat where "MAX_CURSOR_BYTES = 64 * 1024"
definition MAX_BASELINE_BYTES :: nat where "MAX_BASELINE_BYTES = 64 * 1024"
definition MAX_TRANSACTION_APPENDS :: nat where "MAX_TRANSACTION_APPENDS = 64"
definition MAX_ORCHESTRATION_SNAPSHOT_IDEMPOTENCY_BYTES :: nat where
  "MAX_ORCHESTRATION_SNAPSHOT_IDEMPOTENCY_BYTES = 4 * 1024 * 1024"
definition MAX_ORCHESTRATION_PROJECTION_SNAPSHOT_BYTES :: nat where
  "MAX_ORCHESTRATION_PROJECTION_SNAPSHOT_BYTES = 32 * 1024 * 1024"

definition positiveSafeInteger :: "int option \<Rightarrow> nat \<Rightarrow> nat \<Rightarrow> 'e store_error + nat" where
  "positiveSafeInteger value' fallback maximum =
     (let resolved = (case value' of Some v \<Rightarrow> v | None \<Rightarrow> int fallback) in
      if resolved < 1 \<or> MAX_SAFE_INTEGER < resolved then Inl NotPositive
      else if int maximum < resolved then Inl AboveMaximum
      else Inr (nat resolved))"

text \<open>The limits a store is opened with.\<close>

definition open_limits ::
  "int option \<Rightarrow> int option \<Rightarrow> int option \<Rightarrow> 'p store_env \<Rightarrow> 'e store_error + 'p store_env" where
  "open_limits tailEvents tailBytes idempotencyEvents S =
     bindE (positiveSafeInteger tailEvents DEFAULT_MAX_TAIL_EVENTS MAX_CONFIGURED_TAIL_EVENTS) (\<lambda>events.
     bindE (positiveSafeInteger tailBytes DEFAULT_MAX_TAIL_BYTES MAX_CONFIGURED_TAIL_BYTES) (\<lambda>bytes.
     bindE (positiveSafeInteger idempotencyEvents DEFAULT_MAX_IDEMPOTENCY_EVENTS MAX_CONFIGURED_IDEMPOTENCY_EVENTS)
       (\<lambda>retained.
     Inr (S\<lparr>st_maxTailEvents := events, st_maxTailBytes := bytes, st_maxIdempotencyEvents := retained\<rparr>))))"

section \<open>Canonical values\<close>

definition isCanonicalIdentifier :: "string \<Rightarrow> bool" where
  "isCanonicalIdentifier s \<longleftrightarrow> s \<noteq> [] \<and> length s \<le> MAX_ORCHESTRATION_IDENTIFIER_LENGTH \<and> js_trim s = s"

definition optional_identifier :: "string option \<Rightarrow> bool" where
  "optional_identifier x \<longleftrightarrow> (case x of None \<Rightarrow> True | Some s \<Rightarrow> isCanonicalIdentifier s)"

fun isCanonicalIsoTimestamp :: "timestamp \<Rightarrow> bool" where
  "isCanonicalIsoTimestamp (At ms) = True"
| "isCanonicalIsoTimestamp (Unparsable s) = False"

definition normalizeAppendInput :: "AppendOrchestrationEventInput \<Rightarrow> 'e store_error + AppendOrchestrationEventInput" where
  "normalizeAppendInput input =
     bindE (require (optional_identifier (in_correlationId input)) InvalidInput) (\<lambda>_.
     bindE (require (optional_identifier (in_causationId input)) InvalidInput) (\<lambda>_.
     bindE (require (optional_identifier (in_idempotencyKey input)) InvalidInput) (\<lambda>_.
     bindE (require (isCanonicalIdentifier (in_aggregateId input)) InvalidInput) (\<lambda>_.
     Inr input))))"

definition isCanonicalOrchestrationEvent :: "StoredEvent \<Rightarrow> bool" where
  "isCanonicalOrchestrationEvent e \<longleftrightarrow>
     0 < eh_ordinal e \<and> isCanonicalIdentifier (eh_eventId e) \<and> isCanonicalIdentifier (eh_aggregateId e) \<and>
     isCanonicalIsoTimestamp (eh_occurredAt e) \<and> optional_identifier (sv_correlationId e) \<and>
     optional_identifier (sv_causationId e) \<and> optional_identifier (sv_idempotencyKey e)"

definition same_content :: "'p store_env \<Rightarrow> StoredEvent \<Rightarrow> AppendOrchestrationEventInput \<Rightarrow> bool" where
  "same_content S existing input \<longleftrightarrow>
     eh_aggregateId existing = in_aggregateId input \<and> eh_actor existing = in_actor input \<and>
     sv_correlationId existing = in_correlationId input \<and> sv_causationId existing = in_causationId input \<and>
     st_samePayload S (ev_payload existing) (in_payload input)"

definition assertExactIdempotentReplay ::
  "'p store_env \<Rightarrow> StoredEvent \<Rightarrow> AppendOrchestrationEventInput \<Rightarrow> 'e store_error + unit" where
  "assertExactIdempotentReplay S existing input =
     require (same_content S existing input) (IdempotencyConflict (the (in_idempotencyKey input)))"

section \<open>File operations\<close>

datatype 'p file_op =
    PutEvent nat StoredEvent
  | TruncateCursor
  | PutCursor EventCursor
  | PutSnapshot nat "'p ProjectionSnapshot"
  | PutBaseline SnapshotBaseline
  | UnlinkIdempotency string
  | UnlinkEvent nat
  | UnlinkSnapshot nat

fun apply_op :: "'p file_op \<Rightarrow> 'p StoreFiles \<Rightarrow> 'p StoreFiles" where
  "apply_op (PutEvent n e) d = d\<lparr>sf_events := AList.update n (Readable e) (sf_events d)\<rparr>"
| "apply_op TruncateCursor d = d\<lparr>sf_cursor := Some Unreadable\<rparr>"
| "apply_op (PutCursor c) d = d\<lparr>sf_cursor := Some (Readable c)\<rparr>"
| "apply_op (PutSnapshot n s) d = d\<lparr>sf_snapshots := AList.update n (Readable s) (sf_snapshots d)\<rparr>"
| "apply_op (PutBaseline b) d = d\<lparr>sf_baseline := Some (Readable b)\<rparr>"
| "apply_op (UnlinkIdempotency n) d = d\<lparr>sf_idempotency := removeAll n (sf_idempotency d)\<rparr>"
| "apply_op (UnlinkEvent n) d = d\<lparr>sf_events := AList.delete n (sf_events d)\<rparr>"
| "apply_op (UnlinkSnapshot n) d = d\<lparr>sf_snapshots := AList.delete n (sf_snapshots d)\<rparr>"

abbreviation apply_ops :: "'p file_op list \<Rightarrow> 'p StoreFiles \<Rightarrow> 'p StoreFiles" where
  "apply_ops \<equiv> fold apply_op"

text \<open>An operation whose next file operation fails, or that its process does not survive, stops before it.\<close>

definition cut_at :: "nat option \<Rightarrow> 'p file_op list \<Rightarrow> 'p file_op list" where
  "cut_at fault ops = (case fault of None \<Rightarrow> ops | Some k \<Rightarrow> take k ops)"

definition completes :: "nat option \<Rightarrow> 'p file_op list \<Rightarrow> bool" where
  "completes fault ops \<longleftrightarrow> (case fault of None \<Rightarrow> True | Some k \<Rightarrow> length ops \<le> k)"

section \<open>Reading\<close>

definition event_names :: "'p StoreFiles \<Rightarrow> nat list" where
  "event_names d = sorted_list_of_set (fst ` set (sf_events d))"

definition snapshot_names :: "'p StoreFiles \<Rightarrow> nat list" where
  "snapshot_names d = sorted_list_of_set (fst ` set (sf_snapshots d))"

text \<open>
  The source bounds all names of the directory, temporary files left over from an interrupted write included; those are
  not part of the model, which bounds the event files.
\<close>

definition eventFileNames :: "'p StoreFiles \<Rightarrow> 'e store_error + nat list" where
  "eventFileNames d =
     (if MAX_EVENT_DIRECTORY_ENTRIES < length (event_names d) then Inl DirectoryTooLarge else Inr (event_names d))"

fun assertContiguousTailOrdinals :: "nat \<Rightarrow> nat \<Rightarrow> nat list \<Rightarrow> 'e store_error + unit" where
  "assertContiguousTailOrdinals baseline expected [] = Inr ()"
| "assertContiguousTailOrdinals baseline expected (n # names) =
     (if n \<le> baseline then assertContiguousTailOrdinals baseline expected names
      else if n \<noteq> expected then Inl (MissingOrdinal expected n)
      else assertContiguousTailOrdinals baseline (expected + 1) names)"

definition highest_event :: "nat list \<Rightarrow> nat" where
  "highest_event names = (if names = [] then 0 else last names)"

definition readCursor :: "'p StoreFiles \<Rightarrow> EventCursor option" where
  "readCursor d = (case sf_cursor d of Some (Readable c) \<Rightarrow> Some c | _ \<Rightarrow> None)"

definition assertReadableTail :: "'p StoreFiles \<Rightarrow> nat list \<Rightarrow> nat \<Rightarrow> 'e store_error + unit" where
  "assertReadableTail d names baseline =
     bindE (assertContiguousTailOrdinals baseline (baseline + 1) names) (\<lambda>_.
     let highest = max baseline (highest_event names) in
     case readCursor d of
       None \<Rightarrow> Inr ()
     | Some c \<Rightarrow> require (cur_lastOrdinal c \<le> highest) (CursorAhead (cur_lastOrdinal c) highest))"

definition readBaseline :: "'p StoreFiles \<Rightarrow> 'e store_error + SnapshotBaseline option" where
  "readBaseline d =
     (case sf_baseline d of
        None \<Rightarrow> Inr None
      | Some Unreadable \<Rightarrow> Inl BadBaseline
      | Some (Readable b) \<Rightarrow>
          if 1 \<le> base_throughOrdinal b \<and> base_digest b \<noteq> [] \<and> base_snapshotFile b = base_throughOrdinal b
          then Inr (Some b) else Inl BadBaseline)"

definition through :: "SnapshotBaseline option \<Rightarrow> nat" where
  "through b = (case b of None \<Rightarrow> 0 | Some b \<Rightarrow> base_throughOrdinal b)"

text \<open>The length of a JSON array: brackets, elements and the commas between them.\<close>

definition json_array_bytes :: "nat list \<Rightarrow> nat" where
  "json_array_bytes ns = 2 + sum_list ns + (length ns - 1)"

definition snapshot_valid :: "'p store_env \<Rightarrow> SnapshotBaseline \<Rightarrow> 'p ProjectionSnapshot \<Rightarrow> bool" where
  "snapshot_valid S baseline s \<longleftrightarrow>
     sn_throughOrdinal s = base_throughOrdinal baseline \<and>
     length (sn_idempotencyEvents s) \<le> st_maxIdempotencyEvents S \<and>
     json_array_bytes (map (st_compactEventBytes S) (sn_idempotencyEvents s))
       \<le> MAX_ORCHESTRATION_SNAPSHOT_IDEMPOTENCY_BYTES \<and>
     isCanonicalIsoTimestamp (sn_createdAt s) \<and>
     list_all isCanonicalOrchestrationEvent (sn_idempotencyEvents s) \<and>
     list_all (\<lambda>e. eh_ordinal e \<le> base_throughOrdinal baseline \<and> sv_idempotencyKey e \<noteq> None)
       (sn_idempotencyEvents s) \<and>
     distinct (map sv_idempotencyKey (sn_idempotencyEvents s)) \<and>
     sn_digest s = base_digest baseline"

definition readProjectionSnapshot ::
  "'p store_env \<Rightarrow> 'p StoreFiles \<Rightarrow> 'e store_error + 'p ProjectionSnapshot option" where
  "readProjectionSnapshot S d =
     bindE (readBaseline d) (\<lambda>baseline.
     case baseline of
       None \<Rightarrow> Inr None
     | Some b \<Rightarrow>
         (case map_of (sf_snapshots d) (base_snapshotFile b) of
            None \<Rightarrow> Inl BadSnapshot
          | Some Unreadable \<Rightarrow> Inl BadSnapshot
          | Some (Readable s) \<Rightarrow>
              bindE (require (st_snapshotBytes S s \<le> MAX_ORCHESTRATION_PROJECTION_SNAPSHOT_BYTES) BadSnapshot) (\<lambda>_.
              bindE (require (snapshot_valid S b s) BadSnapshot) (\<lambda>_.
              bindE (require (st_digest S (ProjectionSnapshotContent.truncate s) = base_digest b) DigestMismatch) (\<lambda>_.
              Inr (Some s))))))"

definition readEventFile :: "'p store_env \<Rightarrow> 'p StoreFiles \<Rightarrow> nat \<Rightarrow> 'e store_error + StoredEvent" where
  "readEventFile S d n =
     (case map_of (sf_events d) n of
        None \<Rightarrow> Inl (BadEventFile n)
      | Some Unreadable \<Rightarrow> Inl (BadEventFile n)
      | Some (Readable e) \<Rightarrow>
          if st_eventBytes S e \<le> st_maxTailBytes S \<and> isCanonicalOrchestrationEvent e then Inr e
          else Inl (BadEventFile n))"

text \<open>The events of the files beyond \<open>from\<close>, in order.\<close>

fun read_events ::
  "'p store_env \<Rightarrow> 'p StoreFiles \<Rightarrow> nat \<Rightarrow> nat \<Rightarrow> nat list \<Rightarrow> 'e store_error + StoredEvent list" where
  "read_events S d beyond previous [] = Inr []"
| "read_events S d beyond previous (n # names) =
     (if n \<le> beyond then read_events S d beyond previous names
      else
        bindE (readEventFile S d n) (\<lambda>e.
        bindE (require (eh_ordinal e = n \<and> previous < eh_ordinal e) (NonMonotonic n)) (\<lambda>_.
        bindE (read_events S d beyond (eh_ordinal e) names) (\<lambda>es.
        Inr (e # es)))))"

definition readAll :: "'p store_env \<Rightarrow> 'p StoreFiles \<Rightarrow> 'e store_error + StoredEvent list" where
  "readAll S d =
     bindE (eventFileNames d) (\<lambda>names.
     bindE (readProjectionSnapshot S d) (\<lambda>snapshot.
     let baseline = (case snapshot of None \<Rightarrow> 0 | Some s \<Rightarrow> sn_throughOrdinal s) in
     bindE (assertReadableTail d names baseline) (\<lambda>_.
     read_events S d baseline baseline names)))"

definition hasEventFile :: "'p StoreFiles \<Rightarrow> nat \<Rightarrow> bool" where
  "hasEventFile d n \<longleftrightarrow> map_of (sf_events d) n \<noteq> None"

definition readAfter :: "'p store_env \<Rightarrow> 'p StoreFiles \<Rightarrow> nat \<Rightarrow> 'e store_error + StoredEvent list" where
  "readAfter S d ordinal =
     bindE (readBaseline d) (\<lambda>baseline.
     if baseline \<noteq> None \<and> ordinal < through baseline then Inl (SnapshotRequired (through baseline))
     else if \<not> hasEventFile d (ordinal + 1) \<and>
             (case readCursor d of None \<Rightarrow> True | Some c \<Rightarrow> cur_lastOrdinal c \<le> max ordinal (through baseline))
       then Inr []
     else
       bindE (eventFileNames d) (\<lambda>names.
       bindE (assertReadableTail d names (through baseline)) (\<lambda>_.
       read_events S d ordinal ordinal names)))"

section \<open>The index of a writer\<close>

definition fresh_indexes :: "'p ProjectionSnapshot option \<Rightarrow> SynchronizedIndexes" where
  "fresh_indexes snapshot =
     (case snapshot of
        None \<Rightarrow> \<lparr>ix_baselineOrdinal = 0, ix_baselineDigest = None, ix_lastOrdinal = 0, ix_tailBytes = 0,
                 ix_idempotencyEvents = []\<rparr>
      | Some s \<Rightarrow> \<lparr>ix_baselineOrdinal = sn_throughOrdinal s, ix_baselineDigest = Some (sn_digest s),
                   ix_lastOrdinal = sn_throughOrdinal s, ix_tailBytes = 0,
                   ix_idempotencyEvents =
                     fold (\<lambda>e m. js_set (the (sv_idempotencyKey e)) e m) (sn_idempotencyEvents s) []\<rparr>)"

definition index_event :: "'p store_env \<Rightarrow> nat \<Rightarrow> StoredEvent \<Rightarrow> SynchronizedIndexes \<Rightarrow> SynchronizedIndexes" where
  "index_event S ordinal e ix =
     ix\<lparr>ix_idempotencyEvents := (case sv_idempotencyKey e of Some k \<Rightarrow> js_set k e (ix_idempotencyEvents ix)
                                  | None \<Rightarrow> ix_idempotencyEvents ix),
        ix_tailBytes := ix_tailBytes ix + st_eventBytes S e, ix_lastOrdinal := ordinal\<rparr>"

text \<open>The scan of the files a writer has not seen; an error leaves the index at the last file that was read.\<close>

fun scan_events ::
  "'p store_env \<Rightarrow> 'p StoreFiles \<Rightarrow> nat \<Rightarrow> nat \<Rightarrow> SynchronizedIndexes \<Rightarrow> nat list \<Rightarrow>
   ('e store_error + unit) \<times> SynchronizedIndexes" where
  "scan_events S d scanFrom baseline ix [] = (Inr (), ix)"
| "scan_events S d scanFrom baseline ix (n # names) =
     (if n < scanFrom \<or> n \<le> baseline then scan_events S d scanFrom baseline ix names
      else case readEventFile S d n of
        Inl e \<Rightarrow> (Inl e, ix)
      | Inr e \<Rightarrow> if eh_ordinal e \<noteq> n then (Inl (OrdinalMismatch n), ix)
                 else scan_events S d scanFrom baseline (index_event S n e ix) names)"

definition can_extend :: "SynchronizedIndexes option \<Rightarrow> nat \<Rightarrow> string option \<Rightarrow> nat \<Rightarrow> bool" where
  "can_extend cached baselineOrdinal baselineDigest highest \<longleftrightarrow>
     (case cached of
        None \<Rightarrow> False
      | Some c \<Rightarrow> ix_baselineOrdinal c = baselineOrdinal \<and> ix_baselineDigest c = baselineDigest \<and>
                  baselineOrdinal \<le> ix_lastOrdinal c \<and> ix_lastOrdinal c \<le> highest)"

definition index_ahead :: "SynchronizedIndexes option \<Rightarrow> nat \<Rightarrow> string option \<Rightarrow> nat \<Rightarrow> bool" where
  "index_ahead cached baselineOrdinal baselineDigest highest \<longleftrightarrow>
     (case cached of
        None \<Rightarrow> False
      | Some c \<Rightarrow> ix_baselineOrdinal c = baselineOrdinal \<and> ix_baselineDigest c = baselineDigest \<and>
                  highest < ix_lastOrdinal c)"

text \<open>The answer and the cached index afterwards.\<close>

definition synchronizeIndexes ::
  "'p store_env \<Rightarrow> 'p StoreFiles \<Rightarrow> SynchronizedIndexes option \<Rightarrow>
   ('e store_error + SynchronizedIndexes) \<times> SynchronizedIndexes option" where
  "synchronizeIndexes S d cached =
     (case bindE (eventFileNames d) (\<lambda>names. bindE (readProjectionSnapshot S d) (\<lambda>snapshot.
             let baseline = ix_baselineOrdinal (fresh_indexes snapshot) in
             bindE (assertReadableTail d names baseline) (\<lambda>_. Inr (names, snapshot)))) of
        Inl e \<Rightarrow> (Inl e, cached)
      | Inr (names, snapshot) \<Rightarrow>
          let start = fresh_indexes snapshot; baseline = ix_baselineOrdinal start; digest = ix_baselineDigest start;
              highest = max baseline (highest_event names) in
          if index_ahead cached baseline digest highest
          then (Inl (CursorAhead (ix_lastOrdinal (the cached)) highest), cached)
          else if can_extend cached baseline digest highest \<and> ix_lastOrdinal (the cached) = highest
          then (Inr (the cached), cached)
          else
            let extend = can_extend cached baseline digest highest; ix0 = (if extend then the cached else start) in
            case scan_events S d (ix_lastOrdinal ix0 + 1) baseline ix0 names of
              (Inl e, ix) \<Rightarrow> (Inl e, if extend then Some ix else cached)
            | (Inr _, ix) \<Rightarrow> let synced = ix\<lparr>ix_lastOrdinal := highest\<rparr> in (Inr synced, Some synced))"

section \<open>Appending\<close>

record stamp =
  stamp_eventId :: string
  stamp_now :: timestamp

definition next_event :: "stamp \<Rightarrow> nat \<Rightarrow> AppendOrchestrationEventInput \<Rightarrow> StoredEvent" where
  "next_event st ordinal input =
     \<lparr>eh_ordinal = ordinal, eh_eventId = stamp_eventId st, eh_aggregateId = in_aggregateId input,
      eh_actor = in_actor input, eh_occurredAt = stamp_now st, ev_payload = in_payload input,
      sv_correlationId = in_correlationId input, sv_causationId = in_causationId input,
      sv_idempotencyKey = in_idempotencyKey input\<rparr>"

text \<open>
  What an append answers: the event, what the caller's check produced when it ran (it does not run for a repeated
  request), and whether the event is new.
\<close>

record 'x AppendOutcome =
  out_event :: StoredEvent
  out_admitted :: "'x option"
  out_appended :: bool

definition appendUnlocked ::
  "'p store_env \<Rightarrow> stamp \<Rightarrow> nat option \<Rightarrow> AppendOrchestrationEventInput \<Rightarrow> nat option \<Rightarrow>
   (StoredEvent \<Rightarrow> 'e + 'x) \<Rightarrow> SynchronizedIndexes \<Rightarrow>
   ('e store_error + 'x AppendOutcome) \<times> SynchronizedIndexes \<times> 'p file_op list" where
  "appendUnlocked S st fault input expectedLastOrdinal validate ix =
     (let actual = ix_lastOrdinal ix; ordinal = actual + 1; event = next_event st ordinal input;
          tailBytes = ix_tailBytes ix + st_eventBytes S event;
          cursor = \<lparr>cur_lastOrdinal = ordinal, cur_tailBytes = Some tailBytes\<rparr>;
          ops = [PutEvent ordinal event, TruncateCursor, PutCursor cursor] in
      case normalizeAppendInput input of
        Inl e \<Rightarrow> (Inl e, ix, [])
      | Inr _ \<Rightarrow>
      case Option.bind (in_idempotencyKey input) (map_of (ix_idempotencyEvents ix)) of
        Some existing \<Rightarrow>
          (bindE (assertExactIdempotentReplay S existing input) (\<lambda>_.
             Inr \<lparr>out_event = existing, out_admitted = None, out_appended = False\<rparr>), ix, [])
      | None \<Rightarrow>
      if (case expectedLastOrdinal of None \<Rightarrow> False | Some expected \<Rightarrow> actual \<noteq> expected)
      then (Inl (CursorChanged (the expectedLastOrdinal) actual), ix, [])
      else if \<not> isCanonicalOrchestrationEvent event then (Inl NotCanonical, ix, [])
      else if st_maxTailBytes S < st_eventBytes S event then (Inl EventTooLarge, ix, [])
      else case validate event of
        Inl e \<Rightarrow> (Inl (NotAdmitted e), ix, [])
      | Inr x \<Rightarrow>
      if MAX_CURSOR_BYTES < st_cursorBytes S cursor then (Inl CursorTooLarge, ix, [])
      else if cut_at fault ops = [] then (Inl IoFailed, ix, [])
      else (if completes fault ops then Inr \<lparr>out_event = event, out_admitted = Some x, out_appended = True\<rparr>
            else Inl IoFailed,
            index_event S ordinal event ix, cut_at fault ops))"

text \<open>
  A transaction holds the locks of the store while its operation runs and appends. \<open>tx_ops\<close> are the file
  operations performed so far, \<open>tx_committed\<close> the new events its listeners are told of.
\<close>

record 'p StoreTransaction =
  tx_indexes :: SynchronizedIndexes
  tx_appends :: nat
  tx_ops :: "'p file_op list"
  tx_committed :: "StoredEvent list"

definition tx_append ::
  "'p store_env \<Rightarrow> stamp \<Rightarrow> nat option \<Rightarrow> AppendOrchestrationEventInput \<Rightarrow> nat option \<Rightarrow>
   (StoredEvent \<Rightarrow> 'e + 'x) \<Rightarrow> 'p StoreTransaction \<Rightarrow> ('e store_error + 'x AppendOutcome) \<times> 'p StoreTransaction" where
  "tx_append S st fault input expectedLastOrdinal validate tx =
     (let tx1 = tx\<lparr>tx_appends := tx_appends tx + 1\<rparr> in
      if MAX_TRANSACTION_APPENDS < tx_appends tx1 then (Inl TransactionExpired, tx1)
      else
        let (result, ix, ops) = appendUnlocked S st fault input expectedLastOrdinal validate (tx_indexes tx1);
            committed = (case result of Inr out \<Rightarrow> if out_appended out then [out_event out] else [] | Inl _ \<Rightarrow> []) in
        (result, tx1\<lparr>tx_indexes := ix, tx_ops := tx_ops tx1 @ ops, tx_committed := tx_committed tx1 @ committed\<rparr>))"

text \<open>What a store operation answers: its result, the cached index, its file operations, the new events.\<close>

record ('p, 'r) StoreAnswer =
  sa_result :: 'r
  sa_indexes :: "SynchronizedIndexes option"
  sa_ops :: "'p file_op list"
  sa_committed :: "StoredEvent list"

definition transact ::
  "'p store_env \<Rightarrow> bool \<Rightarrow> nat option \<Rightarrow>
   ('p StoreTransaction \<Rightarrow> ('e store_error + 'a) \<times> 'p StoreTransaction) \<Rightarrow> 'p StoreFiles \<Rightarrow>
   SynchronizedIndexes option \<Rightarrow> ('p, 'e store_error + 'a) StoreAnswer" where
  "transact S locked expectedLastOrdinal operation d cached =
     (if \<not> locked
      then \<lparr>sa_result = Inl LockUnavailable, sa_indexes = cached, sa_ops = [], sa_committed = []\<rparr>
      else case synchronizeIndexes S d cached of
        (Inl e, cached') \<Rightarrow> \<lparr>sa_result = Inl e, sa_indexes = cached', sa_ops = [], sa_committed = []\<rparr>
      | (Inr ix, cached') \<Rightarrow>
          if (case expectedLastOrdinal of None \<Rightarrow> False | Some expected \<Rightarrow> ix_lastOrdinal ix \<noteq> expected)
          then \<lparr>sa_result = Inl (CursorChanged (the expectedLastOrdinal) (ix_lastOrdinal ix)), sa_indexes = cached',
                sa_ops = [], sa_committed = []\<rparr>
          else
            let (result, tx) = operation \<lparr>tx_indexes = ix, tx_appends = 0, tx_ops = [], tx_committed = []\<rparr> in
            \<lparr>sa_result = result, sa_indexes = Some (tx_indexes tx), sa_ops = tx_ops tx,
             sa_committed = tx_committed tx\<rparr>)"

definition store_append ::
  "'p store_env \<Rightarrow> bool \<Rightarrow> stamp \<Rightarrow> nat option \<Rightarrow> AppendOrchestrationEventInput \<Rightarrow> nat option \<Rightarrow>
   (StoredEvent \<Rightarrow> 'e + 'x) \<Rightarrow> 'p StoreFiles \<Rightarrow> SynchronizedIndexes option \<Rightarrow>
   ('p, 'e store_error + 'x AppendOutcome) StoreAnswer" where
  "store_append S locked st fault input expectedLastOrdinal validate =
     transact S locked None (tx_append S st fault input expectedLastOrdinal validate)"

section \<open>Compaction\<close>

text \<open>The newest events that fit the bounds, newest first, one by one; then in order.\<close>

fun select_idempotency :: "'p store_env \<Rightarrow> nat \<Rightarrow> nat \<Rightarrow> StoredEvent list \<Rightarrow> StoredEvent list \<Rightarrow> StoredEvent list" where
  "select_idempotency S maxEvents bytes selected [] = selected"
| "select_idempotency S maxEvents bytes selected (e # es) =
     (if maxEvents \<le> length selected then selected
      else
        let nextBytes = bytes + (if selected \<noteq> [] then 1 else 0) + st_compactEventBytes S e in
        if MAX_ORCHESTRATION_SNAPSHOT_IDEMPOTENCY_BYTES < nextBytes
        then select_idempotency S maxEvents bytes selected es
        else select_idempotency S maxEvents nextBytes (e # selected) es)"

definition boundedIdempotencyEvents :: "'p store_env \<Rightarrow> StoredEvent list \<Rightarrow> nat \<Rightarrow> StoredEvent list" where
  "boundedIdempotencyEvents S events maxEvents =
     select_idempotency S maxEvents 2 [] (rev (sort_key eh_ordinal (rev events)))"

definition retain_by_key :: "StoredEvent \<Rightarrow> StoredEvent js_record \<Rightarrow> StoredEvent js_record" where
  "retain_by_key e m = (case sv_idempotencyKey e of Some k \<Rightarrow> js_set k e m | None \<Rightarrow> m)"

fun retain_tail ::
  "'p store_env \<Rightarrow> 'p StoreFiles \<Rightarrow> nat \<Rightarrow> StoredEvent js_record \<Rightarrow> nat list \<Rightarrow> 'e store_error + StoredEvent js_record" where
  "retain_tail S d throughOrdinal m [] = Inr m"
| "retain_tail S d throughOrdinal m (n # names) =
     bindE (readEventFile S d n) (\<lambda>e.
     retain_tail S d throughOrdinal (if eh_ordinal e \<le> throughOrdinal then retain_by_key e m else m) names)"

datatype maintenance = NoStore | MaintenanceRefused | MaintenanceLocked | MaintenanceAdmitted

text \<open>The snapshot of the projection and its publication: the payload, then the pointer to it, then the pruning.\<close>

definition snapshot_of ::
  "'p store_env \<Rightarrow> timestamp \<Rightarrow> nat \<Rightarrow> 'p \<Rightarrow> StoredEvent js_record \<Rightarrow> 'p ProjectionSnapshot" where
  "snapshot_of S now throughOrdinal projection retained =
     (let content = \<lparr>sn_throughOrdinal = throughOrdinal, sn_createdAt = now, sn_projection = projection,
            sn_idempotencyEvents = boundedIdempotencyEvents S (js_values retained) (st_maxIdempotencyEvents S)\<rparr> in
      ProjectionSnapshotContent.extend content \<lparr>sn_digest = st_digest S content\<rparr>)"

definition publish_ops :: "'p ProjectionSnapshot \<Rightarrow> 'p file_op list" where
  "publish_ops s =
     [PutSnapshot (sn_throughOrdinal s) s,
      PutBaseline \<lparr>base_throughOrdinal = sn_throughOrdinal s, base_digest = sn_digest s,
                   base_snapshotFile = sn_throughOrdinal s\<rparr>]"

definition prune_event_ops :: "nat \<Rightarrow> 'p StoreFiles \<Rightarrow> 'p file_op list" where
  "prune_event_ops throughOrdinal d =
     map UnlinkIdempotency (sf_idempotency d) @
     map UnlinkEvent (filter (\<lambda>n. n \<le> throughOrdinal) (event_names d))"

definition prune_snapshot_ops :: "nat \<Rightarrow> 'p StoreFiles \<Rightarrow> 'p file_op list" where
  "prune_snapshot_ops throughOrdinal d =
     map UnlinkSnapshot (filter (\<lambda>n. n \<noteq> throughOrdinal) (snapshot_names d)) @
     [PutCursor \<lparr>cur_lastOrdinal = throughOrdinal, cur_tailBytes = Some 0\<rparr>]"

text \<open>A directory with too many entries ends the compaction where it is listed.\<close>

definition compaction_ops :: "'p ProjectionSnapshot \<Rightarrow> 'p StoreFiles \<Rightarrow> ('e store_error + bool) \<times> 'p file_op list" where
  "compaction_ops s d =
     (let n = sn_throughOrdinal s; snapshots = length (snapshot_names (apply_op (PutSnapshot n s) d)) in
      if MAX_IDEMPOTENCY_DIRECTORY_ENTRIES < length (sf_idempotency d) then (Inl DirectoryTooLarge, publish_ops s)
      else if MAX_SNAPSHOT_DIRECTORY_ENTRIES < snapshots
      then (Inl DirectoryTooLarge, publish_ops s @ prune_event_ops n d)
      else (Inr True, publish_ops s @ prune_event_ops n d @ prune_snapshot_ops n d))"

definition compact_locked ::
  "'p store_env \<Rightarrow> timestamp \<Rightarrow> nat option \<Rightarrow> nat \<Rightarrow> 'p \<Rightarrow> 'p StoreFiles \<Rightarrow> SynchronizedIndexes option \<Rightarrow>
   ('e store_error + bool) \<times> SynchronizedIndexes option \<times> 'p file_op list" where
  "compact_locked S now fault throughOrdinal projection d cached =
     (case synchronizeIndexes S d cached of
        (Inl e, cached') \<Rightarrow> (Inl e, cached', [])
      | (Inr ix, cached') \<Rightarrow>
          if ix_lastOrdinal ix \<noteq> throughOrdinal then (Inr False, cached', [])
          else case bindE (readBaseline d) (\<lambda>baseline. bindE (eventFileNames d) (\<lambda>names.
                 Inr (filter (\<lambda>n. through baseline < n) names))) of
            Inl e \<Rightarrow> (Inl e, cached', [])
          | Inr tailNames \<Rightarrow>
              if length tailNames < st_maxTailEvents S \<and> ix_tailBytes ix < st_maxTailBytes S
              then (Inr False, cached', [])
              else case bindE (readProjectionSnapshot S d) (\<lambda>snapshot.
                     retain_tail S d throughOrdinal
                       (case snapshot of None \<Rightarrow> [] | Some s \<Rightarrow> fold retain_by_key (sn_idempotencyEvents s) []) tailNames) of
                Inl e \<Rightarrow> (Inl e, cached', [])
              | Inr retained \<Rightarrow>
                  let s = snapshot_of S now throughOrdinal projection retained;
                      baseline = \<lparr>base_throughOrdinal = throughOrdinal, base_digest = sn_digest s,
                                  base_snapshotFile = throughOrdinal\<rparr>;
                      cursor = \<lparr>cur_lastOrdinal = throughOrdinal, cur_tailBytes = Some 0\<rparr> in
                  if \<not> isCanonicalIsoTimestamp now then (Inl InvalidInput, cached', [])
                  else if MAX_ORCHESTRATION_PROJECTION_SNAPSHOT_BYTES < st_snapshotBytes S s
                    then (Inl SnapshotTooLarge, cached', [])
                  else if MAX_BASELINE_BYTES < st_baselineBytes S baseline then (Inl BaselineTooLarge, cached', [])
                  else if MAX_CURSOR_BYTES < st_cursorBytes S cursor then (Inl CursorTooLarge, cached', [])
                  else
                    let (result, ops) = compaction_ops s d in
                    if \<not> completes fault ops then (Inl IoFailed, cached', cut_at fault ops)
                    else case result of
                      Inl e \<Rightarrow> (Inl e, cached', ops)
                    | Inr b \<Rightarrow> (Inr b, Some (fresh_indexes (Some s)), ops))"

definition within_tail :: "'p store_env \<Rightarrow> nat \<Rightarrow> nat \<Rightarrow> nat \<Rightarrow> bool" where
  "within_tail S throughOrdinal baseline tailBytes \<longleftrightarrow>
     int throughOrdinal - int baseline < int (st_maxTailEvents S) \<and> tailBytes < st_maxTailBytes S"

text \<open>What spares a compaction its locks: the cached index, or a cursor when nothing is cached.\<close>

definition compaction_idle ::
  "'p store_env \<Rightarrow> nat \<Rightarrow> SnapshotBaseline option \<Rightarrow> 'p StoreFiles \<Rightarrow> SynchronizedIndexes option \<Rightarrow> bool" where
  "compaction_idle S throughOrdinal baseline d cached \<longleftrightarrow>
     (case cached of
        Some c \<Rightarrow> ix_baselineOrdinal c = through baseline \<and> ix_baselineDigest c = map_option base_digest baseline \<and>
                  ix_lastOrdinal c = throughOrdinal \<and> within_tail S throughOrdinal (through baseline) (ix_tailBytes c)
      | None \<Rightarrow> (case readCursor d of
                   None \<Rightarrow> False
                 | Some c \<Rightarrow> cur_lastOrdinal c = throughOrdinal \<and>
                     (case cur_tailBytes c of None \<Rightarrow> False
                      | Some b \<Rightarrow> within_tail S throughOrdinal (through baseline) b)))"

definition compactIfNeeded ::
  "'p store_env \<Rightarrow> maintenance \<Rightarrow> timestamp \<Rightarrow> nat option \<Rightarrow> nat \<Rightarrow> 'p \<Rightarrow> 'p StoreFiles \<Rightarrow>
   SynchronizedIndexes option \<Rightarrow> ('p, 'e store_error + bool) StoreAnswer" where
  "compactIfNeeded S m now fault throughOrdinal projection d cached =
     (let answer = (\<lambda>r. \<lparr>sa_result = r, sa_indexes = cached, sa_ops = [], sa_committed = []\<rparr>) in
      case readBaseline d of
        Inl e \<Rightarrow> answer (Inl e)
      | Inr baseline \<Rightarrow>
          if compaction_idle S throughOrdinal baseline d cached then answer (Inr False)
          else case m of
            NoStore \<Rightarrow> answer (Inr False)
          | MaintenanceRefused \<Rightarrow> answer (Inr False)
          | MaintenanceLocked \<Rightarrow> answer (Inl LockUnavailable)
          | MaintenanceAdmitted \<Rightarrow>
              let (result, cached', ops) = compact_locked S now fault throughOrdinal projection d cached in
              \<lparr>sa_result = result, sa_indexes = cached', sa_ops = ops, sa_committed = []\<rparr>)"

end
