(* ===== verification/Host_Event_Validation.thy ===== *)
theory Host_Event_Validation
  imports Orchestration_Reducer
begin

text \<open>
  What a snapshot's host event records must satisfy to be read back: the consistency of each record
  (\<open>sourceFromValue\<close>, \<open>subscriptionFromValue\<close>, \<open>eventFromValue\<close>, \<open>deliveryFromValue\<close>, \<open>parseHostEventProjection\<close>)
  and the references between them (\<open>validateHostEventGraph\<close>), from \<open>core/events/host-event-codecs.ts\<close>. The shapes
  and lengths of single fields are those of the decoded types.
\<close>

definition invalid_unless :: "bool \<Rightarrow> orch_error + unit" where
  "invalid_unless c = require c (HostError HostInvalid)"

lemma invalid_unless_iff [simp]: "invalid_unless c = Inr u \<longleftrightarrow> c"
  by (simp add: invalid_unless_def)

section \<open>Single records\<close>

definition unaccepted_through :: "HostEventSourceState \<Rightarrow> nat" where
  "unaccepted_through source = (if src_unaccepted source = [] then 0 else rng_through (last (src_unaccepted source)))"

definition replay_gap_consistent :: "HostEventSourceState \<Rightarrow> bool" where
  "replay_gap_consistent source \<longleftrightarrow>
     (let reg = src_registration source in
      case src_lastReplayGap source of
        None \<Rightarrow> src_replayFloor source = reg_startingSequence reg
      | Some gap \<Rightarrow>
          cu_sourceId gap = reg_sourceId reg \<and> cu_sourceEpoch gap = reg_sourceEpoch reg \<and>
          cu_scopeVersion gap \<le> reg_scopeVersion reg \<and> cu_generation gap \<le> src_catchUpGeneration source \<and>
          gap_throughSequence gap + 1 = src_replayFloor source \<and> gap_throughSequence gap \<le> src_retiredThrough source)"

definition seal_consistent :: "HostEventSourceState \<Rightarrow> bool" where
  "seal_consistent source \<longleftrightarrow>
     (let reg = src_registration source in
      case src_seal source of
        None \<Rightarrow> True
      | Some seal \<Rightarrow>
          seal_sourceId seal = reg_sourceId reg \<and> seal_sourceEpoch seal = reg_sourceEpoch reg \<and>
          seal_scopeVersion seal \<le> reg_scopeVersion reg \<and> seal_generation seal \<le> src_catchUpGeneration source \<and>
          seal_throughSequence seal \<le> src_acceptedThrough source)"

definition sourceFromValue :: "HostEventSourceState \<Rightarrow> orch_error + unit" where
  "sourceFromValue source =
     (let reg = src_registration source in
      bindE (invalid_unless (1 \<le> src_replayFloor source)) (\<lambda>_.
      bindE (invalid_unless (\<not> (src_replayFloor source \<le> unaccepted_through source \<or>
               (src_lastReplayGap source = None \<and> reg_startingSequence reg \<le> unaccepted_through source)))) (\<lambda>_.
      bindE (invalid_unless (src_retiredThrough source \<le> src_acceptedThrough source \<and>
               reg_startingSequence reg \<le> src_acceptedThrough source + 1 \<and>
               reg_startingSequence reg \<le> src_replayFloor source \<and>
               src_replayFloor source \<le> src_acceptedThrough source + 1 \<and>
               replay_gap_consistent source \<and> seal_consistent source)) (\<lambda>_.
      invalid_unless (\<not> (src_ended source \<noteq> None \<and>
               (src_seal source \<noteq> None \<or> src_retiredThrough source \<noteq> src_acceptedThrough source)))))))"

definition subscriptionFromValue :: "json_env \<Rightarrow> HostEventSubscription \<Rightarrow> orch_error + unit" where
  "subscriptionFromValue J subscription =
     bindE (invalid_unless (1 \<le> sub_revision subscription \<and> 1 \<le> sub_createdOrdinal subscription \<and>
              sub_revokedOrdinal subscription \<noteq> Some 0)) (\<lambda>_.
     invalid_unless (sub_subscriptionId subscription =
       hostEventSubscriptionId (je_hash J) (sub_taskId subscription) (si_threadKey subscription)))"

definition eventFromValue :: "AcceptedHostEvent \<Rightarrow> orch_error + unit" where
  "eventFromValue event =
     (let envelope = ae_envelope event; receipt = ae_receipt event in
      bindE (invalid_unless (hr_sourceId receipt = env_sourceId envelope \<and>
               hr_sourceEpoch receipt = env_sourceEpoch envelope \<and>
               hr_sourceSequence receipt = env_sourceSequence envelope \<and>
               hr_eventId receipt = payload_eventId (env_event envelope) \<and>
               hr_payloadDigest receipt = payload_digest (env_event envelope))) (\<lambda>_.
      bindE (invalid_unless (length (ae_deliveryIds event) \<le> MAX_HOST_EVENT_TARGETS)) (\<lambda>_.
      invalid_unless (distinct (ae_deliveryIds event) \<and> 1 \<le> ae_acceptedOrdinal event))))"

definition binding_fits_target :: "HostEventDelivery \<Rightarrow> HostEventDeliveryBinding \<Rightarrow> bool" where
  "binding_fits_target delivery binding \<longleftrightarrow>
     (case del_target delivery of
        TargetRoot v \<Rightarrow> False
      | TargetTask taskId subscriptionId revision \<Rightarrow>
          hb_deliveryId binding = del_deliveryId delivery \<and> hb_eventId binding = del_eventId delivery \<and>
          hb_generation binding = del_generation delivery \<and> hb_subscriptionId binding = subscriptionId \<and>
          hb_subscriptionRevision binding \<le> revision \<and> hx_taskId (hb_execution binding) = taskId)"

definition receipt_fits_target :: "HostEventDelivery \<Rightarrow> bool" where
  "receipt_fits_target delivery \<longleftrightarrow>
     (if is_root_target (del_target delivery)
      then \<not> (del_binding delivery \<noteq> None \<or> del_transcriptReceipt delivery \<noteq> None \<or>
              del_mailboxAccepted delivery \<or> del_generation delivery \<noteq> 0)
      else del_parentReceiptId delivery = None)"

definition deliveryFromValue :: "HostEventDelivery \<Rightarrow> orch_error + unit" where
  "deliveryFromValue delivery =
     (let bound = del_binding delivery \<noteq> None; transcribed = del_transcriptReceipt delivery \<noteq> None;
          retired = del_bindingRetired delivery; status = del_status delivery in
      bindE (invalid_unless (case del_binding delivery of None \<Rightarrow> True | Some b \<Rightarrow> binding_fits_target delivery b)) (\<lambda>_.
      bindE (case del_transcriptReceipt delivery of
               None \<Rightarrow> Inr ()
             | Some receipt \<Rightarrow>
                 (case del_binding delivery of
                    None \<Rightarrow> Inl (HostError HostInvalid)
                  | Some b \<Rightarrow> mapE HostError (assertHostEventReceiptMatchesBinding receipt b))) (\<lambda>_.
      bindE (invalid_unless (receipt_fits_target delivery)) (\<lambda>_.
      bindE (invalid_unless (\<not> (del_mailboxAccepted delivery \<and> \<not> bound))) (\<lambda>_.
      bindE (invalid_unless (\<not> (del_mailboxSettled delivery \<and> (\<not> bound \<or> (\<not> transcribed \<and> \<not> retired))))) (\<lambda>_.
      bindE (invalid_unless (\<not> (retired \<and> (\<not> bound \<or> transcribed)))) (\<lambda>_.
      bindE (invalid_unless (\<not> (status = DelConsumed \<and> \<not> transcribed \<and> del_parentReceiptId delivery = None))) (\<lambda>_.
      invalid_unless ((status = DelConsumed \<or> status = DelSettled) = (del_settledAt delivery \<noteq> None))))))))))"

definition parseHostEventProjection :: "json_env \<Rightarrow> 'a HostEventProjection_scheme \<Rightarrow> orch_error + unit" where
  "parseHostEventProjection J p =
     bindE (require (length (eventSources p) \<le> MAX_HOST_EVENT_SOURCES) (HostError HostCapacity)) (\<lambda>_.
     bindE (forE (\<lambda>(_, source). sourceFromValue source) (eventSources p)) (\<lambda>_.
     bindE (require (length (hostEvents p) \<le> MAX_HOST_EVENTS) (HostError HostCapacity)) (\<lambda>_.
     bindE (forE (\<lambda>(_, event). eventFromValue event) (hostEvents p)) (\<lambda>_.
     bindE (require (length (threadSubscriptions p) \<le> MAX_HOST_EVENT_SUBSCRIPTIONS) (HostError HostCapacity)) (\<lambda>_.
     bindE (forE (\<lambda>(_, subscription). subscriptionFromValue J subscription) (threadSubscriptions p)) (\<lambda>_.
     bindE (require (length (eventDeliveries p) \<le> MAX_HOST_EVENT_DELIVERIES) (HostError HostCapacity)) (\<lambda>_.
     bindE (forE (\<lambda>(_, delivery). deliveryFromValue delivery) (eventDeliveries p)) (\<lambda>_.
     bindE (hostEventCapacity J p) (\<lambda>_. Inr ())))))))))"

section \<open>References between records\<close>

text \<open>A completed observation of a retained seal has its accepted event, unless that event is retired history.\<close>

definition observation_backed ::
  "json_env \<Rightarrow> 'a TaskRuntimeProjection_scheme \<Rightarrow> string \<Rightarrow> HostEventSourceState \<Rightarrow> HostEventSealObservation \<Rightarrow> bool" where
  "observation_backed J state sourceId source observation \<longleftrightarrow>
     (let envelope = map_option ae_envelope
            (if truthy (so_eventId observation) then map_of (hostEvents state) (the (so_eventId observation)) else None) in
      so_status observation \<noteq> ObsCompleted \<or>
      (envelope = None \<and> hostEventObservationIsHistory state source observation) \<or>
      (case envelope of
         None \<Rightarrow> False
       | Some e \<Rightarrow>
           (case ci_of (env_event e) of
              None \<Rightarrow> False
            | Some event \<Rightarrow>
                env_sourceId e = sourceId \<and> Some (env_sourceSequence e) = so_sourceSequence observation \<and>
                ciSubjectKey (je_hash J) (ciEventSubject event) = ciSubjectKey (je_hash J) (so_subject observation) \<and>
                ci_runId (ct_identity event) = so_runId observation \<and>
                ci_runNumber (ct_identity event) = so_runNumber observation \<and>
                ci_runAttempt (ct_identity event) = so_runAttempt observation \<and>
                Some (ct_conclusion event) = so_conclusion observation)))"

definition source_references :: "json_env \<Rightarrow> 'a TaskRuntimeProjection_scheme \<Rightarrow> string \<times> HostEventSourceState \<Rightarrow> orch_error + unit" where
  "source_references J state entry =
     (let (k, source) = entry in
      bindE (invalid_unless (k = reg_sourceId (src_registration source))) (\<lambda>_.
      forE (\<lambda>observation. invalid_unless (observation_backed J state k source observation))
        (case src_seal source of None \<Rightarrow> [] | Some seal \<Rightarrow> seal_observations seal)))"

definition subscription_references :: "'a TaskRuntimeProjection_scheme \<Rightarrow> string \<times> HostEventSubscription \<Rightarrow> orch_error + unit" where
  "subscription_references state entry =
     (let (k, subscription) = entry in
      invalid_unless (k = sub_subscriptionId subscription \<and> map_of (tasks state) (sub_taskId subscription) \<noteq> None \<and>
        sub_createdOrdinal subscription \<le> lastOrdinal state \<and>
        (case sub_revokedOrdinal subscription of None \<Rightarrow> True | Some r \<Rightarrow> r \<le> lastOrdinal state)))"

definition event_references ::
  "'a TaskRuntimeProjection_scheme \<Rightarrow> (string \<times> string \<times> nat) list \<Rightarrow> string \<times> AcceptedHostEvent \<Rightarrow>
   orch_error + (string \<times> string \<times> nat) list" where
  "event_references state positions entry =
     (let (k, event) = entry; envelope = ae_envelope event;
          position = (env_sourceId envelope, env_sourceEpoch envelope, env_sourceSequence envelope) in
      bindE (invalid_unless (k = payload_eventId (env_event envelope) \<and>
               (case map_of (eventSources state) (env_sourceId envelope) of
                  None \<Rightarrow> False
                | Some source \<Rightarrow>
                    reg_sourceEpoch (src_registration source) = env_sourceEpoch envelope \<and>
                    env_sourceSequence envelope \<le> src_acceptedThrough source) \<and>
               position \<notin> set positions \<and> ae_acceptedOrdinal event \<le> lastOrdinal state)) (\<lambda>_.
      bindE (forE (\<lambda>deliveryId. invalid_unless (case map_of (eventDeliveries state) deliveryId of
                     None \<Rightarrow> False | Some delivery \<Rightarrow> del_eventId delivery = k)) (ae_deliveryIds event)) (\<lambda>_.
      Inr (position # positions))))"

definition delivery_references :: "'a TaskRuntimeProjection_scheme \<Rightarrow> string \<times> HostEventDelivery \<Rightarrow> orch_error + unit" where
  "delivery_references state entry =
     (let (k, delivery) = entry in
      case map_of (hostEvents state) (del_eventId delivery) of
        None \<Rightarrow> Inl (HostError HostInvalid)
      | Some event \<Rightarrow>
          bindE (invalid_unless (k = del_deliveryId delivery \<and> k \<in> set (ae_deliveryIds event) \<and>
                   isCiEnvelope (ae_envelope event))) (\<lambda>_.
          bindE (case del_target delivery of
                   TargetRoot v \<Rightarrow> Inr ()
                 | TargetTask taskId subscriptionId revision \<Rightarrow>
                     invalid_unless (case map_of (threadSubscriptions state) subscriptionId of
                       None \<Rightarrow> False
                     | Some subscription \<Rightarrow> sub_taskId subscription = taskId \<and> revision \<le> sub_revision subscription)) (\<lambda>_.
          case del_binding delivery of
            None \<Rightarrow> Inr ()
          | Some binding \<Rightarrow>
              invalid_unless (hb_payloadDigest binding = payload_digest (env_event (ae_envelope event)) \<and>
                (case map_of (attempts state) (hx_attemptId (hb_execution binding)) of
                   None \<Rightarrow> False
                 | Some attempt \<Rightarrow> att_taskId attempt = hx_taskId (hb_execution binding))))))"

definition validateHostEventGraph :: "json_env \<Rightarrow> 'a TaskRuntimeProjection_scheme \<Rightarrow> orch_error + unit" where
  "validateHostEventGraph J state =
     bindE (forE (source_references J state) (eventSources state)) (\<lambda>_.
     bindE (forE (subscription_references state) (threadSubscriptions state)) (\<lambda>_.
     bindE (foldE (event_references state) [] (hostEvents state)) (\<lambda>_.
     forE (delivery_references state) (eventDeliveries state))))"

end
