(* ===== verification/Snapshot_Validation.thy ===== *)
theory Snapshot_Validation
  imports Host_Event_Validation Risk_Budget
begin

text \<open>
  What a snapshot must satisfy to be read back (\<open>projectionFromSnapshot\<close> and \<open>validateSnapshotTaskGraph\<close> in
  \<open>core/orchestration/task-runtime-codecs.ts\<close>): the bounds of its collections, the consistency of each record and
  the references between objectives, tasks, attempts, checkpoints, agents, approvals and notifications. A snapshot
  is the decoded projection; the shape and length of single fields, and the normalisations their event codecs have
  already made, are those of the decoded types. The message of a notification is the one text no event codec
  bounds, so its decoding is modelled.
\<close>

section \<open>Errors\<close>

datatype task_fault =
    TaskListedTwice | ListsForeignTask | TaskWithoutObjective | TaskNotListed | UnknownCriteria
    | SelfDependency | ForeignDependency | CyclicDependency | VerificationBindingInvalid
    | VerificationRelationInvalid | SeveralLiveAttempts | TaskNotRunning | QueuedTaskStatus
    | RunningWithoutAttempt

datatype attempt_fault =
    AttemptListedTwice | ListsForeignAttempt | DispatchForeign | AttemptNotListed | ContractInconsistent
    | LeaseForeign | GrantInconsistent | LiveWithoutGrantOrLease | QueuedWithExecution | RetryOutsideLifecycle
    | AgentUnknown | ResultInconsistent | EvidenceUntrusted | ResultMissing | VerificationNotRequested

datatype usage_fault =
    AccountingWithoutLease | GenerationInFuture | AccountingInvalid | ReceiptsWithoutAccounting
    | ReceiptWithoutGeneration | ReceiptsExceedAccounting | ReceiptInvalid

datatype agent_fault =
    CheckpointListedTwice | ListsForeignCheckpoint | CheckpointOwnership | CheckpointUnrelated
    | LineageInvalid | LineageCyclic | IdleAgentOwns | ActiveAgentOwnsNothing | AgentStatusConflict
    | AgentBindingInconsistent

datatype approval_fault =
    ApprovalOwnership | ApprovalForeignTask | ApprovalForeignAttempt | ApprovalNotAwaiting
    | ApprovalWithoutNotification | NotificationOwnership | NotificationForeignAttempt

datatype record_fault =
    KeyDiffers | DatesReversed | CriteriaInvalid | BudgetInvalid | DuplicateEvidence | EvidenceCriterionGone
    | LeaseInvalid | RetryInvalid | LifetimeWithoutProcess | SubjectDiffers | ParentWriteInvalid
    | OriginNotThirdParty | CheckpointInvalid | ApprovalRequestsNothing | ResolutionInvalid
    | DeliveryInconsistent | MessageInvalid

datatype snapshot_fault =
    TaskFault task_fault
  | AttemptFault attempt_fault
  | UsageFault usage_fault
  | AgentFault agent_fault
  | ApprovalFault approval_fault
  | RecordFault record_fault

datatype snapshot_error =
    OrdinalDiffers
  | SnapshotFault snapshot_fault string
  | SnapshotOrch orch_error

definition sound :: "snapshot_fault \<Rightarrow> string \<Rightarrow> bool \<Rightarrow> snapshot_error + unit" where
  "sound fault k c = require c (SnapshotFault fault k)"

lemma sound_iff [simp]: "sound fault k c = Inr u \<longleftrightarrow> c"
  by (simp add: sound_def)

abbreviation orch :: "orch_error + 'a \<Rightarrow> snapshot_error + 'a" where
  "orch \<equiv> mapE SnapshotOrch"

definition predates :: "timestamp \<Rightarrow> timestamp \<Rightarrow> bool" where
  "predates a b \<longleftrightarrow> js_lt (date_parse a) (date_parse b)"

section \<open>Single records\<close>

definition budget_sound :: "RiskBudget \<Rightarrow> bool" where
  "budget_sound budget \<longleftrightarrow> (case validateRiskBudget budget of Inr _ \<Rightarrow> True | Inl _ \<Rightarrow> False)"

definition usage_readable :: "AttemptUsageSnapshot \<Rightarrow> bool" where
  "usage_readable usage \<longleftrightarrow> (case validateAttemptUsageSnapshot usage of Inr _ \<Rightarrow> True | Inl _ \<Rightarrow> False)"

definition evidence_ids_distinct :: "EvidenceContract list \<Rightarrow> bool" where
  "evidence_ids_distinct evidence \<longleftrightarrow> distinct (map ev_evidenceId evidence)"

definition evidence_criterion_known :: "ObjectiveContract \<Rightarrow> EvidenceContract \<Rightarrow> bool" where
  "evidence_criterion_known objective e \<longleftrightarrow>
     \<not> truthy (ev_criterionId e) \<or> the (ev_criterionId e) \<in> set (map crit_id (obj_acceptanceCriteria objective))"

definition objectiveRuntimeStateFromValue :: "string \<times> ObjectiveRuntimeState \<Rightarrow> snapshot_error + unit" where
  "objectiveRuntimeStateFromValue entry =
     (let (k, state) = entry; objective = os_objective state in
      bindE (sound (RecordFault CriteriaInvalid) k (length (obj_acceptanceCriteria objective) \<le> MAX_ORCHESTRATION_COLLECTION_LENGTH \<and>
               assertAcceptanceCriteria (obj_acceptanceCriteria objective))) (\<lambda>_.
      bindE (sound (RecordFault BudgetInvalid) k (budget_sound (obj_riskBudget objective))) (\<lambda>_.
      bindE (sound (RecordFault DuplicateEvidence) k (evidence_ids_distinct (os_evidence state))) (\<lambda>_.
      bindE (sound (RecordFault EvidenceCriterionGone) k (list_all (evidence_criterion_known objective) (os_evidence state))) (\<lambda>_.
      orch (assertBoundedIdentifierList (os_taskIds state) MAX_ORCHESTRATION_TASKS))))))"

definition taskRuntimeStateFromValue :: "string \<times> TaskRuntimeState \<Rightarrow> snapshot_error + unit" where
  "taskRuntimeStateFromValue entry =
     (let (k, state) = entry; task = ts_task state in
      bindE (sound (RecordFault BudgetInvalid) k (budget_sound (task_riskBudget task))) (\<lambda>_.
      bindE (orch (assertBoundedIdentifierList (task_dependsOn task) MAX_ORCHESTRATION_COLLECTION_LENGTH)) (\<lambda>_.
      bindE (orch (assertBoundedIdentifierList (task_acceptanceCriterionIds task) MAX_ORCHESTRATION_COLLECTION_LENGTH)) (\<lambda>_.
      orch (assertBoundedIdentifierList (ts_attemptIds state) MAX_ORCHESTRATION_ATTEMPTS)))))"

definition leaseFromValue :: "string \<Rightarrow> AttemptLease \<Rightarrow> snapshot_error + unit" where
  "leaseFromValue k lease =
     sound (RecordFault LeaseInvalid) k (1 \<le> lease_fencingToken lease \<and> int (lease_fencingToken lease) \<le> MAX_SAFE_INTEGER \<and>
       js_lt (date_parse (lease_issuedAt lease)) (date_parse (lease_expiresAt lease)))"

definition retryStateFromValue :: "string \<Rightarrow> AttemptRetryState \<Rightarrow> snapshot_error + unit" where
  "retryStateFromValue k retry =
     sound (RecordFault RetryInvalid) k (1 \<le> retry_retriesUsed retry \<and> int (retry_retriesUsed retry) \<le> MAX_SAFE_INTEGER \<and>
       js_is_finite (date_parse (retry_notBefore retry)))"

definition usageReceiptsFromValue :: "string \<Rightarrow> AttemptUsageReceipt js_record \<Rightarrow> snapshot_error + unit" where
  "usageReceiptsFromValue k receipts =
     forE (\<lambda>(receiptId, receipt). sound (UsageFault ReceiptInvalid) k
             (ur_receiptId receipt = receiptId \<and> 1 \<le> ur_fencingToken receipt \<and> usage_readable (ur_usage receipt)))
       receipts"

definition usageAccountingFromValue :: "string \<Rightarrow> AttemptUsageAccounting \<Rightarrow> snapshot_error + unit" where
  "usageAccountingFromValue k accounting =
     bindE (sound (UsageFault AccountingInvalid) k
              (list_all (\<lambda>g. 1 \<le> gen_fencingToken g \<and> usage_readable (gen_baseline g) \<and> usage_readable (gen_reported g))
                 (js_values (acct_generations accounting)) \<and>
               distinct (map gen_fencingToken (js_values (acct_generations accounting))) \<and>
               usage_readable (acct_total accounting))) (\<lambda>_.
     bindE (mapE (\<lambda>e. SnapshotOrch (UsageError e)) (totalAttemptGenerationUsage (acct_generations accounting))) (\<lambda>derived.
     sound (UsageFault AccountingInvalid) k (sameUsage (acct_total accounting) derived)))"

definition attemptParentWritesFromValue :: "string \<Rightarrow> AttemptParentWrite js_record \<Rightarrow> snapshot_error + unit" where
  "attemptParentWritesFromValue k writes =
     bindE (sound (RecordFault ParentWriteInvalid) k (length writes \<le> MAX_ORCHESTRATION_ATTEMPT_PARENT_WRITES)) (\<lambda>_.
     forE (\<lambda>(writeId, write). sound (RecordFault ParentWriteInvalid) k (pw_writeId write = writeId \<and> 1 \<le> pw_sequence write)) writes)"

text \<open>An optional field is checked when it is present.\<close>

definition when_present :: "'a option \<Rightarrow> ('a \<Rightarrow> 'e + unit) \<Rightarrow> 'e + unit" where
  "when_present x f = (case x of None \<Rightarrow> Inr () | Some v \<Rightarrow> f v)"

lemma when_present_simps [simp]:
  "when_present None f = Inr ()" "when_present (Some v) f = f v"
  by (simp_all add: when_present_def)

definition attemptRuntimeStateFromValue :: "string \<times> AttemptRuntimeState \<Rightarrow> snapshot_error + unit" where
  "attemptRuntimeStateFromValue entry =
     (let (k, attempt) = entry in
      bindE (sound (RecordFault LifetimeWithoutProcess) k (att_managedLifetime attempt = None \<or>
               dispatch_executionKind (att_dispatch attempt) = Some ManagedProcess)) (\<lambda>_.
      bindE (when_present (att_verification attempt) (\<lambda>v.
               sound (RecordFault SubjectDiffers) k (av_subjectAttemptId v = att_attemptId attempt))) (\<lambda>_.
      bindE (sound (RecordFault DatesReversed) k (\<not> predates (att_updatedAt attempt) (att_createdAt attempt))) (\<lambda>_.
      bindE (when_present (att_lease attempt) (leaseFromValue k)) (\<lambda>_.
      bindE (when_present (att_retry attempt) (retryStateFromValue k)) (\<lambda>_.
      bindE (when_present (att_admittedTurnOrigin attempt) (\<lambda>origin.
               sound (RecordFault OriginNotThirdParty) k (to_thirdParty origin))) (\<lambda>_.
      bindE (when_present (att_usageAccounting attempt) (usageAccountingFromValue k)) (\<lambda>_.
      bindE (when_present (att_usageReceipts attempt) (usageReceiptsFromValue k)) (\<lambda>_.
      bindE (orch (assertBoundedIdentifierList (att_checkpointIds attempt) MAX_ORCHESTRATION_CHECKPOINTS)) (\<lambda>_.
      when_present (att_parentWrites attempt) (attemptParentWritesFromValue k)))))))))))"

definition checkpointFromValue :: "string \<times> AttemptCheckpoint \<Rightarrow> snapshot_error + unit" where
  "checkpointFromValue entry =
     (let (k, checkpoint) = entry in
      sound (RecordFault CheckpointInvalid) k (1 \<le> ck_fencingToken checkpoint \<and>
        (case ck_usage checkpoint of None \<Rightarrow> True | Some usage \<Rightarrow> usage_readable usage)))"

definition normalizeAgentBinding :: "string \<times> AgentBindingContract \<Rightarrow> snapshot_error + unit" where
  "normalizeAgentBinding entry =
     (let (k, agent) = entry in
      sound (RecordFault DatesReversed) k (\<not> predates (agent_updatedAt agent) (agent_createdAt agent)))"

definition resolution_sound :: "ApprovalRuntimeState \<Rightarrow> bool" where
  "resolution_sound approval \<longleftrightarrow>
     (case (as_status approval, as_resolution approval) of
        (ApprovalPending, None) \<Rightarrow> True
      | (ApprovalResolved outcome, Some resolution) \<Rightarrow>
          ars_approvalId resolution = apr_approvalId (as_request approval) \<and> ars_outcome resolution = outcome \<and>
          \<not> predates (ars_resolvedAt resolution) (apr_createdAt (as_request approval))
      | _ \<Rightarrow> False)"

definition approvalRuntimeStateFromValue :: "string \<times> ApprovalRuntimeState \<Rightarrow> snapshot_error + unit" where
  "approvalRuntimeStateFromValue entry =
     (let (k, approval) = entry; request = as_request approval in
      bindE (sound (RecordFault BudgetInvalid) k (case apr_requestedBudget request of None \<Rightarrow> True | Some b \<Rightarrow> budget_sound b)) (\<lambda>_.
      bindE (sound (RecordFault ApprovalRequestsNothing) k
               (apr_requestedCapabilities request \<noteq> [] \<or> apr_requestedBudget request \<noteq> None)) (\<lambda>_.
      sound (RecordFault ResolutionInvalid) k (resolution_sound approval))))"

definition MAX_ORCHESTRATION_DESCRIPTION_LENGTH :: nat where
  "MAX_ORCHESTRATION_DESCRIPTION_LENGTH = 4 * 1024"

definition retainedDescription :: "string \<Rightarrow> string \<Rightarrow> snapshot_error + string" where
  "retainedDescription k s =
     (let description = js_trim s in
      if description = [] \<or> MAX_ORCHESTRATION_DESCRIPTION_LENGTH < length description
      then Inl (SnapshotFault (RecordFault MessageInvalid) k) else Inr description)"

definition notificationRuntimeStateFromValue ::
  "string \<times> NotificationRuntimeState \<Rightarrow> snapshot_error + string \<times> NotificationRuntimeState" where
  "notificationRuntimeStateFromValue entry =
     (let (k, note) = entry in
      bindE (sound (RecordFault DeliveryInconsistent) k ((note_status note = NoteDelivered) = (note_deliveredAt note \<noteq> None) \<and>
               (case note_deliveredAt note of None \<Rightarrow> True | Some at' \<Rightarrow> \<not> predates at' (note_createdAt note)))) (\<lambda>_.
      bindE (retainedDescription k (note_message note)) (\<lambda>message.
      Inr (k, note\<lparr>note_message := message\<rparr>))))"

fun mapEs :: "('a \<Rightarrow> 'e + 'b) \<Rightarrow> 'a list \<Rightarrow> 'e + 'b list" where
  "mapEs f [] = Inr []"
| "mapEs f (x # xs) = bindE (f x) (\<lambda>y. bindE (mapEs f xs) (\<lambda>ys. Inr (y # ys)))"

section \<open>Objectives and tasks\<close>

definition claim_task ::
  "'a TaskRuntimeProjection_scheme \<Rightarrow> string \<Rightarrow> string js_record \<Rightarrow> string \<Rightarrow> snapshot_error + string js_record" where
  "claim_task state objectiveId owners taskId =
     bindE (sound (TaskFault TaskListedTwice) taskId (\<not> truthy (map_of owners taskId))) (\<lambda>_.
     bindE (sound (TaskFault ListsForeignTask) taskId (case map_of (tasks state) taskId of
              None \<Rightarrow> False | Some task \<Rightarrow> task_objectiveId (ts_task task) = objectiveId)) (\<lambda>_.
     Inr (js_set taskId objectiveId owners)))"

definition snapshot_objective ::
  "'a TaskRuntimeProjection_scheme \<Rightarrow> string js_record \<Rightarrow> string \<times> ObjectiveRuntimeState \<Rightarrow>
   snapshot_error + string js_record" where
  "snapshot_objective state owners entry =
     (let (objectiveId, objective) = entry in
      bindE (sound (RecordFault KeyDiffers) objectiveId (obj_objectiveId (os_objective objective) = objectiveId)) (\<lambda>_.
      bindE (sound (RecordFault DatesReversed) objectiveId
               (\<not> predates (obj_updatedAt (os_objective objective)) (obj_createdAt (os_objective objective)))) (\<lambda>_.
      foldE (claim_task state objectiveId) owners (os_taskIds objective))))"

definition snapshot_dependency ::
  "'a TaskRuntimeProjection_scheme \<Rightarrow> string \<Rightarrow> TaskRuntimeState \<Rightarrow> string \<Rightarrow> snapshot_error + unit" where
  "snapshot_dependency state taskId task dependencyId =
     bindE (sound (TaskFault SelfDependency) taskId (dependencyId \<noteq> taskId)) (\<lambda>_.
     bindE (sound (TaskFault ForeignDependency) taskId (case map_of (tasks state) dependencyId of
              None \<Rightarrow> False
            | Some dependency \<Rightarrow> task_objectiveId (ts_task dependency) = task_objectiveId (ts_task task))) (\<lambda>_.
     sound (TaskFault CyclicDependency) taskId (\<not> taskDependencyReaches (tasks state) dependencyId taskId)))"

definition snapshot_verification ::
  "'a TaskRuntimeProjection_scheme \<Rightarrow> string \<Rightarrow> TaskContract \<Rightarrow> snapshot_error + unit" where
  "snapshot_verification state taskId task =
     bindE (sound (TaskFault VerificationBindingInvalid) taskId
              (\<not> (truthy (task_verificationOfAttemptId task) \<and>
                  (\<not> truthy (task_verificationOfTaskId task) \<or> verificationSubjectAttempt state task = None)))) (\<lambda>_.
     sound (TaskFault VerificationRelationInvalid) taskId
       (\<not> truthy (task_verificationOfTaskId task) \<or>
        (case map_of (tasks state) (the (task_verificationOfTaskId task)) of
           None \<Rightarrow> False
         | Some subject \<Rightarrow>
             task_objectiveId (ts_task subject) = task_objectiveId task \<and> task_role task = Verifier \<and>
             task_role (ts_task subject) \<noteq> Verifier)))"

definition snapshot_task ::
  "'a TaskRuntimeProjection_scheme \<Rightarrow> string js_record \<Rightarrow> string \<times> TaskRuntimeState \<Rightarrow> snapshot_error + unit" where
  "snapshot_task state owners entry =
     (let (taskId, taskState) = entry; task = ts_task taskState in
      bindE (sound (RecordFault KeyDiffers) taskId (task_taskId task = taskId)) (\<lambda>_.
      case map_of (objectives state) (task_objectiveId task) of
        None \<Rightarrow> Inl (SnapshotFault (TaskFault TaskWithoutObjective) taskId)
      | Some objective \<Rightarrow>
          bindE (sound (TaskFault TaskNotListed) taskId (map_of owners taskId = Some (task_objectiveId task))) (\<lambda>_.
          bindE (sound (RecordFault DatesReversed) taskId (\<not> predates (task_updatedAt task) (task_createdAt task))) (\<lambda>_.
          bindE (sound (TaskFault UnknownCriteria) taskId
                   (set (task_acceptanceCriterionIds task) \<subseteq>
                    set (map crit_id (obj_acceptanceCriteria (os_objective objective))))) (\<lambda>_.
          bindE (forE (snapshot_dependency state taskId taskState) (task_dependsOn task)) (\<lambda>_.
          snapshot_verification state taskId task))))))"

section \<open>Attempts\<close>

definition claim_attempt ::
  "'a TaskRuntimeProjection_scheme \<Rightarrow> string \<Rightarrow> string js_record \<Rightarrow> string \<Rightarrow> snapshot_error + string js_record" where
  "claim_attempt state taskId owners attemptId =
     bindE (sound (AttemptFault AttemptListedTwice) attemptId (\<not> truthy (map_of owners attemptId))) (\<lambda>_.
     bindE (sound (AttemptFault ListsForeignAttempt) attemptId (case map_of (attempts state) attemptId of
              None \<Rightarrow> False
            | Some attempt \<Rightarrow> att_taskId attempt = taskId \<and> dispatch_taskId (att_dispatch attempt) = taskId)) (\<lambda>_.
     Inr (js_set attemptId taskId owners)))"

definition claim_attempts ::
  "'a TaskRuntimeProjection_scheme \<Rightarrow> string js_record \<Rightarrow> string \<times> TaskRuntimeState \<Rightarrow>
   snapshot_error + string js_record" where
  "claim_attempts state owners entry =
     (let (taskId, task) = entry in foldE (claim_attempt state taskId) owners (ts_attemptIds task))"

definition snapshot_accounting :: "string \<Rightarrow> AttemptRuntimeState \<Rightarrow> AttemptUsageAccounting \<Rightarrow> snapshot_error + unit" where
  "snapshot_accounting attemptId attempt accounting =
     (case att_lease attempt of
        None \<Rightarrow> Inl (SnapshotFault (UsageFault AccountingWithoutLease) attemptId)
      | Some lease \<Rightarrow>
          bindE (sound (UsageFault AccountingWithoutLease) attemptId (att_status attempt \<noteq> AttQueued)) (\<lambda>_.
          forE (\<lambda>(leaseId, generation). sound (UsageFault GenerationInFuture) attemptId
                  (\<not> (lease_fencingToken lease < gen_fencingToken generation \<or>
                      (gen_fencingToken generation = lease_fencingToken lease \<and> leaseId \<noteq> lease_leaseId lease))))
            (acct_generations accounting)))"

text \<open>\<open>Number.EPSILON\<close>, and the product of a number with a positive count.\<close>

definition NUMBER_EPSILON :: rat where "NUMBER_EPSILON = 1 / 2 ^ 52"

fun js_scale :: "rat \<Rightarrow> jsnum \<Rightarrow> jsnum" where
  "js_scale c (Fin q) = Fin (c * q)"
| "js_scale c PosInf = (if 0 < c then PosInf else if c < 0 then NegInf else NaN)"
| "js_scale c NegInf = (if 0 < c then NegInf else if c < 0 then PosInf else NaN)"
| "js_scale c NaN = NaN"

definition receipt_rounding :: "UsageField \<Rightarrow> AttemptUsageSnapshot \<Rightarrow> nat \<Rightarrow> jsnum" where
  "receipt_rounding key accounted receipts =
     (if key = UfCostUsd \<or> key = UfActiveWallClockMs
      then js_scale (NUMBER_EPSILON * of_nat receipts) (js_max (Fin 1) (usage_get accounted key)) else Fin 0)"

definition add_receipt ::
  "string \<Rightarrow> AttemptUsageAccounting \<Rightarrow> AttemptUsageSnapshot \<Rightarrow> AttemptUsageReceipt \<Rightarrow>
   snapshot_error + AttemptUsageSnapshot" where
  "add_receipt attemptId accounting pending receipt =
     bindE (sound (UsageFault ReceiptWithoutGeneration) attemptId (case map_of (acct_generations accounting) (ur_leaseId receipt) of
              None \<Rightarrow> False | Some generation \<Rightarrow> gen_fencingToken generation = ur_fencingToken receipt)) (\<lambda>_.
     mapE (\<lambda>e. SnapshotOrch (UsageError e)) (addAttemptUsage pending (ur_usage receipt)))"

definition snapshot_receipts :: "string \<Rightarrow> AttemptRuntimeState \<Rightarrow> AttemptUsageReceipt js_record \<Rightarrow> snapshot_error + unit" where
  "snapshot_receipts attemptId attempt receipts =
     (case att_usageAccounting attempt of
        None \<Rightarrow> Inl (SnapshotFault (UsageFault ReceiptsWithoutAccounting) attemptId)
      | Some accounting \<Rightarrow>
          bindE (foldE (add_receipt attemptId accounting) EMPTY_ATTEMPT_USAGE (js_values receipts)) (\<lambda>pending.
          forE (\<lambda>key. sound (UsageFault ReceiptsExceedAccounting) attemptId
                  (\<not> js_lt (receipt_rounding key (acct_total accounting) (length receipts))
                       (js_sub (usage_get pending key) (usage_get (acct_total accounting) key))))
            USAGE_FIELDS))"

definition snapshot_grant :: "string \<Rightarrow> AttemptRuntimeState \<Rightarrow> TaskContract \<Rightarrow> ExecutionGrant \<Rightarrow> snapshot_error + unit" where
  "snapshot_grant attemptId attempt task grant =
     sound (AttemptFault GrantInconsistent) attemptId
       (att_grantId attempt = Some (grant_grantId grant) \<and> grant_attemptId grant = attemptId \<and>
        grant_taskId grant = att_taskId attempt \<and> grant_objectiveId grant = task_objectiveId task \<and>
        grant_role grant = task_role task)"

definition snapshot_result :: "string \<Rightarrow> AttemptRuntimeState \<Rightarrow> TaskContract \<Rightarrow> snapshot_error + unit" where
  "snapshot_result attemptId attempt task =
     (case att_result attempt of
        None \<Rightarrow> sound (AttemptFault ResultMissing) attemptId (att_status attempt \<notin> {AttCompleted, AttPartial, AttFailed})
      | Some result \<Rightarrow>
          bindE (sound (AttemptFault ResultInconsistent) attemptId
                   (att_status attempt = result_attempt_status (res_status result) \<and> res_attemptId result = attemptId \<and>
                    res_taskId result = att_taskId attempt \<and> res_objectiveId result = task_objectiveId task \<and>
                    lease_matches attempt (res_leaseId result) (res_fencingToken result))) (\<lambda>_.
          sound (AttemptFault EvidenceUntrusted) attemptId
            (\<not> (res_status result = ResCompleted \<and>
                missingTrustedCriteria result (task_acceptanceCriterionIds task) \<noteq> []))))"

definition snapshot_attempt ::
  "json_env \<Rightarrow> 'a TaskRuntimeProjection_scheme \<Rightarrow> string js_record \<Rightarrow> string \<times> AttemptRuntimeState \<Rightarrow> snapshot_error + unit" where
  "snapshot_attempt J state owners entry =
     (let (attemptId, attempt) = entry; status = att_status attempt in
      bindE (when_present (att_receiptAcknowledgement attempt) (\<lambda>ack.
               orch (assertWorkerReceiptAcknowledgement (je_hash J) state attempt ack))) (\<lambda>_.
      bindE (orch (assertAttemptAgentBinding (att_agentId attempt) (att_dispatch attempt))) (\<lambda>_.
      bindE (sound (RecordFault KeyDiffers) attemptId (att_attemptId attempt = attemptId)) (\<lambda>_.
      bindE (sound (AttemptFault DispatchForeign) attemptId (dispatch_taskId (att_dispatch attempt) = att_taskId attempt)) (\<lambda>_.
      case map_of (tasks state) (att_taskId attempt) of
        None \<Rightarrow> Inl (SnapshotFault (AttemptFault AttemptNotListed) attemptId)
      | Some taskState \<Rightarrow>
          let task = ts_task taskState in
          bindE (sound (AttemptFault AttemptNotListed) attemptId (map_of owners attemptId = Some (att_taskId attempt))) (\<lambda>_.
          bindE (sound (AttemptFault ContractInconsistent) attemptId (dispatch_contract_fits (att_dispatch attempt) (task_role task))) (\<lambda>_.
          bindE (when_present (att_lease attempt) (\<lambda>lease.
                   sound (AttemptFault LeaseForeign) attemptId (lease_attemptId lease = attemptId))) (\<lambda>_.
          bindE (when_present (att_usageAccounting attempt) (snapshot_accounting attemptId attempt)) (\<lambda>_.
          bindE (when_present (att_usageReceipts attempt) (snapshot_receipts attemptId attempt)) (\<lambda>_.
          bindE (when_present (att_grant attempt) (snapshot_grant attemptId attempt task)) (\<lambda>_.
          bindE (sound (AttemptFault LiveWithoutGrantOrLease) attemptId
                   (\<not> (status \<in> {AttLeased, AttRunning, AttSuspended} \<and>
                       (\<not> truthy (att_grantId attempt) \<or> att_lease attempt = None)))) (\<lambda>_.
          bindE (sound (AttemptFault QueuedWithExecution) attemptId
                   (\<not> (status = AttQueued \<and> (att_lease attempt \<noteq> None \<or> truthy (att_agentId attempt) \<or>
                        att_result attempt \<noteq> None \<or> att_checkpointIds attempt \<noteq> [])))) (\<lambda>_.
          bindE (sound (AttemptFault RetryOutsideLifecycle) attemptId
                   (\<not> (att_retry attempt \<noteq> None \<and> (status \<notin> {AttSuspended, AttLeased, AttRunning} \<or>
                        \<not> truthy (att_agentId attempt) \<or> att_lease attempt = None)))) (\<lambda>_.
          bindE (sound (AttemptFault AgentUnknown) attemptId
                   (\<not> truthy (att_agentId attempt) \<or> map_of (agents state) (the (att_agentId attempt)) \<noteq> None)) (\<lambda>_.
          snapshot_result attemptId attempt task)))))))))))))))"

text \<open>A task and its one live attempt agree.\<close>

definition snapshot_live_attempt :: "'a TaskRuntimeProjection_scheme \<Rightarrow> string \<times> TaskRuntimeState \<Rightarrow> snapshot_error + unit" where
  "snapshot_live_attempt state entry =
     (let (taskId, task) = entry; status = task_status (ts_task task);
          live = filter (\<lambda>a. \<not> terminalAttemptStatus (att_status a)) (present_attempts state (ts_attemptIds task)) in
      bindE (sound (TaskFault SeveralLiveAttempts) taskId (length live \<le> 1)) (\<lambda>_.
      case live of
        [] \<Rightarrow> sound (TaskFault RunningWithoutAttempt) taskId (status \<noteq> TaskRunning)
      | attempt # _ \<Rightarrow>
          if att_status attempt \<in> {AttLeased, AttRunning, AttSuspended}
          then sound (TaskFault TaskNotRunning) taskId (status = TaskRunning)
          else sound (TaskFault QueuedTaskStatus) taskId
                 (\<not> (att_status attempt = AttQueued \<and> status \<noteq> TaskPending \<and> status \<noteq> TaskReady))))"

section \<open>Checkpoints\<close>

definition claim_checkpoint ::
  "'a TaskRuntimeProjection_scheme \<Rightarrow> string \<Rightarrow> string js_record \<Rightarrow> string \<Rightarrow> snapshot_error + string js_record" where
  "claim_checkpoint state attemptId owners checkpointId =
     bindE (sound (AgentFault CheckpointListedTwice) checkpointId (map_of owners checkpointId = None)) (\<lambda>_.
     bindE (sound (AgentFault ListsForeignCheckpoint) checkpointId (case map_of (checkpoints state) checkpointId of
              None \<Rightarrow> False | Some checkpoint \<Rightarrow> ck_attemptId checkpoint = attemptId)) (\<lambda>_.
     Inr (js_set checkpointId attemptId owners)))"

definition claim_checkpoints ::
  "'a TaskRuntimeProjection_scheme \<Rightarrow> string js_record \<Rightarrow> string \<times> AttemptRuntimeState \<Rightarrow>
   snapshot_error + string js_record" where
  "claim_checkpoints state owners entry =
     (let (attemptId, attempt) = entry in foldE (claim_checkpoint state attemptId) owners (att_checkpointIds attempt))"

definition snapshot_checkpoint ::
  "'a TaskRuntimeProjection_scheme \<Rightarrow> string js_record \<Rightarrow> string \<times> AttemptCheckpoint \<Rightarrow> snapshot_error + unit" where
  "snapshot_checkpoint state owners entry =
     (let (checkpointId, checkpoint) = entry in
      sound (AgentFault CheckpointOwnership) checkpointId
        (ck_checkpointId checkpoint = checkpointId \<and> map_of owners checkpointId = Some (ck_attemptId checkpoint) \<and>
         (case map_of (attempts state) (ck_attemptId checkpoint) of
            None \<Rightarrow> False
          | Some attempt \<Rightarrow>
              (case att_lease attempt of
                 None \<Rightarrow> False
               | Some lease \<Rightarrow>
                   ck_fencingToken checkpoint \<le> lease_fencingToken lease \<and>
                   \<not> predates (ck_createdAt checkpoint) (att_createdAt attempt)))))"

section \<open>Agents\<close>

function lineage_acyclic :: "AgentBindingContract js_record \<Rightarrow> string list \<Rightarrow> string option \<Rightarrow> bool" where
  "lineage_acyclic m lineage None = True"
| "lineage_acyclic m lineage (Some ancestor) =
     (if ancestor = [] then True
      else if ancestor \<in> set lineage then False
      else lineage_acyclic m (ancestor # lineage) (agent_parent m ancestor))"
  by pat_completeness auto

termination lineage_acyclic
proof (relation "measures [\<lambda>(m, lineage, ancestor). card (set (js_keys m) - set lineage),
    \<lambda>(m, lineage, ancestor). if ancestor = None then 0 else 1 :: nat]", goal_cases)
  case (2 m lineage ancestor)
  show ?case
  proof (cases "ancestor \<in> set (js_keys m)")
    case True
    with 2 have "set (js_keys m) - set (ancestor # lineage) \<subset> set (js_keys m) - set lineage" by auto
    then have "card (set (js_keys m) - set (ancestor # lineage)) < card (set (js_keys m) - set lineage)"
      by (intro psubset_card_mono) auto
    then show ?thesis by simp
  next
    case False
    then have "set (js_keys m) - set (ancestor # lineage) = set (js_keys m) - set lineage" by auto
    moreover from False have "agent_parent m ancestor = None"
      by (force simp: agent_parent_def split: option.splits dest: map_of_SomeD)
    ultimately show ?thesis by simp
  qed
qed auto

definition lineage_valid :: "AgentBindingContract js_record \<Rightarrow> string \<Rightarrow> AgentBindingContract \<Rightarrow> bool" where
  "lineage_valid m agentId agent \<longleftrightarrow>
     (if truthy (agent_parentAgentId agent)
      then (case map_of m (the (agent_parentAgentId agent)) of
              None \<Rightarrow> False
            | Some parent \<Rightarrow> agent_rootAgentId parent = agent_rootAgentId agent \<and> agent_depth agent = agent_depth parent + 1)
      else agent_rootAgentId agent = agentId \<and> agent_depth agent = 0)"

definition snapshot_agent_attempt ::
  "'a TaskRuntimeProjection_scheme \<Rightarrow> string \<Rightarrow> AgentBindingContract \<Rightarrow> snapshot_error + unit" where
  "snapshot_agent_attempt state agentId agent =
     (let status = agent_status agent in
      if status = AgentRegistered \<or> status = AgentRetired
      then sound (AgentFault IdleAgentOwns) agentId (\<not> truthy (agent_activeAttemptId agent))
      else case (if truthy (agent_activeAttemptId agent)
                 then map_of (attempts state) (the (agent_activeAttemptId agent)) else None) of
        None \<Rightarrow> Inl (SnapshotFault (AgentFault ActiveAgentOwnsNothing) agentId)
      | Some attempt \<Rightarrow>
          bindE (sound (AgentFault ActiveAgentOwnsNothing) agentId (att_agentId attempt = Some agentId)) (\<lambda>_.
          sound (AgentFault AgentStatusConflict) agentId
            (\<not> ((status = AgentActive \<and> att_status attempt \<notin> {AttLeased, AttRunning}) \<or>
                (status \<in> {AgentSuspended, AgentResuming} \<and> att_status attempt \<noteq> AttSuspended)))))"

definition latest_checkpoint_sound :: "'a TaskRuntimeProjection_scheme \<Rightarrow> string \<Rightarrow> AgentBindingContract \<Rightarrow> bool" where
  "latest_checkpoint_sound state agentId agent \<longleftrightarrow>
     (let latest = rc_latestCheckpointId (agent_resumeContext agent) in
      \<not> truthy latest \<or>
      (case map_of (checkpoints state) (the latest) of
         None \<Rightarrow> False
       | Some checkpoint \<Rightarrow>
           (case map_of (attempts state) (ck_attemptId checkpoint) of
              None \<Rightarrow> False | Some attempt \<Rightarrow> att_agentId attempt = Some agentId)))"

definition snapshot_agent :: "'a TaskRuntimeProjection_scheme \<Rightarrow> string \<times> AgentBindingContract \<Rightarrow> snapshot_error + unit" where
  "snapshot_agent state entry =
     (let (agentId, agent) = entry in
      bindE (sound (RecordFault KeyDiffers) agentId (agent_agentId agent = agentId)) (\<lambda>_.
      bindE (sound (AgentFault LineageInvalid) agentId (lineage_valid (agents state) agentId agent)) (\<lambda>_.
      bindE (sound (AgentFault LineageCyclic) agentId (lineage_acyclic (agents state) [agentId] (agent_parentAgentId agent))) (\<lambda>_.
      bindE (snapshot_agent_attempt state agentId agent) (\<lambda>_.
      sound (AgentFault CheckpointUnrelated) agentId (latest_checkpoint_sound state agentId agent))))))"

definition snapshot_binding :: "'a TaskRuntimeProjection_scheme \<Rightarrow> AttemptRuntimeState \<Rightarrow> snapshot_error + unit" where
  "snapshot_binding state attempt =
     (if \<not> truthy (att_agentId attempt) \<or> terminalAttemptStatus (att_status attempt) then Inr ()
      else sound (AgentFault AgentBindingInconsistent) (att_attemptId attempt)
             (case map_of (agents state) (the (att_agentId attempt)) of
                None \<Rightarrow> False
              | Some agent \<Rightarrow>
                  agent_activeAttemptId agent = Some (att_attemptId attempt) \<and>
                  \<not> (att_status attempt \<in> {AttLeased, AttRunning} \<and> agent_status agent \<noteq> AgentActive) \<and>
                  \<not> (att_status attempt = AttSuspended \<and> agent_status agent \<notin> {AgentSuspended, AgentResuming})))"

section \<open>Approvals and notifications\<close>

definition snapshot_approval :: "'a TaskRuntimeProjection_scheme \<Rightarrow> string \<times> ApprovalRuntimeState \<Rightarrow> snapshot_error + unit" where
  "snapshot_approval state entry =
     (let (approvalId, approval) = entry; request = as_request approval;
          task = (if truthy (apr_taskId request) then map_of (tasks state) (the (apr_taskId request)) else None);
          attempt = (if truthy (apr_attemptId request) then map_of (attempts state) (the (apr_attemptId request)) else None) in
      bindE (sound (ApprovalFault ApprovalOwnership) approvalId
               (apr_approvalId request = approvalId \<and> map_of (objectives state) (apr_objectiveId request) \<noteq> None)) (\<lambda>_.
      bindE (sound (ApprovalFault ApprovalForeignTask) approvalId
               (\<not> ((truthy (apr_taskId request) \<and>
                    map_option (\<lambda>t. task_objectiveId (ts_task t)) task \<noteq> Some (apr_objectiveId request)) \<or>
                   (truthy (apr_attemptId request) \<and> \<not> truthy (apr_taskId request))))) (\<lambda>_.
      bindE (sound (ApprovalFault ApprovalForeignAttempt) approvalId
               (\<not> (truthy (apr_attemptId request) \<and> map_option att_taskId attempt \<noteq> apr_taskId request))) (\<lambda>_.
      bindE (sound (ApprovalFault ApprovalNotAwaiting) approvalId
               (\<not> (as_status approval = ApprovalPending \<and>
                   (case attempt of None \<Rightarrow> False | Some a \<Rightarrow> att_status a \<noteq> AttQueued \<or> truthy (att_grantId a))))) (\<lambda>_.
      sound (ApprovalFault ApprovalWithoutNotification) approvalId
        (case map_of (notifications state) (approval_notification_id approvalId) of
           None \<Rightarrow> False
         | Some note \<Rightarrow>
             note_objectiveId note = apr_objectiveId request \<and> note_attemptId note = apr_attemptId request \<and>
             note_message note = apr_summary request))))))"

definition snapshot_notification ::
  "'a TaskRuntimeProjection_scheme \<Rightarrow> string \<times> NotificationRuntimeState \<Rightarrow> snapshot_error + unit" where
  "snapshot_notification state entry =
     (let (notificationId, note) = entry in
      bindE (sound (ApprovalFault NotificationOwnership) notificationId
               (note_notificationId note = notificationId \<and> map_of (objectives state) (note_objectiveId note) \<noteq> None)) (\<lambda>_.
      sound (ApprovalFault NotificationForeignAttempt) notificationId
        (\<not> truthy (note_attemptId note) \<or>
         (case map_of (attempts state) (the (note_attemptId note)) of
            None \<Rightarrow> False
          | Some attempt \<Rightarrow>
              (case map_of (tasks state) (att_taskId attempt) of
                 None \<Rightarrow> False | Some task \<Rightarrow> task_objectiveId (ts_task task) = note_objectiveId note)))))"

definition snapshot_attempt_verification ::
  "'a TaskRuntimeProjection_scheme \<Rightarrow> AttemptRuntimeState \<Rightarrow> snapshot_error + unit" where
  "snapshot_attempt_verification state attempt =
     when_present (att_verification attempt) (\<lambda>verification.
       bindE (sound (AttemptFault VerificationNotRequested) (att_attemptId attempt) (verification_required attempt)) (\<lambda>_.
       orch (assertVerificationRecord state (att_taskId attempt) verification (Some (att_attemptId attempt)))))"

section \<open>The graph and the snapshot\<close>

definition validateSnapshotTaskGraph :: "json_env \<Rightarrow> 'a TaskRuntimeProjection_scheme \<Rightarrow> snapshot_error + unit" where
  "validateSnapshotTaskGraph J state =
     bindE (foldE (snapshot_objective state) [] (objectives state)) (\<lambda>taskOwners.
     bindE (forE (snapshot_task state taskOwners) (tasks state)) (\<lambda>_.
     bindE (foldE (claim_attempts state) [] (tasks state)) (\<lambda>attemptOwners.
     bindE (forE (snapshot_attempt J state attemptOwners) (attempts state)) (\<lambda>_.
     bindE (forE (snapshot_live_attempt state) (tasks state)) (\<lambda>_.
     bindE (foldE (claim_checkpoints state) [] (attempts state)) (\<lambda>checkpointOwners.
     bindE (forE (snapshot_checkpoint state checkpointOwners) (checkpoints state)) (\<lambda>_.
     bindE (forE (snapshot_agent state) (agents state)) (\<lambda>_.
     bindE (forE (snapshot_binding state) (js_values (attempts state))) (\<lambda>_.
     bindE (forE (snapshot_approval state) (approvals state)) (\<lambda>_.
     bindE (forE (snapshot_notification state) (notifications state)) (\<lambda>_.
     bindE (forE (\<lambda>(taskId, subject). when_present (ts_verification subject) (\<lambda>verification.
              orch (assertVerificationRecord state taskId verification None))) (tasks state)) (\<lambda>_.
     forE (snapshot_attempt_verification state) (js_values (attempts state))))))))))))))"

definition snapshot_records_within_limits :: "'a TaskRuntimeProjection_scheme \<Rightarrow> orch_error + unit" where
  "snapshot_records_within_limits p =
     bindE (assertRecordWithinLimit FieldAgents (agents p) MAX_ORCHESTRATION_AGENT_BINDINGS) (\<lambda>_.
     bindE (assertRecordWithinLimit FieldObjectives (objectives p) MAX_ORCHESTRATION_OBJECTIVES) (\<lambda>_.
     bindE (assertRecordWithinLimit FieldTasks (tasks p) MAX_ORCHESTRATION_TASKS) (\<lambda>_.
     bindE (assertRecordWithinLimit FieldAttempts (attempts p) MAX_ORCHESTRATION_ATTEMPTS) (\<lambda>_.
     bindE (assertRecordWithinLimit FieldCheckpoints (checkpoints p) MAX_ORCHESTRATION_CHECKPOINTS) (\<lambda>_.
     bindE (assertRecordWithinLimit FieldApprovals (approvals p) MAX_ORCHESTRATION_APPROVALS) (\<lambda>_.
     assertRecordWithinLimit FieldNotifications (notifications p) MAX_ORCHESTRATION_NOTIFICATIONS))))))"

text \<open>The normalized projection comes with the serialized size computed for it.\<close>

definition projectionFromSnapshot :: "json_env \<Rightarrow> TaskRuntimeProjection \<Rightarrow> nat \<Rightarrow> snapshot_error + ledger_state" where
  "projectionFromSnapshot J projection throughOrdinal =
     bindE (require (lastOrdinal projection = throughOrdinal) OrdinalDiffers) (\<lambda>_.
     bindE (orch (snapshot_records_within_limits projection)) (\<lambda>_.
     bindE (orch (assertRetainedProjectionNestedCollections projection)) (\<lambda>_.
     bindE (orch (projectionSerializedBytes J projection)) (\<lambda>_.
     bindE (orch (parseHostEventProjection J projection)) (\<lambda>_.
     bindE (forE normalizeAgentBinding (agents projection)) (\<lambda>_.
     bindE (forE objectiveRuntimeStateFromValue (objectives projection)) (\<lambda>_.
     bindE (forE taskRuntimeStateFromValue (tasks projection)) (\<lambda>_.
     bindE (forE attemptRuntimeStateFromValue (attempts projection)) (\<lambda>_.
     bindE (forE checkpointFromValue (checkpoints projection)) (\<lambda>_.
     bindE (forE approvalRuntimeStateFromValue (approvals projection)) (\<lambda>_.
     bindE (mapEs notificationRuntimeStateFromValue (notifications projection)) (\<lambda>notes.
     let normalized = projection\<lparr>notifications := notes\<rparr> in
     bindE (validateSnapshotTaskGraph J normalized) (\<lambda>_.
     bindE (orch (validateHostEventGraph J normalized)) (\<lambda>_.
     bindE (orch (projectionSerializedBytes J normalized)) (\<lambda>bytes.
     Inr (normalized, Some bytes))))))))))))))))"

end
