(* ===== verification/Task_Runtime.thy ===== *)
theory Task_Runtime
  imports Event_Store Snapshot_Validation
begin

text \<open>
  The durable task runtime over the event store (\<open>core/orchestration/task-runtime.ts\<close>, \<open>task-runtime-reader.ts\<close>):
  how the projection is read back from a snapshot and a tail, the runtime object's state, its refresh, its
  compaction and the one way it commits an event. An operation threads the runtime object and the store's files.
  What the process draws from outside (whether locks are granted, instants, event identities, the file operation
  at which one fails) is the record \<open>externals\<close>; each compaction of an operation has its own.
\<close>

section \<open>Errors\<close>

datatype admission_error = NotReduced orch_error | ReceiptAdmissionWithdrawn

datatype runtime_error =
    StoreFailed "admission_error store_error"
  | SnapshotRefused snapshot_error
  | ReplayRefused orch_error
  | RequiredSnapshotUnavailable
  | CommandRefused orch_error
  | CommandInvalid string

type_synonym store = "TaskRuntimeProjection store_env"
type_synonym files = "TaskRuntimeProjection StoreFiles"

definition event_of :: "StoredEvent \<Rightarrow> OrchestrationEvent" where
  "event_of e = OrchestrationEvent.truncate e"

section \<open>Reading the projection\<close>

definition replay_events :: "json_env \<Rightarrow> ledger_state \<Rightarrow> StoredEvent list \<Rightarrow> runtime_error + ledger_state" where
  "replay_events J state events = mapE ReplayRefused (foldE (reduceOrchestrationEvent J) state (map event_of events))"

definition from_snapshot ::
  "json_env \<Rightarrow> TaskRuntimeProjection ProjectionSnapshot \<Rightarrow> runtime_error + ledger_state" where
  "from_snapshot J s = mapE SnapshotRefused (projectionFromSnapshot J (sn_projection s) (sn_throughOrdinal s))"

text \<open>Each store call sees the files of its own moment: \<open>at' i\<close> are the files the \<open>i\<close>-th call sees.\<close>

definition read_from_store :: "json_env \<Rightarrow> store \<Rightarrow> (nat \<Rightarrow> files) \<Rightarrow> runtime_error + ledger_state" where
  "read_from_store J S at' =
     bindE (mapE StoreFailed (readProjectionSnapshot S (at' 0))) (\<lambda>snapshot.
     case snapshot of
       Some s \<Rightarrow> from_snapshot J s
     | None \<Rightarrow>
         bindE (mapE StoreFailed (readAll S (at' 1))) (\<lambda>events.
         bindE (mapE StoreFailed (readProjectionSnapshot S (at' 2))) (\<lambda>snapshotAfterRead.
         case snapshotAfterRead of
           None \<Rightarrow> mapE ReplayRefused (projectOrchestrationEvents J (map event_of events))
         | Some s \<Rightarrow>
             bindE (from_snapshot J s) (\<lambda>state.
             replay_events J state (filter (\<lambda>e. sn_throughOrdinal s < eh_ordinal e) events)))))"

definition read_required_snapshot ::
  "json_env \<Rightarrow> store \<Rightarrow> (nat \<Rightarrow> files) \<Rightarrow> nat \<Rightarrow> runtime_error + ledger_state" where
  "read_required_snapshot J S at' throughOrdinal =
     bindE (mapE StoreFailed (readProjectionSnapshot S (at' 4))) (\<lambda>snapshot.
     case snapshot of
       None \<Rightarrow> Inl RequiredSnapshotUnavailable
     | Some s \<Rightarrow>
         if sn_throughOrdinal s < throughOrdinal then Inl RequiredSnapshotUnavailable
         else
           bindE (from_snapshot J s) (\<lambda>state.
           bindE (mapE StoreFailed (readAfter S (at' 5) (lastOrdinal (fst state)))) (replay_events J state)))"

definition readTaskRuntimeProjection ::
  "json_env \<Rightarrow> store \<Rightarrow> (nat \<Rightarrow> files) \<Rightarrow> ledger_state option \<Rightarrow> runtime_error + ledger_state" where
  "readTaskRuntimeProjection J S at' prior =
     bindE (case prior of Some state \<Rightarrow> Inr state | None \<Rightarrow> read_from_store J S at') (\<lambda>state.
     case readAfter S (at' 3) (lastOrdinal (fst state)) of
       Inr events \<Rightarrow> replay_events J state events
     | Inl (SnapshotRequired throughOrdinal) \<Rightarrow> read_required_snapshot J S at' throughOrdinal
     | Inl e \<Rightarrow> Inl (StoreFailed e))"

section \<open>The runtime object\<close>

record DurableTaskRuntime =
  rt_state :: ledger_state
  rt_indexes :: "SynchronizedIndexes option"

abbreviation rt_projection :: "DurableTaskRuntime \<Rightarrow> TaskRuntimeProjection" where
  "rt_projection rt \<equiv> fst (rt_state rt)"

abbreviation rt_lastOrdinal :: "DurableTaskRuntime \<Rightarrow> nat" where
  "rt_lastOrdinal rt \<equiv> lastOrdinal (rt_projection rt)"

record compaction_call =
  cc_maintenance :: maintenance
  cc_now :: timestamp
  cc_fault :: "nat option"

record externals =
  x_compaction :: "nat \<Rightarrow> compaction_call"
  x_locked :: bool
  x_stamp :: stamp
  x_fault :: "nat option"

type_synonym runtime_world = "DurableTaskRuntime \<times> files"

definition compactCurrentProjection ::
  "store \<Rightarrow> compaction_call \<Rightarrow> runtime_world \<Rightarrow> (runtime_error + unit) \<times> runtime_world" where
  "compactCurrentProjection S c w =
     (let (rt, d) = w in
      if rt_lastOrdinal rt = 0 then (Inr (), w)
      else
        let answer = compactIfNeeded S (cc_maintenance c) (cc_now c) (cc_fault c) (rt_lastOrdinal rt)
                       (rt_projection rt) d (rt_indexes rt) in
        (mapE StoreFailed (bindE (sa_result answer) (\<lambda>_. Inr ())),
         (rt\<lparr>rt_indexes := sa_indexes answer\<rparr>, apply_ops (sa_ops answer) d)))"

text \<open>
  A refresh reads the directory at one moment. The source holds no lock while it reads, so its calls may see several;
  \<open>readTaskRuntimeProjection\<close> takes the files of each call, and reads over moving files are a property of their own.
\<close>

definition refresh_state :: "json_env \<Rightarrow> store \<Rightarrow> runtime_world \<Rightarrow> (runtime_error + unit) \<times> runtime_world" where
  "refresh_state J S w =
     (let (rt, d) = w in
      case readTaskRuntimeProjection J S (\<lambda>_. d) (Some (rt_state rt)) of
        Inl e \<Rightarrow> (Inl e, w)
      | Inr state \<Rightarrow> (Inr (), (rt\<lparr>rt_state := state\<rparr>, d)))"

text \<open>The second operation of a sequence runs when the first one returns.\<close>

definition then_run ::
  "(runtime_error + 'a) \<times> runtime_world \<Rightarrow> ('a \<Rightarrow> runtime_world \<Rightarrow> (runtime_error + 'b) \<times> runtime_world) \<Rightarrow>
   (runtime_error + 'b) \<times> runtime_world" where
  "then_run m f = (case m of (Inl e, w) \<Rightarrow> (Inl e, w) | (Inr x, w) \<Rightarrow> f x w)"

definition refresh ::
  "json_env \<Rightarrow> store \<Rightarrow> compaction_call \<Rightarrow> runtime_world \<Rightarrow> (runtime_error + unit) \<times> runtime_world" where
  "refresh J S c w = then_run (refresh_state J S w) (\<lambda>_. compactCurrentProjection S c)"

definition open_runtime ::
  "json_env \<Rightarrow> store \<Rightarrow> compaction_call \<Rightarrow> files \<Rightarrow> (runtime_error + DurableTaskRuntime) \<times> files" where
  "open_runtime J S c d =
     (case readTaskRuntimeProjection J S (\<lambda>_. d) None of
        Inl e \<Rightarrow> (Inl e, d)
      | Inr state \<Rightarrow>
          (case compactCurrentProjection S c (\<lparr>rt_state = state, rt_indexes = None\<rparr>, d) of
             (Inl e, (rt, d')) \<Rightarrow> (Inl e, d')
           | (Inr _, (rt, d')) \<Rightarrow> (Inr rt, d')))"

section \<open>Committing\<close>

text \<open>The check an append runs before it writes: the reducer admits the candidate on the current projection.\<close>

definition admit ::
  "json_env \<Rightarrow> (admission_error + unit) \<Rightarrow> ledger_state \<Rightarrow> StoredEvent \<Rightarrow> admission_error + ledger_state option" where
  "admit J admission state candidate =
     (if lastOrdinal (fst state) < eh_ordinal candidate
      then bindE admission (\<lambda>_. mapE NotReduced (bindE (reduceOrchestrationEvent J state (event_of candidate))
             (\<lambda>next. Inr (Some next))))
      else Inr None)"

definition runtime_append ::
  "json_env \<Rightarrow> store \<Rightarrow> externals \<Rightarrow> AppendOrchestrationEventInput \<Rightarrow> (admission_error + unit) \<Rightarrow> runtime_world \<Rightarrow>
   (TaskRuntimeProjection, admission_error store_error + ledger_state option AppendOutcome) StoreAnswer" where
  "runtime_append J S x input admission w =
     store_append S (x_locked x) (x_stamp x) (x_fault x) input (Some (rt_lastOrdinal (fst w)))
       (admit J admission (rt_state (fst w))) (snd w) (rt_indexes (fst w))"

definition adopt_event ::
  "json_env \<Rightarrow> store \<Rightarrow> externals \<Rightarrow> StoredEvent \<Rightarrow> runtime_world \<Rightarrow> (runtime_error + unit) \<times> runtime_world" where
  "adopt_event J S x event w =
     then_run (if rt_lastOrdinal (fst w) < eh_ordinal event then refresh J S (x_compaction x 2) w else (Inr (), w))
       (\<lambda>_ w'. if rt_lastOrdinal (fst w') < eh_ordinal event
               then (case reduceOrchestrationEvent J (rt_state (fst w')) (event_of event) of
                       Inl e \<Rightarrow> (Inl (ReplayRefused e), w')
                     | Inr state \<Rightarrow> (Inr (), ((fst w')\<lparr>rt_state := state\<rparr>, snd w')))
               else (Inr (), w'))"

definition commit ::
  "json_env \<Rightarrow> store \<Rightarrow> externals \<Rightarrow> AppendOrchestrationEventInput \<Rightarrow> (admission_error + unit) \<Rightarrow> runtime_world \<Rightarrow>
   (runtime_error + unit) \<times> runtime_world" where
  "commit J S x input admission w =
     then_run (compactCurrentProjection S (x_compaction x 1) w) (\<lambda>_ w1.
       let answer = runtime_append J S x input admission w1;
           w2 = ((fst w1)\<lparr>rt_indexes := sa_indexes answer\<rparr>, apply_ops (sa_ops answer) (snd w1)) in
       case sa_result answer of
         Inl e \<Rightarrow> (Inl (StoreFailed e), w2)
       | Inr out \<Rightarrow>
           (case out_admitted out of
              Some (Some state) \<Rightarrow> (Inr (), ((fst w2)\<lparr>rt_state := state\<rparr>, snd w2))
            | _ \<Rightarrow> adopt_event J S x (out_event out) w2))"

section \<open>Commands\<close>

text \<open>
  A command refreshes the projection, decides on it, and either answers or commits one event and answers from the
  projection it then has. One command commits several events, one for each interrupted attempt it recovers: it has a
  definition of its own (\<open>Runtime_Commands\<close>).
\<close>

datatype 'r plan =
    Answer 'r
  | Commit AppendOrchestrationEventInput "admission_error + unit" "TaskRuntimeProjection \<Rightarrow> 'r"

definition run_command ::
  "json_env \<Rightarrow> store \<Rightarrow> externals \<Rightarrow> (TaskRuntimeProjection \<Rightarrow> runtime_error + 'r plan) \<Rightarrow> runtime_world \<Rightarrow>
   (runtime_error + 'r) \<times> runtime_world" where
  "run_command J S x decide w =
     then_run (refresh J S (x_compaction x 0) w) (\<lambda>_ w1.
       case decide (rt_projection (fst w1)) of
         Inl e \<Rightarrow> (Inl e, w1)
       | Inr (Answer r) \<Rightarrow> (Inr r, w1)
       | Inr (Commit input admission answer) \<Rightarrow>
           then_run (commit J S x input admission w1) (\<lambda>_ w2. (Inr (answer (rt_projection (fst w2))), w2)))"

section \<open>Host event transactions\<close>

text \<open>
  The commits of one borrowed transaction, each decided on the projection the ones before it left. An error ends the
  transaction; the events already appended stay, and so does the projection that includes them.
\<close>

record host_commit =
  hc_input :: "TaskRuntimeProjection \<Rightarrow> AppendOrchestrationEventInput"
  hc_stamp :: stamp
  hc_fault :: "nat option"

fun host_commits ::
  "json_env \<Rightarrow> store \<Rightarrow> host_commit list \<Rightarrow> ledger_state \<Rightarrow> TaskRuntimeProjection StoreTransaction \<Rightarrow>
   ((admission_error store_error + unit) \<times> ledger_state) \<times> TaskRuntimeProjection StoreTransaction" where
  "host_commits J S [] state tx = ((Inr (), state), tx)"
| "host_commits J S (c # cs) state tx =
     (case tx_append S (hc_stamp c) (hc_fault c) (hc_input c (fst state)) (Some (lastOrdinal (fst state)))
             (\<lambda>e. mapE NotReduced (reduceOrchestrationEvent J state (event_of e))) tx of
        (Inl e, tx') \<Rightarrow> ((Inl e, state), tx')
      | (Inr out, tx') \<Rightarrow>
          host_commits J S cs (case out_admitted out of None \<Rightarrow> state | Some next \<Rightarrow> next) tx')"

definition host_transaction ::
  "json_env \<Rightarrow> store \<Rightarrow> bool \<Rightarrow> host_commit list \<Rightarrow> runtime_world \<Rightarrow>
   (TaskRuntimeProjection, admission_error store_error + ((admission_error store_error + unit) \<times> ledger_state)) StoreAnswer" where
  "host_transaction J S locked cs w =
     transact S locked (Some (rt_lastOrdinal (fst w)))
       (\<lambda>tx. let (outcome, tx') = host_commits J S cs (rt_state (fst w)) tx in (Inr outcome, tx')) (snd w)
       (rt_indexes (fst w))"

definition transactHostEvents ::
  "json_env \<Rightarrow> store \<Rightarrow> compaction_call \<Rightarrow> bool \<Rightarrow> host_commit list \<Rightarrow> runtime_world \<Rightarrow>
   (runtime_error + unit) \<times> runtime_world" where
  "transactHostEvents J S c locked cs w =
     then_run (refresh J S c w) (\<lambda>_ w1.
       let answer = host_transaction J S locked cs w1; d = apply_ops (sa_ops answer) (snd w1);
           rt = (fst w1)\<lparr>rt_indexes := sa_indexes answer\<rparr> in
       case sa_result answer of
         Inl e \<Rightarrow> (Inl (StoreFailed e), (rt, d))
       | Inr (outcome, state) \<Rightarrow> (mapE StoreFailed outcome, (rt\<lparr>rt_state := state\<rparr>, d)))"

end
