(* ===== verification/Store_Files.thy ===== *)
theory Store_Files
  imports Event_Store
begin

text \<open>
  The store's files against the log of the events ever committed: \<open>holds S R L d\<close> says that the files \<open>d\<close> carry
  the log \<open>L\<close>, the prefix before the baseline as a snapshot that is right for it (\<open>R\<close>), the rest as event files.
  The file operations of an append and of a compaction keep it one by one, so it survives an end at any of them; and
  what the reading operations return is the log.
\<close>

section \<open>Files that carry a log\<close>

definition log_ok :: "'p store_env \<Rightarrow> StoredEvent list \<Rightarrow> bool" where
  "log_ok S L \<longleftrightarrow> (\<forall>i < length L. eh_ordinal (L ! i) = i + 1 \<and> isCanonicalOrchestrationEvent (L ! i) \<and>
     st_eventBytes S (L ! i) \<le> st_maxTailBytes S)"

definition snapshot_holds ::
  "'p store_env \<Rightarrow> (StoredEvent list \<Rightarrow> 'p \<Rightarrow> bool) \<Rightarrow> StoredEvent list \<Rightarrow> SnapshotBaseline \<Rightarrow> 'p ProjectionSnapshot \<Rightarrow> bool" where
  "snapshot_holds S R L b s \<longleftrightarrow>
     st_snapshotBytes S s \<le> MAX_ORCHESTRATION_PROJECTION_SNAPSHOT_BYTES \<and> snapshot_valid S b s \<and>
     st_digest S (ProjectionSnapshotContent.truncate s) = base_digest b \<and>
     R (take (base_throughOrdinal b) L) (sn_projection s) \<and>
     set (sn_idempotencyEvents s) \<subseteq> set (take (base_throughOrdinal b) L)"

definition baseline_holds ::
  "'p store_env \<Rightarrow> (StoredEvent list \<Rightarrow> 'p \<Rightarrow> bool) \<Rightarrow> StoredEvent list \<Rightarrow> 'p StoreFiles \<Rightarrow> SnapshotBaseline \<Rightarrow> bool" where
  "baseline_holds S R L d b \<longleftrightarrow>
     1 \<le> base_throughOrdinal b \<and> base_throughOrdinal b \<le> length L \<and> base_digest b \<noteq> [] \<and>
     base_snapshotFile b = base_throughOrdinal b \<and>
     (\<exists>s. map_of (sf_snapshots d) (base_throughOrdinal b) = Some (Readable s) \<and> snapshot_holds S R L b s)"

definition base_of :: "'p StoreFiles \<Rightarrow> nat" where
  "base_of d = (case sf_baseline d of Some (Readable b) \<Rightarrow> base_throughOrdinal b | _ \<Rightarrow> 0)"

definition holds ::
  "'p store_env \<Rightarrow> (StoredEvent list \<Rightarrow> 'p \<Rightarrow> bool) \<Rightarrow> StoredEvent list \<Rightarrow> 'p StoreFiles \<Rightarrow> bool" where
  "holds S R L d \<longleftrightarrow>
     log_ok S L \<and>
     (\<forall>n f. map_of (sf_events d) n = Some f \<longrightarrow> 1 \<le> n \<and> n \<le> length L \<and> f = Readable (L ! (n - 1))) \<and>
     (\<forall>n. base_of d < n \<and> n \<le> length L \<longrightarrow> map_of (sf_events d) n \<noteq> None) \<and>
     (\<forall>f. sf_baseline d = Some f \<longrightarrow> (\<exists>b. f = Readable b \<and> baseline_holds S R L d b)) \<and>
     (\<forall>c. readCursor d = Some c \<longrightarrow> cur_lastOrdinal c \<le> length L)"

lemma holdsD:
  assumes "holds S R L d"
  shows "log_ok S L"
    and "map_of (sf_events d) n = Some f \<Longrightarrow> 1 \<le> n \<and> n \<le> length L \<and> f = Readable (L ! (n - 1))"
    and "base_of d < n \<Longrightarrow> n \<le> length L \<Longrightarrow> map_of (sf_events d) n = Some (Readable (L ! (n - 1)))"
    and "sf_baseline d = Some g \<Longrightarrow> \<exists>b. g = Readable b \<and> baseline_holds S R L d b"
    and "readCursor d = Some c \<Longrightarrow> cur_lastOrdinal c \<le> length L"
  using assms by (fastforce simp: holds_def)+

lemma holds_base: "holds S R L d \<Longrightarrow> base_of d \<le> length L"
  by (auto simp: base_of_def baseline_holds_def split: option.split stored.split dest: holdsD(4))

lemma holds_empty: "holds S R [] empty_store"
  by (auto simp: holds_def log_ok_def empty_store_def base_of_def readCursor_def)

lemma log_ok_nth:
  "log_ok S L \<Longrightarrow> i < length L \<Longrightarrow> eh_ordinal (L ! i) = i + 1 \<and> isCanonicalOrchestrationEvent (L ! i) \<and>
     st_eventBytes S (L ! i) \<le> st_maxTailBytes S"
  by (simp add: log_ok_def)

lemma log_ok_snoc:
  assumes "log_ok S L" and "eh_ordinal e = length L + 1" and "isCanonicalOrchestrationEvent e"
    and "st_eventBytes S e \<le> st_maxTailBytes S"
  shows "log_ok S (L @ [e])"
  using assms by (auto simp: log_ok_def nth_append less_Suc_eq)

section \<open>The file operations\<close>

lemma snapshot_holds_snoc:
  "snapshot_holds S R L b s \<Longrightarrow> base_throughOrdinal b \<le> length L \<Longrightarrow> snapshot_holds S R (L @ [e]) b s"
  by (simp add: snapshot_holds_def)

lemma holds_put_event:
  assumes "holds S R L d" and "eh_ordinal e = length L + 1" and "isCanonicalOrchestrationEvent e"
    and "st_eventBytes S e \<le> st_maxTailBytes S"
  shows "holds S R (L @ [e]) (apply_op (PutEvent (length L + 1) e) d)"
proof -
  let ?d = "apply_op (PutEvent (length L + 1) e) d"
  have base: "base_of ?d = base_of d" and cur: "readCursor ?d = readCursor d"
    by (simp_all add: base_of_def readCursor_def)
  have "log_ok S (L @ [e])" using assms holdsD(1) by (blast intro: log_ok_snoc)
  moreover have "1 \<le> n \<and> n \<le> length (L @ [e]) \<and> f = Readable ((L @ [e]) ! (n - 1))"
    if "map_of (sf_events ?d) n = Some f" for n f
    using that holdsD(2) [OF assms(1), of n f] by (auto simp: update_conv' nth_append split: if_splits)
  moreover have "map_of (sf_events ?d) n \<noteq> None" if "base_of d < n" "n \<le> length (L @ [e])" for n
    using that holdsD(3) [OF assms(1), of n] by (auto simp: update_conv')
  moreover have "\<exists>b. f = Readable b \<and> baseline_holds S R (L @ [e]) ?d b" if "sf_baseline ?d = Some f" for f
    using that holdsD(4) [OF assms(1), of f] snapshot_holds_snoc [of S R L _ _ e]
    by (fastforce simp: baseline_holds_def)
  moreover have "cur_lastOrdinal c \<le> length (L @ [e])" if "readCursor d = Some c" for c
    using holdsD(5) [OF assms(1) that] by simp
  ultimately show ?thesis unfolding holds_def base cur by blast
qed

lemma holds_cursor:
  assumes "holds S R L d"
  shows "holds S R L (apply_op TruncateCursor d)"
    and "cur_lastOrdinal c \<le> length L \<Longrightarrow> holds S R L (apply_op (PutCursor c) d)"
  using assms by (auto simp: holds_def base_of_def readCursor_def baseline_holds_def)

lemma holds_put_snapshot:
  assumes "holds S R L d" and "base_of d < n"
  shows "holds S R L (apply_op (PutSnapshot n s) d)" and "base_of (apply_op (PutSnapshot n s) d) = base_of d"
proof -
  show base: "base_of (apply_op (PutSnapshot n s) d) = base_of d" by (simp add: base_of_def)
  have "\<exists>b. f = Readable b \<and> baseline_holds S R L (apply_op (PutSnapshot n s) d) b" if f: "sf_baseline d = Some f" for f
  proof -
    from holdsD(4) [OF assms(1) f] obtain b where b: "f = Readable b" "baseline_holds S R L d b" by blast
    with f assms(2) have "base_throughOrdinal b \<noteq> n" by (simp add: base_of_def)
    with b show ?thesis by (auto simp: baseline_holds_def update_conv')
  qed
  with assms(1) base show "holds S R L (apply_op (PutSnapshot n s) d)"
    by (simp add: holds_def readCursor_def)
qed

lemma holds_put_baseline:
  assumes "holds S R L d" and "base_of d \<le> base_throughOrdinal b" and "baseline_holds S R L d b"
  shows "holds S R L (apply_op (PutBaseline b) d)" and "base_of (apply_op (PutBaseline b) d) = base_throughOrdinal b"
  using assms by (auto simp: holds_def base_of_def readCursor_def baseline_holds_def)

text \<open>The operations that prune what a baseline covers.\<close>

fun prunes :: "nat \<Rightarrow> 'p file_op \<Rightarrow> bool" where
  "prunes n (UnlinkIdempotency f) = True"
| "prunes n (UnlinkEvent m) = (m \<le> n)"
| "prunes n (UnlinkSnapshot m) = (m \<noteq> n)"
| "prunes n (PutCursor c) = (cur_lastOrdinal c \<le> n)"
| "prunes n _ = False"

lemma prune_holds:
  assumes "holds S R L d" and "base_of d = n" and "prunes n p"
  shows "holds S R L (apply_op p d) \<and> base_of (apply_op p d) = n"
proof (cases p)
  case (UnlinkEvent m)
  with assms show ?thesis
    by (auto simp: holds_def base_of_def readCursor_def baseline_holds_def delete_conv')
next
  case (UnlinkSnapshot m)
  have base: "base_of (apply_op p d) = n" using UnlinkSnapshot assms(2) by (simp add: base_of_def)
  have "\<exists>b. f = Readable b \<and> baseline_holds S R L (apply_op p d) b" if f: "sf_baseline d = Some f" for f
  proof -
    from holdsD(4) [OF assms(1) f] obtain b where b: "f = Readable b" "baseline_holds S R L d b" by blast
    with f assms(2,3) UnlinkSnapshot have "base_throughOrdinal b \<noteq> m" by (simp add: base_of_def)
    with b show ?thesis by (auto simp: UnlinkSnapshot baseline_holds_def delete_conv')
  qed
  with assms(1,2) base show ?thesis by (simp add: UnlinkSnapshot holds_def readCursor_def)
next
  case (PutCursor c)
  with assms holds_base [OF assms(1)] holds_cursor(2) [OF assms(1), of c] show ?thesis
    by (simp add: base_of_def)
qed (use assms in \<open>auto simp: holds_def base_of_def readCursor_def baseline_holds_def\<close>)

lemma prunes_hold:
  "holds S R L d \<Longrightarrow> base_of d = n \<Longrightarrow> list_all (prunes n) ops \<Longrightarrow>
   holds S R L (apply_ops ops d) \<and> base_of (apply_ops ops d) = n"
  by (induction ops arbitrary: d) (auto dest: prune_holds)

lemma list_all_take: "list_all P xs \<Longrightarrow> list_all P (take k xs)"
  by (metis append_take_drop_id list_all_append)

text \<open>Publishing a snapshot of the whole log and pruning behind it, cut anywhere.\<close>

lemma publication_holds:
  assumes d: "holds S R L d" and n: "sn_throughOrdinal s = length L" "base_of d < length L"
    and s: "snapshot_holds S R L \<lparr>base_throughOrdinal = length L, base_digest = sn_digest s, base_snapshotFile = length L\<rparr> s"
    and digest: "sn_digest s \<noteq> []" and prune: "list_all (prunes (length L)) rest"
  shows "holds S R L (apply_ops (take k (publish_ops s @ rest)) d)"
    and "base_of (apply_ops (take k (publish_ops s @ rest)) d) = (if k < 2 then base_of d else length L)"
proof -
  let ?b = "\<lparr>base_throughOrdinal = length L, base_digest = sn_digest s, base_snapshotFile = length L\<rparr>"
  let ?d1 = "apply_op (PutSnapshot (length L) s) d" and ?d2 = "apply_op (PutBaseline ?b) (apply_op (PutSnapshot (length L) s) d)"
  note one = holds_put_snapshot [OF d n(2), of s]
  have "baseline_holds S R L ?d1 ?b"
    using n s digest by (simp add: baseline_holds_def update_conv')
  with one n have two: "holds S R L ?d2" "base_of ?d2 = length L"
    using holds_put_baseline [OF one(1), of ?b] by simp_all
  have "holds S R L (apply_ops (take k (publish_ops s @ rest)) d) \<and>
      base_of (apply_ops (take k (publish_ops s @ rest)) d) = (if k < 2 then base_of d else length L)"
  proof (cases "k < 2")
    case True
    then consider "k = 0" | "k = 1" by linarith
    then show ?thesis using d one n by cases (simp_all add: publish_ops_def)
  next
    case False
    then obtain j where k: "k = Suc (Suc j)" by (metis add_2_eq_Suc le_Suc_ex not_le)
    from prunes_hold [OF two list_all_take [OF prune, of j]] show ?thesis
      by (simp add: k publish_ops_def n(1))
  qed
  then show "holds S R L (apply_ops (take k (publish_ops s @ rest)) d)"
    and "base_of (apply_ops (take k (publish_ops s @ rest)) d) = (if k < 2 then base_of d else length L)"
    by simp_all
qed

section \<open>What is read\<close>

lemma event_names_props [simp]: "sorted (event_names d)" "distinct (event_names d)"
  "set (event_names d) = dom (map_of (sf_events d))"
  by (simp_all add: event_names_def dom_map_of_conv_image_fst)

lemma sorted_from_eq_upt:
  assumes "sorted xs" and "distinct xs" and "{n \<in> set xs. b < n} = {b<..m}"
  shows "filter (\<lambda>n. b < n) xs = [b + 1..<m + 1]"
proof (rule sorted_distinct_set_unique)
  show "sorted (filter (\<lambda>n. b < n) xs)" using assms(1) by (rule sorted_wrt_filter)
  have "set (filter (\<lambda>n. b < n) xs) = {b<..m}" using assms(3) by simp
  moreover have "set [b + 1..<m + 1] = {b<..m}" by (auto simp del: upt_Suc)
  ultimately show "set (filter (\<lambda>n. b < n) xs) = set [b + 1..<m + 1]" by simp
qed (use assms(2) in \<open>simp_all del: upt_Suc\<close>)

lemma sorted_le_last: "sorted xs \<Longrightarrow> x \<in> set xs \<Longrightarrow> x \<le> last xs"
  by (induction xs) (auto split: if_splits)

lemma names_after:
  assumes "holds S R L d" and "base_of d \<le> b"
  shows "filter (\<lambda>n. b < n) (event_names d) = [b + 1..<length L + 1]"
proof (rule sorted_from_eq_upt)
  show "{n \<in> set (event_names d). b < n} = {b<..length L}"
  proof (intro set_eqI iffI)
    fix n
    assume n: "n \<in> {n \<in> set (event_names d). b < n}"
    then obtain f where "map_of (sf_events d) n = Some f" by (auto simp only: event_names_props dom_def mem_Collect_eq)
    from holdsD(2) [OF assms(1) this] n show "n \<in> {b<..length L}" by simp
  next
    fix n
    assume "n \<in> {b<..length L}"
    then show "n \<in> {n \<in> set (event_names d). b < n}"
      using holdsD(3) [OF assms(1), of n] assms(2) by (auto simp: dom_def)
  qed
qed simp_all

lemma highest_name:
  assumes "holds S R L d"
  shows "max (base_of d) (highest_event (event_names d)) = length L"
proof (cases "base_of d < length L")
  case True
  have mem: "length L \<in> set (event_names d)" using holdsD(3) [OF assms True] by (auto simp: dom_def)
  then have ne: "event_names d \<noteq> []" by (metis empty_iff empty_set)
  then have "last (event_names d) \<in> dom (map_of (sf_events d))" using last_in_set by fastforce
  then obtain f where "map_of (sf_events d) (last (event_names d)) = Some f" by blast
  from holdsD(2) [OF assms this] sorted_le_last [OF event_names_props(1) mem]
  have "last (event_names d) = length L" by simp
  with True ne show ?thesis by (simp add: highest_event_def)
next
  case False
  have "highest_event (event_names d) \<le> length L"
  proof (cases "event_names d = []")
    case ne: False
    then have "last (event_names d) \<in> dom (map_of (sf_events d))" using last_in_set by fastforce
    then obtain f where "map_of (sf_events d) (last (event_names d)) = Some f" by blast
    from holdsD(2) [OF assms this] ne show ?thesis by (simp add: highest_event_def)
  qed (simp add: highest_event_def)
  with False holds_base [OF assms] show ?thesis by simp
qed

lemma contiguous_filter:
  "assertContiguousTailOrdinals b e names = assertContiguousTailOrdinals b e (filter (\<lambda>n. b < n) names)"
  by (induction names arbitrary: e) auto

lemma contiguous_upt: "b < e \<Longrightarrow> assertContiguousTailOrdinals b e [e..<m] = Inr ()"
proof (induction "m - e" arbitrary: e)
  case (Suc k)
  then have "[e..<m] = e # [Suc e..<m]" by (simp add: upt_conv_Cons)
  with Suc show ?case by simp
qed simp

lemma readable_tail:
  assumes "holds S R L d"
  shows "assertReadableTail d (event_names d) (base_of d) = Inr ()"
proof -
  have "assertContiguousTailOrdinals (base_of d) (base_of d + 1) (event_names d) = Inr ()"
    by (subst contiguous_filter) (simp add: names_after [OF assms order_refl] contiguous_upt del: upt_Suc)
  with holdsD(5) [OF assms] highest_name [OF assms] show ?thesis
    by (auto simp: assertReadableTail_def Let_def split: option.split)
qed

lemma read_baseline:
  assumes "holds S R L d"
  obtains b where "(readBaseline d :: 'e store_error + SnapshotBaseline option) = Inr b" and "through b = base_of d" and
    "b \<noteq> None \<Longrightarrow> \<exists>b'. b = Some b' \<and> sf_baseline d = Some (Readable b') \<and> baseline_holds S R L d b'"
    and "b = None \<Longrightarrow> sf_baseline d = None"
proof (cases "sf_baseline d")
  case None
  then show thesis by (intro that [of None]) (simp_all add: readBaseline_def through_def base_of_def)
next
  case (Some f)
  with holdsD(4) [OF assms Some] obtain b where "sf_baseline d = Some (Readable b)" "baseline_holds S R L d b" by blast
  then show thesis
    by (intro that [of "Some b"]) (auto simp: readBaseline_def through_def base_of_def baseline_holds_def)
qed

lemma read_snapshot:
  fixes d :: "'p StoreFiles"
  assumes "holds S R L d"
  obtains (none) "(readProjectionSnapshot S d :: 'e store_error + 'p ProjectionSnapshot option) = Inr None" "base_of d = 0"
  | (snap) s b where "(readProjectionSnapshot S d :: 'e store_error + 'p ProjectionSnapshot option) = Inr (Some s)" "sn_throughOrdinal s = base_of d"
      "1 \<le> base_of d" "sf_baseline d = Some (Readable b)" "snapshot_holds S R L b s" "base_throughOrdinal b = base_of d"
      "sn_digest s = base_digest b"
proof -
  obtain b where b: "(readBaseline d :: 'e store_error + SnapshotBaseline option) = Inr b" "through b = base_of d"
    "b \<noteq> None \<Longrightarrow> \<exists>b'. b = Some b' \<and> sf_baseline d = Some (Readable b') \<and> baseline_holds S R L d b'"
    by (rule read_baseline [OF assms]) blast
  show thesis
  proof (cases b)
    case None
    with b none show thesis by (simp add: readProjectionSnapshot_def through_def)
  next
    case (Some b')
    with b(3) obtain s where s: "sf_baseline d = Some (Readable b')"
      "map_of (sf_snapshots d) (base_throughOrdinal b') = Some (Readable s)" "snapshot_holds S R L b' s"
      "1 \<le> base_throughOrdinal b'" "base_snapshotFile b' = base_throughOrdinal b'"
      by (auto simp: baseline_holds_def)
    with Some b(1,2) show thesis
      by (intro snap [of s b'])
        (auto simp: readProjectionSnapshot_def through_def snapshot_holds_def snapshot_valid_def)
  qed
qed

lemma read_event:
  assumes "holds S R L d" and "base_of d < n" and "n \<le> length L"
  shows "readEventFile S d n = Inr (L ! (n - 1))" and "eh_ordinal (L ! (n - 1)) = n"
  using holdsD(3) [OF assms] log_ok_nth [OF holdsD(1) [OF assms(1)], of "n - 1"] assms(2,3)
  by (auto simp: readEventFile_def)

lemma read_events_filter:
  "read_events S d beyond prev names = read_events S d beyond prev (filter (\<lambda>n. beyond < n) names)"
  by (induction names arbitrary: prev) (auto cong: bindE_cong)

lemma read_events_upt:
  assumes "holds S R L d" and "base_of d \<le> beyond" and "beyond \<le> j" and "j \<le> length L"
  shows "(read_events S d beyond j [j + 1..<length L + 1] :: 'e store_error + StoredEvent list) = Inr (drop j L)"
  using assms(3,4)
proof (induction "length L - j" arbitrary: j)
  case (Suc k)
  then have upt: "[j + 1..<length L + 1] = (j + 1) # [j + 1 + 1..<length L + 1]"
    using upt_conv_Cons [of "j + 1" "length L + 1"] by (simp del: upt_Suc)
  have ev: "(readEventFile S d (j + 1) :: 'e store_error + StoredEvent) = Inr (L ! j)" "eh_ordinal (L ! j) = j + 1"
    using assms(2) Suc.prems Suc.hyps(2) read_event(2) [OF assms(1), of "j + 1"]
    by (simp_all add: read_event(1) [OF assms(1), of "j + 1", simplified] del: upt_Suc)
  have "(read_events S d beyond (j + 1) [j + 1 + 1..<length L + 1] :: 'e store_error + StoredEvent list) = Inr (drop (j + 1) L)"
    using Suc.hyps(1) [of "j + 1"] Suc.hyps(2) Suc.prems by (simp del: upt_Suc)
  moreover have "drop j L = L ! j # drop (j + 1) L" using Suc.hyps(2) by (simp add: Cons_nth_drop_Suc)
  ultimately show ?case unfolding upt using ev Suc.prems by (simp del: upt_Suc)
qed simp

lemma read_events_log:
  assumes "holds S R L d" and "base_of d \<le> j" and "j \<le> length L"
  shows "read_events S d j j (event_names d) = Inr (drop j L)"
  using read_events_upt [OF assms(1,2) order_refl assms(3)]
  by (subst read_events_filter) (simp add: names_after [OF assms(1,2)] del: upt_Suc)

definition listable :: "'p StoreFiles \<Rightarrow> bool" where
  "listable d \<longleftrightarrow> length (event_names d) \<le> MAX_EVENT_DIRECTORY_ENTRIES"

lemma listable_names: "listable d \<Longrightarrow> eventFileNames d = Inr (event_names d)"
  by (simp add: listable_def eventFileNames_def)

lemma read_all:
  assumes "holds S R L d" and "listable d"
  shows "(readAll S d :: 'e store_error + StoredEvent list) = Inr (drop (base_of d) L)"
proof -
  note events = read_events_log [OF assms(1) order_refl holds_base [OF assms(1)]]
  show ?thesis
  proof (rule read_snapshot [OF assms(1)])
    assume none: "(readProjectionSnapshot S d :: 'e store_error + _) = Inr None" "base_of d = 0"
    with events readable_tail [OF assms(1)] show ?thesis
      by (simp add: readAll_def Let_def listable_names [OF assms(2)])
  next
    fix s b
    assume "(readProjectionSnapshot S d :: 'e store_error + _) = Inr (Some s)" "sn_throughOrdinal s = base_of d"
    with events readable_tail [OF assms(1)] show ?thesis
      by (simp add: readAll_def Let_def listable_names [OF assms(2)])
  qed
qed

lemma read_after:
  assumes "holds S R L d" and "listable d" and "j \<le> length L"
  shows "(readAfter S d j :: 'e store_error + StoredEvent list) = (if j < base_of d then Inl (SnapshotRequired (base_of d)) else Inr (drop j L))"
proof -
  obtain b where b: "(readBaseline d :: 'e store_error + SnapshotBaseline option) = Inr b" "through b = base_of d"
    and some: "b = None \<Longrightarrow> sf_baseline d = None"
    by (rule read_baseline [OF assms(1)]) blast
  have zero: "base_of d = 0" if "b = None" using some [OF that] by (simp add: base_of_def)
  show ?thesis
  proof (cases "j < base_of d")
    case True
    with b zero show ?thesis by (auto simp: readAfter_def)
  next
    case False
    have "length L \<le> j" if "\<not> hasEventFile d (j + 1)"
      using that holdsD(3) [OF assms(1), of "j + 1"] False by (force simp: hasEventFile_def)
    with False b listable_names [OF assms(2)] readable_tail [OF assms(1)] read_events_log [OF assms(1) _ assms(3)]
    show ?thesis by (auto simp: readAfter_def)
  qed
qed

end
