(* ===== verification/Store_Index.thy ===== *)
theory Store_Index
  imports Store_Files
begin

text \<open>
  The index a writer keeps between its operations. Whatever other writers did since, extending the cached index
  gives the index a fresh scan of the files would build (\<open>synchronize_log\<close>); and each operation leaves the files
  carrying the log, one event longer or as it was, at whatever file operation it ends.
\<close>

section \<open>How files move on\<close>

definition snapshot_at :: "'p StoreFiles \<Rightarrow> 'p ProjectionSnapshot option" where
  "snapshot_at d =
     (case sf_baseline d of
        Some (Readable b) \<Rightarrow> (case map_of (sf_snapshots d) (base_throughOrdinal b) of
            Some (Readable s) \<Rightarrow> Some s | _ \<Rightarrow> None)
      | _ \<Rightarrow> None)"

lemma unchanged_views [simp]:
  "snapshot_at (d\<lparr>sf_events := es\<rparr>) = snapshot_at d" "snapshot_at (d\<lparr>sf_cursor := c\<rparr>) = snapshot_at d"
  "snapshot_at (d\<lparr>sf_idempotency := fs\<rparr>) = snapshot_at d"
  "base_of (d\<lparr>sf_events := es\<rparr>) = base_of d" "base_of (d\<lparr>sf_cursor := c\<rparr>) = base_of d"
  "base_of (d\<lparr>sf_idempotency := fs\<rparr>) = base_of d" "base_of (d\<lparr>sf_snapshots := ss\<rparr>) = base_of d"
  by (simp_all add: snapshot_at_def base_of_def cong: option.case_cong stored.case_cong)

text \<open>Later files: the log is longer, the baseline further, and a baseline that stayed has its snapshot.\<close>

definition advances :: "StoredEvent list \<Rightarrow> 'p StoreFiles \<Rightarrow> StoredEvent list \<Rightarrow> 'p StoreFiles \<Rightarrow> bool" where
  "advances L d L' d' \<longleftrightarrow>
     (\<exists>es. L' = L @ es) \<and> base_of d \<le> base_of d' \<and> (base_of d = base_of d' \<longrightarrow> snapshot_at d' = snapshot_at d)"

lemma advances_refl [simp]: "advances L d L d"
  by (simp add: advances_def)

lemma advances_trans: "advances L d L' d' \<Longrightarrow> advances L' d' L'' d'' \<Longrightarrow> advances L d L'' d''"
  by (auto simp: advances_def)

lemma snapshot_at_read:
  assumes "holds S R L d"
  shows "(readProjectionSnapshot S d :: 'e store_error + 'p ProjectionSnapshot option) = Inr (snapshot_at (d :: 'p StoreFiles))"
    and "ix_baselineOrdinal (fresh_indexes (snapshot_at d)) = base_of d"
    and "snapshot_at d = None \<longleftrightarrow> base_of d = 0"
    and "snapshot_at d = Some s \<Longrightarrow> 1 \<le> base_of d \<and> sn_throughOrdinal s = base_of d \<and> base_of d \<le> length L \<and>
       R (take (base_of d) L) (sn_projection s) \<and> set (sn_idempotencyEvents s) \<subseteq> set (take (base_of d) L) \<and>
       (\<forall>e \<in> set (sn_idempotencyEvents s). sv_idempotencyKey e \<noteq> None)"
proof -
  have "(readProjectionSnapshot S d :: 'e store_error + 'p ProjectionSnapshot option) = Inr (snapshot_at d) \<and>
    ix_baselineOrdinal (fresh_indexes (snapshot_at d)) = base_of d \<and> (snapshot_at d = None \<longleftrightarrow> base_of d = 0) \<and>
    (snapshot_at d = Some s \<longrightarrow> 1 \<le> base_of d \<and> sn_throughOrdinal s = base_of d \<and> base_of d \<le> length L \<and>
       R (take (base_of d) L) (sn_projection s) \<and> set (sn_idempotencyEvents s) \<subseteq> set (take (base_of d) L) \<and>
       (\<forall>e \<in> set (sn_idempotencyEvents s). sv_idempotencyKey e \<noteq> None))" for s
  proof (cases "sf_baseline d")
    case None
    then show ?thesis
      by (simp add: readProjectionSnapshot_def readBaseline_def snapshot_at_def fresh_indexes_def base_of_def)
  next
    case (Some f)
    with holdsD(4) [OF assms Some] obtain b s' where
      b: "sf_baseline d = Some (Readable b)" "1 \<le> base_throughOrdinal b" "base_digest b \<noteq> []"
        "base_snapshotFile b = base_throughOrdinal b" "base_throughOrdinal b \<le> length L"
        "map_of (sf_snapshots d) (base_throughOrdinal b) = Some (Readable s')" "snapshot_holds S R L b s'"
      by (auto simp: baseline_holds_def)
    from b(1,6) have "snapshot_at d = Some s'" "base_of d = base_throughOrdinal b"
      by (simp_all add: snapshot_at_def base_of_def)
    with b show ?thesis
      by (auto simp: readProjectionSnapshot_def readBaseline_def fresh_indexes_def snapshot_holds_def snapshot_valid_def
        list_all_iff)
  qed
  then show "(readProjectionSnapshot S d :: 'e store_error + 'p ProjectionSnapshot option) = Inr (snapshot_at d)"
    and "ix_baselineOrdinal (fresh_indexes (snapshot_at d)) = base_of d"
    and "snapshot_at d = None \<longleftrightarrow> base_of d = 0"
    and "snapshot_at d = Some s \<Longrightarrow> 1 \<le> base_of d \<and> sn_throughOrdinal s = base_of d \<and> base_of d \<le> length L \<and>
       R (take (base_of d) L) (sn_projection s) \<and> set (sn_idempotencyEvents s) \<subseteq> set (take (base_of d) L) \<and>
       (\<forall>e \<in> set (sn_idempotencyEvents s). sv_idempotencyKey e \<noteq> None)"
    by blast+
qed

lemma advances_put_event: "advances L d (L @ [e]) (apply_op (PutEvent n e) d)"
  by (simp add: advances_def)

lemma advances_cursor: "advances L d L (apply_op TruncateCursor d)" "advances L d L (apply_op (PutCursor c) d)"
  by (simp_all add: advances_def)

lemma advances_prune:
  assumes "holds S R L d" and "base_of d = n" and "prunes n p"
  shows "advances L d L (apply_op p d)"
proof (cases p)
  case (UnlinkSnapshot m)
  with assms(2,3) show ?thesis
    by (auto simp: advances_def base_of_def snapshot_at_def delete_conv' split: option.split stored.split)
qed (use assms in \<open>auto simp: advances_def\<close>)

lemma advances_prunes:
  "holds S R L d \<Longrightarrow> base_of d = n \<Longrightarrow> list_all (prunes n) ops \<Longrightarrow> advances L d L (apply_ops ops d)"
proof (induction ops arbitrary: d)
  case (Cons p ops)
  then have "holds S R L (apply_op p d) \<and> base_of (apply_op p d) = n" by (auto dest: prune_holds)
  with Cons have "advances L (apply_op p d) L (apply_ops ops (apply_op p d))" by simp
  with advances_prune [of S R L d n p] Cons.prems show ?case by (auto intro: advances_trans)
qed simp

lemma advances_publication:
  assumes "holds S R L d" and "sn_throughOrdinal s = length L" and "base_of d < length L"
    and "snapshot_holds S R L \<lparr>base_throughOrdinal = length L, base_digest = sn_digest s, base_snapshotFile = length L\<rparr> s"
    and "sn_digest s \<noteq> []" and "list_all (prunes (length L)) rest"
  shows "advances L d L (apply_ops (take k (publish_ops s @ rest)) d)"
proof (cases "k < 2")
  case True
  then consider "k = 0" | "k = 1" by linarith
  then show ?thesis
  proof cases
    case 2
    with assms(2,3) show ?thesis
      by (auto simp: publish_ops_def advances_def base_of_def snapshot_at_def update_conv' split: option.split stored.split)
  qed simp
next
  case False
  with publication_holds(2) [OF assms, of k] assms(3) show ?thesis by (simp add: advances_def)
qed

section \<open>The index of a log\<close>

definition indexed :: "'p store_env \<Rightarrow> SynchronizedIndexes \<Rightarrow> StoredEvent list \<Rightarrow> SynchronizedIndexes" where
  "indexed S ix es = fold (\<lambda>e. index_event S (eh_ordinal e) e) es ix"

definition log_index :: "'p store_env \<Rightarrow> StoredEvent list \<Rightarrow> 'p StoreFiles \<Rightarrow> nat \<Rightarrow> SynchronizedIndexes" where
  "log_index S L d n = indexed S (fresh_indexes (snapshot_at d)) (take (n - base_of d) (drop (base_of d) L))"

lemma index_event_fields [simp]:
  "ix_baselineOrdinal (index_event S n e ix) = ix_baselineOrdinal ix"
  "ix_baselineDigest (index_event S n e ix) = ix_baselineDigest ix"
  "ix_lastOrdinal (index_event S n e ix) = n"
  by (simp_all add: index_event_def)

lemma indexed_fields [simp]:
  "ix_baselineOrdinal (indexed S ix es) = ix_baselineOrdinal ix"
  "ix_baselineDigest (indexed S ix es) = ix_baselineDigest ix"
  by (induction es arbitrary: ix) (simp_all add: indexed_def)

lemma indexed_append: "indexed S ix (es @ fs) = indexed S (indexed S ix es) fs"
  by (simp add: indexed_def)

lemma indexed_last: "es \<noteq> [] \<Longrightarrow> ix_lastOrdinal (indexed S ix es) = eh_ordinal (last es)"
  by (induction es arbitrary: ix rule: rev_induct) (simp_all add: indexed_append, simp add: indexed_def)

lemma log_index_fields:
  assumes "holds S R L d" and "base_of d \<le> n" and "n \<le> length L"
  shows "ix_baselineOrdinal (log_index S L d n) = base_of d" and "ix_lastOrdinal (log_index S L d n) = n"
proof -
  show "ix_baselineOrdinal (log_index S L d n) = base_of d"
    by (simp add: log_index_def snapshot_at_read(2) [OF assms(1)])
  show "ix_lastOrdinal (log_index S L d n) = n"
  proof (cases "base_of d = n")
    case True
    have "ix_lastOrdinal (fresh_indexes s) = ix_baselineOrdinal (fresh_indexes s)" for s :: "'a ProjectionSnapshot option"
      by (simp add: fresh_indexes_def split: option.split)
    with True show ?thesis by (simp add: log_index_def indexed_def snapshot_at_read(2) [OF assms(1)])
  next
    case False
    let ?es = "take (n - base_of d) (drop (base_of d) L)"
    from False assms(2,3) have len: "length ?es = n - base_of d" and ne: "?es \<noteq> []" by auto
    with False assms(2,3) have "last ?es = L ! (n - 1)" by (simp add: last_conv_nth)
    with log_ok_nth [OF holdsD(1) [OF assms(1)], of "n - 1"] False assms(2,3) have "eh_ordinal (last ?es) = n" by simp
    with indexed_last [OF ne] show ?thesis by (simp add: log_index_def)
  qed
qed

lemma log_index_Suc:
  assumes "base_of d \<le> n" and "n < length L" and "eh_ordinal (L ! n) = n + 1"
  shows "log_index S L d (n + 1) = index_event S (n + 1) (L ! n) (log_index S L d n)"
proof -
  have "take (n + 1 - base_of d) (drop (base_of d) L) = take (n - base_of d) (drop (base_of d) L) @ [L ! n]"
    using assms(1,2) by (simp add: Suc_diff_le take_Suc_conv_app_nth)
  with assms(3) show ?thesis by (simp add: log_index_def indexed_append) (simp add: indexed_def)
qed

definition cached_ok :: "'p store_env \<Rightarrow> StoredEvent list \<Rightarrow> 'p StoreFiles \<Rightarrow> SynchronizedIndexes option \<Rightarrow> bool" where
  "cached_ok S L d cached \<longleftrightarrow>
     (\<forall>c. cached = Some c \<longrightarrow> ix_baselineOrdinal c \<le> base_of d \<and>
        (ix_baselineOrdinal c = base_of d \<longrightarrow> (\<exists>n. base_of d \<le> n \<and> n \<le> length L \<and> c = log_index S L d n)))"

lemma cached_ok_None [simp]: "cached_ok S L d None"
  by (simp add: cached_ok_def)

lemma log_index_advances:
  assumes "advances L d L' d'" and "base_of d = base_of d'" and "n \<le> length L"
  shows "log_index S L' d' n = log_index S L d n"
  using assms by (auto simp: advances_def log_index_def)

lemma cached_ok_advances:
  assumes "cached_ok S L d cached" and "advances L d L' d'"
  shows "cached_ok S L' d' cached"
  unfolding cached_ok_def
proof (intro allI impI conjI)
  fix c
  assume c: "cached = Some c"
  with assms show "ix_baselineOrdinal c \<le> base_of d'" by (auto simp: cached_ok_def advances_def)
  assume eq: "ix_baselineOrdinal c = base_of d'"
  with c assms have "ix_baselineOrdinal c = base_of d" "base_of d = base_of d'"
    by (auto simp: cached_ok_def advances_def)
  with assms(1) c obtain n where n: "base_of d \<le> n" "n \<le> length L" "c = log_index S L d n" by (auto simp: cached_ok_def)
  with log_index_advances [OF assms(2) \<open>base_of d = base_of d'\<close>, of n S] \<open>base_of d = base_of d'\<close> assms(2)
  show "\<exists>n\<ge>base_of d'. n \<le> length L' \<and> c = log_index S L' d' n"
    by (intro exI [of _ n]) (auto simp: advances_def)
qed

lemma cached_ok_full: "holds S R L d \<Longrightarrow> cached_ok S L d (Some (log_index S L d (length L)))"
  unfolding cached_ok_def
  using log_index_fields(1) [OF _ holds_base order_refl, of S R L d] holds_base [of S R L d] by auto

lemma scan_filter:
  assumes "b < from"
  shows "scan_events S d from b ix names = scan_events S d from b ix (filter (\<lambda>n. from \<le> n) names)"
  by (induction names arbitrary: ix) (use assms in \<open>auto split: sum.split\<close>)

lemma scan_upt:
  fixes d :: "'p StoreFiles"
  assumes "holds S R L d" and "base_of d < from" and "from \<le> n + 1" and "base_of d \<le> n" and "n \<le> length L"
  shows "(scan_events S d from (base_of d) (log_index S L d n) [n + 1..<length L + 1] :: ('e store_error + unit) \<times> _) =
     (Inr (), log_index S L d (length L))"
  using assms(3-)
proof (induction "length L - n" arbitrary: n)
  case (Suc k)
  then have upt: "[n + 1..<length L + 1] = (n + 1) # [n + 1 + 1..<length L + 1]"
    using upt_conv_Cons [of "n + 1" "length L + 1"] by (simp del: upt_Suc)
  from Suc have lt: "n < length L" by simp
  from log_ok_nth [OF holdsD(1) [OF assms(1)] lt] have ord: "eh_ordinal (L ! n) = n + 1" by simp
  from Suc.hyps(1) [of "n + 1"] Suc.hyps(2) Suc.prems lt
  have "(scan_events S d from (base_of d) (log_index S L d (n + 1)) [n + 1 + 1..<length L + 1] :: ('e store_error + unit) \<times> _) =
     (Inr (), log_index S L d (length L))" by (simp del: upt_Suc)
  then show ?case
    unfolding upt log_index_Suc [OF Suc.prems(2) lt ord]
    using Suc.prems lt ord assms(2)
    by (simp add: read_event(1) [OF assms(1), of "n + 1", simplified] del: upt_Suc)
qed simp

lemma index_ahead_cached:
  assumes "holds S R L d" and "cached_ok S L d cached"
  shows "\<not> index_ahead cached (base_of d) digest (length L)"
proof
  assume "index_ahead cached (base_of d) digest (length L)"
  then obtain c where c: "cached = Some c" "ix_baselineOrdinal c = base_of d" "length L < ix_lastOrdinal c"
    by (auto simp: index_ahead_def split: option.splits)
  with assms(2) obtain n where "base_of d \<le> n" "n \<le> length L" "c = log_index S L d n" by (auto simp: cached_ok_def)
  with log_index_fields(2) [OF assms(1) this(1,2)] c(3) show False by simp
qed

text \<open>Extending whatever was cached gives the index of the whole log.\<close>

lemma synchronize_log:
  fixes d :: "'p StoreFiles"
  assumes d: "holds S R L d" "listable d" and cached: "cached_ok S L d cached"
  shows "(synchronizeIndexes S d cached :: ('e store_error + _) \<times> _) =
     (Inr (log_index S L d (length L)), Some (log_index S L d (length L)))"
proof -
  let ?full = "log_index S L d (length L)" and ?start = "fresh_indexes (snapshot_at d)"
  have start: "?start = log_index S L d (base_of d)" by (simp add: log_index_def indexed_def)
  have base: "base_of d \<le> length L" by (rule holds_base [OF d(1)])
  have pre: "bindE (eventFileNames d) (\<lambda>names. bindE (readProjectionSnapshot S d) (\<lambda>snapshot.
      let baseline = ix_baselineOrdinal (fresh_indexes snapshot) in
      bindE (assertReadableTail d names baseline) (\<lambda>_. Inr (names, snapshot)))) =
    (Inr (event_names d, snapshot_at d) :: 'e store_error + _)"
    by (simp add: listable_names [OF d(2)] snapshot_at_read(1,2) [OF d(1)] readable_tail [OF d(1)] Let_def)
  have scan: "(scan_events S d (ix_lastOrdinal (log_index S L d n) + 1) (base_of d) (log_index S L d n) (event_names d)
      :: ('e store_error + unit) \<times> _) = (Inr (), ?full)" if n: "base_of d \<le> n" "n \<le> length L" for n
  proof -
    have "filter (\<lambda>m. n + 1 \<le> m) (event_names d) = [n + 1..<length L + 1]"
      using names_after [OF d(1) n(1)] by (simp add: Suc_le_eq)
    then show ?thesis
      using scan_upt [OF d(1), of "n + 1" n, where 'e = 'e] n log_index_fields(2) [OF d(1) n]
      by (subst scan_filter) (simp_all del: upt_Suc)
  qed
  have full: "?full\<lparr>ix_lastOrdinal := length L\<rparr> = ?full" using log_index_fields(2) [OF d(1) base order_refl] by simp
  let ?extend = "can_extend cached (base_of d) (ix_baselineDigest ?start) (length L)"
  have sync: "(synchronizeIndexes S d cached :: ('e store_error + _) \<times> _) =
      (if ?extend \<and> ix_lastOrdinal (the cached) = length L then (Inr (the cached), cached)
       else let ix0 = (if ?extend then the cached else ?start) in
         case scan_events S d (ix_lastOrdinal ix0 + 1) (base_of d) ix0 (event_names d) of
           (Inl e, ix) \<Rightarrow> (Inl e, if ?extend then Some ix else cached)
         | (Inr _, ix) \<Rightarrow> let synced = ix\<lparr>ix_lastOrdinal := length L\<rparr> in (Inr synced, Some synced))"
    unfolding synchronizeIndexes_def pre unfolding Let_def sum.case prod.case snapshot_at_read(2) [OF d(1)]
      highest_name [OF d(1)]
    using index_ahead_cached [OF d(1) cached] by simp
  show ?thesis
  proof (cases ?extend)
    case True
    with cached obtain n where n: "base_of d \<le> n" "n \<le> length L" "cached = Some (log_index S L d n)"
      by (auto simp: can_extend_def cached_ok_def split: option.splits)
    with True scan [OF n(1,2)] full log_index_fields(2) [OF d(1) n(1,2)] show ?thesis
      unfolding sync by (cases "n = length L") (simp_all add: Let_def)
  next
    case False
    with scan [OF order_refl base, folded start] full show ?thesis
      unfolding sync by (simp add: Let_def)
  qed
qed

lemma synchronize_unlistable:
  "\<not> listable d \<Longrightarrow> synchronizeIndexes S d cached = (Inl DirectoryTooLarge, cached)"
  by (simp add: synchronizeIndexes_def eventFileNames_def listable_def)

section \<open>The events an index knows by their keys\<close>

definition keyed_events :: "StoredEvent list \<Rightarrow> StoredEvent js_record \<Rightarrow> bool" where
  "keyed_events L m \<longleftrightarrow> own_keys_distinct m \<and> (\<forall>(k, e) \<in> set m. sv_idempotencyKey e = Some k \<and> e \<in> set L)"

lemma keyed_events_Nil [simp]: "keyed_events L []"
  by (simp add: keyed_events_def)

lemma keyed_events_set:
  assumes "keyed_events L m" and "sv_idempotencyKey e = Some k" and "e \<in> set L"
  shows "keyed_events L (js_set k e m)"
proof -
  have "set (js_set k e m) \<subseteq> insert (k, e) (set m)" by (induction m) auto
  with assms show ?thesis by (auto simp: keyed_events_def)
qed

lemma keyed_events_mono: "keyed_events L m \<Longrightarrow> set L \<subseteq> set L' \<Longrightarrow> keyed_events L' m"
  by (auto simp: keyed_events_def)

lemma keyed_events_get: "keyed_events L m \<Longrightarrow> map_of m k = Some e \<Longrightarrow> sv_idempotencyKey e = Some k \<and> e \<in> set L"
  by (auto simp: keyed_events_def dest: map_of_SomeD)

lemma keyed_fold:
  assumes "keyed_events L m" and "\<forall>e \<in> set es. sv_idempotencyKey e \<noteq> None \<and> e \<in> set L"
  shows "keyed_events L (fold (\<lambda>e m. js_set (the (sv_idempotencyKey e)) e m) es m)"
  using assms
proof (induction es arbitrary: m)
  case (Cons e es)
  then obtain k where "sv_idempotencyKey e = Some k" by auto
  with Cons keyed_events_set [of L m e k] show ?case by simp
qed simp

lemma keyed_index_event:
  assumes "keyed_events L (ix_idempotencyEvents ix)" and "e \<in> set L"
  shows "keyed_events L (ix_idempotencyEvents (index_event S n e ix))"
  using assms by (auto simp: index_event_def intro: keyed_events_set split: option.split)

lemma indexed_keyed:
  assumes "keyed_events L (ix_idempotencyEvents ix)" and "set es \<subseteq> set L"
  shows "keyed_events L (ix_idempotencyEvents (indexed S ix es))"
  using assms
proof (induction es arbitrary: ix)
  case (Cons e es)
  with keyed_index_event [of L ix e S "eh_ordinal e"] show ?case by (simp add: indexed_def)
qed (simp add: indexed_def)

lemma log_index_keyed:
  assumes "holds S R L d"
  shows "keyed_events L (ix_idempotencyEvents (log_index S L d n))"
proof -
  have "keyed_events L (ix_idempotencyEvents (fresh_indexes (snapshot_at d)))"
  proof (cases "snapshot_at d")
    case (Some s)
    with snapshot_at_read(4) [OF assms Some] show ?thesis
      by (auto simp: fresh_indexes_def intro!: keyed_fold dest: in_set_takeD)
  qed (simp add: fresh_indexes_def)
  then show ?thesis
    unfolding log_index_def by (rule indexed_keyed) (auto dest: in_set_takeD in_set_dropD)
qed

end
