(* ===== verification/Store_Operations.thy ===== *)
theory Store_Operations
  imports Store_Index
begin

text \<open>
  What an append and a compaction do to files that carry a log, at whatever file operation they end.
\<close>

section \<open>Appending\<close>

text \<open>The events whose files a list of file operations writes.\<close>

definition written :: "'p file_op list \<Rightarrow> StoredEvent list" where
  "written ops = concat (map (\<lambda>p. case p of PutEvent n e \<Rightarrow> [e] | _ \<Rightarrow> []) ops)"

lemma written_simps [simp]:
  "written [] = []" "written (PutEvent n e # ops) = e # written ops" "written (TruncateCursor # ops) = written ops"
  "written (PutCursor c # ops) = written ops" "written (PutSnapshot n s # ops) = written ops"
  "written (PutBaseline b # ops) = written ops" "written (ops @ ops') = written ops @ written ops'"
  by (simp_all add: written_def)

lemma written_prunes: "list_all (prunes n) ops \<Longrightarrow> written ops = []"
proof (induction ops)
  case (Cons p ops)
  then show ?case by (cases p) (simp_all add: written_def)
qed simp

lemma written_cut: "written ops = [] \<Longrightarrow> written (cut_at fault ops) = []"
proof (cases fault)
  case (Some k)
  assume "written ops = []"
  then have "written (take k ops @ drop k ops) = []" by (simp only: append_take_drop_id)
  then have "written (take k ops) = []" by (simp del: append_take_drop_id)
  with Some show ?thesis by (simp add: cut_at_def)
qed (simp add: cut_at_def)

lemma same_files_index:
  assumes "advances L d L' d'" and "base_of d = base_of d'" and "base_of d \<le> length L" and "L' = L @ [e]"
    and "eh_ordinal e = length L + 1"
  shows "index_event S (length L + 1) e (log_index S L d (length L)) = log_index S L' d' (length L + 1)"
proof -
  have "log_index S L' d' (length L) = log_index S L d (length L)"
    by (rule log_index_advances [OF assms(1,2) order_refl])
  with log_index_Suc [of d' "length L" L' S] assms show ?thesis by simp
qed

lemma appended_files:
  assumes d: "holds S R L d" and e: "eh_ordinal e = length L + 1" "isCanonicalOrchestrationEvent e"
      "st_eventBytes S e \<le> st_maxTailBytes S"
    and ops: "ops = cut_at fault [PutEvent (length L + 1) e, TruncateCursor, PutCursor \<lparr>cur_lastOrdinal = length L + 1, cur_tailBytes = b\<rparr>]"
      "ops \<noteq> []"
  shows "holds S R (L @ [e]) (apply_ops ops d)" and "advances L d (L @ [e]) (apply_ops ops d)"
    and "base_of (apply_ops ops d) = base_of d" and "written ops = [e]"
proof -
  let ?d1 = "apply_op (PutEvent (length L + 1) e) d"
  note one = holds_put_event [OF d e]
  have step: "advances L d (L @ [e]) ?d1" by (rule advances_put_event)
  let ?c = "\<lparr>cur_lastOrdinal = length L + 1, cur_tailBytes = b\<rparr>"
  have two: "holds S R (L @ [e]) (apply_op TruncateCursor ?d1)" by (rule holds_cursor(1) [OF one])
  have three: "holds S R (L @ [e]) (apply_op (PutCursor ?c) (apply_op TruncateCursor ?d1))"
    by (rule holds_cursor(2) [OF two]) simp
  from ops have "ops \<in> {[PutEvent (length L + 1) e], [PutEvent (length L + 1) e, TruncateCursor],
      [PutEvent (length L + 1) e, TruncateCursor, PutCursor ?c]}"
    by (auto simp: cut_at_def take_Cons' split: option.splits if_splits)
  then show "holds S R (L @ [e]) (apply_ops ops d)" "advances L d (L @ [e]) (apply_ops ops d)"
    "base_of (apply_ops ops d) = base_of d" "written ops = [e]"
    using one two three step by (auto simp: advances_def)
qed

lemma append_log:
  fixes validate :: "StoredEvent \<Rightarrow> 'e + 'x"
  assumes d: "holds S R L d"
    and run: "appendUnlocked S st fault input expected validate (log_index S L d (length L)) = (r, ix, ops)"
  obtains (nothing) "ops = []" and "ix = log_index S L d (length L)"
      and "\<And>out. r = Inr out \<Longrightarrow> \<not> out_appended out \<and> out_admitted out = None \<and> out_event out \<in> set L \<and>
             sv_idempotencyKey (out_event out) = in_idempotencyKey input \<and> in_idempotencyKey input \<noteq> None \<and>
             same_content S (out_event out) input"
  | (new) e x where "e = next_event st (length L + 1) input" and "validate e = Inr x"
      and "r = Inr \<lparr>out_event = e, out_admitted = Some x, out_appended = True\<rparr> \<or> r = Inl IoFailed"
      and "ops \<noteq> []" and "holds S R (L @ [e]) (apply_ops ops d)" and "advances L d (L @ [e]) (apply_ops ops d)"
      and "ix = log_index S (L @ [e]) (apply_ops ops d) (length L + 1)"
      and "base_of (apply_ops ops d) = base_of d"
      and "expected = None \<or> expected = Some (length L)"
      and "Option.bind (in_idempotencyKey input) (map_of (ix_idempotencyEvents (log_index S L d (length L)))) = None"
      and "written ops = [e]"
proof -
  let ?ix = "log_index S L d (length L)" and ?e = "next_event st (length L + 1) input"
  have last: "ix_lastOrdinal ?ix = length L" by (rule log_index_fields(2) [OF d holds_base [OF d] order_refl])
  have ord: "eh_ordinal ?e = length L + 1" by (simp add: next_event_def)
  note run' = run [unfolded appendUnlocked_def Let_def last]
  show thesis
  proof (cases "normalizeAppendInput input :: 'e store_error + _")
    case (Inl err)
    show thesis by (rule nothing) (use run' Inl in auto)
  next
    case norm: (Inr i)
    show thesis
    proof (cases "Option.bind (in_idempotencyKey input) (map_of (ix_idempotencyEvents ?ix))")
      case (Some existing)
      then obtain k where k: "in_idempotencyKey input = Some k" "map_of (ix_idempotencyEvents ?ix) k = Some existing"
        by (cases "in_idempotencyKey input") auto
      show thesis
        by (rule nothing)
          (use keyed_events_get [OF log_index_keyed [OF d] k(2)] run' norm Some k(1) in
            \<open>auto simp: assertExactIdempotentReplay_def\<close>)
    next
      case None
      show thesis
      proof (cases "ops = []")
        case True
        show thesis
          by (rule nothing) (use True run' norm None in \<open>auto split: if_splits sum.splits\<close>)
      next
        case False
        with run' norm None obtain x where new: "validate ?e = Inr x" "isCanonicalOrchestrationEvent ?e"
          "st_eventBytes S ?e \<le> st_maxTailBytes S" "expected = None \<or> expected = Some (length L)"
          "ix = index_event S (length L + 1) ?e ?ix"
          "ops = cut_at fault [PutEvent (length L + 1) ?e, TruncateCursor, PutCursor \<lparr>cur_lastOrdinal = length L + 1,
             cur_tailBytes = Some (ix_tailBytes ?ix + st_eventBytes S ?e)\<rparr>]"
          "r = Inr \<lparr>out_event = ?e, out_admitted = Some x, out_appended = True\<rparr> \<or> r = Inl IoFailed"
          by (auto split: if_splits sum.splits option.splits)
        note files = appended_files [OF d ord new(2,3,6) False]
        from same_files_index [OF files(2) files(3) [symmetric] holds_base [OF d] refl ord]
        have idx: "ix = log_index S (L @ [?e]) (apply_ops ops d) (length L + 1)" using new(5) by simp
        show thesis by (rule that(2) [of ?e x]) (use idx new files False None in simp_all)
      qed
    qed
  qed
qed

section \<open>The events a snapshot retains\<close>

lemma js_values_keyed: "keyed_events L m \<Longrightarrow> distinct (map sv_idempotencyKey (js_values m)) \<and>
    (\<forall>e \<in> set (js_values m). sv_idempotencyKey e \<noteq> None \<and> e \<in> set L)"
proof -
  assume m: "keyed_events L m"
  have "map sv_idempotencyKey (js_values m) = map (\<lambda>p. Some (fst p)) m"
    using m by (auto simp: keyed_events_def)
  moreover have "distinct (map (\<lambda>p. Some (fst p)) m)"
    using m by (auto simp: keyed_events_def own_keys_distinct_def distinct_map inj_on_def)
  ultimately have "distinct (map sv_idempotencyKey (js_values m))" by metis
  with m show ?thesis by (auto simp: keyed_events_def)
qed

lemma keyed_retain: "keyed_events L m \<Longrightarrow> e \<in> set L \<Longrightarrow> keyed_events L (retain_by_key e m)"
  by (auto simp: retain_by_key_def intro: keyed_events_set split: option.split)

lemma keyed_retain_fold: "keyed_events L m \<Longrightarrow> set es \<subseteq> set L \<Longrightarrow> keyed_events L (fold retain_by_key es m)"
  by (induction es arbitrary: m) (auto intro: keyed_retain)

lemma keyed_retain_tail:
  assumes "holds S R L d" and "(retain_tail S d n m names :: 'e store_error + _) = Inr m'" and "keyed_events L m"
  shows "keyed_events L m'"
  using assms(2,3)
proof (induction names arbitrary: m)
  case (Cons k names)
  then obtain e where e: "(readEventFile S d k :: 'e store_error + StoredEvent) = Inr e"
    and rest: "(retain_tail S d n (if eh_ordinal e \<le> n then retain_by_key e m else m) names :: 'e store_error + _) = Inr m'"
    by auto
  from e obtain f where "map_of (sf_events d) k = Some (Readable e)"
    by (auto simp: readEventFile_def split: option.splits stored.splits if_splits)
  with holdsD(2) [OF assms(1) this] have "e \<in> set L" by (auto simp: Suc_le_eq)
  with keyed_retain [OF Cons.prems(2) this] Cons.prems(2)
  have "keyed_events L (if eh_ordinal e \<le> n then retain_by_key e m else m)" by simp
  from Cons.IH [OF rest this] show ?case .
qed simp

definition selected_ok :: "'p store_env \<Rightarrow> nat \<Rightarrow> StoredEvent list \<Rightarrow> bool" where
  "selected_ok S n es \<longleftrightarrow> length es \<le> n \<and>
     json_array_bytes (map (st_compactEventBytes S) es) \<le> MAX_ORCHESTRATION_SNAPSHOT_IDEMPOTENCY_BYTES"

lemma select_ok:
  assumes "selected_ok S n es" and "bytes = json_array_bytes (map (st_compactEventBytes S) es)"
  shows "selected_ok S n (select_idempotency S n bytes es fs)"
  using assms
proof (induction fs arbitrary: es bytes)
  case (Cons f fs)
  let ?next = "bytes + (if es \<noteq> [] then 1 else 0) + st_compactEventBytes S f"
  have grown: "?next = json_array_bytes (map (st_compactEventBytes S) (f # es))"
    using Cons.prems(2) by (cases es) (simp_all add: json_array_bytes_def)
  show ?case
  proof (cases "n \<le> length es \<or> MAX_ORCHESTRATION_SNAPSHOT_IDEMPOTENCY_BYTES < ?next")
    case True
    with Cons show ?thesis by (auto simp: Let_def)
  next
    case False
    with grown have "selected_ok S n (f # es)" by (simp add: selected_ok_def)
    from Cons.IH [OF this grown] False show ?thesis by (simp add: Let_def)
  qed
qed simp

lemma select_from:
  assumes "distinct (map sv_idempotencyKey (es @ fs))"
  shows "distinct (map sv_idempotencyKey (select_idempotency S n bytes es fs)) \<and>
    set (select_idempotency S n bytes es fs) \<subseteq> set es \<union> set fs"
  using assms
proof (induction fs arbitrary: es bytes)
  case (Cons f fs)
  then have skip: "distinct (map sv_idempotencyKey (es @ fs))" and take: "distinct (map sv_idempotencyKey ((f # es) @ fs))"
    by auto
  let ?next = "bytes + (if es \<noteq> [] then 1 else 0) + st_compactEventBytes S f"
  consider "n \<le> length es" | "\<not> n \<le> length es" "MAX_ORCHESTRATION_SNAPSHOT_IDEMPOTENCY_BYTES < ?next"
    | "\<not> n \<le> length es" "\<not> MAX_ORCHESTRATION_SNAPSHOT_IDEMPOTENCY_BYTES < ?next" by blast
  then show ?case
  proof cases
    case 1
    with skip show ?thesis by auto
  next
    case 2
    with Cons.IH [OF skip, of bytes] show ?thesis by (auto simp: Let_def)
  next
    case 3
    with Cons.IH [OF take, of ?next] show ?thesis by (auto simp: Let_def)
  qed
qed simp

lemma bounded_idempotency:
  assumes "keyed_events L m" and "es = boundedIdempotencyEvents S (js_values m) n"
  shows "selected_ok S n es" and "distinct (map sv_idempotencyKey es)" and "set es \<subseteq> set L"
    and "\<forall>e \<in> set es. sv_idempotencyKey e \<noteq> None"
proof -
  let ?fs = "rev (sort_key eh_ordinal (rev (js_values m)))"
  have mset: "mset ?fs = mset (js_values m)" by simp
  then have keys: "mset (map sv_idempotencyKey ?fs) = mset (map sv_idempotencyKey (js_values m))" by (simp only: mset_map)
  from js_values_keyed [OF assms(1)] have vals: "distinct (map sv_idempotencyKey ?fs)"
    "\<forall>e \<in> set ?fs. sv_idempotencyKey e \<noteq> None \<and> e \<in> set L"
    using mset_eq_imp_distinct_iff [OF keys] by auto
  show "selected_ok S n es"
    unfolding assms(2) boundedIdempotencyEvents_def
    by (rule select_ok) (simp_all add: selected_ok_def json_array_bytes_def
      MAX_ORCHESTRATION_SNAPSHOT_IDEMPOTENCY_BYTES_def)
  from select_from [of "[]" ?fs S n 2] vals
  show "distinct (map sv_idempotencyKey es)" "set es \<subseteq> set L" "\<forall>e \<in> set es. sv_idempotencyKey e \<noteq> None"
    unfolding assms(2) boundedIdempotencyEvents_def by auto
qed

section \<open>Compaction\<close>

text \<open>SHA-256 digests are never empty.\<close>

definition digests :: "'p store_env \<Rightarrow> bool" where
  "digests S \<longleftrightarrow> (\<forall>content. st_digest S content \<noteq> [])"

definition limits_positive :: "'p store_env \<Rightarrow> bool" where
  "limits_positive S \<longleftrightarrow> 1 \<le> st_maxTailEvents S \<and> 1 \<le> st_maxTailBytes S \<and> 1 \<le> st_maxIdempotencyEvents S"

lemma snapshot_of_fields [simp]:
  "sn_throughOrdinal (snapshot_of S now n p m) = n" "sn_projection (snapshot_of S now n p m) = p"
  "sn_createdAt (snapshot_of S now n p m) = now"
  "sn_idempotencyEvents (snapshot_of S now n p m) =
     boundedIdempotencyEvents S (js_values m) (st_maxIdempotencyEvents S)"
  "st_digest S (ProjectionSnapshotContent.truncate (snapshot_of S now n p m)) = sn_digest (snapshot_of S now n p m)"
  by (simp_all add: snapshot_of_def Let_def ProjectionSnapshotContent.defs)

lemma snapshot_of_holds:
  assumes d: "holds S R L d" and m: "keyed_events L m" and "R L p" and "isCanonicalIsoTimestamp now"
    and "st_snapshotBytes S (snapshot_of S now (length L) p m) \<le> MAX_ORCHESTRATION_PROJECTION_SNAPSHOT_BYTES"
  shows "snapshot_holds S R L \<lparr>base_throughOrdinal = length L, base_digest = sn_digest (snapshot_of S now (length L) p m),
     base_snapshotFile = length L\<rparr> (snapshot_of S now (length L) p m)"
proof -
  note sel = bounded_idempotency [OF m refl, of S "st_maxIdempotencyEvents S"]
  have "isCanonicalOrchestrationEvent e \<and> eh_ordinal e \<le> length L" if "e \<in> set L" for e
    using that log_ok_nth [OF holdsD(1) [OF d]] by (auto simp: in_set_conv_nth)
  with sel assms(3-) show ?thesis
    by (auto simp: snapshot_holds_def snapshot_valid_def selected_ok_def list_all_iff)
qed

lemma prune_ops_prune:
  "list_all (prunes n) (prune_event_ops n d @ prune_snapshot_ops n d)"
  by (auto simp: prune_event_ops_def prune_snapshot_ops_def list_all_iff)

lemma prune_part_prunes: "list_all (prunes n) (prune_event_ops n d)"
  using prune_ops_prune [of n d] by simp

lemma compaction_ops_cases:
  assumes "compaction_ops s d = (r, ops)"
  obtains rest where "ops = publish_ops s @ rest" and "list_all (prunes (sn_throughOrdinal s)) rest" and
    "\<And>b. r = Inr b \<Longrightarrow> b"
proof -
  consider "ops = publish_ops s @ []" | "ops = publish_ops s @ prune_event_ops (sn_throughOrdinal s) d"
    | "ops = publish_ops s @ (prune_event_ops (sn_throughOrdinal s) d @ prune_snapshot_ops (sn_throughOrdinal s) d)"
    using assms by (auto simp: compaction_ops_def Let_def split: if_splits)
  moreover have "\<And>b. r = Inr b \<Longrightarrow> b" using assms by (auto simp: compaction_ops_def Let_def split: if_splits)
  ultimately show thesis
    using that prune_ops_prune [of "sn_throughOrdinal s" d] prune_part_prunes [of "sn_throughOrdinal s" d]
    by cases auto
qed

lemma publication_snapshot:
  assumes "holds S R L d" and "sn_throughOrdinal s = length L" and "base_of d < length L"
    and "snapshot_holds S R L \<lparr>base_throughOrdinal = length L, base_digest = sn_digest s, base_snapshotFile = length L\<rparr> s"
    and "sn_digest s \<noteq> []" and "list_all (prunes (length L)) rest" and "2 \<le> k"
  shows "snapshot_at (apply_ops (take k (publish_ops s @ rest)) d) = Some s"
proof -
  from assms(7) obtain j where k: "k = Suc (Suc j)" by (metis add_2_eq_Suc le_Suc_ex)
  let ?d = "apply_ops (publish_ops s) d"
  have two: "holds S R L ?d" "base_of ?d = length L"
    using publication_holds [OF assms(1-6), of 2] by (simp_all add: publish_ops_def)
  have "snapshot_at ?d = Some s" using assms(2) by (simp add: publish_ops_def snapshot_at_def update_conv')
  moreover have "take k (publish_ops s @ rest) = publish_ops s @ take j rest" by (simp add: k publish_ops_def)
  moreover note advances_prunes [OF two list_all_take [OF assms(6), of j]] prunes_hold [OF two list_all_take [OF assms(6), of j]]
  ultimately show ?thesis using two(2) by (simp add: advances_def)
qed

text \<open>Nothing is compacted unless events lie beyond the baseline.\<close>

lemma tail_beyond_base:
  assumes "holds S R L d" and "limits_positive S"
    and "\<not> (length (filter (\<lambda>n. base_of d < n) (event_names d)) < st_maxTailEvents S \<and>
            ix_tailBytes (log_index S L d (length L)) < st_maxTailBytes S)"
  shows "base_of d < length L"
proof (rule ccontr)
  assume "\<not> base_of d < length L"
  with holds_base [OF assms(1)] have eq: "base_of d = length L" by simp
  then have "filter (\<lambda>n. base_of d < n) (event_names d) = []" using names_after [OF assms(1) order_refl] by simp
  moreover have "ix_tailBytes (log_index S L d (length L)) = 0"
    by (simp add: eq log_index_def indexed_def fresh_indexes_def split: option.split)
  ultimately show False using assms(2,3) by (simp add: limits_positive_def)
qed

lemma compact_log:
  fixes d :: "'p StoreFiles"
  assumes d: "holds S R L d" and cached: "cached_ok S L d cached" and S: "digests S" "limits_positive S"
    and p: "n = length L \<Longrightarrow> R L p"
    and run: "(compact_locked S now fault n p d cached :: ('e store_error + bool) \<times> _) = (r, cached', ops)"
  shows "holds S R L (apply_ops ops d) \<and> advances L d L (apply_ops ops d) \<and> cached_ok S L (apply_ops ops d) cached'"
proof (cases "listable d")
  case False
  with run cached d show ?thesis by (simp add: compact_locked_def synchronize_unlistable)
next
  case True
  let ?ix = "log_index S L d (length L)"
  have last: "ix_lastOrdinal ?ix = length L" by (rule log_index_fields(2) [OF d holds_base [OF d] order_refl])
  have keep: ?thesis if "ops = []" "cached' = Some ?ix" using that d cached_ok_full [OF d] by simp
  obtain b where b: "(readBaseline d :: 'e store_error + SnapshotBaseline option) = Inr b" "through b = base_of d"
    by (rule read_baseline [OF d]) blast
  have tail: "bindE (readBaseline d) (\<lambda>baseline. bindE (eventFileNames d) (\<lambda>names.
      Inr (filter (\<lambda>n. through baseline < n) names))) =
      (Inr (filter (\<lambda>n. base_of d < n) (event_names d)) :: 'e store_error + nat list)"
    by (simp add: b listable_names [OF True])
  note run' = run [unfolded compact_locked_def synchronize_log [OF d True cached] tail sum.case prod.case last]
  consider (idle) "ops = []" "cached' = Some ?ix"
    | (publish) m res pops where "n = length L"
      "\<not> (length (filter (\<lambda>n. base_of d < n) (event_names d)) < st_maxTailEvents S \<and>
          ix_tailBytes ?ix < st_maxTailBytes S)"
      "bindE (readProjectionSnapshot S d) (\<lambda>snapshot.
         retain_tail S d n (case snapshot of None \<Rightarrow> [] | Some s \<Rightarrow> fold retain_by_key (sn_idempotencyEvents s) [])
           (filter (\<lambda>n. base_of d < n) (event_names d))) = (Inr m :: 'e store_error + _)"
      "isCanonicalIsoTimestamp now"
      "st_snapshotBytes S (snapshot_of S now n p m) \<le> MAX_ORCHESTRATION_PROJECTION_SNAPSHOT_BYTES"
      "(compaction_ops (snapshot_of S now n p m) d :: ('e store_error + bool) \<times> _) = (res, pops)"
      "ops = cut_at fault pops"
      "cached' = Some ?ix \<or> (ops = pops \<and> cached' = Some (fresh_indexes (Some (snapshot_of S now n p m))))"
  proof (cases "n = length L \<and> \<not> (length (filter (\<lambda>n. base_of d < n) (event_names d)) < st_maxTailEvents S \<and>
          ix_tailBytes ?ix < st_maxTailBytes S)")
    case False
    with run' show thesis by (intro idle) (auto split: if_splits)
  next
    case go: True
    show thesis
    proof (cases "bindE (readProjectionSnapshot S d) (\<lambda>snapshot.
         retain_tail S d n (case snapshot of None \<Rightarrow> [] | Some s \<Rightarrow> fold retain_by_key (sn_idempotencyEvents s) [])
           (filter (\<lambda>n. base_of d < n) (event_names d))) :: 'e store_error + StoredEvent js_record")
      case (Inl e)
      with run' go show thesis by (intro idle) auto
    next
      case (Inr m)
      obtain res pops where pops:
        "(compaction_ops (snapshot_of S now n p m) d :: ('e store_error + bool) \<times> _) = (res, pops)" by force
      note run2 = run' [unfolded Inr sum.case Let_def pops prod.case]
      show thesis
      proof (cases "isCanonicalIsoTimestamp now \<and>
          st_snapshotBytes S (snapshot_of S now n p m) \<le> MAX_ORCHESTRATION_PROJECTION_SNAPSHOT_BYTES")
        case True
        with run2 go have "(ops = [] \<and> cached' = Some ?ix) \<or> (ops = cut_at fault pops \<and>
            (cached' = Some ?ix \<or> (ops = pops \<and> cached' = Some (fresh_indexes (Some (snapshot_of S now n p m))))))"
          by (cases res) (auto simp: cut_at_def completes_def split: if_splits option.splits)
        with go Inr True pops show thesis using idle publish [of m res pops] by blast
      next
        case False
        with run2 go show thesis by (intro idle) (auto split: if_splits)
      qed
    qed
  qed
  then show ?thesis
  proof cases
    case publish
    let ?s = "snapshot_of S now n p m"
    have m: "keyed_events L m"
    proof -
      from publish(3) have tail: "(retain_tail S d n (case snapshot_at d of None \<Rightarrow> []
          | Some s \<Rightarrow> fold retain_by_key (sn_idempotencyEvents s) []) (filter (\<lambda>n. base_of d < n) (event_names d))
          :: 'e store_error + _) = Inr m"
        by (simp add: snapshot_at_read(1) [OF d])
      have "keyed_events L (case snapshot_at d of None \<Rightarrow> [] | Some s \<Rightarrow> fold retain_by_key (sn_idempotencyEvents s) [])"
        using snapshot_at_read(4) [OF d] by (auto intro!: keyed_retain_fold dest: in_set_takeD split: option.split)
      with keyed_retain_tail [OF d tail] show ?thesis .
    qed
    have s: "snapshot_holds S R L \<lparr>base_throughOrdinal = length L, base_digest = sn_digest ?s,
        base_snapshotFile = length L\<rparr> ?s"
      using snapshot_of_holds [OF d m p [OF publish(1)] publish(4)] publish(1,5) by simp
    obtain rest where rest: "pops = publish_ops ?s @ rest" "list_all (prunes (length L)) rest"
      using compaction_ops_cases [OF publish(6)] publish(1) by (metis snapshot_of_fields(1))
    obtain k where k: "ops = take k (publish_ops ?s @ rest)" "k = length pops \<or> fault = Some k"
      using publish(7) rest(1) by (cases fault) (auto simp: cut_at_def intro: that [of "length pops"])
    have digest: "sn_digest ?s \<noteq> []" using S(1) by (simp add: snapshot_of_def Let_def digests_def
      ProjectionSnapshotContent.defs)
    have pre: "sn_throughOrdinal ?s = length L" "base_of d < length L"
      "snapshot_holds S R L \<lparr>base_throughOrdinal = length L, base_digest = sn_digest ?s, base_snapshotFile = length L\<rparr> ?s"
      "sn_digest ?s \<noteq> []" "list_all (prunes (length L)) rest"
      using publish(1) tail_beyond_base [OF d S(2) publish(2)] s digest rest(2) by simp_all
    have files: "holds S R L (apply_ops ops d)" "advances L d L (apply_ops ops d)"
      unfolding k(1) by (rule publication_holds(1) [OF d pre], rule advances_publication [OF d pre])
    have "cached_ok S L (apply_ops ops d) cached'"
      using publish(8)
    proof
      assume "cached' = Some ?ix"
      with cached_ok_advances [OF cached_ok_full [OF d] files(2)] show ?thesis by simp
    next
      assume done_: "ops = pops \<and> cached' = Some (fresh_indexes (Some ?s))"
      have "base_of (apply_ops ops d) = length L" and "snapshot_at (apply_ops ops d) = Some ?s"
        using publication_holds(2) [OF d pre, of "length pops"] publication_snapshot [OF d pre, of "length pops"] done_ rest(1)
        by (simp_all add: publish_ops_def)
      then have "log_index S L (apply_ops ops d) (length L) = fresh_indexes (Some ?s)"
        by (simp add: log_index_def indexed_def)
      with cached_ok_full [OF files(1)] done_ show ?thesis by simp
    qed
    with files show ?thesis by blast
  qed (rule keep)
qed

text \<open>A compaction keeps the log, at whatever file operation it ends.\<close>

lemma compaction_keeps_log:
  fixes d :: "'p StoreFiles"
  assumes "holds S R L d" and "cached_ok S L d cached" and "digests S" "limits_positive S"
    and "n = length L \<Longrightarrow> R L p"
    and run: "(compactIfNeeded S m now fault n p d cached :: ('p, 'e store_error + bool) StoreAnswer) = ans"
  shows "holds S R L (apply_ops (sa_ops ans) d)" and "advances L d L (apply_ops (sa_ops ans) d)"
    and "cached_ok S L (apply_ops (sa_ops ans) d) (sa_indexes ans)"
proof -
  obtain r cached' ops where locked:
    "(compact_locked S now fault n p d cached :: ('e store_error + bool) \<times> _) = (r, cached', ops)" by (metis prod_cases3)
  have "(sa_ops ans = [] \<and> sa_indexes ans = cached) \<or> (sa_ops ans = ops \<and> sa_indexes ans = cached')"
    using run by (auto simp: compactIfNeeded_def locked Let_def split: sum.splits if_splits maintenance.splits)
  with assms(1,2) compact_log [OF assms(1-5) locked]
  have "holds S R L (apply_ops (sa_ops ans) d) \<and> advances L d L (apply_ops (sa_ops ans) d) \<and>
    cached_ok S L (apply_ops (sa_ops ans) d) (sa_indexes ans)" by auto
  then show "holds S R L (apply_ops (sa_ops ans) d)" "advances L d L (apply_ops (sa_ops ans) d)"
    "cached_ok S L (apply_ops (sa_ops ans) d) (sa_indexes ans)" by blast+
qed

lemma compaction_writes_nothing:
  fixes p :: 'p
  assumes "(compactIfNeeded S m now fault n p d cached :: ('p, 'e store_error + bool) StoreAnswer) = ans"
  shows "written (sa_ops ans) = []"
proof -
  obtain r cached' ops where locked:
    "(compact_locked S now fault n p d cached :: ('e store_error + bool) \<times> _) = (r, cached', ops)" by (metis prod_cases3)
  have "\<exists>s res pops. (compaction_ops s d :: ('e store_error + bool) \<times> _) = (res, pops) \<and> (ops = [] \<or> ops = pops \<or> ops = cut_at fault pops)"
    using locked
    by (auto simp: compact_locked_def Let_def split: sum.splits prod.splits if_splits intro: prod.exhaust)
  moreover have "written pops = []" if ops: "(compaction_ops s d :: ('e store_error + bool) \<times> _) = (res, pops)" for s res pops
  proof -
    obtain rest where "pops = publish_ops s @ rest" "list_all (prunes (sn_throughOrdinal s)) rest"
      by (rule compaction_ops_cases [OF ops]) blast
    then show ?thesis by (simp add: publish_ops_def written_prunes)
  qed
  ultimately have "written ops = []" by (auto simp: written_cut)
  with assms show ?thesis
    by (auto simp: compactIfNeeded_def locked Let_def split: sum.splits if_splits maintenance.splits)
qed

section \<open>Transactions\<close>

text \<open>
  Where a transaction stands on files that carried \<open>L\<close> when it began: it has appended \<open>es\<close>, its operations leave
  files that carry the longer log, its index is the index of that log.
\<close>

definition tx_at ::
  "'p store_env \<Rightarrow> (StoredEvent list \<Rightarrow> 'p \<Rightarrow> bool) \<Rightarrow> StoredEvent list \<Rightarrow> 'p StoreFiles \<Rightarrow> StoredEvent list \<Rightarrow>
   'p StoreTransaction \<Rightarrow> bool" where
  "tx_at S R L d es tx \<longleftrightarrow>
     holds S R (L @ es) (apply_ops (tx_ops tx) d) \<and> advances L d (L @ es) (apply_ops (tx_ops tx) d) \<and>
     tx_indexes tx = log_index S (L @ es) (apply_ops (tx_ops tx) d) (length (L @ es)) \<and> written (tx_ops tx) = es"

lemma tx_append_cases:
  fixes validate :: "StoredEvent \<Rightarrow> 'e + 'x"
  assumes at: "tx_at S R L d es tx" and run: "tx_append S st fault input expected validate tx = (r, tx')"
  obtains (nothing) "tx_at S R L d es tx'" and
      "\<And>out. r = Inr out \<Longrightarrow> \<not> out_appended out \<and> out_admitted out = None \<and> out_event out \<in> set (L @ es) \<and>
         sv_idempotencyKey (out_event out) = in_idempotencyKey input \<and> in_idempotencyKey input \<noteq> None \<and>
         same_content S (out_event out) input"
  | (new) e x where "tx_at S R L d (es @ [e]) tx'" and "e = next_event st (length (L @ es) + 1) input"
      and "validate e = Inr x" and "expected = None \<or> expected = Some (length (L @ es))"
      and "r = Inr \<lparr>out_event = e, out_admitted = Some x, out_appended = True\<rparr> \<or> r = Inl IoFailed"
proof (cases "MAX_TRANSACTION_APPENDS < tx_appends tx + 1")
  case True
  show thesis by (rule nothing) (use True run at in \<open>auto simp: tx_append_def Let_def tx_at_def\<close>)
next
  case False
  obtain r' ix ops where app:
    "appendUnlocked S st fault input expected validate (tx_indexes tx) = (r', ix, ops)" by (metis prod_cases3)
  from run False app have r: "r = r'" and tx': "tx_indexes tx' = ix" "tx_ops tx' = tx_ops tx @ ops"
    by (auto simp: tx_append_def Let_def)
  let ?d = "apply_ops (tx_ops tx) d"
  from at have files: "holds S R (L @ es) ?d" and adv: "advances L d (L @ es) ?d"
    and ix: "tx_indexes tx = log_index S (L @ es) ?d (length (L @ es))" and es: "written (tx_ops tx) = es"
    by (simp_all add: tx_at_def)
  from files app [unfolded ix] show thesis
  proof (cases rule: append_log)
    case same: nothing
    show thesis by (rule that(1)) (use same files adv es r tx' in \<open>auto simp: tx_at_def\<close>)
  next
    case made: (new e x)
    show thesis by (rule that(2) [of e x]) (use made adv es r tx' in \<open>auto simp: tx_at_def intro: advances_trans\<close>)
  qed
qed

lemma append_runs:
  fixes validate :: "StoredEvent \<Rightarrow> 'e + 'x" and d :: "'p StoreFiles"
  assumes d: "holds S R L d" and cached: "cached_ok S L d cached"
    and run: "store_append S locked st fault input expected validate d cached = ans"
  obtains (nothing) "sa_ops ans = []" and "cached_ok S L d (sa_indexes ans)" and "sa_committed ans = []"
      and "\<And>out. sa_result ans = Inr out \<Longrightarrow> \<not> out_appended out \<and> out_admitted out = None \<and> out_event out \<in> set L \<and>
         sv_idempotencyKey (out_event out) = in_idempotencyKey input \<and> in_idempotencyKey input \<noteq> None \<and>
         same_content S (out_event out) input"
  | (new) e x where "e = next_event st (length L + 1) input" and "validate e = Inr x"
      and "sa_result ans = Inr \<lparr>out_event = e, out_admitted = Some x, out_appended = True\<rparr> \<or> sa_result ans = Inl IoFailed"
      and "holds S R (L @ [e]) (apply_ops (sa_ops ans) d)" and "advances L d (L @ [e]) (apply_ops (sa_ops ans) d)"
      and "cached_ok S (L @ [e]) (apply_ops (sa_ops ans) d) (sa_indexes ans)"
      and "expected = None \<or> expected = Some (length L)" and "written (sa_ops ans) = [e]"
proof -
  consider "\<not> locked" | "locked" "\<not> listable d" | "locked" "listable d" by blast
  then show thesis
  proof cases
    case 1
    show thesis by (rule nothing) (use 1 run cached in \<open>auto simp: store_append_def transact_def\<close>)
  next
    case 2
    show thesis
      by (rule nothing) (use 2 run cached in \<open>auto simp: store_append_def transact_def synchronize_unlistable\<close>)
  next
    case 3
    let ?ix = "log_index S L d (length L)"
    let ?tx = "\<lparr>tx_indexes = ?ix, tx_appends = 0, tx_ops = [], tx_committed = []\<rparr> :: 'p StoreTransaction"
    obtain r ix ops where app: "appendUnlocked S st fault input expected validate ?ix = (r, ix, ops)" by (metis prod_cases3)
    have ans: "sa_result ans = r" "sa_indexes ans = Some ix" "sa_ops ans = ops"
      "sa_committed ans = (case r of Inr out \<Rightarrow> if out_appended out then [out_event out] else [] | Inl _ \<Rightarrow> [])"
      using run [symmetric]
      by (simp_all add: store_append_def transact_def 3 synchronize_log [OF d 3(2) cached] tx_append_def app Let_def
        MAX_TRANSACTION_APPENDS_def)
    from d app show thesis
    proof (cases rule: append_log)
      case same: nothing
      show thesis by (rule that(1)) (use same ans cached_ok_full [OF d] in \<open>auto split: sum.split\<close>)
    next
      case made: (new e x)
      show thesis by (rule that(2) [of e x]) (use made cached_ok_full [OF made(5)] ans in auto)
    qed
  qed
qed

end
