(* ===== verification/Runtime_Reads.thy ===== *)
theory Runtime_Reads
  imports Task_Runtime Store_Operations Ledger_Properties
begin

text \<open>
  What a runtime reads back. \<open>replays J L p\<close> says that \<open>p\<close> is the projection of the log \<open>L\<close>; a read that succeeds, over
  files other writers may change between its store calls, returns the projection of the log at one of its
  moments, whatever part of it a snapshot has replaced.
\<close>

section \<open>The projection of a log\<close>

lemma event_of_fields [simp]: "eh_ordinal (event_of e) = eh_ordinal e"
  by (simp add: event_of_def OrchestrationEvent.defs)

abbreviation replay :: "json_env \<Rightarrow> ledger_state \<Rightarrow> StoredEvent list \<Rightarrow> orch_error + ledger_state" where
  "replay J s L \<equiv> foldE (reduceOrchestrationEvent J) s (map event_of L)"

definition replays :: "json_env \<Rightarrow> StoredEvent list \<Rightarrow> TaskRuntimeProjection \<Rightarrow> bool" where
  "replays J L p \<longleftrightarrow> (\<exists>c. replay J (emptyProjection, None) L = Inr (p, c))"

text \<open>A cached size that is exact makes no difference.\<close>

lemma limits_exact:
  "cache_exact J (p, c) \<Longrightarrow> assertProjectionWithinLimits J c p = assertProjectionWithinLimits J None p"
  "cache_exact J (p, c) \<Longrightarrow> cachedProjectionBytes J c p = cachedProjectionBytes J None p"
  by (cases c; simp add: assertProjectionWithinLimits_def cachedProjectionBytes_def cache_exact_def)+

lemma reduce_exact:
  "cache_exact J (p, c) \<Longrightarrow> reduceOrchestrationEvent J (p, c) e = reduceOrchestrationEvent J (p, None) e"
  by (simp add: reduceOrchestrationEvent_def limits_exact)

lemma replay_cache_exact:
  assumes "replay J s L = Inr s'" and "cache_exact J s"
  shows "cache_exact J s'"
  using assms by (rule foldE_invariant) (use reduce_cache_exact in blast)

lemma replay_any_cache:
  assumes "cache_exact J (p, c)" and "cache_exact J (p, c')" and "replay J (p, c) L = Inr (q, d)"
  shows "\<exists>d'. replay J (p, c') L = Inr (q, d')"
proof (cases L)
  case (Cons e es)
  with assms reduce_exact [OF assms(1)] reduce_exact [OF assms(2)] show ?thesis by auto
qed (use assms(3) in simp)

lemma replays_exact: "replays J L p \<Longrightarrow> \<exists>c. cache_exact J (p, c) \<and> replay J (emptyProjection, None) L = Inr (p, c)"
  using replay_cache_exact empty_exact by (auto simp: replays_def)

lemma replays_keyed: "replays J L p \<Longrightarrow> cache_exact J (p, None)"
  using replays_exact by (fastforce simp: cache_exact_def)

lemma replays_unique: "replays J L p \<Longrightarrow> replays J L q \<Longrightarrow> p = q"
  by (auto simp: replays_def)

lemma replays_empty [simp]: "replays J [] p \<longleftrightarrow> p = emptyProjection"
  by (auto simp: replays_def)

lemma replays_append:
  assumes "replays J L p" and "cache_exact J (p, c)"
  shows "replays J (L @ M) q \<longleftrightarrow> (\<exists>d. replay J (p, c) M = Inr (q, d))"
proof -
  obtain c0 where c0: "cache_exact J (p, c0)" "replay J (emptyProjection, None) L = Inr (p, c0)"
    using replays_exact [OF assms(1)] by blast
  then have "replays J (L @ M) q \<longleftrightarrow> (\<exists>d. replay J (p, c0) M = Inr (q, d))"
    by (simp add: replays_def foldE_append)
  with replay_any_cache [OF c0(1) assms(2)] replay_any_cache [OF assms(2) c0(1)] show ?thesis by blast
qed

lemma replays_take:
  assumes "replays J L q"
  obtains p where "replays J (take j L) p"
proof -
  from assms obtain c where "replay J (emptyProjection, None) (take j L @ drop j L) = Inr (q, c)"
    by (auto simp: replays_def)
  then show thesis using that by (fastforce simp: replays_def foldE_append simp del: append_take_drop_id)
qed

lemma replays_ordinal:
  assumes "log_ok S L" and "replays J L p"
  shows "lastOrdinal p = length L"
proof -
  obtain c where run: "replay J (emptyProjection, None) L = Inr (p, c)" using assms(2) by (auto simp: replays_def)
  have bound: "lastOrdinal p \<le> length L"
    using ledger.replay_reaches [OF run] log_ok_nth [OF assms(1)]
    by (fastforce simp: emptyProjection_def in_set_conv_nth)
  have "eh_ordinal (last L) = length L" if "L \<noteq> []"
    using that log_ok_nth [OF assms(1), of "length L - 1"] by (simp add: last_conv_nth)
  moreover have "eh_ordinal (last L) \<le> lastOrdinal p" if "L \<noteq> []"
    using that ledger.replay_position [OF run] last_in_set [of L] by (fastforce simp del: last_in_set)
  ultimately have "length L \<le> lastOrdinal p" if "L \<noteq> []" using that by simp
  with bound show ?thesis by (cases "L = []") simp_all
qed

lemma log_ok_take: "log_ok S L \<Longrightarrow> log_ok S (take j L)"
  by (simp add: log_ok_def)

section \<open>The state of a runtime\<close>

definition state_of :: "json_env \<Rightarrow> StoredEvent list \<Rightarrow> ledger_state \<Rightarrow> bool" where
  "state_of J L s \<longleftrightarrow> cache_exact J s \<and> replays J L (fst s)"

definition state_within :: "json_env \<Rightarrow> StoredEvent list \<Rightarrow> ledger_state \<Rightarrow> bool" where
  "state_within J L s \<longleftrightarrow> lastOrdinal (fst s) \<le> length L \<and> state_of J (take (lastOrdinal (fst s)) L) s"

lemma state_of_within: "log_ok S L \<Longrightarrow> state_of J L s \<Longrightarrow> state_within J L s"
  using replays_ordinal by (fastforce simp: state_within_def state_of_def)

lemma state_of_take:
  assumes "log_ok S L" and "j \<le> length L" and "state_of J (take j L) s"
  shows "lastOrdinal (fst s) = j" and "state_within J L s"
proof -
  show "lastOrdinal (fst s) = j"
    using replays_ordinal [OF log_ok_take [OF assms(1), of j], of J "fst s"] assms(2,3) by (simp add: state_of_def)
  with assms show "state_within J L s" by (simp add: state_within_def)
qed

lemma state_within_append: "state_within J L s \<Longrightarrow> state_within J (L @ M) s"
  by (simp add: state_within_def)

lemma state_of_replay:
  assumes "state_of J L s" and "replay J s M = Inr s'"
  shows "state_of J (L @ M) s'"
proof -
  from assms have "cache_exact J s'" by (auto simp: state_of_def dest: replay_cache_exact)
  moreover have "replays J (L @ M) (fst s')"
    using assms replays_append [of J L "fst s" "snd s" M "fst s'"] by (simp add: state_of_def) (metis prod.collapse)
  ultimately show ?thesis by (simp add: state_of_def)
qed

lemma replay_events_state:
  assumes "state_of J (take j L) s" and "j \<le> length L" and "replay_events J s (drop j L) = Inr s'"
  shows "state_of J L s'"
  using state_of_replay [OF assms(1), of "drop j L" s'] assms(3) by (simp add: replay_events_def)

lemma replay_events_total:
  assumes "state_of J (take j L) s" and "replays J L q"
  shows "\<exists>c. replay_events J s (drop j L) = Inr (q, c)"
proof -
  from assms(1) have "replays J (take j L @ drop j L) q \<longleftrightarrow> (\<exists>d. replay J (fst s, snd s) (drop j L) = Inr (q, d))"
    by (intro replays_append) (simp_all add: state_of_def)
  with assms(2) show ?thesis by (simp add: replay_events_def)
qed

section \<open>Snapshots\<close>

text \<open>The one normalisation a read makes is of the text of notifications.\<close>

definition messages_trimmed :: "json_env \<Rightarrow> StoredEvent list \<Rightarrow> bool" where
  "messages_trimmed J L \<longleftrightarrow>
     (\<forall>j p. replays J (take j L) p \<longrightarrow> (\<forall>note \<in> set (js_values (notifications p)). js_trim (note_message note) = note_message note))"

definition snapshots_accepted :: "json_env \<Rightarrow> StoredEvent list \<Rightarrow> bool" where
  "snapshots_accepted J L \<longleftrightarrow>
     (\<forall>j p. j \<le> length L \<longrightarrow> replays J (take j L) p \<longrightarrow> (\<exists>s. projectionFromSnapshot J p j = Inr s))"

lemma messages_trimmed_take: "messages_trimmed J (L @ M) \<Longrightarrow> messages_trimmed J L"
proof (unfold messages_trimmed_def, intro allI impI)
  fix j p
  assume trimmed: "\<forall>j p. replays J (take j (L @ M)) p \<longrightarrow>
      (\<forall>note \<in> set (js_values (notifications p)). js_trim (note_message note) = note_message note)"
    and run: "replays J (take j L) p"
  have "take j L = take (min j (length L)) (L @ M)" by (simp add: min_def)
  with run trimmed show "\<forall>note \<in> set (js_values (notifications p)). js_trim (note_message note) = note_message note"
    by metis
qed

lemma mapEs_identity:
  assumes "mapEs f xs = Inr ys" and "\<And>x y. x \<in> set xs \<Longrightarrow> f x = Inr y \<Longrightarrow> y = x"
  shows "ys = xs"
  using assms by (induction xs arbitrary: ys) auto

lemma notes_identity:
  assumes "mapEs notificationRuntimeStateFromValue m = Inr m'"
    and "\<forall>note \<in> set (js_values m). js_trim (note_message note) = note_message note"
  shows "m' = m"
  using assms(1)
proof (rule mapEs_identity)
  fix x y :: "string \<times> NotificationRuntimeState"
  assume "x \<in> set m" and "notificationRuntimeStateFromValue x = Inr y"
  with assms(2) show "y = x"
    by (cases x) (force simp: notificationRuntimeStateFromValue_def retainedDescription_def Let_def split: if_split_asm)
qed

lemma restored_projection:
  assumes "projectionFromSnapshot J p n = Inr s"
    and "\<forall>note \<in> set (js_values (notifications p)). js_trim (note_message note) = note_message note"
  shows "fst s = p" and "\<exists>b. snd s = Some b \<and> projectionSerializedBytes J p = Inr b"
proof -
  from assms(1) obtain ns b where ns: "mapEs notificationRuntimeStateFromValue (notifications p) = Inr ns"
    and s: "s = (p\<lparr>notifications := ns\<rparr>, Some b)" and b: "projectionSerializedBytes J (p\<lparr>notifications := ns\<rparr>) = Inr b"
    by (auto simp: projectionFromSnapshot_def Let_def)
  from notes_identity [OF ns assms(2)] have "ns = notifications p" .
  with s b show "fst s = p" "\<exists>b. snd s = Some b \<and> projectionSerializedBytes J p = Inr b" by simp_all
qed

abbreviation log_holds :: "json_env \<Rightarrow> store \<Rightarrow> StoredEvent list \<Rightarrow> files \<Rightarrow> bool" where
  "log_holds J S \<equiv> holds S (replays J)"

lemma from_snapshot_state:
  assumes "log_holds J S L d" and "messages_trimmed J L" and "snapshot_at d = Some s" and "from_snapshot J s = Inr t"
  shows "state_of J (take (base_of d) L) t"
proof -
  from snapshot_at_read(4) [OF assms(1,3)]
  have run: "replays J (take (base_of d) L) (sn_projection s)" by simp
  from assms(2) run have trimmed: "\<forall>note \<in> set (js_values (notifications (sn_projection s))). js_trim (note_message note) = note_message note"
    unfolding messages_trimmed_def by blast
  from assms(4) have "projectionFromSnapshot J (sn_projection s) (sn_throughOrdinal s) = Inr t"
    by (simp add: from_snapshot_def)
  from restored_projection [OF this trimmed] run replays_keyed [OF run] show ?thesis
    by (auto simp: state_of_def cache_exact_def)
qed

lemma from_snapshot_total:
  assumes "log_holds J S L d" and "snapshots_accepted J L" and "snapshot_at d = Some s"
  obtains t where "from_snapshot J s = Inr t"
proof -
  from snapshot_at_read(4) [OF assms(1,3)] assms(2) obtain t
    where "projectionFromSnapshot J (sn_projection s) (sn_throughOrdinal s) = Inr t"
    unfolding snapshots_accepted_def by metis
  then show thesis using that by (simp add: from_snapshot_def)
qed

section \<open>Reading over moving files\<close>

text \<open>Without the listing an answer is still right: only an error can replace it.\<close>

lemma read_all_sound:
  assumes "holds S R L d" and "readAll S d = Inr es"
  shows "es = drop (base_of d) L"
proof (cases "listable d")
  case True
  show ?thesis using assms(2) by (simp add: read_all [OF assms(1) True])
next
  case False
  with assms(2) show ?thesis by (simp add: readAll_def eventFileNames_def listable_def)
qed

lemma read_after_sound:
  assumes "holds S R L d" and "j \<le> length L"
    and "(readAfter S d j :: 'e store_error + StoredEvent list) = Inr es"
  shows "base_of d \<le> j \<and> es = drop j L"
proof (cases "listable d")
  case True
  show ?thesis using assms(3) by (simp add: read_after [OF assms(1) True assms(2)] split: if_split_asm)
next
  case False
  obtain b where b: "(readBaseline d :: 'e store_error + SnapshotBaseline option) = Inr b" "through b = base_of d"
    and some: "b = None \<Longrightarrow> sf_baseline d = None"
    by (rule read_baseline [OF assms(1)]) blast
  from False assms(3) b have early: "\<not> (b \<noteq> None \<and> j < base_of d)" and es: "es = []" and none: "\<not> hasEventFile d (j + 1)"
    by (auto simp: readAfter_def eventFileNames_def listable_def split: if_split_asm)
  have le: "base_of d \<le> j" using early some by (cases "b = None") (simp_all add: base_of_def)
  have "length L \<le> j"
  proof (rule ccontr)
    assume "\<not> length L \<le> j"
    with le holdsD(3) [OF assms(1), of "j + 1"] none show False by (simp add: hasEventFile_def)
  qed
  with le es show ?thesis by simp
qed

text \<open>The files each store call of one read sees: each carries a log, and later files come after earlier ones.\<close>

definition moments :: "json_env \<Rightarrow> store \<Rightarrow> (nat \<Rightarrow> StoredEvent list) \<Rightarrow> (nat \<Rightarrow> files) \<Rightarrow> bool" where
  "moments J S L at' \<longleftrightarrow>
     (\<forall>i. log_holds J S (L i) (at' i) \<and> messages_trimmed J (L i) \<and> (\<exists>q. replays J (L i) q)) \<and>
     (\<forall>i j. i \<le> j \<longrightarrow> advances (L i) (at' i) (L j) (at' j))"

lemma momentsD:
  assumes "moments J S L at'"
  shows "log_holds J S (L i) (at' i)" "messages_trimmed J (L i)" "\<exists>q. replays J (L i) q"
    "i \<le> j \<Longrightarrow> advances (L i) (at' i) (L j) (at' j)"
  using assms by (auto simp: moments_def)

lemma advances_prefix: "advances L d M d' \<Longrightarrow> \<exists>es. M = L @ es"
  by (auto simp: advances_def)

lemma state_within_later:
  assumes "moments J S L at'" and "i \<le> j" and "state_within J (L i) s"
  shows "state_within J (L j) s"
  using advances_prefix [OF momentsD(4) [OF assms(1,2)]] assms(3) by (auto intro: state_within_append)

lemma snapshot_state_within:
  assumes "moments J S L at'" and "(readProjectionSnapshot S (at' i) :: 'e store_error + _) = Inr (Some s)"
    and "from_snapshot J s = Inr t"
  shows "state_within J (L i) t \<and> lastOrdinal (fst t) = base_of (at' i) \<and> sn_throughOrdinal s = base_of (at' i)"
proof -
  note h = momentsD(1) [OF assms(1), of i]
  from assms(2) have s: "snapshot_at (at' i) = Some s" by (simp add: snapshot_at_read(1) [OF h])
  note st = from_snapshot_state [OF h momentsD(2) [OF assms(1)] s assms(3)]
  from state_of_take [OF holdsD(1) [OF h] holds_base [OF h] st] snapshot_at_read(4) [OF h s] show ?thesis by simp
qed

lemma tail_read_state:
  assumes "moments J S L at'" and "state_within J (L i) s"
    and "(readAfter S (at' i) (lastOrdinal (fst s)) :: 'e store_error + _) = Inr es"
    and "replay_events J s es = Inr t"
  shows "state_of J (L i) t"
proof -
  have le: "lastOrdinal (fst s) \<le> length (L i)" and st: "state_of J (take (lastOrdinal (fst s)) (L i)) s"
    using assms(2) by (simp_all add: state_within_def)
  from read_after_sound [OF momentsD(1) [OF assms(1)] le assms(3)] have "es = drop (lastOrdinal (fst s)) (L i)" by simp
  with assms(4) replay_events_state [OF st le] show ?thesis by simp
qed

text \<open>Events read before a snapshot, from the snapshot on.\<close>

lemma filter_after:
  assumes "log_ok S L" and "b \<le> n" and "n \<le> length L"
  shows "filter (\<lambda>e. n < eh_ordinal e) (drop b L) = drop n L"
proof -
  have ord: "eh_ordinal (L ! i) = i + 1" if "i < length L" for i using log_ok_nth [OF assms(1) that] by simp
  have "drop b L = take (n - b) (drop b L) @ drop n L"
    using assms(2) by (metis append_take_drop_id drop_drop le_add_diff_inverse2)
  moreover have "filter (\<lambda>e. n < eh_ordinal e) (take (n - b) (drop b L)) = []"
    using assms(2,3) ord by (auto simp: filter_empty_conv in_set_conv_nth)
  moreover have "filter (\<lambda>e. n < eh_ordinal e) (drop n L) = drop n L"
    using ord by (auto simp: filter_id_conv in_set_conv_nth)
  ultimately show ?thesis by (metis append_self_conv2 filter_append)
qed

lemma read_from_store_state:
  assumes m: "moments J S L at'" and run: "read_from_store J S at' = Inr s"
  shows "state_within J (L 3) s"
proof -
  obtain snapshot :: "TaskRuntimeProjection ProjectionSnapshot option" where
    first: "(readProjectionSnapshot S (at' 0) :: admission_error store_error + _) = Inr snapshot"
    using run by (auto simp: read_from_store_def)
  show ?thesis
  proof (cases snapshot)
    case (Some sn)
    with run first have "from_snapshot J sn = Inr s" by (simp add: read_from_store_def)
    with snapshot_state_within [OF m first [unfolded Some]] state_within_later [OF m, of 0 3] show ?thesis by simp
  next
    case None
    from run first None obtain events after' where
      events: "(readAll S (at' 1) :: admission_error store_error + _) = Inr events"
      and second: "(readProjectionSnapshot S (at' 2) :: admission_error store_error + _) = Inr after'"
      and rest: "(case after' of None \<Rightarrow> mapE ReplayRefused (projectOrchestrationEvents J (map event_of events))
        | Some sn \<Rightarrow> bindE (from_snapshot J sn) (\<lambda>state.
            replay_events J state (filter (\<lambda>e. sn_throughOrdinal sn < eh_ordinal e) events))) = Inr s"
      by (auto simp: read_from_store_def)
    note h1 = momentsD(1) [OF m, of 1] and h2 = momentsD(1) [OF m, of 2]
    from read_all_sound [OF h1 events] have ev: "events = drop (base_of (at' 1)) (L 1)" .
    have move: "advances (L 1) (at' 1) (L 2) (at' 2)" by (rule momentsD(4) [OF m]) simp
    then have base: "base_of (at' 1) \<le> base_of (at' 2)" and prefix: "\<exists>es. L 2 = L 1 @ es" by (auto simp: advances_def)
    from second have sn2: "snapshot_at (at' 2) = after'" by (simp add: snapshot_at_read(1) [OF h2])
    show ?thesis
    proof (cases after')
      case None
      with sn2 snapshot_at_read(3) [OF h2] base ev have "events = L 1" by simp
      with rest None have "replay J (emptyProjection, None) (L 1) = Inr s"
        by (simp add: projectOrchestrationEvents_def)
      then have "state_of J (L 1) s"
        using replay_cache_exact [OF _ empty_exact] by (auto simp: state_of_def replays_def) (metis prod.collapse)
      from state_of_within [OF holdsD(1) [OF h1] this] show ?thesis using state_within_later [OF m, of 1 3] by simp
    next
      case (Some sn)
      from rest Some obtain t where t: "from_snapshot J sn = Inr t"
        and tail: "replay_events J t (filter (\<lambda>e. sn_throughOrdinal sn < eh_ordinal e) events) = Inr s" by auto
      from snapshot_state_within [OF m second [unfolded Some] t]
      have within: "state_within J (L 2) t" "lastOrdinal (fst t) = base_of (at' 2)" "sn_throughOrdinal sn = base_of (at' 2)"
        by simp_all
      show ?thesis
      proof (cases "base_of (at' 2) \<le> length (L 1)")
        case True
        have "take (base_of (at' 2)) (L 2) = take (base_of (at' 2)) (L 1)" using prefix True by auto
        with within have st: "state_of J (take (base_of (at' 2)) (L 1)) t" by (simp add: state_within_def)
        have "filter (\<lambda>e. sn_throughOrdinal sn < eh_ordinal e) events = drop (base_of (at' 2)) (L 1)"
          using filter_after [OF holdsD(1) [OF h1] base True] by (simp add: ev within(3))
        with tail have "state_of J (L 1) s" using replay_events_state [OF st True] by simp
        from state_of_within [OF holdsD(1) [OF h1] this] show ?thesis using state_within_later [OF m, of 1 3] by simp
      next
        case False
        have "eh_ordinal e \<le> length (L 1)" if "e \<in> set events" for e
          using that ev log_ok_nth [OF holdsD(1) [OF h1]] in_set_dropD [of e _ "L 1"] by (auto simp: in_set_conv_nth)
        with False have "filter (\<lambda>e. sn_throughOrdinal sn < eh_ordinal e) events = []"
          by (fastforce simp: filter_empty_conv within(3))
        with tail have "s = t" by (simp add: replay_events_def)
        with within(1) show ?thesis using state_within_later [OF m, of 2 3] by simp
      qed
    qed
  qed
qed

lemma read_sound:
  assumes m: "moments J S L at'" and prior: "\<And>s0. prior = Some s0 \<Longrightarrow> state_within J (L 0) s0"
    and run: "readTaskRuntimeProjection J S at' prior = Inr s"
  shows "state_of J (L 3) s \<or> state_of J (L 5) s"
proof -
  from run obtain t where t: "(case prior of Some state \<Rightarrow> Inr state | None \<Rightarrow> read_from_store J S at') = Inr t"
    and rest: "(case (readAfter S (at' 3) (lastOrdinal (fst t)) :: admission_error store_error + _) of
       Inr events \<Rightarrow> replay_events J t events
     | Inl (SnapshotRequired throughOrdinal) \<Rightarrow> read_required_snapshot J S at' throughOrdinal
     | Inl e \<Rightarrow> Inl (StoreFailed e)) = Inr s"
    by (auto simp: readTaskRuntimeProjection_def)
  have within: "state_within J (L 3) t"
  proof (cases prior)
    case None
    with t read_from_store_state [OF m] show ?thesis by simp
  next
    case (Some s0)
    with t prior state_within_later [OF m, of 0 3] show ?thesis by simp
  qed
  show ?thesis
  proof (cases "readAfter S (at' 3) (lastOrdinal (fst t)) :: admission_error store_error + _")
    case (Inr events)
    with rest tail_read_state [OF m within Inr] show ?thesis by simp
  next
    case (Inl e)
    with rest obtain n where "read_required_snapshot J S at' n = Inr s"
      by (cases e) auto
    then obtain sn t' events where sn: "(readProjectionSnapshot S (at' 4) :: admission_error store_error + _) = Inr (Some sn)"
      and t': "from_snapshot J sn = Inr t'"
      and events: "(readAfter S (at' 5) (lastOrdinal (fst t')) :: admission_error store_error + _) = Inr events"
      and tail: "replay_events J t' events = Inr s"
      by (auto simp: read_required_snapshot_def split: option.split_asm if_split_asm)
    from snapshot_state_within [OF m sn t'] state_within_later [OF m, of 4 5] have "state_within J (L 5) t'" by simp
    from tail_read_state [OF m this events tail] show ?thesis by simp
  qed
qed

section \<open>Reading files at rest\<close>

lemma moments_const:
  "log_holds J S L d \<Longrightarrow> messages_trimmed J L \<Longrightarrow> replays J L q \<Longrightarrow> moments J S (\<lambda>_. L) (\<lambda>_. d)"
  by (auto simp: moments_def)

lemma read_at_rest:
  assumes "log_holds J S L d" and "messages_trimmed J L" and "replays J L q"
    and "\<And>s0. prior = Some s0 \<Longrightarrow> state_within J L s0"
    and "readTaskRuntimeProjection J S (\<lambda>_. d) prior = Inr s"
  shows "state_of J L s"
  using read_sound [OF moments_const [OF assms(1-3)] assms(4,5)] by simp

lemma read_total:
  assumes d: "log_holds J S L d" and trimmed: "messages_trimmed J L" and q: "replays J L q" and list: "listable d"
    and ok: "snapshots_accepted J L" and prior: "\<And>s0. prior = Some s0 \<Longrightarrow> state_within J L s0"
  shows "\<exists>s. readTaskRuntimeProjection J S (\<lambda>_. d) prior = Inr s"
proof -
  note m = moments_const [OF d trimmed q]
  have tail: "\<exists>c. replay_events J t (drop (lastOrdinal (fst t)) L) = Inr (q, c)" if "state_within J L t" for t
    using that replay_events_total [OF _ q] by (simp add: state_within_def)
  have snap: "\<exists>t. from_snapshot J sn = Inr t \<and> state_within J L t \<and> lastOrdinal (fst t) = base_of d \<and>
      sn_throughOrdinal sn = base_of d" if sn: "snapshot_at d = Some sn" for sn
  proof -
    from from_snapshot_total [OF d ok sn] obtain t where t: "from_snapshot J sn = Inr t" by blast
    have "(readProjectionSnapshot S d :: admission_error store_error + _) = Inr (Some sn)"
      by (simp add: snapshot_at_read(1) [OF d] sn)
    from snapshot_state_within [OF m this t] t show ?thesis by blast
  qed
  have reads: "(readProjectionSnapshot S d :: admission_error store_error + _) = Inr (snapshot_at d)"
    "(readAll S d :: admission_error store_error + _) = Inr (drop (base_of d) L)"
    by (rule snapshot_at_read(1) [OF d], rule read_all [OF d list])
  have "\<exists>t. (case prior of Some state \<Rightarrow> Inr state | None \<Rightarrow> read_from_store J S (\<lambda>_. d)) = Inr t \<and> state_within J L t"
  proof (cases prior)
    case None
    show ?thesis
    proof (cases "snapshot_at d")
      case none: None
      then have "base_of d = 0" using snapshot_at_read(3) [OF d] by simp
      with none q have "\<exists>c. read_from_store J S (\<lambda>_. d) = Inr (q, c)"
        by (auto simp: read_from_store_def reads replays_def projectOrchestrationEvents_def)
      then obtain c where "read_from_store J S (\<lambda>_. d) = Inr (q, c)" by blast
      with read_from_store_state [OF m this] None show ?thesis by simp
    next
      case (Some sn)
      with snap [OF Some] None show ?thesis by (auto simp: read_from_store_def reads)
    qed
  qed (use prior in auto)
  then obtain t where t: "(case prior of Some state \<Rightarrow> Inr state | None \<Rightarrow> read_from_store J S (\<lambda>_. d)) = Inr t"
    and within: "state_within J L t" by blast
  have le: "lastOrdinal (fst t) \<le> length L" using within by (simp add: state_within_def)
  have after: "(readAfter S d (lastOrdinal (fst t)) :: admission_error store_error + _) =
      (if lastOrdinal (fst t) < base_of d then Inl (SnapshotRequired (base_of d)) else Inr (drop (lastOrdinal (fst t)) L))"
    by (rule read_after [OF d list le])
  show ?thesis
  proof (cases "lastOrdinal (fst t) < base_of d")
    case False
    with tail [OF within] show ?thesis by (auto simp: readTaskRuntimeProjection_def t after)
  next
    case True
    then obtain sn where sn: "snapshot_at d = Some sn" using snapshot_at_read(3) [OF d] by (cases "snapshot_at d") auto
    from snap [OF this] obtain t' where t': "from_snapshot J sn = Inr t'" "state_within J L t'"
      "lastOrdinal (fst t') = base_of d" "sn_throughOrdinal sn = base_of d" by blast
    have "(readAfter S d (base_of d) :: admission_error store_error + _) = Inr (drop (base_of d) L)"
      by (simp add: read_after [OF d list holds_base [OF d]])
    with t' tail [OF t'(2)] have "\<exists>s. read_required_snapshot J S (\<lambda>_. d) (base_of d) = Inr s"
      by (auto simp: read_required_snapshot_def reads sn)
    with True show ?thesis by (auto simp: readTaskRuntimeProjection_def t after)
  qed
qed

end
