(* ===== verification/Runtime_Runs.thy ===== *)
theory Runtime_Runs
  imports Runtime_Reads
begin

text \<open>
  Runs of any number of runtimes over one directory. A step is what one runtime does under the store's lock or reads
  in between: it opens, refreshes, compacts, appends, or appends a batch of host events, and each may end at any of
  its file operations. \<open>ledger_run J S L d rts\<close> says that the directory \<open>d\<close> and the runtimes \<open>rts\<close> can be reached while
  the events of \<open>L\<close> were written, in that order.
\<close>

section \<open>Steps\<close>

definition appended_world ::
  "(TaskRuntimeProjection, admission_error store_error + ledger_state option AppendOutcome) StoreAnswer \<Rightarrow>
   DurableTaskRuntime \<Rightarrow> DurableTaskRuntime" where
  "appended_world answer rt =
     (let rt' = rt\<lparr>rt_indexes := sa_indexes answer\<rparr> in
      case sa_result answer of
        Inl e \<Rightarrow> rt'
      | Inr out \<Rightarrow> (case out_admitted out of Some (Some state) \<Rightarrow> rt'\<lparr>rt_state := state\<rparr> | _ \<Rightarrow> rt'))"

definition host_world ::
  "(TaskRuntimeProjection, admission_error store_error + ((admission_error store_error + unit) \<times> ledger_state)) StoreAnswer \<Rightarrow>
   DurableTaskRuntime \<Rightarrow> DurableTaskRuntime" where
  "host_world answer rt =
     (let rt' = rt\<lparr>rt_indexes := sa_indexes answer\<rparr> in
      case sa_result answer of Inl e \<Rightarrow> rt' | Inr (outcome, state) \<Rightarrow> rt'\<lparr>rt_state := state\<rparr>)"

inductive ledger_run :: "json_env \<Rightarrow> store \<Rightarrow> StoredEvent list \<Rightarrow> files \<Rightarrow> DurableTaskRuntime list \<Rightarrow> bool" for J S where
  started: "ledger_run J S [] empty_store []"
| opened: "ledger_run J S L d rts \<Longrightarrow> readTaskRuntimeProjection J S (\<lambda>_. d) None = Inr state \<Longrightarrow>
    ledger_run J S L d (rts @ [\<lparr>rt_state = state, rt_indexes = None\<rparr>])"
| refreshed: "ledger_run J S L d rts \<Longrightarrow> i < length rts \<Longrightarrow> refresh_state J S (rts ! i, d) = (r, (rt, d')) \<Longrightarrow>
    ledger_run J S L d' (rts[i := rt])"
| compacted: "ledger_run J S L d rts \<Longrightarrow> i < length rts \<Longrightarrow> compactCurrentProjection S c (rts ! i, d) = (r, (rt, d')) \<Longrightarrow>
    ledger_run J S L d' (rts[i := rt])"
| appended: "ledger_run J S L d rts \<Longrightarrow> i < length rts \<Longrightarrow> runtime_append J S x input admission (rts ! i, d) = answer \<Longrightarrow>
    ledger_run J S (L @ written (sa_ops answer)) (apply_ops (sa_ops answer) d) (rts[i := appended_world answer (rts ! i)])"
| transacted: "ledger_run J S L d rts \<Longrightarrow> i < length rts \<Longrightarrow> host_transaction J S locked cs (rts ! i, d) = answer \<Longrightarrow>
    ledger_run J S (L @ written (sa_ops answer)) (apply_ops (sa_ops answer) d) (rts[i := host_world answer (rts ! i)])"

section \<open>The invariant\<close>

definition runtime_ok :: "json_env \<Rightarrow> store \<Rightarrow> StoredEvent list \<Rightarrow> files \<Rightarrow> DurableTaskRuntime \<Rightarrow> bool" where
  "runtime_ok J S L d rt \<longleftrightarrow> state_within J L (rt_state rt) \<and> cached_ok S L d (rt_indexes rt)"

definition run_ok :: "json_env \<Rightarrow> store \<Rightarrow> StoredEvent list \<Rightarrow> files \<Rightarrow> DurableTaskRuntime list \<Rightarrow> bool" where
  "run_ok J S L d rts \<longleftrightarrow> log_holds J S L d \<and> (\<exists>q. replays J L q) \<and> (\<forall>rt \<in> set rts. runtime_ok J S L d rt)"

lemma runtime_ok_advances:
  assumes "runtime_ok J S L d rt" and "advances L d L' d'"
  shows "runtime_ok J S L' d' rt"
proof -
  from advances_prefix [OF assms(2)] obtain es where "L' = L @ es" by blast
  with assms show ?thesis by (auto simp: runtime_ok_def intro: state_within_append cached_ok_advances)
qed

lemma run_ok_step:
  assumes "run_ok J S L d rts" and "advances L d L' d'" and "log_holds J S L' d'" and "\<exists>q. replays J L' q"
    and "runtime_ok J S L' d' rt"
  shows "run_ok J S L' d' (rts[i := rt])"
  using assms set_update_subset_insert [of rts i rt]
  by (auto simp: run_ok_def intro: runtime_ok_advances dest!: subsetD)

lemma state_at_end:
  assumes "state_within J L s" and "lastOrdinal (fst s) = length L"
  shows "state_of J L s"
  using assms by (simp add: state_within_def)

text \<open>What \<open>admit\<close> lets through is the next state of the log.\<close>

lemma admitted_state:
  assumes "admit J admission s e = Inr x" and "lastOrdinal (fst s) < eh_ordinal e"
  obtains s' where "x = Some s'" and "reduceOrchestrationEvent J s (event_of e) = Inr s'"
  using assms by (auto simp: admit_def)

lemma reduce_state_of:
  assumes "state_of J L s" and "reduceOrchestrationEvent J s (event_of e) = Inr s'"
  shows "state_of J (L @ [e]) s'"
  by (rule state_of_replay [OF assms(1)]) (simp add: assms(2))

lemma state_of_replays: "state_of J L s \<Longrightarrow> \<exists>q. replays J L q"
  by (auto simp: state_of_def)

section \<open>Each step keeps it\<close>

definition carries :: "store \<Rightarrow> StoredEvent \<Rightarrow> AppendOrchestrationEventInput \<Rightarrow> bool" where
  "carries S e input \<longleftrightarrow>
     eh_aggregateId e = in_aggregateId input \<and> eh_actor e = in_actor input \<and>
     sv_correlationId e = in_correlationId input \<and> sv_causationId e = in_causationId input \<and>
     sv_idempotencyKey e = in_idempotencyKey input \<and>
     (ev_payload e = in_payload input \<or> in_idempotencyKey input \<noteq> None \<and> st_samePayload S (ev_payload e) (in_payload input))"

lemma carries_next: "carries S (next_event st n input) input"
  by (simp add: carries_def next_event_def)

lemma runtime_append_cases:
  assumes d: "log_holds J S L d" and rt: "runtime_ok J S L d rt"
    and run: "runtime_append J S x input admission (rt, d) = ans"
  obtains (kept) "sa_ops ans = []" and "cached_ok S L d (sa_indexes ans)"
      and "\<And>out. sa_result ans = Inr out \<Longrightarrow>
        out_admitted out = None \<and> \<not> out_appended out \<and> out_event out \<in> set L \<and> carries S (out_event out) input"
  | (grown) e s where "rt_lastOrdinal rt = length L" and "carries S e input" and "eh_ordinal e = length L + 1"
      and "reduceOrchestrationEvent J (rt_state rt) (event_of e) = Inr s" and "state_of J (L @ [e]) s"
      and "sa_result ans = Inr \<lparr>out_event = e, out_admitted = Some (Some s), out_appended = True\<rparr> \<or> sa_result ans = Inl IoFailed"
      and "log_holds J S (L @ [e]) (apply_ops (sa_ops ans) d)" and "advances L d (L @ [e]) (apply_ops (sa_ops ans) d)"
      and "cached_ok S (L @ [e]) (apply_ops (sa_ops ans) d) (sa_indexes ans)" and "written (sa_ops ans) = [e]"
proof -
  from rt have within: "state_within J L (rt_state rt)" and cached: "cached_ok S L d (rt_indexes rt)"
    by (simp_all add: runtime_ok_def)
  note run' = run [unfolded runtime_append_def fst_conv snd_conv]
  from d cached run' show thesis
  proof (cases rule: append_runs)
    case same: nothing
    show thesis by (rule kept) (use same in \<open>auto simp: carries_def same_content_def\<close>)
  next
    case made: (new e y)
    from made(7) have last: "rt_lastOrdinal rt = length L" by simp
    have ord: "eh_ordinal e = length L + 1" by (simp add: made(1) next_event_def)
    obtain s where s: "y = Some s" "reduceOrchestrationEvent J (rt_state rt) (event_of e) = Inr s"
      by (rule admitted_state [OF made(2)]) (use last ord in auto)
    from reduce_state_of [OF state_at_end [OF within last] s(2)] have after: "state_of J (L @ [e]) s" .
    show thesis
      by (rule grown [of e s]) (use made s ord last after carries_next in auto)
  qed
qed

lemma appended_ok:
  assumes d: "log_holds J S L d" and q: "\<exists>q. replays J L q" and rt: "runtime_ok J S L d rt"
    and run: "runtime_append J S x input admission (rt, d) = ans"
  defines "L' \<equiv> L @ written (sa_ops ans)" and "d' \<equiv> apply_ops (sa_ops ans) d"
  shows "log_holds J S L' d' \<and> advances L d L' d' \<and> (\<exists>q. replays J L' q) \<and> runtime_ok J S L' d' (appended_world ans rt)"
  using d rt run
proof (cases rule: runtime_append_cases)
  case kept
  have "appended_world ans rt = rt\<lparr>rt_indexes := sa_indexes ans\<rparr>"
    using kept(3) by (cases "sa_result ans") (auto simp: appended_world_def)
  with kept d q rt show ?thesis by (simp add: L'_def d'_def runtime_ok_def)
next
  case (grown e s)
  have "state_within J (L @ [e]) (rt_state (appended_world ans rt))" "rt_indexes (appended_world ans rt) = sa_indexes ans"
    using grown(6) rt state_of_within [OF holdsD(1) [OF grown(7)] grown(5)] state_within_append [of J L "rt_state rt"]
    by (auto simp: appended_world_def runtime_ok_def)
  with grown(7-10) state_of_replays [OF grown(5)] show ?thesis by (simp add: L'_def d'_def runtime_ok_def)
qed

lemma compacted_ok:
  assumes d: "log_holds J S L d" and rt: "runtime_ok J S L d rt" and S: "digests S" "limits_positive S"
    and run: "compactCurrentProjection S c (rt, d) = (r, (rt', d'))"
  shows "log_holds J S L d' \<and> advances L d L d' \<and> runtime_ok J S L d' rt' \<and> rt_state rt' = rt_state rt"
proof (cases "rt_lastOrdinal rt = 0")
  case True
  with run d rt show ?thesis by (simp add: compactCurrentProjection_def)
next
  case False
  obtain ans :: "(TaskRuntimeProjection, admission_error store_error + bool) StoreAnswer" where
    ans: "compactIfNeeded S (cc_maintenance c) (cc_now c) (cc_fault c) (rt_lastOrdinal rt) (rt_projection rt) d (rt_indexes rt) = ans"
    by blast
  from run False ans have new: "rt' = rt\<lparr>rt_indexes := sa_indexes ans\<rparr>" "d' = apply_ops (sa_ops ans) d"
    by (auto simp: compactCurrentProjection_def Let_def)
  have "replays J L (rt_projection rt)" if "rt_lastOrdinal rt = length L"
    using rt state_at_end [OF _ that] by (simp add: runtime_ok_def state_of_def)
  with compaction_keeps_log [OF d _ S _ ans] rt new show ?thesis
    by (auto simp: runtime_ok_def)
qed

lemma host_commits_ok:
  assumes at: "tx_at S (replays J) L d es tx" and within: "state_within J (L @ es) s" and q: "\<exists>q. replays J (L @ es) q"
    and run: "host_commits J S cs s tx = ((r, s'), tx')"
  obtains fs where "length fs \<le> length cs" and "tx_at S (replays J) L d (es @ fs) tx'" and "state_within J (L @ es @ fs) s'" and "\<exists>q. replays J (L @ es @ fs) q"
  using assms
proof (induction cs arbitrary: es s tx thesis)
  case Nil
  then show ?case using Nil(1) [of "[]"] by simp
next
  case (Cons c cs)
  obtain res :: "admission_error store_error + ledger_state AppendOutcome" and tx1 where
    app: "tx_append S (hc_stamp c) (hc_fault c) (hc_input c (fst s)) (Some (lastOrdinal (fst s)))
             (\<lambda>e. mapE NotReduced (reduceOrchestrationEvent J s (event_of e))) tx = (res, tx1)" by force
  from Cons.prems(2) app show ?case
  proof (cases rule: tx_append_cases)
    case same: nothing
    show ?thesis
    proof (cases res)
      case (Inl e)
      with Cons.prems(5) app same(1) Cons.prems(3,4) show ?thesis by (intro Cons.prems(1) [of "[]"]) simp_all
    next
      case (Inr out)
      with same(2) have "out_admitted out = None" by blast
      with Cons.prems(5) app Inr have "host_commits J S cs s tx1 = ((r, s'), tx')" by simp
      from Cons.IH [OF _ same(1) Cons.prems(3,4) this] Cons.prems(1) show ?thesis by (metis le_SucI length_Cons)
    qed
  next
    case made: (new e y)
    have last: "lastOrdinal (fst s) = length (L @ es)" using made(4) by simp
    have st: "state_of J (L @ es) s" by (rule state_at_end [OF Cons.prems(3) last])
    from made(3) have "reduceOrchestrationEvent J s (event_of e) = Inr y" by (cases "reduceOrchestrationEvent J s (event_of e)") simp_all
    from reduce_state_of [OF st this] have after: "state_of J (L @ es @ [e]) y" by simp
    have ok: "log_ok S (L @ es @ [e])" using made(1) by (auto simp: tx_at_def dest: holdsD(1))
    show ?thesis
      using made(5)
    proof
      assume res: "res = Inr \<lparr>out_event = e, out_admitted = Some y, out_appended = True\<rparr>"
      with Cons.prems(5) app have rest: "host_commits J S cs y tx1 = ((r, s'), tx')" by simp
      have "state_within J (L @ es @ [e]) y" by (rule state_of_within [OF ok after])
      from Cons.IH [OF _ made(1) _ _ rest] this state_of_replays [OF after] obtain fs where
        "length fs \<le> length cs" "tx_at S (replays J) L d ((es @ [e]) @ fs) tx'" "state_within J (L @ (es @ [e]) @ fs) s'"
        "\<exists>q. replays J (L @ (es @ [e]) @ fs) q" by auto
      then show ?thesis by (intro Cons.prems(1) [of "e # fs"]) simp_all
    next
      assume res: "res = Inl IoFailed"
      with Cons.prems(5) app have same: "s' = s" "tx' = tx1" by simp_all
      show ?thesis
        by (rule Cons.prems(1) [of "[e]"])
          (use same made(1) state_within_append [OF Cons.prems(3), of "[e]"] state_of_replays [OF after] in simp_all)
    qed
  qed
qed

lemma transacted_ok:
  assumes d: "log_holds J S L d" and q: "\<exists>q. replays J L q" and rt: "runtime_ok J S L d rt"
    and run: "host_transaction J S locked cs (rt, d) = ans"
  defines "L' \<equiv> L @ written (sa_ops ans)" and "d' \<equiv> apply_ops (sa_ops ans) d"
  shows "log_holds J S L' d' \<and> advances L d L' d' \<and> (\<exists>q. replays J L' q) \<and> runtime_ok J S L' d' (host_world ans rt) \<and>
    length (written (sa_ops ans)) \<le> length cs"
proof -
  from rt have within: "state_within J L (rt_state rt)" and cached: "cached_ok S L d (rt_indexes rt)"
    by (simp_all add: runtime_ok_def)
  have idle: ?thesis if "sa_ops ans = []" "cached_ok S L d (sa_indexes ans)" "\<exists>e. sa_result ans = Inl e"
    using that d q within by (auto simp: L'_def d'_def runtime_ok_def host_world_def)
  consider "\<not> locked" | "locked" "\<not> listable d" | "locked" "listable d" by blast
  then show ?thesis
  proof cases
    case 1
    show ?thesis by (rule idle) (use 1 run cached in \<open>auto simp: host_transaction_def transact_def\<close>)
  next
    case 2
    show ?thesis
      by (rule idle) (use 2 run cached in \<open>auto simp: host_transaction_def transact_def synchronize_unlistable\<close>)
  next
    case 3
    let ?ix = "log_index S L d (length L)"
    let ?tx = "\<lparr>tx_indexes = ?ix, tx_appends = 0, tx_ops = [], tx_committed = []\<rparr> :: TaskRuntimeProjection StoreTransaction"
    have last: "ix_lastOrdinal ?ix = length L" by (rule log_index_fields(2) [OF d holds_base [OF d] order_refl])
    note run' = run [unfolded host_transaction_def transact_def fst_conv snd_conv synchronize_log [OF d 3(2) cached]]
    show ?thesis
    proof (cases "rt_lastOrdinal rt = length L")
      case False
      show ?thesis by (rule idle) (use 3 run' False last cached_ok_full [OF d] in auto)
    next
      case True
      obtain r s' tx' where hc: "host_commits J S cs (rt_state rt) ?tx = ((r, s'), tx')" by (metis prod.collapse)
      from run' 3 True hc last have ans: "sa_result ans = Inr (r, s')" "sa_indexes ans = Some (tx_indexes tx')" "sa_ops ans = tx_ops tx'"
        by auto
      have start: "tx_at S (replays J) L d [] ?tx" using d by (simp add: tx_at_def)
      have pre: "state_within J (L @ []) (rt_state rt)" "\<exists>q. replays J (L @ []) q" using within q by simp_all
      obtain fs where "length fs \<le> length cs" "tx_at S (replays J) L d ([] @ fs) tx'" "state_within J (L @ [] @ fs) s'"
        "\<exists>q. replays J (L @ [] @ fs) q"
        by (rule host_commits_ok [OF start pre hc])
      then have fs: "tx_at S (replays J) L d fs tx'" "state_within J (L @ fs) s'" "\<exists>q. replays J (L @ fs) q" "length fs \<le> length cs"
        by simp_all
      then show ?thesis using cached_ok_full [of S "replays J" "L @ fs" "apply_ops (tx_ops tx') d"] ans
        by (simp add: L'_def d'_def tx_at_def runtime_ok_def host_world_def)
    qed
  qed
qed

theorem ledger_run_ok:
  assumes "ledger_run J S L d rts" and S: "digests S" "limits_positive S" and trimmed: "messages_trimmed J L"
  shows "run_ok J S L d rts"
  using assms(1) trimmed
proof (induction rule: ledger_run.induct)
  case started
  show ?case by (simp add: run_ok_def holds_empty)
next
  case (opened L d rts state)
  then have ok: "run_ok J S L d rts" by blast
  then obtain q where "log_holds J S L d" "replays J L q" by (auto simp: run_ok_def)
  with opened.prems opened.hyps(2) have "state_of J L state" by (auto intro: read_at_rest)
  with ok state_of_within [of S L J state] show ?case by (auto simp: run_ok_def runtime_ok_def dest: holdsD(1))
next
  case (refreshed L d rts i r rt d')
  then have ok: "run_ok J S L d rts" by blast
  then have rt: "runtime_ok J S L d (rts ! i)" and h: "log_holds J S L d" and q: "\<exists>q. replays J L q"
    using refreshed.hyps(2) by (auto simp: run_ok_def)
  have same: "d' = d" using refreshed.hyps(3) by (auto simp: refresh_state_def Let_def split: sum.splits)
  have "runtime_ok J S L d rt"
  proof (cases "readTaskRuntimeProjection J S (\<lambda>_. d) (Some (rt_state (rts ! i)))")
    case (Inl e)
    with refreshed.hyps(3) rt show ?thesis by (simp add: refresh_state_def)
  next
    case (Inr s)
    from q obtain p where p: "replays J L p" by blast
    have "state_of J L s"
      by (rule read_at_rest [OF h refreshed.prems p _ Inr]) (use rt in \<open>simp add: runtime_ok_def\<close>)
    with state_of_within [OF holdsD(1) [OF h] this] rt Inr refreshed.hyps(3) show ?thesis
      by (auto simp: refresh_state_def runtime_ok_def)
  qed
  with run_ok_step [OF ok advances_refl h q] same show ?case by simp
next
  case (compacted L d rts i c r rt d')
  then have ok: "run_ok J S L d rts" by blast
  then have rt: "runtime_ok J S L d (rts ! i)" and h: "log_holds J S L d" and q: "\<exists>q. replays J L q"
    using compacted.hyps(2) by (auto simp: run_ok_def)
  from compacted_ok [OF h rt S compacted.hyps(3)] run_ok_step [OF ok _ _ q] show ?case by blast
next
  case (appended L d rts i x input admission answer)
  then have ok: "run_ok J S L d rts" using messages_trimmed_take by blast
  then have rt: "runtime_ok J S L d (rts ! i)" and h: "log_holds J S L d" and q: "\<exists>q. replays J L q"
    using appended.hyps(2) by (auto simp: run_ok_def)
  from appended_ok [OF h q rt appended.hyps(3)] run_ok_step [OF ok] show ?case by blast
next
  case (transacted L d rts i locked cs answer)
  then have ok: "run_ok J S L d rts" using messages_trimmed_take by blast
  then have rt: "runtime_ok J S L d (rts ! i)" and h: "log_holds J S L d" and q: "\<exists>q. replays J L q"
    using transacted.hyps(2) by (auto simp: run_ok_def)
  from transacted_ok [OF h q rt transacted.hyps(3)] run_ok_step [OF ok] show ?case by blast
qed

end
