(* ===== verification/Runtime_Commands.thy ===== *)
theory Runtime_Commands
  imports Task_Runtime
begin

text \<open>
  What the commands of the durable task runtime decide (\<open>core/orchestration/task-runtime.ts\<close>): each looks at the
  refreshed projection and either throws, answers without writing, or names the one event it commits
  (\<open>run_command\<close> runs the decision). Arguments are decoded values; the clock's readings, the identifier a
  command draws, the digest of a usage report and the fence of a receipt origin that is still live are the record
  \<open>command_env\<close>. A diagnostic text is passed as \<open>boundedRedactedDiagnosticText\<close> leaves it.
\<close>

section \<open>Texts\<close>

fun nat_text :: "nat \<Rightarrow> string" where
  "nat_text n = (if n < 10 then [char_of (48 + n)] else nat_text (n div 10) @ [char_of (48 + n mod 10)])"

declare nat_text.simps [simp del]

definition padded :: "nat \<Rightarrow> int \<Rightarrow> string" where
  "padded width n = (let digits = nat_text (nat n) in replicate (width - length digits) CHR ''0'' @ digits)"

text \<open>The calendar date of a day counted from the epoch (proleptic Gregorian, counted in eras of 400 years).\<close>

definition calendar_date :: "int \<Rightarrow> int \<times> int \<times> int" where
  "calendar_date day =
     (let z = day + 719468; era = z div 146097; doe = z mod 146097;
          yoe = (doe - doe div 1460 + doe div 36524 - doe div 146096) div 365;
          doy = doe - (365 * yoe + yoe div 4 - yoe div 100); mp = (5 * doy + 2) div 153;
          month = (if mp < 10 then mp + 3 else mp - 9)
      in (yoe + era * 400 + (if month \<le> 2 then 1 else 0), month, doy - (153 * mp + 2) div 5 + 1))"

definition year_text :: "int \<Rightarrow> string" where
  "year_text y = (if 0 \<le> y \<and> y \<le> 9999 then padded 4 y
     else (if y < 0 then ''-'' else ''+'') @ padded 6 \<bar>y\<bar>)"

definition instant_text :: "int \<Rightarrow> string" where
  "instant_text ms =
     (let (y, m, d) = calendar_date (ms div 86400000); t = ms mod 86400000 in
      year_text y @ ''-'' @ padded 2 m @ ''-'' @ padded 2 d @ ''T'' @ padded 2 (t div 3600000) @ '':'' @
      padded 2 (t div 60000 mod 60) @ '':'' @ padded 2 (t div 1000 mod 60) @ ''.'' @ padded 3 (t mod 1000) @ ''Z'')"

fun timestamp_text :: "timestamp \<Rightarrow> string" where
  "timestamp_text (At ms) = instant_text ms"
| "timestamp_text (Unparsable s) = s"

fun lifetime_text :: "ManagedLaneLifetime \<Rightarrow> string" where
  "lifetime_text LaneRetained = ''retained''"
| "lifetime_text LaneRetired = ''retired''"

section \<open>The environment of a command\<close>

record command_env =
  ce_now :: "nat \<Rightarrow> int"
  ce_id :: string
  ce_usageDigest :: "AttemptUsageSnapshot \<Rightarrow> string"
  ce_admission :: "WorkerReceiptOrigin option \<Rightarrow> admission_error + unit"

definition MAX_DATE_EPOCH_MS :: rat where
  "MAX_DATE_EPOCH_MS = 8640000000000000"

text \<open>\<open>new Date(ms).toISOString()\<close>: the milliseconds are truncated, and out of range it throws.\<close>

fun to_instant :: "jsnum \<Rightarrow> runtime_error + timestamp" where
  "to_instant (Fin q) =
     (if \<bar>q\<bar> \<le> MAX_DATE_EPOCH_MS then Inr (At (if 0 \<le> q then \<lfloor>q\<rfloor> else \<lceil>q\<rceil>))
      else Inl (CommandInvalid ''Invalid time value''))"
| "to_instant _ = Inl (CommandInvalid ''Invalid time value'')"

definition now_ms :: "command_env \<Rightarrow> nat \<Rightarrow> jsnum" where
  "now_ms E i = js_int (ce_now E i)"

definition nowIso :: "command_env \<Rightarrow> nat \<Rightarrow> runtime_error + timestamp" where
  "nowIso E i = to_instant (now_ms E i)"

abbreviation refused :: "orch_error + 'a \<Rightarrow> runtime_error + 'a" where
  "refused \<equiv> mapE CommandRefused"

definition valid :: "bool \<Rightarrow> string \<Rightarrow> runtime_error + unit" where
  "valid c message = require c (CommandInvalid message)"

lemma valid_iff [simp]: "valid c m = Inr u \<longleftrightarrow> c"
  by (simp add: valid_def)

definition keyed_input ::
  "string \<Rightarrow> OrchestrationActorKind \<Rightarrow> string option \<Rightarrow> OrchestrationPayload \<Rightarrow> AppendOrchestrationEventInput" where
  "keyed_input aggregate actor key payload =
     \<lparr>in_aggregateId = aggregate, in_actor = actor, in_correlationId = None, in_causationId = None,
      in_idempotencyKey = key, in_payload = payload\<rparr>"

type_synonym 'r decision = "TaskRuntimeProjection \<Rightarrow> runtime_error + 'r plan"

abbreviation commit_plan :: "AppendOrchestrationEventInput \<Rightarrow> (TaskRuntimeProjection \<Rightarrow> 'r) \<Rightarrow> runtime_error + 'r plan" where
  "commit_plan input answer \<equiv> Inr (Commit input (Inr ()) answer)"

definition attempt_of :: "string \<Rightarrow> TaskRuntimeProjection \<Rightarrow> AttemptRuntimeState" where
  "attempt_of k p = the (map_of (attempts p) k)"

definition task_of :: "string \<Rightarrow> TaskRuntimeProjection \<Rightarrow> TaskRuntimeState" where
  "task_of k p = the (map_of (tasks p) k)"

definition agent_of :: "string \<Rightarrow> TaskRuntimeProjection \<Rightarrow> AgentBindingContract" where
  "agent_of k p = the (map_of (agents p) k)"

section \<open>Shared guards\<close>

definition requireObjective :: "TaskRuntimeProjection \<Rightarrow> string \<Rightarrow> runtime_error + ObjectiveRuntimeState" where
  "requireObjective p objectiveId = refused (lookup_objective p objectiveId)"

definition requireAttempt :: "TaskRuntimeProjection \<Rightarrow> string \<Rightarrow> runtime_error + AttemptRuntimeState" where
  "requireAttempt p attemptId = refused (lookup_attempt p attemptId)"

definition requireDispatchableTask :: "TaskRuntimeProjection \<Rightarrow> string \<Rightarrow> runtime_error + TaskRuntimeState" where
  "requireDispatchableTask p taskId =
     bindE (refused (lookup_task p taskId)) (\<lambda>task.
     bindE (requireObjective p (task_objectiveId (ts_task task))) (\<lambda>objective.
     bindE (refused (require (obj_status (os_objective objective) = ObjActive)
              (ObjectiveError (ObjectiveNotActive (obj_objectiveId (os_objective objective)))))) (\<lambda>_.
     bindE (refused (require (task_status (ts_task task) \<in> {TaskPending, TaskReady, TaskBlocked, TaskFailed})
              (TaskError (TaskNotDispatchable taskId)))) (\<lambda>_.
     case activeTaskAttempt p task of
       Some active \<Rightarrow> Inl (CommandRefused (TaskError (TaskOwnsActiveAttempt taskId (att_attemptId active))))
     | None \<Rightarrow> Inr task))))"

definition pendingApprovalForTask :: "TaskRuntimeProjection \<Rightarrow> string \<Rightarrow> ApprovalRuntimeState option" where
  "pendingApprovalForTask p taskId =
     (case map_of (tasks p) taskId of
        None \<Rightarrow> None
      | Some task \<Rightarrow>
          List.find (\<lambda>approval. as_status approval = ApprovalPending \<and> apr_attemptId (as_request approval) = None \<and>
              apr_objectiveId (as_request approval) = task_objectiveId (ts_task task) \<and>
              (apr_taskId (as_request approval) = None \<or> apr_taskId (as_request approval) = Some taskId))
            (js_values (approvals p)))"

definition normalizeDispatchForTask ::
  "TaskRuntimeState \<Rightarrow> OrchestrationDispatchRequest \<Rightarrow> runtime_error + OrchestrationDispatchRequest" where
  "normalizeDispatchForTask task dispatch =
     bindE (valid (dispatch_taskId dispatch = task_taskId (ts_task task))
              ''Dispatch taskId does not match the queued task.'') (\<lambda>_.
     bindE (valid (dispatch_contract_fits dispatch (task_role (ts_task task)))
              ''Execution contract does not match the dispatch profile and task role.'') (\<lambda>_.
     Inr dispatch))"

definition lease_ttl_valid :: "jsnum \<Rightarrow> bool" where
  "lease_ttl_valid ttlMs \<longleftrightarrow> \<not> (\<not> js_is_finite ttlMs \<or> js_le ttlMs (Fin 0))"

definition lease_end :: "jsnum \<Rightarrow> jsnum \<Rightarrow> jsnum" where
  "lease_end fromMs ttlMs = js_add fromMs (js_min ttlMs (js_sub (Fin MAX_DATE_EPOCH_MS) fromMs))"

definition issueLease ::
  "command_env \<Rightarrow> AttemptRuntimeState \<Rightarrow> string \<Rightarrow> jsnum \<Rightarrow> runtime_error + AttemptLease" where
  "issueLease E attempt ownerId ttlMs =
     bindE (valid (lease_ttl_valid ttlMs) ''Lease TTL must be positive.'') (\<lambda>_.
     bindE (nowIso E 0) (\<lambda>issuedAt.
     bindE (to_instant (lease_end (now_ms E 0) ttlMs)) (\<lambda>expiresAt.
     Inr \<lparr>lease_leaseId = ''lease-'' @ ce_id E, lease_attemptId = att_attemptId attempt, lease_ownerId = ownerId,
          lease_fencingToken = lease_fence attempt + 1, lease_issuedAt = issuedAt, lease_expiresAt = expiresAt\<rparr>)))"

definition requireLiveLease ::
  "command_env \<Rightarrow> TaskRuntimeProjection \<Rightarrow> string \<Rightarrow> string \<Rightarrow> nat \<Rightarrow> runtime_error + AttemptRuntimeState" where
  "requireLiveLease E p attemptId leaseId fencingToken =
     bindE (requireAttempt p attemptId) (\<lambda>attempt.
     bindE (refused (require (lease_matches attempt leaseId fencingToken)
              (AttemptError (AttemptLeaseStale attemptId)))) (\<lambda>_.
     bindE (refused (require (\<not> js_le (date_parse (lease_expiresAt (the (att_lease attempt)))) (now_ms E 0))
              (AttemptError (AttemptLeaseExpired attemptId)))) (\<lambda>_.
     Inr attempt)))"

section \<open>Queueing and leasing\<close>

definition queueAttempt ::
  "command_env \<Rightarrow> string \<Rightarrow> OrchestrationDispatchRequest \<Rightarrow> string option \<Rightarrow> AttemptRuntimeState decision" where
  "queueAttempt E taskId dispatch grantId p =
     bindE (requireDispatchableTask p taskId) (\<lambda>task.
     bindE (case pendingApprovalForTask p taskId of
              Some pending \<Rightarrow> Inl (CommandInvalid (''Task is awaiting approval '' @ apr_approvalId (as_request pending)))
            | None \<Rightarrow> Inr ()) (\<lambda>_.
     bindE (normalizeDispatchForTask task dispatch) (\<lambda>normalized.
     bindE (refused (assertTaskAttemptBudgetForState task
              (os_objective (the (map_of (objectives p) (task_objectiveId (ts_task task))))))) (\<lambda>_.
     bindE (refused (assertRecordHasCapacity FieldAttempts (attempts p) MAX_ORCHESTRATION_ATTEMPTS)) (\<lambda>_.
     bindE (refused (assertIdentifierListHasCapacity (ts_attemptIds task) MAX_ORCHESTRATION_ATTEMPTS)) (\<lambda>_.
     let attemptId = ''attempt-'' @ ce_id E in
     Inr (Commit
       (keyed_input taskId ActorRuntime (Some (''attempt-queued:'' @ attemptId))
          (AttemptPayload (AttemptQueuedEvent
            \<lparr>qa_attemptId = attemptId, qa_taskId = taskId, qa_dispatch = normalized,
             qa_grantId = (if truthy grantId then grantId else None)\<rparr>)))
       (ce_admission E (dispatch_receiptOrigin dispatch)) (attempt_of attemptId))))))))"

definition getAttemptDispatchReadiness :: "string \<Rightarrow> AttemptDispatchReadiness decision" where
  "getAttemptDispatchReadiness attemptId p =
     bindE (requireAttempt p attemptId) (\<lambda>attempt.
     bindE (refused (attemptDispatchReadiness p attempt True)) (\<lambda>readiness. Inr (Answer readiness)))"

definition bindAttemptGrant :: "string \<Rightarrow> ExecutionGrant \<Rightarrow> AttemptRuntimeState decision" where
  "bindAttemptGrant attemptId grant p =
     bindE (refused (assertAttemptGrantTransition p attemptId attemptId grant)) (\<lambda>attempt.
     if att_grantId attempt = Some (grant_grantId grant)
     then bindE (valid (case att_grant attempt of Some g \<Rightarrow> grant_deep_equal g grant | None \<Rightarrow> True)
                   ''Attempt grant has conflicting content.'') (\<lambda>_. Inr (Answer attempt))
     else if truthy (att_grantId attempt) then Inl (CommandInvalid ''Attempt already has a different grant.'')
     else commit_plan
       (keyed_input attemptId ActorPolicy
          (Some (''attempt-grant-bound:'' @ attemptId @ '':'' @ grant_grantId grant))
          (AttemptPayload (GrantBound attemptId grant)))
       (attempt_of attemptId))"

definition leaseAttempt ::
  "command_env \<Rightarrow> string \<Rightarrow> string \<Rightarrow> jsnum \<Rightarrow> string option \<Rightarrow> AttemptLease decision" where
  "leaseAttempt E attemptId ownerId ttlMs agentId p =
     bindE (requireAttempt p attemptId) (\<lambda>attempt.
     bindE (refused (assertVerificationDependenciesReady p attempt)) (\<lambda>_.
     bindE (issueLease E attempt ownerId ttlMs) (\<lambda>lease.
     bindE (nowIso E 1) (\<lambda>now.
     bindE (refused (assertAttemptLeaseTransition p attemptId lease agentId now)) (\<lambda>_.
     commit_plan
       (keyed_input attemptId ActorRuntime (Some (''attempt-leased:'' @ lease_leaseId lease))
          (AttemptPayload (AttemptLeasedEvent lease (if truthy agentId then agentId else None))))
       (\<lambda>_. lease))))))"

definition startAttempt :: "command_env \<Rightarrow> string \<Rightarrow> string \<Rightarrow> nat \<Rightarrow> AttemptRuntimeState decision" where
  "startAttempt E attemptId leaseId fencingToken p =
     bindE (requireAttempt p attemptId) (\<lambda>attempt.
     bindE (refused (assertVerificationDependenciesReady p attempt)) (\<lambda>_.
     bindE (nowIso E 0) (\<lambda>now.
     bindE (refused (assertAttemptStartTransition p attemptId attemptId leaseId fencingToken now)) (\<lambda>_.
     commit_plan
       (keyed_input attemptId ActorWorker
          (Some (''attempt-started:'' @ attemptId @ '':'' @ nat_text fencingToken))
          (AttemptPayload (AttemptStarted attemptId leaseId fencingToken)))
       (attempt_of attemptId)))))"

definition renewAttemptLease :: "command_env \<Rightarrow> string \<Rightarrow> string \<Rightarrow> nat \<Rightarrow> jsnum \<Rightarrow> AttemptLease decision" where
  "renewAttemptLease E attemptId leaseId fencingToken ttlMs p =
     bindE (requireLiveLease E p attemptId leaseId fencingToken) (\<lambda>attempt.
     bindE (refused (require (att_status attempt = AttLeased \<or> att_status attempt = AttRunning)
              (AttemptError (AttemptStatusInvalid attemptId (att_status attempt))))) (\<lambda>_.
     bindE (valid (lease_ttl_valid ttlMs) ''Lease TTL must be positive.'') (\<lambda>_.
     let expiresAtMs = lease_end (now_ms E 1) ttlMs; lease = the (att_lease attempt) in
     if js_le expiresAtMs (date_parse (lease_expiresAt lease)) then Inr (Answer lease)
     else
       bindE (to_instant expiresAtMs) (\<lambda>expiresAt.
       bindE (nowIso E 2) (\<lambda>now.
       bindE (refused (assertAttemptLeaseRenewalTransition p attemptId attemptId leaseId fencingToken expiresAt now)) (\<lambda>_.
       commit_plan
         (keyed_input attemptId ActorRuntime
            (Some (''attempt-lease-renewed:'' @ leaseId @ '':'' @ timestamp_text expiresAt))
            (AttemptPayload (LeaseRenewed attemptId leaseId fencingToken expiresAt)))
         (\<lambda>q. the (att_lease (attempt_of attemptId q)))))))))"

section \<open>Under a live lease\<close>

definition recordAttemptRunningModel ::
  "command_env \<Rightarrow> string \<Rightarrow> string \<Rightarrow> nat \<Rightarrow> OrchestrationModelBinding \<Rightarrow> unit decision" where
  "recordAttemptRunningModel E attemptId leaseId fencingToken model p =
     bindE (requireLiveLease E p attemptId leaseId fencingToken) (\<lambda>_.
     commit_plan
       (keyed_input attemptId ActorRuntime
          (Some (''attempt-model-moved:'' @ leaseId @ '':'' @ mb_provider model @ ''/'' @ mb_modelId model))
          (AttemptPayload (ModelMoved attemptId leaseId fencingToken model)))
       (\<lambda>_. ()))"

definition admit_third_party ::
  "command_env \<Rightarrow> string \<Rightarrow> string \<Rightarrow> nat \<Rightarrow> TurnOriginRecord \<Rightarrow> unit decision" where
  "admit_third_party E attemptId leaseId fencingToken turnOrigin p =
     bindE (requireLiveLease E p attemptId leaseId fencingToken) (\<lambda>attempt.
     if att_admittedTurnOrigin attempt \<noteq> None \<or> third_party (dispatch_turnOrigin (att_dispatch attempt))
     then Inr (Answer ())
     else commit_plan
       (keyed_input attemptId ActorRuntime (Some (''attempt-third-party-admitted:'' @ leaseId))
          (AttemptPayload (ThirdPartyAdmitted attemptId leaseId fencingToken turnOrigin)))
       (\<lambda>_. ()))"

text \<open>This command checks its argument before it refreshes.\<close>

definition recordAttemptThirdPartyWords ::
  "json_env \<Rightarrow> store \<Rightarrow> externals \<Rightarrow> command_env \<Rightarrow> string \<Rightarrow> string \<Rightarrow> nat \<Rightarrow> TurnOriginRecord \<Rightarrow> runtime_world \<Rightarrow>
   (runtime_error + unit) \<times> runtime_world" where
  "recordAttemptThirdPartyWords J S x E attemptId leaseId fencingToken turnOrigin w =
     (if \<not> to_thirdParty turnOrigin then (Inl (CommandInvalid ''Only third-party words taint an attempt.''), w)
      else run_command J S x (admit_third_party E attemptId leaseId fencingToken turnOrigin) w)"

definition checkpoint_text :: "string \<Rightarrow> runtime_error + string" where
  "checkpoint_text value =
     (let summary = js_trim value in
      bindE (valid (summary \<noteq> []) ''checkpoint.summary is required.'') (\<lambda>_.
      bindE (valid (length summary \<le> MAX_ORCHESTRATION_CHECKPOINT_SUMMARY_LENGTH)
               ''checkpoint.summary exceeds its durable size bound.'') (\<lambda>_.
      Inr summary)))"

definition dispatchIdentifierArray :: "string list \<Rightarrow> runtime_error + string list" where
  "dispatchIdentifierArray values =
     bindE (valid (length values \<le> MAX_ORCHESTRATION_COLLECTION_LENGTH \<and>
                   (\<forall>v \<in> set values. v \<noteq> [] \<and> length v \<le> MAX_ORCHESTRATION_IDENTIFIER_LENGTH))
              ''The list must be a bounded identifier array.'') (\<lambda>_.
     bindE (valid (distinct values) ''The list contains duplicates.'') (\<lambda>_.
     Inr values))"

definition usage_decoded :: "AttemptUsageSnapshot \<Rightarrow> runtime_error + AttemptUsageSnapshot" where
  "usage_decoded usage = mapE (\<lambda>e. CommandRefused (UsageError e)) (validateAttemptUsageSnapshot usage)"

record checkpoint_args =
  ca_attemptId :: string
  ca_leaseId :: string
  ca_fencingToken :: nat
  ca_summary :: string
  ca_artifactIds :: "string list"
  ca_evidenceIds :: "string list"
  ca_usage :: "AttemptUsageSnapshot option"

definition checkpointAttempt :: "command_env \<Rightarrow> checkpoint_args \<Rightarrow> AttemptCheckpoint decision" where
  "checkpointAttempt E c p =
     (let attemptId = ca_attemptId c in
      bindE (requireLiveLease E p attemptId (ca_leaseId c) (ca_fencingToken c)) (\<lambda>attempt.
      bindE (refused (require (att_status attempt = AttRunning)
               (AttemptError (AttemptStatusInvalid attemptId (att_status attempt))))) (\<lambda>_.
      bindE (checkpoint_text (ca_summary c)) (\<lambda>summary.
      bindE (dispatchIdentifierArray (ca_artifactIds c)) (\<lambda>artifactIds.
      bindE (dispatchIdentifierArray (ca_evidenceIds c)) (\<lambda>evidenceIds.
      bindE (refused (assertIdentifierListHasCapacity (att_checkpointIds attempt) MAX_ORCHESTRATION_CHECKPOINTS)) (\<lambda>_.
      bindE (refused (assertRecordHasCapacity FieldCheckpoints (checkpoints p) MAX_ORCHESTRATION_CHECKPOINTS)) (\<lambda>_.
      bindE (case ca_usage c of None \<Rightarrow> Inr None
             | Some u \<Rightarrow> bindE (usage_decoded u) (\<lambda>v. Inr (Some v))) (\<lambda>usage.
      bindE (nowIso E 1) (\<lambda>createdAt.
      bindE (nowIso E 2) (\<lambda>now.
      let checkpoint = \<lparr>ck_checkpointId = ''checkpoint-'' @ ce_id E, ck_attemptId = attemptId,
            ck_fencingToken = ca_fencingToken c, ck_summary = summary, ck_artifactIds = artifactIds,
            ck_evidenceIds = evidenceIds, ck_usage = usage, ck_createdAt = createdAt\<rparr> in
      bindE (refused (assertAttemptCheckpointTransition p attemptId checkpoint (ca_leaseId c) now)) (\<lambda>_.
      commit_plan
        (keyed_input attemptId ActorWorker (Some (''attempt-checkpointed:'' @ ck_checkpointId checkpoint))
           (AttemptPayload (AttemptCheckpointed checkpoint (ca_leaseId c))))
        (\<lambda>_. checkpoint)))))))))))))"

section \<open>Usage, receipts and parent writes\<close>

definition generation_identity :: "string \<Rightarrow> nat \<Rightarrow> runtime_error + AttemptUsageGenerationIdentity" where
  "generation_identity leaseId fencingToken =
     bindE (valid (1 \<le> fencingToken \<and> int fencingToken \<le> MAX_SAFE_INTEGER)
              ''usage generation.fencingToken must be a positive safe integer.'') (\<lambda>_.
     bindE (refused (dispatchIdentifier leaseId)) (\<lambda>l.
     Inr \<lparr>gid_leaseId = l, gid_fencingToken = fencingToken\<rparr>))"

definition generation_baseline :: "string \<Rightarrow> string \<Rightarrow> TaskRuntimeProjection \<Rightarrow> AttemptUsageSnapshot" where
  "generation_baseline attemptId leaseId p =
     gen_baseline (the (map_of (acct_generations (the (att_usageAccounting (attempt_of attemptId p)))) leaseId))"

text \<open>\<open>accounting !== attempt.usageAccounting\<close> compares objects; a new accounting always differs in value.\<close>

definition beginAttemptUsage ::
  "command_env \<Rightarrow> string \<Rightarrow> string \<Rightarrow> nat \<Rightarrow> AttemptUsageSnapshot option \<Rightarrow> AttemptUsageSnapshot decision" where
  "beginAttemptUsage E attemptId leaseId fencingToken recoveryBaseline p =
     bindE (generation_identity leaseId fencingToken) (\<lambda>identity.
     bindE (nowIso E 0) (\<lambda>now.
     bindE (refused (assertRunningAttemptLease p attemptId leaseId fencingToken now)) (\<lambda>attempt.
     bindE (case recoveryBaseline of None \<Rightarrow> Inr None
            | Some u \<Rightarrow> bindE (usage_decoded u) (\<lambda>v. Inr (Some v))) (\<lambda>baseline.
     bindE (refused (lift_usage (beginAttemptUsageGeneration (att_usageAccounting attempt) identity baseline))) (\<lambda>accounting.
     if att_usageAccounting attempt = Some accounting then Inr (Answer (generation_baseline attemptId leaseId p))
     else commit_plan
       (keyed_input attemptId ActorRuntime
          (Some (''attempt-usage-registered:'' @ attemptId @ '':'' @ nat_text fencingToken))
          (AttemptPayload (UsageRegistered attemptId identity baseline)))
       (generation_baseline attemptId leaseId))))))"

definition accounting_total :: "string \<Rightarrow> TaskRuntimeProjection \<Rightarrow> AttemptUsageSnapshot" where
  "accounting_total attemptId p = acct_total (the (att_usageAccounting (attempt_of attemptId p)))"

definition recordAttemptUsage ::
  "command_env \<Rightarrow> string \<Rightarrow> string \<Rightarrow> nat \<Rightarrow> AttemptUsageSnapshot \<Rightarrow> AttemptUsageSnapshot decision" where
  "recordAttemptUsage E attemptId leaseId fencingToken usage p =
     bindE (requireAttempt p attemptId) (\<lambda>attempt.
     case att_usageAccounting attempt of
       None \<Rightarrow> Inl (CommandRefused (AttemptError UsageNotRegistered))
     | Some current \<Rightarrow>
         bindE (generation_identity leaseId fencingToken) (\<lambda>identity.
         bindE (usage_decoded usage) (\<lambda>reported.
         bindE (refused (lift_usage (recordAttemptGenerationUsage current identity reported))) (\<lambda>accounting.
         if accounting = current then Inr (Answer (accounting_total attemptId p))
         else commit_plan
           (keyed_input attemptId ActorRuntime
              (Some (''attempt-usage-recorded:'' @ attemptId @ '':'' @ nat_text fencingToken @ '':'' @
                     ce_usageDigest E reported))
              (AttemptPayload (UsageRecorded attemptId identity reported)))
           (accounting_total attemptId)))))"

definition acknowledgeUsageReceipt :: "string \<Rightarrow> string \<Rightarrow> unit decision" where
  "acknowledgeUsageReceipt attemptId usageReceiptId p =
     bindE (requireAttempt p attemptId) (\<lambda>attempt.
     bindE (refused (dispatchIdentifier usageReceiptId)) (\<lambda>receipt.
     if map_of (opt_record (att_usageReceipts attempt)) receipt = None then Inr (Answer ())
     else commit_plan
       (keyed_input attemptId ActorRuntime (Some (''attempt-usage-delivered:'' @ attemptId @ '':'' @ receipt))
          (AttemptPayload (UsageDelivered attemptId receipt)))
       (\<lambda>_. ())))"

definition acknowledgeWorkerReceipts :: "digest \<Rightarrow> string \<Rightarrow> WorkerReceiptAcknowledgement \<Rightarrow> unit decision" where
  "acknowledgeWorkerReceipts hash attemptId acknowledgement p =
     bindE (requireAttempt p attemptId) (\<lambda>attempt.
     bindE (refused (assertWorkerReceiptAcknowledgement hash p attempt acknowledgement)) (\<lambda>_.
     if att_receiptAcknowledgement attempt \<noteq> None then Inr (Answer ())
     else commit_plan
       (keyed_input attemptId ActorRuntime
          (Some (''attempt-receipts-delivered:'' @ attemptId @ '':'' @ ack_receiptId acknowledgement))
          (AttemptPayload (ReceiptsDelivered attemptId acknowledgement)))
       (\<lambda>_. ())))"

definition recordParentWrite :: "string \<Rightarrow> string \<Rightarrow> AttemptParentWriteBody \<Rightarrow> unit decision" where
  "recordParentWrite attemptId writeId body p =
     bindE (requireAttempt p attemptId) (\<lambda>_.
     commit_plan
       (keyed_input attemptId ActorRuntime
          (Some (''attempt-parent-write-recorded:'' @ attemptId @ '':'' @ writeId))
          (AttemptPayload (ParentWriteRecorded attemptId writeId body)))
       (\<lambda>_. ()))"

definition acknowledgeParentWrite :: "string \<Rightarrow> string \<Rightarrow> unit decision" where
  "acknowledgeParentWrite attemptId writeId p =
     bindE (requireAttempt p attemptId) (\<lambda>attempt.
     if map_of (opt_record (att_parentWrites attempt)) writeId = None then Inr (Answer ())
     else commit_plan
       (keyed_input attemptId ActorRuntime
          (Some (''attempt-parent-write-imported:'' @ attemptId @ '':'' @ writeId))
          (AttemptPayload (ParentWriteImported attemptId writeId)))
       (\<lambda>_. ()))"

section \<open>The end of an attempt\<close>

definition finishAttempt :: "command_env \<Rightarrow> WorkerResultContract \<Rightarrow> AttemptRuntimeState decision" where
  "finishAttempt E result p =
     bindE (nowIso E 0) (\<lambda>now.
     bindE (refused (assertAttemptFinishTransition p (res_attemptId result) result now)) (\<lambda>_.
     commit_plan
       (keyed_input (res_attemptId result) ActorWorker (Some (''attempt-finished:'' @ res_resultId result))
          (AttemptPayload (AttemptFinished result)))
       (attempt_of (res_attemptId result))))"

definition finishVerification :: "VerificationTransitionInput \<Rightarrow> TaskRuntimeState decision" where
  "finishVerification args p =
     bindE (refused (assertVerificationTransition p (vt_taskId args) args)) (\<lambda>(subject, subjectAttempt).
     if att_verification subjectAttempt \<noteq> None then Inr (Answer (task_of (vt_taskId args) p))
     else
       bindE (refused (dispatchIdentifier (js_trim (vt_reasonCode args)))) (\<lambda>reasonCode.
       commit_plan
         (keyed_input (vt_taskId args) ActorRuntime
            (Some (''task-verification-finished:'' @ vt_taskId args @ '':'' @ vt_verifierAttemptId args))
            (TaskPayload (TaskVerificationFinished
              \<lparr>vf_taskId = vt_taskId args, vf_verifierTaskId = vt_verifierTaskId args,
               vf_verifierAttemptId = vt_verifierAttemptId args, vf_verdict = vt_verdict args,
               vf_reasonCode = reasonCode, vf_subjectAttemptId = Some (vt_subjectAttemptId args)\<rparr>)))
         (task_of (vt_taskId args))))"

definition recordManagedLifetime ::
  "string \<Rightarrow> string \<Rightarrow> nat \<Rightarrow> ManagedLaneLifetime \<Rightarrow> AttemptRuntimeState decision" where
  "recordManagedLifetime attemptId logicalLaneId dispatchSequence lifetime p =
     bindE (refused (assertManagedLifetimeTransition p attemptId logicalLaneId dispatchSequence lifetime)) (\<lambda>attempt.
     if att_managedLifetime attempt = Some lifetime then Inr (Answer (attempt_of attemptId p))
     else commit_plan
       (keyed_input attemptId ActorRuntime
          (Some (''managed-lifetime:'' @ attemptId @ '':'' @ nat_text dispatchSequence @ '':'' @ lifetime_text lifetime))
          (AttemptPayload (ManagedLifecycle attemptId lifetime dispatchSequence logicalLaneId)))
       (attempt_of attemptId))"

text \<open>The guard of setup recovery: the ordinal its caller saw, and that nobody has leased the attempt.\<close>

definition cancelAttempt ::
  "string \<Rightarrow> string \<Rightarrow> nat option \<Rightarrow> string option \<Rightarrow> AttemptRuntimeState decision" where
  "cancelAttempt attemptId reasonCode unleased detail p =
     bindE (requireAttempt p attemptId) (\<lambda>attempt.
     bindE (valid (case unleased of None \<Rightarrow> True
                   | Some expected \<Rightarrow> lastOrdinal p = expected \<and> att_lease attempt = None)
              ''Unleased cancellation evidence changed.'') (\<lambda>_.
     if terminalAttemptStatus (att_status attempt) then Inr (Answer attempt)
     else
       bindE (valid (js_trim reasonCode \<noteq> []) ''Cancellation reason is required.'') (\<lambda>_.
       bindE (refused (dispatchIdentifier (js_trim reasonCode))) (\<lambda>reason.
       commit_plan
         (keyed_input attemptId ActorRuntime (Some (''attempt-cancelled:'' @ attemptId))
            (AttemptPayload (AttemptCancelledEvent attemptId reason (if truthy detail then detail else None))))
         (attempt_of attemptId)))))"

definition retry_admitted :: "command_env \<Rightarrow> AttemptRuntimeState \<Rightarrow> AttemptRetryState \<Rightarrow> runtime_error + unit" where
  "retry_admitted E attempt retry =
     bindE (valid (1 \<le> retry_retriesUsed retry \<and> int (retry_retriesUsed retry) \<le> MAX_SAFE_INTEGER)
              ''attempt.suspended.retry.retriesUsed must be a positive safe integer.'') (\<lambda>_.
     bindE (valid (case retry_notBefore retry of At ms \<Rightarrow> \<bar>of_int ms\<bar> \<le> MAX_DATE_EPOCH_MS | Unparsable _ \<Rightarrow> False)
              ''attempt.suspended.retry.notBefore is invalid.'') (\<lambda>_.
     bindE (refused (require (retry_retriesUsed retry =
                 (case att_retry attempt of Some r \<Rightarrow> retry_retriesUsed r | None \<Rightarrow> 0) + 1)
              (AttemptError (AttemptRetryNotMonotonic (att_attemptId attempt))))) (\<lambda>_.
     refused (require (\<not> js_le (date_parse (retry_notBefore retry)) (now_ms E 0))
       (AttemptError AttemptRetryDeadline)))))"

record suspend_args =
  sa_attemptId :: string
  sa_ownerId :: string
  sa_leaseId :: string
  sa_fencingToken :: nat
  sa_reasonCode :: string
  sa_retry :: "AttemptRetryState option"

definition suspendBoundAttempt :: "command_env \<Rightarrow> suspend_args \<Rightarrow> AttemptRuntimeState decision" where
  "suspendBoundAttempt E s p =
     (let attemptId = sa_attemptId s in
      bindE (requireAttempt p attemptId) (\<lambda>attempt.
      bindE (valid (truthy (att_agentId attempt) \<and> att_lease attempt \<noteq> None \<and>
                    (att_status attempt = AttLeased \<or> att_status attempt = AttRunning))
               ''The attempt is not a live agent-bound attempt.'') (\<lambda>_.
      bindE (valid (lease_ownerId (the (att_lease attempt)) = sa_ownerId s) ''The attempt has another owner.'') (\<lambda>_.
      bindE (refused (require (lease_matches attempt (sa_leaseId s) (sa_fencingToken s))
               (AttemptError (AttemptLeaseStale attemptId)))) (\<lambda>_.
      bindE (valid (js_trim (sa_reasonCode s) \<noteq> []) ''Suspension reason is required.'') (\<lambda>_.
      bindE (case sa_retry s of None \<Rightarrow> Inr () | Some retry \<Rightarrow> retry_admitted E attempt retry) (\<lambda>_.
      bindE (refused (dispatchIdentifier (js_trim (sa_reasonCode s)))) (\<lambda>reason.
      commit_plan
        (keyed_input attemptId ActorRuntime
           (Some (''attempt-suspended:'' @ attemptId @ '':'' @ sa_leaseId s @ '':'' @ nat_text (sa_fencingToken s)))
           (AttemptPayload (AttemptSuspendedEvent attemptId (sa_leaseId s) (sa_fencingToken s) (Some reason) (sa_retry s))))
        (attempt_of attemptId)))))))))"

definition failTask :: "string \<Rightarrow> string \<Rightarrow> TaskContract decision" where
  "failTask taskId reasonCode p =
     bindE (refused (lookup_task p taskId)) (\<lambda>task.
     if task_status (ts_task task) \<in> {TaskCompleted, TaskFailed, TaskCancelled} then Inr (Answer (ts_task task))
     else
       bindE (refused (assertTaskFailureTransition p taskId taskId reasonCode)) (\<lambda>_.
       bindE (refused (dispatchIdentifier (js_trim reasonCode))) (\<lambda>reason.
       commit_plan
         (keyed_input taskId ActorRuntime (Some (''task-failed:'' @ taskId @ '':'' @ reason))
            (TaskPayload (TaskFailedEvent taskId reason)))
         (\<lambda>q. ts_task (task_of taskId q)))))"

text \<open>
  The attempts an owner's death interrupted, decided on one projection, and the events that fence them. Without a
  lease the payload names none, and the decoder of the event refuses it.
\<close>

definition interrupted ::
  "(AttemptRuntimeState \<Rightarrow> bool) \<Rightarrow> (string \<Rightarrow> bool) \<Rightarrow> jsnum \<Rightarrow> AttemptRuntimeState \<Rightarrow> bool" where
  "interrupted shouldRecover isOwnerGone now attempt \<longleftrightarrow>
     (att_status attempt = AttLeased \<or> att_status attempt = AttRunning) \<and> \<not> truthy (att_agentId attempt) \<and>
     shouldRecover attempt \<and>
     (case att_lease attempt of
        None \<Rightarrow> True
      | Some lease \<Rightarrow> \<not> (js_lt now (date_parse (lease_expiresAt lease)) \<and> \<not> isOwnerGone (lease_ownerId lease)))"

definition interruption_input :: "AttemptRuntimeState \<Rightarrow> AppendOrchestrationEventInput option" where
  "interruption_input attempt =
     map_option (\<lambda>lease. keyed_input (att_attemptId attempt) ActorRuntime
         (Some (''attempt-process-interrupted:'' @ att_attemptId attempt @ '':'' @ lease_leaseId lease))
         (AttemptPayload (LeaseExpired (att_attemptId attempt) (lease_leaseId lease) (lease_fencingToken lease)
           (Some ''worker_process_interrupted''))))
       (att_lease attempt)"

fun fence_all ::
  "json_env \<Rightarrow> store \<Rightarrow> (string \<Rightarrow> externals) \<Rightarrow> AttemptRuntimeState list \<Rightarrow> runtime_world \<Rightarrow>
   (runtime_error + unit) \<times> runtime_world" where
  "fence_all J S xs [] w = (Inr (), w)"
| "fence_all J S xs (attempt # rest) w =
     (let x = xs (att_attemptId attempt) in
      then_run (case interruption_input attempt of
                  Some input \<Rightarrow> commit J S x input (Inr ()) w
                | None \<Rightarrow> then_run (compactCurrentProjection S (x_compaction x 1) w)
                    (\<lambda>_ w1. (Inl (CommandInvalid ''The interrupted attempt has no lease.''), w1)))
        (\<lambda>_. fence_all J S xs rest))"

definition recoverInterruptedUnboundAttempts ::
  "json_env \<Rightarrow> store \<Rightarrow> externals \<Rightarrow> (string \<Rightarrow> externals) \<Rightarrow> command_env \<Rightarrow> (AttemptRuntimeState \<Rightarrow> bool) \<Rightarrow>
   (string \<Rightarrow> bool) \<Rightarrow> runtime_world \<Rightarrow> (runtime_error + string list) \<times> runtime_world" where
  "recoverInterruptedUnboundAttempts J S x xs E shouldRecover isOwnerGone w =
     then_run (refresh J S (x_compaction x 0) w) (\<lambda>_ w1.
       let found = filter (interrupted shouldRecover isOwnerGone (now_ms E 0)) (js_values (attempts (rt_projection (fst w1)))) in
       then_run (fence_all J S xs found w1) (\<lambda>_ w2. (Inr (map att_attemptId found), w2)))"

section \<open>Resumption\<close>

definition requestAgentResume :: "command_env \<Rightarrow> string \<Rightarrow> string \<Rightarrow> AgentBindingContract decision" where
  "requestAgentResume E agentId attemptId p =
     bindE (refused (lookup_agent p agentId)) (\<lambda>agent.
     bindE (refused (assertAgentNotRetired agent)) (\<lambda>_.
     bindE (requireAttempt p attemptId) (\<lambda>attempt.
     bindE (refused (require (att_status attempt = AttSuspended \<and> att_agentId attempt = Some agentId \<and>
                              agent_activeAttemptId agent = Some attemptId)
              (AgentError (AgentCannotResume agentId attemptId)))) (\<lambda>_.
     bindE (refused (assertRetryBackoffElapsedAt attempt (now_ms E 0))) (\<lambda>_.
     bindE (refused (requireActiveObjectiveForAttemptInProjection p attempt)) (\<lambda>_.
     if agent_status agent = AgentResuming then Inr (Answer agent)
     else
       bindE (refused (require (agent_status agent = AgentSuspended) (AgentError (AgentNotSuspended agentId)))) (\<lambda>_.
       commit_plan
         (keyed_input agentId ActorRuntime
            (Some (''agent-resume-requested:'' @ agentId @ '':'' @ nat_text (lastOrdinal p)))
            (AgentPayload (AgentResumeRequested agentId attemptId)))
         (agent_of agentId))))))))"

definition assertAttemptReadyForResume :: "command_env \<Rightarrow> string \<Rightarrow> unit decision" where
  "assertAttemptReadyForResume E attemptId p =
     bindE (requireAttempt p attemptId) (\<lambda>attempt.
     bindE (refused (assertVerificationDependenciesReady p attempt)) (\<lambda>_.
     bindE (refused (assertRetryBackoffElapsedAt attempt (now_ms E 0))) (\<lambda>_.
     Inr (Answer ()))))"

definition resumeAttempt :: "command_env \<Rightarrow> string \<Rightarrow> string \<Rightarrow> jsnum \<Rightarrow> string \<Rightarrow> AttemptLease decision" where
  "resumeAttempt E attemptId agentId ttlMs ownerId p =
     bindE (requireAttempt p attemptId) (\<lambda>attempt.
     bindE (valid (att_status attempt = AttSuspended \<and> att_agentId attempt = Some agentId)
              ''The attempt is not suspended for the agent.'') (\<lambda>_.
     bindE (valid (case map_of (agents p) agentId of Some agent \<Rightarrow> agent_status agent = AgentResuming | None \<Rightarrow> False)
              ''The agent is not resuming.'') (\<lambda>_.
     bindE (refused (assertRetryBackoffElapsedAt attempt (now_ms E 1))) (\<lambda>_.
     bindE (refused (requireActiveObjectiveForAttemptInProjection p attempt)) (\<lambda>_.
     bindE (refused (assertVerificationDependenciesReady p attempt)) (\<lambda>_.
     bindE (issueLease E attempt ownerId ttlMs) (\<lambda>lease.
     commit_plan
       (keyed_input attemptId ActorRuntime (Some (''attempt-resumed:'' @ lease_leaseId lease))
          (AttemptPayload (AttemptResumedEvent lease agentId)))
       (\<lambda>_. lease))))))))"

end
