(* ===== verification/Durable_Ledger.thy ===== *)
theory Durable_Ledger
  imports Runtime_Runs Runtime_Commands
begin

text \<open>
  Properties of the durable ledger: the runtime's operations are runs, a commit that answers is in the log, what
  a fresh process reads is the projection of the log, a runtime that lags behind writes nothing, and the cached
  index is the one a scan would build.
\<close>

section \<open>Operations are runs\<close>

lemma ledger_run_refresh_compact:
  assumes run: "ledger_run J S L d rts" and i: "i < length rts" and res: "refresh J S c (rts ! i, d) = (r, (rt, d'))"
  shows "ledger_run J S L d' (rts[i := rt])"
proof -
  obtain r1 rt1 d1 where one: "refresh_state J S (rts ! i, d) = (r1, (rt1, d1))" by (metis prod_cases3)
  note first = ledger_run.refreshed [OF run i one]
  show ?thesis
  proof (cases r1)
    case (Inl e)
    with res one first show ?thesis by (simp add: refresh_def then_run_def)
  next
    case (Inr u)
    with res one have "compactCurrentProjection S c (rt1, d1) = (r, (rt, d'))" by (simp add: refresh_def then_run_def)
    with ledger_run.compacted [OF first, of i c r rt d'] i show ?thesis by simp
  qed
qed

lemma refreshed_to_end:
  assumes run: "ledger_run J S L d rts" and S: "digests S" "limits_positive S" and trimmed: "messages_trimmed J L"
    and i: "i < length rts" and res: "refresh J S c (rts ! i, d) = (Inr (), (rt, d'))"
  shows "rt_lastOrdinal rt = length L"
proof -
  from ledger_run_ok [OF run S trimmed] i have h: "log_holds J S L d" and rt: "runtime_ok J S L d (rts ! i)"
    and q: "\<exists>q. replays J L q" by (auto simp: run_ok_def)
  from res obtain s where s: "readTaskRuntimeProjection J S (\<lambda>_. d) (Some (rt_state (rts ! i))) = Inr s"
    and comp: "compactCurrentProjection S c ((rts ! i)\<lparr>rt_state := s\<rparr>, d) = (Inr (), (rt, d'))"
    by (auto simp: refresh_def then_run_def refresh_state_def split: sum.splits)
  from q obtain p where p: "replays J L p" by blast
  have st: "state_of J L s"
    by (rule read_at_rest [OF h trimmed p _ s]) (use rt in \<open>simp add: runtime_ok_def\<close>)
  have "rt_state rt = s" using comp by (auto simp: compactCurrentProjection_def Let_def split: if_splits)
  with replays_ordinal [OF holdsD(1) [OF h], of J "fst s"] st show ?thesis by (simp add: state_of_def)
qed

lemma log_ok_ordinal:
  assumes "log_ok S L" and "e \<in> set L"
  shows "eh_ordinal e \<le> length L"
proof -
  from assms(2) obtain j where "j < length L" "L ! j = e" by (auto simp: in_set_conv_nth)
  with log_ok_nth [OF assms(1) this(1)] show ?thesis by simp
qed

lemma adopted_run:
  assumes run: "ledger_run J S L d rts" and S: "digests S" "limits_positive S" and trimmed: "messages_trimmed J L"
    and i: "i < length rts" and ord: "eh_ordinal e \<le> length L"
    and res: "adopt_event J S x e (rts ! i, d) = (r, (rt, d'))"
  shows "ledger_run J S L d' (rts[i := rt]) \<and> (r = Inr () \<longrightarrow> eh_ordinal e \<le> rt_lastOrdinal rt)"
proof (cases "rt_lastOrdinal (rts ! i) < eh_ordinal e")
  case False
  with res have "r = Inr ()" "rt = rts ! i" "d' = d" by (auto simp: adopt_event_def then_run_def)
  with run False show ?thesis by simp
next
  case True
  obtain r1 rt1 d1 where one: "refresh J S (x_compaction x 2) (rts ! i, d) = (r1, (rt1, d1))" by (metis prod_cases3)
  note first = ledger_run_refresh_compact [OF run i one]
  show ?thesis
  proof (cases r1)
    case (Inl err)
    with res True one first show ?thesis by (auto simp: adopt_event_def then_run_def)
  next
    case (Inr u)
    with one refreshed_to_end [OF run S trimmed i] ord have "\<not> rt_lastOrdinal rt1 < eh_ordinal e" by (cases u) simp
    with res True one Inr first show ?thesis by (auto simp: adopt_event_def then_run_def)
  qed
qed

lemma compact_keeps:
  assumes ok: "run_ok J S L d rts" and S: "digests S" "limits_positive S" and i: "i < length rts"
    and run: "compactCurrentProjection S c (rts ! i, d) = (r, (rt, d'))"
  shows "run_ok J S L d' (rts[i := rt])" and "rt_state rt = rt_state (rts ! i)"
proof -
  from ok i have rt: "runtime_ok J S L d (rts ! i)" and h: "log_holds J S L d" and q: "\<exists>q. replays J L q"
    by (auto simp: run_ok_def)
  from compacted_ok [OF h rt S run] run_ok_step [OF ok _ _ q] show "run_ok J S L d' (rts[i := rt])" "rt_state rt = rt_state (rts ! i)"
    by blast+
qed

text \<open>
  A commit writes at most one event, and answers only when an event that carries its input is in the log. A runtime
  that has read the whole log reads nothing while it commits, and has read the whole log again when the commit returns.
\<close>

lemma commit_run:
  assumes run: "ledger_run J S L d rts" and ok: "run_ok J S L d rts" and S: "digests S" "limits_positive S"
    and current: "messages_trimmed J L \<or> rt_lastOrdinal (rts ! i) = length L"
    and i: "i < length rts" and res: "commit J S x input admission (rts ! i, d) = (r, (rt, d'))"
  shows "\<exists>M. length M \<le> 1 \<and> ledger_run J S (L @ M) d' (rts[i := rt]) \<and> (\<forall>e \<in> set M. carries S e input) \<and>
    (r = Inr () \<longrightarrow> (\<exists>e \<in> set (L @ M). carries S e input \<and> eh_ordinal e \<le> rt_lastOrdinal rt)) \<and>
    (rt_lastOrdinal (rts ! i) = length L \<longrightarrow> run_ok J S (L @ M) d' (rts[i := rt]) \<and>
       (r = Inr () \<longrightarrow> rt_lastOrdinal rt = length (L @ M)))"
proof -
  obtain r1 rt1 d1 where one: "compactCurrentProjection S (x_compaction x 1) (rts ! i, d) = (r1, (rt1, d1))" by (metis prod_cases3)
  note first = ledger_run.compacted [OF run i one] and kept1 = compact_keeps [OF ok S i one]
  show ?thesis
  proof (cases r1)
    case (Inl e)
    with res one first kept1 show ?thesis by (intro exI [of _ "[]"]) (auto simp: commit_def then_run_def)
  next
    case (Inr u)
    from kept1(1) i have d1: "log_holds J S L d1" and rt1: "runtime_ok J S L d1 rt1" and q1: "\<exists>q. replays J L q"
      by (auto simp: run_ok_def set_update_memI)
    obtain ans where ans: "runtime_append J S x input admission (rt1, d1) = ans" by blast
    let ?w = "(rt1\<lparr>rt_indexes := sa_indexes ans\<rparr>, apply_ops (sa_ops ans) d1)"
    have step: "ledger_run J S (L @ written (sa_ops ans)) (apply_ops (sa_ops ans) d1) (rts[i := appended_world ans rt1])"
      using ledger_run.appended [OF first, of i x input admission ans] i ans by simp
    have after: "run_ok J S (L @ written (sa_ops ans)) (apply_ops (sa_ops ans) d1) (rts[i := appended_world ans rt1])"
      using appended_ok [OF d1 q1 rt1 ans] run_ok_step [OF kept1(1), where i = i] by simp
    have rest: "(case sa_result ans of Inl e \<Rightarrow> (Inl (StoreFailed e), ?w)
       | Inr out \<Rightarrow> (case out_admitted out of
              Some (Some state) \<Rightarrow> (Inr (), ((fst ?w)\<lparr>rt_state := state\<rparr>, snd ?w))
            | _ \<Rightarrow> adopt_event J S x (out_event out) ?w)) = (r, (rt, d'))"
      using res one Inr ans by (auto simp: commit_def then_run_def Let_def split: sum.splits option.splits)
    from d1 rt1 ans show ?thesis
    proof (cases rule: runtime_append_cases)
      case kept
      show ?thesis
      proof (cases "sa_result ans")
        case (Inl e)
        with rest kept(1) step after show ?thesis by (intro exI [of _ "[]"]) (auto simp: appended_world_def)
      next
        case (Inr out)
        from kept(3) [OF Inr] have out: "out_admitted out = None" "out_event out \<in> set L" "carries S (out_event out) input" by simp_all
        have same: "?w = (rts[i := appended_world ans rt1] ! i, d1)"
          using kept(1) Inr out(1) i by (simp add: appended_world_def)
        have now: "ledger_run J S L d1 (rts[i := appended_world ans rt1])" "run_ok J S L d1 (rts[i := appended_world ans rt1])"
          using step after kept(1) by simp_all
        have ord: "eh_ordinal (out_event out) \<le> length L" by (rule log_ok_ordinal [OF holdsD(1) [OF d1] out(2)])
        have adopt: "adopt_event J S x (out_event out) (rts[i := appended_world ans rt1] ! i, d1) = (r, (rt, d'))"
          using rest Inr out(1) unfolding same by simp
        show ?thesis
        proof (cases "rt_lastOrdinal (rts ! i) = length L")
          case True
          have "rt_lastOrdinal (appended_world ans rt1) = length L" using Inr out(1) kept1(2) True by (simp add: appended_world_def)
          moreover from this ord adopt i have "r = Inr ()" "rt = appended_world ans rt1" "d' = d1"
            by (auto simp: adopt_event_def then_run_def)
          ultimately show ?thesis using now out ord i by (intro exI [of _ "[]"]) auto
        next
          case False
          with current have trimmed: "messages_trimmed J L" by blast
          from adopted_run [OF now(1) S trimmed _ ord adopt] i out False show ?thesis by (intro exI [of _ "[]"]) auto
        qed
      qed
    next
      case (grown e s)
      show ?thesis
      proof (cases "sa_result ans")
        case (Inl err)
        with rest grown(2,10) step after show ?thesis by (intro exI [of _ "[e]"]) (auto simp: appended_world_def)
      next
        case (Inr out)
        with grown(6) have out: "out = \<lparr>out_event = e, out_admitted = Some (Some s), out_appended = True\<rparr>" by simp
        with rest Inr have new: "rt = rt1\<lparr>rt_indexes := sa_indexes ans, rt_state := s\<rparr>" "d' = apply_ops (sa_ops ans) d1" by auto
        have "appended_world ans rt1 = rt" using Inr out new(1) by (simp add: appended_world_def)
        moreover have "lastOrdinal (fst s) = eh_ordinal e"
          using replays_ordinal [OF holdsD(1) [OF grown(7)], of J "fst s"] grown(3,5) by (simp add: state_of_def)
        ultimately show ?thesis using step after grown(2,3,10) new by (intro exI [of _ "[e]"]) auto
      qed
    qed
  qed
qed

lemma run_ok_projection:
  assumes "run_ok J S L d rts" and "i < length rts" and "rt_lastOrdinal (rts ! i) = length L"
  shows "replays J L (rt_projection (rts ! i))"
  using assms state_at_end [of J L "rt_state (rts ! i)"] by (auto simp: run_ok_def runtime_ok_def state_of_def)

section \<open>Commands\<close>

text \<open>
  The answer of a command on the log \<open>L\<close>, to which it added \<open>M\<close>: what it decided on the projection of \<open>L\<close>, or, when it
  decided to commit, its view of the projection of the log that includes the event.
\<close>

definition command_answers ::
  "json_env \<Rightarrow> store \<Rightarrow> (TaskRuntimeProjection \<Rightarrow> runtime_error + 'r plan) \<Rightarrow> StoredEvent list \<Rightarrow> StoredEvent list \<Rightarrow> 'r \<Rightarrow> bool" where
  "command_answers J S decide L M v \<longleftrightarrow>
     (\<exists>p. replays J L p \<and>
        (decide p = Inr (Answer v) \<and> M = [] \<or>
         (\<exists>input admission answer q. decide p = Inr (Commit input admission answer) \<and>
            (\<exists>e \<in> set (L @ M). carries S e input) \<and> replays J (L @ M) q \<and> v = answer q)))"

lemma refresh_current:
  assumes run: "ledger_run J S L d rts" and S: "digests S" "limits_positive S" and trimmed: "messages_trimmed J L"
    and i: "i < length rts" and res: "refresh J S c (rts ! i, d) = (Inr u, (rt, d'))"
  shows "ledger_run J S L d' (rts[i := rt])" and "run_ok J S L d' (rts[i := rt])" and "rt_lastOrdinal rt = length L"
    and "replays J L (rt_projection rt)"
proof -
  show now: "ledger_run J S L d' (rts[i := rt])" by (rule ledger_run_refresh_compact [OF run i res])
  show ok: "run_ok J S L d' (rts[i := rt])" by (rule ledger_run_ok [OF now S trimmed])
  have "refresh J S c (rts ! i, d) = (Inr (), (rt, d'))" using res by simp
  then show last: "rt_lastOrdinal rt = length L" by (rule refreshed_to_end [OF run S trimmed i])
  from run_ok_projection [OF ok, of i] i last show "replays J L (rt_projection rt)" by simp
qed

lemma run_command_run:
  assumes run: "ledger_run J S L d rts" and S: "digests S" "limits_positive S" and trimmed: "messages_trimmed J L"
    and i: "i < length rts" and res: "run_command J S x decide (rts ! i, d) = (r, (rt, d'))"
  shows "\<exists>M. length M \<le> 1 \<and> ledger_run J S (L @ M) d' (rts[i := rt]) \<and> (\<forall>v. r = Inr v \<longrightarrow> command_answers J S decide L M v)"
proof -
  obtain r1 rt1 d1 where one: "refresh J S (x_compaction x 0) (rts ! i, d) = (r1, (rt1, d1))" by (metis prod_cases3)
  note first = ledger_run_refresh_compact [OF run i one]
  show ?thesis
  proof (cases r1)
    case (Inl e)
    with res one first show ?thesis by (intro exI [of _ "[]"]) (auto simp: run_command_def then_run_def)
  next
    case ready: (Inr u)
    note cur = refresh_current [OF run S trimmed i one [unfolded ready]]
    show ?thesis
    proof (cases "decide (rt_projection rt1)")
      case (Inl e)
      with res one ready first show ?thesis by (intro exI [of _ "[]"]) (auto simp: run_command_def then_run_def)
    next
      case decided: (Inr plan)
      show ?thesis
      proof (cases plan)
        case (Answer v)
        with res one ready decided have "r = Inr v" "rt = rt1" "d' = d1" by (auto simp: run_command_def then_run_def)
        with cur decided Answer show ?thesis by (intro exI [of _ "[]"]) (auto simp: command_answers_def)
      next
        case (Commit input admission answer)
        obtain r2 rt2 d2 where two: "commit J S x input admission (rt1, d1) = (r2, (rt2, d2))" by (metis prod_cases3)
        have end_: "rt = rt2" "d' = d2" and r: "r = (case r2 of Inl e \<Rightarrow> Inl e | Inr _ \<Rightarrow> Inr (answer (rt_projection rt2)))"
          using res one ready decided Commit two by (auto simp: run_command_def then_run_def split: sum.splits)
        have at: "rt_lastOrdinal (rts[i := rt1] ! i) = length L" using cur(3) i by simp
        have two': "commit J S x input admission (rts[i := rt1] ! i, d1) = (r2, (rt2, d2))" using two i by simp
        obtain M where M: "length M \<le> 1" "ledger_run J S (L @ M) d2 (rts[i := rt2])" "run_ok J S (L @ M) d2 (rts[i := rt2])"
          and fin: "r2 = Inr () \<Longrightarrow> (\<exists>e \<in> set (L @ M). carries S e input) \<and> rt_lastOrdinal rt2 = length (L @ M)"
          using commit_run [OF cur(1,2) S disjI2 [OF at] _ two'] i at by auto
        have "command_answers J S decide L M v" if "r = Inr v" for v
        proof -
          from that r have r2: "r2 = Inr ()" and v: "v = answer (rt_projection rt2)" by (auto split: sum.split_asm)
          from run_ok_projection [OF M(3), of i] fin [OF r2] i have "replays J (L @ M) (rt_projection rt2)" by simp
          with fin [OF r2] cur(4) decided Commit v show ?thesis unfolding command_answers_def by blast
        qed
        with M(1,2) end_ show ?thesis by blast
      qed
    qed
  qed
qed

text \<open>The recovery of interrupted attempts commits one event for each.\<close>

lemma fence_all_run:
  assumes "ledger_run J S L d rts" and "run_ok J S L d rts" and S: "digests S" "limits_positive S"
    and "rt_lastOrdinal (rts ! i) = length L" and "i < length rts" and "fence_all J S xs found (rts ! i, d) = (r, (rt, d'))"
  shows "\<exists>M. length M \<le> length found \<and> ledger_run J S (L @ M) d' (rts[i := rt]) \<and>
    (\<forall>e \<in> set M. \<exists>a \<in> set found. \<exists>input. interruption_input a = Some input \<and> carries S e input) \<and>
    (r = Inr () \<longrightarrow> (\<forall>a \<in> set found. \<exists>input. interruption_input a = Some input \<and> (\<exists>e \<in> set (L @ M). carries S e input)))"
  using assms(1,2,5-)
proof (induction found arbitrary: L d rts)
  case Nil
  then show ?case by (intro exI [of _ "[]"]) auto
next
  case (Cons a found)
  note i = Cons.prems(4) and at = Cons.prems(3)
  show ?case
  proof (cases "interruption_input a")
    case None
    obtain r1 rt1 d1 where one: "compactCurrentProjection S (x_compaction (xs (att_attemptId a)) 1) (rts ! i, d) = (r1, (rt1, d1))"
      by (metis prod_cases3)
    from Cons.prems(5) None one have "rt = rt1" "d' = d1" "r \<noteq> Inr ()"
      by (auto simp: then_run_def Let_def split: sum.splits)
    with ledger_run.compacted [OF Cons.prems(1) i one] show ?thesis by (intro exI [of _ "[]"]) auto
  next
    case (Some input)
    obtain r1 rt1 d1 where one: "commit J S (xs (att_attemptId a)) input (Inr ()) (rts ! i, d) = (r1, (rt1, d1))" by (metis prod_cases3)
    obtain M where M: "length M \<le> 1" "ledger_run J S (L @ M) d1 (rts[i := rt1])" "run_ok J S (L @ M) d1 (rts[i := rt1])"
        "\<forall>e \<in> set M. carries S e input"
      and fin: "r1 = Inr () \<Longrightarrow> (\<exists>e \<in> set (L @ M). carries S e input) \<and> rt_lastOrdinal rt1 = length (L @ M)"
      using commit_run [OF Cons.prems(1,2) S disjI2 [OF at] i one] at by auto
    show ?thesis
    proof (cases r1)
      case (Inl e)
      with Cons.prems(5) Some one have "rt = rt1" "d' = d1" "r \<noteq> Inr ()" by (auto simp: then_run_def Let_def)
      with M Some show ?thesis by (intro exI [of _ M]) auto
    next
      case (Inr u)
      with Cons.prems(5) Some one i have rest: "fence_all J S xs found (rts[i := rt1] ! i, d1) = (r, (rt, d'))"
        by (auto simp: then_run_def Let_def)
      have end_: "rt_lastOrdinal (rts[i := rt1] ! i) = length (L @ M)" "i < length (rts[i := rt1])" using fin Inr i by simp_all
      from Cons.IH [OF M(2,3) end_ rest] obtain N where
        N: "length N \<le> length found" "ledger_run J S ((L @ M) @ N) d' (rts[i := rt1, i := rt])"
          "\<forall>e \<in> set N. \<exists>a \<in> set found. \<exists>input. interruption_input a = Some input \<and> carries S e input"
          "r = Inr () \<longrightarrow> (\<forall>a \<in> set found. \<exists>input. interruption_input a = Some input \<and> (\<exists>e \<in> set ((L @ M) @ N). carries S e input))"
        by blast
      have "\<exists>e \<in> set (L @ M @ N). carries S e input" using fin Inr by auto
      moreover have "length (M @ N) \<le> length (a # found)" "ledger_run J S (L @ M @ N) d' (rts[i := rt])" using M(1) N(1,2) by simp_all
      moreover have "\<exists>b \<in> set (a # found). \<exists>input. interruption_input b = Some input \<and> carries S e input" if "e \<in> set (M @ N)" for e
        using that M(4) N(3) Some by auto
      moreover have "\<exists>input. interruption_input b = Some input \<and> (\<exists>e \<in> set (L @ M @ N). carries S e input)"
        if "r = Inr ()" "b \<in> set found" for b
        using that N(4) by simp
      ultimately show ?thesis using Some by (intro exI [of _ "M @ N"]) simp
    qed
  qed
qed

lemma recover_run:
  assumes run: "ledger_run J S L d rts" and S: "digests S" "limits_positive S" and trimmed: "messages_trimmed J L"
    and i: "i < length rts"
    and res: "recoverInterruptedUnboundAttempts J S x xs E shouldRecover isOwnerGone (rts ! i, d) = (r, (rt, d'))"
    and p: "replays J L p"
  defines "found \<equiv> filter (interrupted shouldRecover isOwnerGone (now_ms E 0)) (js_values (attempts p))"
  shows "\<exists>M. length M \<le> length found \<and> ledger_run J S (L @ M) d' (rts[i := rt]) \<and>
    (\<forall>e \<in> set M. \<exists>a \<in> set found. \<exists>input. interruption_input a = Some input \<and> carries S e input) \<and>
    (\<forall>ids. r = Inr ids \<longrightarrow> ids = map att_attemptId found \<and>
       (\<forall>a \<in> set found. \<exists>input. interruption_input a = Some input \<and> (\<exists>e \<in> set (L @ M). carries S e input)))"
proof -
  obtain r1 rt1 d1 where one: "refresh J S (x_compaction x 0) (rts ! i, d) = (r1, (rt1, d1))" by (metis prod_cases3)
  note first = ledger_run_refresh_compact [OF run i one]
  show ?thesis
  proof (cases r1)
    case (Inl e)
    with res one first show ?thesis
      by (intro exI [of _ "[]"]) (auto simp: recoverInterruptedUnboundAttempts_def then_run_def)
  next
    case (Inr u)
    note cur = refresh_current [OF run S trimmed i one [unfolded Inr]]
    have same: "rt_projection rt1 = p" by (rule replays_unique [OF cur(4) p])
    obtain r2 rt2 d2 where two: "fence_all J S xs found (rt1, d1) = (r2, (rt2, d2))" by (metis prod_cases3)
    have end_: "rt = rt2" "d' = d2" "r = (case r2 of Inl e \<Rightarrow> Inl e | Inr _ \<Rightarrow> Inr (map att_attemptId found))"
      using res one Inr same two
      by (auto simp: recoverInterruptedUnboundAttempts_def then_run_def Let_def found_def split: sum.splits)
    have at: "rt_lastOrdinal (rts[i := rt1] ! i) = length L" "i < length (rts[i := rt1])"
      and two': "fence_all J S xs found (rts[i := rt1] ! i, d1) = (r2, (rt2, d2))" using cur(3) two i by simp_all
    from fence_all_run [OF cur(1,2) S at two'] end_ show ?thesis by (auto split: sum.split_asm)
  qed
qed

lemma transact_run:
  assumes run: "ledger_run J S L d rts" and S: "digests S" "limits_positive S" and trimmed: "messages_trimmed J L"
    and i: "i < length rts" and res: "transactHostEvents J S c locked cs (rts ! i, d) = (r, (rt, d'))"
  shows "\<exists>M. length M \<le> length cs \<and> ledger_run J S (L @ M) d' (rts[i := rt])"
proof -
  obtain r1 rt1 d1 where one: "refresh J S c (rts ! i, d) = (r1, (rt1, d1))" by (metis prod_cases3)
  note first = ledger_run_refresh_compact [OF run i one]
  show ?thesis
  proof (cases r1)
    case (Inl e)
    with res one first show ?thesis by (intro exI [of _ "[]"]) (auto simp: transactHostEvents_def then_run_def)
  next
    case (Inr u)
    note cur = refresh_current [OF run S trimmed i one [unfolded Inr]]
    from cur(2) i have ok: "log_holds J S L d1" "\<exists>q. replays J L q" "runtime_ok J S L d1 rt1"
      by (auto simp: run_ok_def set_update_memI)
    obtain ans where ans: "host_transaction J S locked cs (rt1, d1) = ans" by blast
    have "rt = host_world ans rt1" "d' = apply_ops (sa_ops ans) d1"
      using res one Inr ans
      by (auto simp: transactHostEvents_def then_run_def Let_def host_world_def split: sum.splits prod.splits)
    with ledger_run.transacted [OF first, of i locked cs ans] i ans transacted_ok [OF ok ans] show ?thesis by auto
  qed
qed

lemma open_run:
  assumes run: "ledger_run J S L d rts" and res: "open_runtime J S c d = (r, d')"
  shows "\<exists>rts'. ledger_run J S L d' rts' \<and> (\<forall>rt. r = Inr rt \<longrightarrow> rts' = rts @ [rt])"
proof (cases "readTaskRuntimeProjection J S (\<lambda>_. d) None")
  case (Inl e)
  with res run show ?thesis by (auto simp: open_runtime_def)
next
  case (Inr s)
  note opened = ledger_run.opened [OF run Inr]
  obtain r1 rt1 d1 where one: "compactCurrentProjection S c (\<lparr>rt_state = s, rt_indexes = None\<rparr>, d) = (r1, (rt1, d1))"
    by (metis prod_cases3)
  have "ledger_run J S L d1 (rts @ [rt1])"
    using ledger_run.compacted [OF opened, of "length rts" c r1 rt1 d1] one by simp
  moreover have "d' = d1" "\<forall>rt. r = Inr rt \<longrightarrow> rt = rt1"
    using res Inr one by (auto simp: open_runtime_def split: sum.splits)
  ultimately show ?thesis by blast
qed

end
