(* ===== verification/Sample_Store.thy ===== *)
theory Sample_Store
  imports Durable_Ledger
begin

text \<open>
  Concrete runs of runtimes over a store: a list of steps is played on the model, every state it passes is reached
  by \<open>ledger_run\<close>, and the conditions of the properties are decided on the log it leaves.
\<close>

section \<open>Playing steps\<close>

datatype run_step =
    Open
  | Refresh nat
  | Compact nat compaction_call
  | Append nat stamp "nat option" AppendOrchestrationEventInput

type_synonym run_state = "StoredEvent list \<times> files \<times> DurableTaskRuntime list"

definition idle_compaction :: compaction_call where
  "idle_compaction = \<lparr>cc_maintenance = MaintenanceRefused, cc_now = At 0, cc_fault = None\<rparr>"

definition world_of :: "stamp \<Rightarrow> nat option \<Rightarrow> externals" where
  "world_of st fault = \<lparr>x_compaction = (\<lambda>_. idle_compaction), x_locked = True, x_stamp = st, x_fault = fault\<rparr>"

fun play_step :: "json_env \<Rightarrow> store \<Rightarrow> run_step \<Rightarrow> run_state \<Rightarrow> run_state option" where
  "play_step J S Open (L, d, rts) =
     (case readTaskRuntimeProjection J S (\<lambda>_. d) None of
        Inl e \<Rightarrow> None
      | Inr s \<Rightarrow> Some (L, d, rts @ [\<lparr>rt_state = s, rt_indexes = None\<rparr>]))"
| "play_step J S (Refresh i) (L, d, rts) =
     (if i < length rts
      then case refresh_state J S (rts ! i, d) of (r, (rt, d')) \<Rightarrow> Some (L, d', rts[i := rt])
      else None)"
| "play_step J S (Compact i c) (L, d, rts) =
     (if i < length rts
      then case compactCurrentProjection S c (rts ! i, d) of (r, (rt, d')) \<Rightarrow> Some (L, d', rts[i := rt])
      else None)"
| "play_step J S (Append i st fault input) (L, d, rts) =
     (if i < length rts
      then let answer = runtime_append J S (world_of st fault) input (Inr ()) (rts ! i, d) in
        Some (L @ written (sa_ops answer), apply_ops (sa_ops answer) d, rts[i := appended_world answer (rts ! i)])
      else None)"

fun play :: "json_env \<Rightarrow> store \<Rightarrow> run_step list \<Rightarrow> run_state \<Rightarrow> run_state option" where
  "play J S [] x = Some x"
| "play J S (p # ps) x = Option.bind (play_step J S p x) (play J S ps)"

lemma play_step_run:
  assumes "play_step J S p (L, d, rts) = Some (L', d', rts')" and "ledger_run J S L d rts"
  shows "ledger_run J S L' d' rts'"
  using assms
  by (cases p)
    (auto simp: Let_def split: sum.splits if_splits prod.splits
      intro: ledger_run.opened ledger_run.refreshed ledger_run.compacted ledger_run.appended)

lemma play_run:
  "play J S ps (L, d, rts) = Some (L', d', rts') \<Longrightarrow> ledger_run J S L d rts \<Longrightarrow> ledger_run J S L' d' rts'"
proof (induction ps arbitrary: L d rts)
  case (Cons p ps)
  from Cons.prems(1) obtain L1 d1 rts1 where one: "play_step J S p (L, d, rts) = Some (L1, d1, rts1)"
    and rest: "play J S ps (L1, d1, rts1) = Some (L', d', rts')"
    by (cases "play_step J S p (L, d, rts)") auto
  from Cons.IH [OF rest] play_step_run [OF one Cons.prems(2)] show ?case by blast
qed simp

lemma play_step_advances:
  assumes "play_step J S p (L, d, rts) = Some (L', d', rts')" and "ledger_run J S L d rts"
    and S: "digests S" "limits_positive S" and "messages_trimmed J L"
  shows "advances L d L' d'"
proof -
  from ledger_run_ok [OF assms(2) S assms(5)] have h: "log_holds J S L d" and q: "\<exists>q. replays J L q"
    and ok: "i < length rts \<Longrightarrow> runtime_ok J S L d (rts ! i)" for i by (auto simp: run_ok_def)
  show ?thesis
  proof (cases p)
    case (Refresh i)
    with assms(1) show ?thesis by (auto simp: refresh_state_def split: if_splits prod.splits sum.splits)
  next
    case (Compact i c)
    with assms(1) obtain r rt where "i < length rts" "compactCurrentProjection S c (rts ! i, d) = (r, (rt, d'))" "L' = L"
      by (auto split: if_splits prod.splits)
    with compacted_ok [OF h ok S] show ?thesis by blast
  next
    case (Append i st fault input)
    with assms(1) appended_ok [OF h q ok] show ?thesis by (auto simp: Let_def split: if_splits)
  qed (use assms(1) in \<open>auto split: sum.splits\<close>)
qed

lemma play_extends: "play J S ps (L, d, rts) = Some (L', d', rts') \<Longrightarrow> \<exists>M. L' = L @ M"
proof (induction ps arbitrary: L d rts)
  case (Cons p ps)
  then obtain L1 d1 rts1 where one: "play_step J S p (L, d, rts) = Some (L1, d1, rts1)"
    and rest: "play J S ps (L1, d1, rts1) = Some (L', d', rts')"
    by (cases "play_step J S p (L, d, rts)") auto
  have "\<exists>M. L1 = L @ M" using one by (cases p) (auto simp: Let_def split: if_splits sum.splits prod.splits)
  with Cons.IH [OF rest] show ?case by auto
qed simp

lemma play_advances:
  assumes S: "digests S" "limits_positive S" and "messages_trimmed J L'"
  shows "play J S ps (L, d, rts) = Some (L', d', rts') \<Longrightarrow> ledger_run J S L d rts \<Longrightarrow> advances L d L' d'"
proof (induction ps arbitrary: L d rts)
  case (Cons p ps)
  then obtain L1 d1 rts1 where one: "play_step J S p (L, d, rts) = Some (L1, d1, rts1)"
    and rest: "play J S ps (L1, d1, rts1) = Some (L', d', rts')"
    by (cases "play_step J S p (L, d, rts)") auto
  from play_extends [OF Cons.prems(1)] assms(3) have "messages_trimmed J L" by (auto dest: messages_trimmed_take)
  from play_step_advances [OF one Cons.prems(2) S this] Cons.IH [OF rest play_step_run [OF one Cons.prems(2)]]
  show ?case by (rule advances_trans)
qed simp

lemma play_start: "play J S ps ([], empty_store, []) = Some (L, d, rts) \<Longrightarrow> ledger_run J S L d rts"
  by (rule play_run [OF _ ledger_run.started])

section \<open>Conditions on the projections of a log\<close>

fun each_prefix :: "json_env \<Rightarrow> (nat \<Rightarrow> TaskRuntimeProjection \<Rightarrow> bool) \<Rightarrow> nat \<Rightarrow> ledger_state \<Rightarrow> StoredEvent list \<Rightarrow> bool" where
  "each_prefix J P n s [] = P n (fst s)"
| "each_prefix J P n s (e # es) \<longleftrightarrow> P n (fst s) \<and>
     (case reduceOrchestrationEvent J s (event_of e) of Inl _ \<Rightarrow> True | Inr s' \<Rightarrow> each_prefix J P (n + 1) s' es)"

lemma each_prefixD:
  "each_prefix J P n s L \<Longrightarrow> j \<le> length L \<Longrightarrow> replay J s (take j L) = Inr (p, c) \<Longrightarrow> P (n + j) p"
proof (induction L arbitrary: n s j)
  case (Cons e es)
  show ?case
  proof (cases j)
    case (Suc k)
    with Cons.prems obtain s' where "reduceOrchestrationEvent J s (event_of e) = Inr s'" "replay J s' (take k es) = Inr (p, c)"
      by (auto simp: bindE_eq_Inr)
    with Cons.IH [of "n + 1" s' k] Cons.prems Suc show ?thesis by simp
  qed (use Cons.prems in simp)
qed simp

definition trimmed_messages :: "nat \<Rightarrow> TaskRuntimeProjection \<Rightarrow> bool" where
  "trimmed_messages j p \<longleftrightarrow> list_all (\<lambda>note. js_trim (note_message note) = note_message note) (js_values (notifications p))"

definition accepted_snapshot :: "json_env \<Rightarrow> nat \<Rightarrow> TaskRuntimeProjection \<Rightarrow> bool" where
  "accepted_snapshot J j p \<longleftrightarrow> (case projectionFromSnapshot J p j of Inl _ \<Rightarrow> False | Inr _ \<Rightarrow> True)"

lemma messages_trimmedI:
  assumes "each_prefix J trimmed_messages 0 (emptyProjection, None) L"
  shows "messages_trimmed J L"
  unfolding messages_trimmed_def
proof (intro allI impI)
  fix j p
  assume "replays J (take j L) p"
  then have "replays J (take (min j (length L)) L) p" by (cases "j \<le> length L") (simp_all add: min_def)
  then obtain c where "replay J (emptyProjection, None) (take (min j (length L)) L) = Inr (p, c)" by (auto simp: replays_def)
  from each_prefixD [OF assms _ this] have "trimmed_messages (0 + min j (length L)) p" by simp
  then show "\<forall>note \<in> set (js_values (notifications p)). js_trim (note_message note) = note_message note"
    by (simp add: trimmed_messages_def list_all_iff)
qed

lemma snapshots_acceptedI:
  assumes "each_prefix J (accepted_snapshot J) 0 (emptyProjection, None) L"
  shows "snapshots_accepted J L"
  unfolding snapshots_accepted_def
proof (intro allI impI)
  fix j p
  assume "j \<le> length L" "replays J (take j L) p"
  with each_prefixD [OF assms, of j p] have "accepted_snapshot J j p" by (auto simp: replays_def)
  then show "\<exists>s. projectionFromSnapshot J p j = Inr s" by (auto simp: accepted_snapshot_def split: sum.splits)
qed

section \<open>A store and its events\<close>

definition sample_store :: store where
  "sample_store = \<lparr>st_eventBytes = (\<lambda>_. 100), st_compactEventBytes = (\<lambda>_. 90), st_cursorBytes = (\<lambda>_. 50),
     st_baselineBytes = (\<lambda>_. 150), st_snapshotBytes = (\<lambda>_. 1000), st_digest = (\<lambda>_. ''sha256''),
     st_samePayload = (=), st_maxTailEvents = 2, st_maxTailBytes = 1000, st_maxIdempotencyEvents = 4\<rparr>"

lemma sample_store_ok [simp]: "digests sample_store" "limits_positive sample_store"
  by (simp_all add: digests_def limits_positive_def sample_store_def)

definition sample_input :: "string \<Rightarrow> OrchestrationPayload \<Rightarrow> AppendOrchestrationEventInput" where
  "sample_input aggregate payload = \<lparr>in_aggregateId = aggregate, in_actor = ActorKernel, in_correlationId = None,
     in_causationId = None, in_idempotencyKey = Some (''create:'' @ aggregate), in_payload = payload\<rparr>"

definition sample_stamp :: "nat \<Rightarrow> stamp" where
  "sample_stamp n = \<lparr>stamp_eventId = ''e'', stamp_now = At (int n)\<rparr>"

definition maintained :: "nat option \<Rightarrow> compaction_call" where
  "maintained fault = \<lparr>cc_maintenance = MaintenanceAdmitted, cc_now = At 9, cc_fault = fault\<rparr>"

text \<open>
  Two events are appended; a compaction ends after its snapshot is published and before anything is pruned; a
  second process opens the store and appends, while the first one, which has not read that event, lags behind.
\<close>

definition sample_objective_input :: AppendOrchestrationEventInput where
  "sample_objective_input = sample_input ''o'' (ObjectivePayload (ObjectiveCreated sample_objective))"

definition sample_agent_input :: AppendOrchestrationEventInput where
  "sample_agent_input = sample_input ''g'' (AgentPayload (AgentRegisteredEvent sample_agent))"

definition sample_task_input :: AppendOrchestrationEventInput where
  "sample_task_input = (sample_input ''o'' (TaskPayload (TaskCreated sample_task None)))\<lparr>in_idempotencyKey := None\<rparr>"

definition sample_child_input :: AppendOrchestrationEventInput where
  "sample_child_input = sample_input ''h'' (AgentPayload (AgentRegisteredEvent sample_child))"

definition sample_early :: "run_step list" where
  "sample_early =
     [Open, Append 0 (sample_stamp 1) None sample_objective_input,
      Append 0 (sample_stamp 2) None sample_agent_input]"

definition sample_late :: "run_step list" where
  "sample_late =
     [Compact 0 (maintained (Some 2)),
      Open, Append 1 (sample_stamp 3) (Some 1) sample_task_input,
      Refresh 1]"

text \<open>A check of the state after some steps and of the state after some more.\<close>

definition played ::
  "run_step list \<Rightarrow> run_step list \<Rightarrow>
   (StoredEvent list \<Rightarrow> files \<Rightarrow> StoredEvent list \<Rightarrow> files \<Rightarrow> DurableTaskRuntime list \<Rightarrow> bool) \<Rightarrow> bool" where
  "played ps qs P =
     (case play sample_env sample_store ps ([], empty_store, []) of
        None \<Rightarrow> False
      | Some (L0, d0, rts0) \<Rightarrow>
          (case play sample_env sample_store qs (L0, d0, rts0) of
             None \<Rightarrow> False
           | Some (L, d, rts) \<Rightarrow> P L0 d0 L d rts))"

lemma playedE:
  assumes "played ps qs P"
  obtains L0 d0 rts0 L d rts where "ledger_run sample_env sample_store L0 d0 rts0"
    and "play sample_env sample_store qs (L0, d0, rts0) = Some (L, d, rts)"
    and "ledger_run sample_env sample_store L d rts" and "P L0 d0 L d rts"
proof -
  from assms obtain L0 d0 rts0 L d rts where one: "play sample_env sample_store ps ([], empty_store, []) = Some (L0, d0, rts0)"
    and two: "play sample_env sample_store qs (L0, d0, rts0) = Some (L, d, rts)" and "P L0 d0 L d rts"
    by (auto simp: played_def split: option.splits)
  from that [OF play_start [OF one] two play_run [OF two play_start [OF one]] this(3)] show thesis .
qed

definition succeeds :: "'e + 'a \<Rightarrow> bool" where
  "succeeds r \<longleftrightarrow> (case r of Inl _ \<Rightarrow> False | Inr _ \<Rightarrow> True)"

lemma succeedsE: "succeeds r \<Longrightarrow> \<exists>x. r = Inr x"
  by (cases r) (simp_all add: succeeds_def)

definition sample_position ::
  "StoredEvent list \<Rightarrow> files \<Rightarrow> StoredEvent list \<Rightarrow> files \<Rightarrow> DurableTaskRuntime list \<Rightarrow> bool" where
  "sample_position L0 d0 L d rts \<longleftrightarrow>
     map eh_ordinal L = [1, 2, 3] \<and> length L = 3 \<and> base_of d0 = 0 \<and> base_of d = 2 \<and> length (sf_events d) = 3 \<and>
     map rt_lastOrdinal rts = [2, 3] \<and> map (\<lambda>rt. rt_indexes rt \<noteq> None) rts = [True, True] \<and>
     rt_indexes (rts ! 0) \<noteq> rt_indexes (rts ! 1) \<and>
     succeeds (readTaskRuntimeProjection sample_env sample_store (\<lambda>i. if i = 0 then d0 else d) None) \<and>
     succeeds (fst (commit sample_env sample_store (world_of (sample_stamp 4) None) sample_child_input (Inr ()) (rts ! 1, d))) \<and>
     each_prefix sample_env trimmed_messages 0 (emptyProjection, None) L \<and>
     each_prefix sample_env (accepted_snapshot sample_env) 0 (emptyProjection, None) L"

lemma sample_played: "played sample_early sample_late sample_position"
  by code_simp

lemma few_files: "length (sf_events d) \<le> MAX_EVENT_DIRECTORY_ENTRIES \<Longrightarrow> listable d"
proof -
  have "length (event_names d) \<le> length (sf_events d)"
    by (simp add: event_names_def) (metis card_image_le card_length finite_set le_trans length_map list.set_map)
  then show "length (sf_events d) \<le> MAX_EVENT_DIRECTORY_ENTRIES \<Longrightarrow> listable d" by (simp add: listable_def)
qed

lemma sample_run:
  obtains L0 d0 rts0 L d rts where "ledger_run sample_env sample_store L0 d0 rts0"
    and "ledger_run sample_env sample_store L d rts" and "advances L0 d0 L d"
    and "messages_trimmed sample_env L0" and "messages_trimmed sample_env L" and "snapshots_accepted sample_env L" and "listable d"
    and "sample_position L0 d0 L d rts"
proof (rule playedE [OF sample_played])
  fix L0 d0 rts0 L d rts
  assume run: "ledger_run sample_env sample_store L0 d0 rts0" "ledger_run sample_env sample_store L d rts"
    and late: "play sample_env sample_store sample_late (L0, d0, rts0) = Some (L, d, rts)"
    and at_: "sample_position L0 d0 L d rts"
  from at_ have trimmed: "messages_trimmed sample_env L" and ok: "snapshots_accepted sample_env L"
    by (auto simp: sample_position_def intro: messages_trimmedI snapshots_acceptedI)
  from at_ have "listable d" by (intro few_files) (simp add: sample_position_def MAX_EVENT_DIRECTORY_ENTRIES_def)
  moreover from play_extends [OF late] trimmed have "messages_trimmed sample_env L0" by (auto dest: messages_trimmed_take)
  moreover have "advances L0 d0 L d" by (rule play_advances [OF sample_store_ok trimmed late run(1)])
  ultimately show thesis using that [OF run] trimmed ok at_ by blast
qed

end
