(* ===== verification/Durable_Properties.thy ===== *)
theory Durable_Properties
  imports Sample_Store
begin

text \<open>
  The properties of the durable task runtime over its event store, each with a run at which it is applied. All of them ask
  that no notification any projection of the log retains has a message with outer white space (\<open>messages_trimmed\<close>): the
  reducer stores a message as it is given, and the decoder of snapshots trims it, so with such a message what is read from a
  snapshot is not the projection of any log.
\<close>

section \<open>Reading back\<close>

text \<open>
  C2: crash safety, for logs whose retained notification messages have no outer white space. Whatever runtimes appended and
  compacted, and at whatever file operation they were cut off, a process that opens the directory reads exactly the
  projection of the committed log; and it can open it whenever the directory can be listed and the validator accepts the
  projections of the log.
\<close>

theorem reopening_restores_log:
  assumes "ledger_run J S L d rts" and "digests S" and "limits_positive S" and "messages_trimmed J L"
  shows "\<exists>p. replays J L p \<and> (\<forall>s. readTaskRuntimeProjection J S (\<lambda>_. d) None = Inr s \<longrightarrow> fst s = p) \<and>
    (listable d \<and> snapshots_accepted J L \<longrightarrow> (\<exists>c. readTaskRuntimeProjection J S (\<lambda>_. d) None = Inr (p, c)))"
proof -
  from ledger_run_ok [OF assms] obtain p where h: "log_holds J S L d" and p: "replays J L p" by (auto simp: run_ok_def)
  have eq: "fst s = p" if "readTaskRuntimeProjection J S (\<lambda>_. d) None = Inr s" for s
    using read_at_rest [OF h assms(4) p _ that] replays_unique [OF p] by (auto simp: state_of_def)
  have "\<exists>c. readTaskRuntimeProjection J S (\<lambda>_. d) None = Inr (p, c)" if "listable d" "snapshots_accepted J L"
    using read_total [OF h assms(4) p that, of None] eq by fastforce
  with p eq show ?thesis by blast
qed

theorem reopening_restores_log_witness:
  "\<exists>L d rts p c. ledger_run sample_env sample_store L d rts \<and> base_of d = 2 \<and> length (sf_events d) = 3 \<and>
     replays sample_env L p \<and> readTaskRuntimeProjection sample_env sample_store (\<lambda>_. d) None = Inr (p, c)"
proof (rule sample_run)
  fix L0 d0 rts0 L d rts
  assume run: "ledger_run sample_env sample_store L d rts" and at_: "sample_position L0 d0 L d rts"
    and ok: "messages_trimmed sample_env L" "snapshots_accepted sample_env L" "listable d"
  from reopening_restores_log [OF run sample_store_ok ok(1)] ok obtain p c where "replays sample_env L p"
    "readTaskRuntimeProjection sample_env sample_store (\<lambda>_. d) None = Inr (p, c)" by blast
  with run at_ show ?thesis unfolding sample_position_def by blast
qed

text \<open>
  C6: for logs whose retained notification messages have no outer white space, a read whose store calls see the directory at
  different moments, while other processes append, compact and prune, returns the projection of the log at one of those
  moments, or an error: never a mixture.
\<close>

theorem torn_read_is_consistent:
  assumes "moments J S L at'" and "prior = None \<or> (\<exists>s0. prior = Some s0 \<and> state_within J (L 0) s0)"
    and "readTaskRuntimeProjection J S at' prior = Inr s"
  shows "replays J (L 3) (fst s) \<or> replays J (L 5) (fst s)"
  using read_sound [OF assms(1) _ assms(3)] assms(2) by (auto simp: state_of_def)

text \<open>A snapshot is published, and an event appended, between the first store call and the others.\<close>

theorem torn_read_is_consistent_witness:
  "\<exists>L at' s. moments sample_env sample_store L at' \<and> base_of (at' 0) = 0 \<and> base_of (at' 1) = 2 \<and>
     readTaskRuntimeProjection sample_env sample_store at' None = Inr s \<and>
     (replays sample_env (L 3) (fst s) \<or> replays sample_env (L 5) (fst s))"
proof (rule sample_run)
  fix L0 d0 rts0 L d rts
  assume runs: "ledger_run sample_env sample_store L0 d0 rts0" "ledger_run sample_env sample_store L d rts"
    and later: "advances L0 d0 L d" and ok: "messages_trimmed sample_env L0" "messages_trimmed sample_env L"
    and at_: "sample_position L0 d0 L d rts"
  let ?L = "\<lambda>i :: nat. if i = 0 then L0 else L" and ?at = "\<lambda>i :: nat. if i = 0 then d0 else d"
  from at_ obtain s where s: "readTaskRuntimeProjection sample_env sample_store ?at None = Inr s" and base: "base_of d0 = 0" "base_of d = 2"
    unfolding sample_position_def by (blast dest: succeedsE)
  have m: "moments sample_env sample_store ?L ?at"
    using ledger_run_ok [OF runs(1) sample_store_ok ok(1)] ledger_run_ok [OF runs(2) sample_store_ok ok(2)] ok later
    by (auto simp: moments_def run_ok_def)
  from torn_read_is_consistent [OF m _ s] m s base show ?thesis by (intro exI [of _ ?L] exI [of _ ?at] exI [of _ s]) simp
qed

section \<open>Committing\<close>

text \<open>
  C5: an append by a runtime whose projection lags behind the log (one without outer white space in retained messages)
  performs no file operation. It is refused, or it answers with an event already in the log that carries the same request under the same idempotency key.
\<close>

theorem lagging_runtime_writes_nothing:
  assumes "ledger_run J S L d rts" and "digests S" and "limits_positive S" and "messages_trimmed J L"
    and "rt \<in> set rts" and "rt_lastOrdinal rt < length L"
    and "runtime_append J S x input admission (rt, d) = answer"
  shows "sa_ops answer = [] \<and>
    (\<forall>out. sa_result answer = Inr out \<longrightarrow> \<not> out_appended out \<and> out_event out \<in> set L \<and> carries S (out_event out) input)"
proof -
  from ledger_run_ok [OF assms(1-4)] assms(5) have "log_holds J S L d" "runtime_ok J S L d rt" by (auto simp: run_ok_def)
  from this assms(7) show ?thesis
  proof (cases rule: runtime_append_cases)
    case kept
    then show ?thesis by blast
  next
    case (grown e s)
    with assms(6) show ?thesis by simp
  qed
qed

lemma sample_position_runtimes:
  assumes "sample_position L0 d0 L d rts"
  obtains rt0 rt1 where "rts = [rt0, rt1]" and "rt_lastOrdinal rt0 = 2" and "rt_lastOrdinal rt1 = 3" and "length L = 3"
    and "rt_indexes rt0 \<noteq> None" and "rt_indexes rt1 \<noteq> None"
proof -
  from assms have idx: "map rt_lastOrdinal rts = [2, 3]" "map (\<lambda>rt. rt_indexes rt \<noteq> None) rts = [True, True]"
    and "length L = 3" unfolding sample_position_def by blast+
  with idx that show thesis by (auto simp: map_eq_Cons_conv)
qed

theorem lagging_runtime_writes_nothing_witness:
  "\<exists>L d rts. ledger_run sample_env sample_store L d rts \<and> map rt_lastOrdinal rts = [2, 3] \<and> length L = 3 \<and>
     sa_ops (runtime_append sample_env sample_store (world_of (sample_stamp 4) None) sample_child_input (Inr ()) (rts ! 0, d)) = []"
proof (rule sample_run)
  fix L0 d0 rts0 L d rts
  assume run: "ledger_run sample_env sample_store L d rts" and ok: "messages_trimmed sample_env L"
    and at_: "sample_position L0 d0 L d rts"
  from at_ obtain rt0 rt1 where rts: "rts = [rt0, rt1]" "rt_lastOrdinal rt0 = 2" "rt_lastOrdinal rt1 = 3" "length L = 3"
    by (rule sample_position_runtimes)
  from lagging_runtime_writes_nothing [OF run sample_store_ok ok _ _ refl, of rt0] rts
  have "sa_ops (runtime_append sample_env sample_store (world_of (sample_stamp 4) None) sample_child_input (Inr ()) (rt0, d)) = []"
    by simp
  with run rts show ?thesis by (intro exI [of _ L] exI [of _ d] exI [of _ rts]) simp
qed

text \<open>
  C3: over a log without outer white space in retained messages, a commit that returns has put its event into the log, or
  found it there, and the projection it leaves includes it; at most one event is written whether it returns or fails, and
  what it leaves is again a run.
\<close>

theorem returned_commit_is_durable:
  assumes "ledger_run J S L d rts" and "digests S" and "limits_positive S" and "messages_trimmed J L" and "i < length rts"
    and "commit J S x input admission (rts ! i, d) = (r, (rt, d'))"
  shows "\<exists>M. length M \<le> 1 \<and> ledger_run J S (L @ M) d' (rts[i := rt]) \<and>
    (r = Inr () \<longrightarrow> (\<exists>e \<in> set (L @ M). carries S e input \<and> eh_ordinal e \<le> rt_lastOrdinal rt))"
  using commit_run [OF assms(1) ledger_run_ok [OF assms(1-4)] assms(2,3) disjI1 [OF assms(4)] assms(5,6)] by blast

theorem returned_commit_is_durable_witness:
  "\<exists>L d rts e. ledger_run sample_env sample_store L d rts \<and> e \<in> set L \<and> carries sample_store e sample_child_input \<and>
     eh_ordinal e \<le> rt_lastOrdinal (rts ! 1)"
proof (rule sample_run)
  fix L0 d0 rts0 L d rts
  assume run: "ledger_run sample_env sample_store L d rts" and ok: "messages_trimmed sample_env L"
    and at_: "sample_position L0 d0 L d rts"
  from at_ obtain rt0 rt1 where rts: "rts = [rt0, rt1]" by (rule sample_position_runtimes)
  obtain r rt d' where com: "commit sample_env sample_store (world_of (sample_stamp 4) None) sample_child_input (Inr ()) (rts ! 1, d)
      = (r, (rt, d'))" by (rule prod_cases3)
  from at_ have "succeeds r" unfolding sample_position_def com fst_conv by blast
  then have r: "r = Inr ()" by (cases r) (simp_all add: succeeds_def)
  from returned_commit_is_durable [OF run sample_store_ok ok _ com] rts obtain M e where
    "ledger_run sample_env sample_store (L @ M) d' (rts[1 := rt])" "e \<in> set (L @ M)"
    "carries sample_store e sample_child_input" "eh_ordinal e \<le> rt_lastOrdinal rt" using r by auto
  with rts show ?thesis by (intro exI [of _ "L @ M"] exI [of _ d'] exI [of _ "rts[1 := rt]"] exI [of _ e]) simp
qed

text \<open>
  C15: the operations of the runtime are runs of the ledger's step relation, whatever they decide and wherever they end, over a
  log without outer white space in retained messages. A command that commits through \<open>run_command\<close> writes at most one
  event, and an answer it returns is what it decided on the projection of the whole log, or its view of the projection of
  the log that includes an event with the input it decided on. The recovery of interrupted attempts writes at most one
  event per interrupted attempt, each the expiry of one of them, and answers their names only when all of them are in
  the log. A transaction of host events writes at most one event per commit.
\<close>

theorem commands_refine_ledger:
  assumes "ledger_run J S L d rts" and "digests S" and "limits_positive S" and "messages_trimmed J L" and "i < length rts"
  shows "(run_command J S x decide (rts ! i, d) = (r, (rt, d')) \<longrightarrow>
       (\<exists>M. length M \<le> 1 \<and> ledger_run J S (L @ M) d' (rts[i := rt]) \<and>
          (\<forall>v. r = Inr v \<longrightarrow> command_answers J S decide L M v))) \<and>
     (recoverInterruptedUnboundAttempts J S x xs E shouldRecover isOwnerGone (rts ! i, d) = (ids, (rt, d')) \<longrightarrow>
       (\<exists>M p found. replays J L p \<and>
          found = filter (interrupted shouldRecover isOwnerGone (now_ms E 0)) (js_values (attempts p)) \<and>
          length M \<le> length found \<and> ledger_run J S (L @ M) d' (rts[i := rt]) \<and>
          (\<forall>e \<in> set M. \<exists>a \<in> set found. \<exists>input. interruption_input a = Some input \<and> carries S e input) \<and>
          (\<forall>names. ids = Inr names \<longrightarrow> names = map att_attemptId found \<and>
             (\<forall>a \<in> set found. \<exists>input. interruption_input a = Some input \<and> (\<exists>e \<in> set (L @ M). carries S e input))))) \<and>
     (transactHostEvents J S c locked cs (rts ! i, d) = (u, (rt, d')) \<longrightarrow>
       (\<exists>M. length M \<le> length cs \<and> ledger_run J S (L @ M) d' (rts[i := rt])))"
proof -
  from ledger_run_ok [OF assms(1-4)] obtain p where p: "replays J L p" by (auto simp: run_ok_def)
  show ?thesis
    using run_command_run [OF assms, of x decide r rt d'] transact_run [OF assms, of c locked cs u rt d']
      recover_run [OF assms _ p, of x xs E shouldRecover isOwnerGone ids rt d'] p by blast
qed

text \<open>The lagging runtime registers the child: it refreshes first, and answers from the log that includes the event.\<close>

theorem commands_refine_ledger_witness:
  "\<exists>L d rts M r rt d'. ledger_run sample_env sample_store L d rts \<and> length L = 3 \<and>
     run_command sample_env sample_store (world_of (sample_stamp 4) None)
       (\<lambda>p. Inr (Commit sample_child_input (Inr ()) lastOrdinal)) (rts ! 0, d) = (r, (rt, d')) \<and>
     length M \<le> 1 \<and> ledger_run sample_env sample_store (L @ M) d' (rts[0 := rt]) \<and>
     (\<forall>v. r = Inr v \<longrightarrow> (\<exists>q. replays sample_env (L @ M) q \<and> v = lastOrdinal q))"
proof (rule sample_run)
  fix L0 d0 rts0 L d rts
  assume run: "ledger_run sample_env sample_store L d rts" and ok: "messages_trimmed sample_env L"
    and at_: "sample_position L0 d0 L d rts"
  from at_ obtain rt0 rt1 where rts: "rts = [rt0, rt1]" "length L = 3" by (rule sample_position_runtimes)
  have some: "0 < length rts" by (simp add: rts)
  let ?run = "run_command sample_env sample_store (world_of (sample_stamp 4) None) (\<lambda>p. Inr (Commit sample_child_input (Inr ()) lastOrdinal)) (rts ! 0, d)"
  obtain r rt d' where res: "?run = (r, (rt, d'))" by (rule prod_cases3)
  from mp [OF conjunct1 [OF commands_refine_ledger [OF run sample_store_ok ok some]] res] obtain M where
    "length M \<le> 1" "ledger_run sample_env sample_store (L @ M) d' (rts[0 := rt])"
    "\<forall>v. r = Inr v \<longrightarrow> command_answers sample_env sample_store (\<lambda>p. Inr (Commit sample_child_input (Inr ()) lastOrdinal)) L M v"
    by blast
  moreover have "\<exists>q. replays sample_env (L @ M) q \<and> v = lastOrdinal q"
    if "command_answers sample_env sample_store (\<lambda>p. Inr (Commit sample_child_input (Inr ()) lastOrdinal)) L M v" for M v
    using that by (auto simp: command_answers_def)
  ultimately show ?thesis using run rts(2) res by blast
qed

text \<open>
  C4: in a log whose retained notification messages have no outer white space, the events are numbered from one without a
  gap, each was admitted by the reducer on the projection of exactly the events before it, and what any runtime holds is
  the projection of a prefix of the log.
\<close>

theorem log_is_admitted:
  assumes "ledger_run J S L d rts" and "digests S" and "limits_positive S" and "messages_trimmed J L"
  shows "(\<forall>i < length L. eh_ordinal (L ! i) = i + 1 \<and>
       (\<exists>s s'. replays J (take i L) (fst s) \<and> reduceOrchestrationEvent J s (event_of (L ! i)) = Inr s' \<and>
          replays J (take (i + 1) L) (fst s'))) \<and>
     (\<forall>rt \<in> set rts. rt_lastOrdinal rt \<le> length L \<and> replays J (take (rt_lastOrdinal rt) L) (rt_projection rt))"
proof (intro conjI allI impI ballI)
  from ledger_run_ok [OF assms] obtain q where h: "log_holds J S L d" and q: "replays J L q"
    and rts: "\<forall>rt \<in> set rts. runtime_ok J S L d rt" by (auto simp: run_ok_def)
  show "rt_lastOrdinal rt \<le> length L" "replays J (take (rt_lastOrdinal rt) L) (rt_projection rt)" if "rt \<in> set rts" for rt
    using rts that by (auto simp: runtime_ok_def state_within_def state_of_def)
  fix i
  assume i: "i < length L"
  with log_ok_nth [OF holdsD(1) [OF h]] show "eh_ordinal (L ! i) = i + 1" by simp
  obtain p' where p': "replays J (take (i + 1) L) p'" by (rule replays_take [OF q])
  have split: "take (i + 1) L = take i L @ [L ! i]" using i by (simp add: take_Suc_conv_app_nth)
  from p' obtain c' where "replay J (emptyProjection, None) (take i L @ [L ! i]) = Inr (p', c')"
    unfolding split by (auto simp: replays_def)
  then obtain s where "replay J (emptyProjection, None) (take i L) = Inr s" "reduceOrchestrationEvent J s (event_of (L ! i)) = Inr (p', c')"
    by (auto simp: foldE_append bindE_eq_Inr)
  with p' show "\<exists>s s'. replays J (take i L) (fst s) \<and> reduceOrchestrationEvent J s (event_of (L ! i)) = Inr s' \<and>
      replays J (take (i + 1) L) (fst s')"
    by (intro exI [of _ s] exI [of _ "(p', c')"]) (auto simp: replays_def intro: exI [of _ "snd s"])
qed

theorem log_is_admitted_witness:
  "\<exists>L d rts. ledger_run sample_env sample_store L d rts \<and> length L = 3 \<and>
     (\<exists>s s'. reduceOrchestrationEvent sample_env s (event_of (L ! 2)) = Inr s' \<and> replays sample_env (take 3 L) (fst s'))"
proof (rule sample_run)
  fix L0 d0 rts0 L d rts
  assume run: "ledger_run sample_env sample_store L d rts" and ok: "messages_trimmed sample_env L"
    and at_: "sample_position L0 d0 L d rts"
  from at_ have len: "length L = 3" unfolding sample_position_def by blast
  then have two: "2 < length L" by simp
  from conjunct1 [OF log_is_admitted [OF run sample_store_ok ok], rule_format, OF two] obtain s s' where
    "reduceOrchestrationEvent sample_env s (event_of (L ! 2)) = Inr s'" "replays sample_env (take (2 + 1) L) (fst s')" by blast
  moreover have "(2 :: nat) + 1 = 3" by simp
  ultimately have "\<exists>s s'. reduceOrchestrationEvent sample_env s (event_of (L ! 2)) = Inr s' \<and> replays sample_env (take 3 L) (fst s')"
    by metis
  with run len show ?thesis by blast
qed

section \<open>The cached index\<close>

text \<open>
  C16: over a log without outer white space in retained messages, extending the index a runtime has cached, through any
  appends and compactions of other runtimes since, answers what a scan of the whole directory answers, in the index and in the error.
\<close>

theorem cached_index_is_scan:
  assumes "ledger_run J S L d rts" and "digests S" and "limits_positive S" and "messages_trimmed J L" and "rt \<in> set rts"
  shows "fst (synchronizeIndexes S d (rt_indexes rt)) = (fst (synchronizeIndexes S d None) :: 'e store_error + SynchronizedIndexes)"
proof -
  from ledger_run_ok [OF assms(1-4)] assms(5) have h: "log_holds J S L d" and cached: "cached_ok S L d (rt_indexes rt)"
    by (auto simp: run_ok_def runtime_ok_def)
  show ?thesis
  proof (cases "listable d")
    case True
    show ?thesis by (simp add: synchronize_log [OF h True cached] synchronize_log [OF h True cached_ok_None])
  next
    case False
    then show ?thesis by (simp add: synchronize_unlistable)
  qed
qed

theorem cached_index_is_scan_witness:
  "\<exists>L d rts. ledger_run sample_env sample_store L d rts \<and> rt_indexes (rts ! 0) \<noteq> None \<and> rt_indexes (rts ! 0) \<noteq> rt_indexes (rts ! 1) \<and>
     fst (synchronizeIndexes sample_store d (rt_indexes (rts ! 0))) =
       (fst (synchronizeIndexes sample_store d None) :: unit store_error + SynchronizedIndexes)"
proof (rule sample_run)
  fix L0 d0 rts0 L d rts
  assume run: "ledger_run sample_env sample_store L d rts" and ok: "messages_trimmed sample_env L"
    and at_: "sample_position L0 d0 L d rts"
  from at_ obtain rt0 rt1 where rts: "rts = [rt0, rt1]" "rt_indexes rt0 \<noteq> None" by (rule sample_position_runtimes)
  from at_ have "rt_indexes (rts ! 0) \<noteq> rt_indexes (rts ! 1)" unfolding sample_position_def by blast
  with cached_index_is_scan [OF run sample_store_ok ok, of rt0] run rts
  show ?thesis by (intro exI [of _ L] exI [of _ d] exI [of _ rts]) simp
qed

end
