(* ===== verification/Handler_Effects.thy ===== *)
theory Handler_Effects
  imports Ledger
begin

text \<open>
  What the longer handlers of the reducer leave in the maps they do not write, and the status they leave in the record
  they do.
\<close>

lemma releaseAttemptAgent_fields:
  "releaseAttemptAgent J a now d = Inr d' \<Longrightarrow> approvals d' = approvals d \<and> attempts d' = attempts d \<and> objectives d' = objectives d"
  by (auto simp: releaseAttemptAgent_def split: option.split_asm if_split_asm dest!: put_agent_fields)

lemma cancellation_fields:
  assumes "apply_attempt_cancelled J event k c r d = Inr d'"
  obtains att where "map_of (attempts d') k = Some att" and "att_status att = AttCancelled" and "approvals d' = approvals d"
proof -
  let ?b = "\<lambda>a. withoutAttemptRetry (a\<lparr>att_status := AttCancelled, att_reasonCode := Some c,
                  att_reasonDetail := (case r of Some r \<Rightarrow> Some r | None \<Rightarrow> att_reasonDetail a),
                  att_updatedAt := eh_occurredAt event\<rparr>)"
  from assms obtain a d1 d2 where p: "put_attempt J k (?b a) d = Inr d1"
    and t: "(case map_of (tasks d1) (att_taskId a) of None \<Rightarrow> Inr d1
             | Some task \<Rightarrow> put_task J (att_taskId a) (with_task_status TaskCancelled (eh_occurredAt event) task) d1) = Inr d2"
    and q: "releaseAttemptAgent J a (eh_occurredAt event) d2 = Inr d'"
    unfolding apply_attempt_cancelled_def Let_def bindE_eq_Inr require_eq_Inr lookup_attempt_def lookupE_eq_Inr
    by (elim exE conjE) (erule that, assumption+)
  from t have "approvals d2 = approvals d1 \<and> attempts d2 = attempts d1" by (auto split: option.split_asm dest!: put_task_fields)
  with put_attempt_fields [OF p] releaseAttemptAgent_fields [OF q] show thesis
    by (intro that [of "?b a"]) (auto simp: withoutAttemptRetry_def)
qed

lemma refreshReadyTasks_objectives: "refreshReadyTasks J k now d = Inr d' \<Longrightarrow> objectives d' = objectives d"
  by (auto simp: refreshReadyTasks_def refresh_task_def split: option.split_asm if_split_asm
      elim!: foldE_invariant dest!: put_task_fields)

lemma cancel_open_attempt_objectives: "cancel_open_attempt J now c d k = Inr d' \<Longrightarrow> objectives d' = objectives d"
  by (auto simp: cancel_open_attempt_def split: option.split_asm if_split_asm dest!: put_attempt_fields releaseAttemptAgent_fields)

lemma cancel_open_task_objectives:
  assumes "cancel_open_task J now c d k = Inr d'"
  shows "objectives d' = objectives d"
proof (cases "map_of (tasks d) k")
  case (Some t)
  with assms obtain d1 where "objectives d1 = objectives d" and run: "foldE (cancel_open_attempt J now c) d1 (ts_attemptIds t) = Inr d'"
    by (auto simp: cancel_open_task_def split: if_split_asm dest!: put_task_fields)
  from run this(1) show ?thesis
    by (rule foldE_invariant [where P = "\<lambda>d'. objectives d' = objectives d"]) (use cancel_open_attempt_objectives in metis)
qed (use assms in \<open>simp add: cancel_open_task_def\<close>)

lemma cancelOpenObjectiveWork_objectives:
  assumes "cancelOpenObjectiveWork J k now c d = Inr d'"
  shows "objectives d' = objectives d"
proof (cases "map_of (objectives d) k")
  case (Some os)
  with assms have run: "foldE (cancel_open_task J now c) d (os_taskIds os) = Inr d'" by (simp add: cancelOpenObjectiveWork_def)
  then show ?thesis
    by (rule foldE_invariant [where P = "\<lambda>d'. objectives d' = objectives d"]) (use cancel_open_task_objectives in metis)+
qed (use assms in \<open>simp add: cancelOpenObjectiveWork_def\<close>)

lemma block_rejected_approvals: "block_rejected_attempt J now a d = Inr d' \<Longrightarrow> approvals d' = approvals d"
  by (auto simp: block_rejected_attempt_def split: option.split_asm if_split_asm dest!: put_attempt_fields put_task_fields)

lemma resolved_status:
  assumes "apply_approval_resolved J header resolution d = Inr d'"
  shows "\<exists>ap. map_of (approvals d') (ars_approvalId resolution) = Some ap \<and> as_status ap = ApprovalResolved (ars_outcome resolution)"
proof -
  from assms obtain ap d1 d2 where
    p: "put_approval J (ars_approvalId resolution)
      (ap\<lparr>as_status := ApprovalResolved (ars_outcome resolution), as_resolution := Some resolution\<rparr>) d = Inr d1"
    and told: "(case map_of (notifications d1) (approval_notification_id (ars_approvalId resolution)) of None \<Rightarrow> Inr d1
       | Some note \<Rightarrow> if note_status note = NotePending
           then put_notification J (note_notificationId note) (note\<lparr>note_status := NoteDelivered, note_deliveredAt := Some (eh_occurredAt header)\<rparr>) d1
           else Inr d1) = Inr d2"
    and block: "(if ars_outcome resolution = Rejected
      then block_rejected_attempt J (eh_occurredAt header) (apr_attemptId (as_request ap)) d2 else Inr d2) = Inr d'"
    unfolding apply_approval_resolved_def Let_def bindE_eq_Inr by (elim exE conjE) (erule that, assumption+)
  from told have "approvals d2 = approvals d1" by (auto split: option.split_asm if_split_asm dest!: put_notification_fields)
  moreover from block have "approvals d' = approvals d2" by (auto split: if_split_asm dest: block_rejected_approvals)
  ultimately show ?thesis using put_approval_fields [OF p] by simp
qed

lemma retired_status:
  assumes "apply_agent_retired J header k d = Inr d'"
  shows "\<exists>agent. map_of (agents d') k = Some agent \<and> agent_status agent = AgentRetired"
proof -
  from assms obtain agent where at: "assertAgentRetirementEligible d k = Inr agent"
    and put: "(if agent_status agent = AgentRetired then Inr d
      else put_agent J k (agent\<lparr>agent_status := AgentRetired, agent_updatedAt := eh_occurredAt header\<rparr>) d) = Inr d'"
    by (auto simp: apply_agent_retired_def)
  from at have "map_of (agents d) k = Some agent"
    by (auto simp: assertAgentRetirementEligible_def lookup_defs split: if_split_asm option.split_asm)
  with put show ?thesis by (auto split: if_split_asm dest!: put_agent_fields)
qed

end
