(* ===== verification/Stuck_Store.thy ===== *)
theory Stuck_Store
  imports Sample_Store Handler_Effects
begin

text \<open>
  Logs the reducer accepts and the snapshot validator refuses: once such a projection has been published and
  the events behind it are pruned, no process can open the store.
\<close>

section \<open>A pending approval of an attempt that is not queued\<close>

lemma awaiting_refused:
  assumes "map_of (approvals p) y = Some ap" and "as_status ap = ApprovalPending" and "apr_attemptId (as_request ap) = Some a" and "a \<noteq> []"
    and "map_of (attempts p) a = Some att" and "att_status att \<noteq> AttQueued"
  shows "projectionFromSnapshot J p n \<noteq> Inr s"
proof
  assume "projectionFromSnapshot J p n = Inr s"
  then obtain ns where "validateSnapshotTaskGraph J (p\<lparr>notifications := ns\<rparr>) = Inr ()"
    by (auto simp: projectionFromSnapshot_def Let_def)
  then have "forE (snapshot_approval (p\<lparr>notifications := ns\<rparr>)) (approvals p) = Inr ()"
    by (auto simp: validateSnapshotTaskGraph_def)
  moreover have "(y, ap) \<in> set (approvals p)" by (rule map_of_SomeD [OF assms(1)])
  ultimately have "snapshot_approval (p\<lparr>notifications := ns\<rparr>) (y, ap) = Inr ()" by (auto simp: forE_eq_Inr)
  with assms(2-6) show False by (auto simp: snapshot_approval_def Let_def truthy_def sound_def)
qed

lemma cancellation_keeps_approval:
  assumes "reduceOrchestrationEvent J (p, c) e = Inr (q, c')" and "lastOrdinal p < eh_ordinal e"
    and "ev_payload e = AttemptPayload (AttemptCancelledEvent a reason detail)"
  obtains att where "map_of (attempts q) a = Some att" and "att_status att = AttCancelled" and "approvals q = approvals p"
  using assms(1)
proof (cases rule: reduce_cases)
  case (old bytes)
  with assms(2) show ?thesis by simp
next
  case (new bytes d b)
  from new(4) assms(3) have "apply_attempt_cancelled J (EventHeader.truncate e) a reason detail (draft_of p bytes) = Inr d" by simp
  with new(6) show ?thesis by (elim cancellation_fields) (auto intro: that)
qed

text \<open>A store compacted to its last event is opened from the snapshot alone.\<close>

lemma compacted_read:
  assumes h: "log_holds J S L d" and base: "base_of d = length L" and "L \<noteq> []" and q: "replays J L q"
    and refused: "\<And>n t. projectionFromSnapshot J q n \<noteq> Inr t"
  shows "readTaskRuntimeProjection J S (\<lambda>_. d) None \<noteq> Inr s"
proof
  assume "readTaskRuntimeProjection J S (\<lambda>_. d) None = Inr s"
  then obtain t where t: "read_from_store J S (\<lambda>_. d) = Inr t" by (auto simp: readTaskRuntimeProjection_def)
  from base assms(3) snapshot_at_read(3) [OF h] obtain sn where sn: "snapshot_at d = Some sn" by (cases "snapshot_at d") auto
  from snapshot_at_read(1) [OF h, where 'e = admission_error] sn t have "from_snapshot J sn = Inr t"
    by (simp add: read_from_store_def)
  moreover have "sn_projection sn = q"
    using snapshot_at_read(4) [OF h sn] base replays_unique [OF q] by auto
  ultimately show False using refused by (auto simp: from_snapshot_def)
qed


section \<open>Two such runs\<close>

definition plain_input :: "string \<Rightarrow> OrchestrationPayload \<Rightarrow> AppendOrchestrationEventInput" where
  "plain_input aggregate payload = (sample_input aggregate payload)\<lparr>in_idempotencyKey := None\<rparr>"

definition sample_approval :: ApprovalRequestContract where
  "sample_approval = \<lparr>apr_approvalId = ''y'', apr_schemaVersion = 1, apr_objectiveId = ''o'', apr_taskId = Some ''t'',
     apr_attemptId = Some ''a'', apr_reasonCode = ''r'', apr_summary = ''S'', apr_requestedCapabilities = [FilesystemWrite],
     apr_requestedBudget = None, apr_reversible = True, apr_createdAt = At 4\<rparr>"

text \<open>A queued attempt waits for the owner's approval and is cancelled before the owner answers.\<close>

definition waiting_steps :: "run_step list" where
  "waiting_steps =
     [Open, Append 0 (sample_stamp 1) None sample_objective_input,
      Append 0 (sample_stamp 2) None sample_task_input,
      Append 0 (sample_stamp 3) None (plain_input ''t'' (AttemptPayload (AttemptQueuedEvent (sample_queued ''a'')))),
      Append 0 (sample_stamp 4) None (plain_input ''a'' (ApprovalPayload (ApprovalRequested sample_approval)))]"

definition cancelled_steps :: "run_step list" where
  "cancelled_steps =
     [Append 0 (sample_stamp 5) None (plain_input ''a'' (AttemptPayload (AttemptCancelledEvent ''a'' ''operator'' None))),
      Compact 0 (maintained None)]"

text \<open>The owner drops the criterion that evidence already retained names.\<close>

definition updated_steps :: "run_step list" where
  "updated_steps =
     [Open, Append 0 (sample_stamp 1) None sample_objective_input,
      Append 0 (sample_stamp 2) None (plain_input ''o'' (ObjectivePayload (ObjectiveEvidenceRecorded sample_evidence))),
      Append 0 (sample_stamp 3) None (plain_input ''o'' (ObjectivePayload (ObjectiveUpdated
        (sample_objective\<lparr>obj_acceptanceCriteria := [], obj_updatedAt := At 3\<rparr>)))),
      Compact 0 (maintained None)]"

definition refused_with :: "snapshot_fault \<Rightarrow> string \<Rightarrow> nat \<Rightarrow> files \<Rightarrow> DurableTaskRuntime list \<Rightarrow> bool" where
  "refused_with fault k n d rts \<longleftrightarrow>
     map rt_lastOrdinal rts = [n] \<and> base_of d = n \<and> sf_events d = [] \<and>
     (case readTaskRuntimeProjection sample_env sample_store (\<lambda>_. d) None of
        Inl (SnapshotRefused (SnapshotFault f j)) \<Rightarrow> f = fault \<and> j = k | _ \<Rightarrow> False)"

definition cancelled_while_waiting ::
  "StoredEvent list \<Rightarrow> files \<Rightarrow> StoredEvent list \<Rightarrow> files \<Rightarrow> DurableTaskRuntime list \<Rightarrow> bool" where
  "cancelled_while_waiting L0 d0 L d rts \<longleftrightarrow>
     length L0 = 4 \<and> length L = 5 \<and> base_of d = 5 \<and> map rt_lastOrdinal rts = [5] \<and>
     ev_payload (last L) = AttemptPayload (AttemptCancelledEvent ''a'' ''operator'' None) \<and>
     each_prefix sample_env trimmed_messages 0 (emptyProjection, None) L \<and>
     (case replay sample_env (emptyProjection, None) L0 of Inl _ \<Rightarrow> False
      | Inr (p, c) \<Rightarrow> (case map_of (approvals p) ''y'' of None \<Rightarrow> False
         | Some ap \<Rightarrow> as_status ap = ApprovalPending \<and> apr_attemptId (as_request ap) = Some ''a''))"

lemma stuck_played:
  "played waiting_steps cancelled_steps cancelled_while_waiting \<and>
   played updated_steps [] (\<lambda>_ _ L d rts. length L = 3 \<and> refused_with (RecordFault EvidenceCriterionGone) ''o'' 3 d rts)"
  by code_simp

lemma refused_withE:
  assumes "refused_with fault k n d rts"
  shows "map rt_lastOrdinal rts = [n]" and "base_of d = n" and "sf_events d = []"
    and "readTaskRuntimeProjection sample_env sample_store (\<lambda>_. d) None = Inl (SnapshotRefused (SnapshotFault fault k))"
  using assms
  by (auto simp: refused_with_def split: sum.splits runtime_error.splits snapshot_error.splits)


text \<open>
  A second way to such a store: the owner drops a criterion that retained evidence names: the reducer asks only whether a task still
  references it.
\<close>

theorem dropped_criterion_blocks_reopening:
  "\<exists>L d rts. ledger_run sample_env sample_store L d rts \<and> length L = 3 \<and> map rt_lastOrdinal rts = [3] \<and> base_of d = 3 \<and>
     readTaskRuntimeProjection sample_env sample_store (\<lambda>_. d) None =
       Inl (SnapshotRefused (SnapshotFault (RecordFault EvidenceCriterionGone) ''o''))"
proof (rule playedE [OF conjunct2 [OF stuck_played]], elim conjE)
  fix L d rts
  assume "ledger_run sample_env sample_store L d rts" "length L = 3" "refused_with (RecordFault EvidenceCriterionGone) ''o'' 3 d rts"
  with refused_withE [OF this(3)] show ?thesis by (intro exI [of _ L] exI [of _ d] exI [of _ rts] conjI) assumption+
qed

end
