(* ===== verification/Owner_Commands.thy ===== *)
theory Owner_Commands
  imports Runtime_Commands Policy_Compiler
begin

text \<open>
  The commands of the durable task runtime that create and close work (\<open>core/orchestration/task-runtime.ts\<close>):
  agents, objectives, tasks, approvals, notifications, and the preflight checks of the room that is left. They are
  decisions on the refreshed projection like those of \<open>Runtime_Commands\<close>; a command that refreshes twice is an
  operation on the runtime and the files. An absent list is empty and an absent budget has no field.
\<close>

section \<open>Room\<close>

definition requestedProjectionSlots :: "jsnum option \<Rightarrow> runtime_error + jsnum" where
  "requestedProjectionSlots value =
     (let slots = (case value of None \<Rightarrow> Fin 0 | Some n \<Rightarrow> n) in
      bindE (valid (js_is_safe_integer slots \<and> \<not> js_lt slots (Fin 0))
               ''Projection slots must be a non-negative safe integer.'') (\<lambda>_. Inr slots))"

record headroom_request =
  hr_fields :: "ProjectionRecordField \<Rightarrow> jsnum option"
  hr_evidence :: "jsnum option"

definition slots_fit :: "int \<Rightarrow> orch_error \<Rightarrow> jsnum \<Rightarrow> runtime_error + unit" where
  "slots_fit headroom e slots = refused (require (\<not> js_lt (js_int headroom) slots) e)"

definition check_field :: "headroom_request \<Rightarrow> (ProjectionRecordField \<Rightarrow> int) \<Rightarrow> ProjectionRecordField \<Rightarrow> runtime_error + unit" where
  "check_field required headroom f =
     bindE (requestedProjectionSlots (hr_fields required f)) (slots_fit (headroom f) (LimitError (RecordLimitReached f)))"

definition HOST_EVENT_RECORD_FIELDS :: "ProjectionRecordField list" where
  "HOST_EVENT_RECORD_FIELDS = [FieldEventSources, FieldHostEvents, FieldThreadSubscriptions, FieldEventDeliveries]"

text \<open>The amounts are read in one order and compared in another; the first failure is the one thrown.\<close>

definition assertProjectionHeadroom ::
  "headroom_request \<Rightarrow> (OrchestrationProjectionSlotCounts \<times> OrchestrationProjectionSlotCounts \<times>
     (ProjectionRecordField \<Rightarrow> int) \<times> int) decision" where
  "assertProjectionHeadroom required p =
     bindE (refused (projectionCapacity p)) (\<lambda>(counts, limits, headroom, evidenceHeadroom).
     bindE (forE (check_field required headroom) HOST_EVENT_RECORD_FIELDS) (\<lambda>_.
     bindE (forE (\<lambda>f. bindE (requestedProjectionSlots (hr_fields required f)) (\<lambda>_. Inr ()))
              [FieldAgents, FieldObjectives, FieldTasks, FieldAttempts, FieldCheckpoints, FieldApprovals, FieldNotifications]) (\<lambda>_.
     bindE (requestedProjectionSlots (hr_evidence required)) (\<lambda>evidence.
     bindE (forE (check_field required headroom)
              [FieldAgents, FieldTasks, FieldAttempts, FieldObjectives, FieldCheckpoints, FieldApprovals, FieldNotifications]) (\<lambda>_.
     bindE (slots_fit evidenceHeadroom (LimitError EvidenceLimit) evidence) (\<lambda>_.
     Inr (Answer (counts, limits, headroom, evidenceHeadroom))))))))"

definition getProjectionCapacity ::
  "(OrchestrationProjectionSlotCounts \<times> OrchestrationProjectionSlotCounts \<times>
     (ProjectionRecordField \<Rightarrow> int) \<times> int) decision" where
  "getProjectionCapacity p = bindE (refused (projectionCapacity p)) (\<lambda>capacity. Inr (Answer capacity))"

definition assertObjectiveEvidenceHeadroom :: "string \<Rightarrow> string list \<Rightarrow> nat decision" where
  "assertObjectiveEvidenceHeadroom objectiveId evidenceIds p =
     bindE (refused (assertBoundedIdentifierList evidenceIds MAX_ORCHESTRATION_OBJECTIVE_EVIDENCE)) (\<lambda>_.
     let evidence = (case map_of (objectives p) objectiveId of Some objective \<Rightarrow> os_evidence objective | None \<Rightarrow> []);
         required = length (filter (\<lambda>k. k \<notin> set (map ev_evidenceId evidence)) evidenceIds) in
     bindE (refused (require (length evidence + required \<le> MAX_ORCHESTRATION_OBJECTIVE_EVIDENCE)
              (LimitError ObjectiveEvidenceLimit))) (\<lambda>_.
     bindE (refused (projectionCapacity p)) (\<lambda>(counts, limits, headroom, evidenceHeadroom).
     bindE (slots_fit evidenceHeadroom (LimitError EvidenceLimit) (js_int (int required))) (\<lambda>_.
     Inr (Answer required)))))"

section \<open>Agents\<close>

record RegisterAgentInput =
  ra_agentId :: "string option"
  ra_contextOrigin :: "AgentContextOrigin option"
  ra_parentAgentId :: "string option"
  ra_role :: WorkerRole
  ra_resumeContext :: AgentResumeContext

definition resume_context_valid :: "AgentResumeContext \<Rightarrow> bool" where
  "resume_context_valid context \<longleftrightarrow>
     js_trim (rc_sessionId context) \<noteq> [] \<and> js_trim (rc_cwd context) \<noteq> [] \<and>
     list_all (\<lambda>name. js_trim name \<noteq> []) (rc_resourceProfileNames context) \<and>
     list_all (\<lambda>pointer. js_trim (rp_id pointer) \<noteq> [] \<and> js_trim (rp_uri pointer) \<noteq> []) (rc_contextPointers context)"

definition createAgentIdentity :: "string \<Rightarrow> AgentResumeContext \<Rightarrow> runtime_error + (string \<times> AgentResumeContext)" where
  "createAgentIdentity agentId resumeContext =
     (let normalized = js_trim agentId in
      bindE (valid (normalized \<noteq> []) ''A logical agent id is required.'') (\<lambda>_.
      bindE (valid (js_trim (rc_sessionId resumeContext) \<noteq> []) ''An agent session id is required.'') (\<lambda>_.
      bindE (valid (js_trim (rc_cwd resumeContext) \<noteq> []) ''An agent working directory is required.'') (\<lambda>_.
      bindE (valid (resume_context_valid resumeContext) ''Agent resume context is invalid.'') (\<lambda>_.
      Inr (normalized, resumeContext))))))"

definition registered_parent :: "TaskRuntimeProjection \<Rightarrow> string option \<Rightarrow> runtime_error + AgentBindingContract option" where
  "registered_parent p parentAgentId =
     (if \<not> truthy parentAgentId then Inr None
      else
        bindE (refused (lookupE (agents p) (the parentAgentId) (AgentError (ParentAgentUnknown (the parentAgentId))))) (\<lambda>parent.
        bindE (refused (require (agent_status parent \<noteq> AgentRetired)
                 (AgentError (ParentAgentRetired (the parentAgentId))))) (\<lambda>_.
        Inr (Some parent))))"

definition registerAgent :: "command_env \<Rightarrow> RegisterAgentInput \<Rightarrow> AgentBindingContract decision" where
  "registerAgent E input p =
     bindE (nowIso E 0) (\<lambda>now.
     bindE (createAgentIdentity (case ra_agentId input of Some k \<Rightarrow> k | None \<Rightarrow> ''agent-'' @ ce_id E)
              (ra_resumeContext input)) (\<lambda>(agentId, context).
     bindE (registered_parent p (map_option js_trim (ra_parentAgentId input))) (\<lambda>parent.
     let depth = (case parent of Some g \<Rightarrow> agent_depth g + 1 | None \<Rightarrow> 0) in
     bindE (valid (int depth \<le> MAX_SAFE_INTEGER) ''Agent lineage depth exceeds the durable numeric range.'') (\<lambda>_.
     let agent = \<lparr>agent_agentId = agentId, agent_resumeContext = context,
           agent_schemaVersion = ORCHESTRATION_SCHEMA_VERSION, agent_contextOrigin = ra_contextOrigin input,
           agent_parentAgentId = map_option agent_agentId parent,
           agent_rootAgentId = (case parent of Some g \<Rightarrow> agent_rootAgentId g | None \<Rightarrow> agentId),
           agent_depth = depth, agent_role = ra_role input, agent_status = AgentRegistered,
           agent_activeAttemptId = None, agent_createdAt = now, agent_updatedAt = now\<rparr> in
     bindE (refused (require (map_of (agents p) agentId = None) (AgentError (AgentRegisteredTwice agentId)))) (\<lambda>_.
     bindE (refused (assertRecordHasCapacity FieldAgents (agents p) MAX_ORCHESTRATION_AGENT_BINDINGS)) (\<lambda>_.
     commit_plan
       (keyed_input agentId ActorRuntime (Some (''agent-registered:'' @ agentId))
          (AgentPayload (AgentRegisteredEvent agent)))
       (\<lambda>_. agent)))))))"

definition retireAgent :: "string \<Rightarrow> AgentBindingContract decision" where
  "retireAgent agentId p =
     bindE (refused (dispatchIdentifier (js_trim agentId))) (\<lambda>normalized.
     bindE (refused (assertAgentRetirementEligible p normalized)) (\<lambda>agent.
     if agent_status agent = AgentRetired then Inr (Answer agent)
     else commit_plan
       (keyed_input normalized ActorRuntime (Some (''agent-retired:'' @ normalized))
          (AgentPayload (AgentRetiredEvent normalized)))
       (agent_of normalized)))"

section \<open>Objectives\<close>

record CreateObjectiveInput =
  io_objectiveId :: "string option"
  io_title :: string
  io_description :: string
  io_constraints :: "string list"
  io_acceptanceCriteria :: "AcceptanceCriterion list"
  io_riskBudget :: RiskBudget

definition assertRiskBudget :: "RiskBudget \<Rightarrow> runtime_error + unit" where
  "assertRiskBudget budget = valid (budget_sound budget) ''The risk budget is invalid.''"

definition objective_of :: "string \<Rightarrow> TaskRuntimeProjection \<Rightarrow> ObjectiveRuntimeState" where
  "objective_of k p = the (map_of (objectives p) k)"

definition createObjective :: "command_env \<Rightarrow> CreateObjectiveInput \<Rightarrow> ObjectiveContract decision" where
  "createObjective E input p =
     bindE (assertRiskBudget (io_riskBudget input)) (\<lambda>_.
     bindE (nowIso E 0) (\<lambda>now.
     let objectiveId = (case io_objectiveId input of Some k \<Rightarrow> k | None \<Rightarrow> ''objective-'' @ ce_id E);
         objective = \<lparr>obj_objectiveId = objectiveId, obj_schemaVersion = ORCHESTRATION_SCHEMA_VERSION,
           obj_title = js_trim (io_title input), obj_description = js_trim (io_description input),
           obj_status = ObjActive, obj_constraints = io_constraints input,
           obj_acceptanceCriteria = io_acceptanceCriteria input, obj_riskBudget = io_riskBudget input,
           obj_createdAt = now, obj_updatedAt = now\<rparr> in
     bindE (valid (obj_title objective \<noteq> [] \<and> obj_description objective \<noteq> [])
              ''Objective title and description are required.'') (\<lambda>_.
     bindE (valid (assertAcceptanceCriteria (obj_acceptanceCriteria objective))
              ''Objective acceptance criteria require unique ids and descriptions.'') (\<lambda>_.
     bindE (refused (require (map_of (objectives p) objectiveId = None)
              (ObjectiveError (ObjectiveCreatedTwice objectiveId)))) (\<lambda>_.
     bindE (refused (assertRecordHasCapacity FieldObjectives (objectives p) MAX_ORCHESTRATION_OBJECTIVES)) (\<lambda>_.
     commit_plan
       (keyed_input objectiveId ActorKernel (Some (''objective-created:'' @ objectiveId))
          (ObjectivePayload (ObjectiveCreated objective)))
       (\<lambda>_. objective)))))))"

definition same_objective_fields :: "ObjectiveContract \<Rightarrow> ObjectiveContract \<Rightarrow> bool" where
  "same_objective_fields a b \<longleftrightarrow>
     obj_title a = obj_title b \<and> obj_description a = obj_description b \<and> obj_constraints a = obj_constraints b \<and>
     obj_acceptanceCriteria a = obj_acceptanceCriteria b \<and> obj_riskBudget a = obj_riskBudget b"

text \<open>The synchronization of an objective that exists; only this event carries no idempotency key.\<close>

definition updateObjective ::
  "command_env \<Rightarrow> ObjectiveRuntimeState \<Rightarrow> CreateObjectiveInput \<Rightarrow> ObjectiveContract decision" where
  "updateObjective E current input p =
     bindE (assertRiskBudget (io_riskBudget input)) (\<lambda>_.
     bindE (valid (assertAcceptanceCriteria (io_acceptanceCriteria input))
              ''Objective acceptance criteria require unique ids and descriptions.'') (\<lambda>_.
     let next = (os_objective current)\<lparr>obj_title := js_trim (io_title input),
           obj_description := js_trim (io_description input), obj_constraints := io_constraints input,
           obj_acceptanceCriteria := io_acceptanceCriteria input, obj_riskBudget := io_riskBudget input\<rparr> in
     bindE (valid (obj_title next \<noteq> [] \<and> obj_description next \<noteq> [])
              ''Objective title and description are required.'') (\<lambda>_.
     if same_objective_fields (os_objective current) next then Inr (Answer (os_objective current))
     else
       bindE (refused (assertReferencedAcceptanceCriteriaRetained (tasks p) current (io_acceptanceCriteria input))) (\<lambda>_.
       bindE (nowIso E 0) (\<lambda>now.
       let objective = next\<lparr>obj_updatedAt := now\<rparr> in
       commit_plan
         (keyed_input (obj_objectiveId objective) ActorKernel None (ObjectivePayload (ObjectiveUpdated objective)))
         (\<lambda>_. objective))))))"

text \<open>What a command does after its refresh.\<close>

definition decided ::
  "json_env \<Rightarrow> store \<Rightarrow> externals \<Rightarrow> 'r decision \<Rightarrow> runtime_world \<Rightarrow> (runtime_error + 'r) \<times> runtime_world" where
  "decided J S x decide w =
     (case decide (rt_projection (fst w)) of
        Inl e \<Rightarrow> (Inl e, w)
      | Inr (Answer r) \<Rightarrow> (Inr r, w)
      | Inr (Commit input admission answer) \<Rightarrow>
          then_run (commit J S x input admission w) (\<lambda>_ w2. (Inr (answer (rt_projection (fst w2))), w2)))"

lemma run_command_decided:
  "run_command J S x decide w = then_run (refresh J S (x_compaction x 0) w) (\<lambda>_. decided J S x decide)"
  unfolding run_command_def by (intro arg_cong2 [where f = then_run] refl ext) (simp add: decided_def)

definition ensureObjective ::
  "json_env \<Rightarrow> store \<Rightarrow> externals \<Rightarrow> externals \<Rightarrow> command_env \<Rightarrow> string \<Rightarrow> CreateObjectiveInput \<Rightarrow> runtime_world \<Rightarrow>
   (runtime_error + ObjectiveContract) \<times> runtime_world" where
  "ensureObjective J S x x' E objectiveId input w =
     then_run (refresh J S (x_compaction x 0) w) (\<lambda>_ w1.
       case map_of (objectives (rt_projection (fst w1))) objectiveId of
         None \<Rightarrow> run_command J S x' (createObjective E (input\<lparr>io_objectiveId := Some objectiveId\<rparr>)) w1
       | Some current \<Rightarrow> decided J S x (updateObjective E current input) w1)"

fun timestamp_blank :: "timestamp \<Rightarrow> bool" where
  "timestamp_blank (At ms) = False"
| "timestamp_blank (Unparsable s) = (js_trim s = [])"

definition recordObjectiveEvidence :: "string \<Rightarrow> EvidenceContract \<Rightarrow> EvidenceContract decision" where
  "recordObjectiveEvidence objectiveId evidence p =
     bindE (requireObjective p objectiveId) (\<lambda>objective.
     case List.find (\<lambda>c. ev_evidenceId c = ev_evidenceId evidence) (os_evidence objective) of
       Some existing \<Rightarrow>
         bindE (refused (require (evidence_deep_equal existing evidence)
                  (ObjectiveError (EvidenceConflict (ev_evidenceId evidence))))) (\<lambda>_. Inr (Answer existing))
     | None \<Rightarrow>
         bindE (valid (js_trim (ev_evidenceId evidence) \<noteq> [] \<and> js_trim (ev_summary evidence) \<noteq> [] \<and>
                       \<not> timestamp_blank (ev_createdAt evidence))
                  ''Objective evidence requires an id, summary, and creation time.'') (\<lambda>_.
         bindE (refused (require (evidence_criterion_known (os_objective objective) evidence)
                  (ObjectiveError (EvidenceCriterionUnknown (the (ev_criterionId evidence)))))) (\<lambda>_.
         bindE (refused (assertObjectiveEvidenceHasCapacity (objectives p) objective)) (\<lambda>_.
         commit_plan
           (keyed_input objectiveId ActorKernel
              (Some (''objective-evidence-recorded:'' @ objectiveId @ '':'' @ ev_evidenceId evidence))
              (ObjectivePayload (ObjectiveEvidenceRecorded evidence)))
           (\<lambda>_. evidence)))))"

datatype objective_transition =
  PauseObjective | ResumeObjective | CancelObjective | CompleteObjective ObjectiveCompletionPolicy

fun transition_target :: "objective_transition \<Rightarrow> ObjectiveStatus" where
  "transition_target PauseObjective = ObjPaused"
| "transition_target ResumeObjective = ObjActive"
| "transition_target CancelObjective = ObjCancelled"
| "transition_target (CompleteObjective _) = ObjCompleted"

fun transition_event :: "objective_transition \<Rightarrow> ObjectiveEvent" where
  "transition_event PauseObjective = ObjectivePausedEvent"
| "transition_event ResumeObjective = ObjectiveResumedEvent"
| "transition_event CancelObjective = ObjectiveCancelledEvent"
| "transition_event (CompleteObjective completion) = ObjectiveCompletedEvent completion"

fun transition_name :: "objective_transition \<Rightarrow> string" where
  "transition_name PauseObjective = ''objective.paused''"
| "transition_name ResumeObjective = ''objective.resumed''"
| "transition_name CancelObjective = ''objective.cancelled''"
| "transition_name (CompleteObjective _) = ''objective.completed''"

fun transition_policy :: "objective_transition \<Rightarrow> ObjectiveCompletionPolicy option" where
  "transition_policy (CompleteObjective completion) = Some completion"
| "transition_policy _ = None"

definition transitionObjective :: "string \<Rightarrow> objective_transition \<Rightarrow> OrchestrationActorKind \<Rightarrow> unit decision" where
  "transitionObjective objectiveId transition actor p =
     bindE (requireObjective p objectiveId) (\<lambda>objective.
     bindE (valid (transition = CompleteObjective PolicyTaskEvidence \<longrightarrow>
                   filter (taskAwaitsVerification p) (os_taskIds objective) = [])
              ''The objective awaits task verification.'') (\<lambda>_.
     if obj_status (os_objective objective) = transition_target transition then Inr (Answer ())
     else
       bindE (refused (assertObjectiveStatusTransition p objectiveId (transition_target transition)
                (transition_policy transition))) (\<lambda>_.
       commit_plan
         (keyed_input objectiveId actor
            (Some (transition_name transition @ '':'' @ objectiveId @ '':'' @ nat_text (lastOrdinal p)))
            (ObjectivePayload (transition_event transition)))
         (\<lambda>_. ()))))"

definition pauseObjective :: "string \<Rightarrow> OrchestrationActorKind \<Rightarrow> unit decision" where
  "pauseObjective objectiveId actor = transitionObjective objectiveId PauseObjective actor"

definition resumeObjective :: "string \<Rightarrow> unit decision" where
  "resumeObjective objectiveId = transitionObjective objectiveId ResumeObjective ActorHuman"

definition cancelObjective :: "string \<Rightarrow> unit decision" where
  "cancelObjective objectiveId = transitionObjective objectiveId CancelObjective ActorHuman"

definition completeObjective :: "string \<Rightarrow> unit decision" where
  "completeObjective objectiveId = transitionObjective objectiveId (CompleteObjective PolicyTaskEvidence) ActorHuman"

definition completeObjectiveFromOwner ::
  "json_env \<Rightarrow> store \<Rightarrow> externals \<Rightarrow> externals \<Rightarrow> string \<Rightarrow> bool \<Rightarrow> runtime_world \<Rightarrow> (runtime_error + unit) \<times> runtime_world" where
  "completeObjectiveFromOwner J S x x' objectiveId acceptanceOverride w =
     then_run (refresh J S (x_compaction x 0) w) (\<lambda>_ w1.
       case requireObjective (rt_projection (fst w1)) objectiveId of
         Inl e \<Rightarrow> (Inl e, w1)
       | Inr objective \<Rightarrow>
           if obj_status (os_objective objective) = ObjCompleted then (Inr (), w1)
           else if obj_status (os_objective objective) = ObjCancelled then (Inl (CommandInvalid ''The objective is terminal.''), w1)
           else run_command J S x' (transitionObjective objectiveId
                  (CompleteObjective (if acceptanceOverride then PolicyOwnerOverride else PolicyOwnerEvidence)) ActorHuman) w1)"

section \<open>Tasks\<close>

record CreateTaskInput =
  it_subscriptions :: "HostEventSubscriptionInput list option"
  it_taskId :: "string option"
  it_objectiveId :: string
  it_title :: string
  it_description :: string
  it_role :: WorkerRole
  it_dependsOn :: "string list"
  it_requiredCapabilities :: "HarnessCapability list"
  it_acceptanceCriterionIds :: "string list"
  it_verificationOfTaskId :: "string option"
  it_verificationOfAttemptId :: "string option"
  it_riskBudget :: RiskBudget

definition validateTaskDependencyIds ::
  "TaskRuntimeProjection \<Rightarrow> string \<Rightarrow> string list \<Rightarrow> runtime_error + string list" where
  "validateTaskDependencyIds p objectiveId values =
     bindE (dispatchIdentifierArray values) (\<lambda>dependencyIds.
     bindE (forE (\<lambda>dependencyId. refused (require
                (case map_of (tasks p) dependencyId of
                   Some dependency \<Rightarrow> task_objectiveId (ts_task dependency) = objectiveId | None \<Rightarrow> False)
                (TaskError (TaskDependencyForeign dependencyId)))) dependencyIds) (\<lambda>_.
     Inr dependencyIds))"

definition retained_task_text :: "string \<Rightarrow> runtime_error + string" where
  "retained_task_text value =
     bindE (valid (js_trim value \<noteq> []) ''The text is required.'') (\<lambda>_.
     bindE (valid (length (js_trim value) \<le> MAX_ORCHESTRATION_DESCRIPTION_LENGTH)
              ''The text exceeds its durable size bound.'') (\<lambda>_.
     Inr (js_trim value)))"

definition optionalDispatchIdentifier :: "string option \<Rightarrow> runtime_error + string option" where
  "optionalDispatchIdentifier value =
     (case value of None \<Rightarrow> Inr None | Some v \<Rightarrow> bindE (refused (dispatchIdentifier v)) (\<lambda>k. Inr (Some k)))"

definition taskFromValue :: "TaskContract \<Rightarrow> runtime_error + TaskContract" where
  "taskFromValue task =
     bindE (valid (length (task_requiredCapabilities task) \<le> MAX_ORCHESTRATION_COLLECTION_LENGTH \<and>
                   distinct (task_requiredCapabilities task))
              ''task.requiredCapabilities must be a bounded capability array.'') (\<lambda>_.
     bindE (assertRiskBudget (task_riskBudget task)) (\<lambda>_.
     bindE (refused (dispatchIdentifier (task_taskId task))) (\<lambda>taskId.
     bindE (refused (dispatchIdentifier (task_objectiveId task))) (\<lambda>objectiveId.
     bindE (retained_task_text (task_title task)) (\<lambda>title.
     bindE (retained_task_text (task_description task)) (\<lambda>description.
     bindE (dispatchIdentifierArray (task_dependsOn task)) (\<lambda>dependsOn.
     bindE (dispatchIdentifierArray (task_acceptanceCriterionIds task)) (\<lambda>criterionIds.
     bindE (optionalDispatchIdentifier (task_verificationOfAttemptId task)) (\<lambda>_.
     bindE (optionalDispatchIdentifier (task_verificationOfTaskId task)) (\<lambda>_.
     Inr (task\<lparr>task_title := title, task_description := description\<rparr>)))))))))))"

definition contract_of_input :: "CreateTaskInput \<Rightarrow> string \<Rightarrow> string list \<Rightarrow> timestamp \<Rightarrow> TaskContract" where
  "contract_of_input input taskId dependsOn now =
     \<lparr>task_taskId = taskId, task_schemaVersion = ORCHESTRATION_SCHEMA_VERSION,
      task_objectiveId = it_objectiveId input, task_title = js_trim (it_title input),
      task_description = js_trim (it_description input), task_role = it_role input,
      task_status = (if dependsOn = [] then TaskReady else TaskPending), task_dependsOn = dependsOn,
      task_requiredCapabilities = js_unique (it_requiredCapabilities input),
      task_acceptanceCriterionIds = js_unique (it_acceptanceCriterionIds input),
      task_verificationOfTaskId = (if truthy (it_verificationOfTaskId input) then it_verificationOfTaskId input else None),
      task_verificationOfAttemptId =
        (if truthy (it_verificationOfAttemptId input) then it_verificationOfAttemptId input else None),
      task_riskBudget = it_riskBudget input, task_createdAt = now, task_updatedAt = now\<rparr>"

definition buildTask ::
  "command_env \<Rightarrow> CreateTaskInput \<Rightarrow> TaskRuntimeProjection \<Rightarrow> runtime_error + (TaskContract \<times> ObjectiveRuntimeState)" where
  "buildTask E input p =
     bindE (valid (truthy (it_verificationOfTaskId input) \<longrightarrow> truthy (it_verificationOfAttemptId input))
              ''A new verifier requires an exact subject attempt.'') (\<lambda>_.
     bindE (assertRiskBudget (it_riskBudget input)) (\<lambda>_.
     bindE (requireObjective p (it_objectiveId input)) (\<lambda>objectiveState.
     bindE (refused (require (obj_status (os_objective objectiveState) = ObjActive)
              (ObjectiveError (ObjectiveNotActive (it_objectiveId input))))) (\<lambda>_.
     bindE (validateTaskDependencyIds p (it_objectiveId input) (it_dependsOn input)) (\<lambda>dependsOn.
     bindE (nowIso E 0) (\<lambda>now.
     bindE (taskFromValue (contract_of_input input
              (case it_taskId input of Some k \<Rightarrow> k | None \<Rightarrow> ''task-'' @ ce_id E) dependsOn now)) (\<lambda>task.
     bindE (refused (require (map_of (tasks p) (task_taskId task) = None)
              (TaskError (TaskCreatedTwice (task_taskId task))))) (\<lambda>_.
     bindE (refused (validateTaskContractForState p task)) (\<lambda>_.
     Inr (task, objectiveState))))))))))"

definition createTask :: "command_env \<Rightarrow> CreateTaskInput \<Rightarrow> TaskContract decision" where
  "createTask E input p =
     bindE (buildTask E input p) (\<lambda>(task, objectiveState).
     bindE (refused (assertRecordHasCapacity FieldTasks (tasks p) MAX_ORCHESTRATION_TASKS)) (\<lambda>_.
     bindE (refused (assertIdentifierListHasCapacity (os_taskIds objectiveState) MAX_ORCHESTRATION_TASKS)) (\<lambda>_.
     commit_plan
       (keyed_input (task_objectiveId task) ActorRuntime (Some (''task-created:'' @ task_taskId task))
          (TaskPayload (TaskCreated task (it_subscriptions input))))
       (\<lambda>q. ts_task (task_of (task_taskId task) q)))))"

text \<open>The identifier of the attempt is a second one the command draws.\<close>

definition prepareTaskAttempt ::
  "command_env \<Rightarrow> string \<Rightarrow> CreateTaskInput \<Rightarrow> OrchestrationDispatchRequest \<Rightarrow> string option \<Rightarrow>
   (TaskContract \<times> AttemptRuntimeState) decision" where
  "prepareTaskAttempt E nextId input dispatch grantId p =
     bindE (buildTask E input p) (\<lambda>(task, objectiveState).
     let taskState = \<lparr>ts_task = task, ts_attemptIds = [], ts_verification = None\<rparr> in
     bindE (normalizeDispatchForTask taskState dispatch) (\<lambda>normalized.
     bindE (refused (assertTaskAttemptBudgetForState taskState (os_objective objectiveState))) (\<lambda>_.
     bindE (refused (assertRecordHasCapacity FieldTasks (tasks p) MAX_ORCHESTRATION_TASKS)) (\<lambda>_.
     bindE (refused (assertIdentifierListHasCapacity (os_taskIds objectiveState) MAX_ORCHESTRATION_TASKS)) (\<lambda>_.
     bindE (refused (assertRecordHasCapacity FieldAttempts (attempts p) MAX_ORCHESTRATION_ATTEMPTS)) (\<lambda>_.
     let attemptId = ''attempt-'' @ nextId in
     Inr (Commit
       (keyed_input (task_taskId task) ActorRuntime
          (Some (''task-attempt-prepared:'' @ task_taskId task @ '':'' @ attemptId))
          (TaskPayload (TaskAttemptPrepared task (it_subscriptions input)
            \<lparr>qa_attemptId = attemptId, qa_taskId = task_taskId task, qa_dispatch = normalized,
             qa_grantId = (if truthy grantId then grantId else None)\<rparr>)))
       (ce_admission E (dispatch_receiptOrigin dispatch))
       (\<lambda>q. (ts_task (task_of (task_taskId task) q), attempt_of attemptId q)))))))))"

section \<open>Approvals and notifications\<close>

definition approval_of :: "string \<Rightarrow> TaskRuntimeProjection \<Rightarrow> ApprovalRuntimeState" where
  "approval_of k p = the (map_of (approvals p) k)"

definition requestApproval :: "ApprovalRequestContract \<Rightarrow> ApprovalRuntimeState decision" where
  "requestApproval approval p =
     (let approvalId = apr_approvalId approval in
      case map_of (approvals p) approvalId of
        Some existing \<Rightarrow>
          bindE (valid (as_request existing = approval) ''The approval id has conflicting content.'') (\<lambda>_.
          Inr (Answer existing))
      | None \<Rightarrow>
          bindE (refused (assertApprovalRequestTransition p (approval_target approval) approval)) (\<lambda>_.
          bindE (refused (assertRecordHasCapacity FieldApprovals (approvals p) MAX_ORCHESTRATION_APPROVALS)) (\<lambda>_.
          bindE (refused (assertRecordHasCapacity FieldNotifications (notifications p) MAX_ORCHESTRATION_NOTIFICATIONS)) (\<lambda>_.
          commit_plan
            (keyed_input (approval_target approval) ActorPolicy (Some (''approval-requested:'' @ approvalId))
               (ApprovalPayload (ApprovalRequested approval)))
            (approval_of approvalId)))))"

definition resolveApproval :: "command_env \<Rightarrow> string \<Rightarrow> ApprovalOutcome \<Rightarrow> string \<Rightarrow> ApprovalRuntimeState decision" where
  "resolveApproval E approvalId outcome reasonCode p =
     bindE (refused (lookupE (approvals p) approvalId (ApprovalError (UnknownApproval approvalId)))) (\<lambda>approval.
     if as_status approval \<noteq> ApprovalPending
     then bindE (refused (require (as_status approval = ApprovalResolved outcome)
                   (ApprovalError (ApprovalAlreadyResolved approvalId)))) (\<lambda>_. Inr (Answer approval))
     else
       bindE (valid (js_trim reasonCode \<noteq> []) ''Approval resolution reason is required.'') (\<lambda>_.
       bindE (nowIso E 0) (\<lambda>now.
       let resolution = \<lparr>ars_approvalId = approvalId, ars_schemaVersion = ORCHESTRATION_SCHEMA_VERSION,
             ars_outcome = outcome, ars_reasonCode = js_trim reasonCode, ars_resolvedAt = now\<rparr>;
           target = approval_target (as_request approval) in
       bindE (refused (assertApprovalResolutionTransition p target resolution)) (\<lambda>_.
       commit_plan
         (keyed_input target ActorHuman (Some (''approval-resolved:'' @ approvalId))
            (ApprovalPayload (ApprovalResolvedEvent resolution)))
         (approval_of approvalId)))))"

definition notification_of :: "string \<Rightarrow> TaskRuntimeProjection \<Rightarrow> NotificationRuntimeState" where
  "notification_of k p = the (map_of (notifications p) k)"

definition enqueueNotification ::
  "command_env \<Rightarrow> string option \<Rightarrow> string \<Rightarrow> string option \<Rightarrow> string \<Rightarrow> NotificationRuntimeState decision" where
  "enqueueNotification E chosenId objectiveId attemptId message p =
     bindE (refused (assertNotificationTarget p objectiveId attemptId)) (\<lambda>_.
     let notificationId = (case chosenId of Some k \<Rightarrow> k | None \<Rightarrow> ''notification-'' @ ce_id E) in
     case map_of (notifications p) notificationId of
       Some existing \<Rightarrow>
         bindE (valid (note_objectiveId existing = objectiveId \<and> note_attemptId existing = attemptId \<and>
                       note_message existing = message) ''The notification id has conflicting content.'') (\<lambda>_.
         Inr (Answer existing))
     | None \<Rightarrow>
         bindE (refused (assertRecordHasCapacity FieldNotifications (notifications p) MAX_ORCHESTRATION_NOTIFICATIONS)) (\<lambda>_.
         commit_plan
           (keyed_input objectiveId ActorRuntime (Some (''notification-enqueued:'' @ notificationId))
              (NotificationPayload (NotificationEnqueued notificationId objectiveId attemptId message)))
           (notification_of notificationId)))"

definition markNotificationDelivered :: "string \<Rightarrow> NotificationRuntimeState decision" where
  "markNotificationDelivered notificationId p =
     bindE (refused (lookupE (notifications p) notificationId (ApprovalError (UnknownNotification notificationId)))) (\<lambda>note.
     if note_status note = NoteDelivered then Inr (Answer note)
     else commit_plan
       (keyed_input (note_objectiveId note) ActorRuntime (Some (''notification-delivered:'' @ notificationId))
          (NotificationPayload (NotificationDelivered notificationId)))
       (notification_of notificationId))"

end
