(* ===== verification/Command_Properties.thy ===== *)
theory Command_Properties
  imports Owner_Commands Handler_Effects Sample_Log
begin

text \<open>
  Properties of the commands of the durable task runtime: a command whose event the reducer has accepted answers
  without writing when it is given again.
\<close>

section \<open>Repetition\<close>

fun answered :: "runtime_error + 'r plan \<Rightarrow> bool" where
  "answered (Inl e) = False"
| "answered (Inr (Answer v)) = True"
| "answered (Inr (Commit input admission answer)) = False"

lemma answered_bind [simp]: "answered (bindE m f) \<longleftrightarrow> (\<exists>x. m = Inr x \<and> answered (f x))"
  by (cases m) simp_all

text \<open>
  Whatever the command commits on a projection: once an event with that aggregate and that payload has been reduced
  there, with any instant and any other header, the same command answers.
\<close>

definition repeat_inert :: "'r decision \<Rightarrow> bool" where
  "repeat_inert decide \<longleftrightarrow>
     (\<forall>J p c e input admission answer p' c'.
        decide p = Inr (Commit input admission answer) \<longrightarrow>
        eh_ordinal e = lastOrdinal p + 1 \<longrightarrow> eh_aggregateId e = in_aggregateId input \<longrightarrow> ev_payload e = in_payload input \<longrightarrow>
        reduceOrchestrationEvent J (p, c) e = Inr (p', c') \<longrightarrow>
        answered (decide p'))"

lemma inertI:
  assumes "\<And>J p b header d n input admission answer.
      decide p = Inr (Commit input admission answer) \<Longrightarrow> eh_aggregateId header = in_aggregateId input \<Longrightarrow>
      applyOrchestrationPayload J header (in_payload input) (draft_of p b) = Inr d \<Longrightarrow>
      answered (decide (reduced d n))"
  shows "repeat_inert decide"
  unfolding repeat_inert_def
proof (intro allI impI)
  fix J p c e input admission answer p' c'
  assume com: "decide p = Inr (Commit input admission answer)" and n: "eh_ordinal e = lastOrdinal p + 1"
    and e: "eh_aggregateId e = in_aggregateId input" "ev_payload e = in_payload input"
    and red: "reduceOrchestrationEvent J (p, c) e = Inr (p', c')"
  from red show "answered (decide p')"
  proof (cases rule: reduce_cases)
    case (new bytes d b)
    with assms [OF com, of "EventHeader.truncate e"] e show ?thesis by (simp add: EventHeader.defs)
  qed (use n in simp)
qed

lemma ex_guarded: "(\<exists>x. (P x \<longrightarrow> y = x) \<and> P x) \<longleftrightarrow> P y"
  by auto

lemma ex_guarded3:
  "(\<exists>x. (P x \<longrightarrow> y = x) \<and> (Q x \<longrightarrow> y = x) \<and> (R x \<longrightarrow> y = x) \<and> (P x \<or> Q x \<or> R x)) \<longleftrightarrow> P y \<or> Q y \<or> R y"
  by auto

lemmas command_simps = ex_guarded ex_guarded3 keyed_input_def requireAttempt_def requireObjective_def lookup_defs lookupE_def Let_def

lemma retire_inert: "repeat_inert (retireAgent g)"
proof (rule inertI)
  fix J p b header d n input admission answer
  assume com: "retireAgent g p = Inr (Commit input admission answer)"
    and run: "applyOrchestrationPayload J header (in_payload input) (draft_of p b) = Inr d"
  from com obtain k where k: "dispatchIdentifier (js_trim g) = Inr k" "in_payload input = AgentPayload (AgentRetiredEvent k)"
    by (auto simp: retireAgent_def keyed_input_def split: if_split_asm)
  with run have "apply_agent_retired J header k (draft_of p b) = Inr d" by simp
  from retired_status [OF this] obtain agent where "map_of (agents d) k = Some agent" "agent_status agent = AgentRetired" by blast
  with k show "answered (retireAgent g (reduced d n))"
    by (simp add: retireAgent_def assertAgentRetirementEligible_def command_simps)
qed

lemma fail_inert: "repeat_inert (failTask t why)"
proof (rule inertI)
  fix J p b header d n input admission answer
  assume com: "failTask t why p = Inr (Commit input admission answer)"
    and run: "applyOrchestrationPayload J header (in_payload input) (draft_of p b) = Inr d"
  from com obtain reason where "in_payload input = TaskPayload (TaskFailedEvent t reason)"
    by (auto simp: failTask_def keyed_input_def split: if_split_asm)
  with run have "apply_task_failed J header t reason (draft_of p b) = Inr d" by simp
  then obtain task where "map_of (tasks d) t = Some task" "task_status (ts_task task) = TaskFailed"
    by (auto simp: apply_task_failed_def with_task_status_def dest!: put_task_fields)
  then show "answered (failTask t why (reduced d n))" by (simp add: failTask_def command_simps)
qed

lemma managed_inert: "repeat_inert (recordManagedLifetime a lane n life)"
proof (rule inertI)
  fix J p b header d m input admission answer
  assume com: "recordManagedLifetime a lane n life p = Inr (Commit input admission answer)"
    and run: "applyOrchestrationPayload J header (in_payload input) (draft_of p b) = Inr d"
  from com obtain attempt where at: "assertManagedLifetimeTransition p a lane n life = Inr attempt"
    and new: "att_managedLifetime attempt \<noteq> Some life" and input: "in_payload input = AttemptPayload (ManagedLifecycle a life n lane)"
    by (auto simp: recordManagedLifetime_def keyed_input_def split: if_split_asm)
  have "assertManagedLifetimeTransition (draft_of p b) a lane n life = Inr attempt"
    using at by (simp add: assertManagedLifetimeTransition_def command_simps)
  with run input new have put: "put_attempt J a (attempt\<lparr>att_managedLifetime := Some life, att_updatedAt := eh_occurredAt header\<rparr>) (draft_of p b) = Inr d"
    by (auto simp: apply_managed_lifecycle_def split: if_split_asm)
  have "assertManagedLifetimeTransition (reduced d m) a lane n life = Inr (attempt\<lparr>att_managedLifetime := Some life, att_updatedAt := eh_occurredAt header\<rparr>)"
    using at put_attempt_fields [OF put] by (auto simp: assertManagedLifetimeTransition_def lookup_defs)
  then show "answered (recordManagedLifetime a lane n life (reduced d m))" by (simp add: recordManagedLifetime_def)
qed

lemma usage_receipt_inert: "repeat_inert (acknowledgeUsageReceipt a u)"
  by (rule inertI)
    (auto simp: acknowledgeUsageReceipt_def command_simps apply_usage_delivered_def opt_record_def
      split: if_split_asm option.split_asm dest!: put_attempt_fields)

lemma parent_write_inert: "repeat_inert (acknowledgeParentWrite a u)"
  by (rule inertI)
    (auto simp: acknowledgeParentWrite_def command_simps apply_parent_write_imported_def opt_record_def
      split: if_split_asm option.split_asm dest!: put_attempt_fields)

lemma delivered_inert: "repeat_inert (markNotificationDelivered n)"
  by (rule inertI)
    (auto simp: markNotificationDelivered_def command_simps apply_notification_delivered_def
      split: if_split_asm option.split_asm dest!: put_notification_fields)

lemma request_inert: "repeat_inert (requestApproval approval)"
  by (rule inertI)
    (auto simp: requestApproval_def command_simps apply_approval_requested_def
      split: if_split_asm option.split_asm dest!: put_approval_fields put_notification_fields)

lemma enqueue_inert: "repeat_inert (enqueueNotification E (Some k) o' None m)"
  by (rule inertI)
    (auto simp: enqueueNotification_def command_simps apply_notification_enqueued_def assertNotificationTarget_def
      split: if_split_asm option.split_asm dest!: put_notification_fields)

lemma enqueue_for_inert: "a \<noteq> [] \<Longrightarrow> repeat_inert (enqueueNotification E (Some k) o' (Some a) m)"
  by (rule inertI)
    (auto simp: enqueueNotification_def command_simps apply_notification_enqueued_def assertNotificationTarget_def truthy_def
      split: if_split_asm option.split_asm dest!: put_notification_fields)

lemma cancel_inert: "repeat_inert (cancelAttempt a why None detail)"
proof (rule inertI)
  fix J p b header d n input admission answer
  assume com: "cancelAttempt a why None detail p = Inr (Commit input admission answer)"
    and run: "applyOrchestrationPayload J header (in_payload input) (draft_of p b) = Inr d"
  from com obtain reason where "in_payload input = AttemptPayload (AttemptCancelledEvent a reason (if truthy detail then detail else None))"
    by (auto simp: cancelAttempt_def command_simps split: if_split_asm option.split_asm)
  with run have "apply_attempt_cancelled J header a reason (if truthy detail then detail else None) (draft_of p b) = Inr d" by simp
  then show "answered (cancelAttempt a why None detail (reduced d n))"
    by (elim cancellation_fields) (simp add: cancelAttempt_def command_simps)
qed

lemma objective_for_attempt_cong:
  "objectives p = objectives q \<Longrightarrow> tasks p = tasks q \<Longrightarrow>
   objectiveForAttemptInProjection p attempt = objectiveForAttemptInProjection q attempt"
  by (simp add: objectiveForAttemptInProjection_def split: option.split)

lemma resume_request_inert: "repeat_inert (requestAgentResume E g a)"
proof (rule inertI)
  fix J p b header d n input admission answer
  assume com: "requestAgentResume E g a p = Inr (Commit input admission answer)"
    and run: "applyOrchestrationPayload J header (in_payload input) (draft_of p b) = Inr d"
  from com obtain agent attempt where at: "map_of (agents p) g = Some agent" "map_of (attempts p) a = Some attempt"
    "att_status attempt = AttSuspended" "att_agentId attempt = Some g" "agent_activeAttemptId agent = Some a"
    "assertRetryBackoffElapsedAt attempt (now_ms E 0) = Inr ()" "agent_status agent = AgentSuspended"
    and objective: "\<exists>c. requireActiveObjectiveForAttemptInProjection p attempt = Inr c"
    and input: "in_payload input = AgentPayload (AgentResumeRequested g a)"
    by (auto simp: requestAgentResume_def command_simps split: if_split_asm option.split_asm)
  from run input at obtain now where "put_agent J g (agent\<lparr>agent_status := AgentResuming, agent_updatedAt := now\<rparr>) (draft_of p b) = Inr d"
    by (auto simp: apply_agent_resume_requested_def command_simps split: if_split_asm option.split_asm)
  from put_agent_fields [OF this] have same: "objectives d = objectives p" "tasks d = tasks p" "attempts d = attempts p"
    and g: "map_of (agents d) g = Some (agent\<lparr>agent_status := AgentResuming, agent_updatedAt := now\<rparr>)" by simp_all
  have "requireActiveObjectiveForAttemptInProjection (reduced d n) attempt = requireActiveObjectiveForAttemptInProjection p attempt"
    using objective_for_attempt_cong [of "reduced d n" p attempt] same by (simp add: requireActiveObjectiveForAttemptInProjection_def)
  with objective at g same show "answered (requestAgentResume E g a (reduced d n))"
    by (auto simp: requestAgentResume_def command_simps assertAgentNotRetired_def)
qed

lemma resolve_inert: "repeat_inert (resolveApproval E y outcome why)"
proof (rule inertI)
  fix J p b header d n input admission answer
  assume com: "resolveApproval E y outcome why p = Inr (Commit input admission answer)"
    and run: "applyOrchestrationPayload J header (in_payload input) (draft_of p b) = Inr d"
  from com obtain resolution where input: "in_payload input = ApprovalPayload (ApprovalResolvedEvent resolution)"
    and r: "ars_approvalId resolution = y" "ars_outcome resolution = outcome"
    by (auto simp: resolveApproval_def command_simps split: if_split_asm option.split_asm)
  from run input r resolved_status [of J header resolution "draft_of p b" d] obtain ap where
    "map_of (approvals d) y = Some ap" "as_status ap = ApprovalResolved outcome" by auto
  then show "answered (resolveApproval E y outcome why (reduced d n))"
    by (simp add: resolveApproval_def command_simps)
qed

lemma transition_status:
  assumes "applyObjectiveEvent J header (transition_event transition) d = Inr d'"
  shows "\<exists>os. map_of (objectives d') (eh_aggregateId header) = Some os \<and> obj_status (os_objective os) = transition_target transition"
proof -
  from assms obtain now d1 where step: "updateObjectiveStatus J (eh_aggregateId header) (transition_target transition) now d = Inr d1"
    and same: "objectives d' = objectives d1"
    by (cases transition)
      (auto simp: apply_objective_paused_def apply_objective_resumed_def apply_objective_completed_def apply_objective_cancelled_def
        dest: refreshReadyTasks_objectives cancelOpenObjectiveWork_objectives)
  from step have "\<exists>os. map_of (objectives d1) (eh_aggregateId header) = Some os \<and> obj_status (os_objective os) = transition_target transition"
    by (auto simp: updateObjectiveStatus_def lookup_defs dest!: put_objective_fields)
  with same show ?thesis by simp
qed

lemma objective_inert: "transition \<noteq> CompleteObjective PolicyTaskEvidence \<Longrightarrow> repeat_inert (transitionObjective o' transition actor)"
proof (rule inertI)
  fix J p b header d n input admission answer
  assume other: "transition \<noteq> CompleteObjective PolicyTaskEvidence"
    and com: "transitionObjective o' transition actor p = Inr (Commit input admission answer)"
    and agg: "eh_aggregateId header = in_aggregateId input"
    and run: "applyOrchestrationPayload J header (in_payload input) (draft_of p b) = Inr d"
  from com have "in_payload input = ObjectivePayload (transition_event transition)" "in_aggregateId input = o'"
    by (auto simp: transitionObjective_def command_simps split: if_split_asm)
  with run agg have "applyObjectiveEvent J header (transition_event transition) (draft_of p b) = Inr d" "eh_aggregateId header = o'" by simp_all
  then obtain os where "map_of (objectives d) o' = Some os" "obj_status (os_objective os) = transition_target transition"
    using transition_status [of J header transition "draft_of p b" d] by blast
  with other show "answered (transitionObjective o' transition actor (reduced d n))"
    by (simp add: transitionObjective_def command_simps)
qed

lemma find_append: "List.find P (xs @ ys) = (case List.find P xs of None \<Rightarrow> List.find P ys | Some x \<Rightarrow> Some x)"
  by (induction xs) auto

lemma evidence_inert: "ev_metadata evidence = None \<Longrightarrow> repeat_inert (recordObjectiveEvidence o' evidence)"
proof (rule inertI)
  fix J p b header d n input admission answer
  assume plain: "ev_metadata evidence = None" and com: "recordObjectiveEvidence o' evidence p = Inr (Commit input admission answer)"
    and agg: "eh_aggregateId header = in_aggregateId input"
    and run: "applyOrchestrationPayload J header (in_payload input) (draft_of p b) = Inr d"
  from com have input: "in_payload input = ObjectivePayload (ObjectiveEvidenceRecorded evidence)" "in_aggregateId input = o'"
    by (auto simp: recordObjectiveEvidence_def keyed_input_def split: option.split_asm if_split_asm)
  from com obtain os where os: "map_of (objectives p) o' = Some os"
    "List.find (\<lambda>c. ev_evidenceId c = ev_evidenceId evidence) (os_evidence os) = None"
    by (auto simp: recordObjectiveEvidence_def command_simps split: option.split_asm)
  from run input agg have "apply_objective_evidence_recorded J header evidence (draft_of p b) = Inr d" "eh_aggregateId header = o'" by simp_all
  with os have "put_objective J o' (os\<lparr>os_evidence := os_evidence os @ [evidence]\<rparr>) (draft_of p b) = Inr d"
    by (auto simp: apply_objective_evidence_recorded_def assertObjectiveEvidenceTransition_def lookup_defs Let_def
        split: if_split_asm option.split_asm)
  from put_objective_fields [OF this] have "map_of (objectives d) o' = Some (os\<lparr>os_evidence := os_evidence os @ [evidence]\<rparr>)" by simp
  moreover have "List.find (\<lambda>c. ev_evidenceId c = ev_evidenceId evidence) (os_evidence os @ [evidence]) = Some evidence"
    using os(2) by (simp add: find_append)
  moreover have "evidence_deep_equal evidence evidence" using plain by (simp add: evidence_deep_equal_def deep_equal_option_def)
  ultimately show "answered (recordObjectiveEvidence o' evidence (reduced d n))"
    by (simp add: recordObjectiveEvidence_def command_simps)
qed

section \<open>Commands that may be repeated\<close>


text \<open>On a ledger with one ready task, its failure is committed and accepted, and answered the second time.\<close>

definition sample_failed :: "(ledger_state \<times> ledger_state) option" where
  "sample_failed =
     (case projectOrchestrationEvents sample_env (take 3 sample_log) of
        Inr state \<Rightarrow>
          (case failTask ''t'' ''why'' (fst state) of
             Inr (Commit input admission answer) \<Rightarrow>
               (case reduceOrchestrationEvent sample_env state (sample_event 4 (in_aggregateId input) (in_payload input)) of
                  Inr state' \<Rightarrow> Some (state, state') | Inl _ \<Rightarrow> None)
           | _ \<Rightarrow> None)
      | Inl _ \<Rightarrow> None)"

lemma sample_failed_reached:
  "case sample_failed of None \<Rightarrow> False | Some (state, state') \<Rightarrow> lastOrdinal (fst state) = 3"
  by code_simp


end
