(* ===== verification/Spec2Isabelle.thy ===== *)
theory Spec2Isabelle
  imports Risk_Budget Attempt_Properties Work_Refinement Agent_Binding Policy_Compiler Gateway_Sample Reservation_Exclusion Durable_Properties Stuck_Store Command_Properties
begin

text \<open>
  The durable orchestration runtime of the coding agent, and what it grants its workers: the pure modules and the
  file-backed state of \<open>orchestration\<close>, \<open>events\<close>, \<open>autonomy\<close> and \<open>delegation\<close> under
  \<open>src/packages/coding-agent/src/core\<close>, with \<open>tool-capability-policy.ts\<close> and \<open>cost-guard.ts\<close> beside them.

  The program keeps a log of orchestration events in a directory, one file per event, with a snapshot that may
  replace its prefix. A pure reducer folds the log into a projection: the objectives of the user, their tasks, the
  attempts that execute a task, the agents that run attempts, checkpoints, approvals, notifications, and the sources,
  retained events, subscriptions and deliveries of host events. A runtime reads the projection back, decides a
  command on it, and appends an event after the reducer has admitted it, so the reducer is the place where a
  transition is either lawful or refused and the store is the place where it becomes durable. Around that core, the
  policy compiler turns what a task requires and what the owner allows into a grant, the capability gateway judges
  every tool call of a worker against its grant, the budget coordinator shares the tokens and the cost of a worker
  tree, and the reservation store keeps two workers from writing the same paths.

  \<^bold>\<open>Data and arithmetic.\<close>

  \<^item> \<open>Orch_Prelude\<close>: the error monad that stands for \<open>throw\<close> (\<open>'e + 'a\<close>, \<open>bindE\<close>, \<open>foldE\<close>), JavaScript
    objects as association lists in insertion order (\<open>js_record\<close>), numbers (\<open>jsnum\<close>: a rational, or one
    of the values that are not finite), JSON values, timestamps (a parsed instant or an unparsable text).
    \<open>Js_Strings\<close>: the string functions the code uses.
  \<^item> \<open>Orch_Contracts\<close>: the durable records and bounds of \<open>contracts.ts\<close>. \<open>Runtime_State\<close>:
    \<open>task-runtime-state.ts\<close>, the projection and its errors. \<open>Host_Event_State\<close> and \<open>Sequence_Ranges\<close>:
    \<open>host-event-contract.ts\<close>, \<open>host-event-kinds.ts\<close>, \<open>host-event-state.ts\<close>.
  \<^item> \<open>Risk_Budget\<close> (\<open>risk-budget.ts\<close>), \<open>Attempt_Usage\<close> (\<open>attempt-usage.ts\<close>), \<open>Usage_Generations\<close>
    (\<open>attempt-usage-generations.ts\<close>): budgets and the accounting of cumulative usage reports by execution
    generation. \<open>Attempt_Identity\<close>: \<open>attempt-agent-identity.ts\<close>, \<open>attempt-ordering.ts\<close>,
    \<open>verification-identity.ts\<close>. \<open>Receipt_Publication\<close>: the pure part of \<open>worker-receipt-publication.ts\<close>.

  \<^bold>\<open>The reducer.\<close>

  \<^item> \<open>Projection_Bytes\<close> and \<open>Host_Event_Capacity\<close>: \<open>task-runtime-projection.ts\<close> and
    \<open>host-event-capacity.ts\<close>, the retained limits and the incremental accounting of serialized bytes. A
    draft is a projection with the tracker's counters (\<open>ReducerDraft\<close>); every assignment of the source to
    a tracked map is a \<open>tracked_put\<close> or \<open>tracked_delete\<close>, which may throw.
  \<^item> \<open>Task_Graph\<close>, \<open>Transitions\<close>, \<open>Task_Events\<close>, \<open>Attempt_Events\<close>, \<open>Orchestration_Reducer\<close>:
    \<open>task-runtime-reducer.ts\<close> (and the checks of a task contract in \<open>task-runtime-codecs.ts\<close>): the guards,
    one definition per event handler, the dispatch, \<open>reduceOrchestrationEvent\<close> and
    \<open>projectOrchestrationEvents\<close>. \<open>Host_Event_Authority\<close>, \<open>Host_Event_Reducer\<close>, \<open>Host_Event_Deliveries\<close>:
    \<open>host-event-reducer.ts\<close>.
  \<^item> \<open>Byte_Tracking\<close> proves that every handler's effect is a sequence of tracked writes (\<open>draft_writes\<close>), which
    keep the tracked size equal to the recomputed one. \<open>Record_Laws\<close> states for each map what may be created
    under a key and what may replace a stored record (\<open>record_step\<close>, \<open>structural_step\<close>; the flag \<open>loose\<close> marks
    the writes that may bind or release an agent); \<open>Record_Writes\<close>, \<open>Task_Writes\<close>, \<open>Host_Writes\<close>,
    \<open>Attempt_Writes\<close> prove that each handler only writes that way.
  \<^item> \<open>Ledger\<close> (locale \<open>replayed_log\<close>: old events skipped, gaps refused, positions advance by one) and
    \<open>History\<close> (locale \<open>retained_map\<close>: what later events keep of a retained record) are interpreted on the
    reducer. \<open>Ledger_Properties\<close> defines the states a log can reach, with snapshots taken anywhere.
    \<open>Attempt_Properties\<close> (fences, usage, the history of an attempt), \<open>Agent_Binding\<close> (one executor per
    agent), \<open>Work_Structure\<close> and \<open>Work_Refinement\<close> (linkage, acyclic dependencies, agent lineage, and the
    abstract work machine the reducer refines) hold the properties of reached projections. \<open>Sample_Log\<close>
    holds the concrete ledgers of the witnesses, evaluated in the kernel.

  \<^bold>\<open>The store and the runtime.\<close>

  \<^item> \<open>Event_Store\<close>: \<open>event-store.ts\<close>. The state is the directory (\<open>StoreFiles\<close>) and a writer's cached index
    (\<open>SynchronizedIndexes\<close>); an operation answers its result and the list of its file operations, of which a crash
    leaves a prefix (\<open>cut_at\<close>). \<open>Store_Files\<close> says when files carry a log (\<open>holds\<close>), whose prefix a snapshot may
    have replaced, and what the reading operations return then; \<open>Store_Index\<close> does the same for the index, and says
    what later files may change (\<open>advances\<close>); \<open>Store_Operations\<close> proves what an append, a transaction and a
    compaction do to such files, cut anywhere.
  \<^item> \<open>Host_Event_Validation\<close> and \<open>Snapshot_Validation\<close>: the checks of a snapshot in \<open>host-event-codecs.ts\<close> and
    \<open>task-runtime-codecs.ts\<close>, up to \<open>projectionFromSnapshot\<close>.
  \<^item> \<open>Task_Runtime\<close>: \<open>task-runtime-reader.ts\<close> and, of \<open>task-runtime.ts\<close>, opening, refreshing, compacting,
    committing, host event transactions and the shape of a command (\<open>run_command\<close>: refresh, decide on the
    projection, commit one event). \<open>Runtime_Commands\<close> (attempts) and \<open>Owner_Commands\<close> (agents, objectives, tasks,
    approvals, notifications, room): what each command decides. \<open>Handler_Effects\<close>: what single handlers leave.
  \<^item> \<open>Runtime_Reads\<close>: \<open>replays J L p\<close> says that \<open>p\<close> is the projection of the log \<open>L\<close>; reads of files that move
    meanwhile (\<open>moments\<close>). \<open>Runtime_Runs\<close>: the step relation \<open>ledger_run\<close> of any number of runtimes over one
    directory, and its invariant. \<open>Durable_Ledger\<close>: the runtime's operations are runs. \<open>Durable_Properties\<close>: the
    properties; \<open>Sample_Store\<close> plays the concrete runs of their witnesses; \<open>Stuck_Store\<close>:
    logs that the reducer accepts and no process can reopen once they are compacted. \<open>Command_Properties\<close>: the
    commands that may be repeated.

  \<^bold>\<open>Grants, budgets and paths.\<close>

  \<^item> \<open>Tool_Capability\<close> (\<open>tool-capability-policy.ts\<close>): the capabilities a tool call needs. \<open>Policy_Compiler\<close>
    (\<open>policy-compiler.ts\<close>, \<open>lane-tool-manifests.ts\<close>): the compilation of a grant.
  \<^item> \<open>Path_Scope\<close>, \<open>Path_Containment\<close>, \<open>Symlink_Resolution\<close> (\<open>path-scope.ts\<close>): resolution and containment of
    paths, compared with the kernel's own walk of the path after \<open>path.resolve\<close> (\<open>resolves\<close>) in a file system that
    answers as documented (\<open>fs_models\<close>) and whose links do not climb (\<open>plain_links\<close>). \<open>Path_Arguments\<close> (\<open>envelope-enforcement.ts\<close>): the paths a call names.
  \<^item> \<open>Cost_Guard\<close> (\<open>cost-guard.ts\<close>), \<open>Gateway_Usage\<close>, \<open>Tree_Budget\<close> and \<open>Tree_Reservations\<close>
    (\<open>worker-tree-budget-coordinator.ts\<close>): the cost of a turn and the waiting queue of a worker tree, a promise being
    a ticket. \<open>Shared_Budget\<close>: the locale \<open>shared_budget\<close>, what a gateway relies on, interpreted on the coordinator's
    tree and on the budget bounded by a run.
  \<^item> \<open>Capability_Gateway\<close>, \<open>Gateway_Calls\<close>, \<open>Gateway_Sample\<close> (\<open>capability-gateway.ts\<close>): the judgement and the
    charge of a tool call.
  \<^item> \<open>Write_Reservation\<close>, \<open>Reservation_Exclusion\<close> (\<open>worker-write-reservation.ts\<close>,
    \<open>worker-process-owner.ts\<close>): the leases on write scopes.

  \<^bold>\<open>Conventions, hypotheses and bounds.\<close> Payloads are decoded values: the schema checks of the codecs are outside the
  model. The sizes \<open>JSON.stringify\<close> gives a record and the SHA-256 digests are the parameters \<open>J\<close> (\<open>json_env\<close>) and
  \<open>S\<close> (\<open>store_env\<close>); of them the durable properties assume only that a digest is not empty (\<open>digests\<close>) and that the
  limits the store was opened with are positive (\<open>limits_positive\<close>), which its constructor checks. A store is opened
  again under two conditions the code does not establish: the directory stays within the listing bound
  (\<open>listable\<close>), and the validator accepts the projections of the log (\<open>snapshots_accepted\<close>), which \<open>Stuck_Store\<close>
  shows is not always so. Reads are exact for logs whose retained notification messages have no outer white space
  (\<open>messages_trimmed\<close>): the reducer keeps a message as it was given and the snapshot decoder trims it, so a runtime
  that reads a snapshot of any other log holds other texts. Write reservations exclude each other when every stored scope
  is free of outer white space (\<open>trims_to_itself\<close>), which the code does not enforce and \<open>trailing_space_reserved_twice\<close>
  shows to be needed. Numbers are exact rationals where the program has doubles: sums of costs and wall clock times may
  differ from the program's in the last place. A refresh reads the directory at one moment; reads that overlap writes are
  treated on their own (\<open>moments\<close>). Leftover temporary files count in the program's bound on directory names and are not
  part of the model's directory. Clocks,
  identifiers, the granting of locks and the file operation at which a process ends are arguments. Fencing tokens,
  ordinals and sequence numbers are naturals: the codecs admit only safe non-negative integers. The loops of the
  lineage walks, of the dependency search and of the link resolution are total recursions whose measure is the number
  of records not yet visited, or of hops left; fuel appears only in the kernel's path walk of the witnesses. The
  retained bounds (record counts, list lengths, projection bytes) are the constants of the source.

  \<^bold>\<open>Not modelled.\<close> JSON decoding, the caches that spare a read of an unchanged file, the acquisition of locks,
  listeners and directory watchers, of \<open>task-runtime.ts\<close> only \<open>assertObjectiveSynchronizationHeadroom\<close>,
  \<open>policy-gate.ts\<close>, asynchronous delivery loops, of the budget bounded by a run the chain after the first promise,
  of \<open>envelope-enforcement.ts\<close> the assessment of an envelope and the tool wrapper, profiles, and the rest of the
  repository (user interface, model providers, sessions), which are input and output around this core.
\<close>

end
